(* ===== verification/Prelude.thy ===== *)
theory Prelude
  imports Main "HOL-Library.Word" "HOL-Library.AList" "HOL-Library.Sublist"
    "HOL-Library.Char_ord" "HOL-Library.List_Lexorder" "HOL-Library.Multiset"
begin

text \<open>
  What the components share: the standard-library operations on text and numbers that the
  sources use, facts on association lists, and the two interfaces that recur in every
  component, a machine with an invariant and a machine with an append-only log.

  Text is a HOL \<open>string\<close> read as ASCII text: one \<open>char\<close> is one byte of a Rust
  \<open>String\<close> and one code unit of a \<open>QString\<close>. White space, upper and lower case are the
  ASCII ones; the Unicode classes of the two standard libraries agree with them there.
\<close>

section \<open>Text\<close>

definition is_ws :: "char \<Rightarrow> bool" where
  "is_ws c \<longleftrightarrow> c = CHR 0x09 \<or> c = CHR 0x0A \<or> c = CHR 0x0B \<or> c = CHR 0x0C \<or> c = CHR 0x0D
     \<or> c = CHR 0x20"

text \<open>\<open>str::trim\<close>, \<open>QString::trimmed\<close>, \<open>str::trim_start_matches\<close> of one character.\<close>

definition trim :: "string \<Rightarrow> string" where
  "trim s = rev (dropWhile is_ws (rev (dropWhile is_ws s)))"

definition trim_start_char :: "char \<Rightarrow> string \<Rightarrow> string" where
  "trim_start_char c s = dropWhile (\<lambda>d. d = c) s"

definition lower_char :: "char \<Rightarrow> char" where
  "lower_char c =
     (if 65 \<le> (of_char c :: nat) \<and> (of_char c :: nat) \<le> 90
      then char_of ((of_char c :: nat) + 32) else c)"

definition to_lower :: "string \<Rightarrow> string" where
  "to_lower s = map lower_char s"

text \<open>\<open>str::split_whitespace\<close>: the maximal runs of characters that are not white space.\<close>

function split_ws :: "string \<Rightarrow> string list" where
  "split_ws s =
     (let r = dropWhile is_ws s
      in if r = [] then []
         else takeWhile (\<lambda>c. \<not> is_ws c) r # split_ws (dropWhile (\<lambda>c. \<not> is_ws c) r))"
  by pat_completeness auto
termination
proof (relation "measure length")
  fix s :: string and r :: string
  assume r: "r = dropWhile is_ws s" and ne: "r \<noteq> []"
  obtain c cs where cs: "r = c # cs" using ne by (cases r) auto
  have "\<not> is_ws c" using hd_dropWhile [of is_ws s] ne unfolding r [symmetric] by (simp add: cs)
  then have "length (dropWhile (\<lambda>c. \<not> is_ws c) r) \<le> length cs"
    by (simp add: cs length_dropWhile_le)
  also have "\<dots> < length r" by (simp add: cs)
  also have "\<dots> \<le> length s" by (simp add: r length_dropWhile_le)
  finally show "(dropWhile (\<lambda>c. \<not> is_ws c) r, s) \<in> measure length" by simp
qed simp

declare split_ws.simps [simp del]

text \<open>\<open>str::contains\<close> and \<open>QString::contains\<close>.\<close>

fun str_contains :: "string \<Rightarrow> string \<Rightarrow> bool" where
  "str_contains [] k = (k = [])"
| "str_contains (c # cs) k = (prefix k (c # cs) \<or> str_contains cs k)"

definition strip_prefix :: "string \<Rightarrow> string \<Rightarrow> string option" where
  "strip_prefix p s = (if prefix p s then Some (drop (length p) s) else None)"

fun str_join :: "string \<Rightarrow> string list \<Rightarrow> string" where
  "str_join sep [] = []"
| "str_join sep [x] = x"
| "str_join sep (x # y # ys) = x @ sep @ str_join sep (y # ys)"

text \<open>\<open>str::split\<close> and the \<open>split\<close> of scripts, on one character: one more part than there are occurrences.\<close>

fun split_on :: "char \<Rightarrow> string \<Rightarrow> string list" where
  "split_on c [] = [[]]"
| "split_on c (d # ds) =
     (if d = c then [] # split_on c ds
      else (case split_on c ds of [] \<Rightarrow> [[d]] | w # ws \<Rightarrow> (d # w) # ws))"

text \<open>\<open>str::replace\<close>: the matches from left to right, without overlap; the pattern is not empty.\<close>

function str_replace :: "string \<Rightarrow> string \<Rightarrow> string \<Rightarrow> string" where
  "str_replace v r s =
     (if v = [] then s
      else case s of
        [] \<Rightarrow> []
      | c # cs \<Rightarrow> if prefix v s then r @ str_replace v r (drop (length v) s)
                 else c # str_replace v r cs)"
  by pat_completeness auto
termination
  by (relation "measure (\<lambda>(v, r, s). length s)") auto

declare str_replace.simps [simp del]

lemma str_contains_iff: "str_contains s k \<longleftrightarrow> sublist k s"
  by (induction s) (auto simp: sublist_Cons_right)

lemma str_replace_Nil: "str_replace v r [] = []"
  by (simp add: str_replace.simps)

lemma str_replace_Cons:
  "v \<noteq> [] \<Longrightarrow> str_replace v r (c # cs) =
    (if prefix v (c # cs) then r @ str_replace v r (drop (length v) (c # cs)) else c # str_replace v r cs)"
  by (subst str_replace.simps) simp

text \<open>
  A text that has neither end of the replacement among its characters and does not occur in it
  occurs in the result only where it occurred before, and the replaced text itself nowhere.
\<close>

definition apart :: "string \<Rightarrow> string \<Rightarrow> bool" where
  "apart v r \<longleftrightarrow> v \<noteq> [] \<and> r \<noteq> [] \<and> hd r \<notin> set v \<and> last r \<notin> set v \<and> \<not> str_contains r v"

lemma prefix_str_replace:
  assumes "w \<noteq> []" and "r \<noteq> []"
  shows "hd r \<notin> set u \<Longrightarrow> prefix u (str_replace w r s) \<Longrightarrow> prefix u s"
proof (induction s arbitrary: u)
  case (Cons c cs)
  show ?case
  proof (cases "prefix w (c # cs)")
    case True
    then have "prefix u (r @ str_replace w r (drop (length w) (c # cs)))"
      using Cons.prems(2) assms(1) by (simp add: str_replace_Cons)
    then have "u = []" using Cons.prems(1) assms(2) by (cases u; cases r) auto
    then show ?thesis by simp
  next
    case False
    then have "prefix u (c # str_replace w r cs)" using Cons.prems(2) assms(1) by (simp add: str_replace_Cons)
    then show ?thesis using Cons.IH Cons.prems(1) by (cases u) auto
  qed
qed (simp add: str_replace_Nil)

lemma str_contains_after:
  assumes "apart v r" and "str_contains (r @ x) v"
  shows "str_contains x v"
proof -
  consider "sublist v r" | "sublist v x" | xs1 xs2 where "v = xs1 @ xs2" "suffix xs1 r" "prefix xs2 x"
    using assms(2) by (auto simp: str_contains_iff sublist_append)
  then show ?thesis
  proof cases
    case 3
    have "xs1 = []"
    proof (rule ccontr)
      assume ne: "xs1 \<noteq> []"
      then have "last xs1 = last r" using 3(2) by (auto simp: suffix_def)
      then have "last r \<in> set v" using ne 3(1) last_in_set [OF ne] by simp
      then show False using assms(1) by (simp add: apart_def)
    qed
    then show ?thesis using 3 by (auto simp: str_contains_iff)
  qed (use assms(1) in \<open>simp_all add: apart_def str_contains_iff\<close>)
qed

lemma str_replace_keeps_out:
  assumes "apart v r" and "w \<noteq> []"
  shows "str_contains (str_replace w r s) v \<Longrightarrow> str_contains s v"
proof (induction "length s" arbitrary: s rule: less_induct)
  case less
  show ?case
  proof (cases s)
    case Nil
    then show ?thesis using less.prems by (simp add: str_replace_Nil)
  next
    case (Cons c cs)
    show ?thesis
    proof (cases "prefix w s")
      case True
      then have "str_contains (r @ str_replace w r (drop (length w) s)) v"
        using less.prems assms(2) Cons by (simp add: str_replace_Cons)
      then have "str_contains (str_replace w r (drop (length w) s)) v"
        by (rule str_contains_after [OF assms(1)])
      then have "str_contains (drop (length w) s) v"
        using less.hyps [of "drop (length w) s"] assms(2) Cons by simp
      then show ?thesis unfolding str_contains_iff by (rule sublist_order.order_trans) simp
    next
      case False
      then have "str_contains (c # str_replace w r cs) v"
        using less.prems assms(2) Cons by (simp add: str_replace_Cons)
      then consider "prefix v (c # str_replace w r cs)" | "str_contains (str_replace w r cs) v" by auto
      then show ?thesis
      proof cases
        case 1
        then have "prefix v (c # cs)"
          using prefix_str_replace [OF assms(2), of r "tl v" cs] assms(1)
          by (cases v) (auto simp: apart_def)
        then show ?thesis using Cons by simp
      next
        case 2
        then show ?thesis using less.hyps [of cs] Cons by simp
      qed
    qed
  qed
qed

lemma str_replace_removes:
  assumes "apart v r"
  shows "\<not> str_contains (str_replace v r s) v"
proof (induction "length s" arbitrary: s rule: less_induct)
  case less
  have v: "v \<noteq> []" using assms by (simp add: apart_def)
  show ?case
  proof (cases s)
    case Nil
    then show ?thesis using v by (simp add: str_replace_Nil)
  next
    case (Cons c cs)
    show ?thesis
    proof (cases "prefix v s")
      case True
      have "\<not> str_contains (str_replace v r (drop (length v) s)) v"
        using less.hyps [of "drop (length v) s"] v Cons by simp
      then have "\<not> str_contains (r @ str_replace v r (drop (length v) s)) v"
        using str_contains_after [OF assms] by blast
      then show ?thesis using True v Cons by (simp add: str_replace_Cons)
    next
      case False
      have "\<not> prefix v (c # str_replace v r cs)"
        using prefix_str_replace [OF v, of r "tl v" cs] assms False Cons
        by (cases v) (auto simp: apart_def)
      then show ?thesis
        using less.hyps [of cs] False v Cons by (simp add: str_replace_Cons)
    qed
  qed
qed

lemma split_on_nonempty: "split_on c s \<noteq> []"
  by (induction s) (auto split: list.splits)

lemma split_on_line: "c \<notin> set l \<Longrightarrow> split_on c (l @ c # s) = l # split_on c s"
  by (induction l) auto

lemma split_on_none: "c \<notin> set l \<Longrightarrow> split_on c l = [l]"
  by (induction l) auto

lemma split_on_length: "length (split_on c s) = count_list s c + 1"
  by (induction s) (auto split: list.splits simp: split_on_nonempty)

lemma split_ws_Nil: "dropWhile is_ws s = [] \<Longrightarrow> split_ws s = []"
  by (subst split_ws.simps) simp

lemma split_ws_step:
  "dropWhile is_ws s = r \<Longrightarrow> r \<noteq> [] \<Longrightarrow>
    split_ws s = takeWhile (\<lambda>c. \<not> is_ws c) r # split_ws (dropWhile (\<lambda>c. \<not> is_ws c) r)"
  by (subst split_ws.simps) (simp only: Let_def if_False)

lemma split_ws_eq_Nil: "split_ws s = [] \<longleftrightarrow> (\<forall>c \<in> set s. is_ws c)"
proof (cases "dropWhile is_ws s = []")
  case True
  then show ?thesis by (simp add: split_ws_Nil dropWhile_eq_Nil_conv)
next
  case False
  have "split_ws s \<noteq> []" by (simp only: split_ws_step [OF refl False] list.simps not_False_eq_True)
  with False show ?thesis by (auto simp: dropWhile_eq_Nil_conv)
qed

lemma split_ws_nonempty_words: "w \<in> set (split_ws s) \<Longrightarrow> w \<noteq> [] \<and> (\<forall>c \<in> set w. \<not> is_ws c)"
proof (induction s rule: split_ws.induct)
  case (1 s)
  let ?r = "dropWhile is_ws s" and ?nw = "\<lambda>c. \<not> is_ws c"
  have ne: "?r \<noteq> []" using "1.prems" split_ws_Nil by fastforce
  then have "\<not> is_ws (hd ?r)" by (rule hd_dropWhile)
  with ne have hd: "takeWhile ?nw ?r \<noteq> []" by (cases ?r) auto
  have "w = takeWhile ?nw ?r \<or> w \<in> set (split_ws (dropWhile ?nw ?r))"
    using "1.prems" unfolding split_ws_step [OF refl ne] by (simp only: list.set insert_iff)
  then show ?case
  proof
    assume "w = takeWhile ?nw ?r"
    with hd show ?thesis by (auto dest: set_takeWhileD simp del: takeWhile_eq_Nil_iff)
  next
    assume "w \<in> set (split_ws (dropWhile ?nw ?r))"
    then show ?thesis by (rule "1.IH" [OF refl ne])
  qed
qed

lemma trim_eq_Nil: "trim s = [] \<longleftrightarrow> (\<forall>c \<in> set s. is_ws c)"
proof -
  have "trim s = [] \<longleftrightarrow> (\<forall>c \<in> set (dropWhile is_ws s). is_ws c)"
    by (simp add: trim_def dropWhile_eq_Nil_conv)
  also have "\<dots> \<longleftrightarrow> (\<forall>c \<in> set s. is_ws c)"
    by (induction s) auto
  finally show ?thesis .
qed

section \<open>Numbers as text\<close>

type_synonym u8 = "8 word"
type_synonym u16 = "16 word"
type_synonym u32 = "32 word"
type_synonym u64 = "64 word"

definition digit_char :: "nat \<Rightarrow> char" where
  "digit_char d = char_of (48 + d)"

definition char_digit :: "char \<Rightarrow> nat option" where
  "char_digit c =
     (if 48 \<le> (of_char c :: nat) \<and> (of_char c :: nat) \<le> 57 then Some (of_char c - 48) else None)"

text \<open>Decimal output of an unsigned integer (\<open>format!("{n}")\<close>, \<open>QString::arg\<close>).\<close>

fun show_nat :: "nat \<Rightarrow> string" where
  "show_nat n = (if n < 10 then [digit_char n] else show_nat (n div 10) @ [digit_char (n mod 10)])"

declare show_nat.simps [simp del]

text \<open>\<open>{:06}\<close>: the decimal digits, padded on the left with zeros to the given width.\<close>

definition pad_zero :: "nat \<Rightarrow> string \<Rightarrow> string" where
  "pad_zero w s = replicate (w - length s) (CHR ''0'') @ s"

fun digits_value :: "nat \<Rightarrow> string \<Rightarrow> nat option" where
  "digits_value acc [] = Some acc"
| "digits_value acc (c # cs) =
     (case char_digit c of None \<Rightarrow> None | Some d \<Rightarrow> digits_value (10 * acc + d) cs)"

text \<open>
  \<open>str::parse\<close> for an unsigned type of \<open>w\<close> bits: an optional plus sign, at least one digit,
  no other character, and a value that fits.
\<close>

definition parse_unsigned :: "nat \<Rightarrow> string \<Rightarrow> nat option" where
  "parse_unsigned w s =
     (let d = (case s of c # cs \<Rightarrow> if c = CHR ''+'' then cs else s | [] \<Rightarrow> s)
      in if d = [] then None
         else (case digits_value 0 d of None \<Rightarrow> None
               | Some n \<Rightarrow> if n < 2 ^ w then Some n else None))"

text \<open>\<open>{b:02x}\<close>: two hexadecimal digits, in lower case.\<close>

definition hex_digit :: "nat \<Rightarrow> char" where
  "hex_digit n = (if n < 10 then char_of (48 + n) else char_of (87 + n))"

definition hex_byte :: "u8 \<Rightarrow> string" where
  "hex_byte b = [hex_digit (unat b div 16), hex_digit (unat b mod 16)]"

lemma char_digit_digit_char: "d < 10 \<Longrightarrow> char_digit (digit_char d) = Some d"
  by (simp add: char_digit_def digit_char_def)

lemma digits_value_append:
  "digits_value acc (xs @ ys) = Option.bind (digits_value acc xs) (\<lambda>a. digits_value a ys)"
  by (induction xs arbitrary: acc) (auto split: option.splits)

lemma digits_value_show_nat: "digits_value 0 (show_nat n) = Some n"
proof (induction n rule: show_nat.induct)
  case (1 n)
  show ?case
  proof (cases "n < 10")
    case True
    then show ?thesis by (simp add: show_nat.simps [of n] char_digit_digit_char)
  next
    case False
    with 1 show ?thesis
      by (simp add: show_nat.simps [of n] digits_value_append char_digit_digit_char)
  qed
qed

lemma char_digit_zero: "char_digit (CHR ''0'') = Some 0"
  by (simp add: char_digit_def)

lemma digits_value_zeros: "digits_value 0 (replicate k (CHR ''0'') @ s) = digits_value 0 s"
  by (induction k) (simp_all add: char_digit_zero)

lemma show_nat_nonempty: "show_nat n \<noteq> []"
  by (subst show_nat.simps) simp

lemma show_nat_inject: "show_nat m = show_nat n \<longleftrightarrow> m = n"
  by (metis digits_value_show_nat option.inject)

lemma pad_zero_show_nat_inject: "pad_zero w (show_nat m) = pad_zero w (show_nat n) \<longleftrightarrow> m = n"
proof -
  have "digits_value 0 (pad_zero w (show_nat k)) = Some k" for k
    by (simp add: pad_zero_def digits_value_zeros digits_value_show_nat)
  then show ?thesis by (metis option.inject)
qed

lemma show_nat_no_plus: "hd (show_nat n) \<noteq> CHR ''+''"
proof (induction n rule: show_nat.induct)
  case (1 n)
  show ?case
  proof (cases "n < 10")
    case True
    have "digit_char n \<noteq> CHR ''+''"
    proof
      assume a: "digit_char n = CHR ''+''"
      have "char_digit (digit_char n) = Some n" using True by (rule char_digit_digit_char)
      then show False by (simp add: a char_digit_def)
    qed
    then show ?thesis using True by (simp add: show_nat.simps [of n])
  next
    case False
    with 1 show ?thesis by (simp add: show_nat.simps [of n] show_nat_nonempty)
  qed
qed

lemma parse_show_nat: "n < 2 ^ w \<Longrightarrow> parse_unsigned w (show_nat n) = Some n"
proof -
  assume n: "n < 2 ^ w"
  obtain c cs where s: "show_nat n = c # cs" using show_nat_nonempty by (cases "show_nat n") auto
  then have "c \<noteq> CHR ''+''" using show_nat_no_plus [of n] by simp
  moreover have "digits_value 0 (c # cs) = Some n" using digits_value_show_nat [of n] s by simp
  ultimately show ?thesis using n by (simp add: parse_unsigned_def s del: digits_value.simps)
qed

section \<open>Maps as association lists\<close>

text \<open>
  A \<open>HashMap\<close> is an association list with distinct keys: \<open>map_of\<close> looks up,
  \<open>AList.update\<close> inserts or overwrites, \<open>AList.delete\<close> removes. The order of its
  entries stands for the order the map iterates in; no property depends on it.
\<close>

type_synonym ('k, 'v) hash_map = "('k \<times> 'v) list"

abbreviation hm_keys :: "('k, 'v) hash_map \<Rightarrow> 'k set" where
  "hm_keys m \<equiv> fst ` set m"

lemma map_of_update [simp]: "map_of (AList.update k v m) = (map_of m)(k \<mapsto> v)"
  by (simp add: AList.update_conv')

lemma map_of_delete [simp]: "map_of (AList.delete k m) = (map_of m)(k := None)"
  by (simp add: AList.delete_conv')

lemma update_fresh: "map_of m k = None \<Longrightarrow> AList.update k v m = m @ [(k, v)]"
  by (induction m) (auto split: if_splits)

lemma set_delete_alist: "set (AList.delete k m) = {e \<in> set m. fst e \<noteq> k}"
  by (auto simp: AList.delete_eq)

text \<open>
  A \<open>BTreeMap\<close> is an association list in strictly increasing order of the keys: its \<open>insert\<close>
  is \<open>bt_insert\<close>, its \<open>values\<close> are the second components in that order, and a change through
  \<open>get_mut\<close> is \<open>AList.update\<close> of a present key.
\<close>

fun bt_insert :: "'k::linorder \<Rightarrow> 'v \<Rightarrow> ('k \<times> 'v) list \<Rightarrow> ('k \<times> 'v) list" where
  "bt_insert k v [] = [(k, v)]"
| "bt_insert k v ((k', v') # m) =
     (if k < k' then (k, v) # (k', v') # m
      else if k = k' then (k, v) # m
      else (k', v') # bt_insert k v m)"

abbreviation bt_sorted :: "('k::linorder \<times> 'v) list \<Rightarrow> bool" where
  "bt_sorted m \<equiv> sorted_wrt (<) (map fst m)"

lemma map_of_bt_insert [simp]: "map_of (bt_insert k v m) = (map_of m)(k \<mapsto> v)"
  by (induction k v m rule: bt_insert.induct) auto

lemma keys_bt_insert [simp]: "set (map fst (bt_insert k v m)) = insert k (set (map fst m))"
  by (induction k v m rule: bt_insert.induct) auto

lemma bt_sorted_insert: "bt_sorted m \<Longrightarrow> bt_sorted (bt_insert k v m)"
proof (induction k v m rule: bt_insert.induct)
  case (2 k v k' v' m)
  then show ?case using keys_bt_insert [of k v m] by (auto intro: less_trans)
qed simp

lemma keys_update_present: "map_of m k \<noteq> None \<Longrightarrow> map fst (AList.update k v m) = map fst m"
  by (induction m) (auto split: if_splits)

lemma bt_sorted_update: "bt_sorted m \<Longrightarrow> map_of m k \<noteq> None \<Longrightarrow> bt_sorted (AList.update k v m)"
  by (simp add: keys_update_present)

lemma length_bt_insert:
  "bt_sorted m \<Longrightarrow> length (bt_insert k v m) = (if map_of m k = None then Suc (length m) else length m)"
proof (induction k v m rule: bt_insert.induct)
  case (2 k v k' v' m)
  show ?case
  proof (cases "k < k'")
    case True
    then have "k \<notin> set (map fst m)" using "2.prems" by (auto dest: less_trans)
    then have "map_of m k = None" by (simp add: map_of_eq_None_iff)
    then show ?thesis using True by auto
  next
    case False
    then show ?thesis using 2 by auto
  qed
qed simp

lemma list_all_bt_insert: "list_all Q m \<Longrightarrow> Q (k, v) \<Longrightarrow> list_all Q (bt_insert k v m)"
  by (induction k v m rule: bt_insert.induct) auto

text \<open>A \<open>BTreeMap\<close> is determined by what it maps to what.\<close>

lemma bt_sorted_unique:
  assumes "bt_sorted m" "bt_sorted n" "map_of m = map_of n"
  shows "m = n"
proof -
  have dist: "distinct (map fst m)" "distinct (map fst n)" using assms(1,2) by (simp_all add: strict_sorted_iff)
  have "set m = set n" using assms(3) dist by (metis map_of_eqI map_of_is_SomeI map_of_SomeD prod.collapse subsetI subset_antisym)
  then have "map fst m = map fst n"
    using assms(1,2) by (intro sorted_distinct_set_unique) (auto simp: strict_sorted_iff)
  moreover have "inj_on fst (set m \<union> set n)"
    using \<open>set m = set n\<close> dist(1) by (simp add: distinct_map)
  ultimately show ?thesis by (simp add: inj_on_map_eq_map)
qed

lemma list_all_update: "list_all Q m \<Longrightarrow> Q (k, v) \<Longrightarrow> list_all Q (AList.update k v m)"
  by (induction m) (auto split: if_splits)

lemma length_update_present: "map_of m k \<noteq> None \<Longrightarrow> length (AList.update k v m) = length m"
  by (induction m) (auto split: if_splits)

lemma in_values_map_of: "distinct (map fst m) \<Longrightarrow> v \<in> snd ` set m \<longleftrightarrow> (\<exists>k. map_of m k = Some v)"
  by (force simp: image_iff)

lemma find_eq_filter: "find P xs = (case filter P xs of [] \<Rightarrow> None | x # _ \<Rightarrow> Some x)"
  by (induction xs) auto

text \<open>
  The Qt stores keep a vector and search it by key. \<open>keyed\<close> is the map such a vector stands for,
  \<open>remove_first\<close> the scan that removes the first match.
\<close>

definition keyed :: "('a \<Rightarrow> 'k) \<Rightarrow> ('a \<Rightarrow> 'v) \<Rightarrow> 'a list \<Rightarrow> ('k, 'v) hash_map" where
  "keyed key f xs = map (\<lambda>x. (key x, f x)) xs"

fun remove_first :: "('a \<Rightarrow> bool) \<Rightarrow> 'a list \<Rightarrow> 'a list option" where
  "remove_first P [] = None"
| "remove_first P (x # xs) = (if P x then Some xs else map_option ((#) x) (remove_first P xs))"

lemma keyed_simps [simp]:
  "keyed key f [] = []" "keyed key f (x # xs) = (key x, f x) # keyed key f xs"
  "keyed key f (xs @ ys) = keyed key f xs @ keyed key f ys"
  by (simp_all add: keyed_def)

lemma keyed_keys [simp]: "map fst (keyed key f xs) = map key xs"
  by (simp add: keyed_def)

lemma map_of_keyed: "map_of (keyed key f xs) i = map_option f (find (\<lambda>x. key x = i) xs)"
  by (induction xs) auto

lemma find_key: "find (\<lambda>x. key x = i) xs = Some x \<Longrightarrow> key x = i \<and> x \<in> set xs"
  by (auto simp: find_Some_iff)

lemma find_key_None: "find (\<lambda>x. key x = i) xs = None \<longleftrightarrow> i \<notin> set (map key xs)"
  by (auto simp: find_None_iff)

lemma remove_first_None: "remove_first (\<lambda>x. key x = i) xs = None \<longleftrightarrow> i \<notin> set (map key xs)"
  by (induction xs) auto

lemma remove_first_Some:
  "remove_first (\<lambda>x. key x = i) xs = Some ys \<Longrightarrow> distinct (map key xs) \<Longrightarrow>
    keyed key f ys = AList.delete i (keyed key f xs) \<and> distinct (map key ys)
    \<and> set (map key ys) = set (map key xs) - {i} \<and> find (\<lambda>x. key x = i) ys = None"
proof (induction xs arbitrary: ys)
  case (Cons x xs)
  show ?case
  proof (cases "key x = i")
    case True
    have "AList.delete i (keyed key f xs) = keyed key f xs"
      using Cons.prems(2) True by (auto simp: keyed_def delete_idem image_image)
    then show ?thesis using Cons.prems True find_key_None [of key i xs] by auto
  next
    case False
    with Cons.prems obtain zs where zs: "remove_first (\<lambda>x. key x = i) xs = Some zs" "ys = x # zs"
      by auto
    with Cons.IH [OF zs(1)] Cons.prems(2) False show ?thesis by auto
  qed
qed simp

text \<open>An empty text stands for an absent value.\<close>

definition opt_text :: "string \<Rightarrow> string option" where
  "opt_text s = (if s = [] then None else Some s)"

lemma opt_text_iff: "opt_text s = Some i \<longleftrightarrow> s = i \<and> i \<noteq> []" "opt_text s = None \<longleftrightarrow> s = []"
  by (auto simp: opt_text_def)

lemma opt_text_inject [simp]: "opt_text a = opt_text b \<longleftrightarrow> a = b"
  by (auto simp: opt_text_def)

section \<open>Interfaces\<close>

text \<open>
  A state machine: \<open>step\<close> applies one operation. What a component promises of every
  sequence of operations follows from what each operation keeps.
\<close>

fun run :: "('o \<Rightarrow> 's \<Rightarrow> 's) \<Rightarrow> 'o list \<Rightarrow> 's \<Rightarrow> 's" where
  "run step [] s = s"
| "run step (x # xs) s = run step xs (step x s)"

lemma run_append: "run step (xs @ ys) s = run step ys (run step xs s)"
  by (induction xs arbitrary: s) auto

locale machine_invariant =
  fixes step :: "'o \<Rightarrow> 's \<Rightarrow> 's"
    and inv :: "'s \<Rightarrow> bool"
  assumes step_inv: "inv s \<Longrightarrow> inv (step x s)"
begin

lemma run_inv: "inv s \<Longrightarrow> inv (run step xs s)"
  by (induction xs arbitrary: s) (auto intro: step_inv)

end

locale append_only =
  fixes step :: "'o \<Rightarrow> 's \<Rightarrow> 's"
    and log :: "'s \<Rightarrow> 'e list"
  assumes step_log: "\<exists>new. log (step x s) = log s @ new"
begin

lemma run_log_extends: "\<exists>new. log (run step xs s) = log s @ new"
proof (induction xs arbitrary: s)
  case Nil
  show ?case by simp
next
  case (Cons x xs)
  obtain a b where "log (step x s) = log s @ a" "log (run step xs (step x s)) = log (step x s) @ b"
    using step_log Cons by blast
  then show ?case by simp
qed

lemma run_log_prefix: "prefix (log s) (log (run step xs s))"
  using run_log_extends by (metis prefixI)

lemma run_log_nth: "i < length (log s) \<Longrightarrow> log (run step xs s) ! i = log s ! i"
  using run_log_extends [of xs s] by (auto simp: nth_append)

end

text \<open>
  Bounded waiting: while something is waiting, every admitted operation serves it or leaves it
  waiting with a rank that does not grow, and every tick lowers the rank. A run with more ticks than
  the rank serves it.
\<close>

locale bounded_waiting = machine_invariant step inv
  for step :: "'o \<Rightarrow> 's \<Rightarrow> 's"
    and inv :: "'s \<Rightarrow> bool" +
  fixes admits :: "'o \<Rightarrow> bool"
    and tick :: "'o \<Rightarrow> bool"
    and waiting :: "'s \<Rightarrow> bool"
    and rank :: "'s \<Rightarrow> nat"
    and serves :: "'o \<Rightarrow> 's \<Rightarrow> bool"
  assumes progress: "inv s \<Longrightarrow> waiting s \<Longrightarrow> admits x \<Longrightarrow>
      serves x s \<or> waiting (step x s)
        \<and> (if tick x then rank (step x s) < rank s else rank (step x s) \<le> rank s)"
begin

lemma run_serves:
  "inv s \<Longrightarrow> waiting s \<Longrightarrow> list_all admits xs \<Longrightarrow> rank s < length (filter tick xs) \<Longrightarrow>
    \<exists>ys x zs. xs = ys @ x # zs \<and> serves x (run step ys s)"
proof (induction xs arbitrary: s)
  case (Cons x xs)
  show ?case
  proof (cases "serves x s")
    case True
    then show ?thesis by (intro exI [of _ "[]"]) auto
  next
    case False
    then have w: "waiting (step x s)"
      and r: "if tick x then rank (step x s) < rank s else rank (step x s) \<le> rank s"
      using progress [of s x] Cons.prems by auto
    have "rank (step x s) < length (filter tick xs)" using r Cons.prems(4) by (auto split: if_splits)
    then obtain ys y zs where "xs = ys @ y # zs" "serves y (run step ys (step x s))"
      using Cons.IH [OF step_inv [OF Cons.prems(1)] w] Cons.prems(3) by auto
    then show ?thesis by (intro exI [of _ "x # ys"]) auto
  qed
qed simp

end

text \<open>
  One machine implementing another: \<open>rel\<close> relates their states, \<open>opmap\<close> translates the
  operations, and every step on an operation that \<open>okop\<close> admits keeps the relation.
\<close>

locale simulation =
  fixes cstep :: "'co \<Rightarrow> 'c \<Rightarrow> 'c"
    and astep :: "'ao \<Rightarrow> 'a \<Rightarrow> 'a"
    and opmap :: "'co \<Rightarrow> 'ao"
    and rel :: "'c \<Rightarrow> 'a \<Rightarrow> bool"
    and okop :: "'co \<Rightarrow> bool"
  assumes sim_step: "rel c a \<Longrightarrow> okop x \<Longrightarrow> rel (cstep x c) (astep (opmap x) a)"
begin

lemma sim_run:
  "rel c a \<Longrightarrow> list_all okop xs \<Longrightarrow> rel (run cstep xs c) (run astep (map opmap xs) a)"
  by (induction xs arbitrary: c a) (auto simp: sim_step)

end

section \<open>JSON values\<close>

text \<open>
  The values of the JSON documents the components build and read. An object is an association
  list; \<open>QJsonObject::insert\<close> is \<open>AList.update\<close>. Reading a value of another type, or a missing
  one, gives the empty string, 0 or false, as \<open>QJsonValue::toString\<close>, \<open>toInt\<close> and \<open>toBool\<close> do.
\<close>

datatype json =
  JNull | JBool bool | JInt int | JString string | JArray "json list"
  | JObject "(string \<times> json) list"

type_synonym json_object = "(string \<times> json) list"

definition j_value :: "string \<Rightarrow> json_object \<Rightarrow> json" where
  "j_value k obj = (case map_of obj k of None \<Rightarrow> JNull | Some v \<Rightarrow> v)"

fun j_string :: "json \<Rightarrow> string" where
  "j_string (JString s) = s"
| "j_string _ = []"

text \<open>\<open>toInt\<close> gives 0 for a number that is not a 32-bit \<open>int\<close>.\<close>

fun j_int :: "json \<Rightarrow> int" where
  "j_int (JInt n) = (if - (2 ^ 31) \<le> n \<and> n < 2 ^ 31 then n else 0)"
| "j_int _ = 0"

fun j_bool :: "json \<Rightarrow> bool" where
  "j_bool (JBool b) = b"
| "j_bool _ = False"

fun j_array :: "json \<Rightarrow> json list" where
  "j_array (JArray xs) = xs"
| "j_array _ = []"

fun j_object :: "json \<Rightarrow> json_object" where
  "j_object (JObject obj) = obj"
| "j_object _ = []"

end
