(* ===== verification/Policy.thy ===== *)
theory Policy
  imports Prelude
begin

text \<open>
  The command policy core, \<open>wirecore/crates/wire-policy/src/lib.rs\<close>: risk tiers, the per-world
  command database and its evaluation, argument validation, and the Human-Tempo pacing of
  automated sends. Times are \<open>u64\<close> milliseconds, subtracted as the release build does (modulo
  \<open>2 ^ 64\<close>).
\<close>

section \<open>Risk tiers\<close>

datatype RiskTier = Safe | Standard | Risky | Destructive

fun RiskTier_rank :: "RiskTier \<Rightarrow> nat" where
  "RiskTier_rank Safe = 0"
| "RiskTier_rank Standard = 1"
| "RiskTier_rank Risky = 2"
| "RiskTier_rank Destructive = 3"

lemma RiskTier_rank_inject [simp]: "RiskTier_rank a = RiskTier_rank b \<longleftrightarrow> a = b"
  by (cases a; cases b) simp_all

instantiation RiskTier :: linorder
begin

definition less_eq_RiskTier :: "RiskTier \<Rightarrow> RiskTier \<Rightarrow> bool" where
  "a \<le> b \<longleftrightarrow> RiskTier_rank a \<le> RiskTier_rank b"

definition less_RiskTier :: "RiskTier \<Rightarrow> RiskTier \<Rightarrow> bool" where
  "a < b \<longleftrightarrow> RiskTier_rank a < RiskTier_rank b"

instance
proof
  fix a b c :: RiskTier
  show "a < b \<longleftrightarrow> a \<le> b \<and> \<not> b \<le> a" by (auto simp: less_eq_RiskTier_def less_RiskTier_def)
  show "a \<le> a" by (simp add: less_eq_RiskTier_def)
  show "a \<le> b \<Longrightarrow> b \<le> c \<Longrightarrow> a \<le> c" by (simp add: less_eq_RiskTier_def)
  show "a \<le> b \<Longrightarrow> b \<le> a \<Longrightarrow> a = b" by (simp add: less_eq_RiskTier_def flip: RiskTier_rank_inject)
  show "a \<le> b \<or> b \<le> a" by (auto simp: less_eq_RiskTier_def)
qed

end

fun RiskTier_label :: "RiskTier \<Rightarrow> string" where
  "RiskTier_label Safe = ''safe''"
| "RiskTier_label Standard = ''standard''"
| "RiskTier_label Risky = ''risky''"
| "RiskTier_label Destructive = ''destructive''"

definition RiskTier_requires_confirmation :: "RiskTier \<Rightarrow> bool" where
  "RiskTier_requires_confirmation t \<longleftrightarrow> t = Risky \<or> t = Destructive"

lemma requires_confirmation_iff: "RiskTier_requires_confirmation t \<longleftrightarrow> Risky \<le> t"
  by (cases t) (simp_all add: RiskTier_requires_confirmation_def less_eq_RiskTier_def)

section \<open>The command database\<close>

record CommandRule =
  cr_command :: string
  cr_tier :: RiskTier
  cr_deny :: bool
  cr_allowlisted :: bool
  cr_arg_policy :: string

definition CommandRule_new :: "string \<Rightarrow> RiskTier \<Rightarrow> CommandRule" where
  "CommandRule_new command tier =
     \<lparr>cr_command = command, cr_tier = tier, cr_deny = False, cr_allowlisted = False,
      cr_arg_policy = ''any''\<rparr>"

definition CommandRule_deny :: "CommandRule \<Rightarrow> CommandRule" where
  "CommandRule_deny r = r\<lparr>cr_deny := True\<rparr>"

definition CommandRule_allowlist :: "CommandRule \<Rightarrow> CommandRule" where
  "CommandRule_allowlist r = r\<lparr>cr_allowlisted := True\<rparr>"

definition CommandRule_arg_policy :: "string \<Rightarrow> CommandRule \<Rightarrow> CommandRule" where
  "CommandRule_arg_policy p r = r\<lparr>cr_arg_policy := p\<rparr>"

record CommandPolicy =
  cp_command :: string
  cp_tier :: RiskTier
  cp_denied :: bool
  cp_requires_confirmation :: bool
  cp_arg_ok :: bool
  cp_arg_reason :: string

record CommandDatabase =
  db_world :: string
  db_schema_version :: u32
  db_rules :: "CommandRule list"

definition POLICY_SCHEMA_VERSION :: u32 where
  "POLICY_SCHEMA_VERSION = 1"

definition CommandDatabase_new :: "string \<Rightarrow> CommandDatabase" where
  "CommandDatabase_new world =
     \<lparr>db_world = world, db_schema_version = POLICY_SCHEMA_VERSION, db_rules = []\<rparr>"

definition CommandDatabase_add_rule :: "CommandRule \<Rightarrow> CommandDatabase \<Rightarrow> CommandDatabase" where
  "CommandDatabase_add_rule r db = db\<lparr>db_rules := db_rules db @ [r]\<rparr>"

definition CommandDatabase_is_ready :: "CommandDatabase \<Rightarrow> bool" where
  "CommandDatabase_is_ready db \<longleftrightarrow>
     db_world db \<noteq> [] \<and> db_schema_version db = POLICY_SCHEMA_VERSION"

text \<open>Argument validation: \<open>any\<close>, \<open>eq:v\<close>, \<open>min:n\<close>, \<open>max:n\<close>; a number that does not parse
  counts as 0, any other policy fails.\<close>

definition parse_usize_or_0 :: "string \<Rightarrow> nat" where
  "parse_usize_or_0 v = (case parse_unsigned 64 v of None \<Rightarrow> 0 | Some n \<Rightarrow> n)"

definition validate_args :: "string \<Rightarrow> string list \<Rightarrow> bool \<times> string" where
  "validate_args policy args =
     (if policy = ''any'' then (True, ''ok'')
      else case strip_prefix ''eq:'' policy of
        Some v \<Rightarrow>
          (if args = [v] then (True, ''ok'')
           else (False, ''expected argument equal to '' @ v))
      | None \<Rightarrow> (case strip_prefix ''min:'' policy of
        Some v \<Rightarrow>
          (let n = parse_usize_or_0 v
           in if n \<le> length args then (True, ''ok'')
              else (False, ''expected at least '' @ show_nat n @ '' arguments''))
      | None \<Rightarrow> (case strip_prefix ''max:'' policy of
        Some v \<Rightarrow>
          (let n = parse_usize_or_0 v
           in if length args \<le> n then (True, ''ok'')
              else (False, ''expected at most '' @ show_nat n @ '' arguments''))
      | None \<Rightarrow> (False, ''unsupported argument policy''))))"

definition destructive_keywords :: "string list" where
  "destructive_keywords =
     [''kill'', ''quit'', ''quit!'', ''delete'', ''drop all'', ''sacrifice'', ''sell all'',
      ''give all'']"

definition looks_destructive :: "string \<Rightarrow> string list \<Rightarrow> bool" where
  "looks_destructive command args =
     (let lower = to_lower (command @ '' '' @ str_join '' '' args)
      in list_ex (\<lambda>k. str_contains lower k) destructive_keywords)"

definition rule_policy :: "CommandRule \<Rightarrow> string \<Rightarrow> string list \<Rightarrow> CommandPolicy" where
  "rule_policy rule command args =
     (if cr_deny rule then
        \<lparr>cp_command = command, cp_tier = cr_tier rule, cp_denied = True,
         cp_requires_confirmation = False, cp_arg_ok = False,
         cp_arg_reason = ''denied by command database''\<rparr>
      else let (arg_ok, arg_reason) = validate_args (cr_arg_policy rule) args in
        \<lparr>cp_command = command, cp_tier = cr_tier rule, cp_denied = False,
         cp_requires_confirmation =
           RiskTier_requires_confirmation (cr_tier rule) \<and> \<not> cr_allowlisted rule,
         cp_arg_ok = arg_ok, cp_arg_reason = arg_reason\<rparr>)"

definition unknown_policy :: "string \<Rightarrow> string list \<Rightarrow> CommandPolicy" where
  "unknown_policy command args =
     (let default_confirmation = looks_destructive command args in
        \<lparr>cp_command = command, cp_tier = (if default_confirmation then Risky else Standard),
         cp_denied = False, cp_requires_confirmation = default_confirmation,
         cp_arg_ok = True, cp_arg_reason = ''unknown command; standard tier''\<rparr>)"

text \<open>The loop over the matching rules returns in its first iteration.\<close>

definition CommandDatabase_evaluate :: "CommandDatabase \<Rightarrow> string \<Rightarrow> string list \<Rightarrow> CommandPolicy" where
  "CommandDatabase_evaluate db command args =
     (case filter (\<lambda>r. cr_command r = command) (db_rules db) of
        rule # _ \<Rightarrow> rule_policy rule command args
      | [] \<Rightarrow> unknown_policy command args)"

definition known_command :: "CommandDatabase \<Rightarrow> string \<Rightarrow> bool" where
  "known_command db command \<longleftrightarrow> list_ex (\<lambda>r. cr_command r = command) (db_rules db)"

lemma known_command_iff: "known_command db c \<longleftrightarrow> (\<exists>r \<in> set (db_rules db). cr_command r = c)"
  by (simp add: known_command_def list_ex_iff)

lemma evaluate_unknown:
  "\<not> known_command db c \<Longrightarrow> CommandDatabase_evaluate db c args = unknown_policy c args"
  by (simp add: CommandDatabase_evaluate_def known_command_iff filter_empty_conv split: list.split)

lemma evaluate_first_rule:
  assumes "db_rules db = xs @ r # ys" "\<forall>x \<in> set xs. cr_command x \<noteq> c" "cr_command r = c"
  shows "CommandDatabase_evaluate db c args = rule_policy r c args"
proof -
  have "filter (\<lambda>r. cr_command r = c) xs = []" using assms(2) by (simp add: filter_empty_conv)
  then show ?thesis using assms by (simp add: CommandDatabase_evaluate_def)
qed

lemma known_command_split:
  assumes "known_command db c"
  obtains xs r ys where "db_rules db = xs @ r # ys" "\<forall>x \<in> set xs. cr_command x \<noteq> c"
    "cr_command r = c"
proof -
  have "\<exists>r \<in> set (db_rules db). cr_command r = c" using assms by (simp add: known_command_iff)
  then show thesis using split_list_first_prop [of "db_rules db" "\<lambda>r. cr_command r = c"] that
    by blast
qed

lemma add_rule_known:
  "known_command db c \<Longrightarrow>
    CommandDatabase_evaluate (CommandDatabase_add_rule r db) c args
      = CommandDatabase_evaluate db c args"
  by (elim known_command_split)
     (simp add: evaluate_first_rule CommandDatabase_add_rule_def)

lemma add_rule_other:
  "cr_command r \<noteq> c \<Longrightarrow>
    CommandDatabase_evaluate (CommandDatabase_add_rule r db) c args
      = CommandDatabase_evaluate db c args"
  by (simp add: CommandDatabase_evaluate_def CommandDatabase_add_rule_def)

lemma add_rule_fresh:
  "\<not> known_command db c \<Longrightarrow> cr_command r = c \<Longrightarrow>
    CommandDatabase_evaluate (CommandDatabase_add_rule r db) c args = rule_policy r c args"
  by (rule evaluate_first_rule [of _ "db_rules db" _ "[]"])
     (auto simp: CommandDatabase_add_rule_def known_command_iff)

lemma rule_policy_denied: "cp_denied (rule_policy r c args) \<longleftrightarrow> cr_deny r"
  by (simp add: rule_policy_def split: prod.split)

lemma rule_policy_confirm:
  "cp_requires_confirmation (rule_policy r c args) \<longleftrightarrow>
     \<not> cr_deny r \<and> Risky \<le> cr_tier r \<and> \<not> cr_allowlisted r"
  by (auto simp: rule_policy_def requires_confirmation_iff split: prod.split)

lemma rule_policy_tier: "cp_tier (rule_policy r c args) = cr_tier r"
  by (simp add: rule_policy_def split: prod.split)

lemma evaluate_command: "cp_command (CommandDatabase_evaluate db c args) = c"
  by (simp add: CommandDatabase_evaluate_def rule_policy_def unknown_policy_def Let_def
        split: list.split prod.split)

section \<open>Human-Tempo pacing\<close>

datatype TempoDecision = Now | Wait u64

record HumanTempo =
  ht_min_interval_ms :: u64
  ht_max_burst :: nat
  ht_burst_window_ms :: u64
  ht_last_send_ms :: u64
  ht_burst_start_ms :: u64
  ht_burst_count :: nat

definition HumanTempo_new :: "u64 \<Rightarrow> nat \<Rightarrow> u64 \<Rightarrow> HumanTempo" where
  "HumanTempo_new min_interval_ms max_burst burst_window_ms =
     \<lparr>ht_min_interval_ms = min_interval_ms, ht_max_burst = max_burst,
      ht_burst_window_ms = burst_window_ms, ht_last_send_ms = 0, ht_burst_start_ms = 0,
      ht_burst_count = 0\<rparr>"

definition tempo_budget :: "u64 \<Rightarrow> HumanTempo \<Rightarrow> TempoDecision \<times> HumanTempo" where
  "tempo_budget now_ms t =
     (if ht_max_burst t \<le> ht_burst_count t
      then (Wait (ht_burst_window_ms t - (now_ms - ht_burst_start_ms t)), t)
      else (Now, t\<lparr>ht_last_send_ms := now_ms, ht_burst_count := ht_burst_count t + 1\<rparr>))"

definition HumanTempo_should_send :: "u64 \<Rightarrow> HumanTempo \<Rightarrow> TempoDecision \<times> HumanTempo" where
  "HumanTempo_should_send now_ms t =
     (if ht_burst_window_ms t \<le> now_ms - ht_burst_start_ms t
      then let t1 = t\<lparr>ht_burst_start_ms := now_ms, ht_burst_count := 0\<rparr> in
           if 0 < ht_last_send_ms t1 \<and> now_ms - ht_last_send_ms t1 < ht_min_interval_ms t1
           then (Wait (ht_min_interval_ms t1 - (now_ms - ht_last_send_ms t1)), t1)
           else tempo_budget now_ms t1
      else tempo_budget now_ms t)"

text \<open>Decisions along a sequence of attempts.\<close>

fun tempo_run :: "u64 list \<Rightarrow> HumanTempo \<Rightarrow> TempoDecision list \<times> HumanTempo" where
  "tempo_run [] t = ([], t)"
| "tempo_run (now # ts) t =
     (let (d, t1) = HumanTempo_should_send now t; (ds, t2) = tempo_run ts t1 in (d # ds, t2))"

definition sends :: "TempoDecision list \<Rightarrow> nat" where
  "sends ds = length (filter (\<lambda>d. d = Now) ds)"

definition tempo_inv :: "u64 \<Rightarrow> HumanTempo \<Rightarrow> bool" where
  "tempo_inv now t \<longleftrightarrow> ht_burst_start_ms t \<le> now \<and> ht_burst_count t \<le> ht_max_burst t"

text \<open>What the windows opened so far allow: one full burst each.\<close>

definition tempo_credit :: "HumanTempo \<Rightarrow> nat" where
  "tempo_credit t =
     ht_max_burst t * (unat (ht_burst_start_ms t) div unat (ht_burst_window_ms t))
       + ht_burst_count t"

lemma should_send_config [simp]:
  "ht_max_burst (snd (HumanTempo_should_send now t)) = ht_max_burst t"
  "ht_burst_window_ms (snd (HumanTempo_should_send now t)) = ht_burst_window_ms t"
  "ht_min_interval_ms (snd (HumanTempo_should_send now t)) = ht_min_interval_ms t"
  by (simp_all add: HumanTempo_should_send_def tempo_budget_def Let_def)

lemma should_send_inv:
  assumes "tempo_inv m t" "m \<le> now"
  shows "tempo_inv now (snd (HumanTempo_should_send now t))"
  using assms
  by (auto simp: tempo_inv_def HumanTempo_should_send_def tempo_budget_def Let_def)

lemma window_advance:
  fixes b now w :: u64
  assumes "b \<le> now" "w \<le> now - b" "0 < w"
  shows "unat b div unat w + 1 \<le> unat now div unat w"
proof -
  have "unat (now - b) = unat now - unat b" using assms(1) by (simp add: unat_sub)
  moreover have "unat w \<le> unat (now - b)" using assms(2) by (simp add: word_le_nat_alt)
  moreover have "unat b \<le> unat now" using assms(1) by (simp add: word_le_nat_alt)
  ultimately have le: "unat b + unat w \<le> unat now" by simp
  have pos: "0 < unat w" using assms(3) by (simp add: unat_gt_0 word_neq_0_conv)
  have "(unat b + unat w) div unat w \<le> unat now div unat w" using le by (rule div_le_mono)
  moreover have "(unat b + unat w) div unat w = unat b div unat w + 1"
    using pos by (simp add: div_add_self2)
  ultimately show ?thesis by simp
qed

lemma should_send_credit:
  assumes "tempo_inv m t" "m \<le> now" "0 < ht_burst_window_ms t"
  shows "tempo_credit t + (if fst (HumanTempo_should_send now t) = Now then 1 else 0)
    \<le> tempo_credit (snd (HumanTempo_should_send now t))"
proof (cases "ht_burst_window_ms t \<le> now - ht_burst_start_ms t")
  case True
  have "ht_burst_start_ms t \<le> now" using assms(1,2) by (auto simp: tempo_inv_def)
  from window_advance [OF this True assms(3)]
  have "ht_max_burst t * (unat (ht_burst_start_ms t) div unat (ht_burst_window_ms t) + 1)
      \<le> ht_max_burst t * (unat now div unat (ht_burst_window_ms t))"
    by (rule mult_le_mono2)
  moreover have "ht_burst_count t \<le> ht_max_burst t" using assms(1) by (simp add: tempo_inv_def)
  ultimately show ?thesis using True
    by (auto simp: HumanTempo_should_send_def tempo_budget_def tempo_credit_def Let_def)
next
  case False
  then show ?thesis
    by (auto simp: HumanTempo_should_send_def tempo_budget_def tempo_credit_def Let_def)
qed

lemma tempo_run_credit:
  assumes "tempo_inv m t" "0 < ht_burst_window_ms t" "sorted (m # ts)"
  shows "tempo_credit t + sends (fst (tempo_run ts t)) \<le> tempo_credit (snd (tempo_run ts t))
    \<and> tempo_inv (last (m # ts)) (snd (tempo_run ts t))
    \<and> ht_max_burst (snd (tempo_run ts t)) = ht_max_burst t
    \<and> ht_burst_window_ms (snd (tempo_run ts t)) = ht_burst_window_ms t"
  using assms
proof (induction ts arbitrary: m t)
  case Nil
  then show ?case by (simp add: sends_def)
next
  case (Cons now ts)
  let ?t1 = "snd (HumanTempo_should_send now t)"
  have mn: "m \<le> now" using Cons.prems(3) by simp
  note c = should_send_credit [OF Cons.prems(1) mn Cons.prems(2)]
  have "0 < ht_burst_window_ms ?t1" "sorted (now # ts)" using Cons.prems(2,3) by simp_all
  note ih = Cons.IH [OF should_send_inv [OF Cons.prems(1) mn] this]
  have "sends (fst (tempo_run (now # ts) t))
      = (if fst (HumanTempo_should_send now t) = Now then 1 else 0) + sends (fst (tempo_run ts ?t1))"
    by (simp add: sends_def split: prod.split)
  moreover have "snd (tempo_run (now # ts) t) = snd (tempo_run ts ?t1)"
    by (simp split: prod.split)
  ultimately show ?case using ih c by simp
qed

lemma tempo_inv_new: "tempo_inv 0 (HumanTempo_new i b w)"
  by (simp add: tempo_inv_def HumanTempo_new_def)

section \<open>Properties\<close>

text \<open>
  C18: Rate limit. From a fresh pacer with a positive window, any sequence of attempts whose
  clock never goes backwards has at most one full burst per window of \<open>burst_window_ms\<close>
  begun by the time of the last attempt.
\<close>

theorem tempo_rate_limit:
  assumes "0 < w" "sorted ts"
  shows "sends (fst (tempo_run ts (HumanTempo_new i b w)))
    \<le> b * (unat (last (0 # ts)) div unat w + 1)"
proof -
  let ?t = "HumanTempo_new i b w" and ?e = "snd (tempo_run ts (HumanTempo_new i b w))"
  have "0 < ht_burst_window_ms ?t" "sorted (0 # ts)"
    using assms by (simp_all add: HumanTempo_new_def)
  note r = tempo_run_credit [OF tempo_inv_new this]
  have "ht_burst_start_ms ?e \<le> last (0 # ts)" "ht_burst_count ?e \<le> b"
    and e: "ht_max_burst ?e = b" "ht_burst_window_ms ?e = w"
    using r by (auto simp: tempo_inv_def HumanTempo_new_def)
  then have "unat (ht_burst_start_ms ?e) div unat w \<le> unat (last (0 # ts)) div unat w"
    by (simp add: div_le_mono word_le_nat_alt)
  then have "b * (unat (ht_burst_start_ms ?e) div unat w) \<le> b * (unat (last (0 # ts)) div unat w)"
    by (rule mult_le_mono2)
  then have "tempo_credit ?e \<le> b * (unat (last (0 # ts)) div unat w) + b"
    unfolding tempo_credit_def e using \<open>ht_burst_count ?e \<le> b\<close> by linarith
  then show ?thesis using r by simp
qed

theorem tempo_rate_limit_witness:
  "sends (fst (tempo_run [1000, 1001, 1002, 3000] (HumanTempo_new 0 2 1000))) \<le> 2 * (3 + 1)"
  using tempo_rate_limit [of 1000 "[1000, 1001, 1002, 3000]" 0 2] by simp

text \<open>
  The cooldown is charged once. When the first attempt of a new window is told to wait for
  the inter-group cooldown, the next attempt inside the window is sent at once, however little
  of the cooldown has passed: the refused attempt has already opened the window.
\<close>

theorem cooldown_skipped_on_retry:
  assumes "ht_burst_window_ms t \<le> now - ht_burst_start_ms t"
    and "0 < ht_last_send_ms t" "now - ht_last_send_ms t < ht_min_interval_ms t"
    and "later - now < ht_burst_window_ms t" "0 < ht_max_burst t"
  shows "fst (HumanTempo_should_send now t)
      = Wait (ht_min_interval_ms t - (now - ht_last_send_ms t))
    \<and> fst (HumanTempo_should_send later (snd (HumanTempo_should_send now t))) = Now"
  using assms by (auto simp: HumanTempo_should_send_def tempo_budget_def Let_def not_le)

theorem cooldown_skipped_on_retry_witness:
  "\<exists>t. fst (HumanTempo_should_send 1100 t) = Wait 900
     \<and> fst (HumanTempo_should_send 1101 (snd (HumanTempo_should_send 1100 t))) = Now"
  using cooldown_skipped_on_retry
    [of "\<lparr>ht_min_interval_ms = 1000, ht_max_burst = 2, ht_burst_window_ms = 100,
      ht_last_send_ms = 1000, ht_burst_start_ms = 1000, ht_burst_count = 1\<rparr>" 1100 1101]
  by (intro exI) simp

text \<open>
  The first rule for a command decides. Once a command is in the database, a rule added
  later for the same command, a denying one included, changes no evaluation; a rule for a
  command not yet in the database decides every later evaluation of it.
\<close>

theorem first_rule_decides:
  "CommandDatabase_evaluate (CommandDatabase_add_rule r db) c args
     = (if cr_command r = c \<and> \<not> known_command db c then rule_policy r c args
        else CommandDatabase_evaluate db c args)"
  by (cases "cr_command r = c"; cases "known_command db c")
     (simp_all add: add_rule_known add_rule_other add_rule_fresh)

text \<open>
  Confirmation. A command needs confirmation exactly when it is unknown and looks
  destructive, or its first rule does not deny it, has a risky or destructive tier and is not
  allowlisted; and it is denied exactly when its first rule denies it.
\<close>

theorem evaluate_confirmation:
  "(case find (\<lambda>r. cr_command r = c) (db_rules db) of
      None \<Rightarrow>
        cp_requires_confirmation (CommandDatabase_evaluate db c args) = looks_destructive c args
        \<and> \<not> cp_denied (CommandDatabase_evaluate db c args)
        \<and> cp_arg_ok (CommandDatabase_evaluate db c args)
    | Some r \<Rightarrow>
        cp_requires_confirmation (CommandDatabase_evaluate db c args)
          = (\<not> cr_deny r \<and> Risky \<le> cr_tier r \<and> \<not> cr_allowlisted r)
        \<and> cp_denied (CommandDatabase_evaluate db c args) = cr_deny r
        \<and> cp_tier (CommandDatabase_evaluate db c args) = cr_tier r
        \<and> cp_arg_ok (CommandDatabase_evaluate db c args)
          = (\<not> cr_deny r \<and> fst (validate_args (cr_arg_policy r) args)))"
proof -
  have "CommandDatabase_evaluate db c args =
    (case find (\<lambda>r. cr_command r = c) (db_rules db) of
       None \<Rightarrow> unknown_policy c args | Some r \<Rightarrow> rule_policy r c args)"
    by (simp add: CommandDatabase_evaluate_def find_eq_filter split: list.split)
  then show ?thesis
    by (simp add: unknown_policy_def rule_policy_denied rule_policy_confirm rule_policy_tier Let_def
        rule_policy_def requires_confirmation_iff split: option.split prod.split)
qed

end
