(* ===== verification/Actions.thy ===== *)
theory Actions
  imports Policy
begin

text \<open>
  The Action Proposal gateway, \<open>wirecore/crates/wire-actions/src/lib.rs\<close>: every command that no
  human typed becomes a proposal, passes the gate, is paced, sent and audited. The gateway is a
  record, each method a function on it; the clock is read where the code reads it and passed in,
  and the \<open>send\<close> closure of \<open>approve_and_send\<close> is a function on an explicit world, so that what
  was sent can be read off the world.
\<close>

section \<open>Data\<close>

datatype ActionSource =
  Ai | Autopilot | Voice | Macro | Trigger | Script | Plugin | Headless | CrossSession

definition ActionSource_all :: "ActionSource list" where
  "ActionSource_all =
     [Ai, Autopilot, Voice, Macro, Trigger, Script, Plugin, Headless, CrossSession]"

record ActionProposal =
  ap_id :: string
  ap_source :: ActionSource
  ap_original_suggestion :: string
  ap_normalized_command :: string
  ap_args :: "string list"
  ap_risk_tier :: RiskTier
  ap_requires_confirmation :: bool
  ap_created_ms :: u64

datatype GateError =
  EmptySuggestion | OversizedSuggestion | CommandDatabaseUnavailable | NoWorldLoaded | UnknownIntent

datatype DenialReason =
  EmergencyStopped | NotConnected | RoutingUnstable | InjectionFlagged | DeniedByPolicy
  | AutomationDisabled | Pacing | QueueFull

text \<open>The derived \<open>Debug\<close> output of a denial reason, the constructor's name in the source.\<close>

fun DenialReason_debug :: "DenialReason \<Rightarrow> string" where
  "DenialReason_debug EmergencyStopped = ''EmergencyStop''"
| "DenialReason_debug NotConnected = ''NotConnected''"
| "DenialReason_debug RoutingUnstable = ''RoutingUnstable''"
| "DenialReason_debug InjectionFlagged = ''InjectionFlagged''"
| "DenialReason_debug DeniedByPolicy = ''DeniedByPolicy''"
| "DenialReason_debug AutomationDisabled = ''AutomationDisabled''"
| "DenialReason_debug Pacing = ''Pacing''"
| "DenialReason_debug QueueFull = ''QueueFull''"

datatype GateDecision =
  Approved | NeedsConfirmation | Denied DenialReason | Paused | Queued nat

record GateContext =
  gc_connected :: bool
  gc_emergency_stop_engaged :: bool
  gc_source_visible :: bool
  gc_profile_automation_enabled :: bool
  gc_routing_stable :: bool
  gc_injection_flagged :: bool

definition GateContext_ready :: GateContext where
  "GateContext_ready =
     \<lparr>gc_connected = True, gc_emergency_stop_engaged = False, gc_source_visible = True,
      gc_profile_automation_enabled = True, gc_routing_stable = True,
      gc_injection_flagged = False\<rparr>"

section \<open>Emergency stop\<close>

record EmergencyStop =
  es_engaged :: bool
  es_engaged_at_ms :: u64

definition EmergencyStop_new :: EmergencyStop where
  "EmergencyStop_new = \<lparr>es_engaged = False, es_engaged_at_ms = 0\<rparr>"

definition EmergencyStop_engage :: "u64 \<Rightarrow> EmergencyStop \<Rightarrow> EmergencyStop" where
  "EmergencyStop_engage now_ms s = s\<lparr>es_engaged := True, es_engaged_at_ms := now_ms\<rparr>"

definition EmergencyStop_release :: "EmergencyStop \<Rightarrow> EmergencyStop" where
  "EmergencyStop_release s = s\<lparr>es_engaged := False, es_engaged_at_ms := 0\<rparr>"

definition EmergencyStop_is_engaged :: "EmergencyStop \<Rightarrow> bool" where
  "EmergencyStop_is_engaged s = es_engaged s"

definition EmergencyStop_blocks :: "EmergencyStop \<Rightarrow> bool" where
  "EmergencyStop_blocks s = es_engaged s"

section \<open>The visible queue\<close>

record QueueEntry =
  qe_proposal_id :: string
  qe_source :: ActionSource
  qe_original_suggestion :: string
  qe_normalized_command :: string
  qe_risk_tier :: RiskTier
  qe_required_approval :: bool
  qe_pacing_decision :: string
  qe_status :: string

record VisibleQueue =
  vq_capacity :: nat
  vq_entries :: "QueueEntry list"

definition VisibleQueue_new :: "nat \<Rightarrow> VisibleQueue" where
  "VisibleQueue_new capacity = \<lparr>vq_capacity = capacity, vq_entries = []\<rparr>"

definition VisibleQueue_len :: "VisibleQueue \<Rightarrow> nat" where
  "VisibleQueue_len q = length (vq_entries q)"

definition VisibleQueue_is_empty :: "VisibleQueue \<Rightarrow> bool" where
  "VisibleQueue_is_empty q \<longleftrightarrow> vq_entries q = []"

definition VisibleQueue_push ::
    "QueueEntry \<Rightarrow> VisibleQueue \<Rightarrow> (DenialReason + nat) \<times> VisibleQueue" where
  "VisibleQueue_push e q =
     (if vq_capacity q \<le> length (vq_entries q) then (Inl QueueFull, q)
      else let q1 = q\<lparr>vq_entries := vq_entries q @ [e]\<rparr>
           in (Inr (length (vq_entries q1) - 1), q1))"

definition VisibleQueue_remove :: "string \<Rightarrow> VisibleQueue \<Rightarrow> bool \<times> VisibleQueue" where
  "VisibleQueue_remove pid q =
     (let es = filter (\<lambda>e. qe_proposal_id e \<noteq> pid) (vq_entries q)
      in (length es \<noteq> length (vq_entries q), q\<lparr>vq_entries := es\<rparr>))"

definition VisibleQueue_cancel_all :: "VisibleQueue \<Rightarrow> nat \<times> VisibleQueue" where
  "VisibleQueue_cancel_all q = (length (vq_entries q), q\<lparr>vq_entries := []\<rparr>)"

definition queue_inv :: "VisibleQueue \<Rightarrow> bool" where
  "queue_inv q \<longleftrightarrow> length (vq_entries q) \<le> vq_capacity q"

section \<open>The gateway\<close>

record ActionAuditEntry =
  aa_at_ms :: u64
  aa_proposal_id :: string
  aa_source :: ActionSource
  aa_original_suggestion :: string
  aa_normalized_command :: string
  aa_risk_tier :: RiskTier
  aa_required_approval :: bool
  aa_pacing_decision :: string
  aa_final_result :: string

record ActionGateway =
  ag_db :: CommandDatabase
  ag_tempo :: HumanTempo
  ag_queue :: VisibleQueue
  ag_emergency_stop :: EmergencyStop
  ag_audit :: "ActionAuditEntry list"
  ag_seq :: u64

definition ActionGateway_new :: "CommandDatabase \<Rightarrow> HumanTempo \<Rightarrow> nat \<Rightarrow> ActionGateway" where
  "ActionGateway_new db tempo queue_capacity =
     \<lparr>ag_db = db, ag_tempo = tempo, ag_queue = VisibleQueue_new queue_capacity,
      ag_emergency_stop = EmergencyStop_new, ag_audit = [], ag_seq = 0\<rparr>"

text \<open>The clock is read once by \<open>engage\<close> and once for the audit record.\<close>

definition ActionGateway_engage_emergency_stop ::
    "u64 \<Rightarrow> u64 \<Rightarrow> ActionGateway \<Rightarrow> ActionGateway" where
  "ActionGateway_engage_emergency_stop now1 now2 g =
     (let (cancelled, q) = VisibleQueue_cancel_all (ag_queue g) in
      g\<lparr>ag_queue := q,
        ag_emergency_stop := EmergencyStop_engage now1 (ag_emergency_stop g),
        ag_audit := ag_audit g @
          [\<lparr>aa_at_ms = now2, aa_proposal_id = ''*'', aa_source = Autopilot,
            aa_original_suggestion = [], aa_normalized_command = [], aa_risk_tier = Safe,
            aa_required_approval = False, aa_pacing_decision = ''emergency-stop'',
            aa_final_result = ''cancelled '' @ show_nat cancelled @ '' queued''\<rparr>]\<rparr>)"

definition ActionGateway_release_emergency_stop :: "ActionGateway \<Rightarrow> ActionGateway" where
  "ActionGateway_release_emergency_stop g =
     g\<lparr>ag_emergency_stop := EmergencyStop_release (ag_emergency_stop g)\<rparr>"

definition normalize :: "string \<Rightarrow> string \<times> string list" where
  "normalize suggestion =
     (let trimmed = trim_start_char (CHR ''/'') (trim suggestion)
      in case split_ws trimmed of
           [] \<Rightarrow> (to_lower [], [])
         | p # ps \<Rightarrow> (to_lower p, ps))"

definition proposal_id :: "u64 \<Rightarrow> string" where
  "proposal_id seq = ''ap-'' @ pad_zero 6 (show_nat (unat seq))"

definition ActionGateway_propose ::
    "ActionSource \<Rightarrow> string \<Rightarrow> u64 \<Rightarrow> ActionGateway \<Rightarrow> (GateError + ActionProposal) \<times> ActionGateway"
where
  "ActionGateway_propose source suggestion now_ms g =
     (if trim suggestion = [] then (Inl EmptySuggestion, g)
      else if 1024 < length suggestion then (Inl OversizedSuggestion, g)
      else if \<not> CommandDatabase_is_ready (ag_db g) then (Inl CommandDatabaseUnavailable, g)
      else let (cmd, args) = normalize suggestion in
        if cmd = [] then (Inl UnknownIntent, g)
        else let g1 = g\<lparr>ag_seq := ag_seq g + 1\<rparr>;
                 policy = CommandDatabase_evaluate (ag_db g1) cmd args in
          (Inr \<lparr>ap_id = proposal_id (ag_seq g1), ap_source = source,
                ap_original_suggestion = suggestion, ap_normalized_command = cmd,
                ap_args = args, ap_risk_tier = cp_tier policy,
                ap_requires_confirmation = cp_requires_confirmation policy,
                ap_created_ms = now_ms\<rparr>, g1))"

definition ActionGateway_evaluate ::
    "ActionGateway \<Rightarrow> ActionProposal \<Rightarrow> GateContext \<Rightarrow> GateDecision" where
  "ActionGateway_evaluate g p ctx =
     (if EmergencyStop_blocks (ag_emergency_stop g) then Denied EmergencyStopped
      else if \<not> gc_connected ctx then Denied NotConnected
      else if \<not> gc_profile_automation_enabled ctx then Denied AutomationDisabled
      else if gc_injection_flagged ctx then Denied InjectionFlagged
      else if \<not> gc_routing_stable ctx then Denied RoutingUnstable
      else let policy = CommandDatabase_evaluate (ag_db g) (ap_normalized_command p) (ap_args p) in
        if cp_denied policy \<or> \<not> cp_arg_ok policy then Denied DeniedByPolicy
        else if ap_requires_confirmation p \<or> cp_requires_confirmation policy
        then NeedsConfirmation else Approved)"

definition audit_entry :: "u64 \<Rightarrow> ActionProposal \<Rightarrow> string \<Rightarrow> string \<Rightarrow> ActionAuditEntry" where
  "audit_entry now_ms p result detail =
     \<lparr>aa_at_ms = now_ms, aa_proposal_id = ap_id p, aa_source = ap_source p,
      aa_original_suggestion = ap_original_suggestion p,
      aa_normalized_command = ap_normalized_command p, aa_risk_tier = ap_risk_tier p,
      aa_required_approval = ap_requires_confirmation p, aa_pacing_decision = detail,
      aa_final_result = result\<rparr>"

definition push_audit :: "ActionAuditEntry \<Rightarrow> ActionGateway \<Rightarrow> ActionGateway" where
  "push_audit e g = g\<lparr>ag_audit := ag_audit g @ [e]\<rparr>"

text \<open>\<open>send\<close> returns \<open>Inr\<close> for \<open>Ok\<close>, \<open>Inl\<close> for \<open>Err\<close>; the clock is read for the pacer and
  for the audit record.\<close>

type_synonym 'w send = "string \<Rightarrow> 'w \<Rightarrow> (string + string) \<times> 'w"

definition ActionGateway_approve_and_send ::
    "ActionProposal \<Rightarrow> GateContext \<Rightarrow> 'w send \<Rightarrow> u64 \<Rightarrow> u64 \<Rightarrow> 'w \<times> ActionGateway \<Rightarrow>
      (GateError + TempoDecision \<times> string) \<times> 'w \<times> ActionGateway" where
  "ActionGateway_approve_and_send p ctx send now1 now2 s =
     (let (w, g) = s in
      case ActionGateway_evaluate g p ctx of
        Denied reason \<Rightarrow>
          (Inr (Wait 0, ''denied:'' @ DenialReason_debug reason), w,
           push_audit (audit_entry now2 p ''denied'' (DenialReason_debug reason)) g)
      | NeedsConfirmation \<Rightarrow>
          (Inr (Wait 0, ''needs-confirmation''), w,
           push_audit (audit_entry now2 p ''needs-confirmation'' []) g)
      | Approved \<Rightarrow>
          (let (tempo, t1) = HumanTempo_should_send now1 (ag_tempo g);
               g1 = g\<lparr>ag_tempo := t1\<rparr> in
           case tempo of
             Wait ms \<Rightarrow>
               (Inr (tempo, ''paced:'' @ show_nat (unat ms)), w,
                push_audit (audit_entry now2 p ''paced''
                  (''wait '' @ show_nat (unat ms) @ ''ms'')) g1)
           | Now \<Rightarrow>
               (case send (ap_normalized_command p) w of
                  (Inr result, w1) \<Rightarrow>
                    (Inr (tempo, result), w1, push_audit (audit_entry now2 p ''sent'' result) g1)
                | (Inl e, w1) \<Rightarrow>
                    (Inr (tempo, ''send-failed:'' @ e), w1,
                     push_audit (audit_entry now2 p ''send-failed'' e) g1)))
      | _ \<Rightarrow>
          (Inr (Wait 0, ''paused''), w, push_audit (audit_entry now2 p ''paused'' []) g))"

definition ActionGateway_queue_entry ::
    "ActionProposal \<Rightarrow> ActionGateway \<Rightarrow> (DenialReason + nat) \<times> ActionGateway" where
  "ActionGateway_queue_entry p g =
     (let (r, q) = VisibleQueue_push
        \<lparr>qe_proposal_id = ap_id p, qe_source = ap_source p,
         qe_original_suggestion = ap_original_suggestion p,
         qe_normalized_command = ap_normalized_command p, qe_risk_tier = ap_risk_tier p,
         qe_required_approval = ap_requires_confirmation p, qe_pacing_decision = ''pending'',
         qe_status = ''awaiting-approval''\<rparr> (ag_queue g)
      in (r, g\<lparr>ag_queue := q\<rparr>))"

section \<open>The gateway as a machine\<close>

datatype GateOp =
  Propose ActionSource string u64
| ApproveAndSend ActionProposal GateContext u64 u64
| Enqueue ActionProposal
| EngageStop u64 u64
| ReleaseStop

fun gate_step :: "'w send \<Rightarrow> GateOp \<Rightarrow> 'w \<times> ActionGateway \<Rightarrow> 'w \<times> ActionGateway" where
  "gate_step send (Propose src sug now) (w, g) = (w, snd (ActionGateway_propose src sug now g))"
| "gate_step send (ApproveAndSend p ctx now1 now2) (w, g) =
     snd (ActionGateway_approve_and_send p ctx send now1 now2 (w, g))"
| "gate_step send (Enqueue p) (w, g) = (w, snd (ActionGateway_queue_entry p g))"
| "gate_step send (EngageStop now1 now2) (w, g) =
     (w, ActionGateway_engage_emergency_stop now1 now2 g)"
| "gate_step send ReleaseStop (w, g) = (w, ActionGateway_release_emergency_stop g)"

section \<open>What each operation does\<close>

lemma VisibleQueue_push_inv: "queue_inv q \<Longrightarrow> queue_inv (snd (VisibleQueue_push e q))"
  by (auto simp: queue_inv_def VisibleQueue_push_def Let_def)

lemma VisibleQueue_push_capacity [simp]:
  "vq_capacity (snd (VisibleQueue_push e q)) = vq_capacity q"
  by (auto simp: VisibleQueue_push_def Let_def)

lemma VisibleQueue_remove_inv: "queue_inv q \<Longrightarrow> queue_inv (snd (VisibleQueue_remove pid q))"
  by (auto simp: queue_inv_def VisibleQueue_remove_def Let_def
      intro: order_trans [OF length_filter_le])

lemma evaluate_Approved_iff:
  "ActionGateway_evaluate g p ctx = Approved \<longleftrightarrow>
    \<not> es_engaged (ag_emergency_stop g) \<and> gc_connected ctx \<and> gc_profile_automation_enabled ctx
    \<and> \<not> gc_injection_flagged ctx \<and> gc_routing_stable ctx
    \<and> \<not> ap_requires_confirmation p
    \<and> (let pol = CommandDatabase_evaluate (ag_db g) (ap_normalized_command p) (ap_args p) in
         \<not> cp_denied pol \<and> cp_arg_ok pol \<and> \<not> cp_requires_confirmation pol)"
  by (simp add: ActionGateway_evaluate_def EmergencyStop_blocks_def Let_def)

lemma evaluate_not_paused:
  "ActionGateway_evaluate g p ctx \<noteq> Paused" "ActionGateway_evaluate g p ctx \<noteq> Queued n"
  by (simp_all add: ActionGateway_evaluate_def Let_def)

lemma propose_snd:
  "snd (ActionGateway_propose src sug now g) =
     (case fst (ActionGateway_propose src sug now g) of
        Inl _ \<Rightarrow> g | Inr _ \<Rightarrow> g\<lparr>ag_seq := ag_seq g + 1\<rparr>)"
  by (simp add: ActionGateway_propose_def Let_def split: prod.split)

lemma propose_id:
  "fst (ActionGateway_propose src sug now g) = Inr p \<Longrightarrow> ap_id p = proposal_id (ag_seq g + 1)"
  by (auto simp: ActionGateway_propose_def Let_def split: if_splits prod.splits)

lemma tempo_self [simp]: "g\<lparr>ag_tempo := ag_tempo g\<rparr> = (g :: ActionGateway)"
  by (cases g) simp

definition recorded :: "u64 \<Rightarrow> ActionProposal \<Rightarrow> ActionGateway \<Rightarrow> ActionGateway \<Rightarrow> bool" where
  "recorded now p g g' \<longleftrightarrow>
     (\<exists>t result detail. g' = push_audit (audit_entry now p result detail) (g\<lparr>ag_tempo := t\<rparr>))"

lemma recordedI:
  "recorded now p g (push_audit (audit_entry now p r d) g)"
  "recorded now p g (push_audit (audit_entry now p r d) (g\<lparr>ag_tempo := t\<rparr>))"
  unfolding recorded_def by (metis tempo_self, blast)

lemma approve_and_send_recorded:
  "recorded n2 p g (snd (snd (ActionGateway_approve_and_send p ctx send n1 n2 (w, g))))"
  by (cases "ActionGateway_evaluate g p ctx")
     (simp_all add: ActionGateway_approve_and_send_def Let_def recordedI
        split: TempoDecision.split prod.split sum.split)

lemma approve_and_send_gateway:
  "\<exists>t e. snd (snd (ActionGateway_approve_and_send p ctx send n1 n2 (w, g)))
      = push_audit e (g\<lparr>ag_tempo := t\<rparr>) \<and> aa_proposal_id e = ap_id p"
proof -
  from approve_and_send_recorded [of n2 p g ctx send n1 w] obtain t r d where
    "snd (snd (ActionGateway_approve_and_send p ctx send n1 n2 (w, g)))
      = push_audit (audit_entry n2 p r d) (g\<lparr>ag_tempo := t\<rparr>)"
    unfolding recorded_def by blast
  moreover have "aa_proposal_id (audit_entry n2 p r d) = ap_id p" by (simp add: audit_entry_def)
  ultimately show ?thesis by blast
qed

lemma approve_and_send_world:
  "fst (snd (ActionGateway_approve_and_send p ctx send n1 n2 (w, g))) =
     (if ActionGateway_evaluate g p ctx = Approved
         \<and> fst (HumanTempo_should_send n1 (ag_tempo g)) = Now
      then snd (send (ap_normalized_command p) w) else w)"
  by (auto simp: ActionGateway_approve_and_send_def Let_def
      split: GateDecision.splits TempoDecision.splits prod.splits sum.splits)

lemma queue_entry_fields [simp]:
  "ag_db (snd (ActionGateway_queue_entry p g)) = ag_db g"
  "ag_audit (snd (ActionGateway_queue_entry p g)) = ag_audit g"
  "ag_emergency_stop (snd (ActionGateway_queue_entry p g)) = ag_emergency_stop g"
  "ag_seq (snd (ActionGateway_queue_entry p g)) = ag_seq g"
  by (simp_all add: ActionGateway_queue_entry_def split: prod.split)

lemma propose_fields [simp]:
  "ag_db (snd (ActionGateway_propose src sug now g)) = ag_db g"
  "ag_audit (snd (ActionGateway_propose src sug now g)) = ag_audit g"
  "ag_queue (snd (ActionGateway_propose src sug now g)) = ag_queue g"
  "ag_emergency_stop (snd (ActionGateway_propose src sug now g)) = ag_emergency_stop g"
  by (simp_all add: propose_snd split: sum.split)

lemma approve_and_send_fields [simp]:
  "ag_db (snd (snd (ActionGateway_approve_and_send p ctx send n1 n2 (w, g)))) = ag_db g"
  "ag_queue (snd (snd (ActionGateway_approve_and_send p ctx send n1 n2 (w, g)))) = ag_queue g"
  "ag_emergency_stop (snd (snd (ActionGateway_approve_and_send p ctx send n1 n2 (w, g))))
     = ag_emergency_stop g"
  "ag_seq (snd (snd (ActionGateway_approve_and_send p ctx send n1 n2 (w, g)))) = ag_seq g"
  using approve_and_send_gateway [of p ctx send n1 n2 w g] by (auto simp: push_audit_def)

lemma engage_fields [simp]:
  "ag_db (ActionGateway_engage_emergency_stop n1 n2 g) = ag_db g"
  "ag_seq (ActionGateway_engage_emergency_stop n1 n2 g) = ag_seq g"
  "ag_tempo (ActionGateway_engage_emergency_stop n1 n2 g) = ag_tempo g"
  "vq_entries (ag_queue (ActionGateway_engage_emergency_stop n1 n2 g)) = []"
  "vq_capacity (ag_queue (ActionGateway_engage_emergency_stop n1 n2 g)) = vq_capacity (ag_queue g)"
  "es_engaged (ag_emergency_stop (ActionGateway_engage_emergency_stop n1 n2 g))"
  by (simp_all add: ActionGateway_engage_emergency_stop_def VisibleQueue_cancel_all_def
      EmergencyStop_engage_def)

lemma release_fields [simp]:
  "ag_db (ActionGateway_release_emergency_stop g) = ag_db g"
  "ag_queue (ActionGateway_release_emergency_stop g) = ag_queue g"
  "ag_seq (ActionGateway_release_emergency_stop g) = ag_seq g"
  "ag_audit (ActionGateway_release_emergency_stop g) = ag_audit g"
  by (simp_all add: ActionGateway_release_emergency_stop_def)

lemma gate_step_queue_inv:
  "queue_inv (ag_queue (snd s)) \<Longrightarrow> queue_inv (ag_queue (snd (gate_step send x s)))"
  by (cases s; cases x)
     (auto simp: ActionGateway_queue_entry_def queue_inv_def
        VisibleQueue_push_def Let_def split: prod.split)

lemma gate_step_audit: "\<exists>new. ag_audit (snd (gate_step send x s)) = ag_audit (snd s) @ new"
proof (cases s)
  case (Pair w g)
  show ?thesis
  proof (cases x)
    case (ApproveAndSend p ctx n1 n2)
    then show ?thesis using approve_and_send_gateway [of p ctx send n1 n2 w g] Pair
      by (auto simp: push_audit_def)
  qed (auto simp: Pair ActionGateway_engage_emergency_stop_def VisibleQueue_cancel_all_def)
qed

interpretation gate_log: append_only "gate_step send" "\<lambda>s. ag_audit (snd s)" for send
  by unfold_locales (rule gate_step_audit)

interpretation gate_queue: machine_invariant "gate_step send" "\<lambda>s. queue_inv (ag_queue (snd s))"
  for send
  by unfold_locales (rule gate_step_queue_inv)

text \<open>While the stop is engaged and not released, nothing reaches the world.\<close>

definition stopped :: "'w \<Rightarrow> 'w \<times> ActionGateway \<Rightarrow> bool" where
  "stopped w s \<longleftrightarrow> fst s = w \<and> es_engaged (ag_emergency_stop (snd s))"

lemma gate_step_stopped:
  assumes "stopped w s" "x \<noteq> ReleaseStop"
  shows "stopped w (gate_step send x s)"
proof (cases s)
  case (Pair v g)
  with assms show ?thesis
    by (cases x) (auto simp: stopped_def approve_and_send_world evaluate_Approved_iff)
qed

lemma run_stopped:
  "stopped w s \<Longrightarrow> list_all (\<lambda>x. x \<noteq> ReleaseStop) xs \<Longrightarrow> stopped w (run (gate_step send) xs s)"
  by (induction xs arbitrary: s) (auto simp: gate_step_stopped)

lemma stopped_evaluate:
  "stopped w s \<Longrightarrow> ActionGateway_evaluate (snd s) p ctx = Denied EmergencyStopped"
  by (simp add: stopped_def ActionGateway_evaluate_def EmergencyStop_blocks_def)

text \<open>The ids of the proposals a run issues.\<close>

fun issued :: "GateOp \<Rightarrow> ActionGateway \<Rightarrow> string list" where
  "issued (Propose src sug now) g =
     (case fst (ActionGateway_propose src sug now g) of Inl _ \<Rightarrow> [] | Inr p \<Rightarrow> [ap_id p])"
| "issued _ g = []"

fun issued_ids :: "'w send \<Rightarrow> GateOp list \<Rightarrow> 'w \<times> ActionGateway \<Rightarrow> string list" where
  "issued_ids send [] s = []"
| "issued_ids send (x # xs) s = issued x (snd s) @ issued_ids send xs (gate_step send x s)"

lemma proposal_id_inject: "proposal_id a = proposal_id b \<longleftrightarrow> a = b"
  by (simp add: proposal_id_def pad_zero_show_nat_inject word_unat_eq_iff)

lemma gate_step_seq:
  "ag_seq (snd (gate_step send x s)) = ag_seq (snd s) + of_nat (length (issued x (snd s)))"
  by (cases s; cases x) (auto simp: propose_snd split: sum.split)

lemma issued_id:
  "i \<in> set (issued x g) \<Longrightarrow> issued x g = [i] \<and> i = proposal_id (ag_seq g + 1)"
  by (cases x) (auto simp: propose_id split: sum.splits)

lemma issued_length: "length (issued x g) \<le> 1"
  by (cases x) (auto split: sum.splits)

lemma issued_ids_range:
  "unat (ag_seq (snd s)) + length xs < 2 ^ 64 \<Longrightarrow> i \<in> set (issued_ids send xs s) \<Longrightarrow>
    \<exists>n. i = proposal_id n \<and> unat (ag_seq (snd s)) < unat n"
proof (induction xs arbitrary: s)
  case Nil
  then show ?case by simp
next
  case (Cons x xs)
  let ?g = "snd s" and ?s1 = "gate_step send x s"
  have l: "length (issued x ?g) \<le> 1" by (rule issued_length)
  then consider "length (issued x ?g) = 0" | "length (issued x ?g) = 1" by linarith
  then have seq: "unat (ag_seq (snd ?s1)) = unat (ag_seq ?g) + length (issued x ?g)"
    using Cons.prems(1) by cases (simp_all add: gate_step_seq unat_word_ariths)
  show ?case
  proof (cases "i \<in> set (issued x ?g)")
    case True
    then have "i = proposal_id (ag_seq ?g + 1)" by (simp add: issued_id)
    moreover have "unat (ag_seq ?g + 1) = unat (ag_seq ?g) + 1"
      using Cons.prems(1) by (simp add: unat_word_ariths)
    ultimately show ?thesis by (intro exI [of _ "ag_seq ?g + 1"]) simp
  next
    case False
    with Cons.prems(2) have "i \<in> set (issued_ids send xs ?s1)" by simp
    moreover have "unat (ag_seq (snd ?s1)) + length xs < 2 ^ 64" using seq l Cons.prems(1) by simp
    ultimately obtain n where "i = proposal_id n" "unat (ag_seq (snd ?s1)) < unat n"
      using Cons.IH by blast
    then show ?thesis using seq by auto
  qed
qed

lemma issued_ids_distinct:
  "unat (ag_seq (snd s)) + length xs < 2 ^ 64 \<Longrightarrow> distinct (issued_ids send xs s)"
proof (induction xs arbitrary: s)
  case Nil
  then show ?case by simp
next
  case (Cons x xs)
  let ?g = "snd s" and ?s1 = "gate_step send x s"
  have l: "length (issued x ?g) \<le> 1" by (rule issued_length)
  then consider "length (issued x ?g) = 0" | "length (issued x ?g) = 1" by linarith
  then have seq: "unat (ag_seq (snd ?s1)) = unat (ag_seq ?g) + length (issued x ?g)"
    using Cons.prems(1) by cases (simp_all add: gate_step_seq unat_word_ariths)
  then have b: "unat (ag_seq (snd ?s1)) + length xs < 2 ^ 64" using l Cons.prems(1) by simp
  have "set (issued x ?g) \<inter> set (issued_ids send xs ?s1) = {}"
  proof (rule equals0I)
    fix i
    assume i: "i \<in> set (issued x ?g) \<inter> set (issued_ids send xs ?s1)"
    then have one: "issued x ?g = [i]" "i = proposal_id (ag_seq ?g + 1)" by (auto dest: issued_id)
    from i issued_ids_range [OF b] obtain n where
      "i = proposal_id n" "unat (ag_seq (snd ?s1)) < unat n" by blast
    then have "unat (ag_seq ?g) + 1 < unat (ag_seq ?g + 1)"
      using one seq by (simp add: proposal_id_inject)
    then show False using Cons.prems(1) by (simp add: unat_word_ariths)
  qed
  moreover have "distinct (issued x ?g)" using l by (cases "issued x ?g") auto
  ultimately show ?case using Cons.IH [OF b] by simp
qed

section \<open>Properties\<close>

text \<open>What the gate promises, written as one condition: the specification of a permitted send.\<close>

definition gate_open :: "ActionGateway \<Rightarrow> ActionProposal \<Rightarrow> GateContext \<Rightarrow> bool" where
  "gate_open g p ctx \<longleftrightarrow>
     \<not> es_engaged (ag_emergency_stop g) \<and> gc_connected ctx \<and> gc_profile_automation_enabled ctx
     \<and> \<not> gc_injection_flagged ctx \<and> gc_routing_stable ctx \<and> \<not> ap_requires_confirmation p
     \<and> (let pol = CommandDatabase_evaluate (ag_db g) (ap_normalized_command p) (ap_args p) in
          \<not> cp_denied pol \<and> cp_arg_ok pol \<and> \<not> cp_requires_confirmation pol)"

text \<open>
  C3: Nothing is sent past a closed gate. \<open>approve_and_send\<close> calls \<open>send\<close> exactly when the gate
  is open for the proposal and the pacer says now, and then exactly once, with the normalized
  command alone (the arguments are not sent); in every other case the world is untouched. It
  never returns an error.
\<close>

theorem sends_exactly_when_open:
  "fst (snd (ActionGateway_approve_and_send p ctx send n1 n2 (w, g))) =
     (if gate_open g p ctx \<and> fst (HumanTempo_should_send n1 (ag_tempo g)) = Now
      then snd (send (ap_normalized_command p) w) else w)
   \<and> (\<exists>r. fst (ActionGateway_approve_and_send p ctx send n1 n2 (w, g)) = Inr r)"
proof -
  have "\<exists>r. fst (ActionGateway_approve_and_send p ctx send n1 n2 (w, g)) = Inr r"
    by (cases "ActionGateway_evaluate g p ctx")
       (simp_all add: ActionGateway_approve_and_send_def Let_def
          split: TempoDecision.split prod.split sum.split)
  then show ?thesis
    by (simp add: approve_and_send_world evaluate_Approved_iff gate_open_def)
qed

text \<open>
  One record per attempt. Every call of \<open>approve_and_send\<close> appends exactly one audit record,
  which names the proposal, and which says \<open>sent\<close> exactly when the command went out and the
  sender accepted it.
\<close>

theorem approve_and_send_audited:
  "\<exists>e. ag_audit (snd (snd (ActionGateway_approve_and_send p ctx send n1 n2 (w, g))))
        = ag_audit g @ [e]
    \<and> aa_proposal_id e = ap_id p \<and> aa_source e = ap_source p
    \<and> aa_normalized_command e = ap_normalized_command p
    \<and> (aa_final_result e = ''sent'') =
        (gate_open g p ctx \<and> fst (HumanTempo_should_send n1 (ag_tempo g)) = Now
         \<and> (\<exists>r. fst (send (ap_normalized_command p) w) = Inr r))"
proof (cases "ActionGateway_evaluate g p ctx")
  case Approved
  then have o: "gate_open g p ctx" by (simp add: evaluate_Approved_iff gate_open_def)
  show ?thesis
  proof (cases "HumanTempo_should_send n1 (ag_tempo g)")
    case (Pair d t)
    with Approved o show ?thesis
      by (cases d; cases "send (ap_normalized_command p) w"; cases "fst (send (ap_normalized_command p) w)")
         (simp_all add: ActionGateway_approve_and_send_def push_audit_def audit_entry_def)
  qed
next
  case (Denied r)
  then have "\<not> gate_open g p ctx"
    by (metis GateDecision.distinct(3) evaluate_Approved_iff gate_open_def)
  with Denied show ?thesis
    by (simp add: ActionGateway_approve_and_send_def push_audit_def audit_entry_def)
next
  case NeedsConfirmation
  then have "\<not> gate_open g p ctx"
    by (metis GateDecision.distinct(1) evaluate_Approved_iff gate_open_def)
  with NeedsConfirmation show ?thesis
    by (simp add: ActionGateway_approve_and_send_def push_audit_def audit_entry_def)
qed (simp_all add: evaluate_not_paused)

definition demo_proposal :: ActionProposal where
  "demo_proposal =
     \<lparr>ap_id = ''ap-000001'', ap_source = Autopilot, ap_original_suggestion = ''say hi'',
      ap_normalized_command = ''say'', ap_args = [''hi''], ap_risk_tier = Standard,
      ap_requires_confirmation = False, ap_created_ms = 1\<rparr>"

text \<open>
  C17: Emergency stop. Once the stop is engaged, whatever operations follow, as long as none
  releases it, the world is never touched, the queue is emptied at that moment, and the gate
  answers every proposal with the emergency stop as the reason.
\<close>

theorem emergency_stop_silences:
  assumes "list_all (\<lambda>x. x \<noteq> ReleaseStop) ops"
  shows "let s1 = gate_step send (EngageStop n1 n2) (w, g); s2 = run (gate_step send) ops s1 in
    vq_entries (ag_queue (snd s1)) = [] \<and> fst s2 = w
    \<and> ActionGateway_evaluate (snd s2) p ctx = Denied EmergencyStopped"
proof -
  have "stopped w (gate_step send (EngageStop n1 n2) (w, g))" by (simp add: stopped_def)
  from run_stopped [OF this assms] show ?thesis
    by (simp add: Let_def stopped_evaluate stopped_def)
qed

theorem emergency_stop_silences_witness:
  "fst (run (gate_step (\<lambda>c w. (Inr c, c # w)))
       [ApproveAndSend demo_proposal GateContext_ready 9 9, Enqueue demo_proposal]
       (gate_step (\<lambda>c w. (Inr c, c # w)) (EngageStop 5 5)
         ([''look''], ActionGateway_new (CommandDatabase_new ''w'') (HumanTempo_new 0 1 10) 4)))
     = [''look'']"
  using emergency_stop_silences
    [where ops = "[ApproveAndSend demo_proposal GateContext_ready 9 9, Enqueue demo_proposal]"
      and ?n1.0 = 5 and ?n2.0 = 5 and w = "[''look'']"
      and g = "ActionGateway_new (CommandDatabase_new ''w'') (HumanTempo_new 0 1 10) 4"
      and send = "\<lambda>c w. (Inr c, c # w)"]
  by (simp only: Let_def list.pred_inject GateOp.simps simp_thms not_False_eq_True)

text \<open>
  The stop does not stop proposing. An engaged stop changes neither what \<open>propose\<close> returns
  nor what \<open>queue_entry\<close> does with a queue: new proposals are still issued and still queued.
\<close>

theorem stop_leaves_proposing:
  "fst (ActionGateway_propose src sug now (ActionGateway_engage_emergency_stop n1 n2 g))
     = fst (ActionGateway_propose src sug now g)
   \<and> fst (ActionGateway_queue_entry p (ActionGateway_engage_emergency_stop n1 n2 g))
     = (if vq_capacity (ag_queue g) = 0 then Inl QueueFull else Inr 0)"
  by (simp add: ActionGateway_propose_def ActionGateway_queue_entry_def VisibleQueue_push_def
      Let_def split: prod.split)

text \<open>
  The visible queue stays within its capacity, whatever the operations.
\<close>

theorem visible_queue_bounded:
  "length (vq_entries (ag_queue (snd (run (gate_step send) ops
      (w, ActionGateway_new db tempo capacity))))) \<le> capacity"
proof -
  have cap: "vq_capacity (ag_queue (snd (run (gate_step send) ops s))) = vq_capacity (ag_queue (snd s))"
    for s
  proof (induction ops arbitrary: s)
    case (Cons x xs)
    have "vq_capacity (ag_queue (snd (gate_step send x s))) = vq_capacity (ag_queue (snd s))"
      by (cases s; cases x) (auto simp: ActionGateway_queue_entry_def split: prod.split
          dest: arg_cong [of _ _ "\<lambda>x. vq_capacity (snd x)"])
    with Cons show ?case by simp
  qed simp
  have "queue_inv (ag_queue (snd (run (gate_step send) ops (w, ActionGateway_new db tempo capacity))))"
    by (rule gate_queue.run_inv) (simp add: queue_inv_def ActionGateway_new_def VisibleQueue_new_def)
  then show ?thesis by (simp add: queue_inv_def cap ActionGateway_new_def VisibleQueue_new_def)
qed

text \<open>
  The audit log is append-only: no sequence of operations removes or rewrites a record.
\<close>

theorem audit_append_only:
  "prefix (ag_audit g) (ag_audit (snd (run (gate_step send) ops (w, g))))"
  using gate_log.run_log_prefix [where s = "(w, g)"] by simp

text \<open>
  Proposal ids are unique. A gateway never issues the same id twice, in any sequence of
  fewer than \<open>2 ^ 64\<close> operations.
\<close>

theorem proposal_ids_unique:
  assumes "length ops < 2 ^ 64"
  shows "distinct (issued_ids send ops (w, ActionGateway_new db tempo capacity))"
  using assms by (intro issued_ids_distinct) (simp add: ActionGateway_new_def)

theorem proposal_ids_unique_witness:
  "distinct (issued_ids (\<lambda>c w. (Inr c, c # w)) [Propose Ai ''look'' 1, Propose Voice ''say hi'' 2]
     ([], ActionGateway_new (CommandDatabase_new ''w'') (HumanTempo_new 0 1 10) 4))"
  by (rule proposal_ids_unique) simp

text \<open>
  What \<open>propose\<close> returns, on every branch. The errors come in the order blank, longer than
  1024 bytes, database not ready, nothing left after normalization; otherwise the proposal
  carries the normalized command and arguments with the tier and confirmation the database
  gives them, and the command is not empty and has no white space in it.
\<close>

theorem propose_spec:
  "(case fst (ActionGateway_propose src sug now g) of
      Inl e \<Rightarrow>
        e = (if trim sug = [] then EmptySuggestion
             else if 1024 < length sug then OversizedSuggestion
             else if \<not> CommandDatabase_is_ready (ag_db g) then CommandDatabaseUnavailable
             else UnknownIntent)
        \<and> snd (ActionGateway_propose src sug now g) = g
    | Inr p \<Rightarrow>
        (let pol = CommandDatabase_evaluate (ag_db g) (ap_normalized_command p) (ap_args p) in
         (ap_normalized_command p, ap_args p) = normalize sug
         \<and> ap_risk_tier p = cp_tier pol
         \<and> ap_requires_confirmation p = cp_requires_confirmation pol
         \<and> ap_normalized_command p \<noteq> []
         \<and> length sug \<le> 1024 \<and> CommandDatabase_is_ready (ag_db g)
         \<and> ActionGateway_evaluate (snd (ActionGateway_propose src sug now g)) p GateContext_ready
           = (if es_engaged (ag_emergency_stop g) then Denied EmergencyStopped
              else if cp_arg_ok pol \<and> \<not> cp_denied pol
              then (if cp_requires_confirmation pol then NeedsConfirmation else Approved)
              else Denied DeniedByPolicy)))"
  by (simp add: ActionGateway_propose_def ActionGateway_evaluate_def EmergencyStop_blocks_def
      GateContext_ready_def Let_def split: prod.split)

lemma propose_example:
  "fst (ActionGateway_propose Ai '' /Kill  rat '' 7
     (ActionGateway_new (CommandDatabase_new ''w'') (HumanTempo_new 0 1 10) 4)) =
   Inr \<lparr>ap_id = ''ap-000001'', ap_source = Ai, ap_original_suggestion = '' /Kill  rat '',
     ap_normalized_command = ''kill'', ap_args = [''rat''], ap_risk_tier = Risky,
     ap_requires_confirmation = True, ap_created_ms = 7\<rparr>"
  by code_simp

text \<open>
  A slash can survive normalization. The text \<open>/ /drop\<close> normalizes to the command \<open>/drop\<close>,
  so a database that denies \<open>drop\<close> does not recognise it and the gate approves it.
\<close>

theorem slash_survives_normalization:
  "normalize ''/ /drop'' = (''/drop'', [])
   \<and> (let db = CommandDatabase_add_rule (CommandRule_deny (CommandRule_new ''drop'' Destructive))
            (CommandDatabase_new ''w'');
          (r, g) = ActionGateway_propose Ai ''/ /drop'' 1
            (ActionGateway_new db (HumanTempo_new 0 1 10) 4)
      in case r of Inl _ \<Rightarrow> False
         | Inr p \<Rightarrow> ActionGateway_evaluate g p GateContext_ready = Approved
             \<and> ActionGateway_evaluate g (p\<lparr>ap_normalized_command := ''drop''\<rparr>) GateContext_ready
               = Denied DeniedByPolicy)"
  by code_simp

text \<open>
  Two of the verified context flags are not read: neither the visibility of the source nor
  the context's copy of the emergency stop changes a decision.
\<close>

theorem evaluate_ignores_flags:
  "ActionGateway_evaluate g p
     (ctx\<lparr>gc_source_visible := a, gc_emergency_stop_engaged := b\<rparr>) = ActionGateway_evaluate g p ctx"
  by (simp add: ActionGateway_evaluate_def)

end
