(* ===== verification/GatewayQt.thy ===== *)
theory GatewayQt
  imports Actions
begin

text \<open>
  The Qt command-safety gateway, \<open>src/wiremudder/command-safety/action_gateway.cpp\<close> and
  \<open>.h\<close>, which mirrors the Rust core of the theories Policy and Actions. Types that have the same
  fields on both sides are shared. Qt's number parser \<open>QString::toInt\<close> is the parameter
  \<open>to_int\<close>. The last section relates the two gateways.
\<close>

section \<open>Names\<close>

fun actionSourceName :: "ActionSource \<Rightarrow> string" where
  "actionSourceName Ai = ''ai''"
| "actionSourceName Autopilot = ''autopilot''"
| "actionSourceName Voice = ''voice''"
| "actionSourceName Macro = ''macro''"
| "actionSourceName Trigger = ''trigger''"
| "actionSourceName Script = ''script''"
| "actionSourceName Plugin = ''plugin''"
| "actionSourceName Headless = ''headless''"
| "actionSourceName CrossSession = ''cross-session''"

definition allActionSources :: "ActionSource list" where
  "allActionSources = [Ai, Autopilot, Voice, Macro, Trigger, Script, Plugin, Headless, CrossSession]"

fun riskTierName :: "RiskTier \<Rightarrow> string" where
  "riskTierName Safe = ''safe''"
| "riskTierName Standard = ''standard''"
| "riskTierName Risky = ''risky''"
| "riskTierName Destructive = ''destructive''"

definition riskTierRequiresConfirmation :: "RiskTier \<Rightarrow> bool" where
  "riskTierRequiresConfirmation t \<longleftrightarrow> t = Risky \<or> t = Destructive"

fun denialReasonName :: "DenialReason \<Rightarrow> string" where
  "denialReasonName EmergencyStopped = ''emergency-stop''"
| "denialReasonName NotConnected = ''not-connected''"
| "denialReasonName RoutingUnstable = ''routing-unstable''"
| "denialReasonName InjectionFlagged = ''injection-flagged''"
| "denialReasonName DeniedByPolicy = ''denied-by-policy''"
| "denialReasonName AutomationDisabled = ''automation-disabled''"
| "denialReasonName Pacing = ''pacing''"
| "denialReasonName QueueFull = ''queue-full''"

section \<open>Command database\<close>

definition show_int :: "int \<Rightarrow> string" where
  "show_int i = (if i < 0 then CHR ''-'' # show_nat (nat (- i)) else show_nat (nat i))"

definition validateArgs :: "(string \<Rightarrow> int) \<Rightarrow> string \<Rightarrow> string list \<Rightarrow> bool \<times> string" where
  "validateArgs to_int policy args =
     (if policy = ''any'' then (True, ''ok'')
      else if prefix ''eq:'' policy then
        (let v = drop 3 policy in
         if length args = 1 \<and> args ! 0 = v then (True, ''ok'')
         else (False, ''expected argument equal to '' @ v))
      else if prefix ''min:'' policy then
        (let n = to_int (drop 4 policy) in
         if n \<le> int (length args) then (True, ''ok'')
         else (False, ''expected at least '' @ show_int n @ '' arguments''))
      else if prefix ''max:'' policy then
        (let n = to_int (drop 4 policy) in
         if int (length args) \<le> n then (True, ''ok'')
         else (False, ''expected at most '' @ show_int n @ '' arguments''))
      else (False, ''unsupported argument policy''))"

definition looksDestructive :: "string \<Rightarrow> string list \<Rightarrow> bool" where
  "looksDestructive command args =
     (let joined = to_lower (command @ '' '' @ str_join '' '' args)
      in list_ex (\<lambda>k. str_contains joined k)
           [''kill'', ''quit'', ''quit!'', ''delete'', ''drop all'', ''sacrifice'', ''sell all'',
            ''give all''])"

record CommandDatabaseQt =
  dq_world :: string
  dq_rules :: "CommandRule list"

definition CommandDatabaseQt_new :: "string \<Rightarrow> CommandDatabaseQt" where
  "CommandDatabaseQt_new world = \<lparr>dq_world = world, dq_rules = []\<rparr>"

definition CommandDatabaseQt_addRule :: "CommandRule \<Rightarrow> CommandDatabaseQt \<Rightarrow> CommandDatabaseQt" where
  "CommandDatabaseQt_addRule r db = db\<lparr>dq_rules := dq_rules db @ [r]\<rparr>"

definition CommandDatabaseQt_isReady :: "CommandDatabaseQt \<Rightarrow> bool" where
  "CommandDatabaseQt_isReady db \<longleftrightarrow> dq_world db \<noteq> []"

fun evaluate_rules ::
    "(string \<Rightarrow> int) \<Rightarrow> CommandRule list \<Rightarrow> string \<Rightarrow> string list \<Rightarrow> CommandPolicy" where
  "evaluate_rules to_int [] command args =
     (let destructive = looksDestructive command args in
      \<lparr>cp_command = command, cp_tier = (if destructive then Risky else Standard),
       cp_denied = False, cp_requires_confirmation = destructive, cp_arg_ok = True,
       cp_arg_reason = ''unknown command; standard tier''\<rparr>)"
| "evaluate_rules to_int (rule # rules) command args =
     (if cr_command rule \<noteq> command then evaluate_rules to_int rules command args
      else if cr_deny rule then
        \<lparr>cp_command = command, cp_tier = cr_tier rule, cp_denied = True,
         cp_requires_confirmation = False, cp_arg_ok = False,
         cp_arg_reason = ''denied by command database''\<rparr>
      else let (argOk, reason) = validateArgs to_int (cr_arg_policy rule) args;
               confirm = riskTierRequiresConfirmation (cr_tier rule) \<and> \<not> cr_allowlisted rule in
        \<lparr>cp_command = command, cp_tier = cr_tier rule, cp_denied = False,
         cp_requires_confirmation = confirm, cp_arg_ok = argOk, cp_arg_reason = reason\<rparr>)"

definition CommandDatabaseQt_evaluate ::
    "(string \<Rightarrow> int) \<Rightarrow> CommandDatabaseQt \<Rightarrow> string \<Rightarrow> string list \<Rightarrow> CommandPolicy" where
  "CommandDatabaseQt_evaluate to_int db command args = evaluate_rules to_int (dq_rules db) command args"

section \<open>Pacing, queue, emergency stop\<close>

record HumanTempoQt =
  tq_minIntervalMs :: u64
  tq_maxBurst :: int
  tq_burstWindowMs :: u64
  tq_lastSendMs :: u64
  tq_burstStartMs :: u64
  tq_burstCount :: int

definition HumanTempoQt_new :: "u64 \<Rightarrow> int \<Rightarrow> u64 \<Rightarrow> HumanTempoQt" where
  "HumanTempoQt_new minIntervalMs maxBurst burstWindowMs =
     \<lparr>tq_minIntervalMs = minIntervalMs, tq_maxBurst = maxBurst,
      tq_burstWindowMs = burstWindowMs, tq_lastSendMs = 0, tq_burstStartMs = 0,
      tq_burstCount = 0\<rparr>"

text \<open>The result is the return value and what is written to \<open>*waitMs\<close>.\<close>

definition shouldSend_budget :: "u64 \<Rightarrow> HumanTempoQt \<Rightarrow> (bool \<times> u64) \<times> HumanTempoQt" where
  "shouldSend_budget nowMs t =
     (if tq_maxBurst t \<le> tq_burstCount t
      then ((False, tq_burstWindowMs t - (nowMs - tq_burstStartMs t)), t)
      else ((True, 0), t\<lparr>tq_lastSendMs := nowMs, tq_burstCount := tq_burstCount t + 1\<rparr>))"

definition HumanTempoQt_shouldSend :: "u64 \<Rightarrow> HumanTempoQt \<Rightarrow> (bool \<times> u64) \<times> HumanTempoQt" where
  "HumanTempoQt_shouldSend nowMs t =
     (if tq_burstWindowMs t \<le> nowMs - tq_burstStartMs t
      then let t1 = t\<lparr>tq_burstStartMs := nowMs, tq_burstCount := 0\<rparr> in
           if 0 < tq_lastSendMs t1 \<and> nowMs - tq_lastSendMs t1 < tq_minIntervalMs t1
           then ((False, tq_minIntervalMs t1 - (nowMs - tq_lastSendMs t1)), t1)
           else shouldSend_budget nowMs t1
      else shouldSend_budget nowMs t)"

record VisibleQueueQt =
  qq_capacity :: int
  qq_entries :: "QueueEntry list"

definition VisibleQueueQt_new :: "int \<Rightarrow> VisibleQueueQt" where
  "VisibleQueueQt_new capacity = \<lparr>qq_capacity = capacity, qq_entries = []\<rparr>"

definition VisibleQueueQt_push :: "QueueEntry \<Rightarrow> VisibleQueueQt \<Rightarrow> bool \<times> VisibleQueueQt" where
  "VisibleQueueQt_push e q =
     (if qq_capacity q \<le> int (length (qq_entries q)) then (False, q)
      else (True, q\<lparr>qq_entries := qq_entries q @ [e]\<rparr>))"

definition VisibleQueueQt_cancelAll :: "VisibleQueueQt \<Rightarrow> nat \<times> VisibleQueueQt" where
  "VisibleQueueQt_cancelAll q = (length (qq_entries q), q\<lparr>qq_entries := []\<rparr>)"

text \<open>The loop of \<open>remove\<close> goes down from the last index and removes every match.\<close>

fun remove_down :: "string \<Rightarrow> nat \<Rightarrow> QueueEntry list \<Rightarrow> QueueEntry list" where
  "remove_down pid 0 es = es"
| "remove_down pid (Suc i) es =
     remove_down pid i
       (if qe_proposal_id (es ! i) = pid then take i es @ drop (Suc i) es else es)"

definition VisibleQueueQt_remove :: "string \<Rightarrow> VisibleQueueQt \<Rightarrow> bool \<times> VisibleQueueQt" where
  "VisibleQueueQt_remove pid q =
     (let es = remove_down pid (length (qq_entries q)) (qq_entries q)
      in (length es \<noteq> length (qq_entries q), q\<lparr>qq_entries := es\<rparr>))"

definition EmergencyStopQt_engage :: "bool \<Rightarrow> bool" where
  "EmergencyStopQt_engage engaged = True"

definition EmergencyStopQt_release :: "bool \<Rightarrow> bool" where
  "EmergencyStopQt_release engaged = False"

definition EmergencyStopQt_blocks :: "bool \<Rightarrow> bool" where
  "EmergencyStopQt_blocks engaged = engaged"

section \<open>JSON output\<close>

definition qint64 :: "u64 \<Rightarrow> int" where
  "qint64 w = sint w"

definition ActionProposal_toJson :: "ActionProposal \<Rightarrow> json_object" where
  "ActionProposal_toJson p =
     [(''id'', JString (ap_id p)), (''source'', JString (actionSourceName (ap_source p))),
      (''original_suggestion'', JString (ap_original_suggestion p)),
      (''normalized_command'', JString (ap_normalized_command p)),
      (''args'', JArray (map JString (ap_args p))),
      (''risk_tier'', JString (riskTierName (ap_risk_tier p))),
      (''requires_confirmation'', JBool (ap_requires_confirmation p)),
      (''created_ms'', JInt (qint64 (ap_created_ms p)))]"

definition ActionAuditEntry_toJson :: "ActionAuditEntry \<Rightarrow> json_object" where
  "ActionAuditEntry_toJson a =
     [(''at_ms'', JInt (qint64 (aa_at_ms a))), (''proposal_id'', JString (aa_proposal_id a)),
      (''source'', JString (actionSourceName (aa_source a))),
      (''original_suggestion'', JString (aa_original_suggestion a)),
      (''normalized_command'', JString (aa_normalized_command a)),
      (''risk_tier'', JString (riskTierName (aa_risk_tier a))),
      (''required_approval'', JBool (aa_required_approval a)),
      (''pacing_decision'', JString (aa_pacing_decision a)),
      (''final_result'', JString (aa_final_result a))]"

section \<open>The gateway\<close>

datatype GateDecisionQt = QApproved | QNeedsConfirmation | QDenied | QPaused | QQueued

record ActionGatewayQt =
  gq_db :: CommandDatabaseQt
  gq_tempo :: HumanTempoQt
  gq_queue :: VisibleQueueQt
  gq_emergencyStop :: bool
  gq_audit :: "ActionAuditEntry list"
  gq_seq :: u64

definition ActionGatewayQt_new :: "CommandDatabaseQt \<Rightarrow> HumanTempoQt \<Rightarrow> int \<Rightarrow> ActionGatewayQt" where
  "ActionGatewayQt_new db tempo queueCapacity =
     \<lparr>gq_db = db, gq_tempo = tempo, gq_queue = VisibleQueueQt_new queueCapacity,
      gq_emergencyStop = False, gq_audit = [], gq_seq = 0\<rparr>"

text \<open>\<open>Inl\<close> is the false return with the text written to \<open>*err\<close>.\<close>

definition ActionGatewayQt_propose ::
    "(string \<Rightarrow> int) \<Rightarrow> ActionSource \<Rightarrow> string \<Rightarrow> u64 \<Rightarrow> ActionGatewayQt \<Rightarrow>
      (string + ActionProposal) \<times> ActionGatewayQt" where
  "ActionGatewayQt_propose to_int source suggestion nowMs g =
     (let trimmed = trim suggestion in
      if trimmed = [] then (Inl ''empty suggestion'', g)
      else if 1024 < length trimmed then (Inl ''oversized suggestion'', g)
      else if \<not> CommandDatabaseQt_isReady (gq_db g) then (Inl ''command database unavailable'', g)
      else case split_ws (trim_start_char (CHR ''/'') trimmed) of
          [] \<Rightarrow> (Inl ''unknown intent'', g)
        | part # args \<Rightarrow>
            (let cmd = to_lower part;
                 policy = CommandDatabaseQt_evaluate to_int (gq_db g) cmd args;
                 g1 = g\<lparr>gq_seq := gq_seq g + 1\<rparr> in
             (Inr \<lparr>ap_id = ''ap-'' @ pad_zero 6 (show_nat (unat (gq_seq g1))),
                   ap_source = source, ap_original_suggestion = suggestion,
                   ap_normalized_command = cmd, ap_args = args, ap_risk_tier = cp_tier policy,
                   ap_requires_confirmation = cp_requires_confirmation policy,
                   ap_created_ms = nowMs\<rparr>, g1)))"

definition ActionGatewayQt_evaluate ::
    "(string \<Rightarrow> int) \<Rightarrow> ActionGatewayQt \<Rightarrow> ActionProposal \<Rightarrow> GateContext \<Rightarrow> GateDecisionQt" where
  "ActionGatewayQt_evaluate to_int g p ctx =
     (if EmergencyStopQt_blocks (gq_emergencyStop g) then QDenied
      else if \<not> gc_connected ctx then QDenied
      else if \<not> gc_profile_automation_enabled ctx then QDenied
      else if gc_injection_flagged ctx then QDenied
      else if \<not> gc_routing_stable ctx then QDenied
      else let policy = CommandDatabaseQt_evaluate to_int (gq_db g) (ap_normalized_command p) (ap_args p) in
        if cp_denied policy \<or> \<not> cp_arg_ok policy then QDenied
        else if ap_requires_confirmation p \<or> cp_requires_confirmation policy
        then QNeedsConfirmation else QApproved)"

definition makeAudit :: "u64 \<Rightarrow> ActionProposal \<Rightarrow> string \<Rightarrow> string \<Rightarrow> ActionAuditEntry" where
  "makeAudit nowMs p result detail =
     \<lparr>aa_at_ms = nowMs, aa_proposal_id = ap_id p, aa_source = ap_source p,
      aa_original_suggestion = ap_original_suggestion p,
      aa_normalized_command = ap_normalized_command p, aa_risk_tier = ap_risk_tier p,
      aa_required_approval = ap_requires_confirmation p, aa_pacing_decision = detail,
      aa_final_result = result\<rparr>"

definition append_audit :: "ActionAuditEntry \<Rightarrow> ActionGatewayQt \<Rightarrow> ActionGatewayQt" where
  "append_audit e g = g\<lparr>gq_audit := gq_audit g @ [e]\<rparr>"

text \<open>The result is the text written to \<open>*result\<close>; the function always returns true.\<close>

definition ActionGatewayQt_approveAndSend ::
    "(string \<Rightarrow> int) \<Rightarrow> ActionProposal \<Rightarrow> GateContext \<Rightarrow> (string \<Rightarrow> 'w \<Rightarrow> string \<times> 'w) \<Rightarrow>
      u64 \<Rightarrow> u64 \<Rightarrow> 'w \<times> ActionGatewayQt \<Rightarrow> string \<times> 'w \<times> ActionGatewayQt" where
  "ActionGatewayQt_approveAndSend to_int p ctx send now1 now2 s =
     (let (w, g) = s; d = ActionGatewayQt_evaluate to_int g p ctx in
      if d = QDenied then
        (''denied'', w, append_audit (makeAudit now2 p ''denied'' ''policy'') g)
      else if d = QNeedsConfirmation then
        (''needs-confirmation'', w, append_audit (makeAudit now2 p ''needs-confirmation'' []) g)
      else let ((ok, waitMs), t1) = HumanTempoQt_shouldSend now1 (gq_tempo g);
               g1 = g\<lparr>gq_tempo := t1\<rparr> in
        if \<not> ok then
          (''paced:'' @ show_nat (unat waitMs), w,
           append_audit (makeAudit now2 p ''paced'' (''wait '' @ show_nat (unat waitMs) @ ''ms'')) g1)
        else let (sendResult, w1) = send (ap_normalized_command p) w in
          (sendResult, w1, append_audit (makeAudit now2 p ''sent'' sendResult) g1))"

definition ActionGatewayQt_queueEntry ::
    "ActionProposal \<Rightarrow> ActionGatewayQt \<Rightarrow> (string + unit) \<times> ActionGatewayQt" where
  "ActionGatewayQt_queueEntry p g =
     (let (ok, q) = VisibleQueueQt_push
        \<lparr>qe_proposal_id = ap_id p, qe_source = ap_source p,
         qe_original_suggestion = ap_original_suggestion p,
         qe_normalized_command = ap_normalized_command p, qe_risk_tier = ap_risk_tier p,
         qe_required_approval = ap_requires_confirmation p, qe_pacing_decision = ''pending'',
         qe_status = ''awaiting-approval''\<rparr> (gq_queue g)
      in (if ok then Inr () else Inl ''queue full'', g\<lparr>gq_queue := q\<rparr>))"

definition ActionGatewayQt_engageEmergencyStop :: "u64 \<Rightarrow> ActionGatewayQt \<Rightarrow> ActionGatewayQt" where
  "ActionGatewayQt_engageEmergencyStop nowMs g =
     (let (cancelled, q) = VisibleQueueQt_cancelAll (gq_queue g) in
      append_audit
        \<lparr>aa_at_ms = nowMs, aa_proposal_id = ''*'', aa_source = Autopilot,
         aa_original_suggestion = [], aa_normalized_command = [], aa_risk_tier = Standard,
         aa_required_approval = False, aa_pacing_decision = ''emergency-stop'',
         aa_final_result = ''cancelled '' @ show_nat cancelled @ '' queued''\<rparr>
        (g\<lparr>gq_queue := q, gq_emergencyStop := EmergencyStopQt_engage (gq_emergencyStop g)\<rparr>))"

definition ActionGatewayQt_releaseEmergencyStop :: "ActionGatewayQt \<Rightarrow> ActionGatewayQt" where
  "ActionGatewayQt_releaseEmergencyStop g =
     g\<lparr>gq_emergencyStop := EmergencyStopQt_release (gq_emergencyStop g)\<rparr>"

fun gateqt_step ::
    "(string \<Rightarrow> int) \<Rightarrow> (string \<Rightarrow> 'w \<Rightarrow> string \<times> 'w) \<Rightarrow> GateOp \<Rightarrow> 'w \<times> ActionGatewayQt \<Rightarrow>
      'w \<times> ActionGatewayQt" where
  "gateqt_step to_int send (Propose src sug now) (w, g) =
     (w, snd (ActionGatewayQt_propose to_int src sug now g))"
| "gateqt_step to_int send (ApproveAndSend p ctx now1 now2) (w, g) =
     snd (ActionGatewayQt_approveAndSend to_int p ctx send now1 now2 (w, g))"
| "gateqt_step to_int send (Enqueue p) (w, g) = (w, snd (ActionGatewayQt_queueEntry p g))"
| "gateqt_step to_int send (EngageStop now1 now2) (w, g) =
     (w, ActionGatewayQt_engageEmergencyStop now2 g)"
| "gateqt_step to_int send ReleaseStop (w, g) = (w, ActionGatewayQt_releaseEmergencyStop g)"

section \<open>The Qt gateway mirrors the Rust gateway\<close>

definition numbers_agree :: "(string \<Rightarrow> int) \<Rightarrow> CommandRule list \<Rightarrow> bool" where
  "numbers_agree to_int rules \<longleftrightarrow>
     list_all (\<lambda>r. \<forall>v. (strip_prefix ''min:'' (cr_arg_policy r) = Some v
                      \<or> strip_prefix ''max:'' (cr_arg_policy r) = Some v)
                  \<longrightarrow> to_int v = int (parse_usize_or_0 v)) rules"

definition tempo_rel :: "HumanTempoQt \<Rightarrow> HumanTempo \<Rightarrow> bool" where
  "tempo_rel q t \<longleftrightarrow>
     tq_minIntervalMs q = ht_min_interval_ms t \<and> tq_maxBurst q = int (ht_max_burst t)
     \<and> tq_burstWindowMs q = ht_burst_window_ms t \<and> tq_lastSendMs q = ht_last_send_ms t
     \<and> tq_burstStartMs q = ht_burst_start_ms t \<and> tq_burstCount q = int (ht_burst_count t)"

text \<open>What the two audit records share: the Qt one has another detail text for denials and
  another tier for the stop record.\<close>

definition audit_core :: "ActionAuditEntry \<Rightarrow> string \<times> ActionSource \<times> string \<times> string \<times> bool \<times> string" where
  "audit_core e =
     (aa_proposal_id e, aa_source e, aa_original_suggestion e, aa_normalized_command e,
      aa_required_approval e, aa_final_result e)"

definition gate_rel ::
    "(string \<Rightarrow> int) \<Rightarrow> 'w \<times> ActionGatewayQt \<Rightarrow> 'w \<times> ActionGateway \<Rightarrow> bool" where
  "gate_rel to_int c a \<longleftrightarrow>
     fst c = fst a
     \<and> dq_rules (gq_db (snd c)) = db_rules (ag_db (snd a))
     \<and> dq_world (gq_db (snd c)) = db_world (ag_db (snd a))
     \<and> db_schema_version (ag_db (snd a)) = POLICY_SCHEMA_VERSION
     \<and> numbers_agree to_int (db_rules (ag_db (snd a)))
     \<and> tempo_rel (gq_tempo (snd c)) (ag_tempo (snd a))
     \<and> qq_entries (gq_queue (snd c)) = vq_entries (ag_queue (snd a))
     \<and> qq_capacity (gq_queue (snd c)) = int (vq_capacity (ag_queue (snd a)))
     \<and> gq_emergencyStop (snd c) = es_engaged (ag_emergency_stop (snd a))
     \<and> map audit_core (gq_audit (snd c)) = map audit_core (ag_audit (snd a))
     \<and> gq_seq (snd c) = ag_seq (snd a)"

text \<open>A Qt sender cannot fail: as a Rust sender it always returns \<open>Ok\<close>.\<close>

definition ok_send :: "(string \<Rightarrow> 'w \<Rightarrow> string \<times> 'w) \<Rightarrow> 'w send" where
  "ok_send send c w = (let (r, w1) = send c w in (Inr r, w1))"

fun short_text :: "GateOp \<Rightarrow> bool" where
  "short_text (Propose src sug now) = (length sug \<le> 1024)"
| "short_text _ = True"

lemma show_int_of_nat [simp]: "show_int (int n) = show_nat n"
  by (simp add: show_int_def)

lemma validateArgs_eq:
  assumes "\<forall>v. (strip_prefix ''min:'' pol = Some v \<or> strip_prefix ''max:'' pol = Some v)
    \<longrightarrow> to_int v = int (parse_usize_or_0 v)"
  shows "validateArgs to_int pol args = validate_args pol args"
proof -
  have e: "strip_prefix ''eq:'' pol = (if prefix ''eq:'' pol then Some (drop 3 pol) else None)"
    and mi: "strip_prefix ''min:'' pol = (if prefix ''min:'' pol then Some (drop 4 pol) else None)"
    and ma: "strip_prefix ''max:'' pol = (if prefix ''max:'' pol then Some (drop 4 pol) else None)"
    by (simp_all add: strip_prefix_def eval_nat_numeral)
  have one: "(length args = 1 \<and> args ! 0 = v) = (args = [v])" for v
    by (cases args) auto
  have "prefix ''min:'' pol \<Longrightarrow> to_int (drop 4 pol) = int (parse_usize_or_0 (drop 4 pol))"
    using assms mi by simp
  moreover have "prefix ''max:'' pol \<Longrightarrow> to_int (drop 4 pol) = int (parse_usize_or_0 (drop 4 pol))"
    using assms ma by simp
  ultimately show ?thesis
    unfolding validateArgs_def validate_args_def e mi ma one Let_def
    by (cases "pol = ''any''"; cases "prefix ''eq:'' pol"; cases "prefix ''min:'' pol";
        cases "prefix ''max:'' pol") (simp_all only: if_True if_False option.case
          of_nat_le_iff show_int_of_nat not_True_eq_False not_False_eq_True)
qed

lemma looksDestructive_eq: "looksDestructive c args = looks_destructive c args"
  by (simp add: looksDestructive_def looks_destructive_def destructive_keywords_def)

lemma evaluate_rules_eq:
  "numbers_agree to_int rules \<Longrightarrow>
    evaluate_rules to_int rules c args
      = CommandDatabase_evaluate \<lparr>db_world = w, db_schema_version = v, db_rules = rules\<rparr> c args"
proof (induction rules)
  case Nil
  then show ?case
    by (simp add: CommandDatabase_evaluate_def unknown_policy_def looksDestructive_eq Let_def)
next
  case (Cons r rs)
  then show ?case
    by (simp add: CommandDatabase_evaluate_def rule_policy_def numbers_agree_def validateArgs_eq
        riskTierRequiresConfirmation_def RiskTier_requires_confirmation_def)
qed

lemma evaluateQt_eq:
  assumes "gate_rel to_int (w, c) (v, a)"
  shows "CommandDatabaseQt_evaluate to_int (gq_db c) cmd args
    = CommandDatabase_evaluate (ag_db a) cmd args"
proof -
  have "numbers_agree to_int (db_rules (ag_db a))" "dq_rules (gq_db c) = db_rules (ag_db a)"
    using assms by (simp_all add: gate_rel_def)
  then show ?thesis
    using evaluate_rules_eq [of to_int "db_rules (ag_db a)" cmd args]
    by (simp add: CommandDatabaseQt_evaluate_def CommandDatabase_evaluate_def)
qed

lemma shouldSend_rel:
  assumes "tempo_rel q t"
  shows "fst (fst (HumanTempoQt_shouldSend now q)) = (fst (HumanTempo_should_send now t) = Now)
    \<and> tempo_rel (snd (HumanTempoQt_shouldSend now q)) (snd (HumanTempo_should_send now t))"
  using assms
  by (auto simp: tempo_rel_def HumanTempoQt_shouldSend_def HumanTempo_should_send_def
      shouldSend_budget_def tempo_budget_def Let_def)

lemma gate_decision_rel:
  assumes "gate_rel to_int (w, c) (v, a)"
  shows "ActionGatewayQt_evaluate to_int c p ctx =
    (case ActionGateway_evaluate a p ctx of
       Approved \<Rightarrow> QApproved | NeedsConfirmation \<Rightarrow> QNeedsConfirmation | Denied _ \<Rightarrow> QDenied
     | Paused \<Rightarrow> QPaused | Queued _ \<Rightarrow> QQueued)"
proof -
  have "gq_emergencyStop c = es_engaged (ag_emergency_stop a)" using assms by (simp add: gate_rel_def)
  then show ?thesis
    by (simp add: ActionGatewayQt_evaluate_def ActionGateway_evaluate_def EmergencyStop_blocks_def
        EmergencyStopQt_blocks_def evaluateQt_eq [OF assms] Let_def)
qed

lemma propose_rel:
  assumes "gate_rel to_int (w, c) (v, a)" "length sug \<le> 1024"
  shows "(case fst (ActionGatewayQt_propose to_int src sug now c) of
       Inr p \<Rightarrow> fst (ActionGateway_propose src sug now a) = Inr p
     | Inl _ \<Rightarrow> (\<exists>e. fst (ActionGateway_propose src sug now a) = Inl e))
    \<and> gate_rel to_int (w, snd (ActionGatewayQt_propose to_int src sug now c))
        (v, snd (ActionGateway_propose src sug now a))"
proof -
  have ready: "CommandDatabaseQt_isReady (gq_db c) = CommandDatabase_is_ready (ag_db a)"
    using assms(1) by (simp add: gate_rel_def CommandDatabaseQt_isReady_def CommandDatabase_is_ready_def)
  have "length (trim s) \<le> length s" for s
    using length_dropWhile_le [of is_ws "rev (dropWhile is_ws s)", unfolded length_rev]
      length_dropWhile_le [of is_ws s]
    unfolding trim_def length_rev by (rule order_trans)
  from this [of sug] have short: "\<not> 1024 < length (trim sug)" "\<not> 1024 < length sug"
    using assms(2) by simp_all
  have ne: "split_ws t = p # ps \<Longrightarrow> to_lower p \<noteq> []" for t p ps
    using split_ws_nonempty_words [of p t] by (simp add: to_lower_def)
  have seq: "gq_seq c = ag_seq a" using assms(1) by (simp add: gate_rel_def)
  show ?thesis
  proof (cases "split_ws (trim_start_char (CHR ''/'') (trim sug))")
    case Nil
    with assms(1) ready short show ?thesis
      by (simp add: ActionGatewayQt_propose_def ActionGateway_propose_def normalize_def
          to_lower_def Let_def)
  next
    case (Cons p ps)
    with assms(1) ready short seq ne [OF Cons] show ?thesis
      by (simp add: ActionGatewayQt_propose_def ActionGateway_propose_def normalize_def
          proposal_id_def evaluateQt_eq [OF assms(1)] Let_def)
         (simp add: gate_rel_def)
  qed
qed

lemma approve_rel:
  assumes rel: "gate_rel to_int (w, c) (v, a)"
  shows "gate_rel to_int (snd (ActionGatewayQt_approveAndSend to_int p ctx send n1 n2 (w, c)))
    (snd (ActionGateway_approve_and_send p ctx (ok_send send) n1 n2 (v, a)))"
proof -
  have wv: "w = v" and t: "tempo_rel (gq_tempo c) (ag_tempo a)" using rel by (simp_all add: gate_rel_def)
  note dec = gate_decision_rel [OF rel, of p ctx]
  show ?thesis
  proof (cases "ActionGateway_evaluate a p ctx")
    case Approved
    obtain ok ms q1 where q: "HumanTempoQt_shouldSend n1 (gq_tempo c) = ((ok, ms), q1)"
      by (cases "HumanTempoQt_shouldSend n1 (gq_tempo c)") auto
    obtain d t1 where d: "HumanTempo_should_send n1 (ag_tempo a) = (d, t1)"
      by (cases "HumanTempo_should_send n1 (ag_tempo a)")
    obtain r w1 where s: "send (ap_normalized_command p) v = (r, w1)"
      by (cases "send (ap_normalized_command p) v")
    have "ok = (d = Now)" "tempo_rel q1 t1" using shouldSend_rel [OF t, of n1] q d by simp_all
    then show ?thesis using rel Approved dec wv q d s
      by (cases d) (simp_all add: ActionGatewayQt_approveAndSend_def ActionGateway_approve_and_send_def
          append_audit_def push_audit_def makeAudit_def audit_entry_def gate_rel_def audit_core_def
          ok_send_def)
  qed (use rel dec wv in \<open>simp_all add: evaluate_not_paused ActionGatewayQt_approveAndSend_def
      ActionGateway_approve_and_send_def append_audit_def push_audit_def makeAudit_def
      audit_entry_def gate_rel_def audit_core_def\<close>)
qed

lemma gate_step_rel:
  assumes "gate_rel to_int c a" "short_text x"
  shows "gate_rel to_int (gateqt_step to_int send x c) (gate_step (ok_send send) (id x) a)"
proof (cases c; cases a)
  fix w cg v ag
  assume c: "c = (w, cg)" and a: "a = (v, ag)"
  with assms have rel: "gate_rel to_int (w, cg) (v, ag)" by simp
  show ?thesis
  proof (cases x)
    case (Propose src sug now)
    then show ?thesis using propose_rel [OF rel, of sug src now] assms(2) c a by simp
  next
    case (ApproveAndSend p ctx n1 n2)
    then show ?thesis using approve_rel [OF rel] c a by simp
  next
    case (Enqueue p)
    then show ?thesis using rel c a
      by (simp add: ActionGatewayQt_queueEntry_def ActionGateway_queue_entry_def
          VisibleQueueQt_push_def VisibleQueue_push_def gate_rel_def Let_def)
  next
    case (EngageStop n1 n2)
    then show ?thesis using rel c a
      by (simp add: ActionGatewayQt_engageEmergencyStop_def ActionGateway_engage_emergency_stop_def
          VisibleQueueQt_cancelAll_def VisibleQueue_cancel_all_def EmergencyStop_engage_def
          EmergencyStopQt_engage_def append_audit_def gate_rel_def audit_core_def)
  next
    case ReleaseStop
    then show ?thesis using rel c a
      by (simp add: ActionGatewayQt_releaseEmergencyStop_def ActionGateway_release_emergency_stop_def
          EmergencyStop_release_def EmergencyStopQt_release_def gate_rel_def)
  qed
qed

interpretation gate_mirror: simulation "gateqt_step to_int send" "gate_step (ok_send send)" id
    "gate_rel to_int" short_text for to_int send
  by unfold_locales (rule gate_step_rel)

lemma gate_rel_new:
  "db_schema_version db = POLICY_SCHEMA_VERSION \<Longrightarrow> numbers_agree to_int (db_rules db) \<Longrightarrow>
    gate_rel to_int
      (w, ActionGatewayQt_new \<lparr>dq_world = db_world db, dq_rules = db_rules db\<rparr>
            (HumanTempoQt_new i (int b) win) (int cap))
      (w, ActionGateway_new db (HumanTempo_new i b win) cap)"
  by (simp add: gate_rel_def ActionGatewayQt_new_def ActionGateway_new_def tempo_rel_def
      HumanTempoQt_new_def HumanTempo_new_def VisibleQueueQt_new_def VisibleQueue_new_def
      EmergencyStop_new_def)

lemma remove_down_eq:
  "i \<le> length es \<Longrightarrow> remove_down pid i es
    = filter (\<lambda>e. qe_proposal_id e \<noteq> pid) (take i es) @ drop i es"
proof (induction i arbitrary: es)
  case 0
  then show ?case by simp
next
  case (Suc i)
  then have i: "i < length es" by simp
  then have tk: "take (Suc i) es = take i es @ [es ! i]" by (rule take_Suc_conv_app_nth)
  have dr: "drop i es = es ! i # drop (Suc i) es" using i by (rule Cons_nth_drop_Suc [symmetric])
  show ?case
    using Suc.IH [of es] Suc.IH [of "take i es @ drop (Suc i) es"] i
    by (simp add: tk dr min_def)
qed

section \<open>Properties\<close>

text \<open>
  C4: The Qt gateway refines the Rust gateway. Started with the same rules, pacing and capacity,
  and given any sequence of the same operations on suggestions of at most 1024 bytes, the two
  send the same commands (the worlds are equal), hold the same queue and sequence number, and
  their audit logs agree on every proposal, command and result. The Qt number parser is only
  asked to agree with the Rust one on the numbers in the rules.
\<close>

theorem gateways_agree:
  assumes "numbers_agree to_int (db_rules db)" "db_schema_version db = POLICY_SCHEMA_VERSION"
    and "list_all short_text ops"
  shows "let c = run (gateqt_step to_int send) ops
              (w, ActionGatewayQt_new \<lparr>dq_world = db_world db, dq_rules = db_rules db\<rparr>
                    (HumanTempoQt_new i (int b) win) (int cap));
             a = run (gate_step (ok_send send)) ops (w, ActionGateway_new db (HumanTempo_new i b win) cap)
         in fst c = fst a \<and> qq_entries (gq_queue (snd c)) = vq_entries (ag_queue (snd a))
            \<and> gq_seq (snd c) = ag_seq (snd a)
            \<and> map audit_core (gq_audit (snd c)) = map audit_core (ag_audit (snd a))"
proof -
  note start = gate_rel_new [OF assms(2,1), where w = w and i = i and b = b and win = win and cap = cap]
  show ?thesis
    using gate_mirror.sim_run [OF start assms(3), of send]
    by (simp add: gate_rel_def Let_def list.map_id0)
qed

theorem gateways_agree_witness:
  "let db = CommandDatabase_add_rule (CommandRule_arg_policy ''min:1'' (CommandRule_new ''say'' Safe))
         (CommandDatabase_new ''w'');
       ops = [Propose Ai ''say hi'' 1, ApproveAndSend demo_proposal GateContext_ready 9 9];
       c = run (gateqt_step (\<lambda>s. int (parse_usize_or_0 s)) (\<lambda>c w. (c, c # w))) ops
              ([], ActionGatewayQt_new \<lparr>dq_world = db_world db, dq_rules = db_rules db\<rparr>
                    (HumanTempoQt_new 0 (int 1) 10) (int 4));
       a = run (gate_step (ok_send (\<lambda>c w. (c, c # w)))) ops
              ([], ActionGateway_new db (HumanTempo_new 0 1 10) 4)
   in fst c = fst a \<and> fst a = [''say'']"
proof -
  let ?db = "CommandDatabase_add_rule (CommandRule_arg_policy ''min:1'' (CommandRule_new ''say'' Safe))
         (CommandDatabase_new ''w'')"
  let ?ops = "[Propose Ai ''say hi'' 1, ApproveAndSend demo_proposal GateContext_ready 9 9]"
  have 1: "numbers_agree (\<lambda>s. int (parse_usize_or_0 s)) (db_rules ?db)"
    by (simp add: numbers_agree_def list_all_iff)
  have 2: "db_schema_version ?db = POLICY_SCHEMA_VERSION"
    by (simp add: CommandDatabase_add_rule_def CommandDatabase_new_def)
  have 3: "list_all short_text ?ops" by simp
  have 4: "fst (run (gate_step (ok_send (\<lambda>c w. (c, c # w)))) ?ops
      ([], ActionGateway_new ?db (HumanTempo_new 0 1 10) 4)) = [''say'']"
    by (simp add: approve_and_send_world evaluate_Approved_iff demo_proposal_def GateContext_ready_def
        propose_snd sum.case_eq_if ActionGateway_new_def EmergencyStop_new_def ok_send_def
        CommandDatabase_evaluate_def CommandDatabase_add_rule_def CommandDatabase_new_def
        CommandRule_arg_policy_def CommandRule_new_def rule_policy_def validate_args_def
        strip_prefix_def RiskTier_requires_confirmation_def HumanTempo_should_send_def
        tempo_budget_def HumanTempo_new_def parse_usize_or_0_def parse_unsigned_def char_digit_def)
  show ?thesis
    using gateways_agree [OF 1 2 3, of "\<lambda>c w. (c, c # w)" "[]" 0 1 10 4] 4
    unfolding Let_def by simp
qed

text \<open>
  Where the mirror differs. The Rust core measures the suggestion as given, the Qt gateway
  after trimming: a suggestion of 1025 bytes that is short once trimmed is refused by the one
  and proposed by the other.
\<close>

theorem length_check_differs:
  assumes "sug = replicate 1021 (CHR '' '') @ ''look''" "CommandDatabase_is_ready db"
  shows "fst (ActionGateway_propose src sug now (ActionGateway_new db t cap)) = Inl OversizedSuggestion
    \<and> (\<exists>p. fst (ActionGatewayQt_propose to_int src sug now
           (ActionGatewayQt_new \<lparr>dq_world = db_world db, dq_rules = db_rules db\<rparr> tq capq)) = Inr p
         \<and> ap_normalized_command p = ''look'')"
proof -
  have len: "length sug = 1025" by (simp add: assms(1))
  have tr: "trim sug = ''look''" by (simp add: assms(1) trim_def is_ws_def dropWhile_append3)
  have sp: "split_ws ''look'' = [''look'']" by code_simp
  have lo: "to_lower ''look'' = ''look''" by code_simp
  show ?thesis using assms(2)
    by (simp add: ActionGateway_propose_def ActionGatewayQt_propose_def tr sp lo len
        trim_start_char_def ActionGateway_new_def ActionGatewayQt_new_def
        CommandDatabaseQt_isReady_def CommandDatabase_is_ready_def Let_def)
qed

theorem length_check_differs_witness:
  "fst (ActionGateway_propose Ai (replicate 1021 (CHR '' '') @ ''look'') 1
     (ActionGateway_new (CommandDatabase_new ''w'') (HumanTempo_new 0 1 10) 4))
     = Inl OversizedSuggestion"
  using length_check_differs [OF refl, of "CommandDatabase_new ''w''"]
  by (simp add: CommandDatabase_is_ready_def CommandDatabase_new_def)

text \<open>
  Removal from the visible queue. The downward loop of the Qt queue computes what
  \<open>retain\<close> computes in the Rust queue, and both report whether anything was removed.
\<close>

theorem queue_remove_agrees:
  "fst (VisibleQueueQt_remove pid \<lparr>qq_capacity = c, qq_entries = es\<rparr>)
     = fst (VisibleQueue_remove pid \<lparr>vq_capacity = n, vq_entries = es\<rparr>)
   \<and> qq_entries (snd (VisibleQueueQt_remove pid \<lparr>qq_capacity = c, qq_entries = es\<rparr>))
     = filter (\<lambda>e. qe_proposal_id e \<noteq> pid) es"
  by (simp add: VisibleQueueQt_remove_def VisibleQueue_remove_def remove_down_eq Let_def)

end
