(* ===== verification/Routing.thy ===== *)
theory Routing
  imports Prelude
begin

text \<open>
  Network routing profiles, \<open>wirecore/crates/wire-routing/src/lib.rs\<close>: user-owned route
  profiles, the store with its selected route, the connect-time decision, user-triggered egress
  verification and the audit log. The clock is passed to the operations that read it; an egress
  probe is its outcome, \<open>Inl\<close> the error text.
\<close>

section \<open>Routes\<close>

datatype RouteKind =
  Direct | System | Socks5 | Socks4a | HttpConnect | TorLocalSocks | SshDynamicForward
  | VpnMetadata | InterfaceBinding | VmNetns | SelfHostedRelay

definition RouteKind_enabled :: "RouteKind \<Rightarrow> bool" where
  "RouteKind_enabled k \<longleftrightarrow> \<not> (k = InterfaceBinding \<or> k = VmNetns \<or> k = SelfHostedRelay)"

fun RouteKind_label :: "RouteKind \<Rightarrow> string" where
  "RouteKind_label Direct = ''direct''"
| "RouteKind_label System = ''system''"
| "RouteKind_label Socks5 = ''socks5''"
| "RouteKind_label Socks4a = ''socks4a''"
| "RouteKind_label HttpConnect = ''http-connect''"
| "RouteKind_label TorLocalSocks = ''tor-local-socks''"
| "RouteKind_label SshDynamicForward = ''ssh-dynamic-forward''"
| "RouteKind_label VpnMetadata = ''vpn-metadata''"
| "RouteKind_label InterfaceBinding = ''interface-binding (future)''"
| "RouteKind_label VmNetns = ''vm-netns (future)''"
| "RouteKind_label SelfHostedRelay = ''self-hosted-relay (future)''"

record RouteProfile =
  rp_id :: string
  rp_name :: string
  rp_kind :: RouteKind
  rp_host :: "string option"
  rp_port :: "u16 option"
  rp_username :: "string option"
  rp_schema_version :: u32

definition ROUTING_SCHEMA_VERSION :: u32 where
  "ROUTING_SCHEMA_VERSION = 1"

datatype RouteError =
  UnsupportedKind RouteKind | MissingHost | MissingPort | InvalidName | DuplicateId | NotFound
  | NoRouteSelected | SelectedRouteUnavailable | EgressVerificationFailed string | Serialization

definition RouteProfile_new ::
    "string \<Rightarrow> string \<Rightarrow> RouteKind \<Rightarrow> string option \<Rightarrow> u16 option \<Rightarrow> string option \<Rightarrow>
      RouteError + RouteProfile" where
  "RouteProfile_new i name kind host port username =
     (if i = [] \<or> name = [] then Inl InvalidName
      else if \<not> RouteKind_enabled kind then Inl (UnsupportedKind kind)
      else Inr \<lparr>rp_id = i, rp_name = name, rp_kind = kind, rp_host = host, rp_port = port,
                rp_username = username, rp_schema_version = ROUTING_SCHEMA_VERSION\<rparr>)"

definition no_host :: "string option \<Rightarrow> bool" where
  "no_host h \<longleftrightarrow> (case h of None \<Rightarrow> [] | Some s \<Rightarrow> s) = []"

definition RouteProfile_validate :: "RouteProfile \<Rightarrow> RouteError + unit" where
  "RouteProfile_validate p =
     (if \<not> RouteKind_enabled (rp_kind p) then Inl (UnsupportedKind (rp_kind p))
      else if rp_kind p \<in> {Direct, System} then Inr ()
      else if rp_kind p \<in> {Socks5, Socks4a, HttpConnect, TorLocalSocks} then
        (if no_host (rp_host p) then Inl MissingHost
         else if rp_port p = None then Inl MissingPort else Inr ())
      else if rp_kind p = SshDynamicForward then
        (if no_host (rp_host p) then Inl MissingHost else Inr ())
      else if rp_kind p = VpnMetadata then Inr ()
      else Inl (UnsupportedKind (rp_kind p)))"

record RedactedRouteProfile =
  rr_id :: string
  rr_name :: string
  rr_kind :: RouteKind
  rr_host :: "string option"
  rr_port :: "u16 option"
  rr_has_credentials :: bool
  rr_schema_version :: u32

definition RouteProfile_redacted :: "RouteProfile \<Rightarrow> RedactedRouteProfile" where
  "RouteProfile_redacted p =
     \<lparr>rr_id = rp_id p, rr_name = rp_name p, rr_kind = rp_kind p, rr_host = rp_host p,
      rr_port = rp_port p, rr_has_credentials = (rp_username p \<noteq> None),
      rr_schema_version = rp_schema_version p\<rparr>"

record RouteDecision =
  rd_route_id :: string
  rd_kind :: RouteKind
  rd_effective_host :: "string option"
  rd_effective_port :: "u16 option"
  rd_requires_credentials :: bool
  rd_egress_verified :: bool

record EgressResult =
  er_route_id :: string
  er_ok :: bool
  er_detail :: string

record RoutingAuditEntry =
  ra_at_unix :: u64
  ra_route_id :: string
  ra_kind :: RouteKind
  ra_event :: string
  ra_redacted_route :: RedactedRouteProfile
  ra_detail :: string

section \<open>The store\<close>

record RoutingStore =
  rs_routes :: "(string, RouteProfile) hash_map"
  rs_selected :: "string option"
  rs_audit :: "RoutingAuditEntry list"

definition RoutingStore_new :: RoutingStore where
  "RoutingStore_new = \<lparr>rs_routes = [], rs_selected = None, rs_audit = []\<rparr>"

definition RoutingStore_add_route :: "RouteProfile \<Rightarrow> RoutingStore \<Rightarrow> (RouteError + unit) \<times> RoutingStore" where
  "RoutingStore_add_route p s =
     (case RouteProfile_validate p of
        Inl e \<Rightarrow> (Inl e, s)
      | Inr _ \<Rightarrow>
          (if map_of (rs_routes s) (rp_id p) \<noteq> None then (Inl DuplicateId, s)
           else (Inr (), s\<lparr>rs_routes := AList.update (rp_id p) p (rs_routes s)\<rparr>)))"

definition RoutingStore_get :: "RoutingStore \<Rightarrow> string \<Rightarrow> RouteProfile option" where
  "RoutingStore_get s i = map_of (rs_routes s) i"

definition RoutingStore_list :: "RoutingStore \<Rightarrow> RouteProfile list" where
  "RoutingStore_list s = sort_key rp_name (map snd (rs_routes s))"

definition push_routing_audit :: "RoutingAuditEntry \<Rightarrow> RoutingStore \<Rightarrow> RoutingStore" where
  "push_routing_audit e s = s\<lparr>rs_audit := rs_audit s @ [e]\<rparr>"

definition RoutingStore_remove :: "string \<Rightarrow> u64 \<Rightarrow> RoutingStore \<Rightarrow> (RouteError + unit) \<times> RoutingStore" where
  "RoutingStore_remove i now s =
     (if map_of (rs_routes s) i = None then (Inl NotFound, s)
      else let s1 = s\<lparr>rs_routes := AList.delete i (rs_routes s)\<rparr> in
        if rs_selected s1 = Some i then
          (Inr (), push_routing_audit
             \<lparr>ra_at_unix = now, ra_route_id = i, ra_kind = Direct,
              ra_event = ''selection_cleared'',
              ra_redacted_route =
                \<lparr>rr_id = i, rr_name = [], rr_kind = Direct, rr_host = None, rr_port = None,
                 rr_has_credentials = False, rr_schema_version = ROUTING_SCHEMA_VERSION\<rparr>,
              ra_detail = ''removed selected route; no silent replacement''\<rparr>
             (s1\<lparr>rs_selected := None\<rparr>))
        else (Inr (), s1))"

definition RoutingStore_select :: "string \<Rightarrow> u64 \<Rightarrow> RoutingStore \<Rightarrow> (RouteError + unit) \<times> RoutingStore" where
  "RoutingStore_select i now s =
     (case map_of (rs_routes s) i of
        None \<Rightarrow> (Inl NotFound, s)
      | Some route \<Rightarrow>
          (case RouteProfile_validate route of
             Inl e \<Rightarrow> (Inl e, s)
           | Inr _ \<Rightarrow>
               (Inr (), push_routing_audit
                  \<lparr>ra_at_unix = now, ra_route_id = i, ra_kind = rp_kind route,
                   ra_event = ''selected'', ra_redacted_route = RouteProfile_redacted route,
                   ra_detail = ''route selected by user''\<rparr>
                  (s\<lparr>rs_selected := Some i\<rparr>))))"

definition RoutingStore_selected :: "RoutingStore \<Rightarrow> RouteProfile option" where
  "RoutingStore_selected s =
     (case rs_selected s of None \<Rightarrow> None | Some i \<Rightarrow> map_of (rs_routes s) i)"

definition route_decision :: "RouteProfile \<Rightarrow> RouteDecision" where
  "route_decision r =
     \<lparr>rd_route_id = rp_id r, rd_kind = rp_kind r, rd_effective_host = rp_host r,
      rd_effective_port = rp_port r, rd_requires_credentials = (rp_username r \<noteq> None),
      rd_egress_verified = False\<rparr>"

definition RoutingStore_decision :: "RoutingStore \<Rightarrow> RouteError + RouteDecision" where
  "RoutingStore_decision s =
     (case rs_selected s of
        None \<Rightarrow> Inl NoRouteSelected
      | Some i \<Rightarrow>
          (case map_of (rs_routes s) i of
             None \<Rightarrow> Inl SelectedRouteUnavailable
           | Some route \<Rightarrow>
               (case RouteProfile_validate route of
                  Inl e \<Rightarrow> Inl e
                | Inr _ \<Rightarrow> Inr (route_decision route))))"

definition RoutingStore_verify_egress ::
    "(string + unit) \<Rightarrow> u64 \<Rightarrow> RoutingStore \<Rightarrow> (RouteError + EgressResult) \<times> RoutingStore" where
  "RoutingStore_verify_egress probe now s =
     (case rs_selected s of
        None \<Rightarrow> (Inl NoRouteSelected, s)
      | Some i \<Rightarrow>
          (case map_of (rs_routes s) i of
             None \<Rightarrow> (Inl SelectedRouteUnavailable, s)
           | Some route \<Rightarrow>
               (case probe of
                  Inr _ \<Rightarrow>
                    (Inr \<lparr>er_route_id = rp_id route, er_ok = True, er_detail = ''verified''\<rparr>,
                     push_routing_audit
                       \<lparr>ra_at_unix = now, ra_route_id = rp_id route, ra_kind = rp_kind route,
                        ra_event = ''egress_verified'',
                        ra_redacted_route = RouteProfile_redacted route,
                        ra_detail = ''user-triggered egress verification passed''\<rparr> s)
                | Inl e \<Rightarrow>
                    (Inr \<lparr>er_route_id = rp_id route, er_ok = False, er_detail = ''failed: '' @ e\<rparr>,
                     push_routing_audit
                       \<lparr>ra_at_unix = now, ra_route_id = rp_id route, ra_kind = rp_kind route,
                        ra_event = ''egress_failed'',
                        ra_redacted_route = RouteProfile_redacted route,
                        ra_detail = ''user-triggered egress verification failed: '' @ e\<rparr> s))))"

section \<open>The store as a machine\<close>

datatype RouteOp =
  AddRoute RouteProfile | RemoveRoute string u64 | SelectRoute string u64
| VerifyEgress "string + unit" u64

fun route_step :: "RouteOp \<Rightarrow> RoutingStore \<Rightarrow> RoutingStore" where
  "route_step (AddRoute p) s = snd (RoutingStore_add_route p s)"
| "route_step (RemoveRoute i now) s = snd (RoutingStore_remove i now s)"
| "route_step (SelectRoute i now) s = snd (RoutingStore_select i now s)"
| "route_step (VerifyEgress probe now) s = snd (RoutingStore_verify_egress probe now s)"

definition store_inv :: "RoutingStore \<Rightarrow> bool" where
  "store_inv s \<longleftrightarrow>
     distinct (map fst (rs_routes s))
     \<and> (\<forall>(k, r) \<in> set (rs_routes s). rp_id r = k \<and> RouteProfile_validate r = Inr ())
     \<and> (\<forall>i. rs_selected s = Some i \<longrightarrow> i \<in> hm_keys (rs_routes s))"

lemma store_inv_new: "store_inv RoutingStore_new"
  by (simp add: store_inv_def RoutingStore_new_def)

lemma store_inv_audit [simp]: "store_inv (push_routing_audit e s) = store_inv s"
  by (simp add: store_inv_def push_routing_audit_def)

lemma store_inv_add:
  assumes "store_inv s"
  shows "store_inv (snd (RoutingStore_add_route p s))"
proof (cases "RouteProfile_validate p = Inr () \<and> map_of (rs_routes s) (rp_id p) = None")
  case True
  then have "rp_id p \<notin> hm_keys (rs_routes s)" by (simp add: map_of_eq_None_iff)
  with assms True show ?thesis
    by (auto simp: store_inv_def RoutingStore_add_route_def update_fresh)
next
  case False
  then show ?thesis using assms by (auto simp: RoutingStore_add_route_def split: sum.split)
qed

lemma store_inv_remove:
  assumes "store_inv s"
  shows "store_inv (snd (RoutingStore_remove i now s))"
proof -
  have "distinct (map fst (AList.delete i (rs_routes s)))"
    using assms by (simp add: store_inv_def distinct_delete)
  moreover have "\<forall>(k, r) \<in> set (AList.delete i (rs_routes s)).
      rp_id r = k \<and> RouteProfile_validate r = Inr ()"
    using assms by (auto simp: store_inv_def set_delete_alist)
  moreover have "rs_selected s = Some j \<Longrightarrow> j \<noteq> i \<Longrightarrow>
      j \<in> hm_keys (AList.delete i (rs_routes s))" for j
    using assms by (auto simp: store_inv_def set_delete_alist image_iff)
  ultimately show ?thesis using assms
    by (auto simp: RoutingStore_remove_def Let_def store_inv_def push_routing_audit_def)
qed

lemma store_inv_select:
  assumes "store_inv s"
  shows "store_inv (snd (RoutingStore_select i now s))"
proof (cases "map_of (rs_routes s) i")
  case (Some r)
  then have "i \<in> hm_keys (rs_routes s)" by (metis map_of_eq_None_iff option.distinct(1))
  then show ?thesis using assms Some
    by (simp add: RoutingStore_select_def store_inv_def push_routing_audit_def split: sum.split)
qed (simp add: assms RoutingStore_select_def)

lemma store_inv_verify: "store_inv s \<Longrightarrow> store_inv (snd (RoutingStore_verify_egress probe now s))"
  by (simp add: RoutingStore_verify_egress_def split: option.split sum.split)

lemma route_step_inv: "store_inv s \<Longrightarrow> store_inv (route_step x s)"
  by (cases x) (simp_all add: store_inv_add store_inv_remove store_inv_select store_inv_verify)

lemma route_step_log: "\<exists>new. rs_audit (route_step x s) = rs_audit s @ new"
  by (cases x) (auto simp: RoutingStore_add_route_def RoutingStore_remove_def
      RoutingStore_select_def RoutingStore_verify_egress_def push_routing_audit_def Let_def
      split: option.split sum.split)

interpretation route_store: machine_invariant route_step store_inv
  by unfold_locales (rule route_step_inv)

interpretation route_log: append_only route_step rs_audit
  by unfold_locales (rule route_step_log)

text \<open>Replacing the usernames of the profiles an operation carries.\<close>

definition mask_profile :: "(string \<Rightarrow> string) \<Rightarrow> RouteProfile \<Rightarrow> RouteProfile" where
  "mask_profile f p = p\<lparr>rp_username := map_option f (rp_username p)\<rparr>"

fun mask_op :: "(string \<Rightarrow> string) \<Rightarrow> RouteOp \<Rightarrow> RouteOp" where
  "mask_op f (AddRoute p) = AddRoute (mask_profile f p)"
| "mask_op f x = x"

definition masked :: "(string \<Rightarrow> string) \<Rightarrow> RoutingStore \<Rightarrow> RoutingStore \<Rightarrow> bool" where
  "masked f s t \<longleftrightarrow>
     rs_routes t = map (\<lambda>(k, r). (k, mask_profile f r)) (rs_routes s)
     \<and> rs_selected t = rs_selected s \<and> rs_audit t = rs_audit s"

lemma mask_validate [simp]: "RouteProfile_validate (mask_profile f p) = RouteProfile_validate p"
  by (simp add: RouteProfile_validate_def mask_profile_def)

lemma mask_views [simp]:
  "RouteProfile_redacted (mask_profile f p) = RouteProfile_redacted p"
  "route_decision (mask_profile f p) = route_decision p"
  "rp_id (mask_profile f p) = rp_id p" "rp_kind (mask_profile f p) = rp_kind p"
  by (simp_all add: RouteProfile_redacted_def route_decision_def mask_profile_def)

lemma map_of_mask:
  "map_of (map (\<lambda>(k, r). (k, mask_profile f r)) m) i = map_option (mask_profile f) (map_of m i)"
  by (induction m) auto

lemma update_mask:
  "AList.update k (mask_profile f p) (map (\<lambda>(k, r). (k, mask_profile f r)) m)
     = map (\<lambda>(k, r). (k, mask_profile f r)) (AList.update k p m)"
  by (induction m) auto

lemma delete_mask:
  "AList.delete k (map (\<lambda>(k, r). (k, mask_profile f r)) m)
     = map (\<lambda>(k, r). (k, mask_profile f r)) (AList.delete k m)"
  by (induction m) (auto simp: AList.delete_eq)

lemma masked_step: "masked f s t \<Longrightarrow> masked f (route_step x s) (route_step (mask_op f x) t)"
  by (cases x) (auto simp: masked_def RoutingStore_add_route_def RoutingStore_remove_def
      RoutingStore_select_def RoutingStore_verify_egress_def push_routing_audit_def map_of_mask
      update_mask delete_mask Let_def split: option.split sum.split)

interpretation route_mask: simulation route_step route_step "mask_op f" "masked f" "\<lambda>_. True" for f
  by unfold_locales (rule masked_step)

lemma masked_decision: "masked f s t \<Longrightarrow> RoutingStore_decision t = RoutingStore_decision s"
  by (auto simp: masked_def RoutingStore_decision_def map_of_mask split: option.split sum.split)

lemma decision_cong:
  "rs_routes s = rs_routes t \<Longrightarrow> rs_selected s = rs_selected t \<Longrightarrow>
    RoutingStore_decision s = RoutingStore_decision t"
  by (simp add: RoutingStore_decision_def cong: option.case_cong)

section \<open>Properties\<close>

text \<open>
  No silent fallback. In every state the operations can reach, the connect-time decision is
  the missing-selection error exactly when no route is selected, and otherwise it is the decision
  for the selected route itself, which is in the store and passes its kind's validation; the
  selected route is never unavailable and no other route, in particular no direct one, is
  substituted.
\<close>

theorem decision_is_selection:
  "(case rs_selected (run route_step ops RoutingStore_new) of
      None \<Rightarrow> RoutingStore_decision (run route_step ops RoutingStore_new) = Inl NoRouteSelected
    | Some i \<Rightarrow> (\<exists>r. RoutingStore_get (run route_step ops RoutingStore_new) i = Some r
        \<and> rp_id r = i \<and> RouteProfile_validate r = Inr ()
        \<and> RoutingStore_decision (run route_step ops RoutingStore_new) = Inr (route_decision r)))"
proof (cases "rs_selected (run route_step ops RoutingStore_new)")
  case None
  then show ?thesis by (simp add: RoutingStore_decision_def)
next
  case (Some i)
  let ?s = "run route_step ops RoutingStore_new"
  have inv: "store_inv ?s" by (rule route_store.run_inv [OF store_inv_new])
  then have "i \<in> hm_keys (rs_routes ?s)" using Some by (simp add: store_inv_def)
  then obtain r where r: "map_of (rs_routes ?s) i = Some r"
    by (metis map_of_eq_None_iff not_None_eq)
  then have "rp_id r = i" "RouteProfile_validate r = Inr ()"
    using inv by (auto simp: store_inv_def dest: map_of_SomeD)
  then show ?thesis using Some r by (simp add: RoutingStore_decision_def RoutingStore_get_def)
qed

text \<open>
  Removing the selected route clears the selection and records it; nothing is selected in
  its place, and the next decision blocks.
\<close>

theorem remove_selected_blocks:
  assumes "rs_selected s = Some i" "RoutingStore_get s i = Some r"
  shows "RoutingStore_decision (snd (RoutingStore_remove i now s)) = Inl NoRouteSelected
    \<and> RoutingStore_get (snd (RoutingStore_remove i now s)) i = None
    \<and> (\<exists>e. rs_audit (snd (RoutingStore_remove i now s)) = rs_audit s @ [e]
         \<and> ra_event e = ''selection_cleared'' \<and> ra_route_id e = i)"
  using assms
  by (simp add: RoutingStore_remove_def RoutingStore_get_def RoutingStore_decision_def
      push_routing_audit_def Let_def)

definition demo_route :: RouteProfile where
  "demo_route =
     \<lparr>rp_id = ''r1'', rp_name = ''proxy'', rp_kind = Socks5, rp_host = Some ''127.0.0.1'',
      rp_port = Some 1080, rp_username = Some ''alice'',
      rp_schema_version = ROUTING_SCHEMA_VERSION\<rparr>"

theorem remove_selected_blocks_witness:
  "RoutingStore_decision (snd (RoutingStore_remove ''r1'' 5
      \<lparr>rs_routes = [(''r1'', demo_route)], rs_selected = Some ''r1'', rs_audit = []\<rparr>))
    = Inl NoRouteSelected"
  using remove_selected_blocks
    [of "\<lparr>rs_routes = [(''r1'', demo_route)], rs_selected = Some ''r1'', rs_audit = []\<rparr>"
        "''r1''" demo_route 5]
  by (simp add: RoutingStore_get_def)

text \<open>
  Credentials never reach the audit log or a decision. Replacing every username in a
  sequence of operations by any other one changes neither the audit log nor the decision that
  follows.
\<close>

theorem audit_independent_of_usernames:
  "rs_audit (run route_step (map (mask_op f) ops) RoutingStore_new)
      = rs_audit (run route_step ops RoutingStore_new)
   \<and> RoutingStore_decision (run route_step (map (mask_op f) ops) RoutingStore_new)
      = RoutingStore_decision (run route_step ops RoutingStore_new)"
proof -
  have "masked f RoutingStore_new RoutingStore_new" by (simp add: masked_def RoutingStore_new_def)
  then have "masked f (run route_step ops RoutingStore_new)
      (run route_step (map (mask_op f) ops) RoutingStore_new)"
    by (rule route_mask.sim_run) (simp add: list_all_iff)
  then show ?thesis using masked_decision by (simp add: masked_def)
qed

text \<open>
  A failed egress verification blocks nothing. Whatever the probe reports, the selected
  route and the decision are as before; only the audit log grows, by one record.
\<close>

theorem egress_failure_keeps_decision:
  "RoutingStore_decision (snd (RoutingStore_verify_egress probe now s)) = RoutingStore_decision s
   \<and> rs_selected (snd (RoutingStore_verify_egress probe now s)) = rs_selected s
   \<and> length (rs_audit (snd (RoutingStore_verify_egress probe now s)))
       = length (rs_audit s) + (if RoutingStore_selected s = None then 0 else 1)"
proof -
  have "rs_routes (snd (RoutingStore_verify_egress probe now s)) = rs_routes s"
    "rs_selected (snd (RoutingStore_verify_egress probe now s)) = rs_selected s"
    by (simp_all add: RoutingStore_verify_egress_def push_routing_audit_def split: option.split sum.split)
  moreover have "length (rs_audit (snd (RoutingStore_verify_egress probe now s)))
       = length (rs_audit s) + (if RoutingStore_selected s = None then 0 else 1)"
    by (auto simp: RoutingStore_verify_egress_def RoutingStore_selected_def push_routing_audit_def
        split: option.split sum.split)
  ultimately show ?thesis using decision_cong by blast
qed

text \<open>
  The routing audit log is append-only over any sequence of operations, and \<open>list\<close> returns
  every stored route, ordered by name.
\<close>

theorem routing_audit_and_list:
  "prefix (rs_audit s) (rs_audit (run route_step ops s))
   \<and> sorted (map rp_name (RoutingStore_list s))
   \<and> mset (RoutingStore_list s) = mset (map snd (rs_routes s))"
  by (simp add: route_log.run_log_prefix RoutingStore_list_def)

end
