(* ===== verification/RoutingQt.thy ===== *)
theory RoutingQt
  imports Routing
begin

text \<open>
  The Qt routing store and router, \<open>src/wiremudder/routing/route_profile_store.cpp\<close>,
  \<open>route_profile_store.h\<close> and \<open>router.cpp\<close>. The store mirrors the Rust core of theory Routing;
  the last section but one relates the two. A \<open>QString* err\<close> output is the \<open>Inl\<close> of a sum. Qt's
  sockets, files and JSON text format are not under \<open>src/\<close>: a connection attempt, what a file
  holds and whether it can be opened are arguments.
\<close>

section \<open>Route profiles\<close>

definition routeKindEnabled :: "RouteKind \<Rightarrow> bool" where
  "routeKindEnabled k \<longleftrightarrow> \<not> (k = InterfaceBinding \<or> k = VmNetns \<or> k = SelfHostedRelay)"

fun routeKindLabel :: "RouteKind \<Rightarrow> string" where
  "routeKindLabel Direct = ''direct''"
| "routeKindLabel System = ''system''"
| "routeKindLabel Socks5 = ''socks5''"
| "routeKindLabel Socks4a = ''socks4a''"
| "routeKindLabel HttpConnect = ''http-connect''"
| "routeKindLabel TorLocalSocks = ''tor-local-socks''"
| "routeKindLabel SshDynamicForward = ''ssh-dynamic-forward''"
| "routeKindLabel VpnMetadata = ''vpn-metadata''"
| "routeKindLabel InterfaceBinding = ''interface-binding (future)''"
| "routeKindLabel VmNetns = ''vm-netns (future)''"
| "routeKindLabel SelfHostedRelay = ''self-hosted-relay (future)''"

record RouteProfileQt =
  rq_id :: string
  rq_name :: string
  rq_kind :: RouteKind
  rq_host :: string
  rq_port :: int
  rq_username :: string

definition RouteProfileQt_default :: RouteProfileQt where
  "RouteProfileQt_default =
     \<lparr>rq_id = [], rq_name = [], rq_kind = Direct, rq_host = [], rq_port = 0, rq_username = []\<rparr>"

text \<open>\<open>create\<close> returns a profile and an error text, empty when there is none.\<close>

definition RouteProfileQt_create ::
    "string \<Rightarrow> string \<Rightarrow> RouteKind \<Rightarrow> string \<Rightarrow> int \<Rightarrow> string \<Rightarrow> RouteProfileQt \<times> string" where
  "RouteProfileQt_create i name kind host port username =
     (if i = [] \<or> name = [] then (RouteProfileQt_default, ''invalid name'')
      else if \<not> routeKindEnabled kind then
        (RouteProfileQt_default, ''unsupported kind: '' @ routeKindLabel kind)
      else (\<lparr>rq_id = i, rq_name = name, rq_kind = kind, rq_host = host, rq_port = port,
             rq_username = username\<rparr>, []))"

definition RouteProfileQt_validate :: "RouteProfileQt \<Rightarrow> string + unit" where
  "RouteProfileQt_validate r =
     (if \<not> routeKindEnabled (rq_kind r) then
        Inl (''unsupported kind: '' @ routeKindLabel (rq_kind r))
      else if rq_kind r \<in> {Direct, System, VpnMetadata} then Inr ()
      else if rq_kind r \<in> {Socks5, Socks4a, HttpConnect, TorLocalSocks} then
        (if rq_host r = [] then Inl ''missing host''
         else if rq_port r = 0 then Inl ''missing port'' else Inr ())
      else if rq_kind r = SshDynamicForward then
        (if rq_host r = [] then Inl ''missing host'' else Inr ())
      else Inl (''unsupported kind: '' @ routeKindLabel (rq_kind r)))"

definition RouteProfileQt_toJson :: "RouteProfileQt \<Rightarrow> json_object" where
  "RouteProfileQt_toJson r =
     [(''id'', JString (rq_id r)), (''name'', JString (rq_name r)),
      (''kind'', JString (routeKindLabel (rq_kind r))), (''host'', JString (rq_host r)),
      (''port'', JInt (rq_port r)), (''username'', JString (rq_username r)),
      (''schema_version'', JInt 1)]"

definition RouteProfileQt_toRedactedJson :: "RouteProfileQt \<Rightarrow> json_object" where
  "RouteProfileQt_toRedactedJson r =
     [(''id'', JString (rq_id r)), (''name'', JString (rq_name r)),
      (''kind'', JString (routeKindLabel (rq_kind r))), (''host'', JString (rq_host r)),
      (''port'', JInt (rq_port r)), (''has_credentials'', JBool (rq_username r \<noteq> [])),
      (''schema_version'', JInt 1)]"

definition kind_of_label :: "string \<Rightarrow> RouteKind option" where
  "kind_of_label kind =
     (if kind = ''direct'' then Some Direct
      else if kind = ''system'' then Some System
      else if kind = ''socks5'' then Some Socks5
      else if kind = ''socks4a'' then Some Socks4a
      else if kind = ''http-connect'' then Some HttpConnect
      else if kind = ''tor-local-socks'' then Some TorLocalSocks
      else if kind = ''ssh-dynamic-forward'' then Some SshDynamicForward
      else if kind = ''vpn-metadata'' then Some VpnMetadata
      else None)"

definition RouteProfileQt_fromJson :: "json_object \<Rightarrow> string + RouteProfileQt" where
  "RouteProfileQt_fromJson obj =
     (let i = j_string (j_value ''id'' obj); name = j_string (j_value ''name'' obj);
          kind = j_string (j_value ''kind'' obj) in
      case kind_of_label kind of
        None \<Rightarrow> Inl (''unknown kind: '' @ kind)
      | Some k \<Rightarrow>
          (let r = \<lparr>rq_id = i, rq_name = name, rq_kind = k,
                    rq_host = j_string (j_value ''host'' obj),
                    rq_port = j_int (j_value ''port'' obj),
                    rq_username = j_string (j_value ''username'' obj)\<rparr> in
           if i = [] \<or> name = [] then Inl ''malformed route''
           else if j_int (j_value ''schema_version'' obj) \<noteq> 1 then Inl ''schema version mismatch''
           else Inr r))"

record RouteDecisionQt =
  dcq_routeId :: string
  dcq_kind :: RouteKind
  dcq_effectiveHost :: string
  dcq_effectivePort :: int
  dcq_requiresCredentials :: bool
  dcq_egressVerified :: bool

definition RouteDecisionQt_toJson :: "RouteDecisionQt \<Rightarrow> json_object" where
  "RouteDecisionQt_toJson d =
     [(''route_id'', JString (dcq_routeId d)), (''kind'', JString (routeKindLabel (dcq_kind d))),
      (''effective_host'', JString (dcq_effectiveHost d)),
      (''effective_port'', JInt (dcq_effectivePort d)),
      (''requires_credentials'', JBool (dcq_requiresCredentials d)),
      (''egress_verified'', JBool (dcq_egressVerified d))]"

section \<open>The store\<close>

record RoutingAuditEntryQt =
  aq_atUnix :: u64
  aq_routeId :: string
  aq_kind :: RouteKind
  aq_event :: string
  aq_redactedRoute :: json_object
  aq_detail :: string

record RoutingStoreQt =
  sq_routes :: "RouteProfileQt list"
  sq_selected :: string
  sq_audit :: "RoutingAuditEntryQt list"

definition RoutingStoreQt_new :: RoutingStoreQt where
  "RoutingStoreQt_new = \<lparr>sq_routes = [], sq_selected = [], sq_audit = []\<rparr>"

definition RoutingStoreQt_find :: "string \<Rightarrow> RoutingStoreQt \<Rightarrow> RouteProfileQt option" where
  "RoutingStoreQt_find i s = find (\<lambda>r. rq_id r = i) (sq_routes s)"

definition RoutingStoreQt_appendAudit ::
    "string \<Rightarrow> string \<Rightarrow> string \<Rightarrow> u64 \<Rightarrow> RoutingStoreQt \<Rightarrow> RoutingStoreQt" where
  "RoutingStoreQt_appendAudit routeId event detail now s =
     s\<lparr>sq_audit := sq_audit s @
        [case RoutingStoreQt_find routeId s of
           Some r \<Rightarrow>
             \<lparr>aq_atUnix = now, aq_routeId = routeId, aq_kind = rq_kind r, aq_event = event,
              aq_redactedRoute = RouteProfileQt_toRedactedJson r, aq_detail = detail\<rparr>
         | None \<Rightarrow>
             \<lparr>aq_atUnix = now, aq_routeId = routeId, aq_kind = Direct, aq_event = event,
              aq_redactedRoute = [(''id'', JString routeId), (''has_credentials'', JBool False)],
              aq_detail = detail\<rparr>]\<rparr>"

definition RoutingStoreQt_addRoute :: "RouteProfileQt \<Rightarrow> RoutingStoreQt \<Rightarrow> (string + unit) \<times> RoutingStoreQt" where
  "RoutingStoreQt_addRoute r s =
     (case RouteProfileQt_validate r of
        Inl e \<Rightarrow> (Inl e, s)
      | Inr _ \<Rightarrow>
          (if RoutingStoreQt_find (rq_id r) s \<noteq> None then (Inl ''duplicate id'', s)
           else (Inr (), s\<lparr>sq_routes := sq_routes s @ [r]\<rparr>)))"

definition RoutingStoreQt_get :: "string \<Rightarrow> RoutingStoreQt \<Rightarrow> RouteProfileQt option" where
  "RoutingStoreQt_get i s = RoutingStoreQt_find i s"

definition RoutingStoreQt_list :: "RoutingStoreQt \<Rightarrow> RouteProfileQt list" where
  "RoutingStoreQt_list s = sort_key rq_name (sq_routes s)"

text \<open>\<open>remove\<close> scans for the first route with the id.\<close>

definition RoutingStoreQt_remove :: "string \<Rightarrow> u64 \<Rightarrow> RoutingStoreQt \<Rightarrow> (string + unit) \<times> RoutingStoreQt" where
  "RoutingStoreQt_remove i now s =
     (case remove_first (\<lambda>r. rq_id r = i) (sq_routes s) of
        None \<Rightarrow> (Inl ''not found'', s)
      | Some rs \<Rightarrow>
          (let s1 = s\<lparr>sq_routes := rs\<rparr> in
           if sq_selected s1 = i then
             (Inr (), RoutingStoreQt_appendAudit i ''selection_cleared''
                ''removed selected route; no silent replacement'' now (s1\<lparr>sq_selected := []\<rparr>))
           else (Inr (), s1)))"

definition RoutingStoreQt_select :: "string \<Rightarrow> u64 \<Rightarrow> RoutingStoreQt \<Rightarrow> (string + unit) \<times> RoutingStoreQt" where
  "RoutingStoreQt_select i now s =
     (case RoutingStoreQt_find i s of
        None \<Rightarrow> (Inl ''not found'', s)
      | Some r \<Rightarrow>
          (case RouteProfileQt_validate r of
             Inl e \<Rightarrow> (Inl e, s)
           | Inr _ \<Rightarrow>
               (Inr (), RoutingStoreQt_appendAudit i ''selected'' ''route selected by user'' now
                  (s\<lparr>sq_selected := i\<rparr>))))"

definition RoutingStoreQt_selected :: "RoutingStoreQt \<Rightarrow> RouteProfileQt option" where
  "RoutingStoreQt_selected s =
     (if sq_selected s = [] then None else RoutingStoreQt_find (sq_selected s) s)"

definition decisionQt_of :: "RouteProfileQt \<Rightarrow> RouteDecisionQt" where
  "decisionQt_of r =
     \<lparr>dcq_routeId = rq_id r, dcq_kind = rq_kind r, dcq_effectiveHost = rq_host r,
      dcq_effectivePort = rq_port r, dcq_requiresCredentials = (rq_username r \<noteq> []),
      dcq_egressVerified = False\<rparr>"

definition RoutingStoreQt_decision :: "RoutingStoreQt \<Rightarrow> string + RouteDecisionQt" where
  "RoutingStoreQt_decision s =
     (if sq_selected s = [] then Inl ''no route selected''
      else case RoutingStoreQt_find (sq_selected s) s of
        None \<Rightarrow> Inl ''selected route unavailable''
      | Some r \<Rightarrow>
          (case RouteProfileQt_validate r of Inl e \<Rightarrow> Inl e | Inr _ \<Rightarrow> Inr (decisionQt_of r)))"

text \<open>\<open>probe\<close> is the outcome of the TCP connection, \<open>Inl\<close> the socket's error text.\<close>

definition RoutingStoreQt_verifyEgress ::
    "(string + unit) \<Rightarrow> u64 \<Rightarrow> RoutingStoreQt \<Rightarrow> (string + EgressResult) \<times> RoutingStoreQt" where
  "RoutingStoreQt_verifyEgress probe now s =
     (if sq_selected s = [] then (Inl ''no route selected'', s)
      else case RoutingStoreQt_find (sq_selected s) s of
        None \<Rightarrow> (Inl ''selected route unavailable'', s)
      | Some r \<Rightarrow>
          (case probe of
             Inr _ \<Rightarrow>
               (Inr \<lparr>er_route_id = rq_id r, er_ok = True, er_detail = ''verified''\<rparr>,
                RoutingStoreQt_appendAudit (rq_id r) ''egress_verified''
                  ''user-triggered egress verification passed'' now s)
           | Inl e \<Rightarrow>
               (Inr \<lparr>er_route_id = rq_id r, er_ok = False, er_detail = ''failed: '' @ e\<rparr>,
                RoutingStoreQt_appendAudit (rq_id r) ''egress_failed''
                  (''user-triggered egress verification failed: '' @ e) now s)))"

text \<open>The document \<open>saveToDir\<close> writes, when the directory and the file can be opened.\<close>

definition RoutingStoreQt_toDoc :: "RoutingStoreQt \<Rightarrow> json_object" where
  "RoutingStoreQt_toDoc s =
     [(''routes'', JArray (map (\<lambda>r. JObject (RouteProfileQt_toJson r)) (sq_routes s))),
      (''selected'', JString (sq_selected s))]"

definition RoutingStoreQt_saveToDir ::
    "(json_object \<Rightarrow> string) \<Rightarrow> bool \<Rightarrow> bool \<Rightarrow> RoutingStoreQt \<Rightarrow> string + string" where
  "RoutingStoreQt_saveToDir encode dir_ok open_ok s =
     (if \<not> dir_ok then Inl ''cannot create dir''
      else if \<not> open_ok then Inl ''cannot write routing.json''
      else Inr (encode (RoutingStoreQt_toDoc s)))"

text \<open>The loop over the array keeps the routes it has appended when it stops at an error.\<close>

fun load_routes :: "json list \<Rightarrow> RoutingStoreQt \<Rightarrow> (string + unit) \<times> RoutingStoreQt" where
  "load_routes [] s = (Inr (), s)"
| "load_routes (v # vs) s =
     (case RouteProfileQt_fromJson (j_object v) of
        Inl e \<Rightarrow> (Inl e, s)
      | Inr r \<Rightarrow>
          (if RoutingStoreQt_find (rq_id r) s \<noteq> None then (Inl ''duplicate id'', s)
           else load_routes vs (s\<lparr>sq_routes := sq_routes s @ [r]\<rparr>)))"

text \<open>\<open>file\<close> is the content of \<open>routing.json\<close>, None when it does not exist.\<close>

definition RoutingStoreQt_loadFromDir ::
    "(string \<Rightarrow> json_object option) \<Rightarrow> string option \<Rightarrow> bool \<Rightarrow> RoutingStoreQt \<Rightarrow>
      (string + unit) \<times> RoutingStoreQt" where
  "RoutingStoreQt_loadFromDir decode file open_ok s =
     (case file of
        None \<Rightarrow> (Inr (), s)
      | Some txt \<Rightarrow>
          (if \<not> open_ok then (Inl ''cannot read routing.json'', s)
           else case decode txt of
             None \<Rightarrow> (Inl ''malformed routing.json'', s)
           | Some root \<Rightarrow>
               (case load_routes (j_array (j_value ''routes'' root)) s of
                  (Inl e, s1) \<Rightarrow> (Inl e, s1)
                | (Inr _, s1) \<Rightarrow>
                    (Inr (), s1\<lparr>sq_selected := j_string (j_value ''selected'' root)\<rparr>))))"

section \<open>The router\<close>

datatype NetworkProxy = NoProxy | Socks5Proxy string u16 | HttpProxy string u16

definition quint16 :: "int \<Rightarrow> u16" where
  "quint16 n = word_of_int n"

definition toNetworkProxy :: "RouteDecisionQt \<Rightarrow> NetworkProxy" where
  "toNetworkProxy d =
     (let h = dcq_effectiveHost d; p = quint16 (dcq_effectivePort d) in
      case dcq_kind d of
        Direct \<Rightarrow> NoProxy
      | System \<Rightarrow> NoProxy
      | Socks5 \<Rightarrow> Socks5Proxy h p
      | TorLocalSocks \<Rightarrow> Socks5Proxy h p
      | Socks4a \<Rightarrow> Socks5Proxy h p
      | HttpConnect \<Rightarrow> HttpProxy h p
      | SshDynamicForward \<Rightarrow> Socks5Proxy h p
      | VpnMetadata \<Rightarrow> NoProxy
      | InterfaceBinding \<Rightarrow> NoProxy
      | VmNetns \<Rightarrow> NoProxy
      | SelfHostedRelay \<Rightarrow> NoProxy)"

text \<open>
  \<open>connect\<close> is the socket: it takes the proxy set on it and the target and reports the outcome.
  The first component of the result is the proxy of the attempt, None when no attempt is made.
\<close>

definition connectViaDecision ::
    "(NetworkProxy \<Rightarrow> string \<Rightarrow> u16 \<Rightarrow> string + unit) \<Rightarrow> RouteDecisionQt \<Rightarrow> string \<Rightarrow> u16 \<Rightarrow>
      NetworkProxy option \<times> (string + unit)" where
  "connectViaDecision connect d targetHost targetPort =
     (if dcq_routeId d = [] then (None, Inl ''no route selected; blocking connect'')
      else if \<not> routeKindEnabled (dcq_kind d) then
        (None, Inl (''route kind disabled: '' @ routeKindLabel (dcq_kind d)))
      else let explicitDirect = (dcq_kind d = Direct \<or> dcq_kind d = System);
               proxy = (if explicitDirect then NoProxy else toNetworkProxy d) in
        (Some proxy,
         case connect proxy targetHost targetPort of
           Inl e \<Rightarrow> Inl (''route '' @ routeKindLabel (dcq_kind d) @ '' connect failed: '' @ e)
         | Inr _ \<Rightarrow> Inr ()))"

section \<open>The Qt store mirrors the Rust store\<close>

text \<open>Port 0 stands for an absent port.\<close>

definition abs_port :: "int \<Rightarrow> u16 option" where
  "abs_port p = (if p = 0 then None else Some (quint16 p))"

definition abs_profile :: "RouteProfileQt \<Rightarrow> RouteProfile" where
  "abs_profile r =
     \<lparr>rp_id = rq_id r, rp_name = rq_name r, rp_kind = rq_kind r, rp_host = opt_text (rq_host r),
      rp_port = abs_port (rq_port r), rp_username = opt_text (rq_username r),
      rp_schema_version = ROUTING_SCHEMA_VERSION\<rparr>"

definition abs_decision :: "RouteDecisionQt \<Rightarrow> RouteDecision" where
  "abs_decision d =
     \<lparr>rd_route_id = dcq_routeId d, rd_kind = dcq_kind d,
      rd_effective_host = opt_text (dcq_effectiveHost d),
      rd_effective_port = abs_port (dcq_effectivePort d),
      rd_requires_credentials = dcq_requiresCredentials d,
      rd_egress_verified = dcq_egressVerified d\<rparr>"

text \<open>The Qt error text of a Rust error.\<close>

fun err_text :: "RouteError \<Rightarrow> string" where
  "err_text (UnsupportedKind k) = ''unsupported kind: '' @ routeKindLabel k"
| "err_text MissingHost = ''missing host''"
| "err_text MissingPort = ''missing port''"
| "err_text InvalidName = ''invalid name''"
| "err_text DuplicateId = ''duplicate id''"
| "err_text NotFound = ''not found''"
| "err_text NoRouteSelected = ''no route selected''"
| "err_text SelectedRouteUnavailable = ''selected route unavailable''"
| "err_text (EgressVerificationFailed e) = e"
| "err_text Serialization = []"

definition core_qt :: "RoutingAuditEntryQt \<Rightarrow> u64 \<times> string \<times> RouteKind \<times> string \<times> bool \<times> string" where
  "core_qt e =
     (aq_atUnix e, aq_routeId e, aq_kind e, aq_event e,
      j_bool (j_value ''has_credentials'' (aq_redactedRoute e)), aq_detail e)"

definition core_rs :: "RoutingAuditEntry \<Rightarrow> u64 \<times> string \<times> RouteKind \<times> string \<times> bool \<times> string" where
  "core_rs e =
     (ra_at_unix e, ra_route_id e, ra_kind e, ra_event e,
      rr_has_credentials (ra_redacted_route e), ra_detail e)"

definition route_rel :: "RoutingStoreQt \<Rightarrow> RoutingStore \<Rightarrow> bool" where
  "route_rel s t \<longleftrightarrow>
     rs_routes t = keyed rq_id abs_profile (sq_routes s)
     \<and> distinct (map rq_id (sq_routes s)) \<and> [] \<notin> set (map rq_id (sq_routes s))
     \<and> rs_selected t = opt_text (sq_selected s)
     \<and> map core_qt (sq_audit s) = map core_rs (rs_audit t)"

datatype RouteOpQt =
  AddRouteQt RouteProfileQt | RemoveRouteQt string u64 | SelectRouteQt string u64
| VerifyEgressQt "string + unit" u64

fun routeqt_step :: "RouteOpQt \<Rightarrow> RoutingStoreQt \<Rightarrow> RoutingStoreQt" where
  "routeqt_step (AddRouteQt r) s = snd (RoutingStoreQt_addRoute r s)"
| "routeqt_step (RemoveRouteQt i now) s = snd (RoutingStoreQt_remove i now s)"
| "routeqt_step (SelectRouteQt i now) s = snd (RoutingStoreQt_select i now s)"
| "routeqt_step (VerifyEgressQt probe now) s = snd (RoutingStoreQt_verifyEgress probe now s)"

fun abs_route_op :: "RouteOpQt \<Rightarrow> RouteOp" where
  "abs_route_op (AddRouteQt r) = AddRoute (abs_profile r)"
| "abs_route_op (RemoveRouteQt i now) = RemoveRoute i now"
| "abs_route_op (SelectRouteQt i now) = SelectRoute i now"
| "abs_route_op (VerifyEgressQt probe now) = VerifyEgress probe now"

fun named_route :: "RouteOpQt \<Rightarrow> bool" where
  "named_route (AddRouteQt r) = (rq_id r \<noteq> [])"
| "named_route _ = True"

lemma validateQt_eq:
  "RouteProfileQt_validate r = map_sum err_text id (RouteProfile_validate (abs_profile r))"
  by (cases "rq_kind r")
     (simp_all add: RouteProfileQt_validate_def RouteProfile_validate_def abs_profile_def
        routeKindEnabled_def RouteKind_enabled_def no_host_def opt_text_def abs_port_def)

lemma abs_profile_sel [simp]:
  "rp_id (abs_profile r) = rq_id r" "rp_kind (abs_profile r) = rq_kind r"
  "rp_username (abs_profile r) = opt_text (rq_username r)"
  by (simp_all add: abs_profile_def)

lemma redacted_credentials [simp]:
  "j_bool (j_value ''has_credentials'' (RouteProfileQt_toRedactedJson r)) = (rq_username r \<noteq> [])"
  by (simp add: RouteProfileQt_toRedactedJson_def j_value_def)

lemma missing_credentials [simp]:
  "j_bool (j_value ''has_credentials''
     [(''id'', JString i), (''has_credentials'', JBool False)]) = False"
  by (simp add: j_value_def)

lemma appendAudit_core:
  "map core_qt (sq_audit (RoutingStoreQt_appendAudit i event detail now s)) =
     map core_qt (sq_audit s) @
       [case RoutingStoreQt_find i s of
          Some r \<Rightarrow> (now, i, rq_kind r, event, rq_username r \<noteq> [], detail)
        | None \<Rightarrow> (now, i, Direct, event, False, detail)]"
  by (simp add: RoutingStoreQt_appendAudit_def core_qt_def split: option.split)

lemma appendAudit_fields [simp]:
  "sq_routes (RoutingStoreQt_appendAudit i event detail now s) = sq_routes s"
  "sq_selected (RoutingStoreQt_appendAudit i event detail now s) = sq_selected s"
  by (simp_all add: RoutingStoreQt_appendAudit_def)

lemma route_rel_add:
  assumes rel: "route_rel s t" and "rq_id r \<noteq> []"
  shows "route_rel (snd (RoutingStoreQt_addRoute r s)) (snd (RoutingStore_add_route (abs_profile r) t))"
proof (cases "RouteProfile_validate (abs_profile r)")
  case (Inr u)
  show ?thesis
  proof (cases "find (\<lambda>q. rq_id q = rq_id r) (sq_routes s)")
    case None
    then have "map_of (rs_routes t) (rq_id r) = None" using rel by (simp add: route_rel_def map_of_keyed)
    then show ?thesis using rel None Inr assms(2)
      by (auto simp: route_rel_def RoutingStoreQt_addRoute_def RoutingStore_add_route_def
          RoutingStoreQt_find_def validateQt_eq update_fresh find_key_None)
  next
    case (Some q)
    then have "map_of (rs_routes t) (rq_id r) \<noteq> None" using rel by (simp add: route_rel_def map_of_keyed)
    then show ?thesis using rel Some Inr
      by (simp add: RoutingStoreQt_addRoute_def RoutingStore_add_route_def RoutingStoreQt_find_def
          validateQt_eq)
  qed
qed (use rel in \<open>simp add: RoutingStoreQt_addRoute_def RoutingStore_add_route_def validateQt_eq\<close>)

lemma route_rel_remove:
  assumes rel: "route_rel s t"
  shows "route_rel (snd (RoutingStoreQt_remove i now s)) (snd (RoutingStore_remove i now t))"
proof (cases "remove_first (\<lambda>r. rq_id r = i) (sq_routes s)")
  case None
  then have "find (\<lambda>q. rq_id q = i) (sq_routes s) = None"
    by (simp add: remove_first_None find_key_None)
  then have "map_of (rs_routes t) i = None" using rel by (simp add: route_rel_def map_of_keyed)
  then show ?thesis using rel None by (simp add: RoutingStoreQt_remove_def RoutingStore_remove_def)
next
  case (Some ys)
  then have "remove_first (\<lambda>r. rq_id r = i) (sq_routes s) \<noteq> None" by simp
  then have mem: "i \<in> set (map rq_id (sq_routes s))" by (simp only: remove_first_None not_not)
  then have ne: "i \<noteq> []" using rel by (auto simp: route_rel_def simp del: set_map)
  have pres: "map_of (rs_routes t) i \<noteq> None"
    using mem rel find_key_None [of rq_id i "sq_routes s"] by (auto simp: route_rel_def map_of_keyed)
  have d: "distinct (map rq_id (sq_routes s))" using rel by (simp add: route_rel_def)
  note f = remove_first_Some [OF Some d, of abs_profile]
  show ?thesis
  proof (cases "sq_selected s = i")
    case True
    then show ?thesis using rel Some pres f ne
      by (simp add: RoutingStoreQt_remove_def RoutingStore_remove_def push_routing_audit_def Let_def
          route_rel_def appendAudit_core RoutingStoreQt_find_def opt_text_def core_rs_def)
  next
    case False
    then show ?thesis using rel Some pres f
      by (auto simp: RoutingStoreQt_remove_def RoutingStore_remove_def route_rel_def opt_text_iff)
  qed
qed

lemma route_rel_select:
  assumes rel: "route_rel s t"
  shows "route_rel (snd (RoutingStoreQt_select i now s)) (snd (RoutingStore_select i now t))"
proof (cases "find (\<lambda>q. rq_id q = i) (sq_routes s)")
  case None
  then have "map_of (rs_routes t) i = None" using rel by (simp add: route_rel_def map_of_keyed)
  then show ?thesis using rel None
    by (simp add: RoutingStoreQt_select_def RoutingStore_select_def RoutingStoreQt_find_def)
next
  case (Some r)
  then have m: "map_of (rs_routes t) i = Some (abs_profile r)"
    using rel by (simp add: route_rel_def map_of_keyed)
  have "i \<in> set (map rq_id (sq_routes s))" using find_key [OF Some] by auto
  then have "i \<noteq> []" using rel by (auto simp: route_rel_def simp del: set_map)
  then show ?thesis using rel Some m
    by (cases "RouteProfile_validate (abs_profile r)")
       (simp_all add: RoutingStoreQt_select_def RoutingStore_select_def RoutingStoreQt_find_def
        validateQt_eq push_routing_audit_def route_rel_def appendAudit_core core_rs_def
        RouteProfile_redacted_def opt_text_def)
qed

lemma selected_rel:
  assumes rel: "route_rel s t"
  shows "(sq_selected s = [] \<and> rs_selected t = None)
    \<or> (sq_selected s \<noteq> [] \<and> rs_selected t = Some (sq_selected s)
       \<and> map_of (rs_routes t) (sq_selected s)
         = map_option abs_profile (RoutingStoreQt_find (sq_selected s) s))"
  using rel by (auto simp: route_rel_def opt_text_def RoutingStoreQt_find_def map_of_keyed)

lemma route_rel_verify:
  assumes rel: "route_rel s t"
  shows "route_rel (snd (RoutingStoreQt_verifyEgress probe now s))
    (snd (RoutingStore_verify_egress probe now t))"
proof (cases "sq_selected s = [] \<or> RoutingStoreQt_find (sq_selected s) s = None")
  case True
  then show ?thesis using rel selected_rel [OF rel]
    by (auto simp: RoutingStoreQt_verifyEgress_def RoutingStore_verify_egress_def)
next
  case False
  then obtain r where r: "RoutingStoreQt_find (sq_selected s) s = Some r" and ne: "sq_selected s \<noteq> []"
    by auto
  then have i: "rq_id r = sq_selected s" by (auto simp: RoutingStoreQt_find_def dest: find_key)
  have t: "rs_selected t = Some (sq_selected s)" "map_of (rs_routes t) (sq_selected s) = Some (abs_profile r)"
    using selected_rel [OF rel] r ne by auto
  show ?thesis using rel r ne i t
    by (cases probe)
       (simp_all add: RoutingStoreQt_verifyEgress_def RoutingStore_verify_egress_def
        push_routing_audit_def route_rel_def appendAudit_core core_rs_def RouteProfile_redacted_def
        opt_text_def)
qed

interpretation route_mirror: simulation routeqt_step route_step abs_route_op route_rel named_route
proof
  fix s t x
  assume "route_rel s t" "named_route x"
  then show "route_rel (routeqt_step x s) (route_step (abs_route_op x) t)"
    by (cases x) (simp_all add: route_rel_add route_rel_remove route_rel_select route_rel_verify)
qed

lemma decision_rel:
  assumes rel: "route_rel s t"
  shows "(case RoutingStoreQt_decision s of
      Inl e \<Rightarrow> (\<exists>f. RoutingStore_decision t = Inl f \<and> e = err_text f)
    | Inr d \<Rightarrow> RoutingStore_decision t = Inr (abs_decision d))"
proof (cases "sq_selected s = []")
  case True
  then show ?thesis using selected_rel [OF rel]
    by (auto simp: RoutingStoreQt_decision_def RoutingStore_decision_def)
next
  case False
  have dec: "abs_decision (decisionQt_of r) = route_decision (abs_profile r)" for r
    by (simp add: abs_decision_def decisionQt_of_def route_decision_def abs_profile_def opt_text_def)
  show ?thesis using False selected_rel [OF rel]
    by (cases "RoutingStoreQt_find (sq_selected s) s")
       (auto simp: RoutingStoreQt_decision_def RoutingStore_decision_def validateQt_eq dec
         split: sum.split)
qed

section \<open>Properties\<close>

text \<open>
  The Qt routing store refines the Rust store. After any sequence of operations on routes
  with non-empty ids, the two stores hold corresponding routes and the same selection, their
  audit logs agree, and the connect-time decision is the corresponding decision or error.
\<close>

theorem routing_stores_agree:
  assumes "list_all named_route ops"
  shows "let s = run routeqt_step ops RoutingStoreQt_new;
             t = run route_step (map abs_route_op ops) RoutingStore_new
         in rs_routes t = keyed rq_id abs_profile (sq_routes s) \<and> rs_selected t = opt_text (sq_selected s)
            \<and> map core_qt (sq_audit s) = map core_rs (rs_audit t)
            \<and> (case RoutingStoreQt_decision s of
                 Inl e \<Rightarrow> (\<exists>f. RoutingStore_decision t = Inl f \<and> e = err_text f)
               | Inr d \<Rightarrow> RoutingStore_decision t = Inr (abs_decision d))"
proof -
  have "route_rel RoutingStoreQt_new RoutingStore_new"
    by (simp add: route_rel_def RoutingStoreQt_new_def RoutingStore_new_def keyed_def opt_text_def)
  from route_mirror.sim_run [OF this assms] show ?thesis
    by (simp add: Let_def decision_rel) (simp add: route_rel_def)
qed

definition demo_routeqt :: RouteProfileQt where
  "demo_routeqt =
     \<lparr>rq_id = ''r1'', rq_name = ''proxy'', rq_kind = Socks5, rq_host = ''127.0.0.1'',
      rq_port = 1080, rq_username = ''alice''\<rparr>"

theorem routing_stores_agree_witness:
  "rs_selected (run route_step (map abs_route_op [AddRouteQt demo_routeqt, SelectRouteQt ''r1'' 5])
      RoutingStore_new)
    = opt_text (sq_selected (run routeqt_step [AddRouteQt demo_routeqt, SelectRouteQt ''r1'' 5]
        RoutingStoreQt_new))"
  using routing_stores_agree [of "[AddRouteQt demo_routeqt, SelectRouteQt ''r1'' 5]"]
  unfolding Let_def by (simp add: demo_routeqt_def del: run.simps)

text \<open>
  A route survives its JSON form. Reading back the object \<open>toJson\<close> writes gives the same
  profile when its kind is enabled, its id and name are not empty and its port is an \<open>int\<close>; a
  profile of a disabled kind is refused.
\<close>

theorem route_json_roundtrip:
  assumes "rq_id r \<noteq> []" "rq_name r \<noteq> []" "- (2 ^ 31) \<le> rq_port r" "rq_port r < 2 ^ 31"
  shows "RouteProfileQt_fromJson (RouteProfileQt_toJson r) =
    (if routeKindEnabled (rq_kind r) then Inr r
     else Inl (''unknown kind: '' @ routeKindLabel (rq_kind r)))"
  using assms
  by (cases r; cases "rq_kind r")
     (simp_all add: RouteProfileQt_fromJson_def RouteProfileQt_toJson_def j_value_def
       kind_of_label_def routeKindEnabled_def Let_def)

theorem route_json_roundtrip_witness:
  "RouteProfileQt_fromJson (RouteProfileQt_toJson demo_routeqt) = Inr demo_routeqt"
  using route_json_roundtrip [of demo_routeqt]
  by (simp add: demo_routeqt_def routeKindEnabled_def)

lemma load_routes_toJson:
  assumes "list_all (\<lambda>r. RouteProfileQt_fromJson (RouteProfileQt_toJson r) = Inr r) rs"
    and "distinct (map rq_id (sq_routes s @ rs))"
  shows "load_routes (map (\<lambda>r. JObject (RouteProfileQt_toJson r)) rs) s
    = (Inr (), s\<lparr>sq_routes := sq_routes s @ rs\<rparr>)"
  using assms
proof (induction rs arbitrary: s)
  case Nil
  then show ?case by simp
next
  case (Cons r rs)
  then have "RoutingStoreQt_find (rq_id r) s = None"
    by (simp add: RoutingStoreQt_find_def find_key_None)
  moreover have "load_routes (map (\<lambda>r. JObject (RouteProfileQt_toJson r)) rs)
      (s\<lparr>sq_routes := sq_routes s @ [r]\<rparr>) = (Inr (), s\<lparr>sq_routes := sq_routes s @ r # rs\<rparr>)"
    using Cons.IH [of "s\<lparr>sq_routes := sq_routes s @ [r]\<rparr>"] Cons.prems by simp
  ultimately show ?case using Cons.prems(1) by simp
qed

text \<open>
  A store survives its file. Loading into an empty store what \<open>saveToDir\<close> wrote restores the
  routes, in order, and the selection, for a store with distinct ids whose routes survive their
  JSON form; the JSON codec is asked only to read back what it wrote.
\<close>

theorem store_file_roundtrip:
  assumes codec: "decode (encode (RoutingStoreQt_toDoc s)) = Some (RoutingStoreQt_toDoc s)"
    and "distinct (map rq_id (sq_routes s))"
    and "list_all (\<lambda>r. RouteProfileQt_fromJson (RouteProfileQt_toJson r) = Inr r) (sq_routes s)"
    and "RoutingStoreQt_saveToDir encode True True s = Inr txt"
  shows "RoutingStoreQt_loadFromDir decode (Some txt) True RoutingStoreQt_new
    = (Inr (), RoutingStoreQt_new\<lparr>sq_routes := sq_routes s, sq_selected := sq_selected s\<rparr>)"
proof -
  have "txt = encode (RoutingStoreQt_toDoc s)"
    using assms(4) by (simp add: RoutingStoreQt_saveToDir_def)
  then show ?thesis using codec load_routes_toJson [OF assms(3), of RoutingStoreQt_new] assms(2)
    by (simp add: RoutingStoreQt_loadFromDir_def RoutingStoreQt_toDoc_def j_value_def
        RoutingStoreQt_new_def)
qed

theorem store_file_roundtrip_witness:
  "RoutingStoreQt_loadFromDir
     (\<lambda>_. Some (RoutingStoreQt_toDoc (RoutingStoreQt_new\<lparr>sq_routes := [demo_routeqt], sq_selected := ''r1''\<rparr>)))
     (Some ''doc'') True RoutingStoreQt_new
    = (Inr (), RoutingStoreQt_new\<lparr>sq_routes := [demo_routeqt], sq_selected := ''r1''\<rparr>)"
proof -
  let ?s = "RoutingStoreQt_new\<lparr>sq_routes := [demo_routeqt], sq_selected := ''r1''\<rparr>"
  have "list_all (\<lambda>r. RouteProfileQt_fromJson (RouteProfileQt_toJson r) = Inr r) (sq_routes ?s)"
    by (simp add: demo_routeqt_def RouteProfileQt_fromJson_def RouteProfileQt_toJson_def
        kind_of_label_def j_value_def)
  then show ?thesis
    using store_file_roundtrip [of "\<lambda>_. Some (RoutingStoreQt_toDoc ?s)" "\<lambda>_. ''doc''" ?s "''doc''"]
    by (simp add: RoutingStoreQt_saveToDir_def)
qed

text \<open>
  Which routes connect without a proxy. A connection made for a decision sets no proxy
  exactly for the direct, the system and the VPN-metadata kinds; the last one is a route the
  router's comment says must not connect at all. Without a route id, or for a disabled kind, no
  attempt is made.
\<close>

theorem connect_without_proxy:
  "(fst (connectViaDecision connect d host port) = Some NoProxy)
     = (dcq_routeId d \<noteq> [] \<and> dcq_kind d \<in> {Direct, System, VpnMetadata})
   \<and> (fst (connectViaDecision connect d host port) \<noteq> None)
     = (dcq_routeId d \<noteq> [] \<and> routeKindEnabled (dcq_kind d))"
  by (cases "dcq_kind d")
     (simp_all add: connectViaDecision_def toNetworkProxy_def routeKindEnabled_def Let_def)

text \<open>
  A decision never carries a disabled or unvalidated route, whatever the store holds, also
  one just loaded from a file that was edited by hand.
\<close>

theorem decisionQt_validated:
  "(case RoutingStoreQt_decision s of
      Inl e \<Rightarrow> True
    | Inr d \<Rightarrow> (\<exists>r. RoutingStoreQt_selected s = Some r \<and> RouteProfileQt_validate r = Inr ()
         \<and> d = decisionQt_of r \<and> routeKindEnabled (dcq_kind d)))"
  by (auto simp: RoutingStoreQt_decision_def RoutingStoreQt_selected_def decisionQt_of_def
      RouteProfileQt_validate_def split: option.split sum.split if_splits)

end
