(* ===== verification/Profiles.thy ===== *)
theory Profiles
  imports Prelude
begin

text \<open>
  Character memory profiles, \<open>wirecore/crates/wire-profiles/src/lib.rs\<close>: the ten default
  domains, two of them sensitive, the store whose mutations carry an actor, and the audit of
  sensitive changes. \<open>serde_json\<close> is a third-party crate: what it parses a text to is an argument
  (\<open>None\<close> when it fails).
\<close>

section \<open>Profiles\<close>

datatype DefaultDomain =
  World | Memory | Routing | AiDomain | VoiceDomain | Renderer | Soundscape | AutomationPack | Soul
  | CommandDatabaseDomain

definition DefaultDomain_all :: "DefaultDomain list" where
  "DefaultDomain_all =
     [World, Memory, Routing, AiDomain, VoiceDomain, Renderer, Soundscape, AutomationPack, Soul,
      CommandDatabaseDomain]"

definition SENSITIVE_DOMAINS :: "DefaultDomain list" where
  "SENSITIVE_DOMAINS = [Routing, AiDomain]"

definition DefaultDomain_is_sensitive :: "DefaultDomain \<Rightarrow> bool" where
  "DefaultDomain_is_sensitive d \<longleftrightarrow> d \<in> set SENSITIVE_DOMAINS"

datatype Actor = User | Automation

record ProfileDefaults =
  pd_world :: "string option"
  pd_memory :: "string option"
  pd_routing_profile :: "string option"
  pd_ai_provider :: "string option"
  pd_voice :: "string option"
  pd_renderer :: "string option"
  pd_soundscape :: "string option"
  pd_automation_pack :: "string option"
  pd_soul_document :: "string option"
  pd_command_database :: "string option"

definition ProfileDefaults_default :: ProfileDefaults where
  "ProfileDefaults_default =
     \<lparr>pd_world = None, pd_memory = None, pd_routing_profile = None, pd_ai_provider = None,
      pd_voice = None, pd_renderer = None, pd_soundscape = None, pd_automation_pack = None,
      pd_soul_document = None, pd_command_database = None\<rparr>"

fun ProfileDefaults_get :: "ProfileDefaults \<Rightarrow> DefaultDomain \<Rightarrow> string option" where
  "ProfileDefaults_get p World = pd_world p"
| "ProfileDefaults_get p Memory = pd_memory p"
| "ProfileDefaults_get p Routing = pd_routing_profile p"
| "ProfileDefaults_get p AiDomain = pd_ai_provider p"
| "ProfileDefaults_get p VoiceDomain = pd_voice p"
| "ProfileDefaults_get p Renderer = pd_renderer p"
| "ProfileDefaults_get p Soundscape = pd_soundscape p"
| "ProfileDefaults_get p AutomationPack = pd_automation_pack p"
| "ProfileDefaults_get p Soul = pd_soul_document p"
| "ProfileDefaults_get p CommandDatabaseDomain = pd_command_database p"

fun ProfileDefaults_set :: "DefaultDomain \<Rightarrow> string option \<Rightarrow> ProfileDefaults \<Rightarrow> ProfileDefaults" where
  "ProfileDefaults_set World v p = p\<lparr>pd_world := v\<rparr>"
| "ProfileDefaults_set Memory v p = p\<lparr>pd_memory := v\<rparr>"
| "ProfileDefaults_set Routing v p = p\<lparr>pd_routing_profile := v\<rparr>"
| "ProfileDefaults_set AiDomain v p = p\<lparr>pd_ai_provider := v\<rparr>"
| "ProfileDefaults_set VoiceDomain v p = p\<lparr>pd_voice := v\<rparr>"
| "ProfileDefaults_set Renderer v p = p\<lparr>pd_renderer := v\<rparr>"
| "ProfileDefaults_set Soundscape v p = p\<lparr>pd_soundscape := v\<rparr>"
| "ProfileDefaults_set AutomationPack v p = p\<lparr>pd_automation_pack := v\<rparr>"
| "ProfileDefaults_set Soul v p = p\<lparr>pd_soul_document := v\<rparr>"
| "ProfileDefaults_set CommandDatabaseDomain v p = p\<lparr>pd_command_database := v\<rparr>"

lemma defaults_get_set:
  "ProfileDefaults_get (ProfileDefaults_set d v p) e = (if e = d then v else ProfileDefaults_get p e)"
  by (cases d; cases e) simp_all

definition PROFILE_SCHEMA_VERSION :: u32 where
  "PROFILE_SCHEMA_VERSION = 1"

record CharacterProfile =
  chp_id :: string
  chp_name :: string
  chp_schema_version :: u32
  chp_defaults :: ProfileDefaults
  chp_created_at :: u64
  chp_updated_at :: u64

datatype ProfileError =
  SchemaVersionMismatch u32 | InvalidProfileId | InvalidProfileName | DuplicateProfileId
  | ProfileNotFound | MalformedJson | ProfileSerialization
  | SensitiveDefaultDenied DefaultDomain Actor

definition CharacterProfile_new :: "string \<Rightarrow> string \<Rightarrow> u64 \<Rightarrow> ProfileError + CharacterProfile" where
  "CharacterProfile_new i name now =
     (if i = [] \<or> 128 < length i then Inl InvalidProfileId
      else if name = [] \<or> 256 < length name then Inl InvalidProfileName
      else Inr \<lparr>chp_id = i, chp_name = name, chp_schema_version = PROFILE_SCHEMA_VERSION,
                chp_defaults = ProfileDefaults_default, chp_created_at = now,
                chp_updated_at = now\<rparr>)"

text \<open>\<open>parsed\<close> is the result of \<open>serde_json::from_str\<close>.\<close>

definition CharacterProfile_from_json :: "CharacterProfile option \<Rightarrow> ProfileError + CharacterProfile" where
  "CharacterProfile_from_json parsed =
     (case parsed of
        None \<Rightarrow> Inl MalformedJson
      | Some p \<Rightarrow>
          (if chp_schema_version p \<noteq> PROFILE_SCHEMA_VERSION
           then Inl (SchemaVersionMismatch (chp_schema_version p))
           else if chp_id p = [] \<or> chp_name p = [] then Inl MalformedJson
           else Inr p))"

section \<open>The store\<close>

record SensitiveChangeAudit =
  sc_at_unix :: u64
  sc_profile_id :: string
  sc_domain :: DefaultDomain
  sc_actor :: Actor
  sc_value_redacted :: string

definition redact_value :: "string option \<Rightarrow> string" where
  "redact_value v =
     (case v of None \<Rightarrow> [] | Some s \<Rightarrow> (if s = [] then [] else ''redacted:''))"

record ProfileStore =
  ps_profiles :: "(string, CharacterProfile) hash_map"
  ps_audit :: "SensitiveChangeAudit list"

definition ProfileStore_new :: ProfileStore where
  "ProfileStore_new = \<lparr>ps_profiles = [], ps_audit = []\<rparr>"

text \<open>
  The loop of \<open>upsert\<close> over the domains: it pushes an audit record for every sensitive domain
  that changes, or returns at the first one when the actor is not the user. The result is the
  error, if any, and the audit log so far.
\<close>

fun check_domains ::
    "DefaultDomain list \<Rightarrow> ProfileDefaults \<Rightarrow> ProfileDefaults \<Rightarrow> string \<Rightarrow> Actor \<Rightarrow> u64 \<Rightarrow>
      SensitiveChangeAudit list \<Rightarrow> ProfileError option \<times> SensitiveChangeAudit list" where
  "check_domains [] old new pid actor now log = (None, log)"
| "check_domains (d # ds) old new pid actor now log =
     (if ProfileDefaults_get old d \<noteq> ProfileDefaults_get new d \<and> DefaultDomain_is_sensitive d
      then (if actor \<noteq> User then (Some (SensitiveDefaultDenied d actor), log)
            else check_domains ds old new pid actor now
              (log @ [\<lparr>sc_at_unix = now, sc_profile_id = pid, sc_domain = d, sc_actor = actor,
                       sc_value_redacted = redact_value (ProfileDefaults_get new d)\<rparr>]))
      else check_domains ds old new pid actor now log)"

definition ProfileStore_upsert ::
    "CharacterProfile \<Rightarrow> Actor \<Rightarrow> u64 \<Rightarrow> ProfileStore \<Rightarrow> (ProfileError + unit) \<times> ProfileStore" where
  "ProfileStore_upsert profile actor now s =
     (let insert = (\<lambda>s1. s1\<lparr>ps_profiles := AList.update (chp_id profile)
                (profile\<lparr>chp_updated_at := now\<rparr>) (ps_profiles s1)\<rparr>) in
      case map_of (ps_profiles s) (chp_id profile) of
        Some existing \<Rightarrow>
          (case check_domains DefaultDomain_all (chp_defaults existing) (chp_defaults profile)
                  (chp_id profile) actor now (ps_audit s) of
             (Some e, log) \<Rightarrow> (Inl e, s\<lparr>ps_audit := log\<rparr>)
           | (None, log) \<Rightarrow> (Inr (), insert (s\<lparr>ps_audit := log\<rparr>)))
      | None \<Rightarrow>
          (if actor \<noteq> User then (Inl (SensitiveDefaultDenied Routing actor), s)
           else (Inr (), insert s)))"

definition ProfileStore_get :: "ProfileStore \<Rightarrow> string \<Rightarrow> CharacterProfile option" where
  "ProfileStore_get s i = map_of (ps_profiles s) i"

definition ProfileStore_list :: "ProfileStore \<Rightarrow> CharacterProfile list" where
  "ProfileStore_list s = sort_key chp_name (map snd (ps_profiles s))"

definition ProfileStore_remove :: "string \<Rightarrow> ProfileStore \<Rightarrow> (ProfileError + unit) \<times> ProfileStore" where
  "ProfileStore_remove i s =
     (if map_of (ps_profiles s) i = None then (Inl ProfileNotFound, s)
      else (Inr (), s\<lparr>ps_profiles := AList.delete i (ps_profiles s)\<rparr>))"

definition ProfileStore_len :: "ProfileStore \<Rightarrow> nat" where
  "ProfileStore_len s = length (ps_profiles s)"

text \<open>\<open>export\<close> serializes the profiles sorted by name.\<close>

definition ProfileStore_export ::
    "(CharacterProfile list \<Rightarrow> string option) \<Rightarrow> ProfileStore \<Rightarrow> ProfileError + string" where
  "ProfileStore_export encode s =
     (case encode (sort_key chp_name (map snd (ps_profiles s))) of
        None \<Rightarrow> Inl ProfileSerialization | Some txt \<Rightarrow> Inr txt)"

fun import_profiles :: "CharacterProfile list \<Rightarrow> nat \<Rightarrow> ProfileStore \<Rightarrow> (ProfileError + nat) \<times> ProfileStore" where
  "import_profiles [] n s = (Inr n, s)"
| "import_profiles (p # ps) n s =
     (if chp_schema_version p \<noteq> PROFILE_SCHEMA_VERSION
      then (Inl (SchemaVersionMismatch (chp_schema_version p)), s)
      else if map_of (ps_profiles s) (chp_id p) \<noteq> None then (Inl DuplicateProfileId, s)
      else import_profiles ps (n + 1)
             (s\<lparr>ps_profiles := AList.update (chp_id p) p (ps_profiles s)\<rparr>))"

definition ProfileStore_import ::
    "CharacterProfile list option \<Rightarrow> Actor \<Rightarrow> ProfileStore \<Rightarrow> (ProfileError + nat) \<times> ProfileStore" where
  "ProfileStore_import parsed actor s =
     (if actor \<noteq> User then (Inl (SensitiveDefaultDenied Routing actor), s)
      else case parsed of None \<Rightarrow> (Inl MalformedJson, s) | Some ps \<Rightarrow> import_profiles ps 0 s)"

datatype ProfileOp =
  Upsert CharacterProfile Actor u64 | RemoveProfile string
| ImportProfiles "CharacterProfile list option" Actor

fun profile_step :: "ProfileOp \<Rightarrow> ProfileStore \<Rightarrow> ProfileStore" where
  "profile_step (Upsert p a now) s = snd (ProfileStore_upsert p a now s)"
| "profile_step (RemoveProfile i) s = snd (ProfileStore_remove i s)"
| "profile_step (ImportProfiles parsed a) s = snd (ProfileStore_import parsed a s)"

section \<open>Lemmas\<close>

lemma check_domains_automation:
  "check_domains ds old new pid Automation now log =
     (case filter (\<lambda>d. ProfileDefaults_get old d \<noteq> ProfileDefaults_get new d
                     \<and> DefaultDomain_is_sensitive d) ds of
        [] \<Rightarrow> (None, log) | d # _ \<Rightarrow> (Some (SensitiveDefaultDenied d Automation), log))"
  by (induction ds) auto

lemma check_domains_user:
  "check_domains ds old new pid User now log =
     (None, log @ map (\<lambda>d. \<lparr>sc_at_unix = now, sc_profile_id = pid, sc_domain = d, sc_actor = User,
                             sc_value_redacted = redact_value (ProfileDefaults_get new d)\<rparr>)
        (filter (\<lambda>d. ProfileDefaults_get old d \<noteq> ProfileDefaults_get new d
                   \<and> DefaultDomain_is_sensitive d) ds))"
  by (induction ds arbitrary: log) auto

lemma sensitive_iff: "DefaultDomain_is_sensitive d \<longleftrightarrow> d = Routing \<or> d = AiDomain"
  by (simp add: DefaultDomain_is_sensitive_def SENSITIVE_DOMAINS_def)

lemma in_all_domains: "d \<in> set DefaultDomain_all"
  by (cases d) (simp_all add: DefaultDomain_all_def)

definition sensitive_view :: "ProfileDefaults \<Rightarrow> string option \<times> string option" where
  "sensitive_view p = (pd_routing_profile p, pd_ai_provider p)"

lemma changed_sensitive_domains:
  "filter (\<lambda>d. ProfileDefaults_get old d \<noteq> ProfileDefaults_get new d
             \<and> DefaultDomain_is_sensitive d) DefaultDomain_all =
     (if pd_routing_profile old \<noteq> pd_routing_profile new then [Routing] else [])
     @ (if pd_ai_provider old \<noteq> pd_ai_provider new then [AiDomain] else [])"
  by (simp add: DefaultDomain_all_def sensitive_iff)

lemma automation_upsert:
  "snd (ProfileStore_upsert p Automation now s) =
     (case map_of (ps_profiles s) (chp_id p) of
        None \<Rightarrow> s
      | Some e \<Rightarrow>
          (if sensitive_view (chp_defaults e) = sensitive_view (chp_defaults p)
           then s\<lparr>ps_profiles := AList.update (chp_id p) (p\<lparr>chp_updated_at := now\<rparr>) (ps_profiles s)\<rparr>
           else s))"
  by (auto simp: ProfileStore_upsert_def check_domains_automation changed_sensitive_domains
      sensitive_view_def Let_def split: option.split)

definition sensitive_records ::
    "CharacterProfile \<Rightarrow> u64 \<Rightarrow> CharacterProfile option \<Rightarrow> SensitiveChangeAudit list" where
  "sensitive_records p now old =
     (case old of
        None \<Rightarrow> []
      | Some e \<Rightarrow>
          map (\<lambda>d. \<lparr>sc_at_unix = now, sc_profile_id = chp_id p, sc_domain = d, sc_actor = User,
                    sc_value_redacted = redact_value (ProfileDefaults_get (chp_defaults p) d)\<rparr>)
            ((if pd_routing_profile (chp_defaults e) \<noteq> pd_routing_profile (chp_defaults p)
              then [Routing] else [])
             @ (if pd_ai_provider (chp_defaults e) \<noteq> pd_ai_provider (chp_defaults p)
                then [AiDomain] else [])))"

lemma user_upsert:
  "ProfileStore_upsert p User now s =
     (Inr (), s\<lparr>ps_audit := ps_audit s @ sensitive_records p now (map_of (ps_profiles s) (chp_id p)),
               ps_profiles := AList.update (chp_id p) (p\<lparr>chp_updated_at := now\<rparr>) (ps_profiles s)\<rparr>)"
  by (cases s) (simp add: ProfileStore_upsert_def check_domains_user changed_sensitive_domains
      sensitive_records_def Let_def split: option.split)

text \<open>Operations done by automation.\<close>

fun by_automation :: "ProfileOp \<Rightarrow> bool" where
  "by_automation (Upsert p a now) = (a = Automation)"
| "by_automation (ImportProfiles parsed a) = (a = Automation)"
| "by_automation (RemoveProfile i) = False"

definition sensitive_of :: "ProfileStore \<Rightarrow> string \<Rightarrow> (string option \<times> string option) option" where
  "sensitive_of s i = map_option (\<lambda>p. sensitive_view (chp_defaults p)) (map_of (ps_profiles s) i)"

lemma automation_step:
  "by_automation x \<Longrightarrow> sensitive_of (profile_step x s) = sensitive_of s
     \<and> ps_audit (profile_step x s) = ps_audit s"
proof (cases x)
  case (Upsert p a now)
  assume "by_automation x"
  with Upsert show ?thesis
    by (auto simp: automation_upsert sensitive_of_def fun_eq_iff split: option.split)
qed (simp_all add: ProfileStore_import_def)

lemma import_profiles_log: "ps_audit (snd (import_profiles ps n s)) = ps_audit s"
  by (induction ps arbitrary: n s) simp_all

lemma profile_step_log: "\<exists>new. ps_audit (profile_step x s) = ps_audit s @ new"
proof (cases x)
  case (Upsert p a now)
  then show ?thesis
    by (cases a) (auto simp: automation_upsert user_upsert split: option.split)
qed (auto simp: ProfileStore_remove_def ProfileStore_import_def import_profiles_log split: option.split)

definition profiles_inv :: "ProfileStore \<Rightarrow> bool" where
  "profiles_inv s \<longleftrightarrow>
     distinct (map fst (ps_profiles s)) \<and> list_all (\<lambda>(k, p). chp_id p = k) (ps_profiles s)"

lemma upsert_inv: "profiles_inv s \<Longrightarrow> profiles_inv (snd (ProfileStore_upsert p a now s))"
  by (cases a)
     (auto simp: automation_upsert user_upsert profiles_inv_def distinct_update list_all_update
        split: option.split)

lemma import_profiles_inv: "profiles_inv s \<Longrightarrow> profiles_inv (snd (import_profiles ps n s))"
  by (induction ps arbitrary: n s) (simp_all add: profiles_inv_def distinct_update list_all_update)

lemma profile_step_inv: "profiles_inv s \<Longrightarrow> profiles_inv (profile_step x s)"
proof (cases x)
  case (RemoveProfile i)
  assume "profiles_inv s"
  with RemoveProfile show ?thesis
    by (auto simp: ProfileStore_remove_def profiles_inv_def distinct_delete list_all_iff
        set_delete_alist)
next
  case (Upsert p a now)
  assume "profiles_inv s"
  with Upsert show ?thesis by (simp add: upsert_inv)
next
  case (ImportProfiles parsed a)
  assume "profiles_inv s"
  with ImportProfiles show ?thesis
    by (simp add: ProfileStore_import_def import_profiles_inv split: option.split)
qed

interpretation profile_store: machine_invariant profile_step profiles_inv
  by unfold_locales (rule profile_step_inv)

interpretation profile_log: append_only profile_step ps_audit
  by unfold_locales (rule profile_step_log)

section \<open>Properties\<close>

text \<open>
  Automation cannot change sensitive defaults. Any sequence of operations by automation
  leaves the routing and the AI default of every profile as they were, creates no profile,
  and writes no audit record.
\<close>

theorem automation_keeps_sensitive_defaults:
  assumes "list_all by_automation ops"
  shows "sensitive_of (run profile_step ops s) = sensitive_of s
    \<and> ps_audit (run profile_step ops s) = ps_audit s"
  using assms by (induction ops arbitrary: s) (simp_all add: automation_step)

definition demo_profile :: CharacterProfile where
  "demo_profile =
     \<lparr>chp_id = ''c1'', chp_name = ''Kael'', chp_schema_version = PROFILE_SCHEMA_VERSION,
      chp_defaults = ProfileDefaults_default, chp_created_at = 1, chp_updated_at = 1\<rparr>"

theorem automation_keeps_sensitive_defaults_witness:
  "sensitive_of (run profile_step
     [Upsert (demo_profile\<lparr>chp_defaults := ProfileDefaults_default\<lparr>pd_ai_provider := Some ''x''\<rparr>\<rparr>)
        Automation 9, ImportProfiles None Automation]
     \<lparr>ps_profiles = [(''c1'', demo_profile)], ps_audit = []\<rparr>) ''c1'' = Some (None, None)"
  using automation_keeps_sensitive_defaults
    [of "[Upsert (demo_profile\<lparr>chp_defaults := ProfileDefaults_default\<lparr>pd_ai_provider := Some ''x''\<rparr>\<rparr>)
        Automation 9, ImportProfiles None Automation]"
       "\<lparr>ps_profiles = [(''c1'', demo_profile)], ps_audit = []\<rparr>"]
  by (simp add: sensitive_of_def sensitive_view_def demo_profile_def ProfileDefaults_default_def
      del: run.simps)

text \<open>
  What a user's upsert does. It always succeeds; the stored profile is the given one with the
  update time set, all other profiles are kept, and the audit log grows by exactly one record
  for each sensitive default that differs from the stored profile's, in domain order, with the
  value replaced by a marker.
\<close>

theorem user_upsert_spec:
  "fst (ProfileStore_upsert p User now s) = Inr ()
   \<and> map_of (ps_profiles (snd (ProfileStore_upsert p User now s)))
       = (map_of (ps_profiles s))(chp_id p \<mapsto> p\<lparr>chp_updated_at := now\<rparr>)
   \<and> map (\<lambda>a. (sc_domain a, sc_value_redacted a))
       (drop (length (ps_audit s)) (ps_audit (snd (ProfileStore_upsert p User now s))))
     = (case map_of (ps_profiles s) (chp_id p) of
          None \<Rightarrow> []
        | Some e \<Rightarrow>
            (if pd_routing_profile (chp_defaults e) \<noteq> pd_routing_profile (chp_defaults p)
             then [(Routing, redact_value (pd_routing_profile (chp_defaults p)))] else [])
            @ (if pd_ai_provider (chp_defaults e) \<noteq> pd_ai_provider (chp_defaults p)
               then [(AiDomain, redact_value (pd_ai_provider (chp_defaults p)))] else []))"
  by (simp add: user_upsert sensitive_records_def split: option.split)

text \<open>
  Import stops midway. When an import by the user meets a profile whose id is already
  stored, the profiles before it in the array have been added and stay, although the call
  returns an error.
\<close>

theorem import_not_atomic:
  assumes "distinct (map chp_id ps)" "\<forall>p \<in> set ps. chp_schema_version p = PROFILE_SCHEMA_VERSION"
    and "\<forall>p \<in> set ps. map_of (ps_profiles s) (chp_id p) = None"
    and "chp_schema_version q = PROFILE_SCHEMA_VERSION" "map_of (ps_profiles s) (chp_id q) \<noteq> None"
  shows "ProfileStore_import (Some (ps @ q # rest)) User s
    = (Inl DuplicateProfileId, s\<lparr>ps_profiles := ps_profiles s @ map (\<lambda>p. (chp_id p, p)) ps\<rparr>)"
proof -
  have "import_profiles (ps @ q # rest) n s
      = (Inl DuplicateProfileId, s\<lparr>ps_profiles := ps_profiles s @ map (\<lambda>p. (chp_id p, p)) ps\<rparr>)" for n
    using assms
  proof (induction ps arbitrary: n s)
    case (Cons p ps)
    let ?s1 = "s\<lparr>ps_profiles := AList.update (chp_id p) p (ps_profiles s)\<rparr>"
    have up: "AList.update (chp_id p) p (ps_profiles s) = ps_profiles s @ [(chp_id p, p)]"
      using Cons.prems(3) by (simp add: update_fresh)
    have "\<forall>x \<in> set ps. map_of (ps_profiles ?s1) (chp_id x) = None"
      using Cons.prems(1,3) by (auto simp: image_iff)
    moreover have "map_of (ps_profiles ?s1) (chp_id q) \<noteq> None"
      using Cons.prems(5) by simp
    ultimately show ?case using Cons.IH [of ?s1 "n + 1"] Cons.prems by (simp add: up)
  qed auto
  then show ?thesis by (simp add: ProfileStore_import_def)
qed

theorem import_not_atomic_witness:
  "ps_profiles (snd (ProfileStore_import (Some ([demo_profile\<lparr>chp_id := ''c2''\<rparr>] @ demo_profile # []))
     User \<lparr>ps_profiles = [(''c1'', demo_profile)], ps_audit = []\<rparr>))
   = [(''c1'', demo_profile), (''c2'', demo_profile\<lparr>chp_id := ''c2''\<rparr>)]"
proof -
  let ?s = "\<lparr>ps_profiles = [(''c1'', demo_profile)], ps_audit = []\<rparr>"
  have "ProfileStore_import (Some ([demo_profile\<lparr>chp_id := ''c2''\<rparr>] @ demo_profile # [])) User ?s
    = (Inl DuplicateProfileId, ?s\<lparr>ps_profiles := ps_profiles ?s
        @ map (\<lambda>p. (chp_id p, p)) [demo_profile\<lparr>chp_id := ''c2''\<rparr>]\<rparr>)"
    by (rule import_not_atomic) (simp_all add: demo_profile_def)
  then show ?thesis by simp
qed

text \<open>
  The profile store stays well formed and its audit log is append-only: over any sequence of
  operations every profile is stored under its own id, no id twice, and no audit record is
  removed or rewritten.
\<close>

theorem profile_store_invariant:
  "profiles_inv (run profile_step ops ProfileStore_new)
   \<and> prefix (ps_audit s) (ps_audit (run profile_step ops s))"
proof -
  have "profiles_inv ProfileStore_new" by (simp add: profiles_inv_def ProfileStore_new_def)
  then show ?thesis by (simp add: profile_store.run_inv profile_log.run_log_prefix)
qed

end
