(* ===== verification/ProfilesQt.thy ===== *)
theory ProfilesQt
  imports Profiles
begin

text \<open>
  The Qt profile store, \<open>src/wiremudder/profiles/character_profile_store.cpp\<close> and \<open>.h\<close>, which
  mirrors the Rust core of theory Profiles. Domains and actors are shared. Qt's JSON text format
  and files are not under \<open>src/\<close>: encoder, decoder and what a file holds are arguments.
\<close>

section \<open>Profiles\<close>

definition domainIsSensitive :: "DefaultDomain \<Rightarrow> bool" where
  "domainIsSensitive d \<longleftrightarrow> d = Routing \<or> d = AiDomain"

definition kAllDomains :: "DefaultDomain list" where
  "kAllDomains =
     [World, Memory, Routing, AiDomain, VoiceDomain, Renderer, Soundscape, AutomationPack, Soul,
      CommandDatabaseDomain]"

record ProfileDefaultsQt =
  qd_world :: string
  qd_memory :: string
  qd_routingProfile :: string
  qd_aiProvider :: string
  qd_voice :: string
  qd_renderer :: string
  qd_soundscape :: string
  qd_automationPack :: string
  qd_soulDocument :: string
  qd_commandDatabase :: string

definition ProfileDefaultsQt_empty :: ProfileDefaultsQt where
  "ProfileDefaultsQt_empty =
     \<lparr>qd_world = [], qd_memory = [], qd_routingProfile = [], qd_aiProvider = [], qd_voice = [],
      qd_renderer = [], qd_soundscape = [], qd_automationPack = [], qd_soulDocument = [],
      qd_commandDatabase = []\<rparr>"

fun ProfileDefaultsQt_get :: "ProfileDefaultsQt \<Rightarrow> DefaultDomain \<Rightarrow> string" where
  "ProfileDefaultsQt_get p World = qd_world p"
| "ProfileDefaultsQt_get p Memory = qd_memory p"
| "ProfileDefaultsQt_get p Routing = qd_routingProfile p"
| "ProfileDefaultsQt_get p AiDomain = qd_aiProvider p"
| "ProfileDefaultsQt_get p VoiceDomain = qd_voice p"
| "ProfileDefaultsQt_get p Renderer = qd_renderer p"
| "ProfileDefaultsQt_get p Soundscape = qd_soundscape p"
| "ProfileDefaultsQt_get p AutomationPack = qd_automationPack p"
| "ProfileDefaultsQt_get p Soul = qd_soulDocument p"
| "ProfileDefaultsQt_get p CommandDatabaseDomain = qd_commandDatabase p"

fun ProfileDefaultsQt_set :: "DefaultDomain \<Rightarrow> string \<Rightarrow> ProfileDefaultsQt \<Rightarrow> ProfileDefaultsQt" where
  "ProfileDefaultsQt_set World v p = p\<lparr>qd_world := v\<rparr>"
| "ProfileDefaultsQt_set Memory v p = p\<lparr>qd_memory := v\<rparr>"
| "ProfileDefaultsQt_set Routing v p = p\<lparr>qd_routingProfile := v\<rparr>"
| "ProfileDefaultsQt_set AiDomain v p = p\<lparr>qd_aiProvider := v\<rparr>"
| "ProfileDefaultsQt_set VoiceDomain v p = p\<lparr>qd_voice := v\<rparr>"
| "ProfileDefaultsQt_set Renderer v p = p\<lparr>qd_renderer := v\<rparr>"
| "ProfileDefaultsQt_set Soundscape v p = p\<lparr>qd_soundscape := v\<rparr>"
| "ProfileDefaultsQt_set AutomationPack v p = p\<lparr>qd_automationPack := v\<rparr>"
| "ProfileDefaultsQt_set Soul v p = p\<lparr>qd_soulDocument := v\<rparr>"
| "ProfileDefaultsQt_set CommandDatabaseDomain v p = p\<lparr>qd_commandDatabase := v\<rparr>"

record CharacterProfileQt =
  qp_id :: string
  qp_name :: string
  qp_schemaVersion :: int
  qp_defaults :: ProfileDefaultsQt
  qp_createdAt :: int
  qp_updatedAt :: int

definition CharacterProfileQt_default :: CharacterProfileQt where
  "CharacterProfileQt_default =
     \<lparr>qp_id = [], qp_name = [], qp_schemaVersion = 1, qp_defaults = ProfileDefaultsQt_empty,
      qp_createdAt = 0, qp_updatedAt = 0\<rparr>"

definition CharacterProfileQt_create :: "string \<Rightarrow> string \<Rightarrow> int \<Rightarrow> CharacterProfileQt \<times> string" where
  "CharacterProfileQt_create i name now =
     (if i = [] \<or> 128 < length i then (CharacterProfileQt_default, ''invalid id'')
      else if name = [] \<or> 256 < length name then (CharacterProfileQt_default, ''invalid name'')
      else (CharacterProfileQt_default\<lparr>qp_id := i, qp_name := name, qp_schemaVersion := 1,
              qp_createdAt := now, qp_updatedAt := now\<rparr>, []))"

definition CharacterProfileQt_toJson :: "CharacterProfileQt \<Rightarrow> json_object" where
  "CharacterProfileQt_toJson p =
     (let d = qp_defaults p in
      [(''id'', JString (qp_id p)), (''name'', JString (qp_name p)),
       (''schema_version'', JInt (qp_schemaVersion p)), (''created_at'', JInt (qp_createdAt p)),
       (''updated_at'', JInt (qp_updatedAt p)),
       (''defaults'', JObject
          [(''world'', JString (qd_world d)), (''memory'', JString (qd_memory d)),
           (''routing_profile'', JString (qd_routingProfile d)),
           (''ai_provider'', JString (qd_aiProvider d)), (''voice'', JString (qd_voice d)),
           (''renderer'', JString (qd_renderer d)), (''soundscape'', JString (qd_soundscape d)),
           (''automation_pack'', JString (qd_automationPack d)),
           (''soul_document'', JString (qd_soulDocument d)),
           (''command_database'', JString (qd_commandDatabase d))])])"

text \<open>\<open>toVariant().toLongLong()\<close> reads a 64-bit integer.\<close>

fun j_int64 :: "json \<Rightarrow> int" where
  "j_int64 (JInt n) = (if - (2 ^ 63) \<le> n \<and> n < 2 ^ 63 then n else 0)"
| "j_int64 _ = 0"

definition show_json_int :: "int \<Rightarrow> string" where
  "show_json_int i = (if i < 0 then CHR ''-'' # show_nat (nat (- i)) else show_nat (nat i))"

definition CharacterProfileQt_fromJson :: "json_object \<Rightarrow> string + CharacterProfileQt" where
  "CharacterProfileQt_fromJson obj =
     (let d = j_object (j_value ''defaults'' obj);
          p = \<lparr>qp_id = j_string (j_value ''id'' obj), qp_name = j_string (j_value ''name'' obj),
               qp_schemaVersion = j_int (j_value ''schema_version'' obj),
               qp_defaults =
                 \<lparr>qd_world = j_string (j_value ''world'' d),
                  qd_memory = j_string (j_value ''memory'' d),
                  qd_routingProfile = j_string (j_value ''routing_profile'' d),
                  qd_aiProvider = j_string (j_value ''ai_provider'' d),
                  qd_voice = j_string (j_value ''voice'' d),
                  qd_renderer = j_string (j_value ''renderer'' d),
                  qd_soundscape = j_string (j_value ''soundscape'' d),
                  qd_automationPack = j_string (j_value ''automation_pack'' d),
                  qd_soulDocument = j_string (j_value ''soul_document'' d),
                  qd_commandDatabase = j_string (j_value ''command_database'' d)\<rparr>,
               qp_createdAt = j_int64 (j_value ''created_at'' obj),
               qp_updatedAt = j_int64 (j_value ''updated_at'' obj)\<rparr> in
      if qp_id p = [] \<or> qp_name p = [] then Inl ''malformed profile''
      else if qp_schemaVersion p \<noteq> 1 then
        Inl (''schema version mismatch: '' @ show_json_int (qp_schemaVersion p))
      else Inr p)"

section \<open>The store\<close>

record SensitiveChangeAuditQt =
  sa_atUnix :: int
  sa_profileId :: string
  sa_domain :: DefaultDomain
  sa_actor :: Actor
  sa_valueRedacted :: string

record ProfileStoreQt =
  pq_profiles :: "CharacterProfileQt list"
  pq_audit :: "SensitiveChangeAuditQt list"

definition ProfileStoreQt_new :: ProfileStoreQt where
  "ProfileStoreQt_new = \<lparr>pq_profiles = [], pq_audit = []\<rparr>"

definition ProfileStoreQt_find :: "string \<Rightarrow> ProfileStoreQt \<Rightarrow> CharacterProfileQt option" where
  "ProfileStoreQt_find i s = find (\<lambda>p. qp_id p = i) (pq_profiles s)"

fun check_domainsQt ::
    "DefaultDomain list \<Rightarrow> ProfileDefaultsQt \<Rightarrow> ProfileDefaultsQt \<Rightarrow> string \<Rightarrow> Actor \<Rightarrow> int \<Rightarrow>
      SensitiveChangeAuditQt list \<Rightarrow> string option \<times> SensitiveChangeAuditQt list" where
  "check_domainsQt [] old new pid actor now log = (None, log)"
| "check_domainsQt (d # ds) old new pid actor now log =
     (let oldV = ProfileDefaultsQt_get old d; newV = ProfileDefaultsQt_get new d in
      if oldV \<noteq> newV \<and> domainIsSensitive d
      then (if actor \<noteq> User then (Some ''sensitive default change denied for non-user actor'', log)
            else check_domainsQt ds old new pid actor now
              (log @ [\<lparr>sa_atUnix = now, sa_profileId = pid, sa_domain = d, sa_actor = actor,
                       sa_valueRedacted = (if newV = [] then [] else ''redacted:'')\<rparr>]))
      else check_domainsQt ds old new pid actor now log)"

text \<open>\<open>*existing = p\<close> overwrites the first profile with the id.\<close>

fun replace_first :: "string \<Rightarrow> CharacterProfileQt \<Rightarrow> CharacterProfileQt list \<Rightarrow> CharacterProfileQt list" where
  "replace_first i p [] = []"
| "replace_first i p (q # qs) = (if qp_id q = i then p # qs else q # replace_first i p qs)"

definition ProfileStoreQt_upsert ::
    "CharacterProfileQt \<Rightarrow> Actor \<Rightarrow> int \<Rightarrow> ProfileStoreQt \<Rightarrow> (string + unit) \<times> ProfileStoreQt" where
  "ProfileStoreQt_upsert profile actor now s =
     (let p = profile\<lparr>qp_updatedAt := now\<rparr> in
      case ProfileStoreQt_find (qp_id profile) s of
        Some existing \<Rightarrow>
          (case check_domainsQt kAllDomains (qp_defaults existing) (qp_defaults profile)
                  (qp_id profile) actor now (pq_audit s) of
             (Some e, log) \<Rightarrow> (Inl e, s\<lparr>pq_audit := log\<rparr>)
           | (None, log) \<Rightarrow>
               (Inr (), s\<lparr>pq_audit := log,
                          pq_profiles := replace_first (qp_id profile) p (pq_profiles s)\<rparr>))
      | None \<Rightarrow>
          (if actor \<noteq> User then (Inl ''profile creation denied for non-user actor'', s)
           else (Inr (), s\<lparr>pq_profiles := pq_profiles s @ [p]\<rparr>)))"

definition ProfileStoreQt_get :: "string \<Rightarrow> ProfileStoreQt \<Rightarrow> CharacterProfileQt option" where
  "ProfileStoreQt_get i s = ProfileStoreQt_find i s"

definition ProfileStoreQt_list :: "ProfileStoreQt \<Rightarrow> CharacterProfileQt list" where
  "ProfileStoreQt_list s = sort_key qp_name (pq_profiles s)"

definition ProfileStoreQt_remove :: "string \<Rightarrow> ProfileStoreQt \<Rightarrow> (string + unit) \<times> ProfileStoreQt" where
  "ProfileStoreQt_remove i s =
     (case remove_first (\<lambda>p. qp_id p = i) (pq_profiles s) of
        None \<Rightarrow> (Inl ''not found'', s)
      | Some ps \<Rightarrow> (Inr (), s\<lparr>pq_profiles := ps\<rparr>))"

definition ProfileStoreQt_exportJson :: "(json list \<Rightarrow> string) \<Rightarrow> ProfileStoreQt \<Rightarrow> string" where
  "ProfileStoreQt_exportJson encode s =
     encode (map (\<lambda>p. JObject (CharacterProfileQt_toJson p)) (pq_profiles s))"

fun import_profilesQt :: "json list \<Rightarrow> ProfileStoreQt \<Rightarrow> (string + unit) \<times> ProfileStoreQt" where
  "import_profilesQt [] s = (Inr (), s)"
| "import_profilesQt (v # vs) s =
     (case CharacterProfileQt_fromJson (j_object v) of
        Inl e \<Rightarrow> (Inl e, s)
      | Inr p \<Rightarrow>
          (if ProfileStoreQt_find (qp_id p) s \<noteq> None then (Inl ''duplicate id'', s)
           else import_profilesQt vs (s\<lparr>pq_profiles := pq_profiles s @ [p]\<rparr>)))"

text \<open>\<open>decode\<close> gives the array of the document, None for a parse error or another value.\<close>

definition ProfileStoreQt_importJson ::
    "(string \<Rightarrow> json list option) \<Rightarrow> string \<Rightarrow> Actor \<Rightarrow> ProfileStoreQt \<Rightarrow>
      (string + unit) \<times> ProfileStoreQt" where
  "ProfileStoreQt_importJson decode txt actor s =
     (if actor \<noteq> User then (Inl ''import denied for non-user actor'', s)
      else case decode txt of
        None \<Rightarrow> (Inl ''malformed json'', s)
      | Some vs \<Rightarrow> import_profilesQt vs s)"

definition ProfileStoreQt_saveToDir ::
    "(json list \<Rightarrow> string) \<Rightarrow> bool \<Rightarrow> bool \<Rightarrow> ProfileStoreQt \<Rightarrow> string + string" where
  "ProfileStoreQt_saveToDir encode dir_ok open_ok s =
     (if \<not> dir_ok then Inl ''cannot create dir''
      else if \<not> open_ok then Inl ''cannot write profiles.json''
      else Inr (ProfileStoreQt_exportJson encode s))"

definition ProfileStoreQt_loadFromDir ::
    "(string \<Rightarrow> json list option) \<Rightarrow> string option \<Rightarrow> bool \<Rightarrow> ProfileStoreQt \<Rightarrow>
      (string + unit) \<times> ProfileStoreQt" where
  "ProfileStoreQt_loadFromDir decode file open_ok s =
     (case file of
        None \<Rightarrow> (Inr (), s)
      | Some txt \<Rightarrow>
          (if \<not> open_ok then (Inl ''cannot read profiles.json'', s)
           else ProfileStoreQt_importJson decode txt User s))"

section \<open>The Qt store mirrors the Rust store\<close>

definition abs_defaults :: "ProfileDefaultsQt \<Rightarrow> ProfileDefaults" where
  "abs_defaults d =
     \<lparr>pd_world = opt_text (qd_world d), pd_memory = opt_text (qd_memory d),
      pd_routing_profile = opt_text (qd_routingProfile d),
      pd_ai_provider = opt_text (qd_aiProvider d), pd_voice = opt_text (qd_voice d),
      pd_renderer = opt_text (qd_renderer d), pd_soundscape = opt_text (qd_soundscape d),
      pd_automation_pack = opt_text (qd_automationPack d),
      pd_soul_document = opt_text (qd_soulDocument d),
      pd_command_database = opt_text (qd_commandDatabase d)\<rparr>"

definition abs_char_profile :: "CharacterProfileQt \<Rightarrow> CharacterProfile" where
  "abs_char_profile p =
     \<lparr>chp_id = qp_id p, chp_name = qp_name p, chp_schema_version = word_of_int (qp_schemaVersion p),
      chp_defaults = abs_defaults (qp_defaults p), chp_created_at = word_of_int (qp_createdAt p),
      chp_updated_at = word_of_int (qp_updatedAt p)\<rparr>"

definition abs_sensitive :: "SensitiveChangeAuditQt \<Rightarrow> SensitiveChangeAudit" where
  "abs_sensitive a =
     \<lparr>sc_at_unix = word_of_int (sa_atUnix a), sc_profile_id = sa_profileId a,
      sc_domain = sa_domain a, sc_actor = sa_actor a, sc_value_redacted = sa_valueRedacted a\<rparr>"

definition profile_rel :: "ProfileStoreQt \<Rightarrow> ProfileStore \<Rightarrow> bool" where
  "profile_rel s t \<longleftrightarrow>
     ps_profiles t = keyed qp_id abs_char_profile (pq_profiles s)
     \<and> distinct (map qp_id (pq_profiles s))
     \<and> ps_audit t = map abs_sensitive (pq_audit s)"

datatype ProfileOpQt = UpsertQt CharacterProfileQt Actor int | RemoveProfileQt string

fun profileqt_step :: "ProfileOpQt \<Rightarrow> ProfileStoreQt \<Rightarrow> ProfileStoreQt" where
  "profileqt_step (UpsertQt p a now) s = snd (ProfileStoreQt_upsert p a now s)"
| "profileqt_step (RemoveProfileQt i) s = snd (ProfileStoreQt_remove i s)"

fun abs_profile_op :: "ProfileOpQt \<Rightarrow> ProfileOp" where
  "abs_profile_op (UpsertQt p a now) = Upsert (abs_char_profile p) a (word_of_int now)"
| "abs_profile_op (RemoveProfileQt i) = RemoveProfile i"

lemma get_abs_defaults:
  "ProfileDefaults_get (abs_defaults d) k = opt_text (ProfileDefaultsQt_get d k)"
  by (cases k) (simp_all add: abs_defaults_def)

lemma domainIsSensitive_eq: "domainIsSensitive d = DefaultDomain_is_sensitive d"
  by (simp add: domainIsSensitive_def sensitive_iff)

lemma redact_opt_text: "redact_value (opt_text v) = (if v = [] then [] else ''redacted:'')"
  by (simp add: redact_value_def opt_text_def)

lemma check_domainsQt_abs:
  "snd (check_domains ds (abs_defaults old) (abs_defaults new) pid actor (word_of_int now)
      (map abs_sensitive log)) = map abs_sensitive (snd (check_domainsQt ds old new pid actor now log))
   \<and> (fst (check_domains ds (abs_defaults old) (abs_defaults new) pid actor (word_of_int now)
            (map abs_sensitive log)) = None)
     = (fst (check_domainsQt ds old new pid actor now log) = None)"
proof (induction ds arbitrary: log)
  case (Cons d ds)
  let ?rec = "\<lparr>sa_atUnix = now, sa_profileId = pid, sa_domain = d, sa_actor = actor,
      sa_valueRedacted = (if ProfileDefaultsQt_get new d = [] then [] else ''redacted:'')\<rparr>"
  show ?case using Cons.IH [of log] Cons.IH [of "log @ [?rec]"]
    by (cases actor; cases "ProfileDefaultsQt_get new d = []"; cases "DefaultDomain_is_sensitive d")
       (simp_all add: get_abs_defaults domainIsSensitive_eq redact_opt_text abs_sensitive_def Let_def)
qed simp

lemma replace_first_keyed:
  "find (\<lambda>q. qp_id q = i) qs \<noteq> None \<Longrightarrow> qp_id p = i \<Longrightarrow>
    keyed qp_id abs_char_profile (replace_first i p qs)
      = AList.update i (abs_char_profile p) (keyed qp_id abs_char_profile qs)
    \<and> map qp_id (replace_first i p qs) = map qp_id qs"
  by (induction qs) auto

lemma abs_updated:
  "(abs_char_profile p)\<lparr>chp_updated_at := word_of_int now\<rparr> = abs_char_profile (p\<lparr>qp_updatedAt := now\<rparr>)"
  by (simp add: abs_char_profile_def)

lemma abs_char_id [simp]:
  "chp_id (abs_char_profile p) = qp_id p"
  "chp_defaults (abs_char_profile p) = abs_defaults (qp_defaults p)"
  by (simp_all add: abs_char_profile_def)

lemma profile_rel_upsert:
  assumes rel: "profile_rel s t"
  shows "profile_rel (snd (ProfileStoreQt_upsert p a now s))
    (snd (ProfileStore_upsert (abs_char_profile p) a (word_of_int now) t))"
proof (cases "find (\<lambda>q. qp_id q = qp_id p) (pq_profiles s)")
  case None
  then have m: "map_of (ps_profiles t) (qp_id p) = None"
    using rel by (simp add: profile_rel_def map_of_keyed)
  have fresh: "qp_id p \<notin> set (map qp_id (pq_profiles s))" using None by (rule find_key_None [THEN iffD1])
  show ?thesis using rel None m fresh update_fresh [OF m]
    by (auto simp: ProfileStoreQt_upsert_def ProfileStore_upsert_def ProfileStoreQt_find_def
        profile_rel_def abs_updated Let_def)
next
  case (Some q)
  then have m: "map_of (ps_profiles t) (qp_id p) = Some (abs_char_profile q)"
    using rel by (simp add: profile_rel_def map_of_keyed)
  have all: "DefaultDomain_all = kAllDomains" by (simp add: DefaultDomain_all_def kAllDomains_def)
  have ne: "find (\<lambda>q. qp_id q = qp_id p) (pq_profiles s) \<noteq> None" using Some by simp
  note up = replace_first_keyed [OF ne, of "p\<lparr>qp_updatedAt := now\<rparr>"]
  obtain e l where c: "check_domainsQt kAllDomains (qp_defaults q) (qp_defaults p) (qp_id p) a now
      (pq_audit s) = (e, l)" by fastforce
  obtain f k where d: "check_domains kAllDomains (abs_defaults (qp_defaults q))
      (abs_defaults (qp_defaults p)) (qp_id p) a (word_of_int now) (map abs_sensitive (pq_audit s)) = (f, k)"
    by fastforce
  have "k = map abs_sensitive l" "(f = None) = (e = None)"
    using c d check_domainsQt_abs
      [of kAllDomains "qp_defaults q" "qp_defaults p" "qp_id p" a now "pq_audit s"] by simp_all
  then show ?thesis using rel Some m up c d
    by (cases e; cases f) (auto simp: ProfileStoreQt_upsert_def ProfileStore_upsert_def ProfileStoreQt_find_def
        profile_rel_def abs_updated all Let_def)
qed

lemma profile_rel_remove:
  assumes rel: "profile_rel s t"
  shows "profile_rel (snd (ProfileStoreQt_remove i s)) (snd (ProfileStore_remove i t))"
proof (cases "remove_first (\<lambda>p. qp_id p = i) (pq_profiles s)")
  case None
  then have "find (\<lambda>p. qp_id p = i) (pq_profiles s) = None"
    by (simp add: remove_first_None find_key_None)
  then have "map_of (ps_profiles t) i = None" using rel by (simp add: profile_rel_def map_of_keyed)
  then show ?thesis using rel None by (simp add: ProfileStoreQt_remove_def ProfileStore_remove_def)
next
  case (Some ys)
  then have "remove_first (\<lambda>p. qp_id p = i) (pq_profiles s) \<noteq> None" by simp
  then have "i \<in> set (map qp_id (pq_profiles s))" by (simp only: remove_first_None not_not)
  then have pres: "map_of (ps_profiles t) i \<noteq> None"
    using rel find_key_None [of qp_id i "pq_profiles s"] by (auto simp: profile_rel_def map_of_keyed)
  have d: "distinct (map qp_id (pq_profiles s))" using rel by (simp add: profile_rel_def)
  show ?thesis using rel Some pres remove_first_Some [OF Some d, of abs_char_profile]
    by (auto simp: ProfileStoreQt_remove_def ProfileStore_remove_def profile_rel_def)
qed

interpretation profile_mirror: simulation profileqt_step profile_step abs_profile_op profile_rel
    "\<lambda>_. True"
proof
  fix s t x
  assume "profile_rel s t"
  then show "profile_rel (profileqt_step x s) (profile_step (abs_profile_op x) t)"
    by (cases x) (simp_all add: profile_rel_upsert profile_rel_remove)
qed

lemma run_profile_rel:
  "profile_rel (run profileqt_step ops ProfileStoreQt_new)
     (run profile_step (map abs_profile_op ops) ProfileStore_new)"
  by (rule profile_mirror.sim_run)
     (simp_all add: profile_rel_def ProfileStoreQt_new_def ProfileStore_new_def list_all_iff)

section \<open>Properties\<close>

text \<open>
  The Qt profile store refines the Rust store. After any sequence of upserts and removals by
  any actors, the two stores hold corresponding profiles under the same ids and the same audit
  log of sensitive changes.
\<close>

theorem profile_stores_agree:
  "(\<lambda>i. map_option abs_char_profile
       (ProfileStoreQt_get i (run profileqt_step ops ProfileStoreQt_new)))
     = ProfileStore_get (run profile_step (map abs_profile_op ops) ProfileStore_new)
   \<and> map abs_sensitive (pq_audit (run profileqt_step ops ProfileStoreQt_new))
     = ps_audit (run profile_step (map abs_profile_op ops) ProfileStore_new)"
  using run_profile_rel [of ops]
  by (simp add: profile_rel_def ProfileStoreQt_get_def ProfileStoreQt_find_def ProfileStore_get_def
      map_of_keyed fun_eq_iff)

text \<open>
  A profile survives its JSON form: reading back what \<open>toJson\<close> writes gives the same profile,
  for a profile of the current schema with an id and a name and times within 64 bits.
\<close>

theorem profile_json_roundtrip:
  assumes "qp_id p \<noteq> []" "qp_name p \<noteq> []" "qp_schemaVersion p = 1"
    and "0 \<le> qp_createdAt p" "qp_createdAt p < 2 ^ 63"
    and "0 \<le> qp_updatedAt p" "qp_updatedAt p < 2 ^ 63"
  shows "CharacterProfileQt_fromJson (CharacterProfileQt_toJson p) = Inr p"
proof (cases p)
  case (fields i n v d c u)
  show ?thesis
  proof (cases d)
    case (fields w m r a vo re so au sl cd)
    show ?thesis using assms \<open>p = _\<close> \<open>d = _\<close>
      by (simp add: CharacterProfileQt_fromJson_def CharacterProfileQt_toJson_def j_value_def Let_def)
  qed
qed

definition demo_profileqt :: CharacterProfileQt where
  "demo_profileqt =
     CharacterProfileQt_default\<lparr>qp_id := ''c1'', qp_name := ''Kael'', qp_createdAt := 5,
       qp_updatedAt := 7\<rparr>"

theorem profile_json_roundtrip_witness:
  "CharacterProfileQt_fromJson (CharacterProfileQt_toJson demo_profileqt) = Inr demo_profileqt"
  by (rule profile_json_roundtrip) (simp_all add: demo_profileqt_def CharacterProfileQt_default_def)

end
