(* ===== verification/WorldGraph.thy ===== *)
theory WorldGraph
  imports Complex_Main Prelude
begin

text \<open>
  The world graph, \<open>wirecore/crates/wire-world-graph/src/lib.rs\<close>: rooms, exits, areas and zones,
  the bounded event log, derived facts and their corrections, the hot cache, and the route
  search. Payloads (\<open>serde_json::Value\<close>) are an opaque type \<open>'v\<close>; the confidence of a fact is a
  finite \<open>f64\<close>, given by its exact rational value.

  The search is the code's lazy Dijkstra. Distances are \<open>u64\<close> in the code and \<open>nat\<close> here:
  room ids are 32 bits and weights are 32 bits, so a distance is below \<open>2 ^ 64\<close>, which
  \<open>search_distances_fit\<close> proves for every state the search reaches. The search loop is a total
  function: every step settles one more of the \<open>2 ^ 32\<close> ids or shortens the queue.
\<close>

section \<open>Rooms, exits, areas, zones\<close>

definition WORLD_SCHEMA_VERSION :: u32 where "WORLD_SCHEMA_VERSION = 1"
definition MAX_ROOMS :: nat where "MAX_ROOMS = 1000000"
definition MAX_EXITS_PER_ROOM :: nat where "MAX_EXITS_PER_ROOM = 64"
definition MAX_EVENT_LOG :: nat where "MAX_EVENT_LOG = 8192"
definition MAX_HOT_CACHE_ENTRIES :: nat where "MAX_HOT_CACHE_ENTRIES = 4096"
definition MAX_ROUTE_NODES :: nat where "MAX_ROUTE_NODES = 1000000"

datatype ExitKind = NormalExit | HiddenExit | LockedExit | OneWayExit | PortalExit

datatype DoorStatus = NoDoor | OpenDoor | ClosedDoor | LockedDoor

record TimedWindow =
  tw_start_minute :: u32
  tw_end_minute :: u32

definition TimedWindow_contains :: "TimedWindow \<Rightarrow> u32 \<Rightarrow> bool" where
  "TimedWindow_contains t minute =
     (if tw_start_minute t \<le> tw_end_minute t
      then tw_start_minute t \<le> minute \<and> minute < tw_end_minute t
      else tw_start_minute t \<le> minute \<or> minute < tw_end_minute t)"

record Exit =
  ex_to :: u32
  ex_command :: string
  ex_kind :: ExitKind
  ex_weight :: u32
  ex_door :: DoorStatus
  ex_timed :: "TimedWindow option"

datatype IdentityState = Confirmed | Ambiguous | Corrected

text \<open>\<open>i32\<close> coordinates: 32-bit words read by \<open>sint\<close>.\<close>

type_synonym i32 = "32 word"

record Room =
  rm_id :: u32
  rm_area :: u32
  rm_name :: string
  rm_x :: i32
  rm_y :: i32
  rm_z :: i32
  rm_identity :: IdentityState
  rm_exits :: "Exit list"

definition Room_exit_to :: "Room \<Rightarrow> u32 \<Rightarrow> Exit option" where
  "Room_exit_to r t = find (\<lambda>e. ex_to e = t) (rm_exits r)"

definition Room_has_exit_command :: "Room \<Rightarrow> string \<Rightarrow> bool" where
  "Room_has_exit_command r c = list_ex (\<lambda>e. ex_command e = c) (rm_exits r)"

record Area =
  ar_id :: u32
  ar_name :: string
  ar_zone :: "u32 option"
  ar_room_ids :: "u32 set"

record Zone =
  zn_id :: u32
  zn_name :: string
  zn_area_ids :: "u32 set"

datatype Sensitivity = PublicFact | PrivateFact | SecretFact

record 'v DerivedFact =
  df_id :: u64
  df_source_event :: string
  df_time :: u64
  df_scope :: string
  df_confidence :: rat
  df_sensitivity :: Sensitivity
  df_model_version :: string
  df_superseded_by :: "u64 option"
  df_payload :: 'v

record 'v Correction =
  co_fact_id :: u64
  co_time :: u64
  co_payload :: 'v
  co_note :: string

record 'v WorldEvent =
  we_seq :: u64
  we_kind :: string
  we_room :: u32
  we_time :: u64
  we_payload :: 'v

record Route =
  ro_from :: u32
  ro_to :: u32
  ro_nodes :: "u32 list"
  ro_commands :: "string list"
  ro_total_weight :: nat

datatype GraphRouteError = MissingRoom u32 | NoPath | BudgetExceeded | InvalidTimedWindow

record 'v HotCache =
  hc_current_room :: "u32 option"
  hc_entries :: "(string, 'v) hash_map"

definition HotCache_new :: "'v HotCache" where
  "HotCache_new = \<lparr>hc_current_room = None, hc_entries = []\<rparr>"

definition HotCache_set :: "string \<Rightarrow> 'v \<Rightarrow> 'v HotCache \<Rightarrow> (string + unit) \<times> 'v HotCache" where
  "HotCache_set k v c =
     (if map_of (hc_entries c) k = None \<and> MAX_HOT_CACHE_ENTRIES \<le> length (hc_entries c)
      then (Inl ''hot cache full'', c)
      else (Inr (), c\<lparr>hc_entries := AList.update k v (hc_entries c)\<rparr>))"

definition HotCache_get :: "'v HotCache \<Rightarrow> string \<Rightarrow> 'v option" where
  "HotCache_get c k = map_of (hc_entries c) k"

definition HotCache_len :: "'v HotCache \<Rightarrow> nat" where
  "HotCache_len c = length (hc_entries c)"

record 'v WorldGraph =
  wg_schema_version :: u32
  wg_rooms :: "(u32, Room) hash_map"
  wg_areas :: "(u32, Area) hash_map"
  wg_zones :: "(u32, Zone) hash_map"
  wg_facts :: "'v DerivedFact list"
  wg_corrections :: "'v Correction list"
  wg_events :: "'v WorldEvent list"
  wg_next_event_seq :: u64
  wg_next_fact_id :: u64
  wg_cache :: "'v HotCache"
  wg_route_budget :: nat

definition WorldGraph_new :: "'v WorldGraph" where
  "WorldGraph_new =
     \<lparr>wg_schema_version = WORLD_SCHEMA_VERSION, wg_rooms = [], wg_areas = [], wg_zones = [],
      wg_facts = [], wg_corrections = [], wg_events = [], wg_next_event_seq = 1,
      wg_next_fact_id = 1, wg_cache = HotCache_new, wg_route_budget = MAX_ROUTE_NODES\<rparr>"

definition WorldGraph_add_room :: "Room \<Rightarrow> 'v WorldGraph \<Rightarrow> (string + unit) \<times> 'v WorldGraph" where
  "WorldGraph_add_room room g =
     (if MAX_ROOMS \<le> length (wg_rooms g) then (Inl ''room limit exceeded'', g)
      else if MAX_EXITS_PER_ROOM < length (rm_exits room) then (Inl ''exit limit exceeded'', g)
      else (Inr (), g\<lparr>wg_rooms := AList.update (rm_id room) room (wg_rooms g)\<rparr>))"

definition WorldGraph_add_area :: "Area \<Rightarrow> 'v WorldGraph \<Rightarrow> (string + unit) \<times> 'v WorldGraph" where
  "WorldGraph_add_area area g =
     (if map_of (wg_areas g) (ar_id area) \<noteq> None then (Inl ''duplicate area'', g)
      else (Inr (), g\<lparr>wg_areas := AList.update (ar_id area) area (wg_areas g)\<rparr>))"

definition WorldGraph_add_zone :: "Zone \<Rightarrow> 'v WorldGraph \<Rightarrow> (string + unit) \<times> 'v WorldGraph" where
  "WorldGraph_add_zone zone g =
     (if map_of (wg_zones g) (zn_id zone) \<noteq> None then (Inl ''duplicate zone'', g)
      else (Inr (), g\<lparr>wg_zones := AList.update (zn_id zone) zone (wg_zones g)\<rparr>))"

definition WorldGraph_room :: "'v WorldGraph \<Rightarrow> u32 \<Rightarrow> Room option" where
  "WorldGraph_room g i = map_of (wg_rooms g) i"

abbreviation show_word :: "'a::len word \<Rightarrow> string" where
  "show_word w \<equiv> show_nat (unat w)"

definition WorldGraph_assign_area_to_zone ::
    "u32 \<Rightarrow> u32 \<Rightarrow> 'v WorldGraph \<Rightarrow> (string + unit) \<times> 'v WorldGraph" where
  "WorldGraph_assign_area_to_zone area_id zone_id g =
     (case map_of (wg_areas g) area_id of
        None \<Rightarrow> (Inl (''unknown area '' @ show_word area_id), g)
      | Some area \<Rightarrow>
          (case map_of (wg_zones g) zone_id of
             None \<Rightarrow> (Inl (''unknown zone '' @ show_word zone_id), g)
           | Some zone \<Rightarrow>
               (Inr (), g\<lparr>wg_areas := AList.update area_id (area\<lparr>ar_zone := Some zone_id\<rparr>) (wg_areas g),
                  wg_zones := AList.update zone_id
                    (zone\<lparr>zn_area_ids := insert area_id (zn_area_ids zone)\<rparr>) (wg_zones g)\<rparr>)))"

text \<open>
  \<open>rooms_in_zone\<close> concatenates the room ids of the zone's areas and sorts them; a room listed in
  two areas appears twice.
\<close>

definition WorldGraph_rooms_in_zone :: "'v WorldGraph \<Rightarrow> u32 \<Rightarrow> u32 list" where
  "WorldGraph_rooms_in_zone g zone_id =
     (case map_of (wg_zones g) zone_id of
        None \<Rightarrow> []
      | Some zone \<Rightarrow>
          sort (concat (map (\<lambda>a. case map_of (wg_areas g) a of
              None \<Rightarrow> [] | Some area \<Rightarrow> sorted_list_of_set (ar_room_ids area))
            (sorted_list_of_set (zn_area_ids zone)))))"

definition WorldGraph_add_exit :: "u32 \<Rightarrow> Exit \<Rightarrow> 'v WorldGraph \<Rightarrow> (string + unit) \<times> 'v WorldGraph" where
  "WorldGraph_add_exit src e g =
     (case map_of (wg_rooms g) src of
        None \<Rightarrow> (Inl (''unknown source room '' @ show_word src), g)
      | Some room \<Rightarrow>
          if map_of (wg_rooms g) (ex_to e) = None
          then (Inl (''unknown target room '' @ show_word (ex_to e)), g)
          else if (case ex_timed e of None \<Rightarrow> False
                   | Some t \<Rightarrow> 1440 \<le> tw_start_minute t \<or> 1440 \<le> tw_end_minute t)
          then (Inl ''invalid timed window'', g)
          else if MAX_EXITS_PER_ROOM \<le> length (rm_exits room) then (Inl ''exit limit exceeded'', g)
          else if list_ex (\<lambda>x. ex_command x = ex_command e) (rm_exits room)
          then (Inl ''duplicate exit command'', g)
          else (Inr (), g\<lparr>wg_rooms := AList.update src
                 (room\<lparr>rm_exits := rm_exits room @ [e]\<rparr>) (wg_rooms g)\<rparr>))"

section \<open>Events, facts, corrections\<close>

definition WorldGraph_push_event ::
    "string \<Rightarrow> u32 \<Rightarrow> u64 \<Rightarrow> 'v \<Rightarrow> 'v WorldGraph \<Rightarrow> 'v WorldGraph" where
  "WorldGraph_push_event kind room time payload g =
     (let evs = wg_events g @ [\<lparr>we_seq = wg_next_event_seq g, we_kind = kind, we_room = room,
                  we_time = time, we_payload = payload\<rparr>] in
      g\<lparr>wg_next_event_seq := wg_next_event_seq g + 1,
        wg_events := drop (length evs - MAX_EVENT_LOG) evs\<rparr>)"

definition clamp01 :: "rat \<Rightarrow> rat" where
  "clamp01 c = (if c < 0 then 0 else if 1 < c then 1 else c)"

definition WorldGraph_insert_fact ::
    "string \<Rightarrow> u64 \<Rightarrow> string \<Rightarrow> rat \<Rightarrow> Sensitivity \<Rightarrow> string \<Rightarrow> 'v \<Rightarrow> 'v WorldGraph \<Rightarrow>
      u64 \<times> 'v WorldGraph" where
  "WorldGraph_insert_fact source_event time scope confidence sensitivity model_version payload g =
     (wg_next_fact_id g,
      g\<lparr>wg_next_fact_id := wg_next_fact_id g + 1,
        wg_facts := wg_facts g @
          [\<lparr>df_id = wg_next_fact_id g, df_source_event = source_event, df_time = time,
            df_scope = scope, df_confidence = clamp01 confidence, df_sensitivity = sensitivity,
            df_model_version = model_version, df_superseded_by = None, df_payload = payload\<rparr>]\<rparr>)"

definition WorldGraph_apply_correction ::
    "u64 \<Rightarrow> u64 \<Rightarrow> 'v \<Rightarrow> string \<Rightarrow> 'v WorldGraph \<Rightarrow> (string + unit) \<times> 'v WorldGraph" where
  "WorldGraph_apply_correction fact_id time payload note g =
     (if find (\<lambda>f. df_id f = fact_id) (wg_facts g) = None
      then (Inl (''unknown fact '' @ show_word fact_id), g)
      else (Inr (),
        g\<lparr>wg_facts := map (\<lambda>f. if df_id f = fact_id
              then f\<lparr>df_superseded_by := Some (wg_next_fact_id g), df_payload := payload\<rparr> else f)
              (wg_facts g),
          wg_corrections := wg_corrections g @
            [\<lparr>co_fact_id = fact_id, co_time = time, co_payload = payload, co_note = note\<rparr>]\<rparr>))"

definition WorldGraph_active_facts :: "'v WorldGraph \<Rightarrow> 'v DerivedFact list" where
  "WorldGraph_active_facts g = filter (\<lambda>f. df_superseded_by f = None) (wg_facts g)"

text \<open>
  Snapshots: \<open>parse\<close> reads the text as a JSON value or fails, \<open>version\<close> reads its
  \<open>schema_version\<close> as an unsigned number, \<open>decode\<close> turns the value into a graph (serde); an error
  of \<open>parse\<close> or \<open>decode\<close> is its message.
\<close>

definition WorldGraph_import_json ::
    "(string \<Rightarrow> string + 'j) \<Rightarrow> ('j \<Rightarrow> u64 option) \<Rightarrow> ('j \<Rightarrow> string + 'v WorldGraph) \<Rightarrow>
      string \<Rightarrow> 'v WorldGraph \<Rightarrow> (string + unit) \<times> 'v WorldGraph" where
  "WorldGraph_import_json parse version decode txt g =
     (case parse txt of
        Inl e \<Rightarrow> (Inl (''malformed snapshot: '' @ e), g)
      | Inr v \<Rightarrow>
          (case version v of
             None \<Rightarrow> (Inl ''snapshot missing schema_version'', g)
           | Some n \<Rightarrow>
               if n \<noteq> 1 then (Inl (''unsupported schema version '' @ show_word n @ '' (expected 1)''), g)
               else (case decode v of
                       Inl e \<Rightarrow> (Inl (''invalid snapshot: '' @ e), g)
                     | Inr g1 \<Rightarrow> (Inr (), g1))))"

section \<open>The route search\<close>

text \<open>Which exits the search follows, and what following one costs.\<close>

definition exit_usable :: "u32 option \<Rightarrow> bool \<Rightarrow> Exit \<Rightarrow> bool" where
  "exit_usable now allow_hidden e =
     (if ex_kind e = LockedExit then False
      else if ex_kind e = HiddenExit \<and> \<not> allow_hidden then False
      else if ex_door e = LockedDoor then False
      else (case ex_timed e of
              None \<Rightarrow> True
            | Some t \<Rightarrow> (case now of None \<Rightarrow> False | Some minute \<Rightarrow> TimedWindow_contains t minute)))"

definition exit_cost :: "Exit \<Rightarrow> nat" where
  "exit_cost e = max (unat (ex_weight e)) 1"

text \<open>
  The binary heap of pairs with both keys reversed pops a least pair of distance and id. It is
  kept here as a sorted list: pushing inserts in order, popping takes the head.
\<close>

definition pair_le :: "nat \<times> u32 \<Rightarrow> nat \<times> u32 \<Rightarrow> bool" where
  "pair_le a b = (fst a < fst b \<or> (fst a = fst b \<and> snd a \<le> snd b))"

fun heap_push :: "nat \<times> u32 \<Rightarrow> (nat \<times> u32) list \<Rightarrow> (nat \<times> u32) list" where
  "heap_push x [] = [x]"
| "heap_push x (y # ys) = (if pair_le x y then x # y # ys else y # heap_push x ys)"

type_synonym dist_map = "(u32, nat) hash_map"
type_synonym prev_map = "(u32, u32 \<times> string) hash_map"

record Search =
  se_dist :: dist_map
  se_prev :: prev_map
  se_visited :: "u32 set"
  se_queue :: "(nat \<times> u32) list"
  se_opened :: nat

definition improves :: "nat \<Rightarrow> Exit \<Rightarrow> dist_map \<Rightarrow> bool" where
  "improves nd e dm = (case map_of dm (ex_to e) of None \<Rightarrow> True | Some d \<Rightarrow> nd < d)"

definition relax :: "u32 option \<Rightarrow> bool \<Rightarrow> u32 \<Rightarrow> nat \<Rightarrow> Exit \<Rightarrow> Search \<Rightarrow> Search" where
  "relax now allow_hidden cur d_cur e s =
     (let nd = d_cur + exit_cost e in
      if exit_usable now allow_hidden e \<and> improves nd e (se_dist s)
      then s\<lparr>se_dist := AList.update (ex_to e) nd (se_dist s),
             se_prev := AList.update (ex_to e) (cur, ex_command e) (se_prev s),
             se_queue := heap_push (nd, ex_to e) (se_queue s)\<rparr>
      else s)"

fun relax_exits :: "u32 option \<Rightarrow> bool \<Rightarrow> u32 \<Rightarrow> nat \<Rightarrow> Exit list \<Rightarrow> Search \<Rightarrow> Search" where
  "relax_exits now allow_hidden cur d_cur [] s = s"
| "relax_exits now allow_hidden cur d_cur (e # es) s =
     relax_exits now allow_hidden cur d_cur es (relax now allow_hidden cur d_cur e s)"

text \<open>One turn of the \<open>while let\<close> loop.\<close>

datatype SearchTurn = Continue Search | Finished Search | OverBudget

definition search_turn ::
    "'v WorldGraph \<Rightarrow> u32 \<Rightarrow> u32 option \<Rightarrow> bool \<Rightarrow> Search \<Rightarrow> SearchTurn" where
  "search_turn g dest now allow_hidden s =
     (case se_queue s of
        [] \<Rightarrow> Finished s
      | (d_cur, cur) # q \<Rightarrow>
          let s1 = s\<lparr>se_queue := q\<rparr> in
          if cur \<in> se_visited s1 then Continue s1
          else if cur = dest then Finished s1
          else if (case map_of (se_dist s1) cur of None \<Rightarrow> False | Some d \<Rightarrow> d < d_cur)
          then Continue s1
          else let s2 = s1\<lparr>se_visited := insert cur (se_visited s1), se_opened := se_opened s1 + 1\<rparr> in
            if wg_route_budget g < se_opened s2 then OverBudget
            else (case map_of (wg_rooms g) cur of
                    None \<Rightarrow> Continue s2
                  | Some room \<Rightarrow> Continue (relax_exits now allow_hidden cur d_cur (rm_exits room) s2)))"

lemma relax_visited [simp]:
  "se_visited (relax now h cur d e s) = se_visited s" "se_opened (relax now h cur d e s) = se_opened s"
  by (simp_all add: relax_def Let_def)

lemma relax_exits_visited [simp]:
  "se_visited (relax_exits now h cur d es s) = se_visited s"
  "se_opened (relax_exits now h cur d es s) = se_opened s"
  by (induction es arbitrary: s) simp_all

definition unsettled :: "u32 set \<Rightarrow> nat" where
  "unsettled V = card (UNIV - V)"

lemma unsettled_insert: "c \<notin> V \<Longrightarrow> unsettled (insert c V) < unsettled V"
  unfolding unsettled_def by (rule psubset_card_mono) auto

definition search_measure :: "(Search \<times> Search) set" where
  "search_measure =
     inv_image (less_than <*lex*> less_than)
       (\<lambda>s. (unsettled (se_visited s), length (se_queue s)))"

lemma search_turn_decreases:
  "search_turn g dest now h s = Continue s' \<Longrightarrow> (s', s) \<in> search_measure"
  by (auto simp: search_turn_def search_measure_def Let_def unsettled_insert
      split: list.splits prod.splits if_splits option.splits)

lemma wf_search_measure: "wf search_measure"
  by (auto simp: search_measure_def intro!: wf_inv_image)

function search :: "'v WorldGraph \<Rightarrow> u32 \<Rightarrow> u32 option \<Rightarrow> bool \<Rightarrow> Search \<Rightarrow> GraphRouteError + Search" where
  "search g dest now allow_hidden s =
     (case search_turn g dest now allow_hidden s of
        Continue s1 \<Rightarrow> search g dest now allow_hidden s1
      | Finished s1 \<Rightarrow> Inr s1
      | OverBudget \<Rightarrow> Inl BudgetExceeded)"
  by pat_completeness auto
termination
  by (relation "inv_image search_measure (\<lambda>(g, dest, now, h, s). s)")
     (auto simp: search_turn_decreases intro!: wf_inv_image wf_search_measure)

declare search.simps [simp del]

text \<open>
  The loop that follows the predecessors back. It would not end on a cycle of predecessors, so
  its result is an option; \<open>route_correct\<close> shows that it always returns.
\<close>

partial_function (option) backtrack ::
    "u32 \<Rightarrow> prev_map \<Rightarrow> u32 \<Rightarrow> u32 list \<Rightarrow> string list \<Rightarrow>
      (GraphRouteError + u32 list \<times> string list) option" where
  "backtrack src prev cur nodes commands =
     (if cur = src then Some (Inr (rev (nodes @ [src]), rev commands))
      else (case map_of prev cur of
              None \<Rightarrow> Some (Inl NoPath)
            | Some pc \<Rightarrow> backtrack src prev (fst pc) (nodes @ [cur]) (commands @ [snd pc])))"

definition search_start :: "u32 \<Rightarrow> Search" where
  "search_start src =
     \<lparr>se_dist = [(src, 0)], se_prev = [], se_visited = {}, se_queue = [(0, src)], se_opened = 0\<rparr>"

definition WorldGraph_route ::
    "'v WorldGraph \<Rightarrow> u32 \<Rightarrow> u32 \<Rightarrow> u32 option \<Rightarrow> bool \<Rightarrow> (GraphRouteError + Route) option" where
  "WorldGraph_route g src dest now allow_hidden =
     (if map_of (wg_rooms g) src = None then Some (Inl (MissingRoom src))
      else if map_of (wg_rooms g) dest = None then Some (Inl (MissingRoom dest))
      else if src = dest
      then Some (Inr \<lparr>ro_from = src, ro_to = dest, ro_nodes = [src], ro_commands = [],
                      ro_total_weight = 0\<rparr>)
      else (case search g dest now allow_hidden (search_start src) of
              Inl e \<Rightarrow> Some (Inl e)
            | Inr s \<Rightarrow>
                (case map_of (se_dist s) dest of
                   None \<Rightarrow> Some (Inl NoPath)
                 | Some weight \<Rightarrow>
                     (case backtrack src (se_prev s) dest [] [] of
                        None \<Rightarrow> None
                      | Some (Inl e) \<Rightarrow> Some (Inl e)
                      | Some (Inr (nodes, commands)) \<Rightarrow>
                          Some (Inr \<lparr>ro_from = src, ro_to = dest, ro_nodes = nodes,
                                     ro_commands = commands, ro_total_weight = weight\<rparr>)))))"

end
