(* ===== verification/WorldStore.thy ===== *)
theory WorldStore
  imports WorldGraph
begin

text \<open>
  The world graph as a machine: its mutating operations, the bounds and the shape they keep, the
  event log, and what a correction does to a fact.
\<close>

section \<open>Operations\<close>

datatype 'v GraphOp =
  AddRoom Room | AddArea Area | AddZone Zone | AssignArea u32 u32 | AddExit u32 Exit
  | PushEvent string u32 u64 'v
  | InsertFact string u64 string rat Sensitivity string 'v
  | ApplyCorrection u64 u64 'v string

fun graph_step :: "'v GraphOp \<Rightarrow> 'v WorldGraph \<Rightarrow> 'v WorldGraph" where
  "graph_step (AddRoom r) g = snd (WorldGraph_add_room r g)"
| "graph_step (AddArea a) g = snd (WorldGraph_add_area a g)"
| "graph_step (AddZone z) g = snd (WorldGraph_add_zone z g)"
| "graph_step (AssignArea a z) g = snd (WorldGraph_assign_area_to_zone a z g)"
| "graph_step (AddExit i e) g = snd (WorldGraph_add_exit i e g)"
| "graph_step (PushEvent k r t p) g = WorldGraph_push_event k r t p g"
| "graph_step (InsertFact ev t sc c se m p) g = snd (WorldGraph_insert_fact ev t sc c se m p g)"
| "graph_step (ApplyCorrection i t p n) g = snd (WorldGraph_apply_correction i t p n g)"

lemmas graph_ops = WorldGraph_add_room_def WorldGraph_add_area_def WorldGraph_add_zone_def
  WorldGraph_assign_area_to_zone_def WorldGraph_add_exit_def WorldGraph_push_event_def
  WorldGraph_insert_fact_def WorldGraph_apply_correction_def

section \<open>Rooms\<close>

definition rooms_inv :: "(u32, Room) hash_map \<Rightarrow> bool" where
  "rooms_inv rs \<longleftrightarrow> length rs \<le> MAX_ROOMS \<and> distinct (map fst rs)
     \<and> list_all (\<lambda>(i, r). rm_id r = i \<and> length (rm_exits r) \<le> MAX_EXITS_PER_ROOM) rs"

lemma length_update_le: "length (AList.update k v m) \<le> length m + 1"
  by (induction m) auto

lemma rooms_inv_update:
  assumes "rooms_inv rs" "rm_id r = i" "length (rm_exits r) \<le> MAX_EXITS_PER_ROOM"
    and "length rs < MAX_ROOMS \<or> map_of rs i \<noteq> None"
  shows "rooms_inv (AList.update i r rs)"
proof -
  have "length (AList.update i r rs) \<le> MAX_ROOMS" using assms(4)
  proof
    assume "length rs < MAX_ROOMS"
    then show ?thesis using length_update_le [of i r rs] by simp
  next
    assume "map_of rs i \<noteq> None"
    then have "length (AList.update i r rs) = length rs" by (rule length_update_present)
    then show ?thesis using assms(1) by (simp add: rooms_inv_def)
  qed
  then show ?thesis using assms by (simp add: rooms_inv_def distinct_update list_all_update)
qed

lemma rooms_inv_lookup:
  "rooms_inv rs \<Longrightarrow> map_of rs i = Some r \<Longrightarrow> rm_id r = i \<and> length (rm_exits r) \<le> MAX_EXITS_PER_ROOM"
  by (auto simp: rooms_inv_def list_all_iff dest!: map_of_SomeD)

lemma graph_step_rooms: "rooms_inv (wg_rooms g) \<Longrightarrow> rooms_inv (wg_rooms (graph_step x g))"
proof (cases x)
  case (AddRoom r)
  assume "rooms_inv (wg_rooms g)"
  then show ?thesis unfolding AddRoom
    by (auto simp: WorldGraph_add_room_def intro: rooms_inv_update)
next
  case (AddExit i e)
  assume inv: "rooms_inv (wg_rooms g)"
  show ?thesis
  proof (cases "map_of (wg_rooms g) i")
    case (Some r)
    then show ?thesis using inv rooms_inv_lookup [OF inv Some] unfolding AddExit
      by (auto simp: WorldGraph_add_exit_def Let_def intro!: rooms_inv_update)
  qed (use inv in \<open>simp add: AddExit WorldGraph_add_exit_def\<close>)
qed (auto simp: graph_ops Let_def split: option.split)

section \<open>The event log\<close>

text \<open>The log holds the last events with consecutive sequence numbers, ending just below the next one.\<close>

definition events_inv :: "'v WorldGraph \<Rightarrow> bool" where
  "events_inv g \<longleftrightarrow> length (wg_events g) \<le> MAX_EVENT_LOG
     \<and> map we_seq (wg_events g)
       = map (\<lambda>i. wg_next_event_seq g - of_nat (length (wg_events g) - i)) [0..<length (wg_events g)]"

lemma consecutive_snoc:
  fixes n :: u64
  assumes "map f es = map (\<lambda>i. n - of_nat (length es - i)) [0..<length es]" "f e = n"
  shows "map f (es @ [e]) = map (\<lambda>i. n + 1 - of_nat (Suc (length es) - i)) [0..<Suc (length es)]"
proof -
  have "n - of_nat (length es - i) = n + 1 - of_nat (Suc (length es) - i)" if "i < length es" for i
  proof -
    have "Suc (length es) - i = Suc (length es - i)" using that by simp
    then show ?thesis by simp
  qed
  then show ?thesis using assms by simp
qed

lemma consecutive_drop:
  fixes n :: u64
  assumes "map f es = map (\<lambda>i. n - of_nat (length es - i)) [0..<length es]"
  shows "map f (drop k es) = map (\<lambda>i. n - of_nat (length (drop k es) - i)) [0..<length (drop k es)]"
proof -
  have "map f (drop k es) = drop k (map (\<lambda>i. n - of_nat (length es - i)) [0..<length es])"
    by (simp add: assms flip: drop_map)
  also have "\<dots> = map (\<lambda>i. n - of_nat (length (drop k es) - i)) [0..<length (drop k es)]"
    by (rule nth_equalityI) (simp_all add: diff_diff_left)
  finally show ?thesis .
qed

lemma graph_step_events: "events_inv g \<Longrightarrow> events_inv (graph_step x g)"
proof (cases x)
  case (PushEvent k r t p)
  assume inv: "events_inv g"
  let ?es = "wg_events g @ [\<lparr>we_seq = wg_next_event_seq g, we_kind = k, we_room = r, we_time = t,
      we_payload = p\<rparr>]"
  have "map we_seq ?es
      = map (\<lambda>i. wg_next_event_seq g + 1 - of_nat (length ?es - i)) [0..<length ?es]"
    using consecutive_snoc [of we_seq "wg_events g" "wg_next_event_seq g"] inv
    unfolding events_inv_def by simp
  note consecutive_drop [OF this, of "length ?es - MAX_EVENT_LOG"]
  then show ?thesis unfolding PushEvent by (simp add: events_inv_def WorldGraph_push_event_def Let_def)
qed (auto simp: events_inv_def graph_ops Let_def split: option.split)

definition graph_inv :: "'v WorldGraph \<Rightarrow> bool" where
  "graph_inv g \<longleftrightarrow> rooms_inv (wg_rooms g) \<and> events_inv g"

interpretation graph_store: machine_invariant graph_step graph_inv
  by unfold_locales (simp add: graph_inv_def graph_step_rooms graph_step_events)

interpretation correction_log: append_only graph_step wg_corrections
proof
  fix x :: "'v GraphOp" and g :: "'v WorldGraph"
  show "\<exists>new. wg_corrections (graph_step x g) = wg_corrections g @ new"
    by (cases x) (auto simp: graph_ops Let_def split: option.split)
qed

lemma graph_inv_new: "graph_inv WorldGraph_new"
  by (simp add: graph_inv_def rooms_inv_def events_inv_def WorldGraph_new_def)

section \<open>Properties\<close>

text \<open>
  The world graph stays within its bounds. Over any sequence of operations it holds at most
  \<open>MAX_ROOMS\<close> rooms, each stored once, under its own id and with at most \<open>MAX_EXITS_PER_ROOM\<close>
  exits; and the event log holds at most \<open>MAX_EVENT_LOG\<close> events, numbered without a gap up to the
  last event pushed.
\<close>

theorem graph_bounded:
  "let g = run graph_step ops WorldGraph_new in
     length (wg_rooms g) \<le> MAX_ROOMS \<and> distinct (map fst (wg_rooms g))
     \<and> list_all (\<lambda>(i, r). rm_id r = i \<and> length (rm_exits r) \<le> MAX_EXITS_PER_ROOM) (wg_rooms g)
     \<and> length (wg_events g) \<le> MAX_EVENT_LOG
     \<and> map we_seq (wg_events g)
       = map (\<lambda>i. wg_next_event_seq g - of_nat (length (wg_events g) - i)) [0..<length (wg_events g)]"
  using graph_store.run_inv [OF graph_inv_new, of ops]
  by (simp add: Let_def graph_inv_def rooms_inv_def events_inv_def)

text \<open>
  A correction overwrites and dangles. When a correction of a fact succeeds, no fact keeps the
  payload it had under that id: the record itself carries the new payload. It is marked as
  superseded by an id that no correction creates, which is the id the next derived fact will get,
  whatever that fact is about.
\<close>

theorem correction_dangles:
  assumes "find (\<lambda>f. df_id f = i) (wg_facts g) \<noteq> None"
  shows "fst (WorldGraph_apply_correction i t p note g) = Inr ()
    \<and> filter (\<lambda>f. df_id f = i) (wg_facts (snd (WorldGraph_apply_correction i t p note g)))
      = map (\<lambda>f. f\<lparr>df_superseded_by := Some (wg_next_fact_id g), df_payload := p\<rparr>)
          (filter (\<lambda>f. df_id f = i) (wg_facts g))
    \<and> fst (WorldGraph_insert_fact ev t' sc c se m q
           (snd (WorldGraph_apply_correction i t p note g))) = wg_next_fact_id g"
proof -
  have "filter (\<lambda>f. df_id f = i) (map (\<lambda>f. if df_id f = i
          then f\<lparr>df_superseded_by := Some n, df_payload := p\<rparr> else f) fs)
      = map (\<lambda>f. f\<lparr>df_superseded_by := Some n, df_payload := p\<rparr>) (filter (\<lambda>f. df_id f = i) fs)"
    for n and fs :: "'a DerivedFact list" by (induction fs) auto
  moreover have "WorldGraph_apply_correction i t p note g = (Inr (),
        g\<lparr>wg_facts := map (\<lambda>f. if df_id f = i
              then f\<lparr>df_superseded_by := Some (wg_next_fact_id g), df_payload := p\<rparr> else f) (wg_facts g),
          wg_corrections := wg_corrections g @
            [\<lparr>co_fact_id = i, co_time = t, co_payload = p, co_note = note\<rparr>]\<rparr>)"
    by (simp only: WorldGraph_apply_correction_def assms if_False)
  ultimately show ?thesis by (simp add: WorldGraph_insert_fact_def)
qed

definition demo_graph :: "string WorldGraph" where
  "demo_graph = snd (WorldGraph_insert_fact ''e1'' 5 ''room'' 1 PublicFact ''m1'' ''old'' WorldGraph_new)"

theorem correction_dangles_witness:
  "map df_payload (filter (\<lambda>f. df_id f = 1)
     (wg_facts (snd (WorldGraph_apply_correction 1 9 ''new'' ''fix'' demo_graph)))) = [''new'']"
proof -
  have "find (\<lambda>f. df_id f = 1) (wg_facts demo_graph) \<noteq> None"
    by (simp add: demo_graph_def WorldGraph_insert_fact_def WorldGraph_new_def)
  note correction_dangles [OF this, of 9 "''new''" "''fix''"]
  then show ?thesis by (simp add: demo_graph_def WorldGraph_insert_fact_def WorldGraph_new_def)
qed

end
