(* ===== verification/WorldRoute.thy ===== *)
theory WorldRoute
  imports WorldGraph
begin

text \<open>
  Correctness of the route search of \<open>WorldGraph\<close>: walks through usable exits as the
  specification, the invariant of the search loop, and the route the code returns as a walk of
  least cost.
\<close>

section \<open>Walks\<close>

fun is_walk :: "'v WorldGraph \<Rightarrow> u32 option \<Rightarrow> bool \<Rightarrow> u32 \<Rightarrow> Exit list \<Rightarrow> u32 \<Rightarrow> bool" where
  "is_walk g now h a [] b = (a = b)"
| "is_walk g now h a (e # es) b =
     ((case map_of (wg_rooms g) a of None \<Rightarrow> False | Some r \<Rightarrow> e \<in> set (rm_exits r))
      \<and> exit_usable now h e \<and> is_walk g now h (ex_to e) es b)"

definition walk_cost :: "Exit list \<Rightarrow> nat" where
  "walk_cost es = sum_list (map exit_cost es)"

lemma walk_cost_simps [simp]:
  "walk_cost [] = 0" "walk_cost (e # es) = exit_cost e + walk_cost es"
  "walk_cost (xs @ ys) = walk_cost xs + walk_cost ys"
  by (simp_all add: walk_cost_def)

lemma exit_cost_pos: "0 < exit_cost e"
  by (simp add: exit_cost_def)

lemma exit_cost_le: "exit_cost e \<le> 2 ^ 32 - 1"
proof -
  have "unat (ex_weight e) < 2 ^ 32" using unsigned_less [of "ex_weight e"] by simp
  then show ?thesis by (simp add: exit_cost_def)
qed

lemma is_walk_snoc:
  "is_walk g now h a (es @ [e]) b \<longleftrightarrow>
    (\<exists>u r. is_walk g now h a es u \<and> map_of (wg_rooms g) u = Some r \<and> e \<in> set (rm_exits r)
      \<and> exit_usable now h e \<and> ex_to e = b)"
  by (induction es arbitrary: a) (auto split: option.splits)

section \<open>The heap\<close>

lemma pair_le_linear: "pair_le a b \<or> pair_le b a"
  unfolding pair_le_def by auto

lemma pair_le_trans: "pair_le a b \<Longrightarrow> pair_le b c \<Longrightarrow> pair_le a c"
  unfolding pair_le_def by auto

lemma set_heap_push [simp]: "set (heap_push x q) = insert x (set q)"
  by (induction q) auto

lemma sorted_heap_push: "sorted_wrt pair_le q \<Longrightarrow> sorted_wrt pair_le (heap_push x q)"
proof (induction q)
  case (Cons y q)
  then show ?case using pair_le_linear [of x y] by (auto intro: pair_le_trans)
qed simp

section \<open>Relaxing the exits of a room\<close>

lemma relax_exits_label:
  "(map_of (se_dist (relax_exits now h cur d es s)) v = map_of (se_dist s) v
     \<and> map_of (se_prev (relax_exits now h cur d es s)) v = map_of (se_prev s) v)
   \<or> (\<exists>e \<in> set es. exit_usable now h e \<and> ex_to e = v
       \<and> map_of (se_dist (relax_exits now h cur d es s)) v = Some (d + exit_cost e)
       \<and> map_of (se_prev (relax_exits now h cur d es s)) v = Some (cur, ex_command e)
       \<and> (\<forall>x. map_of (se_dist s) v = Some x \<longrightarrow> d + exit_cost e < x))"
proof (induction es arbitrary: s)
  case (Cons e es)
  have one: "(map_of (se_dist (relax now h cur d e s)) v = map_of (se_dist s) v
       \<and> map_of (se_prev (relax now h cur d e s)) v = map_of (se_prev s) v)
     \<or> (exit_usable now h e \<and> ex_to e = v
       \<and> map_of (se_dist (relax now h cur d e s)) v = Some (d + exit_cost e)
       \<and> map_of (se_prev (relax now h cur d e s)) v = Some (cur, ex_command e)
       \<and> (\<forall>x. map_of (se_dist s) v = Some x \<longrightarrow> d + exit_cost e < x))"
    by (auto simp: relax_def improves_def Let_def split: option.splits)
  show ?case using Cons.IH [of "relax now h cur d e s"] one by fastforce
qed simp

lemma relax_exits_dist_mono:
  "map_of (se_dist s) v = Some x \<Longrightarrow>
    \<exists>y. map_of (se_dist (relax_exits now h cur d es s)) v = Some y \<and> y \<le> x"
  using relax_exits_label [of now h cur d es s v] by auto

lemma relax_exits_covers:
  "e \<in> set es \<Longrightarrow> exit_usable now h e \<Longrightarrow>
    \<exists>x. map_of (se_dist (relax_exits now h cur d es s)) (ex_to e) = Some x \<and> x \<le> d + exit_cost e"
proof (induction es arbitrary: s)
  case (Cons a es)
  show ?case
  proof (cases "a = e")
    case True
    then have "\<exists>y. map_of (se_dist (relax now h cur d a s)) (ex_to e) = Some y \<and> y \<le> d + exit_cost e"
      using Cons.prems(2) by (auto simp: relax_def improves_def Let_def split: option.splits)
    then obtain y where "map_of (se_dist (relax now h cur d a s)) (ex_to e) = Some y"
      "y \<le> d + exit_cost e" by blast
    then show ?thesis using relax_exits_dist_mono [of "relax now h cur d a s" "ex_to e" y now h cur d es]
      by auto
  next
    case False
    with Cons show ?thesis by simp
  qed
qed simp

lemma relax_queue:
  "set (se_queue (relax now h cur d e s)) =
    set (se_queue s) \<union> (if exit_usable now h e \<and> improves (d + exit_cost e) e (se_dist s)
                       then {(d + exit_cost e, ex_to e)} else {})"
  by (auto simp: relax_def Let_def)

lemma relax_exits_queue_mono: "set (se_queue s) \<subseteq> set (se_queue (relax_exits now h cur d es s))"
proof (induction es arbitrary: s)
  case (Cons e es)
  then show ?case using relax_queue [of now h cur d e s] by fastforce
qed simp

lemma relax_exits_queue_new:
  "(k, v) \<in> set (se_queue (relax_exits now h cur d es s)) \<Longrightarrow>
    (k, v) \<in> set (se_queue s)
    \<or> (\<exists>e \<in> set es. exit_usable now h e \<and> ex_to e = v \<and> k = d + exit_cost e)"
proof (induction es arbitrary: s)
  case (Cons e es)
  then have "(k, v) \<in> set (se_queue (relax now h cur d e s))
     \<or> (\<exists>e \<in> set es. exit_usable now h e \<and> ex_to e = v \<and> k = d + exit_cost e)" by simp
  then show ?case using relax_queue [of now h cur d e s] by (auto split: if_splits)
qed simp

lemma relax_exits_dist_queued:
  "map_of (se_dist (relax_exits now h cur d es s)) v = Some x \<Longrightarrow>
    map_of (se_dist s) v = Some x \<or> (x, v) \<in> set (se_queue (relax_exits now h cur d es s))"
proof (induction es arbitrary: s)
  case (Cons e es)
  let ?s = "relax now h cur d e s"
  have "map_of (se_dist ?s) v = Some x \<or> (x, v) \<in> set (se_queue (relax_exits now h cur d es ?s))"
    using Cons by simp
  moreover have "map_of (se_dist ?s) v = Some x \<Longrightarrow> map_of (se_dist s) v = Some x \<or> (x, v) \<in> set (se_queue ?s)"
    by (auto simp: relax_def Let_def split: if_splits)
  ultimately show ?case using relax_exits_queue_mono [of ?s now h cur d es] by auto
qed simp

lemma relax_exits_sorted:
  "sorted_wrt pair_le (se_queue s) \<Longrightarrow> sorted_wrt pair_le (se_queue (relax_exits now h cur d es s))"
proof (induction es arbitrary: s)
  case (Cons e es)
  have "sorted_wrt pair_le (se_queue (relax now h cur d e s))"
    using Cons.prems by (auto simp: relax_def Let_def sorted_heap_push)
  then show ?case using Cons.IH by simp
qed simp

section \<open>The invariant of the search\<close>

definition labels_ok :: "'v WorldGraph \<Rightarrow> u32 \<Rightarrow> u32 option \<Rightarrow> bool \<Rightarrow> Search \<Rightarrow> bool" where
  "labels_ok g src now h s \<longleftrightarrow>
     (\<forall>v x. map_of (se_dist s) v = Some x \<longrightarrow> v = src \<or>
        (\<exists>p r e dp. map_of (se_prev s) v = Some (p, ex_command e) \<and> p \<in> se_visited s
           \<and> map_of (se_dist s) p = Some dp \<and> map_of (wg_rooms g) p = Some r
           \<and> e \<in> set (rm_exits r) \<and> exit_usable now h e \<and> ex_to e = v \<and> x = dp + exit_cost e))"

definition edges_ok :: "'v WorldGraph \<Rightarrow> u32 option \<Rightarrow> bool \<Rightarrow> Search \<Rightarrow> bool" where
  "edges_ok g now h s \<longleftrightarrow>
     (\<forall>u \<in> se_visited s. \<forall>r e. map_of (wg_rooms g) u = Some r \<longrightarrow> e \<in> set (rm_exits r) \<longrightarrow>
        exit_usable now h e \<longrightarrow>
        (\<exists>du x. map_of (se_dist s) u = Some du \<and> map_of (se_dist s) (ex_to e) = Some x
           \<and> x \<le> du + exit_cost e))"

definition queue_ok :: "Search \<Rightarrow> bool" where
  "queue_ok s \<longleftrightarrow>
     sorted_wrt pair_le (se_queue s)
     \<and> (\<forall>k v. (k, v) \<in> set (se_queue s) \<longrightarrow> (\<exists>x. map_of (se_dist s) v = Some x \<and> x \<le> k))
     \<and> (\<forall>v x. map_of (se_dist s) v = Some x \<longrightarrow> v \<in> se_visited s \<or> (x, v) \<in> set (se_queue s))
     \<and> (\<forall>v \<in> se_visited s. \<exists>x. map_of (se_dist s) v = Some x
           \<and> (\<forall>k w. (k, w) \<in> set (se_queue s) \<longrightarrow> x \<le> k))"

definition bounds_ok :: "u32 \<Rightarrow> u32 \<Rightarrow> Search \<Rightarrow> bool" where
  "bounds_ok src dest s \<longleftrightarrow>
     map_of (se_dist s) src = Some 0 \<and> dest \<notin> se_visited s \<and> se_opened s = card (se_visited s)
     \<and> (\<forall>v x. map_of (se_dist s) v = Some x \<longrightarrow> x \<le> card (se_visited s) * (2 ^ 32 - 1))"

definition search_inv ::
    "'v WorldGraph \<Rightarrow> u32 \<Rightarrow> u32 \<Rightarrow> u32 option \<Rightarrow> bool \<Rightarrow> Search \<Rightarrow> bool" where
  "search_inv g src dest now h s \<longleftrightarrow>
     labels_ok g src now h s \<and> edges_ok g now h s \<and> queue_ok s \<and> bounds_ok src dest s"

lemma search_inv_start: "search_inv g src dest now h (search_start src)"
  by (auto simp: search_inv_def labels_ok_def edges_ok_def queue_ok_def bounds_ok_def
      search_start_def split: if_splits)

text \<open>What \<open>queue_ok\<close> says, one fact at a time, and how to establish it.\<close>

lemma queue_okD:
  assumes "queue_ok s"
  shows queue_sorted: "sorted_wrt pair_le (se_queue s)"
    and queue_entry: "(k, v) \<in> set (se_queue s) \<Longrightarrow> \<exists>x. map_of (se_dist s) v = Some x \<and> x \<le> k"
    and queue_has: "map_of (se_dist s) v = Some x \<Longrightarrow> v \<notin> se_visited s \<Longrightarrow> (x, v) \<in> set (se_queue s)"
    and queue_settled: "v \<in> se_visited s \<Longrightarrow> \<exists>x. map_of (se_dist s) v = Some x"
    and queue_settled_le: "v \<in> se_visited s \<Longrightarrow> map_of (se_dist s) v = Some x \<Longrightarrow>
           (k, w) \<in> set (se_queue s) \<Longrightarrow> x \<le> k"
  using assms unfolding queue_ok_def by (blast, blast, blast, blast, metis option.inject)

lemma queue_okI:
  assumes "sorted_wrt pair_le (se_queue s)"
    and "\<And>k v. (k, v) \<in> set (se_queue s) \<Longrightarrow> \<exists>x. map_of (se_dist s) v = Some x \<and> x \<le> k"
    and "\<And>v x. map_of (se_dist s) v = Some x \<Longrightarrow> v \<notin> se_visited s \<Longrightarrow> (x, v) \<in> set (se_queue s)"
    and "\<And>v. v \<in> se_visited s \<Longrightarrow> \<exists>x. map_of (se_dist s) v = Some x
           \<and> (\<forall>k w. (k, w) \<in> set (se_queue s) \<longrightarrow> x \<le> k)"
  shows "queue_ok s"
  using assms unfolding queue_ok_def by blast

text \<open>Dropping an entry for a room that is settled keeps the invariant.\<close>

lemma queue_ok_skip:
  assumes ok: "queue_ok s" and q: "se_queue s = (k, c) # q" and c: "c \<in> se_visited s"
  shows "queue_ok (s\<lparr>se_queue := q\<rparr>)"
proof (rule queue_okI)
  show "sorted_wrt pair_le (se_queue (s\<lparr>se_queue := q\<rparr>))"
    using queue_sorted [OF ok] q by simp
next
  fix k v assume "(k, v) \<in> set (se_queue (s\<lparr>se_queue := q\<rparr>))"
  then show "\<exists>x. map_of (se_dist (s\<lparr>se_queue := q\<rparr>)) v = Some x \<and> x \<le> k"
    using queue_entry [OF ok] q by simp
next
  fix v x assume "map_of (se_dist (s\<lparr>se_queue := q\<rparr>)) v = Some x" "v \<notin> se_visited (s\<lparr>se_queue := q\<rparr>)"
  then show "(x, v) \<in> set (se_queue (s\<lparr>se_queue := q\<rparr>))"
    using queue_has [OF ok, of v x] q c by auto
next
  fix v assume "v \<in> se_visited (s\<lparr>se_queue := q\<rparr>)"
  then show "\<exists>x. map_of (se_dist (s\<lparr>se_queue := q\<rparr>)) v = Some x
      \<and> (\<forall>k w. (k, w) \<in> set (se_queue (s\<lparr>se_queue := q\<rparr>)) \<longrightarrow> x \<le> k)"
    using queue_settled [OF ok, of v] queue_settled_le [OF ok, of v] q by auto
qed

lemma search_inv_skip:
  assumes inv: "search_inv g src dest now h s" and q: "se_queue s = (k, c) # q"
    and c: "c \<in> se_visited s"
  shows "search_inv g src dest now h (s\<lparr>se_queue := q\<rparr>)"
proof -
  have "queue_ok (s\<lparr>se_queue := q\<rparr>)" using inv q c by (simp add: search_inv_def queue_ok_skip)
  then show ?thesis using inv by (simp add: search_inv_def labels_ok_def edges_ok_def bounds_ok_def)
qed

text \<open>The popped entry of an unsettled room carries its current distance.\<close>

lemma popped_current:
  assumes ok: "queue_ok s" and q: "se_queue s = (k, c) # q" and new: "c \<notin> se_visited s"
  shows "map_of (se_dist s) c = Some k"
proof -
  obtain x where x: "map_of (se_dist s) c = Some x" "x \<le> k"
    using queue_entry [OF ok, of k c] q by auto
  have "(x, c) \<in> set (se_queue s)" by (rule queue_has [OF ok x(1) new])
  then have "k \<le> x" using queue_sorted [OF ok] q by (auto simp: pair_le_def)
  then show ?thesis using x by simp
qed

lemma popped_least:
  assumes ok: "queue_ok s" and q: "se_queue s = (k, c) # q" and e: "(k', v) \<in> set (se_queue s)"
  shows "pair_le (k, c) (k', v)"
  using queue_sorted [OF ok] q e by (auto simp: pair_le_def)

text \<open>
  Settling a room: the state after the room is marked and its exits \<open>es\<close> are relaxed. A settled
  room keeps its distance and its predecessor.
\<close>

definition settle :: "u32 option \<Rightarrow> bool \<Rightarrow> u32 \<Rightarrow> nat \<Rightarrow> (nat \<times> u32) list \<Rightarrow> Exit list \<Rightarrow> Search \<Rightarrow> Search" where
  "settle now h c k q es s =
     relax_exits now h c k es
       (s\<lparr>se_queue := q, se_visited := insert c (se_visited s), se_opened := se_opened s + 1\<rparr>)"

lemma settle_fields [simp]:
  "se_visited (settle now h c k q es s) = insert c (se_visited s)"
  "se_opened (settle now h c k q es s) = se_opened s + 1"
  by (simp_all add: settle_def)

lemma settle_label:
  "(map_of (se_dist (settle now h c k q es s)) v = map_of (se_dist s) v
     \<and> map_of (se_prev (settle now h c k q es s)) v = map_of (se_prev s) v)
   \<or> (\<exists>e \<in> set es. exit_usable now h e \<and> ex_to e = v
       \<and> map_of (se_dist (settle now h c k q es s)) v = Some (k + exit_cost e)
       \<and> map_of (se_prev (settle now h c k q es s)) v = Some (c, ex_command e)
       \<and> (\<forall>x. map_of (se_dist s) v = Some x \<longrightarrow> k + exit_cost e < x))"
  unfolding settle_def
  using relax_exits_label [of now h c k es
      "s\<lparr>se_queue := q, se_visited := insert c (se_visited s), se_opened := se_opened s + 1\<rparr>" v]
  by simp

lemma settle_keeps:
  assumes ok: "queue_ok s" and q: "se_queue s = (k, c) # q" and new: "c \<notin> se_visited s"
    and v: "v \<in> insert c (se_visited s)"
  shows "map_of (se_dist (settle now h c k q es s)) v = map_of (se_dist s) v"
    "map_of (se_prev (settle now h c k q es s)) v = map_of (se_prev s) v"
proof -
  obtain x where x: "map_of (se_dist s) v = Some x" "x \<le> k"
  proof (cases "v = c")
    case True
    then show ?thesis using popped_current [OF ok q new] that by simp
  next
    case False
    then have "v \<in> se_visited s" using v by simp
    then show ?thesis using queue_settled [OF ok] queue_settled_le [OF ok, of v _ k c] q that
      by fastforce
  qed
  have "\<not> k + exit_cost e < x" for e using x(2) exit_cost_pos [of e] by simp
  then have "map_of (se_dist (settle now h c k q es s)) v = map_of (se_dist s) v
     \<and> map_of (se_prev (settle now h c k q es s)) v = map_of (se_prev s) v"
    using settle_label [of now h c k q es s v] x(1) by blast
  then show "map_of (se_dist (settle now h c k q es s)) v = map_of (se_dist s) v"
    "map_of (se_prev (settle now h c k q es s)) v = map_of (se_prev s) v" by simp_all
qed

definition room_exits :: "'v WorldGraph \<Rightarrow> u32 \<Rightarrow> Exit list" where
  "room_exits g c = (case map_of (wg_rooms g) c of None \<Rightarrow> [] | Some r \<Rightarrow> rm_exits r)"

lemma in_room_exits:
  "e \<in> set (room_exits g c) \<longleftrightarrow> (\<exists>r. map_of (wg_rooms g) c = Some r \<and> e \<in> set (rm_exits r))"
  by (cases "map_of (wg_rooms g) c") (simp_all add: room_exits_def)

lemma settle_mono:
  "map_of (se_dist s) v = Some x \<Longrightarrow>
    \<exists>y. map_of (se_dist (settle now h c k q es s)) v = Some y \<and> y \<le> x"
  unfolding settle_def by (rule relax_exits_dist_mono) simp

lemma settle_covers:
  "e \<in> set es \<Longrightarrow> exit_usable now h e \<Longrightarrow>
    \<exists>x. map_of (se_dist (settle now h c k q es s)) (ex_to e) = Some x \<and> x \<le> k + exit_cost e"
  unfolding settle_def by (rule relax_exits_covers)

lemma settle_queue_new:
  "(j, v) \<in> set (se_queue (settle now h c k q es s)) \<Longrightarrow>
    (j, v) \<in> set q \<or> (\<exists>e \<in> set es. exit_usable now h e \<and> ex_to e = v \<and> j = k + exit_cost e)"
  unfolding settle_def using relax_exits_queue_new by fastforce

definition settling ::
    "'v WorldGraph \<Rightarrow> u32 \<Rightarrow> u32 \<Rightarrow> u32 option \<Rightarrow> bool \<Rightarrow> Search \<Rightarrow> nat \<Rightarrow> u32 \<Rightarrow>
      (nat \<times> u32) list \<Rightarrow> Search \<Rightarrow> bool" where
  "settling g src dest now h s k c q t \<longleftrightarrow>
     search_inv g src dest now h s \<and> se_queue s = (k, c) # q \<and> c \<notin> se_visited s
     \<and> t = settle now h c k q (room_exits g c) s"

lemma settlingD:
  assumes "settling g src dest now h s k c q t"
  shows "search_inv g src dest now h s" "se_queue s = (k, c) # q" "c \<notin> se_visited s"
    "t = settle now h c k q (room_exits g c) s"
  using assms by (simp_all add: settling_def)

lemma ctx_queue_ok:
  assumes st: "settling g src dest now h s k c q t"
  shows "queue_ok s"
  using settlingD(1) [OF st] by (simp add: search_inv_def)

lemma ctx_current:
  assumes st: "settling g src dest now h s k c q t"
  shows "map_of (se_dist s) c = Some k"
  by (rule popped_current [OF ctx_queue_ok [OF st] settlingD(2,3) [OF st]])

lemma ctx_keeps:
  assumes st: "settling g src dest now h s k c q t"
  shows "v \<in> insert c (se_visited s) \<Longrightarrow> map_of (se_dist t) v = map_of (se_dist s) v"
  unfolding settlingD(4) [OF st] by (rule settle_keeps(1) [OF ctx_queue_ok [OF st] settlingD(2,3) [OF st]])

lemma ctx_labels:
  assumes st: "settling g src dest now h s k c q t"
  shows "labels_ok g src now h t"
  unfolding labels_ok_def
proof (intro allI impI)
  note inv = settlingD(1) [OF st] and q = settlingD(2) [OF st] and new = settlingD(3) [OF st]
    and t = settlingD(4) [OF st]
  fix v x assume x: "map_of (se_dist t) v = Some x"
  consider
      "map_of (se_dist s) v = Some x" "map_of (se_prev t) v = map_of (se_prev s) v"
    | e where "e \<in> set (room_exits g c)" "exit_usable now h e" "ex_to e = v" "x = k + exit_cost e"
        "map_of (se_prev t) v = Some (c, ex_command e)"
    using settle_label [of now h c k q "room_exits g c" s v] x unfolding t by fastforce
  then show "v = src \<or>
     (\<exists>p r e dp. map_of (se_prev t) v = Some (p, ex_command e) \<and> p \<in> se_visited t
        \<and> map_of (se_dist t) p = Some dp \<and> map_of (wg_rooms g) p = Some r
        \<and> e \<in> set (rm_exits r) \<and> exit_usable now h e \<and> ex_to e = v \<and> x = dp + exit_cost e)"
  proof cases
    case 1
    then show ?thesis using inv ctx_keeps [OF st] unfolding search_inv_def labels_ok_def t
      by simp (metis insertI2 settle_fields(1))
  next
    case 2
    then show ?thesis using ctx_keeps [OF st, of c] ctx_current [OF st] unfolding t in_room_exits by auto
  qed
qed

lemma ctx_edges:
  assumes st: "settling g src dest now h s k c q t"
  shows "edges_ok g now h t"
  unfolding edges_ok_def
proof (intro ballI allI impI)
  note inv = settlingD(1) [OF st] and q = settlingD(2) [OF st] and new = settlingD(3) [OF st]
    and t = settlingD(4) [OF st]
  fix u r e
  assume u: "u \<in> se_visited t" and r: "map_of (wg_rooms g) u = Some r" "e \<in> set (rm_exits r)"
    and e: "exit_usable now h e"
  have keep: "map_of (se_dist t) u = map_of (se_dist s) u" using u ctx_keeps [OF st] unfolding t by simp
  show "\<exists>du x. map_of (se_dist t) u = Some du \<and> map_of (se_dist t) (ex_to e) = Some x
      \<and> x \<le> du + exit_cost e"
  proof (cases "u = c")
    case True
    then have "e \<in> set (room_exits g c)" using r by (auto simp: in_room_exits)
    then show ?thesis using settle_covers [OF _ e, of "room_exits g c" c k q s] keep ctx_current [OF st] True
      unfolding t by auto
  next
    case False
    then have "u \<in> se_visited s" using u unfolding t by simp
    then obtain du x where d: "map_of (se_dist s) u = Some du" "map_of (se_dist s) (ex_to e) = Some x"
      "x \<le> du + exit_cost e" using inv r e unfolding search_inv_def edges_ok_def by blast
    obtain y where "map_of (se_dist t) (ex_to e) = Some y" "y \<le> x"
      using settle_mono [OF d(2), of now h c k q "room_exits g c"] unfolding t by blast
    then show ?thesis using keep d by auto
  qed
qed

lemma ctx_queue_least:
  assumes st: "settling g src dest now h s k c q t"
  shows "(j, w) \<in> set (se_queue t) \<Longrightarrow> k \<le> j"
  using settle_queue_new [of j w now h c k q "room_exits g c" s]
    popped_least [OF ctx_queue_ok [OF st] settlingD(2) [OF st], of j w] settlingD(2) [OF st]
  unfolding settlingD(4) [OF st] pair_le_def by auto

lemma ctx_queue:
  assumes st: "settling g src dest now h s k c q t"
  shows "queue_ok t"
proof (rule queue_okI)
  note inv = settlingD(1) [OF st] and q = settlingD(2) [OF st] and new = settlingD(3) [OF st]
    and t = settlingD(4) [OF st]
  show "sorted_wrt pair_le (se_queue t)"
    unfolding t settle_def using queue_sorted [OF ctx_queue_ok [OF st]] q by (simp add: relax_exits_sorted)
next
  note q = settlingD(2) [OF st] and t = settlingD(4) [OF st]
  fix j v assume "(j, v) \<in> set (se_queue t)"
  then consider "(j, v) \<in> set q"
    | e where "e \<in> set (room_exits g c)" "exit_usable now h e" "ex_to e = v" "j = k + exit_cost e"
    using settle_queue_new unfolding t by blast
  then show "\<exists>x. map_of (se_dist t) v = Some x \<and> x \<le> j"
  proof cases
    case 1
    then obtain x where x: "map_of (se_dist s) v = Some x" "x \<le> j"
      using queue_entry [OF ctx_queue_ok [OF st], of j v] q by auto
    show ?thesis using settle_mono [OF x(1), of now h c k q "room_exits g c"] x(2) unfolding t by auto
  next
    case 2
    then show ?thesis using settle_covers [OF 2(1,2), of c k q s] unfolding t by simp
  qed
next
  note q = settlingD(2) [OF st] and t = settlingD(4) [OF st]
  fix v x assume v: "map_of (se_dist t) v = Some x" "v \<notin> se_visited t"
  let ?s = "s\<lparr>se_queue := q, se_visited := insert c (se_visited s), se_opened := se_opened s + 1\<rparr>"
  have "map_of (se_dist s) v = Some x \<or> (x, v) \<in> set (se_queue t)"
    using relax_exits_dist_queued [of now h c k "room_exits g c" ?s v x] v(1) unfolding t settle_def
    by simp
  moreover have "set q \<subseteq> set (se_queue t)"
    using relax_exits_queue_mono [of ?s now h c k "room_exits g c"] unfolding t settle_def by simp
  moreover have "map_of (se_dist s) v = Some x \<Longrightarrow> (x, v) \<in> set q"
    using queue_has [OF ctx_queue_ok [OF st], of v x] v(2) q unfolding t by auto
  ultimately show "(x, v) \<in> set (se_queue t)" by blast
next
  note q = settlingD(2) [OF st] and t = settlingD(4) [OF st]
  fix v assume v: "v \<in> se_visited t"
  then have v': "v \<in> insert c (se_visited s)" unfolding t by simp
  obtain x where x: "map_of (se_dist s) v = Some x" "x \<le> k"
    using v' ctx_current [OF st] queue_settled [OF ctx_queue_ok [OF st], of v]
      queue_settled_le [OF ctx_queue_ok [OF st], of v _ k c] q by fastforce
  then show "\<exists>x. map_of (se_dist t) v = Some x \<and> (\<forall>j w. (j, w) \<in> set (se_queue t) \<longrightarrow> x \<le> j)"
    using ctx_keeps [OF st v'] ctx_queue_least [OF st] by fastforce
qed

lemma ctx_bounds:
  assumes st: "settling g src dest now h s k c q t" and c: "c \<noteq> dest"
  shows "bounds_ok src dest t"
proof -
  note t = settlingD(4) [OF st]
  have b: "bounds_ok src dest s" using settlingD(1) [OF st] by (simp add: search_inv_def)
  let ?M = "2 ^ 32 - 1 :: nat"
  have card: "card (se_visited t) = card (se_visited s) + 1"
    using settlingD(3) [OF st] unfolding t by simp
  have k: "k \<le> card (se_visited s) * ?M"
    using b ctx_current [OF st] unfolding bounds_ok_def by blast
  have "x \<le> card (se_visited t) * ?M" if x: "map_of (se_dist t) v = Some x" for v x
  proof -
    consider "map_of (se_dist s) v = Some x" | e where "x = k + exit_cost e"
      using settle_label [of now h c k q "room_exits g c" s v] x unfolding t by fastforce
    then show ?thesis
    proof cases
      case 1
      then have "x \<le> card (se_visited s) * ?M" using b unfolding bounds_ok_def by blast
      then show ?thesis unfolding card by simp
    next
      case 2
      then show ?thesis using k exit_cost_le [of e] unfolding card by simp
    qed
  qed
  moreover have "map_of (se_dist t) src = Some 0"
    using settle_label [of now h c k q "room_exits g c" s src] b
    unfolding t bounds_ok_def by auto
  ultimately show ?thesis using b c card unfolding bounds_ok_def t by simp
qed

lemma settling_inv:
  "settling g src dest now h s k c q t \<Longrightarrow> c \<noteq> dest \<Longrightarrow> search_inv g src dest now h t"
  by (simp add: search_inv_def ctx_labels ctx_edges ctx_queue ctx_bounds)

section \<open>The search loop\<close>

text \<open>In a state of the invariant, a turn of the loop is one of four cases.\<close>

lemma search_turn_cases:
  assumes inv: "search_inv g src dest now h s"
  obtains (empty) "se_queue s = []" "search_turn g dest now h s = Finished s"
    | (old) k c q where "se_queue s = (k, c) # q" "c \<in> se_visited s"
        "search_turn g dest now h s = Continue (s\<lparr>se_queue := q\<rparr>)"
    | (found) k q where "se_queue s = (k, dest) # q"
        "search_turn g dest now h s = Finished (s\<lparr>se_queue := q\<rparr>)"
    | (new) k c q t where "se_queue s = (k, c) # q" "c \<noteq> dest" "settling g src dest now h s k c q t"
        "search_turn g dest now h s =
           (if wg_route_budget g < card (se_visited s) + 1 then OverBudget else Continue t)"
proof (cases "se_queue s")
  case Nil
  then show ?thesis by (intro empty) (simp_all add: search_turn_def)
next
  case (Cons a q)
  obtain k c where a: "a = (k, c)" by fastforce
  note q = Cons [unfolded a]
  show ?thesis
  proof (cases "c \<in> se_visited s")
    case True
    then show ?thesis using old [OF q] by (simp add: search_turn_def q Let_def)
  next
    case vis: False
    show ?thesis
    proof (cases "c = dest")
      case True
      then show ?thesis using found vis q by (simp add: search_turn_def q Let_def)
    next
      case False
      let ?t = "settle now h c k q (room_exits g c) s"
      have st: "settling g src dest now h s k c q ?t" using inv q vis by (simp add: settling_def)
      have "search_turn g dest now h s =
          (if wg_route_budget g < card (se_visited s) + 1 then OverBudget else Continue ?t)"
        using ctx_current [OF st] vis False inv
        by (simp add: search_turn_def q Let_def settle_def room_exits_def search_inv_def bounds_ok_def
            split: option.split)
      then show ?thesis using new [OF q False st] by blast
    qed
  qed
qed

definition search_done :: "u32 \<Rightarrow> Search \<Rightarrow> Search \<Rightarrow> bool" where
  "search_done dest s r \<longleftrightarrow>
     (se_queue s = [] \<and> r = s) \<or> (\<exists>k q. se_queue s = (k, dest) # q \<and> r = s\<lparr>se_queue := q\<rparr>)"

lemma search_result:
  assumes "search_inv g src dest now h s"
  shows "\<exists>s0. search_inv g src dest now h s0 \<and>
    (case search g dest now h s of
       Inr r \<Rightarrow> search_done dest s0 r
     | Inl e \<Rightarrow> e = BudgetExceeded
         \<and> (\<exists>k c q. se_queue s0 = (k, c) # q \<and> c \<notin> se_visited s0)
         \<and> wg_route_budget g < card (se_visited s0) + 1)"
  using assms
proof (induction g dest now h s rule: search.induct)
  case (1 g dest now h s)
  from "1.prems" show ?case
  proof (cases rule: search_turn_cases)
    case empty
    then show ?thesis using "1.prems" by (auto simp: search.simps [of g] search_done_def)
  next
    case (old k c q)
    then show ?thesis using "1.IH" [OF old(3)] search_inv_skip [OF "1.prems" old(1,2)]
      by (simp add: search.simps [of g dest now h s])
  next
    case (found k q)
    then show ?thesis using "1.prems" by (auto simp: search.simps [of g] search_done_def)
  next
    case (new k c q t)
    show ?thesis
    proof (cases "wg_route_budget g < card (se_visited s) + 1")
      case True
      then show ?thesis using new "1.prems" settlingD(3) [OF new(3)]
        by (auto simp: search.simps [of g dest now h s])
    next
      case False
      then have turn: "search_turn g dest now h s = Continue t" using new(4) by simp
      show ?thesis using "1.IH" [OF turn] settling_inv [OF new(3,2)] turn
        by (simp add: search.simps [of g dest now h s])
    qed
  qed
qed

section \<open>Labels are walks, settled labels are least\<close>

text \<open>Every label is the cost of a walk, and following the predecessors back finds that walk.\<close>

lemma label_walk:
  assumes inv: "search_inv g src dest now h s"
  shows "map_of (se_dist s) v = Some x \<Longrightarrow>
    \<exists>es. is_walk g now h src es v \<and> walk_cost es = x
      \<and> (\<forall>nodes cmds. backtrack src (se_prev s) v nodes cmds
           = Some (Inr (src # map ex_to es @ rev nodes, map ex_command es @ rev cmds)))"
proof (induction x arbitrary: v rule: less_induct)
  case (less x)
  have src: "map_of (se_dist s) src = Some 0" using inv by (simp add: search_inv_def bounds_ok_def)
  show ?case
  proof (cases "v = src")
    case True
    then show ?thesis using src less.prems by (intro exI [of _ "[]"]) (simp add: backtrack.simps)
  next
    case False
    then obtain p r e dp where p: "map_of (se_prev s) v = Some (p, ex_command e)"
      "map_of (se_dist s) p = Some dp" "map_of (wg_rooms g) p = Some r" "e \<in> set (rm_exits r)"
      "exit_usable now h e" "ex_to e = v" "x = dp + exit_cost e"
      using inv less.prems unfolding search_inv_def labels_ok_def by blast
    then have "dp < x" using exit_cost_pos [of e] by simp
    then obtain es where es: "is_walk g now h src es p" "walk_cost es = dp"
      "\<forall>nodes cmds. backtrack src (se_prev s) p nodes cmds
           = Some (Inr (src # map ex_to es @ rev nodes, map ex_command es @ rev cmds))"
      using less.IH [OF _ p(2)] by blast
    have "is_walk g now h src (es @ [e]) v" using es(1) p by (auto simp: is_walk_snoc)
    moreover have "backtrack src (se_prev s) v nodes cmds
           = Some (Inr (src # map ex_to (es @ [e]) @ rev nodes, map ex_command (es @ [e]) @ rev cmds))"
      for nodes cmds
      using False p es(3) by (simp add: backtrack.simps [of src "se_prev s" v])
    moreover have "walk_cost (es @ [e]) = x" using es(2) p(7) by simp
    ultimately show ?thesis by blast
  qed
qed

text \<open>A walk cheaper than everything queued ends in a room labelled with at most its cost.\<close>

lemma cheap_walk_label:
  assumes inv: "search_inv g src dest now h s"
  shows "is_walk g now h src es v \<Longrightarrow> (\<forall>k w. (k, w) \<in> set (se_queue s) \<longrightarrow> walk_cost es < k) \<Longrightarrow>
    v \<in> se_visited s \<and> (\<exists>x. map_of (se_dist s) v = Some x \<and> x \<le> walk_cost es)"
proof (induction es arbitrary: v rule: rev_induct)
  case Nil
  have "map_of (se_dist s) src = Some 0" using inv by (simp add: search_inv_def bounds_ok_def)
  then show ?case using Nil inv queue_has [of s src 0] by (auto simp: search_inv_def)
next
  case (snoc e es)
  then obtain u r where u: "is_walk g now h src es u" "map_of (wg_rooms g) u = Some r"
    "e \<in> set (rm_exits r)" "exit_usable now h e" "ex_to e = v" by (auto simp: is_walk_snoc)
  have "\<forall>k w. (k, w) \<in> set (se_queue s) \<longrightarrow> walk_cost es < k" using snoc.prems(2) by fastforce
  then obtain du where du: "u \<in> se_visited s" "map_of (se_dist s) u = Some du" "du \<le> walk_cost es"
    using snoc.IH [OF u(1)] by blast
  then obtain x where x: "map_of (se_dist s) v = Some x" "x \<le> du + exit_cost e"
    using inv u unfolding search_inv_def edges_ok_def by fastforce
  then have le: "x \<le> walk_cost (es @ [e])" using du by simp
  have "v \<in> se_visited s"
  proof (rule ccontr)
    assume "v \<notin> se_visited s"
    then have "(x, v) \<in> set (se_queue s)"
      using x(1) inv by (auto simp: search_inv_def intro: queue_has)
    then have "walk_cost (es @ [e]) < x" using snoc.prems(2) by blast
    then show False using le by simp
  qed
  then show ?case using x le by blast
qed

lemma done_least:
  assumes inv: "search_inv g src dest now h s" and fin: "search_done dest s r"
    and walk: "is_walk g now h src es dest"
  shows "\<exists>x. map_of (se_dist r) dest = Some x \<and> x \<le> walk_cost es"
proof -
  have fresh: "dest \<notin> se_visited s" using inv by (simp add: search_inv_def bounds_ok_def)
  then have "\<not> (\<forall>k w. (k, w) \<in> set (se_queue s) \<longrightarrow> walk_cost es < k)"
    using cheap_walk_label [OF inv walk] by blast
  then obtain k w where k: "(k, w) \<in> set (se_queue s)" "k \<le> walk_cost es"
    by (auto simp: not_less)
  then obtain d q where q: "se_queue s = (d, dest) # q" "r = s\<lparr>se_queue := q\<rparr>"
    using fin by (auto simp: search_done_def)
  have ok: "queue_ok s" using inv by (simp add: search_inv_def)
  have "d \<le> k" using popped_least [OF ok q(1) k(1)] by (auto simp: pair_le_def)
  then show ?thesis using popped_current [OF ok q(1) fresh] q(2) k(2) by simp
qed

lemma settled_reachable:
  assumes inv: "search_inv g src dest now h s"
    and q: "se_queue s = (k, c) # q" "c \<notin> se_visited s"
  shows "card (se_visited s) < card {v. \<exists>es. is_walk g now h src es v}"
proof -
  have ok: "queue_ok s" using inv by (simp add: search_inv_def)
  have "v \<in> {v. \<exists>es. is_walk g now h src es v}" if "v \<in> insert c (se_visited s)" for v
  proof -
    obtain x where "map_of (se_dist s) v = Some x"
      using \<open>v \<in> insert c (se_visited s)\<close> queue_settled [OF ok, of v] popped_current [OF ok q] by auto
    then show ?thesis using label_walk [OF inv] by blast
  qed
  then have "card (insert c (se_visited s)) \<le> card {v. \<exists>es. is_walk g now h src es v}"
    by (intro card_mono) auto
  then show ?thesis using q(2) by simp
qed

section \<open>Properties\<close>

text \<open>
  C1: The route search is correct. A returned route is a walk of usable exits from the source to the
  target, with its rooms, its commands and its total weight, and no walk is cheaper; the answer
  that there is no path is given only when no walk exists; the budget error only when more rooms
  can be reached than the budget allows; a missing room is one of the two ends. The search always
  returns.
\<close>

theorem route_correct:
  "case WorldGraph_route g src dest now h of
     None \<Rightarrow> False
   | Some (Inr r) \<Rightarrow>
       ro_from r = src \<and> ro_to r = dest
       \<and> (\<exists>es. is_walk g now h src es dest \<and> ro_nodes r = src # map ex_to es
             \<and> ro_commands r = map ex_command es \<and> ro_total_weight r = walk_cost es)
       \<and> \<not> (\<exists>es. is_walk g now h src es dest \<and> walk_cost es < ro_total_weight r)
   | Some (Inl (MissingRoom i)) \<Rightarrow> i \<in> {src, dest} \<and> WorldGraph_room g i = None
   | Some (Inl NoPath) \<Rightarrow> \<not> (\<exists>es. is_walk g now h src es dest)
   | Some (Inl BudgetExceeded) \<Rightarrow> wg_route_budget g < card {v. \<exists>es. is_walk g now h src es v}
   | Some (Inl InvalidTimedWindow) \<Rightarrow> False"
proof (cases "map_of (wg_rooms g) src = None \<or> map_of (wg_rooms g) dest = None \<or> src = dest")
  case True
  then show ?thesis
    by (auto simp: WorldGraph_route_def WorldGraph_room_def intro!: exI [of _ "[]"])
next
  case False
  obtain s where inv: "search_inv g src dest now h s" and
    res: "case search g dest now h (search_start src) of
       Inr r \<Rightarrow> search_done dest s r
     | Inl e \<Rightarrow> e = BudgetExceeded \<and> (\<exists>k c q. se_queue s = (k, c) # q \<and> c \<notin> se_visited s)
         \<and> wg_route_budget g < card (se_visited s) + 1"
    using search_result [OF search_inv_start] by blast
  show ?thesis
  proof (cases "search g dest now h (search_start src)")
    case (Inl e)
    then have "e = BudgetExceeded" "wg_route_budget g < card {v. \<exists>es. is_walk g now h src es v}"
      using res settled_reachable [OF inv] by fastforce+
    then show ?thesis using False Inl by (simp add: WorldGraph_route_def WorldGraph_room_def)
  next
    case (Inr r)
    then have fin: "search_done dest s r" using res by simp
    have fields: "se_dist r = se_dist s" "se_prev r = se_prev s"
      using fin by (auto simp: search_done_def)
    note least = done_least [OF inv fin, unfolded fields]
    show ?thesis
    proof (cases "map_of (se_dist s) dest")
      case None
      then have "\<not> (\<exists>es. is_walk g now h src es dest)" using least by fastforce
      then show ?thesis using False Inr None fields by (simp add: WorldGraph_route_def WorldGraph_room_def)
    next
      case (Some x)
      obtain es where es: "is_walk g now h src es dest" "walk_cost es = x"
        "backtrack src (se_prev s) dest [] [] = Some (Inr (src # map ex_to es, map ex_command es))"
        using label_walk [OF inv Some] by fastforce
      have "\<not> (\<exists>es. is_walk g now h src es dest \<and> walk_cost es < x)" using least Some by fastforce
      then show ?thesis using False Inr Some fields es by (auto simp: WorldGraph_route_def)
    qed
  qed
qed

text \<open>
  Distances fit in 64 bits. Every distance the finished search holds is below \<open>2 ^ 64\<close>, whatever
  the graph, so the \<open>u64\<close> additions of the code do not wrap.
\<close>

theorem search_distances_fit:
  "case search g dest now h (search_start src) of
     Inl e \<Rightarrow> e = BudgetExceeded
   | Inr s \<Rightarrow> (\<forall>v. case map_of (se_dist s) v of None \<Rightarrow> True | Some x \<Rightarrow> x < 2 ^ 64)"
proof -
  obtain s where inv: "search_inv g src dest now h s" and
    res: "case search g dest now h (search_start src) of
       Inr r \<Rightarrow> search_done dest s r
     | Inl e \<Rightarrow> e = BudgetExceeded \<and> (\<exists>k c q. se_queue s = (k, c) # q \<and> c \<notin> se_visited s)
         \<and> wg_route_budget g < card (se_visited s) + 1"
    using search_result [OF search_inv_start] by blast
  have "card (se_visited s) \<le> card (UNIV :: u32 set)" by (rule card_mono) simp_all
  then have "card (se_visited s) \<le> 2 ^ 32" by (simp add: card_word)
  then have le: "card (se_visited s) * (2 ^ 32 - 1) \<le> 2 ^ 32 * (2 ^ 32 - 1)" by (rule mult_le_mono1)
  have lt: "x < 2 ^ 64" if "map_of (se_dist s) v = Some x" for v x
  proof -
    have "x \<le> card (se_visited s) * (2 ^ 32 - 1)"
      using inv that unfolding search_inv_def bounds_ok_def by blast
    then show ?thesis using le by simp
  qed
  show ?thesis
  proof (cases "search g dest now h (search_start src)")
    case (Inr r)
    then have "se_dist r = se_dist s" using res by (auto simp: search_done_def)
    then show ?thesis using Inr lt by (simp split: option.split)
  qed (use res in simp)
qed

end
