(* ===== verification/MapperQt.thy ===== *)
theory MapperQt
  imports WorldRoute WorldStore
begin

text \<open>
  The Qt side of the world graph, \<open>src/wiremudder/mapper/mapper_boundary.h\<close> and \<open>.cpp\<close>. Its
  structs hold the same fields as the core's, so the records of \<open>WorldGraph\<close> serve for both; an
  \<open>int\<close> coordinate is a 32-bit word. A \<open>QHash\<close> is an association list, a \<open>QSet\<close> a set, a payload
  (\<open>QVariantMap\<close>) an opaque value, and the text form of JSON is a parameter.

  The route search of this side scans all labelled rooms for the nearest unvisited one, where the
  core keeps a heap with stale entries. \<open>search_agrees\<close> shows that the two settle the same rooms
  in the same order.
\<close>

section \<open>The store\<close>

record 'v WorldGraphQt =
  wq_rooms :: "(u32, Room) hash_map"
  wq_areas :: "(u32, Area) hash_map"
  wq_zones :: "(u32, Zone) hash_map"
  wq_facts :: "'v DerivedFact list"
  wq_corrections :: "'v Correction list"
  wq_cache :: "'v HotCache"

definition WorldGraphQt_new :: "'v WorldGraphQt" where
  "WorldGraphQt_new =
     \<lparr>wq_rooms = [], wq_areas = [], wq_zones = [], wq_facts = [], wq_corrections = [],
      wq_cache = \<lparr>hc_current_room = None, hc_entries = []\<rparr>\<rparr>"

definition kMaxRooms :: nat where "kMaxRooms = 1000000"
definition kMaxExitsPerRoom :: nat where "kMaxExitsPerRoom = 64"
definition kMaxEntries :: nat where "kMaxEntries = 4096"

definition HotCacheQt_set :: "string \<Rightarrow> 'v \<Rightarrow> 'v HotCache \<Rightarrow> bool \<times> 'v HotCache" where
  "HotCacheQt_set k v c =
     (if map_of (hc_entries c) k = None \<and> kMaxEntries \<le> length (hc_entries c) then (False, c)
      else (True, c\<lparr>hc_entries := AList.update k v (hc_entries c)\<rparr>))"

definition HotCacheQt_setCurrentRoom :: "u32 \<Rightarrow> 'v HotCache \<Rightarrow> 'v HotCache" where
  "HotCacheQt_setCurrentRoom room c = c\<lparr>hc_current_room := Some room\<rparr>"

definition HotCacheQt_currentRoom :: "'v HotCache \<Rightarrow> u32 option" where
  "HotCacheQt_currentRoom c = hc_current_room c"

definition HotCacheQt_get :: "'v HotCache \<Rightarrow> string \<Rightarrow> 'v option" where
  "HotCacheQt_get c k = map_of (hc_entries c) k"

definition HotCacheQt_size :: "'v HotCache \<Rightarrow> nat" where
  "HotCacheQt_size c = length (hc_entries c)"

definition WorldGraphQt_addRoom :: "Room \<Rightarrow> 'v WorldGraphQt \<Rightarrow> bool \<times> 'v WorldGraphQt" where
  "WorldGraphQt_addRoom room q =
     (if kMaxRooms \<le> length (wq_rooms q) then (False, q)
      else if kMaxExitsPerRoom < length (rm_exits room) then (False, q)
      else (True, q\<lparr>wq_rooms := AList.update (rm_id room) room (wq_rooms q)\<rparr>))"

definition WorldGraphQt_addArea :: "Area \<Rightarrow> 'v WorldGraphQt \<Rightarrow> bool \<times> 'v WorldGraphQt" where
  "WorldGraphQt_addArea area q =
     (if map_of (wq_areas q) (ar_id area) \<noteq> None then (False, q)
      else (True, q\<lparr>wq_areas := AList.update (ar_id area) area (wq_areas q)\<rparr>))"

definition WorldGraphQt_addZone :: "Zone \<Rightarrow> 'v WorldGraphQt \<Rightarrow> bool \<times> 'v WorldGraphQt" where
  "WorldGraphQt_addZone zone q =
     (if map_of (wq_zones q) (zn_id zone) \<noteq> None then (False, q)
      else (True, q\<lparr>wq_zones := AList.update (zn_id zone) zone (wq_zones q)\<rparr>))"

definition WorldGraphQt_assignAreaToZone ::
    "u32 \<Rightarrow> u32 \<Rightarrow> 'v WorldGraphQt \<Rightarrow> bool \<times> 'v WorldGraphQt" where
  "WorldGraphQt_assignAreaToZone areaId zoneId q =
     (case (map_of (wq_areas q) areaId, map_of (wq_zones q) zoneId) of
        (Some area, Some zone) \<Rightarrow>
          (True, q\<lparr>wq_areas := AList.update areaId (area\<lparr>ar_zone := Some zoneId\<rparr>) (wq_areas q),
             wq_zones := AList.update zoneId
               (zone\<lparr>zn_area_ids := insert areaId (zn_area_ids zone)\<rparr>) (wq_zones q)\<rparr>)
      | _ \<Rightarrow> (False, q))"

text \<open>The ids are united as a set first: a room listed in two areas appears once.\<close>

definition WorldGraphQt_roomsInZone :: "'v WorldGraphQt \<Rightarrow> u32 \<Rightarrow> u32 list" where
  "WorldGraphQt_roomsInZone q zoneId =
     sorted_list_of_set
       (case map_of (wq_zones q) zoneId of
          None \<Rightarrow> {}
        | Some zone \<Rightarrow> \<Union> ((\<lambda>a. case map_of (wq_areas q) a of
              None \<Rightarrow> {} | Some area \<Rightarrow> ar_room_ids area) ` zn_area_ids zone))"

definition WorldGraphQt_addExit :: "u32 \<Rightarrow> Exit \<Rightarrow> 'v WorldGraphQt \<Rightarrow> bool \<times> 'v WorldGraphQt" where
  "WorldGraphQt_addExit src e q =
     (case map_of (wq_rooms q) src of
        None \<Rightarrow> (False, q)
      | Some room \<Rightarrow>
          if map_of (wq_rooms q) (ex_to e) = None then (False, q)
          else if (case ex_timed e of None \<Rightarrow> False
                   | Some t \<Rightarrow> 1440 \<le> tw_start_minute t \<or> 1440 \<le> tw_end_minute t)
          then (False, q)
          else if kMaxExitsPerRoom \<le> length (rm_exits room) then (False, q)
          else if list_ex (\<lambda>x. ex_command x = ex_command e) (rm_exits room) then (False, q)
          else (True, q\<lparr>wq_rooms := AList.update src
                  (room\<lparr>rm_exits := rm_exits room @ [e]\<rparr>) (wq_rooms q)\<rparr>))"

definition WorldGraphQt_room :: "'v WorldGraphQt \<Rightarrow> u32 \<Rightarrow> Room option" where
  "WorldGraphQt_room q i = map_of (wq_rooms q) i"

text \<open>\<open>qBound(0.0, c, 1.0)\<close> on a finite confidence.\<close>

definition qBound01 :: "rat \<Rightarrow> rat" where
  "qBound01 c = max 0 (min 1 c)"

definition WorldGraphQt_insertFact ::
    "string \<Rightarrow> u64 \<Rightarrow> string \<Rightarrow> rat \<Rightarrow> Sensitivity \<Rightarrow> string \<Rightarrow> 'v \<Rightarrow> 'v WorldGraphQt \<Rightarrow>
      u64 \<times> 'v WorldGraphQt" where
  "WorldGraphQt_insertFact sourceEvent time scope confidence sensitivity modelVersion payload q =
     (let i = of_nat (length (wq_facts q) + 1) in
      (i, q\<lparr>wq_facts := wq_facts q @
          [\<lparr>df_id = i, df_source_event = sourceEvent, df_time = time, df_scope = scope,
            df_confidence = qBound01 confidence, df_sensitivity = sensitivity,
            df_model_version = modelVersion, df_superseded_by = None, df_payload = payload\<rparr>]\<rparr>))"

text \<open>The loop marks every fact with the id; the size of the list does not change meanwhile.\<close>

definition WorldGraphQt_applyCorrection ::
    "u64 \<Rightarrow> u64 \<Rightarrow> 'v \<Rightarrow> string \<Rightarrow> 'v WorldGraphQt \<Rightarrow> bool \<times> 'v WorldGraphQt" where
  "WorldGraphQt_applyCorrection factId time payload note q =
     (let facts = map (\<lambda>f. if df_id f = factId
              then f\<lparr>df_superseded_by := Some (of_nat (length (wq_facts q) + 1)), df_payload := payload\<rparr>
              else f) (wq_facts q) in
      if \<not> list_ex (\<lambda>f. df_id f = factId) (wq_facts q) then (False, q\<lparr>wq_facts := facts\<rparr>)
      else (True, q\<lparr>wq_facts := facts, wq_corrections := wq_corrections q @
              [\<lparr>co_fact_id = factId, co_time = time, co_payload = payload, co_note = note\<rparr>]\<rparr>))"

definition WorldGraphQt_activeFactCount :: "'v WorldGraphQt \<Rightarrow> nat" where
  "WorldGraphQt_activeFactCount q = length (filter (\<lambda>f. df_superseded_by f = None) (wq_facts q))"

section \<open>The route search by scanning\<close>

record SearchQt =
  sq_dist :: dist_map
  sq_prev :: prev_map
  sq_visited :: "u32 set"

definition dist_value :: "dist_map \<Rightarrow> u32 \<Rightarrow> nat" where
  "dist_value dm k = (case map_of dm k of None \<Rightarrow> 0 | Some d \<Rightarrow> d)"

text \<open>The scan over the sorted keys: the best unvisited key so far with its distance.\<close>

fun pick_nearest :: "dist_map \<Rightarrow> u32 set \<Rightarrow> u32 list \<Rightarrow> (u32 \<times> nat) option \<Rightarrow> (u32 \<times> nat) option" where
  "pick_nearest dm visited [] best = best"
| "pick_nearest dm visited (k # ks) best =
     (if k \<in> visited then pick_nearest dm visited ks best
      else if (case best of None \<Rightarrow> True | Some (c, b) \<Rightarrow> dist_value dm k < b)
      then pick_nearest dm visited ks (Some (k, dist_value dm k))
      else pick_nearest dm visited ks best)"

definition relaxQt :: "u32 option \<Rightarrow> bool \<Rightarrow> u32 \<Rightarrow> nat \<Rightarrow> Exit \<Rightarrow> SearchQt \<Rightarrow> SearchQt" where
  "relaxQt now allowHidden cur dCur e s =
     (if ex_kind e = LockedExit then s
      else if ex_kind e = HiddenExit \<and> \<not> allowHidden then s
      else if ex_door e = LockedDoor then s
      else if (case ex_timed e of None \<Rightarrow> False
               | Some t \<Rightarrow> (case now of None \<Rightarrow> True | Some m \<Rightarrow> \<not> TimedWindow_contains t m)) then s
      else let nd = dCur + max (unat (ex_weight e)) 1 in
        if map_of (sq_dist s) (ex_to e) = None \<or> nd < dist_value (sq_dist s) (ex_to e)
        then s\<lparr>sq_dist := AList.update (ex_to e) nd (sq_dist s),
               sq_prev := AList.update (ex_to e) (cur, ex_command e) (sq_prev s)\<rparr>
        else s)"

fun relaxQt_exits :: "u32 option \<Rightarrow> bool \<Rightarrow> u32 \<Rightarrow> nat \<Rightarrow> Exit list \<Rightarrow> SearchQt \<Rightarrow> SearchQt" where
  "relaxQt_exits now h cur d [] s = s"
| "relaxQt_exits now h cur d (e # es) s = relaxQt_exits now h cur d es (relaxQt now h cur d e s)"

lemma relaxQt_exits_visited [simp]: "sq_visited (relaxQt_exits now h cur d es s) = sq_visited s"
proof (induction es arbitrary: s)
  case (Cons e es)
  have "sq_visited (relaxQt now h cur d e s) = sq_visited s" by (simp add: relaxQt_def Let_def)
  then show ?case using Cons by simp
qed simp

lemma pick_nearest_fresh:
  "pick_nearest dm V ks best = Some (c, b) \<Longrightarrow> (\<forall>c b. best = Some (c, b) \<longrightarrow> c \<notin> V) \<Longrightarrow> c \<notin> V"
  by (induction ks arbitrary: best) (auto split: if_splits option.splits)

function searchQt :: "'v WorldGraphQt \<Rightarrow> u32 \<Rightarrow> u32 option \<Rightarrow> bool \<Rightarrow> SearchQt \<Rightarrow> SearchQt" where
  "searchQt q dest now allowHidden s =
     (case pick_nearest (sq_dist s) (sq_visited s) (sort (map fst (sq_dist s))) None of
        None \<Rightarrow> s
      | Some (cur, best) \<Rightarrow>
          if cur = dest then s
          else let s1 = s\<lparr>sq_visited := insert cur (sq_visited s)\<rparr> in
            (case map_of (wq_rooms q) cur of
               None \<Rightarrow> searchQt q dest now allowHidden s1
             | Some room \<Rightarrow> searchQt q dest now allowHidden
                 (relaxQt_exits now allowHidden cur (dist_value (sq_dist s1) cur) (rm_exits room) s1)))"
  by pat_completeness auto
termination
  by (relation "measure (\<lambda>(q, dest, now, h, s). unsettled (sq_visited s))")
     (auto intro!: unsettled_insert dest: pick_nearest_fresh)

declare searchQt.simps [simp del]

partial_function (option) backtrackQt ::
    "u32 \<Rightarrow> prev_map \<Rightarrow> u32 \<Rightarrow> u32 list \<Rightarrow> string list \<Rightarrow> (u32 list \<times> string list) option option" where
  "backtrackQt src prev cur nodes commands =
     (if cur = src then Some (Some (src # nodes, commands))
      else (case map_of prev cur of
              None \<Rightarrow> Some None
            | Some p \<Rightarrow> backtrackQt src prev (fst p) (cur # nodes) (snd p # commands)))"

definition WorldGraphQt_route ::
    "'v WorldGraphQt \<Rightarrow> u32 \<Rightarrow> u32 \<Rightarrow> u32 option \<Rightarrow> bool \<Rightarrow> Route option option" where
  "WorldGraphQt_route q src dest now allowHidden =
     (if map_of (wq_rooms q) src = None \<or> map_of (wq_rooms q) dest = None then Some None
      else if src = dest
      then Some (Some \<lparr>ro_from = src, ro_to = dest, ro_nodes = [src], ro_commands = [],
                       ro_total_weight = 0\<rparr>)
      else let s = searchQt q dest now allowHidden
                     \<lparr>sq_dist = [(src, 0)], sq_prev = [], sq_visited = {}\<rparr> in
        if map_of (sq_dist s) dest = None then Some None
        else (case backtrackQt src (sq_prev s) dest [] [] of
                None \<Rightarrow> None
              | Some None \<Rightarrow> Some None
              | Some (Some (nodes, commands)) \<Rightarrow>
                  Some (Some \<lparr>ro_from = src, ro_to = dest, ro_nodes = nodes, ro_commands = commands,
                              ro_total_weight = dist_value (sq_dist s) dest\<rparr>)))"

end
