(* ===== verification/MapperAgree.thy ===== *)
theory MapperAgree
  imports MapperQt
begin

text \<open>
  The Qt mapper against the core: the stores simulate each other operation by operation, and the
  two route searches return the same route.
\<close>

section \<open>The scan picks what the heap pops\<close>

lemma pick_nearest_member:
  "pick_nearest dm V ks best = Some (c, b) \<Longrightarrow>
    best = Some (c, b) \<or> (c \<in> set ks \<and> c \<notin> V \<and> b = dist_value dm c)"
  by (induction ks arbitrary: best) (auto split: if_splits option.splits)

lemma pick_nearest_le:
  "pick_nearest dm V ks best = Some (c, b) \<Longrightarrow> w \<in> set ks \<Longrightarrow> w \<notin> V \<Longrightarrow> b \<le> dist_value dm w"
  "pick_nearest dm V ks best = Some (c, b) \<Longrightarrow> best = Some (c', b') \<Longrightarrow> b \<le> b'"
proof (induction ks arbitrary: best c' b')
  case (Cons k ks)
  {
    case 1
    then show ?case using Cons.IH(1) Cons.IH(2) [OF _ refl]
      by (fastforce split: if_splits option.splits)
  next
    case 2
    then show ?case using Cons.IH(2) [OF _ refl] by (fastforce split: if_splits)
  }
qed auto

lemma pick_nearest_tie:
  "pick_nearest dm V ks (Some (c', b')) = Some (c, b) \<Longrightarrow> (c, b) = (c', b') \<or> b < b'"
proof (induction ks arbitrary: c' b')
  case (Cons k ks)
  show ?case
  proof (cases "k \<notin> V \<and> dist_value dm k < b'")
    case True
    then have p: "pick_nearest dm V ks (Some (k, dist_value dm k)) = Some (c, b)"
      using Cons.prems by simp
    show ?thesis using Cons.IH [OF p] True by auto
  next
    case False
    then have "pick_nearest dm V ks (Some (c', b')) = Some (c, b)"
      using Cons.prems by (auto split: if_splits)
    then show ?thesis by (rule Cons.IH)
  qed
qed simp

lemma pick_nearest_first:
  "pick_nearest dm V ks best = Some (c, b) \<Longrightarrow> sorted ks \<Longrightarrow> w \<in> set ks \<Longrightarrow> w \<notin> V \<Longrightarrow>
    dist_value dm w = b \<Longrightarrow> best = Some (c, b) \<or> c \<le> w"
proof (induction ks arbitrary: best)
  case (Cons k ks)
  define b1 where "b1 = (if k \<in> V then best
      else if (case best of None \<Rightarrow> True | Some (c, b) \<Rightarrow> dist_value dm k < b)
      then Some (k, dist_value dm k) else best)"
  have p: "pick_nearest dm V ks b1 = Some (c, b)"
    using Cons.prems(1) by (auto simp: b1_def split: if_splits)
  show ?case
  proof (cases "w \<in> set ks")
    case True
    have "b1 = Some (c, b) \<or> c \<le> w" using Cons.IH [OF p] Cons.prems True by simp
    then show ?thesis using Cons.prems(2) True by (auto simp: b1_def split: if_splits)
  next
    case False
    then have w: "w = k" "k \<notin> V" using Cons.prems(3,4) by auto
    have "b1 \<noteq> None" using w(2) by (simp add: b1_def split: option.split)
    then obtain c1 d1 where b1: "b1 = Some (c1, d1)" by (cases b1) auto
    have "d1 \<le> dist_value dm k" "b1 = best \<or> c1 = k"
      using b1 w(2) by (auto simp: b1_def split: if_splits option.splits)
    then show ?thesis using pick_nearest_tie [OF p [unfolded b1]] Cons.prems(5) w b1 by auto
  qed
qed simp

lemma pick_nearest_some:
  "best \<noteq> None \<or> (\<exists>w \<in> set ks. w \<notin> V) \<Longrightarrow> pick_nearest dm V ks best \<noteq> None"
  by (induction ks arbitrary: best) (auto split: option.splits)

lemma pick_popped:
  assumes inv: "search_inv g src dest now h s" and q: "se_queue s = (k, c) # q"
    and new: "c \<notin> se_visited s"
  shows "pick_nearest (se_dist s) (se_visited s) (sort (map fst (se_dist s))) None = Some (c, k)"
proof -
  let ?ks = "sort (map fst (se_dist s))" and ?dv = "dist_value (se_dist s)"
  have ok: "queue_ok s" using inv by (simp add: search_inv_def)
  have dc: "map_of (se_dist s) c = Some k" by (rule popped_current [OF ok q new])
  have c: "c \<in> set ?ks" "?dv c = k"
    using dc by (auto simp: dist_value_def dest: map_of_SomeD intro: image_eqI [where x = "(c, k)"])
  obtain c' k' where p: "pick_nearest (se_dist s) (se_visited s) ?ks None = Some (c', k')"
    using pick_nearest_some [of None ?ks "se_visited s" "se_dist s"] c new by auto
  have m: "c' \<in> set ?ks" "c' \<notin> se_visited s" "k' = ?dv c'" using pick_nearest_member [OF p] by auto
  obtain d where "map_of (se_dist s) c' = Some d"
    using m(1) by (auto simp: map_of_eq_None_iff dest: weak_map_of_SomeI)
  then have d: "map_of (se_dist s) c' = Some k'" using m(3) by (simp add: dist_value_def)
  have "(k', c') \<in> set (se_queue s)" by (rule queue_has [OF ok d m(2)])
  then have 1: "pair_le (k, c) (k', c')" by (rule popped_least [OF ok q])
  have 2: "k' \<le> k" using pick_nearest_le(1) [OF p c(1) new] c(2) by simp
  have 3: "k = k' \<Longrightarrow> c' \<le> c" using pick_nearest_first [OF p _ c(1) new] c(2) by simp
  have "k' = k" "c' = c" using 1 2 3 by (auto simp: pair_le_def)
  then show ?thesis using p by simp
qed

lemma pick_none:
  assumes ok: "queue_ok s" and q: "se_queue s = []"
  shows "pick_nearest (se_dist s) (se_visited s) (sort (map fst (se_dist s))) None = None"
proof (rule ccontr)
  assume "\<not> ?thesis"
  then obtain c k where p: "pick_nearest (se_dist s) (se_visited s) (sort (map fst (se_dist s))) None
      = Some (c, k)" by auto
  have "c \<in> set (sort (map fst (se_dist s)))" "c \<notin> se_visited s" using pick_nearest_member [OF p] by auto
  moreover then obtain d where "map_of (se_dist s) c = Some d"
    by (auto dest: weak_map_of_SomeI)
  ultimately show False using queue_has [OF ok, of c d] q by simp
qed

section \<open>The two searches\<close>

definition scan_view :: "Search \<Rightarrow> SearchQt" where
  "scan_view s = \<lparr>sq_dist = se_dist s, sq_prev = se_prev s, sq_visited = se_visited s\<rparr>"

lemma scan_view_relax:
  "relaxQt now h cur d e (scan_view s) = scan_view (relax now h cur d e s)"
  by (auto simp: relaxQt_def relax_def scan_view_def exit_usable_def improves_def exit_cost_def
      dist_value_def Let_def split: option.splits)

lemma scan_view_relax_exits:
  "relaxQt_exits now h cur d es (scan_view s) = scan_view (relax_exits now h cur d es s)"
  by (induction es arbitrary: s) (simp_all add: scan_view_relax)

lemma search_agrees:
  assumes "search_inv g src dest now h s" "wg_rooms g = wq_rooms q"
  shows "search g dest now h s = Inr r \<Longrightarrow> searchQt q dest now h (scan_view s) = scan_view r"
  using assms
proof (induction g dest now h s rule: search.induct)
  case (1 g dest now h s)
  have ok: "queue_ok s" using "1.prems"(2) by (simp add: search_inv_def)
  have fresh: "dest \<notin> se_visited s" using "1.prems"(2) by (simp add: search_inv_def bounds_ok_def)
  have fields: "sq_dist (scan_view s) = se_dist s" "sq_visited (scan_view s) = se_visited s"
    by (simp_all add: scan_view_def)
  from "1.prems"(2) show ?case
  proof (cases rule: search_turn_cases)
    case empty
    then have "r = s" using "1.prems"(1) by (simp add: search.simps [of g])
    then show ?thesis using pick_none [OF ok empty(1)]
      by (simp add: searchQt.simps [of q dest now h "scan_view s"] fields)
  next
    case (old k c qs)
    have "searchQt q dest now h (scan_view (s\<lparr>se_queue := qs\<rparr>)) = scan_view r"
      using "1.IH" [OF old(3)] "1.prems" search_inv_skip [OF "1.prems"(2) old(1,2)] old(3)
      by (simp add: search.simps [of g dest now h s])
    then show ?thesis by (simp add: scan_view_def)
  next
    case (found k qs)
    then have "r = s\<lparr>se_queue := qs\<rparr>" using "1.prems"(1) by (simp add: search.simps [of g])
    then show ?thesis using pick_popped [OF "1.prems"(2) found(1) fresh]
      by (simp add: searchQt.simps [of q dest now h "scan_view s"] fields) (simp add: scan_view_def)
  next
    case (new k c qs t)
    then have turn: "search_turn g dest now h s = Continue t" and rec: "search g dest now h t = Inr r"
      using "1.prems"(1) by (auto simp: search.simps [of g dest now h s] split: if_splits)
    have st: "settling g src dest now h s k c qs t" by (rule new(3))
    have t: "t = settle now h c k qs (room_exits g c) s" by (rule settlingD(4) [OF st])
    have "searchQt q dest now h (scan_view t) = scan_view r"
      using "1.IH" [OF turn rec] settling_inv [OF st new(2)] "1.prems"(3) by simp
    moreover have "scan_view (s\<lparr>se_queue := qs, se_visited := insert c (se_visited s),
          se_opened := se_opened s + 1\<rparr>) = scan_view s\<lparr>sq_visited := insert c (se_visited s)\<rparr>"
      by (simp add: scan_view_def)
    moreover have "dist_value (se_dist s) c = k" using ctx_current [OF st] by (simp add: dist_value_def)
    ultimately have "searchQt q dest now h (scan_view s) = scan_view r"
      using pick_popped [OF "1.prems"(2) new(1) settlingD(3) [OF st]] new(2) "1.prems"(3)
      unfolding t settle_def room_exits_def
      by (simp add: searchQt.simps [of q dest now h "scan_view s"] fields Let_def
          flip: scan_view_relax_exits split: option.splits)
    then show ?thesis .
  qed
qed

section \<open>Following the predecessors back\<close>

lemma backtrack_agrees:
  assumes "backtrack src prev cur nodes cmds = Some r"
  shows "backtrackQt src prev cur (rev nodes) (rev cmds)
      = Some (case r of Inl e \<Rightarrow> None | Inr nc \<Rightarrow> Some nc)"
proof (rule backtrack.raw_induct [OF _ assms, where
      P = "\<lambda>src prev cur nodes cmds r. backtrackQt src prev cur (rev nodes) (rev cmds)
        = Some (case r of Inl e \<Rightarrow> None | Inr nc \<Rightarrow> Some nc)"])
  fix bt :: "u32 \<Rightarrow> prev_map \<Rightarrow> u32 \<Rightarrow> u32 list \<Rightarrow> string list \<Rightarrow>
      (GraphRouteError + u32 list \<times> string list) option" and src prev cur nodes cmds r
  assume IH: "\<And>src prev cur nodes cmds y. bt src prev cur nodes cmds = Some y \<Longrightarrow>
      backtrackQt src prev cur (rev nodes) (rev cmds)
        = Some (case y of Inl e \<Rightarrow> None | Inr nc \<Rightarrow> Some nc)"
    and step: "(if cur = src then Some (Inr (rev (nodes @ [src]), rev cmds))
      else case map_of prev cur of None \<Rightarrow> Some (Inl NoPath)
        | Some pc \<Rightarrow> bt src prev (fst pc) (nodes @ [cur]) (cmds @ [snd pc])) = Some r"
  show "backtrackQt src prev cur (rev nodes) (rev cmds)
      = Some (case r of Inl e \<Rightarrow> None | Inr nc \<Rightarrow> Some nc)"
  proof (cases "cur = src")
    case True
    then show ?thesis using step by (auto simp: backtrackQt.simps)
  next
    case False
    show ?thesis
    proof (cases "map_of prev cur")
      case None
      then show ?thesis using step False by (auto simp: backtrackQt.simps)
    next
      case (Some pc)
      then show ?thesis using IH [of src prev "fst pc" "nodes @ [cur]" "cmds @ [snd pc]" r] step False
        by (simp add: backtrackQt.simps [of src prev cur])
    qed
  qed
qed

section \<open>The stores\<close>

text \<open>
  The operations that both sides offer, and what they answer: whether they were accepted, and the identifier of a new
  fact. The events are the core's own; the Qt side keeps none. The current room of the core is a public field.
  Loading a snapshot, which replaces the world of each side by what its own text form holds, is not among them.
\<close>

datatype 'v MapperOp = World "'v GraphOp" | CacheValue string 'v | EnterRoom u32

definition mapper_rel :: "'v WorldGraphQt \<Rightarrow> 'v WorldGraph \<Rightarrow> bool" where
  "mapper_rel q g \<longleftrightarrow> wg_rooms g = wq_rooms q \<and> wg_areas g = wq_areas q \<and> wg_zones g = wq_zones q
     \<and> wg_facts g = wq_facts q \<and> wg_corrections g = wq_corrections q \<and> wg_cache g = wq_cache q
     \<and> wg_next_fact_id g = of_nat (length (wq_facts q) + 1)"

fun world_step :: "'v GraphOp \<Rightarrow> 'v WorldGraphQt \<Rightarrow> u64 option \<times> 'v WorldGraphQt" where
  "world_step (AddRoom r) q = apfst (\<lambda>b. if b then Some 0 else None) (WorldGraphQt_addRoom r q)"
| "world_step (AddArea a) q = apfst (\<lambda>b. if b then Some 0 else None) (WorldGraphQt_addArea a q)"
| "world_step (AddZone z) q = apfst (\<lambda>b. if b then Some 0 else None) (WorldGraphQt_addZone z q)"
| "world_step (AssignArea a z) q = apfst (\<lambda>b. if b then Some 0 else None) (WorldGraphQt_assignAreaToZone a z q)"
| "world_step (AddExit i e) q = apfst (\<lambda>b. if b then Some 0 else None) (WorldGraphQt_addExit i e q)"
| "world_step (PushEvent k r t p) q = (Some 0, q)"
| "world_step (InsertFact ev t sc c se m p) q = apfst Some (WorldGraphQt_insertFact ev t sc c se m p q)"
| "world_step (ApplyCorrection i t p n) q = apfst (\<lambda>b. if b then Some 0 else None) (WorldGraphQt_applyCorrection i t p n q)"

fun mapper_step :: "'v MapperOp \<Rightarrow> 'v WorldGraphQt \<Rightarrow> 'v WorldGraphQt" where
  "mapper_step (World x) q = snd (world_step x q)"
| "mapper_step (CacheValue k v) q = q\<lparr>wq_cache := snd (HotCacheQt_set k v (wq_cache q))\<rparr>"
| "mapper_step (EnterRoom r) q = q\<lparr>wq_cache := HotCacheQt_setCurrentRoom r (wq_cache q)\<rparr>"

fun mapper_answer :: "'v MapperOp \<Rightarrow> 'v WorldGraphQt \<Rightarrow> u64 option" where
  "mapper_answer (World x) q = fst (world_step x q)"
| "mapper_answer (CacheValue k v) q = (if fst (HotCacheQt_set k v (wq_cache q)) then Some 0 else None)"
| "mapper_answer (EnterRoom r) q = Some 0"

definition accepted :: "'e + 'a \<Rightarrow> u64 option" where
  "accepted r = (case r of Inl e \<Rightarrow> None | Inr x \<Rightarrow> Some 0)"

fun core_step :: "'v MapperOp \<Rightarrow> 'v WorldGraph \<Rightarrow> 'v WorldGraph" where
  "core_step (World x) g = graph_step x g"
| "core_step (CacheValue k v) g = g\<lparr>wg_cache := snd (HotCache_set k v (wg_cache g))\<rparr>"
| "core_step (EnterRoom r) g = g\<lparr>wg_cache := (wg_cache g)\<lparr>hc_current_room := Some r\<rparr>\<rparr>"

fun core_answer :: "'v MapperOp \<Rightarrow> 'v WorldGraph \<Rightarrow> u64 option" where
  "core_answer (World (AddRoom r)) g = accepted (fst (WorldGraph_add_room r g))"
| "core_answer (World (AddArea a)) g = accepted (fst (WorldGraph_add_area a g))"
| "core_answer (World (AddZone z)) g = accepted (fst (WorldGraph_add_zone z g))"
| "core_answer (World (AssignArea a z)) g = accepted (fst (WorldGraph_assign_area_to_zone a z g))"
| "core_answer (World (AddExit i e)) g = accepted (fst (WorldGraph_add_exit i e g))"
| "core_answer (World (PushEvent k r t p)) g = Some 0"
| "core_answer (World (InsertFact ev t sc c se m p)) g = Some (fst (WorldGraph_insert_fact ev t sc c se m p g))"
| "core_answer (World (ApplyCorrection i t p n)) g = accepted (fst (WorldGraph_apply_correction i t p n g))"
| "core_answer (CacheValue k v) g = accepted (fst (HotCache_set k v (wg_cache g)))"
| "core_answer (EnterRoom r) g = Some 0"

lemmas mapper_ops = WorldGraphQt_addRoom_def WorldGraphQt_addArea_def WorldGraphQt_addZone_def
  WorldGraphQt_assignAreaToZone_def WorldGraphQt_addExit_def WorldGraphQt_insertFact_def
  WorldGraphQt_applyCorrection_def

lemma mapper_consts: "kMaxRooms = MAX_ROOMS" "kMaxExitsPerRoom = MAX_EXITS_PER_ROOM" "kMaxEntries = MAX_HOT_CACHE_ENTRIES"
  by (simp_all add: kMaxRooms_def MAX_ROOMS_def kMaxExitsPerRoom_def MAX_EXITS_PER_ROOM_def kMaxEntries_def
      MAX_HOT_CACHE_ENTRIES_def)

lemma qBound01_eq: "qBound01 c = clamp01 c"
  by (simp add: qBound01_def clamp01_def)

lemma find_list_ex: "find P xs = None \<longleftrightarrow> \<not> list_ex P xs"
  by (induction xs) auto

lemma map_unmarked: "\<not> list_ex P xs \<Longrightarrow> map (\<lambda>x. if P x then f x else x) xs = xs"
  by (induction xs) auto

lemma world_rel_step:
  "mapper_rel q g \<Longrightarrow> mapper_rel (snd (world_step x q)) (graph_step x g) \<and> fst (world_step x q) = core_answer (World x) g"
proof (cases x)
  case (AssignArea a z)
  assume "mapper_rel q g"
  then show ?thesis unfolding AssignArea
    by (auto simp: mapper_rel_def graph_ops mapper_ops accepted_def split: option.splits)
next
  case (ApplyCorrection i t p n)
  assume rel: "mapper_rel q g"
  show ?thesis
  proof (cases "list_ex (\<lambda>f. df_id f = i) (wq_facts q)")
    case True
    then have "find (\<lambda>f. df_id f = i) (wg_facts g) \<noteq> None"
      using rel by (simp only: find_list_ex mapper_rel_def not_not)
    then show ?thesis using rel True unfolding ApplyCorrection
      by (auto simp: mapper_rel_def WorldGraph_apply_correction_def WorldGraphQt_applyCorrection_def
          accepted_def Let_def)
  next
    case False
    then have "find (\<lambda>f. df_id f = i) (wg_facts g) = None"
      using rel by (simp only: find_list_ex mapper_rel_def) simp
    then show ?thesis using rel False unfolding ApplyCorrection
      by (simp add: mapper_rel_def WorldGraph_apply_correction_def WorldGraphQt_applyCorrection_def
          map_unmarked accepted_def Let_def)
  qed
qed (auto simp: mapper_rel_def graph_ops mapper_ops mapper_consts qBound01_eq accepted_def Let_def
      split: option.splits)

lemma mapper_rel_step: "mapper_rel q g \<Longrightarrow> mapper_rel (mapper_step x q) (core_step x g) \<and> mapper_answer x q = core_answer x g"
proof (cases x)
  case (World y)
  assume "mapper_rel q g"
  then show ?thesis using world_rel_step [of q g y] World by simp
qed (auto simp: mapper_rel_def HotCacheQt_set_def HotCache_set_def HotCacheQt_setCurrentRoom_def mapper_consts accepted_def)

interpretation mapper_mirror: simulation mapper_step core_step "\<lambda>x. x" mapper_rel "\<lambda>_. True"
  by unfold_locales (simp add: mapper_rel_step)

lemma run_mapper_rel: "mapper_rel q g \<Longrightarrow> mapper_rel (run mapper_step ops q) (run core_step ops g)"
  using mapper_mirror.sim_run [of q g ops] by (simp add: list_all_iff)

lemma mapper_rel_new: "mapper_rel WorldGraphQt_new WorldGraph_new"
  by (simp add: mapper_rel_def WorldGraphQt_new_def WorldGraph_new_def HotCache_new_def)

lemma routes_agree:
  assumes rooms: "wg_rooms g = wq_rooms q"
  shows "case WorldGraph_route g src dest now h of
     Some (Inl BudgetExceeded) \<Rightarrow> wg_route_budget g < card {v. \<exists>es. is_walk g now h src es v}
   | Some (Inr r) \<Rightarrow> WorldGraphQt_route q src dest now h = Some (Some r)
   | _ \<Rightarrow> WorldGraphQt_route q src dest now h = Some None"
proof (cases "map_of (wg_rooms g) src = None \<or> map_of (wg_rooms g) dest = None \<or> src = dest")
  case True
  then show ?thesis using rooms by (auto simp: WorldGraph_route_def WorldGraphQt_route_def)
next
  case False
  obtain s where inv: "search_inv g src dest now h s" and
    res: "case search g dest now h (search_start src) of
       Inr r \<Rightarrow> search_done dest s r
     | Inl e \<Rightarrow> e = BudgetExceeded \<and> (\<exists>k c q. se_queue s = (k, c) # q \<and> c \<notin> se_visited s)
         \<and> wg_route_budget g < card (se_visited s) + 1"
    using search_result [OF search_inv_start] by blast
  show ?thesis
  proof (cases "search g dest now h (search_start src)")
    case (Inl e)
    then have "e = BudgetExceeded" "wg_route_budget g < card {v. \<exists>es. is_walk g now h src es v}"
      using res settled_reachable [OF inv] by fastforce+
    then show ?thesis using False Inl by (auto simp: WorldGraph_route_def)
  next
    case (Inr r)
    then have fin: "search_done dest s r" using res by simp
    have "searchQt q dest now h (scan_view (search_start src)) = scan_view r"
      by (rule search_agrees [OF search_inv_start rooms Inr])
    then have qt: "searchQt q dest now h \<lparr>sq_dist = [(src, 0)], sq_prev = [], sq_visited = {}\<rparr>
        = scan_view r" by (simp add: scan_view_def search_start_def)
    show ?thesis
    proof (cases "map_of (se_dist r) dest")
      case None
      then show ?thesis using False Inr qt rooms
        by (auto simp: WorldGraph_route_def WorldGraphQt_route_def scan_view_def)
    next
      case (Some x)
      have fields: "se_dist r = se_dist s" "se_prev r = se_prev s"
        using fin by (auto simp: search_done_def)
      have "map_of (se_dist s) dest = Some x" using Some fields by simp
      from label_walk [OF inv this] obtain es :: "Exit list" where
        es: "\<forall>nodes cmds. backtrack src (se_prev r) dest nodes cmds
          = Some (Inr (src # map ex_to es @ rev nodes, map ex_command es @ rev cmds))"
        unfolding fields by blast
      have bt: "backtrack src (se_prev r) dest [] []
          = Some (Inr (src # map ex_to es, map ex_command es))"
        using spec [OF spec [OF es], of "[]" "[]"] by simp
      have "backtrackQt src (se_prev r) dest [] [] = Some (Some (src # map ex_to es, map ex_command es))"
        using backtrack_agrees [OF bt] by simp
      then show ?thesis using False Inr Some qt rooms bt
        by (auto simp: WorldGraph_route_def WorldGraphQt_route_def scan_view_def dist_value_def)
    qed
  qed
qed

section \<open>Properties\<close>

text \<open>
  C6: The Qt mapper agrees with the core on the operations both offer: adding rooms, areas, zones and exits, assigning
  areas, events, facts, corrections, and the hot cache, in any order; loading a snapshot and direct changes of public
  fields are not among them. From states that hold the same world, as the new ones do, both hold the same rooms,
  areas, zones, facts, corrections and cache afterwards, the next operation is accepted by both or by neither, a new fact
  gets the same identifier, and every route query gives the same answer on both sides, the same rooms and commands
  in the same order, except that the core gives up where its budget is exceeded: then more rooms can be reached than
  the budget allows.
\<close>

theorem mappers_agree:
  "mapper_rel WorldGraphQt_new WorldGraph_new
   \<and> (if mapper_rel q0 g0
      then
        let q = run mapper_step ops q0; g = run core_step ops g0 in
        wq_rooms q = wg_rooms g \<and> wq_areas q = wg_areas g \<and> wq_zones q = wg_zones g
        \<and> wq_facts q = wg_facts g \<and> wq_corrections q = wg_corrections g \<and> wq_cache q = wg_cache g
        \<and> mapper_answer x q = core_answer x g
        \<and> (case WorldGraph_route g src dest now h of
             Some (Inl BudgetExceeded) \<Rightarrow> wg_route_budget g < card {v. \<exists>es. is_walk g now h src es v}
           | Some (Inr r) \<Rightarrow> WorldGraphQt_route q src dest now h = Some (Some r)
           | _ \<Rightarrow> WorldGraphQt_route q src dest now h = Some None)
      else True)"
proof (cases "mapper_rel q0 g0")
  case True
  let ?q = "run mapper_step ops q0" and ?g = "run core_step ops g0"
  have rel: "mapper_rel ?q ?g" by (rule run_mapper_rel [OF True])
  then have "wg_rooms ?g = wq_rooms ?q" by (simp add: mapper_rel_def)
  from routes_agree [OF this, of src dest now h] rel mapper_rel_step [OF rel, of x] True mapper_rel_new show ?thesis
    by (simp only: Let_def mapper_rel_def simp_thms if_True)
next
  case False
  then show ?thesis using mapper_rel_new by (simp only: if_False simp_thms)
qed

end
