(* ===== verification/MapperJson.thy ===== *)
theory MapperJson
  imports MapperQt
begin

text \<open>
  The JSON snapshot of the Qt world graph: what \<open>exportJson\<close> writes and \<open>importJson\<close> reads back,
  room by room. Every number is written from a \<open>quint32\<close> as a signed 64-bit integer and read back
  with \<open>toInt\<close>, which gives 0 for a number that is not an \<open>int\<close>.
\<close>

section \<open>Names and numbers\<close>

fun exitKindName :: "ExitKind \<Rightarrow> string" where
  "exitKindName NormalExit = ''normal''"
| "exitKindName HiddenExit = ''hidden''"
| "exitKindName LockedExit = ''locked''"
| "exitKindName OneWayExit = ''one-way''"
| "exitKindName PortalExit = ''portal''"

fun doorStatusName :: "DoorStatus \<Rightarrow> string" where
  "doorStatusName NoDoor = ''none''"
| "doorStatusName OpenDoor = ''open''"
| "doorStatusName ClosedDoor = ''closed''"
| "doorStatusName LockedDoor = ''locked''"

definition jv :: "u32 \<Rightarrow> json" where
  "jv v = JInt (uint v)"

definition identityName :: "IdentityState \<Rightarrow> string" where
  "identityName i = (if i = Confirmed then ''confirmed'' else if i = Ambiguous then ''ambiguous''
     else ''corrected'')"

definition read_u32 :: "json \<Rightarrow> u32" where
  "read_u32 j = word_of_int (j_int j)"

definition exit_kind_of :: "string \<Rightarrow> ExitKind" where
  "exit_kind_of k = (if k = ''hidden'' then HiddenExit else if k = ''locked'' then LockedExit
     else if k = ''one-way'' then OneWayExit else if k = ''portal'' then PortalExit else NormalExit)"

definition door_status_of :: "string \<Rightarrow> DoorStatus" where
  "door_status_of d = (if d = ''open'' then OpenDoor else if d = ''closed'' then ClosedDoor
     else if d = ''locked'' then LockedDoor else NoDoor)"

section \<open>Export\<close>

definition exit_to_json :: "Exit \<Rightarrow> json" where
  "exit_to_json e = JObject
     ([(''to'', jv (ex_to e)), (''command'', JString (ex_command e)),
       (''kind'', JString (exitKindName (ex_kind e))), (''weight'', jv (ex_weight e)),
       (''door'', JString (doorStatusName (ex_door e)))]
      @ (case ex_timed e of None \<Rightarrow> []
         | Some t \<Rightarrow> [(''timed'', JObject [(''start_minute'', jv (tw_start_minute t)),
                                     (''end_minute'', jv (tw_end_minute t))])]))"

text \<open>The id written is the key the room is stored under.\<close>

definition room_to_json :: "u32 \<Rightarrow> Room \<Rightarrow> json" where
  "room_to_json i r = JObject
     [(''id'', jv i), (''area'', jv (rm_area r)), (''name'', JString (rm_name r)),
      (''x'', jv (rm_x r)), (''y'', jv (rm_y r)), (''z'', jv (rm_z r)),
      (''identity'', JString (identityName (rm_identity r))),
      (''exits'', JArray (map exit_to_json (rm_exits r)))]"

definition area_to_json :: "u32 \<Rightarrow> Area \<Rightarrow> json" where
  "area_to_json i a = JObject
     ([(''id'', jv i), (''name'', JString (ar_name a))]
      @ (case ar_zone a of None \<Rightarrow> [] | Some z \<Rightarrow> [(''zone'', jv z)])
      @ [(''rooms'', JArray (map jv (sorted_list_of_set (ar_room_ids a))))])"

definition zone_to_json :: "u32 \<Rightarrow> Zone \<Rightarrow> json" where
  "zone_to_json i z = JObject
     [(''id'', jv i), (''name'', JString (zn_name z)),
      (''areas'', JArray (map jv (sorted_list_of_set (zn_area_ids z))))]"

text \<open>The values of a hash in the order of its sorted keys.\<close>

definition by_key :: "(u32 \<Rightarrow> 'a \<Rightarrow> json) \<Rightarrow> (u32, 'a) hash_map \<Rightarrow> json list" where
  "by_key f m = map (\<lambda>k. case map_of m k of None \<Rightarrow> JNull | Some v \<Rightarrow> f k v) (sort (map fst m))"

definition WorldGraphQt_exportJson :: "(json_object \<Rightarrow> string) \<Rightarrow> 'v WorldGraphQt \<Rightarrow> string" where
  "WorldGraphQt_exportJson encode q = encode
     [(''schema_version'', JInt 1),
      (''rooms'', JArray (by_key room_to_json (wq_rooms q))),
      (''areas'', JArray (by_key area_to_json (wq_areas q))),
      (''zones'', JArray (by_key zone_to_json (wq_zones q)))]"

section \<open>Import\<close>

definition exit_of_json :: "json_object \<Rightarrow> Exit" where
  "exit_of_json x =
     \<lparr>ex_to = read_u32 (j_value ''to'' x), ex_command = j_string (j_value ''command'' x),
      ex_kind = exit_kind_of (j_string (j_value ''kind'' x)),
      ex_weight = read_u32 (j_value ''weight'' x),
      ex_door = door_status_of (j_string (j_value ''door'' x)),
      ex_timed = (if map_of x ''timed'' = None then None
        else let t = j_object (j_value ''timed'' x) in
          Some \<lparr>tw_start_minute = read_u32 (j_value ''start_minute'' t),
                tw_end_minute = read_u32 (j_value ''end_minute'' t)\<rparr>)\<rparr>"

definition room_of_json :: "json_object \<Rightarrow> Room" where
  "room_of_json obj =
     (let idstate = j_string (j_value ''identity'' obj) in
      \<lparr>rm_id = read_u32 (j_value ''id'' obj), rm_area = read_u32 (j_value ''area'' obj),
       rm_name = j_string (j_value ''name'' obj), rm_x = read_u32 (j_value ''x'' obj),
       rm_y = read_u32 (j_value ''y'' obj), rm_z = read_u32 (j_value ''z'' obj),
       rm_identity = (if idstate = ''ambiguous'' then Ambiguous
                      else if idstate = ''corrected'' then Corrected else Confirmed),
       rm_exits = map (\<lambda>v. exit_of_json (j_object v)) (j_array (j_value ''exits'' obj))\<rparr>)"

definition area_of_json :: "json_object \<Rightarrow> Area" where
  "area_of_json obj =
     \<lparr>ar_id = read_u32 (j_value ''id'' obj), ar_name = j_string (j_value ''name'' obj),
      ar_zone = (if map_of obj ''zone'' = None then None else Some (read_u32 (j_value ''zone'' obj))),
      ar_room_ids = set (map read_u32 (j_array (j_value ''rooms'' obj)))\<rparr>"

definition zone_of_json :: "json_object \<Rightarrow> Zone" where
  "zone_of_json obj =
     \<lparr>zn_id = read_u32 (j_value ''id'' obj), zn_name = j_string (j_value ''name'' obj),
      zn_area_ids = set (map read_u32 (j_array (j_value ''areas'' obj)))\<rparr>"

text \<open>The three loops of the import; each stops at the first element that is refused.\<close>

fun import_each :: "(json_object \<Rightarrow> 's \<Rightarrow> bool \<times> 's) \<Rightarrow> json list \<Rightarrow> 's \<Rightarrow> 's option" where
  "import_each add [] s = Some s"
| "import_each add (v # vs) s =
     (case add (j_object v) s of (True, s1) \<Rightarrow> import_each add vs s1 | (False, _) \<Rightarrow> None)"

definition WorldGraphQt_importJson ::
    "(string \<Rightarrow> json option) \<Rightarrow> string \<Rightarrow> 'v WorldGraphQt \<Rightarrow> bool \<times> 'v WorldGraphQt" where
  "WorldGraphQt_importJson parse txt q =
     (case parse txt of
        Some (JObject doc) \<Rightarrow>
          if map_of doc ''schema_version'' = None then (False, q)
          else if j_int (j_value ''schema_version'' doc) \<noteq> 1 then (False, q)
          else (case import_each (\<lambda>o1. WorldGraphQt_addRoom (room_of_json o1))
                       (j_array (j_value ''rooms'' doc)) WorldGraphQt_new of
                  None \<Rightarrow> (False, q)
                | Some f1 \<Rightarrow>
                    (case import_each (\<lambda>o1. WorldGraphQt_addArea (area_of_json o1))
                            (j_array (j_value ''areas'' doc)) f1 of
                       None \<Rightarrow> (False, q)
                     | Some f2 \<Rightarrow>
                         (case import_each (\<lambda>o1. WorldGraphQt_addZone (zone_of_json o1))
                                 (j_array (j_value ''zones'' doc)) f2 of
                            None \<Rightarrow> (False, q)
                          | Some fresh \<Rightarrow> (True, fresh))))
      | _ \<Rightarrow> (False, q))"

section \<open>What survives\<close>

text \<open>A 32-bit number comes back as it was if its top bit is clear, and as 0 otherwise.\<close>

definition json_trip :: "u32 \<Rightarrow> u32" where
  "json_trip w = (if uint w < 2 ^ 31 then w else 0)"

definition exit_trip :: "Exit \<Rightarrow> Exit" where
  "exit_trip e = e\<lparr>ex_to := json_trip (ex_to e), ex_weight := json_trip (ex_weight e),
     ex_timed := map_option (\<lambda>t. \<lparr>tw_start_minute = json_trip (tw_start_minute t),
       tw_end_minute = json_trip (tw_end_minute t)\<rparr>) (ex_timed e)\<rparr>"

definition room_trip :: "u32 \<Rightarrow> Room \<Rightarrow> Room" where
  "room_trip i r = r\<lparr>rm_id := json_trip i, rm_area := json_trip (rm_area r), rm_x := json_trip (rm_x r),
     rm_y := json_trip (rm_y r), rm_z := json_trip (rm_z r), rm_exits := map exit_trip (rm_exits r)\<rparr>"

lemma read_jv [simp]: "read_u32 (jv w) = json_trip w"
proof -
  have "- (2 ^ 31) \<le> uint w" by (rule order_trans [OF _ uint_ge_0]) simp
  then show ?thesis by (simp add: read_u32_def jv_def json_trip_def)
qed

lemma exit_kind_name [simp]: "exit_kind_of (exitKindName k) = k"
  by (cases k) (simp_all add: exit_kind_of_def)

lemma door_status_name [simp]: "door_status_of (doorStatusName d) = d"
  by (cases d) (simp_all add: door_status_of_def)

lemma exit_json_trip: "exit_of_json (j_object (exit_to_json e)) = exit_trip e"
proof (cases "ex_timed e")
  case None
  then show ?thesis
    by (simp add: exit_of_json_def exit_to_json_def exit_trip_def j_value_def)
next
  case (Some t)
  then show ?thesis
    by (simp add: exit_of_json_def exit_to_json_def exit_trip_def j_value_def Let_def)
qed

lemma negative_top_bit: "sint (w :: u32) < 0 \<longleftrightarrow> 2 ^ 31 \<le> uint w"
proof -
  have u: "uint w < 2 ^ 32" "0 \<le> uint w" using uint_bounded [of w] by simp_all
  have "sint w < 0 \<longleftrightarrow> bit (uint w) 31"
    by (simp add: sint_uint signed_take_bit_negative_iff)
  also have "\<dots> \<longleftrightarrow> odd (uint w div 2 ^ 31)" by (simp only: bit_iff_odd)
  also have "\<dots> \<longleftrightarrow> 2 ^ 31 \<le> uint w"
  proof (cases "2 ^ 31 \<le> uint w")
    case True
    then have "uint w div 2 ^ 31 = 1" using u by (intro int_div_pos_eq [where r = "uint w - 2 ^ 31"]) simp_all
    then show ?thesis using True by simp
  next
    case False
    then have "uint w div 2 ^ 31 = 0" using u by simp
    then show ?thesis using False by simp
  qed
  finally show ?thesis .
qed

section \<open>Properties\<close>

text \<open>
  A room read back from a snapshot. Its name, identity, kinds, doors and commands come back as
  they were, and so does every number below \<open>2 ^ 31\<close>; any other number comes back as 0. A negative
  coordinate is written as its unsigned value, so it always comes back as 0.
\<close>

theorem room_json_trip:
  "room_of_json (j_object (room_to_json i r)) = room_trip i r
   \<and> (sint (rm_x r) < 0) = (2 ^ 31 \<le> uint (rm_x r))"
proof
  have "map (\<lambda>v. exit_of_json (j_object v)) (map exit_to_json es) = map exit_trip es" for es
    by (induction es) (simp_all add: exit_json_trip)
  then show "room_of_json (j_object (room_to_json i r)) = room_trip i r"
    by (cases r; cases "rm_identity r")
       (simp_all add: room_of_json_def room_to_json_def room_trip_def j_value_def identityName_def)
  show "(sint (rm_x r) < 0) = (2 ^ 31 \<le> uint (rm_x r))"
    by (rule negative_top_bit)
qed

end
