(* ===== verification/Autopilot.thy ===== *)
theory Autopilot
  imports Actions
begin

text \<open>
  The guarded autopilot, \<open>wirecore/crates/wire-autopilot/src/lib.rs\<close>: the engine owns an action
  gateway and adds the opt-in, the pause on stale state, the window rate limit, the visible
  pending list with its confirmations, and its own audit log.

  The clock is a function \<open>clk\<close> from the reads of an operation, numbered in the order of the code,
  to the values read; the \<open>send\<close> closure is a function on an explicit world, as in \<open>Actions\<close>.
\<close>

section \<open>Data\<close>

datatype AutopilotMode = ModeDisabled | ConfirmEvery | AllowlistAuto

datatype StaleReason = StateStale | CommandPolicyStale | RouteStale | ApprovalStale

fun StaleReason_debug :: "StaleReason \<Rightarrow> string" where
  "StaleReason_debug StateStale = ''StateStale''"
| "StaleReason_debug CommandPolicyStale = ''CommandPolicyStale''"
| "StaleReason_debug RouteStale = ''RouteStale''"
| "StaleReason_debug ApprovalStale = ''ApprovalStale''"

record AutopilotConfig =
  ac_profile :: string
  ac_mode :: AutopilotMode
  ac_queue_capacity :: nat
  ac_max_actions_per_window :: u64
  ac_window_ms :: u64
  ac_allowlist :: "string list"

definition AutopilotConfig_new :: "string \<Rightarrow> AutopilotConfig" where
  "AutopilotConfig_new profile =
     \<lparr>ac_profile = profile, ac_mode = ModeDisabled, ac_queue_capacity = 16,
      ac_max_actions_per_window = 10, ac_window_ms = 60000, ac_allowlist = []\<rparr>"

definition AutopilotConfig_with_mode :: "AutopilotMode \<Rightarrow> AutopilotConfig \<Rightarrow> AutopilotConfig" where
  "AutopilotConfig_with_mode m c = c\<lparr>ac_mode := m\<rparr>"

definition AutopilotConfig_with_queue_capacity :: "nat \<Rightarrow> AutopilotConfig \<Rightarrow> AutopilotConfig" where
  "AutopilotConfig_with_queue_capacity n c = c\<lparr>ac_queue_capacity := n\<rparr>"

definition AutopilotConfig_with_rate_limit :: "u64 \<Rightarrow> u64 \<Rightarrow> AutopilotConfig \<Rightarrow> AutopilotConfig" where
  "AutopilotConfig_with_rate_limit n w c = c\<lparr>ac_max_actions_per_window := n, ac_window_ms := w\<rparr>"

definition AutopilotConfig_with_allowlist :: "string list \<Rightarrow> AutopilotConfig \<Rightarrow> AutopilotConfig" where
  "AutopilotConfig_with_allowlist cs c = c\<lparr>ac_allowlist := cs\<rparr>"

datatype AutopilotStatus =
  StatusDisabled | StatusReady | StatusPaused StaleReason | StatusDenied string | StatusError

record PendingAction =
  pa_proposal :: ActionProposal
  pa_requires_confirmation :: bool
  pa_status :: string
  pa_enqueued_at_ms :: u64

record AutopilotAuditEntry =
  au_at_ms :: u64
  au_proposal_id :: string
  au_command :: string
  au_action :: string
  au_detail :: string

datatype AutopilotError =
  NotEnabled | ProfileMismatch | StaleState StaleReason | RateLimited | AutopilotQueueFull
  | ProposalNotFound | AutopilotValidation string | AutopilotPolicy string

fun AutopilotError_user_message :: "AutopilotError \<Rightarrow> string" where
  "AutopilotError_user_message NotEnabled = ''autopilot is disabled for this profile''"
| "AutopilotError_user_message ProfileMismatch = ''autopilot profile does not match''"
| "AutopilotError_user_message (StaleState r) = ''autopilot paused: state is stale''"
| "AutopilotError_user_message RateLimited = ''autopilot rate limit reached''"
| "AutopilotError_user_message AutopilotQueueFull = ''autopilot queue is full''"
| "AutopilotError_user_message ProposalNotFound = ''proposal not found''"
| "AutopilotError_user_message (AutopilotValidation m) = m"
| "AutopilotError_user_message (AutopilotPolicy m) = m"

text \<open>The derived \<open>Debug\<close> output of a gate error, used as the validation message.\<close>

fun GateError_debug :: "GateError \<Rightarrow> string" where
  "GateError_debug EmptySuggestion = ''EmptySuggestion''"
| "GateError_debug OversizedSuggestion = ''OversizedSuggestion''"
| "GateError_debug CommandDatabaseUnavailable = ''CommandDatabaseUnavailable''"
| "GateError_debug NoWorldLoaded = ''NoWorldLoaded''"
| "GateError_debug UnknownIntent = ''UnknownIntent''"

section \<open>The engine\<close>

record AutopilotEngine =
  ae_config :: AutopilotConfig
  ae_active_profile :: "string option"
  ae_gateway :: ActionGateway
  ae_pending :: "PendingAction list"
  ae_audit :: "AutopilotAuditEntry list"
  ae_stale :: "StaleReason option"
  ae_window_start_ms :: u64
  ae_window_count :: u64
  ae_last_action_at_ms :: u64

type_synonym clock = "nat \<Rightarrow> u64"

definition AutopilotEngine_new ::
    "AutopilotConfig \<Rightarrow> CommandDatabase \<Rightarrow> HumanTempo \<Rightarrow> AutopilotEngine" where
  "AutopilotEngine_new config db tempo =
     \<lparr>ae_config = config, ae_active_profile = None,
      ae_gateway = ActionGateway_new db tempo (ac_queue_capacity config), ae_pending = [],
      ae_audit = [], ae_stale = None, ae_window_start_ms = 0, ae_window_count = 0,
      ae_last_action_at_ms = 0\<rparr>"

definition AutopilotEngine_status :: "AutopilotEngine \<Rightarrow> AutopilotStatus" where
  "AutopilotEngine_status e =
     (if ac_mode (ae_config e) = ModeDisabled \<or> ae_active_profile e = None then StatusDisabled
      else (case ae_stale e of Some r \<Rightarrow> StatusPaused r | None \<Rightarrow> StatusReady))"

definition AutopilotEngine_is_enabled :: "AutopilotEngine \<Rightarrow> bool" where
  "AutopilotEngine_is_enabled e \<longleftrightarrow> AutopilotEngine_status e = StatusReady"

definition autopilot_log ::
    "u64 \<Rightarrow> string \<Rightarrow> string \<Rightarrow> string \<Rightarrow> string \<Rightarrow> AutopilotEngine \<Rightarrow> AutopilotEngine" where
  "autopilot_log now pid command action detail e =
     e\<lparr>ae_audit := ae_audit e @
         [\<lparr>au_at_ms = now, au_proposal_id = pid, au_command = command, au_action = action,
           au_detail = detail\<rparr>]\<rparr>"

definition AutopilotEngine_enable ::
    "string \<Rightarrow> AutopilotEngine \<Rightarrow> (AutopilotError + unit) \<times> AutopilotEngine" where
  "AutopilotEngine_enable profile e =
     (if ac_mode (ae_config e) = ModeDisabled then (Inl NotEnabled, e)
      else if profile \<noteq> ac_profile (ae_config e) then (Inl ProfileMismatch, e)
      else (Inr (), e\<lparr>ae_active_profile := Some profile, ae_stale := None\<rparr>))"

definition AutopilotEngine_disable :: "clock \<Rightarrow> AutopilotEngine \<Rightarrow> AutopilotEngine" where
  "AutopilotEngine_disable clk e =
     autopilot_log (clk 0) ''*'' [] ''cancelled''
       (''disabled; cancelled '' @ show_nat (length (ae_pending e)) @ '' pending'')
       (e\<lparr>ae_pending := [], ae_active_profile := None, ae_stale := None\<rparr>)"

definition AutopilotEngine_set_stale :: "StaleReason \<Rightarrow> clock \<Rightarrow> AutopilotEngine \<Rightarrow> AutopilotEngine" where
  "AutopilotEngine_set_stale r clk e =
     autopilot_log (clk 0) ''*'' [] ''paused'' (''stale:'' @ StaleReason_debug r)
       (e\<lparr>ae_stale := Some r\<rparr>)"

definition AutopilotEngine_clear_stale :: "AutopilotEngine \<Rightarrow> AutopilotEngine" where
  "AutopilotEngine_clear_stale e = e\<lparr>ae_stale := None\<rparr>"

definition AutopilotEngine_roll_window :: "u64 \<Rightarrow> AutopilotEngine \<Rightarrow> AutopilotEngine" where
  "AutopilotEngine_roll_window now e =
     (if ac_window_ms (ae_config e) \<le> now - ae_window_start_ms e
      then e\<lparr>ae_window_start_ms := now, ae_window_count := 0\<rparr> else e)"

text \<open>What is done with a proposal the gateway made and evaluated.\<close>

definition enqueue_pending ::
    "ActionProposal \<Rightarrow> bool \<Rightarrow> string \<Rightarrow> clock \<Rightarrow> AutopilotEngine \<Rightarrow>
      (AutopilotError + string) \<times> AutopilotEngine" where
  "enqueue_pending p confirm status clk e =
     (Inr (ap_id p),
      autopilot_log (clk 4) (ap_id p) (ap_normalized_command p) ''proposed'' ''visible''
        (e\<lparr>ae_pending := ae_pending e @
             [\<lparr>pa_proposal = p, pa_requires_confirmation = confirm, pa_status = status,
               pa_enqueued_at_ms = clk 3\<rparr>],
           ae_window_count := ae_window_count e + 1\<rparr>))"

definition AutopilotEngine_propose ::
    "string \<Rightarrow> string \<Rightarrow> GateContext \<Rightarrow> clock \<Rightarrow> AutopilotEngine \<Rightarrow>
      (AutopilotError + string) \<times> AutopilotEngine" where
  "AutopilotEngine_propose profile suggestion ctx clk e =
     (if ac_mode (ae_config e) = ModeDisabled then (Inl NotEnabled, e)
      else if ae_active_profile e \<noteq> Some profile then (Inl ProfileMismatch, e)
      else (case ae_stale e of
        Some r \<Rightarrow> (Inl (StaleState r), e)
      | None \<Rightarrow>
          let e1 = AutopilotEngine_roll_window (clk 0) e in
          if ac_max_actions_per_window (ae_config e1) \<le> ae_window_count e1
          then (Inl RateLimited,
                autopilot_log (clk 1) ''*'' [] ''rate-limited''
                  (''window cap '' @ show_nat (unat (ac_max_actions_per_window (ae_config e1)))) e1)
          else if ac_queue_capacity (ae_config e1) \<le> length (ae_pending e1)
          then (Inl AutopilotQueueFull, e1)
          else (case ActionGateway_propose Autopilot suggestion (clk 1) (ae_gateway e1) of
                  (Inl ge, g) \<Rightarrow> (Inl (AutopilotValidation (GateError_debug ge)), e1\<lparr>ae_gateway := g\<rparr>)
                | (Inr p, g) \<Rightarrow>
                    let e2 = e1\<lparr>ae_gateway := g\<rparr> in
                    (case ActionGateway_evaluate g p ctx of
                       Denied reason \<Rightarrow>
                         (Inl (AutopilotPolicy (DenialReason_debug reason)),
                          autopilot_log (clk 2) (ap_id p) (ap_normalized_command p) ''denied''
                            (DenialReason_debug reason) e2)
                     | NeedsConfirmation \<Rightarrow> enqueue_pending p True ''awaiting-confirmation'' clk e2
                     | Approved \<Rightarrow> enqueue_pending p False ''approved-visible'' clk e2
                     | _ \<Rightarrow> (Inl (AutopilotPolicy ''paused''), e2)))))"

text \<open>The first pending action with an id, and the list without it.\<close>

definition find_pending :: "string \<Rightarrow> AutopilotEngine \<Rightarrow> PendingAction option" where
  "find_pending pid e = find (\<lambda>p. ap_id (pa_proposal p) = pid) (ae_pending e)"

definition drop_pending :: "string \<Rightarrow> AutopilotEngine \<Rightarrow> AutopilotEngine" where
  "drop_pending pid e =
     e\<lparr>ae_pending := (case remove_first (\<lambda>p. ap_id (pa_proposal p) = pid) (ae_pending e) of
                        None \<Rightarrow> ae_pending e | Some ps \<Rightarrow> ps)\<rparr>"

definition AutopilotEngine_confirm_and_send ::
    "string \<Rightarrow> GateContext \<Rightarrow> 'w send \<Rightarrow> clock \<Rightarrow> 'w \<times> AutopilotEngine \<Rightarrow>
      (AutopilotError + string) \<times> 'w \<times> AutopilotEngine" where
  "AutopilotEngine_confirm_and_send pid ctx send clk s =
     (let (w, e) = s in
      case find_pending pid e of
        None \<Rightarrow> (Inl ProposalNotFound, w, e)
      | Some pend \<Rightarrow>
          let p = pa_proposal pend; cmd = ap_normalized_command p; e1 = drop_pending pid e in
          if \<not> pa_requires_confirmation pend then
            (case ActionGateway_approve_and_send p ctx send (clk 0) (clk 1) (w, ae_gateway e1) of
               (Inl ge, w1, g) \<Rightarrow>
                 (Inl (AutopilotValidation (GateError_debug ge)), w1, e1\<lparr>ae_gateway := g\<rparr>)
             | (Inr (tempo, result), w1, g) \<Rightarrow>
                 (case tempo of
                    Now \<Rightarrow> (Inr ''sent'', w1,
                      (autopilot_log (clk 2) pid cmd ''sent'' result (e1\<lparr>ae_gateway := g\<rparr>))
                        \<lparr>ae_last_action_at_ms := clk 3\<rparr>)
                  | Wait ms \<Rightarrow> (Inr (''paced:'' @ show_nat (unat ms)), w1,
                      autopilot_log (clk 2) pid cmd ''paced'' (''wait '' @ show_nat (unat ms) @ ''ms'')
                        (e1\<lparr>ae_gateway := g\<rparr>))))
          else
            (case send cmd w of
               (Inr result, w1) \<Rightarrow> (Inr ''sent-confirmed'', w1,
                  (autopilot_log (clk 0) pid cmd ''sent'' (''confirmed:'' @ result) e1)
                    \<lparr>ae_last_action_at_ms := clk 1\<rparr>)
             | (Inl er, w1) \<Rightarrow> (Inr (''send-failed:'' @ er), w1,
                  autopilot_log (clk 0) pid cmd ''send-failed'' er e1)))"

definition AutopilotEngine_auto_send ::
    "string \<Rightarrow> GateContext \<Rightarrow> 'w send \<Rightarrow> clock \<Rightarrow> 'w \<times> AutopilotEngine \<Rightarrow>
      (AutopilotError + string) \<times> 'w \<times> AutopilotEngine" where
  "AutopilotEngine_auto_send pid ctx send clk s =
     (let (w, e) = s in
      if ac_mode (ae_config e) \<noteq> AllowlistAuto
      then (Inl (AutopilotPolicy ''auto-send requires allowlist mode''), w, e)
      else (case find_pending pid e of
        None \<Rightarrow> (Inl ProposalNotFound, w, e)
      | Some pend \<Rightarrow>
          let p = pa_proposal pend; cmd = ap_normalized_command p in
          if pa_requires_confirmation pend
          then (Inl (AutopilotPolicy ''action requires explicit confirmation''), w, e)
          else if \<not> list_ex (\<lambda>c. c = cmd) (ac_allowlist (ae_config e))
          then (Inl (AutopilotPolicy ''command is not on the narrow allowlist''), w, e)
          else (case ActionGateway_approve_and_send p ctx send (clk 0) (clk 1) (w, ae_gateway e) of
                  (Inl ge, w1, g) \<Rightarrow>
                    (Inl (AutopilotValidation (GateError_debug ge)), w1, e\<lparr>ae_gateway := g\<rparr>)
                | (Inr (tempo, result), w1, g) \<Rightarrow>
                    let e1 = drop_pending pid (e\<lparr>ae_gateway := g\<rparr>) in
                    (case tempo of
                       Now \<Rightarrow> (Inr ''sent-auto'', w1,
                         (autopilot_log (clk 2) pid cmd ''sent'' (''auto:'' @ result) e1)
                           \<lparr>ae_last_action_at_ms := clk 3\<rparr>)
                     | Wait ms \<Rightarrow> (Inr (''paced:'' @ show_nat (unat ms)), w1,
                         autopilot_log (clk 2) pid cmd ''paced''
                           (''wait '' @ show_nat (unat ms) @ ''ms'') e1)))))"

definition AutopilotEngine_cancel ::
    "string \<Rightarrow> clock \<Rightarrow> AutopilotEngine \<Rightarrow> (AutopilotError + unit) \<times> AutopilotEngine" where
  "AutopilotEngine_cancel pid clk e =
     (case find_pending pid e of
        None \<Rightarrow> (Inl ProposalNotFound, e)
      | Some pend \<Rightarrow> (Inr (),
          autopilot_log (clk 0) pid (ap_normalized_command (pa_proposal pend)) ''cancelled''
            ''user cancelled'' (drop_pending pid e)))"

definition AutopilotEngine_emergency_stop :: "clock \<Rightarrow> AutopilotEngine \<Rightarrow> AutopilotEngine" where
  "AutopilotEngine_emergency_stop clk e =
     autopilot_log (clk 2) ''*'' [] ''emergency-stop''
       (''cancelled '' @ show_nat (length (ae_pending e)) @ '' pending'')
       (e\<lparr>ae_gateway := ActionGateway_engage_emergency_stop (clk 0) (clk 1) (ae_gateway e),
          ae_pending := [], ae_stale := None\<rparr>)"

definition AutopilotEngine_release_emergency_stop :: "AutopilotEngine \<Rightarrow> AutopilotEngine" where
  "AutopilotEngine_release_emergency_stop e =
     e\<lparr>ae_gateway := ActionGateway_release_emergency_stop (ae_gateway e)\<rparr>"

definition AutopilotEngine_emergency_stop_engaged :: "AutopilotEngine \<Rightarrow> bool" where
  "AutopilotEngine_emergency_stop_engaged e = EmergencyStop_is_engaged (ag_emergency_stop (ae_gateway e))"

definition AutopilotEngine_pending_count :: "AutopilotEngine \<Rightarrow> nat" where
  "AutopilotEngine_pending_count e = length (ae_pending e)"

section \<open>The engine as a machine\<close>

datatype PilotOp =
  PilotEnable string | PilotDisable | PilotSetStale StaleReason | PilotClearStale
  | PilotPropose string string GateContext | PilotConfirm string GateContext
  | PilotAutoSend string GateContext | PilotCancel string | PilotStop | PilotRelease

fun pilot_step ::
    "'w send \<Rightarrow> PilotOp \<times> clock \<Rightarrow> 'w \<times> AutopilotEngine \<Rightarrow> 'w \<times> AutopilotEngine" where
  "pilot_step send (PilotEnable p, clk) (w, e) = (w, snd (AutopilotEngine_enable p e))"
| "pilot_step send (PilotDisable, clk) (w, e) = (w, AutopilotEngine_disable clk e)"
| "pilot_step send (PilotSetStale r, clk) (w, e) = (w, AutopilotEngine_set_stale r clk e)"
| "pilot_step send (PilotClearStale, clk) (w, e) = (w, AutopilotEngine_clear_stale e)"
| "pilot_step send (PilotPropose prof sug ctx, clk) (w, e) =
     (w, snd (AutopilotEngine_propose prof sug ctx clk e))"
| "pilot_step send (PilotConfirm pid ctx, clk) (w, e) =
     snd (AutopilotEngine_confirm_and_send pid ctx send clk (w, e))"
| "pilot_step send (PilotAutoSend pid ctx, clk) (w, e) =
     snd (AutopilotEngine_auto_send pid ctx send clk (w, e))"
| "pilot_step send (PilotCancel pid, clk) (w, e) = (w, snd (AutopilotEngine_cancel pid clk e))"
| "pilot_step send (PilotStop, clk) (w, e) = (w, AutopilotEngine_emergency_stop clk e)"
| "pilot_step send (PilotRelease, clk) (w, e) = (w, AutopilotEngine_release_emergency_stop e)"

section \<open>What each operation does\<close>

lemma autopilot_log_fields [simp]:
  "ae_config (autopilot_log t i c a d e) = ae_config e"
  "ae_active_profile (autopilot_log t i c a d e) = ae_active_profile e"
  "ae_gateway (autopilot_log t i c a d e) = ae_gateway e"
  "ae_pending (autopilot_log t i c a d e) = ae_pending e"
  "ae_stale (autopilot_log t i c a d e) = ae_stale e"
  "ae_window_count (autopilot_log t i c a d e) = ae_window_count e"
  by (simp_all add: autopilot_log_def)

lemma drop_pending_fields [simp]:
  "ae_config (drop_pending pid e) = ae_config e"
  "ae_active_profile (drop_pending pid e) = ae_active_profile e"
  "ae_gateway (drop_pending pid e) = ae_gateway e"
  "ae_stale (drop_pending pid e) = ae_stale e"
  "ae_window_count (drop_pending pid e) = ae_window_count e"
  by (simp_all add: drop_pending_def)

lemma remove_first_length: "remove_first P xs = Some ys \<Longrightarrow> length ys \<le> length xs"
  by (induction xs arbitrary: ys) (auto split: if_splits intro: le_SucI)

lemma drop_pending_length: "length (ae_pending (drop_pending pid e)) \<le> length (ae_pending e)"
  by (auto simp: drop_pending_def split: option.split dest: remove_first_length)

lemma drop_pending_empty: "ae_pending e = [] \<Longrightarrow> ae_pending (drop_pending pid e) = []"
  by (simp add: drop_pending_def)

lemma drop_pending_gateway [simp]:
  "ae_pending (drop_pending pid (e\<lparr>ae_gateway := g\<rparr>)) = ae_pending (drop_pending pid e)"
  by (simp add: drop_pending_def split: option.split)

lemma roll_window_fields [simp]:
  "ae_config (AutopilotEngine_roll_window now e) = ae_config e"
  "ae_active_profile (AutopilotEngine_roll_window now e) = ae_active_profile e"
  "ae_gateway (AutopilotEngine_roll_window now e) = ae_gateway e"
  "ae_pending (AutopilotEngine_roll_window now e) = ae_pending e"
  by (simp_all add: AutopilotEngine_roll_window_def)

lemma roll_window_count:
  "ae_window_count e \<le> n \<Longrightarrow> ae_window_count (AutopilotEngine_roll_window now e) \<le> n"
  by (simp add: AutopilotEngine_roll_window_def)

lemma find_pending_in:
  "find_pending pid e = Some pend \<Longrightarrow> pend \<in> set (ae_pending e) \<and> ap_id (pa_proposal pend) = pid"
  by (auto simp: find_pending_def find_Some_iff)

lemma find_pending_empty: "ae_pending e = [] \<Longrightarrow> find_pending pid e = None"
  by (simp add: find_pending_def)

lemma gateway_never_errs:
  "\<exists>r. fst (ActionGateway_approve_and_send p ctx send n1 n2 (w, g)) = Inr r"
  by (cases "ActionGateway_evaluate g p ctx")
     (simp_all add: ActionGateway_approve_and_send_def Let_def
        split: TempoDecision.split prod.split sum.split)

text \<open>The gateway calls of the two sending operations, with their results in place.\<close>

lemma confirm_unconfirmed:
  assumes "find_pending pid e = Some pend" "\<not> pa_requires_confirmation pend"
  shows "\<exists>r e1. AutopilotEngine_confirm_and_send pid ctx send clk (w, e) =
      (Inr r, fst (snd (ActionGateway_approve_and_send (pa_proposal pend) ctx send (clk 0) (clk 1)
                 (w, ae_gateway e))), e1)
    \<and> ae_gateway e1 = snd (snd (ActionGateway_approve_and_send (pa_proposal pend) ctx send (clk 0)
                 (clk 1) (w, ae_gateway e)))
    \<and> ae_config e1 = ae_config e \<and> ae_active_profile e1 = ae_active_profile e
    \<and> ae_pending e1 = ae_pending (drop_pending pid e) \<and> ae_window_count e1 = ae_window_count e"
proof -
  obtain tempo res w1 g where a: "ActionGateway_approve_and_send (pa_proposal pend) ctx send (clk 0)
      (clk 1) (w, ae_gateway e) = (Inr (tempo, res), w1, g)"
    using gateway_never_errs [of "pa_proposal pend" ctx send "clk 0" "clk 1" w "ae_gateway e"]
    by (metis prod.collapse)
  show ?thesis using assms a
    by (cases tempo) (simp_all add: AutopilotEngine_confirm_and_send_def Let_def)
qed

lemma confirm_confirmed:
  assumes "find_pending pid e = Some pend" "pa_requires_confirmation pend"
  shows "\<exists>r e1. AutopilotEngine_confirm_and_send pid ctx send clk (w, e) =
      (Inr r, snd (send (ap_normalized_command (pa_proposal pend)) w), e1)
    \<and> ae_gateway e1 = ae_gateway e \<and> ae_config e1 = ae_config e
    \<and> ae_active_profile e1 = ae_active_profile e
    \<and> ae_pending e1 = ae_pending (drop_pending pid e) \<and> ae_window_count e1 = ae_window_count e"
  using assms by (auto simp: AutopilotEngine_confirm_and_send_def Let_def split: prod.split sum.split)

lemma auto_send_sends:
  assumes "ac_mode (ae_config e) = AllowlistAuto" "find_pending pid e = Some pend"
    "\<not> pa_requires_confirmation pend"
    "ap_normalized_command (pa_proposal pend) \<in> set (ac_allowlist (ae_config e))"
  shows "\<exists>r e1. AutopilotEngine_auto_send pid ctx send clk (w, e) =
      (Inr r, fst (snd (ActionGateway_approve_and_send (pa_proposal pend) ctx send (clk 0) (clk 1)
                 (w, ae_gateway e))), e1)
    \<and> ae_gateway e1 = snd (snd (ActionGateway_approve_and_send (pa_proposal pend) ctx send (clk 0)
                 (clk 1) (w, ae_gateway e)))
    \<and> ae_config e1 = ae_config e \<and> ae_active_profile e1 = ae_active_profile e
    \<and> ae_pending e1 = ae_pending (drop_pending pid e) \<and> ae_window_count e1 = ae_window_count e"
proof -
  obtain tempo res w1 g where a: "ActionGateway_approve_and_send (pa_proposal pend) ctx send (clk 0)
      (clk 1) (w, ae_gateway e) = (Inr (tempo, res), w1, g)"
    using gateway_never_errs [of "pa_proposal pend" ctx send "clk 0" "clk 1" w "ae_gateway e"]
    by (metis prod.collapse)
  show ?thesis using assms a
    by (cases tempo) (simp_all add: AutopilotEngine_auto_send_def Let_def list_ex_iff)
qed

lemma auto_send_refuses:
  assumes "\<not> (ac_mode (ae_config e) = AllowlistAuto \<and> (\<exists>pend. find_pending pid e = Some pend
      \<and> \<not> pa_requires_confirmation pend
      \<and> ap_normalized_command (pa_proposal pend) \<in> set (ac_allowlist (ae_config e))))"
  shows "snd (AutopilotEngine_auto_send pid ctx send clk (w, e)) = (w, e)"
  using assms by (auto simp: AutopilotEngine_auto_send_def Let_def list_ex_iff split: option.split)

text \<open>The four ways a proposal ends.\<close>

lemma propose_cases:
  obtains (kept) "snd (AutopilotEngine_propose prof sug ctx clk e) = e"
    | (refused) e1 where "snd (AutopilotEngine_propose prof sug ctx clk e) = e1"
        "ae_config e1 = ae_config e" "ae_active_profile e1 = ae_active_profile e"
        "ae_pending e1 = ae_pending e" "ag_emergency_stop (ae_gateway e1) = ag_emergency_stop (ae_gateway e)"
        "ae_window_count e1 = ae_window_count (AutopilotEngine_roll_window (clk 0) e)"
    | (queued) e1 pend where "snd (AutopilotEngine_propose prof sug ctx clk e) = e1"
        "ae_config e1 = ae_config e" "ae_active_profile e1 = ae_active_profile e"
        "ae_pending e1 = ae_pending e @ [pend]"
        "ag_emergency_stop (ae_gateway e1) = ag_emergency_stop (ae_gateway e)"
        "\<not> es_engaged (ag_emergency_stop (ae_gateway e))"
        "length (ae_pending e) < ac_queue_capacity (ae_config e)"
        "ae_window_count (AutopilotEngine_roll_window (clk 0) e) < ac_max_actions_per_window (ae_config e)"
        "ae_window_count e1 = ae_window_count (AutopilotEngine_roll_window (clk 0) e) + 1"
proof -
  let ?e1 = "AutopilotEngine_roll_window (clk 0) e"
  show ?thesis
  proof (cases "ac_mode (ae_config e) = ModeDisabled \<or> ae_active_profile e \<noteq> Some prof \<or> ae_stale e \<noteq> None")
    case True
    then show ?thesis by (intro kept) (auto simp: AutopilotEngine_propose_def)
  next
    case start: False
    show ?thesis
    proof (cases "ac_max_actions_per_window (ae_config e) \<le> ae_window_count ?e1
        \<or> ac_queue_capacity (ae_config e) \<le> length (ae_pending e)")
      case True
      then show ?thesis using start
        by (intro refused [OF refl]) (auto simp: AutopilotEngine_propose_def Let_def)
    next
      case room: False
      obtain r g where pr: "ActionGateway_propose Autopilot sug (clk 1) (ae_gateway e) = (r, g)" by fastforce
      then have stop: "ag_emergency_stop g = ag_emergency_stop (ae_gateway e)"
        using propose_fields(4) [of Autopilot sug "clk 1" "ae_gateway e"] by simp
      show ?thesis
      proof (cases "\<exists>p. r = Inr p \<and> (ActionGateway_evaluate g p ctx = Approved
            \<or> ActionGateway_evaluate g p ctx = NeedsConfirmation)")
        case True
        then obtain p where p: "r = Inr p" "ActionGateway_evaluate g p ctx = Approved
            \<or> ActionGateway_evaluate g p ctx = NeedsConfirmation" by blast
        then have "\<not> es_engaged (ag_emergency_stop (ae_gateway e))"
          unfolding stop [symmetric]
          by (auto simp: ActionGateway_evaluate_def EmergencyStop_blocks_def split: if_splits)
        note facts = this start room pr stop p(1)
        from p(2) show ?thesis
        proof
          assume "ActionGateway_evaluate g p ctx = Approved"
          then show ?thesis using facts
            by (intro queued [OF refl])
               (auto simp: AutopilotEngine_propose_def enqueue_pending_def Let_def)
        next
          assume "ActionGateway_evaluate g p ctx = NeedsConfirmation"
          then show ?thesis using facts
            by (intro queued [OF refl])
               (auto simp: AutopilotEngine_propose_def enqueue_pending_def Let_def)
        qed
      next
        case False
        then show ?thesis using start room pr stop
          by (intro refused [OF refl])
             (auto simp: AutopilotEngine_propose_def Let_def split: sum.split GateDecision.split)
      qed
    qed
  qed
qed

text \<open>Confirming or sending automatically: the pending list shrinks, the stop is kept.\<close>

lemma confirm_cases:
  obtains (kept) "snd (AutopilotEngine_confirm_and_send pid ctx send clk (w, e)) = (w, e)"
      "find_pending pid e = None"
    | (removed) w1 e1 pend where "snd (AutopilotEngine_confirm_and_send pid ctx send clk (w, e)) = (w1, e1)"
        "find_pending pid e = Some pend" "ae_config e1 = ae_config e"
        "ae_active_profile e1 = ae_active_profile e" "ae_pending e1 = ae_pending (drop_pending pid e)"
        "ag_emergency_stop (ae_gateway e1) = ag_emergency_stop (ae_gateway e)"
        "ae_window_count e1 = ae_window_count e"
        "w1 = w \<or> w1 = snd (send (ap_normalized_command (pa_proposal pend)) w)"
proof (cases "find_pending pid e")
  case None
  then show ?thesis by (intro kept) (simp_all add: AutopilotEngine_confirm_and_send_def)
next
  case (Some pend)
  show ?thesis
  proof (cases "pa_requires_confirmation pend")
    case True
    show ?thesis using confirm_confirmed [OF Some True, of ctx send clk w] removed Some by fastforce
  next
    case False
    obtain r e1 where r: "AutopilotEngine_confirm_and_send pid ctx send clk (w, e) =
        (Inr r, fst (snd (ActionGateway_approve_and_send (pa_proposal pend) ctx send (clk 0) (clk 1)
                 (w, ae_gateway e))), e1)"
      "ae_gateway e1 = snd (snd (ActionGateway_approve_and_send (pa_proposal pend) ctx send (clk 0)
                 (clk 1) (w, ae_gateway e)))"
      "ae_config e1 = ae_config e" "ae_active_profile e1 = ae_active_profile e"
      "ae_pending e1 = ae_pending (drop_pending pid e)" "ae_window_count e1 = ae_window_count e"
      using confirm_unconfirmed [OF Some False, of ctx send clk w] by blast
    have "snd (AutopilotEngine_confirm_and_send pid ctx send clk (w, e)) =
        (fst (snd (ActionGateway_approve_and_send (pa_proposal pend) ctx send (clk 0) (clk 1)
           (w, ae_gateway e))), e1)" using r(1) by simp
    then show ?thesis
      by (rule removed [OF _ Some r(3,4,5)]) (simp_all add: r approve_and_send_world)
  qed
qed

lemma auto_send_cases:
  obtains (kept) "snd (AutopilotEngine_auto_send pid ctx send clk (w, e)) = (w, e)"
    | (removed) w1 e1 pend where "snd (AutopilotEngine_auto_send pid ctx send clk (w, e)) = (w1, e1)"
        "ac_mode (ae_config e) = AllowlistAuto" "find_pending pid e = Some pend"
        "\<not> pa_requires_confirmation pend"
        "ap_normalized_command (pa_proposal pend) \<in> set (ac_allowlist (ae_config e))"
        "ae_config e1 = ae_config e" "ae_active_profile e1 = ae_active_profile e"
        "ae_pending e1 = ae_pending (drop_pending pid e)"
        "ag_emergency_stop (ae_gateway e1) = ag_emergency_stop (ae_gateway e)"
        "ae_window_count e1 = ae_window_count e"
        "w1 = (if ActionGateway_evaluate (ae_gateway e) (pa_proposal pend) ctx = Approved
             \<and> fst (HumanTempo_should_send (clk 0) (ag_tempo (ae_gateway e))) = Now
           then snd (send (ap_normalized_command (pa_proposal pend)) w) else w)"
proof (cases "ac_mode (ae_config e) = AllowlistAuto \<and> (\<exists>pend. find_pending pid e = Some pend
      \<and> \<not> pa_requires_confirmation pend
      \<and> ap_normalized_command (pa_proposal pend) \<in> set (ac_allowlist (ae_config e)))")
  case False
  then show ?thesis by (intro kept auto_send_refuses)
next
  case True
  then obtain pend where p: "ac_mode (ae_config e) = AllowlistAuto" "find_pending pid e = Some pend"
      "\<not> pa_requires_confirmation pend"
      "ap_normalized_command (pa_proposal pend) \<in> set (ac_allowlist (ae_config e))" by blast
  obtain r e1 where r: "AutopilotEngine_auto_send pid ctx send clk (w, e) =
        (Inr r, fst (snd (ActionGateway_approve_and_send (pa_proposal pend) ctx send (clk 0) (clk 1)
                 (w, ae_gateway e))), e1)"
      "ae_gateway e1 = snd (snd (ActionGateway_approve_and_send (pa_proposal pend) ctx send (clk 0)
                 (clk 1) (w, ae_gateway e)))"
      "ae_config e1 = ae_config e" "ae_active_profile e1 = ae_active_profile e"
      "ae_pending e1 = ae_pending (drop_pending pid e)" "ae_window_count e1 = ae_window_count e"
    using auto_send_sends [OF p, of ctx send clk w] by blast
  have "snd (AutopilotEngine_auto_send pid ctx send clk (w, e)) =
      (fst (snd (ActionGateway_approve_and_send (pa_proposal pend) ctx send (clk 0) (clk 1)
         (w, ae_gateway e))), e1)" using r(1) by simp
  then show ?thesis
    by (rule removed [OF _ p r(3,4,5)]) (simp_all add: r approve_and_send_world)
qed

section \<open>The invariant\<close>

definition engine_inv :: "AutopilotConfig \<Rightarrow> AutopilotEngine \<Rightarrow> bool" where
  "engine_inv c e \<longleftrightarrow>
     ae_config e = c \<and> length (ae_pending e) \<le> ac_queue_capacity c
     \<and> ae_window_count e \<le> ac_max_actions_per_window c
     \<and> (ae_active_profile e = None
        \<or> (ae_active_profile e = Some (ac_profile c) \<and> ac_mode c \<noteq> ModeDisabled))
     \<and> (ae_pending e = [] \<or> es_engaged (ag_emergency_stop (ae_gateway e)) = False)"

lemma word_succ_le: "(a :: u64) < b \<Longrightarrow> a + 1 \<le> b"
  by (rule inc_le)

lemma propose_inv: "engine_inv c e \<Longrightarrow> engine_inv c (snd (AutopilotEngine_propose prof sug ctx clk e))"
proof (cases rule: propose_cases [of prof sug ctx clk e])
  case (queued e1 pend)
  assume "engine_inv c e"
  then show ?thesis using queued by (auto simp: engine_inv_def intro: word_succ_le)
qed (auto simp: engine_inv_def roll_window_count)

lemma drop_inv:
  "engine_inv c e \<Longrightarrow> ae_config e1 = ae_config e \<Longrightarrow> ae_active_profile e1 = ae_active_profile e \<Longrightarrow>
    ae_pending e1 = ae_pending (drop_pending pid e) \<Longrightarrow>
    ag_emergency_stop (ae_gateway e1) = ag_emergency_stop (ae_gateway e) \<Longrightarrow>
    ae_window_count e1 = ae_window_count e \<Longrightarrow> engine_inv c e1"
  using drop_pending_length [of pid e] drop_pending_empty [of e pid] by (auto simp: engine_inv_def)

lemma pilot_step_inv: "engine_inv c (snd s) \<Longrightarrow> engine_inv c (snd (pilot_step send x s))"
proof -
  obtain w e op clk where s: "s = (w, e)" and x: "x = (op, clk)" by (metis prod.collapse)
  assume "engine_inv c (snd s)"
  then have inv: "engine_inv c e" by (simp add: s)
  show ?thesis
  proof (cases op)
    case (PilotPropose prof sug ctx)
    then show ?thesis using inv by (simp add: s x propose_inv)
  next
    case (PilotConfirm pid ctx)
    show ?thesis
      by (cases rule: confirm_cases [of pid ctx send clk w e])
         (use inv in \<open>auto simp: s x PilotConfirm intro: drop_inv\<close>)
  next
    case (PilotAutoSend pid ctx)
    show ?thesis
      by (cases rule: auto_send_cases [of pid ctx send clk w e])
         (use inv in \<open>auto simp: s x PilotAutoSend intro: drop_inv\<close>)
  next
    case (PilotCancel pid)
    then show ?thesis using inv drop_inv [OF inv]
      by (auto simp: s x AutopilotEngine_cancel_def split: option.split)
  qed (use inv in \<open>auto simp: s x engine_inv_def AutopilotEngine_enable_def AutopilotEngine_disable_def
      AutopilotEngine_set_stale_def AutopilotEngine_clear_stale_def AutopilotEngine_emergency_stop_def
      AutopilotEngine_release_emergency_stop_def ActionGateway_release_emergency_stop_def
      EmergencyStop_release_def\<close>)
qed

interpretation pilot: machine_invariant "pilot_step send" "\<lambda>s. engine_inv c (snd s)" for send c
  by unfold_locales (rule pilot_step_inv)

lemma engine_inv_new: "engine_inv c (AutopilotEngine_new c db tempo)"
  by (simp add: engine_inv_def AutopilotEngine_new_def)

text \<open>While the stop is engaged nothing is pending and nothing is sent.\<close>

definition pilot_stopped :: "'w \<Rightarrow> 'w \<times> AutopilotEngine \<Rightarrow> bool" where
  "pilot_stopped w s \<longleftrightarrow> fst s = w \<and> es_engaged (ag_emergency_stop (ae_gateway (snd s)))
     \<and> ae_pending (snd s) = []"

lemma pilot_step_stopped:
  assumes st: "pilot_stopped w s" and x: "fst x \<noteq> PilotRelease"
  shows "pilot_stopped w (pilot_step send x s)"
proof -
  obtain e op clk where s: "s = (w, e)" and x': "x = (op, clk)"
    using st by (metis pilot_stopped_def prod.collapse)
  have e: "es_engaged (ag_emergency_stop (ae_gateway e))" "ae_pending e = []"
    using st by (simp_all add: s pilot_stopped_def)
  note none = find_pending_empty [OF e(2)]
  show ?thesis
  proof (cases op)
    case (PilotPropose prof sug ctx)
    show ?thesis
      by (cases rule: propose_cases [of prof sug ctx clk e])
         (use e in \<open>auto simp: s x' PilotPropose pilot_stopped_def\<close>)
  next
    case (PilotConfirm pid ctx)
    then show ?thesis using e none
      by (simp add: s x' pilot_stopped_def AutopilotEngine_confirm_and_send_def)
  next
    case (PilotAutoSend pid ctx)
    then show ?thesis using e none
      by (simp add: s x' pilot_stopped_def AutopilotEngine_auto_send_def)
  next
    case (PilotCancel pid)
    then show ?thesis using e none by (simp add: s x' pilot_stopped_def AutopilotEngine_cancel_def)
  next
    case PilotRelease
    then show ?thesis using x by (simp add: x')
  qed (use e in \<open>simp_all add: s x' pilot_stopped_def AutopilotEngine_enable_def
      AutopilotEngine_disable_def AutopilotEngine_set_stale_def AutopilotEngine_clear_stale_def
      AutopilotEngine_emergency_stop_def\<close>)
qed

lemma run_pilot_stopped:
  "pilot_stopped w s \<Longrightarrow> list_all (\<lambda>x. fst x \<noteq> PilotRelease) xs \<Longrightarrow>
    pilot_stopped w (run (pilot_step send) xs s)"
  by (induction xs arbitrary: s) (auto simp: pilot_step_stopped)

section \<open>Properties\<close>

text \<open>
  The autopilot's emergency stop. From the moment it is engaged, in any state of the engine, no
  sequence of operations without a release touches the world or leaves a pending action: neither
  a confirmation nor an automatic send finds anything to send.
\<close>

theorem autopilot_stop_silences:
  assumes "list_all (\<lambda>x. fst x \<noteq> PilotRelease) ops"
  shows "fst (run (pilot_step send) ((PilotStop, clk) # ops) (w, e)) = w
    \<and> ae_pending (snd (run (pilot_step send) ((PilotStop, clk) # ops) (w, e))) = []"
proof -
  have "pilot_stopped w (pilot_step send (PilotStop, clk) (w, e))"
    by (simp add: pilot_stopped_def AutopilotEngine_emergency_stop_def)
  from run_pilot_stopped [OF this assms, of send] show ?thesis by (simp add: pilot_stopped_def)
qed

definition demo_engine :: AutopilotEngine where
  "demo_engine = AutopilotEngine_new
     (AutopilotConfig_with_mode ConfirmEvery (AutopilotConfig_new ''kael''))
     (CommandDatabase_new ''midkemia'') (HumanTempo_new 0 1 10)"

theorem autopilot_stop_silences_witness:
  "fst (run (pilot_step (\<lambda>c w. (Inr ''ok'', w @ [c])))
     [(PilotStop, \<lambda>_. 5), (PilotEnable ''kael'', \<lambda>_. 6),
      (PilotPropose ''kael'' ''look'' GateContext_ready, \<lambda>_. 7),
      (PilotConfirm ''ap-000001'' GateContext_ready, \<lambda>_. 8)] ([], demo_engine)) = []"
  using autopilot_stop_silences [of "[(PilotEnable ''kael'', \<lambda>_. 6),
      (PilotPropose ''kael'' ''look'' GateContext_ready, \<lambda>_. 7),
      (PilotConfirm ''ap-000001'' GateContext_ready, \<lambda>_. 8)]"
      "\<lambda>c w. (Inr ''ok'', w @ [c])" "\<lambda>_. 5" "[]" demo_engine] by simp

text \<open>
  The engine keeps its bounds and its opt-in. Over any sequence of operations the pending list
  stays within the queue capacity, the count of the current window within the rate limit, the
  engine is only ever active for the configured profile and never in the disabled mode, and
  nothing is pending while the emergency stop is engaged.
\<close>

theorem autopilot_invariant:
  "engine_inv c (snd (run (pilot_step send) ops (w, AutopilotEngine_new c db tempo)))"
  by (rule pilot.run_inv) (simp add: engine_inv_new)

text \<open>
  Every send was visible. One operation touches the world at most by sending the normalized
  command of an action that was pending, and then it was a confirmation of that action or an
  automatic send of it; an automatic send happens only in the allowlist mode, for an allowlisted
  command that needs no confirmation and that the gate approves at that moment.
\<close>

theorem sends_were_visible:
  "fst (pilot_step send (op, clk) (w, e)) = w
   \<or> (\<exists>pend ctx. pend \<in> set (ae_pending e)
       \<and> fst (pilot_step send (op, clk) (w, e)) = snd (send (ap_normalized_command (pa_proposal pend)) w)
       \<and> (op = PilotConfirm (ap_id (pa_proposal pend)) ctx
          \<or> (op = PilotAutoSend (ap_id (pa_proposal pend)) ctx
             \<and> ac_mode (ae_config e) = AllowlistAuto
             \<and> ap_normalized_command (pa_proposal pend) \<in> set (ac_allowlist (ae_config e))
             \<and> pa_requires_confirmation pend = False
             \<and> ActionGateway_evaluate (ae_gateway e) (pa_proposal pend) ctx = Approved)))"
proof (cases op)
  case (PilotConfirm pid ctx)
  show ?thesis
  proof (cases rule: confirm_cases [of pid ctx send clk w e])
    case kept
    then show ?thesis by (simp add: PilotConfirm)
  next
    case (removed w1 e1 pend)
    then show ?thesis using find_pending_in [OF removed(2)] by (auto simp: PilotConfirm)
  qed
next
  case (PilotAutoSend pid ctx)
  show ?thesis
  proof (cases rule: auto_send_cases [of pid ctx send clk w e])
    case kept
    then show ?thesis by (simp add: PilotAutoSend)
  next
    case (removed w1 e1 pend)
    then show ?thesis using find_pending_in [OF removed(3)] by (auto simp: PilotAutoSend)
  qed
qed simp_all

text \<open>
  A pause does not pause sending. Marking the engine stale, or making it active for another
  profile, changes nothing about what a confirmation or an automatic send of a pending action
  does: both still send.
\<close>

theorem pause_still_sends:
  "fst (AutopilotEngine_confirm_and_send pid ctx send clk (w, e\<lparr>ae_stale := r, ae_active_profile := a\<rparr>))
     = fst (AutopilotEngine_confirm_and_send pid ctx send clk (w, e))
   \<and> fst (snd (AutopilotEngine_confirm_and_send pid ctx send clk (w, e\<lparr>ae_stale := r, ae_active_profile := a\<rparr>)))
     = fst (snd (AutopilotEngine_confirm_and_send pid ctx send clk (w, e)))
   \<and> fst (AutopilotEngine_auto_send pid ctx send clk (w, e\<lparr>ae_stale := r, ae_active_profile := a\<rparr>))
     = fst (AutopilotEngine_auto_send pid ctx send clk (w, e))
   \<and> fst (snd (AutopilotEngine_auto_send pid ctx send clk (w, e\<lparr>ae_stale := r, ae_active_profile := a\<rparr>)))
     = fst (snd (AutopilotEngine_auto_send pid ctx send clk (w, e)))"
  by (simp add: AutopilotEngine_confirm_and_send_def AutopilotEngine_auto_send_def find_pending_def
      Let_def split: option.split sum.split prod.split TempoDecision.split)

text \<open>
  A confirmed send passes no gate. For a pending action that needs confirmation, confirming it
  sends its command whatever the context and the gateway say at that moment, and the gateway,
  its pacing and its audit log are left as they were.
\<close>

theorem confirmed_send_bypasses_gate:
  assumes "find_pending pid e = Some pend" "pa_requires_confirmation pend"
  shows "fst (snd (AutopilotEngine_confirm_and_send pid ctx send clk (w, e)))
      = snd (send (ap_normalized_command (pa_proposal pend)) w)
    \<and> ae_gateway (snd (snd (AutopilotEngine_confirm_and_send pid ctx send clk (w, e)))) = ae_gateway e"
  using confirm_confirmed [OF assms, of ctx send clk w] by auto

theorem confirmed_send_bypasses_gate_witness:
  "fst (snd (AutopilotEngine_confirm_and_send ''ap-000001''
       (GateContext_ready\<lparr>gc_connected := False, gc_injection_flagged := True\<rparr>)
       (\<lambda>c w. (Inr ''ok'', w @ [c])) (\<lambda>_. 9)
       ([], demo_engine\<lparr>ae_pending := [\<lparr>pa_proposal = \<lparr>ap_id = ''ap-000001'', ap_source = Autopilot,
          ap_original_suggestion = ''drop all'', ap_normalized_command = ''drop'', ap_args = [''all''],
          ap_risk_tier = Risky, ap_requires_confirmation = True, ap_created_ms = 3\<rparr>,
          pa_requires_confirmation = True, pa_status = ''awaiting-confirmation'',
          pa_enqueued_at_ms = 3\<rparr>]\<rparr>))) = [''drop'']"
  using confirmed_send_bypasses_gate [of "''ap-000001''" "demo_engine\<lparr>ae_pending := [\<lparr>pa_proposal = \<lparr>
          ap_id = ''ap-000001'', ap_source = Autopilot,
          ap_original_suggestion = ''drop all'', ap_normalized_command = ''drop'', ap_args = [''all''],
          ap_risk_tier = Risky, ap_requires_confirmation = True, ap_created_ms = 3\<rparr>,
          pa_requires_confirmation = True, pa_status = ''awaiting-confirmation'',
          pa_enqueued_at_ms = 3\<rparr>]\<rparr>" _ _ "\<lambda>c w. (Inr ''ok'', w @ [c])" _ "[]"]
  by (simp add: find_pending_def)

text \<open>
  What the audit log calls sent. For an action that needs no confirmation, the result and the last
  audit record say \<open>sent\<close> whenever the gate and the pacer let the send happen, also when the send
  itself failed; and when the gate denies the action, both say that it was paced by 0 milliseconds.
\<close>

theorem audit_says_sent:
  assumes "find_pending pid e = Some pend" "\<not> pa_requires_confirmation pend"
  shows "(let (r, w1, e1) = AutopilotEngine_confirm_and_send pid ctx send clk (w, e) in
     (case ActionGateway_evaluate (ae_gateway e) (pa_proposal pend) ctx of
        Approved \<Rightarrow>
          (case fst (HumanTempo_should_send (clk 0) (ag_tempo (ae_gateway e))) of
             Now \<Rightarrow> r = Inr ''sent'' \<and> au_action (last (ae_audit e1)) = ''sent''
           | Wait ms \<Rightarrow> au_action (last (ae_audit e1)) = ''paced'')
      | _ \<Rightarrow> r = Inr ''paced:0'' \<and> au_action (last (ae_audit e1)) = ''paced''
          \<and> au_detail (last (ae_audit e1)) = ''wait 0ms''))"
proof -
  have zero: "show_nat 0 = ''0''" by code_simp
  show ?thesis using assms
    by (simp add: AutopilotEngine_confirm_and_send_def ActionGateway_approve_and_send_def
        autopilot_log_def zero Let_def
        split: GateDecision.split TempoDecision.split prod.split sum.split)
qed

theorem audit_says_sent_witness:
  "fst (AutopilotEngine_confirm_and_send ''ap-000001'' (GateContext_ready\<lparr>gc_connected := False\<rparr>)
       (\<lambda>c w. (Inr ''ok'', w @ [c])) (\<lambda>_. 9)
       ([], demo_engine\<lparr>ae_pending := [\<lparr>pa_proposal = demo_proposal\<lparr>ap_id := ''ap-000001''\<rparr>,
          pa_requires_confirmation = False, pa_status = ''approved-visible'',
          pa_enqueued_at_ms = 3\<rparr>]\<rparr>)) = Inr ''paced:0''"
proof -
  let ?e = "demo_engine\<lparr>ae_pending := [\<lparr>pa_proposal = demo_proposal\<lparr>ap_id := ''ap-000001''\<rparr>,
          pa_requires_confirmation = False, pa_status = ''approved-visible'',
          pa_enqueued_at_ms = 3\<rparr>]\<rparr>"
  have "ActionGateway_evaluate (ae_gateway ?e) (demo_proposal\<lparr>ap_id := ''ap-000001''\<rparr>)
      (GateContext_ready\<lparr>gc_connected := False\<rparr>) = Denied NotConnected"
    by (simp add: ActionGateway_evaluate_def demo_engine_def AutopilotEngine_new_def
        ActionGateway_new_def EmergencyStop_new_def EmergencyStop_blocks_def)
  then show ?thesis
    using audit_says_sent [of "''ap-000001''" ?e _ "GateContext_ready\<lparr>gc_connected := False\<rparr>"
        "\<lambda>c w. (Inr ''ok'', w @ [c])" "\<lambda>_. 9" "[]"]
    by (simp add: find_pending_def Let_def split: prod.splits)
qed

end
