(* ===== verification/Privacy.thy ===== *)
theory Privacy
  imports Prelude
begin

text \<open>
  The privacy core, \<open>wirecore/crates/wire-privacy/src/lib.rs\<close>: the denial-first egress policy with
  its overrides, the consent receipts and their registry, and the redaction engine. A compiled
  regular expression is a function \<open>replace_all\<close> on text (the \<open>regex\<close> crate is not modelled).
\<close>

section \<open>Egress policy\<close>

datatype PrivacyMode = PrivacyDisabled | LocalOnly | LocalPreferred | RemoteRedacted | RemoteApproved

definition PrivacyMode_blocks_remote :: "PrivacyMode \<Rightarrow> bool" where
  "PrivacyMode_blocks_remote m \<longleftrightarrow> m = PrivacyDisabled \<or> m = LocalOnly"

datatype PrivacyError =
  LockdownBlocked string string | NoConsent string string | ConsentRevoked string
  | InvalidReceipt string | UnknownDestination string | UnauthorizedOverride string
  | RegexError string

fun PrivacyError_fmt :: "PrivacyError \<Rightarrow> string" where
  "PrivacyError_fmt (LockdownBlocked c d) = ''local only lockdown blocks '' @ c @ '' to '' @ d"
| "PrivacyError_fmt (NoConsent f p) = ''no consent for '' @ f @ '' via '' @ p"
| "PrivacyError_fmt (ConsentRevoked i) = ''consent revoked: '' @ i"
| "PrivacyError_fmt (InvalidReceipt m) = ''invalid receipt: '' @ m"
| "PrivacyError_fmt (UnknownDestination d) = ''unknown destination: '' @ d"
| "PrivacyError_fmt (UnauthorizedOverride m) = ''unauthorized override: '' @ m"
| "PrivacyError_fmt (RegexError m) = ''redaction regex: '' @ m"

record OverrideEntry =
  oe_override_id :: string
  oe_category :: string
  oe_user_visible :: bool
  oe_consent_receipt_id :: string

record EgressPolicy =
  ep_mode :: PrivacyMode
  ep_lockdown :: bool
  ep_allowed_destinations :: "string list"
  ep_denied_categories :: "string list"
  ep_overrides :: "(string, OverrideEntry) hash_map"

definition EgressPolicy_new_denial_first :: EgressPolicy where
  "EgressPolicy_new_denial_first =
     \<lparr>ep_mode = LocalOnly, ep_lockdown = True, ep_allowed_destinations = [],
      ep_denied_categories = [''ai'', ''speech'', ''asset-generation'', ''telemetry'',
        ''package-download'', ''update-check''],
      ep_overrides = []\<rparr>"

definition EgressPolicy_add_override ::
    "OverrideEntry \<Rightarrow> EgressPolicy \<Rightarrow> (PrivacyError + unit) \<times> EgressPolicy" where
  "EgressPolicy_add_override e p =
     (if \<not> oe_user_visible e
      then (Inl (UnauthorizedOverride ''overrides must be user-visible''), p)
      else if length (oe_consent_receipt_id e) < 16
      then (Inl (UnauthorizedOverride ''override must reference a consent receipt''), p)
      else if length (oe_override_id e) < 8
      then (Inl (UnauthorizedOverride ''override id too short''), p)
      else (Inr (), p\<lparr>ep_overrides := AList.update (oe_override_id e) e (ep_overrides p)\<rparr>))"

definition EgressPolicy_override_for :: "EgressPolicy \<Rightarrow> string \<Rightarrow> OverrideEntry option" where
  "EgressPolicy_override_for p category = find (\<lambda>e. oe_category e = category) (map snd (ep_overrides p))"

definition EgressPolicy_can_egress :: "EgressPolicy \<Rightarrow> string \<Rightarrow> string \<Rightarrow> PrivacyError + unit" where
  "EgressPolicy_can_egress p category destination =
     (if PrivacyMode_blocks_remote (ep_mode p) \<or> ep_lockdown p then
        if \<not> list_ex (\<lambda>d. d = destination) (ep_allowed_destinations p)
        then Inl (LockdownBlocked category destination)
        else if list_ex (\<lambda>c. c = category) (ep_denied_categories p) then
          (case EgressPolicy_override_for p category of
             Some e \<Rightarrow> if 16 \<le> length (oe_consent_receipt_id e) then Inr ()
                      else Inl (LockdownBlocked category destination)
           | None \<Rightarrow> Inl (LockdownBlocked category destination))
        else Inr ()
      else (case ep_mode p of
              RemoteRedacted \<Rightarrow> Inr ()
            | RemoteApproved \<Rightarrow> Inr ()
            | _ \<Rightarrow> Inl (LockdownBlocked category destination)))"

definition denied_purposes :: "string list" where
  "denied_purposes = [''proxy-procurement'', ''identity-rotation'', ''fingerprint-spoofing'',
     ''account-automation'', ''spam'', ''ban-evasion'']"

definition EgressPolicy_can_route_purpose :: "EgressPolicy \<Rightarrow> string \<Rightarrow> PrivacyError + unit" where
  "EgressPolicy_can_route_purpose p purpose =
     (if purpose \<in> set denied_purposes
      then Inl (UnauthorizedOverride (''routing purpose denied: '' @ purpose)) else Inr ())"

section \<open>Consent\<close>

definition CONSENT_SCHEMA_VERSION :: u32 where "CONSENT_SCHEMA_VERSION = 1"

record ConsentReceipt =
  cn_receipt_id :: string
  cn_schema_version :: u32
  cn_consent_version :: u32
  cn_profile :: string
  cn_feature :: string
  cn_provider :: string
  cn_data_class :: string
  cn_scope :: string
  cn_granted_at :: string
  cn_revoked_at :: "string option"
  cn_revocable :: bool
  cn_status :: string

definition ConsentReceipt_validate :: "ConsentReceipt \<Rightarrow> PrivacyError + unit" where
  "ConsentReceipt_validate r =
     (if length (cn_receipt_id r) < 16 then Inl (InvalidReceipt ''receipt id too short'')
      else if cn_schema_version r \<noteq> CONSENT_SCHEMA_VERSION then Inl (InvalidReceipt ''schema version'')
      else if cn_consent_version r < 1 then Inl (InvalidReceipt ''consent version'')
      else if \<not> cn_revocable r then Inl (InvalidReceipt ''receipt must be revocable'')
      else if cn_status r \<noteq> ''granted'' \<and> cn_status r \<noteq> ''revoked'' then Inl (InvalidReceipt ''status'')
      else if cn_granted_at r = [] \<or> cn_profile r = [] \<or> cn_feature r = []
      then Inl (InvalidReceipt ''scope fields'') else Inr ())"

definition ConsentReceipt_is_granted :: "ConsentReceipt \<Rightarrow> bool" where
  "ConsentReceipt_is_granted r \<longleftrightarrow> cn_status r = ''granted''"

type_synonym ConsentRegistry = "(string, ConsentReceipt) hash_map"

definition ConsentRegistry_new :: ConsentRegistry where
  "ConsentRegistry_new = []"

definition ConsentRegistry_grant ::
    "ConsentReceipt \<Rightarrow> ConsentRegistry \<Rightarrow> (PrivacyError + unit) \<times> ConsentRegistry" where
  "ConsentRegistry_grant r reg =
     (case ConsentReceipt_validate r of
        Inl e \<Rightarrow> (Inl e, reg)
      | Inr _ \<Rightarrow>
          if \<not> ConsentReceipt_is_granted r then (Inl (InvalidReceipt ''grant must start granted''), reg)
          else (Inr (), AList.update (cn_receipt_id r) r reg))"

text \<open>\<open>now_iso\<close> is the decimal text of the clock in seconds.\<close>

definition ConsentRegistry_revoke ::
    "string \<Rightarrow> u64 \<Rightarrow> ConsentRegistry \<Rightarrow> (PrivacyError + unit) \<times> ConsentRegistry" where
  "ConsentRegistry_revoke i now reg =
     (case map_of reg i of
        None \<Rightarrow> (Inl (InvalidReceipt ''unknown receipt''), reg)
      | Some r \<Rightarrow> (Inr (),
          if cn_status r = ''granted''
          then AList.update i (r\<lparr>cn_status := ''revoked'', cn_revoked_at := Some (show_nat (unat now))\<rparr>) reg
          else reg))"

definition ConsentRegistry_is_consented ::
    "ConsentRegistry \<Rightarrow> string \<Rightarrow> string \<Rightarrow> string \<Rightarrow> string \<Rightarrow> string \<Rightarrow> PrivacyError + unit" where
  "ConsentRegistry_is_consented reg i feature provider data_class profile =
     (case map_of reg i of
        None \<Rightarrow> Inl (NoConsent feature provider)
      | Some r \<Rightarrow>
          if \<not> ConsentReceipt_is_granted r then Inl (ConsentRevoked i)
          else if cn_feature r \<noteq> feature \<or> cn_provider r \<noteq> provider then Inl (NoConsent feature provider)
          else if cn_data_class r \<noteq> data_class \<or> cn_profile r \<noteq> profile
          then Inl (NoConsent feature provider)
          else Inr ())"

definition ConsentRegistry_len :: "ConsentRegistry \<Rightarrow> nat" where
  "ConsentRegistry_len reg = length reg"

definition ConsentRegistry_serialize ::
    "(ConsentReceipt list \<Rightarrow> string + string) \<Rightarrow> ConsentRegistry \<Rightarrow> PrivacyError + string" where
  "ConsentRegistry_serialize encode reg =
     (case encode (sort_key cn_receipt_id (map snd reg)) of
        Inl e \<Rightarrow> Inl (InvalidReceipt e) | Inr txt \<Rightarrow> Inr txt)"

section \<open>Redaction\<close>

record RedactionPattern =
  re_id :: string
  re_class :: string
  re_replace_all :: "string \<Rightarrow> string \<Rightarrow> string"
  re_replacement :: string

definition RedactionPattern_new ::
    "(string \<Rightarrow> string + (string \<Rightarrow> string \<Rightarrow> string)) \<Rightarrow> string \<Rightarrow> string \<Rightarrow> string \<Rightarrow> string \<Rightarrow>
      PrivacyError + RedactionPattern" where
  "RedactionPattern_new compile_regex i class regex replacement =
     (case compile_regex regex of
        Inl e \<Rightarrow> Inl (RegexError e)
      | Inr f \<Rightarrow> Inr \<lparr>re_id = i, re_class = class, re_replace_all = f, re_replacement = replacement\<rparr>)"

record RedactionEngine =
  rg_default_deny :: bool
  rg_patterns :: "RedactionPattern list"

definition RedactionEngine_new :: "bool \<Rightarrow> RedactionEngine" where
  "RedactionEngine_new d = \<lparr>rg_default_deny = d, rg_patterns = []\<rparr>"

definition RedactionEngine_add_pattern :: "RedactionPattern \<Rightarrow> RedactionEngine \<Rightarrow> RedactionEngine" where
  "RedactionEngine_add_pattern p e = e\<lparr>rg_patterns := rg_patterns e @ [p]\<rparr>"

definition RedactionEngine_pattern_count :: "RedactionEngine \<Rightarrow> nat" where
  "RedactionEngine_pattern_count e = length (rg_patterns e)"

definition RedactionEngine_redact :: "RedactionEngine \<Rightarrow> string \<Rightarrow> string" where
  "RedactionEngine_redact e txt =
     foldl (\<lambda>out p. re_replace_all p out (re_replacement p)) txt (rg_patterns e)"

definition redact_one :: "string \<times> string \<Rightarrow> string \<Rightarrow> string" where
  "redact_one cv out =
     (let (class, value) = cv in
      if value \<noteq> [] then str_replace value (''[REDACTED:'' @ class @ '']'') out else out)"

definition RedactionEngine_redact_secrets ::
    "RedactionEngine \<Rightarrow> string \<Rightarrow> (string \<times> string) list \<Rightarrow> string" where
  "RedactionEngine_redact_secrets e txt secrets = foldl (\<lambda>out cv. redact_one cv out) txt secrets"

section \<open>The registry as a machine\<close>

datatype ConsentOp = Grant ConsentReceipt | Revoke string u64

fun consent_step :: "ConsentOp \<Rightarrow> ConsentRegistry \<Rightarrow> ConsentRegistry" where
  "consent_step (Grant r) reg = snd (ConsentRegistry_grant r reg)"
| "consent_step (Revoke i now) reg = snd (ConsentRegistry_revoke i now reg)"

fun grants :: "string \<Rightarrow> ConsentOp \<Rightarrow> bool" where
  "grants i (Grant r) = (cn_receipt_id r = i)"
| "grants i (Revoke j now) = False"

text \<open>No receipt in force under the id: none is stored, or the stored one is not granted.\<close>

definition not_in_force :: "string \<Rightarrow> ConsentRegistry \<Rightarrow> bool" where
  "not_in_force i reg \<longleftrightarrow> (case map_of reg i of None \<Rightarrow> True | Some r \<Rightarrow> cn_status r \<noteq> ''granted'')"

definition registry_inv :: "ConsentRegistry \<Rightarrow> bool" where
  "registry_inv reg \<longleftrightarrow>
     (\<forall>i r. map_of reg i = Some r \<longrightarrow> cn_receipt_id r = i \<and> ConsentReceipt_validate r = Inr ())"

lemma validate_revoked:
  "ConsentReceipt_validate r = Inr () \<Longrightarrow>
    ConsentReceipt_validate (r\<lparr>cn_status := ''revoked'', cn_revoked_at := t\<rparr>) = Inr ()"
  by (simp add: ConsentReceipt_validate_def split: if_splits)

lemma consent_step_inv: "registry_inv reg \<Longrightarrow> registry_inv (consent_step x reg)"
proof (cases x)
  case (Grant r)
  assume "registry_inv reg"
  then show ?thesis unfolding Grant
    by (auto simp: registry_inv_def ConsentRegistry_grant_def split: sum.split)
next
  case (Revoke i now)
  assume inv: "registry_inv reg"
  show ?thesis
  proof (cases "map_of reg i")
    case (Some r)
    then show ?thesis using inv unfolding Revoke
      by (auto simp: registry_inv_def ConsentRegistry_revoke_def
          intro: validate_revoked)
  qed (use inv in \<open>simp add: Revoke ConsentRegistry_revoke_def\<close>)
qed

interpretation consent: machine_invariant consent_step registry_inv
  by unfold_locales (rule consent_step_inv)

lemma consent_step_not_in_force:
  assumes "not_in_force i reg" "\<not> grants i x"
  shows "not_in_force i (consent_step x reg)"
proof (cases x)
  case (Grant r)
  then show ?thesis using assms
    by (auto simp: not_in_force_def ConsentRegistry_grant_def split: sum.split option.splits)
next
  case (Revoke j now)
  then show ?thesis using assms
    by (auto simp: not_in_force_def ConsentRegistry_revoke_def split: option.splits)
qed

lemma run_not_in_force:
  "not_in_force i reg \<Longrightarrow> list_all (\<lambda>x. \<not> grants i x) ops \<Longrightarrow> not_in_force i (run consent_step ops reg)"
  by (induction ops arbitrary: reg) (auto simp: consent_step_not_in_force)

lemma is_consented_iff:
  "ConsentRegistry_is_consented reg i f p d prof = Inr () \<longleftrightarrow>
    (\<exists>r. map_of reg i = Some r \<and> cn_status r = ''granted'' \<and> cn_feature r = f \<and> cn_provider r = p
      \<and> cn_data_class r = d \<and> cn_profile r = prof)"
proof (cases "map_of reg i")
  case None
  then show ?thesis by (simp add: ConsentRegistry_is_consented_def)
next
  case (Some r)
  then show ?thesis
    by (cases "cn_status r = ''granted''")
       (simp_all only: ConsentRegistry_is_consented_def ConsentReceipt_is_granted_def option.case
          option.inject if_True if_False simp_thms, auto)
qed

section \<open>Properties\<close>

text \<open>
  Revocation is effective. After a receipt is revoked, and whatever other receipts are granted or
  revoked afterwards, no request is consented under that id again, unless a receipt with the same
  id is granted anew.
\<close>

theorem revocation_effective:
  assumes "list_all (\<lambda>x. \<not> grants i x) ops"
  shows "ConsentRegistry_is_consented (run consent_step (Revoke i now # ops) reg) i f p d prof \<noteq> Inr ()"
proof -
  have "not_in_force i (consent_step (Revoke i now) reg)"
    by (auto simp: not_in_force_def ConsentRegistry_revoke_def split: option.split)
  from run_not_in_force [OF this assms]
  have "not_in_force i (run consent_step (Revoke i now # ops) reg)" by simp
  then show ?thesis by (auto simp: not_in_force_def is_consented_iff)
qed

definition demo_receipt :: ConsentReceipt where
  "demo_receipt =
     \<lparr>cn_receipt_id = ''receipt-00000001'', cn_schema_version = 1, cn_consent_version = 1,
      cn_profile = ''kael'', cn_feature = ''ai'', cn_provider = ''local'', cn_data_class = ''chat'',
      cn_scope = ''session'', cn_granted_at = ''1'', cn_revoked_at = None, cn_revocable = True,
      cn_status = ''granted''\<rparr>"

theorem revocation_effective_witness:
  "ConsentRegistry_is_consented
     (run consent_step [Revoke ''receipt-00000001'' 9, Revoke ''receipt-00000002'' 10]
        [(''receipt-00000001'', demo_receipt)])
     ''receipt-00000001'' ''ai'' ''local'' ''chat'' ''kael'' \<noteq> Inr ()"
  by (rule revocation_effective) simp

text \<open>
  Consent is scoped. Over any sequence of grants and revocations, a request is consented exactly
  when the receipt stored under the id is a valid granted one for the same feature, provider, data
  class and profile.
\<close>

theorem consent_scoped:
  "let reg = run consent_step ops ConsentRegistry_new in
   (ConsentRegistry_is_consented reg i f p d prof = Inr ())
     = (\<exists>r. map_of reg i = Some r \<and> cn_receipt_id r = i \<and> ConsentReceipt_validate r = Inr ()
          \<and> cn_status r = ''granted'' \<and> cn_feature r = f \<and> cn_provider r = p
          \<and> cn_data_class r = d \<and> cn_profile r = prof)"
proof -
  have "registry_inv (run consent_step ops ConsentRegistry_new)"
    by (rule consent.run_inv) (simp add: registry_inv_def ConsentRegistry_new_def)
  then show ?thesis unfolding Let_def is_consented_iff registry_inv_def by blast
qed

text \<open>
  Which egress the policy allows. Under lockdown or a mode that blocks remote calls, exactly the
  allow-listed destinations, for a category that is not denied or has an override whose receipt id
  has 16 bytes; otherwise everything in the two remote modes, denied categories included, and
  nothing in any other mode. The initial policy allows nothing.
\<close>

theorem egress_spec:
  "(EgressPolicy_can_egress p c d = Inr ()) =
     (if ep_lockdown p \<or> ep_mode p \<in> {PrivacyDisabled, LocalOnly}
      then d \<in> set (ep_allowed_destinations p)
        \<and> (if c \<in> set (ep_denied_categories p)
           then (case EgressPolicy_override_for p c of None \<Rightarrow> False
                 | Some e \<Rightarrow> 16 \<le> length (oe_consent_receipt_id e))
           else True)
      else ep_mode p \<in> {RemoteRedacted, RemoteApproved})
   \<and> EgressPolicy_can_egress EgressPolicy_new_denial_first c d = Inl (LockdownBlocked c d)"
  by (cases "ep_mode p")
     (auto simp: EgressPolicy_can_egress_def PrivacyMode_blocks_remote_def list_ex_iff
        EgressPolicy_new_denial_first_def split: option.split)

text \<open>
  An override needs no consent. An accepted override opens its category for every allow-listed
  destination, with any receipt id of 16 bytes: the registry of consents, where that receipt may
  be unknown or revoked, is not asked.
\<close>

theorem override_needs_no_consent:
  assumes "fst (EgressPolicy_add_override e p) = Inr ()" "ep_overrides p = []"
    and "d \<in> set (ep_allowed_destinations p)" "ep_lockdown p"
  shows "EgressPolicy_can_egress (snd (EgressPolicy_add_override e p)) (oe_category e) d = Inr ()"
  using assms
  by (auto simp: EgressPolicy_add_override_def EgressPolicy_can_egress_def list_ex_iff
      EgressPolicy_override_for_def split: if_splits)

theorem override_needs_no_consent_witness:
  "EgressPolicy_can_egress
     (snd (EgressPolicy_add_override
        \<lparr>oe_override_id = ''override-1'', oe_category = ''ai'', oe_user_visible = True,
         oe_consent_receipt_id = ''never-granted-id''\<rparr>
        (EgressPolicy_new_denial_first\<lparr>ep_allowed_destinations := [''host'']\<rparr>))) ''ai'' ''host'' = Inr ()"
  using override_needs_no_consent [of "\<lparr>oe_override_id = ''override-1'', oe_category = ''ai'',
       oe_user_visible = True, oe_consent_receipt_id = ''never-granted-id''\<rparr>"
      "EgressPolicy_new_denial_first\<lparr>ep_allowed_destinations := [''host'']\<rparr>" "''host''"]
  by (simp add: EgressPolicy_add_override_def EgressPolicy_new_denial_first_def)

end
