(* ===== verification/FirewallQt.thy ===== *)
theory FirewallQt
  imports Privacy
begin

text \<open>
  The Qt privacy firewall, \<open>src/wiremudder/privacy/privacy_firewall.h\<close> and \<open>.cpp\<close>: egress policy
  and consent registry in one object. Its overrides and modes are the records of \<open>Privacy\<close>; a
  receipt is the list of its five texts, kept in a hash. A compiled \<open>QRegularExpression\<close> is a
  parameter.
\<close>

section \<open>The firewall\<close>

record PrivacyFirewall =
  pf_mode :: PrivacyMode
  pf_lockdown :: bool
  pf_allowedDestinations :: "string list"
  pf_deniedCategories :: "string list"
  pf_overrides :: "(string, OverrideEntry) hash_map"
  pf_consent :: "(string, string list) hash_map"

definition PrivacyFirewall_new :: PrivacyFirewall where
  "PrivacyFirewall_new =
     \<lparr>pf_mode = LocalOnly, pf_lockdown = True, pf_allowedDestinations = [],
      pf_deniedCategories = [''ai'', ''speech'', ''asset-generation'', ''telemetry'',
        ''package-download'', ''update-check''],
      pf_overrides = [], pf_consent = []\<rparr>"

definition PrivacyFirewall_canEgress :: "PrivacyFirewall \<Rightarrow> string \<Rightarrow> string \<Rightarrow> bool" where
  "PrivacyFirewall_canEgress f category destination =
     (let remoteBlocked = (pf_mode f = PrivacyDisabled \<or> pf_mode f = LocalOnly) in
      if remoteBlocked \<or> pf_lockdown f then
        if destination \<notin> set (pf_allowedDestinations f) then False
        else if category \<in> set (pf_deniedCategories f) then
          list_ex (\<lambda>e. oe_category e = category \<and> oe_user_visible e
                     \<and> 16 \<le> length (oe_consent_receipt_id e)) (map snd (pf_overrides f))
        else True
      else pf_mode f = RemoteRedacted \<or> pf_mode f = RemoteApproved)"

definition PrivacyFirewall_canRoutePurpose :: "PrivacyFirewall \<Rightarrow> string \<Rightarrow> bool" where
  "PrivacyFirewall_canRoutePurpose f purpose =
     (purpose \<notin> set [''proxy-procurement'', ''identity-rotation'', ''fingerprint-spoofing'',
        ''account-automation'', ''spam'', ''ban-evasion''])"

text \<open>\<open>replace\<close> stands for \<open>QString::replace\<close> with a regular expression: pattern, replacement, text.\<close>

definition PrivacyFirewall_redact ::
    "(string \<Rightarrow> string \<Rightarrow> string \<Rightarrow> string) \<Rightarrow> PrivacyFirewall \<Rightarrow> string \<Rightarrow> string" where
  "PrivacyFirewall_redact replace f txt =
     replace ''(?i)-----BEGIN [A-Z ]*PRIVATE KEY-----'' ''[REDACTED:signing-metadata]''
       (replace ''(?i)sk-[a-z0-9]{16,}'' ''[REDACTED:provider-token]'' txt)"

definition PrivacyFirewall_redactSecrets ::
    "(string \<Rightarrow> string \<Rightarrow> string \<Rightarrow> string) \<Rightarrow> PrivacyFirewall \<Rightarrow> string \<Rightarrow> string" where
  "PrivacyFirewall_redactSecrets replace f txt = PrivacyFirewall_redact replace f txt"

definition PrivacyFirewall_setMode :: "PrivacyMode \<Rightarrow> PrivacyFirewall \<Rightarrow> PrivacyFirewall" where
  "PrivacyFirewall_setMode m f = f\<lparr>pf_mode := m\<rparr>"

definition PrivacyFirewall_setLockdown :: "bool \<Rightarrow> PrivacyFirewall \<Rightarrow> PrivacyFirewall" where
  "PrivacyFirewall_setLockdown b f = f\<lparr>pf_lockdown := b\<rparr>"

definition PrivacyFirewall_addAllowedDestination :: "string \<Rightarrow> PrivacyFirewall \<Rightarrow> PrivacyFirewall" where
  "PrivacyFirewall_addAllowedDestination d f =
     (if d \<in> set (pf_allowedDestinations f) then f
      else f\<lparr>pf_allowedDestinations := pf_allowedDestinations f @ [d]\<rparr>)"

definition PrivacyFirewall_addOverride :: "OverrideEntry \<Rightarrow> PrivacyFirewall \<Rightarrow> bool \<times> PrivacyFirewall" where
  "PrivacyFirewall_addOverride e f =
     (if \<not> oe_user_visible e then (False, f)
      else if length (oe_consent_receipt_id e) < 16 then (False, f)
      else if length (oe_override_id e) < 8 then (False, f)
      else (True, f\<lparr>pf_overrides := AList.update (oe_override_id e) e (pf_overrides f)\<rparr>))"

definition PrivacyFirewall_grantConsent ::
    "string \<Rightarrow> string \<Rightarrow> string \<Rightarrow> string \<Rightarrow> string \<Rightarrow> PrivacyFirewall \<Rightarrow> bool \<times> PrivacyFirewall" where
  "PrivacyFirewall_grantConsent receiptId feature provider dataClass profile f =
     (if length receiptId < 16 then (False, f)
      else (True, f\<lparr>pf_consent := AList.update receiptId
              [feature, provider, dataClass, profile, ''granted''] (pf_consent f)\<rparr>))"

text \<open>\<open>QStringList::value\<close>: the element, or the empty string out of range.\<close>

definition list_value :: "string list \<Rightarrow> nat \<Rightarrow> string" where
  "list_value xs i = (if i < length xs then xs ! i else [])"

definition PrivacyFirewall_revokeConsent :: "string \<Rightarrow> PrivacyFirewall \<Rightarrow> bool \<times> PrivacyFirewall" where
  "PrivacyFirewall_revokeConsent receiptId f =
     (case map_of (pf_consent f) receiptId of
        None \<Rightarrow> (False, f)
      | Some v \<Rightarrow>
          (True, if list_value v 4 = ''granted''
             then f\<lparr>pf_consent := AList.update receiptId (v[4 := ''revoked'']) (pf_consent f)\<rparr> else f))"

definition PrivacyFirewall_isConsented ::
    "PrivacyFirewall \<Rightarrow> string \<Rightarrow> string \<Rightarrow> string \<Rightarrow> string \<Rightarrow> string \<Rightarrow> bool" where
  "PrivacyFirewall_isConsented f receiptId feature provider dataClass profile =
     (case map_of (pf_consent f) receiptId of
        None \<Rightarrow> False
      | Some v \<Rightarrow> list_value v 4 = ''granted'' \<and> list_value v 0 = feature \<and> list_value v 1 = provider
          \<and> list_value v 2 = dataClass \<and> list_value v 3 = profile)"

section \<open>Against the core\<close>

text \<open>The core keeps the policy and the registry as two objects; its lists are public fields.\<close>

type_synonym privacy_core = "EgressPolicy \<times> ConsentRegistry"

datatype FirewallOp =
  SetMode PrivacyMode | SetLockdown bool | AllowDestination string | AddOverride OverrideEntry
  | GrantConsent string string string string string | RevokeConsent string

fun firewall_step :: "FirewallOp \<Rightarrow> PrivacyFirewall \<Rightarrow> PrivacyFirewall" where
  "firewall_step (SetMode m) f = PrivacyFirewall_setMode m f"
| "firewall_step (SetLockdown b) f = PrivacyFirewall_setLockdown b f"
| "firewall_step (AllowDestination d) f = PrivacyFirewall_addAllowedDestination d f"
| "firewall_step (AddOverride e) f = snd (PrivacyFirewall_addOverride e f)"
| "firewall_step (GrantConsent i a b c d) f = snd (PrivacyFirewall_grantConsent i a b c d f)"
| "firewall_step (RevokeConsent i) f = snd (PrivacyFirewall_revokeConsent i f)"

definition core_receipt :: "string \<Rightarrow> string \<Rightarrow> string \<Rightarrow> string \<Rightarrow> string \<Rightarrow> ConsentReceipt" where
  "core_receipt i feature provider data_class profile =
     \<lparr>cn_receipt_id = i, cn_schema_version = 1, cn_consent_version = 1, cn_profile = profile,
      cn_feature = feature, cn_provider = provider, cn_data_class = data_class, cn_scope = ''session'',
      cn_granted_at = ''0'', cn_revoked_at = None, cn_revocable = True, cn_status = ''granted''\<rparr>"

fun core_step :: "FirewallOp \<Rightarrow> privacy_core \<Rightarrow> privacy_core" where
  "core_step (SetMode m) (p, reg) = (p\<lparr>ep_mode := m\<rparr>, reg)"
| "core_step (SetLockdown b) (p, reg) = (p\<lparr>ep_lockdown := b\<rparr>, reg)"
| "core_step (AllowDestination d) (p, reg) =
     (p\<lparr>ep_allowed_destinations := ep_allowed_destinations p @ [d]\<rparr>, reg)"
| "core_step (AddOverride e) (p, reg) = (snd (EgressPolicy_add_override e p), reg)"
| "core_step (GrantConsent i a b c d) (p, reg) =
     (p, snd (ConsentRegistry_grant (core_receipt i a b c d) reg))"
| "core_step (RevokeConsent i) (p, reg) = (p, snd (ConsentRegistry_revoke i 0 reg))"

text \<open>The core asks for a feature and a profile in a receipt; the Qt side does not.\<close>

fun named_grant :: "FirewallOp \<Rightarrow> bool" where
  "named_grant (GrantConsent i a b c d) = (a \<noteq> [] \<and> d \<noteq> [])"
| "named_grant _ = True"

definition receipt_texts :: "ConsentReceipt \<Rightarrow> string list" where
  "receipt_texts r = [cn_feature r, cn_provider r, cn_data_class r, cn_profile r, cn_status r]"

definition firewall_rel :: "PrivacyFirewall \<Rightarrow> privacy_core \<Rightarrow> bool" where
  "firewall_rel f c \<longleftrightarrow>
     ep_mode (fst c) = pf_mode f \<and> ep_lockdown (fst c) = pf_lockdown f
     \<and> set (ep_allowed_destinations (fst c)) = set (pf_allowedDestinations f)
     \<and> ep_denied_categories (fst c) = pf_deniedCategories f
     \<and> ep_overrides (fst c) = pf_overrides f
     \<and> list_all (\<lambda>e. oe_user_visible e \<and> 16 \<le> length (oe_consent_receipt_id e)) (map snd (pf_overrides f))
     \<and> map_of (pf_consent f) = map_option receipt_texts \<circ> map_of (snd c)"

lemma list_all_snd_update:
  "P v \<Longrightarrow> list_all P (map snd m) \<Longrightarrow> list_all P (map snd (AList.update k v m))"
  by (induction m) auto

lemma core_receipt_valid:
  "a \<noteq> [] \<Longrightarrow> d \<noteq> [] \<Longrightarrow> 16 \<le> length i \<Longrightarrow> ConsentReceipt_validate (core_receipt i a b c d) = Inr ()"
  by (simp add: ConsentReceipt_validate_def core_receipt_def CONSENT_SCHEMA_VERSION_def)

lemma core_receipt_short:
  "length i < 16 \<Longrightarrow> snd (ConsentRegistry_grant (core_receipt i a b c d) reg) = reg"
  by (simp add: ConsentRegistry_grant_def ConsentReceipt_validate_def core_receipt_def)

lemma core_receipt_texts: "receipt_texts (core_receipt i a b c d) = [a, b, c, d, ''granted'']"
  by (simp add: receipt_texts_def core_receipt_def)

lemma receipt_texts_values:
  "list_value (receipt_texts r) 0 = cn_feature r" "list_value (receipt_texts r) (Suc 0) = cn_provider r"
  "list_value (receipt_texts r) 2 = cn_data_class r" "list_value (receipt_texts r) 3 = cn_profile r"
  "list_value (receipt_texts r) 4 = cn_status r"
  "(receipt_texts r)[4 := st] = receipt_texts (r\<lparr>cn_status := st, cn_revoked_at := t\<rparr>)"
  by (simp_all add: receipt_texts_def list_value_def eval_nat_numeral)

lemma firewall_rel_step:
  assumes rel: "firewall_rel f c" and ok: "named_grant x"
  shows "firewall_rel (firewall_step x f) (core_step x c)"
proof -
  obtain p reg where c: "c = (p, reg)" by fastforce
  show ?thesis
  proof (cases x)
    case (AddOverride e)
    then show ?thesis using rel
      by (simp add: c firewall_rel_def PrivacyFirewall_addOverride_def EgressPolicy_add_override_def
          list_all_snd_update)
  next
    case (GrantConsent i a b d prof)
    show ?thesis
    proof (cases "length i < 16")
      case True
      then show ?thesis using rel unfolding GrantConsent c
        by (simp add: core_receipt_short PrivacyFirewall_grantConsent_def)
    next
      case False
      have "snd (ConsentRegistry_grant (core_receipt i a b d prof) reg)
          = AList.update i (core_receipt i a b d prof) reg"
        using False ok core_receipt_valid [of a prof i b d] unfolding GrantConsent
        by (simp add: ConsentRegistry_grant_def ConsentReceipt_is_granted_def)
           (simp add: core_receipt_def)
      then show ?thesis using rel False unfolding GrantConsent c
        by (simp add: firewall_rel_def PrivacyFirewall_grantConsent_def fun_eq_iff core_receipt_texts)
    qed
  next
    case (RevokeConsent i)
    show ?thesis
    proof (cases "map_of reg i")
      case None
      then show ?thesis using rel unfolding RevokeConsent c
        by (simp add: firewall_rel_def PrivacyFirewall_revokeConsent_def ConsentRegistry_revoke_def)
    next
      case (Some r)
      then have m: "map_of (pf_consent f) i = Some (receipt_texts r)"
        using rel by (simp add: firewall_rel_def c)
      show ?thesis using rel Some m unfolding RevokeConsent c
        by (cases "cn_status r = ''granted''")
           (simp_all add: firewall_rel_def PrivacyFirewall_revokeConsent_def
              ConsentRegistry_revoke_def receipt_texts_values fun_eq_iff
              receipt_texts_values(6) [of r _ "Some (show_nat 0)"])
    qed
  qed (use rel in \<open>auto simp: c firewall_rel_def PrivacyFirewall_setMode_def PrivacyFirewall_setLockdown_def
         PrivacyFirewall_addAllowedDestination_def\<close>)
qed

interpretation firewall_mirror: simulation firewall_step core_step "\<lambda>x. x" firewall_rel named_grant
  by unfold_locales (rule firewall_rel_step)

lemma run_firewall_rel:
  "list_all named_grant ops \<Longrightarrow>
    firewall_rel (run firewall_step ops PrivacyFirewall_new)
      (run core_step ops (EgressPolicy_new_denial_first, ConsentRegistry_new))"
  using firewall_mirror.sim_run [of PrivacyFirewall_new "(EgressPolicy_new_denial_first, ConsentRegistry_new)" ops]
  by (simp add: firewall_rel_def PrivacyFirewall_new_def EgressPolicy_new_denial_first_def
      ConsentRegistry_new_def fun_eq_iff)

lemma firewall_rel_egress:
  assumes "firewall_rel f c"
  shows "PrivacyFirewall_canEgress f cat d = (EgressPolicy_can_egress (fst c) cat d = Inr ())"
proof -
  have "(case find (\<lambda>e. oe_category e = cat) es of
           Some e \<Rightarrow> if 16 \<le> length (oe_consent_receipt_id e) then Inr () else Inl x | None \<Rightarrow> Inl x)
      = (if list_ex (\<lambda>e. oe_category e = cat \<and> oe_user_visible e
                     \<and> 16 \<le> length (oe_consent_receipt_id e)) es then Inr () else Inl x)"
    if "list_all (\<lambda>e. oe_user_visible e \<and> 16 \<le> length (oe_consent_receipt_id e)) es"
    for es and x :: PrivacyError using that by (induction es) auto
  from this [of "map snd (pf_overrides f)" "LockdownBlocked cat d"]
  have found: "(case find (\<lambda>e. oe_category e = cat) (map snd (ep_overrides (fst c))) of
           Some e \<Rightarrow> if 16 \<le> length (oe_consent_receipt_id e) then Inr ()
                    else Inl (LockdownBlocked cat d)
         | None \<Rightarrow> Inl (LockdownBlocked cat d))
      = (if list_ex (\<lambda>e. oe_category e = cat \<and> oe_user_visible e
                     \<and> 16 \<le> length (oe_consent_receipt_id e)) (map snd (pf_overrides f))
         then Inr () else Inl (LockdownBlocked cat d))"
    using assms by (simp add: firewall_rel_def)
  have mem: "list_ex (\<lambda>y. y = z) xs = (z \<in> set xs)" for z :: string and xs by (auto simp: list_ex_iff)
  have "(EgressPolicy_can_egress (fst c) cat d = Inr ()) =
     (if PrivacyMode_blocks_remote (pf_mode f) \<or> pf_lockdown f then
        d \<in> set (pf_allowedDestinations f) \<and> (cat \<in> set (pf_deniedCategories f) \<longrightarrow>
          list_ex (\<lambda>e. oe_category e = cat \<and> oe_user_visible e
                     \<and> 16 \<le> length (oe_consent_receipt_id e)) (map snd (pf_overrides f)))
      else pf_mode f = RemoteRedacted \<or> pf_mode f = RemoteApproved)"
    unfolding EgressPolicy_can_egress_def EgressPolicy_override_for_def found mem
    using assms by (simp add: firewall_rel_def split: PrivacyMode.split)
  then show ?thesis
    by (simp add: PrivacyFirewall_canEgress_def PrivacyMode_blocks_remote_def)
qed

lemma firewall_rel_consent:
  assumes "firewall_rel f c"
  shows "PrivacyFirewall_isConsented f i ft p d prof
    = (ConsentRegistry_is_consented (snd c) i ft p d prof = Inr ())"
proof -
  have m: "map_of (pf_consent f) i = map_option receipt_texts (map_of (snd c) i)"
    using assms by (simp add: firewall_rel_def)
  show ?thesis unfolding is_consented_iff PrivacyFirewall_isConsented_def m
    by (cases "map_of (snd c) i") (auto simp: receipt_texts_values)
qed

section \<open>Properties\<close>

text \<open>
  The Qt firewall decides as the core. After any sequence of operations whose grants name a
  feature and a profile, it allows exactly the egress the core's policy allows and consents to
  exactly the requests the core's registry consents to.
\<close>

theorem firewall_agrees:
  assumes "list_all named_grant ops"
  shows "PrivacyFirewall_canEgress (run firewall_step ops PrivacyFirewall_new) cat d
      = (EgressPolicy_can_egress
           (fst (run core_step ops (EgressPolicy_new_denial_first, ConsentRegistry_new))) cat d = Inr ())
    \<and> PrivacyFirewall_isConsented (run firewall_step ops PrivacyFirewall_new) i ft p dc prof
      = (ConsentRegistry_is_consented
           (snd (run core_step ops (EgressPolicy_new_denial_first, ConsentRegistry_new))) i ft p dc prof
         = Inr ())"
  using firewall_rel_egress [OF run_firewall_rel [OF assms]]
    firewall_rel_consent [OF run_firewall_rel [OF assms]] by blast

theorem firewall_agrees_witness:
  "PrivacyFirewall_canEgress (run firewall_step [AllowDestination ''host'',
      GrantConsent ''receipt-00000001'' ''ai'' ''p'' ''chat'' ''kael''] PrivacyFirewall_new) ''ai'' ''host''
   = (EgressPolicy_can_egress (fst (run core_step [AllowDestination ''host'',
      GrantConsent ''receipt-00000001'' ''ai'' ''p'' ''chat'' ''kael'']
      (EgressPolicy_new_denial_first, ConsentRegistry_new))) ''ai'' ''host'' = Inr ())"
  by (rule firewall_agrees [THEN conjunct1]) simp

end
