(* ===== verification/AiRouter.thy ===== *)
theory AiRouter
  imports Complex_Main "HOL-Library.Product_Lexorder" Privacy
begin

text \<open>
  The AI provider router, \<open>wirecore/crates/wire-ai-router/src/lib.rs\<close>: declared inputs, route
  configurations, the routing decision, and the evaluation of a fixture against the limits for
  certification. A finite \<open>f64\<close> is its exact rational value; NaN is not modelled.
\<close>

section \<open>Inputs, routes, decisions\<close>

record RoutingInputs =
  ri_task :: string
  ri_complexity :: u8
  ri_privacy_mode :: PrivacyMode
  ri_risk :: string
  ri_latency_budget_ms :: u64
  ri_cost_budget :: rat
  ri_context_size :: nat
  ri_availability_hint :: bool
  ri_user_policy :: "string option"

definition RoutingInputs_new ::
    "string \<Rightarrow> u8 \<Rightarrow> PrivacyMode \<Rightarrow> u64 \<Rightarrow> rat \<Rightarrow> nat \<Rightarrow> RoutingInputs" where
  "RoutingInputs_new task complexity mode latency cost context_size =
     \<lparr>ri_task = task, ri_complexity = complexity, ri_privacy_mode = mode, ri_risk = ''low'',
      ri_latency_budget_ms = latency, ri_cost_budget = cost, ri_context_size = context_size,
      ri_availability_hint = True, ri_user_policy = None\<rparr>"

record RouteConfig =
  rc_route_id :: string
  rc_provider_id :: string
  rc_kind :: string
  rc_model :: string
  rc_certified :: bool
  rc_configured :: bool
  rc_remote_egress :: bool
  rc_context_window :: nat
  rc_cost_per_1k :: rat
  rc_locality :: string
  rc_min_privacy_mode :: "PrivacyMode option"
  rc_est_latency_ms :: u64

definition RouteConfig_local :: "string \<Rightarrow> string \<Rightarrow> string \<Rightarrow> nat \<Rightarrow> rat \<Rightarrow> u64 \<Rightarrow> RouteConfig" where
  "RouteConfig_local i prov model window cost latency =
     \<lparr>rc_route_id = i, rc_provider_id = prov, rc_kind = ''local'', rc_model = model,
      rc_certified = True, rc_configured = True, rc_remote_egress = False,
      rc_context_window = window, rc_cost_per_1k = cost, rc_locality = ''local'',
      rc_min_privacy_mode = None, rc_est_latency_ms = latency\<rparr>"

definition RouteConfig_remote :: "string \<Rightarrow> string \<Rightarrow> string \<Rightarrow> nat \<Rightarrow> rat \<Rightarrow> u64 \<Rightarrow> RouteConfig" where
  "RouteConfig_remote i prov model window cost latency =
     \<lparr>rc_route_id = i, rc_provider_id = prov, rc_kind = ''remote'', rc_model = model,
      rc_certified = False, rc_configured = False, rc_remote_egress = True,
      rc_context_window = window, rc_cost_per_1k = cost, rc_locality = ''remote'',
      rc_min_privacy_mode = Some RemoteApproved, rc_est_latency_ms = latency\<rparr>"

datatype RoutingDecision =
  RouteSelected string string string bool | RouteNoSuggestion string | RouteDenied string

fun RoutingDecision_route_id :: "RoutingDecision \<Rightarrow> string option" where
  "RoutingDecision_route_id (RouteSelected i p r d) = Some i"
| "RoutingDecision_route_id _ = None"

fun RoutingDecision_reason :: "RoutingDecision \<Rightarrow> string" where
  "RoutingDecision_reason (RouteSelected i p r d) = r"
| "RoutingDecision_reason (RouteNoSuggestion r) = r"
| "RoutingDecision_reason (RouteDenied r) = r"

section \<open>The router\<close>

fun privacy_rank :: "PrivacyMode \<Rightarrow> nat" where
  "privacy_rank PrivacyDisabled = 0"
| "privacy_rank LocalOnly = 1"
| "privacy_rank LocalPreferred = 2"
| "privacy_rank RemoteRedacted = 3"
| "privacy_rank RemoteApproved = 4"

definition privacy_allows :: "PrivacyMode \<Rightarrow> PrivacyMode \<Rightarrow> bool" where
  "privacy_allows least active \<longleftrightarrow> privacy_rank least \<le> privacy_rank active"

definition is_remote :: "RouteConfig \<Rightarrow> bool" where
  "is_remote r \<longleftrightarrow> rc_remote_egress r \<or> rc_kind r = ''remote''"

text \<open>Why one remote route is blocked, if it is; the scan stops at the first blocked one.\<close>

definition remote_block :: "PrivacyMode \<Rightarrow> RouteConfig \<Rightarrow> string option" where
  "remote_block mode r =
     (if PrivacyMode_blocks_remote mode
      then Some ''remote calls require an active privacy mode that permits egress''
      else if \<not> rc_configured r then Some ''remote provider is not explicitly configured''
      else (case rc_min_privacy_mode r of
              None \<Rightarrow> None
            | Some m \<Rightarrow> if \<not> privacy_allows m mode then Some ''route privacy requirement not met'' else None))"

fun remote_denied_reason :: "PrivacyMode \<Rightarrow> RouteConfig list \<Rightarrow> string option" where
  "remote_denied_reason mode [] = None"
| "remote_denied_reason mode (r # rs) =
     (if \<not> is_remote r then remote_denied_reason mode rs
      else (case remote_block mode r of
              Some reason \<Rightarrow> Some reason
            | None \<Rightarrow> remote_denied_reason mode rs))"

definition candidate :: "RoutingInputs \<Rightarrow> bool \<Rightarrow> RouteConfig \<Rightarrow> bool" where
  "candidate inp remote_ok r \<longleftrightarrow>
     rc_certified r \<and> rc_configured r \<and> ri_context_size inp \<le> rc_context_window r
     \<and> (ri_cost_budget inp \<le> 0 \<or> rc_cost_per_1k r \<le> ri_cost_budget inp)
     \<and> (\<not> is_remote r \<or> remote_ok)
     \<and> (ri_availability_hint inp \<or> rc_locality r = ''local'')"

definition apply_privacy_gate :: "RouteConfig \<Rightarrow> RoutingInputs \<Rightarrow> RoutingDecision" where
  "apply_privacy_gate r inp =
     (case (if is_remote r then remote_block (ri_privacy_mode inp) r else None) of
        Some reason \<Rightarrow> RouteDenied reason
      | None \<Rightarrow> RouteSelected (rc_route_id r) (rc_provider_id r) ''user policy route'' False)"

text \<open>Local first, then cost, latency, id.\<close>

definition locality_rank :: "RouteConfig \<Rightarrow> nat" where
  "locality_rank r = (if rc_locality r = ''local'' then 0 else 1)"

definition route_before :: "RouteConfig \<Rightarrow> RouteConfig \<Rightarrow> bool" where
  "route_before a b \<longleftrightarrow>
     locality_rank a < locality_rank b \<or> (locality_rank a = locality_rank b \<and>
       (rc_cost_per_1k a < rc_cost_per_1k b \<or> (rc_cost_per_1k a = rc_cost_per_1k b \<and>
         (rc_est_latency_ms a < rc_est_latency_ms b \<or> (rc_est_latency_ms a = rc_est_latency_ms b \<and>
           rc_route_id a < rc_route_id b)))))"

text \<open>\<open>min_by\<close> keeps the first of equal elements.\<close>

fun min_route :: "RouteConfig \<Rightarrow> RouteConfig list \<Rightarrow> RouteConfig" where
  "min_route best [] = best"
| "min_route best (r # rs) = min_route (if route_before r best then r else best) rs"

definition candidates :: "RouteConfig list \<Rightarrow> RoutingInputs \<Rightarrow> RouteConfig list" where
  "candidates routes inp =
     filter (candidate inp (remote_denied_reason (ri_privacy_mode inp) routes = None)) routes"

definition best_route :: "RouteConfig \<Rightarrow> RoutingInputs \<Rightarrow> string option \<Rightarrow> RoutingDecision" where
  "best_route chosen inp denied =
     (if ri_latency_budget_ms inp < rc_est_latency_ms chosen \<and> \<not> rc_remote_egress chosen
      then RouteNoSuggestion ''no certified provider meets the latency budget''
      else let degraded = (denied \<noteq> None \<or>
                 (case ri_user_policy inp of None \<Rightarrow> False | Some p \<Rightarrow> p \<noteq> rc_route_id chosen)) in
        RouteSelected (rc_route_id chosen) (rc_provider_id chosen)
          (if degraded
           then ''explicit local fallback; '' @ (case denied of None \<Rightarrow> [] | Some reason \<Rightarrow> reason)
           else ''best certified route for declared inputs'') degraded)"

definition AiRouter_route :: "RouteConfig list \<Rightarrow> RoutingInputs \<Rightarrow> RoutingDecision" where
  "AiRouter_route routes inp =
     (let denied = remote_denied_reason (ri_privacy_mode inp) routes;
          cands = candidates routes inp;
          preferred = (case ri_user_policy inp of None \<Rightarrow> None
                       | Some p \<Rightarrow> find (\<lambda>r. rc_route_id r = p) cands) in
      case preferred of
        Some r \<Rightarrow> apply_privacy_gate r inp
      | None \<Rightarrow>
          (case cands of
             [] \<Rightarrow> (case denied of
                      Some reason \<Rightarrow> RouteDenied reason
                    | None \<Rightarrow> RouteNoSuggestion ''no certified provider fits the declared budget'')
           | r # rs \<Rightarrow> best_route (min_route r rs) inp denied))"

section \<open>Evaluation\<close>

record EvaluationFixture =
  ef_fixture_id :: string
  ef_route_id :: string
  ef_provider :: string
  ef_quality_score :: rat
  ef_privacy_leak_count :: nat
  ef_latency_ms :: u64
  ef_cancellation_ms :: u64
  ef_cost :: rat
  ef_fallback_count :: u32
  ef_baseline_quality :: rat

record EvaluationLimits =
  el_min_quality_factor :: rat
  el_max_privacy_leaks :: nat
  el_max_latency_ms :: u64
  el_max_cancellation_ms :: u64
  el_max_cost :: rat
  el_max_fallbacks :: u32

text \<open>The decimal literals 0.9 and 0.05 stand for the rationals of that value.\<close>

definition EvaluationLimits_strict :: EvaluationLimits where
  "EvaluationLimits_strict =
     \<lparr>el_min_quality_factor = 9 / 10, el_max_privacy_leaks = 0, el_max_latency_ms = 2000,
      el_max_cancellation_ms = 500, el_max_cost = 5 / 100, el_max_fallbacks = 1\<rparr>"

record EvaluationReport =
  er_fixture_id :: string
  er_report_route_id :: string
  er_provider :: string
  er_quality_ok :: bool
  er_privacy_ok :: bool
  er_latency_ok :: bool
  er_cancellation_ok :: bool
  er_cost_ok :: bool
  er_fallback_ok :: bool
  er_certified :: bool

definition evaluate_fixture :: "EvaluationFixture \<Rightarrow> EvaluationLimits \<Rightarrow> EvaluationReport" where
  "evaluate_fixture f l =
     (let quality = (ef_baseline_quality f * el_min_quality_factor l \<le> ef_quality_score f);
          privacy = (ef_privacy_leak_count f \<le> el_max_privacy_leaks l);
          latency = (ef_latency_ms f \<le> el_max_latency_ms l);
          cancellation = (ef_cancellation_ms f \<le> el_max_cancellation_ms l);
          cost = (ef_cost f \<le> el_max_cost l);
          fallback = (ef_fallback_count f \<le> el_max_fallbacks l) in
      \<lparr>er_fixture_id = ef_fixture_id f, er_report_route_id = ef_route_id f,
       er_provider = ef_provider f, er_quality_ok = quality, er_privacy_ok = privacy,
       er_latency_ok = latency, er_cancellation_ok = cancellation, er_cost_ok = cost,
       er_fallback_ok = fallback,
       er_certified = (quality \<and> privacy \<and> latency \<and> cancellation \<and> cost \<and> fallback)\<rparr>)"

section \<open>Facts\<close>

lemma remote_denied_None:
  "remote_denied_reason mode rs = None \<longleftrightarrow>
    list_all (\<lambda>r. is_remote r \<longrightarrow> remote_block mode r = None) rs"
  by (induction rs) (auto split: option.splits)

lemma candidate_facts:
  assumes "r \<in> set (candidates routes inp)"
  shows "r \<in> set routes \<and> rc_certified r \<and> rc_configured r
      \<and> ri_context_size inp \<le> rc_context_window r
      \<and> (ri_cost_budget inp \<le> 0 \<or> rc_cost_per_1k r \<le> ri_cost_budget inp)
      \<and> (ri_availability_hint inp \<or> rc_locality r = ''local'')
      \<and> (if is_remote r
         then list_all (\<lambda>q. if is_remote q then remote_block (ri_privacy_mode inp) q = None else True) routes
         else True)"
  using assms by (auto simp: candidates_def candidate_def remote_denied_None list_all_iff)

text \<open>The comparison is the lexicographic order of the keys, so it is a strict linear order on them.\<close>

definition route_key :: "RouteConfig \<Rightarrow> nat \<times> rat \<times> u64 \<times> string" where
  "route_key r = (locality_rank r, rc_cost_per_1k r, rc_est_latency_ms r, rc_route_id r)"

lemma route_before_key: "route_before a b \<longleftrightarrow> route_key a < route_key b"
  unfolding route_before_def route_key_def less_prod_simp le_less by blast

lemma route_before_irrefl: "\<not> route_before a a"
  by (simp add: route_before_key)

lemma route_before_trans: "route_before a b \<Longrightarrow> route_before b c \<Longrightarrow> route_before a c"
  unfolding route_before_key by (rule less_trans)

lemma route_before_negtrans: "\<not> route_before b a \<Longrightarrow> \<not> route_before c b \<Longrightarrow> \<not> route_before c a"
  unfolding route_before_key not_less by (rule order_trans)

lemma min_route_least:
  "min_route best rs \<in> insert best (set rs)
    \<and> (\<forall>r \<in> insert best (set rs). \<not> route_before r (min_route best rs))"
proof (induction rs arbitrary: best)
  case Nil
  show ?case by (simp add: route_before_irrefl)
next
  case (Cons r rs)
  let ?b = "if route_before r best then r else best"
  have IH: "min_route ?b rs \<in> insert ?b (set rs)"
    "\<forall>x \<in> insert ?b (set rs). \<not> route_before x (min_route ?b rs)" using Cons [of ?b] by auto
  have "\<not> route_before ?b (min_route ?b rs)" using IH(2) by blast
  moreover have "\<not> route_before r ?b" by (simp add: route_before_irrefl)
  moreover have "\<not> route_before best ?b"
    using route_before_trans [of best r best] by (auto simp: route_before_irrefl)
  ultimately have "\<not> route_before r (min_route ?b rs)" "\<not> route_before best (min_route ?b rs)"
    using route_before_negtrans by blast+
  then show ?case using IH by (auto split: if_splits)
qed

lemma route_selected_candidate:
  "AiRouter_route routes inp = RouteSelected i p reason degraded \<Longrightarrow>
    \<exists>r \<in> set (candidates routes inp). rc_route_id r = i \<and> rc_provider_id r = p"
proof -
  assume sel: "AiRouter_route routes inp = RouteSelected i p reason degraded"
  let ?cs = "candidates routes inp"
  show ?thesis
  proof (cases "case ri_user_policy inp of None \<Rightarrow> None | Some p \<Rightarrow> find (\<lambda>r. rc_route_id r = p) ?cs")
    case (Some r)
    then have "r \<in> set ?cs" by (auto simp: find_Some_iff split: option.splits)
    moreover have "rc_route_id r = i \<and> rc_provider_id r = p"
      using sel Some by (auto simp: AiRouter_route_def apply_privacy_gate_def split: option.splits if_splits)
    ultimately show ?thesis by blast
  next
    case None
    then obtain c cs where cs: "?cs = c # cs"
      using sel by (cases ?cs) (auto simp: AiRouter_route_def split: option.splits)
    have "min_route c cs \<in> set ?cs" using min_route_least [of c cs] unfolding cs by simp
    moreover have "rc_route_id (min_route c cs) = i \<and> rc_provider_id (min_route c cs) = p"
      using sel None [unfolded cs] cs by (auto simp: AiRouter_route_def best_route_def Let_def split: if_splits)
    ultimately show ?thesis by blast
  qed
qed

section \<open>Properties\<close>

text \<open>
  C40: What the router selects. A selected route is one of the table, certified and configured, fits
  the context and the cost budget, and is local when remote services are not available. When it is
  remote, no remote route of the table is blocked: the privacy mode permits remote calls and each
  remote route is configured and allowed in that mode. When it was not the user's choice, it is the
  best eligible route in the order local, cost, latency, id, and it is marked as degraded exactly
  when a remote route was blocked or the user had asked for another one.
\<close>

theorem router_selects_eligible:
  "case AiRouter_route routes inp of
     RouteSelected i p reason degraded \<Rightarrow>
       (\<exists>r \<in> set routes. rc_route_id r = i \<and> rc_provider_id r = p
         \<and> rc_certified r \<and> rc_configured r \<and> ri_context_size inp \<le> rc_context_window r
         \<and> (ri_cost_budget inp \<le> 0 \<or> rc_cost_per_1k r \<le> ri_cost_budget inp)
         \<and> (ri_availability_hint inp \<or> rc_locality r = ''local'')
         \<and> (if is_remote r
            then list_all (\<lambda>q. if is_remote q then remote_block (ri_privacy_mode inp) q = None else True) routes
            else True)
         \<and> ((ri_user_policy inp = Some i \<and> degraded = False)
            \<or> (list_all (\<lambda>q. route_before q r = False) (candidates routes inp)
               \<and> degraded = (if remote_denied_reason (ri_privacy_mode inp) routes = None
                     then ri_user_policy inp \<notin> {None, Some i} else True))))
   | _ \<Rightarrow> True"
proof -
  let ?cs = "candidates routes inp" and ?mode = "ri_privacy_mode inp"
  show ?thesis
  proof (cases "case ri_user_policy inp of None \<Rightarrow> None | Some p \<Rightarrow> find (\<lambda>r. rc_route_id r = p) ?cs")
    case (Some r)
    then have r: "ri_user_policy inp = Some (rc_route_id r)" "r \<in> set ?cs"
      by (auto simp: find_Some_iff split: option.splits)
    show ?thesis
    proof (cases "if is_remote r then remote_block ?mode r else None")
      case None
      then have "AiRouter_route routes inp =
          RouteSelected (rc_route_id r) (rc_provider_id r) ''user policy route'' False"
        using Some by (simp add: AiRouter_route_def apply_privacy_gate_def)
      then show ?thesis using candidate_facts [OF r(2)] r(1) by (simp only: RoutingDecision.case) blast
    next
      case (Some reason)
      then show ?thesis
        using \<open>_ = Some r\<close> by (simp add: AiRouter_route_def apply_privacy_gate_def)
    qed
  next
    case None
    show ?thesis
    proof (cases ?cs)
      case Nil
      then show ?thesis using None by (simp add: AiRouter_route_def split: option.split)
    next
      case (Cons c cs)
      let ?r = "min_route c cs" and ?denied = "remote_denied_reason ?mode routes"
      have m: "?r \<in> set ?cs" "list_all (\<lambda>q. route_before q ?r = False) ?cs"
        using min_route_least [of c cs] Cons by (auto simp: list_all_iff)
      have route: "AiRouter_route routes inp = best_route ?r inp ?denied"
        unfolding AiRouter_route_def Let_def None by (simp add: Cons)
      show ?thesis
      proof (cases "ri_latency_budget_ms inp < rc_est_latency_ms ?r \<and> \<not> rc_remote_egress ?r")
        case True
        then show ?thesis by (simp add: route best_route_def)
      next
        case False
        then obtain reason where sel: "AiRouter_route routes inp =
            RouteSelected (rc_route_id ?r) (rc_provider_id ?r) reason
              (if ?denied = None then ri_user_policy inp \<notin> {None, Some (rc_route_id ?r)} else True)"
          unfolding route best_route_def Let_def by (auto split: option.splits)
        show ?thesis
          unfolding sel RoutingDecision.case using candidate_facts [OF m(1)] m by blast
      qed
    qed
  qed
qed

text \<open>
  The latency budget is checked for the best route only. With a slow cheap local route and a fast
  dearer one, both certified and eligible, the router answers that no certified provider meets the
  latency budget, although the second one does.
\<close>

theorem latency_checked_for_best_only:
  "AiRouter_route [RouteConfig_local ''slow'' ''p1'' ''m'' 4096 0 900,
       RouteConfig_local ''fast'' ''p2'' ''m'' 4096 1 20]
     (RoutingInputs_new ''chat'' 1 LocalOnly 100 0 10)
   = RouteNoSuggestion ''no certified provider meets the latency budget''"
  by (simp add: AiRouter_route_def candidates_def candidate_def RouteConfig_local_def
      RoutingInputs_new_def is_remote_def best_route_def route_before_def locality_rank_def Let_def)

text \<open>
  Certification. A fixture is certified exactly when it meets every limit, and tightening any
  limit never certifies more.
\<close>

theorem certified_iff_all:
  "er_certified (evaluate_fixture f l) =
     (er_quality_ok (evaluate_fixture f l) \<and> ef_privacy_leak_count f \<le> el_max_privacy_leaks l
      \<and> ef_latency_ms f \<le> el_max_latency_ms l \<and> ef_cancellation_ms f \<le> el_max_cancellation_ms l
      \<and> ef_cost f \<le> el_max_cost l \<and> ef_fallback_count f \<le> el_max_fallbacks l)"
  by (simp add: evaluate_fixture_def Let_def)

end
