(* ===== verification/Soul.thy ===== *)
theory Soul
  imports Prelude
begin

text \<open>
  Soul documents and the Soul Studio, \<open>wirecore/crates/wire-soul/src/lib.rs\<close>: the persona
  document, its validation against the immutable policy domains, the compiled prompt, and the
  studio with its bounded audit.
\<close>

section \<open>Immutable policy\<close>

definition SOUL_IMMUTABLE_POLICY :: "string list" where
  "SOUL_IMMUTABLE_POLICY =
     [''security'', ''privacy'', ''routing'', ''package'', ''plugin'', ''updater'', ''update'',
      ''telemetry'', ''signing'', ''command safety'', ''emergency-stop'']"

definition WEAKENING_VERBS :: "string list" where
  "WEAKENING_VERBS =
     [''ignore'', ''bypass'', ''override'', ''disable'', ''weaken'', ''violate'',
      ''circumvent'', ''skip'', ''relax'', ''exempt'']"

definition INJECTION_MARKERS :: "string list" where
  "INJECTION_MARKERS =
     [''ignore previous instructions'', ''ignore all instructions'',
      ''ignore prior instructions'', ''ignore your instructions'',
      ''ignore earlier instructions'', ''disregard previous instructions'',
      ''disregard all instructions'', ''disregard prior instructions'',
      ''disregard your instructions'', ''forget previous instructions'',
      ''forget all instructions'', ''override previous instructions'',
      ''override all instructions'', ''grant full access'', ''grant complete access'',
      ''grant all access'', ''grant unrestricted access'', ''grant full permissions'',
      ''grant admin access'', ''unlock full access'', ''unlock all features'',
      ''enable full access'', ''remove all restrictions'', ''remove all limitations'',
      ''remove all limits'', ''disable all restrictions'', ''bypass all restrictions'',
      ''disable all safety'', ''turn off all safety'', ''no restrictions apply'']"

definition REINFORCING_PREFIXES :: "string list" where
  "REINFORCING_PREFIXES =
     [''never '', ''do not '', ''don't '', ''must not '', ''shall not '', ''should not '']"

section \<open>The document\<close>

record SoulDocument =
  sd_name :: string
  sd_tone :: string
  sd_roleplay :: string
  sd_risk_tolerance :: string
  sd_preferred_behaviors :: "string list"
  sd_forbidden_behaviors :: "string list"
  sd_examples :: "string list"
  sd_schema_version :: u32

definition SoulDocument_new :: "string \<Rightarrow> SoulDocument" where
  "SoulDocument_new name =
     \<lparr>sd_name = name, sd_tone = [], sd_roleplay = [], sd_risk_tolerance = [],
      sd_preferred_behaviors = [], sd_forbidden_behaviors = [], sd_examples = [],
      sd_schema_version = 1\<rparr>"

datatype SoulError =
  SoulSchema string | SoulValidation string | SoulPolicyOverride string string

fun SoulError_user_message :: "SoulError \<Rightarrow> string" where
  "SoulError_user_message (SoulSchema m) = ''the soul document schema is not supported''"
| "SoulError_user_message (SoulValidation m) = m"
| "SoulError_user_message (SoulPolicyOverride d b) = ''soul cannot override '' @ d @ '' policy''"

text \<open>The two checks of one forbidden behaviour: injection markers, weakening verbs on a domain.\<close>

definition injected :: "string \<Rightarrow> bool" where
  "injected lower \<longleftrightarrow>
     \<not> list_ex (\<lambda>p. prefix p lower) REINFORCING_PREFIXES
     \<and> list_ex (\<lambda>m. str_contains lower m) INJECTION_MARKERS"

definition weakening :: "string \<Rightarrow> bool" where
  "weakening lower \<longleftrightarrow> list_ex (\<lambda>v. str_contains lower v) WEAKENING_VERBS"

fun check_behaviors :: "string list \<Rightarrow> SoulError + unit" where
  "check_behaviors [] = Inr ()"
| "check_behaviors (fb # fbs) =
     (let lower = to_lower fb in
      if injected lower then Inl (SoulPolicyOverride ''instruction-layer'' fb)
      else if \<not> weakening lower then check_behaviors fbs
      else (case find (\<lambda>d. str_contains lower d) SOUL_IMMUTABLE_POLICY of
              Some d \<Rightarrow> Inl (SoulPolicyOverride d fb)
            | None \<Rightarrow> check_behaviors fbs))"

definition SoulDocument_validate :: "SoulDocument \<Rightarrow> SoulError + unit" where
  "SoulDocument_validate soul =
     (if sd_schema_version soul \<noteq> 1
      then Inl (SoulSchema (''unsupported schema_version '' @ show_nat (unat (sd_schema_version soul))))
      else if trim (sd_name soul) = [] then Inl (SoulValidation ''soul name must not be empty'')
      else if trim (sd_tone soul) = [] then Inl (SoulValidation ''soul tone must not be empty'')
      else check_behaviors (sd_forbidden_behaviors soul))"

definition policy_precedence_ok :: "SoulDocument \<Rightarrow> bool" where
  "policy_precedence_ok soul \<longleftrightarrow> \<not> isl (SoulDocument_validate soul)"

definition compiled_prompt :: "SoulDocument \<Rightarrow> string" where
  "compiled_prompt soul =
     ''You are '' @ sd_name soul @ ''. Tone: '' @ sd_tone soul @ ''. Roleplay: '' @ sd_roleplay soul
     @ ''. Risk tolerance: '' @ sd_risk_tolerance soul
     @ ''. Preferred: '' @ str_join ''; '' (sd_preferred_behaviors soul)
     @ ''. Forbidden: '' @ str_join ''; '' (sd_forbidden_behaviors soul) @ ''.''"

section \<open>The studio\<close>

record SoulAuditEntry =
  sa_action :: string
  sa_soul_name :: string
  sa_accepted :: bool
  sa_detail :: string
  sa_at_ms :: u64

record SoulStudio =
  st_audit :: "SoulAuditEntry list"
  st_max_audit :: nat

definition SoulStudio_new :: SoulStudio where
  "SoulStudio_new = \<lparr>st_audit = [], st_max_audit = 200\<rparr>"

definition SoulStudio_record ::
    "string \<Rightarrow> string \<Rightarrow> bool \<Rightarrow> string \<Rightarrow> u64 \<Rightarrow> SoulStudio \<Rightarrow> SoulStudio" where
  "SoulStudio_record action name accepted detail at_ms studio =
     (let audit = st_audit studio @
            [\<lparr>sa_action = action, sa_soul_name = name, sa_accepted = accepted,
              sa_detail = detail, sa_at_ms = at_ms\<rparr>] in
      studio\<lparr>st_audit := drop (length audit - st_max_audit studio) audit\<rparr>)"

definition validate_soul :: "SoulDocument \<Rightarrow> u64 \<Rightarrow> SoulStudio \<Rightarrow> (SoulError + unit) \<times> SoulStudio" where
  "validate_soul soul at_ms studio =
     (let result = SoulDocument_validate soul in
      (result, SoulStudio_record ''validate'' (sd_name soul) (\<not> isl result)
         (case result of Inr u \<Rightarrow> ''soul valid; policy precedence ok''
          | Inl e \<Rightarrow> SoulError_user_message e) at_ms studio))"

definition sandbox_preview :: "SoulDocument \<Rightarrow> string" where
  "sandbox_preview soul =
     ''== Soul Studio sandbox preview =='' @ [CHR 0x0A] @ sd_name soul @ '': '' @ sd_tone soul
     @ [CHR 0x0A] @ ''player: (test message)'' @ [CHR 0x0A] @ ''assistant: '' @ sd_name soul
     @ '' responds within boundaries; forbidden behaviors are not proposed.''"

definition overridden :: "string \<Rightarrow> SoulDocument \<Rightarrow> bool" where
  "overridden d soul \<longleftrightarrow>
     list_ex (\<lambda>b. str_contains (to_lower b) d \<and> weakening (to_lower b)) (sd_forbidden_behaviors soul)"

definition policy_precedence :: "SoulDocument \<Rightarrow> string list" where
  "policy_precedence soul =
     map (\<lambda>d. d @ '':'' @ (if overridden d soul then ''blocked'' else ''ok'')) SOUL_IMMUTABLE_POLICY"

definition SoulStudio_audit_len :: "SoulStudio \<Rightarrow> nat" where
  "SoulStudio_audit_len studio = length (st_audit studio)"

definition recent_audit :: "nat \<Rightarrow> SoulStudio \<Rightarrow> SoulAuditEntry list" where
  "recent_audit n studio = drop (length (st_audit studio) - n) (st_audit studio)"

section \<open>Facts\<close>

lemma check_behaviors_ok:
  "check_behaviors fbs = Inr () \<longleftrightarrow>
    list_all (\<lambda>b. injected (to_lower b) = False) fbs
    \<and> (\<forall>d \<in> set SOUL_IMMUTABLE_POLICY. \<not> (\<exists>b \<in> set fbs. str_contains (to_lower b) d \<and> weakening (to_lower b)))"
proof (induction fbs)
  case (Cons b fbs)
  have none: "find (\<lambda>d. str_contains s d) SOUL_IMMUTABLE_POLICY = None \<longleftrightarrow>
      (\<forall>d \<in> set SOUL_IMMUTABLE_POLICY. \<not> str_contains s d)" for s
    by (auto simp: find_None_iff)
  show ?case
    using Cons none [of "to_lower b"]
    by (cases "find (\<lambda>d. str_contains (to_lower b) d) SOUL_IMMUTABLE_POLICY") (auto simp: Let_def)
qed simp

lemma precedence_all_ok:
  "policy_precedence soul = map (\<lambda>d. d @ '':ok'') SOUL_IMMUTABLE_POLICY \<longleftrightarrow>
    (\<forall>d \<in> set SOUL_IMMUTABLE_POLICY. \<not> overridden d soul)"
  by (auto simp: policy_precedence_def)

lemma str_contains_append: "str_contains (u @ r @ v) r"
  by (simp add: str_contains_iff)

text \<open>What one call of \<open>validate_soul\<close> adds to the audit.\<close>

definition audit_entry :: "SoulDocument \<times> u64 \<Rightarrow> SoulAuditEntry" where
  "audit_entry v =
     (let result = SoulDocument_validate (fst v) in
      \<lparr>sa_action = ''validate'', sa_soul_name = sd_name (fst v), sa_accepted = \<not> isl result,
       sa_detail = (case result of Inr u \<Rightarrow> ''soul valid; policy precedence ok''
                    | Inl e \<Rightarrow> SoulError_user_message e), sa_at_ms = snd v\<rparr>)"

definition studio_step :: "SoulDocument \<times> u64 \<Rightarrow> SoulStudio \<Rightarrow> SoulStudio" where
  "studio_step v studio = snd (validate_soul (fst v) (snd v) studio)"

definition last_n :: "nat \<Rightarrow> 'a list \<Rightarrow> 'a list" where
  "last_n n xs = drop (length xs - n) xs"

lemma last_n_snoc: "last_n n (last_n n xs @ [x]) = last_n n (xs @ [x])"
proof (cases "length xs \<le> n")
  case True
  then show ?thesis by (simp add: last_n_def)
next
  case False
  then show ?thesis by (cases n) (auto simp: last_n_def Suc_diff_Suc)
qed

lemma last_n_last_n: "m \<le> n \<Longrightarrow> last_n m (last_n n xs) = last_n m xs"
proof -
  assume "m \<le> n"
  then have "length xs - (length xs - n + m) + (length xs - n) = length xs - m" by arith
  then show ?thesis by (simp add: last_n_def)
qed

lemma studio_step_audit:
  "studio_step v studio =
    studio\<lparr>st_audit := last_n (st_max_audit studio) (st_audit studio @ [audit_entry v])\<rparr>"
  by (simp add: studio_step_def validate_soul_def SoulStudio_record_def audit_entry_def last_n_def Let_def)

lemma studio_run_audit:
  "st_audit studio = last_n n xs \<Longrightarrow> st_max_audit studio = n \<Longrightarrow>
    st_audit (run studio_step vs studio) = last_n n (xs @ map audit_entry vs)"
proof (induction vs arbitrary: studio xs)
  case (Cons v vs)
  have "st_audit (studio_step v studio) = last_n n (xs @ [audit_entry v])"
    using Cons.prems by (simp add: studio_step_audit last_n_snoc)
  moreover have "st_max_audit (studio_step v studio) = n"
    using Cons.prems by (simp add: studio_step_audit)
  ultimately show ?case using Cons.IH [of "studio_step v studio" "xs @ [audit_entry v]"] by simp
qed simp

section \<open>Properties\<close>

text \<open>
  A soul document validates exactly when its schema is version 1, its name and tone are not blank,
  no forbidden behaviour carries an injection marker, and the policy precedence the studio shows
  is ok in every immutable domain: the validation and the display agree.
\<close>

theorem valid_soul_precedence:
  "policy_precedence_ok soul =
     (sd_schema_version soul = 1 \<and> trim (sd_name soul) \<noteq> [] \<and> trim (sd_tone soul) \<noteq> []
      \<and> list_all (\<lambda>b. injected (to_lower b) = False) (sd_forbidden_behaviors soul)
      \<and> policy_precedence soul = map (\<lambda>d. d @ '':ok'') SOUL_IMMUTABLE_POLICY)"
proof -
  have "policy_precedence_ok soul \<longleftrightarrow> SoulDocument_validate soul = Inr ()"
    by (cases "SoulDocument_validate soul") (simp_all add: policy_precedence_ok_def)
  moreover have "check_behaviors (sd_forbidden_behaviors soul) = Inr () \<longleftrightarrow>
      list_all (\<lambda>b. injected (to_lower b) = False) (sd_forbidden_behaviors soul)
      \<and> policy_precedence soul = map (\<lambda>d. d @ '':ok'') SOUL_IMMUTABLE_POLICY"
    by (simp add: check_behaviors_ok precedence_all_ok overridden_def list_ex_iff)
  ultimately show ?thesis by (simp add: SoulDocument_validate_def)
qed

text \<open>
  Validation reads only the forbidden behaviours: whatever the role play, the risk tolerance and
  the preferred behaviours say, the verdict is the same, and the role play and each preferred
  behaviour stand in the compiled prompt word for word.
\<close>

theorem other_text_unchecked:
  "SoulDocument_validate (soul\<lparr>sd_roleplay := role, sd_risk_tolerance := risk,
       sd_preferred_behaviors := pref, sd_examples := ex\<rparr>) = SoulDocument_validate soul
   \<and> str_contains (compiled_prompt (soul\<lparr>sd_roleplay := role\<rparr>)) role
   \<and> str_contains (compiled_prompt (soul\<lparr>sd_preferred_behaviors := [b]\<rparr>)) b"
proof -
  have "str_contains (compiled_prompt (soul\<lparr>sd_roleplay := role\<rparr>)) role"
    unfolding compiled_prompt_def
    using str_contains_append [of "''You are '' @ sd_name soul @ ''. Tone: '' @ sd_tone soul @ ''. Roleplay: ''" role]
    by (simp del: str_contains.simps)
  moreover have "str_contains (compiled_prompt (soul\<lparr>sd_preferred_behaviors := [b]\<rparr>)) b"
    unfolding compiled_prompt_def
    using str_contains_append [of "''You are '' @ sd_name soul @ ''. Tone: '' @ sd_tone soul @ ''. Roleplay: ''
        @ sd_roleplay soul @ ''. Risk tolerance: '' @ sd_risk_tolerance soul @ ''. Preferred: ''" b]
    by (simp del: str_contains.simps)
  ultimately show ?thesis by (simp add: SoulDocument_validate_def)
qed

text \<open>
  A prohibition that reinforces a policy is still refused when it uses a weakening verb: the
  reinforcing prefix exempts from the injection markers only.
\<close>

theorem reinforcement_refused:
  "SoulDocument_validate
     ((SoulDocument_new ''Guardian'')\<lparr>sd_tone := ''calm'', sd_forbidden_behaviors := [''Never bypass privacy'']\<rparr>)
   = Inl (SoulPolicyOverride ''privacy'' ''Never bypass privacy'')"
  by code_simp

text \<open>
  The audit of a studio is the window of the last 200 validations, in order, each with its
  verdict; asking for at most 200 recent entries gives the newest ones.
\<close>

theorem studio_audit_window:
  "st_audit (run studio_step vs SoulStudio_new) = last_n 200 (map audit_entry vs)
   \<and> recent_audit (min n 200) (run studio_step vs SoulStudio_new)
       = last_n (min n 200) (map audit_entry vs)"
proof -
  have a: "st_audit (run studio_step vs SoulStudio_new) = last_n 200 (map audit_entry vs)"
    using studio_run_audit [of SoulStudio_new 200 "[]" vs] by (simp add: SoulStudio_new_def last_n_def)
  moreover have "recent_audit (min n 200) (run studio_step vs SoulStudio_new)
      = last_n (min n 200) (st_audit (run studio_step vs SoulStudio_new))"
    by (simp add: recent_audit_def last_n_def)
  ultimately show ?thesis by (simp add: last_n_last_n)
qed

end
