(* ===== verification/Quest.thy ===== *)
theory Quest
  imports Prelude
begin

text \<open>
  The quest log, \<open>wirecore/crates/wire-quest/src/lib.rs\<close>: quests with cited clues, states and
  user corrections in a \<open>BTreeMap\<close> of at most 500 entries.
\<close>

section \<open>Data\<close>

datatype QuestState = Observed | Inferred | Completed | Failed | UserCorrected

fun QuestState_label :: "QuestState \<Rightarrow> string" where
  "QuestState_label Observed = ''observed''"
| "QuestState_label Inferred = ''inferred''"
| "QuestState_label Completed = ''completed''"
| "QuestState_label Failed = ''failed''"
| "QuestState_label UserCorrected = ''user-corrected''"

record QuestClue =
  qc_text :: string
  qc_cited_from :: string
  qc_at_ms :: u64

record QuestCorrection =
  qn_note :: string
  qn_at_ms :: u64

record QuestEntry =
  qe_id :: string
  qe_title :: string
  qe_state :: QuestState
  qe_clues :: "QuestClue list"
  qe_corrections :: "QuestCorrection list"
  qe_updated_at_ms :: u64

datatype QuestError = QuestValidation string | QuestNotFound string | QuestExhaustion string

fun QuestError_user_message :: "QuestError \<Rightarrow> string" where
  "QuestError_user_message (QuestValidation m) = m"
| "QuestError_user_message (QuestNotFound m) = ''quest not found: '' @ m"
| "QuestError_user_message (QuestExhaustion m) = m"

record QuestLog =
  ql_quests :: "(string \<times> QuestEntry) list"
  ql_max_quests :: nat

definition QuestLog_new :: QuestLog where
  "QuestLog_new = \<lparr>ql_quests = [], ql_max_quests = 500\<rparr>"

section \<open>Operations\<close>

definition QuestLog_track ::
    "string \<Rightarrow> string \<Rightarrow> QuestState \<Rightarrow> string \<Rightarrow> string \<Rightarrow> u64 \<Rightarrow> QuestLog \<Rightarrow> (QuestError + unit) \<times> QuestLog" where
  "QuestLog_track i title state clue_text cited_from at_ms l =
     (if trim i = [] \<or> trim title = [] then (Inl (QuestValidation ''quest id and title required''), l)
      else if trim clue_text = [] \<or> trim cited_from = []
      then (Inl (QuestValidation ''clue text and citation required''), l)
      else if map_of (ql_quests l) i = None \<and> ql_max_quests l \<le> length (ql_quests l)
      then (Inl (QuestExhaustion ''quest log full''), l)
      else
        let clue = \<lparr>qc_text = clue_text, qc_cited_from = cited_from, qc_at_ms = at_ms\<rparr>;
            entry = (case map_of (ql_quests l) i of
                       Some e \<Rightarrow> e
                     | None \<Rightarrow> \<lparr>qe_id = i, qe_title = title, qe_state = state, qe_clues = [],
                         qe_corrections = [], qe_updated_at_ms = at_ms\<rparr>) in
        (Inr (), l\<lparr>ql_quests := bt_insert i
           (entry\<lparr>qe_title := title, qe_state := state, qe_clues := qe_clues entry @ [clue],
              qe_updated_at_ms := at_ms\<rparr>) (ql_quests l)\<rparr>))"

text \<open>What the three updates of a present quest share: look it up, change it, store it back.\<close>

definition with_quest ::
    "string \<Rightarrow> (QuestEntry \<Rightarrow> QuestEntry) \<Rightarrow> QuestLog \<Rightarrow> (QuestError + unit) \<times> QuestLog" where
  "with_quest i change l =
     (case map_of (ql_quests l) i of
        None \<Rightarrow> (Inl (QuestNotFound i), l)
      | Some e \<Rightarrow> (Inr (), l\<lparr>ql_quests := AList.update i (change e) (ql_quests l)\<rparr>))"

definition QuestLog_add_clue ::
    "string \<Rightarrow> string \<Rightarrow> string \<Rightarrow> u64 \<Rightarrow> QuestLog \<Rightarrow> (QuestError + unit) \<times> QuestLog" where
  "QuestLog_add_clue i txt cited_from at_ms l =
     (if trim txt = [] \<or> trim cited_from = []
      then (Inl (QuestValidation ''clue text and citation required''), l)
      else with_quest i (\<lambda>e. e\<lparr>qe_clues := qe_clues e @
             [\<lparr>qc_text = txt, qc_cited_from = cited_from, qc_at_ms = at_ms\<rparr>],
             qe_updated_at_ms := at_ms\<rparr>) l)"

definition QuestLog_set_state ::
    "string \<Rightarrow> QuestState \<Rightarrow> u64 \<Rightarrow> QuestLog \<Rightarrow> (QuestError + unit) \<times> QuestLog" where
  "QuestLog_set_state i state at_ms l =
     with_quest i (\<lambda>e. e\<lparr>qe_state := state, qe_updated_at_ms := at_ms\<rparr>) l"

definition QuestLog_apply_correction ::
    "string \<Rightarrow> string \<Rightarrow> u64 \<Rightarrow> QuestLog \<Rightarrow> (QuestError + unit) \<times> QuestLog" where
  "QuestLog_apply_correction i note_text at_ms l =
     (if trim note_text = [] then (Inl (QuestValidation ''correction note required''), l)
      else with_quest i (\<lambda>e. e\<lparr>qe_state := UserCorrected,
             qe_corrections := qe_corrections e @ [\<lparr>qn_note = note_text, qn_at_ms = at_ms\<rparr>],
             qe_updated_at_ms := at_ms\<rparr>) l)"

definition QuestLog_get :: "string \<Rightarrow> QuestLog \<Rightarrow> QuestEntry option" where
  "QuestLog_get i l = map_of (ql_quests l) i"

definition QuestLog_list :: "QuestLog \<Rightarrow> QuestEntry list" where
  "QuestLog_list l = map snd (ql_quests l)"

definition QuestLog_count :: "QuestLog \<Rightarrow> nat" where
  "QuestLog_count l = length (ql_quests l)"

section \<open>The log as a machine\<close>

datatype quest_op =
  QTrack string string QuestState string string u64
| QClue string string string u64
| QState string QuestState u64
| QCorrect string string u64

fun quest_step :: "quest_op \<Rightarrow> QuestLog \<Rightarrow> QuestLog" where
  "quest_step (QTrack i t s c f n) l = snd (QuestLog_track i t s c f n l)"
| "quest_step (QClue i t f n) l = snd (QuestLog_add_clue i t f n l)"
| "quest_step (QState i s n) l = snd (QuestLog_set_state i s n l)"
| "quest_step (QCorrect i t n) l = snd (QuestLog_apply_correction i t n l)"

text \<open>A quest as the log promises it: a title, cited clues, at least one, and worded corrections.\<close>

definition clue_ok :: "QuestClue \<Rightarrow> bool" where
  "clue_ok c \<longleftrightarrow> trim (qc_text c) \<noteq> [] \<and> trim (qc_cited_from c) \<noteq> []"

definition quest_ok :: "string \<Rightarrow> QuestEntry \<Rightarrow> bool" where
  "quest_ok i e \<longleftrightarrow>
     qe_id e = i \<and> trim i \<noteq> [] \<and> trim (qe_title e) \<noteq> []
     \<and> qe_clues e \<noteq> [] \<and> list_all clue_ok (qe_clues e)
     \<and> list_all (\<lambda>c. trim (qn_note c) \<noteq> []) (qe_corrections e)"

definition quest_inv :: "QuestLog \<Rightarrow> bool" where
  "quest_inv l \<longleftrightarrow>
     bt_sorted (ql_quests l) \<and> ql_max_quests l = 500 \<and> length (ql_quests l) \<le> 500
     \<and> (\<forall>i e. map_of (ql_quests l) i = Some e \<longrightarrow> quest_ok i e)"

lemma with_quest_inv:
  assumes inv: "quest_inv l" and ch: "\<And>e. quest_ok i e \<Longrightarrow> quest_ok i (change e)"
  shows "quest_inv (snd (with_quest i change l))"
proof (cases "map_of (ql_quests l) i")
  case None
  then show ?thesis using inv by (simp add: with_quest_def)
next
  case (Some e)
  have "bt_sorted (AList.update i (change e) (ql_quests l))"
    using inv Some by (intro bt_sorted_update) (simp_all add: quest_inv_def)
  then show ?thesis
    using inv Some ch by (simp add: with_quest_def quest_inv_def length_update_present)
qed

lemma track_inv:
  assumes inv: "quest_inv l"
  shows "quest_inv (snd (QuestLog_track i t s c f n l))"
proof (cases "trim i = [] \<or> trim t = [] \<or> trim c = [] \<or> trim f = []
    \<or> map_of (ql_quests l) i = None \<and> ql_max_quests l \<le> length (ql_quests l)")
  case True
  then show ?thesis using inv by (auto simp: QuestLog_track_def)
next
  case False
  let ?e = "case map_of (ql_quests l) i of Some e \<Rightarrow> e
      | None \<Rightarrow> \<lparr>qe_id = i, qe_title = t, qe_state = s, qe_clues = [], qe_corrections = [], qe_updated_at_ms = n\<rparr>"
  let ?v = "?e\<lparr>qe_title := t, qe_state := s, qe_clues := qe_clues ?e @
      [\<lparr>qc_text = c, qc_cited_from = f, qc_at_ms = n\<rparr>], qe_updated_at_ms := n\<rparr>"
  have step: "snd (QuestLog_track i t s c f n l) = l\<lparr>ql_quests := bt_insert i ?v (ql_quests l)\<rparr>"
  proof -
    have "\<not> (trim i = [] \<or> trim t = [])" "\<not> (trim c = [] \<or> trim f = [])"
      "\<not> (map_of (ql_quests l) i = None \<and> ql_max_quests l \<le> length (ql_quests l))"
      using False by blast+
    then show ?thesis by (simp only: QuestLog_track_def Let_def if_False snd_conv)
  qed
  have v: "quest_ok i ?v"
    using False inv by (cases "map_of (ql_quests l) i") (auto simp: quest_ok_def clue_ok_def quest_inv_def)
  have "length (bt_insert i ?v (ql_quests l)) \<le> 500"
    using False inv length_bt_insert [of "ql_quests l" i ?v] by (auto simp: quest_inv_def)
  moreover have "bt_sorted (bt_insert i ?v (ql_quests l))"
    using inv by (intro bt_sorted_insert) (simp add: quest_inv_def)
  ultimately show ?thesis
    using inv v unfolding step by (simp add: quest_inv_def)
qed

interpretation quest_log: machine_invariant quest_step quest_inv
proof
  fix l :: QuestLog and x :: quest_op
  assume inv: "quest_inv l"
  show "quest_inv (quest_step x l)"
  proof (cases x)
    case (QTrack i t s c f n)
    then show ?thesis using track_inv [OF inv] by simp
  next
    case (QClue i t f n)
    then show ?thesis using inv
      by (auto simp: QuestLog_add_clue_def clue_ok_def quest_ok_def intro!: with_quest_inv)
  next
    case (QState i s n)
    then show ?thesis using inv
      by (auto simp: QuestLog_set_state_def quest_ok_def intro!: with_quest_inv)
  next
    case (QCorrect i t n)
    then show ?thesis using inv
      by (auto simp: QuestLog_apply_correction_def quest_ok_def intro!: with_quest_inv)
  qed
qed

text \<open>The clues of one quest only grow.\<close>

definition clues_of :: "string \<Rightarrow> QuestLog \<Rightarrow> QuestClue list" where
  "clues_of i l = (case QuestLog_get i l of None \<Rightarrow> [] | Some e \<Rightarrow> qe_clues e)"

lemma with_quest_clues:
  assumes "\<And>e. \<exists>new. qe_clues (change e) = qe_clues e @ new"
  shows "\<exists>new. clues_of j (snd (with_quest i change l)) = clues_of j l @ new"
  using assms by (auto simp: with_quest_def clues_of_def QuestLog_get_def split: option.split)

interpretation quest_clues: append_only quest_step "clues_of j" for j
proof
  fix x l
  show "\<exists>new. clues_of j (quest_step x l) = clues_of j l @ new"
  proof (cases x)
    case (QTrack i t s c f n)
    then show ?thesis
      by (auto simp: QuestLog_track_def Let_def clues_of_def QuestLog_get_def split: option.split)
  qed (auto simp: QuestLog_add_clue_def QuestLog_set_state_def QuestLog_apply_correction_def
      intro!: with_quest_clues)
qed

section \<open>Properties\<close>

text \<open>
  Whatever the sequence of operations, the log holds at most 500 quests, listed in the order of
  their ids, and every quest has a title and at least one clue, each clue with a text and a
  citation that are not blank, each correction with a note that is not blank; and the clues
  recorded earlier for a quest remain a prefix of its clues.
\<close>

theorem quest_log_invariant:
  "(let l = run quest_step xs QuestLog_new in
     QuestLog_count l \<le> 500 \<and> sorted_wrt (<) (map qe_id (QuestLog_list l))
     \<and> list_all (\<lambda>e. trim (qe_title e) \<noteq> [] \<and> qe_clues e \<noteq> [] \<and> list_all clue_ok (qe_clues e)
          \<and> list_all (\<lambda>c. trim (qn_note c) \<noteq> []) (qe_corrections e)) (QuestLog_list l)
     \<and> prefix (clues_of j l) (clues_of j (run quest_step ys l)))"
proof -
  let ?l = "run quest_step xs QuestLog_new"
  have inv: "quest_inv ?l"
    by (rule quest_log.run_inv) (simp add: quest_inv_def QuestLog_new_def)
  have s: "bt_sorted (ql_quests ?l)" using inv by (simp add: quest_inv_def)
  then have d: "distinct (map fst (ql_quests ?l))" by (simp add: strict_sorted_iff)
  have ok: "quest_ok i e" if "(i, e) \<in> set (ql_quests ?l)" for i e
    using inv that d by (simp add: quest_inv_def)
  have ids: "map qe_id (QuestLog_list ?l) = map fst (ql_quests ?l)"
    using ok by (auto simp: QuestLog_list_def quest_ok_def)
  have "list_all (\<lambda>e. trim (qe_title e) \<noteq> [] \<and> qe_clues e \<noteq> [] \<and> list_all clue_ok (qe_clues e)
          \<and> list_all (\<lambda>c. trim (qn_note c) \<noteq> []) (qe_corrections e)) (QuestLog_list ?l)"
    using ok by (auto simp: list_all_iff QuestLog_list_def quest_ok_def)
  moreover have "prefix (clues_of j ?l) (clues_of j (run quest_step ys ?l))"
    by (rule quest_clues.run_log_prefix)
  ultimately show ?thesis
    using inv s by (simp add: ids QuestLog_count_def quest_inv_def)
qed

end
