(* ===== verification/Agents.thy ===== *)
theory Agents
  imports Prelude
begin

text \<open>
  Agent roles, memory permissions, the skill tree and the council,
  \<open>wirecore/crates/wire-agents/src/lib.rs\<close>.
\<close>

section \<open>Roles and memory classes\<close>

datatype AgentRole =
  MapperRole | Cartographer | LoreCurator | QuestRole | Tactical | RendererScene
| VoiceCompanion | HelpSetup | CommandSafety | TokenBudgetRole | PrivacyFirewall

definition AgentRole_ALL :: "AgentRole list" where
  "AgentRole_ALL =
     [MapperRole, Cartographer, LoreCurator, QuestRole, Tactical, RendererScene,
      VoiceCompanion, HelpSetup, CommandSafety, TokenBudgetRole, PrivacyFirewall]"

fun AgentRole_key :: "AgentRole \<Rightarrow> string" where
  "AgentRole_key MapperRole = ''mapper''"
| "AgentRole_key Cartographer = ''cartographer''"
| "AgentRole_key LoreCurator = ''lore-curator''"
| "AgentRole_key QuestRole = ''quest''"
| "AgentRole_key Tactical = ''tactical''"
| "AgentRole_key RendererScene = ''renderer-scene''"
| "AgentRole_key VoiceCompanion = ''voice-companion''"
| "AgentRole_key HelpSetup = ''help-setup''"
| "AgentRole_key CommandSafety = ''command-safety''"
| "AgentRole_key TokenBudgetRole = ''token-budget''"
| "AgentRole_key PrivacyFirewall = ''privacy-firewall''"

definition AgentRole_from_key :: "string \<Rightarrow> AgentRole option" where
  "AgentRole_from_key k = find (\<lambda>r. AgentRole_key r = k) AgentRole_ALL"

datatype MemoryClass =
  MemProfile | MemTranscript | MemWorld | MemLore | MemMessages | MemVoice | MemCredentials
| MemTelemetry

fun MemoryClass_key :: "MemoryClass \<Rightarrow> string" where
  "MemoryClass_key MemProfile = ''profile''"
| "MemoryClass_key MemTranscript = ''transcript''"
| "MemoryClass_key MemWorld = ''world''"
| "MemoryClass_key MemLore = ''lore''"
| "MemoryClass_key MemMessages = ''messages''"
| "MemoryClass_key MemVoice = ''voice''"
| "MemoryClass_key MemCredentials = ''credentials''"
| "MemoryClass_key MemTelemetry = ''telemetry''"

section \<open>Memory permissions\<close>

datatype Access = AccDeny | AccRead | AccPropose | AccSummarize | AccShare

record PermissionMatrix =
  pm_grants :: "(string \<times> (string \<times> Access) list) list"

definition PermissionMatrix_new :: PermissionMatrix where
  "PermissionMatrix_new = \<lparr>pm_grants = []\<rparr>"

definition PermissionMatrix_grant ::
    "AgentRole \<Rightarrow> MemoryClass \<Rightarrow> Access \<Rightarrow> PermissionMatrix \<Rightarrow> PermissionMatrix" where
  "PermissionMatrix_grant role cls acc m =
     (let row = (case map_of (pm_grants m) (AgentRole_key role) of None \<Rightarrow> [] | Some r \<Rightarrow> r) in
      m\<lparr>pm_grants := bt_insert (AgentRole_key role) (bt_insert (MemoryClass_key cls) acc row) (pm_grants m)\<rparr>)"

definition PermissionMatrix_access :: "AgentRole \<Rightarrow> MemoryClass \<Rightarrow> PermissionMatrix \<Rightarrow> Access" where
  "PermissionMatrix_access role cls m =
     (case map_of (pm_grants m) (AgentRole_key role) of
        None \<Rightarrow> AccDeny
      | Some row \<Rightarrow> (case map_of row (MemoryClass_key cls) of None \<Rightarrow> AccDeny | Some a \<Rightarrow> a))"

definition can_read :: "AgentRole \<Rightarrow> MemoryClass \<Rightarrow> PermissionMatrix \<Rightarrow> bool" where
  "can_read role cls m \<longleftrightarrow>
     PermissionMatrix_access role cls m \<in> {AccRead, AccPropose, AccSummarize, AccShare}"

definition can_write :: "AgentRole \<Rightarrow> MemoryClass \<Rightarrow> PermissionMatrix \<Rightarrow> bool" where
  "can_write role cls m \<longleftrightarrow> PermissionMatrix_access role cls m \<in> {AccPropose, AccShare}"

definition default_deny_all :: PermissionMatrix where
  "default_deny_all = PermissionMatrix_grant TokenBudgetRole MemTelemetry AccRead PermissionMatrix_new"

definition grant_count :: "PermissionMatrix \<Rightarrow> nat" where
  "grant_count m = sum_list (map (\<lambda>r. length (snd r)) (pm_grants m))"

definition self_grant_is_impossible :: "PermissionMatrix \<Rightarrow> AgentRole \<Rightarrow> MemoryClass \<Rightarrow> bool" where
  "self_grant_is_impossible m role cls \<longleftrightarrow>
     \<not> can_write role cls m \<or> PermissionMatrix_access role cls m = AccDeny"

section \<open>Errors\<close>

datatype AgentsError =
  AgValidation string | AgPolicy string | AgExhaustion string | AgNotFound string

fun AgentsError_user_message :: "AgentsError \<Rightarrow> string" where
  "AgentsError_user_message (AgValidation m) = m"
| "AgentsError_user_message (AgPolicy m) = m"
| "AgentsError_user_message (AgExhaustion m) = m"
| "AgentsError_user_message (AgNotFound m) = ''not found: '' @ m"

section \<open>The skill tree\<close>

record SkillRecord =
  sk_id :: string
  sk_name :: string
  sk_version :: string
  sk_source :: string
  sk_permissions :: "string list"
  sk_evaluation_status :: string
  sk_profile_scope :: string
  sk_enabled :: bool
  sk_added_at_ms :: u64

record SkillTree =
  sk_skills :: "(string \<times> SkillRecord) list"
  sk_max_skills :: nat

definition SkillTree_new :: SkillTree where
  "SkillTree_new = \<lparr>sk_skills = [], sk_max_skills = 500\<rparr>"

definition SkillTree_install :: "SkillRecord \<Rightarrow> SkillTree \<Rightarrow> (AgentsError + unit) \<times> SkillTree" where
  "SkillTree_install sk t =
     (if trim (sk_id sk) = [] \<or> trim (sk_name sk) = []
      then (Inl (AgValidation ''skill id and name required''), t)
      else if trim (sk_version sk) = [] \<or> trim (sk_source sk) = []
      then (Inl (AgValidation ''skill version and source required''), t)
      else if sk_max_skills t \<le> length (sk_skills t) \<and> map_of (sk_skills t) (sk_id sk) = None
      then (Inl (AgExhaustion ''skill tree full''), t)
      else (Inr (), t\<lparr>sk_skills := bt_insert (sk_id sk) sk (sk_skills t)\<rparr>))"

definition SkillTree_get :: "string \<Rightarrow> SkillTree \<Rightarrow> SkillRecord option" where
  "SkillTree_get i t = map_of (sk_skills t) i"

definition SkillTree_list :: "SkillTree \<Rightarrow> SkillRecord list" where
  "SkillTree_list t = map snd (sk_skills t)"

definition SkillTree_set_enabled :: "string \<Rightarrow> bool \<Rightarrow> SkillTree \<Rightarrow> (AgentsError + unit) \<times> SkillTree" where
  "SkillTree_set_enabled i enabled t =
     (case map_of (sk_skills t) i of
        None \<Rightarrow> (Inl (AgNotFound i), t)
      | Some sk \<Rightarrow> (Inr (), t\<lparr>sk_skills := AList.update i (sk\<lparr>sk_enabled := enabled\<rparr>) (sk_skills t)\<rparr>))"

definition SkillTree_count :: "SkillTree \<Rightarrow> nat" where
  "SkillTree_count t = length (sk_skills t)"

definition can_enable :: "string \<Rightarrow> SkillTree \<Rightarrow> bool" where
  "can_enable i t =
     (case map_of (sk_skills t) i of
        None \<Rightarrow> False
      | Some sk \<Rightarrow> sk_source sk \<noteq> [] \<and> sk_evaluation_status sk = ''evaluated'')"

section \<open>The council\<close>

record CouncilVote =
  cv_role :: AgentRole
  cv_position :: string
  cv_evidence :: "string list"
  cv_disagreement :: "string option"

record CouncilRecord =
  cr_council_id :: string
  cr_task :: string
  cr_budget_usd_micros :: u64
  cr_roles :: "AgentRole list"
  cr_votes :: "CouncilVote list"
  cr_disagreements :: "string list"
  cr_final_synthesis :: string
  cr_permitted :: bool

record CouncilConfig =
  cc_max_roles :: nat
  cc_max_budget_usd_micros :: u64
  cc_require_permission :: bool

definition CouncilConfig_default :: CouncilConfig where
  "CouncilConfig_default =
     \<lparr>cc_max_roles = 6, cc_max_budget_usd_micros = 5000, cc_require_permission = True\<rparr>"

record CouncilLog =
  cl_records :: "CouncilRecord list"
  cl_max_records :: nat

definition CouncilLog_new :: CouncilLog where
  "CouncilLog_new = \<lparr>cl_records = [], cl_max_records = 100\<rparr>"

definition CouncilLog_record :: "CouncilRecord \<Rightarrow> CouncilLog \<Rightarrow> CouncilLog" where
  "CouncilLog_record r l =
     (let rs = cl_records l @ [r] in
      l\<lparr>cl_records := (if cl_max_records l < length rs then drop 1 rs else rs)\<rparr>)"

record Council =
  co_config :: CouncilConfig
  co_log :: CouncilLog

definition Council_new :: "CouncilConfig \<Rightarrow> Council" where
  "Council_new config = \<lparr>co_config = config, co_log = CouncilLog_new\<rparr>"

definition position_count :: "string \<Rightarrow> CouncilVote list \<Rightarrow> nat" where
  "position_count p votes = length (filter (\<lambda>v. cv_position v = p) votes)"

definition synthesize :: "CouncilVote list \<Rightarrow> string" where
  "synthesize votes =
     (let support = position_count ''support'' votes;
          oppose = position_count ''oppose'' votes;
          abstain = position_count ''abstain'' votes;
          disagreements = length (filter (\<lambda>v. cv_disagreement v \<noteq> None) votes);
          verdict = (if oppose < support then ''support''
                     else if support < oppose then ''oppose'' else ''tie'') in
      ''council '' @ verdict @ '': support='' @ show_nat support @ '' oppose='' @ show_nat oppose
      @ '' abstain='' @ show_nat abstain @ '' disagreements='' @ show_nat disagreements)"

definition Council_convene ::
    "string \<Rightarrow> string \<Rightarrow> bool \<Rightarrow> AgentRole list \<Rightarrow> CouncilVote list \<Rightarrow> u64 \<Rightarrow> Council
      \<Rightarrow> (AgentsError + CouncilRecord) \<times> Council" where
  "Council_convene council_id task policy_allows roles votes budget c =
     (let cfg = co_config c in
      if cc_require_permission cfg \<and> \<not> policy_allows
      then (Inl (AgPolicy ''council not permitted for this task''), c)
      else if cc_max_budget_usd_micros cfg < budget
      then (Inl (AgExhaustion (''council budget '' @ show_nat (unat budget) @ '' exceeds limit ''
              @ show_nat (unat (cc_max_budget_usd_micros cfg)))), c)
      else if cc_max_roles cfg < length roles
      then (Inl (AgValidation (''council roles '' @ show_nat (length roles) @ '' exceeds limit ''
              @ show_nat (cc_max_roles cfg))), c)
      else if length votes \<noteq> length roles
      then (Inl (AgValidation (''votes '' @ show_nat (length votes) @ '' != roles '' @ show_nat (length roles))), c)
      else
        let r = \<lparr>cr_council_id = council_id, cr_task = task, cr_budget_usd_micros = budget,
              cr_roles = roles, cr_votes = votes,
              cr_disagreements = List.map_filter cv_disagreement votes,
              cr_final_synthesis = synthesize votes, cr_permitted = policy_allows\<rparr> in
        (Inr r, c\<lparr>co_log := CouncilLog_record r (co_log c)\<rparr>))"

section \<open>Facts\<close>

lemma AgentRole_key_inject [simp]: "AgentRole_key a = AgentRole_key b \<longleftrightarrow> a = b"
  by (cases a; cases b) simp_all

lemma MemoryClass_key_inject [simp]: "MemoryClass_key a = MemoryClass_key b \<longleftrightarrow> a = b"
  by (cases a; cases b) simp_all

lemma access_grant:
  "PermissionMatrix_access r c (PermissionMatrix_grant r' c' a m) =
     (if r = r' \<and> c = c' then a else PermissionMatrix_access r c m)"
  by (simp add: PermissionMatrix_access_def PermissionMatrix_grant_def Let_def split: option.split)

text \<open>One external grant of the matrix, one operation of the tree, one meeting of the council.\<close>

fun grant_step :: "AgentRole \<times> MemoryClass \<times> Access \<Rightarrow> PermissionMatrix \<Rightarrow> PermissionMatrix" where
  "grant_step (r, c, a) m = PermissionMatrix_grant r c a m"

lemma access_run:
  "PermissionMatrix_access r c (run grant_step gs m) =
     (case find (\<lambda>g. fst g = r \<and> fst (snd g) = c) (rev gs) of
        Some g \<Rightarrow> snd (snd g) | None \<Rightarrow> PermissionMatrix_access r c m)"
proof (induction gs rule: rev_induct)
  case (snoc g gs)
  obtain r' c' a where g: "g = (r', c', a)" by (cases g)
  show ?case using snoc by (auto simp: run_append g access_grant)
qed simp

datatype skill_op = SkillInstall SkillRecord | SkillEnable string bool

fun skill_step :: "skill_op \<Rightarrow> SkillTree \<Rightarrow> SkillTree" where
  "skill_step (SkillInstall sk) t = snd (SkillTree_install sk t)"
| "skill_step (SkillEnable i b) t = snd (SkillTree_set_enabled i b t)"

definition skill_ok :: "string \<Rightarrow> SkillRecord \<Rightarrow> bool" where
  "skill_ok i sk \<longleftrightarrow> sk_id sk = i \<and> trim i \<noteq> [] \<and> trim (sk_name sk) \<noteq> []
     \<and> trim (sk_version sk) \<noteq> [] \<and> trim (sk_source sk) \<noteq> []"

definition skill_inv :: "SkillTree \<Rightarrow> bool" where
  "skill_inv t \<longleftrightarrow>
     bt_sorted (sk_skills t) \<and> sk_max_skills t = 500 \<and> length (sk_skills t) \<le> 500
     \<and> (\<forall>i sk. map_of (sk_skills t) i = Some sk \<longrightarrow> skill_ok i sk)"

interpretation skill_tree: machine_invariant skill_step skill_inv
proof
  fix t :: SkillTree and x :: skill_op
  assume inv: "skill_inv t"
  show "skill_inv (skill_step x t)"
  proof (cases x)
    case (SkillInstall sk)
    have "bt_sorted (bt_insert (sk_id sk) sk (sk_skills t))"
      using inv by (intro bt_sorted_insert) (simp add: skill_inv_def)
    then show ?thesis
      using inv SkillInstall length_bt_insert [of "sk_skills t" "sk_id sk" sk]
      by (auto simp: SkillTree_install_def skill_inv_def skill_ok_def)
  next
    case (SkillEnable i b)
    show ?thesis
    proof (cases "map_of (sk_skills t) i")
      case None
      then show ?thesis using inv SkillEnable by (simp add: SkillTree_set_enabled_def)
    next
      case (Some sk)
      have "bt_sorted (AList.update i (sk\<lparr>sk_enabled := b\<rparr>) (sk_skills t))"
        using inv Some by (intro bt_sorted_update) (simp_all add: skill_inv_def)
      then show ?thesis
        using inv SkillEnable Some
        by (simp add: SkillTree_set_enabled_def skill_inv_def skill_ok_def length_update_present)
    qed
  qed
qed

lemma record_bounded:
  "length (cl_records l) \<le> cl_max_records l \<Longrightarrow>
    length (cl_records (CouncilLog_record r l)) \<le> cl_max_records l"
  by (cases "cl_records l") (auto simp: CouncilLog_record_def Let_def)

lemma mem_map_filter: "x \<in> set (List.map_filter f vs) \<longleftrightarrow> (\<exists>v \<in> set vs. f v = Some x)"
  by (induction vs) (auto simp: List.map_filter_def split: option.splits)

section \<open>Properties\<close>

text \<open>
  The access of a role to a memory class is what the last explicit grant to that role of that
  class said, and denial when there was none; the built-in matrix adds one grant, reading telemetry
  for the token-budget role. The names of the roles read back to the roles.
\<close>

theorem memory_access_is_last_grant:
  "PermissionMatrix_access r c (run grant_step gs default_deny_all) =
     (case find (\<lambda>g. fst g = r \<and> fst (snd g) = c) (rev gs) of
        Some g \<Rightarrow> snd (snd g)
      | None \<Rightarrow> if r = TokenBudgetRole \<and> c = MemTelemetry then AccRead else AccDeny)
   \<and> AgentRole_from_key (AgentRole_key r) = Some r"
proof -
  have "PermissionMatrix_access r c default_deny_all =
      (if r = TokenBudgetRole \<and> c = MemTelemetry then AccRead else AccDeny)"
    by (simp only: default_deny_all_def access_grant)
      (simp add: PermissionMatrix_access_def PermissionMatrix_new_def)
  moreover have "AgentRole_from_key (AgentRole_key r) = Some r"
    unfolding AgentRole_from_key_def AgentRole_key_inject by (cases r) (simp_all add: AgentRole_ALL_def)
  ultimately show ?thesis by (simp only: access_run simp_thms)
qed

text \<open>
  The skill tree never holds more than 500 skills, and each has an id, a name, a version and a
  source that are not blank; but enabling does not ask whether the skill may be enabled: whatever
  its evaluation status, an installed skill is enabled on request.
\<close>

theorem skills_enabled_unchecked:
  "(let t = run skill_step xs SkillTree_new in
     SkillTree_count t \<le> 500
     \<and> list_all (\<lambda>sk. trim (sk_name sk) \<noteq> [] \<and> trim (sk_version sk) \<noteq> [] \<and> trim (sk_source sk) \<noteq> [])
          (SkillTree_list t)
     \<and> SkillTree_get i (snd (SkillTree_set_enabled i True t))
         = map_option (\<lambda>sk. sk\<lparr>sk_enabled := True\<rparr>) (SkillTree_get i t)
     \<and> can_enable i (snd (SkillTree_set_enabled i True t)) = can_enable i t)"
proof -
  let ?t = "run skill_step xs SkillTree_new"
  have inv: "skill_inv ?t"
    by (rule skill_tree.run_inv) (simp add: skill_inv_def SkillTree_new_def)
  then have d: "distinct (map fst (sk_skills ?t))" by (simp add: skill_inv_def strict_sorted_iff)
  have ok: "skill_ok k sk" if "(k, sk) \<in> set (sk_skills ?t)" for k sk
    using inv that d by (simp add: skill_inv_def)
  have "list_all (\<lambda>sk. trim (sk_name sk) \<noteq> [] \<and> trim (sk_version sk) \<noteq> [] \<and> trim (sk_source sk) \<noteq> [])
          (SkillTree_list ?t)"
    using ok by (auto simp: list_all_iff SkillTree_list_def skill_ok_def)
  then show ?thesis
    using inv by (auto simp: SkillTree_count_def skill_inv_def SkillTree_get_def SkillTree_set_enabled_def
        can_enable_def Let_def split: option.split)
qed

text \<open>
  A council that convenes was permitted when the configuration asks for permission, stays in its
  budget and number of roles, has as many votes as roles, and its record lists every disagreement
  of a vote; a refused one changes nothing. The log keeps its bound.
\<close>

theorem council_convened:
  "0 < cl_max_records (co_log c) \<and> length (cl_records (co_log c)) \<le> cl_max_records (co_log c) \<Longrightarrow>
   (case Council_convene i task allows roles votes budget c of
      (Inl e, c') \<Rightarrow> c' = c
    | (Inr r, c') \<Rightarrow>
        cc_require_permission (co_config c) \<le> allows
        \<and> budget \<le> cc_max_budget_usd_micros (co_config c)
        \<and> length roles \<le> cc_max_roles (co_config c) \<and> length votes = length roles
        \<and> set (cr_disagreements r) = {d. \<exists>v \<in> set votes. cv_disagreement v = Some d}
        \<and> length (cl_records (co_log c')) \<le> cl_max_records (co_log c)
        \<and> last (cl_records (co_log c')) = r)"
proof -
  assume a: "0 < cl_max_records (co_log c) \<and> length (cl_records (co_log c)) \<le> cl_max_records (co_log c)"
  then have b: "length (cl_records (co_log c)) \<le> cl_max_records (co_log c)" by blast
  show ?thesis
  proof (cases "cc_require_permission (co_config c) \<and> \<not> allows
      \<or> cc_max_budget_usd_micros (co_config c) < budget
      \<or> cc_max_roles (co_config c) < length roles \<or> length votes \<noteq> length roles")
    case True
    then show ?thesis by (auto simp: Council_convene_def Let_def)
  next
    case False
    have "last (cl_records (CouncilLog_record r (co_log c))) = r" for r
      using a by (cases "cl_records (co_log c)") (auto simp: CouncilLog_record_def Let_def)
    then show ?thesis
      using False record_bounded [OF b]
      by (auto simp: Council_convene_def Let_def mem_map_filter)
  qed
qed

theorem council_convened_witness:
  "last (cl_records (co_log (snd (Council_convene ''c'' ''t'' True []  [] 0 (Council_new CouncilConfig_default)))))
   = \<lparr>cr_council_id = ''c'', cr_task = ''t'', cr_budget_usd_micros = 0, cr_roles = [], cr_votes = [],
      cr_disagreements = [], cr_final_synthesis = synthesize [], cr_permitted = True\<rparr>"
  using council_convened [where c = "Council_new CouncilConfig_default" and i = "''c''" and task = "''t''"
      and allows = True and roles = "[]" and votes = "[]" and budget = 0]
  by (simp add: Council_convene_def Council_new_def CouncilConfig_default_def CouncilLog_new_def
      List.map_filter_def Let_def)

text \<open>
  Who votes is not checked, only how many: a council of three roles accepts three votes of a single
  one of them, and its synthesis counts them all.
\<close>

theorem council_votes_unattributed:
  "let v = \<lparr>cv_role = QuestRole, cv_position = ''support'', cv_evidence = [], cv_disagreement = None\<rparr> in
   map_sum (\<lambda>e. e) cr_final_synthesis
     (fst (Council_convene ''c'' ''t'' True [MapperRole, Tactical, QuestRole] [v, v, v] 10
        (Council_new CouncilConfig_default)))
   = Inr ''council support: support=3 oppose=0 abstain=0 disagreements=0''"
  by code_simp

end
