(* ===== verification/Headless.thy ===== *)
theory Headless
  imports Prelude
begin

text \<open>
  Sessions and their scheduler, the headless scenario, and the supervisor,
  \<open>wirecore/crates/wire-headless/src/lib.rs\<close>. A \<open>SessionId\<close> is its text; the handler a serving
  round calls is modelled by the command it is called with.
\<close>

section \<open>Sessions\<close>

definition MAX_SESSIONS :: nat where "MAX_SESSIONS = 64"
definition SESSION_QUEUE_CAPACITY :: nat where "SESSION_QUEUE_CAPACITY = 256"
definition MAX_SCENARIO_STEPS :: nat where "MAX_SCENARIO_STEPS = 4096"
definition MAX_RISK_QUEUE :: nat where "MAX_RISK_QUEUE = 64"

datatype HeadlessDenial =
  HdEmergencyStop | HdUnavailableDependency | HdTimeout | HdCancelled | HdMalformedInput
| HdDuplicateRequest | HdDeniedPolicy | HdQueueFull | HdOversizedInput | HdTooManySessions

datatype SessionState =
  SsLoading | SsReady | SsDisabled | SsDenied | SsDegraded | SsCanceled | SsUnavailable | SsError

fun SessionState_label :: "SessionState \<Rightarrow> string" where
  "SessionState_label SsLoading = ''loading''"
| "SessionState_label SsReady = ''ready''"
| "SessionState_label SsDisabled = ''disabled''"
| "SessionState_label SsDenied = ''denied''"
| "SessionState_label SsDegraded = ''degraded''"
| "SessionState_label SsCanceled = ''canceled''"
| "SessionState_label SsUnavailable = ''unavailable''"
| "SessionState_label SsError = ''error''"

record SessionCommand =
  sc_id :: string
  sc_command :: string
  sc_at_ms :: u64

record Session =
  se_id :: string
  se_state :: SessionState
  se_room :: string
  se_last_command :: string
  se_ai_state :: string
  se_autopilot_state :: string
  se_risk_queue_len :: nat
  se_route_label :: string
  se_token_spend :: u64
  se_health :: string
  se_queue :: "SessionCommand list"
  se_last_served_at_ms :: u64

definition Session_new :: "string \<Rightarrow> Session" where
  "Session_new i =
     \<lparr>se_id = i, se_state = SsLoading, se_room = [], se_last_command = [],
      se_ai_state = ''disabled'', se_autopilot_state = ''disabled'', se_risk_queue_len = 0,
      se_route_label = ''direct'', se_token_spend = 0, se_health = ''unknown'', se_queue = [],
      se_last_served_at_ms = 0\<rparr>"

definition Session_push :: "SessionCommand \<Rightarrow> Session \<Rightarrow> (HeadlessDenial + unit) \<times> Session" where
  "Session_push cmd se =
     (if SESSION_QUEUE_CAPACITY \<le> length (se_queue se) then (Inl HdQueueFull, se)
      else if list_ex (\<lambda>c. sc_id c = sc_id cmd) (se_queue se) then (Inl HdDuplicateRequest, se)
      else (Inr (), se\<lparr>se_queue := se_queue se @ [cmd]\<rparr>))"

definition Session_pop :: "Session \<Rightarrow> SessionCommand option \<times> Session" where
  "Session_pop se =
     (case se_queue se of [] \<Rightarrow> (None, se) | c # q \<Rightarrow> (Some c, se\<lparr>se_queue := q\<rparr>))"

section \<open>The scheduler\<close>

record SessionScheduler =
  sh_sessions :: "(string \<times> Session) list"
  sh_round_robin :: "string list"
  sh_emergency_stop :: bool
  sh_audit :: "string list"
  sh_next_cmd_id :: u64

definition SessionScheduler_new :: SessionScheduler where
  "SessionScheduler_new =
     \<lparr>sh_sessions = [], sh_round_robin = [], sh_emergency_stop = False, sh_audit = [],
      sh_next_cmd_id = 1\<rparr>"

text \<open>\<open>push_back\<close> on the audit and \<open>pop_front\<close> when it holds more than 1024 lines.\<close>

definition push_audit :: "string \<Rightarrow> SessionScheduler \<Rightarrow> SessionScheduler" where
  "push_audit line s =
     (let a = sh_audit s @ [line] in s\<lparr>sh_audit := (if 1024 < length a then drop 1 a else a)\<rparr>)"

definition create_session ::
    "string \<Rightarrow> SessionScheduler \<Rightarrow> (HeadlessDenial + Session) \<times> SessionScheduler" where
  "create_session i s =
     (if sh_emergency_stop s then (Inl HdEmergencyStop, s)
      else if MAX_SESSIONS \<le> length (sh_sessions s) then (Inl HdTooManySessions, s)
      else if map_of (sh_sessions s) i \<noteq> None then (Inl HdDuplicateRequest, s)
      else (Inr (Session_new i), push_audit (''session-create '' @ i)
              (s\<lparr>sh_sessions := bt_insert i (Session_new i) (sh_sessions s),
                 sh_round_robin := sh_round_robin s @ [i]\<rparr>)))"

text \<open>
  \<open>session_mut\<close> lets the caller change the public fields of a session; the queue is private.
\<close>

definition session_mut ::
    "string \<Rightarrow> (Session \<Rightarrow> Session) \<Rightarrow> SessionScheduler \<Rightarrow> SessionScheduler" where
  "session_mut i change s =
     (case map_of (sh_sessions s) i of
        None \<Rightarrow> s
      | Some se \<Rightarrow> s\<lparr>sh_sessions :=
          AList.update i ((change se)\<lparr>se_queue := se_queue se\<rparr>) (sh_sessions s)\<rparr>)"

definition set_state ::
    "string \<Rightarrow> SessionState \<Rightarrow> SessionScheduler \<Rightarrow> (HeadlessDenial + unit) \<times> SessionScheduler" where
  "set_state i st s =
     (if sh_emergency_stop s \<and> st \<noteq> SsCanceled then (Inl HdEmergencyStop, s)
      else (case map_of (sh_sessions s) i of
              None \<Rightarrow> (Inl HdMalformedInput, s)
            | Some se \<Rightarrow> (Inr (), s\<lparr>sh_sessions := AList.update i (se\<lparr>se_state := st\<rparr>) (sh_sessions s)\<rparr>)))"

definition new_command :: "string \<Rightarrow> u64 \<Rightarrow> SessionScheduler \<Rightarrow> SessionCommand" where
  "new_command command at_ms s =
     \<lparr>sc_id = ''cmd-'' @ show_nat (unat (sh_next_cmd_id s)), sc_command = command, sc_at_ms = at_ms\<rparr>"

definition enqueue ::
    "string \<Rightarrow> string \<Rightarrow> u64 \<Rightarrow> SessionScheduler \<Rightarrow> (HeadlessDenial + unit) \<times> SessionScheduler" where
  "enqueue i command at_ms s =
     (if sh_emergency_stop s then (Inl HdEmergencyStop, s)
      else (case map_of (sh_sessions s) i of
              None \<Rightarrow> (Inl HdMalformedInput, s)
            | Some se \<Rightarrow>
                if se_state se \<noteq> SsReady then (Inl HdDeniedPolicy, s)
                else
                  let s1 = s\<lparr>sh_next_cmd_id := sh_next_cmd_id s + 1\<rparr> in
                  (case Session_push (new_command command at_ms s) se of
                     (Inl e, se') \<Rightarrow> (Inl e, s1)
                   | (Inr u, se') \<Rightarrow> (Inr (), push_audit (''session-enqueue '' @ i @ '' '' @ command)
                       (s1\<lparr>sh_sessions := AList.update i se' (sh_sessions s1)\<rparr>)))))"

text \<open>
  The loop of a serving round; its argument is how many sessions are left to visit. It ends at the
  first command it serves.
\<close>

fun serve_loop ::
    "nat \<Rightarrow> SessionScheduler \<Rightarrow> (string \<times> SessionCommand) option \<times> SessionScheduler" where
  "serve_loop 0 s = (None, s)"
| "serve_loop (Suc left) s =
     (case sh_round_robin s of
        [] \<Rightarrow> (None, s)
      | i # rest \<Rightarrow>
          let s1 = s\<lparr>sh_round_robin := rest @ [i]\<rparr> in
          if sh_emergency_stop s1 then (None, s1)
          else (case map_of (sh_sessions s1) i of
                  None \<Rightarrow> serve_loop left s1
                | Some se \<Rightarrow>
                    (case Session_pop se of
                       (None, se') \<Rightarrow> serve_loop left s1
                     | (Some c, se') \<Rightarrow>
                         (Some (i, c), s1\<lparr>sh_sessions := AList.update i
                            (se'\<lparr>se_last_command := sc_command c, se_last_served_at_ms := sc_at_ms c\<rparr>)
                            (sh_sessions s1)\<rparr>))))"

definition serve_round ::
    "SessionScheduler \<Rightarrow> (string \<times> SessionCommand) option \<times> SessionScheduler" where
  "serve_round s = serve_loop (length (sh_round_robin s)) s"

definition emergency_stop :: "SessionScheduler \<Rightarrow> SessionScheduler" where
  "emergency_stop s =
     push_audit ''emergency-stop global''
       (s\<lparr>sh_emergency_stop := True,
          sh_sessions := map (\<lambda>(i, se). (i, se\<lparr>se_state := SsCanceled\<rparr>)) (sh_sessions s)\<rparr>)"

definition session_count :: "SessionScheduler \<Rightarrow> nat" where
  "session_count s = length (sh_sessions s)"

section \<open>Configuration and events\<close>

record HeadlessConfig =
  hg_disable_ui :: bool
  hg_disable_renderer :: bool
  hg_disable_audio :: bool
  hg_disable_voice :: bool
  hg_jsonl :: bool
  hg_scenario_path :: "string option"

definition HeadlessConfig_default :: HeadlessConfig where
  "HeadlessConfig_default =
     \<lparr>hg_disable_ui = True, hg_disable_renderer = True, hg_disable_audio = True,
      hg_disable_voice = True, hg_jsonl = True, hg_scenario_path = None\<rparr>"

record JsonlEvent =
  je_schema_version :: u32
  je_time_ms :: u64
  je_severity :: string
  je_subsystem :: string
  je_priority :: string
  je_app_version :: string
  je_platform :: string
  je_session :: string
  je_correlation :: string
  je_event :: string
  je_error :: "string option"
  je_latency_ms :: "u64 option"
  je_queue :: "nat option"
  je_drop :: "nat option"
  je_coalesce :: "nat option"
  je_feature :: string
  je_privacy :: string
  je_redacted :: bool

definition JsonlEvent_new :: "string \<Rightarrow> string \<Rightarrow> string \<Rightarrow> string \<Rightarrow> string \<Rightarrow> JsonlEvent" where
  "JsonlEvent_new session correlation subsystem event feature =
     \<lparr>je_schema_version = 1, je_time_ms = 0, je_severity = ''info'', je_subsystem = subsystem,
      je_priority = ''normal'', je_app_version = ''0.1.0'', je_platform = ''headless'',
      je_session = session, je_correlation = correlation, je_event = event, je_error = None,
      je_latency_ms = None, je_queue = None, je_drop = None, je_coalesce = None,
      je_feature = feature, je_privacy = ''public'', je_redacted = False\<rparr>"

record CrossSessionRule =
  xr_id :: string
  xr_description :: string
  xr_apply_to :: "string list"
  xr_enabled :: bool

section \<open>Scenarios, supervisor, requests\<close>

record ScenarioStep =
  ss_at_step :: u64
  ss_action :: string
  ss_expect :: "string option"

record Scenario =
  sn_id :: string
  sn_name :: string
  sn_steps :: "ScenarioStep list"

fun check_steps :: "u64 \<Rightarrow> ScenarioStep list \<Rightarrow> bool" where
  "check_steps last_step [] = True"
| "check_steps last_step (st # sts) =
     (if ss_action st = [] \<or> ss_at_step st \<le> last_step then False
      else check_steps (ss_at_step st) sts)"

definition Scenario_validate :: "Scenario \<Rightarrow> HeadlessDenial + unit" where
  "Scenario_validate sn =
     (if sn_id sn = [] \<or> sn_name sn = [] \<or> sn_steps sn = [] then Inl HdMalformedInput
      else if MAX_SCENARIO_STEPS < length (sn_steps sn) then Inl HdOversizedInput
      else if \<not> check_steps 0 (sn_steps sn) then Inl HdMalformedInput
      else Inr ())"

record RiskEntry =
  re_session :: string
  re_command :: string
  re_risk_tier :: string

record Supervisor =
  su_risk_queue :: "RiskEntry list"

definition Supervisor_new :: Supervisor where
  "Supervisor_new = \<lparr>su_risk_queue = []\<rparr>"

definition push_risk :: "RiskEntry \<Rightarrow> Supervisor \<Rightarrow> (HeadlessDenial + unit) \<times> Supervisor" where
  "push_risk e su =
     (if MAX_RISK_QUEUE \<le> length (su_risk_queue su) then (Inl HdQueueFull, su)
      else (Inr (), su\<lparr>su_risk_queue := su_risk_queue su @ [e]\<rparr>))"

record SupervisorSnapshot =
  sp_session_id :: string
  sp_state :: string
  sp_room :: string
  sp_last_command :: string
  sp_ai_state :: string
  sp_autopilot_state :: string
  sp_risk_queue_len :: nat
  sp_route_label :: string
  sp_token_spend :: u64
  sp_health :: string
  sp_queue_len :: nat

definition Supervisor_snapshot :: "Session \<Rightarrow> SupervisorSnapshot" where
  "Supervisor_snapshot se =
     \<lparr>sp_session_id = se_id se, sp_state = SessionState_label (se_state se), sp_room = se_room se,
      sp_last_command = se_last_command se, sp_ai_state = se_ai_state se,
      sp_autopilot_state = se_autopilot_state se, sp_risk_queue_len = se_risk_queue_len se,
      sp_route_label = se_route_label se, sp_token_spend = se_token_spend se,
      sp_health = se_health se, sp_queue_len = length (se_queue se)\<rparr>"

record RequestContext =
  rq_request :: string
  rq_correlation :: string
  rq_causation :: string
  rq_session :: string
  rq_profile :: string
  rq_deadline_ms :: "u64 option"
  rq_cancellation :: bool
  rq_sensitivity :: string
  rq_capability :: string

definition RequestContext_validate :: "RequestContext \<Rightarrow> HeadlessDenial + unit" where
  "RequestContext_validate r =
     (if rq_request r = [] \<or> rq_correlation r = [] \<or> rq_session r = [] then Inl HdMalformedInput
      else Inr ())"

section \<open>The scheduler as a machine\<close>

datatype sched_op =
  SCreate string
| SMut string "Session \<Rightarrow> Session"
| SState string SessionState
| SEnqueue string string u64
| SServe
| SStop

fun sched_step :: "sched_op \<Rightarrow> SessionScheduler \<Rightarrow> SessionScheduler" where
  "sched_step (SCreate i) s = snd (create_session i s)"
| "sched_step (SMut i g) s = session_mut i g s"
| "sched_step (SState i st) s = snd (set_state i st s)"
| "sched_step (SEnqueue i c n) s = snd (enqueue i c n s)"
| "sched_step SServe s = snd (serve_round s)"
| "sched_step SStop s = emergency_stop s"

text \<open>The commands one operation hands to the handler, and those it accepts into a queue.\<close>

fun op_served :: "sched_op \<Rightarrow> SessionScheduler \<Rightarrow> (string \<times> SessionCommand) list" where
  "op_served SServe s = (case fst (serve_round s) of None \<Rightarrow> [] | Some p \<Rightarrow> [p])"
| "op_served _ s = []"

fun op_accepted :: "sched_op \<Rightarrow> SessionScheduler \<Rightarrow> (string \<times> SessionCommand) list" where
  "op_accepted (SEnqueue i c n) s = (if isl (fst (enqueue i c n s)) then [] else [(i, new_command c n s)])"
| "op_accepted _ s = []"

fun run_trace ::
    "(sched_op \<Rightarrow> SessionScheduler \<Rightarrow> 'e list) \<Rightarrow> sched_op list \<Rightarrow> SessionScheduler \<Rightarrow> 'e list" where
  "run_trace f [] s = []"
| "run_trace f (x # xs) s = f x s @ run_trace f xs (sched_step x s)"

definition queue_of :: "string \<Rightarrow> SessionScheduler \<Rightarrow> SessionCommand list" where
  "queue_of i s = (case map_of (sh_sessions s) i of None \<Rightarrow> [] | Some se \<Rightarrow> se_queue se)"

definition of_session :: "string \<Rightarrow> (string \<times> 'c) list \<Rightarrow> 'c list" where
  "of_session i ps = map snd (filter (\<lambda>p. fst p = i) ps)"

definition sched_inv :: "SessionScheduler \<Rightarrow> bool" where
  "sched_inv s \<longleftrightarrow>
     bt_sorted (sh_sessions s) \<and> length (sh_sessions s) \<le> 64
     \<and> distinct (sh_round_robin s) \<and> set (sh_round_robin s) = set (map fst (sh_sessions s))
     \<and> length (sh_audit s) \<le> 1024
     \<and> (\<forall>i. length (queue_of i s) \<le> 256)"

section \<open>Facts\<close>

lemma push_audit_simps [simp]:
  "sh_sessions (push_audit a s) = sh_sessions s"
  "sh_round_robin (push_audit a s) = sh_round_robin s"
  "sh_emergency_stop (push_audit a s) = sh_emergency_stop s"
  by (simp_all add: push_audit_def Let_def)

lemma push_audit_bound [simp]:
  "length (sh_audit s) \<le> 1024 \<Longrightarrow> length (sh_audit (push_audit a s)) \<le> 1024"
  by (simp add: push_audit_def Let_def) arith

lemma map_of_map_value: "map_of (map (\<lambda>(i, v). (i, f v)) m) i = map_option f (map_of m i)"
  by (induction m) auto

lemma of_session_simps [simp]:
  "of_session i [] = []"
  "of_session i ((j, c) # ps) = (if j = i then c # of_session i ps else of_session i ps)"
  "of_session i (ps @ qs) = of_session i ps @ of_session i qs"
  by (simp_all add: of_session_def)

definition served_list :: "'e option \<Rightarrow> 'e list" where
  "served_list p = (case p of None \<Rightarrow> [] | Some e \<Rightarrow> [e])"

lemma served_list_simps [simp]: "served_list None = []" "served_list (Some e) = [e]"
  by (simp_all add: served_list_def)

text \<open>The four ways one turn of the serving loop goes.\<close>

lemma serve_loop_cases:
  obtains (empty) "sh_round_robin s = []" "serve_loop (Suc n) s = (None, s)"
  | (stopped) i rest where "sh_round_robin s = i # rest" "sh_emergency_stop s"
      "serve_loop (Suc n) s = (None, s\<lparr>sh_round_robin := rest @ [i]\<rparr>)"
  | (idle) i rest where "sh_round_robin s = i # rest" "\<not> sh_emergency_stop s" "queue_of i s = []"
      "serve_loop (Suc n) s = serve_loop n (s\<lparr>sh_round_robin := rest @ [i]\<rparr>)"
  | (serves) i rest se c q where "sh_round_robin s = i # rest" "\<not> sh_emergency_stop s"
      "map_of (sh_sessions s) i = Some se" "se_queue se = c # q"
      "serve_loop (Suc n) s = (Some (i, c), s\<lparr>sh_round_robin := rest @ [i],
         sh_sessions := AList.update i (se\<lparr>se_queue := q, se_last_command := sc_command c,
           se_last_served_at_ms := sc_at_ms c\<rparr>) (sh_sessions s)\<rparr>)"
proof (cases "sh_round_robin s")
  case Nil
  then show ?thesis by (intro empty) simp_all
next
  case (Cons i rest)
  show ?thesis
  proof (cases "sh_emergency_stop s")
    case True
    then show ?thesis using Cons by (intro stopped) simp_all
  next
    case go: False
    show ?thesis
    proof (cases "map_of (sh_sessions s) i")
      case None
      then show ?thesis using Cons go by (intro idle) (simp_all add: queue_of_def)
    next
      case (Some se)
      show ?thesis
      proof (cases "se_queue se")
        case Nil
        then show ?thesis using Cons go Some
          by (intro idle) (simp_all add: queue_of_def Session_pop_def)
      next
        case q: (Cons c q)
        show ?thesis using Cons go Some q
          by (intro serves [of i rest se c q]) (simp_all add: Session_pop_def Let_def)
      qed
    qed
  qed
qed

declare serve_loop.simps(2) [simp del]

lemma queue_of_rr [simp]: "queue_of i (s\<lparr>sh_round_robin := r\<rparr>) = queue_of i s"
  by (simp add: queue_of_def)

text \<open>What the serving loop does to the queues, and what it keeps.\<close>

lemma serve_loop_queue:
  "of_session i (served_list (fst (serve_loop n s))) @ queue_of i (snd (serve_loop n s)) = queue_of i s"
proof (induction n arbitrary: s)
  case (Suc n)
  show ?case
  proof (cases rule: serve_loop_cases [where s = s and n = n])
    case (idle j rest)
    then show ?thesis using Suc [of "s\<lparr>sh_round_robin := rest @ [j]\<rparr>"] by simp
  qed (auto simp: queue_of_def)
qed simp

lemma serve_loop_keeps:
  "map fst (sh_sessions (snd (serve_loop n s))) = map fst (sh_sessions s)
   \<and> distinct (sh_round_robin (snd (serve_loop n s))) = distinct (sh_round_robin s)
   \<and> set (sh_round_robin (snd (serve_loop n s))) = set (sh_round_robin s)
   \<and> length (sh_round_robin (snd (serve_loop n s))) = length (sh_round_robin s)
   \<and> sh_audit (snd (serve_loop n s)) = sh_audit s
   \<and> sh_emergency_stop (snd (serve_loop n s)) = sh_emergency_stop s"
proof (induction n arbitrary: s)
  case (Suc n)
  show ?case
  proof (cases rule: serve_loop_cases [where s = s and n = n])
    case (idle j rest)
    then show ?thesis using Suc [of "s\<lparr>sh_round_robin := rest @ [j]\<rparr>"] by auto
  qed (auto simp: keys_update_present)
qed simp

text \<open>No command is lost, duplicated or reordered by one operation.\<close>

lemma op_conserves:
  "of_session i (op_served x s) @ queue_of i (sched_step x s)
    = queue_of i s @ of_session i (op_accepted x s)"
proof (cases x)
  case (SCreate j)
  then show ?thesis by (auto simp: create_session_def queue_of_def Session_new_def)
next
  case (SMut j g)
  then show ?thesis by (auto simp: session_mut_def queue_of_def split: option.split)
next
  case (SState j st)
  then show ?thesis by (auto simp: set_state_def queue_of_def split: option.split)
next
  case (SEnqueue j c n)
  then show ?thesis
    by (auto simp: enqueue_def queue_of_def Session_push_def Let_def split: option.split)
next
  case SServe
  have "op_served SServe s = served_list (fst (serve_round s))"
    by (simp add: served_list_def split: option.split)
  then show ?thesis using serve_loop_queue [of i "length (sh_round_robin s)" s] SServe
    by (simp add: serve_round_def)
next
  case SStop
  then show ?thesis
    by (simp add: emergency_stop_def queue_of_def map_of_map_value split: option.split)
qed

lemma trace_conserves:
  "of_session i (run_trace op_served xs s) @ queue_of i (run sched_step xs s)
    = queue_of i s @ of_session i (run_trace op_accepted xs s)"
proof (induction xs arbitrary: s)
  case (Cons x xs)
  have "of_session i (run_trace op_served (x # xs) s) @ queue_of i (run sched_step (x # xs) s)
      = of_session i (op_served x s) @ queue_of i (sched_step x s)
        @ of_session i (run_trace op_accepted xs (sched_step x s))"
    using Cons [of "sched_step x s"] by simp
  also have "\<dots> = queue_of i s @ of_session i (run_trace op_accepted (x # xs) s)"
    using op_conserves [of i x s] by (simp flip: append_assoc)
  finally show ?case .
qed simp

section \<open>Invariant\<close>

lemma queue_bound_enqueue:
  "length (queue_of i s) \<le> 256 \<Longrightarrow> length (queue_of i (snd (enqueue j c n s))) \<le> 256"
  by (auto simp: enqueue_def queue_of_def Session_push_def SESSION_QUEUE_CAPACITY_def Let_def
      split: option.split)

lemma op_queue_bound:
  assumes "\<forall>i. length (queue_of i s) \<le> 256"
  shows "length (queue_of i (sched_step x s)) \<le> 256"
proof (cases "\<exists>j c n. x = SEnqueue j c n")
  case True
  then show ?thesis using queue_bound_enqueue assms by auto
next
  case False
  then have "op_accepted x s = []" by (cases x) auto
  then have "length (of_session i (op_served x s) @ queue_of i (sched_step x s)) \<le> 256"
    using assms by (simp only: op_conserves of_session_simps append_Nil2)
  then show ?thesis by simp
qed

lemma present_keeps:
  "sched_inv s \<Longrightarrow> map_of (sh_sessions s) i \<noteq> None \<Longrightarrow>
    (\<forall>j. length (queue_of j (s\<lparr>sh_sessions := AList.update i v (sh_sessions s)\<rparr>)) \<le> 256) \<Longrightarrow>
    sched_inv (s\<lparr>sh_sessions := AList.update i v (sh_sessions s)\<rparr>)"
  by (simp add: sched_inv_def keys_update_present length_update_present bt_sorted_update)

interpretation scheduler: machine_invariant sched_step sched_inv
proof
  fix s :: SessionScheduler and x :: sched_op
  assume inv: "sched_inv s"
  have q: "\<forall>i. length (queue_of i (sched_step x s)) \<le> 256"
    using op_queue_bound inv by (auto simp: sched_inv_def)
  have rest: "bt_sorted (sh_sessions (sched_step x s)) \<and> length (sh_sessions (sched_step x s)) \<le> 64
     \<and> distinct (sh_round_robin (sched_step x s))
     \<and> set (sh_round_robin (sched_step x s)) = set (map fst (sh_sessions (sched_step x s)))
     \<and> length (sh_audit (sched_step x s)) \<le> 1024"
  proof (cases x)
    case (SCreate j)
    show ?thesis
    proof (cases "sh_emergency_stop s \<or> MAX_SESSIONS \<le> length (sh_sessions s) \<or> map_of (sh_sessions s) j \<noteq> None")
      case True
      then show ?thesis using inv SCreate by (auto simp: create_session_def sched_inv_def)
    next
      case False
      then have f: "j \<notin> set (map fst (sh_sessions s))" by (simp add: map_of_eq_None_iff)
      have "bt_sorted (bt_insert j (Session_new j) (sh_sessions s))"
        using inv by (intro bt_sorted_insert) (simp add: sched_inv_def)
      then show ?thesis
        using inv False f SCreate length_bt_insert [of "sh_sessions s" j "Session_new j"]
        by (simp add: create_session_def sched_inv_def MAX_SESSIONS_def del: set_map)
    qed
  next
    case (SMut j g)
    then show ?thesis using inv
      by (auto simp: session_mut_def sched_inv_def keys_update_present length_update_present
          bt_sorted_update simp del: set_map split: option.split)
  next
    case (SState j st)
    then show ?thesis using inv
      by (auto simp: set_state_def sched_inv_def keys_update_present length_update_present
          bt_sorted_update simp del: set_map split: option.split)
  next
    case (SEnqueue j c n)
    then show ?thesis using inv
      by (auto simp: enqueue_def Session_push_def Let_def sched_inv_def keys_update_present
          length_update_present bt_sorted_update simp del: set_map split: option.split)
  next
    case SServe
    have "length (sh_sessions (snd (serve_round s))) = length (sh_sessions s)"
      using serve_loop_keeps [of "length (sh_round_robin s)" s]
      by (metis length_map serve_round_def)
    then show ?thesis
      using inv SServe serve_loop_keeps [of "length (sh_round_robin s)" s]
      by (simp add: sched_inv_def serve_round_def del: set_map)
  next
    case SStop
    have k: "map fst (map (\<lambda>(i, se). (i, se\<lparr>se_state := SsCanceled\<rparr>)) m) = map fst m" for m :: "(string \<times> Session) list"
      by (induction m) auto
    show ?thesis
      using inv SStop k [of "sh_sessions s"] by (simp add: emergency_stop_def sched_inv_def del: set_map map_map)
  qed
  with q show "sched_inv (sched_step x s)" by (simp add: sched_inv_def del: set_map)
qed

lemma sched_inv_new: "sched_inv SessionScheduler_new"
  by (simp add: sched_inv_def SessionScheduler_new_def queue_of_def)

section \<open>Fairness\<close>

text \<open>
  A session with a waiting command is served, or comes closer to the front of the round-robin
  order, in every serving round.
\<close>

lemma serve_reaches:
  assumes "\<not> sh_emergency_stop s" "sh_round_robin s = as @ i # bs" "length as < n" "i \<notin> set as"
    and "queue_of i s = c # q"
  shows "fst (serve_loop n s) = Some (i, c)
    \<or> (\<exists>as2 bs2. length as2 < length as \<and> sh_round_robin (snd (serve_loop n s)) = as2 @ i # bs2
        \<and> queue_of i (snd (serve_loop n s)) = c # q)"
  using assms
proof (induction n arbitrary: s as bs)
  case (Suc n)
  show ?case
  proof (cases rule: serve_loop_cases [where s = s and n = n])
    case empty
    then show ?thesis using Suc.prems by simp
  next
    case (stopped j rest)
    then show ?thesis using Suc.prems by simp
  next
    case (idle j rest)
    then have "as \<noteq> []" using Suc.prems by auto
    then obtain as' where as: "as = j # as'" "rest = as' @ i # bs"
      using idle(1) Suc.prems(2) by (cases as) auto
    let ?s = "s\<lparr>sh_round_robin := rest @ [j]\<rparr>"
    have "fst (serve_loop n ?s) = Some (i, c)
      \<or> (\<exists>as2 bs2. length as2 < length as' \<and> sh_round_robin (snd (serve_loop n ?s)) = as2 @ i # bs2
          \<and> queue_of i (snd (serve_loop n ?s)) = c # q)"
      using Suc.prems as by (intro Suc.IH [of ?s as' "bs @ [j]"]) simp_all
    then show ?thesis using idle(4) as by (auto intro: less_SucI)
  next
    case (serves j rest se c' q')
    show ?thesis
    proof (cases as)
      case Nil
      then show ?thesis using serves Suc.prems by (auto simp: queue_of_def)
    next
      case (Cons k as')
      then show ?thesis using serves Suc.prems
        by (intro disjI2 exI [of _ as'] exI [of _ "bs @ [j]"]) (auto simp: queue_of_def)
    qed
  qed
qed simp

text \<open>Any other operation than a serving round leaves the order in front and the waiting command.\<close>

lemma others_keep_place:
  assumes "x \<noteq> SServe" "x \<noteq> SStop" "sh_round_robin s = as @ i # bs" "queue_of i s = c # q"
  shows "\<exists>bs2 q2. sh_round_robin (sched_step x s) = as @ i # bs2 \<and> queue_of i (sched_step x s) = c # q2
    \<and> sh_emergency_stop (sched_step x s) = sh_emergency_stop s"
proof -
  have "op_served x s = []" using assms(1) by (cases x) auto
  then have "\<exists>q2. queue_of i (sched_step x s) = c # q2"
    using op_conserves [of i x s] assms(4) by simp
  moreover have "(\<exists>r. sh_round_robin (sched_step x s) = sh_round_robin s @ r)
      \<and> sh_emergency_stop (sched_step x s) = sh_emergency_stop s"
    using assms(1,2)
    by (cases x) (auto simp: create_session_def session_mut_def set_state_def enqueue_def
        Session_push_def Let_def split: option.split)
  ultimately show ?thesis using assms(3) by auto
qed

text \<open>How far the session is from the front, and whether the command is the next one of its queue.\<close>

definition place :: "string \<Rightarrow> SessionScheduler \<Rightarrow> nat" where
  "place i s = length (takeWhile (\<lambda>j. j \<noteq> i) (sh_round_robin s))"

definition heads :: "string \<Rightarrow> SessionCommand \<Rightarrow> SessionScheduler \<Rightarrow> bool" where
  "heads i c s \<longleftrightarrow> \<not> sh_emergency_stop s \<and> (\<exists>q. queue_of i s = c # q)"

lemma place_eq: "sh_round_robin s = as @ i # bs \<Longrightarrow> i \<notin> set as \<Longrightarrow> place i s = length as"
  by (auto simp: place_def takeWhile_append)

lemma place_le: "sh_round_robin s = as @ i # bs \<Longrightarrow> place i s \<le> length as"
  by (auto simp: place_def takeWhile_append length_takeWhile_le)

lemma queued_in_order: "sched_inv s \<Longrightarrow> queue_of i s \<noteq> [] \<Longrightarrow> i \<in> set (sh_round_robin s)"
proof -
  assume inv: "sched_inv s" and "queue_of i s \<noteq> []"
  then have "i \<in> set (map fst (sh_sessions s))"
    by (force simp: queue_of_def split: option.splits dest: map_of_SomeD)
  then show ?thesis using inv by (simp only: sched_inv_def)
qed

interpretation fair: bounded_waiting sched_step sched_inv "\<lambda>x. x \<noteq> SStop" "(=) SServe"
    "heads i c" "place i" "\<lambda>x s. (i, c) \<in> set (op_served x s)" for i c
proof
  fix s :: SessionScheduler and x :: sched_op
  assume inv: "sched_inv s" and w: "heads i c s" and x: "x \<noteq> SStop"
  obtain q where q: "queue_of i s = c # q" and go: "\<not> sh_emergency_stop s"
    using w by (auto simp: heads_def)
  obtain as bs where rr: "sh_round_robin s = as @ i # bs" and as: "i \<notin> set as"
    using queued_in_order [OF inv, of i] q by (auto dest: split_list_first)
  have at: "place i s = length as" by (rule place_eq [OF rr as])
  show "(i, c) \<in> set (op_served x s) \<or> heads i c (sched_step x s)
      \<and> (if SServe = x then place i (sched_step x s) < place i s
         else place i (sched_step x s) \<le> place i s)"
  proof (cases "x = SServe")
    case False
    then obtain bs2 q2 where "sh_round_robin (sched_step x s) = as @ i # bs2"
      "queue_of i (sched_step x s) = c # q2" "sh_emergency_stop (sched_step x s) = sh_emergency_stop s"
      using others_keep_place [OF _ x rr q] by auto
    then show ?thesis using False go place_eq [of "sched_step x s" as i bs2] as at
      by (auto simp: heads_def)
  next
    case True
    let ?n = "length (sh_round_robin s)"
    have step: "sched_step x s = snd (serve_loop ?n s)" by (simp add: True serve_round_def)
    have "\<not> sh_emergency_stop (sched_step x s)" using go serve_loop_keeps by (simp add: step)
    moreover have "fst (serve_loop ?n s) = Some (i, c)
      \<or> (\<exists>as2 bs2. length as2 < length as \<and> sh_round_robin (snd (serve_loop ?n s)) = as2 @ i # bs2
          \<and> queue_of i (snd (serve_loop ?n s)) = c # q)"
      using rr by (intro serve_reaches [OF go rr _ as q]) simp
    ultimately show ?thesis
    proof (elim disjE exE conjE)
      fix as2 bs2
      assume a: "length as2 < length as" "sh_round_robin (snd (serve_loop ?n s)) = as2 @ i # bs2"
        "queue_of i (snd (serve_loop ?n s)) = c # q" "\<not> sh_emergency_stop (sched_step x s)"
      then have "sh_round_robin (sched_step x s) = as2 @ i # bs2" "queue_of i (sched_step x s) = c # q"
        by (simp_all only: step)
      then show ?thesis
        using place_le [of "sched_step x s" as2 i bs2] a(1,4) True
        by (auto simp: heads_def at simp del: sched_step.simps op_served.simps)
    qed (simp add: True serve_round_def)
  qed
qed

lemma trace_append:
  "run_trace f (xs @ ys) s = run_trace f xs s @ run_trace f ys (run sched_step xs s)"
  by (induction xs arbitrary: s) auto

lemma stopped_step:
  "sh_emergency_stop s \<Longrightarrow>
    sh_emergency_stop (sched_step x s) \<and> op_served x s = [] \<and> op_accepted x s = []
    \<and> map fst (sh_sessions (sched_step x s)) = map fst (sh_sessions s)"
proof (cases x)
  case SServe
  assume st: "sh_emergency_stop s"
  have "fst (serve_loop n s) = None" for n
    using st by (cases rule: serve_loop_cases [where s = s and n = "n - 1"]; cases n) simp_all
  then show ?thesis
    using st serve_loop_keeps [of "length (sh_round_robin s)" s] SServe by (simp add: serve_round_def)
next
  case SStop
  have "map fst (map (\<lambda>(i, se). (i, se\<lparr>se_state := SsCanceled\<rparr>)) m) = map fst m" for m :: "(string \<times> Session) list"
    by (induction m) auto
  then show ?thesis using SStop by (simp add: emergency_stop_def del: map_map)
qed (auto simp: create_session_def session_mut_def set_state_def enqueue_def keys_update_present
    split: option.split)

lemma stopped_run:
  "sh_emergency_stop s \<Longrightarrow>
    sh_emergency_stop (run sched_step xs s) \<and> run_trace op_served xs s = []
    \<and> run_trace op_accepted xs s = []
    \<and> map fst (sh_sessions (run sched_step xs s)) = map fst (sh_sessions s)"
proof (induction xs arbitrary: s)
  case (Cons x xs)
  from stopped_step [OF Cons.prems, of x] Cons.IH [of "sched_step x s"] show ?case by simp
qed simp

lemma check_steps_iff:
  "check_steps l sts \<longleftrightarrow>
    sorted_wrt (<) (l # map ss_at_step sts) \<and> list_all (\<lambda>st. ss_action st \<noteq> []) sts"
proof (induction sts arbitrary: l)
  case (Cons st sts)
  then show ?case by (auto simp: not_le intro: less_trans)
qed simp

section \<open>Properties\<close>

text \<open>
  C2: Fairness. A command at the head of the queue of a session is handed to the handler before the
  number of serving rounds reaches the number of sessions, whatever else happens in between:
  commands enqueued to busier sessions, new sessions, changed states, rounds serving others.
\<close>

theorem waiting_command_served:
  assumes "s = run sched_step ws SessionScheduler_new" "sh_emergency_stop s = False"
    and "queue_of i s = c # q" "SStop \<notin> set xs" "session_count s \<le> count_list xs SServe"
  shows "(i, c) \<in> set (run_trace op_served xs s)"
proof -
  have inv: "sched_inv s" unfolding assms(1) by (rule scheduler.run_inv [OF sched_inv_new])
  have w: "heads i c s" using assms(2,3) by (simp add: heads_def)
  obtain as bs where rr: "sh_round_robin s = as @ i # bs" and as: "i \<notin> set as"
    using queued_in_order [OF inv, of i] assms(3) by (auto dest: split_list_first)
  have "length (sh_round_robin s) = session_count s"
    using inv distinct_card [of "sh_round_robin s"] distinct_card [of "map fst (sh_sessions s)"]
    by (simp add: sched_inv_def session_count_def strict_sorted_iff)
  then have "place i s < count_list xs SServe" using assms(5) rr place_eq [OF rr as] by simp
  then have "place i s < length (filter ((=) SServe) xs)"
    by (simp add: count_list_eq_length_filter)
  moreover have "list_all (\<lambda>x. x \<noteq> SStop) xs" using assms(4) by (auto simp: list_all_iff)
  ultimately obtain ys x zs where "xs = ys @ x # zs" "(i, c) \<in> set (op_served x (run sched_step ys s))"
    using fair.run_serves [OF inv w] by blast
  then show ?thesis by (simp add: trace_append)
qed

theorem waiting_command_served_witness:
  "let s = run sched_step [SCreate ''a'', SState ''a'' SsReady, SCreate ''b'', SState ''b'' SsReady,
             SEnqueue ''a'' ''look'' 1, SEnqueue ''a'' ''go'' 2, SEnqueue ''b'' ''wait'' 3] SessionScheduler_new in
   (''b'', \<lparr>sc_id = ''cmd-3'', sc_command = ''wait'', sc_at_ms = 3\<rparr>)
     \<in> set (run_trace op_served [SServe, SEnqueue ''a'' ''run'' 4, SServe] s)"
proof -
  let ?ws = "[SCreate ''a'', SState ''a'' SsReady, SCreate ''b'', SState ''b'' SsReady,
             SEnqueue ''a'' ''look'' 1, SEnqueue ''a'' ''go'' 2, SEnqueue ''b'' ''wait'' 3]"
  let ?s = "run sched_step ?ws SessionScheduler_new"
  have "sh_emergency_stop ?s = False \<and> session_count ?s = 2
      \<and> queue_of ''b'' ?s = [\<lparr>sc_id = ''cmd-3'', sc_command = ''wait'', sc_at_ms = 3\<rparr>]"
    by code_simp
  then show ?thesis
    using waiting_command_served [OF refl, of ?ws "''b''" _ "[]" "[SServe, SEnqueue ''a'' ''run'' 4, SServe]"]
    by (simp del: run.simps run_trace.simps)
qed

text \<open>
  The queues are first in, first out and lose nothing: for every session, the commands served so
  far followed by those still waiting are the commands accepted for it, in the order they were
  accepted. There are never more than 64 sessions, and never more than 256 commands waiting in one.
\<close>

theorem sessions_conserve_commands:
  "(let s = run sched_step xs SessionScheduler_new in
     of_session i (run_trace op_served xs SessionScheduler_new) @ queue_of i s
       = of_session i (run_trace op_accepted xs SessionScheduler_new)
     \<and> session_count s \<le> 64 \<and> length (queue_of i s) \<le> 256 \<and> length (sh_audit s) \<le> 1024)"
proof -
  have "sched_inv (run sched_step xs SessionScheduler_new)"
    by (rule scheduler.run_inv [OF sched_inv_new])
  moreover have "queue_of i SessionScheduler_new = []"
    by (simp add: queue_of_def SessionScheduler_new_def)
  ultimately show ?thesis
    using trace_conserves [of i xs SessionScheduler_new]
    by (simp add: Let_def sched_inv_def session_count_def)
qed

text \<open>
  The emergency stop is final: after it no command reaches the handler, none is accepted and no
  session is created, whatever is called, and the stop stays engaged. The commands that were
  waiting remain in their queues.
\<close>

theorem emergency_stop_final:
  "(let s = emergency_stop s0; s' = run sched_step xs s in
     sh_emergency_stop s' \<and> run_trace op_served xs s = [] \<and> run_trace op_accepted xs s = []
     \<and> map fst (sh_sessions s') = map fst (sh_sessions s) \<and> queue_of i s' = queue_of i s0)"
proof -
  have st: "sh_emergency_stop (emergency_stop s0)" by (simp add: emergency_stop_def)
  have "queue_of i (emergency_stop s0) = queue_of i s0"
    using op_conserves [of i SStop s0] by simp
  then show ?thesis
    using stopped_run [OF st, of xs] trace_conserves [of i xs "emergency_stop s0"]
    by (simp add: Let_def)
qed

text \<open>
  A session that is no longer ready still has its waiting commands served: the state is read when
  a command is enqueued and not when it is handed out.
\<close>

theorem canceled_session_served:
  "fst (serve_round (run sched_step [SCreate ''a'', SState ''a'' SsReady, SEnqueue ''a'' ''buy'' 1,
       SState ''a'' SsCanceled] SessionScheduler_new))
   = Some (''a'', \<lparr>sc_id = ''cmd-1'', sc_command = ''buy'', sc_at_ms = 1\<rparr>)"
  by code_simp

text \<open>
  A scenario is accepted exactly when it has an id, a name, between one and 4096 steps, every step
  an action, and the step numbers are positive and strictly increasing.
\<close>

theorem scenario_accepted:
  "(Scenario_validate sn = Inr ()) =
     (sn_id sn \<noteq> [] \<and> sn_name sn \<noteq> [] \<and> sn_steps sn \<noteq> [] \<and> length (sn_steps sn) \<le> 4096
      \<and> list_all (\<lambda>st. ss_action st \<noteq> []) (sn_steps sn)
      \<and> sorted_wrt (<) (0 # map ss_at_step (sn_steps sn)))"
  by (auto simp: Scenario_validate_def MAX_SCENARIO_STEPS_def check_steps_iff simp del: sorted_wrt.simps)

end
