(* ===== verification/Danger.thy ===== *)
theory Danger
  imports Prelude
begin

text \<open>
  The review rules of the repository, \<open>dangerfile.js\<close>: the checks on the title of a pull request,
  on the TODO items its source files add, and on its size. What the review service reports of the
  pull request (title, file lists, the added text of each file) is an argument; the diffs arrive
  asynchronously, so the order they arrive in is an argument too.
\<close>

section \<open>Regular expressions of the file\<close>

text \<open>
  The regular expressions of the file are sequences of these tokens: a group of alternative words
  (one word, an optional word and a group are all lists of words), \<open>.*\<close>, and the two anchors. They
  carry the flag \<open>i\<close>, so letters are compared without case; \<open>.\<close> matches no line terminator.
\<close>

datatype rx_token = Words "string list" | AnyChars | AtStart | AtEnd

definition line_end :: "char \<Rightarrow> bool" where
  "line_end c \<longleftrightarrow> c = CHR 0x0A \<or> c = CHR 0x0D"

text \<open>The positions where a match of the token that starts at a position can end.\<close>

fun token_ends :: "string \<Rightarrow> rx_token \<Rightarrow> nat \<Rightarrow> nat list" where
  "token_ends s (Words ks) i =
     map (\<lambda>k. i + length k) (filter (\<lambda>k. prefix (to_lower k) (drop i (to_lower s))) ks)"
| "token_ends s AnyChars i =
     map (\<lambda>n. i + n) [0..<Suc (length (takeWhile (\<lambda>c. \<not> line_end c) (drop i s)))]"
| "token_ends s AtStart i = (if i = 0 then [i] else [])"
| "token_ends s AtEnd i = (if i = length s then [i] else [])"

fun rx_ends :: "string \<Rightarrow> rx_token list \<Rightarrow> nat \<Rightarrow> nat list" where
  "rx_ends s [] i = [i]"
| "rx_ends s (t # ts) i = concat (map (rx_ends s ts) (token_ends s t i))"

text \<open>\<open>String.match\<close> as a condition: the pattern matches somewhere.\<close>

definition rx_match :: "rx_token list \<Rightarrow> string \<Rightarrow> bool" where
  "rx_match r s \<longleftrightarrow> list_ex (\<lambda>i. rx_ends s r i \<noteq> []) [0..<Suc (length s)]"

text \<open>\<open>/.*\.(cpp|c|h|lua)$/i\<close>, \<open>/^(fix|improve|add|infra)/i\<close> and \<open>/^\[?WIP\]?/i\<close>.\<close>

definition SOURCE_REGEX :: "rx_token list" where
  "SOURCE_REGEX = [AnyChars, Words [''.''], Words [''cpp'', ''c'', ''h'', ''lua''], AtEnd]"

definition TITLE_REGEX :: "rx_token list" where
  "TITLE_REGEX = [AtStart, Words [''fix'', ''improve'', ''add'', ''infra'']]"

definition WIP_REGEX :: "rx_token list" where
  "WIP_REGEX = [AtStart, Words [''['', []], Words [''WIP''], Words ['']'', []]]"

section \<open>The rules\<close>

record PullRequest =
  pr_title :: string
  pr_created_files :: "string list"
  pr_modified_files :: "string list"

text \<open>What the run reports: calls of \<open>fail\<close> and of \<open>warn\<close> with their texts.\<close>

datatype DangerMessage = DangerFail string | DangerWarn string

definition touched_files :: "PullRequest \<Rightarrow> string list" where
  "touched_files pr = pr_created_files pr @ pr_modified_files pr"

definition sourcefiles :: "PullRequest \<Rightarrow> string list" where
  "sourcefiles pr = filter (rx_match SOURCE_REGEX) (touched_files pr)"

definition check_title :: "PullRequest \<Rightarrow> DangerMessage list" where
  "check_title pr =
     (if rx_match TITLE_REGEX (pr_title pr) then []
      else if rx_match WIP_REGEX (pr_title pr) then [DangerFail ''PR is still a WIP, do not merge'']
      else [DangerFail (''PR title must start with `fix`, `improve`, `add` or `infra` ''
              @ ''for release notes purposes.'')])"

definition todo_text :: "string \<Rightarrow> string" where
  "todo_text filename = ''Source file '' @ filename
     @ '' includes a TODO! Can you make the change right away? If no, better not to create a TODO''
     @ '' - they just tend to hang around and never get fixed.''"

definition check_todo :: "string \<Rightarrow> string \<Rightarrow> DangerMessage list" where
  "check_todo filename added =
     map (\<lambda>item. DangerFail (todo_text filename))
       (filter (\<lambda>item. str_contains item ''TODO:'') (split_on (CHR 0x0A) added))"

definition size_text :: "nat \<Rightarrow> string" where
  "size_text n = ''PR makes changes to '' @ show_nat n
     @ '' source files. Double check the scope hasn't gotten out of hand''"

definition words_text :: "nat \<Rightarrow> string" where
  "words_text n = ''PR title is '' @ show_nat n
     @ '' words long, double check it will make a good changelog line''"

definition check_size :: "PullRequest \<Rightarrow> DangerMessage list" where
  "check_size pr =
     (let n = length (sourcefiles pr); w = length (split_on (CHR '' '') (pr_title pr)) in
      (if 10 < n then [DangerWarn (size_text n)] else [])
      @ (if 25 < w then [DangerWarn (words_text w)] else []))"

text \<open>
  One run: the synchronous checks, then the TODO checks in the order \<open>arrived\<close> the diffs of the
  source files are delivered in.
\<close>

definition dangerfile :: "(string \<Rightarrow> string) \<Rightarrow> string list \<Rightarrow> PullRequest \<Rightarrow> DangerMessage list" where
  "dangerfile added arrived pr =
     check_title pr @ check_size pr @ concat (map (\<lambda>f. check_todo f (added f)) arrived)"

fun is_fail :: "DangerMessage \<Rightarrow> bool" where
  "is_fail (DangerFail m) = True"
| "is_fail (DangerWarn m) = False"

section \<open>Facts\<close>

lemma prefix_first_part:
  "c \<notin> set k \<Longrightarrow> prefix k (hd (split_on c s)) \<longleftrightarrow> prefix k s"
proof (induction s arbitrary: k)
  case (Cons d ds)
  show ?case
  proof (cases k)
    case (Cons a as)
    then show ?thesis
      using Cons.IH [of as] Cons.prems split_on_nonempty [of c ds]
      by (auto split: list.splits)
  qed simp
qed simp

text \<open>A text without the separator occurs in a part exactly when it occurs in the whole.\<close>

lemma contains_some_part:
  "c \<notin> set k \<Longrightarrow> k \<noteq> [] \<Longrightarrow> list_ex (\<lambda>w. str_contains w k) (split_on c s) \<longleftrightarrow> str_contains s k"
proof (induction s)
  case (Cons d ds)
  obtain w ws where w: "split_on c ds = w # ws"
    using split_on_nonempty [of c ds] by (cases "split_on c ds") auto
  have IH: "str_contains w k \<or> list_ex (\<lambda>w. str_contains w k) ws \<longleftrightarrow> str_contains ds k"
    using Cons by (simp add: w)
  show ?case
  proof (cases "d = c")
    case True
    have "\<not> prefix k (c # ds)" using Cons.prems by (cases k) auto
    then show ?thesis using True IH Cons.prems by (simp add: w)
  next
    case False
    have "prefix k (d # w) \<longleftrightarrow> prefix k (d # ds)"
      using prefix_first_part [of c k "d # ds"] Cons.prems False by (simp add: w)
    then show ?thesis using False IH by (auto simp: w)
  qed
qed simp

lemma todo_fails: "list_ex is_fail (check_todo f a) \<longleftrightarrow> str_contains a ''TODO:''"
proof -
  have "list_ex is_fail (check_todo f a)
      \<longleftrightarrow> list_ex (\<lambda>w. str_contains w ''TODO:'') (split_on (CHR 0x0A) a)"
    by (simp add: check_todo_def list_ex_iff del: str_contains.simps) blast
  then show ?thesis by (simp add: contains_some_part del: str_contains.simps)
qed

lemma size_warns: "\<not> list_ex is_fail (check_size pr)" "filter is_fail (check_size pr) = []"
  by (simp_all add: check_size_def Let_def)

lemma to_lower_length [simp]: "length (to_lower s) = length s"
  by (simp add: to_lower_def)

lemma in_rx_ends:
  "j \<in> set (rx_ends s (t # ts) i) \<longleftrightarrow> (\<exists>k \<in> set (token_ends s t i). j \<in> set (rx_ends s ts k))"
  by simp

lemma rx_match_iff: "rx_match r s \<longleftrightarrow> (\<exists>i j. i \<le> length s \<and> j \<in> set (rx_ends s r i))"
  unfolding rx_match_def list_ex_iff set_upt
  by (metis all_not_in_conv atLeastLessThan_iff le0 less_Suc_eq_le set_empty)

lemma any_chars_here: "i \<in> set (token_ends s AnyChars i)"
  by (force simp: image_iff)

text \<open>A pattern that begins at the start matches when its rest matches there.\<close>

lemma anchored_match: "rx_match (AtStart # r) s \<longleftrightarrow> rx_ends s r 0 \<noteq> []"
proof -
  have "rx_match (AtStart # r) s \<longleftrightarrow> (\<exists>j. j \<in> set (rx_ends s r 0))"
    unfolding rx_match_iff by (auto split: if_splits)
  then show ?thesis by (metis all_not_in_conv set_empty)
qed

text \<open>A pattern that begins with \<open>.*\<close> matches when its rest matches anywhere.\<close>

lemma any_prefix_match: "rx_match (AnyChars # r) s \<longleftrightarrow> rx_match r s"
proof
  assume "rx_match (AnyChars # r) s"
  then obtain i j k where i: "i \<le> length s" "k \<in> set (token_ends s AnyChars i)" "j \<in> set (rx_ends s r k)"
    unfolding rx_match_iff in_rx_ends by blast
  have "length (takeWhile (\<lambda>c. \<not> line_end c) (drop i s)) \<le> length s - i"
    using length_takeWhile_le [of _ "drop i s"] by simp
  then have "k \<le> length s" using i(1,2) by auto
  then show "rx_match r s" using i(3) unfolding rx_match_iff by blast
next
  assume "rx_match r s"
  then show "rx_match (AnyChars # r) s"
    unfolding rx_match_iff in_rx_ends using any_chars_here by blast
qed

lemma prefix_drop_all: "prefix k (drop i s) \<Longrightarrow> i + length k = length s \<Longrightarrow> drop i s = k"
proof -
  assume "prefix k (drop i s)" and n: "i + length k = length s"
  then obtain zs where z: "drop i s = k @ zs" by (auto simp: prefix_def)
  have "length (drop i s) = length k + length zs" using z by simp
  then have "length zs = 0" using n unfolding length_drop by arith
  then have "zs = []" by simp
  with z show ?thesis by simp
qed

lemma prefix_append_drop: "prefix a m \<and> prefix b (drop (length a) m) \<longleftrightarrow> prefix (a @ b) m"
  by (auto simp: prefix_def)

lemma dot_word_end:
  "(\<exists>j. j \<in> set (rx_ends s [Words [d], Words ks, AtEnd] i)) \<longleftrightarrow>
    (\<exists>k \<in> set ks. prefix (to_lower d @ to_lower k) (drop i (to_lower s))
       \<and> i + length d + length k = length s)"
proof -
  have "prefix (to_lower d) (drop i (to_lower s)) \<and> prefix (to_lower k) (drop (i + length d) (to_lower s))
      \<longleftrightarrow> prefix (to_lower d @ to_lower k) (drop i (to_lower s))" for k
    using prefix_append_drop [of "to_lower d" "drop i (to_lower s)" "to_lower k"]
    by (simp add: add.commute)
  then show ?thesis by (auto split: if_splits)
qed

lemma suffix_at: "(\<exists>i \<le> length s. prefix k (drop i s) \<and> i + length k = length s) \<longleftrightarrow> suffix k s"
proof
  assume "\<exists>i \<le> length s. prefix k (drop i s) \<and> i + length k = length s"
  then obtain i where "prefix k (drop i s)" "i + length k = length s" by blast
  then have "drop i s = k" by (rule prefix_drop_all)
  then show "suffix k s" by (metis suffix_drop)
next
  assume "suffix k s"
  then obtain p where "s = p @ k" by (auto simp: suffix_def)
  then show "\<exists>i \<le> length s. prefix k (drop i s) \<and> i + length k = length s"
    by (intro exI [of _ "length p"]) simp
qed

lemma ends_with_word:
  "rx_match [Words [d], Words ks, AtEnd] s \<longleftrightarrow>
    (\<exists>k \<in> set ks. suffix (to_lower d @ to_lower k) (to_lower s))"
proof -
  have "rx_match [Words [d], Words ks, AtEnd] s \<longleftrightarrow>
      (\<exists>k \<in> set ks. \<exists>i \<le> length (to_lower s). prefix (to_lower d @ to_lower k) (drop i (to_lower s))
         \<and> i + length (to_lower d @ to_lower k) = length (to_lower s))"
    unfolding rx_match_iff ex_simps dot_word_end by (auto simp: add.assoc)
  then show ?thesis by (simp only: suffix_at)
qed

lemma words_at_start:
  "rx_match (AtStart # Words ks # r) s \<longleftrightarrow>
    (\<exists>k \<in> set ks. prefix (to_lower k) (to_lower s) \<and> rx_ends s r (length k) \<noteq> [])"
  unfolding anchored_match by auto

lemma optional_end: "rx_ends s [Words [k, []]] i \<noteq> []"
  by (simp add: to_lower_def)

section \<open>Properties\<close>

text \<open>
  What the three regular expressions decide. A touched file is a source file when its name ends in
  one of four extensions, a title is accepted when it begins with one of four words, and it is work
  in progress when it begins with WIP or [WIP; all without regard to case, and nothing after these
  words matters.
\<close>

theorem regexes_decide:
  "rx_match SOURCE_REGEX file
     = list_ex (\<lambda>e. suffix e (to_lower file)) [''.cpp'', ''.c'', ''.h'', ''.lua'']
   \<and> rx_match TITLE_REGEX title
     = list_ex (\<lambda>w. prefix w (to_lower title)) [''fix'', ''improve'', ''add'', ''infra'']
   \<and> rx_match WIP_REGEX title = list_ex (\<lambda>w. prefix w (to_lower title)) [''[wip'', ''wip'']"
proof (intro conjI)
  have l: "to_lower ''.'' = ''.''" "to_lower ''cpp'' = ''cpp''" "to_lower ''c'' = ''c''"
    "to_lower ''h'' = ''h''" "to_lower ''lua'' = ''lua''" by code_simp+
  show "rx_match SOURCE_REGEX file
     = list_ex (\<lambda>e. suffix e (to_lower file)) [''.cpp'', ''.c'', ''.h'', ''.lua'']"
    unfolding SOURCE_REGEX_def any_prefix_match ends_with_word by (simp add: l)
  have t: "to_lower ''fix'' = ''fix''" "to_lower ''improve'' = ''improve''" "to_lower ''add'' = ''add''"
    "to_lower ''infra'' = ''infra''" by code_simp+
  show "rx_match TITLE_REGEX title
     = list_ex (\<lambda>w. prefix w (to_lower title)) [''fix'', ''improve'', ''add'', ''infra'']"
    unfolding TITLE_REGEX_def words_at_start by (simp add: t)
  have w: "to_lower ''['' = ''[''" "to_lower [] = []" "to_lower ''WIP'' = ''wip''" by code_simp+
  have o: "rx_ends title [Words [''WIP''], Words ['']'', []]] i \<noteq> []
      \<longleftrightarrow> prefix ''wip'' (drop i (to_lower title))" for i
    unfolding rx_ends.simps(2) [of _ "Words [''WIP'']"] using optional_end [of title "'']''"] by (simp add: w)
  have "prefix ''['' (to_lower title) \<and> prefix ''wip'' (drop 1 (to_lower title))
      \<longleftrightarrow> prefix ''[wip'' (to_lower title)"
    using prefix_append_drop [of "''[''" "to_lower title" "''wip''"] by simp
  then show "rx_match WIP_REGEX title = list_ex (\<lambda>w. prefix w (to_lower title)) [''[wip'', ''wip'']"
    unfolding WIP_REGEX_def words_at_start o by (simp add: w)
qed

text \<open>
  C5: A pull request passes the review rules exactly when its title starts with one of the four words
  and no touched source file adds the text TODO: anywhere, whatever the order the diffs arrive in;
  size and long titles only warn.
\<close>

theorem dangerfile_passes:
  "set arrived = set (sourcefiles pr) \<Longrightarrow>
   (\<not> list_ex is_fail (dangerfile added arrived pr)) =
   (rx_match TITLE_REGEX (pr_title pr)
    \<and> \<not> list_ex (\<lambda>f. rx_match SOURCE_REGEX f \<and> str_contains (added f) ''TODO:'') (touched_files pr))"
proof -
  assume a: "set arrived = set (sourcefiles pr)"
  have title: "list_ex is_fail (check_title pr) \<longleftrightarrow> \<not> rx_match TITLE_REGEX (pr_title pr)"
    by (simp add: check_title_def)
  have "list_ex is_fail (concat (map (\<lambda>f. check_todo f (added f)) arrived))
      \<longleftrightarrow> list_ex (\<lambda>f. list_ex is_fail (check_todo f (added f))) arrived"
    by (auto simp: list_ex_iff)
  also have "\<dots> \<longleftrightarrow> list_ex (\<lambda>f. rx_match SOURCE_REGEX f \<and> str_contains (added f) ''TODO:'')
         (touched_files pr)"
    unfolding todo_fails
    unfolding list_ex_iff a
    by (simp only: sourcefiles_def set_filter mem_Collect_eq) blast
  finally show ?thesis using title size_warns by (simp add: dangerfile_def del: str_contains.simps)
qed

theorem dangerfile_passes_witness:
  "let pr = \<lparr>pr_title = ''Fix map'', pr_created_files = [''a.LUA''], pr_modified_files = [''README'']\<rparr> in
   list_ex is_fail (dangerfile (\<lambda>f. ''x TODO: y'') [''a.LUA''] pr)"
proof -
  let ?pr = "\<lparr>pr_title = ''Fix map'', pr_created_files = [''a.LUA''], pr_modified_files = [''README'']\<rparr>"
  have s: "sourcefiles ?pr = [''a.LUA'']" by code_simp
  have r: "rx_match SOURCE_REGEX ''a.LUA''" by code_simp
  have t: "str_contains ''x TODO: y'' ''TODO:''" by code_simp
  show ?thesis
    using dangerfile_passes [of "[''a.LUA'']" ?pr "\<lambda>f. ''x TODO: y''"] s r t
    by (simp add: touched_files_def del: str_contains.simps)
qed

text \<open>
  The number of failures: one for a bad title and one for every added line of a source file that
  contains TODO:; a file in both lists is read twice. The order the diffs arrive in changes only the
  order of the messages.
\<close>

theorem failures_counted:
  "mset arrived = mset (sourcefiles pr) \<Longrightarrow>
   mset (dangerfile added arrived pr) = mset (dangerfile added (sourcefiles pr) pr)
   \<and> length (filter is_fail (dangerfile added arrived pr))
     = (if rx_match TITLE_REGEX (pr_title pr) then 0 else 1)
       + sum_list (map (\<lambda>f. length (filter (\<lambda>l. str_contains l ''TODO:'') (split_on (CHR 0x0A) (added f))))
           (sourcefiles pr))"
proof -
  assume a: "mset arrived = mset (sourcefiles pr)"
  have m: "mset (concat (map g xs)) = (\<Sum>x\<in>#mset xs. mset (g x))" for g :: "string \<Rightarrow> DangerMessage list" and xs
    by (induction xs) simp_all
  have perm: "mset (dangerfile added arrived pr) = mset (dangerfile added (sourcefiles pr) pr)"
    by (simp only: dangerfile_def mset_append m a)
  have "filter is_fail (check_todo f b) = check_todo f b" for f b
    by (simp add: check_todo_def filter_map comp_def)
  then have "length (filter is_fail (concat (map (\<lambda>f. check_todo f (added f)) xs)))
      = sum_list (map (\<lambda>f. length (filter (\<lambda>l. str_contains l ''TODO:'') (split_on (CHR 0x0A) (added f)))) xs)" for xs
    by (simp add: filter_concat length_concat comp_def check_todo_def)
  moreover have "length (filter is_fail (check_title pr)) = (if rx_match TITLE_REGEX (pr_title pr) then 0 else 1)"
    by (simp add: check_title_def)
  ultimately have "length (filter is_fail (dangerfile added (sourcefiles pr) pr))
     = (if rx_match TITLE_REGEX (pr_title pr) then 0 else 1)
       + sum_list (map (\<lambda>f. length (filter (\<lambda>l. str_contains l ''TODO:'') (split_on (CHR 0x0A) (added f))))
           (sourcefiles pr))"
    using size_warns by (simp add: dangerfile_def)
  then show ?thesis using perm by (metis mset_filter size_mset)
qed

theorem failures_counted_witness:
  "let pr = \<lparr>pr_title = ''Fix'', pr_created_files = [''a.h''], pr_modified_files = [''b.c'']\<rparr> in
   length (filter is_fail (dangerfile (\<lambda>f. ''TODO:'' @ [CHR 0x0A] @ ''TODO:'') [''b.c'', ''a.h''] pr)) = 4"
proof -
  let ?pr = "\<lparr>pr_title = ''Fix'', pr_created_files = [''a.h''], pr_modified_files = [''b.c'']\<rparr>"
  have s: "sourcefiles ?pr = [''a.h'', ''b.c'']" "rx_match TITLE_REGEX ''Fix''" by code_simp+
  have "filter (\<lambda>l. str_contains l ''TODO:'') (split_on (CHR 0x0A) (''TODO:'' @ [CHR 0x0A] @ ''TODO:''))
      = [''TODO:'', ''TODO:'']" by code_simp
  then show ?thesis
    using failures_counted [of "[''b.c'', ''a.h'']" ?pr "\<lambda>f. ''TODO:'' @ [CHR 0x0A] @ ''TODO:''"] s
    by (simp del: append.simps str_contains.simps split_on.simps)
qed

text \<open>
  The words of a title are counted by its spaces: the warning about a long title names one more than
  the number of spaces and comes exactly when there are 25 or more, so repeated spaces count as
  words; the warning about the size comes exactly when more than 10 source files are touched.
\<close>

theorem warnings_exact:
  "filter (\<lambda>m. \<not> is_fail m) (dangerfile added arrived pr) =
     (if 10 < length (sourcefiles pr) then [DangerWarn (size_text (length (sourcefiles pr)))] else [])
     @ (if 25 \<le> count_list (pr_title pr) (CHR '' '')
        then [DangerWarn (words_text (count_list (pr_title pr) (CHR '' '') + 1))] else [])"
proof -
  have "filter (\<lambda>m. \<not> is_fail m) (check_todo f b) = []" for f b
    by (simp add: check_todo_def filter_map comp_def)
  then have "filter (\<lambda>m. \<not> is_fail m) (concat (map (\<lambda>f. check_todo f (added f)) arrived)) = []"
    by (simp add: filter_concat comp_def)
  moreover have "filter (\<lambda>m. \<not> is_fail m) (check_title pr) = []"
    by (simp add: check_title_def)
  ultimately show ?thesis
    by (simp add: dangerfile_def check_size_def Let_def split_on_length)
qed

end
