(* ===== verification/BugFlow.thy ===== *)
theory BugFlow
  imports Prelude
begin

text \<open>
  The bug remediation workflow, \<open>wirecore/crates/wire-bug-automation/src/lib.rs\<close>: reports, the
  artifacts of each stage, the transitions with their guards, the retry policy and the audit. The
  clock reading of an audit entry is an argument of the operation.
\<close>

section \<open>Subsystems, priorities, stages\<close>

definition DEFAULT_MAX_RETRIES :: u32 where "DEFAULT_MAX_RETRIES = 3"
definition MAX_ALLOWED_RETRIES :: u32 where "MAX_ALLOWED_RETRIES = 10"

datatype Subsystem =
  SubCore | SubNetwork | SubLua | SubMapper | SubVoice | SubRenderer | SubHeadless | SubProvider
| SubUpdate | SubPackage | SubSecurity | SubTelemetry | SubBugAutomation

fun Subsystem_as_str :: "Subsystem \<Rightarrow> string" where
  "Subsystem_as_str SubCore = ''core''"
| "Subsystem_as_str SubNetwork = ''network''"
| "Subsystem_as_str SubLua = ''lua''"
| "Subsystem_as_str SubMapper = ''mapper''"
| "Subsystem_as_str SubVoice = ''voice''"
| "Subsystem_as_str SubRenderer = ''renderer''"
| "Subsystem_as_str SubHeadless = ''headless''"
| "Subsystem_as_str SubProvider = ''provider''"
| "Subsystem_as_str SubUpdate = ''update''"
| "Subsystem_as_str SubPackage = ''package''"
| "Subsystem_as_str SubSecurity = ''security''"
| "Subsystem_as_str SubTelemetry = ''telemetry''"
| "Subsystem_as_str SubBugAutomation = ''bug_automation''"

definition requires_privacy_or_security_review :: "Subsystem \<Rightarrow> bool" where
  "requires_privacy_or_security_review s \<longleftrightarrow>
     s \<in> {SubVoice, SubProvider, SubUpdate, SubPackage, SubSecurity}"

datatype Priority = P0 | P1 | P2 | P3 | P4

fun Priority_as_str :: "Priority \<Rightarrow> string" where
  "Priority_as_str P0 = ''P0''"
| "Priority_as_str P1 = ''P1''"
| "Priority_as_str P2 = ''P2''"
| "Priority_as_str P3 = ''P3''"
| "Priority_as_str P4 = ''P4''"

definition is_p0_or_p1 :: "Priority \<Rightarrow> bool" where
  "is_p0_or_p1 p \<longleftrightarrow> p \<in> {P0, P1}"

datatype BugStage =
  StIntake | StReproduction | StDiagnosis | StPatch | StValidation | StReview | StCanary
| StRollback | StDone | StBlocked

fun BugStage_as_str :: "BugStage \<Rightarrow> string" where
  "BugStage_as_str StIntake = ''intake''"
| "BugStage_as_str StReproduction = ''reproduction''"
| "BugStage_as_str StDiagnosis = ''diagnosis''"
| "BugStage_as_str StPatch = ''patch''"
| "BugStage_as_str StValidation = ''validation''"
| "BugStage_as_str StReview = ''review''"
| "BugStage_as_str StCanary = ''canary''"
| "BugStage_as_str StRollback = ''rollback''"
| "BugStage_as_str StDone = ''done''"
| "BugStage_as_str StBlocked = ''blocked''"

record BugError =
  be_code :: string
  be_message :: string
  be_retryable :: bool
  be_idempotency_key :: "string option"

definition BugError_new :: "string \<Rightarrow> string \<Rightarrow> BugError" where
  "BugError_new code message =
     \<lparr>be_code = code, be_message = message, be_retryable = False, be_idempotency_key = None\<rparr>"

definition BugError_retryable :: "string \<Rightarrow> BugError \<Rightarrow> BugError" where
  "BugError_retryable key e = e\<lparr>be_retryable := True, be_idempotency_key := Some key\<rparr>"

section \<open>Artifacts\<close>

record BugReport =
  br_id :: string
  br_fingerprint :: string
  br_subsystem :: Subsystem
  br_priority :: Priority
  br_description :: string
  br_correlation_id :: string
  br_evidence_refs :: "string list"
  br_created_epoch_ms :: u64

record Reproduction =
  rp_reproduced :: bool
  rp_explanation :: string
  rp_steps_or_evidence :: "string list"

definition evidence_backed :: "Reproduction \<Rightarrow> bool" where
  "evidence_backed r \<longleftrightarrow>
     rp_reproduced r \<or> (trim (rp_explanation r) \<noteq> [] \<and> rp_steps_or_evidence r \<noteq> [])"

record Diagnosis =
  dg_root_cause :: string
  dg_confidence :: u8

record PatchPlan =
  pp_subsystem :: Subsystem
  pp_touched_paths :: "string list"
  pp_summary :: string
  pp_validation_command :: string

definition subsystem_scoped :: "PatchPlan \<Rightarrow> bool" where
  "subsystem_scoped p \<longleftrightarrow>
     pp_touched_paths p \<noteq> []
     \<and> list_all (\<lambda>path. list_ex (\<lambda>seg. seg = Subsystem_as_str (pp_subsystem p)) (split_on (CHR ''/'') path))
         (pp_touched_paths p)"

record ReviewOutcome =
  ro_reviewer_id :: string
  ro_planner_id :: string
  ro_approved :: bool
  ro_notes :: string

definition independent :: "ReviewOutcome \<Rightarrow> bool" where
  "independent r \<longleftrightarrow> ro_reviewer_id r \<noteq> ro_planner_id r"

record CanaryRecommendation =
  ca_scope :: string
  ca_duration_secs :: u64
  ca_rollback_plan :: "string list"

record RollbackPlan =
  rb_steps :: "string list"
  rb_restores_last_known_good :: bool

record BlockedReport =
  bl_bug_id :: string
  bl_stage :: BugStage
  bl_reason :: string
  bl_retry_signatures :: "string list"
  bl_evidence_refs :: "string list"
  bl_human_next_steps :: "string list"

record AuditEntry =
  au_t_epoch_ms :: u64
  au_bug_id :: string
  au_stage :: BugStage
  au_action :: string
  au_detail :: string

section \<open>Retry policy\<close>

record RetryRecord =
  rr_attempt :: u32
  rr_signature :: string
  rr_idempotency_key :: string
  rr_t_epoch_ms :: u64

record RetryPolicy =
  rt_max_attempts :: u32
  rt_base_delay_ms :: u64
  rt_jitter_ms :: u64
  rt_require_idempotency_key_for_destructive :: bool
  rt_signatures :: "string list"

definition RetryPolicy_default :: RetryPolicy where
  "RetryPolicy_default =
     \<lparr>rt_max_attempts = DEFAULT_MAX_RETRIES, rt_base_delay_ms = 50, rt_jitter_ms = 10,
      rt_require_idempotency_key_for_destructive = True, rt_signatures = []\<rparr>"

definition with_max_attempts :: "u32 \<Rightarrow> RetryPolicy \<Rightarrow> BugError + RetryPolicy" where
  "with_max_attempts n r =
     (if n = 0 \<or> MAX_ALLOWED_RETRIES < n
      then Inl (BugError_new ''retry_bound''
             (''max_attempts must be within 1..='' @ show_nat (unat MAX_ALLOWED_RETRIES)
              @ '', got '' @ show_nat (unat n)))
      else Inr (r\<lparr>rt_max_attempts := n\<rparr>))"

definition RetryPolicy_allows :: "string \<Rightarrow> RetryPolicy \<Rightarrow> bool" where
  "RetryPolicy_allows sig r \<longleftrightarrow>
     (of_nat (length (filter ((=) sig) (rt_signatures r))) :: u32) < rt_max_attempts r"

definition RetryPolicy_record :: "string \<Rightarrow> string \<Rightarrow> RetryPolicy \<Rightarrow> (BugError + unit) \<times> RetryPolicy" where
  "RetryPolicy_record sig key r =
     (if \<not> RetryPolicy_allows sig r
      then (Inl (BugError_new ''retry_exhausted'' (''retry budget exhausted for signature '' @ sig)), r)
      else (Inr (), r\<lparr>rt_signatures := rt_signatures r @ [sig]\<rparr>))"

definition backoff_ms :: "RetryPolicy \<Rightarrow> u64" where
  "backoff_ms r = rt_base_delay_ms r + rt_jitter_ms r div 2"

definition destructive_effect_allowed :: "string option \<Rightarrow> RetryPolicy \<Rightarrow> bool" where
  "destructive_effect_allowed key r \<longleftrightarrow>
     (if \<not> rt_require_idempotency_key_for_destructive r then True
      else (case key of Some k \<Rightarrow> trim k \<noteq> [] | None \<Rightarrow> False))"

section \<open>The workflow\<close>

record BugWorkflow =
  bw_report :: BugReport
  bw_stage :: BugStage
  bw_reproduction :: "Reproduction option"
  bw_diagnosis :: "Diagnosis option"
  bw_patch_plan :: "PatchPlan option"
  bw_validation_result :: "string option"
  bw_review :: "ReviewOutcome option"
  bw_canary :: "CanaryRecommendation option"
  bw_rollback :: "RollbackPlan option"
  bw_blocked :: "BlockedReport option"
  bw_audit :: "AuditEntry list"
  bw_retries :: RetryPolicy

definition BugWorkflow_new :: "BugReport \<Rightarrow> BugWorkflow" where
  "BugWorkflow_new report =
     \<lparr>bw_report = report, bw_stage = StIntake, bw_reproduction = None, bw_diagnosis = None,
      bw_patch_plan = None, bw_validation_result = None, bw_review = None, bw_canary = None,
      bw_rollback = None, bw_blocked = None, bw_audit = [], bw_retries = RetryPolicy_default\<rparr>"

definition BugWorkflow_audit :: "u64 \<Rightarrow> string \<Rightarrow> string \<Rightarrow> BugWorkflow \<Rightarrow> BugWorkflow" where
  "BugWorkflow_audit now action detail w =
     w\<lparr>bw_audit := bw_audit w @
        [\<lparr>au_t_epoch_ms = now, au_bug_id = br_id (bw_report w), au_stage = bw_stage w,
          au_action = action, au_detail = detail\<rparr>]\<rparr>"

abbreviation refuse :: "string \<Rightarrow> string \<Rightarrow> BugWorkflow \<Rightarrow> (BugError + unit) \<times> BugWorkflow" where
  "refuse code message w \<equiv> (Inl (BugError_new code message), w)"

definition record_reproduction :: "Reproduction \<Rightarrow> u64 \<Rightarrow> BugWorkflow \<Rightarrow> (BugError + unit) \<times> BugWorkflow" where
  "record_reproduction r now w =
     (if bw_stage w \<noteq> StIntake
      then refuse ''stage_mismatch'' ''reproduction may only be recorded in intake'' w
      else if \<not> evidence_backed r
      then refuse ''evidence_required'' ''automation requires reproduction or evidence-backed explanation'' w
      else (Inr (), BugWorkflow_audit now ''record_reproduction'' ''evidence-backed reproduction recorded''
             (w\<lparr>bw_reproduction := Some r, bw_stage := StReproduction\<rparr>)))"

definition diagnose :: "Diagnosis \<Rightarrow> u64 \<Rightarrow> BugWorkflow \<Rightarrow> (BugError + unit) \<times> BugWorkflow" where
  "diagnose d now w =
     (if bw_stage w \<noteq> StReproduction
      then refuse ''stage_mismatch'' ''diagnosis requires a prior reproduction'' w
      else if 100 < dg_confidence d
      then refuse ''invalid_confidence'' ''confidence must be 0..100'' w
      else (Inr (), BugWorkflow_audit now ''diagnose'' ''root-cause hypothesis recorded''
             (w\<lparr>bw_diagnosis := Some d, bw_stage := StDiagnosis\<rparr>)))"

definition plan_patch :: "PatchPlan \<Rightarrow> u64 \<Rightarrow> BugWorkflow \<Rightarrow> (BugError + unit) \<times> BugWorkflow" where
  "plan_patch p now w =
     (if bw_stage w \<noteq> StDiagnosis
      then refuse ''stage_mismatch'' ''patch planning requires a diagnosis'' w
      else if pp_subsystem p \<noteq> br_subsystem (bw_report w)
      then refuse ''subsystem_mismatch'' ''patch plan must target the bug's owning subsystem'' w
      else if \<not> subsystem_scoped p
      then refuse ''patch_scope'' ''patch plan touches paths outside the owning subsystem'' w
      else (Inr (), BugWorkflow_audit now ''plan_patch'' ''subsystem-scoped patch plan recorded''
             (w\<lparr>bw_patch_plan := Some p, bw_stage := StPatch\<rparr>)))"

definition record_validation :: "string \<Rightarrow> u64 \<Rightarrow> BugWorkflow \<Rightarrow> (BugError + unit) \<times> BugWorkflow" where
  "record_validation result now w =
     (if bw_stage w \<noteq> StPatch
      then refuse ''stage_mismatch'' ''validation requires a patch plan'' w
      else if trim result = []
      then refuse ''validation_required'' ''independent tests must produce an observed result'' w
      else (Inr (), BugWorkflow_audit now ''record_validation'' ''independent test result recorded''
             (w\<lparr>bw_validation_result := Some result, bw_stage := StValidation\<rparr>)))"

definition block :: "BugStage \<Rightarrow> string \<Rightarrow> u64 \<Rightarrow> BugWorkflow \<Rightarrow> (BugError + unit) \<times> BugWorkflow" where
  "block stage reason now w =
     (if bw_stage w = StDone \<or> bw_stage w = StBlocked
      then refuse ''terminal_stage'' ''workflow is already terminal'' w
      else (Inr (), BugWorkflow_audit now ''block'' ''complete BLOCKED report emitted''
        (w\<lparr>bw_blocked := Some
             \<lparr>bl_bug_id = br_id (bw_report w), bl_stage = stage, bl_reason = reason,
              bl_retry_signatures = rt_signatures (bw_retries w),
              bl_evidence_refs = br_evidence_refs (bw_report w),
              bl_human_next_steps =
                [''review the attached reproduction and diagnosis'',
                 ''inspect the redacted evidence bundle'',
                 ''decide approve, amend, or reject via the review board'']\<rparr>,
           bw_stage := StBlocked\<rparr>)))"

definition planner_name :: "Subsystem \<Rightarrow> string" where
  "planner_name s = ''planner-'' @ Subsystem_as_str s"

definition record_review :: "ReviewOutcome \<Rightarrow> u64 \<Rightarrow> BugWorkflow \<Rightarrow> (BugError + unit) \<times> BugWorkflow" where
  "record_review r now w =
     (if bw_stage w \<noteq> StValidation
      then refuse ''stage_mismatch'' ''review requires an observed validation result'' w
      else
        let planner = (case bw_patch_plan w of
              Some p \<Rightarrow> planner_name (pp_subsystem p)
            | None \<Rightarrow> ''unknown-planner'') in
        if ro_planner_id r \<noteq> planner
        then refuse ''planner_mismatch'' ''review must name the actual planner for independence'' w
        else if \<not> independent r
        then refuse ''review_not_independent'' ''reviewer must differ from the planner'' w
        else if is_p0_or_p1 (br_priority (bw_report w)) \<and> \<not> str_contains (to_lower (ro_notes r)) ''performance''
        then refuse ''performance_review_required'' ''P0/P1 bugs require a performance review'' w
        else if requires_privacy_or_security_review (br_subsystem (bw_report w))
            \<and> \<not> str_contains (to_lower (ro_notes r)) ''security''
        then refuse ''security_review_required''
               ''voice/provider/update/package/security bugs require a security review'' w
        else if \<not> ro_approved r then block StReview ''independent review denied the patch'' now w
        else (Inr (), BugWorkflow_audit now ''record_review'' ''independent review approved''
               (w\<lparr>bw_review := Some r, bw_stage := StReview\<rparr>)))"

definition recommend_canary ::
    "CanaryRecommendation \<Rightarrow> u64 \<Rightarrow> BugWorkflow \<Rightarrow> (BugError + unit) \<times> BugWorkflow" where
  "recommend_canary c now w =
     (if bw_stage w \<noteq> StReview
      then refuse ''stage_mismatch'' ''canary requires an approved review'' w
      else if ca_rollback_plan c = []
      then refuse ''rollback_required'' ''canary must carry a rollback plan'' w
      else (Inr (), BugWorkflow_audit now ''recommend_canary'' ''bounded canary recommended''
             (w\<lparr>bw_canary := Some c, bw_stage := StCanary\<rparr>)))"

definition rollback :: "RollbackPlan \<Rightarrow> u64 \<Rightarrow> BugWorkflow \<Rightarrow> (BugError + unit) \<times> BugWorkflow" where
  "rollback p now w =
     (if bw_stage w \<noteq> StCanary
      then refuse ''stage_mismatch'' ''rollback may only follow a canary'' w
      else if \<not> rb_restores_last_known_good p
      then refuse ''rollback_unsafe'' ''rollback must restore the last known good state'' w
      else (Inr (), BugWorkflow_audit now ''rollback'' ''compensation plan executed''
             (w\<lparr>bw_rollback := Some p, bw_stage := StRollback\<rparr>)))"

definition complete :: "u64 \<Rightarrow> BugWorkflow \<Rightarrow> (BugError + unit) \<times> BugWorkflow" where
  "complete now w =
     (if bw_stage w \<noteq> StReview \<and> bw_stage w \<noteq> StCanary \<and> bw_stage w \<noteq> StRollback
      then refuse ''stage_mismatch''
        ''completion requires an approved review, a passed canary, or a completed rollback'' w
      else (Inr (), BugWorkflow_audit now ''complete'' ''remediation reached DONE'' (w\<lparr>bw_stage := StDone\<rparr>)))"

definition is_terminal :: "BugWorkflow \<Rightarrow> bool" where
  "is_terminal w \<longleftrightarrow> bw_stage w \<in> {StDone, StBlocked}"

section \<open>The workflow as a machine\<close>

datatype bug_op =
  OpReproduce Reproduction u64
| OpDiagnose Diagnosis u64
| OpPatch PatchPlan u64
| OpValidate string u64
| OpReview ReviewOutcome u64
| OpCanary CanaryRecommendation u64
| OpRollback RollbackPlan u64
| OpComplete u64
| OpBlock BugStage string u64
| OpRetry string string

fun bug_do :: "bug_op \<Rightarrow> BugWorkflow \<Rightarrow> (BugError + unit) \<times> BugWorkflow" where
  "bug_do (OpReproduce r n) w = record_reproduction r n w"
| "bug_do (OpDiagnose d n) w = diagnose d n w"
| "bug_do (OpPatch p n) w = plan_patch p n w"
| "bug_do (OpValidate t n) w = record_validation t n w"
| "bug_do (OpReview r n) w = record_review r n w"
| "bug_do (OpCanary c n) w = recommend_canary c n w"
| "bug_do (OpRollback p n) w = rollback p n w"
| "bug_do (OpComplete n) w = complete n w"
| "bug_do (OpBlock st t n) w = block st t n w"
| "bug_do (OpRetry sig key) w =
     (let (res, r) = RetryPolicy_record sig key (bw_retries w) in (res, w\<lparr>bw_retries := r\<rparr>))"

definition bug_step :: "bug_op \<Rightarrow> BugWorkflow \<Rightarrow> BugWorkflow" where
  "bug_step x w = snd (bug_do x w)"

lemmas bug_ops = record_reproduction_def diagnose_def plan_patch_def record_validation_def
  record_review_def recommend_canary_def rollback_def complete_def block_def BugWorkflow_audit_def

fun stage_rank :: "BugStage \<Rightarrow> nat" where
  "stage_rank StIntake = 0"
| "stage_rank StReproduction = 1"
| "stage_rank StDiagnosis = 2"
| "stage_rank StPatch = 3"
| "stage_rank StValidation = 4"
| "stage_rank StReview = 5"
| "stage_rank StCanary = 6"
| "stage_rank StRollback = 7"
| "stage_rank StDone = 8"
| "stage_rank StBlocked = 8"

text \<open>What a review that lets a bug pass must have said.\<close>

definition review_ok :: "BugReport \<Rightarrow> ReviewOutcome \<Rightarrow> bool" where
  "review_ok rep r \<longleftrightarrow>
     ro_approved r \<and> ro_planner_id r = planner_name (br_subsystem rep)
     \<and> ro_reviewer_id r \<noteq> ro_planner_id r
     \<and> (if is_p0_or_p1 (br_priority rep) then str_contains (to_lower (ro_notes r)) ''performance'' else True)
     \<and> (if requires_privacy_or_security_review (br_subsystem rep)
        then str_contains (to_lower (ro_notes r)) ''security'' else True)"

definition patch_ok :: "BugReport \<Rightarrow> PatchPlan \<Rightarrow> bool" where
  "patch_ok rep p \<longleftrightarrow> pp_subsystem p = br_subsystem rep \<and> subsystem_scoped p"

text \<open>The artifacts each stage rests on.\<close>

definition flow_inv :: "BugReport \<Rightarrow> BugWorkflow \<Rightarrow> bool" where
  "flow_inv rep w \<longleftrightarrow>
     bw_report w = rep
     \<and> length (bw_audit w) \<le> stage_rank (bw_stage w)
     \<and> (bw_stage w = StBlocked \<longleftrightarrow> bw_blocked w \<noteq> None)
     \<and> (bw_stage w \<noteq> StBlocked \<longrightarrow>
          (1 \<le> stage_rank (bw_stage w) \<longrightarrow> (\<exists>r. bw_reproduction w = Some r \<and> evidence_backed r))
          \<and> (2 \<le> stage_rank (bw_stage w) \<longrightarrow> (\<exists>d. bw_diagnosis w = Some d \<and> dg_confidence d \<le> 100))
          \<and> (3 \<le> stage_rank (bw_stage w) \<longrightarrow> (\<exists>p. bw_patch_plan w = Some p \<and> patch_ok rep p))
          \<and> (4 \<le> stage_rank (bw_stage w) \<longrightarrow> (\<exists>t. bw_validation_result w = Some t \<and> trim t \<noteq> []))
          \<and> (5 \<le> stage_rank (bw_stage w) \<longrightarrow> (\<exists>r. bw_review w = Some r \<and> review_ok rep r)))"

section \<open>Facts\<close>

lemmas flow_defs = flow_inv_def bug_ops patch_ok_def review_ok_def independent_def

lemma stage_rank_le: "stage_rank st \<le> 8"
  by (cases st) simp_all

lemma reproduction_inv: "flow_inv rep w \<Longrightarrow> flow_inv rep (snd (record_reproduction r n w))"
  by (auto simp: flow_inv_def record_reproduction_def BugWorkflow_audit_def)

lemma diagnose_inv: "flow_inv rep w \<Longrightarrow> flow_inv rep (snd (diagnose d n w))"
  by (auto simp: flow_inv_def diagnose_def BugWorkflow_audit_def not_less)

lemma patch_inv: "flow_inv rep w \<Longrightarrow> flow_inv rep (snd (plan_patch p n w))"
  by (auto simp: flow_inv_def plan_patch_def BugWorkflow_audit_def patch_ok_def)

lemma validation_inv: "flow_inv rep w \<Longrightarrow> flow_inv rep (snd (record_validation t n w))"
  by (auto simp: flow_inv_def record_validation_def BugWorkflow_audit_def)

lemma block_inv: "flow_inv rep w \<Longrightarrow> flow_inv rep (snd (block st t n w))"
proof (cases "bw_stage w = StDone \<or> bw_stage w = StBlocked")
  case False
  assume inv: "flow_inv rep w"
  have "stage_rank (bw_stage w) \<le> 7" using False by (cases "bw_stage w") auto
  then show ?thesis using inv False by (simp add: flow_inv_def block_def BugWorkflow_audit_def)
qed (simp add: block_def)

lemma review_inv: "flow_inv rep w \<Longrightarrow> flow_inv rep (snd (record_review r n w))"
proof -
  assume inv: "flow_inv rep w"
  show ?thesis
  proof (cases "bw_stage w = StValidation")
    case False
    then show ?thesis using inv by (simp add: record_review_def)
  next
    case True
    then obtain p where p: "bw_patch_plan w = Some p" "pp_subsystem p = br_subsystem rep"
      using inv by (auto simp: flow_inv_def patch_ok_def)
    show ?thesis
    proof (cases "review_ok rep r")
      case ok: True
      have "snd (record_review r n w) = BugWorkflow_audit n ''record_review'' ''independent review approved''
             (w\<lparr>bw_review := Some r, bw_stage := StReview\<rparr>)"
        using ok True p inv
        by (auto simp: record_review_def review_ok_def independent_def flow_inv_def split: if_splits)
      then show ?thesis using ok True inv by (simp add: flow_inv_def BugWorkflow_audit_def)
    next
      case False
      then have "snd (record_review r n w) = w
          \<or> snd (record_review r n w) = snd (block StReview ''independent review denied the patch'' n w)"
        using True p inv
        by (auto simp: record_review_def review_ok_def independent_def flow_inv_def Let_def split: if_splits)
      then show ?thesis using inv block_inv [OF inv] by auto
    qed
  qed
qed

lemma canary_inv: "flow_inv rep w \<Longrightarrow> flow_inv rep (snd (recommend_canary c n w))"
  by (auto simp: flow_inv_def recommend_canary_def BugWorkflow_audit_def)

lemma rollback_inv: "flow_inv rep w \<Longrightarrow> flow_inv rep (snd (rollback p n w))"
  by (auto simp: flow_inv_def rollback_def BugWorkflow_audit_def)

lemma complete_inv: "flow_inv rep w \<Longrightarrow> flow_inv rep (snd (complete n w))"
  by (cases "bw_stage w") (auto simp: flow_inv_def complete_def BugWorkflow_audit_def)

interpretation bug_flow: machine_invariant bug_step "flow_inv rep" for rep
proof
  fix w :: BugWorkflow and x :: bug_op
  assume inv: "flow_inv rep w"
  show "flow_inv rep (bug_step x w)"
  proof (cases x)
    case (OpRetry sig key)
    then show ?thesis using inv
      by (simp add: bug_step_def flow_inv_def split: prod.split)
  qed (simp_all add: bug_step_def inv reproduction_inv diagnose_inv patch_inv validation_inv
      review_inv canary_inv rollback_inv complete_inv block_inv)
qed

lemma flow_inv_new: "flow_inv rep (BugWorkflow_new rep)"
  by (simp add: flow_inv_def BugWorkflow_new_def)

text \<open>Which operations of a run were accepted; recording a retry is not a transition.\<close>

fun is_retry :: "bug_op \<Rightarrow> bool" where
  "is_retry (OpRetry s k) = True"
| "is_retry _ = False"

definition accepts :: "bug_op \<Rightarrow> BugWorkflow \<Rightarrow> bool" where
  "accepts x w \<longleftrightarrow> \<not> is_retry x \<and> \<not> isl (fst (bug_do x w))"

fun accepted_steps :: "bug_op list \<Rightarrow> BugWorkflow \<Rightarrow> nat" where
  "accepted_steps [] w = 0"
| "accepted_steps (x # xs) w = (if accepts x w then 1 else 0) + accepted_steps xs (bug_step x w)"

lemma refused_unchanged: "\<not> accepts x w \<Longrightarrow> bw_audit (bug_step x w) = bw_audit w \<and> bw_stage (bug_step x w) = bw_stage w"
  by (cases x)
    (auto simp: accepts_def bug_step_def bug_ops Let_def split: if_splits prod.split option.splits)

lemma accepted_audited: "accepts x w \<Longrightarrow> length (bw_audit (bug_step x w)) = Suc (length (bw_audit w))"
  by (cases x) (auto simp: accepts_def bug_step_def bug_ops Let_def split: if_splits option.splits)

lemma terminal_refuses: "is_terminal w \<Longrightarrow> \<not> accepts x w"
  by (cases x) (auto simp: is_terminal_def accepts_def bug_ops)

lemma audit_counts_accepted: "length (bw_audit (run bug_step xs w)) = length (bw_audit w) + accepted_steps xs w"
proof (induction xs arbitrary: w)
  case (Cons x xs)
  then show ?case
    using refused_unchanged [of x w] accepted_audited [of x w] by (cases "accepts x w") auto
qed simp

lemma terminal_run:
  "is_terminal w \<Longrightarrow> accepted_steps xs w = 0 \<and> bw_stage (run bug_step xs w) = bw_stage w"
proof (induction xs arbitrary: w)
  case (Cons x xs)
  have no: "\<not> accepts x w" using Cons.prems by (rule terminal_refuses)
  then have "bw_stage (bug_step x w) = bw_stage w" using refused_unchanged by blast
  then show ?case using no Cons.IH [of "bug_step x w"] Cons.prems by (simp add: is_terminal_def)
qed simp

definition retry_step :: "string \<times> string \<Rightarrow> RetryPolicy \<Rightarrow> RetryPolicy" where
  "retry_step k r = snd (RetryPolicy_record (fst k) (snd k) r)"

lemma retry_run:
  "unat (rt_max_attempts r) \<le> 10 \<Longrightarrow>
   (\<forall>s. count_list (rt_signatures r) s \<le> unat (rt_max_attempts r)) \<Longrightarrow>
   count_list (rt_signatures (run retry_step ks r)) sig
     = min (count_list (rt_signatures r) sig + count_list (map fst ks) sig) (unat (rt_max_attempts r))"
proof (induction ks arbitrary: r)
  case Nil
  then show ?case by simp
next
  case (Cons k ks)
  let ?c = "count_list (rt_signatures r) (fst k)"
  have "?c \<le> 10" using Cons.prems le_trans by blast
  then have "unat (of_nat ?c :: u32) = ?c" by (simp add: unat_of_nat)
  moreover have "length (filter ((=) (fst k)) (rt_signatures r)) = ?c"
    by (simp add: count_list_eq_length_filter)
  ultimately have al: "RetryPolicy_allows (fst k) r \<longleftrightarrow> ?c < unat (rt_max_attempts r)"
    by (simp only: RetryPolicy_allows_def word_less_nat_alt)
  show ?case
  proof (cases "?c < unat (rt_max_attempts r)")
    case True
    then have st: "retry_step k r = r\<lparr>rt_signatures := rt_signatures r @ [fst k]\<rparr>"
      using al by (simp add: retry_step_def RetryPolicy_record_def)
    have "\<forall>s. count_list (rt_signatures (retry_step k r)) s \<le> unat (rt_max_attempts (retry_step k r))"
      using Cons.prems(2) True by (simp add: st)
    then show ?thesis using Cons.IH [of "retry_step k r"] Cons.prems(1) by (simp add: st)
  next
    case False
    then have st: "retry_step k r = r"
      using al by (simp add: retry_step_def RetryPolicy_record_def)
    have "?c = unat (rt_max_attempts r)" using False Cons.prems(2) by (metis le_neq_implies_less)
    then show ?thesis using Cons.IH [OF Cons.prems] by (auto simp: st)
  qed
qed

section \<open>Properties\<close>

text \<open>
  C22: A bug that reached DONE has passed every gate, whatever the order the operations were called in:
  its reproduction is backed by evidence, its patch plan is for the subsystem of the report and has the name of that
  subsystem as one segment of every path it touches (at any place in the path, which is less than the documented root
  at its start, see \<open>scope_any_segment\<close>), the validation has a result, and the review was approved by someone other than the planner, with the
  performance note of the two highest priorities and the security note of the sensitive subsystems.
\<close>

theorem done_passed_every_gate:
  "(let w = run bug_step xs (BugWorkflow_new rep) in
     if bw_stage w = StDone
     then (case (bw_reproduction w, bw_patch_plan w, bw_validation_result w, bw_review w) of
             (Some r, Some p, Some t, Some v) \<Rightarrow>
               evidence_backed r \<and> patch_ok rep p \<and> trim t \<noteq> [] \<and> review_ok rep v
           | _ \<Rightarrow> False)
     else True)"
proof -
  have "flow_inv rep (run bug_step xs (BugWorkflow_new rep))"
    by (rule bug_flow.run_inv [OF flow_inv_new])
  then show ?thesis by (auto simp: Let_def flow_inv_def)
qed

text \<open>
  The workflow is bounded: at most eight transitions are ever accepted, each leaves one entry in the
  audit, and after DONE or BLOCKED none is accepted and the stage stays.
\<close>

theorem workflow_bounded:
  "(let w = run bug_step xs (BugWorkflow_new rep) in
     accepted_steps xs (BugWorkflow_new rep) = length (bw_audit w) \<and> length (bw_audit w) \<le> 8
     \<and> (if is_terminal w
        then accepted_steps ys w = 0 \<and> bw_stage (run bug_step ys w) = bw_stage w else True))"
proof -
  let ?w = "run bug_step xs (BugWorkflow_new rep)"
  have "flow_inv rep ?w" by (rule bug_flow.run_inv [OF flow_inv_new])
  then have "length (bw_audit ?w) \<le> 8"
    using stage_rank_le [of "bw_stage ?w"] by (auto simp: flow_inv_def)
  moreover have "bw_audit (BugWorkflow_new rep) = []" by (simp add: BugWorkflow_new_def)
  ultimately show ?thesis
    using audit_counts_accepted [of xs "BugWorkflow_new rep"] terminal_run [of ?w ys]
    by (simp add: Let_def)
qed

text \<open>
  Retries are bounded per signature: a policy accepts between 1 and 10 attempts, and after any
  sequence of attempts it has recorded for a signature as many as were made, or the bound if more
  were made.
\<close>

theorem retries_bounded:
  "(case with_max_attempts n RetryPolicy_default of
      Inl e \<Rightarrow> n = 0 \<or> 10 < n
    | Inr r \<Rightarrow> 0 < n \<and> n \<le> 10
        \<and> count_list (rt_signatures (run retry_step ks r)) sig = min (count_list (map fst ks) sig) (unat n))"
proof (cases "n = 0 \<or> 10 < n")
  case True
  then show ?thesis by (auto simp: with_max_attempts_def MAX_ALLOWED_RETRIES_def)
next
  case False
  let ?r = "RetryPolicy_default\<lparr>rt_max_attempts := n\<rparr>"
  have "unat n \<le> 10" using False by (simp add: not_less word_le_nat_alt)
  then have "count_list (rt_signatures (run retry_step ks ?r)) sig = min (count_list (map fst ks) sig) (unat n)"
    using retry_run [of ?r ks sig] by (simp add: RetryPolicy_default_def)
  then show ?thesis
    using False by (simp add: with_max_attempts_def MAX_ALLOWED_RETRIES_def not_less word_neq_0_conv)
qed

text \<open>
  A patch is in scope when a path has the name of the subsystem as any of its parts: a plan for the
  Lua subsystem may touch a file under the security sources.
\<close>

theorem scope_any_segment:
  "subsystem_scoped \<lparr>pp_subsystem = SubLua, pp_touched_paths = [''security/lua/vault.rs''],
     pp_summary = [], pp_validation_command = []\<rparr>"
  by code_simp

end
