(* ===== verification/BugRouter.thy ===== *)
theory BugRouter
  imports BugFlow
begin

text \<open>
  The priority router of \<open>wirecore/crates/wire-bug-automation/src/lib.rs\<close>. The orders of priorities and subsystems are the
  derived ones, that is the order of declaration.
\<close>

section \<open>Orders\<close>

fun priority_pos :: "Priority \<Rightarrow> nat" where
  "priority_pos P0 = 0" | "priority_pos P1 = 1" | "priority_pos P2 = 2" | "priority_pos P3 = 3"
| "priority_pos P4 = 4"

fun subsystem_pos :: "Subsystem \<Rightarrow> nat" where
  "subsystem_pos SubCore = 0" | "subsystem_pos SubNetwork = 1" | "subsystem_pos SubLua = 2"
| "subsystem_pos SubMapper = 3" | "subsystem_pos SubVoice = 4" | "subsystem_pos SubRenderer = 5"
| "subsystem_pos SubHeadless = 6" | "subsystem_pos SubProvider = 7" | "subsystem_pos SubUpdate = 8"
| "subsystem_pos SubPackage = 9" | "subsystem_pos SubSecurity = 10" | "subsystem_pos SubTelemetry = 11"
| "subsystem_pos SubBugAutomation = 12"

lemma priority_pos_inject: "priority_pos a = priority_pos b \<longleftrightarrow> a = b"
  by (cases a; cases b) simp_all

lemma subsystem_pos_inject: "subsystem_pos a = subsystem_pos b \<longleftrightarrow> a = b"
  by (cases a; cases b) simp_all

instantiation Priority :: linorder
begin

definition less_eq_Priority :: "Priority \<Rightarrow> Priority \<Rightarrow> bool" where
  "less_eq_Priority a b \<longleftrightarrow> priority_pos a \<le> priority_pos b"

definition less_Priority :: "Priority \<Rightarrow> Priority \<Rightarrow> bool" where
  "less_Priority a b \<longleftrightarrow> priority_pos a < priority_pos b"

instance
  by standard (auto simp: less_eq_Priority_def less_Priority_def priority_pos_inject)

end

instantiation Subsystem :: linorder
begin

definition less_eq_Subsystem :: "Subsystem \<Rightarrow> Subsystem \<Rightarrow> bool" where
  "less_eq_Subsystem a b \<longleftrightarrow> subsystem_pos a \<le> subsystem_pos b"

definition less_Subsystem :: "Subsystem \<Rightarrow> Subsystem \<Rightarrow> bool" where
  "less_Subsystem a b \<longleftrightarrow> subsystem_pos a < subsystem_pos b"

instance
  by standard (auto simp: less_eq_Subsystem_def less_Subsystem_def subsystem_pos_inject)

end

section \<open>The router\<close>

type_synonym ring = "(Subsystem \<times> string list) list"

record PriorityRouter =
  pr_rings :: "(Priority \<times> ring) list"

definition PriorityRouter_default :: PriorityRouter where
  "PriorityRouter_default = \<lparr>pr_rings = []\<rparr>"

text \<open>\<open>entry(k).or_default()\<close>.\<close>

definition or_default :: "('k \<times> 'a list) list \<Rightarrow> 'k \<Rightarrow> 'a list" where
  "or_default m k = (case map_of m k of None \<Rightarrow> [] | Some v \<Rightarrow> v)"

definition PriorityRouter_enqueue :: "BugReport \<Rightarrow> PriorityRouter \<Rightarrow> PriorityRouter" where
  "PriorityRouter_enqueue r rt =
     (let sub = or_default (pr_rings rt) (br_priority r) in
      rt\<lparr>pr_rings := bt_insert (br_priority r)
          (bt_insert (br_subsystem r) (or_default sub (br_subsystem r) @ [br_id r]) sub) (pr_rings rt)\<rparr>)"

text \<open>The first queue of a ring that has an element, in the order of the subsystems.\<close>

fun pop_first :: "ring \<Rightarrow> (string \<times> ring) option" where
  "pop_first [] = None"
| "pop_first ((s, q) # m) =
     (case q of
        i # q' \<Rightarrow> Some (i, (s, q') # m)
      | [] \<Rightarrow> map_option (\<lambda>(i, m'). (i, (s, q) # m')) (pop_first m))"

definition pop_ring :: "Subsystem option \<Rightarrow> ring \<Rightarrow> (string \<times> ring) option" where
  "pop_ring sub m =
     (case sub of
        None \<Rightarrow> pop_first m
      | Some s \<Rightarrow> (case or_default m s of [] \<Rightarrow> None | i # q \<Rightarrow> Some (i, AList.update s q m)))"

text \<open>The loop over the rings, which the code visits in reverse order.\<close>

fun next_ring :: "Subsystem option \<Rightarrow> (Priority \<times> ring) list \<Rightarrow> (string \<times> (Priority \<times> ring) list) option" where
  "next_ring sub [] = None"
| "next_ring sub ((p, m) # rs) =
     (case pop_ring sub m of
        Some (i, m') \<Rightarrow> Some (i, (p, m') # rs)
      | None \<Rightarrow> map_option (\<lambda>(i, rs'). (i, (p, m) # rs')) (next_ring sub rs))"

definition PriorityRouter_next :: "Subsystem option \<Rightarrow> PriorityRouter \<Rightarrow> string option \<times> PriorityRouter" where
  "PriorityRouter_next sub rt =
     (case next_ring sub (rev (pr_rings rt)) of
        None \<Rightarrow> (None, rt)
      | Some (i, rs) \<Rightarrow> (Some i, rt\<lparr>pr_rings := rev rs\<rparr>))"

definition PriorityRouter_pending :: "PriorityRouter \<Rightarrow> nat" where
  "PriorityRouter_pending rt = sum_list (map (\<lambda>(p, m). sum_list (map (\<lambda>(s, q). length q) m)) (pr_rings rt))"

section \<open>The queues the router stands for\<close>

definition ring_of :: "PriorityRouter \<Rightarrow> Priority \<times> Subsystem \<Rightarrow> string list" where
  "ring_of rt k = or_default (or_default (pr_rings rt) (fst k)) (snd k)"

datatype router_op = RtEnqueue BugReport | RtNext "Subsystem option"

fun router_step :: "router_op \<Rightarrow> PriorityRouter \<Rightarrow> PriorityRouter" where
  "router_step (RtEnqueue r) rt = PriorityRouter_enqueue r rt"
| "router_step (RtNext sub) rt = snd (PriorityRouter_next sub rt)"

definition router_inv :: "PriorityRouter \<Rightarrow> bool" where
  "router_inv rt \<longleftrightarrow> bt_sorted (pr_rings rt) \<and> (\<forall>p m. map_of (pr_rings rt) p = Some m \<longrightarrow> bt_sorted m)"

lemma or_default_insert [simp]: "or_default (bt_insert k v m) j = (if j = k then v else or_default m j)"
  by (simp add: or_default_def)

lemma or_default_update [simp]: "or_default (AList.update k v m) j = (if j = k then v else or_default m j)"
  by (simp add: or_default_def)

lemma or_default_sorted: "router_inv rt \<Longrightarrow> bt_sorted (or_default (pr_rings rt) p)"
  by (auto simp: or_default_def router_inv_def split: option.split)

lemma pop_first_None: "pop_first m = None \<longleftrightarrow> (\<forall>q \<in> snd ` set m. q = [])"
  by (induction m rule: pop_first.induct) (auto split: list.splits)

lemma pop_first_Some:
  "pop_first m = Some (i, m') \<Longrightarrow> bt_sorted m \<Longrightarrow>
    map fst m' = map fst m
    \<and> (\<exists>s q. or_default m s = i # q \<and> map_of m s \<noteq> None \<and> map_of m' = (map_of m)(s \<mapsto> q)
        \<and> (\<forall>s' < s. or_default m s' = []))"
proof (induction m arbitrary: m' rule: pop_first.induct)
  case (2 s q m)
  show ?case
  proof (cases q)
    case (Cons j q')
    have "or_default ((s, q) # m) s' = []" if "s' < s" for s'
    proof -
      have "s' \<notin> set (map fst m)" using "2.prems"(2) that by (auto dest: less_trans)
      then have "map_of m s' = None" by (simp add: map_of_eq_None_iff)
      then show ?thesis using that by (simp add: or_default_def)
    qed
    moreover have "j = i" "m' = (s, q') # m" using "2.prems"(1) Cons by auto
    moreover have "map_of ((s, q') # m) = (map_of ((s, q) # m))(s \<mapsto> q')" by (simp add: fun_eq_iff)
    moreover have "or_default ((s, q) # m) s = j # q'" using Cons by (simp add: or_default_def)
    ultimately show ?thesis by (intro conjI exI [of _ s] exI [of _ q']) (auto simp: fun_eq_iff)
  next
    case Nil
    then obtain m'' where m: "pop_first m = Some (i, m'')" "m' = (s, q) # m''"
      using "2.prems"(1) by auto
    have keys: "map fst m'' = map fst m" and "\<exists>t u. or_default m t = i # u \<and> map_of m t \<noteq> None
        \<and> map_of m'' = (map_of m)(t \<mapsto> u) \<and> (\<forall>s' < t. or_default m s' = [])"
      using "2.IH" [OF Nil m(1)] "2.prems"(2) by (simp_all only: list.map sorted_wrt.simps fst_conv)
    then obtain t u where t: "or_default m t = i # u" "map_of m t \<noteq> None"
        "map_of m'' = (map_of m)(t \<mapsto> u)" "\<forall>s' < t. or_default m s' = []" by blast
    have "s < t" using t(2) "2.prems"(2) by (force dest: map_of_SomeD)
    then have "s \<noteq> t" by simp
    have "or_default ((s, q) # m) s' = []" if "s' < t" for s'
      using t(4) that Nil by (simp add: or_default_def)
    then show ?thesis
      using m keys t \<open>s \<noteq> t\<close> by (auto simp: or_default_def fun_eq_iff intro!: exI [of _ t] exI [of _ u])
  qed
qed simp

text \<open>What taking from a ring does, for one subsystem or for any.\<close>

definition admits :: "Subsystem option \<Rightarrow> Subsystem \<Rightarrow> bool" where
  "admits sub s \<longleftrightarrow> (case sub of None \<Rightarrow> True | Some t \<Rightarrow> s = t)"

lemma pop_ring_None: "bt_sorted m \<Longrightarrow> pop_ring sub m = None \<Longrightarrow> admits sub s \<Longrightarrow> or_default m s = []"
  by (cases sub)
    (auto simp: pop_ring_def admits_def pop_first_None or_default_def image_iff
      split: list.splits option.splits dest!: map_of_SomeD)

lemma pop_ring_Some:
  "pop_ring sub m = Some (i, m') \<Longrightarrow> bt_sorted m \<Longrightarrow>
    map fst m' = map fst m
    \<and> (\<exists>s q. admits sub s \<and> or_default m s = i # q \<and> or_default m' = (or_default m)(s := q)
        \<and> (\<forall>s' < s. admits sub s' \<longrightarrow> or_default m s' = []))"
proof (cases sub)
  case None
  assume "pop_ring sub m = Some (i, m')" "bt_sorted m"
  then show ?thesis
    using pop_first_Some [of m i m'] None by (fastforce simp: pop_ring_def admits_def or_default_def fun_eq_iff)
next
  case (Some t)
  assume a: "pop_ring sub m = Some (i, m')" "bt_sorted m"
  then obtain q where q: "or_default m t = i # q" "m' = AList.update t q m"
    using Some by (auto simp: pop_ring_def split: list.splits)
  then have "map_of m t \<noteq> None" by (auto simp: or_default_def split: option.splits)
  then show ?thesis
    using q Some by (auto simp: keys_update_present admits_def fun_eq_iff intro!: exI [of _ t])
qed

lemma next_ring_Some:
  "next_ring sub rs = Some (i, rs') \<Longrightarrow> sorted_wrt (>) (map fst rs) \<Longrightarrow>
    map fst rs' = map fst rs
    \<and> (\<exists>p m m'. map_of rs p = Some m \<and> pop_ring sub m = Some (i, m') \<and> map_of rs' = (map_of rs)(p \<mapsto> m')
        \<and> (\<forall>p' n. p < p' \<longrightarrow> map_of rs p' = Some n \<longrightarrow> pop_ring sub n = None))"
proof (induction rs arbitrary: rs' rule: next_ring.induct)
  case (2 sub p m rs)
  show ?case
  proof (cases "pop_ring sub m")
    case (Some jm)
    obtain j m' where jm: "jm = (j, m')" by (cases jm)
    have "map_of rs p' = None" if "p < p'" for p'
      using "2.prems"(2) that by (auto simp: map_of_eq_None_iff)
    then show ?thesis using "2.prems"(1) Some jm by (auto intro!: exI [of _ p])
  next
    case None
    then obtain rs'' where r: "next_ring sub rs = Some (i, rs'')" "rs' = (p, m) # rs''"
      using "2.prems"(1) by auto
    have srt: "sorted_wrt (>) (map fst rs)" using "2.prems"(2) by simp
    have keys: "map fst rs'' = map fst rs" and "\<exists>t n n'. map_of rs t = Some n \<and> pop_ring sub n = Some (i, n')
        \<and> map_of rs'' = (map_of rs)(t \<mapsto> n')
        \<and> (\<forall>p' k. t < p' \<longrightarrow> map_of rs p' = Some k \<longrightarrow> pop_ring sub k = None)"
      using "2.IH" [OF None r(1) srt] by blast+
    then obtain t n n' where t: "map_of rs t = Some n" "pop_ring sub n = Some (i, n')"
        "map_of rs'' = (map_of rs)(t \<mapsto> n')"
        "\<And>p' k. t < p' \<Longrightarrow> map_of rs p' = Some k \<Longrightarrow> pop_ring sub k = None" by blast
    have "t < p" using t(1) "2.prems"(2) by (force dest: map_of_SomeD)
    moreover have "pop_ring sub k = None" if "t < p'" "map_of ((p, m) # rs) p' = Some k" for p' k
      using t(4) [of p' k] that None by (auto split: if_splits)
    moreover have "map_of ((p, m) # rs'') = (map_of ((p, m) # rs))(t \<mapsto> n')"
      using t(3) \<open>t < p\<close> by (auto simp: fun_eq_iff)
    ultimately show ?thesis
      using r keys t(1,2) by (intro conjI exI [of _ t] exI [of _ n] exI [of _ n']) auto
  qed
qed simp

lemma next_ring_None:
  "next_ring sub rs = None \<Longrightarrow> map_of rs p = Some m \<Longrightarrow> pop_ring sub m = None"
  by (induction rs rule: next_ring.induct) (auto split: option.splits if_splits)

lemma map_of_rev_sorted: "bt_sorted m \<Longrightarrow> map_of (rev m) = map_of m"
  by (subst map_of_inject_set) (simp_all add: strict_sorted_iff flip: rev_map)

lemma rev_sorted: "bt_sorted m \<Longrightarrow> sorted_wrt (>) (map fst (rev m))"
  by (simp add: sorted_wrt_rev flip: rev_map)

lemma next_None:
  assumes inv: "router_inv rt" and none: "next_ring sub (rev (pr_rings rt)) = None" and s: "admits sub s"
  shows "ring_of rt (p, s) = []"
proof (cases "map_of (pr_rings rt) p")
  case None
  then show ?thesis by (simp add: ring_of_def or_default_def)
next
  case (Some m)
  have "map_of (rev (pr_rings rt)) p = Some m"
    using inv Some by (simp add: map_of_rev_sorted router_inv_def)
  then have "pop_ring sub m = None" by (rule next_ring_None [OF none])
  then show ?thesis
    using pop_ring_None [OF _ _ s, of m] inv Some by (simp add: ring_of_def router_inv_def or_default_def)
qed

text \<open>One call of \<open>next\<close> takes the head of one queue, of the greatest priority that has one.\<close>

lemma next_Some:
  assumes inv: "router_inv rt" and some: "next_ring sub (rev (pr_rings rt)) = Some (i, rs)"
  shows "map fst (rev rs) = map fst (pr_rings rt)"
    and "\<exists>p s q. admits sub s \<and> ring_of rt (p, s) = i # q
      \<and> ring_of (rt\<lparr>pr_rings := rev rs\<rparr>) = (ring_of rt)((p, s) := q)
      \<and> (\<forall>p' s'. p < p' \<longrightarrow> admits sub s' \<longrightarrow> ring_of rt (p', s') = [])
      \<and> (\<forall>s'. s' < s \<longrightarrow> admits sub s' \<longrightarrow> ring_of rt (p, s') = [])
      \<and> router_inv (rt\<lparr>pr_rings := rev rs\<rparr>)"
proof -
  have srt: "bt_sorted (pr_rings rt)" using inv by (simp add: router_inv_def)
  have keys: "map fst rs = map fst (rev (pr_rings rt))"
    and "\<exists>p m m'. map_of (rev (pr_rings rt)) p = Some m \<and> pop_ring sub m = Some (i, m')
      \<and> map_of rs = (map_of (rev (pr_rings rt)))(p \<mapsto> m')
      \<and> (\<forall>p' n. p < p' \<longrightarrow> map_of (rev (pr_rings rt)) p' = Some n \<longrightarrow> pop_ring sub n = None)"
    using next_ring_Some [OF some rev_sorted [OF srt]] by blast+
  then obtain p m m' where m: "map_of (pr_rings rt) p = Some m" "pop_ring sub m = Some (i, m')"
      "map_of rs = (map_of (pr_rings rt))(p \<mapsto> m')"
      "\<And>p' n. p < p' \<Longrightarrow> map_of (pr_rings rt) p' = Some n \<Longrightarrow> pop_ring sub n = None"
    unfolding map_of_rev_sorted [OF srt] by blast
  show k: "map fst (rev rs) = map fst (pr_rings rt)" using keys by (simp add: rev_map flip: rev_map)
  have srt': "bt_sorted (rev rs)" unfolding k by (rule srt)
  have rs: "map_of (rev rs) = (map_of (pr_rings rt))(p \<mapsto> m')"
    using map_of_rev_sorted [OF srt'] m(3) by simp
  have sm: "bt_sorted m" using inv m(1) by (simp add: router_inv_def)
  have km: "map fst m' = map fst m" and "\<exists>s q. admits sub s \<and> or_default m s = i # q
      \<and> or_default m' = (or_default m)(s := q) \<and> (\<forall>s' < s. admits sub s' \<longrightarrow> or_default m s' = [])"
    using pop_ring_Some [OF m(2) sm] by blast+
  then obtain s q where s: "admits sub s" "or_default m s = i # q" "or_default m' = (or_default m)(s := q)"
      "\<And>s'. s' < s \<Longrightarrow> admits sub s' \<Longrightarrow> or_default m s' = []" by blast
  have m0: "or_default (pr_rings rt) p = m" using m(1) by (simp add: or_default_def)
  have upd: "or_default (rev rs) = (or_default (pr_rings rt))(p := m')"
    by (auto simp: or_default_def rs fun_eq_iff)
  have "ring_of (rt\<lparr>pr_rings := rev rs\<rparr>) = (ring_of rt)((p, s) := q)"
    by (auto simp: ring_of_def upd s(3) m0 fun_eq_iff)
  moreover have "ring_of rt (p', s') = []" if "p < p'" "admits sub s'" for p' s'
  proof (cases "map_of (pr_rings rt) p'")
    case (Some n)
    then show ?thesis
      using pop_ring_None [OF _ m(4) [OF that(1) Some] that(2)] inv
      by (simp add: ring_of_def or_default_def router_inv_def)
  qed (simp add: ring_of_def or_default_def)
  moreover have "router_inv (rt\<lparr>pr_rings := rev rs\<rparr>)"
    using inv srt' sm km by (auto simp: router_inv_def rs)
  ultimately show "\<exists>p s q. admits sub s \<and> ring_of rt (p, s) = i # q
      \<and> ring_of (rt\<lparr>pr_rings := rev rs\<rparr>) = (ring_of rt)((p, s) := q)
      \<and> (\<forall>p' s'. p < p' \<longrightarrow> admits sub s' \<longrightarrow> ring_of rt (p', s') = [])
      \<and> (\<forall>s'. s' < s \<longrightarrow> admits sub s' \<longrightarrow> ring_of rt (p, s') = [])
      \<and> router_inv (rt\<lparr>pr_rings := rev rs\<rparr>)"
    using s m0 by (intro exI [of _ p] exI [of _ s] exI [of _ q]) (auto simp: ring_of_def)
qed

lemma ring_of_enqueue:
  "ring_of (PriorityRouter_enqueue r rt)
    = (ring_of rt)((br_priority r, br_subsystem r) := ring_of rt (br_priority r, br_subsystem r) @ [br_id r])"
  by (auto simp: ring_of_def PriorityRouter_enqueue_def Let_def fun_eq_iff)

interpretation bug_router: machine_invariant router_step router_inv
proof
  fix rt :: PriorityRouter and x :: router_op
  assume inv: "router_inv rt"
  show "router_inv (router_step x rt)"
  proof (cases x)
    case (RtEnqueue r)
    then show ?thesis
      using inv or_default_sorted [OF inv, of "br_priority r"]
      by (auto simp: PriorityRouter_enqueue_def router_inv_def Let_def bt_sorted_insert)
  next
    case (RtNext sub)
    then show ?thesis
      using inv next_Some(2) [OF inv, of sub]
      by (auto simp: PriorityRouter_next_def split: option.split)
  qed
qed

lemma router_inv_default: "router_inv PriorityRouter_default"
  by (simp add: router_inv_def PriorityRouter_default_def)

lemma priority_pos_le: "priority_pos p \<le> 4"
  by (cases p) simp_all

lemma subsystem_pos_le: "subsystem_pos s \<le> 12"
  by (cases s) simp_all

lemma finite_keys: "finite (C :: (Priority \<times> Subsystem) set)"
proof -
  have "finite (range priority_pos)" and "finite (range subsystem_pos)"
    using priority_pos_le subsystem_pos_le by (auto simp: finite_nat_set_iff_bounded_le)
  then have "finite (UNIV :: Priority set)" and "finite (UNIV :: Subsystem set)"
    by (auto intro: finite_imageD simp: inj_on_def priority_pos_inject subsystem_pos_inject)
  then have "finite (UNIV :: (Priority \<times> Subsystem) set)" by (simp add: finite_prod)
  then show ?thesis by (rule finite_subset [OF subset_UNIV])
qed

lemma next_Some_key:
  assumes inv: "router_inv rt" and some: "next_ring sub (rev (pr_rings rt)) = Some (i, rs)"
    and C: "C = {k. admits sub (snd k) \<and> ring_of rt k \<noteq> []}"
    and p: "p = Max (fst ` C)" and s: "s = Min {s. (p, s) \<in> C}"
  shows "ring_of rt (p, s) = i # tl (ring_of rt (p, s))
    \<and> ring_of (rt\<lparr>pr_rings := rev rs\<rparr>) = (ring_of rt)((p, s) := tl (ring_of rt (p, s)))"
proof -
  obtain p' s' q where k: "admits sub s'" "ring_of rt (p', s') = i # q"
      "ring_of (rt\<lparr>pr_rings := rev rs\<rparr>) = (ring_of rt)((p', s') := q)"
      "\<And>a b. p' < a \<Longrightarrow> admits sub b \<Longrightarrow> ring_of rt (a, b) = []"
      "\<And>b. b < s' \<Longrightarrow> admits sub b \<Longrightarrow> ring_of rt (p', b) = []"
    using next_Some(2) [OF inv some] by blast
  have m: "(p', s') \<in> C" using k(1,2) by (simp add: C)
  have "p = p'" unfolding p
  proof (rule Max_eqI)
    fix a assume "a \<in> fst ` C"
    then obtain b where "(a, b) \<in> C" by auto
    then show "a \<le> p'" using k(4) [of a b] by (force simp: C not_le)
  next
    show "p' \<in> fst ` C" using m by force
  qed (simp add: finite_keys)
  moreover have "s = s'" unfolding s \<open>p = p'\<close>
  proof (rule Min_eqI)
    show "finite {s. (p', s) \<in> C}" by (rule finite_subset [of _ "snd ` C"]) (force simp: finite_keys)+
  next
    fix b assume "b \<in> {s. (p', s) \<in> C}"
    then show "s' \<le> b" using k(5) [of b] by (force simp: C not_le)
  qed (use m in simp)
  ultimately show ?thesis using k(2,3) by simp
qed

lemma p4_round:
  assumes inv: "router_inv rt" and ring: "ring_of rt = (\<lambda>k. [])((P0, s) := [i])" and x: "br_priority x = P4"
  shows "ring_of (run router_step [RtEnqueue x, RtNext None] rt) = (\<lambda>k. [])((P0, s) := [i])"
proof -
  let ?rt = "PriorityRouter_enqueue x rt"
  have inv': "router_inv ?rt" using bug_router.step_inv [OF inv, of "RtEnqueue x"] by simp
  have r: "ring_of ?rt = (\<lambda>k. [])((P0, s) := [i], (P4, br_subsystem x) := [br_id x])"
    by (simp add: ring_of_enqueue ring x)
  obtain j rs where some: "next_ring None (rev (pr_rings ?rt)) = Some (j, rs)"
    using next_None [OF inv', of None "br_subsystem x" P4] r
    by (cases "next_ring None (rev (pr_rings ?rt))") (auto simp: admits_def)
  obtain p t q where k: "ring_of ?rt (p, t) = j # q"
      "ring_of (?rt\<lparr>pr_rings := rev rs\<rparr>) = (ring_of ?rt)((p, t) := q)"
      "\<And>a b. p < a \<Longrightarrow> admits None b \<Longrightarrow> ring_of ?rt (a, b) = []"
    using next_Some(2) [OF inv' some] by blast
  have "\<not> p < P4" using k(3) [of P4 "br_subsystem x"] r by (auto simp: admits_def)
  then have "(p, t) = (P4, br_subsystem x)" "q = []"
    using k(1) by (auto simp: r less_Priority_def split: if_splits)
  then show ?thesis using k(2) some by (simp add: PriorityRouter_next_def r fun_eq_iff)
qed

section \<open>Properties of the router\<close>

text \<open>
  What \<open>next\<close> serves. It returns nothing exactly when no queue it may look at has a bug; otherwise
  it takes the head of one queue and leaves all the others: that of the greatest priority in the
  declared order, P4, which is the least urgent, and in it that of the first subsystem.
\<close>

theorem router_next_spec:
  "(let rt = run router_step xs PriorityRouter_default;
        C = {k. admits sub (snd k) \<and> ring_of rt k \<noteq> []};
        p = Max (fst ` C); s = Min {s. (p, s) \<in> C} in
     case PriorityRouter_next sub rt of
       (None, rt') \<Rightarrow> rt' = rt \<and> C = {}
     | (Some i, rt') \<Rightarrow> ring_of rt (p, s) = i # tl (ring_of rt (p, s))
         \<and> ring_of rt' = (ring_of rt)((p, s) := tl (ring_of rt (p, s))))"
proof -
  let ?rt = "run router_step xs PriorityRouter_default"
  have inv: "router_inv ?rt" by (rule bug_router.run_inv [OF router_inv_default])
  show ?thesis
  proof (cases "next_ring sub (rev (pr_rings ?rt))")
    case None
    then show ?thesis
      using next_None [OF inv None] by (auto simp: PriorityRouter_next_def Let_def)
  next
    case (Some irs)
    obtain i rs where irs: "irs = (i, rs)" by (cases irs)
    show ?thesis
      using next_Some_key [OF inv Some [unfolded irs] refl refl refl] Some irs
      by (simp add: PriorityRouter_next_def Let_def)
  qed
qed

text \<open>
  The most urgent bug starves: while bugs of the least urgent priority keep coming, one before every
  call of \<open>next\<close>, a P0 bug is never handed out; after any number of rounds all the others have
  been, and it is the only one that waits.
\<close>

theorem p0_starved:
  "ring_of (run router_step (RtEnqueue (r\<lparr>br_priority := P0\<rparr>)
       # concat (map (\<lambda>x. [RtEnqueue (x\<lparr>br_priority := P4\<rparr>), RtNext None]) rs)) PriorityRouter_default)
   = (\<lambda>k. [])((P0, br_subsystem r) := [br_id r])"
proof -
  let ?two = "\<lambda>x. [RtEnqueue (x\<lparr>br_priority := P4\<rparr>), RtNext None]"
  have "ring_of (run router_step (concat (map ?two rs)) rt) = (\<lambda>k. [])((P0, s) := [i])"
    if "router_inv rt" "ring_of rt = (\<lambda>k. [])((P0, s) := [i])" for rt s i
    using that
  proof (induction rs arbitrary: rt)
    case (Cons x rs)
    have "run router_step (concat (map ?two (x # rs))) rt
        = run router_step (concat (map ?two rs)) (run router_step (?two x) rt)"
      unfolding list.map concat.simps run_append ..
    then show ?case
      using Cons.IH [OF bug_router.run_inv [OF Cons.prems(1), of "?two x"]
          p4_round [OF Cons.prems, of "x\<lparr>br_priority := P4\<rparr>"]]
      by simp
  qed simp
  moreover have "ring_of (PriorityRouter_enqueue (r\<lparr>br_priority := P0\<rparr>) PriorityRouter_default)
      = (\<lambda>k. [])((P0, br_subsystem r) := [br_id r])"
    by (simp add: ring_of_enqueue) (simp add: ring_of_def PriorityRouter_default_def or_default_def fun_eq_iff)
  moreover have "router_inv (PriorityRouter_enqueue (r\<lparr>br_priority := P0\<rparr>) PriorityRouter_default)"
    using bug_router.step_inv [OF router_inv_default, of "RtEnqueue (r\<lparr>br_priority := P0\<rparr>)"] by simp
  ultimately show ?thesis by simp
qed

end
