(* ===== verification/Scan.thy ===== *)
theory Scan
  imports Prelude
begin

text \<open>
  Searching a text for the earliest of several markers, and the redaction loop that
  \<open>wirecore/crates/wire-telemetry/src/lib.rs\<close> and \<open>wirecore/crates/wire-replay/src/lib.rs\<close> share word
  for word as \<open>Redactor::redact_text\<close>. The redaction of bug reports uses the same search.
\<close>

section \<open>Numbers\<close>

text \<open>\<open>{:016x}\<close>: sixteen hexadecimal digits.\<close>

definition hex16 :: "u64 \<Rightarrow> string" where
  "hex16 n = map (\<lambda>i. hex_digit (unat n div 16 ^ i mod 16)) (rev [0..<16])"

text \<open>The 64-bit FNV-1a hash of the bytes of a text.\<close>

definition fnv1a :: "string \<Rightarrow> u64" where
  "fnv1a s = foldl (\<lambda>h b. xor h (of_char b) * 1099511628211) 1469598103934665603 s"

section \<open>The earliest marker\<close>

text \<open>\<open>str::find\<close> of a text: the first position at which it occurs.\<close>

fun find_text :: "string \<Rightarrow> string \<Rightarrow> nat option" where
  "find_text [] k = (if k = [] then Some 0 else None)"
| "find_text (c # cs) k = (if prefix k (c # cs) then Some 0 else map_option Suc (find_text cs k))"

text \<open>
  The loop over the markers: it keeps the earliest match, and of those at one position the first of
  the list.
\<close>

definition earliest :: "string list \<Rightarrow> string \<Rightarrow> (nat \<times> string) option" where
  "earliest ks rest =
     foldl (\<lambda>matched k.
       case find_text rest k of
         None \<Rightarrow> matched
       | Some pos \<Rightarrow> if (case matched of None \<Rightarrow> True | Some (p, _) \<Rightarrow> pos < p) then Some (pos, k) else matched)
     None ks"

lemma earliest_snoc:
  "earliest (ks @ [k]) s =
     (case find_text s k of
        None \<Rightarrow> earliest ks s
      | Some pos \<Rightarrow> if (case earliest ks s of None \<Rightarrow> True | Some (p, _) \<Rightarrow> pos < p) then Some (pos, k)
          else earliest ks s)"
  unfolding earliest_def by simp

lemma find_text_bound: "find_text s k = Some p \<Longrightarrow> p + length k \<le> length s"
  by (induction s arbitrary: p) (auto split: if_splits dest: prefix_length_le)

lemma find_text_None: "find_text s k = None \<longleftrightarrow> \<not> str_contains s k"
  by (induction s) auto

lemma find_text_first: "find_text s k = Some q \<Longrightarrow> k \<noteq> [] \<Longrightarrow> p \<le> q \<Longrightarrow> \<not> str_contains (take p s) k"
proof (induction s arbitrary: p q)
  case (Cons c cs)
  show ?case
  proof (cases "prefix k (c # cs)")
    case True
    then show ?thesis using Cons.prems by simp
  next
    case False
    then obtain q' where q': "find_text cs k = Some q'" "q = Suc q'" using Cons.prems(1) by auto
    show ?thesis
    proof (cases p)
      case 0
      then show ?thesis using Cons.prems(2) by simp
    next
      case (Suc p')
      have "\<not> str_contains (take p' cs) k" using Cons.IH [OF q'(1) Cons.prems(2)] Suc q'(2) Cons.prems(3) by simp
      moreover have "\<not> prefix k (c # take p' cs)"
        using False prefix_order.order_trans [OF _ take_is_prefix [of "Suc p'" "c # cs"]] by auto
      ultimately show ?thesis using Suc by simp
    qed
  qed
qed simp

lemma earliest_mem: "earliest ks s = Some (p, k) \<Longrightarrow> k \<in> set ks \<and> find_text s k = Some p"
proof (induction ks arbitrary: p k rule: rev_induct)
  case (snoc x ks)
  then show ?case by (auto simp: earliest_snoc split: option.splits if_splits)
qed (simp add: earliest_def)

lemma earliest_None: "earliest ks s = None \<longleftrightarrow> (\<forall>k \<in> set ks. \<not> str_contains s k)"
proof (induction ks rule: rev_induct)
  case (snoc x ks)
  then show ?case by (auto simp: earliest_snoc find_text_None [symmetric] split: option.splits if_splits)
qed (simp add: earliest_def)

lemma earliest_le: "earliest ks s = Some (p, k) \<Longrightarrow> j \<in> set ks \<Longrightarrow> find_text s j = Some q \<Longrightarrow> p \<le> q"
proof (induction ks arbitrary: p k rule: rev_induct)
  case (snoc x ks)
  show ?case
  proof (cases "find_text s x")
    case None
    then have "earliest ks s = Some (p, k)" "j \<in> set ks"
      using snoc.prems by (auto simp: earliest_snoc)
    then show ?thesis using snoc.IH snoc.prems(3) by blast
  next
    case (Some pos)
    show ?thesis
    proof (cases "earliest ks s")
      case None
      then have "\<forall>i \<in> set ks. find_text s i = None" 
        by (simp add: earliest_None find_text_None)
      then show ?thesis using snoc.prems Some None by (auto simp: earliest_snoc)
    next
      case (Some pk)
      obtain p' k' where pk: "pk = (p', k')" by (cases pk)
      have le: "p \<le> p'" "p \<le> pos" "p = p' \<or> p = pos"
        using snoc.prems(1) Some pk \<open>find_text s x = Some pos\<close> by (auto simp: earliest_snoc split: if_splits)
      show ?thesis
      proof (cases "j = x")
        case True
        then show ?thesis using le snoc.prems(3) \<open>find_text s x = Some pos\<close> by simp
      next
        case False
        then have "p' \<le> q" using snoc.IH [of p' k'] snoc.prems(2,3) Some pk by simp
        then show ?thesis using le by simp
      qed
    qed
  qed
qed simp

lemma earliest_before:
  "earliest ks s = Some (p, k) \<Longrightarrow> j \<in> set ks \<Longrightarrow> j \<noteq> [] \<Longrightarrow> \<not> str_contains (take p s) j"
proof (cases "find_text s j")
  case None
  then have "\<not> sublist j s" by (simp add: find_text_None str_contains_iff)
  then show ?thesis
    using sublist_order.order_trans [of j "take p s" s] by (auto simp: str_contains_iff)
next
  case (Some q)
  assume "earliest ks s = Some (p, k)" "j \<in> set ks" "j \<noteq> []"
  then show ?thesis using find_text_first [OF Some] earliest_le [of ks s p k j q] Some by blast
qed

lemma earliest_Nil: "list_all (\<lambda>k. k \<noteq> []) ks \<Longrightarrow> earliest ks [] = None"
  by (auto simp: earliest_None list_all_iff)

lemma earliest_Cons:
  "earliest ks (c # cs) =
     (case find (\<lambda>k. prefix k (c # cs)) ks of
        Some k \<Rightarrow> Some (0, k)
      | None \<Rightarrow> map_option (\<lambda>(p, k). (Suc p, k)) (earliest ks cs))"
proof (induction ks rule: rev_induct)
  case (snoc k ks)
  have fnd: "find Q (ks @ [k]) = (case find Q ks of None \<Rightarrow> if Q k then Some k else None | Some x \<Rightarrow> Some x)" for Q
    by (induction ks) auto
  show ?case
    unfolding earliest_snoc fnd snoc.IH find_text.simps by (auto split: option.splits)
qed (simp add: earliest_def)

section \<open>The redaction loop\<close>

definition is_gap :: "char \<Rightarrow> bool" where
  "is_gap c \<longleftrightarrow> c = CHR ''='' \<or> c = CHR '':'' \<or> c = CHR '' ''"

definition is_sentence_end :: "char \<Rightarrow> bool" where
  "is_sentence_end c \<longleftrightarrow> c = CHR ''.'' \<or> c = CHR ''!'' \<or> c = CHR ''?'' \<or> c = CHR 0x0A \<or> c = CHR 0x0D"

text \<open>What is left after a marker: the gap and the value up to the end of the sentence are consumed.\<close>

definition after_value :: "string \<Rightarrow> string" where
  "after_value s = dropWhile (\<lambda>c. \<not> is_sentence_end c) (dropWhile is_gap s)"

text \<open>
  The loop over the text that is left. It does not end for every corpus, so its result is an option
  and \<open>None\<close> stands for a loop that runs forever.
\<close>

partial_function (option) scrub :: "string list \<Rightarrow> string \<Rightarrow> string option" where
  "scrub corpus rest =
     (if rest = [] then Some []
      else
        (case earliest (map to_lower corpus) (to_lower rest) of
           None \<Rightarrow> Some rest
         | Some (m_idx, m) \<Rightarrow>
             Option.bind (scrub corpus (after_value (drop (m_idx + length m) rest)))
               (\<lambda>out. Some (take m_idx rest @ ''[REDACTED]'' @ out))))"

lemma to_lower_append: "to_lower (a @ b) = to_lower a @ to_lower b"
  by (simp add: to_lower_def)

lemma take_to_lower: "take n (to_lower s) = to_lower (take n s)"
  by (simp add: to_lower_def take_map)

lemma length_to_lower: "length (to_lower s) = length s"
  by (simp add: to_lower_def)

lemma length_after_value: "length (after_value s) \<le> length s"
  unfolding after_value_def using length_dropWhile_le order_trans by blast

text \<open>A marker that cannot overlap the replacement: neither bracket in it, and not a part of it.\<close>

definition proper_marker :: "string \<Rightarrow> bool" where
  "proper_marker m \<longleftrightarrow> apart (to_lower m) ''[redacted]''"

lemma apart_around:
  assumes "apart v r" and "\<not> str_contains a v" and "\<not> str_contains b v"
  shows "\<not> str_contains (a @ r @ b) v"
proof
  assume "str_contains (a @ r @ b) v"
  then consider "sublist v a" | "sublist v (r @ b)" | xs1 xs2 where "v = xs1 @ xs2" "suffix xs1 a" "prefix xs2 (r @ b)"
    by (auto simp: str_contains_iff sublist_append)
  then show False
  proof cases
    case 1
    then show False using assms(2) by (simp add: str_contains_iff)
  next
    case 2
    then show False using str_contains_after [OF assms(1), of b] assms(3) by (simp add: str_contains_iff)
  next
    case 3
    have "xs2 = []"
    proof (rule ccontr)
      assume ne: "xs2 \<noteq> []"
      then have "hd xs2 = hd r" using 3(3) assms(1) by (cases xs2; cases r) (auto simp: apart_def)
      moreover have "hd xs2 \<in> set xs2" using ne by simp
      ultimately show False using assms(1) 3(1) by (auto simp: apart_def)
    qed
    then show False using 3 assms(2) by (auto simp: str_contains_iff)
  qed
qed

lemma scrub_clean:
  "list_all proper_marker corpus \<Longrightarrow>
    \<exists>out. scrub corpus rest = Some out \<and> list_all (\<lambda>m. \<not> str_contains (to_lower out) (to_lower m)) corpus"
proof (induction "length rest" arbitrary: rest rule: less_induct)
  case less
  have ne: "to_lower m \<noteq> []" if "m \<in> set corpus" for m
    using less.prems that by (auto simp: list_all_iff proper_marker_def apart_def)
  show ?case
  proof (cases "rest = []")
    case True
    have "scrub corpus rest = Some []" by (subst scrub.simps) (simp add: True)
    then show ?thesis using ne by (auto simp: list_all_iff to_lower_def)
  next
    case False
    show ?thesis
    proof (cases "earliest (map to_lower corpus) (to_lower rest)")
      case None
      then have "scrub corpus rest = Some rest" by (subst scrub.simps) (simp add: False)
      then show ?thesis using None by (auto simp: earliest_None list_all_iff)
    next
      case (Some ik)
      obtain i k where ik: "ik = (i, k)" by (cases ik)
      note e = Some [unfolded ik]
      have k: "k \<noteq> []" "i + length k \<le> length rest"
        using earliest_mem [OF e] find_text_bound [of "to_lower rest" k i] ne by (auto simp: length_to_lower)
      let ?after = "after_value (drop (i + length k) rest)"
      have "length ?after \<le> length (drop (i + length k) rest)" by (rule length_after_value)
      also have "\<dots> < length rest" using k by (cases k) auto
      finally obtain out where out: "scrub corpus ?after = Some out"
          "list_all (\<lambda>m. \<not> str_contains (to_lower out) (to_lower m)) corpus"
        using less.hyps less.prems by blast
      have "scrub corpus rest = Some (take i rest @ ''[REDACTED]'' @ out)"
        by (subst scrub.simps) (simp add: False e out(1))
      moreover have "\<not> str_contains (to_lower (take i rest @ ''[REDACTED]'' @ out)) (to_lower m)"
        if m: "m \<in> set corpus" for m
      proof -
        have "to_lower ''[REDACTED]'' = ''[redacted]''" by code_simp
        moreover have "\<not> str_contains (to_lower (take i rest)) (to_lower m)"
          using earliest_before [OF e, of "to_lower m"] ne [OF m] m by (simp add: take_to_lower)
        moreover have "\<not> str_contains (to_lower out) (to_lower m)" "apart (to_lower m) ''[redacted]''"
          using out(2) less.prems m by (simp_all add: list_all_iff proper_marker_def)
        ultimately show ?thesis unfolding to_lower_append by (metis apart_around)
      qed
      ultimately show ?thesis by (auto simp: list_all_iff)
    qed
  qed
qed

text \<open>An empty marker stops the loop from advancing past the end of a sentence.\<close>

lemma scrub_stuck:
  assumes "scrub corpus rest = Some out"
  shows "corpus = [''''] \<Longrightarrow> rest \<noteq> [] \<Longrightarrow> is_sentence_end (hd rest) \<Longrightarrow> False"
  using assms
proof (induction rule: scrub.raw_induct [rotated 1, consumes 1, case_names step])
  case (step f corpus rest out)
  obtain c cs where r: "rest = c # cs" using step.prems by (cases rest) auto
  have "earliest (map to_lower corpus) (to_lower rest) = Some (0, [])"
    using step.prems r by (simp add: earliest_def to_lower_def)
  moreover have "after_value (drop 0 rest) = rest"
    using step.prems r by (auto simp: after_value_def is_sentence_end_def is_gap_def)
  ultimately obtain out' where "f corpus rest = Some out'"
    using step.hyps r by (auto simp: bind_eq_Some_conv)
  then show ?case using step.IH step.prems by blast
qed

lemma scrub_diverges: "scrub [''''] (''.'' @ s) = None"
  using scrub_stuck [of "['''']" "''.'' @ s"] by (cases "scrub [''''] (''.'' @ s)") (simp_all add: is_sentence_end_def)

end
