(* ===== verification/BugIntake.thy ===== *)
theory BugIntake
  imports Scan
begin

text \<open>
  The intake of bug reports, from \<open>wirecore/crates/wire-bug-automation/src/lib.rs\<close>: the redaction of
  descriptions and the fingerprint. SHA-256 is a parameter, a function from text to bytes.
\<close>

section \<open>Redaction\<close>

definition markers :: "string list" where
  "markers = [''password='', ''token='', ''api_key='', ''secret='', ''Bearer '',
     ''password'', ''token'', ''api_key'', ''secret'']"

definition is_word :: "char \<Rightarrow> bool" where
  "is_word c \<longleftrightarrow> (48 \<le> (of_char c :: nat) \<and> (of_char c :: nat) \<le> 57)
     \<or> (65 \<le> (of_char c :: nat) \<and> (of_char c :: nat) \<le> 90)
     \<or> (97 \<le> (of_char c :: nat) \<and> (of_char c :: nat) \<le> 122) \<or> c = CHR ''_''"

definition is_stop :: "char \<Rightarrow> bool" where
  "is_stop c \<longleftrightarrow> c = CHR ''.'' \<or> c = CHR 0x0A \<or> c = CHR 0x0D"

text \<open>The inner loop.\<close>

definition first_marker :: "string \<Rightarrow> (nat \<times> string) option" where
  "first_marker rest = earliest markers rest"

definition boundary_ok :: "string \<Rightarrow> string \<Rightarrow> bool" where
  "boundary_ok marker after \<longleftrightarrow>
     \<not> is_word (last marker) \<or> (case after of [] \<Rightarrow> True | c # _ \<Rightarrow> \<not> is_word c)"

lemma markers_nonempty: "k \<in> set markers \<Longrightarrow> k \<noteq> []"
  by (auto simp: markers_def)

lemma first_marker_decreases:
  "first_marker s = Some (p, k) \<Longrightarrow> p + length k \<le> length s \<and> 0 < length k"
  by (auto simp: first_marker_def dest!: earliest_mem dest: find_text_bound markers_nonempty)

function redact :: "string \<Rightarrow> string" where
  "redact rest =
     (case first_marker rest of
        None \<Rightarrow> rest
      | Some (pos, marker) \<Rightarrow>
          let after = drop (pos + length marker) rest in
          if boundary_ok marker after
          then take pos rest @ ''[REDACTED]'' @ redact (dropWhile (\<lambda>c. \<not> is_stop c) after)
          else take (pos + length marker) rest @ redact after)"
  by pat_completeness auto
termination
proof (relation "measure length")
  fix rest pm pos marker after
  assume m: "first_marker rest = Some pm" "(pos, marker) = pm"
    and a: "after = drop (pos + length marker) rest"
  have "pos + length marker \<le> length rest" and "0 < length marker"
    using first_marker_decreases [of rest pos marker] m by simp_all
  then have less: "length after < length rest" unfolding a length_drop by linarith
  then show "(after, rest) \<in> measure length" by simp
  have "length (dropWhile (\<lambda>c. \<not> is_stop c) after) \<le> length after" by (rule length_dropWhile_le)
  with less show "(dropWhile (\<lambda>c. \<not> is_stop c) after, rest) \<in> measure length" by simp
qed simp

declare redact.simps [simp del]

section \<open>Redaction in one pass\<close>

text \<open>
  What redaction does, read from left to right: at each position the first marker of the list that
  starts there decides; where none does, one character is kept.
\<close>

function redact_scan :: "string \<Rightarrow> string" where
  "redact_scan [] = []"
| "redact_scan (c # cs) =
     (case find (\<lambda>k. prefix k (c # cs)) markers of
        None \<Rightarrow> c # redact_scan cs
      | Some k \<Rightarrow>
          let after = drop (length k) (c # cs) in
          if boundary_ok k after then ''[REDACTED]'' @ redact_scan (dropWhile (\<lambda>c. \<not> is_stop c) after)
          else k @ redact_scan after)"
  by pat_completeness auto
termination
proof (relation "measure length")
  fix c cs k after
  assume "find (\<lambda>k. prefix k (c # cs)) markers = Some k" and a: "after = drop (length k) (c # cs)"
  then have "0 < length k" using markers_nonempty by (auto simp: find_Some_iff)
  then have less: "length after < length (c # cs)" by (simp add: a)
  then show "(after, c # cs) \<in> measure length" by simp
  have "length (dropWhile (\<lambda>c. \<not> is_stop c) after) \<le> length after" by (rule length_dropWhile_le)
  with less show "(dropWhile (\<lambda>c. \<not> is_stop c) after, c # cs) \<in> measure length" by simp
qed simp_all

declare redact_scan.simps(2) [simp del]

lemma redact_Nil: "redact [] = []"
proof -
  have "list_all (\<lambda>k. k \<noteq> []) markers" by (simp add: markers_def)
  from earliest_Nil [OF this] show ?thesis by (simp add: redact.simps first_marker_def)
qed

lemma redact_Cons:
  "redact (c # cs) =
     (case find (\<lambda>k. prefix k (c # cs)) markers of
        None \<Rightarrow> c # redact cs
      | Some k \<Rightarrow>
          let after = drop (length k) (c # cs) in
          if boundary_ok k after then ''[REDACTED]'' @ redact (dropWhile (\<lambda>c. \<not> is_stop c) after)
          else k @ redact after)"
proof (cases "find (\<lambda>k. prefix k (c # cs)) markers")
  case None
  then have "first_marker (c # cs) = map_option (\<lambda>(p, k). (Suc p, k)) (first_marker cs)"
    by (simp add: first_marker_def earliest_Cons)
  then show ?thesis
    using None by (subst (1 2) redact.simps) (auto simp: Let_def split: option.split)
next
  case (Some k)
  then have "first_marker (c # cs) = Some (0, k)" by (simp add: first_marker_def earliest_Cons)
  moreover have "take (length k) (c # cs) = k"
    using Some by (auto simp: find_Some_iff prefix_def)
  ultimately show ?thesis
    using Some by (subst redact.simps) (simp add: Let_def)
qed

lemma redact_is_scan: "redact s = redact_scan s"
proof (induction s rule: redact_scan.induct)
  case (2 c cs)
  then show ?case
    by (auto simp: redact_Cons [of c cs] redact_scan.simps(2) Let_def split: option.split)
qed (simp add: redact_Nil)

section \<open>Where markers end\<close>

text \<open>All characters of a marker but its last are word characters, and none is a stop.\<close>

lemma markers_words: "k \<in> set markers \<Longrightarrow> list_all is_word (butlast k)"
  by (simp add: markers_def) (elim disjE; simp add: is_word_def)

lemma markers_no_stop: "k \<in> set markers \<Longrightarrow> list_all (\<lambda>c. \<not> is_stop c) k"
  by (simp add: markers_def) (elim disjE; simp add: is_stop_def)

lemma marker_inside:
  assumes k: "k \<in> set markers" and pre: "pre \<noteq> []" "\<not> is_word (last pre)"
  shows "prefix k (pre @ x) \<longleftrightarrow> prefix k pre"
proof
  assume p: "prefix k (pre @ x)"
  show "prefix k pre"
  proof (rule ccontr)
    assume "\<not> prefix k pre"
    then obtain us where us: "k = pre @ us" "us \<noteq> []"
      using p by (auto simp: prefix_append)
    then have "last pre \<in> set (butlast k)" using pre(1) by (simp add: butlast_append)
    then show False using markers_words [OF k] pre(2) by (auto simp: list_all_iff)
  qed
qed (rule prefix_prefix)

lemma find_markers_inside:
  assumes "pre \<noteq> []" "\<not> is_word (last pre)"
  shows "find (\<lambda>k. prefix k (pre @ x)) markers = find (\<lambda>k. prefix k pre) markers"
  by (rule find_cong) (simp_all add: marker_inside [OF _ assms])

text \<open>A marker that is followed by no word character swallows the text up to the next stop.\<close>

lemma redact_at_marker:
  assumes m: "m \<in> set markers" and b: "boundary_ok m s"
  shows "redact (m @ s) = ''[REDACTED]'' @ redact (dropWhile (\<lambda>c. \<not> is_stop c) s)"
proof -
  have ne: "m \<noteq> []" using m by (rule markers_nonempty)
  then obtain c cs where s: "m @ s = c # cs" by (cases m) auto
  have "prefix m (c # cs)" unfolding s [symmetric] by simp
  then obtain k where k: "find (\<lambda>k. prefix k (c # cs)) markers = Some k"
    using m by (cases "find (\<lambda>k. prefix k (c # cs)) markers") (auto simp: find_None_iff)
  then have k': "k \<in> set markers" "prefix k (m @ s)" using s by (auto simp: find_Some_iff)
  then obtain t where t: "m @ s = k @ t" by (auto simp: prefix_def)
  have cmp: "prefix k m \<or> prefix m k"
    using k'(2) by (auto simp: prefix_append)
  have ok: "boundary_ok k t"
  proof (cases "k = m")
    case True
    then show ?thesis using b t by simp
  next
    case False
    have "\<not> is_word (last k) \<or> (\<exists>u. m = k @ ''='' @ u)"
      using cmp False m k'(1)
      by (simp add: markers_def is_word_def) (elim disjE; simp)
    then show ?thesis
      using t by (auto simp: boundary_ok_def is_word_def)
  qed
  have "dropWhile (\<lambda>c. \<not> is_stop c) t = dropWhile (\<lambda>c. \<not> is_stop c) (k @ t)"
    using markers_no_stop [OF k'(1)] by (simp add: dropWhile_append2 list_all_iff)
  also have "\<dots> = dropWhile (\<lambda>c. \<not> is_stop c) s"
    unfolding t [symmetric] using markers_no_stop [OF m] by (simp add: dropWhile_append2 list_all_iff)
  finally show ?thesis
    unfolding s redact_Cons k using ok t s [symmetric] by (simp add: Let_def)
qed

lemma redact_same_after:
  assumes xy: "redact x = redact y"
    "dropWhile (\<lambda>c. \<not> is_stop c) x = dropWhile (\<lambda>c. \<not> is_stop c) y"
    and pre: "\<not> is_word (last pre)"
  shows "redact (pre @ x) = redact (pre @ y)"
  using pre
proof (induction "length pre" arbitrary: pre rule: less_induct)
  case less
  show ?case
  proof (cases pre)
    case Nil
    then show ?thesis using xy(1) by simp
  next
    case (Cons c pre')
    then have ne: "pre \<noteq> []" by simp
    note same = find_markers_inside [OF ne less.prems]
    show ?thesis
    proof (cases "find (\<lambda>k. prefix k pre) markers")
      case None
      have "redact (pre' @ x) = redact (pre' @ y)"
        using less.hyps [of pre'] less.prems Cons xy(1) by (cases "pre' = []") auto
      then show ?thesis
        using same [of x] same [of y] None Cons by (simp add: redact_Cons)
    next
      case (Some k)
      then have k: "k \<in> set markers" "prefix k pre" by (auto simp: find_Some_iff)
      then obtain post where post: "pre = k @ post" by (auto simp: prefix_def)
      have shorter: "length post < length pre" using post markers_nonempty [OF k(1)] by simp
      have last: "post \<noteq> [] \<Longrightarrow> last post = last pre" using post by simp
      have bnd: "boundary_ok k (post @ z) = (post = [] \<or> boundary_ok k post)" for z
        using less.prems post by (cases post) (auto simp: boundary_ok_def)
      have kept: "redact (post @ x) = redact (post @ y)"
        using less.hyps [OF shorter] last less.prems xy(1) by (cases "post = []") auto
      have cut: "redact (dropWhile (\<lambda>c. \<not> is_stop c) (post @ x)) = redact (dropWhile (\<lambda>c. \<not> is_stop c) (post @ y))"
      proof (cases "\<exists>d \<in> set post. is_stop d")
        case True
        let ?d = "dropWhile (\<lambda>c. \<not> is_stop c) post"
        have ne': "?d \<noteq> []" using True by (simp add: dropWhile_eq_Nil_conv)
        have "last (takeWhile (\<lambda>c. \<not> is_stop c) post @ ?d) = last ?d" using ne' by (rule last_appendR)
        then have "last post = last ?d" "post \<noteq> []" using ne' by auto
        then have d: "length ?d \<le> length post" "last ?d = last pre"
          using last by (simp_all add: length_dropWhile_le)
        have "redact (?d @ x) = redact (?d @ y)"
          using less.hyps [of ?d] d shorter less.prems by simp
        then show ?thesis using True by (auto simp: dropWhile_append1)
      next
        case False
        then show ?thesis using xy(2) by (simp add: dropWhile_append2)
      qed
      have unf: "redact (pre @ z) = (if post = [] \<or> boundary_ok k post
          then ''[REDACTED]'' @ redact (dropWhile (\<lambda>c. \<not> is_stop c) (post @ z)) else k @ redact (post @ z))" for z
      proof -
        have "drop (length k) (pre @ z) = post @ z" using post by simp
        then show ?thesis
          using same [of z] Some Cons bnd [of z] redact_Cons [of c "pre' @ z"] by (simp add: Let_def)
      qed
      show ?thesis unfolding unf kept cut ..
    qed
  qed
qed

section \<open>The fingerprint\<close>

definition fingerprint :: "(string \<Rightarrow> u8 list) \<Rightarrow> string \<Rightarrow> string" where
  "fingerprint sha256 txt = concat (map hex_byte (sha256 txt))"

section \<open>Properties of the intake\<close>

text \<open>
  The redaction loop, which searches every marker in what is left, is a single pass from left to
  right: at each position the first marker of the list that starts there decides, and where none
  does one character is kept.
\<close>

theorem redact_one_pass: "redact = redact_scan"
  by (rule ext) (rule redact_is_scan)

text \<open>
  What follows a marker is hidden: two descriptions that differ only in the text between a marker,
  which is neither glued to a word before it nor continued as one, and the next full stop or end of
  the line are redacted to the same text. This holds whatever stands before the marker, other
  markers included.
\<close>

theorem redaction_hides_secret:
  assumes m: "m \<in> set markers" and pre: "pre = [] \<or> \<not> is_word (last pre)"
    and a: "boundary_ok m a" "list_all (\<lambda>c. \<not> is_stop c) a"
    and b: "boundary_ok m b" "list_all (\<lambda>c. \<not> is_stop c) b"
    and rest: "rest = [] \<or> is_stop (hd rest)"
  shows "redact (pre @ m @ a @ rest) = redact (pre @ m @ b @ rest)"
proof -
  have stop: "\<not> is_word d" if "is_stop d" for d using that by (auto simp: is_stop_def is_word_def)
  have drop: "dropWhile (\<lambda>c. \<not> is_stop c) (z @ rest) = rest" if "list_all (\<lambda>c. \<not> is_stop c) z" for z
    using rest that by (cases rest) (auto simp: dropWhile_append2 list_all_iff)
  have one: "redact (m @ z @ rest) = ''[REDACTED]'' @ redact rest"
    "dropWhile (\<lambda>c. \<not> is_stop c) (m @ z @ rest) = rest"
    if z: "boundary_ok m z" "list_all (\<lambda>c. \<not> is_stop c) z" for z
  proof -
    have "boundary_ok m (z @ rest)"
      using z(1) rest stop by (cases z; cases rest) (auto simp: boundary_ok_def)
    then show "redact (m @ z @ rest) = ''[REDACTED]'' @ redact rest"
      by (simp only: redact_at_marker [OF m] drop [OF z(2)])
    show "dropWhile (\<lambda>c. \<not> is_stop c) (m @ z @ rest) = rest"
      using markers_no_stop [OF m] z(2) drop [OF z(2)] by (simp add: dropWhile_append2 list_all_iff)
  qed
  show ?thesis
  proof (cases "pre = []")
    case True
    then show ?thesis using one(1) [OF a] one(1) [OF b] by simp
  next
    case False
    then show ?thesis
      using redact_same_after [of "m @ a @ rest" "m @ b @ rest" pre] one [OF a] one [OF b] pre by simp
  qed
qed

theorem redaction_hides_secret_witness:
  "redact (''log in with '' @ ''token='' @ ''hunter2'' @ ''. go'')
     = redact (''log in with '' @ ''token='' @ ''abc'' @ ''. go'')"
  by (rule redaction_hides_secret)
    (simp_all add: markers_def is_word_def is_stop_def boundary_ok_def)

text \<open>
  What redaction lets through. A bearer token with a full stop in it, which is how web tokens are
  written, is hidden only up to the first one. A marker glued to an earlier one, as the secret of
  \<open>secretoken=\<close>, is never seen: the search goes on behind the first.
\<close>

theorem redaction_leaks:
  "if list_all (\<lambda>c. \<not> is_stop c) a
   then redact (''Bearer '' @ a @ ''.'' @ b) = ''[REDACTED].'' @ redact b
     \<and> redact (''secretoken='' @ a) = ''secretoken='' @ redact a
   else True"
proof -
  have dot: "redact (''.'' @ b) = ''.'' @ redact b"
    by (simp add: redact_Cons [of "CHR ''.''"] markers_def)
  have "dropWhile (\<lambda>c. \<not> is_stop c) (a @ ''.'' @ b) = ''.'' @ b" if "list_all (\<lambda>c. \<not> is_stop c) a"
    using that by (simp add: dropWhile_append2 list_all_iff is_stop_def)
  moreover have "redact (''Bearer '' @ s) = ''[REDACTED]'' @ redact (dropWhile (\<lambda>c. \<not> is_stop c) s)" for s
    by (rule redact_at_marker) (simp_all add: markers_def boundary_ok_def is_word_def)
  moreover have "redact (''oken='' @ a) = ''oken='' @ redact a"
    by (simp add: redact_Cons [of "CHR ''o''"] redact_Cons [of "CHR ''k''"] redact_Cons [of "CHR ''e''"]
        redact_Cons [of "CHR ''n''"] redact_Cons [of "CHR ''=''"] markers_def)
  moreover have "redact (''secretoken='' @ a) = ''secret'' @ redact (''oken='' @ a)"
    by (simp add: redact_Cons [of "CHR ''s''"] markers_def Let_def boundary_ok_def is_word_def)
  ultimately show ?thesis using dot by simp
qed

end
