(* ===== verification/Updater.thy ===== *)
theory Updater
  imports Complex_Main Prelude
begin

text \<open>
  The updater core, \<open>wirecore/crates/wire-updater/src/lib.rs\<close>: manifests and their verification, the
  admission policy, resumed downloads, startup health, migration and lockdown. The parser and writer
  of serde, SHA-256 and Ed25519 are parameters; a fraction is an exact rational.
\<close>

unbundle bit_operations_syntax

definition SCHEMA_VERSION :: u32 where "SCHEMA_VERSION = 1"
definition MAX_MANIFEST_BYTES :: nat where "MAX_MANIFEST_BYTES = 256 * 1024"
definition MAX_ARTIFACT_BYTES :: u64 where "MAX_ARTIFACT_BYTES = 2 * 1024 * 1024 * 1024"

section \<open>Errors\<close>

datatype ErrorCode =
    EcValidation | EcVerification | EcSecurity | EcIncompatibility | EcPermissionExpansion | EcDowngrade
  | EcUnavailable | EcTimeout | EcCancellation | EcResourceExhaustion | EcRollback | EcQuarantine
  | EcDeferred | EcInternal

record UpdateError =
  ue_code :: ErrorCode
  ue_message :: string
  ue_retryable :: bool

definition UpdateError_new :: "ErrorCode \<Rightarrow> string \<Rightarrow> bool \<Rightarrow> UpdateError" where
  "UpdateError_new code message retryable = \<lparr>ue_code = code, ue_message = message, ue_retryable = retryable\<rparr>"

section \<open>Channels and lanes\<close>

datatype Channel = Development | Canary | Beta | Stable

definition Channel_parse :: "string \<Rightarrow> UpdateError + Channel" where
  "Channel_parse s =
     (if s = ''development'' then Inr Development
      else if s = ''canary'' then Inr Canary
      else if s = ''beta'' then Inr Beta
      else if s = ''stable'' then Inr Stable
      else Inl (UpdateError_new EcValidation (''unknown channel: '' @ s) False))"

definition requires_signature :: "Channel \<Rightarrow> bool" where
  "requires_signature c = True"

text \<open>The name a channel has in the payload.\<close>

fun channel_name :: "Channel \<Rightarrow> string" where
  "channel_name Development = ''development''"
| "channel_name Canary = ''canary''"
| "channel_name Beta = ''beta''"
| "channel_name Stable = ''stable''"

datatype UpdateLane =
    CoreApp | ProviderAdapter | ContextRules | CommandPack | PluginPack | RendererPack | AudioPack
  | LocalModelAsset | HelpIndex

definition UpdateLane_ALL :: "UpdateLane list" where
  "UpdateLane_ALL = [CoreApp, ProviderAdapter, ContextRules, CommandPack, PluginPack, RendererPack,
     AudioPack, LocalModelAsset, HelpIndex]"

definition UpdateLane_parse :: "string \<Rightarrow> UpdateError + UpdateLane" where
  "UpdateLane_parse s =
     (if s = ''core_app'' then Inr CoreApp
      else if s = ''provider_adapter'' then Inr ProviderAdapter
      else if s = ''context_rules'' then Inr ContextRules
      else if s = ''command_pack'' then Inr CommandPack
      else if s = ''plugin_pack'' then Inr PluginPack
      else if s = ''renderer_pack'' then Inr RendererPack
      else if s = ''audio_pack'' then Inr AudioPack
      else if s = ''local_model_asset'' then Inr LocalModelAsset
      else if s = ''help_index'' then Inr HelpIndex
      else Inl (UpdateError_new EcValidation (''unknown lane: '' @ s) False))"

fun UpdateLane_name :: "UpdateLane \<Rightarrow> string" where
  "UpdateLane_name CoreApp = ''core_app''"
| "UpdateLane_name ProviderAdapter = ''provider_adapter''"
| "UpdateLane_name ContextRules = ''context_rules''"
| "UpdateLane_name CommandPack = ''command_pack''"
| "UpdateLane_name PluginPack = ''plugin_pack''"
| "UpdateLane_name RendererPack = ''renderer_pack''"
| "UpdateLane_name AudioPack = ''audio_pack''"
| "UpdateLane_name LocalModelAsset = ''local_model_asset''"
| "UpdateLane_name HelpIndex = ''help_index''"

definition is_optional :: "UpdateLane \<Rightarrow> bool" where
  "is_optional l \<longleftrightarrow> l \<noteq> CoreApp"

section \<open>The manifest\<close>

record Rollout =
  ro_fraction :: rat
  ro_kill_switch :: bool

text \<open>\<open>f64::round\<close> of a positive number; the conversion to \<open>u64\<close> is exact below 1000.\<close>

definition offered :: "u64 \<Rightarrow> Rollout \<Rightarrow> bool" where
  "offered bucket r =
     (if ro_kill_switch r \<or> ro_fraction r \<le> 0 then False
      else if 1 \<le> ro_fraction r then True
      else bucket mod 1000 < of_int \<lfloor>ro_fraction r * 1000 + 1 / 2\<rfloor>)"

record Compatibility =
  cp_wiremudder :: string
  cp_mudlet :: string

record SignedManifest =
  sm_schema_version :: u32
  sm_lane :: UpdateLane
  sm_channel :: Channel
  sm_version :: string
  sm_artifact_sha256 :: string
  sm_artifact_size :: u64
  sm_signature :: string
  sm_compat :: Compatibility
  sm_required_permissions :: "string list"
  sm_rollout :: "Rollout option"
  sm_migration_version :: u32

text \<open>What the signature covers: everything but the signature.\<close>

record Payload =
  pl_schema_version :: u32
  pl_lane :: string
  pl_channel :: string
  pl_version :: string
  pl_artifact_sha256 :: string
  pl_artifact_size :: u64
  pl_compat :: Compatibility
  pl_required_permissions :: "string list"
  pl_rollout :: "Rollout option"
  pl_migration_version :: u32

definition payload_of :: "SignedManifest \<Rightarrow> Payload" where
  "payload_of m =
     \<lparr>pl_schema_version = sm_schema_version m, pl_lane = UpdateLane_name (sm_lane m),
      pl_channel = channel_name (sm_channel m), pl_version = sm_version m,
      pl_artifact_sha256 = sm_artifact_sha256 m, pl_artifact_size = sm_artifact_size m,
      pl_compat = sm_compat m, pl_required_permissions = sm_required_permissions m,
      pl_rollout = sm_rollout m, pl_migration_version = sm_migration_version m\<rparr>"

definition canonical_payload :: "(Payload \<Rightarrow> string + u8 list) \<Rightarrow> SignedManifest \<Rightarrow> UpdateError + u8 list" where
  "canonical_payload to_vec m =
     (case to_vec (payload_of m) of
        Inl e \<Rightarrow> Inl (UpdateError_new EcInternal (''payload serialize: '' @ e) False)
      | Inr bytes \<Rightarrow> Inr bytes)"

section \<open>Verification\<close>

definition hex_val :: "char \<Rightarrow> u8 option" where
  "hex_val b =
     (let n = of_char b :: nat in
      if 48 \<le> n \<and> n \<le> 57 then Some (of_nat (n - 48))
      else if 97 \<le> n \<and> n \<le> 102 then Some (of_nat (n - 97 + 10))
      else if 65 \<le> n \<and> n \<le> 70 then Some (of_nat (n - 65 + 10))
      else None)"

text \<open>The loop over the pairs of digits, on a text of even length.\<close>

fun hex_bytes :: "string \<Rightarrow> string \<Rightarrow> UpdateError + u8 list" where
  "hex_bytes what (a # b # s) =
     (case hex_val a of
        None \<Rightarrow> Inl (UpdateError_new EcVerification (what @ '' has invalid hex'') False)
      | Some hi \<Rightarrow>
          (case hex_val b of
             None \<Rightarrow> Inl (UpdateError_new EcVerification (what @ '' has invalid hex'') False)
           | Some lo \<Rightarrow>
               (case hex_bytes what s of
                  Inl e \<Rightarrow> Inl e
                | Inr out \<Rightarrow> Inr ((push_bit 4 hi OR lo) # out))))"
| "hex_bytes what s = Inr []"

definition parse_hex :: "string \<Rightarrow> nat \<Rightarrow> string \<Rightarrow> UpdateError + u8 list" where
  "parse_hex s expected what =
     (if length s \<noteq> expected * 2
      then Inl (UpdateError_new EcVerification (what @ '' has invalid hex length '' @ show_nat (length s)) False)
      else hex_bytes what s)"

record Verifier =
  vf_public_key_hex :: string

definition Verifier_new :: "string \<Rightarrow> UpdateError + Verifier" where
  "Verifier_new key =
     (case parse_hex key 32 ''public key'' of
        Inl e \<Rightarrow> Inl e
      | Inr _ \<Rightarrow> Inr \<lparr>vf_public_key_hex = key\<rparr>)"

definition verifying_key :: "(u8 list \<Rightarrow> string + 'vk) \<Rightarrow> Verifier \<Rightarrow> UpdateError + 'vk" where
  "verifying_key key_of v =
     (case parse_hex (vf_public_key_hex v) 32 ''public key'' of
        Inl e \<Rightarrow> Inl e
      | Inr raw \<Rightarrow>
          (case key_of raw of
             Inl e \<Rightarrow> Inl (UpdateError_new EcVerification (''public key invalid: '' @ e) False)
           | Inr vk \<Rightarrow> Inr vk))"

definition verify_manifest ::
    "(u8 list \<Rightarrow> string + SignedManifest) \<Rightarrow> (Payload \<Rightarrow> string + u8 list) \<Rightarrow> (u8 list \<Rightarrow> string + 'vk)
     \<Rightarrow> ('vk \<Rightarrow> u8 list \<Rightarrow> u8 list \<Rightarrow> bool) \<Rightarrow> u8 list \<Rightarrow> Verifier \<Rightarrow> UpdateError + SignedManifest" where
  "verify_manifest from_slice to_vec key_of verify_strict bytes v =
     (if MAX_MANIFEST_BYTES < length bytes
      then Inl (UpdateError_new EcResourceExhaustion ''manifest exceeds size limit'' False)
      else
        (case from_slice bytes of
           Inl e \<Rightarrow> Inl (UpdateError_new EcVerification (''manifest parse: '' @ e) False)
         | Inr m \<Rightarrow>
             if sm_schema_version m \<noteq> SCHEMA_VERSION
             then Inl (UpdateError_new EcIncompatibility
                    (''unsupported schema version '' @ show_nat (unat (sm_schema_version m))) False)
             else if sm_signature m = []
             then Inl (UpdateError_new EcVerification ''artifact is unsigned; signed manifests required'' False)
             else
               (case canonical_payload to_vec m of
                  Inl e \<Rightarrow> Inl e
                | Inr payload \<Rightarrow>
                    (case parse_hex (sm_signature m) 64 ''signature'' of
                       Inl e \<Rightarrow> Inl e
                     | Inr sig \<Rightarrow>
                         (case verifying_key key_of v of
                            Inl e \<Rightarrow> Inl e
                          | Inr vk \<Rightarrow>
                              if verify_strict vk payload sig then Inr m
                              else Inl (UpdateError_new EcVerification ''signature verification failed'' False))))))"

definition verify_artifact ::
    "(u8 list \<Rightarrow> u8 list) \<Rightarrow> SignedManifest \<Rightarrow> u8 list \<Rightarrow> UpdateError + unit" where
  "verify_artifact sha256 m artifact =
     (if (of_nat (length artifact) :: u64) \<noteq> sm_artifact_size m
      then Inl (UpdateError_new EcVerification
             (''artifact size mismatch: expected '' @ show_nat (unat (sm_artifact_size m))
              @ '', got '' @ show_nat (length artifact)) False)
      else if to_lower (concat (map hex_byte (sha256 artifact))) \<noteq> to_lower (sm_artifact_sha256 m)
      then Inl (UpdateError_new EcVerification ''artifact hash mismatch (corrupted)'' False)
      else Inr ())"

section \<open>Admission\<close>

record UpdatePolicy =
  up_granted_permissions :: "string list"
  up_current_version :: string
  up_local_only_lockdown :: bool
  up_active_sessions :: u32
  up_client_share :: u64

definition parse_version :: "string \<Rightarrow> nat list \<times> bool" where
  "parse_version v =
     (let (numeric, prerelease) =
        (if CHR ''-'' \<in> set v then (takeWhile (\<lambda>c. c \<noteq> CHR ''-'') v, True) else (v, False)) in
      (map (\<lambda>p. case parse_unsigned 64 p of Some n \<Rightarrow> n | None \<Rightarrow> 0)
         (take 3 (split_on (CHR ''.'') numeric)), prerelease))"

definition version_part :: "nat list \<Rightarrow> nat \<Rightarrow> nat" where
  "version_part xs i = (if i < length xs then xs ! i else 0)"

definition version_ge :: "string \<Rightarrow> string \<Rightarrow> bool" where
  "version_ge a b =
     (let (av, aprere) = parse_version a; (bv, bprere) = parse_version b in
      case find (\<lambda>i. version_part av i \<noteq> version_part bv i) [0, 1, 2] of
        Some i \<Rightarrow> version_part bv i < version_part av i
      | None \<Rightarrow> (case (aprere, bprere) of (False, True) \<Rightarrow> True | (True, False) \<Rightarrow> False | _ \<Rightarrow> True))"

definition admit :: "SignedManifest \<Rightarrow> UpdatePolicy \<Rightarrow> UpdateError + unit" where
  "admit m p =
     (if up_local_only_lockdown p
      then Inl (UpdateError_new EcDeferred ''Local Only Lockdown blocks remote update checks'' False)
      else
        (case find (\<lambda>q. q \<notin> set (up_granted_permissions p)) (sm_required_permissions m) of
           Some q \<Rightarrow> Inl (UpdateError_new EcPermissionExpansion (''update would expand permissions: '' @ q) False)
         | None \<Rightarrow>
             if \<not> version_ge (sm_version m) (up_current_version p)
             then Inl (UpdateError_new EcDowngrade
                    (''unexpected downgrade: installed '' @ up_current_version p @ '' >= offered '' @ sm_version m) False)
             else if (case sm_rollout m of None \<Rightarrow> False | Some r \<Rightarrow> \<not> offered (up_client_share p) r)
             then Inl (UpdateError_new EcDeferred ''update not yet offered to this client (staged rollout)'' False)
             else if 0 < up_active_sessions p
             then Inl (UpdateError_new EcDeferred ''update deferred: active sessions must stop first'' False)
             else Inr ()))"

section \<open>Resumed downloads\<close>

record ResumeState =
  rm_manifest_sha256 :: string
  rm_artifact_size :: u64
  rm_bytes_received :: u64

definition apply_chunk :: "u64 \<Rightarrow> u64 \<Rightarrow> ResumeState \<Rightarrow> UpdateError + ResumeState" where
  "apply_chunk offset len s =
     (if offset \<noteq> rm_bytes_received s
      then Inl (UpdateError_new EcValidation
             (''resume offset gap: expected '' @ show_nat (unat (rm_bytes_received s))
              @ '', got '' @ show_nat (unat offset)) True)
      else
        let next = rm_bytes_received s + len in
        if rm_artifact_size s < next
        then Inl (UpdateError_new EcValidation
               (''resume exceeds artifact size '' @ show_nat (unat (rm_artifact_size s))) False)
        else Inr (s\<lparr>rm_bytes_received := next\<rparr>))"

definition ResumeState_complete :: "ResumeState \<Rightarrow> bool" where
  "ResumeState_complete s \<longleftrightarrow> rm_artifact_size s \<le> rm_bytes_received s"

section \<open>Startup, migration, lockdown\<close>

datatype Health = Healthy | FailedStartup | CrashLoop

record StartupTracker =
  st_failures :: u32
  st_quarantine_after :: u32
  st_quarantined :: bool

definition StartupTracker_default :: StartupTracker where
  "StartupTracker_default = \<lparr>st_failures = 0, st_quarantine_after = 3, st_quarantined = False\<rparr>"

definition record_success :: "StartupTracker \<Rightarrow> StartupTracker" where
  "record_success t = t\<lparr>st_failures := 0, st_quarantined := False\<rparr>"

definition record_failure :: "StartupTracker \<Rightarrow> Health \<times> StartupTracker" where
  "record_failure t =
     (let t1 = t\<lparr>st_failures := st_failures t + 1\<rparr> in
      if st_quarantine_after t1 \<le> st_failures t1
      then (CrashLoop, t1\<lparr>st_quarantined := True\<rparr>)
      else (FailedStartup, t1))"

definition rollback_guidance :: "StartupTracker \<Rightarrow> string option" where
  "rollback_guidance t =
     (if st_quarantined t then Some ''quarantined: restore the previous healthy version from backup''
      else None)"

datatype MigrationState =
    NoMigrationNeeded
  | BackupRequired u32 u32
  | ReadyToInstall
  | RestoreRequired u32 u32

definition plan_migration :: "u32 \<Rightarrow> u32 \<Rightarrow> MigrationState" where
  "plan_migration current target =
     (if target = current then NoMigrationNeeded
      else if current < target then BackupRequired current target
      else RestoreRequired current target)"

record Lockdown =
  lk_active :: bool
  lk_user_override :: bool

definition allows_remote_update_check :: "Lockdown \<Rightarrow> bool" where
  "allows_remote_update_check l \<longleftrightarrow> \<not> lk_active l \<or> (lk_user_override l \<and> lk_active l)"

section \<open>Lemmas\<close>

lemma channel_name_parse: "Channel_parse (channel_name c) = Inr c"
  by (cases c) (simp_all add: Channel_parse_def)

lemma lane_name_parse: "UpdateLane_parse (UpdateLane_name l) = Inr l"
  by (cases l) (simp_all add: UpdateLane_parse_def)

lemma payload_of_inject:
  "payload_of m = payload_of n \<longleftrightarrow> m = n\<lparr>sm_signature := sm_signature m\<rparr>"
proof
  assume eq: "payload_of m = payload_of n"
  have "Channel_parse (channel_name (sm_channel m)) = Channel_parse (channel_name (sm_channel n))"
    "UpdateLane_parse (UpdateLane_name (sm_lane m)) = UpdateLane_parse (UpdateLane_name (sm_lane n))"
    using eq by (simp_all add: payload_of_def)
  then have "sm_channel m = sm_channel n" "sm_lane m = sm_lane n"
    by (simp_all add: channel_name_parse lane_name_parse)
  then show "m = n\<lparr>sm_signature := sm_signature m\<rparr>"
    using eq by (cases m; cases n) (simp add: payload_of_def)
next
  assume "m = n\<lparr>sm_signature := sm_signature m\<rparr>"
  then have "payload_of m = payload_of (n\<lparr>sm_signature := sm_signature m\<rparr>)" by (rule arg_cong)
  then show "payload_of m = payload_of n" by (simp add: payload_of_def)
qed

lemma verify_manifest_Inr:
  "verify_manifest from_slice to_vec key_of verify_strict bytes v = Inr m \<Longrightarrow>
    from_slice bytes = Inr m \<and> length bytes \<le> MAX_MANIFEST_BYTES \<and> sm_schema_version m = SCHEMA_VERSION
    \<and> (\<exists>payload sig vk. to_vec (payload_of m) = Inr payload \<and> parse_hex (sm_signature m) 64 ''signature'' = Inr sig
        \<and> verifying_key key_of v = Inr vk \<and> verify_strict vk payload sig)"
  by (auto simp: verify_manifest_def canonical_payload_def not_less split: if_splits sum.splits)

text \<open>A hexadecimal digit and its value.\<close>

lemma hex_digit_cases: "n < 16 \<Longrightarrow> n \<in> {0, 1, 2, 3, 4, 5, 6, 7, 8, 9, 10, 11, 12, 13, 14, 15 :: nat}"
  unfolding insert_iff empty_iff by presburger

lemma hex_val_digit: "n < 16 \<Longrightarrow> hex_val (hex_digit n) = Some (of_nat n)"
  by (drule hex_digit_cases) (auto simp: hex_val_def hex_digit_def Let_def)

lemma hex_digit_lower: "n < 16 \<Longrightarrow> lower_char (hex_digit n) = hex_digit n"
  by (drule hex_digit_cases) (auto simp: lower_char_def hex_digit_def)

lemma of_char_lower: "(of_char (lower_char c) :: nat) = (let k = of_char c in if 65 \<le> k \<and> k \<le> 90 then k + 32 else k)"
  by (simp add: lower_char_def Let_def)

lemma hex_val_lower:
  assumes n: "n < 16"
  shows "hex_val c = Some (of_nat n) \<longleftrightarrow> lower_char c = hex_digit n"
proof -
  let ?k = "of_char c :: nat"
  have eq: "(of_nat k :: u8) = of_nat n \<longleftrightarrow> k = n" if "k < 16" for k
    using that n by (simp add: word_of_nat_eq_iff take_bit_nat_eq_self)
  have "lower_char c = hex_digit n \<longleftrightarrow> (of_char (lower_char c) :: nat) = of_char (hex_digit n)"
    by simp
  also have "(of_char (hex_digit n) :: nat) = (if n < 10 then 48 + n else 87 + n)"
    using n by (simp add: hex_digit_def)
  finally have low: "lower_char c = hex_digit n \<longleftrightarrow>
      (if 65 \<le> ?k \<and> ?k \<le> 90 then ?k + 32 else ?k) = (if n < 10 then 48 + n else 87 + n)"
    by (simp add: of_char_lower Let_def)
  consider "48 \<le> ?k \<and> ?k \<le> 57" | "97 \<le> ?k \<and> ?k \<le> 102" | "65 \<le> ?k \<and> ?k \<le> 70"
    | "\<not> (48 \<le> ?k \<and> ?k \<le> 57)" "\<not> (97 \<le> ?k \<and> ?k \<le> 102)" "\<not> (65 \<le> ?k \<and> ?k \<le> 70)" by blast
  then show ?thesis
  proof cases
    case 1
    have "?k - 48 < 16" using 1 by linarith
    then have "hex_val c = Some (of_nat n) \<longleftrightarrow> ?k - 48 = n"
      using eq [of "?k - 48"] 1 by (simp add: hex_val_def del: of_nat_diff of_nat_add)
    then show ?thesis unfolding low using 1 n by auto
  next
    case 2
    have "?k - 97 + 10 < 16" using 2 by linarith
    then have "hex_val c = Some (of_nat n) \<longleftrightarrow> ?k - 97 + 10 = n"
      using eq [of "?k - 97 + 10"] 2 by (simp add: hex_val_def del: of_nat_diff of_nat_add)
    then show ?thesis unfolding low using 2 n by auto
  next
    case 3
    have "?k - 65 + 10 < 16" using 3 by linarith
    then have "hex_val c = Some (of_nat n) \<longleftrightarrow> ?k - 65 + 10 = n"
      using eq [of "?k - 65 + 10"] 3 by (simp add: hex_val_def del: of_nat_diff of_nat_add)
    then show ?thesis unfolding low using 3 n by auto
  next
    case 4
    then have "hex_val c = None" by (simp add: hex_val_def Let_def)
    then show ?thesis unfolding low using 4 n by auto
  qed
qed

lemma hex_val_range: "hex_val c = Some x \<Longrightarrow> \<exists>n < 16. x = of_nat n"
  by (auto simp: hex_val_def Let_def split: if_splits)
    (rule exI [of _ "of_char c - 48 :: nat"] exI [of _ "of_char c - 97 + 10 :: nat"] exI [of _ "of_char c - 65 + 10 :: nat"]; simp)+

text \<open>Two digits are the nibbles of a byte.\<close>

lemma nibbles: "i < 16 \<Longrightarrow> j < 16 \<Longrightarrow> unat (push_bit 4 (of_nat i) OR of_nat j :: u8) = 16 * i + j"
proof -
  assume ij: "i < 16" "j < 16"
  have word: "(push_bit 4 (of_nat i) OR of_nat j :: u8) = of_nat (push_bit 4 i OR j)"
    by (simp add: of_nat_or_eq of_nat_push_bit)
  have sum: "push_bit 4 i OR j = push_bit 4 i + j"
  proof (rule disjunctive_add [symmetric])
    fix m
    show "\<not> bit (push_bit 4 i) m \<or> \<not> bit j m"
    proof (cases "m < 4")
      case False
      then have "(2::nat) ^ 4 \<le> 2 ^ m" by (intro power_increasing) simp_all
      then have "j div 2 ^ m = 0" using ij(2) by simp
      then have "\<not> bit j m" by (simp add: bit_iff_odd)
      then show ?thesis ..
    qed (simp add: bit_push_bit_iff)
  qed
  have "push_bit 4 i + j = 16 * i + j" by (simp add: push_bit_eq_mult)
  then show ?thesis
    unfolding word sum by (simp only: unat_of_nat) (use ij in simp)
qed

lemma hex_pair:
  "(case hex_val a of None \<Rightarrow> False | Some hi \<Rightarrow> (case hex_val b of None \<Rightarrow> False | Some lo \<Rightarrow> push_bit 4 hi OR lo = x))
    \<longleftrightarrow> to_lower [a, b] = hex_byte x"
proof
  assume "case hex_val a of None \<Rightarrow> False
      | Some hi \<Rightarrow> (case hex_val b of None \<Rightarrow> False | Some lo \<Rightarrow> push_bit 4 hi OR lo = x)"
  then obtain hi lo where v: "hex_val a = Some hi" "hex_val b = Some lo" "push_bit 4 hi OR lo = x"
    by (auto split: option.splits)
  obtain i where i: "i < 16" "hi = of_nat i" using hex_val_range [OF v(1)] by blast
  obtain j where j: "j < 16" "lo = of_nat j" using hex_val_range [OF v(2)] by blast
  have "unat x = 16 * i + j" using nibbles [OF i(1) j(1)] v(3) i(2) j(2) by simp
  then have "unat x div 16 = i" "unat x mod 16 = j" using j(1) by simp_all
  then show "to_lower [a, b] = hex_byte x"
    using hex_val_lower [OF i(1), of a] hex_val_lower [OF j(1), of b] v i(2) j(2)
    by (simp add: hex_byte_def to_lower_def)
next
  assume low: "to_lower [a, b] = hex_byte x"
  have "unat x < 256" using unsigned_less [of x] by simp
  then have i: "unat x div 16 < 16" by (simp add: less_mult_imp_div_less)
  have j: "unat x mod 16 < 16" by simp
  have "hex_val a = Some (of_nat (unat x div 16))" "hex_val b = Some (of_nat (unat x mod 16))"
    using low unfolding hex_val_lower [OF i] hex_val_lower [OF j] by (simp_all add: hex_byte_def to_lower_def)
  moreover have "(push_bit 4 (of_nat (unat x div 16)) OR of_nat (unat x mod 16) :: u8) = x"
    using nibbles [OF i j] by (intro word_unat_eq_iff [THEN iffD2]) simp
  ultimately show "case hex_val a of None \<Rightarrow> False
      | Some hi \<Rightarrow> (case hex_val b of None \<Rightarrow> False | Some lo \<Rightarrow> push_bit 4 hi OR lo = x)"
    by simp
qed

lemma hex_bytes_iff:
  "length s = 2 * length bs \<Longrightarrow> hex_bytes what s = Inr bs \<longleftrightarrow> to_lower s = concat (map hex_byte bs)"
proof (induction bs arbitrary: s)
  case Nil
  then show ?case by (simp add: to_lower_def)
next
  case (Cons x bs)
  then obtain a b t where s: "s = a # b # t" "length t = 2 * length bs"
    by (auto simp: length_Suc_conv)
  have "hex_bytes what s = Inr (x # bs) \<longleftrightarrow>
      (case hex_val a of None \<Rightarrow> False | Some hi \<Rightarrow> (case hex_val b of None \<Rightarrow> False | Some lo \<Rightarrow> push_bit 4 hi OR lo = x))
      \<and> hex_bytes what t = Inr bs"
    by (auto simp: s split: option.splits sum.splits)
  also have "\<dots> \<longleftrightarrow> to_lower [a, b] = hex_byte x \<and> to_lower t = concat (map hex_byte bs)"
    unfolding hex_pair Cons.IH [OF s(2)] ..
  also have "\<dots> \<longleftrightarrow> to_lower s = concat (map hex_byte (x # bs))"
    by (auto simp: s to_lower_def hex_byte_def)
  finally show ?case .
qed

lemma length_hex: "length (concat (map hex_byte bs)) = 2 * length bs"
  by (induction bs) (simp_all add: hex_byte_def)

lemma to_lower_hex: "to_lower (concat (map hex_byte bs)) = concat (map hex_byte bs)"
proof (induction bs)
  case (Cons x bs)
  have "unat x < 256" using unsigned_less [of x] by simp
  then have "unat x div 16 < 16" by (simp add: less_mult_imp_div_less)
  then show ?case
    using Cons by (simp add: to_lower_def hex_byte_def hex_digit_lower)
qed (simp add: to_lower_def)

lemma parse_hex_iff: "parse_hex s (length bs) what = Inr bs \<longleftrightarrow> to_lower s = concat (map hex_byte bs)"
proof (cases "length s = 2 * length bs")
  case True
  then show ?thesis using hex_bytes_iff [of s bs what] by (simp add: parse_hex_def)
next
  case False
  moreover have "length s = length (to_lower s)" by (simp add: to_lower_def)
  ultimately show ?thesis using length_hex [of bs] by (auto simp: parse_hex_def)
qed

text \<open>Versions are ordered by their three numbers, and a release is above its prereleases.\<close>

definition version_key :: "string \<Rightarrow> nat list" where
  "version_key v =
     (let (ns, pre) = parse_version v in
      [version_part ns 0, version_part ns 1, version_part ns 2, if pre then 0 else 1])"

lemma version_ge_key: "version_ge a b \<longleftrightarrow> version_key b \<le> version_key a"
  by (cases "parse_version a"; cases "parse_version b")
    (auto simp: version_ge_def version_key_def split: bool.split)

text \<open>A client that installs what is admitted.\<close>

definition install_step :: "SignedManifest \<Rightarrow> UpdatePolicy \<Rightarrow> UpdatePolicy" where
  "install_step m p = (case admit m p of Inl _ \<Rightarrow> p | Inr _ \<Rightarrow> p\<lparr>up_current_version := sm_version m\<rparr>)"

lemma admit_Inr:
  "admit m p = Inr () \<Longrightarrow>
    \<not> up_local_only_lockdown p \<and> set (sm_required_permissions m) \<subseteq> set (up_granted_permissions p)
    \<and> version_ge (sm_version m) (up_current_version p) \<and> up_active_sessions p = 0"
  by (auto simp: admit_def find_None_iff word_gt_0 split: if_splits option.splits)

section \<open>Startup health as a machine\<close>

text \<open>The outcome of a start, \<open>True\<close> for a success.\<close>

definition health_step :: "bool \<Rightarrow> StartupTracker \<Rightarrow> StartupTracker" where
  "health_step ok t = (if ok then record_success t else snd (record_failure t))"

text \<open>The failures since the last success.\<close>

definition recent_failures :: "bool list \<Rightarrow> nat" where
  "recent_failures xs = length (takeWhile Not (rev xs))"

lemma recent_failures_snoc:
  "recent_failures (xs @ [ok]) = (if ok then 0 else Suc (recent_failures xs))"
  by (simp add: recent_failures_def)

lemma recent_failures_le: "recent_failures xs \<le> length xs"
  by (metis recent_failures_def length_rev length_takeWhile_le)

lemma tracker_run:
  "length xs < 2 ^ 32 \<Longrightarrow>
    run health_step xs StartupTracker_default
      = \<lparr>st_failures = of_nat (recent_failures xs), st_quarantine_after = 3, st_quarantined = (3 \<le> recent_failures xs)\<rparr>"
proof (induction xs rule: rev_induct)
  case Nil
  then show ?case by (simp add: recent_failures_def StartupTracker_default_def)
next
  case (snoc ok xs)
  let ?n = "recent_failures xs"
  have "Suc ?n < 2 ^ 32" using recent_failures_le [of xs] snoc.prems by simp
  then have "(3 :: u32) \<le> of_nat (Suc ?n) \<longleftrightarrow> 3 \<le> Suc ?n"
    unfolding word_le_nat_alt unat_of_nat by simp
  then have le: "(3 :: u32) \<le> 1 + of_nat ?n \<longleftrightarrow> 2 \<le> ?n" by simp
  have "run health_step (xs @ [ok]) StartupTracker_default
      = health_step ok (run health_step xs StartupTracker_default)"
    by (simp add: run_append)
  also have "\<dots> = health_step ok
      \<lparr>st_failures = of_nat ?n, st_quarantine_after = 3, st_quarantined = (3 \<le> ?n)\<rparr>"
    using snoc by simp
  also have "\<dots> = \<lparr>st_failures = of_nat (recent_failures (xs @ [ok])), st_quarantine_after = 3,
      st_quarantined = (3 \<le> recent_failures (xs @ [ok]))\<rparr>"
    by (simp add: recent_failures_snoc health_step_def record_success_def record_failure_def Let_def le add.commute)
  finally show ?case .
qed

section \<open>Properties\<close>

text \<open>
  C23: Only signed manifests are accepted. If the key's holder signed nothing but payloads of published
  manifests, and the writer gives different payloads different bytes, then a manifest that
  verification accepts is one of them in every field but the signature, which the check is about;
  it has the supported schema and its size is within the limit.
\<close>

theorem accepted_was_signed:
  assumes key: "verifying_key key_of v = Inr vk"
    and signed: "\<And>payload sig. verify_strict vk payload sig
        \<Longrightarrow> \<exists>n \<in> published. to_vec (payload_of n) = Inr payload"
    and writer: "\<And>p q bytes. to_vec p = Inr bytes \<Longrightarrow> to_vec q = Inr bytes \<Longrightarrow> p = q"
    and ok: "verify_manifest from_slice to_vec key_of verify_strict bytes v = Inr m"
  shows "length bytes \<le> MAX_MANIFEST_BYTES \<and> sm_schema_version m = SCHEMA_VERSION
    \<and> (\<exists>n \<in> published. m = n\<lparr>sm_signature := sm_signature m\<rparr>)"
proof -
  obtain payload sig where p: "to_vec (payload_of m) = Inr payload" "verify_strict vk payload sig"
    using verify_manifest_Inr [OF ok] key by auto
  obtain n where n: "n \<in> published" "to_vec (payload_of n) = Inr payload" using signed [OF p(2)] by blast
  have "payload_of m = payload_of n" by (rule writer [OF p(1) n(2)])
  then have "m = n\<lparr>sm_signature := sm_signature m\<rparr>" by (simp add: payload_of_inject)
  then show ?thesis using n(1) verify_manifest_Inr [OF ok] by blast
qed

text \<open>A published manifest, with a signature of zeros.\<close>

definition demo_manifest :: SignedManifest where
  "demo_manifest =
     \<lparr>sm_schema_version = 1, sm_lane = CoreApp, sm_channel = Stable, sm_version = ''1.2.3'',
      sm_artifact_sha256 = ''ab'', sm_artifact_size = 4, sm_signature = concat (map hex_byte (replicate 64 0)),
      sm_compat = \<lparr>cp_wiremudder = ''0.1.0'', cp_mudlet = ''4.10.0''\<rparr>, sm_required_permissions = [],
      sm_rollout = None, sm_migration_version = 1\<rparr>"

theorem accepted_was_signed_witness:
  "length ([] :: u8 list) \<le> MAX_MANIFEST_BYTES \<and> sm_schema_version demo_manifest = SCHEMA_VERSION
    \<and> (\<exists>n \<in> {demo_manifest}. demo_manifest = n\<lparr>sm_signature := sm_signature demo_manifest\<rparr>)"
proof -
  let ?to_vec = "\<lambda>p. if p = payload_of demo_manifest then Inr [1] else Inl ''''"
  let ?v = "\<lparr>vf_public_key_hex = concat (map hex_byte (replicate 32 0))\<rparr>"
  have zeros: "parse_hex (concat (map hex_byte (replicate k 0))) k w = Inr (replicate k 0)" for k w
    using parse_hex_iff [of "concat (map hex_byte (replicate k 0))" "replicate k 0" w]
    by (simp only: to_lower_hex length_replicate)
  have key: "verifying_key (\<lambda>raw. Inr ()) ?v = Inr ()"
    by (simp only: verifying_key_def Verifier.simps zeros sum.case)
  have "parse_hex (sm_signature demo_manifest) 64 ''signature'' = Inr (replicate 64 0)"
    by (simp only: demo_manifest_def SignedManifest.simps zeros)
  moreover have "sm_schema_version demo_manifest = SCHEMA_VERSION" "sm_signature demo_manifest \<noteq> []"
    by (simp_all add: demo_manifest_def SCHEMA_VERSION_def hex_byte_def)
  ultimately have ok: "verify_manifest (\<lambda>b. Inr demo_manifest) ?to_vec (\<lambda>raw. Inr ()) (\<lambda>vk p s. p = [1]) [] ?v
      = Inr demo_manifest"
    using key by (simp add: verify_manifest_def canonical_payload_def)
  show ?thesis
    by (rule accepted_was_signed [OF key _ _ ok]) (auto split: if_splits)
qed

text \<open>
  The check of an artifact is that of its decoded hash: it passes exactly when the size is the
  declared one and the declared hash, in either case, decodes to the bytes of the computed one.
\<close>

theorem artifact_check_decodes:
  "verify_artifact sha256 m artifact = Inr ()
    \<longleftrightarrow> of_nat (length artifact) = sm_artifact_size m
      \<and> parse_hex (sm_artifact_sha256 m) (length (sha256 artifact)) what = Inr (sha256 artifact)"
  unfolding parse_hex_iff verify_artifact_def to_lower_hex by auto

text \<open>
  Admitted updates never go back. Whatever manifests a client is offered, if it installs what is
  admitted then its version is at the end at least what it was, in the order of versions, which is
  total; its permissions are unchanged.
\<close>

theorem updates_never_downgrade:
  "version_ge (up_current_version (run install_step ms p)) (up_current_version p)
    \<and> up_granted_permissions (run install_step ms p) = up_granted_permissions p"
proof -
  have "version_key (up_current_version p) \<le> version_key (up_current_version (run install_step ms p))
      \<and> up_granted_permissions (run install_step ms p) = up_granted_permissions p"
  proof (induction ms arbitrary: p)
    case (Cons m ms)
    have "version_key (up_current_version p) \<le> version_key (up_current_version (install_step m p))"
      using admit_Inr [of m p] by (auto simp: install_step_def version_ge_key split: sum.split)
    moreover have "up_granted_permissions (install_step m p) = up_granted_permissions p"
      by (auto simp: install_step_def split: sum.split)
    ultimately show ?case using Cons [of "install_step m p"] by auto
  qed simp
  then show ?thesis by (simp add: version_ge_key)
qed

text \<open>
  A version is quarantined exactly when its last three starts, or more, failed: after any outcomes
  of starts, fewer than the counter holds, the tracker says so.
\<close>

theorem quarantine_is_crash_loop:
  "if length xs < 2 ^ 32
   then st_quarantined (run health_step xs StartupTracker_default) = (3 \<le> recent_failures xs)
   else True"
  by (simp add: tracker_run)

text \<open>
  A resumed download can be sent back: the sum of the received bytes and the length of a chunk wraps
  around, so that a chunk whose announced length is the complement of what was received is accepted
  and leaves a download of nothing.
\<close>

theorem resume_wraps:
  "apply_chunk (rm_bytes_received s) (- rm_bytes_received s) s = Inr (s\<lparr>rm_bytes_received := 0\<rparr>)"
  by (simp add: apply_chunk_def)

text \<open>The compatibility a manifest declares is never read.\<close>

theorem admit_ignores_compat: "admit (m\<lparr>sm_compat := c\<rparr>) p = admit m p"
  by (simp add: admit_def split: option.split)

end
