(* ===== verification/Secrets.thy ===== *)
theory Secrets
  imports Prelude
begin

text \<open>
  The secrets vault, \<open>wirecore/crates/wire-secrets/src/lib.rs\<close>: secret entries, the backend trait with
  its in-memory implementation, and the vault over a backend. The bytes of a value are read as the
  text \<open>from_utf8_lossy\<close> gives for ASCII. A backend is the record of its operations; what the vault
  relies on is the locale \<open>secret_backend\<close>, which the in-memory backend discharges.
\<close>

definition SECRETS_SCHEMA_VERSION :: u32 where "SECRETS_SCHEMA_VERSION = 1"

datatype SecretClass = MudPassword | ProviderToken | RoutingCredential | SshReference | SigningMetadata

fun SecretClass_as_str :: "SecretClass \<Rightarrow> string" where
  "SecretClass_as_str MudPassword = ''mud-password''"
| "SecretClass_as_str ProviderToken = ''provider-token''"
| "SecretClass_as_str RoutingCredential = ''routing-credential''"
| "SecretClass_as_str SshReference = ''ssh-reference''"
| "SecretClass_as_str SigningMetadata = ''signing-metadata''"

record SecretEntry =
  se_id :: string
  se_class :: SecretClass
  se_created_at :: u64
  se_updated_at :: u64
  se_value :: string

definition SecretEntry_new :: "string \<Rightarrow> SecretClass \<Rightarrow> string \<Rightarrow> u64 \<Rightarrow> SecretEntry" where
  "SecretEntry_new i c v now =
     \<lparr>se_id = i, se_class = c, se_created_at = now, se_updated_at = now, se_value = v\<rparr>"

definition SecretEntry_fmt :: "SecretEntry \<Rightarrow> string" where
  "SecretEntry_fmt e =
     ''SecretEntry(id='' @ se_id e @ '', class='' @ SecretClass_as_str (se_class e) @ '', created_at=''
     @ show_nat (unat (se_created_at e)) @ '') [value redacted]''"

datatype SecretVaultError =
    BackendUnavailable
  | SecretNotFound string
  | AlreadyExists string
  | InvalidId string
  | SecretIo string

fun SecretVaultError_fmt :: "SecretVaultError \<Rightarrow> string" where
  "SecretVaultError_fmt BackendUnavailable = ''secret backend unavailable''"
| "SecretVaultError_fmt (SecretNotFound i) = ''secret not found: '' @ i"
| "SecretVaultError_fmt (AlreadyExists i) = ''secret already exists: '' @ i"
| "SecretVaultError_fmt (InvalidId m) = ''invalid secret id: '' @ m"
| "SecretVaultError_fmt (SecretIo m) = ''secret vault io: '' @ m"

section \<open>Backends\<close>

text \<open>The trait: the operations of a backend whose state has the type \<open>'b\<close>.\<close>

record 'b SecretBackend =
  sb_available :: "'b \<Rightarrow> bool"
  sb_store :: "SecretEntry \<Rightarrow> 'b \<Rightarrow> (SecretVaultError + unit) \<times> 'b"
  sb_retrieve :: "string \<Rightarrow> 'b \<Rightarrow> SecretVaultError + SecretEntry"
  sb_delete :: "string \<Rightarrow> 'b \<Rightarrow> (SecretVaultError + unit) \<times> 'b"
  sb_ids :: "'b \<Rightarrow> string list"

record MemoryBackend =
  mb_entries :: "(string, SecretEntry) hash_map"

definition MemoryBackend_new :: MemoryBackend where
  "MemoryBackend_new = \<lparr>mb_entries = []\<rparr>"

definition MemoryBackend_store :: "SecretEntry \<Rightarrow> MemoryBackend \<Rightarrow> (SecretVaultError + unit) \<times> MemoryBackend" where
  "MemoryBackend_store e b =
     (if map_of (mb_entries b) (se_id e) \<noteq> None then (Inl (AlreadyExists (se_id e)), b)
      else (Inr (), b\<lparr>mb_entries := AList.update (se_id e) e (mb_entries b)\<rparr>))"

definition MemoryBackend_retrieve :: "string \<Rightarrow> MemoryBackend \<Rightarrow> SecretVaultError + SecretEntry" where
  "MemoryBackend_retrieve i b =
     (case map_of (mb_entries b) i of None \<Rightarrow> Inl (SecretNotFound i) | Some e \<Rightarrow> Inr e)"

definition MemoryBackend_delete :: "string \<Rightarrow> MemoryBackend \<Rightarrow> (SecretVaultError + unit) \<times> MemoryBackend" where
  "MemoryBackend_delete i b =
     (if map_of (mb_entries b) i = None then (Inl (SecretNotFound i), b)
      else (Inr (), b\<lparr>mb_entries := AList.delete i (mb_entries b)\<rparr>))"

definition MemoryBackend_ids :: "MemoryBackend \<Rightarrow> string list" where
  "MemoryBackend_ids b = sort (map fst (mb_entries b))"

definition memory_backend :: "MemoryBackend SecretBackend" where
  "memory_backend =
     \<lparr>sb_available = (\<lambda>b. True), sb_store = MemoryBackend_store, sb_retrieve = MemoryBackend_retrieve,
      sb_delete = MemoryBackend_delete, sb_ids = MemoryBackend_ids\<rparr>"

section \<open>The vault\<close>

definition SecretVault_store ::
    "'b SecretBackend \<Rightarrow> string \<Rightarrow> SecretClass \<Rightarrow> string \<Rightarrow> u64 \<Rightarrow> 'b \<Rightarrow> (SecretVaultError + unit) \<times> 'b" where
  "SecretVault_store B i c v now b =
     (if length i < 4 \<or> list_ex is_ws i then (Inl (InvalidId i), b)
      else if v = [] then (Inl (InvalidId ''secret value must not be empty''), b)
      else sb_store B (SecretEntry_new i c v now) b)"

definition SecretVault_retrieve :: "'b SecretBackend \<Rightarrow> string \<Rightarrow> 'b \<Rightarrow> SecretVaultError + SecretEntry" where
  "SecretVault_retrieve B i b = sb_retrieve B i b"

definition SecretVault_delete :: "'b SecretBackend \<Rightarrow> string \<Rightarrow> 'b \<Rightarrow> (SecretVaultError + unit) \<times> 'b" where
  "SecretVault_delete B i b = sb_delete B i b"

definition SecretVault_ids :: "'b SecretBackend \<Rightarrow> 'b \<Rightarrow> string list" where
  "SecretVault_ids B b = sb_ids B b"

definition redaction_mark :: "SecretClass \<Rightarrow> string" where
  "redaction_mark c = ''[REDACTED:'' @ SecretClass_as_str c @ '']''"

definition redact_entry :: "SecretEntry \<Rightarrow> string \<Rightarrow> string" where
  "redact_entry e out =
     (if se_value e \<noteq> [] then str_replace (se_value e) (redaction_mark (se_class e)) out else out)"

definition redact_leak :: "'b SecretBackend \<Rightarrow> string \<Rightarrow> 'b \<Rightarrow> string" where
  "redact_leak B txt b =
     foldl (\<lambda>out i. case sb_retrieve B i b of Inr e \<Rightarrow> redact_entry e out | Inl _ \<Rightarrow> out) txt (sb_ids B b)"

section \<open>What a backend promises\<close>

definition lookup :: "'b SecretBackend \<Rightarrow> 'b \<Rightarrow> string \<Rightarrow> SecretEntry option" where
  "lookup B b i = (case sb_retrieve B i b of Inr e \<Rightarrow> Some e | Inl _ \<Rightarrow> None)"

text \<open>The operations of a vault, and what they do to the map of its entries.\<close>

datatype vault_op = VaultStore string SecretClass string u64 | VaultDelete string

fun vault_step :: "'b SecretBackend \<Rightarrow> vault_op \<Rightarrow> 'b \<Rightarrow> 'b" where
  "vault_step B (VaultStore i c v now) b = snd (SecretVault_store B i c v now b)"
| "vault_step B (VaultDelete i) b = snd (SecretVault_delete B i b)"

fun vault_spec :: "vault_op \<Rightarrow> (string \<rightharpoonup> SecretEntry) \<Rightarrow> string \<rightharpoonup> SecretEntry" where
  "vault_spec (VaultStore i c v now) m =
     (if 4 \<le> length i \<and> list_all (\<lambda>c. \<not> is_ws c) i \<and> v \<noteq> [] \<and> m i = None
      then m(i \<mapsto> SecretEntry_new i c v now) else m)"
| "vault_spec (VaultDelete i) m = m(i := None)"

locale secret_backend =
  fixes B :: "'b SecretBackend"
    and inv :: "'b \<Rightarrow> bool"
  assumes ids: "inv b \<Longrightarrow> set (sb_ids B b) = dom (lookup B b)"
    and store: "inv b \<Longrightarrow> lookup B (snd (sb_store B e b)) = (if lookup B b (se_id e) = None
          then (lookup B b)(se_id e \<mapsto> e) else lookup B b)"
    and store_inv: "inv b \<Longrightarrow> inv (snd (sb_store B e b))"
    and delete: "inv b \<Longrightarrow> lookup B (snd (sb_delete B i b)) = (lookup B b)(i := None)"
    and delete_inv: "inv b \<Longrightarrow> inv (snd (sb_delete B i b))"
begin

lemma vault_inv: "inv b \<Longrightarrow> inv (vault_step B x b)"
  by (cases x) (simp_all add: SecretVault_store_def SecretVault_delete_def store_inv delete_inv)

lemma vault_refines: "inv b \<Longrightarrow> lookup B (vault_step B x b) = vault_spec x (lookup B b)"
  by (cases x)
    (auto simp: SecretVault_store_def SecretVault_delete_def store delete SecretEntry_new_def list_ex_iff list_all_iff)

lemma vault_run: "inv b \<Longrightarrow> lookup B (run (vault_step B) xs b) = run vault_spec xs (lookup B b)"
  by (induction xs arbitrary: b) (simp_all add: vault_refines vault_inv)

lemma run_inv: "inv b \<Longrightarrow> inv (run (vault_step B) xs b)"
  by (induction xs arbitrary: b) (simp_all add: vault_inv)

lemma redact_leak_entries:
  assumes "inv b"
  shows "redact_leak B txt b = foldl (\<lambda>out i. redact_entry (the (lookup B b i)) out) txt (sb_ids B b)"
  unfolding redact_leak_def
proof (rule foldl_cong [OF refl refl])
  fix out i
  assume "i \<in> set (sb_ids B b)"
  then show "(case sb_retrieve B i b of Inr e \<Rightarrow> redact_entry e out | Inl _ \<Rightarrow> out)
      = redact_entry (the (lookup B b i)) out"
    using ids [OF assms] by (auto simp: lookup_def split: sum.splits)
qed

lemma redact_complete:
  assumes inv: "inv b" and some: "lookup B b i = Some e" and ne: "se_value e \<noteq> []"
    and apart: "\<And>j e'. lookup B b j = Some e' \<Longrightarrow> apart (se_value e) (redaction_mark (se_class e'))"
  shows "\<not> str_contains (redact_leak B txt b) (se_value e)"
proof -
  let ?f = "\<lambda>out i. redact_entry (the (lookup B b i)) out"
  have keep: "\<not> str_contains (foldl ?f out js) (se_value e)"
    if "\<not> str_contains out (se_value e)" "set js \<subseteq> dom (lookup B b)" for out js
    using that
  proof (induction js arbitrary: out)
    case (Cons j js)
    then obtain e' where e': "lookup B b j = Some e'" by auto
    have "\<not> str_contains (redact_entry e' out) (se_value e)"
      using Cons.prems(1) str_replace_keeps_out [OF apart [OF e']] by (auto simp: redact_entry_def)
    then show ?case using Cons e' by simp
  qed simp
  have "i \<in> set (sb_ids B b)" using ids [OF inv] some by auto
  then obtain xs ys where sp: "sb_ids B b = xs @ i # ys" by (auto simp: in_set_conv_decomp)
  have "\<not> str_contains (redact_entry e (foldl ?f txt xs)) (se_value e)"
    using str_replace_removes [OF apart [OF some]] ne by (simp add: redact_entry_def)
  moreover have "set ys \<subseteq> dom (lookup B b)" unfolding ids [OF inv, symmetric] sp by auto
  ultimately show ?thesis unfolding redact_leak_entries [OF inv] sp using some by (simp add: keep)
qed

end

lemma memory_ops [simp]:
  "sb_store memory_backend = MemoryBackend_store" "sb_retrieve memory_backend = MemoryBackend_retrieve"
  "sb_delete memory_backend = MemoryBackend_delete" "sb_ids memory_backend = MemoryBackend_ids"
  by (simp_all add: memory_backend_def)

lemma lookup_memory: "lookup memory_backend b = map_of (mb_entries b)"
  by (auto simp: lookup_def MemoryBackend_retrieve_def fun_eq_iff split: option.split)

interpretation memory: secret_backend memory_backend "\<lambda>b. True"
proof
  fix b :: MemoryBackend and e :: SecretEntry and i :: string
  show "set (sb_ids memory_backend b) = dom (lookup memory_backend b)"
    by (simp add: lookup_memory MemoryBackend_ids_def dom_map_of_conv_image_fst)
  show "lookup memory_backend (snd (sb_store memory_backend e b))
      = (if lookup memory_backend b (se_id e) = None then (lookup memory_backend b)(se_id e \<mapsto> e)
         else lookup memory_backend b)"
    unfolding lookup_memory by (simp add: MemoryBackend_store_def)
  show "lookup memory_backend (snd (sb_delete memory_backend i b)) = (lookup memory_backend b)(i := None)"
    unfolding lookup_memory by (simp add: MemoryBackend_delete_def fun_upd_idem)
qed simp_all

section \<open>Properties\<close>

text \<open>
  No stored secret gets out of redaction. After any sequence of stores and deletions, from whatever
  text, the redacted text contains no stored value, provided that the value has neither bracket
  among its characters and is no part of one of the five marks.
\<close>

theorem redaction_complete:
  assumes "lookup memory_backend b i = Some e"
    and "b = run (vault_step memory_backend) ops MemoryBackend_new"
    and "list_all (\<lambda>c. apart (se_value e) (redaction_mark c))
      [MudPassword, ProviderToken, RoutingCredential, SshReference, SigningMetadata]"
  shows "\<not> str_contains (redact_leak memory_backend txt b) (se_value e)"
proof (rule memory.redact_complete [OF TrueI assms(1)])
  show "se_value e \<noteq> []" using assms(3) by (simp add: apart_def)
  show "apart (se_value e) (redaction_mark (se_class e'))" for e' :: SecretEntry
    using assms(3) by (cases "se_class e'") simp_all
qed

theorem redaction_complete_witness:
  "\<not> str_contains (redact_leak memory_backend ''login hunter2''
     (run (vault_step memory_backend) [VaultStore ''mud-main'' MudPassword ''hunter2'' 1] MemoryBackend_new))
     ''hunter2''"
proof -
  let ?b = "run (vault_step memory_backend) [VaultStore ''mud-main'' MudPassword ''hunter2'' 1] MemoryBackend_new"
  let ?e = "SecretEntry_new ''mud-main'' MudPassword ''hunter2'' 1"
  have some: "lookup memory_backend ?b ''mud-main'' = Some ?e"
    by (simp add: lookup_memory SecretVault_store_def MemoryBackend_store_def
        MemoryBackend_new_def SecretEntry_new_def is_ws_def)
  have all: "list_all (\<lambda>c. apart (se_value ?e) (redaction_mark c))
      [MudPassword, ProviderToken, RoutingCredential, SshReference, SigningMetadata]"
    by code_simp
  have "se_value ?e = ''hunter2''" by (simp add: SecretEntry_new_def)
  then show ?thesis using redaction_complete [OF some refl all, of "''login hunter2''"] by metis
qed

text \<open>
  Redaction is not always complete. Of two secrets, one the beginning of the other, the remainder of
  the longer one is left when the shorter one comes first; and a secret that is a part of a mark is
  put into the text by redaction.
\<close>

theorem redaction_incomplete:
  "redact_leak memory_backend ''send abcdef now''
     (run (vault_step memory_backend)
        [VaultStore ''a-short'' MudPassword ''abc'' 1, VaultStore ''b-long'' ProviderToken ''abcdef'' 1]
        MemoryBackend_new)
     = ''send [REDACTED:mud-password]def now''
   \<and> str_contains (redact_leak memory_backend ''my pass''
       (run (vault_step memory_backend) [VaultStore ''word'' MudPassword ''pass'' 1] MemoryBackend_new)) ''pass''"
  by code_simp

text \<open>
  The vault stores what it is told. After any sequence of operations, its entries are those of the
  map that keeps the first store of an id, refuses short ids, ids with white space and empty values,
  and forgets what is deleted; retrieval answers from that map.
\<close>

theorem vault_is_map:
  "SecretVault_retrieve memory_backend i (run (vault_step memory_backend) ops MemoryBackend_new)
    = (case run vault_spec ops Map.empty i of Some e \<Rightarrow> Inr e | None \<Rightarrow> Inl (SecretNotFound i))"
proof -
  let ?b = "run (vault_step memory_backend) ops MemoryBackend_new"
  have "lookup memory_backend ?b = run vault_spec ops Map.empty"
    using memory.vault_run [OF TrueI, of ops MemoryBackend_new]
    by (simp add: lookup_memory MemoryBackend_new_def)
  then have "map_of (mb_entries ?b) i = run vault_spec ops Map.empty i" by (simp add: lookup_memory)
  then show ?thesis
    by (simp add: SecretVault_retrieve_def MemoryBackend_retrieve_def split: option.split)
qed

end
