(* ===== verification/VaultQt.thy ===== *)
theory VaultQt
  imports Secrets
begin

text \<open>
  The Qt secrets vault, \<open>src/wiremudder/privacy/secret_vault\<close>. The keychain of the system is a
  parameter, the record of what its read, write and delete jobs do to its state; a job that fails or
  times out reads nothing. Without it the vault works on its own memory, and then it mirrors the
  core's vault over its in-memory backend. The list of ids stands for the order of the \<open>QSet\<close>.
\<close>

record 'k Keychain =
  kc_read :: "string \<Rightarrow> 'k \<Rightarrow> string option"
  kc_write :: "string \<Rightarrow> string \<Rightarrow> 'k \<Rightarrow> bool \<times> 'k"
  kc_delete :: "string \<Rightarrow> 'k \<Rightarrow> 'k"

record SecretVaultQt =
  sv_osBackend :: bool
  sv_memory :: "(string, string) hash_map"
  sv_ids :: "string list"

fun classToStr :: "SecretClass \<Rightarrow> string" where
  "classToStr MudPassword = ''mud-password''"
| "classToStr ProviderToken = ''provider-token''"
| "classToStr RoutingCredential = ''routing-credential''"
| "classToStr SshReference = ''ssh-reference''"
| "classToStr SigningMetadata = ''signing-metadata''"

definition SecretVaultQt_new :: "'k Keychain \<Rightarrow> 'k \<Rightarrow> SecretVaultQt" where
  "SecretVaultQt_new K k =
     \<lparr>sv_osBackend = (kc_read K ''__wm_vault_probe__'' k \<noteq> None), sv_memory = [], sv_ids = []\<rparr>"

definition SecretVaultQt_store ::
    "'k Keychain \<Rightarrow> string \<Rightarrow> SecretClass \<Rightarrow> string \<Rightarrow> SecretVaultQt \<times> 'k \<Rightarrow> bool \<times> SecretVaultQt \<times> 'k" where
  "SecretVaultQt_store K i cls value s =
     (let (v, k) = s in
      if length i < 4 \<or> value = [] then (False, v, k)
      else if i \<in> set (sv_ids v) then (False, v, k)
      else
        let payload = classToStr cls @ '':'' @ value;
            (ok, k') = (if sv_osBackend v then kc_write K i payload k else (True, k)) in
        if \<not> ok then (False, v, k')
        else (True, v\<lparr>sv_memory := AList.update i payload (sv_memory v), sv_ids := sv_ids v @ [i]\<rparr>, k'))"

definition SecretVaultQt_retrieve :: "'k Keychain \<Rightarrow> string \<Rightarrow> SecretVaultQt \<times> 'k \<Rightarrow> string" where
  "SecretVaultQt_retrieve K i s =
     (let (v, k) = s in
      case (if sv_osBackend v then kc_read K i k else map_of (sv_memory v) i) of
        None \<Rightarrow> []
      | Some payload \<Rightarrow> (if CHR '':'' \<in> set payload then tl (dropWhile (\<lambda>c. c \<noteq> CHR '':'') payload) else []))"

definition SecretVaultQt_remove :: "'k Keychain \<Rightarrow> string \<Rightarrow> SecretVaultQt \<times> 'k \<Rightarrow> bool \<times> SecretVaultQt \<times> 'k" where
  "SecretVaultQt_remove K i s =
     (let (v, k) = s in
      if i \<notin> set (sv_ids v) then (False, v, k)
      else (True, v\<lparr>sv_memory := AList.delete i (sv_memory v), sv_ids := filter (\<lambda>j. j \<noteq> i) (sv_ids v)\<rparr>,
            if sv_osBackend v then kc_delete K i k else k))"

definition SecretVaultQt_ids :: "SecretVaultQt \<Rightarrow> string list" where
  "SecretVaultQt_ids v = sort (sv_ids v)"

definition SecretVaultQt_redactLeak :: "'k Keychain \<Rightarrow> string \<Rightarrow> SecretVaultQt \<times> 'k \<Rightarrow> string" where
  "SecretVaultQt_redactLeak K txt s =
     foldl (\<lambda>out i. let value = SecretVaultQt_retrieve K i s in
         if value \<noteq> [] then str_replace value ''[REDACTED:secret]'' out else out)
       txt (sv_ids (fst s))"

section \<open>The vault as a mirror of the core\<close>

fun vaultqt_step :: "'k Keychain \<Rightarrow> vault_op \<Rightarrow> SecretVaultQt \<times> 'k \<Rightarrow> SecretVaultQt \<times> 'k" where
  "vaultqt_step K (VaultStore i c v now) s = snd (SecretVaultQt_store K i c v s)"
| "vaultqt_step K (VaultDelete i) s = snd (SecretVaultQt_remove K i s)"

text \<open>Operations on ids without white space, the only ids on which the two differ.\<close>

fun plain_id :: "vault_op \<Rightarrow> bool" where
  "plain_id (VaultStore i c v now) = list_all (\<lambda>c. \<not> is_ws c) i"
| "plain_id (VaultDelete i) = True"

definition payload_text :: "SecretEntry \<Rightarrow> string" where
  "payload_text e = classToStr (se_class e) @ '':'' @ se_value e"

definition vault_rel :: "SecretVaultQt \<times> 'k \<Rightarrow> MemoryBackend \<Rightarrow> bool" where
  "vault_rel s b \<longleftrightarrow>
     \<not> sv_osBackend (fst s)
     \<and> map_of (sv_memory (fst s)) = (\<lambda>i. map_option payload_text (map_of (mb_entries b) i))
     \<and> set (sv_ids (fst s)) = set (map fst (mb_entries b))
     \<and> distinct (sv_ids (fst s)) \<and> distinct (map fst (mb_entries b))"

lemma after_colon:
  "tl (dropWhile (\<lambda>c. c \<noteq> CHR '':'') (classToStr c @ CHR '':'' # v)) = v"
  by (cases c) simp_all

lemma vault_rel_step:
  "vault_rel s b \<Longrightarrow> plain_id x \<Longrightarrow> vault_rel (vaultqt_step K x s) (vault_step memory_backend x b)"
proof (cases x)
  case (VaultStore i c v now)
  assume r: "vault_rel s b" and p: "plain_id x"
  then have ex: "\<not> list_ex is_ws i" using VaultStore by (auto simp: list_ex_iff list_all_iff)
  have mem: "i \<in> set (sv_ids (fst s)) \<longleftrightarrow> map_of (mb_entries b) i \<noteq> None"
    using r by (auto simp: vault_rel_def map_of_eq_None_iff)
  show ?thesis
  proof (cases "length i < 4 \<or> v = [] \<or> map_of (mb_entries b) i \<noteq> None")
    case True
    then show ?thesis
      using r mem VaultStore ex
      by (cases s) (auto simp: SecretVaultQt_store_def SecretVault_store_def MemoryBackend_store_def SecretEntry_new_def Let_def)
  next
    case False
    then show ?thesis
      using r mem VaultStore ex
      by (cases s)
        (auto simp: SecretVaultQt_store_def SecretVault_store_def MemoryBackend_store_def Let_def
          vault_rel_def payload_text_def SecretEntry_new_def update_fresh fun_eq_iff map_add_def
          split: option.split)
  qed
next
  case (VaultDelete i)
  assume r: "vault_rel s b" and p: "plain_id x"
  have mem: "i \<in> set (sv_ids (fst s)) \<longleftrightarrow> map_of (mb_entries b) i \<noteq> None"
    using r by (auto simp: vault_rel_def map_of_eq_None_iff)
  show ?thesis
  proof (cases "map_of (mb_entries b) i")
    case None
    then show ?thesis
      using r mem VaultDelete by (cases s) (auto simp: SecretVaultQt_remove_def SecretVault_delete_def MemoryBackend_delete_def)
  next
    case (Some e)
    then show ?thesis
      using r mem VaultDelete
      by (cases s)
        (auto simp: SecretVaultQt_remove_def SecretVault_delete_def MemoryBackend_delete_def vault_rel_def
          fun_eq_iff distinct_delete set_delete_alist)
  qed
qed

interpretation vault_mirror: simulation "vaultqt_step K" "vault_step memory_backend" "\<lambda>x. x"
    "vault_rel :: SecretVaultQt \<times> 'k \<Rightarrow> MemoryBackend \<Rightarrow> bool" plain_id
  for K :: "'k Keychain"
  by unfold_locales (rule vault_rel_step)

lemma vault_rel_retrieve:
  "vault_rel s b \<Longrightarrow> SecretVaultQt_retrieve K i s
    = (case SecretVault_retrieve memory_backend i b of Inr e \<Rightarrow> se_value e | Inl _ \<Rightarrow> [])"
  by (cases s; cases "map_of (mb_entries b) i")
    (auto simp: SecretVaultQt_retrieve_def SecretVault_retrieve_def MemoryBackend_retrieve_def vault_rel_def
      payload_text_def after_colon)

lemma vault_rel_ids: "vault_rel s b \<Longrightarrow> SecretVaultQt_ids (fst s) = SecretVault_ids memory_backend b"
  unfolding SecretVaultQt_ids_def SecretVault_ids_def memory_ops MemoryBackend_ids_def
  by (rule sorted_distinct_set_unique) (auto simp: vault_rel_def)

section \<open>Properties\<close>

text \<open>
  Without a keychain the Qt vault agrees with the core's vault. After any sequence of stores, on ids
  without white space, and removals, it lists the same ids, retrieves the value of the core's entry
  and nothing where the core finds none.
\<close>

theorem vaults_agree:
  assumes "list_all plain_id ops" and "kc_read K ''__wm_vault_probe__'' k = None"
  shows "(let s = run (vaultqt_step K) ops (SecretVaultQt_new K k, k);
      b = run (vault_step memory_backend) ops MemoryBackend_new in
    SecretVaultQt_ids (fst s) = SecretVault_ids memory_backend b
    \<and> SecretVaultQt_retrieve K i s
      = (case SecretVault_retrieve memory_backend i b of Inr e \<Rightarrow> se_value e | Inl _ \<Rightarrow> []))"
proof -
  have "vault_rel (SecretVaultQt_new K k, k) MemoryBackend_new"
    using assms(2) by (simp add: vault_rel_def SecretVaultQt_new_def MemoryBackend_new_def)
  then have "vault_rel (run (vaultqt_step K) ops (SecretVaultQt_new K k, k))
      (run (vault_step memory_backend) ops MemoryBackend_new)"
    using vault_mirror.sim_run [OF _ assms(1)] by simp
  from vault_rel_retrieve [OF this, of K i] vault_rel_ids [OF this] show ?thesis by (simp add: Let_def)
qed

text \<open>A keychain with no entry, and one store.\<close>

definition no_keychain :: "unit Keychain" where
  "no_keychain = \<lparr>kc_read = (\<lambda>i k. None), kc_write = (\<lambda>i p k. (False, k)), kc_delete = (\<lambda>i k. k)\<rparr>"

theorem vaults_agree_witness:
  "(let s = run (vaultqt_step no_keychain) [VaultStore ''mud-main'' MudPassword ''hunter2'' 1]
          (SecretVaultQt_new no_keychain (), ());
      b = run (vault_step memory_backend) [VaultStore ''mud-main'' MudPassword ''hunter2'' 1] MemoryBackend_new in
    SecretVaultQt_ids (fst s) = SecretVault_ids memory_backend b
    \<and> SecretVaultQt_retrieve no_keychain ''mud-main'' s
      = (case SecretVault_retrieve memory_backend ''mud-main'' b of Inr e \<Rightarrow> se_value e | Inl _ \<Rightarrow> []))"
  by (rule vaults_agree) (simp_all add: no_keychain_def is_ws_def)

text \<open>
  A keychain is found only by what is already in it: the vault uses it if and only if it holds an
  entry under the key of the probe, which no operation of the vault is known to write.
\<close>

theorem keychain_needs_probe_entry:
  "sv_osBackend (SecretVaultQt_new K k) = (kc_read K ''__wm_vault_probe__'' k \<noteq> None)"
  by (simp add: SecretVaultQt_new_def)

end
