(* ===== verification/Calendar.thy ===== *)
theory Calendar
  imports Main
begin

text \<open>
  The date of a time stamp, from \<open>now_iso8601\<close> in \<open>wirecore/crates/wire-replay/src/lib.rs\<close>, and the
  calendar it computes: days are counted in eras of 400 years that begin on the first of March.
\<close>

section \<open>The code\<close>

text \<open>
  The code computes on \<open>i64\<close> and \<open>u64\<close> values that stay small; the branch for days before the first
  era is not reached, since the clock counts from 1970.
\<close>

definition civil_from_days :: "nat \<Rightarrow> nat \<times> nat \<times> nat" where
  "civil_from_days days =
     (let z = days + 719468;
          era = z div 146097;
          doe = z - era * 146097;
          yoe = (doe - doe div 1460 + doe div 36524 - doe div 146096) div 365;
          y = yoe + era * 400;
          doy = doe - (365 * yoe + yoe div 4 - yoe div 100);
          mp = (5 * doy + 2) div 153;
          d = doy - (153 * mp + 2) div 5 + 1;
          m = (if mp < 10 then mp + 3 else mp - 9);
          y = (if m \<le> 2 then y + 1 else y) in
      (y, m, d))"

section \<open>The calendar\<close>

definition is_leap :: "nat \<Rightarrow> bool" where
  "is_leap y \<longleftrightarrow> 4 dvd y \<and> \<not> 100 dvd y \<or> 400 dvd y"

definition days_in_month :: "nat \<Rightarrow> nat \<Rightarrow> nat" where
  "days_in_month y m =
     (if m = 2 then (if is_leap y then 29 else 28) else if m \<in> {4, 6, 9, 11} then 30 else 31)"

definition next_day :: "nat \<times> nat \<times> nat \<Rightarrow> nat \<times> nat \<times> nat" where
  "next_day t =
     (let (y, m, d) = t in
      if d < days_in_month y m then (y, m, d + 1) else if m < 12 then (y, m + 1, 1) else (y + 1, 1, 1))"

section \<open>Years of an era\<close>

definition yoe_days :: "nat \<Rightarrow> nat" where
  "yoe_days doe = doe - doe div 1460 + doe div 36524 - doe div 146096"

text \<open>The first day of a year, and the day after its last one.\<close>

definition year_start :: "nat \<Rightarrow> nat" where
  "year_start y = 365 * y + y div 4 - y div 100"

definition year_end :: "nat \<Rightarrow> nat" where
  "year_end y = (if y = 399 then 146097 else year_start (Suc y))"

lemma yoe_days_step: "yoe_days d \<le> yoe_days (Suc d)"
proof -
  have step: "d - a + b - c \<le> Suc d - (if p then Suc a else a) + (if q then Suc b else b) - (if r then Suc c else c)"
    if "a \<le> d" "c \<le> b" "r \<Longrightarrow> q" for a b c :: nat and p q r using that by auto
  have "d div 1460 \<le> d" "d div 146096 \<le> d div 36524"
    using div_le_mono2 [of 36524 146096 d] by simp_all
  moreover have "36524 dvd (146096 :: nat)" by simp
  then have "Suc d mod 146096 = 0 \<Longrightarrow> Suc d mod 36524 = 0" by (meson dvd_trans mod_0_imp_dvd dvd_imp_mod_0)
  ultimately show ?thesis unfolding yoe_days_def div_Suc by (rule step)
qed

lemma yoe_days_mono: "c \<le> d \<Longrightarrow> yoe_days c \<le> yoe_days d"
  by (rule lift_Suc_mono_le [of yoe_days]) (rule yoe_days_step)

definition year_ok :: "nat \<Rightarrow> bool" where
  "year_ok y \<longleftrightarrow>
     365 * y \<le> yoe_days (year_start y) \<and> yoe_days (year_end y - 1) < 365 * Suc y
     \<and> year_end y = year_start y + (if is_leap (Suc y) then 366 else 365)"

lemmas year_defs = year_ok_def yoe_days_def year_start_def year_end_def is_leap_def

lemma upt_all: "list_all P [a..<b] \<Longrightarrow> a \<le> n \<Longrightarrow> n < b \<Longrightarrow> P n"
  by (simp add: list_all_iff)

lemma years_ok_0: "y < 2 \<Longrightarrow> year_ok y"
proof -
  have "year_ok 0" "year_ok 1" by (simp_all add: year_defs dvd_eq_mod_eq_0)
  then show "y < 2 \<Longrightarrow> year_ok y" by (cases y) (auto simp: less_Suc_eq numeral_2_eq_2)
qed

lemma years_ok_1: "list_all year_ok [2..<100]"
  by (simp add: upt_rec_numeral year_defs)

lemma years_ok_2: "list_all year_ok [100..<200]"
  by (simp add: upt_rec_numeral year_defs)

lemma years_ok_3: "list_all year_ok [200..<300]"
  by (simp add: upt_rec_numeral year_defs)

lemma years_ok_4: "list_all year_ok [300..<400]"
  by (simp add: upt_rec_numeral year_defs)

lemma years_ok: "y < 400 \<Longrightarrow> year_ok y"
  using years_ok_0 [of y] upt_all [OF years_ok_1, of y] upt_all [OF years_ok_2, of y]
    upt_all [OF years_ok_3, of y] upt_all [OF years_ok_4, of y]
  by linarith

text \<open>Every day of an era is in one of its years.\<close>

lemma year_exists: "d < year_start n \<Longrightarrow> \<exists>y < n. year_start y \<le> d \<and> d < year_start (Suc y)"
proof (induction n)
  case (Suc n)
  then show ?case by (cases "d < year_start n") (auto simp: less_Suc_eq)
qed (simp add: year_start_def)

definition yoe :: "nat \<Rightarrow> nat" where
  "yoe doe = yoe_days doe div 365"

lemma yoe_unique:
  assumes "y < 400" "year_start y \<le> d" "d < year_end y"
  shows "yoe d = y"
proof -
  have "365 * y \<le> yoe_days d" "yoe_days d < 365 * Suc y"
  proof -
    have "d \<le> year_end y - 1" using assms(3) by linarith
    then have "yoe_days d \<le> yoe_days (year_end y - 1)" by (rule yoe_days_mono)
    then show "365 * y \<le> yoe_days d" "yoe_days d < 365 * Suc y"
      using years_ok [OF assms(1)] yoe_days_mono [OF assms(2)] unfolding year_ok_def by linarith+
  qed
  then show ?thesis unfolding yoe_def by (intro div_nat_eqI) simp_all
qed

lemma yoe_bounds:
  assumes "d < 146097"
  shows "yoe d < 400 \<and> year_start (yoe d) \<le> d \<and> d < year_end (yoe d)"
proof -
  have "\<exists>y < 400. year_start y \<le> d \<and> d < year_end y"
  proof (cases "d < year_start 400")
    case True
    then obtain y where "y < 400" "year_start y \<le> d" "d < year_start (Suc y)" using year_exists by blast
    then show ?thesis using assms by (intro exI [of _ y]) (simp add: year_end_def)
  next
    case False
    then show ?thesis using assms by (intro exI [of _ 399]) (simp add: year_end_def year_start_def)
  qed
  then show ?thesis using yoe_unique by metis
qed

section \<open>Days of a year\<close>

text \<open>Month and day of the month by the day of a year that begins in March.\<close>

definition month_day :: "nat \<Rightarrow> nat \<times> nat" where
  "month_day doy =
     (let mp = (5 * doy + 2) div 153 in
      (if mp < 10 then mp + 3 else mp - 9, doy - (153 * mp + 2) div 5 + 1))"

definition month_day_ok :: "nat \<Rightarrow> bool" where
  "month_day_ok doy \<longleftrightarrow>
     (let (m, d) = month_day doy; (m', d') = month_day (Suc doy) in
      if m = 2 then d < 28 \<and> m' = 2 \<and> d' = d + 1
      else if d < (if m \<in> {4, 6, 9, 11} then 30 else 31) then m' = m \<and> d' = d + 1
      else d' = 1 \<and> m' = (if m < 12 then m + 1 else 1))
     \<and> fst (month_day doy) \<in> {1..12}"

lemma month_days_ok_0: "doy < 2 \<Longrightarrow> month_day_ok doy"
  by (auto simp: month_day_ok_def month_day_def Let_def less_Suc_eq numeral_2_eq_2)

lemma month_days_ok_1: "list_all month_day_ok [2..<364]"
  by (simp add: upt_rec_numeral month_day_ok_def month_day_def Let_def)

lemma month_days_ok: "doy < 364 \<Longrightarrow> month_day_ok doy"
  using month_days_ok_0 [of doy] upt_all [OF month_days_ok_1, of doy] by linarith

section \<open>Dates\<close>

text \<open>The date of a day of an era, as the code computes it.\<close>

definition date :: "nat \<Rightarrow> nat \<Rightarrow> nat \<times> nat \<times> nat" where
  "date era doe =
     (let y = yoe doe + era * 400; (m, d) = month_day (doe - year_start (yoe doe)) in
      (if m \<le> 2 then y + 1 else y, m, d))"

lemma civil_from_days_date: "civil_from_days n = date ((n + 719468) div 146097) ((n + 719468) mod 146097)"
  unfolding civil_from_days_def date_def yoe_def yoe_days_def year_start_def month_day_def Let_def
    minus_div_mult_eq_mod prod.case by (rule refl)

lemma leap_in_era: "is_leap (y + era * 400) = is_leap y"
proof -
  have "4 dvd era * 400" "100 dvd era * 400" "400 dvd era * 400" by (simp_all add: dvd_mult)
  then show ?thesis by (simp add: is_leap_def dvd_add_left_iff)
qed

lemma days_in_year:
  "y < 400 \<Longrightarrow> year_end y = year_start y + (if is_leap (Suc (y + era * 400)) then 366 else 365)"
  using years_ok [of y] leap_in_era [of "Suc y" era] by (simp add: year_ok_def)

text \<open>The next day within a year, and over its end.\<close>

lemma date_in_year:
  assumes "d < 146097" and "Suc d < year_end (yoe d)"
  shows "date era (Suc d) = next_day (date era d)"
proof -
  let ?y = "yoe d" let ?doy = "d - year_start ?y"
  have b: "?y < 400" "year_start ?y \<le> d" using yoe_bounds [OF assms(1)] by simp_all
  have same: "yoe (Suc d) = ?y" using b assms(2) by (intro yoe_unique) simp_all
  have suc: "Suc d - year_start ?y = Suc ?doy" using b(2) by simp
  show ?thesis
  proof (cases "?doy < 364")
    case True
    obtain m e where me: "month_day ?doy = (m, e)" by (cases "month_day ?doy")
    obtain m' e' where me': "month_day (Suc ?doy) = (m', e')" by (cases "month_day (Suc ?doy)")
    show ?thesis
      using month_days_ok [OF True] me me'
      by (auto simp: month_day_ok_def date_def same suc next_day_def days_in_month_def Let_def split: if_splits)
  next
    case False
    have len: "Suc ?doy < (if is_leap (Suc (?y + era * 400)) then 366 else 365)"
      using assms(2) days_in_year [OF b(1), of era] b(2) by linarith
    with False have "?doy = 364" "is_leap (Suc (?y + era * 400))" by (simp_all split: if_splits)
    moreover have "month_day 364 = (2, 28)" "month_day (Suc 364) = (2, 29)" by (simp_all add: month_day_def)
    ultimately show ?thesis by (simp add: date_def same suc next_day_def days_in_month_def Let_def)
  qed
qed

lemma date_year_end:
  assumes "d < 146097" and "Suc d = year_end (yoe d)"
  shows "next_day (date era d) = (Suc (yoe d + era * 400), 3, 1)"
proof -
  let ?y = "yoe d" let ?doy = "d - year_start ?y"
  have b: "?y < 400" "year_start ?y \<le> d" using yoe_bounds [OF assms(1)] by simp_all
  have "?doy = (if is_leap (Suc (?y + era * 400)) then 365 else 364)"
    using assms(2) days_in_year [OF b(1), of era] b(2) by (simp split: if_splits)
  moreover have "month_day 364 = (2, 28)" "month_day 365 = (2, 29)" by (simp_all add: month_day_def)
  ultimately show ?thesis by (simp add: date_def next_day_def days_in_month_def Let_def)
qed

lemma date_year_start: "y < 400 \<Longrightarrow> date era (year_start y) = (y + era * 400, 3, 1)"
proof -
  assume y: "y < 400"
  have "yoe (year_start y) = y"
    using y years_ok [OF y] by (intro yoe_unique) (simp_all add: year_ok_def)
  then show ?thesis by (simp add: date_def month_day_def)
qed

lemma civil_step: "civil_from_days (Suc n) = next_day (civil_from_days n)"
proof -
  let ?z = "n + 719468" let ?d = "?z mod 146097" and ?era = "?z div 146097"
  have d: "?d < 146097" by simp
  have shift: "Suc n + 719468 = Suc ?z" by simp
  show ?thesis
  proof (cases "Suc ?d = 146097")
    case True
    then have succ: "Suc ?z div 146097 = Suc ?era" "Suc ?z mod 146097 = 0"
      by (simp_all only: div_Suc mod_Suc if_True refl)
    have "yoe ?d = 399" using True by (intro yoe_unique) (simp_all add: year_start_def year_end_def)
    then have "next_day (date ?era ?d) = (Suc (399 + ?era * 400), 3, 1)"
      using date_year_end [OF d, of ?era] True by (simp add: year_end_def)
    moreover have "date (Suc ?era) 0 = (Suc ?era * 400, 3, 1)"
      using date_year_start [of 0 "Suc ?era"] by (simp add: year_start_def)
    ultimately show ?thesis unfolding civil_from_days_date shift succ by simp
  next
    case False
    then have succ: "Suc ?z div 146097 = ?era" "Suc ?z mod 146097 = Suc ?d"
      by (simp_all only: div_Suc mod_Suc if_False nat.distinct)
    have "date ?era (Suc ?d) = next_day (date ?era ?d)"
    proof (cases "Suc ?d < year_end (yoe ?d)")
      case True
      then show ?thesis by (rule date_in_year [OF d])
    next
      case last: False
      then have e: "Suc ?d = year_end (yoe ?d)" using yoe_bounds [OF d] by linarith
      then have "yoe ?d \<noteq> 399" using False by (auto simp: year_end_def)
      then have "Suc ?d = year_start (Suc (yoe ?d))" "Suc (yoe ?d) < 400"
        using e yoe_bounds [OF d] by (simp_all add: year_end_def)
      then show ?thesis using date_year_start [of "Suc (yoe ?d)" ?era] date_year_end [OF d e, of ?era] by simp
    qed
    then show ?thesis unfolding civil_from_days_date shift succ .
  qed
qed

section \<open>Properties\<close>

text \<open>
  C25: The date is the one of the calendar: the date after a number of days is what stepping day by day
  from the first of January 1970 gives, with the Gregorian months and leap years.
\<close>

theorem civil_is_calendar: "civil_from_days n = (next_day ^^ n) (1970, 1, 1)"
proof (induction n)
  case 0
  have "yoe 135080 = 369" by (simp add: yoe_def yoe_days_def)
  moreover have "year_start 369 = 134774" by (simp add: year_start_def)
  moreover have "month_day 306 = (1, 1)" by (simp add: month_day_def)
  ultimately show ?case by (simp add: civil_from_days_date date_def)
next
  case (Suc n)
  then show ?case by (simp add: civil_step)
qed

end
