(* ===== verification/Replay.thy ===== *)
theory Replay
  imports Scan Calendar
begin

text \<open>
  Session replay, diagnostic bundles and sanitized fixtures, \<open>wirecore/crates/wire-replay/src/lib.rs\<close>.
  The writer of serde and SHA-256 are parameters; what \<open>rand_u64\<close> and the clock give are arguments.
  The result of a redaction is an option, as in \<open>Scan\<close>.
\<close>

definition REPLAY_SCHEMA_VERSION :: u32 where "REPLAY_SCHEMA_VERSION = 1"
definition BUNDLE_SCHEMA_VERSION :: u32 where "BUNDLE_SCHEMA_VERSION = 1"
definition MAX_REPLAY_EVENTS :: nat where "MAX_REPLAY_EVENTS = 65536"
definition MAX_FIXTURE_EVENTS :: nat where "MAX_FIXTURE_EVENTS = 4096"
definition STRIPPED_FIXTURE_KINDS :: "string list" where
  "STRIPPED_FIXTURE_KINDS = [''voice'', ''transcript'']"

section \<open>Errors and numbers\<close>

record ReplayError =
  re_code :: string
  re_message :: string
  re_correlation_id :: string
  re_retry_class :: string
  re_user_action :: string
  re_diagnostic_ref :: string
  re_internal_cause :: string

definition ReplayError_invalid :: "u64 \<Rightarrow> string \<Rightarrow> string \<Rightarrow> ReplayError" where
  "ReplayError_invalid rand code message =
     \<lparr>re_code = code, re_message = message, re_correlation_id = ''rep-'' @ hex16 rand,
      re_retry_class = ''validation'', re_user_action = ''Check the reported value and retry.'',
      re_diagnostic_ref = ''diagnostics/replay/errors.md'', re_internal_cause = ''[REDACTED]''\<rparr>"

definition ReplayError_resource :: "u64 \<Rightarrow> string \<Rightarrow> string \<Rightarrow> ReplayError" where
  "ReplayError_resource rand code message =
     \<lparr>re_code = code, re_message = message, re_correlation_id = ''rep-'' @ hex16 rand,
      re_retry_class = ''resource-exhausted'',
      re_user_action = ''Reduce the event volume or start a new session.'',
      re_diagnostic_ref = ''diagnostics/replay/errors.md'', re_internal_cause = ''[REDACTED]''\<rparr>"

definition replay_hex :: "u8 list \<Rightarrow> string" where
  "replay_hex bytes = concat (map hex_byte bytes)"

section \<open>The record of a session\<close>

record ReplayEvent =
  ev_seq :: u64
  ev_t :: "64 word"
  ev_kind :: string
  ev_line :: "string option"
  ev_command :: "string option"
  ev_direction :: "string option"
  ev_details :: json_object

definition ReplayEvent_line :: "u64 \<Rightarrow> 64 word \<Rightarrow> string \<Rightarrow> ReplayEvent" where
  "ReplayEvent_line seq t line =
     \<lparr>ev_seq = seq, ev_t = t, ev_kind = ''line'', ev_line = Some line, ev_command = None,
      ev_direction = Some ''in'', ev_details = []\<rparr>"

definition ReplayEvent_command :: "u64 \<Rightarrow> 64 word \<Rightarrow> string \<Rightarrow> ReplayEvent" where
  "ReplayEvent_command seq t command =
     \<lparr>ev_seq = seq, ev_t = t, ev_kind = ''command'', ev_line = None, ev_command = Some command,
      ev_direction = Some ''out'', ev_details = []\<rparr>"

definition ReplayEvent_kind_event :: "u64 \<Rightarrow> 64 word \<Rightarrow> string \<Rightarrow> ReplayEvent" where
  "ReplayEvent_kind_event seq t kind =
     \<lparr>ev_seq = seq, ev_t = t, ev_kind = kind, ev_line = None, ev_command = None,
      ev_direction = None, ev_details = []\<rparr>"

record ClientVersion =
  cv_app :: string
  cv_git_sha :: string

record SessionReplay =
  sr_schema_version :: u32
  sr_session_id :: string
  sr_client_version :: ClientVersion
  sr_profile :: "string option"
  sr_world :: "string option"
  sr_started_at :: "string option"
  sr_events :: "ReplayEvent list"

definition SessionReplay_new :: "u64 \<Rightarrow> string \<Rightarrow> string \<Rightarrow> string \<Rightarrow> ReplayError + SessionReplay" where
  "SessionReplay_new rand session_id app git_sha =
     (if length session_id < 8
      then Inl (ReplayError_invalid rand ''replay-session-id'' ''session id must be at least 8 characters'')
      else if length git_sha \<noteq> 40
      then Inl (ReplayError_invalid rand ''replay-git-sha'' ''git sha must be 40 hex characters'')
      else Inr \<lparr>sr_schema_version = REPLAY_SCHEMA_VERSION, sr_session_id = session_id,
             sr_client_version = \<lparr>cv_app = app, cv_git_sha = git_sha\<rparr>, sr_profile = None, sr_world = None,
             sr_started_at = None, sr_events = []\<rparr>)"

definition SessionReplay_push :: "u64 \<Rightarrow> ReplayEvent \<Rightarrow> SessionReplay \<Rightarrow> (ReplayError + unit) \<times> SessionReplay" where
  "SessionReplay_push rand e r =
     (if MAX_REPLAY_EVENTS \<le> length (sr_events r)
      then (Inl (ReplayError_resource rand ''replay-capacity'' ''replay event limit reached''), r)
      else (Inr (), r\<lparr>sr_events := sr_events r @ [e]\<rparr>))"

text \<open>\<open>sort_by_key\<close> is stable, as \<open>sort_key\<close> is.\<close>

definition replay_events :: "SessionReplay \<Rightarrow> ReplayEvent list" where
  "replay_events r = sort_key ev_seq (sr_events r)"

definition content_hash :: "(SessionReplay \<Rightarrow> string + u8 list) \<Rightarrow> (u8 list \<Rightarrow> u8 list) \<Rightarrow> SessionReplay \<Rightarrow> string" where
  "content_hash to_vec sha256 r =
     replay_hex (sha256 (case to_vec r of Inr canonical \<Rightarrow> canonical | Inl _ \<Rightarrow> []))"

section \<open>Redaction\<close>

record Redactor =
  rd_corpus :: "string list"

definition Redactor_default :: Redactor where
  "Redactor_default = \<lparr>rd_corpus =
     [''password'', ''passwd'', ''secret'', ''token'', ''api_key'', ''apikey'', ''auth'', ''credential'',
      ''cookie'', ''session_key'', ''private_key'', ''access_key'', ''player'', ''whisper'', ''tell'',
      ''prompt'']\<rparr>"

definition contains_marker :: "string \<Rightarrow> Redactor \<Rightarrow> bool" where
  "contains_marker txt r = list_ex (\<lambda>m. str_contains (to_lower txt) m) (rd_corpus r)"

definition redact_text :: "string \<Rightarrow> Redactor \<Rightarrow> string option" where
  "redact_text txt r = scrub (rd_corpus r) txt"

text \<open>What is done to the two texts of an event, in bundles and in fixtures.\<close>

definition redact_option :: "Redactor \<Rightarrow> string option \<Rightarrow> string option option" where
  "redact_option r t = (case t of None \<Rightarrow> Some None | Some s \<Rightarrow> map_option Some (redact_text s r))"

definition redact_event :: "Redactor \<Rightarrow> ReplayEvent \<Rightarrow> ReplayEvent option" where
  "redact_event r e =
     Option.bind (redact_option r (ev_line e)) (\<lambda>line.
       Option.bind (redact_option r (ev_command e)) (\<lambda>command.
         Some (e\<lparr>ev_line := line, ev_command := command\<rparr>)))"

fun map_events :: "('a \<Rightarrow> 'b option) \<Rightarrow> 'a list \<Rightarrow> 'b list option" where
  "map_events f [] = Some []"
| "map_events f (x # xs) = Option.bind (f x) (\<lambda>y. Option.bind (map_events f xs) (\<lambda>ys. Some (y # ys)))"

section \<open>The time stamp\<close>

text \<open>
  The text of a time in seconds since 1970; a time before is read as 0. The minutes are named \<open>_m\<close>
  in the code and not used.
\<close>

definition now_iso8601 :: "nat \<Rightarrow> string" where
  "now_iso8601 secs =
     (let days = secs div 86400;
          rem = secs mod 86400;
          h = rem div 3600;
          s = rem mod 60;
          (y, m, d) = civil_from_days days in
      pad_zero 4 (show_nat y) @ ''-'' @ pad_zero 2 (show_nat m) @ ''-'' @ pad_zero 2 (show_nat d) @ ''T''
      @ pad_zero 2 (show_nat h) @ '':'' @ pad_zero 2 (show_nat m) @ '':'' @ pad_zero 2 (show_nat s) @ ''+00:00'')"

section \<open>Bundles\<close>

record DiagnosticBundle =
  db_schema_version :: u32
  db_bundle_id :: string
  db_content_sha256 :: string
  db_created_at :: string
  db_event_count :: nat
  db_bytes :: nat
  db_preview :: string
  db_approved_for_submission :: bool
  db_files :: "(string \<times> string) list"

definition DiagnosticBundle_approve :: "DiagnosticBundle \<Rightarrow> DiagnosticBundle" where
  "DiagnosticBundle_approve b = b\<lparr>db_approved_for_submission := True\<rparr>"

definition is_approved :: "DiagnosticBundle \<Rightarrow> bool" where
  "is_approved b = db_approved_for_submission b"

definition redacted_serialize ::
    "(SessionReplay \<Rightarrow> string + u8 list) \<Rightarrow> u64 \<Rightarrow> SessionReplay \<Rightarrow> Redactor \<Rightarrow> (ReplayError + u8 list) option" where
  "redacted_serialize to_vec rand replay r =
     map_option (\<lambda>es.
         case to_vec (replay\<lparr>sr_events := es\<rparr>) of
           Inl e \<Rightarrow> Inl (ReplayError_invalid rand ''bundle-serialize'' (''unable to serialize bundle: '' @ e))
         | Inr canonical \<Rightarrow> Inr canonical)
       (map_events (redact_event r) (sr_events replay))"

definition preview_line :: "Redactor \<Rightarrow> ReplayEvent \<Rightarrow> string option" where
  "preview_line r e =
     Option.bind
       (case (ev_line e, ev_command e) of
          (Some l, _) \<Rightarrow> redact_text l r
        | (None, Some c) \<Rightarrow> map_option (\<lambda>t. ''> '' @ t) (redact_text c r)
        | (None, None) \<Rightarrow> Some (''<'' @ ev_kind e @ ''>''))
       (\<lambda>txt. Some (''['' @ show_nat (unat (ev_seq e)) @ ''] '' @ txt @ [CHR 0x0A]))"

definition BundleBuilder_build ::
    "(SessionReplay \<Rightarrow> string + u8 list) \<Rightarrow> (u8 list \<Rightarrow> u8 list) \<Rightarrow> u64 \<Rightarrow> nat \<Rightarrow> SessionReplay \<Rightarrow> string \<Rightarrow> nat
     \<Rightarrow> Redactor \<Rightarrow> (ReplayError + DiagnosticBundle) option" where
  "BundleBuilder_build to_vec sha256 rand now replay bundle_id preview_lines r =
     (if length bundle_id < 8
      then Some (Inl (ReplayError_invalid rand ''bundle-id'' ''bundle id must be at least 8 characters''))
      else
        Option.bind (redacted_serialize to_vec rand replay r) (\<lambda>res.
          case res of
            Inl e \<Rightarrow> Some (Inl e)
          | Inr canonical \<Rightarrow>
              Option.bind (map_events (preview_line r) (take preview_lines (replay_events replay))) (\<lambda>lines.
                Some (Inr
                  \<lparr>db_schema_version = BUNDLE_SCHEMA_VERSION, db_bundle_id = bundle_id,
                   db_content_sha256 = replay_hex (sha256 canonical), db_created_at = now_iso8601 now,
                   db_event_count = length (sr_events replay), db_bytes = length canonical,
                   db_preview = concat lines, db_approved_for_submission = False, db_files = []\<rparr>))))"

definition export_bytes ::
    "(SessionReplay \<Rightarrow> string + u8 list) \<Rightarrow> u64 \<Rightarrow> SessionReplay \<Rightarrow> Redactor \<Rightarrow> (ReplayError + u8 list) option" where
  "export_bytes to_vec rand replay r = redacted_serialize to_vec rand replay r"

section \<open>Fixtures\<close>

definition with_player_names :: "string list \<Rightarrow> Redactor \<Rightarrow> Redactor" where
  "with_player_names names r = r\<lparr>rd_corpus := rd_corpus r @ filter (\<lambda>n. n \<noteq> []) names\<rparr>"

definition is_stripped :: "string list \<Rightarrow> ReplayEvent \<Rightarrow> bool" where
  "is_stripped approved e \<longleftrightarrow> ev_kind e \<in> set STRIPPED_FIXTURE_KINDS \<and> ev_kind e \<notin> set approved"

text \<open>The loop over the events in order; \<open>n\<close> is the number of events the fixture has already.\<close>

fun fixture_loop :: "Redactor \<Rightarrow> string list \<Rightarrow> nat \<Rightarrow> ReplayEvent list \<Rightarrow> ReplayEvent list option" where
  "fixture_loop r approved n [] = Some []"
| "fixture_loop r approved n (e # es) =
     (if is_stripped approved e then fixture_loop r approved n es
      else
        Option.bind (redact_event r e) (\<lambda>e'.
          if MAX_FIXTURE_EVENTS \<le> Suc n then Some [e']
          else Option.bind (fixture_loop r approved (Suc n) es) (\<lambda>es'. Some (e' # es'))))"

definition FixtureGenerator_generate ::
    "SessionReplay \<Rightarrow> string list \<Rightarrow> Redactor \<Rightarrow> (ReplayError + SessionReplay) option" where
  "FixtureGenerator_generate source approved r =
     map_option (\<lambda>es. Inr (source\<lparr>sr_events := es\<rparr>)) (fixture_loop r approved 0 (replay_events source))"

definition dedup_key :: "(string \<Rightarrow> u8 list) \<Rightarrow> ReplayEvent \<Rightarrow> string option" where
  "dedup_key sha256 e =
     Option.bind (redact_option Redactor_default (ev_line e)) (\<lambda>line.
       Some (take 16 (replay_hex (sha256
         (ev_kind e @ [CHR 0x00] @ (case line of None \<Rightarrow> [] | Some l \<Rightarrow> l))))))"

definition unique_event_count :: "(string \<Rightarrow> u8 list) \<Rightarrow> SessionReplay \<Rightarrow> nat option" where
  "unique_event_count sha256 r =
     map_option (\<lambda>keys. card (set keys)) (map_events (dedup_key sha256) (sr_events r))"

section \<open>Lemmas\<close>

lemma map_events_total: "(\<And>x. x \<in> set xs \<Longrightarrow> \<exists>y. f x = Some y \<and> Q x y) \<Longrightarrow> \<exists>ys. map_events f xs = Some ys \<and> list_all2 Q xs ys"
proof (induction xs)
  case (Cons x xs)
  obtain y where "f x = Some y" "Q x y" using Cons.prems [of x] by auto
  moreover obtain ys where "map_events f xs = Some ys" "list_all2 Q xs ys" using Cons by auto
  ultimately show ?case by auto
qed simp

lemma replay_default_proper: "list_all proper_marker (rd_corpus Redactor_default)"
  by code_simp

lemma named_proper: "list_all proper_marker names \<Longrightarrow> list_all proper_marker (rd_corpus (with_player_names names Redactor_default))"
  using replay_default_proper by (auto simp: with_player_names_def list_all_iff)

text \<open>A text of an event with none of the markers, in whatever case.\<close>

definition clean_text :: "Redactor \<Rightarrow> string option \<Rightarrow> bool" where
  "clean_text r t = (case t of None \<Rightarrow> True
     | Some s \<Rightarrow> list_all (\<lambda>m. \<not> str_contains (to_lower s) (to_lower m)) (rd_corpus r))"

lemma redact_option_clean:
  "list_all proper_marker (rd_corpus r) \<Longrightarrow> \<exists>t'. redact_option r t = Some t' \<and> clean_text r t'"
  using scrub_clean [of "rd_corpus r"]
  by (cases t) (auto simp: redact_option_def clean_text_def redact_text_def dest!: meta_spec)

lemma redact_event_clean:
  assumes "list_all proper_marker (rd_corpus r)"
  shows "\<exists>e'. redact_event r e = Some e' \<and> clean_text r (ev_line e') \<and> clean_text r (ev_command e')
    \<and> ev_seq e' = ev_seq e \<and> ev_kind e' = ev_kind e \<and> ev_details e' = ev_details e"
proof -
  obtain l where "redact_option r (ev_line e) = Some l" "clean_text r l"
    using redact_option_clean [OF assms] by blast
  moreover obtain c where "redact_option r (ev_command e) = Some c" "clean_text r c"
    using redact_option_clean [OF assms] by blast
  ultimately show ?thesis by (auto simp: redact_event_def)
qed

lemma fixture_loop_clean:
  assumes "list_all proper_marker (rd_corpus r)" and "n < MAX_FIXTURE_EVENTS"
  shows "\<exists>es'. fixture_loop r approved n es = Some es' \<and> n + length es' \<le> MAX_FIXTURE_EVENTS
    \<and> (\<exists>k. list_all2 (\<lambda>e e'. ev_seq e' = ev_seq e \<and> ev_kind e' = ev_kind e \<and> ev_details e' = ev_details e
          \<and> clean_text r (ev_line e') \<and> clean_text r (ev_command e'))
        (take k (filter (\<lambda>e. \<not> is_stripped approved e) es)) es')"
  using assms(2)
proof (induction es arbitrary: n)
  case Nil
  then show ?case by simp
next
  case (Cons e es)
  show ?case
  proof (cases "is_stripped approved e")
    case True
    then show ?thesis using Cons.IH [OF Cons.prems] by simp
  next
    case False
    obtain e' where e': "redact_event r e = Some e'" "clean_text r (ev_line e')" "clean_text r (ev_command e')"
        "ev_seq e' = ev_seq e" "ev_kind e' = ev_kind e" "ev_details e' = ev_details e"
      using redact_event_clean [OF assms(1)] by blast
    show ?thesis
    proof (cases "MAX_FIXTURE_EVENTS \<le> Suc n")
      case True
      then show ?thesis using False e' Cons.prems by (auto intro!: exI [of _ 1])
    next
      case more: False
      then obtain es' k where "fixture_loop r approved (Suc n) es = Some es'" "Suc n + length es' \<le> MAX_FIXTURE_EVENTS"
          "list_all2 (\<lambda>e e'. ev_seq e' = ev_seq e \<and> ev_kind e' = ev_kind e \<and> ev_details e' = ev_details e
            \<and> clean_text r (ev_line e') \<and> clean_text r (ev_command e'))
          (take k (filter (\<lambda>e. \<not> is_stripped approved e) es)) es'"
        using Cons.IH [of "Suc n"] by auto
      then show ?thesis using False e' more by (auto intro!: exI [of _ "Suc k"])
    qed
  qed
qed

lemma sorted_map_take_filter: "sorted (map f xs) \<Longrightarrow> sorted (map f (take k (filter P xs)))"
  by (simp add: sorted_filter sorted_wrt_take flip: take_map)

section \<open>Properties\<close>

text \<open>
  Sanitized fixtures. For any source, approved kinds and player names that do not overlap the
  replacement, a fixture is generated; it has at most the allowed number of events, in the order of
  their numbers, none of a stripped kind that was not approved, and no line or command in it
  contains a marker or a player name, in whatever case. The details of the events are copied.
\<close>

theorem fixture_sanitized:
  assumes "list_all proper_marker names"
  shows "\<exists>es. FixtureGenerator_generate source approved (with_player_names names Redactor_default)
        = Some (Inr (source\<lparr>sr_events := es\<rparr>))
      \<and> length es \<le> MAX_FIXTURE_EVENTS \<and> sorted (map ev_seq es)
      \<and> list_all (\<lambda>e. \<not> is_stripped approved e
          \<and> clean_text (with_player_names names Redactor_default) (ev_line e)
          \<and> clean_text (with_player_names names Redactor_default) (ev_command e)) es
      \<and> (\<exists>k. map ev_details es
          = map ev_details (take k (filter (\<lambda>e. \<not> is_stripped approved e) (replay_events source))))"
proof -
  let ?r = "with_player_names names Redactor_default" and ?keep = "\<lambda>e. \<not> is_stripped approved e"
  have "0 < MAX_FIXTURE_EVENTS" by (simp add: MAX_FIXTURE_EVENTS_def)
  then obtain es k where es: "fixture_loop ?r approved 0 (replay_events source) = Some es"
      "length es \<le> MAX_FIXTURE_EVENTS"
      "list_all2 (\<lambda>e e'. ev_seq e' = ev_seq e \<and> ev_kind e' = ev_kind e \<and> ev_details e' = ev_details e
        \<and> clean_text ?r (ev_line e') \<and> clean_text ?r (ev_command e'))
      (take k (filter ?keep (replay_events source))) es"
    using fixture_loop_clean [OF named_proper [OF assms], of 0 approved "replay_events source"]
    unfolding add_0 by blast
  let ?src = "take k (filter ?keep (replay_events source))"
  have len: "length ?src = length es" using es(3) by (rule list_all2_lengthD)
  have nth: "ev_seq (es ! i) = ev_seq (?src ! i)" "ev_kind (es ! i) = ev_kind (?src ! i)"
      "ev_details (es ! i) = ev_details (?src ! i)" "clean_text ?r (ev_line (es ! i))"
      "clean_text ?r (ev_command (es ! i))" if "i < length es" for i
    using list_all2_nthD2 [OF es(3) that] by simp_all
  have "map ev_seq es = map ev_seq ?src" "map ev_details es = map ev_details ?src"
    using len nth by (simp_all add: list_eq_iff_nth_eq)
  moreover have "sorted (map ev_seq ?src)"
    by (rule sorted_map_take_filter) (simp add: replay_events_def)
  moreover have "?keep e" if "e \<in> set ?src" for e
    using that by (auto dest: in_set_takeD)
  then have "list_all (\<lambda>e. ?keep e \<and> clean_text ?r (ev_line e) \<and> clean_text ?r (ev_command e)) es"
    unfolding list_all_length using nth len by (metis is_stripped_def nth_mem)
  moreover have "FixtureGenerator_generate source approved ?r = Some (Inr (source\<lparr>sr_events := es\<rparr>))"
    by (simp add: FixtureGenerator_generate_def es(1))
  ultimately show ?thesis using es(2) by (intro exI [of _ es] conjI exI [of _ k]) simp_all
qed

text \<open>A session with one line that names a player.\<close>

definition demo_replay :: SessionReplay where
  "demo_replay =
     \<lparr>sr_schema_version = 1, sr_session_id = ''session-0001'',
      sr_client_version = \<lparr>cv_app = ''wiremudder'', cv_git_sha = replicate 40 (CHR ''a'')\<rparr>, sr_profile = None,
      sr_world = None, sr_started_at = None, sr_events = [ReplayEvent_line 1 0 ''Kael gives you a token'']\<rparr>"

theorem fixture_sanitized_witness:
  "\<exists>es. FixtureGenerator_generate demo_replay [] (with_player_names [''Kael''] Redactor_default)
        = Some (Inr (demo_replay\<lparr>sr_events := es\<rparr>))
      \<and> length es \<le> MAX_FIXTURE_EVENTS"
proof -
  have "list_all proper_marker [''Kael'']" by code_simp
  from fixture_sanitized [OF this, of demo_replay "[]"] show ?thesis by blast
qed

text \<open>
  The order of a replay does not depend on the order of capture: it is by number, holds all the
  events, and two records with the same events, whose numbers are distinct, replay alike.
\<close>

theorem replay_deterministic:
  "sorted (map ev_seq (replay_events r)) \<and> mset (replay_events r) = mset (sr_events r)
   \<and> (if distinct (map ev_seq (sr_events r)) \<and> mset (sr_events r') = mset (sr_events r)
      then replay_events r' = replay_events r else True)"
proof -
  have "replay_events r' = replay_events r"
    if "distinct (map ev_seq (sr_events r))" "mset (sr_events r') = mset (sr_events r)"
  proof -
    have "inj_on ev_seq (set (sr_events r))" using that(1) by (simp add: distinct_map)
    then have "inj_on ev_seq (set (replay_events r))" by (simp add: replay_events_def)
    then have "inj_on ev_seq (set (sr_events r'))"
      using mset_eq_setD [OF that(2)] by (simp add: replay_events_def)
    then show ?thesis
      using sort_key_inj_key_eq [of "sr_events r'" "replay_events r" ev_seq] that(2)
      by (simp add: replay_events_def)
  qed
  then show ?thesis by (simp add: replay_events_def)
qed

text \<open>
  A bundle is the one of its export: when a bundle is built, the export of the same record gives the
  bytes whose hash and length the bundle carries, and it is not approved.
\<close>

theorem bundle_matches_export:
  "(case BundleBuilder_build to_vec sha256 rand now replay i n r of
      Some (Inr b) \<Rightarrow> (case export_bytes to_vec rand replay r of
          Some (Inr bytes) \<Rightarrow> db_content_sha256 b = replay_hex (sha256 bytes) \<and> db_bytes b = length bytes
            \<and> db_event_count b = length (sr_events replay) \<and> \<not> is_approved b
        | _ \<Rightarrow> False)
    | _ \<Rightarrow> True)"
proof (cases "redacted_serialize to_vec rand replay r")
  case (Some res)
  then show ?thesis
    by (cases res; cases "map_events (preview_line r) (take n (replay_events replay))")
      (simp_all add: BundleBuilder_build_def export_bytes_def is_approved_def)
qed (simp add: BundleBuilder_build_def)

text \<open>
  Redaction need not end: with an empty text in the corpus, which the constructor accepts, the loop
  stays for ever at the end of a sentence.
\<close>

theorem redaction_diverges: "redact_text (''.'' @ s) \<lparr>rd_corpus = ['''']\<rparr> = None"
  using scrub_diverges [of s] by (simp add: redact_text_def)

text \<open>
  The time stamp of a bundle has no minutes: two times of one hour that differ by a minute are
  written alike, because the place of the minutes is filled with the month.
\<close>

theorem timestamp_minutes_lost:
  "if secs mod 3600 < 3540 then now_iso8601 (secs + 60) = now_iso8601 secs else True"
proof -
  have parts: "t div 86400 = t div 3600 div 24" "t mod 86400 div 3600 = t div 3600 mod 24"
      "t mod 86400 mod 60 = t mod 60" for t :: nat
  proof -
    show "t div 86400 = t div 3600 div 24" using div_mult2_eq [of t 3600 24] by simp
    have "t mod 86400 = 3600 * (t div 3600 mod 24) + t mod 3600" using mod_mult2_eq [of t 3600 24] by simp
    then show "t mod 86400 div 3600 = t div 3600 mod 24" by simp
    show "t mod 86400 mod 60 = t mod 60" by (rule mod_mod_cancel) simp
  qed
  have "(secs + 60) div 3600 = secs div 3600" if "secs mod 3600 < 3540"
    using that div_add1_eq [of secs 60 3600] by simp
  moreover have "(secs + 60) mod 60 = secs mod 60" by simp
  ultimately show ?thesis unfolding now_iso8601_def Let_def parts by simp
qed

end
