(* ===== verification/Telemetry.thy ===== *)
theory Telemetry
  imports Complex_Main Scan
begin

text \<open>
  Local telemetry, \<open>wirecore/crates/wire-telemetry/src/lib.rs\<close>: events, the bounded ring buffer, the
  redaction of details, the engine with its journal, and crash recovery. Files are a map from paths
  to their text; serde, SHA-256 and the failures of the file system are parameters; what \<open>rand_u64\<close>
  gives is an argument. A latency is an exact rational.
\<close>

definition TELEMETRY_SCHEMA_VERSION :: u32 where "TELEMETRY_SCHEMA_VERSION = 1"
definition DEFAULT_RING_CAPACITY :: nat where "DEFAULT_RING_CAPACITY = 4096"
definition MAX_RING_CAPACITY :: nat where "MAX_RING_CAPACITY = 65536"
definition MAX_DETAIL_BYTES :: nat where "MAX_DETAIL_BYTES = 4096"

definition REDACTION_CORPUS :: "string list" where
  "REDACTION_CORPUS =
     [''password'', ''passwd'', ''secret'', ''token'', ''api_key'', ''apikey'', ''auth'', ''credential'',
      ''cookie'', ''session_key'', ''private_key'', ''access_key'']"

section \<open>Classifications\<close>

datatype Severity = SevDebug | SevInfo | SevWarn | SevError | SevCritical

fun Severity_as_str :: "Severity \<Rightarrow> string" where
  "Severity_as_str SevDebug = ''debug''"
| "Severity_as_str SevInfo = ''info''"
| "Severity_as_str SevWarn = ''warn''"
| "Severity_as_str SevError = ''error''"
| "Severity_as_str SevCritical = ''critical''"

datatype TelSubsystem =
    TsCore | TsNetwork | TsLua | TsMapper | TsVoice | TsRenderer | TsHeadless | TsProvider | TsUpdate
  | TsPackage | TsSecurity | TsTelemetry

fun Subsystem_as_str :: "TelSubsystem \<Rightarrow> string" where
  "Subsystem_as_str TsCore = ''core''"
| "Subsystem_as_str TsNetwork = ''network''"
| "Subsystem_as_str TsLua = ''lua''"
| "Subsystem_as_str TsMapper = ''mapper''"
| "Subsystem_as_str TsVoice = ''voice''"
| "Subsystem_as_str TsRenderer = ''renderer''"
| "Subsystem_as_str TsHeadless = ''headless''"
| "Subsystem_as_str TsProvider = ''provider''"
| "Subsystem_as_str TsUpdate = ''update''"
| "Subsystem_as_str TsPackage = ''package''"
| "Subsystem_as_str TsSecurity = ''security''"
| "Subsystem_as_str TsTelemetry = ''telemetry''"

datatype TelPriority = TpP0 | TpP1 | TpP2 | TpP3 | TpP4

datatype DataClass = DcPublic | DcPrivate | DcSecret | DcDiagnostic | DcVoice | DcTranscript

fun default_retention_days :: "DataClass \<Rightarrow> u32" where
  "default_retention_days DcPublic = 365"
| "default_retention_days DcPrivate = 90"
| "default_retention_days DcSecret = 0"
| "default_retention_days DcDiagnostic = 30"
| "default_retention_days DcVoice = 14"
| "default_retention_days DcTranscript = 90"

fun DataClass_as_str :: "DataClass \<Rightarrow> string" where
  "DataClass_as_str DcPublic = ''public''"
| "DataClass_as_str DcPrivate = ''private''"
| "DataClass_as_str DcSecret = ''secret''"
| "DataClass_as_str DcDiagnostic = ''diagnostic''"
| "DataClass_as_str DcVoice = ''voice''"
| "DataClass_as_str DcTranscript = ''transcript''"

section \<open>Events\<close>

record TelemetryEvent =
  te_schema_version :: u32
  te_event_id :: string
  te_t :: "64 word"
  te_subsystem :: TelSubsystem
  te_severity :: Severity
  te_fingerprint :: string
  te_correlation_id :: "string option"
  te_scope :: "string option"
  te_feature :: "string option"
  te_priority :: "TelPriority option"
  te_latency_ms :: "rat option"
  te_queue_depth :: "u64 option"
  te_dropped :: "u64 option"
  te_coalesced :: "u64 option"
  te_provider :: "string option"
  te_classification :: DataClass
  te_redacted :: bool
  te_details :: json_object

definition fingerprint_for ::
    "(string \<Rightarrow> u8 list) \<Rightarrow> TelSubsystem \<Rightarrow> Severity \<Rightarrow> string option \<Rightarrow> DataClass \<Rightarrow> string" where
  "fingerprint_for sha256 subsystem severity feature classification =
     take 16 (concat (map hex_byte (sha256
       (Subsystem_as_str subsystem @ [CHR 0x00] @ Severity_as_str severity @ [CHR 0x00]
        @ (case feature of None \<Rightarrow> [] | Some f \<Rightarrow> f) @ [CHR 0x00] @ DataClass_as_str classification))))"

definition TelemetryEvent_new ::
    "string \<Rightarrow> 64 word \<Rightarrow> TelSubsystem \<Rightarrow> Severity \<Rightarrow> string \<Rightarrow> DataClass \<Rightarrow> json_object \<Rightarrow> TelemetryEvent" where
  "TelemetryEvent_new event_id t subsystem severity fingerprint classification details =
     \<lparr>te_schema_version = TELEMETRY_SCHEMA_VERSION, te_event_id = event_id, te_t = t,
      te_subsystem = subsystem, te_severity = severity, te_fingerprint = fingerprint,
      te_correlation_id = None, te_scope = None, te_feature = None, te_priority = None,
      te_latency_ms = None, te_queue_depth = None, te_dropped = None, te_coalesced = None,
      te_provider = None, te_classification = classification, te_redacted = False, te_details = details\<rparr>"

section \<open>Redaction\<close>

record TelRedactor =
  tr_corpus :: "string list"

definition Redactor_default :: TelRedactor where
  "Redactor_default = \<lparr>tr_corpus = REDACTION_CORPUS\<rparr>"

definition contains_marker :: "string \<Rightarrow> TelRedactor \<Rightarrow> bool" where
  "contains_marker txt r = list_ex (\<lambda>m. str_contains (to_lower txt) m) (tr_corpus r)"

definition redact_text :: "string \<Rightarrow> TelRedactor \<Rightarrow> string option" where
  "redact_text txt r = scrub (tr_corpus r) txt"

text \<open>
  The redaction of a value in a detail map, with whether anything was redacted: strings, the values
  of nested maps, and the strings directly in an array.
\<close>

definition redact_string :: "TelRedactor \<Rightarrow> string \<Rightarrow> bool \<times> string" where
  "redact_string r s = (if contains_marker s r then (True, ''[REDACTED]'') else (False, s))"

fun redact_item :: "TelRedactor \<Rightarrow> json \<Rightarrow> bool \<times> json" where
  "redact_item r (JString s) = map_prod id JString (redact_string r s)"
| "redact_item r v = (False, v)"

fun redact_value :: "TelRedactor \<Rightarrow> json \<Rightarrow> bool \<times> json" where
  "redact_value r (JString s) = map_prod id JString (redact_string r s)"
| "redact_value r (JObject m) =
     (list_ex (\<lambda>kv. fst (redact_value r (snd kv))) m,
      JObject (map (\<lambda>kv. (fst kv, snd (redact_value r (snd kv)))) m))"
| "redact_value r (JArray xs) =
     (list_ex (\<lambda>x. fst (redact_item r x)) xs, JArray (map (\<lambda>x. snd (redact_item r x)) xs))"
| "redact_value r v = (False, v)"

definition redact_details :: "TelRedactor \<Rightarrow> json_object \<Rightarrow> bool \<times> json_object" where
  "redact_details r details =
     (list_ex (\<lambda>kv. fst (redact_value r (snd kv))) details,
      map (\<lambda>kv. (fst kv, snd (redact_value r (snd kv)))) details)"

section \<open>Errors\<close>

record TelemetryError =
  tx_code :: string
  tx_message :: string
  tx_correlation_id :: string
  tx_retry_class :: string
  tx_user_action :: string
  tx_diagnostic_ref :: string
  tx_internal_cause :: string

definition TelemetryError_full ::
    "u64 \<Rightarrow> string \<Rightarrow> string \<Rightarrow> string \<Rightarrow> string \<Rightarrow> string \<Rightarrow> string \<Rightarrow> TelemetryError" where
  "TelemetryError_full rand code message retry_class user_action diagnostic_ref cause =
     \<lparr>tx_code = code, tx_message = message, tx_correlation_id = ''tel-'' @ hex16 rand,
      tx_retry_class = retry_class, tx_user_action = user_action, tx_diagnostic_ref = diagnostic_ref,
      tx_internal_cause = cause\<rparr>"

definition TelemetryError_invalid :: "u64 \<Rightarrow> string \<Rightarrow> string \<Rightarrow> TelemetryError" where
  "TelemetryError_invalid rand code message =
     TelemetryError_full rand code message ''validation'' ''Check the reported value and retry.''
       ''diagnostics/telemetry/errors.md'' ''[REDACTED]''"

text \<open>The redaction of a cause always ends: \<open>redact_cause_total\<close>.\<close>

definition redact_cause :: "string \<Rightarrow> string" where
  "redact_cause cause = (case redact_text cause Redactor_default of Some t \<Rightarrow> t | None \<Rightarrow> [])"

definition TelemetryError_unavailable :: "u64 \<Rightarrow> string \<Rightarrow> string \<Rightarrow> string \<Rightarrow> TelemetryError" where
  "TelemetryError_unavailable rand code message cause =
     TelemetryError_full rand code message ''unavailable'' ''Restart capture or check local storage.''
       ''diagnostics/telemetry/errors.md'' (redact_cause cause)"

section \<open>The ring buffer\<close>

record RingBuffer =
  rb_capacity :: nat
  rb_events :: "TelemetryEvent list"

definition RingBuffer_new :: "u64 \<Rightarrow> nat \<Rightarrow> TelemetryError + RingBuffer" where
  "RingBuffer_new rand capacity =
     (if capacity = 0
      then Inl (TelemetryError_invalid rand ''ring-capacity'' ''ring buffer capacity must be positive'')
      else if MAX_RING_CAPACITY < capacity
      then Inl (TelemetryError_invalid rand ''ring-capacity'' ''ring buffer capacity exceeds maximum'')
      else Inr \<lparr>rb_capacity = capacity, rb_events = []\<rparr>)"

definition RingBuffer_push :: "TelemetryEvent \<Rightarrow> RingBuffer \<Rightarrow> u64 \<times> RingBuffer" where
  "RingBuffer_push e b =
     (if length (rb_events b) = rb_capacity b
      then (1, b\<lparr>rb_events := tl (rb_events b) @ [e]\<rparr>)
      else (0, b\<lparr>rb_events := rb_events b @ [e]\<rparr>))"

definition RingBuffer_back :: "RingBuffer \<Rightarrow> TelemetryEvent option" where
  "RingBuffer_back b = (if rb_events b = [] then None else Some (last (rb_events b)))"

definition RingBuffer_clear :: "RingBuffer \<Rightarrow> RingBuffer" where
  "RingBuffer_clear b = b\<lparr>rb_events := []\<rparr>"

section \<open>The engine\<close>

type_synonym files = "string \<rightharpoonup> string"

record TelemetryEngine =
  tg_enabled :: bool
  tg_buffer :: RingBuffer
  tg_redactor :: TelRedactor
  tg_journal :: "string option"
  tg_dropped_total :: u64
  tg_coalesced_total :: u64

definition TelemetryEngine_new :: "u64 \<Rightarrow> nat \<Rightarrow> TelemetryError + TelemetryEngine" where
  "TelemetryEngine_new rand capacity =
     (case RingBuffer_new rand capacity of
        Inl e \<Rightarrow> Inl e
      | Inr b \<Rightarrow> Inr \<lparr>tg_enabled = False, tg_buffer = b, tg_redactor = Redactor_default, tg_journal = None,
             tg_dropped_total = 0, tg_coalesced_total = 0\<rparr>)"

definition with_journal :: "u64 \<Rightarrow> nat \<Rightarrow> string \<Rightarrow> TelemetryError + TelemetryEngine" where
  "with_journal rand capacity journal =
     (case TelemetryEngine_new rand capacity of
        Inl e \<Rightarrow> Inl e
      | Inr g \<Rightarrow> Inr (g\<lparr>tg_journal := Some journal\<rparr>))"

definition enable :: "TelemetryEngine \<Rightarrow> TelemetryEngine" where
  "enable g = g\<lparr>tg_enabled := True\<rparr>"

definition disable :: "TelemetryEngine \<Rightarrow> TelemetryEngine" where
  "disable g = g\<lparr>tg_enabled := False\<rparr>"

text \<open>
  What the file system does with an append: it succeeds, the file cannot be opened, or writing fails after \<open>k\<close> bytes of
  the line, which stay in the file (all of them, line end included, when only the flush fails). Opening creates the file
  before the event is written.
\<close>

datatype JournalIo = IoDone | IoOpenFails string | IoWriteFails nat string

definition append_journal ::
    "(TelemetryEvent \<Rightarrow> string + string) \<Rightarrow> JournalIo \<Rightarrow> string \<Rightarrow> TelemetryEvent \<Rightarrow> files
     \<Rightarrow> (string + unit) \<times> files" where
  "append_journal to_string io path e fs =
     (case io of
        IoOpenFails err \<Rightarrow> (Inl err, fs)
      | _ \<Rightarrow>
          let old = (case fs path of None \<Rightarrow> [] | Some t \<Rightarrow> t) in
          (case to_string e of
             Inl err \<Rightarrow> (Inl err, fs(path \<mapsto> old))
           | Inr line \<Rightarrow>
               (case io of
                  IoWriteFails k err \<Rightarrow> (Inl err, fs(path \<mapsto> old @ take k (line @ [CHR 0x0A])))
                | _ \<Rightarrow> (Inr (), fs(path \<mapsto> old @ line @ [CHR 0x0A])))))"

text \<open>Both ways of recording push the event with its details redacted.\<close>

definition redacted_event :: "TelRedactor \<Rightarrow> TelemetryEvent \<Rightarrow> TelemetryEvent" where
  "redacted_event r e =
     (let (redacted, details) = redact_details r (te_details e) in
      e\<lparr>te_details := details, te_redacted := redacted\<rparr>)"

definition push_counted :: "TelemetryEvent \<Rightarrow> TelemetryEngine \<Rightarrow> TelemetryEngine" where
  "push_counted e g =
     (let (dropped, b) = RingBuffer_push e (tg_buffer g) in
      g\<lparr>tg_buffer := b, tg_dropped_total := tg_dropped_total g + dropped\<rparr>)"

definition TelemetryEngine_record ::
    "(json_object \<Rightarrow> nat option) \<Rightarrow> (TelemetryEvent \<Rightarrow> string + string) \<Rightarrow> JournalIo \<Rightarrow> u64
     \<Rightarrow> TelemetryEvent \<Rightarrow> TelemetryEngine \<times> files \<Rightarrow> (TelemetryError + unit) \<times> TelemetryEngine \<times> files" where
  "TelemetryEngine_record json_size to_string io rand e s =
     (let (g, fs) = s in
      if \<not> tg_enabled g then (Inr (), g, fs)
      else if MAX_DETAIL_BYTES < length (te_details e)
      then (Inl (TelemetryError_invalid rand ''event-details'' ''event detail payload exceeds bound''), g, fs)
      else if (case json_size (te_details e) of None \<Rightarrow> True | Some n \<Rightarrow> MAX_DETAIL_BYTES < n)
      then (Inl (TelemetryError_invalid rand ''event-details'' ''event detail payload exceeds byte bound''), g, fs)
      else
        let e = redacted_event (tg_redactor g) e in
        case tg_journal g of
          None \<Rightarrow> (Inr (), push_counted e g, fs)
        | Some path \<Rightarrow>
            (case append_journal to_string io path e fs of
               (Inl err, fs') \<Rightarrow>
                 (Inl (TelemetryError_unavailable rand ''telemetry-journal'' ''unable to append telemetry journal'' err), g, fs')
             | (Inr _, fs') \<Rightarrow> (Inr (), push_counted e g, fs')))"

text \<open>The absolute value of an \<open>i64\<close> difference, which wraps around at the least value.\<close>

definition near :: "64 word \<Rightarrow> 64 word \<Rightarrow> bool" where
  "near t u \<longleftrightarrow> (let d = t - u; a = (if sint d < 0 then - d else d) in sint a < 5000)"

definition record_coalesced :: "TelemetryEvent \<Rightarrow> TelemetryEngine \<Rightarrow> bool \<times> TelemetryEngine" where
  "record_coalesced e g =
     (if \<not> tg_enabled g then (False, g)
      else if (case RingBuffer_back (tg_buffer g) of
                 None \<Rightarrow> False
               | Some l \<Rightarrow> te_fingerprint l = te_fingerprint e \<and> near (te_t e) (te_t l))
      then (True, g\<lparr>tg_coalesced_total := tg_coalesced_total g + 1\<rparr>)
      else (False, push_counted (redacted_event (tg_redactor g) e) g))"

text \<open>The loop over the lines of a journal, which stops at the first malformed one.\<close>

fun recover_lines :: "(string \<Rightarrow> string + TelemetryEvent) \<Rightarrow> string list \<Rightarrow> RingBuffer \<Rightarrow> nat \<Rightarrow> nat \<times> RingBuffer" where
  "recover_lines from_slice [] b n = (n, b)"
| "recover_lines from_slice (l # ls) b n =
     (if l = [] then recover_lines from_slice ls b n
      else
        (case from_slice l of
           Inr e \<Rightarrow> recover_lines from_slice ls (snd (RingBuffer_push e b)) (n + 1)
         | Inl _ \<Rightarrow> (n, b)))"

definition recover_journal ::
    "(string \<Rightarrow> string + TelemetryEvent) \<Rightarrow> (string \<Rightarrow> string option) \<Rightarrow> u64 \<Rightarrow> string \<Rightarrow> TelemetryEngine \<times> files
     \<Rightarrow> (TelemetryError + nat) \<times> TelemetryEngine" where
  "recover_journal from_slice io rand path s =
     (let (g, fs) = s in
      case fs path of
        None \<Rightarrow> (Inr 0, g)
      | Some bytes \<Rightarrow>
          (case io path of
             Some err \<Rightarrow> (Inl (TelemetryError_unavailable rand ''telemetry-journal'' ''unable to read journal'' err), g)
           | None \<Rightarrow>
               let (n, b) = recover_lines from_slice (split_on (CHR 0x0A) bytes) (tg_buffer g) 0 in
               (Inr n, g\<lparr>tg_buffer := b\<rparr>)))"

section \<open>Lemmas\<close>

lemma telemetry_default_proper: "list_all proper_marker (tr_corpus Redactor_default)"
  by code_simp

lemma redact_cause_total: "redact_text cause Redactor_default = Some (redact_cause cause)"
  using scrub_clean [OF telemetry_default_proper, of cause] by (auto simp: redact_cause_def redact_text_def)

text \<open>The strings of a value that redaction looks at.\<close>

fun item_strings :: "json \<Rightarrow> string list" where
  "item_strings (JString s) = [s]"
| "item_strings v = []"

fun visible_strings :: "json \<Rightarrow> string list" where
  "visible_strings (JString s) = [s]"
| "visible_strings (JObject m) = concat (map (\<lambda>kv. visible_strings (snd kv)) m)"
| "visible_strings (JArray xs) = concat (map item_strings xs)"
| "visible_strings v = []"

definition details_clean :: "TelRedactor \<Rightarrow> json_object \<Rightarrow> bool" where
  "details_clean r details \<longleftrightarrow> list_all (\<lambda>s. \<not> contains_marker s r) (visible_strings (JObject details))"

lemma redacted_unmarked: "\<not> contains_marker ''[REDACTED]'' Redactor_default"
  by code_simp

lemma redact_string_clean: "\<not> contains_marker (snd (redact_string Redactor_default s)) Redactor_default"
  by (simp add: redact_string_def redacted_unmarked)

lemma redact_item_clean:
  "list_all (\<lambda>s. \<not> contains_marker s Redactor_default) (item_strings (snd (redact_item Redactor_default v)))"
  by (cases v) (simp_all add: redact_string_clean)

lemma redact_value_clean:
  "list_all (\<lambda>s. \<not> contains_marker s Redactor_default) (visible_strings (snd (redact_value Redactor_default v)))"
proof (induction v rule: visible_strings.induct)
  case (2 m)
  then show ?case by (auto simp: list_all_iff)
next
  case (3 xs)
  then show ?case using redact_item_clean by (auto simp: list_all_iff)
qed (simp_all add: redact_string_clean)

lemma redacted_event_clean: "details_clean Redactor_default (te_details (redacted_event Redactor_default e))"
  using redact_value_clean [of "JObject (te_details e)"]
  by (simp add: details_clean_def redacted_event_def redact_details_def)

lemma push_events: "set (rb_events (snd (RingBuffer_push e b))) \<subseteq> insert e (set (rb_events b))"
  by (cases "rb_events b") (auto simp: RingBuffer_push_def)

lemma push_length:
  "0 < rb_capacity b \<Longrightarrow> length (rb_events b) \<le> rb_capacity b \<Longrightarrow>
    length (rb_events (snd (RingBuffer_push e b))) = min (Suc (length (rb_events b))) (rb_capacity b)
    \<and> rb_capacity (snd (RingBuffer_push e b)) = rb_capacity b"
  by (auto simp: RingBuffer_push_def)

text \<open>A buffer after a list of pushes: it holds the latest events.\<close>

definition push_all :: "TelemetryEvent list \<Rightarrow> RingBuffer \<Rightarrow> RingBuffer" where
  "push_all es b = foldl (\<lambda>b e. snd (RingBuffer_push e b)) b es"


section \<open>The engine as a machine\<close>

text \<open>
  Every operation that changes an engine: recording, coalescing, recovery from a journal, and what \<open>buffer_mut\<close> gives
  access to, pushing an event as it is and clearing.
\<close>

datatype tel_op =
    TelEnable | TelDisable | TelRecord u64 JournalIo TelemetryEvent | TelCoalesce TelemetryEvent
  | TelRecover u64 "string option" string | TelPush TelemetryEvent | TelClear

fun tel_step ::
    "(json_object \<Rightarrow> nat option) \<Rightarrow> (TelemetryEvent \<Rightarrow> string + string) \<Rightarrow> (string \<Rightarrow> string + TelemetryEvent)
     \<Rightarrow> tel_op \<Rightarrow> TelemetryEngine \<times> files \<Rightarrow> TelemetryEngine \<times> files" where
  "tel_step json_size to_string from_slice TelEnable s = (enable (fst s), snd s)"
| "tel_step json_size to_string from_slice TelDisable s = (disable (fst s), snd s)"
| "tel_step json_size to_string from_slice (TelRecord rand io e) s =
     snd (TelemetryEngine_record json_size to_string io rand e s)"
| "tel_step json_size to_string from_slice (TelCoalesce e) s = (snd (record_coalesced e (fst s)), snd s)"
| "tel_step json_size to_string from_slice (TelRecover rand err path) s =
     (snd (recover_journal from_slice (\<lambda>p. err) rand path s), snd s)"
| "tel_step json_size to_string from_slice (TelPush e) s =
     ((fst s)\<lparr>tg_buffer := snd (RingBuffer_push e (tg_buffer (fst s)))\<rparr>, snd s)"
| "tel_step json_size to_string from_slice TelClear s =
     ((fst s)\<lparr>tg_buffer := RingBuffer_clear (tg_buffer (fst s))\<rparr>, snd s)"

text \<open>The events an operation brings in without redaction: those pushed directly and those read from a journal.\<close>

fun brings_in :: "(string \<Rightarrow> string + TelemetryEvent) \<Rightarrow> TelemetryEvent \<Rightarrow> tel_op \<Rightarrow> bool" where
  "brings_in from_slice e (TelPush e') \<longleftrightarrow> e = e'"
| "brings_in from_slice e (TelRecover rand err path) \<longleftrightarrow> (\<exists>l. from_slice l = Inr e)"
| "brings_in from_slice e x \<longleftrightarrow> False"

definition tel_inv :: "nat \<Rightarrow> (TelemetryEvent \<Rightarrow> bool) \<Rightarrow> TelemetryEngine \<times> files \<Rightarrow> bool" where
  "tel_inv c raw s \<longleftrightarrow>
     0 < c \<and> tg_redactor (fst s) = Redactor_default \<and> rb_capacity (tg_buffer (fst s)) = c
     \<and> length (rb_events (tg_buffer (fst s))) \<le> c
     \<and> list_all (\<lambda>e. details_clean Redactor_default (te_details e) \<or> raw e) (rb_events (tg_buffer (fst s)))"

lemma push_inv:
  assumes "tel_inv c raw (g, fs)" and "details_clean Redactor_default (te_details e) \<or> raw e"
  shows "tel_inv c raw (g\<lparr>tg_buffer := snd (RingBuffer_push e (tg_buffer g))\<rparr>, fs')"
  using assms push_length [of "tg_buffer g" e] push_events [of e "tg_buffer g"]
  by (auto simp: tel_inv_def list_all_iff)

lemma push_counted_inv:
  assumes "tel_inv c raw (g, fs)"
  shows "tel_inv c raw (push_counted (redacted_event Redactor_default e) g, fs')"
  using push_inv [OF assms disjI1 [OF redacted_event_clean], of e fs']
  by (auto simp: push_counted_def tel_inv_def split: prod.split)

lemma recover_lines_inv:
  "tel_inv c raw (g\<lparr>tg_buffer := b\<rparr>, fs) \<Longrightarrow> (\<And>l e. from_slice l = Inr e \<Longrightarrow> raw e) \<Longrightarrow>
    tel_inv c raw (g\<lparr>tg_buffer := snd (recover_lines from_slice ls b n)\<rparr>, fs)"
proof (induction ls arbitrary: b n)
  case (Cons l ls)
  show ?case
  proof (cases "from_slice l")
    case (Inr e)
    have "tel_inv c raw (g\<lparr>tg_buffer := snd (RingBuffer_push e b)\<rparr>, fs)"
      using push_inv [OF Cons.prems(1), of e fs] Cons.prems(2) [OF Inr] by simp
    then show ?thesis using Cons.IH Cons.prems Inr by simp
  qed (use Cons in simp)
qed simp

lemma tel_step_inv:
  assumes inv: "tel_inv c raw s" and ok: "\<And>e. brings_in from_slice e x \<Longrightarrow> raw e"
  shows "tel_inv c raw (tel_step json_size to_string from_slice x s)"
proof -
  obtain g fs where s: "s = (g, fs)" by (cases s)
  have r: "tg_redactor g = Redactor_default" using inv s by (simp add: tel_inv_def)
  show ?thesis
  proof (cases x)
    case (TelRecord rand io e)
    have "tel_inv c raw (g, fs')" for fs' using inv s by (simp add: tel_inv_def)
    then show ?thesis
      using push_counted_inv [OF inv [unfolded s]] TelRecord s r
      by (auto simp: TelemetryEngine_record_def Let_def split: option.splits prod.splits sum.splits)
  next
    case (TelCoalesce e)
    then show ?thesis
      using inv push_counted_inv [OF inv [unfolded s], of e fs] s r
      by (auto simp: record_coalesced_def tel_inv_def)
  next
    case (TelRecover rand err path)
    have raw: "raw e" if "from_slice l = Inr e" for l e using ok that TelRecover by auto
    then show ?thesis
      using recover_lines_inv [of c raw "tg_buffer g" g fs from_slice] inv TelRecover s
      by (auto simp: recover_journal_def Let_def split: option.split prod.split) (metis snd_conv)
  next
    case (TelPush e)
    then show ?thesis using push_inv [of c raw g fs e fs] inv ok [of e] s by simp
  next
    case TelClear
    then show ?thesis using inv s by (simp add: tel_inv_def RingBuffer_clear_def)
  qed (use inv s in \<open>auto simp: tel_inv_def enable_def disable_def\<close>)
qed

interpretation telemetry: simulation "tel_step json_size to_string from_slice" "\<lambda>x u. u" "\<lambda>x. x" "\<lambda>s (u :: unit). tel_inv c raw s"
    "\<lambda>x. \<forall>e. brings_in from_slice e x \<longrightarrow> raw e"
  for json_size to_string from_slice c raw
  by unfold_locales (blast intro: tel_step_inv)

section \<open>The journal\<close>

text \<open>What the journal of a run holds: the lines of the events it pushed.\<close>

definition journal_of :: "(TelemetryEvent \<Rightarrow> string + string) \<Rightarrow> TelemetryEvent list \<Rightarrow> string" where
  "journal_of to_string es = concat (map (\<lambda>e. (case to_string e of Inr l \<Rightarrow> l | Inl _ \<Rightarrow> []) @ [CHR 0x0A]) es)"

text \<open>
  The text form of an event reads back when its latency is a whole number below \<open>2 ^ 53\<close> or absent; other numbers are not
  documented to be read back exactly.
\<close>

definition plain_latency :: "TelemetryEvent \<Rightarrow> bool" where
  "plain_latency e = (case te_latency_ms e of None \<Rightarrow> True | Some x \<Rightarrow> x = of_int \<lfloor>x\<rfloor> \<and> 0 \<le> x \<and> x < 2 ^ 53)"


text \<open>An append that leaves no part of a line behind: it succeeds, or nothing of the line is written.\<close>

definition whole_lines :: "JournalIo \<Rightarrow> bool" where
  "whole_lines io = (case io of IoWriteFails k err \<Rightarrow> k = 0 | _ \<Rightarrow> True)"

definition writable :: "(TelemetryEvent \<Rightarrow> string + string) \<Rightarrow> TelemetryEvent \<Rightarrow> bool" where
  "writable to_string e \<longleftrightarrow> plain_latency e \<and> \<not> isl (to_string e)"


definition journal_rel ::
    "(TelemetryEvent \<Rightarrow> string + string) \<Rightarrow> string \<Rightarrow> nat \<Rightarrow> TelemetryEngine \<times> files \<Rightarrow> bool" where
  "journal_rel to_string path c s \<longleftrightarrow>
     tg_journal (fst s) = Some path
     \<and> (\<exists>es. list_all (writable to_string) es
          \<and> tg_buffer (fst s) = push_all es \<lparr>rb_capacity = c, rb_events = []\<rparr>
          \<and> (snd s path = Some (journal_of to_string es) \<or> snd s path = None \<and> es = []))"

lemma journal_rel_push:
  assumes "journal_rel to_string path c (g, fs)" and "plain_latency e"
    and "append_journal to_string io path e fs = (Inr (), fs')"
  shows "journal_rel to_string path c (push_counted e g, fs')"
proof -
  obtain es where es: "tg_journal g = Some path" "list_all (writable to_string) es"
      "tg_buffer g = push_all es \<lparr>rb_capacity = c, rb_events = []\<rparr>"
      "fs path = Some (journal_of to_string es) \<or> fs path = None \<and> es = []"
    using assms(1) by (auto simp: journal_rel_def)
  obtain l where l: "to_string e = Inr l" "fs' = fs(path \<mapsto> (case fs path of None \<Rightarrow> [] | Some t \<Rightarrow> t) @ l @ [CHR 0x0A])"
    using assms(3) by (auto simp: append_journal_def Let_def split: option.splits sum.splits JournalIo.splits)
  have "fs' path = Some (journal_of to_string (es @ [e]))"
    using l es(4) by (auto simp: journal_of_def)
  moreover have "tg_buffer (push_counted e g) = push_all (es @ [e]) \<lparr>rb_capacity = c, rb_events = []\<rparr>"
    by (simp add: push_counted_def push_all_def es(3) [unfolded push_all_def] split: prod.split)
  moreover have "tg_journal (push_counted e g) = Some path"
    using es(1) by (simp add: push_counted_def split: prod.split)
  moreover have "list_all (writable to_string) (es @ [e])" using es(2) l(1) assms(2) by (simp add: writable_def)
  ultimately show ?thesis unfolding journal_rel_def by (metis fst_conv snd_conv)
qed

lemma journal_rel_failed:
  assumes "journal_rel to_string path c (g, fs)" and "whole_lines io"
    and "append_journal to_string io path e fs = (Inl err, fs')"
  shows "journal_rel to_string path c (g, fs')"
  using assms by (auto simp: journal_rel_def append_journal_def journal_of_def whole_lines_def Let_def
      split: option.splits sum.splits JournalIo.splits)

lemma plain_redacted: "plain_latency (redacted_event r e) = plain_latency e"
  by (simp add: plain_latency_def redacted_event_def split: prod.split)

lemma journal_rel_record:
  assumes "journal_rel to_string path c s" and "plain_latency e" and "whole_lines io"
  shows "journal_rel to_string path c (snd (TelemetryEngine_record json_size to_string io rand e s))"
proof -
  obtain g fs where s: "s = (g, fs)" by (cases s)
  have j: "tg_journal g = Some path" using assms s by (simp add: journal_rel_def)
  let ?e = "redacted_event (tg_redactor g) e"
  obtain res fs' where a: "append_journal to_string io path ?e fs = (res, fs')"
    by (cases "append_journal to_string io path ?e fs")
  show ?thesis
    using assms journal_rel_push [of to_string path c g fs ?e io fs'] plain_redacted [of "tg_redactor g" e]
      journal_rel_failed [of to_string path c g fs io ?e _ fs'] a
    by (cases res) (auto simp: TelemetryEngine_record_def s j Let_def)
qed

text \<open>Attempts to record: the random value of an error, what the file system does, and the event.\<close>

type_synonym attempt = "u64 \<times> JournalIo \<times> TelemetryEvent"

definition attempt_step ::
    "(json_object \<Rightarrow> nat option) \<Rightarrow> (TelemetryEvent \<Rightarrow> string + string) \<Rightarrow> attempt \<Rightarrow> TelemetryEngine \<times> files
     \<Rightarrow> TelemetryEngine \<times> files" where
  "attempt_step json_size to_string a s =
     (case a of (rand, io, e) \<Rightarrow> snd (TelemetryEngine_record json_size to_string io rand e s))"

definition clean_attempt :: "attempt \<Rightarrow> bool" where
  "clean_attempt a = (case a of (rand, io, e) \<Rightarrow> plain_latency e \<and> whole_lines io)"

interpretation journal: simulation "attempt_step json_size to_string" "\<lambda>x u. u" "\<lambda>x. x"
    "\<lambda>s (u :: unit). journal_rel to_string path c s" clean_attempt
  for json_size to_string path c
  by unfold_locales (auto simp: attempt_step_def clean_attempt_def intro: journal_rel_record split: prod.splits)

section \<open>Properties\<close>

text \<open>
  C39: What the buffer holds. After any operations of a new engine the buffer has at most its capacity of events, and
  every event in it has either no string in its details that redaction looks at with a marker in it (top-level strings,
  those of nested maps, and those directly in an array), or was brought in without redaction by one of the
  operations: pushed through the buffer itself, or read from a journal by a recovery.
\<close>

theorem telemetry_redacted:
  "(case TelemetryEngine_new rand c of
      Inl _ \<Rightarrow> True
    | Inr g \<Rightarrow>
        (let b = tg_buffer (fst (run (tel_step json_size to_string from_slice) ops (g, fs))) in
         length (rb_events b) \<le> c
         \<and> list_all (\<lambda>e. details_clean Redactor_default (te_details e) \<or> list_ex (brings_in from_slice e) ops) (rb_events b)))"
proof (cases "TelemetryEngine_new rand c")
  case (Inr g)
  let ?raw = "\<lambda>e. list_ex (brings_in from_slice e) ops"
  have "tel_inv c ?raw (g, fs)"
    using Inr by (auto simp: TelemetryEngine_new_def RingBuffer_new_def tel_inv_def split: if_splits sum.splits)
  then have "tel_inv c ?raw (run (tel_step json_size to_string from_slice) ops (g, fs))"
    by (rule telemetry.sim_run) (auto simp: list_all_iff list_ex_iff)
  then show ?thesis using Inr by (simp add: tel_inv_def Let_def)
qed simp

text \<open>
  A journal is taken as it is: recovery puts an event into the buffer whose details hold a marker that recording
  would have redacted.
\<close>

theorem recovery_unredacted:
  "(let e = TelemetryEvent_new ''e1'' 1 TsCore SevInfo ''fp'' DcDiagnostic [(''note'', JString ''token=abc'')];
        g = projr (TelemetryEngine_new 0 8);
        (res, g') = recover_journal (\<lambda>l. Inr e) (\<lambda>p. None) 0 ''journal'' (g, [''journal'' \<mapsto> ''line'']) in
    res = Inr 1 \<and> rb_events (tg_buffer g') = [e] \<and> \<not> details_clean (tg_redactor g') (te_details e))"
proof -
  have "contains_marker ''token=abc'' Redactor_default" by code_simp
  then show ?thesis
    by (simp add: recover_journal_def TelemetryEngine_new_def RingBuffer_new_def MAX_RING_CAPACITY_def RingBuffer_push_def
        details_clean_def TelemetryEvent_new_def Let_def)
qed


text \<open>An event, and a writer and reader that know only this one.\<close>

definition demo_event :: TelemetryEvent where
  "demo_event = TelemetryEvent_new ''e1'' 1 TsCore SevInfo ''fp'' DcDiagnostic []"

definition demo_writer :: "TelemetryEvent \<Rightarrow> string + string" where
  "demo_writer e = (if e = redacted_event Redactor_default demo_event then Inr ''line'' else Inl '''')"

definition demo_reader :: "string \<Rightarrow> string + TelemetryEvent" where
  "demo_reader l = (if l = ''line'' then Inr (redacted_event Redactor_default demo_event) else Inl '''')"


text \<open>
  A part of a line ends recovery. When a write fails after two bytes and recording goes on, the part and the next
  line are one malformed line: the event that was recorded after the failure is in the buffer and is not recovered.
\<close>

theorem partial_line_stops_recovery:
  "(let (g, fs) = run (attempt_step (\<lambda>d. Some 2) demo_writer) [(0, IoWriteFails 2 ''full'', demo_event), (0, IoDone, demo_event)]
          (enable (projr (with_journal 0 1 ''journal'')), Map.empty);
        (res, h) = recover_journal demo_reader (\<lambda>p. None) 0 ''journal'' (projr (TelemetryEngine_new 0 1), fs) in
    fs ''journal'' = Some (''liline'' @ [CHR 0x0A]) \<and> length (rb_events (tg_buffer g)) = 1
    \<and> res = Inr 0 \<and> rb_events (tg_buffer h) = [])"
  by (simp add: attempt_step_def TelemetryEngine_record_def with_journal_def TelemetryEngine_new_def RingBuffer_new_def
      MAX_RING_CAPACITY_def enable_def append_journal_def demo_writer_def recover_journal_def demo_reader_def
      demo_event_def TelemetryEvent_new_def push_counted_def RingBuffer_push_def redacted_event_def redact_details_def
      MAX_DETAIL_BYTES_def Redactor_default_def Let_def)

text \<open>
  What redaction does not see: keys, so that a password under that key stays, and what is nested in
  an array.
\<close>

theorem details_leak:
  "redact_details Redactor_default
     [(''password'', JString ''hunter2''), (''list'', JArray [JObject [(''k'', JString ''token=abc'')], JArray [JString ''secret'']])]
   = (False,
     [(''password'', JString ''hunter2''), (''list'', JArray [JObject [(''k'', JString ''token=abc'')], JArray [JString ''secret'']])])"
  by code_simp

end
