(* ===== verification/Mask.thy ===== *)
theory Mask
  imports Scan
begin

text \<open>
  Masking the values after markers. \<open>wirecore/crates/wire-context/src/lib.rs\<close> and
  \<open>wirecore/crates/wire-copilot/src/lib.rs\<close> each run one pass per marker over a text and put a
  replacement between the marker and the rest of its value; they differ in what they take for the
  value. The interface \<open>masking\<close> is what the two passes share, and its lemmas say what the passes
  over all the markers leave.
\<close>

definition REDACTED :: string where "REDACTED = ''[REDACTED]''"

text \<open>
  In a masked text every occurrence of the marker is followed by the replacement, and that by the
  end or a character that ends a value.
\<close>

fun masked :: "(char \<Rightarrow> bool) \<Rightarrow> string \<Rightarrow> string \<Rightarrow> bool" where
  "masked stop k [] = (k \<noteq> [])"
| "masked stop k (c # cs) =
     ((prefix k (c # cs) \<longrightarrow>
        prefix (k @ REDACTED) (c # cs)
        \<and> (case drop (length (k @ REDACTED)) (c # cs) of [] \<Rightarrow> True | d # _ \<Rightarrow> stop d))
      \<and> masked stop k cs)"

definition maskable :: "string \<Rightarrow> bool" where
  "maskable k \<longleftrightarrow> k \<noteq> [] \<and> CHR ''['' \<notin> set k \<and> hd k \<notin> set REDACTED"

definition unrelated :: "string \<Rightarrow> string \<Rightarrow> bool" where
  "unrelated j k \<longleftrightarrow> \<not> sublist j k \<and> \<not> sublist k j"

lemma masked_suffix: "masked stop k (u @ s) \<Longrightarrow> k \<noteq> [] \<Longrightarrow> masked stop k s"
  by (induction u) auto

lemma REDACTED_Cons: "REDACTED = CHR ''['' # tl REDACTED"
  by (simp add: REDACTED_def)

lemma prefix_marked: "prefix u (k @ REDACTED @ x) \<Longrightarrow> CHR ''['' \<notin> set u \<Longrightarrow> prefix u k"
  by (subst (asm) REDACTED_Cons) (auto simp: prefix_append prefix_Cons)

text \<open>A marker that does not occur in a text does not begin in it when the replacement follows.\<close>

lemma masked_marked:
  assumes "maskable j" and "masked stop j x"
  shows "\<not> sublist j k \<Longrightarrow> masked stop j (k @ REDACTED @ x)"
proof (induction k)
  case Nil
  have "hd j \<notin> set v \<Longrightarrow> masked stop j (v @ x)" for v
    using assms by (induction v) (auto simp: maskable_def prefix_Cons)
  then show ?case using assms(1) by (simp add: maskable_def)
next
  case (Cons c k)
  have "\<not> prefix j ((c # k) @ REDACTED @ x)"
    using prefix_marked [of j "c # k" x] assms(1) Cons.prems
    by (auto simp: maskable_def dest: prefix_imp_sublist)
  moreover have "masked stop j (k @ REDACTED @ x)" using Cons by (auto simp: sublist_Cons_right)
  ultimately show ?case by simp
qed

locale masking =
  fixes pass :: "string \<Rightarrow> string \<Rightarrow> string" and remaining :: "string \<Rightarrow> string" and stop :: "char \<Rightarrow> bool"
  assumes pass_Nil: "k \<noteq> [] \<Longrightarrow> pass k [] = []"
    and pass_hit: "k \<noteq> [] \<Longrightarrow> prefix k s \<Longrightarrow> pass k s = k @ REDACTED @ pass k (remaining (drop (length k) s))"
    and pass_miss: "k \<noteq> [] \<Longrightarrow> \<not> prefix k (c # cs) \<Longrightarrow> pass k (c # cs) = c # pass k cs"
    and remaining_suffix: "suffix (remaining s) s"
    and remaining_stop: "remaining s \<noteq> [] \<Longrightarrow> stop (hd (remaining s))"
begin

lemma remaining_less: "k \<noteq> [] \<Longrightarrow> prefix k s \<Longrightarrow> length (remaining (drop (length k) s)) < length s"
  using suffix_length_le [OF remaining_suffix [of "drop (length k) s"]] prefix_length_le [of k s]
  by (cases k) auto

lemma pass_prefix: "k \<noteq> [] \<Longrightarrow> CHR ''['' \<notin> set u \<Longrightarrow> prefix u (pass k s) \<Longrightarrow> prefix u s"
proof (induction s arbitrary: u)
  case (Cons c cs)
  show ?case
  proof (cases "prefix k (c # cs)")
    case True
    then have "prefix u k" using Cons.prems pass_hit [OF _ True] by (auto intro: prefix_marked)
    then show ?thesis using True by (rule prefix_order.order_trans)
  next
    case False
    then show ?thesis using Cons by (cases u) (auto simp: pass_miss)
  qed
qed (simp add: pass_Nil)

lemma pass_head: "k \<noteq> [] \<Longrightarrow> s \<noteq> [] \<Longrightarrow> pass k s \<noteq> [] \<and> hd (pass k s) = hd s"
proof (cases "prefix k s")
  case True
  assume "k \<noteq> []"
  then show ?thesis using pass_hit [OF _ True] True by (cases k) (auto simp: prefix_def)
next
  case False
  assume "k \<noteq> []" "s \<noteq> []"
  then show ?thesis using False by (cases s) (simp_all add: pass_miss)
qed

text \<open>One pass masks its marker.\<close>

lemma pass_masks: "maskable k \<Longrightarrow> masked stop k (pass k s)"
proof (induction "length s" arbitrary: s rule: less_induct)
  case less
  have k: "k \<noteq> []" "CHR ''['' \<notin> set k" using less.prems by (simp_all add: maskable_def)
  show ?case
  proof (cases s)
    case Nil
    then show ?thesis using k by (simp add: pass_Nil)
  next
    case (Cons c cs)
    show ?thesis
    proof (cases "prefix k s")
      case True
      let ?r = "remaining (drop (length k) s)"
      obtain a t where a: "k = a # t" using k by (cases k) auto
      have m: "masked stop k (pass k ?r)" by (rule less.hyps [OF remaining_less [OF k(1) True] less.prems])
      have "\<not> sublist k t" using a by (auto dest: sublist_length_le)
      then have "masked stop k (t @ REDACTED @ pass k ?r)" by (rule masked_marked [OF less.prems m])
      moreover have "(case pass k ?r of [] \<Rightarrow> True | d # _ \<Rightarrow> stop d)"
        using pass_head [OF k(1), of ?r] remaining_stop [of "drop (length k) s"] pass_Nil [OF k(1)]
        by (cases "?r = []") (auto split: list.split)
      ultimately show ?thesis unfolding pass_hit [OF k(1) True] using a by simp
    next
      case False
      have "\<not> prefix k (c # pass k cs)"
        using pass_prefix [OF k(1), of "tl k" cs] k False Cons by (cases k) auto
      moreover have "masked stop k (pass k cs)" using less.hyps [of cs] less.prems Cons by simp
      ultimately show ?thesis using False Cons k by (simp add: pass_miss)
    qed
  qed
qed

text \<open>A pass for one marker leaves the others masked.\<close>

lemma pass_skips: "k \<noteq> [] \<Longrightarrow> \<forall>i < length v. \<not> prefix k (drop i (v @ s)) \<Longrightarrow> pass k (v @ s) = v @ pass k s"
proof (induction v)
  case (Cons c v)
  have "\<not> prefix k (c # v @ s)" using Cons.prems(2) by (auto dest: spec [of _ 0])
  moreover have "\<not> prefix k (drop i (v @ s))" if "i < length v" for i
    using Cons.prems(2) that by (auto dest: spec [of _ "Suc i"])
  ultimately show ?case using Cons by (simp add: pass_miss)
qed simp

lemma no_start_marked:
  assumes "maskable k" and "\<not> sublist k j" and i: "i < length (j @ REDACTED)"
  shows "\<not> prefix k (drop i ((j @ REDACTED) @ x))"
proof (cases "i < length j")
  case True
  have "\<not> prefix k (drop i j)"
    using assms(2) sublist_order.order_trans [of k "drop i j" j] by (auto dest: prefix_imp_sublist)
  then show ?thesis
    using prefix_marked [of k "drop i j" x] assms(1) True by (auto simp: maskable_def)
next
  case False
  then have lt: "i - length j < length REDACTED" using i by simp
  have "drop i ((j @ REDACTED) @ x) = drop (i - length j) REDACTED @ x" using False lt by simp
  also have "\<dots> = REDACTED ! (i - length j) # drop (Suc (i - length j)) REDACTED @ x"
    by (simp add: Cons_nth_drop_Suc [OF lt, symmetric])
  finally have eq: "drop i ((j @ REDACTED) @ x)
      = REDACTED ! (i - length j) # drop (Suc (i - length j)) REDACTED @ x" .
  have "hd k \<noteq> REDACTED ! (i - length j)" using assms(1) nth_mem [OF lt] by (auto simp: maskable_def)
  then show ?thesis unfolding eq using assms(1) by (cases k) (auto simp: maskable_def)
qed

lemma pass_keeps:
  assumes k: "maskable k" and j: "maskable j" and u: "unrelated j k"
  shows "masked stop j s \<Longrightarrow> masked stop j (pass k s)"
proof (induction "length s" arbitrary: s rule: less_induct)
  case less
  have kn: "k \<noteq> []" and jn: "j \<noteq> []" using k j by (simp_all add: maskable_def)
  show ?case
  proof (cases s)
    case Nil
    then show ?thesis using jn kn by (simp add: pass_Nil)
  next
    case (Cons c cs)
    show ?thesis
    proof (cases "prefix k s")
      case True
      let ?r = "remaining (drop (length k) s)"
      obtain w where w: "drop (length k) s = w @ ?r"
        using remaining_suffix [of "drop (length k) s"] unfolding suffix_def by blast
      have "s = k @ drop (length k) s" using True by (rule prefixE) simp
      then have "s = (k @ w) @ ?r" unfolding append_assoc w [symmetric] .
      then have "masked stop j ?r"
        using less.prems masked_suffix [OF _ jn, of stop "k @ w" ?r] by metis
      then have "masked stop j (pass k ?r)" by (rule less.hyps [OF remaining_less [OF kn True]])
      then show ?thesis
        unfolding pass_hit [OF kn True] using masked_marked [OF j] u by (auto simp: unrelated_def)
    next
      case False
      then have eq: "pass k s = c # pass k cs" using Cons kn by (simp add: pass_miss)
      have "masked stop j (pass k cs)" using less.hyps [of cs] less.prems Cons by simp
      moreover have "prefix (j @ REDACTED) (c # pass k cs)
          \<and> (case drop (length (j @ REDACTED)) (c # pass k cs) of [] \<Rightarrow> True | d # _ \<Rightarrow> stop d)"
        if p: "prefix j (c # pass k cs)"
      proof -
        have "prefix j s"
          using p pass_prefix [OF kn, of "tl j" cs] j Cons by (cases j) (auto simp: maskable_def)
        then have "prefix (j @ REDACTED) s"
            and st: "(case drop (length (j @ REDACTED)) s of [] \<Rightarrow> True | d # _ \<Rightarrow> stop d)"
          using less.prems Cons by simp_all
        then obtain x where x: "s = (j @ REDACTED) @ x" by (auto simp: prefix_def)
        have "pass k s = (j @ REDACTED) @ pass k x"
          unfolding x
        proof (rule pass_skips [OF kn], intro allI impI)
          fix i
          assume "i < length (j @ REDACTED)"
          then show "\<not> prefix k (drop i ((j @ REDACTED) @ x))"
            using no_start_marked [OF k] u by (simp add: unrelated_def)
        qed
        then have full: "c # pass k cs = (j @ REDACTED) @ pass k x" unfolding eq .
        have "(case pass k x of [] \<Rightarrow> True | d # _ \<Rightarrow> stop d)"
          using st x pass_head [OF kn, of x] pass_Nil [OF kn] by (cases x) (auto split: list.split)
        then show ?thesis unfolding full by (simp add: append_assoc [symmetric] del: append_assoc)
      qed
      ultimately show ?thesis unfolding eq by simp
    qed
  qed
qed

lemma passes_mask:
  assumes "list_all maskable ks" and "sorted_wrt unrelated ks"
  shows "list_all (\<lambda>k. masked stop k (foldl (\<lambda>t k. pass k t) s ks)) ks"
  using assms
proof (induction ks rule: rev_induct)
  case (snoc k ks)
  then show ?case
    by (auto simp: list_all_iff sorted_wrt_append intro!: pass_masks pass_keeps)
qed simp

end

end
