(* ===== verification/Context.thy ===== *)
theory Context
  imports Mask
begin

text \<open>
  Context distillation, \<open>wirecore/crates/wire-context/src/lib.rs\<close>: the grammar that reads typed events
  from a line of the game, the distiller that keeps a capsule of the state and collapses repeated
  lines, and the redaction of lines.
\<close>

definition MAX_CAPSULE_ENTITIES :: nat where "MAX_CAPSULE_ENTITIES = 64"
definition MAX_SPAM_WINDOW :: nat where "MAX_SPAM_WINDOW = 64"

section \<open>Events and the capsule\<close>

datatype Event =
    RoomSeen string "string list" "string option"
  | ExitSeen string "string option"
  | MobSeen string
  | PlayerSeen string
  | AnimalSeen string
  | PKerOrPvPerSeen string
  | CombatStarted string
  | CombatEnded "string option"
  | ItemSeen string
  | QuestClueSeen string
  | PromptSeen string "int option" "int option"
  | HealthChanged int int
  | CommandSucceeded string
  | CommandFailed string string
  | SocialMessageSeen string string string
  | PrivateMessageRedacted string

record ContextCapsule =
  cc_room :: "string option"
  cc_exits :: "string list"
  cc_entities :: "string list"
  cc_combat :: "string option"
  cc_health :: "int option"
  cc_mana :: "int option"
  cc_prompt :: "string option"
  cc_quest_clues :: "string list"
  cc_command_policy :: "string list"
  cc_memory_citations :: "string list"
  cc_safety_evidence :: "string list"
  cc_user_request :: "string option"
  cc_spam_collapsed :: nat

definition ContextCapsule_empty :: ContextCapsule where
  "ContextCapsule_empty =
     \<lparr>cc_room = None, cc_exits = [], cc_entities = [], cc_combat = None, cc_health = None, cc_mana = None,
      cc_prompt = None, cc_quest_clues = [], cc_command_policy = [], cc_memory_citations = [],
      cc_safety_evidence = [], cc_user_request = None, cc_spam_collapsed = 0\<rparr>"

record Distiller =
  ds_capsule :: ContextCapsule
  ds_recent :: "string list"

definition Distiller_new :: Distiller where
  "Distiller_new = \<lparr>ds_capsule = ContextCapsule_empty, ds_recent = []\<rparr>"

section \<open>The grammar\<close>

text \<open>\<open>parse::<i64>\<close>: an optional sign, then digits, and a value that fits.\<close>

definition parse_i64 :: "string \<Rightarrow> int option" where
  "parse_i64 s =
     (let (neg, d) = (case s of c # cs \<Rightarrow> if c = CHR ''-'' then (True, cs) else if c = CHR ''+'' then (False, cs)
                       else (False, s) | [] \<Rightarrow> (False, s)) in
      if d = [] then None
      else
        (case digits_value 0 d of
           None \<Rightarrow> None
         | Some n \<Rightarrow>
             let i = (if neg then - int n else int n) in
             if - (2 ^ 63) \<le> i \<and> i < 2 ^ 63 then Some i else None))"

definition trim_end_dots :: "string \<Rightarrow> string" where
  "trim_end_dots s = rev (dropWhile (\<lambda>c. c = CHR ''.'') (rev s))"

definition strip_suffix :: "string \<Rightarrow> string \<Rightarrow> string option" where
  "strip_suffix p s = (if suffix p s then Some (take (length s - length p) s) else None)"

definition split_once :: "string \<Rightarrow> char \<Rightarrow> (string \<times> string) option" where
  "split_once s c =
     (if c \<in> set s then Some (takeWhile (\<lambda>d. d \<noteq> c) s, tl (dropWhile (\<lambda>d. d \<noteq> c) s)) else None)"

text \<open>\<open>split(m).next()\<close>: the text before the first occurrence of \<open>m\<close>, or all of it.\<close>

definition before :: "string \<Rightarrow> string \<Rightarrow> string" where
  "before s m = (case find_text s m of None \<Rightarrow> s | Some i \<Rightarrow> take i s)"

definition split_list :: "string \<Rightarrow> string list" where
  "split_list s = filter (\<lambda>x. x \<noteq> []) (map trim (split_on (CHR '','') s))"

definition extract_leading_number :: "string \<Rightarrow> int option" where
  "extract_leading_number s =
     (let num = takeWhile (\<lambda>c. char_digit c \<noteq> None) s in if num = [] then None else parse_i64 num)"

definition name_before_marker :: "string \<Rightarrow> string \<Rightarrow> string option" where
  "name_before_marker rest marker =
     (case find_text rest marker of
        None \<Rightarrow> None
      | Some idx \<Rightarrow>
          let after = drop (idx + length marker) rest in
          if after = [] \<or> prefix ''.'' after \<or> prefix '','' after \<or> prefix ''!'' after \<or> prefix '' '' after
          then Some (take idx rest) else None)"

text \<open>A prompt with two numbers; \<open>Some None\<close> is a return of nothing from the function.\<close>

definition prompt_two :: "string \<Rightarrow> string \<Rightarrow> Event option option" where
  "prompt_two t rest =
     (case split_once rest (CHR ''>'') of
        None \<Rightarrow> Some None
      | Some (hp, after) \<Rightarrow>
          (case strip_prefix ''hp '' after of
             None \<Rightarrow> None
           | Some after \<Rightarrow>
               (case split_once after (CHR ''>'') of
                  None \<Rightarrow> Some None
                | Some (mana, after2) \<Rightarrow>
                    let mana = trim_start_char (CHR ''<'') mana in
                    if prefix ''m'' after2 \<or> prefix ''m>'' after2 \<or> after2 = ''m ''
                    then
                      (case (parse_i64 hp, parse_i64 mana) of
                         (Some h, Some m) \<Rightarrow> Some (Some (PromptSeen t (Some h) (Some m)))
                       | _ \<Rightarrow> Some None)
                    else None)))"

definition prompt_one :: "string \<Rightarrow> string \<Rightarrow> Event option" where
  "prompt_one t rest =
     (case split_once rest (CHR ''/'') of
        None \<Rightarrow> None
      | Some (hp, after) \<Rightarrow>
          (case strip_suffix ''>'' after of
             None \<Rightarrow> None
           | Some after \<Rightarrow>
               (case strip_suffix ''hp'' after of
                  None \<Rightarrow> None
                | Some _ \<Rightarrow>
                    (case parse_i64 hp of None \<Rightarrow> None | Some h \<Rightarrow> Some (PromptSeen t (Some h) None)))))"

definition try_prompt :: "string \<Rightarrow> Event option" where
  "try_prompt t =
     (case strip_prefix ''<'' t of
        None \<Rightarrow> None
      | Some rest \<Rightarrow> (case prompt_two t rest of Some r \<Rightarrow> r | None \<Rightarrow> prompt_one t rest))"

definition FROM :: string where "FROM = ''From ''"
definition PRIVATE_FROM :: string where "PRIVATE_FROM = ''You receive a private message from ''"
definition NOT_UNDERSTOOD :: string where
  "NOT_UNDERSTOOD = ''I don'' @ [CHR 0x27] @ ''t understand '' @ [CHR 0x27]"

definition extract_sender :: "string \<Rightarrow> string" where
  "extract_sender t =
     (case strip_prefix FROM t of
        Some rest \<Rightarrow> trim (hd (split_on (CHR '':'') rest))
      | None \<Rightarrow>
          (case strip_prefix PRIVATE_FROM t of
             Some rest \<Rightarrow> trim (trim_end_dots rest)
           | None \<Rightarrow> ''unknown''))"

text \<open>\<open>splitn(3, ' ')\<close>, when there are three parts.\<close>

definition three_words :: "string \<Rightarrow> (string \<times> string \<times> string) option" where
  "three_words s =
     (case split_once s (CHR '' '') of
        None \<Rightarrow> None
      | Some (a, r) \<Rightarrow>
          (case split_once r (CHR '' '') of None \<Rightarrow> None | Some (b, c) \<Rightarrow> Some (a, b, c)))"

text \<open>A name between a beginning and a marker.\<close>

definition named :: "string \<Rightarrow> string \<Rightarrow> string \<Rightarrow> string option" where
  "named start marker t = Option.bind (strip_prefix start t) (\<lambda>rest. map_option trim (name_before_marker rest marker))"

definition number_after :: "string \<Rightarrow> string \<Rightarrow> int option" where
  "number_after start t = Option.bind (strip_prefix start t) extract_leading_number"

text \<open>
  The rules in the order of the code, each with the events it gives; the first that matches decides.
\<close>

definition line_rules :: "(string \<Rightarrow> Event list option) list" where
  "line_rules =
    [\<lambda>t. map_option (\<lambda>ev. [ev]) (try_prompt t),
     \<lambda>t. map_option (\<lambda>n. [RoomSeen (trim_end_dots n) [] None]) (strip_prefix ''You are in '' t),
     \<lambda>t. map_option (\<lambda>n. [RoomSeen (trim_end_dots n) [] None]) (strip_prefix ''You are standing in '' t),
     \<lambda>t. map_option (\<lambda>r. map (\<lambda>e. ExitSeen e None) (split_list r)) (strip_prefix ''Obvious exits: '' t),
     \<lambda>t. map_option (\<lambda>r. map (\<lambda>e. ExitSeen e None) (split_list r)) (strip_prefix ''Exits: '' t),
     \<lambda>t. map_option (\<lambda>n. [MobSeen n]) (named ''A '' '' is here'' t),
     \<lambda>t. map_option (\<lambda>n. [AnimalSeen n]) (named ''An '' '' is here'' t),
     \<lambda>t. map_option (\<lambda>n. [ItemSeen n]) (named ''You see a '' '' here'' t),
     \<lambda>t. map_option (\<lambda>n. [ItemSeen n]) (named ''You see an '' '' here'' t),
     \<lambda>t. map_option (\<lambda>n. [PlayerSeen n]) (named ''You see '' '' here'' t),
     \<lambda>t. map_option (\<lambda>n. [PKerOrPvPerSeen n]) (named ''You notice '' '' (PK)'' t),
     \<lambda>t. map_option (\<lambda>r. [CombatStarted (before r '' for '')]) (strip_prefix ''You hit '' t),
     \<lambda>t. map_option (\<lambda>r. [CombatStarted (trim_end_dots r)]) (strip_prefix ''You miss '' t),
     \<lambda>t. map_option (\<lambda>r. [CombatEnded (Some (trim_end_dots r))]) (strip_prefix ''You kill '' t),
     \<lambda>t. if t = ''Combat ends.'' then Some [CombatEnded None] else None,
     \<lambda>t. map_option (\<lambda>n. [HealthChanged 0 n]) (number_after ''Your health is '' t),
     \<lambda>t. map_option (\<lambda>n. [HealthChanged 0 n]) (number_after ''Health: '' t),
     \<lambda>t. map_option (\<lambda>r. map ItemSeen (split_list r)) (strip_prefix ''On the ground: '' t),
     \<lambda>t. map_option (\<lambda>c. [QuestClueSeen c]) (strip_prefix ''A clue: '' t),
     \<lambda>t. map_option (\<lambda>c. [QuestClueSeen (trim_end_dots c)]) (strip_prefix ''You recall that '' t),
     \<lambda>t. map_option (\<lambda>c. [CommandSucceeded c]) (strip_prefix ''You say, '' t),
     \<lambda>t. map_option (\<lambda>r. [CommandFailed (hd (split_on (CHR 0x27) r)) ''unknown command'']) (strip_prefix NOT_UNDERSTOOD t),
     \<lambda>t. Option.bind (strip_prefix ''You tell '' t) (\<lambda>r. map_option
           (\<lambda>(a, b, c). [SocialMessageSeen a (rev (dropWhile (\<lambda>x. x = CHR '':'') (rev b))) c]) (three_words r)),
     \<lambda>t. if strip_prefix FROM t \<noteq> None \<or> strip_prefix PRIVATE_FROM t \<noteq> None
         then Some [PrivateMessageRedacted (extract_sender t)] else None]"

fun first_rule :: "('a \<Rightarrow> 'b option) list \<Rightarrow> 'a \<Rightarrow> 'b option" where
  "first_rule [] t = None"
| "first_rule (r # rs) t = (case r t of Some x \<Rightarrow> Some x | None \<Rightarrow> first_rule rs t)"

definition parse_line :: "string \<Rightarrow> Event list" where
  "parse_line line =
     (let t = trim line in
      if t = [] then [] else (case first_rule line_rules t of Some evs \<Rightarrow> evs | None \<Rightarrow> []))"

section \<open>The distiller\<close>

definition push_unique :: "string list \<Rightarrow> string \<Rightarrow> string list" where
  "push_unique v x = (if list_ex (\<lambda>y. y = x) v then v else v @ [x])"

definition push_entity :: "string \<Rightarrow> ContextCapsule \<Rightarrow> ContextCapsule" where
  "push_entity name c =
     (if MAX_CAPSULE_ENTITIES \<le> length (cc_entities c) then c
      else c\<lparr>cc_entities := push_unique (cc_entities c) name\<rparr>)"

fun Distiller_apply :: "Event \<Rightarrow> ContextCapsule \<Rightarrow> ContextCapsule" where
  "Distiller_apply (RoomSeen name exits _) c = c\<lparr>cc_room := Some name, cc_exits := exits, cc_entities := []\<rparr>"
| "Distiller_apply (ExitSeen direction _) c = c\<lparr>cc_exits := push_unique (cc_exits c) direction\<rparr>"
| "Distiller_apply (MobSeen name) c = push_entity name c"
| "Distiller_apply (PlayerSeen name) c = push_entity name c"
| "Distiller_apply (AnimalSeen name) c = push_entity name c"
| "Distiller_apply (PKerOrPvPerSeen name) c = push_entity name c"
| "Distiller_apply (ItemSeen name) c = push_entity name c"
| "Distiller_apply (CombatStarted target) c = c\<lparr>cc_combat := Some target\<rparr>"
| "Distiller_apply (CombatEnded _) c = c\<lparr>cc_combat := None\<rparr>"
| "Distiller_apply (QuestClueSeen clue) c = c\<lparr>cc_quest_clues := push_unique (cc_quest_clues c) clue\<rparr>"
| "Distiller_apply (PromptSeen prompt health mana) c =
     c\<lparr>cc_prompt := Some prompt,
       cc_health := (case health of Some h \<Rightarrow> Some h | None \<Rightarrow> cc_health c),
       cc_mana := (case mana of Some m \<Rightarrow> Some m | None \<Rightarrow> cc_mana c)\<rparr>"
| "Distiller_apply (HealthChanged _ current) c = c\<lparr>cc_health := Some current\<rparr>"
| "Distiller_apply (CommandSucceeded command) c =
     c\<lparr>cc_user_request := Some command,
       cc_safety_evidence := push_unique (cc_safety_evidence c) (''cmd-ok:'' @ command)\<rparr>"
| "Distiller_apply (CommandFailed command reason) c =
     c\<lparr>cc_user_request := Some command,
       cc_safety_evidence := push_unique (cc_safety_evidence c) (''cmd-fail:'' @ command @ '':'' @ reason)\<rparr>"
| "Distiller_apply (SocialMessageSeen _ _ _) c = c"
| "Distiller_apply (PrivateMessageRedacted _) c = c"

definition feed_line :: "string \<Rightarrow> Distiller \<Rightarrow> Event list \<times> Distiller" where
  "feed_line line d =
     (let events = parse_line line in
      (events, d\<lparr>ds_capsule := foldl (\<lambda>c ev. Distiller_apply ev c) (ds_capsule d) events\<rparr>))"

definition collapse_spam :: "string \<Rightarrow> Distiller \<Rightarrow> string option \<times> Distiller" where
  "collapse_spam line d =
     (if list_ex (\<lambda>r. r = line) (ds_recent d)
      then (None, d\<lparr>ds_capsule := (ds_capsule d)\<lparr>cc_spam_collapsed := cc_spam_collapsed (ds_capsule d) + 1\<rparr>\<rparr>)
      else
        let recent = ds_recent d @ [line] in
        (Some line, d\<lparr>ds_recent := drop (length recent - MAX_SPAM_WINDOW) recent\<rparr>))"

definition feed_line_collapsed :: "string \<Rightarrow> Distiller \<Rightarrow> Event list \<times> Distiller" where
  "feed_line_collapsed line d =
     (case collapse_spam line d of
        (Some _, d') \<Rightarrow> feed_line line d'
      | (None, d') \<Rightarrow> ([], d'))"

section \<open>Redaction\<close>

definition is_separator :: "char \<Rightarrow> bool" where
  "is_separator c \<longleftrightarrow> is_ws c \<or> c = CHR '','' \<or> c = CHR ''&'' \<or> c = CHR 0x22"

text \<open>The loop over the occurrences of a marker, which is not empty.\<close>

function redact_after_marker :: "string \<Rightarrow> string \<Rightarrow> string" where
  "redact_after_marker rest marker =
     (if marker = [] then rest
      else
        (case find_text rest marker of
           None \<Rightarrow> rest
         | Some idx \<Rightarrow>
             let after = drop (idx + length marker) rest;
                 value = dropWhile is_separator after in
             take idx rest @ marker @ ''[REDACTED]''
             @ redact_after_marker (dropWhile (\<lambda>c. \<not> is_separator c) value) marker))"
  by pat_completeness auto
termination
proof (relation "measure (length \<circ> fst)")
  fix rest marker :: string and idx after v
  assume m: "marker \<noteq> []" and i: "find_text rest marker = Some idx" and a: "after = drop (idx + length marker) rest"
    and v: "v = dropWhile is_separator after"
  have "length (dropWhile (\<lambda>c. \<not> is_separator c) v) \<le> length v" by (rule length_dropWhile_le)
  also have "\<dots> \<le> length after" unfolding v by (rule length_dropWhile_le)
  also have "\<dots> < length rest" using find_text_bound [OF i] m unfolding a length_drop by (cases marker) auto
  finally show "((dropWhile (\<lambda>c. \<not> is_separator c) v, marker), (rest, marker)) \<in> measure (length \<circ> fst)" by simp
qed simp

declare redact_after_marker.simps [simp del]

definition context_markers :: "string list" where
  "context_markers = [''password='', ''passwd='', ''token='', ''api_key='', ''apikey='', ''secret='', ''Bearer '']"

definition redact_text :: "string \<Rightarrow> string" where
  "redact_text input = foldl redact_after_marker input context_markers"

lemma find_text_here: "k \<noteq> [] \<Longrightarrow> prefix k s \<Longrightarrow> find_text s k = Some 0"
  by (cases s) auto

interpretation context_mask: masking "\<lambda>k s. redact_after_marker s k"
    "\<lambda>s. dropWhile (\<lambda>c. \<not> is_separator c) (dropWhile is_separator s)" is_separator
proof
  fix k s cs :: string and c :: char
  show "redact_after_marker [] k = []" by (simp add: redact_after_marker.simps)
  show "redact_after_marker s k
      = k @ REDACTED
        @ redact_after_marker (dropWhile (\<lambda>c. \<not> is_separator c) (dropWhile is_separator (drop (length k) s))) k"
    if "k \<noteq> []" "prefix k s"
    by (subst redact_after_marker.simps) (simp add: find_text_here that Let_def REDACTED_def)
  show "redact_after_marker (c # cs) k = c # redact_after_marker cs k" if "k \<noteq> []" "\<not> prefix k (c # cs)"
    using that
    by (subst (1 2) redact_after_marker.simps) (simp add: Let_def split: option.split)
  show "suffix (dropWhile (\<lambda>c. \<not> is_separator c) (dropWhile is_separator s)) s"
    by (rule suffix_order.order_trans [OF suffix_dropWhile suffix_dropWhile])
  show "is_separator (hd (dropWhile (\<lambda>c. \<not> is_separator c) (dropWhile is_separator s)))"
    if "dropWhile (\<lambda>c. \<not> is_separator c) (dropWhile is_separator s) \<noteq> []"
    using hd_dropWhile [OF that] by simp
qed

lemma context_markers_ok: "list_all maskable context_markers" "sorted_wrt unrelated context_markers"
proof -
  show "list_all maskable context_markers" by code_simp
  have "sorted_wrt (\<lambda>j k. \<not> str_contains k j \<and> \<not> str_contains j k) context_markers" by code_simp
  then show "sorted_wrt unrelated context_markers" by (simp add: unrelated_def [abs_def] str_contains_iff)
qed

section \<open>The distiller as a machine\<close>

datatype line_op = Feed string | FeedCollapsed string

fun line_step :: "line_op \<Rightarrow> Distiller \<Rightarrow> Distiller" where
  "line_step (Feed line) d = snd (feed_line line d)"
| "line_step (FeedCollapsed line) d = snd (feed_line_collapsed line d)"

definition capsule_inv :: "ContextCapsule \<Rightarrow> bool" where
  "capsule_inv c \<longleftrightarrow>
     distinct (cc_entities c) \<and> length (cc_entities c) \<le> MAX_CAPSULE_ENTITIES \<and> distinct (cc_exits c)
     \<and> distinct (cc_quest_clues c) \<and> distinct (cc_safety_evidence c)"

definition distiller_inv :: "Distiller \<Rightarrow> bool" where
  "distiller_inv d \<longleftrightarrow>
     capsule_inv (ds_capsule d) \<and> distinct (ds_recent d) \<and> length (ds_recent d) \<le> MAX_SPAM_WINDOW"

text \<open>The events of the grammar; a room comes without exits.\<close>

fun grammar_event :: "Event \<Rightarrow> bool" where
  "grammar_event (RoomSeen _ exits _) \<longleftrightarrow> exits = []"
| "grammar_event _ \<longleftrightarrow> True"

lemma distinct_push_unique: "distinct v \<Longrightarrow> distinct (push_unique v x)"
  by (auto simp: push_unique_def list_ex_iff)

lemma capsule_inv_entity: "capsule_inv c \<Longrightarrow> capsule_inv (push_entity x c)"
  by (auto simp: capsule_inv_def push_entity_def distinct_push_unique) (simp add: push_unique_def)

lemma capsule_inv_apply: "capsule_inv c \<Longrightarrow> grammar_event ev \<Longrightarrow> capsule_inv (Distiller_apply ev c)"
  by (cases ev) (simp_all add: capsule_inv_entity, simp_all add: capsule_inv_def distinct_push_unique)

lemma first_rule_event:
  "list_all (\<lambda>r. \<forall>t evs. r t = Some evs \<longrightarrow> list_all Q evs) rs \<Longrightarrow> first_rule rs t = Some evs \<Longrightarrow> list_all Q evs"
  by (induction rs t rule: first_rule.induct) (auto split: option.splits)

lemma prompt_event: "try_prompt t = Some ev \<Longrightarrow> grammar_event ev"
  by (auto simp: try_prompt_def prompt_two_def prompt_one_def Let_def split: option.splits if_splits prod.splits)

lemma line_rules_events: "list_all (\<lambda>r. \<forall>t evs. r t = Some evs \<longrightarrow> list_all grammar_event evs) line_rules"
  unfolding line_rules_def list.pred_inject
  by (intro conjI TrueI allI impI)
    (auto simp: list_all_iff bind_eq_Some_conv dest: prompt_event split: if_splits prod.splits)

lemma parse_line_events: "list_all grammar_event (parse_line line)"
  using first_rule_event [OF line_rules_events] by (auto simp: parse_line_def Let_def split: option.split)

lemma capsule_inv_fold:
  "list_all grammar_event evs \<Longrightarrow> capsule_inv c \<Longrightarrow> capsule_inv (foldl (\<lambda>c ev. Distiller_apply ev c) c evs)"
  by (induction evs arbitrary: c) (simp_all add: capsule_inv_apply)

lemma distiller_inv_feed: "distiller_inv d \<Longrightarrow> distiller_inv (snd (feed_line line d))"
  using capsule_inv_fold [OF parse_line_events] by (simp add: distiller_inv_def feed_line_def Let_def)

lemma distiller_inv_collapse: "distiller_inv d \<Longrightarrow> distiller_inv (snd (collapse_spam line d))"
proof (cases "list_ex (\<lambda>r. r = line) (ds_recent d)")
  case False
  assume inv: "distiller_inv d"
  let ?r = "ds_recent d @ [line]"
  have "distinct ?r" using inv False by (auto simp: distiller_inv_def list_ex_iff)
  then have "distinct (drop (length ?r - MAX_SPAM_WINDOW) ?r)" by (rule distinct_drop)
  moreover have "length (drop (length ?r - MAX_SPAM_WINDOW) ?r) \<le> MAX_SPAM_WINDOW" by simp
  ultimately show ?thesis
    using inv False unfolding distiller_inv_def collapse_spam_def Let_def if_False by simp
qed (simp add: distiller_inv_def collapse_spam_def capsule_inv_def)

interpretation distiller: machine_invariant line_step distiller_inv
proof
  fix d x
  assume inv: "distiller_inv d"
  show "distiller_inv (line_step x d)"
  proof (cases x)
    case (FeedCollapsed line)
    then show ?thesis
      using distiller_inv_collapse [OF inv, of line] distiller_inv_feed
      by (auto simp: feed_line_collapsed_def split: prod.split option.split)
  qed (simp add: distiller_inv_feed inv)
qed

section \<open>Private messages\<close>

lemma trim_message:
  "trim (CHR ''F'' # s @ CHR '':'' # msg) = CHR ''F'' # s @ CHR '':'' # rev (dropWhile is_ws (rev msg))"
proof -
  have "\<not> is_ws (CHR ''F'')" and c: "\<not> is_ws (CHR '':'')" by (simp_all add: is_ws_def)
  then have "trim (CHR ''F'' # s @ CHR '':'' # msg)
      = rev (dropWhile is_ws (rev msg @ CHR '':'' # rev s @ [CHR ''F'']))"
    by (simp add: trim_def)
  also have "dropWhile is_ws (rev msg @ CHR '':'' # rev s @ [CHR ''F''])
      = dropWhile is_ws (rev msg) @ CHR '':'' # rev s @ [CHR ''F'']"
  proof (cases "\<exists>x \<in> set msg. \<not> is_ws x")
    case False
    then have e: "dropWhile is_ws (rev msg) = []" by (simp add: dropWhile_eq_Nil_conv)
    show ?thesis unfolding e by (subst dropWhile_append2) (use False c in simp_all)
  qed (auto simp: dropWhile_append1)
  finally show ?thesis by simp
qed

lemma first_rule_from:
  "first_rule line_rules (''From '' @ s) = Some [PrivateMessageRedacted (extract_sender (''From '' @ s))]"
  by (simp add: line_rules_def try_prompt_def strip_prefix_def named_def number_after_def NOT_UNDERSTOOD_def
      FROM_def)

section \<open>Properties\<close>

text \<open>
  The capsule is bounded and has no duplicates. After any lines, with or without the collapsing of
  repeated ones, it holds at most 64 entities, and no entity, exit, clue or piece of evidence twice;
  the window of recent lines holds at most 64, all different.
\<close>

theorem capsule_bounded: "distiller_inv (run line_step ops Distiller_new)"
  by (rule distiller.run_inv) (simp add: distiller_inv_def capsule_inv_def Distiller_new_def ContextCapsule_empty_def)

text \<open>
  Redaction leaves no value behind. In the redacted text, whatever the input, every one of the seven
  markers is followed by the replacement, and that by the end or a separator.
\<close>

theorem redaction_masks_values: "list_all (\<lambda>k. masked is_separator k (redact_text s)) context_markers"
  unfolding redact_text_def by (rule context_mask.passes_mask [OF context_markers_ok])

lemma private_message_fed:
  assumes "CHR '':'' \<notin> set name"
  shows "feed_line (FROM @ name @ '':'' @ msg) d = ([PrivateMessageRedacted (trim name)], d)"
proof -
  let ?m = "rev (dropWhile is_ws (rev msg))"
  have t: "trim (FROM @ name @ '':'' @ msg) = ''From '' @ name @ CHR '':'' # ?m"
    using trim_message [of "''rom '' @ name" msg] by (simp add: FROM_def)
  have "extract_sender (''From '' @ name @ CHR '':'' # ?m) = trim name"
    using assms by (simp add: extract_sender_def strip_prefix_def FROM_def split_on_line)
  then have "parse_line (FROM @ name @ '':'' @ msg) = [PrivateMessageRedacted (trim name)]"
    unfolding parse_line_def t Let_def first_rule_from by simp
  then show ?thesis by (simp add: feed_line_def Let_def)
qed

text \<open>
  The lines the grammar takes for private messages, in any of their forms: what is left without the white space at both
  ends begins as a private message does, whatever follows. These are exactly the lines that give the event of a
  private message.
\<close>

definition private_line :: "string \<Rightarrow> bool" where
  "private_line l \<longleftrightarrow> prefix FROM (trim l) \<or> prefix PRIVATE_FROM (trim l)"

lemma first_rule_private_from:
  "first_rule line_rules (PRIVATE_FROM @ s) = Some [PrivateMessageRedacted (extract_sender (PRIVATE_FROM @ s))]"
  by (simp add: line_rules_def try_prompt_def strip_prefix_def named_def number_after_def NOT_UNDERSTOOD_def
      FROM_def PRIVATE_FROM_def)

lemma private_line_parsed: "private_line l \<Longrightarrow> \<exists>sender. parse_line l = [PrivateMessageRedacted sender]"
proof -
  assume "private_line l"
  then consider s where "trim l = FROM @ s" | s where "trim l = PRIVATE_FROM @ s" by (auto simp: private_line_def prefix_def)
  then show ?thesis
  proof cases
    case 1
    then show ?thesis using first_rule_from [of s] by (simp add: parse_line_def Let_def FROM_def)
  next
    case 2
    then show ?thesis using first_rule_private_from [of s] by (simp add: parse_line_def Let_def PRIVATE_FROM_def)
  qed
qed

lemma first_rule_some: "first_rule rs t = Some es \<Longrightarrow> list_ex (\<lambda>r. r t = Some es) rs"
  by (induction rs t rule: first_rule.induct) (auto split: option.splits)

lemma prompt_no_private: "try_prompt t \<noteq> Some (PrivateMessageRedacted s)"
  by (auto simp: try_prompt_def prompt_two_def prompt_one_def Let_def split: option.splits if_splits prod.splits)

lemma map_not_private: "(\<And>x. f x \<noteq> PrivateMessageRedacted s) \<Longrightarrow> map f xs \<noteq> [PrivateMessageRedacted s]"
  by (cases xs) auto

lemma parsed_private: "parse_line l = [PrivateMessageRedacted s] \<Longrightarrow> private_line l"
proof -
  assume "parse_line l = [PrivateMessageRedacted s]"
  then have "first_rule line_rules (trim l) = Some [PrivateMessageRedacted s]"
    by (auto simp: parse_line_def Let_def split: if_splits option.splits)
  from first_rule_some [OF this] have "strip_prefix FROM (trim l) \<noteq> None \<or> strip_prefix PRIVATE_FROM (trim l) \<noteq> None"
    using prompt_no_private [of "trim l" s] map_not_private [of "\<lambda>e. ExitSeen e None" s] map_not_private [of ItemSeen s]
    unfolding line_rules_def
    by (simp add: Option.bind_eq_Some_conv split: if_splits del: not_None_eq)
  then show ?thesis by (auto simp: private_line_def strip_prefix_def split: if_splits)
qed

lemma private_line_exact: "private_line l = (\<exists>s. parse_line l = [PrivateMessageRedacted s])"
  using private_line_parsed parsed_private by blast

lemma private_line_fed: "private_line l \<Longrightarrow> snd (feed_line l d) = d"
  using private_line_parsed [of l] by (auto simp: feed_line_def Let_def)

lemma private_lines_fed:
  "run (\<lambda>l d. snd (feed_line l d)) (filter (\<lambda>l. \<not> private_line l) ls) d = run (\<lambda>l d. snd (feed_line l d)) ls d"
  by (induction ls arbitrary: d) (simp_all add: private_line_fed)

text \<open>
  The collapsing of repeated lines compares private lines with the window too. Changing what private messages say, so
  that different ones stay different, changes only the window.
\<close>

definition rewords_private :: "(string \<Rightarrow> string) \<Rightarrow> bool" where
  "rewords_private f \<longleftrightarrow> inj f \<and> (\<forall>l. if private_line l then private_line (f l) else f l = l)"

lemma rewords_swap: "private_line a \<Longrightarrow> private_line b \<Longrightarrow> rewords_private (id(a := b, b := a))"
  by (auto simp: rewords_private_def inj_on_def)

lemma collapsed_reworded:
  assumes "rewords_private f" and "ds_capsule d = ds_capsule d'" and "ds_recent d' = map f (ds_recent d)"
  shows "ds_capsule (snd (feed_line_collapsed l d)) = ds_capsule (snd (feed_line_collapsed (f l) d'))
    \<and> ds_recent (snd (feed_line_collapsed (f l) d')) = map f (ds_recent (snd (feed_line_collapsed l d)))"
proof -
  have "list_ex (\<lambda>r. r = f l) (map f (ds_recent d)) = list_ex (\<lambda>r. r = l) (ds_recent d)"
    using assms(1) by (auto simp: rewords_private_def list_ex_iff inj_eq)
  moreover have "f l = l \<or> private_line l \<and> private_line (f l)" using assms(1) unfolding rewords_private_def by metis
  moreover have "ds_capsule (snd (feed_line k x)) = ds_capsule x \<and> ds_recent (snd (feed_line k x)) = ds_recent x"
    if "private_line k" for k x using private_line_fed [OF that] by simp
  ultimately show ?thesis
    using assms(2,3)
    by (auto simp: feed_line_collapsed_def collapse_spam_def feed_line_def Let_def drop_map MAX_SPAM_WINDOW_def)
qed

lemma reworded_lines:
  assumes "rewords_private f"
  shows "ds_capsule d = ds_capsule d' \<Longrightarrow> ds_recent d' = map f (ds_recent d) \<Longrightarrow>
    ds_capsule (run (\<lambda>l d. snd (feed_line_collapsed l d)) (map f ls) d')
      = ds_capsule (run (\<lambda>l d. snd (feed_line_collapsed l d)) ls d)"
proof (induction ls arbitrary: d d')
  case (Cons l ls)
  show ?case using Cons.IH collapsed_reworded [OF assms Cons.prems, of l] by simp
qed simp

text \<open>
  Collapsing counts a repeated private message like any other line, so that the capsule tells that one was repeated.
\<close>

theorem repeated_private_counted:
  "cc_spam_collapsed (ds_capsule (run (\<lambda>l d. snd (feed_line_collapsed l d)) [''From Bob: hi'', ''From Bob: hi''] Distiller_new)) = 1"
  by code_simp

text \<open>
  A private message leaves no trace but its sender. Whatever a line from a name says after the
  colon, it gives one event with the name, and the state of the distiller is unchanged.
\<close>

theorem private_message_hidden:
  "if CHR '':'' \<in> set name then True
   else feed_line (FROM @ name @ '':'' @ msg) d = ([PrivateMessageRedacted (trim name)], d)"
  using private_message_fed by simp

text \<open>
  The other forms of a private message do leave one: without a colon after the name, or in the long
  form, the whole message is taken for the name of its sender.
\<close>

theorem private_message_leaks:
  "parse_line (PRIVATE_FROM @ ''Bob: meet me at noon'') = [PrivateMessageRedacted ''Bob: meet me at noon'']
   \<and> parse_line (FROM @ ''Bob, meet me at noon'') = [PrivateMessageRedacted ''Bob, meet me at noon'']"
  by code_simp

end
