(* ===== verification/Copilot.thy ===== *)
theory Copilot
  imports AiRouter Context Soul
begin

text \<open>
  The player copilot, \<open>wirecore/crates/wire-copilot/src/lib.rs\<close>: citations, redaction, the confidence
  meter, explanations, the persona documents of this crate, and the engine, which asks the router
  with a summary of the capsule and turns the answer of a provider into a suggestion or into none.
  The engine works on the capsules of \<open>Context\<close> and the decisions of \<open>AiRouter\<close>. The size of a
  serialized capsule is an argument. Decimal literals stand for the rationals of that value.
\<close>

section \<open>Redaction\<close>

definition copilot_patterns :: "(string \<times> string) list" where
  "copilot_patterns =
     [(''sk-'', ''sk-[REDACTED]''), (''sbp_'', ''sbp_[REDACTED]''), (''Bearer '', ''Bearer [REDACTED]''),
      (''token='', ''token=[REDACTED]''), (''password='', ''password=[REDACTED]''),
      (''api_key='', ''api_key=[REDACTED]''), (''apikey='', ''apikey=[REDACTED]''),
      (''secret='', ''secret=[REDACTED]'')]"

definition ends_token :: "char \<Rightarrow> bool" where
  "ends_token c \<longleftrightarrow> is_ws c \<or> c \<in> {CHR '','', CHR '';'', CHR '')'', CHR '']'', CHR ''}'', CHR 0x22}"

text \<open>
  The inner loop for one pattern, from \<open>search_from\<close> on: what is before it is not looked at again.
  The needle is not empty.
\<close>

function redact_pattern :: "string \<Rightarrow> string \<Rightarrow> string \<Rightarrow> string" where
  "redact_pattern needle repl out =
     (if needle = [] then out
      else
        (case find_text out needle of
           None \<Rightarrow> out
         | Some pos \<Rightarrow>
             take pos out @ repl
             @ redact_pattern needle repl (dropWhile (\<lambda>c. \<not> ends_token c) (drop (pos + length needle) out))))"
  by pat_completeness auto
termination
proof (relation "measure (\<lambda>(n, r, out). length out)")
  fix needle repl out :: string and pos
  assume n: "needle \<noteq> []" and i: "find_text out needle = Some pos"
  have "length (dropWhile (\<lambda>c. \<not> ends_token c) (drop (pos + length needle) out)) \<le> length (drop (pos + length needle) out)"
    by (rule length_dropWhile_le)
  also have "\<dots> < length out" using find_text_bound [OF i] n by (cases needle) auto
  finally show "((needle, repl, dropWhile (\<lambda>c. \<not> ends_token c) (drop (pos + length needle) out)), needle, repl, out)
      \<in> measure (\<lambda>(n, r, out). length out)" by simp
qed simp

declare redact_pattern.simps [simp del]

definition CopilotRedactor_redact :: "string \<Rightarrow> string" where
  "CopilotRedactor_redact input = foldl (\<lambda>out (needle, repl). redact_pattern needle repl out) input copilot_patterns"

definition CopilotRedactor_pattern_count :: nat where
  "CopilotRedactor_pattern_count = length copilot_patterns"

section \<open>Citations\<close>

datatype Citation =
    Observation string
  | Memory string
  | PolicyCitation string
  | RejectedAlternative string

fun Citation_redacted :: "Citation \<Rightarrow> string" where
  "Citation_redacted (Observation t) = CopilotRedactor_redact t"
| "Citation_redacted (Memory t) = CopilotRedactor_redact t"
| "Citation_redacted (PolicyCitation t) = CopilotRedactor_redact t"
| "Citation_redacted (RejectedAlternative t) = CopilotRedactor_redact t"

section \<open>The confidence meter\<close>

datatype TaskClass = Navigation | Combat | Quest | Lore | Economy | Social

definition TaskClass_from_complexity :: "u8 \<Rightarrow> TaskClass option" where
  "TaskClass_from_complexity n =
     (if n = 1 then Some Social else if n = 2 then Some Lore else if n = 3 then Some Navigation
      else if n = 4 then Some Quest else if n = 5 then Some Combat else None)"

fun task_key :: "TaskClass \<Rightarrow> string" where
  "task_key Navigation = ''navigation''"
| "task_key Combat = ''combat''"
| "task_key Quest = ''quest''"
| "task_key Lore = ''lore''"
| "task_key Economy = ''economy''"
| "task_key Social = ''social''"

record ConfidenceMeter =
  cm_calibration :: "(string \<times> rat) list"
  cm_eval_score :: rat

definition clamp_unit :: "rat \<Rightarrow> rat" where
  "clamp_unit x = (if x < 0 then 0 else if 1 < x then 1 else x)"

definition ConfidenceMeter_new :: ConfidenceMeter where
  "ConfidenceMeter_new =
     \<lparr>cm_calibration =
        [(''combat'', 45 / 100), (''economy'', 55 / 100), (''lore'', 65 / 100), (''navigation'', 60 / 100),
         (''quest'', 55 / 100), (''social'', 70 / 100)],
      cm_eval_score = 0\<rparr>"

definition with_eval_score :: "rat \<Rightarrow> ConfidenceMeter \<Rightarrow> ConfidenceMeter" where
  "with_eval_score score m = m\<lparr>cm_eval_score := clamp_unit score\<rparr>"

definition ConfidenceMeter_confidence :: "TaskClass \<Rightarrow> ConfidenceMeter \<Rightarrow> rat" where
  "ConfidenceMeter_confidence task m =
     (let base = (case map_of (cm_calibration m) (task_key task) of None \<Rightarrow> 5 / 10 | Some b \<Rightarrow> b);
          scale = 5 / 10 + 5 / 10 * cm_eval_score m in
      clamp_unit (base * scale))"

definition ConfidenceMeter_authorizes :: "ConfidenceMeter \<Rightarrow> bool" where
  "ConfidenceMeter_authorizes m = False"

section \<open>Explanations, disclosures, proposals\<close>

record WhyExplanation =
  we_evidence :: "Citation list"
  we_uncertainty :: string
  we_rejected_alternatives :: "string list"
  we_degraded :: bool

text \<open>The evidence is joined by a separator, the last of which is cut off again.\<close>

definition WhyExplanation_render :: "WhyExplanation \<Rightarrow> string" where
  "WhyExplanation_render w =
     (let out = ''Why: '' @ concat (map (\<lambda>c. Citation_redacted c @ ''; '') (we_evidence w));
          out = (if suffix ''; '' out then take (length out - 2) out else out);
          out = out @ ''. Uncertainty: '' @ CopilotRedactor_redact (we_uncertainty w) in
      if we_rejected_alternatives w = [] then out
      else out @ ''. Considered: '' @ str_join '', '' (map CopilotRedactor_redact (we_rejected_alternatives w)))"

definition evidence_count :: "WhyExplanation \<Rightarrow> nat" where
  "evidence_count w = length (we_evidence w)"

record Disclosure =
  di_provider_id :: string
  di_route_id :: string
  di_privacy_mode :: string
  di_redaction_patterns :: nat
  di_context_bytes :: nat
  di_prompt_tokens :: nat
  di_completion_tokens :: nat
  di_estimated_cost_usd_micros :: u64
  di_latency_ms :: u64
  di_degraded :: bool

record CopilotProposal =
  cp_proposal_id :: string
  cp_command :: string
  cp_proposal_tier :: u8
  cp_needs_confirmation :: bool
  cp_reason_text :: string

record Suggestion =
  su_text :: string
  su_citations :: "Citation list"
  su_confidence :: rat
  su_uncertainty :: string
  su_why :: WhyExplanation
  su_disclosure :: Disclosure
  su_action_proposal :: "CopilotProposal option"

datatype CopilotOutcome = Suggested Suggestion | NoSuggestion string bool

section \<open>Persona documents of the copilot\<close>

record CopilotSoul =
  cs_name :: string
  cs_tone :: string
  cs_roleplay :: string
  cs_risk_tolerance :: string
  cs_preferred_behaviors :: "string list"
  cs_forbidden_behaviors :: "string list"
  cs_examples :: "string list"

definition COPILOT_IMMUTABLE_POLICY :: "string list" where
  "COPILOT_IMMUTABLE_POLICY = [''security'', ''privacy'', ''routing'', ''package'', ''updater'', ''emergency-stop'']"

definition COPILOT_WEAKENING_VERBS :: "string list" where
  "COPILOT_WEAKENING_VERBS =
     [''ignore'', ''bypass'', ''override'', ''disable'', ''weaken'', ''violate'',
      ''circumvent'', ''skip'', ''relax'', ''exempt'']"

fun copilot_check_behaviors :: "string list \<Rightarrow> string + unit" where
  "copilot_check_behaviors [] = Inr ()"
| "copilot_check_behaviors (fb # fbs) =
     (let lower = to_lower fb in
      if \<not> list_ex (\<lambda>v. str_contains lower v) COPILOT_WEAKENING_VERBS then copilot_check_behaviors fbs
      else (case find (\<lambda>d. str_contains lower d) COPILOT_IMMUTABLE_POLICY of
              Some d \<Rightarrow> Inl (''soul forbidden behavior attempts to override immutable policy domain: '' @ d)
            | None \<Rightarrow> copilot_check_behaviors fbs))"

definition CopilotSoul_validate :: "CopilotSoul \<Rightarrow> string + unit" where
  "CopilotSoul_validate s =
     (if trim (cs_name s) = [] then Inl ''soul name must not be empty''
      else if trim (cs_tone s) = [] then Inl ''soul tone must not be empty''
      else copilot_check_behaviors (cs_forbidden_behaviors s))"

definition CopilotSoul_policy_precedence_ok :: "CopilotSoul \<Rightarrow> bool" where
  "CopilotSoul_policy_precedence_ok s \<longleftrightarrow> \<not> isl (CopilotSoul_validate s)"

definition CopilotSoul_compiled_prompt :: "CopilotSoul \<Rightarrow> string" where
  "CopilotSoul_compiled_prompt s =
     ''You are '' @ cs_name s @ ''. Tone: '' @ cs_tone s @ ''. Roleplay: '' @ cs_roleplay s
     @ ''. Risk tolerance: '' @ cs_risk_tolerance s
     @ ''. Preferred: '' @ str_join ''; '' (cs_preferred_behaviors s)
     @ ''. Forbidden: '' @ str_join ''; '' (cs_forbidden_behaviors s) @ ''.''"

record CopilotSoulAudit =
  ca_action :: string
  ca_soul_name :: string
  ca_accepted :: bool
  ca_detail :: string

definition copilot_validate_soul ::
    "CopilotSoul \<Rightarrow> CopilotSoulAudit list \<Rightarrow> (string + unit) \<times> CopilotSoulAudit list" where
  "copilot_validate_soul s audit =
     (let result = CopilotSoul_validate s in
      (result, audit @
        [\<lparr>ca_action = ''validate'', ca_soul_name = cs_name s, ca_accepted = (\<not> isl result),
          ca_detail = (case result of Inr _ \<Rightarrow> ''soul valid; policy precedence ok'' | Inl e \<Rightarrow> e)\<rparr>]))"

definition CopilotSoul_sandbox_preview :: "CopilotSoul \<Rightarrow> string" where
  "CopilotSoul_sandbox_preview s =
     ''== Soul Studio sandbox preview =='' @ [CHR 0x0A] @ cs_name s @ '': '' @ cs_tone s
     @ [CHR 0x0A] @ ''player: (test message)'' @ [CHR 0x0A] @ ''assistant: '' @ cs_name s
     @ '' responds within boundaries; forbidden behaviors are not proposed.''"

section \<open>Helpers of the engine\<close>

definition task_class :: "ContextCapsule \<Rightarrow> TaskClass" where
  "task_class c =
     (if cc_combat c \<noteq> None then Combat else if cc_quest_clues c = [] then Lore else Quest)"

definition build_task_summary :: "ContextCapsule \<Rightarrow> string \<Rightarrow> string" where
  "build_task_summary c request =
     ''player request: '' @ request
     @ (case cc_room c of None \<Rightarrow> [] | Some room \<Rightarrow> ''; room: '' @ room)
     @ (if cc_entities c = [] then [] else ''; entities: '' @ str_join '', '' (cc_entities c))"

definition build_uncertainty :: "string \<Rightarrow> string" where
  "build_uncertainty txt =
     (let words = length (split_ws txt) in
      if words < 8 then ''low confidence due to limited suggestion detail''
      else if 80 < words then ''high detail; treat as advisory only''
      else ''moderate confidence; verify in-world before acting'')"

definition rejected_alternatives :: "ContextCapsule \<Rightarrow> string list" where
  "rejected_alternatives c =
     (case cc_combat c of
        None \<Rightarrow> []
      | Some combat \<Rightarrow>
          [''suggesting a combat command was considered and rejected because the copilot does not send commands (SPEC-009); current combat state: '' @ combat])"

definition simple_hash :: "string \<Rightarrow> string" where
  "simple_hash s = hex16 (fnv1a s)"

text \<open>\<open>trim_start_matches\<close> of a text that is not empty.\<close>

function trim_start_text :: "string \<Rightarrow> string \<Rightarrow> string" where
  "trim_start_text p s =
     (if p = [] \<or> \<not> prefix p s then s else trim_start_text p (drop (length p) s))"
  by pat_completeness auto
termination
  by (relation "measure (length \<circ> snd)") (auto simp: prefix_def)

declare trim_start_text.simps [simp del]

text \<open>The first of the \<open>lines\<close> of a trimmed text that is not empty.\<close>

definition first_line :: "string \<Rightarrow> string" where
  "first_line s =
     (let l = hd (split_on (CHR 0x0A) s) in
      if l \<noteq> [] \<and> last l = CHR 0x0D then butlast l else l)"

definition build_action_proposal :: "string \<Rightarrow> ContextCapsule \<Rightarrow> CopilotProposal option" where
  "build_action_proposal txt c =
     (if cc_combat c \<noteq> None then None
      else
        let trimmed = trim txt in
        if trimmed = [] then None
        else
          let line = first_line trimmed in
          if \<not> prefix ''suggest '' line then None
          else
            let command = trim (trim_start_text ''suggest '' line) in
            if command = [] \<or> 120 < length command then None
            else Some
              \<lparr>cp_proposal_id = ''ap-'' @ simple_hash command, cp_command = command, cp_proposal_tier = 1,
               cp_needs_confirmation = True,
               cp_reason_text = ''copilot proposals are advisory; execution requires SPEC-009 confirmation''\<rparr>)"

definition truncate_text :: "string \<Rightarrow> nat \<Rightarrow> string" where
  "truncate_text s n = (if length s \<le> n then s else take n s @ ''...'')"

section \<open>The engine\<close>

record CopilotConfig =
  cf_feature :: string
  cf_profile_scope :: string
  cf_max_suggestion_chars :: nat
  cf_complexity :: u8
  cf_latency_budget_ms :: u64
  cf_cost_budget :: rat
  cf_context_size :: nat

definition CopilotConfig_new :: "string \<Rightarrow> string \<Rightarrow> u8 \<Rightarrow> u64 \<Rightarrow> rat \<Rightarrow> nat \<Rightarrow> CopilotConfig" where
  "CopilotConfig_new feature scope complexity latency cost context_size =
     \<lparr>cf_feature = feature, cf_profile_scope = scope, cf_max_suggestion_chars = 600,
      cf_complexity = complexity, cf_latency_budget_ms = latency, cf_cost_budget = cost,
      cf_context_size = context_size\<rparr>"

record ProviderCompletion =
  pc_provider_id :: string
  pc_route_id :: string
  pc_text :: string
  pc_prompt_tokens :: nat
  pc_completion_tokens :: nat
  pc_estimated_cost_usd_micros :: u64
  pc_latency_ms :: u64

datatype CompletionError =
    CompletionUnavailable string
  | CompletionTimeout string
  | CompletionCancelled string
  | CompletionPolicy string
  | CompletionProtocol string

fun CompletionError_user_message :: "CompletionError \<Rightarrow> string" where
  "CompletionError_user_message (CompletionUnavailable _) = ''provider is unavailable''"
| "CompletionError_user_message (CompletionTimeout _) = ''provider did not respond in time''"
| "CompletionError_user_message (CompletionCancelled _) = ''the request was cancelled''"
| "CompletionError_user_message (CompletionPolicy _) = ''the route is not permitted''"
| "CompletionError_user_message (CompletionProtocol _) = ''provider returned an invalid response''"

record CopilotEngine =
  en_config :: CopilotConfig
  en_confidence :: ConfidenceMeter
  en_studio :: "CopilotSoulAudit list"

definition CopilotEngine_new :: "CopilotConfig \<Rightarrow> CopilotEngine" where
  "CopilotEngine_new config = \<lparr>en_config = config, en_confidence = ConfidenceMeter_new, en_studio = []\<rparr>"

definition CopilotEngine_routing_inputs :: "ContextCapsule \<Rightarrow> string \<Rightarrow> CopilotEngine \<Rightarrow> RoutingInputs" where
  "CopilotEngine_routing_inputs c request e =
     (let f = en_config e in
      (RoutingInputs_new request (cf_complexity f) LocalPreferred (cf_latency_budget_ms f)
         (cf_cost_budget f) (cf_context_size f))
      \<lparr>ri_task := build_task_summary c request\<rparr>)"

definition build_citations :: "ContextCapsule \<Rightarrow> ProviderCompletion \<Rightarrow> Citation list" where
  "build_citations c p =
     (let out = (case cc_room c of None \<Rightarrow> [] | Some room \<Rightarrow> [Observation (''room: '' @ room)])
            @ map (\<lambda>e. Observation (''entity: '' @ e)) (take 3 (cc_entities c))
            @ map Memory (take 2 (cc_memory_citations c)) in
      if out = []
      then [Observation (''provider '' @ pc_provider_id p @ '' returned a suggestion ('' @ show_nat (length (pc_text p))
              @ '' chars)'')]
      else out)"

definition CopilotEngine_suggest ::
    "(ContextCapsule \<Rightarrow> nat) \<Rightarrow> ContextCapsule \<Rightarrow> RoutingDecision \<Rightarrow> CompletionError + ProviderCompletion
     \<Rightarrow> CopilotEngine \<Rightarrow> CopilotOutcome" where
  "CopilotEngine_suggest approx_bytes c decision completion e =
     (case decision of
        RouteSelected _ _ _ _ \<Rightarrow>
          (case completion of
             Inl err \<Rightarrow> NoSuggestion (CompletionError_user_message err) True
           | Inr p \<Rightarrow>
               let txt = truncate_text (CopilotRedactor_redact (pc_text p)) (cf_max_suggestion_chars (en_config e));
                   citations = build_citations c p;
                   uncertainty = build_uncertainty txt in
               Suggested
                 \<lparr>su_text = txt, su_citations = citations,
                  su_confidence = ConfidenceMeter_confidence (task_class c) (en_confidence e),
                  su_uncertainty = uncertainty,
                  su_why = \<lparr>we_evidence = citations, we_uncertainty = uncertainty,
                    we_rejected_alternatives = rejected_alternatives c, we_degraded = False\<rparr>,
                  su_disclosure = \<lparr>di_provider_id = pc_provider_id p, di_route_id = pc_route_id p,
                    di_privacy_mode = ''local-preferred'',
                    di_redaction_patterns = CopilotRedactor_pattern_count,
                    di_context_bytes = approx_bytes c, di_prompt_tokens = pc_prompt_tokens p,
                    di_completion_tokens = pc_completion_tokens p,
                    di_estimated_cost_usd_micros = pc_estimated_cost_usd_micros p,
                    di_latency_ms = pc_latency_ms p, di_degraded = False\<rparr>,
                  su_action_proposal = build_action_proposal txt c\<rparr>)
      | _ \<Rightarrow> NoSuggestion (RoutingDecision_reason decision) False)"

section \<open>Facts\<close>

interpretation copilot_mask: masking "\<lambda>k s. redact_pattern k (k @ REDACTED) s"
    "dropWhile (\<lambda>c. \<not> ends_token c)" ends_token
proof
  fix k s cs :: string and c :: char
  show "redact_pattern k (k @ REDACTED) [] = []" if "k \<noteq> []" using that by (simp add: redact_pattern.simps)
  show "redact_pattern k (k @ REDACTED) s
      = k @ REDACTED @ redact_pattern k (k @ REDACTED) (dropWhile (\<lambda>c. \<not> ends_token c) (drop (length k) s))"
    if "k \<noteq> []" "prefix k s"
    by (subst redact_pattern.simps) (simp add: find_text_here that)
  show "redact_pattern k (k @ REDACTED) (c # cs) = c # redact_pattern k (k @ REDACTED) cs"
    if "k \<noteq> []" "\<not> prefix k (c # cs)"
    using that by (subst (1 2) redact_pattern.simps) (simp split: option.split)
  show "suffix (dropWhile (\<lambda>c. \<not> ends_token c) s) s" by (rule suffix_dropWhile)
  show "ends_token (hd (dropWhile (\<lambda>c. \<not> ends_token c) s))" if "dropWhile (\<lambda>c. \<not> ends_token c) s \<noteq> []"
    using hd_dropWhile [OF that] by simp
qed

definition copilot_markers :: "string list" where
  "copilot_markers = map fst copilot_patterns"

lemma copilot_markers_ok:
  "list_all maskable copilot_markers" "sorted_wrt unrelated copilot_markers"
  "copilot_patterns = map (\<lambda>k. (k, k @ REDACTED)) copilot_markers"
proof -
  show "list_all maskable copilot_markers" by code_simp
  have "sorted_wrt (\<lambda>j k. \<not> str_contains k j \<and> \<not> str_contains j k) copilot_markers" by code_simp
  then show "sorted_wrt unrelated copilot_markers" by (simp add: unrelated_def [abs_def] str_contains_iff)
  show "copilot_patterns = map (\<lambda>k. (k, k @ REDACTED)) copilot_markers" by code_simp
qed

lemma copilot_redact_passes:
  "CopilotRedactor_redact s = foldl (\<lambda>t k. redact_pattern k (k @ REDACTED) t) s copilot_markers"
  unfolding CopilotRedactor_redact_def copilot_markers_ok(3) by (simp add: foldl_map)

lemma copilot_check_ok:
  "copilot_check_behaviors fbs = Inr () \<longleftrightarrow>
    list_all (\<lambda>b. list_ex (str_contains (to_lower b)) COPILOT_WEAKENING_VERBS = False
      \<or> list_ex (str_contains (to_lower b)) COPILOT_IMMUTABLE_POLICY = False) fbs"
proof (induction fbs)
  case (Cons b fbs)
  show ?case
  proof (cases "find (\<lambda>d. str_contains (to_lower b) d) COPILOT_IMMUTABLE_POLICY")
    case None
    then have "list_ex (str_contains (to_lower b)) COPILOT_IMMUTABLE_POLICY = False"
      by (auto simp: find_None_iff list_ex_iff)
    then show ?thesis using Cons None by (simp add: Let_def)
  next
    case (Some d)
    then have "list_ex (str_contains (to_lower b)) COPILOT_IMMUTABLE_POLICY"
      by (auto simp: find_Some_iff list_ex_iff)
    then show ?thesis using Cons Some by (simp add: Let_def)
  qed
qed simp

lemma copilot_words_nested:
  "list_all (\<lambda>v. v \<in> set WEAKENING_VERBS) COPILOT_WEAKENING_VERBS"
  "list_all (\<lambda>d. d \<in> set SOUL_IMMUTABLE_POLICY) COPILOT_IMMUTABLE_POLICY"
  by code_simp+

lemma proposal_facts:
  "build_action_proposal txt c = Some p \<Longrightarrow>
    cp_needs_confirmation p \<and> cp_command p \<noteq> [] \<and> length (cp_command p) \<le> 120 \<and> cc_combat c = None"
  by (auto simp: build_action_proposal_def Let_def split: if_splits)

lemma build_citations_nonempty: "build_citations c p \<noteq> []"
  by (simp add: build_citations_def Let_def)

lemma truncate_length: "length (truncate_text s n) \<le> n + 3"
  by (simp add: truncate_text_def)

section \<open>Properties\<close>

text \<open>
  Redaction of the copilot leaves no value behind. In the redacted text, whatever the input, each of
  the eight markers is followed by the replacement, and that by the end or a character that ends a token.
\<close>

theorem copilot_redaction_masks: "list_all (\<lambda>k. masked ends_token k (CopilotRedactor_redact s)) copilot_markers"
  unfolding copilot_redact_passes by (rule copilot_mask.passes_mask [OF copilot_markers_ok(1,2)])

text \<open>
  When the copilot suggests and what. There is a suggestion exactly when the router selected a route
  and the provider answered; an error of the provider is reported as degraded, a refusal of the router
  with its reason. The suggestion is the redacted answer within the length limit, with at least one citation,
  and a proposal in it has a command of at most 120 characters, needs a confirmation, and is not made in combat.
\<close>

theorem copilot_suggests:
  "(case CopilotEngine_suggest approx_bytes c decision completion e of
      NoSuggestion reason degraded \<Rightarrow>
        (case decision of
           RouteSelected i p r d \<Rightarrow> degraded \<and> (case completion of Inl err \<Rightarrow> reason = CompletionError_user_message err | Inr a \<Rightarrow> False)
         | _ \<Rightarrow> degraded = False \<and> reason = RoutingDecision_reason decision)
    | Suggested s \<Rightarrow>
        (case decision of RouteSelected i p r d \<Rightarrow> True | _ \<Rightarrow> False)
        \<and> (case completion of Inl err \<Rightarrow> False
            | Inr a \<Rightarrow> su_text s = truncate_text (CopilotRedactor_redact (pc_text a)) (cf_max_suggestion_chars (en_config e)))
        \<and> length (su_text s) \<le> cf_max_suggestion_chars (en_config e) + 3 \<and> su_citations s \<noteq> []
        \<and> (case su_action_proposal s of
              None \<Rightarrow> True
            | Some q \<Rightarrow> cp_needs_confirmation q \<and> cp_command q \<noteq> [] \<and> length (cp_command q) \<le> 120 \<and> cc_combat c = None))"
proof -
  have p: "case build_action_proposal t c of None \<Rightarrow> True
      | Some q \<Rightarrow> cp_needs_confirmation q \<and> cp_command q \<noteq> [] \<and> length (cp_command q) \<le> 120 \<and> cc_combat c = None" for t
    using proposal_facts by (auto split: option.split)
  show ?thesis
    using p by (cases decision; cases completion)
      (simp_all add: CopilotEngine_suggest_def Let_def build_citations_nonempty truncate_length)
qed

text \<open>
  The two checks of persona documents are nested. Forbidden behaviours that the soul documents of \<open>wire-soul\<close>
  accept are accepted by the copilot, which looks for fewer verbs and policy domains.
\<close>

theorem soul_checks_nested:
  "(if check_behaviors fbs = Inr () then copilot_check_behaviors fbs = Inr () else True)"
  using copilot_words_nested unfolding check_behaviors_ok copilot_check_ok list_all_iff list_ex_iff weakening_def
  by (simp split: if_split) blast

text \<open>
  A quoted secret is not redacted: the token after the marker ends at the quote.
\<close>

theorem quoted_value_leaks:
  "CopilotRedactor_redact (''password='' @ [CHR 0x22] @ ''hunter2'' @ [CHR 0x22])
    = ''password=[REDACTED]'' @ [CHR 0x22] @ ''hunter2'' @ [CHR 0x22]"
  unfolding CopilotRedactor_redact_def by (simp add: copilot_patterns_def redact_pattern.simps) code_simp

end
