(* ===== verification/Numbered.thy ===== *)
theory Numbered
  imports Prelude
begin

text \<open>
  Numbered records. Two stores of the assistants give their records ids made of a prefix and a
  number in hexadecimal, \<open>format!("fact-{:08x}", n)\<close>, and keep them in a \<open>BTreeMap\<close>. As long as the
  digits suffice the order of the map is the order of the numbers, so that a new record goes last.
\<close>

section \<open>Hexadecimal numbers of a width\<close>

text \<open>\<open>{:0wx}\<close>: at least \<open>w\<close> digits, where \<open>w\<close> is positive.\<close>

fun hex_pad :: "nat \<Rightarrow> nat \<Rightarrow> string" where
  "hex_pad w n =
     (if n < 16 then replicate (w - 1) (CHR ''0'') @ [hex_digit n]
      else hex_pad (w - 1) (n div 16) @ [hex_digit (n mod 16)])"

declare hex_pad.simps [simp del]

lemma hex_pad_Suc: "0 < w \<Longrightarrow> hex_pad (Suc w) n = hex_pad w (n div 16) @ [hex_digit (n mod 16)]"
proof (cases "n < 16")
  case True
  assume "0 < w"
  then obtain k where k: "w = Suc k" by (cases w) auto
  have "hex_digit 0 = CHR ''0''" by code_simp
  then have "hex_pad w 0 = replicate (w - 1) (CHR ''0'') @ [CHR ''0'']"
    by (simp add: hex_pad.simps [of w 0])
  then show ?thesis
    using True k by (simp add: hex_pad.simps [of "Suc (Suc k)" n] replicate_append_same)
qed (simp add: hex_pad.simps [of "Suc w" n])

lemma length_hex_pad: "0 < w \<Longrightarrow> n < 16 ^ w \<Longrightarrow> length (hex_pad w n) = w"
proof (induction w arbitrary: n)
  case (Suc w)
  show ?case
  proof (cases "w = 0")
    case True
    then show ?thesis using Suc.prems by (simp add: hex_pad.simps [of "Suc 0" n])
  next
    case False
    have "n div 16 < 16 ^ w" using Suc.prems(2) by (simp add: less_mult_imp_div_less mult.commute)
    then show ?thesis using Suc.IH [of "n div 16"] False by (simp add: hex_pad_Suc)
  qed
qed simp

lemma hex_digit_less: "m < n \<Longrightarrow> n < 16 \<Longrightarrow> hex_digit m < hex_digit n"
  by (simp add: hex_digit_def less_char_def)

lemma snoc_less: "length xs = length ys \<Longrightarrow> xs @ [a] < ys @ [b :: 'a :: linorder] \<longleftrightarrow> xs < ys \<or> xs = ys \<and> a < b"
  by (induction xs ys rule: list_induct2) auto

lemma append_less: "p @ xs < p @ ys \<longleftrightarrow> xs < (ys :: 'a :: linorder list)"
  by (induction p) auto

lemma hex_pad_less: "0 < w \<Longrightarrow> m < n \<Longrightarrow> n < 16 ^ w \<Longrightarrow> hex_pad w m < hex_pad w n"
proof (induction w arbitrary: m n)
  case (Suc w)
  show ?case
  proof (cases "w = 0")
    case True
    then show ?thesis
      using Suc.prems by (simp add: hex_pad.simps [of "Suc 0"] hex_digit_less)
  next
    case False
    have lt: "k div 16 < 16 ^ w" if "k \<le> n" for k
      using that Suc.prems(3) by (simp add: less_mult_imp_div_less mult.commute)
    have len: "length (hex_pad w (m div 16)) = length (hex_pad w (n div 16))"
      using False lt [of m] lt [of n] Suc.prems(2) by (simp add: length_hex_pad)
    consider "m div 16 < n div 16" | "m div 16 = n div 16" "m mod 16 < n mod 16"
      using Suc.prems(2) div_le_mono [of m n 16] div_mult_mod_eq [of m 16] div_mult_mod_eq [of n 16] by linarith
    then show ?thesis
    proof cases
      case 1
      then show ?thesis using Suc.IH [of "m div 16" "n div 16"] lt [of n] False by (simp add: hex_pad_Suc snoc_less [OF len])
    next
      case 2
      then show ?thesis using False by (simp add: hex_pad_Suc hex_digit_less snoc_less)
    qed
  qed
qed simp

section \<open>Stores of numbered records\<close>

definition record_id :: "string \<Rightarrow> nat \<Rightarrow> string" where
  "record_id p n = p @ hex_pad 8 n"

definition numbered :: "string \<Rightarrow> (string \<times> 'v) list \<Rightarrow> bool" where
  "numbered p m \<longleftrightarrow> map fst m = map (record_id p) [1..<Suc (length m)]"

lemma record_id_less: "m < n \<Longrightarrow> n < 16 ^ 8 \<Longrightarrow> record_id p m < record_id p n"
  by (simp add: record_id_def append_less hex_pad_less)

lemma record_id_inject: "m < 16 ^ 8 \<Longrightarrow> n < 16 ^ 8 \<Longrightarrow> record_id p m = record_id p n \<longleftrightarrow> m = n"
  using record_id_less [of m n p] record_id_less [of n m p] by (cases m n rule: linorder_cases) auto

lemma bt_insert_last: "list_all (\<lambda>e. fst e < k) m \<Longrightarrow> bt_insert k v m = m @ [(k, v)]"
  by (induction k v m rule: bt_insert.induct) auto

lemma numbered_insert:
  assumes "numbered p m" and "Suc (length m) < 16 ^ 8"
  shows "bt_insert (record_id p (Suc (length m))) v m = m @ [(record_id p (Suc (length m)), v)]"
    and "numbered p (m @ [(record_id p (Suc (length m)), v)])"
    and "map_of m (record_id p (Suc (length m))) = None"
proof -
  have keys: "fst e < record_id p (Suc (length m))" if "e \<in> set m" for e
  proof -
    have "fst e \<in> set (map fst m)" using that by simp
    then have "fst e \<in> record_id p ` {1..<Suc (length m)}" using assms(1) unfolding numbered_def by (simp only: set_map set_upt)
    then obtain i where "fst e = record_id p i" "i < Suc (length m)" by auto
    then show ?thesis using record_id_less [of i "Suc (length m)" p] assms(2) by simp
  qed
  then show "bt_insert (record_id p (Suc (length m))) v m = m @ [(record_id p (Suc (length m)), v)]"
    by (intro bt_insert_last) (simp add: list_all_iff)
  show "numbered p (m @ [(record_id p (Suc (length m)), v)])"
    using assms(1) by (simp add: numbered_def)
  show "map_of m (record_id p (Suc (length m))) = None"
    using keys by (fastforce simp: map_of_eq_None_iff)
qed

lemma numbered_sorted: "numbered p m \<Longrightarrow> length m < 16 ^ 8 \<Longrightarrow> bt_sorted m"
  unfolding numbered_def by (simp only: sorted_wrt_map) (rule sorted_wrt_mono_rel [OF _ sorted_wrt_upt], auto intro: record_id_less)

lemma numbered_map: "numbered p (map (\<lambda>e. (fst e, g e)) m) = numbered p m"
  by (simp add: numbered_def comp_def)

lemma numbered_nth: "numbered p m \<Longrightarrow> i < length m \<Longrightarrow> fst (m ! i) = record_id p (Suc i)"
  by (metis add.commute length_map nth_map nth_upt numbered_def plus_1_eq_Suc add_diff_cancel_left'
      less_diff_conv length_upt)

lemma numbered_distinct: "numbered p m \<Longrightarrow> length m < 16 ^ 8 \<Longrightarrow> distinct (map fst m)"
  unfolding numbered_def by (simp add: distinct_map inj_on_def record_id_inject)

end
