(* ===== verification/WorldBrain.thy ===== *)
theory WorldBrain
  imports Complex_Main Scan Numbered
begin

text \<open>
  The memory of the world, \<open>wirecore/crates/wire-world-brain/src/lib.rs\<close>: facts with their provenance
  in a \<open>BTreeMap\<close> of at most 1000 entries, of which a newer fact or a correction by the user takes
  the place while the old one stays. A finite \<open>f64\<close> is its exact rational.
\<close>

section \<open>Facts\<close>

definition WORLD_BRAIN_SCHEMA_VERSION :: u32 where "WORLD_BRAIN_SCHEMA_VERSION = 1"

datatype Sensitivity = SensPublic | SensPrivate | SensSecret | SensDiagnostic

fun Sensitivity_label :: "Sensitivity \<Rightarrow> string" where
  "Sensitivity_label SensPublic = ''public''"
| "Sensitivity_label SensPrivate = ''private''"
| "Sensitivity_label SensSecret = ''secret''"
| "Sensitivity_label SensDiagnostic = ''diagnostic''"

datatype Supersession = Current | Superseded | UserCorrected

fun Supersession_label :: "Supersession \<Rightarrow> string" where
  "Supersession_label Current = ''current''"
| "Supersession_label Superseded = ''superseded''"
| "Supersession_label UserCorrected = ''user-corrected''"

record MemoryFact =
  mf_id :: string
  mf_subject :: string
  mf_attribute :: string
  mf_value :: string
  mf_source_event :: string
  mf_actor :: string
  mf_profile_scope :: string
  mf_world_scope :: string
  mf_created_at_ms :: u64
  mf_observed_at_ms :: u64
  mf_confidence :: rat
  mf_model_or_rule_version :: string
  mf_sensitivity :: Sensitivity
  mf_supersession :: Supersession
  mf_correction_note :: "string option"
  mf_content_hash :: string

datatype WorldBrainError = BrainValidation string | BrainNotFound string | BrainExhaustion string

fun WorldBrainError_user_message :: "WorldBrainError \<Rightarrow> string" where
  "WorldBrainError_user_message (BrainValidation m) = m"
| "WorldBrainError_user_message (BrainNotFound m) = ''memory fact not found: '' @ m"
| "WorldBrainError_user_message (BrainExhaustion m) = m"

definition content_hash :: "string \<Rightarrow> string \<Rightarrow> string \<Rightarrow> string" where
  "content_hash subject attribute v = hex16 (fnv1a (subject @ ''|'' @ attribute @ ''|'' @ v))"

record WorldBrain =
  wb_facts :: "(string \<times> MemoryFact) list"
  wb_hot_room :: "string option"
  wb_max_facts :: nat

definition WorldBrain_new :: WorldBrain where
  "WorldBrain_new = \<lparr>wb_facts = [], wb_hot_room = None, wb_max_facts = 1000\<rparr>"

section \<open>Operations\<close>

definition current_at :: "string \<Rightarrow> string \<Rightarrow> MemoryFact \<Rightarrow> bool" where
  "current_at subject attribute f \<longleftrightarrow>
     mf_subject f = subject \<and> mf_attribute f = attribute \<and> mf_supersession f = Current"

text \<open>The loop that supersedes the current facts other than the new one.\<close>

definition supersede :: "MemoryFact \<Rightarrow> MemoryFact \<Rightarrow> MemoryFact" where
  "supersede new f =
     (if current_at (mf_subject new) (mf_attribute new) f \<and> mf_id f \<noteq> mf_id new
      then f\<lparr>mf_supersession := Superseded\<rparr> else f)"

definition WorldBrain_observe ::
    "string \<Rightarrow> string \<Rightarrow> string \<Rightarrow> string \<Rightarrow> string \<Rightarrow> string \<Rightarrow> string \<Rightarrow> u64 \<Rightarrow> rat \<Rightarrow> string \<Rightarrow> Sensitivity
     \<Rightarrow> WorldBrain \<Rightarrow> (WorldBrainError + MemoryFact) \<times> WorldBrain" where
  "WorldBrain_observe subject attribute v source_event actor profile_scope world_scope now confidence version sens b =
     (if trim subject = [] \<or> trim attribute = []
      then (Inl (BrainValidation ''subject and attribute required''), b)
      else if trim v = [] then (Inl (BrainValidation ''value required''), b)
      else if \<not> (0 \<le> confidence \<and> confidence \<le> 1)
      then (Inl (BrainValidation ''confidence outside [0,1]''), b)
      else if trim profile_scope = [] \<or> trim world_scope = []
      then (Inl (BrainValidation ''profile and world scope required''), b)
      else if wb_max_facts b \<le> length (wb_facts b)
      then (Inl (BrainExhaustion ''world brain full''), b)
      else
        let new = \<lparr>mf_id = record_id ''fact-'' (Suc (length (wb_facts b))), mf_subject = subject,
              mf_attribute = attribute, mf_value = v, mf_source_event = source_event, mf_actor = actor,
              mf_profile_scope = profile_scope, mf_world_scope = world_scope, mf_created_at_ms = now,
              mf_observed_at_ms = now, mf_confidence = confidence, mf_model_or_rule_version = version,
              mf_sensitivity = sens, mf_supersession = Current, mf_correction_note = None,
              mf_content_hash = content_hash subject attribute v\<rparr> in
        (Inr new, b\<lparr>wb_facts := bt_insert (mf_id new) new (map (apsnd (supersede new)) (wb_facts b))\<rparr>))"

definition WorldBrain_current :: "string \<Rightarrow> string \<Rightarrow> WorldBrain \<Rightarrow> MemoryFact option" where
  "WorldBrain_current subject attribute b = find (current_at subject attribute) (map snd (wb_facts b))"

definition WorldBrain_correct ::
    "string \<Rightarrow> string \<Rightarrow> string \<Rightarrow> string \<Rightarrow> string \<Rightarrow> string \<Rightarrow> u64
     \<Rightarrow> WorldBrain \<Rightarrow> (WorldBrainError + MemoryFact) \<times> WorldBrain" where
  "WorldBrain_correct subject attribute v note_text profile_scope world_scope now b =
     (if trim v = [] \<or> trim note_text = []
      then (Inl (BrainValidation ''corrected value and note required''), b)
      else
        (case find (current_at subject attribute) (map snd (wb_facts b)) of
           None \<Rightarrow> (Inl (BrainNotFound (subject @ '':'' @ attribute)), b)
         | Some target \<Rightarrow>
             let f = target\<lparr>mf_supersession := UserCorrected, mf_correction_note := Some note_text,
                   mf_observed_at_ms := now\<rparr> in
             WorldBrain_observe subject attribute v ''user-correction'' ''player'' profile_scope world_scope
               now 1 ''user'' (mf_sensitivity target) (b\<lparr>wb_facts := bt_insert (mf_id f) f (wb_facts b)\<rparr>)))"

definition set_hot_room :: "string \<Rightarrow> WorldBrain \<Rightarrow> WorldBrain" where
  "set_hot_room room b = b\<lparr>wb_hot_room := Some room\<rparr>"

definition WorldBrain_get :: "string \<Rightarrow> WorldBrain \<Rightarrow> MemoryFact option" where
  "WorldBrain_get i b = map_of (wb_facts b) i"

definition WorldBrain_count :: "WorldBrain \<Rightarrow> nat" where
  "WorldBrain_count b = length (wb_facts b)"

definition facts_for :: "string \<Rightarrow> WorldBrain \<Rightarrow> MemoryFact list" where
  "facts_for subject b = filter (\<lambda>f. mf_subject f = subject) (map snd (wb_facts b))"

section \<open>The memory as a machine\<close>

datatype brain_op =
    BObserve string string string string string string string u64 rat string Sensitivity
  | BCorrect string string string string string string u64
  | BHotRoom string

fun brain_step :: "brain_op \<Rightarrow> WorldBrain \<Rightarrow> WorldBrain" where
  "brain_step (BObserve s a v src actor ps ws now c ver sens) b = snd (WorldBrain_observe s a v src actor ps ws now c ver sens b)"
| "brain_step (BCorrect s a v n ps ws now) b = snd (WorldBrain_correct s a v n ps ws now b)"
| "brain_step (BHotRoom room) b = set_hot_room room b"

text \<open>
  What the memory is for: the number of facts and the value of each attribute of a subject. A
  correction whose second half is refused takes the value away.
\<close>

definition acceptable :: "string \<Rightarrow> string \<Rightarrow> string \<Rightarrow> string \<Rightarrow> string \<Rightarrow> rat \<Rightarrow> nat \<Rightarrow> bool" where
  "acceptable s a v ps ws c n \<longleftrightarrow>
     trim s \<noteq> [] \<and> trim a \<noteq> [] \<and> trim v \<noteq> [] \<and> 0 \<le> c \<and> c \<le> 1 \<and> trim ps \<noteq> [] \<and> trim ws \<noteq> [] \<and> n < 1000"

fun brain_spec :: "brain_op \<Rightarrow> nat \<times> (string \<times> string \<rightharpoonup> string) \<Rightarrow> nat \<times> (string \<times> string \<rightharpoonup> string)" where
  "brain_spec (BObserve s a v src actor ps ws now c ver sens) (n, m) =
     (if acceptable s a v ps ws c n then (Suc n, m((s, a) \<mapsto> v)) else (n, m))"
| "brain_spec (BCorrect s a v note_text ps ws now) (n, m) =
     (if trim v = [] \<or> trim note_text = [] \<or> m (s, a) = None then (n, m)
      else if acceptable s a v ps ws 1 n then (Suc n, m((s, a) \<mapsto> v))
      else (n, m((s, a) := None)))"
| "brain_spec (BHotRoom room) nm = nm"

section \<open>Facts on retiring\<close>

definition currents :: "string \<Rightarrow> string \<Rightarrow> (string \<times> MemoryFact) list \<Rightarrow> MemoryFact list" where
  "currents s a m = filter (current_at s a) (map snd m)"

definition brain_inv :: "WorldBrain \<Rightarrow> bool" where
  "brain_inv b \<longleftrightarrow>
     wb_max_facts b = 1000 \<and> length (wb_facts b) \<le> 1000 \<and> numbered ''fact-'' (wb_facts b)
     \<and> (\<forall>e \<in> set (wb_facts b). mf_id (snd e) = fst e)
     \<and> (\<forall>s a. length (currents s a (wb_facts b)) \<le> 1)"

lemma currents_append [simp]: "currents s a (m @ n) = currents s a m @ currents s a n"
  by (simp add: currents_def)

lemma currents_Nil [simp]: "currents s a [] = []"
  by (simp add: currents_def)

lemma currents_Cons [simp]: "currents s a (e # m) = (if current_at s a (snd e) then [snd e] else []) @ currents s a m"
  by (simp add: currents_def)

lemma currents_retire:
  assumes "\<And>e. e \<in> set m \<Longrightarrow> current_at s a (snd e) \<Longrightarrow> mf_supersession (h (snd e)) \<noteq> Current"
    and "\<And>e. e \<in> set m \<Longrightarrow> \<not> current_at s a (snd e) \<Longrightarrow> h (snd e) = snd e"
    and same: "\<And>f. mf_subject (h f) = mf_subject f \<and> mf_attribute (h f) = mf_attribute f"
  shows "currents s' a' (map (apsnd h) m) = (if s' = s \<and> a' = a then [] else currents s' a' m)"
  using assms(1,2)
proof (induction m)
  case Nil
  show ?case by (simp add: currents_def)
next
  case (Cons e m)
  have IH: "currents s' a' (map (apsnd h) m) = (if s' = s \<and> a' = a then [] else currents s' a' m)"
    by (rule Cons.IH) (use Cons.prems in auto)
  show ?case
  proof (cases "current_at s a (snd e)")
    case True
    then have "\<not> current_at s' a' (h (snd e))" using Cons.prems(1) [of e] by (simp add: current_at_def)
    moreover have "\<not> current_at s' a' (snd e)" if "\<not> (s' = s \<and> a' = a)" using True that by (auto simp: current_at_def)
    ultimately show ?thesis using IH by (simp add: apsnd_def)
  next
    case False
    then show ?thesis using Cons.prems(2) [of e] IH by auto
  qed
qed

lemma current_currents: "WorldBrain_current s a b = (case currents s a (wb_facts b) of [] \<Rightarrow> None | f # _ \<Rightarrow> Some f)"
  by (simp add: WorldBrain_current_def currents_def find_eq_filter)

lemma bt_insert_present:
  "bt_sorted m \<Longrightarrow> k \<in> fst ` set m \<Longrightarrow> bt_insert k v m = map (\<lambda>e. (fst e, if fst e = k then v else snd e)) m"
proof (induction k v m rule: bt_insert.induct)
  case (2 k v k' v' m)
  have "map (\<lambda>e. (fst e, if fst e = k then v else snd e)) m = m" if "k \<notin> fst ` set m"
    using that by (induction m) auto
  moreover have "k \<notin> fst ` set m" if "k = k'" using 2 that by auto
  moreover have "\<not> k < k'" using "2.prems" by auto
  ultimately show ?case using 2 by auto
qed simp

text \<open>An accepted observation retires the current fact, if any, and adds its own at the end.\<close>

lemma observe_facts:
  assumes "brain_inv b" and "WorldBrain_observe s a v src actor ps ws now c ver sens b = (Inr f, b')"
  shows "acceptable s a v ps ws c (length (wb_facts b))"
    and "b' = b\<lparr>wb_facts := map (apsnd (supersede f)) (wb_facts b) @ [(mf_id f, f)]\<rparr>"
    and "mf_id f = record_id ''fact-'' (Suc (length (wb_facts b)))"
    and "current_at s a f \<and> mf_value f = v"
proof -
  have inv: "wb_max_facts b = 1000" "numbered ''fact-'' (wb_facts b)" using assms(1) by (simp_all add: brain_inv_def)
  have len: "length (wb_facts b) < 1000" using assms(2) inv(1) by (auto simp: WorldBrain_observe_def split: if_splits)
  show "acceptable s a v ps ws c (length (wb_facts b))"
    using assms(2) inv(1) by (auto simp: WorldBrain_observe_def acceptable_def split: if_splits)
  show i: "mf_id f = record_id ''fact-'' (Suc (length (wb_facts b)))" and "current_at s a f \<and> mf_value f = v"
    using assms(2) by (auto simp: WorldBrain_observe_def Let_def current_at_def split: if_splits)
  have "b' = b\<lparr>wb_facts := bt_insert (mf_id f) f (map (apsnd (supersede f)) (wb_facts b))\<rparr>"
    using assms(2) by (auto simp: WorldBrain_observe_def Let_def split: if_splits)
  moreover have "numbered ''fact-'' (map (apsnd (supersede f)) (wb_facts b))"
    using inv(2) by (simp add: numbered_def)
  ultimately show "b' = b\<lparr>wb_facts := map (apsnd (supersede f)) (wb_facts b) @ [(mf_id f, f)]\<rparr>"
    using numbered_insert(1) [of "''fact-''" "map (apsnd (supersede f)) (wb_facts b)" f] len i by simp
qed

lemma observe_refused:
  "brain_inv b \<Longrightarrow> WorldBrain_observe s a v src actor ps ws now c ver sens b = (Inl err, b') \<Longrightarrow>
    b' = b \<and> \<not> acceptable s a v ps ws c (length (wb_facts b))"
  by (auto simp: WorldBrain_observe_def acceptable_def brain_inv_def Let_def split: if_splits)

lemma observe_inv:
  assumes "brain_inv b" and "WorldBrain_observe s a v src actor ps ws now c ver sens b = (Inr f, b')"
  shows "brain_inv b'"
    and "currents s' a' (wb_facts b') = (if s' = s \<and> a' = a then [f] else currents s' a' (wb_facts b))"
proof -
  note f = observe_facts [OF assms]
  have len: "length (wb_facts b) < 1000" using f(1) by (simp add: acceptable_def)
  have num: "numbered ''fact-'' (wb_facts b)" and ids: "\<forall>e \<in> set (wb_facts b). mf_id (snd e) = fst e"
    and one: "\<forall>s a. length (currents s a (wb_facts b)) \<le> 1" and mx: "wb_max_facts b = 1000"
    using assms(1) by (simp_all add: brain_inv_def)
  have fresh: "fst e \<noteq> mf_id f" if "e \<in> set (wb_facts b)" for e
    using numbered_insert(3) [OF num, of] len that f(3) by (cases e) (auto simp: map_of_eq_None_iff image_iff)
  have sa: "mf_subject f = s" "mf_attribute f = a" using f(4) by (simp_all add: current_at_def)
  have retire: "currents s' a' (map (apsnd (supersede f)) (wb_facts b))
      = (if s' = s \<and> a' = a then [] else currents s' a' (wb_facts b))" for s' a'
    by (rule currents_retire) (use fresh ids sa in \<open>auto simp: supersede_def\<close>)
  have cur: "currents s' a' (wb_facts b') = (if s' = s \<and> a' = a then [f] else currents s' a' (wb_facts b))" for s' a'
    using f(4) unfolding f(2) by (auto simp: retire current_at_def)
  then show "currents s' a' (wb_facts b') = (if s' = s \<and> a' = a then [f] else currents s' a' (wb_facts b))" .
  have "numbered ''fact-'' (map (apsnd (supersede f)) (wb_facts b))" using num by (simp add: numbered_def)
  then have "numbered ''fact-'' (wb_facts b')"
    using numbered_insert(2) [of "''fact-''" "map (apsnd (supersede f)) (wb_facts b)" f] len unfolding f(2,3) by simp
  moreover have "mf_id (supersede f g) = mf_id g" for g by (simp add: supersede_def)
  ultimately show "brain_inv b'"
    using mx len ids one unfolding brain_inv_def cur by (auto simp: f(2))
qed

text \<open>A correction whose target exists retires it before it observes.\<close>

definition retire_target :: "string \<Rightarrow> string \<Rightarrow> string \<Rightarrow> u64 \<Rightarrow> WorldBrain \<Rightarrow> WorldBrain" where
  "retire_target s a note_text now b = b\<lparr>wb_facts := map (apsnd (\<lambda>f. if current_at s a f
     then f\<lparr>mf_supersession := UserCorrected, mf_correction_note := Some note_text, mf_observed_at_ms := now\<rparr> else f)) (wb_facts b)\<rparr>"

lemma retire_target_facts:
  "wb_facts (retire_target s a note_text now b) = map (apsnd (\<lambda>f. if current_at s a f
     then f\<lparr>mf_supersession := UserCorrected, mf_correction_note := Some note_text, mf_observed_at_ms := now\<rparr> else f)) (wb_facts b)"
  by (simp add: retire_target_def)

lemma retire_target_inv:
  assumes "brain_inv b"
  shows "brain_inv (retire_target s a note_text now b)"
    and "currents s' a' (wb_facts (retire_target s a note_text now b))
        = (if s' = s \<and> a' = a then [] else currents s' a' (wb_facts b))"
proof -
  show cur: "currents s' a' (wb_facts (retire_target s a note_text now b))
      = (if s' = s \<and> a' = a then [] else currents s' a' (wb_facts b))" for s' a'
    unfolding retire_target_facts by (rule currents_retire) auto
  show "brain_inv (retire_target s a note_text now b)"
    using assms unfolding brain_inv_def cur by (auto simp: retire_target_def numbered_def)
qed

lemma correct_target:
  assumes inv: "brain_inv b" and ok: "trim v \<noteq> []" "trim note_text \<noteq> []"
    and t: "currents s a (wb_facts b) = target # ts"
  shows "WorldBrain_correct s a v note_text ps ws now b
    = WorldBrain_observe s a v ''user-correction'' ''player'' ps ws now 1 ''user'' (mf_sensitivity target)
        (retire_target s a note_text now b)"
proof -
  let ?f = "target\<lparr>mf_supersession := UserCorrected, mf_correction_note := Some note_text, mf_observed_at_ms := now\<rparr>"
  have one: "currents s a (wb_facts b) = [target]"
  proof -
    have "length (currents s a (wb_facts b)) \<le> 1" using inv by (simp add: brain_inv_def)
    then show ?thesis using t by simp
  qed
  have "target \<in> set (currents s a (wb_facts b))" using t by simp
  then obtain k where k: "(k, target) \<in> set (wb_facts b)" by (auto simp: currents_def)
  have ids: "\<forall>e \<in> set (wb_facts b). mf_id (snd e) = fst e" using inv by (simp add: brain_inv_def)
  have len: "length (wb_facts b) < 16 ^ 8" using inv by (simp add: brain_inv_def)
  have num: "numbered ''fact-'' (wb_facts b)" using inv by (simp add: brain_inv_def)
  have kid: "k = mf_id target" using ids k by force
  have dist: "distinct (map fst (wb_facts b))" by (rule numbered_distinct [OF num len])
  have "(if fst e = mf_id target then ?f else snd e) = (if current_at s a (snd e)
      then (snd e)\<lparr>mf_supersession := UserCorrected, mf_correction_note := Some note_text, mf_observed_at_ms := now\<rparr>
      else snd e)" if e: "e \<in> set (wb_facts b)" for e
  proof (cases "current_at s a (snd e)")
    case True
    then have "snd e \<in> set (currents s a (wb_facts b))" using e by (auto simp: currents_def)
    then have "snd e = target" using one by simp
    moreover have "fst e = mf_id target" using ids e \<open>snd e = target\<close> by auto
    ultimately show ?thesis using True by simp
  next
    case False
    have "fst e \<noteq> mf_id target"
    proof
      assume "fst e = mf_id target"
      then have "snd e = target" using dist e k kid by (cases e) (auto dest: eq_key_imp_eq_value)
      moreover have "current_at s a target" using \<open>target \<in> set (currents s a (wb_facts b))\<close> by (simp add: currents_def)
      ultimately show False using False by simp
    qed
    then show ?thesis using False by simp
  qed
  then have "map (\<lambda>e. (fst e, if fst e = mf_id target then ?f else snd e)) (wb_facts b)
      = wb_facts (retire_target s a note_text now b)"
    by (auto simp: retire_target_def apsnd_def map_prod_def)
  moreover have "bt_insert (mf_id target) ?f (wb_facts b) = map (\<lambda>e. (fst e, if fst e = mf_id target then ?f else snd e)) (wb_facts b)"
    using k kid by (intro bt_insert_present numbered_sorted [OF num len]) force
  ultimately have ins: "bt_insert (mf_id target) ?f (wb_facts b) = wb_facts (retire_target s a note_text now b)" by simp
  have "find (current_at s a) (map snd (wb_facts b)) = Some target"
    using t by (simp add: find_eq_filter currents_def)
  then show ?thesis
    using ok ins by (simp add: WorldBrain_correct_def Let_def) (simp add: retire_target_def)
qed

section \<open>Refinement and history\<close>

definition brain_rel :: "WorldBrain \<Rightarrow> nat \<times> (string \<times> string \<rightharpoonup> string) \<Rightarrow> bool" where
  "brain_rel b nm \<longleftrightarrow>
     brain_inv b \<and> length (wb_facts b) = fst nm
     \<and> (\<forall>s a. snd nm (s, a) = map_option mf_value (WorldBrain_current s a b))"

text \<open>The parts of a fact that nothing changes.\<close>

definition frozen :: "MemoryFact \<Rightarrow> MemoryFact" where
  "frozen f = f\<lparr>mf_supersession := Current, mf_correction_note := None, mf_observed_at_ms := mf_created_at_ms f\<rparr>"

definition history :: "WorldBrain \<Rightarrow> MemoryFact list" where
  "history b = map (frozen \<circ> snd) (wb_facts b)"

lemma observe_rel:
  assumes rel: "brain_rel b (n, m)"
  shows "brain_rel (snd (WorldBrain_observe s a v src actor ps ws now c ver sens b))
      (if acceptable s a v ps ws c n then (Suc n, m((s, a) \<mapsto> v)) else (n, m))
    \<and> prefix (history b) (history (snd (WorldBrain_observe s a v src actor ps ws now c ver sens b)))"
proof -
  have inv: "brain_inv b" and n: "length (wb_facts b) = n"
    and m: "\<forall>s a. m (s, a) = map_option mf_value (WorldBrain_current s a b)"
    using rel by (simp_all add: brain_rel_def)
  obtain r b' where o: "WorldBrain_observe s a v src actor ps ws now c ver sens b = (r, b')" by fastforce
  show ?thesis
  proof (cases r)
    case (Inl err)
    then show ?thesis using observe_refused [OF inv, of s a v src actor ps ws now c ver sens err b'] o rel n by auto
  next
    case (Inr f)
    note ob = o [unfolded Inr]
    note f = observe_facts [OF inv ob] and i = observe_inv [OF inv ob]
    have "length (wb_facts b') = Suc n" using n by (simp add: f(2))
    moreover have "(m((s, a) \<mapsto> v)) (s', a') = map_option mf_value (WorldBrain_current s' a' b')" for s' a'
      using m f(4) unfolding current_currents i(2) by auto
    moreover have "frozen (supersede f g) = frozen g" for g by (simp add: supersede_def frozen_def)
    then have "prefix (history b) (history b')" by (simp add: history_def f(2) comp_def)
    ultimately show ?thesis using f(1) i(1) n ob by (simp add: brain_rel_def)
  qed
qed

lemma correct_rel:
  assumes rel: "brain_rel b (n, m)"
  shows "brain_rel (brain_step (BCorrect s a v note_text ps ws now) b) (brain_spec (BCorrect s a v note_text ps ws now) (n, m))
    \<and> prefix (history b) (history (brain_step (BCorrect s a v note_text ps ws now) b))"
proof -
  have inv: "brain_inv b" and n: "length (wb_facts b) = n"
    and m: "\<And>s a. m (s, a) = map_option mf_value (WorldBrain_current s a b)"
    using rel by (simp_all add: brain_rel_def)
  show ?thesis
  proof (cases "trim v = [] \<or> trim note_text = [] \<or> currents s a (wb_facts b) = []")
    case True
    then have "brain_step (BCorrect s a v note_text ps ws now) b = b"
      by (auto simp: WorldBrain_correct_def find_eq_filter currents_def)
    moreover have "brain_spec (BCorrect s a v note_text ps ws now) (n, m) = (n, m)"
      using True m [of s a] by (auto simp: current_currents)
    ultimately show ?thesis using rel by simp
  next
    case False
    then obtain target ts where t: "currents s a (wb_facts b) = target # ts" by (cases "currents s a (wb_facts b)") auto
    let ?b = "retire_target s a note_text now b"
    have mid: "brain_rel ?b (n, m((s, a) := None))"
      using retire_target_inv [OF inv] n m
      by (auto simp: brain_rel_def current_currents retire_target_facts)
    have "brain_step (BCorrect s a v note_text ps ws now) b
        = snd (WorldBrain_observe s a v ''user-correction'' ''player'' ps ws now 1 ''user'' (mf_sensitivity target) ?b)"
      using correct_target [OF inv _ _ t] False by simp
    moreover have "brain_spec (BCorrect s a v note_text ps ws now) (n, m)
        = (if acceptable s a v ps ws 1 n then (Suc n, (m((s, a) := None))((s, a) \<mapsto> v)) else (n, m((s, a) := None)))"
      using False t m [of s a] by (simp add: current_currents)
    moreover have "history ?b = history b"
      by (auto simp: history_def retire_target_facts frozen_def)
    ultimately show ?thesis
      using observe_rel [OF mid] by simp
  qed
qed

lemma brain_rel_step:
  assumes "brain_rel b nm"
  shows "brain_rel (brain_step x b) (brain_spec x nm) \<and> prefix (history b) (history (brain_step x b))"
proof -
  obtain n m where nm: "nm = (n, m)" by (cases nm)
  have rel: "brain_rel b (n, m)" using assms nm by simp
  show ?thesis
  proof (cases x)
    case (BHotRoom room)
    then show ?thesis
      using rel nm by (simp add: brain_rel_def brain_inv_def set_hot_room_def history_def WorldBrain_current_def)
  next
    case (BObserve s a v src actor ps ws now c ver sens)
    then show ?thesis using observe_rel [OF rel, of s a v src actor ps ws now c ver sens] nm by simp
  next
    case (BCorrect s a v note_text ps ws now)
    then show ?thesis using correct_rel [OF rel] nm by simp
  qed
qed

interpretation world_memory: simulation brain_step brain_spec "\<lambda>x. x" brain_rel "\<lambda>_. True"
  using brain_rel_step by unfold_locales blast

lemma brain_rel_new: "brain_rel WorldBrain_new (0, Map.empty)"
  by (simp add: brain_rel_def brain_inv_def WorldBrain_new_def numbered_def WorldBrain_current_def)

lemma brain_rel_run: "brain_rel (run brain_step ops WorldBrain_new) (run brain_spec ops (0, Map.empty))"
  using world_memory.sim_run [OF brain_rel_new, of ops] by (simp add: list_all_iff)

lemma history_run: "brain_rel b nm \<Longrightarrow> prefix (history b) (history (run brain_step ops b))"
proof (induction ops arbitrary: b nm)
  case (Cons x ops)
  have "prefix (history b) (history (brain_step x b))" using brain_rel_step [OF Cons.prems] by blast
  also have "prefix (history (brain_step x b)) (history (run brain_step ops (brain_step x b)))"
    using Cons.IH brain_rel_step [OF Cons.prems] by blast
  finally show ?case by simp
qed simp

section \<open>Properties\<close>

text \<open>
  C20: The memory is a map. After any operations, the current fact of a subject and attribute has the
  value that was observed or corrected last, and there is none when there was none, or when a
  correction took it away and was then refused; the facts are counted, up to 1000.
\<close>

theorem world_memory_is_map:
  "(let b = run brain_step ops WorldBrain_new; (n, m) = run brain_spec ops (0, Map.empty) in
     WorldBrain_count b = n \<and> n \<le> 1000
     \<and> map_option mf_value (WorldBrain_current s a b) = m (s, a))"
  using brain_rel_run [of ops]
  by (cases "run brain_spec ops (0, Map.empty)") (simp add: brain_rel_def brain_inv_def WorldBrain_count_def)

text \<open>
  History is kept. Whatever happens later, the facts recorded so far stay where they are with all
  but their state, note and time of observation, and each is found under its id.
\<close>

theorem world_history_kept:
  "(let b = run brain_step xs WorldBrain_new in
     prefix (history b) (history (run brain_step ys b))
     \<and> list_all (\<lambda>e. WorldBrain_get (mf_id (snd e)) b = Some (snd e)) (wb_facts b))"
proof -
  let ?b = "run brain_step xs WorldBrain_new"
  have inv: "brain_inv ?b" using brain_rel_run [of xs] by (simp add: brain_rel_def)
  have "distinct (map fst (wb_facts ?b))"
    by (rule numbered_distinct [of "''fact-''"]) (use inv in \<open>simp_all add: brain_inv_def\<close>)
  then have "list_all (\<lambda>e. WorldBrain_get (mf_id (snd e)) ?b = Some (snd e)) (wb_facts ?b)"
    using inv by (auto simp: list_all_iff WorldBrain_get_def brain_inv_def)
  then show ?thesis using history_run [OF brain_rel_run] by (simp add: Let_def)
qed

text \<open>
  A correction is not atomic. With a blank scope it is refused after the current fact was marked as
  corrected: the memory then has no current value, where it had one.
\<close>

theorem correction_not_atomic:
  "(let b = run brain_step ops WorldBrain_new; (r, b') = WorldBrain_correct s a v note_text ps ws now b in
     if trim v \<noteq> [] \<and> trim note_text \<noteq> [] \<and> trim ws = [] \<and> WorldBrain_current s a b \<noteq> None
     then isl r \<and> WorldBrain_current s a b' = None else True)"
proof -
  let ?b = "run brain_step ops WorldBrain_new"
  have inv: "brain_inv ?b" using brain_rel_run [of ops] by (simp add: brain_rel_def)
  have "isl (fst (WorldBrain_correct s a v note_text ps ws now ?b))
      \<and> WorldBrain_current s a (snd (WorldBrain_correct s a v note_text ps ws now ?b)) = None"
    if ok: "trim v \<noteq> []" "trim note_text \<noteq> []" "trim ws = []" and cur: "WorldBrain_current s a ?b \<noteq> None"
  proof -
    obtain target ts where t: "currents s a (wb_facts ?b) = target # ts"
      using cur by (cases "currents s a (wb_facts ?b)") (auto simp: current_currents)
    let ?b' = "retire_target s a note_text now ?b"
    have "WorldBrain_current s a ?b' = None" using retire_target_inv(2) [OF inv] by (simp add: current_currents)
    then show ?thesis
      unfolding correct_target [OF inv ok(1,2) t] using ok(3) by (auto simp: WorldBrain_observe_def)
  qed
  then show ?thesis by (auto simp: Let_def split: prod.split)
qed

end
