(* ===== verification/TimeMachine.thy ===== *)
theory TimeMachine
  imports Numbered
begin

text \<open>
  The time machine, \<open>wirecore/crates/wire-time-machine/src/lib.rs\<close>: at most 50 numbered snapshots of
  the memory of the world, of which only those the user approved can be restored. The text form of
  JSON is an argument.
\<close>

definition TIME_MACHINE_SCHEMA_VERSION :: u32 where "TIME_MACHINE_SCHEMA_VERSION = 1"

type_synonym world_view = "(string \<times> (string \<times> string) list) list"

record Snapshot =
  sn_id :: string
  sn_label :: string
  sn_view :: world_view
  sn_at_ms :: u64
  sn_user_approved :: bool
  sn_schema_version :: u32

datatype TimeMachineError =
  TmValidation string | TmNotFound string | TmNotApproved string | TmExhaustion string

fun TimeMachineError_user_message :: "TimeMachineError \<Rightarrow> string" where
  "TimeMachineError_user_message (TmValidation m) = m"
| "TimeMachineError_user_message (TmNotFound m) = ''snapshot not found: '' @ m"
| "TimeMachineError_user_message (TmNotApproved m) = m"
| "TimeMachineError_user_message (TmExhaustion m) = m"

record TimeMachine =
  tm_snapshots :: "(string \<times> Snapshot) list"
  tm_max_snapshots :: nat

definition TimeMachine_new :: TimeMachine where
  "TimeMachine_new = \<lparr>tm_snapshots = [], tm_max_snapshots = 50\<rparr>"

definition TimeMachine_snapshot ::
    "string \<Rightarrow> world_view \<Rightarrow> u64 \<Rightarrow> TimeMachine \<Rightarrow> (TimeMachineError + Snapshot) \<times> TimeMachine" where
  "TimeMachine_snapshot label view at_ms m =
     (if trim label = [] then (Inl (TmValidation ''snapshot label required''), m)
      else if tm_max_snapshots m \<le> length (tm_snapshots m) then (Inl (TmExhaustion ''time machine full''), m)
      else
        let snap = \<lparr>sn_id = record_id ''snap-'' (Suc (length (tm_snapshots m))), sn_label = label,
              sn_view = view, sn_at_ms = at_ms, sn_user_approved = False,
              sn_schema_version = TIME_MACHINE_SCHEMA_VERSION\<rparr> in
        (Inr snap, m\<lparr>tm_snapshots := bt_insert (sn_id snap) snap (tm_snapshots m)\<rparr>))"

definition TimeMachine_approve :: "string \<Rightarrow> TimeMachine \<Rightarrow> (TimeMachineError + unit) \<times> TimeMachine" where
  "TimeMachine_approve i m =
     (case map_of (tm_snapshots m) i of
        None \<Rightarrow> (Inl (TmNotFound i), m)
      | Some s \<Rightarrow> (Inr (), m\<lparr>tm_snapshots := AList.update i (s\<lparr>sn_user_approved := True\<rparr>) (tm_snapshots m)\<rparr>))"

definition TimeMachine_restore :: "string \<Rightarrow> TimeMachine \<Rightarrow> TimeMachineError + world_view" where
  "TimeMachine_restore i m =
     (case map_of (tm_snapshots m) i of
        None \<Rightarrow> Inl (TmNotFound i)
      | Some s \<Rightarrow>
          if \<not> sn_user_approved s then Inl (TmNotApproved ''snapshot is not user-approved; restore denied'')
          else Inr (sn_view s))"

definition TimeMachine_get :: "string \<Rightarrow> TimeMachine \<Rightarrow> Snapshot option" where
  "TimeMachine_get i m = map_of (tm_snapshots m) i"

definition TimeMachine_count :: "TimeMachine \<Rightarrow> nat" where
  "TimeMachine_count m = length (tm_snapshots m)"

definition TimeMachine_export_json ::
    "(u32 \<times> (string \<times> Snapshot) list \<Rightarrow> string + string) \<Rightarrow> TimeMachine \<Rightarrow> TimeMachineError + string" where
  "TimeMachine_export_json to_string_pretty m =
     (case to_string_pretty (TIME_MACHINE_SCHEMA_VERSION, tm_snapshots m) of
        Inr txt \<Rightarrow> Inr txt
      | Inl e \<Rightarrow> Inl (TmValidation (''export failed: '' @ e)))"

definition TimeMachine_can_send_command :: "TimeMachine \<Rightarrow> bool" where
  "TimeMachine_can_send_command m = False"

section \<open>The time machine as a machine\<close>

datatype tm_op = TmSnapshot string world_view u64 | TmApprove string

fun tm_step :: "tm_op \<Rightarrow> TimeMachine \<Rightarrow> TimeMachine" where
  "tm_step (TmSnapshot label view at_ms) m = snd (TimeMachine_snapshot label view at_ms m)"
| "tm_step (TmApprove i) m = snd (TimeMachine_approve i m)"

definition tm_inv :: "TimeMachine \<Rightarrow> bool" where
  "tm_inv m \<longleftrightarrow> tm_max_snapshots m = 50 \<and> length (tm_snapshots m) \<le> 50 \<and> numbered ''snap-'' (tm_snapshots m)"

lemma snapshot_taken:
  assumes "tm_inv m" and "TimeMachine_snapshot label view at_ms m = (Inr s, m')"
  shows "map_of (tm_snapshots m) (sn_id s) = None"
    and "m' = m\<lparr>tm_snapshots := tm_snapshots m @ [(sn_id s, s)]\<rparr>"
    and "sn_view s = view \<and> \<not> sn_user_approved s"
    and "tm_inv m'"
proof -
  have lt: "length (tm_snapshots m) < 50" and sid: "sn_id s = record_id ''snap-'' (Suc (length (tm_snapshots m)))"
    and s: "sn_view s = view \<and> \<not> sn_user_approved s"
    and m': "m' = m\<lparr>tm_snapshots := bt_insert (sn_id s) s (tm_snapshots m)\<rparr>"
    using assms by (auto simp: TimeMachine_snapshot_def tm_inv_def Let_def split: if_splits)
  have num: "numbered ''snap-'' (tm_snapshots m)" using assms(1) by (simp add: tm_inv_def)
  note ins = numbered_insert [OF num, folded sid]
  show "map_of (tm_snapshots m) (sn_id s) = None" using ins(3) lt by simp
  show eq: "m' = m\<lparr>tm_snapshots := tm_snapshots m @ [(sn_id s, s)]\<rparr>" using ins(1) lt m' by simp
  show "sn_view s = view \<and> \<not> sn_user_approved s" by (rule s)
  show "tm_inv m'" using assms(1) ins(2) lt by (simp add: tm_inv_def eq)
qed

lemma snapshot_refused: "TimeMachine_snapshot label view at_ms m = (Inl err, m') \<Longrightarrow> m' = m"
  by (auto simp: TimeMachine_snapshot_def Let_def split: if_splits)

lemma approve_keys: "map fst (tm_snapshots (snd (TimeMachine_approve i m))) = map fst (tm_snapshots m)"
  by (simp add: TimeMachine_approve_def keys_update_present split: option.split)

lemma tm_inv_approve: "tm_inv m \<Longrightarrow> tm_inv (snd (TimeMachine_approve i m))"
proof -
  assume "tm_inv m"
  moreover have "length (tm_snapshots (snd (TimeMachine_approve i m))) = length (tm_snapshots m)"
    using arg_cong [OF approve_keys, of length i m] by simp
  moreover have "tm_max_snapshots (snd (TimeMachine_approve i m)) = tm_max_snapshots m"
    by (simp add: TimeMachine_approve_def split: option.split)
  ultimately show ?thesis by (simp add: tm_inv_def numbered_def approve_keys)
qed

interpretation time_machine: machine_invariant tm_step tm_inv
proof
  fix m x
  assume inv: "tm_inv m"
  show "tm_inv (tm_step x m)"
  proof (cases x)
    case (TmSnapshot label view at_ms)
    obtain r m' where "TimeMachine_snapshot label view at_ms m = (r, m')" by fastforce
    then have "tm_inv m'" using snapshot_taken(4) [OF inv] snapshot_refused inv by (cases r) blast+
    then show ?thesis using \<open>_ = (r, m')\<close> by (simp add: TmSnapshot)
  qed (simp add: tm_inv_approve inv)
qed

text \<open>A snapshot stays as it is, but for the approval.\<close>

lemma snapshot_step:
  assumes inv: "tm_inv m" and s: "map_of (tm_snapshots m) i = Some s"
  shows "map_of (tm_snapshots (tm_step x m)) i
    = Some (s\<lparr>sn_user_approved := sn_user_approved s \<or> x = TmApprove i\<rparr>)"
proof (cases x)
  case (TmSnapshot label view at_ms)
  obtain r m' where r: "TimeMachine_snapshot label view at_ms m = (r, m')" by fastforce
  have "map_of (tm_snapshots m') i = Some s"
  proof (cases r)
    case (Inl err)
    then show ?thesis using snapshot_refused [of label view at_ms m err m'] r s by simp
  next
    case (Inr t)
    then show ?thesis using snapshot_taken(1,2) [OF inv r [unfolded Inr]] s by (auto simp: map_add_def)
  qed
  then show ?thesis using r by (simp add: TmSnapshot)
next
  case (TmApprove j)
  show ?thesis
  proof (cases "j = i")
    case True
    then show ?thesis using s TmApprove by (simp add: TimeMachine_approve_def)
  next
    case False
    then show ?thesis using s TmApprove by (simp add: TimeMachine_approve_def split: option.split)
  qed
qed

lemma snapshot_run:
  "tm_inv m \<Longrightarrow> map_of (tm_snapshots m) i = Some s \<Longrightarrow>
    map_of (tm_snapshots (run tm_step ops m)) i
    = Some (s\<lparr>sn_user_approved := sn_user_approved s \<or> TmApprove i \<in> set ops\<rparr>)"
proof (induction ops arbitrary: m s)
  case (Cons x ops)
  show ?case
    using Cons.IH [OF time_machine.step_inv [OF Cons.prems(1)] snapshot_step [OF Cons.prems], of x]
    by (simp add: disj_ac eq_commute [of x])
qed simp

lemma tm_inv_new: "tm_inv TimeMachine_new"
  by (simp add: tm_inv_def TimeMachine_new_def numbered_def)

section \<open>Properties\<close>

text \<open>
  Restoring needs approval, and gives what was taken. For a snapshot taken after any operations,
  whatever is done later, restoring its id gives its view when the id was approved since, and is
  denied otherwise; there are at most 50 snapshots.
\<close>

theorem restore_needs_approval:
  "(let m = run tm_step xs TimeMachine_new in
     TimeMachine_count m \<le> 50
     \<and> (case TimeMachine_snapshot label view at_ms m of
         (Inl _, m') \<Rightarrow> m' = m
       | (Inr s, m') \<Rightarrow>
           TimeMachine_restore (sn_id s) (run tm_step ys m')
           = (if TmApprove (sn_id s) \<in> set ys then Inr view
              else Inl (TmNotApproved ''snapshot is not user-approved; restore denied''))))"
proof -
  let ?m = "run tm_step xs TimeMachine_new"
  have inv: "tm_inv ?m" by (rule time_machine.run_inv [OF tm_inv_new])
  obtain r m' where r: "TimeMachine_snapshot label view at_ms ?m = (r, m')" by fastforce
  show ?thesis
  proof (cases r)
    case (Inl err)
    then show ?thesis
      using r inv snapshot_refused [OF r [unfolded Inl]] by (simp add: Let_def tm_inv_def TimeMachine_count_def)
  next
    case (Inr s)
    note t = snapshot_taken [OF inv r [unfolded Inr]]
    have "map_of (tm_snapshots m') (sn_id s) = Some s" using t(1,2) by (simp add: map_add_def)
    from snapshot_run [OF t(4) this, of ys] show ?thesis
      using r Inr t(3) inv by (simp add: Let_def TimeMachine_restore_def tm_inv_def TimeMachine_count_def)
  qed
qed

end
