(* ===== verification/WorldBible.thy ===== *)
theory WorldBible
  imports Prelude
begin

text \<open>
  The world bible, \<open>wirecore/crates/wire-world-bible/src/lib.rs\<close>: the continuity record of each
  region, text only, in a \<open>BTreeMap\<close> of at most 200 entries. The text form of JSON is an argument.
\<close>

definition WORLD_BIBLE_SCHEMA_VERSION :: u32 where "WORLD_BIBLE_SCHEMA_VERSION = 1"

record RegionContinuity =
  rg_region :: string
  rg_palette :: "string list"
  rg_terrain :: string
  rg_lighting :: string
  rg_faction :: string
  rg_silhouette :: string
  rg_architecture_motif :: string
  rg_sound_rule :: string
  rg_roleplay_tone :: string
  rg_constraints :: "string list"
  rg_schema_version :: u32

datatype WorldBibleError = BibleValidation string | BibleNotFound string | BibleExhaustion string

fun WorldBibleError_user_message :: "WorldBibleError \<Rightarrow> string" where
  "WorldBibleError_user_message (BibleValidation m) = m"
| "WorldBibleError_user_message (BibleNotFound m) = ''region continuity not found: '' @ m"
| "WorldBibleError_user_message (BibleExhaustion m) = m"

record WorldBible =
  wl_regions :: "(string \<times> RegionContinuity) list"
  wl_max_regions :: nat

definition WorldBible_new :: WorldBible where
  "WorldBible_new = \<lparr>wl_regions = [], wl_max_regions = 200\<rparr>"

text \<open>Tokens of the palette and the constraints are short and have no zero byte.\<close>

definition bad_token :: "string \<Rightarrow> bool" where
  "bad_token t \<longleftrightarrow> CHR 0x00 \<in> set t \<or> 1024 < length t"

definition WorldBible_upsert ::
    "string \<Rightarrow> string list \<Rightarrow> string \<Rightarrow> string \<Rightarrow> string \<Rightarrow> string \<Rightarrow> string \<Rightarrow> string \<Rightarrow> string \<Rightarrow> string list
     \<Rightarrow> WorldBible \<Rightarrow> (WorldBibleError + RegionContinuity) \<times> WorldBible" where
  "WorldBible_upsert region palette terrain lighting faction silhouette motif sound tone constraints b =
     (if trim region = [] \<or> trim terrain = [] then (Inl (BibleValidation ''region and terrain required''), b)
      else if list_ex bad_token (palette @ constraints)
      then (Inl (BibleValidation ''oversized or binary token rejected''), b)
      else if map_of (wl_regions b) region = None \<and> wl_max_regions b \<le> length (wl_regions b)
      then (Inl (BibleExhaustion ''world bible full''), b)
      else
        let r = \<lparr>rg_region = region, rg_palette = palette, rg_terrain = terrain, rg_lighting = lighting,
              rg_faction = faction, rg_silhouette = silhouette, rg_architecture_motif = motif,
              rg_sound_rule = sound, rg_roleplay_tone = tone, rg_constraints = constraints,
              rg_schema_version = WORLD_BIBLE_SCHEMA_VERSION\<rparr> in
        (Inr r, b\<lparr>wl_regions := bt_insert region r (wl_regions b)\<rparr>))"

definition WorldBible_get :: "string \<Rightarrow> WorldBible \<Rightarrow> RegionContinuity option" where
  "WorldBible_get region b = map_of (wl_regions b) region"

definition WorldBible_count :: "WorldBible \<Rightarrow> nat" where
  "WorldBible_count b = length (wl_regions b)"

definition WorldBible_export_json ::
    "(u32 \<times> (string \<times> RegionContinuity) list \<Rightarrow> string + string) \<Rightarrow> WorldBible \<Rightarrow> WorldBibleError + string" where
  "WorldBible_export_json to_string_pretty b =
     (case to_string_pretty (WORLD_BIBLE_SCHEMA_VERSION, wl_regions b) of
        Inr txt \<Rightarrow> Inr txt
      | Inl e \<Rightarrow> Inl (BibleValidation (''export failed: '' @ e)))"

definition WorldBible_can_send_command :: "WorldBible \<Rightarrow> bool" where
  "WorldBible_can_send_command b = False"

section \<open>The bible as a machine\<close>

text \<open>An operation is an upsert of the record it would store.\<close>

definition bible_step :: "RegionContinuity \<Rightarrow> WorldBible \<Rightarrow> WorldBible" where
  "bible_step r b = snd (WorldBible_upsert (rg_region r) (rg_palette r) (rg_terrain r) (rg_lighting r) (rg_faction r)
     (rg_silhouette r) (rg_architecture_motif r) (rg_sound_rule r) (rg_roleplay_tone r) (rg_constraints r) b)"

definition region_ok :: "string \<times> RegionContinuity \<Rightarrow> bool" where
  "region_ok e \<longleftrightarrow>
     rg_region (snd e) = fst e \<and> trim (fst e) \<noteq> [] \<and> trim (rg_terrain (snd e)) \<noteq> []
     \<and> list_all (\<lambda>t. CHR 0x00 \<notin> set t \<and> length t \<le> 1024) (rg_palette (snd e) @ rg_constraints (snd e))"

definition bible_inv :: "WorldBible \<Rightarrow> bool" where
  "bible_inv b \<longleftrightarrow>
     wl_max_regions b = 200 \<and> length (wl_regions b) \<le> 200 \<and> bt_sorted (wl_regions b)
     \<and> list_all region_ok (wl_regions b)"

lemma in_bt_insert: "e \<in> set (bt_insert k v m) \<Longrightarrow> e = (k, v) \<or> e \<in> set m"
  by (induction k v m rule: bt_insert.induct) (auto split: if_splits)

interpretation bible: machine_invariant bible_step bible_inv
proof
  fix b :: WorldBible and r :: RegionContinuity
  assume inv: "bible_inv b"
  let ?u = "WorldBible_upsert (rg_region r) (rg_palette r) (rg_terrain r) (rg_lighting r) (rg_faction r)
     (rg_silhouette r) (rg_architecture_motif r) (rg_sound_rule r) (rg_roleplay_tone r) (rg_constraints r) b"
  show "bible_inv (bible_step r b)"
  proof (cases "fst ?u")
    case (Inl err)
    then have "snd ?u = b" by (auto simp: WorldBible_upsert_def Let_def split: if_splits)
    then show ?thesis using inv by (simp add: bible_step_def)
  next
    case (Inr s)
    then have c: "trim (rg_region r) \<noteq> []" "trim (rg_terrain r) \<noteq> []"
        "\<not> list_ex bad_token (rg_palette r @ rg_constraints r)"
      and full: "\<not> (map_of (wl_regions b) (rg_region r) = None \<and> wl_max_regions b \<le> length (wl_regions b))"
      by (auto simp: WorldBible_upsert_def simp del: list_ex_append split: if_splits)
    have s: "snd ?u = b\<lparr>wl_regions := bt_insert (rg_region r) s (wl_regions b)\<rparr>"
      and f: "rg_region s = rg_region r" "rg_terrain s = rg_terrain r" "rg_palette s = rg_palette r" "rg_constraints s = rg_constraints r"
      using Inr c full by (auto simp: WorldBible_upsert_def Let_def)
    have ok: "region_ok (rg_region r, s)"
      using c by (auto simp: region_ok_def f bad_token_def list_ex_iff list_all_iff not_less)
    have "length (bt_insert (rg_region r) s (wl_regions b)) \<le> 200"
      using inv full by (auto simp: bible_inv_def length_bt_insert)
    moreover have "list_all region_ok (bt_insert (rg_region r) s (wl_regions b))"
      using inv ok unfolding bible_inv_def list_all_iff by (blast dest: in_bt_insert)
    ultimately show ?thesis using inv by (simp add: bible_step_def s bible_inv_def bt_sorted_insert)
  qed
qed

section \<open>Properties\<close>

text \<open>
  The bible holds text of bounded size. After any upserts it has at most 200 regions, in the order
  of their names, each under its own name and with a terrain, and no token of a palette or a
  constraint is long or binary; a record that was accepted is the one found under its region.
\<close>

theorem bible_bounded:
  "(let b = run bible_step rs WorldBible_new in
     WorldBible_count b \<le> 200 \<and> sorted_wrt (<) (map fst (wl_regions b)) \<and> list_all region_ok (wl_regions b)
     \<and> (case WorldBible_upsert region palette terrain lighting faction silhouette motif sound tone constraints b of
         (Inr r, b') \<Rightarrow> WorldBible_get region b' = Some r \<and> rg_region r = region
           \<and> (\<lambda>i. if i = region then None else WorldBible_get i b') = (\<lambda>i. if i = region then None else WorldBible_get i b)
       | (Inl _, b') \<Rightarrow> b' = b))"
proof -
  have "bible_inv (run bible_step rs WorldBible_new)"
    by (rule bible.run_inv) (simp add: bible_inv_def WorldBible_new_def)
  then show ?thesis
    by (auto simp: Let_def bible_inv_def WorldBible_count_def WorldBible_get_def WorldBible_upsert_def fun_eq_iff)
qed

end
