(* ===== verification/Tactical.thy ===== *)
theory Tactical
  imports Prelude
begin

text \<open>
  The tactical display, \<open>wirecore/crates/wire-tactical/src/lib.rs\<close>: the latest snapshot of the state of
  the game and a bounded history of them; older and oversized snapshots are refused.
\<close>

definition TACTICAL_SCHEMA_VERSION :: u32 where "TACTICAL_SCHEMA_VERSION = 1"

record TacticalSnapshot =
  ts_room :: string
  ts_health_pct :: u32
  ts_energy_pct :: u32
  ts_nearby_entities :: "string list"
  ts_threat_level :: string
  ts_at_ms :: u64

datatype TacticalError = TacticalOversized | TacticalStale | TacticalValidation string

fun TacticalError_user_message :: "TacticalError \<Rightarrow> string" where
  "TacticalError_user_message TacticalOversized = ''tactical snapshot is oversized''"
| "TacticalError_user_message TacticalStale = ''tactical snapshot is stale''"
| "TacticalError_user_message (TacticalValidation m) = m"

record TacticalHud =
  th_latest :: "TacticalSnapshot option"
  th_history :: "TacticalSnapshot list"
  th_max_history :: nat
  th_max_entities :: nat

definition TacticalHud_new :: TacticalHud where
  "TacticalHud_new = \<lparr>th_latest = None, th_history = [], th_max_history = 20, th_max_entities = 64\<rparr>"

definition TacticalHud_update :: "TacticalSnapshot \<Rightarrow> u64 \<Rightarrow> TacticalHud \<Rightarrow> (TacticalError + unit) \<times> TacticalHud" where
  "TacticalHud_update snap now_ms h =
     (if trim (ts_room snap) = [] then (Inl (TacticalValidation ''room required''), h)
      else if th_max_entities h < length (ts_nearby_entities snap) then (Inl TacticalOversized, h)
      else if (case th_latest h of None \<Rightarrow> False | Some prev \<Rightarrow> ts_at_ms snap < ts_at_ms prev)
      then (Inl TacticalStale, h)
      else
        let hist = th_history h @ [snap] in
        (Inr (), h\<lparr>th_history := (if th_max_history h < length hist then tl hist else hist), th_latest := Some snap\<rparr>))"

definition TacticalHud_current :: "TacticalHud \<Rightarrow> TacticalSnapshot option" where
  "TacticalHud_current h = th_latest h"

definition TacticalHud_clear :: "TacticalHud \<Rightarrow> TacticalHud" where
  "TacticalHud_clear h = h\<lparr>th_latest := None, th_history := []\<rparr>"

definition TacticalHud_can_send_command :: "TacticalHud \<Rightarrow> bool" where
  "TacticalHud_can_send_command h = False"

section \<open>The display as a machine\<close>

datatype hud_op = HudUpdate TacticalSnapshot u64 | HudClear

fun hud_step :: "hud_op \<Rightarrow> TacticalHud \<Rightarrow> TacticalHud" where
  "hud_step (HudUpdate snap now) h = snd (TacticalHud_update snap now h)"
| "hud_step HudClear h = TacticalHud_clear h"

definition snapshot_ok :: "TacticalSnapshot \<Rightarrow> bool" where
  "snapshot_ok s \<longleftrightarrow> trim (ts_room s) \<noteq> [] \<and> length (ts_nearby_entities s) \<le> 64"

definition hud_inv :: "TacticalHud \<Rightarrow> bool" where
  "hud_inv h \<longleftrightarrow>
     th_max_history h = 20 \<and> th_max_entities h = 64 \<and> length (th_history h) \<le> 20
     \<and> sorted (map ts_at_ms (th_history h)) \<and> list_all snapshot_ok (th_history h)
     \<and> th_latest h = (if th_history h = [] then None else Some (last (th_history h)))"

lemma hud_inv_update: "hud_inv h \<Longrightarrow> hud_inv (snd (TacticalHud_update snap now h))"
proof (cases "fst (TacticalHud_update snap now h)")
  case (Inl err)
  assume "hud_inv h"
  moreover have "snd (TacticalHud_update snap now h) = h"
    using Inl by (auto simp: TacticalHud_update_def Let_def split: if_splits)
  ultimately show ?thesis by simp
next
  case (Inr u)
  assume inv: "hud_inv h"
  let ?hist = "th_history h @ [snap]"
  have ok: "snapshot_ok snap" and late: "th_history h = [] \<or> ts_at_ms (last (th_history h)) \<le> ts_at_ms snap"
    using Inr inv by (auto simp: TacticalHud_update_def hud_inv_def snapshot_ok_def not_less split: if_splits)
  have le: "ts_at_ms s \<le> ts_at_ms snap" if "s \<in> set (th_history h)" for s
  proof -
    have "th_history h \<noteq> []" using that by auto
    then obtain xs x where xs: "th_history h = xs @ [x]" by (cases "th_history h" rule: rev_cases) auto
    then have "ts_at_ms s \<le> ts_at_ms x" using that inv by (auto simp: hud_inv_def sorted_append)
    then show ?thesis using late xs by auto
  qed
  have s: "sorted (map ts_at_ms ?hist)" using inv le by (auto simp: hud_inv_def sorted_append)
  then have t: "sorted (map ts_at_ms (tl ?hist))" unfolding map_tl by (rule sorted_tl)
  have "list_all snapshot_ok ?hist" using inv ok by (simp add: hud_inv_def)
  then have q: "list_all snapshot_ok (tl ?hist)" by (cases "th_history h") auto
  have l: "length (th_history h) = 20 \<Longrightarrow> last (tl ?hist) = snap \<and> tl ?hist \<noteq> []" by (cases "th_history h") auto
  have "snd (TacticalHud_update snap now h)
      = h\<lparr>th_history := (if th_max_history h < length ?hist then tl ?hist else ?hist), th_latest := Some snap\<rparr>"
    using Inr by (auto simp: TacticalHud_update_def Let_def split: if_splits)
  then show ?thesis
    using inv s t ok q l by (auto simp: hud_inv_def)
qed

interpretation hud: machine_invariant hud_step hud_inv
proof
  fix h x
  assume "hud_inv h"
  then show "hud_inv (hud_step x h)"
    by (cases x) (simp_all add: hud_inv_update, simp add: hud_inv_def TacticalHud_clear_def)
qed

section \<open>Properties\<close>

text \<open>
  The display is bounded and never goes back. After any updates, whatever snapshots they bring, the
  history has at most 20 of them in the order of their times, each with a room and at most 64
  entities, and the current snapshot is the last of the history.
\<close>

theorem hud_bounded:
  "(let h = run hud_step ops TacticalHud_new in
     length (th_history h) \<le> 20 \<and> sorted (map ts_at_ms (th_history h)) \<and> list_all snapshot_ok (th_history h)
     \<and> TacticalHud_current h = (if th_history h = [] then None else Some (last (th_history h))))"
proof -
  have "hud_inv (run hud_step ops TacticalHud_new)"
    by (rule hud.run_inv) (simp add: hud_inv_def TacticalHud_new_def)
  then show ?thesis by (simp add: Let_def hud_inv_def TacticalHud_current_def)
qed

end
