(* ===== verification/Narrator.thy ===== *)
theory Narrator
  imports Scan Quest Tactical
begin

text \<open>
  The personal narrator, \<open>wirecore/crates/wire-narrator/src/lib.rs\<close>: summaries with their source in a
  bounded list, texts on quests (of \<open>Quest\<close>) and on the tactical display (of \<open>Tactical\<close>), redaction.
\<close>

definition NARRATOR_SCHEMA_VERSION :: u32 where "NARRATOR_SCHEMA_VERSION = 1"

record NarratorSummary =
  ns_text :: string
  ns_source :: string
  ns_cites :: "string list"
  ns_redacted :: bool
  ns_at_ms :: u64

datatype NarratorError = LoadShedding | NarratorValidation string

fun NarratorError_user_message :: "NarratorError \<Rightarrow> string" where
  "NarratorError_user_message LoadShedding = ''narrator is shedding load''"
| "NarratorError_user_message (NarratorValidation m) = m"

record Narrator =
  nr_recent :: "NarratorSummary list"
  nr_max_recent :: nat
  nr_shedding :: bool

definition Narrator_new :: Narrator where
  "Narrator_new = \<lparr>nr_recent = [], nr_max_recent = 50, nr_shedding = False\<rparr>"

definition set_load_shedding :: "bool \<Rightarrow> Narrator \<Rightarrow> Narrator" where
  "set_load_shedding on n = n\<lparr>nr_shedding := on\<rparr>"

definition narrate ::
    "string \<Rightarrow> string \<Rightarrow> string list \<Rightarrow> bool \<Rightarrow> u64 \<Rightarrow> Narrator \<Rightarrow> (NarratorError + NarratorSummary) \<times> Narrator" where
  "narrate txt source cites redacted at_ms n =
     (if trim txt = [] \<or> trim source = []
      then (Inl (NarratorValidation ''summary text and source required''), n)
      else if nr_shedding n then (Inl LoadShedding, n)
      else
        let s = \<lparr>ns_text = txt, ns_source = source, ns_cites = cites, ns_redacted = redacted, ns_at_ms = at_ms\<rparr>;
            recent = nr_recent n @ [s] in
        (Inr s, n\<lparr>nr_recent := (if nr_max_recent n < length recent then tl recent else recent)\<rparr>))"

definition summarize_quest :: "QuestLog \<Rightarrow> string \<Rightarrow> Narrator \<Rightarrow> NarratorError + string" where
  "summarize_quest log i n =
     (case QuestLog_get i log of
        None \<Rightarrow> Inl (NarratorValidation ''quest not found'')
      | Some q \<Rightarrow> Inr
          (''Quest '' @ [CHR 0x27] @ qe_title q @ [CHR 0x27] @ '' is '' @ QuestState_label (qe_state q) @ ''.''
           @ concat (map (\<lambda>c. [CHR 0x0A] @ ''- Clue ('' @ qc_cited_from c @ ''): '' @ qc_text c) (take 3 (rev (qe_clues q))))
           @ (if qe_state q = Inferred then [CHR 0x0A] @ ''(uncertainty: inferred, not yet observed)'' else [])
           @ (if qe_state q = UserCorrected then [CHR 0x0A] @ ''(uncertainty: user correction applied)'' else [])))"

definition summarize_tactical :: "TacticalHud \<Rightarrow> Narrator \<Rightarrow> string" where
  "summarize_tactical hud n =
     (case TacticalHud_current hud of
        None \<Rightarrow> ''No tactical snapshot available.''
      | Some s \<Rightarrow>
          ''Tactical: '' @ ts_room s @ '' | health '' @ show_nat (unat (ts_health_pct s)) @ ''% | energy ''
          @ show_nat (unat (ts_energy_pct s)) @ ''% | threat '' @ ts_threat_level s @ '' | nearby: ''
          @ (if ts_nearby_entities s = [] then ''none'' else str_join '', '' (ts_nearby_entities s)))"

section \<open>Redaction\<close>

definition narrator_markers :: "string list" where
  "narrator_markers = [''sk-'', ''sbp_'', ''Bearer '', ''password='', ''api_key='', ''secret='']"

definition NARRATOR_MARK :: string where "NARRATOR_MARK = ''[redacted]''"

definition ends_secret :: "char \<Rightarrow> bool" where
  "ends_secret c \<longleftrightarrow> is_ws c \<or> c = CHR '','' \<or> c = CHR '';'' \<or> c = CHR 0x22 \<or> c = CHR 0x27"

text \<open>The loop for one marker, which starts again at the beginning of the text after every replacement.\<close>

partial_function (option) redact_marker :: "string \<Rightarrow> string \<Rightarrow> bool \<Rightarrow> (string \<times> bool) option" where
  "redact_marker m out redacted =
     (case find_text (to_lower out) (to_lower m) of
        None \<Rightarrow> Some (out, redacted)
      | Some idx \<Rightarrow>
          redact_marker m
            (take idx out @ NARRATOR_MARK @ dropWhile (\<lambda>c. \<not> ends_secret c) (drop (idx + length m) out)) True)"

fun redact_markers :: "string list \<Rightarrow> string \<times> bool \<Rightarrow> (string \<times> bool) option" where
  "redact_markers [] s = Some s"
| "redact_markers (m # ms) s = Option.bind (redact_marker m (fst s) (snd s)) (redact_markers ms)"

definition narrator_redact :: "string \<Rightarrow> (string \<times> bool) option" where
  "narrator_redact input = redact_markers narrator_markers (input, False)"

section \<open>Facts on redaction\<close>

lemma find_text_skip:
  "k \<noteq> [] \<Longrightarrow> \<not> str_contains u k \<Longrightarrow> u = [] \<or> last u \<notin> set k \<Longrightarrow>
    find_text (u @ s) k = map_option ((+) (length u)) (find_text s k)"
proof (induction u)
  case Nil
  show ?case by (simp add: option.map_ident)
next
  case (Cons c u)
  have "\<not> prefix k ((c # u) @ s)"
  proof
    assume "prefix k ((c # u) @ s)"
    then consider "prefix k (c # u)" | zs where "k = (c # u) @ zs" unfolding prefix_append by blast
    then show False
    proof cases
      case 1
      then show ?thesis using Cons.prems(2) by simp
    next
      case 2
      then have "set (c # u) \<subseteq> set k" by auto
      then show ?thesis using Cons.prems(3) last_in_set [of "c # u"] by blast
    qed
  qed
  moreover have "find_text (u @ s) k = map_option ((+) (length u)) (find_text s k)"
    using Cons by (cases "u = []") (auto simp: option.map_ident cong: option.map_cong)
  ultimately show ?case by (simp add: option.map_comp comp_def)
qed

lemma to_lower_mark: "to_lower NARRATOR_MARK = NARRATOR_MARK"
  by code_simp

lemma lower_contains_parts:
  assumes "apart k NARRATOR_MARK" and "str_contains (to_lower (a @ NARRATOR_MARK @ b)) k"
  shows "str_contains (to_lower a) k \<or> str_contains (to_lower b) k"
  using apart_around [OF assms(1), of "to_lower a" "to_lower b"] assms(2)
  by (auto simp: to_lower_append to_lower_mark)

lemma redact_marker_clean:
  assumes m: "apart (to_lower m) NARRATOR_MARK"
  shows "\<not> str_contains (to_lower u) (to_lower m) \<Longrightarrow> u = [] \<or> last u = CHR '']'' \<Longrightarrow>
    \<exists>out r. redact_marker m (u @ s) red = Some (out, r)
      \<and> \<not> str_contains (to_lower out) (to_lower m)
      \<and> (if str_contains (to_lower s) (to_lower m) then r else r = red \<and> out = u @ s)
      \<and> (\<forall>k. apart k NARRATOR_MARK \<longrightarrow> str_contains (to_lower out) k \<longrightarrow> str_contains (to_lower (u @ s)) k)"
proof (induction "length s" arbitrary: s u red rule: less_induct)
  case less
  let ?n = "to_lower m"
  have n: "?n \<noteq> []" "CHR '']'' \<notin> set ?n" using m by (simp_all add: apart_def NARRATOR_MARK_def)
  have low: "u = [] \<or> last (to_lower u) \<notin> set ?n"
    using less.prems(2) n(2) by (auto simp: to_lower_def last_map lower_char_def)
  have skip: "find_text (to_lower (u @ s)) ?n = map_option ((+) (length u)) (find_text (to_lower s) ?n)"
    using find_text_skip [OF n(1) less.prems(1), of "to_lower s"] low by (simp add: to_lower_append length_to_lower) (simp add: to_lower_def)
  show ?case
  proof (cases "find_text (to_lower s) ?n")
    case None
    then have "find_text (to_lower (u @ s)) ?n = None" using skip by simp
    moreover from this have "\<not> str_contains (to_lower (u @ s)) ?n" using find_text_None by blast
    moreover have "\<not> str_contains (to_lower s) ?n" using None find_text_None by blast
    moreover have "redact_marker m (u @ s) red = Some (u @ s, red)"
      using calculation(1) by (subst redact_marker.simps) (simp del: find_text_None)
    ultimately show ?thesis by simp
  next
    case (Some j)
    let ?rest = "dropWhile (\<lambda>c. \<not> ends_secret c) (drop (j + length m) s)" and ?u = "u @ take j s @ NARRATOR_MARK"
    have full: "find_text (to_lower (u @ s)) ?n = Some (length u + j)" using skip Some by simp
    have step: "redact_marker m (u @ s) red = redact_marker m (?u @ ?rest) True"
      by (subst redact_marker.simps) (simp add: full add.assoc)
    have bound: "j + length m \<le> length s" using find_text_bound [OF Some] by (simp add: length_to_lower)
    have "0 < length m" using n(1) by (cases m) (simp_all add: to_lower_def)
    then have shorter: "length ?rest < length s"
      using bound length_dropWhile_le [of "\<lambda>c. \<not> ends_secret c" "drop (j + length m) s"] unfolding length_drop by linarith
    have "\<not> str_contains (take (length u + j) (to_lower (u @ s))) ?n" by (rule find_text_first [OF full n(1)]) simp
    then have "\<not> str_contains (to_lower (u @ take j s)) ?n" by (simp add: take_to_lower)
    then have clean: "\<not> str_contains (to_lower ?u) ?n"
      using lower_contains_parts [OF m, of "u @ take j s" "[]"] n(1) by (auto simp: to_lower_def)
    have "last ?u = CHR '']''" by (simp add: NARRATOR_MARK_def)
    then obtain out r where o: "redact_marker m (?u @ ?rest) True = Some (out, r)"
        "\<not> str_contains (to_lower out) ?n" "r"
        "\<forall>k. apart k NARRATOR_MARK \<longrightarrow> str_contains (to_lower out) k \<longrightarrow> str_contains (to_lower (?u @ ?rest)) k"
      using less.hyps [OF shorter clean, of True] by (auto split: if_splits)
    have "str_contains (to_lower (u @ s)) k" if "apart k NARRATOR_MARK" "str_contains (to_lower out) k" for k
    proof -
      have "str_contains (to_lower (u @ take j s)) k \<or> str_contains (to_lower ?rest) k"
        using lower_contains_parts [OF that(1), of "u @ take j s" ?rest] o(4) that by simp
      moreover have "sublist (to_lower (u @ take j s)) (to_lower (u @ s))"
        by (metis append.assoc append_take_drop_id sublist_append_rightI to_lower_append)
      moreover have "sublist (to_lower ?rest) (to_lower (u @ s))"
      proof -
        have "suffix ?rest (u @ s)"
          by (meson suffix_dropWhile suffix_drop suffix_order.trans suffix_appendI)
        then show ?thesis unfolding suffix_def by (metis sublist_append_leftI to_lower_append)
      qed
      ultimately show ?thesis unfolding str_contains_iff by (meson sublist_order.order_trans)
    qed
    moreover have "str_contains (to_lower s) ?n" using Some find_text_None [of "to_lower s" ?n] by simp
    ultimately show ?thesis using o(1-3) step by auto
  qed
qed

lemma markers_apart: "list_all (\<lambda>m. apart (to_lower m) NARRATOR_MARK) narrator_markers"
  by code_simp

lemmas redact_marker_whole = redact_marker_clean [where u = "[]", unfolded append_Nil, OF _ _ disjI1 [OF refl]]

lemma redact_markers_clean:
  "list_all (\<lambda>m. apart (to_lower m) NARRATOR_MARK) ms \<Longrightarrow>
    \<exists>out r. redact_markers ms (s, red) = Some (out, r)
      \<and> list_all (\<lambda>m. \<not> str_contains (to_lower out) (to_lower m)) ms
      \<and> (if list_ex (\<lambda>m. str_contains (to_lower s) (to_lower m)) ms then r else r = red \<and> out = s)
      \<and> (\<forall>k. apart k NARRATOR_MARK \<longrightarrow> str_contains (to_lower out) k \<longrightarrow> str_contains (to_lower s) k)"
proof (induction ms arbitrary: s red)
  case (Cons m ms)
  have m: "apart (to_lower m) NARRATOR_MARK" and ms: "list_all (\<lambda>m. apart (to_lower m) NARRATOR_MARK) ms"
    using Cons.prems by simp_all
  have "\<not> str_contains (to_lower []) (to_lower m)" using m by (simp add: apart_def to_lower_def)
  from redact_marker_whole [OF m this, of s red]
  obtain o1 r1 where one: "redact_marker m s red = Some (o1, r1)" "\<not> str_contains (to_lower o1) (to_lower m)"
      "if str_contains (to_lower s) (to_lower m) then r1 else r1 = red \<and> o1 = s"
      "\<forall>k. apart k NARRATOR_MARK \<longrightarrow> str_contains (to_lower o1) k \<longrightarrow> str_contains (to_lower s) k"
    by blast
  from Cons.IH [OF ms, of o1 r1]
  obtain out r where more: "redact_markers ms (o1, r1) = Some (out, r)"
      "list_all (\<lambda>m. \<not> str_contains (to_lower out) (to_lower m)) ms"
      "if list_ex (\<lambda>m. str_contains (to_lower o1) (to_lower m)) ms then r else r = r1 \<and> out = o1"
      "\<forall>k. apart k NARRATOR_MARK \<longrightarrow> str_contains (to_lower out) k \<longrightarrow> str_contains (to_lower o1) k"
    by blast
  have clean: "\<not> str_contains (to_lower out) (to_lower m)" using more(4) one(2) m by blast
  have flag: "if list_ex (\<lambda>m. str_contains (to_lower s) (to_lower m)) (m # ms) then r else r = red \<and> out = s"
  proof (cases "str_contains (to_lower s) (to_lower m)")
    case True
    then show ?thesis using one(3) more(3) by (simp split: if_splits)
  next
    case False
    then have "r1 = red" "o1 = s" using one(3) by simp_all
    then show ?thesis using more(3) False by simp
  qed
  have run: "redact_markers (m # ms) (s, red) = Some (out, r)" using one(1) more(1) by simp
  have kept: "\<forall>k. apart k NARRATOR_MARK \<longrightarrow> str_contains (to_lower out) k \<longrightarrow> str_contains (to_lower s) k"
    using more(4) one(4) by blast
  show ?case
    by (rule exI [of _ out], rule exI [of _ r], intro conjI run flag kept) (simp add: clean more(2))
qed simp

section \<open>The list of recent summaries\<close>

definition narrator_bounded :: "Narrator \<Rightarrow> bool" where
  "narrator_bounded n \<longleftrightarrow> length (nr_recent n) \<le> nr_max_recent n"

lemma narrator_new_bounded: "narrator_bounded Narrator_new"
  by (simp add: narrator_bounded_def Narrator_new_def)

lemma narrate_bounded: "narrator_bounded n \<Longrightarrow> narrator_bounded (snd (narrate txt source cites redacted at n))"
  by (auto simp: narrator_bounded_def narrate_def Let_def)

lemma narrate_refused: "isl (fst (narrate txt source cites redacted at n)) \<Longrightarrow> snd (narrate txt source cites redacted at n) = n"
  by (auto simp: narrate_def Let_def split: if_splits)

section \<open>Properties\<close>

text \<open>
  C21: Redaction of a narration always ends, although its loop starts again from the beginning of the text after every
  replacement; no marker of a secret, in any letter case, is left in its result; it reports a redaction exactly when
  the text held a marker, and leaves a text without one as it was.
\<close>

theorem narration_redacted:
  "case narrator_redact input of
     None \<Rightarrow> False
   | Some (out, redacted) \<Rightarrow>
       list_all (\<lambda>m. \<not> str_contains (to_lower out) (to_lower m)) narrator_markers
       \<and> redacted = list_ex (\<lambda>m. str_contains (to_lower input) (to_lower m)) narrator_markers
       \<and> (if redacted then True else out = input)"
proof -
  obtain out r where "redact_markers narrator_markers (input, False) = Some (out, r)"
      "list_all (\<lambda>m. \<not> str_contains (to_lower out) (to_lower m)) narrator_markers"
      "if list_ex (\<lambda>m. str_contains (to_lower input) (to_lower m)) narrator_markers then r else r = False \<and> out = input"
    using redact_markers_clean [OF markers_apart, of input False] by blast
  then show ?thesis unfolding narrator_redact_def by (simp split: if_splits)
qed

end
