(* ===== verification/Import.thy ===== *)
theory Import
  imports Scan
begin

text \<open>
  Imports of profiles of other clients, \<open>wirecore/crates/wire-import/src/lib.rs\<close>: formats, limits, entry
  paths, the scanner of Mudlet files, plans and reports. SHA-256 and the test for a file are arguments.
  Paths are those of Unix.
\<close>

section \<open>Data\<close>

definition IMPORT_SCHEMA_VERSION :: u32 where "IMPORT_SCHEMA_VERSION = 1"

definition DEFAULT_MAX_IMPORT_BYTES :: nat where "DEFAULT_MAX_IMPORT_BYTES = 64 * 1024 * 1024"

definition MAX_ENTITY_DEPTH :: nat where "MAX_ENTITY_DEPTH = 64"

definition MAX_ENTRY_COUNT :: nat where "MAX_ENTRY_COUNT = 100000"

datatype SourceFormat = Mudlet | Mushclient | Tintin | ZmudCmud | GenericJson | GenericCsv | GenericYaml

fun SourceFormat_as_str :: "SourceFormat \<Rightarrow> string" where
  "SourceFormat_as_str Mudlet = ''mudlet''"
| "SourceFormat_as_str Mushclient = ''mushclient''"
| "SourceFormat_as_str Tintin = ''tintin''"
| "SourceFormat_as_str ZmudCmud = ''zmud_cmud''"
| "SourceFormat_as_str GenericJson = ''generic_json''"
| "SourceFormat_as_str GenericCsv = ''generic_csv''"
| "SourceFormat_as_str GenericYaml = ''generic_yaml''"

definition SourceFormat_is_verified :: "SourceFormat \<Rightarrow> bool" where
  "SourceFormat_is_verified f \<longleftrightarrow> f = Mudlet"

datatype ConflictPolicy = ImportWins | DestinationWins | KeepBoth

record ImportIssue =
  is_kind :: string
  is_path :: string
  is_detail :: string
  is_severity :: string

record ImportLimits =
  il_max_bytes :: nat
  il_max_depth :: nat
  il_max_entries :: nat

definition ImportLimits_default :: ImportLimits where
  "ImportLimits_default =
     \<lparr>il_max_bytes = DEFAULT_MAX_IMPORT_BYTES, il_max_depth = MAX_ENTITY_DEPTH, il_max_entries = MAX_ENTRY_COUNT\<rparr>"

record NormalizedItem =
  ni_id :: string
  ni_kind :: string
  ni_name :: string
  ni_payload :: string
  ni_enabled :: bool

record ConflictEntry =
  ce_id :: string
  ce_kind :: string
  ce_policy :: ConflictPolicy

record ImportPlan =
  ip_source_format :: SourceFormat
  ip_source_path :: string
  ip_source_hash :: string
  ip_normalized_items :: "NormalizedItem list"
  ip_warnings :: "ImportIssue list"
  ip_unsupported :: "ImportIssue list"
  ip_conflicts :: "ConflictEntry list"
  ip_automation_disabled :: bool
  ip_backup_path :: string
  ip_rollback_path :: string

record MigrationReport =
  mr_schema_version :: u32
  mr_source_format :: SourceFormat
  mr_source_hash :: string
  mr_imported_count :: nat
  mr_warning_count :: nat
  mr_unsupported_count :: nat
  mr_conflict_count :: nat
  mr_automation_disabled :: bool
  mr_backup_path :: string
  mr_rollback_path :: string
  mr_diagnostics_path :: "string option"
  mr_items :: "NormalizedItem list"
  mr_issues :: "ImportIssue list"

record ImportError =
  ie_code :: string
  ie_message :: string

definition ImportError_new :: "string \<Rightarrow> string \<Rightarrow> ImportError" where
  "ImportError_new code msg = \<lparr>ie_code = code, ie_message = msg\<rparr>"

record ParsedImport =
  pi_items :: "NormalizedItem list"
  pi_warnings :: "ImportIssue list"
  pi_unsupported :: "ImportIssue list"
  pi_conflicts :: "ConflictEntry list"

definition sha256_hex :: "(string \<Rightarrow> u8 list) \<Rightarrow> string \<Rightarrow> string" where
  "sha256_hex digest s = concat (map hex_byte (digest s))"

section \<open>Entry paths and limits\<close>

text \<open>The components of a relative path: a dot counts only at the start, empty parts do not count.\<close>

datatype Component = NormalPart string | CurDir | ParentDir

definition later_component :: "string \<Rightarrow> Component list" where
  "later_component w =
     (if w = [] \<or> w = ''.'' then [] else if w = ''..'' then [ParentDir] else [NormalPart w])"

definition components :: "string \<Rightarrow> Component list" where
  "components entry =
     (let ws = split_on (CHR ''/'') entry in
      (if hd ws = ''.'' then [CurDir] else later_component (hd ws)) @ concat (map later_component (tl ws)))"

fun push_components :: "Component list \<Rightarrow> string list \<Rightarrow> ImportError + string list" where
  "push_components [] parts = Inr parts"
| "push_components (NormalPart c # cs) parts = push_components cs (parts @ [c])"
| "push_components (CurDir # cs) parts = push_components cs parts"
| "push_components (ParentDir # cs) parts = Inl (ImportError_new ''traversal'' ''parent-directory entry path rejected'')"

definition sanitize_entry_path :: "string \<Rightarrow> ImportError + string" where
  "sanitize_entry_path entry =
     (if prefix ''/'' entry then Inl (ImportError_new ''traversal'' ''absolute entry path rejected'')
      else (case push_components (components entry) [] of
              Inl e \<Rightarrow> Inl e
            | Inr parts \<Rightarrow>
                if parts = [] then Inl (ImportError_new ''traversal'' ''empty entry path'')
                else Inr (str_join ''/'' parts)))"

definition enforce_limits :: "nat \<Rightarrow> nat \<Rightarrow> nat \<Rightarrow> ImportLimits \<Rightarrow> ImportError + unit" where
  "enforce_limits data_len depth entry_count limits =
     (if il_max_bytes limits < data_len
      then Inl (ImportError_new ''size_bound''
        (''import exceeds size bound: '' @ show_nat data_len @ '' > '' @ show_nat (il_max_bytes limits)))
      else if il_max_depth limits < depth
      then Inl (ImportError_new ''depth_bound''
        (''import exceeds depth bound: '' @ show_nat depth @ '' > '' @ show_nat (il_max_depth limits)))
      else if il_max_entries limits < entry_count
      then Inl (ImportError_new ''entry_bound''
        (''import exceeds entry bound: '' @ show_nat entry_count @ '' > '' @ show_nat (il_max_entries limits)))
      else Inr ())"

definition detect_format :: "string \<Rightarrow> SourceFormat" where
  "detect_format content =
     (let trimmed = dropWhile is_ws content; xml = prefix ''<?xml'' trimmed in
      if prefix ''<MUSHclient'' trimmed \<or> xml \<and> str_contains trimmed ''<MUSHclient'' then Mushclient
      else if (prefix ''<World'' trimmed \<or> xml \<and> str_contains trimmed ''<World'') \<and> str_contains trimmed ''Class''
      then ZmudCmud
      else if xml \<or> prefix ''<Mudlet'' trimmed \<or> prefix ''<mudlet'' trimmed then Mudlet
      else if prefix ''#'' trimmed \<and> str_contains trimmed ''tintin'' then Tintin
      else if prefix ''{'' trimmed \<or> prefix ''['' trimmed then GenericJson
      else if CHR '','' \<in> set trimmed \<and> CHR 0x0A \<in> set trimmed then GenericCsv
      else GenericYaml)"

section \<open>The scanner of Mudlet files\<close>

definition stops_name :: "char \<Rightarrow> bool" where
  "stops_name c \<longleftrightarrow> is_ws c \<or> c = CHR ''>'' \<or> c = CHR ''/''"

definition item_kinds :: "string list" where
  "item_kinds = [''trigger'', ''alias'', ''timer'', ''keybinding'', ''script'', ''variable'']"

definition silent_kinds :: "string list" where
  "silent_kinds = [''package'', ''module'', ''hostpackage'', ''regex'', ''command'', ''value'', ''name'']"

definition void_kinds :: "string list" where
  "void_kinds = [''br'', ''hr'', ''img'', ''input'']"

text \<open>The text up to the next tag makes the item; the second result is what is left to scan.\<close>

definition parse_simple_item :: "(string \<Rightarrow> u8 list) \<Rightarrow> string \<Rightarrow> string \<Rightarrow> NormalizedItem option \<times> string" where
  "parse_simple_item digest kind cs =
     (let rest = takeWhile (\<lambda>c. c \<noteq> CHR ''<'') cs;
          name = (if trim rest = [] then kind @ ''-'' @ take 8 (sha256_hex digest rest) else trim rest);
          i = kind @ ''-'' @ take 12 (sha256_hex digest rest) in
      (Some \<lparr>ni_id = i, ni_kind = kind, ni_name = name, ni_payload = trim rest, ni_enabled = False\<rparr>,
       dropWhile (\<lambda>c. c \<noteq> CHR ''<'') cs))"

record MudletScan =
  ms_items :: "NormalizedItem list"
  ms_unsupported :: "ImportIssue list"
  ms_depth :: nat
  ms_tags :: "string list"

text \<open>What the loop does with the name of a tag, and the text left after that.\<close>

definition mudlet_tag ::
    "(string \<Rightarrow> u8 list) \<Rightarrow> string \<Rightarrow> string \<Rightarrow> MudletScan \<Rightarrow> ImportError + MudletScan \<times> string" where
  "mudlet_tag digest name cs st =
     (let lower = to_lower name in
      if prefix ''/'' lower
      then Inr (st\<lparr>ms_depth := ms_depth st - 1, ms_tags := butlast (ms_tags st)\<rparr>, cs)
      else if lower = ''!doctype'' \<or> prefix ''?'' lower then Inr (st, cs)
      else if lower \<in> set void_kinds then Inr (st, cs)
      else if MAX_ENTITY_DEPTH < ms_depth st + 1
      then Inl (ImportError_new ''depth_bound'' ''Mudlet XML exceeds entity depth bound'')
      else
        let st1 = st\<lparr>ms_depth := ms_depth st + 1, ms_tags := ms_tags st @ [lower]\<rparr> in
        if lower \<in> set item_kinds
        then (case parse_simple_item digest lower cs of
                (None, cs1) \<Rightarrow> Inr (st1, cs1)
              | (Some item, cs1) \<Rightarrow> Inr (st1\<lparr>ms_items := ms_items st1 @ [item]\<rparr>, cs1))
        else if lower \<in> set silent_kinds \<or> lower = [] then Inr (st1, cs)
        else Inr (st1\<lparr>ms_unsupported := ms_unsupported st1 @
               [\<lparr>is_kind = ''unsupported_element'', is_path = ''mudlet/'' @ str_join ''/'' (ms_tags st1),
                 is_detail = ''element <'' @ name @ ''> reported, not silently dropped'',
                 is_severity = ''unsupported''\<rparr>]\<rparr>, cs))"

lemma mudlet_tag_rest: "mudlet_tag digest name cs st = Inr (st1, cs1) \<Longrightarrow> length cs1 \<le> length cs"
  by (auto simp: mudlet_tag_def parse_simple_item_def Let_def length_dropWhile_le split: if_splits)

function mudlet_loop :: "(string \<Rightarrow> u8 list) \<Rightarrow> string \<Rightarrow> MudletScan \<Rightarrow> ImportError + MudletScan" where
  "mudlet_loop digest [] st = Inr st"
| "mudlet_loop digest (c # cs) st =
     (if c \<noteq> CHR ''<'' then mudlet_loop digest cs st
      else (case mudlet_tag digest (takeWhile (\<lambda>d. \<not> stops_name d) cs) (tl (dropWhile (\<lambda>d. \<not> stops_name d) cs)) st of
              Inl e \<Rightarrow> Inl e
            | Inr (st1, cs1) \<Rightarrow> mudlet_loop digest cs1 st1))"
  by pat_completeness auto
termination
proof (relation "measure (\<lambda>(d, s, st). length s)")
  fix digest :: "string \<Rightarrow> u8 list" and c cs st p st1 cs1
  assume "mudlet_tag digest (takeWhile (\<lambda>d. \<not> stops_name d) cs) (tl (dropWhile (\<lambda>d. \<not> stops_name d) cs)) st = Inr p"
    and p: "(st1, cs1) = p"
  then have "length cs1 \<le> length (tl (dropWhile (\<lambda>d. \<not> stops_name d) cs))" using mudlet_tag_rest by blast
  also have "\<dots> \<le> length cs" using length_dropWhile_le [of "\<lambda>d. \<not> stops_name d" cs] by simp
  finally show "((digest, cs1, st1), digest, c # cs, st) \<in> measure (\<lambda>(d, s, st). length s)" by simp
qed simp_all

definition parse_mudlet :: "(string \<Rightarrow> u8 list) \<Rightarrow> string \<Rightarrow> ImportError + ParsedImport" where
  "parse_mudlet digest content =
     (case enforce_limits (length content) 1 1 ImportLimits_default of
        Inl e \<Rightarrow> Inl e
      | Inr _ \<Rightarrow>
          (case mudlet_loop digest content \<lparr>ms_items = [], ms_unsupported = [], ms_depth = 0, ms_tags = []\<rparr> of
             Inl e \<Rightarrow> Inl e
           | Inr st \<Rightarrow>
               if MAX_ENTRY_COUNT < length (ms_items st)
               then Inl (ImportError_new ''entry_bound'' ''Mudlet XML exceeds entry bound'')
               else Inr \<lparr>pi_items = ms_items st, pi_warnings = [], pi_unsupported = ms_unsupported st,
                         pi_conflicts = []\<rparr>))"

section \<open>Plans and reports\<close>

text \<open>Formats other than Mudlet's get a plan without items.\<close>

definition research_import :: "SourceFormat \<Rightarrow> string \<Rightarrow> ParsedImport" where
  "research_import format source_path =
     \<lparr>pi_items = [],
      pi_warnings = [\<lparr>is_kind = ''unverified_format'', is_path = source_path,
        is_detail = SourceFormat_as_str format @ '' is a research path; read-only analysis only'',
        is_severity = ''warning''\<rparr>],
      pi_unsupported = [\<lparr>is_kind = ''research_only'', is_path = source_path,
        is_detail = ''no apply without format certification'', is_severity = ''unsupported''\<rparr>],
      pi_conflicts = []\<rparr>"

definition plan_import :: "(string \<Rightarrow> u8 list) \<Rightarrow> string \<Rightarrow> string \<Rightarrow> string \<Rightarrow> string \<Rightarrow> ImportError + ImportPlan" where
  "plan_import digest source_path content backup_path rollback_path =
     (case enforce_limits (length content) 1 1 ImportLimits_default of
        Inl e \<Rightarrow> Inl e
      | Inr _ \<Rightarrow>
          let format = detect_format content; hash = sha256_hex digest content in
          (case (if format = Mudlet then parse_mudlet digest content
                 else Inr (research_import format source_path)) of
             Inl e \<Rightarrow> Inl e
           | Inr parsed \<Rightarrow> Inr
               \<lparr>ip_source_format = format, ip_source_path = source_path, ip_source_hash = hash,
                ip_normalized_items = pi_items parsed, ip_warnings = pi_warnings parsed,
                ip_unsupported = pi_unsupported parsed, ip_conflicts = pi_conflicts parsed,
                ip_automation_disabled = True, ip_backup_path = backup_path,
                ip_rollback_path = rollback_path\<rparr>))"

definition finalize_report :: "ImportPlan \<Rightarrow> string option \<Rightarrow> MigrationReport" where
  "finalize_report plan diagnostics_path =
     \<lparr>mr_schema_version = IMPORT_SCHEMA_VERSION, mr_source_format = ip_source_format plan,
      mr_source_hash = ip_source_hash plan, mr_imported_count = length (ip_normalized_items plan),
      mr_warning_count = length (ip_warnings plan), mr_unsupported_count = length (ip_unsupported plan),
      mr_conflict_count = length (ip_conflicts plan), mr_automation_disabled = ip_automation_disabled plan,
      mr_backup_path = ip_backup_path plan, mr_rollback_path = ip_rollback_path plan,
      mr_diagnostics_path = diagnostics_path, mr_items = ip_normalized_items plan,
      mr_issues = ip_warnings plan @ ip_unsupported plan\<rparr>"

definition assert_migration_allowed :: "nat \<Rightarrow> bool \<Rightarrow> ImportError + unit" where
  "assert_migration_allowed active_sessions user_approved =
     (if 0 < active_sessions \<and> \<not> user_approved
      then Inl (ImportError_new ''session_active''
        ''migration defers during active sessions unless the user stops sessions and approves'')
      else Inr ())"

definition rollback_check :: "(string \<Rightarrow> bool) \<Rightarrow> string \<Rightarrow> string \<Rightarrow> ImportError + unit" where
  "rollback_check is_file backup_path rollback_path =
     (if \<not> is_file backup_path then Inl (ImportError_new ''rollback_no_backup'' ''rollback requires an existing backup'')
      else if \<not> is_file rollback_path
      then Inl (ImportError_new ''rollback_no_destination'' ''rollback requires an existing destination'')
      else Inr ())"

section \<open>Facts on entry paths\<close>

lemma split_on_no_char: "w \<in> set (split_on c s) \<Longrightarrow> c \<notin> set w"
  by (induction s arbitrary: w) (auto split: list.splits if_splits)

lemma split_on_join:
  "ws \<noteq> [] \<Longrightarrow> list_all (\<lambda>w. c \<notin> set w) ws \<Longrightarrow> split_on c (str_join [c] ws) = ws"
  by (induction "[c]" ws rule: str_join.induct) (simp_all add: split_on_none split_on_line)

definition plain_part :: "string \<Rightarrow> bool" where
  "plain_part w \<longleftrightarrow> w \<noteq> [] \<and> w \<noteq> ''.'' \<and> w \<noteq> ''..'' \<and> CHR ''/'' \<notin> set w"

lemma push_components_append:
  "push_components (as @ bs) parts = (case push_components as parts of Inl e \<Rightarrow> Inl e | Inr qs \<Rightarrow> push_components bs qs)"
  by (induction as parts rule: push_components.induct) auto

lemma push_later:
  "push_components (concat (map later_component ws)) parts =
    (if ''..'' \<in> set ws then Inl (ImportError_new ''traversal'' ''parent-directory entry path rejected'')
     else Inr (parts @ filter (\<lambda>w. w \<noteq> [] \<and> w \<noteq> ''.'') ws))"
  by (induction ws arbitrary: parts) (auto simp: later_component_def)

lemma push_split:
  "push_components (components entry) [] =
    (if ''..'' \<in> set (split_on (CHR ''/'') entry)
     then Inl (ImportError_new ''traversal'' ''parent-directory entry path rejected'')
     else Inr (filter (\<lambda>w. w \<noteq> [] \<and> w \<noteq> ''.'') (split_on (CHR ''/'') entry)))"
proof -
  obtain w ws where ws: "split_on (CHR ''/'') entry = w # ws" using split_on_nonempty by (cases "split_on (CHR ''/'') entry") auto
  show ?thesis
  proof (cases "w = ''.''")
    case True
    then show ?thesis using push_later [of ws "[]"] by (simp add: components_def ws)
  next
    case False
    then show ?thesis using push_later [of "w # ws" "[]"] by (simp add: components_def ws)
  qed
qed

lemma sanitize_split:
  "sanitize_entry_path entry = Inr p \<longleftrightarrow>
    \<not> prefix ''/'' entry \<and> ''..'' \<notin> set (split_on (CHR ''/'') entry)
    \<and> (let ws = filter (\<lambda>w. w \<noteq> [] \<and> w \<noteq> ''.'') (split_on (CHR ''/'') entry) in ws \<noteq> [] \<and> p = str_join ''/'' ws)"
  by (auto simp: sanitize_entry_path_def push_split Let_def)

text \<open>
  How a path is resolved below a directory, which is a list of names: dots stay, two dots go up.
\<close>

definition enter :: "string list \<Rightarrow> string \<Rightarrow> string list" where
  "enter d w = (if w = [] \<or> w = ''.'' then d else if w = ''..'' then butlast d else d @ [w])"

definition resolve :: "string list \<Rightarrow> string \<Rightarrow> string list" where
  "resolve d path = foldl enter d (split_on (CHR ''/'') path)"

lemma enter_plain: "list_all plain_part ws \<Longrightarrow> foldl enter d ws = d @ ws"
  by (induction ws arbitrary: d) (simp_all add: enter_def plain_part_def)

lemma sanitized_parts:
  assumes "sanitize_entry_path entry = Inr p"
  obtains ws where "ws \<noteq> []" "list_all plain_part ws" "split_on (CHR ''/'') p = ws" "p = str_join ''/'' ws"
proof -
  let ?ws = "filter (\<lambda>w. w \<noteq> [] \<and> w \<noteq> ''.'') (split_on (CHR ''/'') entry)"
  have ws: "?ws \<noteq> []" "p = str_join ''/'' ?ws" "''..'' \<notin> set (split_on (CHR ''/'') entry)"
    using assms by (simp_all add: sanitize_split Let_def)
  have plain: "list_all plain_part ?ws"
    using ws(3) split_on_no_char unfolding list_all_iff plain_part_def by auto
  moreover from this have "list_all (\<lambda>w. CHR ''/'' \<notin> set w) ?ws" unfolding list_all_iff plain_part_def by simp
  then have "split_on (CHR ''/'') p = ?ws" unfolding ws(2) by (rule split_on_join [OF ws(1)])
  ultimately show ?thesis using that ws(1,2) by blast
qed

section \<open>Facts on the scanner\<close>

lemma lower_char_slash: "lower_char c = CHR ''/'' \<Longrightarrow> c = CHR ''/''"
proof (cases "65 \<le> (of_char c :: nat) \<and> (of_char c :: nat) \<le> 90")
  case True
  assume "lower_char c = CHR ''/''"
  then have "of_char (char_of ((of_char c :: nat) + 32) :: char) = (of_char (CHR ''/'') :: nat)"
    using True by (simp add: lower_char_def)
  moreover have "((of_char c :: nat) + 32) mod 256 = of_char c + 32" using True by simp
  ultimately have "(of_char c :: nat) + 32 = 47" by simp
  then show ?thesis using True by simp
qed (simp add: lower_char_def)

text \<open>A name ends before a slash, so the branch for closing tags is never taken.\<close>

lemma name_not_closing: "\<not> prefix ''/'' (to_lower (takeWhile (\<lambda>d. \<not> stops_name d) cs))"
proof
  assume "prefix ''/'' (to_lower (takeWhile (\<lambda>d. \<not> stops_name d) cs))"
  then obtain x xs where x: "takeWhile (\<lambda>d. \<not> stops_name d) cs = x # xs" "lower_char x = CHR ''/''"
    by (cases "takeWhile (\<lambda>d. \<not> stops_name d) cs") (auto simp: to_lower_def)
  then have "\<not> stops_name x" using set_takeWhileD [of x "\<lambda>d. \<not> stops_name d" cs] by simp
  then show False using lower_char_slash [OF x(2)] by (simp add: stops_name_def)
qed

text \<open>
  What the scan keeps: items are disabled and of the known kinds, and with the unsupported elements
  they are at most as many as the depth, which only grows.
\<close>

definition scan_inv :: "MudletScan \<Rightarrow> bool" where
  "scan_inv st \<longleftrightarrow>
     list_all (\<lambda>i. ni_enabled i = False \<and> ni_kind i \<in> set item_kinds) (ms_items st)
     \<and> length (ms_items st) + length (ms_unsupported st) \<le> ms_depth st \<and> ms_depth st \<le> MAX_ENTITY_DEPTH"

lemma mudlet_tag_inv:
  "scan_inv st \<Longrightarrow> \<not> prefix ''/'' (to_lower name) \<Longrightarrow>
    (case mudlet_tag digest name cs st of
       Inl e \<Rightarrow> ie_code e = ''depth_bound'' | Inr (st1, cs1) \<Rightarrow> scan_inv st1)"
  by (simp add: mudlet_tag_def parse_simple_item_def scan_inv_def ImportError_new_def Let_def)

lemma mudlet_loop_text: "c \<noteq> CHR ''<'' \<Longrightarrow> mudlet_loop digest (c # cs) st = mudlet_loop digest cs st"
  by simp

lemma mudlet_loop_tag:
  "mudlet_tag digest (takeWhile (\<lambda>d. \<not> stops_name d) cs) (tl (dropWhile (\<lambda>d. \<not> stops_name d) cs)) st = r \<Longrightarrow>
    mudlet_loop digest (CHR ''<'' # cs) st = (case r of Inl e \<Rightarrow> Inl e | Inr (st1, cs1) \<Rightarrow> mudlet_loop digest cs1 st1)"
  by simp

declare mudlet_loop.simps(2) [simp del]

lemma mudlet_loop_inv:
  "scan_inv st \<Longrightarrow>
    (case mudlet_loop digest s st of Inl e \<Rightarrow> ie_code e = ''depth_bound'' | Inr st1 \<Rightarrow> scan_inv st1)"
proof (induction digest s st rule: mudlet_loop.induct)
  case (2 digest c cs st)
  show ?case
  proof (cases "c = CHR ''<''")
    case False
    show ?thesis using "2.IH"(1) [OF False "2.prems"] unfolding mudlet_loop_text [OF False] .
  next
    case True
    let ?t = "mudlet_tag digest (takeWhile (\<lambda>d. \<not> stops_name d) cs) (tl (dropWhile (\<lambda>d. \<not> stops_name d) cs)) st"
    have tag: "case ?t of Inl e \<Rightarrow> ie_code e = ''depth_bound'' | Inr (st1, cs1) \<Rightarrow> scan_inv st1"
      by (rule mudlet_tag_inv [OF "2.prems" name_not_closing])
    show ?thesis
    proof (cases ?t)
      case (Inl e)
      then have "ie_code e = ''depth_bound''" using tag by (simp only: sum.case)
      then show ?thesis unfolding True mudlet_loop_tag [OF Inl] by simp
    next
      case (Inr p)
      obtain st1 cs1 where p: "p = (st1, cs1)" by (cases p)
      have "scan_inv st1" using tag unfolding Inr p by (simp only: sum.case prod.case)
      then show ?thesis
        using "2.IH"(2) [OF _ Inr p [symmetric]] True unfolding True mudlet_loop_tag [OF Inr] p by simp
    qed
  qed
qed simp

lemma scan_start: "scan_inv \<lparr>ms_items = [], ms_unsupported = [], ms_depth = 0, ms_tags = []\<rparr>"
  by (simp add: scan_inv_def)

text \<open>Elements that are opened and closed again deepen the scan twice.\<close>

lemma pair_scan:
  "mudlet_loop digest (''<a></a>'' @ s) st =
    (if MAX_ENTITY_DEPTH < ms_depth st + 2
     then Inl (ImportError_new ''depth_bound'' ''Mudlet XML exceeds entity depth bound'')
     else mudlet_loop digest s
       (st\<lparr>ms_unsupported := ms_unsupported st @
             [\<lparr>is_kind = ''unsupported_element'', is_path = ''mudlet/'' @ str_join ''/'' (ms_tags st @ [''a'']),
               is_detail = ''element <'' @ ''a'' @ ''> reported, not silently dropped'',
               is_severity = ''unsupported''\<rparr>],
           ms_depth := ms_depth st + 2, ms_tags := ms_tags st @ [''a'', []]\<rparr>))"
  by (simp add: mudlet_loop.simps(2) mudlet_tag_def stops_name_def is_ws_def to_lower_def lower_char_def
      void_kinds_def item_kinds_def silent_kinds_def Let_def)

lemma pairs_scan:
  "isl (mudlet_loop digest (concat (replicate n ''<a></a>'')) st) = (0 < n \<and> MAX_ENTITY_DEPTH < ms_depth st + 2 * n)"
proof (induction n arbitrary: st)
  case (Suc n)
  have "concat (replicate (Suc n) ''<a></a>'') = ''<a></a>'' @ concat (replicate n ''<a></a>'')" by simp
  then show ?case using Suc by (simp only: pair_scan) (auto simp: MAX_ENTITY_DEPTH_def)
qed simp

section \<open>Properties\<close>

text \<open>
  C11: Entry paths stay inside. A path that is accepted names something strictly below the directory it is resolved
  in, and is itself accepted unchanged; a path is refused only when it is absolute, has a part of two dots, or
  has no part but empty ones and dots.
\<close>

theorem sanitized_paths_confined:
  "(case sanitize_entry_path entry of
      Inl e \<Rightarrow> ie_code e = ''traversal''
        \<and> (prefix ''/'' entry \<or> ''..'' \<in> set (split_on (CHR ''/'') entry)
            \<or> list_all (\<lambda>w. w = [] \<or> w = ''.'') (split_on (CHR ''/'') entry))
    | Inr p \<Rightarrow> strict_prefix d (resolve d p) \<and> sanitize_entry_path p = Inr p)"
proof (cases "sanitize_entry_path entry")
  case (Inl e)
  let ?ws = "split_on (CHR ''/'') entry"
  have "ie_code e = ''traversal''"
    using Inl by (auto simp: sanitize_entry_path_def push_split ImportError_new_def split: if_splits)
  moreover have "prefix ''/'' entry \<or> ''..'' \<in> set ?ws \<or> list_all (\<lambda>w. w = [] \<or> w = ''.'') ?ws"
  proof (rule ccontr)
    assume n: "\<not> ?thesis"
    then have "filter (\<lambda>w. w \<noteq> [] \<and> w \<noteq> ''.'') ?ws \<noteq> []"
      unfolding filter_empty_conv list_all_iff by blast
    then show False using n Inl unfolding sanitize_entry_path_def push_split by simp
  qed
  ultimately show ?thesis unfolding Inl by simp
next
  case (Inr p)
  obtain ws where ws: "ws \<noteq> []" "list_all plain_part ws" "split_on (CHR ''/'') p = ws" "p = str_join ''/'' ws"
    by (rule sanitized_parts [OF Inr])
  have keep: "filter (\<lambda>w. w \<noteq> [] \<and> w \<noteq> ''.'') ws = ws" and up: "''..'' \<notin> set ws"
    using ws(2) by (auto simp: list_all_iff plain_part_def intro: filter_True)
  have "\<not> prefix ''/'' p"
  proof
    assume "prefix ''/'' p"
    then obtain q where "p = CHR ''/'' # q" by (auto simp: prefix_def)
    then have "[] \<in> set ws" using ws(3) by auto
    then show False using ws(2) by (auto simp: list_all_iff plain_part_def)
  qed
  then have "sanitize_entry_path p = Inr p" using ws keep up by (simp add: sanitize_split)
  moreover have "resolve d p = d @ ws" using enter_plain [OF ws(2)] ws(3) by (simp add: resolve_def)
  ultimately show ?thesis using Inr ws(1) by (simp add: strict_prefix_def)
qed

text \<open>
  C12: Imports start disabled. Whatever the file, a plan has only disabled items of the six known kinds, marks its
  automation as disabled, lists every conflict as none, and has items only for the verified format; a file that
  gets no plan is refused for its size or its depth. The items and the reported elements are at most 64 in all.
\<close>

theorem imports_start_disabled:
  "(case plan_import digest source_path content backup_path rollback_path of
      Inl e \<Rightarrow> ie_code e \<in> {''size_bound'', ''depth_bound''}
    | Inr plan \<Rightarrow>
        ip_automation_disabled plan \<and> ip_source_hash plan = sha256_hex digest content
        \<and> list_all (\<lambda>i. ni_enabled i = False \<and> ni_kind i \<in> set item_kinds) (ip_normalized_items plan)
        \<and> length (ip_normalized_items plan) + length (ip_unsupported plan) \<le> MAX_ENTITY_DEPTH
        \<and> ip_conflicts plan = []
        \<and> (if SourceFormat_is_verified (ip_source_format plan) then True else ip_normalized_items plan = []))"
proof (cases "enforce_limits (length content) 1 1 ImportLimits_default")
  case (Inl e)
  then have "ie_code e = ''size_bound''"
    by (auto simp: enforce_limits_def ImportLimits_default_def ImportError_new_def MAX_ENTITY_DEPTH_def
        MAX_ENTRY_COUNT_def split: if_splits)
  then show ?thesis using Inl by (simp add: plan_import_def)
next
  case (Inr u)
  show ?thesis
  proof (cases "detect_format content = Mudlet")
    case False
    then show ?thesis
      using Inr by (simp add: plan_import_def research_import_def SourceFormat_is_verified_def Let_def MAX_ENTITY_DEPTH_def)
  next
    case True
    show ?thesis
    proof (cases "mudlet_loop digest content \<lparr>ms_items = [], ms_unsupported = [], ms_depth = 0, ms_tags = []\<rparr>")
      case (Inl e)
      then have "ie_code e = ''depth_bound''" using mudlet_loop_inv [OF scan_start, of digest content] by simp
      then show ?thesis using Inl Inr True by (simp add: plan_import_def parse_mudlet_def Let_def)
    next
      case st: (Inr st)
      then have inv: "scan_inv st" using mudlet_loop_inv [OF scan_start, of digest content] by simp
      then have "\<not> MAX_ENTRY_COUNT < length (ms_items st)"
        by (simp add: scan_inv_def MAX_ENTRY_COUNT_def MAX_ENTITY_DEPTH_def)
      then show ?thesis
        using st Inr True inv
        by (simp add: plan_import_def parse_mudlet_def scan_inv_def SourceFormat_is_verified_def Let_def)
    qed
  qed
qed

text \<open>
  Closing tags deepen the scan. A Mudlet file of \<open>n\<close> empty elements, none inside another, is refused
  exactly when there are more than 32 of them, as if they were nested.
\<close>

theorem closing_tags_deepen:
  "isl (parse_mudlet digest (concat (replicate n ''<a></a>''))) = (32 < n)"
proof (cases "32 < n")
  case False
  then have "length (concat (replicate n ''<a></a>'')) \<le> 7 * 32" by (simp add: length_concat sum_list_replicate)
  then have ok: "enforce_limits (length (concat (replicate n ''<a></a>''))) 1 1 ImportLimits_default = Inr ()"
    by (simp add: enforce_limits_def ImportLimits_default_def DEFAULT_MAX_IMPORT_BYTES_def MAX_ENTITY_DEPTH_def MAX_ENTRY_COUNT_def)
  let ?r = "mudlet_loop digest (concat (replicate n ''<a></a>'')) \<lparr>ms_items = [], ms_unsupported = [], ms_depth = 0, ms_tags = []\<rparr>"
  have "\<not> isl ?r" using False by (simp add: pairs_scan MAX_ENTITY_DEPTH_def)
  then obtain st where st: "?r = Inr st" by (cases ?r) auto
  then have "scan_inv st" using mudlet_loop_inv [OF scan_start, of digest "concat (replicate n ''<a></a>'')"] by simp
  then show ?thesis using ok st False by (simp add: parse_mudlet_def scan_inv_def MAX_ENTITY_DEPTH_def MAX_ENTRY_COUNT_def)
next
  case True
  let ?r = "mudlet_loop digest (concat (replicate n ''<a></a>'')) \<lparr>ms_items = [], ms_unsupported = [], ms_depth = 0, ms_tags = []\<rparr>"
  have "isl ?r" using True by (simp add: pairs_scan MAX_ENTITY_DEPTH_def)
  then obtain e where "?r = Inl e" by (cases ?r) auto
  then show ?thesis using True by (simp add: parse_mudlet_def split: sum.split)
qed

text \<open>
  Two elements with the same text get the same identifier, and no conflict is reported.
\<close>

theorem duplicates_not_reported:
  "(case parse_mudlet digest ''<trigger></trigger><trigger></trigger>'' of
      Inl e \<Rightarrow> False
    | Inr p \<Rightarrow> map ni_id (pi_items p) = replicate 2 (''trigger-'' @ take 12 (sha256_hex digest [])) \<and> pi_conflicts p = [])"
proof -
  have lim: "enforce_limits (length ''<trigger></trigger><trigger></trigger>'') 1 1 ImportLimits_default = Inr ()"
    by (simp add: enforce_limits_def ImportLimits_default_def DEFAULT_MAX_IMPORT_BYTES_def MAX_ENTITY_DEPTH_def MAX_ENTRY_COUNT_def)
  show ?thesis
    unfolding parse_mudlet_def lim
    by (simp add: mudlet_loop.simps(2) mudlet_tag_def parse_simple_item_def stops_name_def is_ws_def to_lower_def
        lower_char_def void_kinds_def item_kinds_def silent_kinds_def MAX_ENTITY_DEPTH_def MAX_ENTRY_COUNT_def
        trim_def numeral_2_eq_2 Let_def)
qed

end
