(* ===== verification/Packages.thy ===== *)
theory Packages
  imports Prelude
begin

text \<open>
  Packages: manifests, the permission firewall, the quarantine of hooks and the check of content hashes, in the
  core (\<open>wirecore/crates/wire-packages/src/lib.rs\<close>) and in its Qt mirror
  (\<open>src/wiremudder/packages/package_boundary.h\<close>, names with \<open>Qt\<close>). A \<open>BTreeSet\<close> and a \<open>QSet\<close> are sets.
\<close>

section \<open>The core\<close>

definition PACKAGES_SCHEMA_VERSION :: u32 where "PACKAGES_SCHEMA_VERSION = 1"

datatype Permission =
    Filesystem | Network | Microphone | AiEgress | SecretsPermission | RoutingPermission | UpdaterPermission | TelemetryPermission | Ui
  | CommandSend | MemoryPermission | Renderer | Audio

definition Permission_all :: "Permission list" where
  "Permission_all =
     [Filesystem, Network, Microphone, AiEgress, SecretsPermission, RoutingPermission, UpdaterPermission, TelemetryPermission, Ui,
      CommandSend, MemoryPermission, Renderer, Audio]"

datatype PackageProvenance = UserLocal string string | Signed string string

datatype UpdatePolicy = Never | Manual | Auto u32

record Compatibility =
  co_wiremudder :: string
  co_mudlet :: string

record PackageManifest =
  pm_name :: string
  pm_version :: string
  pm_provenance :: PackageProvenance
  pm_license :: string
  pm_content_sha256 :: string
  pm_requested_permissions :: "Permission set"
  pm_update_policy :: UpdatePolicy
  pm_compatibility :: Compatibility

record Approval =
  apv_approved_permissions :: "Permission set"
  apv_approved_at :: string

datatype PermissionDecision = Granted | DeniedPermission string | NeedsApproval

record PermissionFirewall =
  fw_granted :: "Permission set"

definition PermissionFirewall_new :: PermissionFirewall where
  "PermissionFirewall_new = \<lparr>fw_granted = {}\<rparr>"

definition PermissionFirewall_grant :: "Permission set \<Rightarrow> PermissionFirewall \<Rightarrow> PermissionFirewall" where
  "PermissionFirewall_grant perms fw = fw\<lparr>fw_granted := fw_granted fw \<union> perms\<rparr>"

definition PermissionFirewall_is_granted :: "Permission \<Rightarrow> PermissionFirewall \<Rightarrow> bool" where
  "PermissionFirewall_is_granted p fw \<longleftrightarrow> p \<in> fw_granted fw"

fun p_name :: "Permission \<Rightarrow> string" where
  "p_name Filesystem = ''filesystem''"
| "p_name Network = ''network''"
| "p_name Microphone = ''microphone''"
| "p_name AiEgress = ''ai_egress''"
| "p_name SecretsPermission = ''secrets''"
| "p_name RoutingPermission = ''routing''"
| "p_name UpdaterPermission = ''updater''"
| "p_name TelemetryPermission = ''telemetry''"
| "p_name Ui = ''ui''"
| "p_name CommandSend = ''command_send''"
| "p_name MemoryPermission = ''memory''"
| "p_name Renderer = ''renderer''"
| "p_name Audio = ''audio''"

definition PermissionFirewall_decide :: "Permission \<Rightarrow> PermissionFirewall \<Rightarrow> PermissionDecision" where
  "PermissionFirewall_decide p fw =
     (if p \<in> fw_granted fw then Granted
      else DeniedPermission (''permission '' @ p_name p @ '' not granted (default deny)''))"

definition PermissionFirewall_expansion :: "Permission set \<Rightarrow> PermissionFirewall \<Rightarrow> Permission set" where
  "PermissionFirewall_expansion requested fw = requested - fw_granted fw"

record Quarantine =
  qa_quarantined :: "string set"

definition Quarantine_new :: Quarantine where
  "Quarantine_new = \<lparr>qa_quarantined = {}\<rparr>"

definition Quarantine_quarantine :: "string \<Rightarrow> Quarantine \<Rightarrow> Quarantine" where
  "Quarantine_quarantine hook q = q\<lparr>qa_quarantined := insert hook (qa_quarantined q)\<rparr>"

definition Quarantine_is_quarantined :: "string \<Rightarrow> Quarantine \<Rightarrow> bool" where
  "Quarantine_is_quarantined hook q \<longleftrightarrow> hook \<in> qa_quarantined q"

definition Quarantine_release :: "string \<Rightarrow> Quarantine \<Rightarrow> Quarantine" where
  "Quarantine_release hook q = q\<lparr>qa_quarantined := qa_quarantined q - {hook}\<rparr>"

datatype ImportState = ImportDisabled | PendingConfirmation | ImportEnabled

datatype HashVerification = Verified | Mismatch string string

definition verify_content_hash :: "string \<Rightarrow> string \<Rightarrow> HashVerification" where
  "verify_content_hash expected actual =
     (if to_lower expected = to_lower actual then Verified else Mismatch expected actual)"

section \<open>The Qt mirror\<close>

fun permissionName :: "Permission \<Rightarrow> string" where
  "permissionName Filesystem = ''filesystem''"
| "permissionName Network = ''network''"
| "permissionName Microphone = ''microphone''"
| "permissionName AiEgress = ''ai_egress''"
| "permissionName SecretsPermission = ''secrets''"
| "permissionName RoutingPermission = ''routing''"
| "permissionName UpdaterPermission = ''updater''"
| "permissionName TelemetryPermission = ''telemetry''"
| "permissionName Ui = ''ui''"
| "permissionName CommandSend = ''command_send''"
| "permissionName MemoryPermission = ''memory''"
| "permissionName Renderer = ''renderer''"
| "permissionName Audio = ''audio''"

definition permissionFromName :: "string \<Rightarrow> Permission" where
  "permissionFromName name =
     (case map_of
        [(''filesystem'', Filesystem), (''network'', Network), (''microphone'', Microphone), (''ai_egress'', AiEgress),
         (''secrets'', SecretsPermission), (''routing'', RoutingPermission), (''updater'', UpdaterPermission),
         (''telemetry'', TelemetryPermission), (''ui'', Ui), (''command_send'', CommandSend),
         (''memory'', MemoryPermission), (''renderer'', Renderer), (''audio'', Audio)] name of
        None \<Rightarrow> Filesystem
      | Some p \<Rightarrow> p)"

record PackageManifestQt =
  pq_name :: string
  pq_version :: string
  pq_provenance :: string
  pq_license :: string
  pq_contentSha256 :: string
  pq_requestedPermissions :: "Permission set"
  pq_updatePolicy :: string
  pq_wiremudderCompat :: string
  pq_mudletCompat :: string

datatype DecisionQt = GrantedQt | DeniedQt | NeedsApprovalQt

record PermissionFirewallQt =
  fq_granted :: "Permission set"

definition PermissionFirewallQt_new :: PermissionFirewallQt where
  "PermissionFirewallQt_new = \<lparr>fq_granted = {}\<rparr>"

definition PermissionFirewallQt_grant :: "Permission set \<Rightarrow> PermissionFirewallQt \<Rightarrow> PermissionFirewallQt" where
  "PermissionFirewallQt_grant perms fw = fw\<lparr>fq_granted := fq_granted fw \<union> perms\<rparr>"

definition PermissionFirewallQt_isGranted :: "Permission \<Rightarrow> PermissionFirewallQt \<Rightarrow> bool" where
  "PermissionFirewallQt_isGranted p fw \<longleftrightarrow> p \<in> fq_granted fw"

definition PermissionFirewallQt_decide :: "Permission \<Rightarrow> PermissionFirewallQt \<Rightarrow> DecisionQt" where
  "PermissionFirewallQt_decide p fw = (if p \<in> fq_granted fw then GrantedQt else DeniedQt)"

text \<open>The loop over the requested permissions keeps those that are not granted.\<close>

definition PermissionFirewallQt_expansion :: "Permission set \<Rightarrow> PermissionFirewallQt \<Rightarrow> Permission set" where
  "PermissionFirewallQt_expansion requested fw = {p \<in> requested. p \<notin> fq_granted fw}"

record QuarantineQt =
  qq_quarantined :: "string set"

definition QuarantineQt_new :: QuarantineQt where
  "QuarantineQt_new = \<lparr>qq_quarantined = {}\<rparr>"

definition QuarantineQt_quarantine :: "string \<Rightarrow> QuarantineQt \<Rightarrow> QuarantineQt" where
  "QuarantineQt_quarantine hook q = q\<lparr>qq_quarantined := insert hook (qq_quarantined q)\<rparr>"

definition QuarantineQt_isQuarantined :: "string \<Rightarrow> QuarantineQt \<Rightarrow> bool" where
  "QuarantineQt_isQuarantined hook q \<longleftrightarrow> hook \<in> qq_quarantined q"

definition QuarantineQt_release :: "string \<Rightarrow> QuarantineQt \<Rightarrow> QuarantineQt" where
  "QuarantineQt_release hook q = q\<lparr>qq_quarantined := qq_quarantined q - {hook}\<rparr>"

definition verifyContentHashQt :: "string \<Rightarrow> string \<Rightarrow> bool" where
  "verifyContentHashQt expected actual \<longleftrightarrow> to_lower expected = to_lower actual"

section \<open>Core and mirror as machines\<close>

datatype package_op = GrantOp "Permission set" | QuarantineOp string | ReleaseOp string

fun package_step :: "package_op \<Rightarrow> PermissionFirewall \<times> Quarantine \<Rightarrow> PermissionFirewall \<times> Quarantine" where
  "package_step (GrantOp ps) (fw, q) = (PermissionFirewall_grant ps fw, q)"
| "package_step (QuarantineOp h) (fw, q) = (fw, Quarantine_quarantine h q)"
| "package_step (ReleaseOp h) (fw, q) = (fw, Quarantine_release h q)"

fun packageqt_step :: "package_op \<Rightarrow> PermissionFirewallQt \<times> QuarantineQt \<Rightarrow> PermissionFirewallQt \<times> QuarantineQt" where
  "packageqt_step (GrantOp ps) (fw, q) = (PermissionFirewallQt_grant ps fw, q)"
| "packageqt_step (QuarantineOp h) (fw, q) = (fw, QuarantineQt_quarantine h q)"
| "packageqt_step (ReleaseOp h) (fw, q) = (fw, QuarantineQt_release h q)"

text \<open>What a history says: the permissions ever granted, and whether the last word on a hook was its quarantine.\<close>

fun ever_granted :: "package_op list \<Rightarrow> Permission \<Rightarrow> bool" where
  "ever_granted [] p = False"
| "ever_granted (GrantOp ps # ops) p = (p \<in> ps \<or> ever_granted ops p)"
| "ever_granted (_ # ops) p = ever_granted ops p"

fun last_word :: "package_op list \<Rightarrow> string \<Rightarrow> bool \<Rightarrow> bool" where
  "last_word [] h now = now"
| "last_word (QuarantineOp k # ops) h now = last_word ops h (if k = h then True else now)"
| "last_word (ReleaseOp k # ops) h now = last_word ops h (if k = h then False else now)"
| "last_word (_ # ops) h now = last_word ops h now"

fun package_rel :: "PermissionFirewallQt \<times> QuarantineQt \<Rightarrow> PermissionFirewall \<times> Quarantine \<Rightarrow> bool" where
  "package_rel (f, q) (fw, r) \<longleftrightarrow> fq_granted f = fw_granted fw \<and> qq_quarantined q = qa_quarantined r"

interpretation package_mirror: simulation packageqt_step package_step "\<lambda>x. x" package_rel "\<lambda>_. True"
proof
  fix c a and x :: package_op
  assume "package_rel c a"
  then show "package_rel (packageqt_step x c) (package_step x a)"
    by (cases c; cases a; cases x)
      (simp_all add: PermissionFirewall_grant_def PermissionFirewallQt_grant_def Quarantine_quarantine_def
        QuarantineQt_quarantine_def Quarantine_release_def QuarantineQt_release_def)
qed

section \<open>Facts\<close>

lemma granted_run:
  "p \<in> fw_granted (fst (run package_step ops s)) \<longleftrightarrow> p \<in> fw_granted (fst s) \<or> ever_granted ops p"
proof (induction ops arbitrary: s)
  case (Cons x ops)
  then show ?case by (cases s; cases x) (auto simp: PermissionFirewall_grant_def)
qed simp

lemma quarantined_run:
  "h \<in> qa_quarantined (snd (run package_step ops s)) \<longleftrightarrow> last_word ops h (h \<in> qa_quarantined (snd s))"
proof (induction ops arbitrary: s)
  case (Cons x ops)
  then show ?case by (cases s; cases x) (auto simp: Quarantine_quarantine_def Quarantine_release_def)
qed simp

lemma mirror_run:
  "fq_granted (fst (run packageqt_step ops (PermissionFirewallQt_new, QuarantineQt_new)))
    = fw_granted (fst (run package_step ops (PermissionFirewall_new, Quarantine_new)))"
  "qq_quarantined (snd (run packageqt_step ops (PermissionFirewallQt_new, QuarantineQt_new)))
    = qa_quarantined (snd (run package_step ops (PermissionFirewall_new, Quarantine_new)))"
proof -
  have "package_rel (PermissionFirewallQt_new, QuarantineQt_new) (PermissionFirewall_new, Quarantine_new)"
    by (simp add: PermissionFirewall_new_def PermissionFirewallQt_new_def Quarantine_new_def QuarantineQt_new_def)
  from package_mirror.sim_run [OF this, of ops]
  have "package_rel (run packageqt_step ops (PermissionFirewallQt_new, QuarantineQt_new))
      (run package_step ops (PermissionFirewall_new, Quarantine_new))" by (simp add: list_all_iff)
  then show "fq_granted (fst (run packageqt_step ops (PermissionFirewallQt_new, QuarantineQt_new)))
      = fw_granted (fst (run package_step ops (PermissionFirewall_new, Quarantine_new)))"
    "qq_quarantined (snd (run packageqt_step ops (PermissionFirewallQt_new, QuarantineQt_new)))
      = qa_quarantined (snd (run package_step ops (PermissionFirewall_new, Quarantine_new)))"
    by (cases "run packageqt_step ops (PermissionFirewallQt_new, QuarantineQt_new)";
        cases "run package_step ops (PermissionFirewall_new, Quarantine_new)"; simp)+
qed

section \<open>Properties\<close>

text \<open>
  C13: Permissions are denied by default, in the core and in its Qt mirror alike. After any history a permission is
  granted exactly when some grant named it, and denied otherwise, never left for approval; a hook is quarantined
  exactly when the last word on it was its quarantine; what a request adds is what was never granted; and the
  two components agree on all of it.
\<close>

theorem packages_deny_by_default:
  "(let (fw, q) = run package_step ops (PermissionFirewall_new, Quarantine_new);
        (fq, r) = run packageqt_step ops (PermissionFirewallQt_new, QuarantineQt_new) in
    PermissionFirewall_decide p fw
      = (if ever_granted ops p then Granted
         else DeniedPermission (''permission '' @ p_name p @ '' not granted (default deny)''))
    \<and> PermissionFirewallQt_decide p fq = (if ever_granted ops p then GrantedQt else DeniedQt)
    \<and> PermissionFirewall_expansion requested fw = {x \<in> requested. ever_granted ops x = False}
    \<and> PermissionFirewallQt_expansion requested fq = {x \<in> requested. ever_granted ops x = False}
    \<and> Quarantine_is_quarantined h q = last_word ops h False
    \<and> QuarantineQt_isQuarantined h r = last_word ops h False)"
  using granted_run [of _ ops "(PermissionFirewall_new, Quarantine_new)"]
    quarantined_run [of h ops "(PermissionFirewall_new, Quarantine_new)"] mirror_run [of ops]
  by (auto simp: Let_def split_beta PermissionFirewall_decide_def PermissionFirewallQt_decide_def
      PermissionFirewall_expansion_def PermissionFirewallQt_expansion_def Quarantine_is_quarantined_def
      QuarantineQt_isQuarantined_def PermissionFirewall_new_def Quarantine_new_def)

text \<open>
  Names of permissions. The two components name them alike, and the Qt boundary reads every name back; any
  other name reads as the permission for the file system, which may be granted.
\<close>

theorem permission_names:
  "permissionName p = p_name p \<and> permissionFromName (p_name p) = p
    \<and> (if n \<in> set (map p_name Permission_all) then True else permissionFromName n = Filesystem)"
proof -
  have "permissionName p = p_name p \<and> permissionFromName (p_name p) = p"
    by (cases p) (simp_all add: permissionFromName_def)
  moreover have "n \<notin> set (map p_name Permission_all) \<Longrightarrow> permissionFromName n = Filesystem"
    unfolding permissionFromName_def Permission_all_def by simp
  ultimately show ?thesis by simp
qed

text \<open>The two checks of a content hash agree, and ignore the case of letters.\<close>

theorem hash_checks_agree: "(verify_content_hash e a = Verified) = verifyContentHashQt e a"
  by (simp add: verify_content_hash_def verifyContentHashQt_def)

end
