(* ===== verification/TokenBudget.thy ===== *)
theory TokenBudget
  imports Prelude Complex_Main
begin

text \<open>
  Token budgets, \<open>wirecore/crates/wire-token-budget/src/lib.rs\<close>: estimates, caps, the choice between local and
  remote models, degradation, the dashboard of usage, and the validation of what a model returns. A \<open>usize\<close> is
  64 bits wide; the decimal literals stand for the rationals of that value.
\<close>

definition TOKEN_BUDGET_SCHEMA_VERSION :: u32 where "TOKEN_BUDGET_SCHEMA_VERSION = 1"

definition DEFAULT_CONTEXT_CAP :: nat where "DEFAULT_CONTEXT_CAP = 4096"

definition DEFAULT_OUTPUT_CAP :: nat where "DEFAULT_OUTPUT_CAP = 512"

section \<open>Estimates and caps\<close>

definition estimate_tokens :: "string \<Rightarrow> nat" where
  "estimate_tokens t = (length t + 3) div 4"

definition estimate_tokens_bytes :: "string \<Rightarrow> nat" where
  "estimate_tokens_bytes t = (length t + 3) div 4"

record TokenBudget =
  tb_max_context_tokens :: nat
  tb_max_output_tokens :: nat
  tb_feature_caps :: "(string \<times> nat) list"

definition TokenBudget_default_full :: TokenBudget where
  "TokenBudget_default_full =
     \<lparr>tb_max_context_tokens = DEFAULT_CONTEXT_CAP, tb_max_output_tokens = DEFAULT_OUTPUT_CAP, tb_feature_caps = []\<rparr>"

definition cap_for :: "string \<Rightarrow> TokenBudget \<Rightarrow> nat" where
  "cap_for feature b = (case map_of (tb_feature_caps b) feature of Some cap \<Rightarrow> cap | None \<Rightarrow> tb_max_context_tokens b)"

definition usize_saturating_add :: "nat \<Rightarrow> nat \<Rightarrow> nat" where
  "usize_saturating_add m n = min (2 ^ 64 - 1) (m + n)"

definition fits :: "string \<Rightarrow> nat \<Rightarrow> string \<Rightarrow> TokenBudget \<Rightarrow> bool" where
  "fits feature used t b \<longleftrightarrow> usize_saturating_add used (estimate_tokens t) \<le> cap_for feature b"

section \<open>Routing and degradation\<close>

datatype RouteDecision = LocalSmall | LocalFull | RouteRemoteApproved | RouteNoSuggestion string

datatype BudgetTaskClass = Simple | Moderate | Complex

record RoutingContext =
  rx_task_class :: BudgetTaskClass
  rx_privacy_sensitive :: bool
  rx_risk_high :: bool
  rx_latency_budget_ms :: u64
  rx_est_cost_usd :: rat
  rx_remote_available :: bool
  rx_remote_approved :: bool
  rx_context_tokens :: nat
  rx_user_policy_allows_remote :: bool

definition decide_route :: "RoutingContext \<Rightarrow> RouteDecision" where
  "decide_route ctx =
     (if rx_privacy_sensitive ctx \<or> rx_risk_high ctx then LocalSmall
      else if DEFAULT_CONTEXT_CAP < rx_context_tokens ctx then RouteNoSuggestion ''context over local cap''
      else if rx_latency_budget_ms ctx < 50 then LocalSmall
      else
        let is_complex = (rx_task_class ctx = Complex);
            remote_ok = (rx_remote_available ctx \<and> rx_remote_approved ctx \<and> rx_user_policy_allows_remote ctx
              \<and> \<not> rx_privacy_sensitive ctx) in
        if is_complex \<and> remote_ok \<and> rx_est_cost_usd ctx < 1 / 100 then RouteRemoteApproved
        else if is_complex then LocalFull
        else if rx_latency_budget_ms ctx < 250 then LocalSmall
        else LocalFull)"

datatype Degradation = SmallerLocal | DegradeNoSuggestion string | StrongerApproved

datatype ProviderFailure = Slow | Unavailable | BudgetExceeded | PolicyDenied | Cancelled

fun degrade :: "ProviderFailure \<Rightarrow> bool \<Rightarrow> Degradation" where
  "degrade Slow remote_approved = SmallerLocal"
| "degrade Unavailable remote_approved = SmallerLocal"
| "degrade BudgetExceeded remote_approved = DegradeNoSuggestion ''token budget exceeded; no suggestion produced''"
| "degrade PolicyDenied remote_approved = DegradeNoSuggestion ''policy denied; no suggestion produced''"
| "degrade Cancelled remote_approved = (if remote_approved then StrongerApproved else SmallerLocal)"

section \<open>The dashboard\<close>

record UsageRecord =
  us_provider :: string
  us_model_family :: string
  us_feature :: string
  us_context_tokens :: nat
  us_output_tokens :: nat
  us_estimated_cost_usd_micros :: u64
  us_latency_ms :: u64
  us_cache_status :: string
  us_reason :: string
  us_profile_scope :: string

definition UsageRecord_new :: "string \<Rightarrow> string \<Rightarrow> UsageRecord" where
  "UsageRecord_new feature profile_scope =
     \<lparr>us_provider = [], us_model_family = [], us_feature = feature, us_context_tokens = 0, us_output_tokens = 0,
      us_estimated_cost_usd_micros = 0, us_latency_ms = 0, us_cache_status = ''none'', us_reason = [],
      us_profile_scope = profile_scope\<rparr>"

text \<open>The products are of 128 bits, which two factors of 64 bits never exceed; the sum is cut to 64 bits.\<close>

definition estimate_cost :: "u64 \<Rightarrow> u64 \<Rightarrow> UsageRecord \<Rightarrow> UsageRecord" where
  "estimate_cost per_million_input per_million_output r =
     r\<lparr>us_estimated_cost_usd_micros :=
         of_nat (us_context_tokens r * unat per_million_input div 1000000
               + us_output_tokens r * unat per_million_output div 1000000)\<rparr>"

datatype BudgetError = DashboardFull | BudgetInvalid string

record TokenDashboard =
  td_records :: "UsageRecord list"
  td_max_records :: nat

definition TokenDashboard_new :: "nat \<Rightarrow> TokenDashboard" where
  "TokenDashboard_new max_records =
     \<lparr>td_records = [], td_max_records = (if max_records = 0 then 1024 else max_records)\<rparr>"

definition TokenDashboard_record :: "UsageRecord \<Rightarrow> TokenDashboard \<Rightarrow> (BudgetError + unit) \<times> TokenDashboard" where
  "TokenDashboard_record r d =
     (if td_max_records d \<le> length (td_records d) then (Inl DashboardFull, d)
      else (Inr (), d\<lparr>td_records := td_records d @ [r]\<rparr>))"

definition total_estimated_cost_usd_micros :: "TokenDashboard \<Rightarrow> u64" where
  "total_estimated_cost_usd_micros d = sum_list (map us_estimated_cost_usd_micros (td_records d))"

definition total_tokens :: "TokenDashboard \<Rightarrow> nat" where
  "total_tokens d = sum_list (map (\<lambda>r. us_context_tokens r + us_output_tokens r) (td_records d))"

definition TokenDashboard_len :: "TokenDashboard \<Rightarrow> nat" where
  "TokenDashboard_len d = length (td_records d)"

definition TokenDashboard_is_empty :: "TokenDashboard \<Rightarrow> bool" where
  "TokenDashboard_is_empty d \<longleftrightarrow> td_records d = []"

section \<open>Validation of output\<close>

record OutputValidation =
  ov_ok :: bool
  ov_reasons :: "string list"

definition OutputValidation_pass :: OutputValidation where
  "OutputValidation_pass = \<lparr>ov_ok = True, ov_reasons = []\<rparr>"

definition OutputValidation_reject :: "string \<Rightarrow> OutputValidation" where
  "OutputValidation_reject reason = \<lparr>ov_ok = False, ov_reasons = [reason]\<rparr>"

definition leak_markers :: "string list" where
  "leak_markers = [''Bearer '', ''api_key='', ''token='', ''secret='', ''password='']"

definition validate_output :: "string \<Rightarrow> string list \<Rightarrow> bool \<Rightarrow> OutputValidation" where
  "validate_output t policy require_citation =
     (let reasons =
        (if trim t = [] then [''empty output''] else [])
        @ (if DEFAULT_OUTPUT_CAP * 4 < length t then [''output over budget''] else [])
        @ (if require_citation \<and> CHR ''['' \<notin> set t then [''missing citation''] else [])
        @ (if list_ex (str_contains t) leak_markers then [''secret leakage''] else [])
        @ map (\<lambda>cmd. ''policy command refused: '' @ cmd) (filter (str_contains t) policy) in
      if reasons = [] then OutputValidation_pass else \<lparr>ov_ok = False, ov_reasons = reasons\<rparr>)"

section \<open>The dashboard as a machine\<close>

definition dashboard_step :: "UsageRecord \<Rightarrow> TokenDashboard \<Rightarrow> TokenDashboard" where
  "dashboard_step r d = snd (TokenDashboard_record r d)"

definition dashboard_inv :: "TokenDashboard \<Rightarrow> bool" where
  "dashboard_inv d \<longleftrightarrow> length (td_records d) \<le> td_max_records d"

interpretation dashboard: machine_invariant dashboard_step dashboard_inv
  by unfold_locales (simp add: dashboard_step_def dashboard_inv_def TokenDashboard_record_def)

interpretation dashboard_log: append_only dashboard_step td_records
  by unfold_locales (simp add: dashboard_step_def TokenDashboard_record_def)

lemma dashboard_run:
  "dashboard_inv d \<Longrightarrow>
    run dashboard_step rs d = d\<lparr>td_records := td_records d @ take (td_max_records d - length (td_records d)) rs\<rparr>"
proof (induction rs arbitrary: d)
  case (Cons r rs)
  show ?case
  proof (cases "td_max_records d \<le> length (td_records d)")
    case True
    then show ?thesis using Cons by (simp add: dashboard_step_def TokenDashboard_record_def)
  next
    case False
    then obtain k where k: "td_max_records d - length (td_records d) = Suc k" by (metis Suc_diff_Suc not_le)
    have "dashboard_inv (dashboard_step r d)" by (rule dashboard.step_inv [OF Cons.prems])
    from Cons.IH [OF this] show ?thesis
      using False k by (simp add: dashboard_step_def TokenDashboard_record_def) (simp add: Suc_diff_Suc diff_Suc)
  qed
qed simp

section \<open>Properties\<close>

text \<open>
  What the validation of an answer accepts: exactly the texts that are not blank, are within the budget, have a
  citation where one is required, and hold none of the secret markers and none of the refused commands. A
  refusal gives at least one reason.
\<close>

theorem validated_output_is_safe:
  "ov_ok (validate_output t policy cite)
    = (trim t \<noteq> [] \<and> length t \<le> DEFAULT_OUTPUT_CAP * 4 \<and> (cite = False \<or> CHR ''['' \<in> set t)
       \<and> list_all (\<lambda>k. str_contains t k = False) (leak_markers @ policy))
   \<and> ov_ok (validate_output t policy cite) = (ov_reasons (validate_output t policy cite) = [])"
  by (auto simp: validate_output_def Let_def OutputValidation_pass_def list_all_iff list_ex_iff filter_empty_conv)

text \<open>
  The dashboard is bounded and keeps what it accepted. After any sequence of records on a fresh dashboard it holds
  the first of them, in order, up to its limit, and the cost it totals is theirs.
\<close>

theorem dashboard_keeps_first:
  "(let d = run dashboard_step rs (TokenDashboard_new n); limit = (if n = 0 then 1024 else n) in
    td_records d = take limit rs \<and> TokenDashboard_len d \<le> limit
    \<and> total_estimated_cost_usd_micros d = sum_list (map us_estimated_cost_usd_micros (take limit rs)))"
proof -
  have "dashboard_inv (TokenDashboard_new n)" by (simp add: dashboard_inv_def TokenDashboard_new_def)
  from dashboard_run [OF this, of rs] show ?thesis
    by (simp add: TokenDashboard_new_def TokenDashboard_len_def total_estimated_cost_usd_micros_def Let_def)
qed

text \<open>The estimated cost is exact while the exact cost is below 64 bits, and is cut to 64 bits otherwise.\<close>

theorem cost_exact_or_cut:
  "(let cost = us_context_tokens r * unat a div 1000000 + us_output_tokens r * unat b div 1000000 in
    unat (us_estimated_cost_usd_micros (estimate_cost a b r)) = cost mod 2 ^ 64)"
  by (simp add: estimate_cost_def Let_def unat_of_nat del: of_nat_add)

end
