(* ===== verification/Debugger.thy ===== *)
theory Debugger
  imports Prelude "HOL-Library.Product_Lexorder"
begin

text \<open>
  The script tools, \<open>wirecore/crates/wire-debugger/src/lib.rs\<close>: the forge of macros and triggers, the lab that
  replays fixtures, the inspector of variables with its timeline, the diagnoses on approved evidence, and the
  statistics of slow scripts. The handler of a replay is a function with a state of its own, and the elapsed
  time before each event is an argument.
\<close>

definition DEBUG_SCHEMA_VERSION :: u32 where "DEBUG_SCHEMA_VERSION = 1"

definition EVENT_RING_CAPACITY :: nat where "EVENT_RING_CAPACITY = 256"

definition MAX_VARIABLES :: nat where "MAX_VARIABLES = 512"

definition MAX_MACRO_LEN :: nat where "MAX_MACRO_LEN = 4096"

definition MAX_REPLAY_STEPS :: nat where "MAX_REPLAY_STEPS = 4096"

definition DEFAULT_EXEC_BUDGET_MS :: u64 where "DEFAULT_EXEC_BUDGET_MS = 100"

datatype DebugDenial =
    DebugNotApproved | UnavailableDependency | DebugTimeout | DebugCancelled | MalformedInput | DuplicateRequest
  | DeniedPolicy | BudgetExhausted | OversizedInput

datatype DraftKind = Macro | Trigger

fun draft_kind_pos :: "DraftKind \<Rightarrow> nat" where
  "draft_kind_pos Macro = 0"
| "draft_kind_pos Trigger = 1"

lemma draft_kind_pos_inject: "draft_kind_pos a = draft_kind_pos b \<longleftrightarrow> a = b"
  by (cases a; cases b) simp_all

instantiation DraftKind :: linorder
begin

definition less_eq_DraftKind :: "DraftKind \<Rightarrow> DraftKind \<Rightarrow> bool" where
  "less_eq_DraftKind a b \<longleftrightarrow> draft_kind_pos a \<le> draft_kind_pos b"

definition less_DraftKind :: "DraftKind \<Rightarrow> DraftKind \<Rightarrow> bool" where
  "less_DraftKind a b \<longleftrightarrow> draft_kind_pos a < draft_kind_pos b"

instance
  by standard (auto simp: less_eq_DraftKind_def less_DraftKind_def draft_kind_pos_inject)

end

section \<open>The forge\<close>

record AutomationDraft =
  ad_id :: string
  ad_kind :: DraftKind
  ad_name :: string
  ad_body :: string
  ad_approved :: bool
  ad_preview_only :: bool
  ad_created_at_ms :: u64

definition AutomationDraft_is_runnable :: "AutomationDraft \<Rightarrow> bool" where
  "AutomationDraft_is_runnable d \<longleftrightarrow> ad_approved d \<and> \<not> ad_preview_only d"

type_synonym MacroForge = "(string \<times> AutomationDraft) list"

definition MacroForge_create ::
    "string \<Rightarrow> DraftKind \<Rightarrow> string \<Rightarrow> string \<Rightarrow> u64 \<Rightarrow> MacroForge \<Rightarrow> (DebugDenial + AutomationDraft) \<times> MacroForge" where
  "MacroForge_create i kind name body at_ms forge =
     (if i = [] \<or> name = [] \<or> body = [] then (Inl MalformedInput, forge)
      else if MAX_MACRO_LEN < length body then (Inl OversizedInput, forge)
      else if map_of forge i \<noteq> None then (Inl DuplicateRequest, forge)
      else
        let d = \<lparr>ad_id = i, ad_kind = kind, ad_name = name, ad_body = body, ad_approved = False,
              ad_preview_only = True, ad_created_at_ms = at_ms\<rparr> in
        (Inr d, bt_insert i d forge))"

definition MacroForge_approve :: "string \<Rightarrow> MacroForge \<Rightarrow> (DebugDenial + unit) \<times> MacroForge" where
  "MacroForge_approve i forge =
     (case map_of forge i of
        None \<Rightarrow> (Inl MalformedInput, forge)
      | Some d \<Rightarrow>
          if ad_approved d then (Inl DuplicateRequest, forge)
          else (Inr (), AList.update i (d\<lparr>ad_approved := True, ad_preview_only := False\<rparr>) forge))"

definition MacroForge_get :: "string \<Rightarrow> MacroForge \<Rightarrow> AutomationDraft option" where
  "MacroForge_get i forge = map_of forge i"

definition MacroForge_list :: "MacroForge \<Rightarrow> AutomationDraft list" where
  "MacroForge_list forge = map snd forge"

section \<open>The lab\<close>

record FixtureEvent =
  fe_at_step :: u64
  fe_line :: string
  fe_matches :: string
  fe_expect :: "string option"

record ReplayFixture =
  rf_id :: string
  rf_name :: string
  rf_events :: "FixtureEvent list"

text \<open>The loop of \<open>validate\<close>: \<open>first\<close> is the test for index 0, \<open>last\<close> the step before.\<close>

fun steps_valid :: "bool \<Rightarrow> u64 option \<Rightarrow> FixtureEvent list \<Rightarrow> bool" where
  "steps_valid first prev [] = True"
| "steps_valid first prev (ev # evs) =
     (if (case prev of None \<Rightarrow> False | Some p \<Rightarrow> fe_at_step ev \<le> p) then False
      else if fe_at_step ev = 0 \<and> \<not> first then False
      else steps_valid False (Some (fe_at_step ev)) evs)"

definition ReplayFixture_validate :: "ReplayFixture \<Rightarrow> DebugDenial + unit" where
  "ReplayFixture_validate f =
     (if rf_id f = [] \<or> rf_name f = [] then Inl MalformedInput
      else if MAX_REPLAY_STEPS < length (rf_events f) then Inl OversizedInput
      else if steps_valid True None (rf_events f) then Inr () else Inl MalformedInput)"

record ReplayRun =
  rr_fixture_id :: string
  rr_steps_executed :: nat
  rr_steps_matched :: nat
  rr_denied :: "DebugDenial option"
  rr_finished :: bool
  rr_effects :: "string list"

record TriggerLab =
  tl_fixtures :: "(string \<times> ReplayFixture) list"
  tl_runs :: "ReplayRun list"

definition TriggerLab_new :: TriggerLab where
  "TriggerLab_new = \<lparr>tl_fixtures = [], tl_runs = []\<rparr>"

definition TriggerLab_add_fixture :: "ReplayFixture \<Rightarrow> TriggerLab \<Rightarrow> (DebugDenial + unit) \<times> TriggerLab" where
  "TriggerLab_add_fixture f lab =
     (case ReplayFixture_validate f of
        Inl e \<Rightarrow> (Inl e, lab)
      | Inr _ \<Rightarrow>
          if map_of (tl_fixtures lab) (rf_id f) \<noteq> None then (Inl DuplicateRequest, lab)
          else (Inr (), lab\<lparr>tl_fixtures := bt_insert (rf_id f) f (tl_fixtures lab)\<rparr>))"

text \<open>The effect a matched event leaves.\<close>

definition recorded_effect :: "FixtureEvent \<Rightarrow> string \<Rightarrow> string" where
  "recorded_effect ev effect =
     (case fe_expect ev of
        None \<Rightarrow> effect
      | Some expect \<Rightarrow>
          if expect \<noteq> effect then ''MISMATCH expect='' @ expect @ '' got='' @ effect else effect)"

fun replay_loop ::
    "(FixtureEvent \<Rightarrow> 'h \<Rightarrow> string option \<times> 'h) \<Rightarrow> (nat \<Rightarrow> u64) \<Rightarrow> u64 \<Rightarrow> nat \<Rightarrow> FixtureEvent list \<Rightarrow> 'h
     \<Rightarrow> nat \<Rightarrow> string list \<Rightarrow> (DebugDenial + nat \<times> string list) \<times> 'h" where
  "replay_loop handle elapsed budget i [] h matched effects = (Inr (matched, effects), h)"
| "replay_loop handle elapsed budget i (ev # evs) h matched effects =
     (if budget < elapsed i then (Inl BudgetExhausted, h)
      else (case handle ev h of
              (None, h1) \<Rightarrow> replay_loop handle elapsed budget (Suc i) evs h1 matched effects
            | (Some effect, h1) \<Rightarrow>
                replay_loop handle elapsed budget (Suc i) evs h1 (Suc matched) (effects @ [recorded_effect ev effect])))"

definition TriggerLab_replay ::
    "string \<Rightarrow> (FixtureEvent \<Rightarrow> 'h \<Rightarrow> string option \<times> 'h) \<Rightarrow> 'h \<Rightarrow> (nat \<Rightarrow> u64) \<Rightarrow> u64 \<Rightarrow> TriggerLab
     \<Rightarrow> (DebugDenial + ReplayRun) \<times> TriggerLab \<times> 'h" where
  "TriggerLab_replay fixture_id handle h elapsed budget lab =
     (case map_of (tl_fixtures lab) fixture_id of
        None \<Rightarrow> (Inl MalformedInput, lab, h)
      | Some f \<Rightarrow>
          (case replay_loop handle elapsed budget 0 (rf_events f) h 0 [] of
             (Inl e, h1) \<Rightarrow> (Inl e, lab, h1)
           | (Inr (matched, effects), h1) \<Rightarrow>
               let r = \<lparr>rr_fixture_id = fixture_id, rr_steps_executed = length (rf_events f),
                     rr_steps_matched = matched, rr_denied = None, rr_finished = True, rr_effects = effects\<rparr>;
                   runs = tl_runs lab @ [r] in
               (Inr r, lab\<lparr>tl_runs := (if EVENT_RING_CAPACITY < length runs then tl runs else runs)\<rparr>, h1)))"

section \<open>The inspector\<close>

record ObservedVariable =
  vr_name :: string
  vr_scope :: string
  vr_value :: "string option"

record DebugEvent =
  dv_seq :: u64
  dv_at_ms :: u64
  dv_source :: string
  dv_line :: string
  dv_redacted :: bool

record ScriptDebugger =
  sg_variables :: "(string \<times> ObservedVariable) list"
  sg_timeline :: "DebugEvent list"
  sg_next_seq :: u64

definition ScriptDebugger_new :: ScriptDebugger where
  "ScriptDebugger_new = \<lparr>sg_variables = [], sg_timeline = [], sg_next_seq = 1\<rparr>"

definition set_variable :: "string \<Rightarrow> string \<Rightarrow> string option \<Rightarrow> ScriptDebugger \<Rightarrow> (DebugDenial + unit) \<times> ScriptDebugger" where
  "set_variable name scope v g =
     (if name = [] then (Inl MalformedInput, g)
      else if MAX_VARIABLES \<le> length (sg_variables g) \<and> map_of (sg_variables g) name = None
      then (Inl BudgetExhausted, g)
      else (Inr (), g\<lparr>sg_variables := bt_insert name
              \<lparr>vr_name = name, vr_scope = scope, vr_value = (if scope = ''private'' then None else v)\<rparr>
              (sg_variables g)\<rparr>))"

definition ScriptDebugger_variable :: "string \<Rightarrow> ScriptDebugger \<Rightarrow> ObservedVariable option" where
  "ScriptDebugger_variable name g = map_of (sg_variables g) name"

definition push_event :: "u64 \<Rightarrow> string \<Rightarrow> string \<Rightarrow> bool \<Rightarrow> ScriptDebugger \<Rightarrow> ScriptDebugger" where
  "push_event at_ms source line redacted g =
     (let events = sg_timeline g @
            [\<lparr>dv_seq = sg_next_seq g, dv_at_ms = at_ms, dv_source = source, dv_line = line, dv_redacted = redacted\<rparr>] in
      g\<lparr>sg_timeline := (if EVENT_RING_CAPACITY < length events then tl events else events),
        sg_next_seq := sg_next_seq g + 1\<rparr>)"

section \<open>Diagnoses and patches\<close>

record AiDiagnosis =
  ag_id :: string
  ag_evidence :: "string list"
  ag_hypothesis :: string
  ag_reproduction :: string
  ag_patch_plan :: string
  ag_tests :: "string list"
  ag_risk :: string
  ag_rollback :: string
  ag_self_certified :: bool

record AiDebugger =
  ai_diagnoses :: "AiDiagnosis list"
  ai_approved_evidence :: "(string \<times> string list) list"

definition AiDebugger_new :: AiDebugger where
  "AiDebugger_new = \<lparr>ai_diagnoses = [], ai_approved_evidence = []\<rparr>"

definition approve_evidence :: "string \<Rightarrow> string list \<Rightarrow> AiDebugger \<Rightarrow> (DebugDenial + unit) \<times> AiDebugger" where
  "approve_evidence i evidence a =
     (if i = [] \<or> evidence = [] then (Inl MalformedInput, a)
      else if map_of (ai_approved_evidence a) i \<noteq> None then (Inl DuplicateRequest, a)
      else (Inr (), a\<lparr>ai_approved_evidence := bt_insert i evidence (ai_approved_evidence a)\<rparr>))"

definition AiDebugger_diagnose ::
    "string \<Rightarrow> string \<Rightarrow> string \<Rightarrow> string \<Rightarrow> string \<Rightarrow> string list \<Rightarrow> string \<Rightarrow> string \<Rightarrow> AiDebugger
     \<Rightarrow> (DebugDenial + AiDiagnosis) \<times> AiDebugger" where
  "AiDebugger_diagnose i evidence_id hypothesis reproduction patch_plan tests risk rollback a =
     (case map_of (ai_approved_evidence a) evidence_id of
        None \<Rightarrow> (Inl DeniedPolicy, a)
      | Some evidence \<Rightarrow>
          if i = [] \<or> hypothesis = [] \<or> reproduction = [] \<or> patch_plan = [] \<or> risk = [] \<or> rollback = []
          then (Inl MalformedInput, a)
          else if list_ex (\<lambda>d. ag_id d = i) (ai_diagnoses a) then (Inl DuplicateRequest, a)
          else
            let d = \<lparr>ag_id = i, ag_evidence = evidence, ag_hypothesis = hypothesis, ag_reproduction = reproduction,
                  ag_patch_plan = patch_plan, ag_tests = tests, ag_risk = risk, ag_rollback = rollback,
                  ag_self_certified = False\<rparr>;
                ds = ai_diagnoses a @ [d] in
            (Inr d, a\<lparr>ai_diagnoses := (if EVENT_RING_CAPACITY < length ds then tl ds else ds)\<rparr>))"

record PatchProposal =
  pt_id :: string
  pt_summary :: string
  pt_files :: "string list"
  pt_validated :: bool

definition PatchProposal_propose :: "string \<Rightarrow> string \<Rightarrow> string list \<Rightarrow> PatchProposal" where
  "PatchProposal_propose i summary files =
     \<lparr>pt_id = i, pt_summary = summary, pt_files = files, pt_validated = False\<rparr>"

definition mark_validated :: "PatchProposal \<Rightarrow> PatchProposal" where
  "mark_validated p = p\<lparr>pt_validated := True\<rparr>"

section \<open>Slow scripts\<close>

record BudgetSample =
  bs_run_id :: string
  bs_kind :: DraftKind
  bs_name :: string
  bs_elapsed_ms :: u64
  bs_budget_ms :: u64
  bs_over_budget :: bool

record SlowOffender =
  so_name :: string
  so_kind :: DraftKind
  so_samples :: nat
  so_p95_ms :: u64
  so_worst_ms :: u64

type_synonym PerformanceStats = "BudgetSample list"

definition PerformanceStats_record ::
    "string \<Rightarrow> DraftKind \<Rightarrow> string \<Rightarrow> u64 \<Rightarrow> u64 \<Rightarrow> PerformanceStats \<Rightarrow> PerformanceStats" where
  "PerformanceStats_record run_id kind name elapsed budget st =
     st @ [\<lparr>bs_run_id = run_id, bs_kind = kind, bs_name = name, bs_elapsed_ms = elapsed, bs_budget_ms = budget,
            bs_over_budget = (budget < elapsed)\<rparr>]"

definition add_sample ::
    "BudgetSample \<Rightarrow> ((string \<times> DraftKind) \<times> u64 list) list \<Rightarrow> ((string \<times> DraftKind) \<times> u64 list) list" where
  "add_sample s m =
     (if bs_over_budget s
      then bt_insert (bs_name s, bs_kind s)
        ((case map_of m (bs_name s, bs_kind s) of None \<Rightarrow> [] | Some ts \<Rightarrow> ts) @ [bs_elapsed_ms s]) m
      else m)"

text \<open>
  \<open>ceil(n * 0.95) - 1\<close>: the product is an integer only for multiples of 20, where the doubles give it exactly,
  and is far from the next integer otherwise.
\<close>

definition p95_index :: "nat \<Rightarrow> nat" where
  "p95_index n = (19 * n + 19) div 20 - 1"

definition offender :: "(string \<times> DraftKind) \<times> u64 list \<Rightarrow> SlowOffender" where
  "offender e =
     (let times = sort (snd e) in
      \<lparr>so_name = fst (fst e), so_kind = snd (fst e), so_samples = length times,
       so_p95_ms = (if p95_index (length times) < length times then times ! p95_index (length times) else 0),
       so_worst_ms = (if times = [] then 0 else last times)\<rparr>)"

text \<open>A stable sort by the reversed key: the greatest first.\<close>

definition slow_offenders :: "PerformanceStats \<Rightarrow> SlowOffender list" where
  "slow_offenders st =
     sort_key (\<lambda>o1. - uint (so_worst_ms o1)) (map offender (foldl (\<lambda>m s. add_sample s m) [] st))"

section \<open>Facts on the forge\<close>

datatype forge_op = FCreate string DraftKind string string u64 | FApprove string

fun forge_step :: "forge_op \<Rightarrow> MacroForge \<Rightarrow> MacroForge" where
  "forge_step (FCreate i k n b t) f = snd (MacroForge_create i k n b t f)"
| "forge_step (FApprove i) f = snd (MacroForge_approve i f)"

text \<open>What happens to one draft: its body is fixed when it is created, and an approval makes it runnable.\<close>

fun draft_step :: "string \<Rightarrow> forge_op \<Rightarrow> (string \<times> bool) option \<Rightarrow> (string \<times> bool) option" where
  "draft_step i (FCreate j k n b t) d =
     (if i = j \<and> d = None \<and> i \<noteq> [] \<and> n \<noteq> [] \<and> b \<noteq> [] \<and> length b \<le> MAX_MACRO_LEN then Some (b, False) else d)"
| "draft_step i (FApprove j) d = (if i = j then map_option (\<lambda>(b, _). (b, True)) d else d)"

definition draft_view :: "string \<Rightarrow> MacroForge \<Rightarrow> (string \<times> bool) option" where
  "draft_view i f = map_option (\<lambda>d. (ad_body d, AutomationDraft_is_runnable d)) (map_of f i)"

definition forge_inv :: "MacroForge \<Rightarrow> bool" where
  "forge_inv f \<longleftrightarrow> (\<forall>i d. map_of f i = Some d \<longrightarrow> ad_preview_only d = (\<not> ad_approved d))"

definition draft_rel :: "string \<Rightarrow> MacroForge \<Rightarrow> (string \<times> bool) option \<Rightarrow> bool" where
  "draft_rel i f d \<longleftrightarrow> forge_inv f \<and> draft_view i f = d"

lemma draft_rel_step: "draft_rel i f d \<Longrightarrow> draft_rel i (forge_step x f) (draft_step i x d)"
proof (cases x)
  case (FCreate j k n b t)
  assume "draft_rel i f d"
  then show ?thesis
    by (auto simp: FCreate draft_rel_def draft_view_def forge_inv_def MacroForge_create_def AutomationDraft_is_runnable_def Let_def)
next
  case (FApprove j)
  assume r: "draft_rel i f d"
  show ?thesis
  proof (cases "map_of f j")
    case None
    then show ?thesis using r by (auto simp: FApprove draft_rel_def draft_view_def MacroForge_approve_def)
  next
    case (Some e)
    have "ad_preview_only e = (\<not> ad_approved e)" using r Some by (simp add: draft_rel_def forge_inv_def)
    then show ?thesis
      using r Some
      by (auto simp: FApprove draft_rel_def draft_view_def forge_inv_def MacroForge_approve_def AutomationDraft_is_runnable_def)
  qed
qed

interpretation forge: simulation forge_step "draft_step i" "\<lambda>x. x" "draft_rel i" "\<lambda>_. True" for i
  by unfold_locales (rule draft_rel_step)

section \<open>Facts on the lab\<close>

lemma steps_valid_later: "steps_valid False (Some p) evs = sorted_wrt (<) (p # map fe_at_step evs)"
proof (induction evs arbitrary: p)
  case (Cons ev evs)
  have "p < fe_at_step ev \<Longrightarrow> fe_at_step ev \<noteq> 0" by (metis word_not_simps(1))
  then show ?case using Cons by (auto simp: not_le)
qed simp

text \<open>A fixture is in order exactly when its steps strictly increase; the test for a step 0 adds nothing.\<close>

lemma steps_valid_sorted: "steps_valid True None evs = sorted_wrt (<) (map fe_at_step evs)"
  by (cases evs) (simp_all add: steps_valid_later)

lemma replay_loop_spec:
  "(\<And>j. elapsed j \<le> budget) \<Longrightarrow>
    replay_loop (\<lambda>ev h. (f ev, h)) elapsed budget i evs h matched effects =
      (Inr (matched + length (filter (\<lambda>ev. f ev \<noteq> None) evs),
            effects @ map (\<lambda>ev. recorded_effect ev (the (f ev))) (filter (\<lambda>ev. f ev \<noteq> None) evs)), h)"
  by (induction evs arbitrary: i matched effects) (auto simp: not_less [symmetric] split: option.splits)

section \<open>Facts on the inspector and the diagnoses\<close>

datatype inspector_op = ISet string string "string option" | IEvent u64 string string bool

fun inspector_step :: "inspector_op \<Rightarrow> ScriptDebugger \<Rightarrow> ScriptDebugger" where
  "inspector_step (ISet n sc v) g = snd (set_variable n sc v g)"
| "inspector_step (IEvent t src l r) g = push_event t src l r g"

definition inspector_inv :: "ScriptDebugger \<Rightarrow> bool" where
  "inspector_inv g \<longleftrightarrow>
     bt_sorted (sg_variables g) \<and> length (sg_variables g) \<le> MAX_VARIABLES \<and> length (sg_timeline g) \<le> EVENT_RING_CAPACITY
     \<and> (\<forall>n v. map_of (sg_variables g) n = Some v \<longrightarrow> vr_name v = n \<and> (vr_scope v = ''private'' \<longrightarrow> vr_value v = None))"

interpretation inspector: machine_invariant inspector_step inspector_inv
proof
  fix g and x :: inspector_op
  assume inv: "inspector_inv g"
  show "inspector_inv (inspector_step x g)"
  proof (cases x)
    case (ISet n sc v)
    have "length (bt_insert n w (sg_variables g)) \<le> MAX_VARIABLES"
      if "\<not> (MAX_VARIABLES \<le> length (sg_variables g) \<and> map_of (sg_variables g) n = None)" for w
      using inv that length_bt_insert [of "sg_variables g" n w] by (auto simp: inspector_inv_def)
    then show ?thesis using inv by (simp add: ISet inspector_inv_def set_variable_def bt_sorted_insert)
  qed (use inv in \<open>auto simp: inspector_inv_def push_event_def Let_def\<close>)
qed

datatype diagnosis_op =
    DApprove string "string list" | DDiagnose string string string string string "string list" string string

fun diagnosis_step :: "diagnosis_op \<Rightarrow> AiDebugger \<Rightarrow> AiDebugger" where
  "diagnosis_step (DApprove i e) a = snd (approve_evidence i e a)"
| "diagnosis_step (DDiagnose i e h r p ts k b) a = snd (AiDebugger_diagnose i e h r p ts k b a)"

definition diagnosis_inv :: "AiDebugger \<Rightarrow> bool" where
  "diagnosis_inv a \<longleftrightarrow>
     length (ai_diagnoses a) \<le> EVENT_RING_CAPACITY
     \<and> (\<forall>d \<in> set (ai_diagnoses a). \<not> ag_self_certified d \<and> ag_evidence d \<in> ran (map_of (ai_approved_evidence a)))"

interpretation diagnoses: machine_invariant diagnosis_step diagnosis_inv
proof
  fix a and x :: diagnosis_op
  assume inv: "diagnosis_inv a"
  show "diagnosis_inv (diagnosis_step x a)"
  proof (cases x)
    case (DApprove i e)
    then show ?thesis using inv by (auto simp: diagnosis_inv_def approve_evidence_def ran_map_upd)
  next
    case (DDiagnose i e h r p ts k b)
    have last: "d \<in> set (tl xs) \<Longrightarrow> d \<in> set xs" for d and xs :: "AiDiagnosis list" by (cases xs) auto
    show ?thesis
      using inv by (auto simp: DDiagnose diagnosis_inv_def AiDebugger_diagnose_def Let_def ranI dest!: last split: option.split)
  qed
qed

section \<open>Facts on slow scripts\<close>

abbreviation sample_key :: "BudgetSample \<Rightarrow> string \<times> DraftKind" where
  "sample_key s \<equiv> (bs_name s, bs_kind s)"

abbreviation offender_key :: "SlowOffender \<Rightarrow> string \<times> DraftKind" where
  "offender_key r \<equiv> (so_name r, so_kind r)"

text \<open>The times over budget of one script, in the order of the samples.\<close>

definition slow_times :: "string \<times> DraftKind \<Rightarrow> PerformanceStats \<Rightarrow> u64 list" where
  "slow_times k st = map bs_elapsed_ms (filter (\<lambda>s. bs_over_budget s \<and> sample_key s = k) st)"

definition grouped :: "PerformanceStats \<Rightarrow> ((string \<times> DraftKind) \<times> u64 list) list" where
  "grouped st = foldl (\<lambda>m s. add_sample s m) [] st"

lemma grouped_snoc: "grouped (st @ [s]) = add_sample s (grouped st)"
  by (simp add: grouped_def)

lemma grouped_sorted: "bt_sorted (grouped st)"
proof (induction st rule: rev_induct)
  case (snoc s st)
  then show ?case by (simp add: grouped_snoc add_sample_def bt_sorted_insert)
qed (simp add: grouped_def)

lemma grouped_distinct: "distinct (map fst (grouped st))"
  using grouped_sorted [of st] by (simp add: strict_sorted_iff)

lemma grouped_times: "map_of (grouped st) k = (if slow_times k st = [] then None else Some (slow_times k st))"
proof (induction st rule: rev_induct)
  case (snoc s st)
  then show ?case by (auto simp: grouped_snoc add_sample_def slow_times_def)
qed (simp add: grouped_def slow_times_def)

lemma grouped_entry: "e \<in> set (grouped st) \<Longrightarrow> snd e = slow_times (fst e) st \<and> slow_times (fst e) st \<noteq> []"
proof -
  assume e: "e \<in> set (grouped st)"
  have "distinct (map fst (grouped st))" by (rule grouped_distinct)
  then have "map_of (grouped st) (fst e) = Some (snd e)" using e by simp
  then show ?thesis by (simp add: grouped_times split: if_splits)
qed

lemma grouped_keys: "set (map fst (grouped st)) = sample_key ` {s \<in> set st. bs_over_budget s}"
proof -
  have "k \<in> set (map fst (grouped st)) \<longleftrightarrow> slow_times k st \<noteq> []" for k
    using map_of_eq_None_iff [of "grouped st" k] by (simp add: grouped_times split: if_splits)
  moreover have "slow_times k st \<noteq> [] \<longleftrightarrow> k \<in> sample_key ` {s \<in> set st. bs_over_budget s}" for k
    by (auto simp: slow_times_def filter_empty_conv)
  ultimately show ?thesis by blast
qed

lemma p95_index_bounds: "0 < n \<Longrightarrow> p95_index n < n \<and> 19 * n \<le> 20 * Suc (p95_index n)"
  by (simp add: p95_index_def) linarith

lemma sorted_rank: "sorted xs \<Longrightarrow> i < length xs \<Longrightarrow> Suc i \<le> length (filter (\<lambda>x. x \<le> xs ! i) xs)"
proof -
  assume s: "sorted xs" and i: "i < length xs"
  have "list_all (\<lambda>x. x \<le> xs ! i) (take (Suc i) xs)"
    using s i by (auto simp: list_all_length sorted_nth_mono)
  then have "length (filter (\<lambda>x. x \<le> xs ! i) (take (Suc i) xs)) = Suc i"
    using i by (simp add: list_all_iff filter_True)
  then show ?thesis by (metis append_take_drop_id filter_append le_add1 length_append)
qed

lemma rank_of_sort: "length (filter P (sort ts)) = length (filter P ts)"
  by (metis mset_filter mset_sort size_mset)

lemma offender_facts:
  assumes "snd e \<noteq> []"
  shows "offender_key (offender e) = fst e" "so_samples (offender e) = length (snd e)"
    "so_worst_ms (offender e) \<in> set (snd e)" "list_all (\<lambda>t. t \<le> so_worst_ms (offender e)) (snd e)"
    "so_p95_ms (offender e) \<in> set (snd e)"
    "19 * length (snd e) \<le> 20 * length (filter (\<lambda>t. t \<le> so_p95_ms (offender e)) (snd e))"
proof -
  let ?ts = "sort (snd e)" and ?i = "p95_index (length (snd e))"
  have ne: "?ts \<noteq> []" using assms by (metis length_0_conv length_sort)
  have worst: "so_worst_ms (offender e) = last ?ts" using ne by (simp add: offender_def Let_def)
  have i: "?i < length (snd e)" "19 * length (snd e) \<le> 20 * Suc ?i" using p95_index_bounds assms by auto
  have p95: "so_p95_ms (offender e) = ?ts ! ?i" using i by (simp add: offender_def Let_def)
  show "offender_key (offender e) = fst e" "so_samples (offender e) = length (snd e)"
    by (simp_all add: offender_def Let_def)
  show "so_worst_ms (offender e) \<in> set (snd e)" unfolding worst using last_in_set [OF ne] by simp
  have "t \<le> last ?ts" if t: "t \<in> set ?ts" for t
  proof -
    obtain j where "j < length ?ts" "t = ?ts ! j" using t unfolding in_set_conv_nth by blast
    then show ?thesis using ne sorted_nth_mono [OF sorted_sort, of j "length ?ts - 1" "snd e"] by (simp add: last_conv_nth)
  qed
  then show "list_all (\<lambda>t. t \<le> so_worst_ms (offender e)) (snd e)" unfolding worst by (simp add: list_all_iff)
  show "so_p95_ms (offender e) \<in> set (snd e)" unfolding p95 using nth_mem [of ?i ?ts] i by simp
  have "Suc ?i \<le> length (filter (\<lambda>t. t \<le> ?ts ! ?i) ?ts)" using sorted_rank [of ?ts ?i] i by simp
  then show "19 * length (snd e) \<le> 20 * length (filter (\<lambda>t. t \<le> so_p95_ms (offender e)) (snd e))"
    unfolding p95 rank_of_sort by (rule le_trans [OF i(2) mult_le_mono2])
qed

section \<open>Properties\<close>

text \<open>
  C15: A draft runs only after its approval. Over any sequence of creations and approvals, what the forge holds under
  an identifier is what happened to it: nothing, or the body it was created with, runnable exactly when an approval
  of it followed; its body is never replaced.
\<close>

theorem forge_follows_drafts: "draft_view i (run forge_step ops []) = run (draft_step i) ops None"
proof -
  have "draft_rel i [] None" by (simp add: draft_rel_def draft_view_def forge_inv_def)
  from forge.sim_run [OF this, of ops] show ?thesis by (simp add: draft_rel_def list_all_iff)
qed

text \<open>
  The report of slow scripts. It lists, slowest first, each script with a sample over its budget once and no
  other; with the number of those samples, the longest time, and a time that at least 95 percent of them keep.
\<close>

theorem slow_report_spec:
  "(let out = slow_offenders st in
    sorted_wrt (\<lambda>a b. so_worst_ms b \<le> so_worst_ms a) out \<and> distinct (map offender_key out)
    \<and> set (map offender_key out) = set (map sample_key (filter bs_over_budget st))
    \<and> list_all (\<lambda>r. let ts = slow_times (offender_key r) st in
          so_samples r = length ts \<and> so_worst_ms r \<in> set ts \<and> list_all (\<lambda>t. t \<le> so_worst_ms r) ts
          \<and> so_p95_ms r \<in> set ts \<and> 19 * length ts \<le> 20 * length (filter (\<lambda>t. t \<le> so_p95_ms r) ts)) out)"
proof -
  let ?g = "grouped st"
  have out: "slow_offenders st = sort_key (\<lambda>r. - uint (so_worst_ms r)) (map offender ?g)"
    by (simp add: slow_offenders_def grouped_def)
  have "sorted (map (\<lambda>r. - uint (so_worst_ms r)) (slow_offenders st))" unfolding out by simp
  then have 1: "sorted_wrt (\<lambda>a b. so_worst_ms b \<le> so_worst_ms a) (slow_offenders st)"
    by (simp add: sorted_wrt_map word_le_def)
  have keys: "map offender_key (map offender ?g) = map fst ?g"
    using offender_facts(1) grouped_entry by (auto simp: o_def)
  have "mset (map offender_key (slow_offenders st)) = mset (map fst ?g)"
    unfolding keys [symmetric] out mset_map mset_sort ..
  then have 2: "distinct (map offender_key (slow_offenders st))" "set (map offender_key (slow_offenders st)) = set (map fst ?g)"
    using grouped_distinct [of st] by (metis mset_eq_imp_distinct_iff, metis mset_eq_setD)
  have 3: "let ts = slow_times (offender_key r) st in
          so_samples r = length ts \<and> so_worst_ms r \<in> set ts \<and> list_all (\<lambda>t. t \<le> so_worst_ms r) ts
          \<and> so_p95_ms r \<in> set ts \<and> 19 * length ts \<le> 20 * length (filter (\<lambda>t. t \<le> so_p95_ms r) ts)"
    if r: "r \<in> set (slow_offenders st)" for r
  proof -
    obtain e where e: "e \<in> set ?g" "r = offender e" using r unfolding out by auto
    have ne: "snd e \<noteq> []" and ts: "slow_times (fst e) st = snd e" using grouped_entry [OF e(1)] by simp_all
    show ?thesis
      unfolding e(2) offender_facts(1) [OF ne] ts Let_def using offender_facts(2-6) [OF ne] by blast
  qed
  show ?thesis unfolding Let_def list_all_iff using 1 2 3 grouped_keys [of st] by (simp add: Let_def list_all_iff)
qed

text \<open>
  Inspection keeps its bounds and hides private values. After any sequence of operations the variables and the
  timeline are within their limits, and no variable of private scope has a value.
\<close>

theorem inspector_hides_private:
  "(let g = run inspector_step ops ScriptDebugger_new in
    length (sg_variables g) \<le> MAX_VARIABLES \<and> length (sg_timeline g) \<le> EVENT_RING_CAPACITY
    \<and> (case ScriptDebugger_variable n g of
          None \<Rightarrow> True | Some v \<Rightarrow> vr_name v = n \<and> (if vr_scope v = ''private'' then vr_value v = None else True)))"
proof -
  have "inspector_inv (run inspector_step ops ScriptDebugger_new)"
    by (rule inspector.run_inv) (simp add: inspector_inv_def ScriptDebugger_new_def MAX_VARIABLES_def EVENT_RING_CAPACITY_def)
  then show ?thesis by (simp add: inspector_inv_def ScriptDebugger_variable_def Let_def split: option.split)
qed

text \<open>Every diagnosis rests on approved evidence, and none certifies itself.\<close>

theorem diagnoses_cite_approved:
  "(let a = run diagnosis_step ops AiDebugger_new in
    length (ai_diagnoses a) \<le> EVENT_RING_CAPACITY
    \<and> list_all (\<lambda>d. ag_self_certified d = False \<and> ag_evidence d \<in> ran (map_of (ai_approved_evidence a))) (ai_diagnoses a))"
proof -
  have "diagnosis_inv (run diagnosis_step ops AiDebugger_new)"
    by (rule diagnoses.run_inv) (simp add: diagnosis_inv_def AiDebugger_new_def EVENT_RING_CAPACITY_def)
  then show ?thesis by (simp add: diagnosis_inv_def list_all_iff Let_def)
qed

text \<open>
  A line marked as redacted is kept as it was passed.
\<close>

theorem redacted_line_kept:
  "dv_line (last (sg_timeline (push_event t source line True ScriptDebugger_new))) = line"
  by (simp add: push_event_def ScriptDebugger_new_def EVENT_RING_CAPACITY_def)

end
