(* ===== verification/Contracts.thy ===== *)
theory Contracts
  imports Prelude
begin

text \<open>
  The bridge contracts, \<open>wirecore/crates/wire-contracts/src/lib.rs\<close>: frames between the Qt client and the
  sidecar, one line of JSON each. The text form of JSON is an argument, \<open>JsonText\<close>; which values are frames
  follows the derived instances: an object with the five fields, others ignored, or an array of the five values.
\<close>

section \<open>The text form of JSON\<close>

text \<open>
  \<open>jt_render\<close> and \<open>jt_parse\<close> write and read a value; \<open>jt_shape\<close> is the message for a value that is not a frame.
\<close>

record JsonText =
  jt_render :: "json \<Rightarrow> string + string"
  jt_parse :: "string \<Rightarrow> string + json"
  jt_shape :: "json \<Rightarrow> string"

section \<open>Frames\<close>

definition MAGIC :: string where "MAGIC = ''WMC1''"

definition VERSION :: u32 where "VERSION = 1"

definition MAX_FRAME_BYTES :: nat where "MAX_FRAME_BYTES = 2 ^ 20"

definition USIZE_MAX :: nat where "USIZE_MAX = 2 ^ 64 - 1"

datatype FrameKind =
  Hello | HelloAck | Ping | Pong | SnapshotFrame | Request | Response | EventFrame | CancelFrame | Shutdown

fun FrameKind_name :: "FrameKind \<Rightarrow> string" where
  "FrameKind_name Hello = ''hello''"
| "FrameKind_name HelloAck = ''hello_ack''"
| "FrameKind_name Ping = ''ping''"
| "FrameKind_name Pong = ''pong''"
| "FrameKind_name SnapshotFrame = ''snapshot''"
| "FrameKind_name Request = ''request''"
| "FrameKind_name Response = ''response''"
| "FrameKind_name EventFrame = ''event''"
| "FrameKind_name CancelFrame = ''cancel''"
| "FrameKind_name Shutdown = ''shutdown''"

definition frame_kinds :: "FrameKind list" where
  "frame_kinds = [Hello, HelloAck, Ping, Pong, SnapshotFrame, Request, Response, EventFrame, CancelFrame, Shutdown]"

record Frame =
  fr_magic :: string
  fr_version :: u32
  fr_frame_id :: string
  fr_kind :: FrameKind
  fr_payload :: json

definition Frame_new :: "FrameKind \<Rightarrow> string \<Rightarrow> json \<Rightarrow> Frame" where
  "Frame_new kind frame_id payload =
     \<lparr>fr_magic = MAGIC, fr_version = VERSION, fr_frame_id = frame_id, fr_kind = kind, fr_payload = payload\<rparr>"

definition frame_to_json :: "Frame \<Rightarrow> json" where
  "frame_to_json f = JObject
     [(''magic'', JString (fr_magic f)), (''version'', JInt (uint (fr_version f))),
      (''frame_id'', JString (fr_frame_id f)), (''kind'', JString (FrameKind_name (fr_kind f))),
      (''payload'', fr_payload f)]"

fun frame_of_values :: "json list \<Rightarrow> Frame option" where
  "frame_of_values [JString m, JInt v, JString i, JString k, p] =
     (if v < 0 \<or> 2 ^ 32 \<le> v then None
      else map_option (\<lambda>kind. \<lparr>fr_magic = m, fr_version = of_int v, fr_frame_id = i, fr_kind = kind, fr_payload = p\<rparr>)
        (find (\<lambda>kind. FrameKind_name kind = k) frame_kinds))"
| "frame_of_values _ = None"

fun frame_of_json :: "json \<Rightarrow> Frame option" where
  "frame_of_json (JObject obj) =
     Option.bind (those (map (map_of obj) [''magic'', ''version'', ''frame_id'', ''kind'', ''payload'']))
       frame_of_values"
| "frame_of_json (JArray vs) = frame_of_values vs"
| "frame_of_json _ = None"

datatype BridgeError =
    Protocol string
  | VersionMismatch u32
  | Oversized nat
  | Decode string
  | Encode string
  | PeerGone
  | BridgeTimeout
  | BridgeCancelled

fun BridgeError_fmt :: "BridgeError \<Rightarrow> string" where
  "BridgeError_fmt (Protocol m) = ''protocol: '' @ m"
| "BridgeError_fmt (VersionMismatch v) = ''version mismatch: '' @ show_nat (unat v)"
| "BridgeError_fmt (Oversized n) = ''oversized frame: '' @ show_nat n"
| "BridgeError_fmt (Decode m) = ''decode: '' @ m"
| "BridgeError_fmt (Encode m) = ''encode: '' @ m"
| "BridgeError_fmt PeerGone = ''peer gone''"
| "BridgeError_fmt BridgeTimeout = ''timeout''"
| "BridgeError_fmt BridgeCancelled = ''cancelled''"

definition Frame_validate :: "JsonText \<Rightarrow> Frame \<Rightarrow> BridgeError + unit" where
  "Frame_validate jt f =
     (if fr_magic f \<noteq> MAGIC then Inl (Protocol ''bad magic'')
      else if fr_version f \<noteq> VERSION then Inl (VersionMismatch (fr_version f))
      else
        let n = (case jt_render jt (frame_to_json f) of Inr t \<Rightarrow> length t | Inl e \<Rightarrow> USIZE_MAX) in
        if MAX_FRAME_BYTES < n then Inl (Oversized n) else Inr ())"

definition to_wire :: "JsonText \<Rightarrow> Frame \<Rightarrow> BridgeError + string" where
  "to_wire jt f =
     (case Frame_validate jt f of
        Inl e \<Rightarrow> Inl e
      | Inr _ \<Rightarrow> (case jt_render jt (frame_to_json f) of Inl e \<Rightarrow> Inl (Encode e) | Inr t \<Rightarrow> Inr t))"

definition from_wire :: "JsonText \<Rightarrow> string \<Rightarrow> BridgeError + Frame" where
  "from_wire jt line =
     (if MAX_FRAME_BYTES < length line then Inl (Oversized (length line))
      else (case jt_parse jt line of
              Inl e \<Rightarrow> Inl (Decode e)
            | Inr j \<Rightarrow>
                (case frame_of_json j of
                   None \<Rightarrow> Inl (Decode (jt_shape jt j))
                 | Some f \<Rightarrow> (case Frame_validate jt f of Inl e \<Rightarrow> Inl e | Inr _ \<Rightarrow> Inr f))))"

section \<open>Facts\<close>

lemma kind_of_name: "find (\<lambda>k. FrameKind_name k = FrameKind_name kind) frame_kinds = Some kind"
  by (cases kind) (simp_all add: frame_kinds_def)

lemma frame_json_trip: "frame_of_json (frame_to_json f) = Some f"
proof -
  have "uint (fr_version f) < 2 ^ 32" using uint_lt2p [of "fr_version f"] by simp
  moreover have "0 \<le> uint (fr_version f)" by simp
  ultimately show ?thesis by (simp add: frame_to_json_def kind_of_name)
qed

text \<open>What a reader gets that reads the text of the value that was written.\<close>

lemma to_wire_read:
  "to_wire jt f = Inr t \<Longrightarrow> jt_parse jt t = Inr (frame_to_json f) \<Longrightarrow> from_wire jt t = Inr f"
  by (auto simp: to_wire_def from_wire_def Frame_validate_def frame_json_trip Let_def split: sum.splits if_splits)

lemma to_wire_text: "to_wire jt f = Inr t \<Longrightarrow> jt_render jt (frame_to_json f) = Inr t"
  by (auto simp: to_wire_def split: sum.splits)

lemma to_wire_ok:
  "jt_render jt (frame_to_json f) = Inr t \<Longrightarrow> length t \<le> MAX_FRAME_BYTES \<Longrightarrow> fr_magic f = MAGIC \<Longrightarrow>
    fr_version f = VERSION \<Longrightarrow> to_wire jt f = Inr t"
  by (simp add: to_wire_def Frame_validate_def)

section \<open>Properties\<close>

text \<open>
  C9: Frames survive the wire. A frame is written exactly when it has the magic and the version and its text is
  within the limit; when the text that was written reads back as the value it was made from, as serde
  documents, the receiver gets the frame.
\<close>

theorem frame_wire_trip:
  assumes "jt_parse jt (case jt_render jt (frame_to_json f) of Inr t \<Rightarrow> t | Inl e \<Rightarrow> []) = Inr (frame_to_json f)"
  shows "case to_wire jt f of
      Inr t \<Rightarrow> from_wire jt t = Inr f
    | Inl e \<Rightarrow>
        (if fr_magic f = MAGIC \<and> fr_version f = VERSION
         then (case jt_render jt (frame_to_json f) of Inr t \<Rightarrow> MAX_FRAME_BYTES < length t | Inl m \<Rightarrow> True)
         else True)"
proof (cases "to_wire jt f")
  case (Inr t)
  then show ?thesis using to_wire_read [OF Inr] to_wire_text [OF Inr] assms by simp
next
  case (Inl e)
  then show ?thesis
    by (auto simp: to_wire_def Frame_validate_def Let_def split: sum.splits if_splits)
qed

theorem frame_wire_trip_witness:
  "let f = Frame_new Ping ''ping-0001'' JNull;
       jt = \<lparr>jt_render = (\<lambda>j. Inr ''x''), jt_parse = (\<lambda>t. Inr (frame_to_json f)), jt_shape = (\<lambda>j. [])\<rparr> in
   (case to_wire jt f of
      Inr t \<Rightarrow> from_wire jt t = Inr f
    | Inl e \<Rightarrow>
        (if fr_magic f = MAGIC \<and> fr_version f = VERSION
         then (case jt_render jt (frame_to_json f) of Inr t \<Rightarrow> MAX_FRAME_BYTES < length t | Inl m \<Rightarrow> True)
         else True))"
  unfolding Let_def by (rule frame_wire_trip) simp

text \<open>
  C10: Nothing but frames of this protocol is received: what \<open>from_wire\<close> accepts has the magic and the version, is
  within the limit both as received and as written again, and is what the JSON value of the line says.
\<close>

theorem received_frames_valid:
  "(case from_wire jt line of
      Inl e \<Rightarrow> True
    | Inr f \<Rightarrow> fr_magic f = MAGIC \<and> fr_version f = VERSION \<and> length line \<le> MAX_FRAME_BYTES
        \<and> (case jt_parse jt line of Inl e \<Rightarrow> False | Inr j \<Rightarrow> frame_of_json j = Some f)
        \<and> (case to_wire jt f of Inl e \<Rightarrow> False | Inr t \<Rightarrow> length t \<le> MAX_FRAME_BYTES))"
  by (auto simp: from_wire_def to_wire_def Frame_validate_def Let_def MAX_FRAME_BYTES_def USIZE_MAX_def
      split: sum.splits option.splits if_splits)

end
