(* ===== verification/Bridge.thy ===== *)
theory Bridge
  imports Contracts
begin

text \<open>
  The Qt side of the bridge, \<open>src/wiremudder/bridge/wirecore_bridge.cpp\<close>: the supervisor that starts the sidecar,
  connects, shakes hands, keeps requests until then, watches the health of the peer and restarts it. The
  supervisor is a state machine: every slot, timer and method is an operation that returns the actions it takes.
  What starting a process gives, whether it is alive, and the clock are arguments, and so is the text form of
  JSON. Callbacks do not call back into the supervisor, and the signals of a socket that was replaced are not
  modelled.
\<close>

section \<open>Data\<close>

definition kQueueCapacity :: nat where "kQueueCapacity = 256"

definition kPongStaleMs :: int where "kPongStaleMs = 6000"

definition kFrameIdMinLen :: nat where "kFrameIdMinLen = 8"

definition kMagic :: string where "kMagic = ''WMC1''"

definition kVersion :: int where "kVersion = 1"

fun frameKindToWire :: "FrameKind \<Rightarrow> string" where
  "frameKindToWire Hello = ''hello''"
| "frameKindToWire HelloAck = ''hello_ack''"
| "frameKindToWire Ping = ''ping''"
| "frameKindToWire Pong = ''pong''"
| "frameKindToWire SnapshotFrame = ''snapshot''"
| "frameKindToWire Request = ''request''"
| "frameKindToWire Response = ''response''"
| "frameKindToWire EventFrame = ''event''"
| "frameKindToWire CancelFrame = ''cancel''"
| "frameKindToWire Shutdown = ''shutdown''"

record QtJson =
  qj_compact :: "json \<Rightarrow> string"
  qj_parse :: "string \<Rightarrow> json option"

text \<open>The object of a frame as the members are inserted.\<close>

definition frameObject :: "FrameKind \<Rightarrow> string \<Rightarrow> json_object \<Rightarrow> json" where
  "frameObject kind frameId payload = JObject
     [(''magic'', JString kMagic), (''version'', JInt kVersion), (''frame_id'', JString frameId),
      (''kind'', JString (frameKindToWire kind)), (''payload'', JObject payload)]"

datatype ProcessState = NoProcess | ProcStarting | ProcRunning | ProcNotRunning

text \<open>What \<open>waitForStarted\<close> found: started with a process id, failed, or still starting.\<close>

datatype StartOutcome = Started int | StartFailed | StartSlow

datatype SupAction =
    StartProcess
  | EndProcess
  | ConnectToServer
  | CloseSocket
  | WriteLine string
  | RetryTimer
  | RestartTimer
  | ReadyCall bool string
  | CrashCall
  | FrameCall string

record Supervisor =
  sv_process :: ProcessState
  sv_socket :: bool
  sv_timer :: bool
  sv_pending :: "string list"
  sv_lastPongMs :: int
  sv_pid :: int
  sv_connectAttempts :: nat
  sv_connected :: bool
  sv_stopping :: bool
  sv_handshakeDone :: bool
  sv_restartPending :: bool

definition Supervisor_new :: Supervisor where
  "Supervisor_new =
     \<lparr>sv_process = NoProcess, sv_socket = False, sv_timer = False, sv_pending = [], sv_lastPongMs = 0, sv_pid = - 1,
      sv_connectAttempts = 0, sv_connected = False, sv_stopping = False, sv_handshakeDone = False,
      sv_restartPending = False\<rparr>"

section \<open>Operations\<close>

definition launchAndConnect :: "StartOutcome \<Rightarrow> Supervisor \<Rightarrow> SupAction list \<times> Supervisor" where
  "launchAndConnect outcome sv =
     (case outcome of
        StartFailed \<Rightarrow> ([StartProcess, ReadyCall False ''sidecar failed to start''], sv\<lparr>sv_process := ProcNotRunning\<rparr>)
      | StartSlow \<Rightarrow> ([StartProcess, ReadyCall False ''sidecar failed to start''], sv\<lparr>sv_process := ProcStarting\<rparr>)
      | Started pid \<Rightarrow>
          ([StartProcess, ConnectToServer],
           sv\<lparr>sv_process := ProcRunning, sv_pid := pid, sv_socket := True, sv_timer := True\<rparr>))"

definition Supervisor_start ::
    "StartOutcome \<Rightarrow> Supervisor \<Rightarrow> (string + unit) \<times> SupAction list \<times> Supervisor" where
  "Supervisor_start outcome sv =
     (if sv_process sv = ProcRunning \<or> sv_process sv = ProcStarting then (Inl ''already running'', [], sv)
      else
        let sv1 = sv\<lparr>sv_stopping := False, sv_handshakeDone := False, sv_connected := False, sv_lastPongMs := 0,
              sv_restartPending := False\<rparr> in
        (Inr (), launchAndConnect outcome sv1))"

definition hello_object :: "int \<Rightarrow> json" where
  "hello_object pid =
     frameObject Hello ''hello-0001'' [(''client'', JString ''wiremudder-qt''), (''pid'', JInt pid)]"

definition sendHello :: "QtJson \<Rightarrow> int \<Rightarrow> SupAction list" where
  "sendHello qj pid = [WriteLine (qj_compact qj (hello_object pid))]"

definition onConnected :: "QtJson \<Rightarrow> int \<Rightarrow> Supervisor \<Rightarrow> SupAction list \<times> Supervisor" where
  "onConnected qj pid sv = (sendHello qj pid, sv\<lparr>sv_handshakeDone := False, sv_connectAttempts := 0\<rparr>)"

definition onSocketError :: "Supervisor \<Rightarrow> SupAction list \<times> Supervisor" where
  "onSocketError sv =
     (if sv_handshakeDone sv \<or> sv_stopping sv then ([], sv)
      else if sv_process sv = ProcRunning \<and> sv_connectAttempts sv < 100
      then ([RetryTimer], sv\<lparr>sv_connectAttempts := sv_connectAttempts sv + 1\<rparr>)
      else ([ReadyCall False ''socket error before handshake''], sv))"

definition onRetry :: "Supervisor \<Rightarrow> SupAction list \<times> Supervisor" where
  "onRetry sv = (if \<not> sv_stopping sv \<and> sv_socket sv then ([ConnectToServer], sv) else ([], sv))"

definition flushPending :: "Supervisor \<Rightarrow> SupAction list \<times> Supervisor" where
  "flushPending sv = (map WriteLine (sv_pending sv), sv\<lparr>sv_pending := []\<rparr>)"

definition processFrame :: "QtJson \<Rightarrow> int \<Rightarrow> string \<Rightarrow> Supervisor \<Rightarrow> SupAction list \<times> Supervisor" where
  "processFrame qj now line sv =
     (case qj_parse qj line of
        None \<Rightarrow> ([], sv)
      | Some doc \<Rightarrow>
          let frame = j_object doc in
          if j_string (j_value ''magic'' frame) \<noteq> kMagic then ([], sv)
          else if j_int (j_value ''version'' frame) \<noteq> kVersion then ([], sv)
          else
            let kind = j_string (j_value ''kind'' frame) in
            if kind = frameKindToWire HelloAck
            then
              let ok = (j_string (j_value ''status'' (j_object (j_value ''payload'' frame))) = ''ok'');
                  sv1 = sv\<lparr>sv_connected := ok, sv_handshakeDone := True, sv_lastPongMs := now\<rparr>;
                  ready = ReadyCall ok (if ok then [] else ''handshake rejected'') in
              if ok then (case flushPending sv1 of (out, sv2) \<Rightarrow> (ready # out, sv2)) else ([ready], sv1)
            else if kind = frameKindToWire Pong then ([], sv\<lparr>sv_lastPongMs := now\<rparr>)
            else ([FrameCall line], sv))"

text \<open>One line of \<open>onReadyRead\<close>; there are lines only while there is a socket.\<close>

definition onLine :: "QtJson \<Rightarrow> int \<Rightarrow> string \<Rightarrow> Supervisor \<Rightarrow> SupAction list \<times> Supervisor" where
  "onLine qj now raw sv =
     (if \<not> sv_socket sv then ([], sv)
      else if trim raw = [] then ([], sv)
      else processFrame qj now (trim raw) sv)"

definition onDisconnected :: "Supervisor \<Rightarrow> SupAction list \<times> Supervisor" where
  "onDisconnected sv =
     (let sv1 = sv\<lparr>sv_connected := False, sv_handshakeDone := False\<rparr> in
      if sv_stopping sv then ([], sv1)
      else if sv_restartPending sv then ([], sv1)
      else ([CrashCall, RestartTimer], sv1\<lparr>sv_restartPending := True\<rparr>))"

text \<open>
  The restart timer fires. Closing a connected socket may emit \<open>disconnected\<close> at once, which \<open>emits\<close> says.
\<close>

definition restartNow :: "bool \<Rightarrow> StartOutcome \<Rightarrow> Supervisor \<Rightarrow> SupAction list \<times> Supervisor" where
  "restartNow emits outcome sv =
     (if sv_stopping sv then ([], sv)
      else
        let out1 = (if sv_process sv \<noteq> NoProcess then [EndProcess] else []);
            sv1 = sv\<lparr>sv_process := NoProcess\<rparr>;
            (out2, sv2) = (if sv_socket sv1
                           then (case (if emits then onDisconnected sv1 else ([], sv1)) of
                                   (out, sv') \<Rightarrow> (CloseSocket # out, sv'\<lparr>sv_socket := False\<rparr>))
                           else ([], sv1));
            (out3, sv3) = launchAndConnect outcome (sv2\<lparr>sv_connected := False, sv_handshakeDone := False\<rparr>) in
        (out1 @ out2 @ out3, sv3\<lparr>sv_restartPending := False\<rparr>))"

definition sendPing :: "QtJson \<Rightarrow> Supervisor \<Rightarrow> SupAction list" where
  "sendPing qj sv =
     (if \<not> sv_connected sv then [] else [WriteLine (qj_compact qj (frameObject Ping ''ping-0001'' []))])"

definition maybeRestartUnhealthy :: "QtJson \<Rightarrow> int \<Rightarrow> Supervisor \<Rightarrow> SupAction list \<times> Supervisor" where
  "maybeRestartUnhealthy qj now sv =
     (let out = sendPing qj sv;
          stale = (sv_connected sv \<and> 0 < sv_lastPongMs sv \<and> kPongStaleMs < now - sv_lastPongMs sv) in
      if stale \<and> \<not> sv_stopping sv \<and> \<not> sv_restartPending sv
      then (out @ [CrashCall, RestartTimer], sv\<lparr>sv_restartPending := True\<rparr>)
      else (out, sv))"

definition postRequest ::
    "QtJson \<Rightarrow> FrameKind \<Rightarrow> string \<Rightarrow> string \<Rightarrow> Supervisor \<Rightarrow> (string + unit) \<times> SupAction list \<times> Supervisor" where
  "postRequest qj kind frameId payloadJson sv =
     (if sv_process sv = NoProcess \<or> sv_process sv = ProcNotRunning then (Inl ''wirecore absent'', [], sv)
      else if length frameId < kFrameIdMinLen then (Inl ''frame id too short'', [], sv)
      else (case qj_parse qj payloadJson of
              None \<Rightarrow> (Inl ''payload is not valid json'', [], sv)
            | Some pdoc \<Rightarrow>
                let wire = qj_compact qj (frameObject kind frameId (j_object pdoc)) in
                if sv_connected sv then (Inr (), [WriteLine wire], sv)
                else
                  let pending = (if kQueueCapacity \<le> length (sv_pending sv) then tl (sv_pending sv) else sv_pending sv) in
                  (Inr (), [], sv\<lparr>sv_pending := pending @ [wire]\<rparr>)))"

definition Supervisor_healthy :: "int \<Rightarrow> Supervisor \<Rightarrow> bool" where
  "Supervisor_healthy now sv \<longleftrightarrow>
     sv_connected sv \<and> sv_process sv = ProcRunning \<and> sv_lastPongMs sv \<noteq> 0 \<and> now - sv_lastPongMs sv \<le> kPongStaleMs"

definition Supervisor_isConnected :: "Supervisor \<Rightarrow> bool" where
  "Supervisor_isConnected sv = sv_connected sv"

definition Supervisor_stop :: "QtJson \<Rightarrow> bool \<Rightarrow> Supervisor \<Rightarrow> SupAction list \<times> Supervisor" where
  "Supervisor_stop qj emits sv =
     ((if sv_socket sv \<and> sv_connected sv
       then [WriteLine (qj_compact qj (frameObject Shutdown ''shut-0001'' []))] else [])
      @ (if sv_process sv = ProcRunning \<or> sv_process sv = ProcStarting then [EndProcess] else [])
      @ (if sv_socket sv then [CloseSocket] else []),
      sv\<lparr>sv_stopping := True, sv_timer := False, sv_socket := False, sv_process := NoProcess, sv_connected := False,
         sv_handshakeDone := (sv_handshakeDone sv \<and> \<not> (sv_socket sv \<and> emits)), sv_pid := - 1\<rparr>)"

section \<open>The supervisor as a machine\<close>

datatype sup_event =
    EStart StartOutcome
  | EConnected int
  | ESocketError
  | ERetry
  | ELine int string
  | EDisconnected
  | ERestart bool StartOutcome
  | EHealthTick int
  | EProcessExit
  | EPost FrameKind string string
  | EStop bool

fun sup_react :: "QtJson \<Rightarrow> sup_event \<Rightarrow> Supervisor \<Rightarrow> SupAction list \<times> Supervisor" where
  "sup_react qj (EStart outcome) sv = snd (Supervisor_start outcome sv)"
| "sup_react qj (EConnected pid) sv = (if sv_socket sv then onConnected qj pid sv else ([], sv))"
| "sup_react qj ESocketError sv = (if sv_socket sv then onSocketError sv else ([], sv))"
| "sup_react qj ERetry sv = onRetry sv"
| "sup_react qj (ELine now raw) sv = onLine qj now raw sv"
| "sup_react qj EDisconnected sv = (if sv_socket sv then onDisconnected sv else ([], sv))"
| "sup_react qj (ERestart emits outcome) sv = restartNow emits outcome sv"
| "sup_react qj (EHealthTick now) sv = (if sv_timer sv then maybeRestartUnhealthy qj now sv else ([], sv))"
| "sup_react qj EProcessExit sv =
     ([], if sv_process sv = NoProcess then sv else sv\<lparr>sv_process := ProcNotRunning\<rparr>)"
| "sup_react qj (EPost kind frameId payload) sv = snd (postRequest qj kind frameId payload sv)"
| "sup_react qj (EStop emits) sv = Supervisor_stop qj emits sv"

fun sup_run :: "QtJson \<Rightarrow> sup_event list \<Rightarrow> Supervisor \<Rightarrow> SupAction list \<times> Supervisor" where
  "sup_run qj [] sv = ([], sv)"
| "sup_run qj (ev # evs) sv =
     (case sup_react qj ev sv of
        (out, sv1) \<Rightarrow> (case sup_run qj evs sv1 of (out2, sv2) \<Rightarrow> (out @ out2, sv2)))"

text \<open>The lines written, in order.\<close>

fun writes :: "SupAction list \<Rightarrow> string list" where
  "writes [] = []"
| "writes (a # as) = (case a of WriteLine w \<Rightarrow> [w] | _ \<Rightarrow> []) @ writes as"

section \<open>Facts\<close>

lemma writes_append: "writes (xs @ ys) = writes xs @ writes ys"
  by (induction xs) auto

lemma writes_WriteLine: "writes (map WriteLine ws) = ws"
  by (induction ws) auto

lemma set_writes: "w \<in> set (writes out) \<longleftrightarrow> WriteLine w \<in> set out"
  by (induction out) (auto split: SupAction.splits)

lemma sup_run_append:
  "sup_run qj (xs @ ys) sv =
    (case sup_run qj xs sv of (out, sv1) \<Rightarrow> (case sup_run qj ys sv1 of (out2, sv2) \<Rightarrow> (out @ out2, sv2)))"
  by (induction xs arbitrary: sv) (auto split: prod.splits)

lemma sup_run_state: "snd (sup_run qj evs sv) = run (\<lambda>ev s. snd (sup_react qj ev s)) evs sv"
  by (induction evs arbitrary: sv) (simp_all add: split_beta)

definition sup_inv :: "Supervisor \<Rightarrow> bool" where
  "sup_inv sv \<longleftrightarrow> length (sv_pending sv) \<le> kQueueCapacity \<and> (sv_connected sv \<longrightarrow> sv_socket sv)"

lemmas sup_ops = Supervisor_start_def launchAndConnect_def onConnected_def onSocketError_def onRetry_def onLine_def
  processFrame_def flushPending_def onDisconnected_def restartNow_def maybeRestartUnhealthy_def postRequest_def
  Supervisor_stop_def sendHello_def sendPing_def

interpretation supervisor: machine_invariant "\<lambda>ev s. snd (sup_react qj ev s)" sup_inv for qj
proof
  fix sv and ev :: sup_event
  assume "sup_inv sv"
  then show "sup_inv (snd (sup_react qj ev sv))"
    by (cases ev) (auto simp: sup_inv_def sup_ops kQueueCapacity_def Let_def split: StartOutcome.splits option.splits prod.splits)
qed

lemma react_writes:
  "sup_inv sv \<Longrightarrow> WriteLine w \<in> set (fst (sup_react qj ev sv)) \<Longrightarrow>
    sv_socket sv \<and> (sv_connected sv \<or> w \<in> range (\<lambda>pid. qj_compact qj (hello_object pid)) \<or> w \<in> set (sv_pending sv))"
  by (cases ev)
    (auto simp: sup_inv_def sup_ops Let_def split: StartOutcome.splits option.splits prod.splits if_splits)


section \<open>Properties\<close>

text \<open>
  C8: The supervisor writes only where it may. After any events the frames it keeps are at most 256, and whatever
  event follows, it writes only to a socket it has, and before the handshake only the greeting or the frames
  it kept for it.
\<close>

theorem bridge_writes_guarded:
  "(let sv = snd (sup_run qj evs Supervisor_new) in
    length (sv_pending sv) \<le> kQueueCapacity
    \<and> list_all (\<lambda>w. sv_socket sv
          \<and> (sv_connected sv \<or> w \<in> range (\<lambda>pid. qj_compact qj (hello_object pid)) \<or> w \<in> set (sv_pending sv)))
        (writes (fst (sup_react qj ev sv))))"
proof -
  let ?sv = "snd (sup_run qj evs Supervisor_new)"
  have inv: "sup_inv ?sv"
    unfolding sup_run_state by (rule supervisor.run_inv) (simp add: sup_inv_def Supervisor_new_def kQueueCapacity_def)
  then have "length (sv_pending ?sv) \<le> kQueueCapacity" by (simp add: sup_inv_def)
  then show ?thesis
    unfolding Let_def list_all_iff using react_writes [OF inv, of _ qj ev] by (simp add: set_writes)
qed

text \<open>
  A restart that fails is the last. When the sidecar cannot be started again, the health timer never tries
  another time, and the supervisor is not healthy.
\<close>

theorem failed_restart_is_final:
  "(let sv1 = snd (restartNow emits StartFailed sv) in
    if sv_stopping sv then True
    else fst (sup_run qj (map EHealthTick ts) sv1) = [] \<and> Supervisor_healthy now sv1 = False)"
proof -
  have idle: "sv_connected s = False \<Longrightarrow> sup_run qj (map EHealthTick ts) s = ([], s)" for s
    by (induction ts) (simp_all add: maybeRestartUnhealthy_def sendPing_def)
  have "\<not> sv_stopping sv \<Longrightarrow> sv_connected (snd (restartNow emits StartFailed sv)) = False"
    by (simp add: restartNow_def launchAndConnect_def Let_def split: prod.splits)
  then show ?thesis using idle by (simp add: Supervisor_healthy_def Let_def)
qed

text \<open>
  A restart timer left from before a stop restarts the new process for ever: when \<open>start\<close> follows \<open>stop\<close> before
  the timer fires, every timer ends the process and sets another, though the peer answers each time. After \<open>n\<close>
  rounds the process has been ended once by the stop and \<open>n\<close> times by the timers.
\<close>

definition demo_json :: QtJson where
  "demo_json = \<lparr>qj_compact = (\<lambda>j. ''x''),
     qj_parse = (\<lambda>t. Some (frameObject HelloAck ''hello-0001'' [(''status'', JString ''ok'')]))\<rparr>"

definition crash_stop_start :: "sup_event list" where
  "crash_stop_start =
     [EStart (Started 1), EConnected 7, ELine 10 ''x'', EDisconnected, EStop True,
      EStart (Started 2), EConnected 7, ELine 20 ''x'']"

definition timer_round :: "sup_event list" where
  "timer_round = [ERestart True (Started 3), EConnected 7, ELine 30 ''x'']"

definition shaken :: "Supervisor \<Rightarrow> bool" where
  "shaken sv \<longleftrightarrow> sv_connected sv \<and> sv_socket sv \<and> sv_process sv = ProcRunning \<and> \<not> sv_stopping sv
     \<and> \<not> sv_restartPending sv \<and> sv_pending sv = []"

lemma ack_line: "sv_socket sv \<Longrightarrow> sv_pending sv = [] \<Longrightarrow>
    onLine demo_json now ''x'' sv = ([ReadyCall True []], sv\<lparr>sv_connected := True, sv_handshakeDone := True,
      sv_lastPongMs := now, sv_pending := []\<rparr>)"
  by (simp add: onLine_def processFrame_def demo_json_def frameObject_def j_value_def kMagic_def kVersion_def
      flushPending_def trim_def is_ws_def)

lemma timer_round_shaken:
  "shaken sv \<Longrightarrow>
    (case sup_run demo_json timer_round sv of
       (out, sv1) \<Rightarrow> shaken sv1 \<and> length (filter ((=) EndProcess) out) = 1 \<and> RestartTimer \<in> set out)"
  by (simp add: timer_round_def shaken_def restartNow_def onDisconnected_def launchAndConnect_def onConnected_def
      sendHello_def ack_line)

lemma timer_rounds:
  "shaken sv \<Longrightarrow> length (filter ((=) EndProcess) (fst (sup_run demo_json (concat (replicate n timer_round)) sv))) = n"
proof (induction n arbitrary: sv)
  case (Suc n)
  obtain out sv1 where r: "sup_run demo_json timer_round sv = (out, sv1)" by (cases "sup_run demo_json timer_round sv")
  then have "shaken sv1" "length (filter ((=) EndProcess) out) = 1" using timer_round_shaken [OF Suc.prems] by simp_all
  then show ?case using Suc.IH [of sv1] r by (simp add: sup_run_append split_beta)
qed simp

theorem stale_timer_restarts_forever:
  "length (filter ((=) EndProcess)
     (fst (sup_run demo_json (crash_stop_start @ concat (replicate n timer_round)) Supervisor_new))) = Suc n"
proof -
  have "sup_run demo_json crash_stop_start Supervisor_new = (out, sv1) \<Longrightarrow>
      shaken sv1 \<and> filter ((=) EndProcess) out = [EndProcess]" for out sv1
    by (auto simp: crash_stop_start_def Supervisor_new_def Supervisor_start_def launchAndConnect_def onConnected_def
        sendHello_def ack_line onDisconnected_def Supervisor_stop_def shaken_def)
  then show ?thesis
    using timer_rounds by (cases "sup_run demo_json crash_stop_start Supervisor_new")
      (simp add: sup_run_append split_beta)
qed

end
