(* ===== verification/Runtime.thy ===== *)
theory Runtime
  imports Contracts
begin

text \<open>
  The sidecar, \<open>wirecore/crates/wirecore-runtime/src/main.rs\<close>: the bounded queue and the loop that serves one
  client of the bridge, line by line, over the frames of \<open>Contracts\<close>. Lines arrive without their line break;
  whether the writes of a step reach the client, and the process id, are arguments. Every client has a queue of
  its own, and all share the flag \<open>running\<close>.
\<close>

section \<open>The bounded queue\<close>

definition QUEUE_CAPACITY :: nat where "QUEUE_CAPACITY = 256"

record BoundedQueue =
  bq_inner :: "json list"
  bq_capacity :: nat
  bq_dropped :: u64

definition BoundedQueue_new :: "nat \<Rightarrow> BoundedQueue" where
  "BoundedQueue_new capacity = \<lparr>bq_inner = [], bq_capacity = capacity, bq_dropped = 0\<rparr>"

definition BoundedQueue_push :: "json \<Rightarrow> BoundedQueue \<Rightarrow> bool \<times> BoundedQueue" where
  "BoundedQueue_push event q =
     (let q1 = (if bq_capacity q \<le> length (bq_inner q)
                then q\<lparr>bq_inner := tl (bq_inner q), bq_dropped := bq_dropped q + 1\<rparr> else q) in
      (True, q1\<lparr>bq_inner := bq_inner q1 @ [event]\<rparr>))"

definition BoundedQueue_pop :: "BoundedQueue \<Rightarrow> json option \<times> BoundedQueue" where
  "BoundedQueue_pop q =
     (case bq_inner q of [] \<Rightarrow> (None, q) | e # es \<Rightarrow> (Some e, q\<lparr>bq_inner := es\<rparr>))"

definition BoundedQueue_len :: "BoundedQueue \<Rightarrow> nat" where
  "BoundedQueue_len q = length (bq_inner q)"

function drain :: "BoundedQueue \<Rightarrow> BoundedQueue" where
  "drain q = (case BoundedQueue_pop q of (None, q1) \<Rightarrow> q1 | (Some _, q1) \<Rightarrow> drain q1)"
  by pat_completeness auto
termination
  by (relation "measure (\<lambda>q. length (bq_inner q))") (auto simp: BoundedQueue_pop_def split: list.splits)

declare drain.simps [simp del]

section \<open>Serving a client\<close>

record ServerConn =
  sc_queue :: BoundedQueue
  sc_running :: bool

definition ServerConn_new :: ServerConn where
  "ServerConn_new = \<lparr>sc_queue = BoundedQueue_new QUEUE_CAPACITY, sc_running = True\<rparr>"

definition write_frame :: "JsonText \<Rightarrow> bool \<Rightarrow> Frame \<Rightarrow> (BridgeError + unit) \<times> string list" where
  "write_frame jt reached f =
     (case to_wire jt f of
        Inl e \<Rightarrow> (Inl e, [])
      | Inr wire \<Rightarrow> if reached then (Inr (), [wire]) else (Inl PeerGone, []))"

definition write_ack :: "JsonText \<Rightarrow> bool \<Rightarrow> string \<Rightarrow> string \<Rightarrow> (BridgeError + unit) \<times> string list" where
  "write_ack jt reached status detail =
     write_frame jt reached
       (Frame_new Response ''ack'' (JObject [(''status'', JString status), (''detail'', JString detail)]))"

text \<open>The arms of the match: the answer to a frame, if the arm has one, and the queue after it.\<close>

definition server_answer :: "int \<Rightarrow> Frame \<Rightarrow> BoundedQueue \<Rightarrow> Frame option \<times> BoundedQueue" where
  "server_answer pid f q =
     (case fr_kind f of
        Hello \<Rightarrow>
          (Some (Frame_new HelloAck (fr_frame_id f) (JObject
             [(''magic'', JString MAGIC), (''version'', JInt (uint VERSION)), (''status'', JString ''ok''),
              (''pid'', JInt pid), (''queue_capacity'', JInt (int QUEUE_CAPACITY))])), q)
      | Ping \<Rightarrow>
          (Some (Frame_new Pong (fr_frame_id f) (JObject [(''t'', JInt 0), (''dropped'', JInt (uint (bq_dropped q)))])), q)
      | SnapshotFrame \<Rightarrow>
          (Some (Frame_new SnapshotFrame (fr_frame_id f) (JObject
             [(''queue_len'', JInt (int (BoundedQueue_len q))), (''dropped'', JInt (uint (bq_dropped q))),
              (''uptime_ms'', JInt 0)])), q)
      | Request \<Rightarrow>
          (let depth = BoundedQueue_len q; q1 = snd (BoundedQueue_push (fr_payload f) q) in
           (Some (Frame_new Response (fr_frame_id f) (JObject
              [(''accepted'', JBool True), (''queue_depth'', JInt (int depth)),
               (''dropped'', JInt (uint (bq_dropped q1)))])), q1))
      | CancelFrame \<Rightarrow>
          (let q1 = drain q in
           (Some (Frame_new Response (fr_frame_id f) (JObject
              [(''cancelled'', JBool True), (''dropped'', JInt (uint (bq_dropped q1)))])), q1))
      | Shutdown \<Rightarrow>
          (Some (Frame_new Response (fr_frame_id f) (JObject [(''shutting_down'', JBool True)])), q)
      | _ \<Rightarrow> (None, q))"

text \<open>One line: the lines written, whether the loop goes on, and the state.\<close>

definition handle_line :: "JsonText \<Rightarrow> int \<Rightarrow> bool \<Rightarrow> string \<Rightarrow> ServerConn \<Rightarrow> string list \<times> bool \<times> ServerConn" where
  "handle_line jt pid reached line s =
     (let trimmed = trim line in
      if trimmed = [] then ([], True, s)
      else (case from_wire jt trimmed of
              Inl e \<Rightarrow> (snd (write_ack jt reached ''error'' (BridgeError_fmt e)), True, s)
            | Inr f \<Rightarrow>
                (case server_answer pid f (sc_queue s) of
                   (None, q) \<Rightarrow> (snd (write_ack jt reached ''unsupported'' []), True, s)
                 | (Some resp, q) \<Rightarrow>
                     (case write_frame jt reached resp of
                        (r, out) \<Rightarrow>
                          if fr_kind f = Shutdown then (out, False, s\<lparr>sc_queue := q, sc_running := False\<rparr>)
                          else (out, \<not> isl r, s\<lparr>sc_queue := q\<rparr>)))))"

fun handle_client :: "JsonText \<Rightarrow> int \<Rightarrow> bool \<Rightarrow> string list \<Rightarrow> ServerConn \<Rightarrow> string list \<times> ServerConn" where
  "handle_client jt pid reached [] s = ([], s)"
| "handle_client jt pid reached (line # ls) s =
     (if \<not> sc_running s then ([], s)
      else (case handle_line jt pid reached line s of
              (out, go, s1) \<Rightarrow>
                if go then (case handle_client jt pid reached ls s1 of (out2, s2) \<Rightarrow> (out @ out2, s2))
                else (out, s1)))"

section \<open>Facts\<close>

lemma drain_empties: "drain q = q\<lparr>bq_inner := []\<rparr>"
proof (induction q rule: drain.induct)
  case (1 q)
  show ?case
  proof (cases "bq_inner q")
    case Nil
    then show ?thesis by (subst drain.simps) (simp add: BoundedQueue_pop_def)
  next
    case (Cons e es)
    then show ?thesis using 1 by (subst drain.simps) (simp add: BoundedQueue_pop_def)
  qed
qed

definition queue_inv :: "ServerConn \<Rightarrow> bool" where
  "queue_inv s \<longleftrightarrow> bq_capacity (sc_queue s) = QUEUE_CAPACITY \<and> length (bq_inner (sc_queue s)) \<le> QUEUE_CAPACITY"

lemma answer_queue:
  "bq_capacity q = QUEUE_CAPACITY \<Longrightarrow> length (bq_inner q) \<le> QUEUE_CAPACITY \<Longrightarrow>
    bq_capacity (snd (server_answer pid f q)) = QUEUE_CAPACITY
    \<and> length (bq_inner (snd (server_answer pid f q))) \<le> QUEUE_CAPACITY"
  by (auto simp: server_answer_def BoundedQueue_push_def drain_empties QUEUE_CAPACITY_def Let_def split: FrameKind.splits)

definition serve_step :: "JsonText \<Rightarrow> int \<Rightarrow> bool \<times> string \<Rightarrow> ServerConn \<Rightarrow> ServerConn" where
  "serve_step jt pid x s = snd (snd (handle_line jt pid (fst x) (snd x) s))"

interpretation serving: machine_invariant "serve_step jt pid" queue_inv for jt pid
proof
  fix s and x :: "bool \<times> string"
  assume "queue_inv s"
  then show "queue_inv (serve_step jt pid x s)"
    using answer_queue [of "sc_queue s" pid]
    by (auto simp: queue_inv_def serve_step_def handle_line_def Let_def split: sum.split prod.splits option.splits)
      (metis snd_conv)+
qed

lemma push_run:
  "bq_capacity q = c \<Longrightarrow> 0 < c \<Longrightarrow> bq_inner q = drop (length xs - c) xs \<Longrightarrow> bq_dropped q = of_nat (length xs - c) \<Longrightarrow>
    run (\<lambda>e q. snd (BoundedQueue_push e q)) es q
      = q\<lparr>bq_inner := drop (length (xs @ es) - c) (xs @ es), bq_dropped := of_nat (length (xs @ es) - c)\<rparr>"
proof (induction es arbitrary: xs q)
  case (Cons e es)
  let ?q = "snd (BoundedQueue_push e q)"
  have q: "?q = q\<lparr>bq_inner := drop (length (xs @ [e]) - c) (xs @ [e]), bq_dropped := of_nat (length (xs @ [e]) - c)\<rparr>"
  proof (cases "c \<le> length xs")
    case True
    then have "Suc (length xs) - c = Suc (length xs - c)" by simp
    then show ?thesis using Cons.prems True by (simp add: BoundedQueue_push_def Let_def tl_drop [symmetric] drop_Suc)
  next
    case False
    then have "Suc (length xs) - c = 0" by simp
    then show ?thesis using Cons.prems False by (simp add: BoundedQueue_push_def)
  qed
  have "run (\<lambda>e q. snd (BoundedQueue_push e q)) es ?q
      = ?q\<lparr>bq_inner := drop (length ((xs @ [e]) @ es) - c) ((xs @ [e]) @ es), bq_dropped := of_nat (length ((xs @ [e]) @ es) - c)\<rparr>"
    by (rule Cons.IH) (simp_all add: q Cons.prems)
  then show ?case by (simp add: q)
qed simp

section \<open>Properties\<close>

text \<open>
  The queue keeps the latest events. After any events on a fresh queue it holds the last of them, in order, as many
  as its capacity, and has counted the others as dropped.
\<close>

theorem queue_keeps_latest:
  "(let q = run (\<lambda>e q. snd (BoundedQueue_push e q)) es (BoundedQueue_new c) in
    if 0 < c then bq_inner q = drop (length es - c) es \<and> bq_dropped q = of_nat (length es - c) else True)"
  using push_run [of "BoundedQueue_new c" c "[]" es] by (simp add: BoundedQueue_new_def Let_def)

text \<open>
  Answers name what they answer. A frame of a kind a client sends gets one answer with its own identifier, the
  magic and the version; a frame of another kind gets none. Over any lines the queue stays within its capacity.
\<close>

theorem answers_echo_frames:
  "(case fst (server_answer pid f q) of
      None \<Rightarrow> fr_kind f \<in> {HelloAck, Pong, Response, EventFrame}
    | Some r \<Rightarrow> fr_kind f \<in> {Hello, Ping, SnapshotFrame, Request, CancelFrame, Shutdown}
        \<and> fr_frame_id r = fr_frame_id f \<and> fr_magic r = MAGIC \<and> fr_version r = VERSION
        \<and> (fr_kind r = HelloAck) = (fr_kind f = Hello) \<and> (fr_kind r = Pong) = (fr_kind f = Ping))
   \<and> length (bq_inner (sc_queue (run (serve_step jt pid) xs ServerConn_new))) \<le> QUEUE_CAPACITY"
proof -
  have "queue_inv (run (serve_step jt pid) xs ServerConn_new)"
    by (rule serving.run_inv) (simp add: queue_inv_def ServerConn_new_def BoundedQueue_new_def)
  then show ?thesis
    by (cases "fr_kind f") (simp_all add: queue_inv_def server_answer_def Frame_new_def Let_def)
qed

end
