(* ===== verification/BridgeLink.thy ===== *)
theory BridgeLink
  imports Bridge Runtime
begin

text \<open>
  The two ends of the bridge together: the Qt supervisor of \<open>Bridge\<close> and the sidecar of \<open>Runtime\<close>, each reading
  what the other wrote.
\<close>

text \<open>
  What the text forms of the two sides owe each other on a value: what one writes is one line within the limit
  that the other reads as that value. Both libraries document it, up to the order of the members of an object.
\<close>

definition text_ok :: "JsonText \<Rightarrow> QtJson \<Rightarrow> json \<Rightarrow> bool" where
  "text_ok jt qj j \<longleftrightarrow>
     (let q = qj_compact qj j in
      jt_parse jt q = Inr j \<and> trim q = q \<and> q \<noteq> [] \<and> length q \<le> MAX_FRAME_BYTES
      \<and> (case jt_render jt j of
            Inl e \<Rightarrow> False
          | Inr t \<Rightarrow> qj_parse qj t = Some j \<and> trim t = t \<and> t \<noteq> [] \<and> length t \<le> MAX_FRAME_BYTES))"

definition rendered :: "JsonText \<Rightarrow> Frame \<Rightarrow> string" where
  "rendered jt f = (case jt_render jt (frame_to_json f) of Inr t \<Rightarrow> t | Inl e \<Rightarrow> [])"

text \<open>The frames of the two sides are the same values.\<close>

lemma frame_kinds_agree: "frameKindToWire k = FrameKind_name k"
  by (cases k) simp_all

lemma frameObject_frame: "frameObject k i p = frame_to_json (Frame_new k i (JObject p))"
  by (simp add: frameObject_def frame_to_json_def Frame_new_def frame_kinds_agree kMagic_def MAGIC_def kVersion_def
      VERSION_def)

lemma server_reads:
  assumes "text_ok jt qj (frameObject k i p)"
  shows "from_wire jt (trim (qj_compact qj (frameObject k i p))) = Inr (Frame_new k i (JObject p))"
  using assms
  by (auto simp: text_ok_def from_wire_def Frame_validate_def frameObject_frame frame_json_trip Let_def Frame_new_def
      split: sum.splits)

lemma server_writes:
  assumes "text_ok jt qj (frame_to_json (Frame_new k i p))"
  shows "write_frame jt True (Frame_new k i p) = (Inr (), [rendered jt (Frame_new k i p)])"
  using assms
  by (auto simp: text_ok_def write_frame_def rendered_def to_wire_def Frame_validate_def Let_def Frame_new_def
      split: sum.splits)

lemma qt_reads:
  assumes "text_ok jt qj (frame_to_json (Frame_new k i p))" and "sv_socket sv"
  shows "onLine qj now (rendered jt (Frame_new k i p)) sv =
    (let kind = FrameKind_name k in
     if kind = ''hello_ack''
     then
       let ok = (j_string (j_value ''status'' (j_object p)) = ''ok'');
           sv1 = sv\<lparr>sv_connected := ok, sv_handshakeDone := True, sv_lastPongMs := now\<rparr>;
           ready = ReadyCall ok (if ok then [] else ''handshake rejected'') in
       if ok then (case flushPending sv1 of (out, sv2) \<Rightarrow> (ready # out, sv2)) else ([ready], sv1)
     else if kind = ''pong'' then ([], sv\<lparr>sv_lastPongMs := now\<rparr>)
     else ([FrameCall (rendered jt (Frame_new k i p))], sv))"
proof -
  have t: "qj_parse qj (rendered jt (Frame_new k i p)) = Some (frame_to_json (Frame_new k i p))"
    "trim (rendered jt (Frame_new k i p)) = rendered jt (Frame_new k i p)" "rendered jt (Frame_new k i p) \<noteq> []"
    using assms(1) by (auto simp: text_ok_def rendered_def Let_def split: sum.splits)
  have m: "j_string (j_value ''magic'' (j_object (frame_to_json (Frame_new k i p)))) = kMagic"
    "j_int (j_value ''version'' (j_object (frame_to_json (Frame_new k i p)))) = kVersion"
    "j_string (j_value ''kind'' (j_object (frame_to_json (Frame_new k i p)))) = FrameKind_name k"
    "j_value ''payload'' (j_object (frame_to_json (Frame_new k i p))) = p"
    by (simp_all add: frame_to_json_def Frame_new_def j_value_def MAGIC_def kMagic_def VERSION_def kVersion_def)
  show ?thesis unfolding onLine_def processFrame_def by (simp only: t m assms(2) option.case Let_def
        not_True_eq_False if_False simp_thms frameKindToWire.simps)
qed

section \<open>Requests posted before the handshake\<close>

text \<open>A request: its frame id, the text of its payload, and the object the text is.\<close>

type_synonym request = "string \<times> string \<times> json_object"

definition request_json :: "request \<Rightarrow> json" where
  "request_json r = frameObject Request (fst r) (snd (snd r))"

definition post_event :: "request \<Rightarrow> sup_event" where
  "post_event r = EPost Request (fst r) (fst (snd r))"

definition postable :: "QtJson \<Rightarrow> request \<Rightarrow> bool" where
  "postable qj r \<longleftrightarrow> kFrameIdMinLen \<le> length (fst r) \<and> qj_parse qj (fst (snd r)) = Some (JObject (snd (snd r)))"

text \<open>The acknowledgement of the greeting and the answers to requests, from a queue of depth \<open>d\<close> on.\<close>

definition ack_frame :: "int \<Rightarrow> Frame" where
  "ack_frame pid = Frame_new HelloAck ''hello-0001'' (JObject
     [(''magic'', JString MAGIC), (''version'', JInt (uint VERSION)), (''status'', JString ''ok''),
      (''pid'', JInt pid), (''queue_capacity'', JInt (int QUEUE_CAPACITY))])"

fun accept_frames :: "nat \<Rightarrow> request list \<Rightarrow> Frame list" where
  "accept_frames d [] = []"
| "accept_frames d (r # rs) =
     Frame_new Response (fst r) (JObject
       [(''accepted'', JBool True), (''queue_depth'', JInt (int d)), (''dropped'', JInt 0)]) # accept_frames (Suc d) rs"

lemma posts_pending:
  "sv_process sv = ProcRunning \<Longrightarrow> sv_connected sv = False \<Longrightarrow> list_all (postable qj) rs \<Longrightarrow>
    length (sv_pending sv) + length rs \<le> kQueueCapacity \<Longrightarrow>
    sup_run qj (map post_event rs) sv
      = ([], sv\<lparr>sv_pending := sv_pending sv @ map (\<lambda>r. qj_compact qj (request_json r)) rs\<rparr>)"
proof (induction rs arbitrary: sv)
  case (Cons r rs)
  let ?sv = "sv\<lparr>sv_pending := sv_pending sv @ [qj_compact qj (request_json r)]\<rparr>"
  have one: "sup_react qj (post_event r) sv = ([], ?sv)"
    using Cons.prems by (simp add: post_event_def postRequest_def postable_def request_json_def Let_def)
  have "sup_run qj (map post_event rs) ?sv
      = ([], ?sv\<lparr>sv_pending := sv_pending ?sv @ map (\<lambda>r. qj_compact qj (request_json r)) rs\<rparr>)"
    by (rule Cons.IH) (use Cons.prems in simp_all)
  then show ?case by (simp add: one)
qed simp

lemma requests_served:
  "sc_running s \<Longrightarrow> bq_capacity (sc_queue s) = QUEUE_CAPACITY \<Longrightarrow> bq_dropped (sc_queue s) = 0 \<Longrightarrow>
    length (bq_inner (sc_queue s)) + length rs \<le> QUEUE_CAPACITY \<Longrightarrow>
    list_all (\<lambda>r. text_ok jt qj (request_json r)) rs \<Longrightarrow>
    list_all (\<lambda>f. text_ok jt qj (frame_to_json f)) (accept_frames (length (bq_inner (sc_queue s))) rs) \<Longrightarrow>
    handle_client jt pid True (map (\<lambda>r. qj_compact qj (request_json r)) rs) s
      = (map (rendered jt) (accept_frames (length (bq_inner (sc_queue s))) rs),
         s\<lparr>sc_queue := (sc_queue s)\<lparr>bq_inner := bq_inner (sc_queue s) @ map (\<lambda>r. JObject (snd (snd r))) rs\<rparr>\<rparr>)"
proof (induction rs arbitrary: s)
  case (Cons r rs)
  let ?q = "sc_queue s" and ?p = "JObject (snd (snd r))" and ?d = "length (bq_inner (sc_queue s))"
  let ?s = "s\<lparr>sc_queue := ?q\<lparr>bq_inner := bq_inner ?q @ [?p]\<rparr>\<rparr>"
  let ?f = "Frame_new Response (fst r) (JObject
       [(''accepted'', JBool True), (''queue_depth'', JInt (int ?d)), (''dropped'', JInt 0)])"
  have ok: "text_ok jt qj (frameObject Request (fst r) (snd (snd r)))" using Cons.prems(5) by (simp add: request_json_def)
  have line: "trim (qj_compact qj (request_json r)) \<noteq> []" using ok by (simp add: text_ok_def request_json_def Let_def)
  have read: "from_wire jt (trim (qj_compact qj (request_json r))) = Inr (Frame_new Request (fst r) ?p)"
    using server_reads [OF ok] by (simp add: request_json_def)
  have answer: "server_answer pid (Frame_new Request (fst r) ?p) ?q = (Some ?f, sc_queue ?s)"
    using Cons.prems(3,4) \<open>bq_capacity ?q = QUEUE_CAPACITY\<close>
    by (simp add: server_answer_def Frame_new_def BoundedQueue_push_def BoundedQueue_len_def Let_def)
  have out: "write_frame jt True ?f = (Inr (), [rendered jt ?f])"
    using Cons.prems(6) by (intro server_writes [of jt qj]) simp
  have one: "handle_line jt pid True (qj_compact qj (request_json r)) s = ([rendered jt ?f], True, ?s)"
    using line unfolding handle_line_def Let_def read by (simp add: answer out) (simp add: Frame_new_def)
  have "handle_client jt pid True (map (\<lambda>r. qj_compact qj (request_json r)) rs) ?s
      = (map (rendered jt) (accept_frames (length (bq_inner (sc_queue ?s))) rs),
         ?s\<lparr>sc_queue := (sc_queue ?s)\<lparr>bq_inner := bq_inner (sc_queue ?s) @ map (\<lambda>r. JObject (snd (snd r))) rs\<rparr>\<rparr>)"
    by (rule Cons.IH) (use Cons.prems in simp_all)
  then show ?case using Cons.prems(1) one by simp
qed simp

lemma answers_delivered:
  "sv_socket sv \<Longrightarrow> list_all (\<lambda>f. text_ok jt qj (frame_to_json f)) (accept_frames d rs) \<Longrightarrow>
    sup_run qj (map (ELine now) (map (rendered jt) (accept_frames d rs))) sv
      = (map FrameCall (map (rendered jt) (accept_frames d rs)), sv)"
proof (induction rs arbitrary: d)
  case (Cons r rs)
  have "sup_run qj (map (ELine now) (map (rendered jt) (accept_frames (Suc d) rs))) sv
      = (map FrameCall (map (rendered jt) (accept_frames (Suc d) rs)), sv)"
    using Cons.prems by (intro Cons.IH) simp_all
  then show ?case using Cons.prems by (simp add: qt_reads Let_def)
qed simp

lemma hello_served:
  assumes "text_ok jt qj (hello_object qpid)" "text_ok jt qj (frame_to_json (ack_frame spid))"
  shows "handle_client jt spid True [qj_compact qj (hello_object qpid)] ServerConn_new
    = ([rendered jt (ack_frame spid)], ServerConn_new)"
proof -
  have line: "trim (qj_compact qj (hello_object qpid)) \<noteq> []" using assms(1) by (simp add: text_ok_def Let_def)
  obtain p where read: "from_wire jt (trim (qj_compact qj (hello_object qpid))) = Inr (Frame_new Hello ''hello-0001'' p)"
    using server_reads assms(1) unfolding hello_object_def by blast
  have out: "write_frame jt True (ack_frame spid) = (Inr (), [rendered jt (ack_frame spid)])"
    using assms(2) server_writes [of jt qj] unfolding ack_frame_def by blast
  have answer: "server_answer spid (Frame_new Hello ''hello-0001'' p) q = (Some (ack_frame spid), q)" for q
    by (simp add: server_answer_def Frame_new_def ack_frame_def)
  have "handle_line jt spid True (qj_compact qj (hello_object qpid)) ServerConn_new
      = ([rendered jt (ack_frame spid)], True, ServerConn_new)"
    using line unfolding handle_line_def Let_def read by (simp add: answer out) (simp add: Frame_new_def)
  then show ?thesis by (simp add: ServerConn_new_def)
qed

lemma ack_delivered:
  assumes "text_ok jt qj (frame_to_json (ack_frame spid))" and "sv_socket sv"
  shows "onLine qj now (rendered jt (ack_frame spid)) sv
    = (ReadyCall True [] # map WriteLine (sv_pending sv),
       sv\<lparr>sv_connected := True, sv_handshakeDone := True, sv_lastPongMs := now, sv_pending := []\<rparr>)"
  using qt_reads [OF assms(1) [unfolded ack_frame_def] assms(2)]
  by (simp add: ack_frame_def j_value_def flushPending_def Let_def)

section \<open>Properties\<close>

text \<open>
  C7: Requests posted while the bridge connects are served. From the start of the sidecar: the supervisor greets it and
  keeps the requests; the sidecar acknowledges; the supervisor is connected, reports it and sends what it kept,
  in the order of posting; the sidecar queues the payloads in that order and accepts each; and the
  supervisor hands over the answers in that order, each with the identifier of its request. At most 256
  requests, and the text forms of the two sides agree on the values exchanged.
\<close>

theorem posted_requests_served:
  assumes "length rs \<le> kQueueCapacity" and "list_all (postable qj) rs"
    and "list_all (text_ok jt qj) (hello_object qpid # frame_to_json (ack_frame spid)
           # map request_json rs @ map frame_to_json (accept_frames 0 rs))"
  shows "let (out1, sv1) = sup_run qj (EStart (Started spid) # EConnected qpid # map post_event rs) Supervisor_new;
      (ans1, srv1) = handle_client jt spid True (writes out1) ServerConn_new;
      (out2, sv2) = sup_run qj (map (ELine now) ans1) sv1;
      (ans2, srv2) = handle_client jt spid True (writes out2) srv1;
      (out3, sv3) = sup_run qj (map (ELine later) ans2) sv2 in
    writes out1 = [qj_compact qj (hello_object qpid)]
    \<and> out2 = ReadyCall True [] # map (\<lambda>r. WriteLine (qj_compact qj (request_json r))) rs
    \<and> out3 = map (\<lambda>f. FrameCall (rendered jt f)) (accept_frames 0 rs)
    \<and> map fr_frame_id (accept_frames 0 rs) = map fst rs
    \<and> bq_inner (sc_queue srv2) = map (\<lambda>r. JObject (snd (snd r))) rs
    \<and> sv_connected sv3 \<and> sv_pending sv3 = []"
proof -
  let ?texts = "map (\<lambda>r. qj_compact qj (request_json r)) rs" and ?answers = "map (rendered jt) (accept_frames 0 rs)"
  have hello: "text_ok jt qj (hello_object qpid)" and ack: "text_ok jt qj (frame_to_json (ack_frame spid))"
    and reqs: "list_all (\<lambda>r. text_ok jt qj (request_json r)) rs"
    and resps: "list_all (\<lambda>f. text_ok jt qj (frame_to_json f)) (accept_frames 0 rs)"
    using assms(3) by (simp_all add: list.pred_map comp_def)
  let ?started = "Supervisor_new\<lparr>sv_process := ProcRunning, sv_pid := spid, sv_socket := True, sv_timer := True\<rparr>"
  let ?kept = "?started\<lparr>sv_pending := ?texts\<rparr>"
  let ?ready = "?kept\<lparr>sv_connected := True, sv_handshakeDone := True, sv_lastPongMs := now, sv_pending := []\<rparr>"
  have posts: "sup_run qj (map post_event rs) ?started = ([], ?kept)"
    using posts_pending [of ?started qj rs] assms(1,2) by (simp add: Supervisor_new_def)
  have 1: "sup_run qj (EStart (Started spid) # EConnected qpid # map post_event rs) Supervisor_new
      = ([StartProcess, ConnectToServer, WriteLine (qj_compact qj (hello_object qpid))], ?kept)"
    using posts by (simp add: Supervisor_start_def launchAndConnect_def onConnected_def sendHello_def Supervisor_new_def)
  have 2: "handle_client jt spid True [qj_compact qj (hello_object qpid)] ServerConn_new
      = ([rendered jt (ack_frame spid)], ServerConn_new)" by (rule hello_served [OF hello ack])
  have 3: "sup_run qj (map (ELine now) [rendered jt (ack_frame spid)]) ?kept = (ReadyCall True [] # map WriteLine ?texts, ?ready)"
    using ack_delivered [OF ack, of ?kept now] by simp
  let ?srv = "ServerConn_new\<lparr>sc_queue := (sc_queue ServerConn_new)\<lparr>bq_inner := map (\<lambda>r. JObject (snd (snd r))) rs\<rparr>\<rparr>"
  have 4: "handle_client jt spid True ?texts ServerConn_new = (?answers, ?srv)"
    using requests_served [of ServerConn_new rs jt qj spid] assms(1) reqs resps
    by (simp add: ServerConn_new_def BoundedQueue_new_def QUEUE_CAPACITY_def kQueueCapacity_def)
  have 5: "sup_run qj (map (ELine later) ?answers) ?ready = (map FrameCall ?answers, ?ready)"
    using answers_delivered [of ?ready jt qj 0 rs later] resps by simp
  have ids: "map fr_frame_id (accept_frames d rs) = map fst rs" for d
    by (induction rs arbitrary: d) (simp_all add: Frame_new_def)
  have w1: "writes [StartProcess, ConnectToServer, WriteLine (qj_compact qj (hello_object qpid))]
      = [qj_compact qj (hello_object qpid)]" by simp
  have w2: "writes (ReadyCall True [] # map WriteLine ?texts) = ?texts"
    using writes_WriteLine [of ?texts] by (simp del: map_map)
  show ?thesis
    unfolding Let_def 1 prod.case w1 2 3 w2 4 5 using ids by simp
qed

text \<open>One request over texts of one letter per value.\<close>

definition demo_request :: request where
  "demo_request = (''req-0001'', ''p'', [(''room'', JString ''gate'')])"

definition demo_texts :: "(string \<times> json) list" where
  "demo_texts =
     [(''h'', hello_object 7), (''a'', frame_to_json (ack_frame 9)), (''q'', request_json demo_request),
      (''r'', frame_to_json (hd (accept_frames 0 [demo_request]))), (''p'', JObject [(''room'', JString ''gate'')])]"

definition demo_text_of :: "json \<Rightarrow> string" where
  "demo_text_of j = (case find (\<lambda>e. snd e = j) demo_texts of Some e \<Rightarrow> fst e | None \<Rightarrow> ''?'')"

definition demo_jt :: JsonText where
  "demo_jt = \<lparr>jt_render = (\<lambda>j. Inr (demo_text_of j)),
     jt_parse = (\<lambda>t. case map_of demo_texts t of Some j \<Rightarrow> Inr j | None \<Rightarrow> Inl []), jt_shape = (\<lambda>j. [])\<rparr>"

definition demo_qj :: QtJson where
  "demo_qj = \<lparr>qj_compact = demo_text_of, qj_parse = map_of demo_texts\<rparr>"

text \<open>Texts of one letter are short enough.\<close>

definition short_text_ok :: "JsonText \<Rightarrow> QtJson \<Rightarrow> json \<Rightarrow> bool" where
  "short_text_ok jt qj j \<longleftrightarrow>
     (let q = qj_compact qj j in
      jt_parse jt q = Inr j \<and> trim q = q \<and> length q = 1
      \<and> (case jt_render jt j of Inl e \<Rightarrow> False | Inr t \<Rightarrow> qj_parse qj t = Some j \<and> trim t = t \<and> length t = 1))"

lemma short_text: "short_text_ok jt qj j \<Longrightarrow> text_ok jt qj j"
  by (auto simp: short_text_ok_def text_ok_def MAX_FRAME_BYTES_def Let_def split: sum.splits)

lemma demo_texts_ok:
  "list_all (short_text_ok demo_jt demo_qj) [hello_object 7, frame_to_json (ack_frame 9), request_json demo_request,
     frame_to_json (hd (accept_frames 0 [demo_request]))]"
  by code_simp

theorem posted_requests_served_witness:
  "let (out1, sv1) = sup_run demo_qj (EStart (Started 9) # EConnected 7 # map post_event [demo_request]) Supervisor_new;
      (ans1, srv1) = handle_client demo_jt 9 True (writes out1) ServerConn_new;
      (out2, sv2) = sup_run demo_qj (map (ELine 1) ans1) sv1;
      (ans2, srv2) = handle_client demo_jt 9 True (writes out2) srv1;
      (out3, sv3) = sup_run demo_qj (map (ELine 2) ans2) sv2 in
    writes out1 = [qj_compact demo_qj (hello_object 7)]
    \<and> out2 = ReadyCall True [] # map (\<lambda>r. WriteLine (qj_compact demo_qj (request_json r))) [demo_request]
    \<and> out3 = map (\<lambda>f. FrameCall (rendered demo_jt f)) (accept_frames 0 [demo_request])
    \<and> map fr_frame_id (accept_frames 0 [demo_request]) = map fst [demo_request]
    \<and> bq_inner (sc_queue srv2) = map (\<lambda>r. JObject (snd (snd r))) [demo_request]
    \<and> sv_connected sv3 \<and> sv_pending sv3 = []"
proof (rule posted_requests_served)
  show "length [demo_request] \<le> kQueueCapacity" by (simp add: kQueueCapacity_def)
  show "list_all (postable demo_qj) [demo_request]" by code_simp
  show "list_all (text_ok demo_jt demo_qj) (hello_object 7 # frame_to_json (ack_frame 9)
      # map request_json [demo_request] @ map frame_to_json (accept_frames 0 [demo_request]))"
    using demo_texts_ok short_text by (simp add: list_all_iff)
qed

end
