(* ===== verification/Providers.thy ===== *)
theory Providers
  imports Privacy Scan Complex_Main
begin

text \<open>
  The provider adapters, \<open>wirecore/crates/wire-provider-adapters/src/lib.rs\<close>: the interface of an adapter, the
  redaction of requests, the local adapter over HTTP and the disabled remote one. Compiled regular expressions,
  the text form of JSON, the exchange over the socket and the clock are arguments; a cancel handle used by
  another thread during a stream is the line before which it cancels.
\<close>

definition ADAPTER_SCHEMA_VERSION :: u32 where "ADAPTER_SCHEMA_VERSION = 1"

section \<open>Data\<close>

datatype ProviderKind = LocalProvider | RemoteProvider

record ProviderCapabilities =
  pk_schema_version :: u32
  pk_provider_id :: string
  pk_kind :: ProviderKind
  pk_model_family :: string
  pk_model :: string
  pk_streaming :: bool
  pk_cancellation :: bool
  pk_usage :: bool
  pk_health :: bool
  pk_context_window :: nat
  pk_max_output :: nat
  pk_locality :: string
  pk_certified :: bool
  pk_remote_egress :: bool

definition ProviderCapabilities_local :: "string \<Rightarrow> string \<Rightarrow> string \<Rightarrow> nat \<Rightarrow> nat \<Rightarrow> ProviderCapabilities" where
  "ProviderCapabilities_local provider_id family model window out =
     \<lparr>pk_schema_version = ADAPTER_SCHEMA_VERSION, pk_provider_id = provider_id, pk_kind = LocalProvider,
      pk_model_family = family, pk_model = model, pk_streaming = True, pk_cancellation = True, pk_usage = True,
      pk_health = True, pk_context_window = window, pk_max_output = out, pk_locality = ''local'',
      pk_certified = False, pk_remote_egress = False\<rparr>"

record CompletionRequest =
  cr_request_id :: string
  cr_feature :: string
  cr_system :: "string option"
  cr_prompt :: string
  cr_max_tokens :: nat
  cr_temperature :: "rat option"
  cr_stream :: bool

record StreamChunk =
  sk_request_id :: string
  sk_delta :: string
  sk_done :: bool

record AdapterUsage =
  au_provider_id :: string
  au_model :: string
  au_feature :: string
  au_prompt_tokens :: nat
  au_completion_tokens :: nat
  au_latency_ms :: u64
  au_request_id :: string

record CompletionResponse =
  rs_text :: string
  rs_usage :: AdapterUsage
  rs_streamed :: bool
  rs_cancelled :: bool

record HealthStatus =
  hs_provider_id :: string
  hs_healthy :: bool
  hs_latency_ms :: u64
  hs_detail :: string

datatype AdapterError =
    AdapterUnavailable string
  | AdapterTimeout string u64
  | AdapterCancelled string string
  | InvalidRequest string
  | AuthError string
  | PolicyError string
  | ProtocolError string
  | CorruptError string
  | RedactionError string

fun AdapterError_user_message :: "AdapterError \<Rightarrow> string" where
  "AdapterError_user_message (AdapterCancelled provider _) = ''request to '' @ provider @ '' was cancelled''"
| "AdapterError_user_message (AdapterTimeout provider budget) =
     provider @ '' did not respond within '' @ show_nat (unat budget) @ '' ms''"
| "AdapterError_user_message (AdapterUnavailable _) = ''provider is unavailable''"
| "AdapterError_user_message (InvalidRequest _) = ''the request was not accepted''"
| "AdapterError_user_message (AuthError _) = ''provider authentication is not configured''"
| "AdapterError_user_message (PolicyError _) = ''the route is not permitted''"
| "AdapterError_user_message (ProtocolError _) = ''the provider returned an invalid response''"
| "AdapterError_user_message (CorruptError _) = ''the provider returned malformed data''"
| "AdapterError_user_message (RedactionError _) = ''the request could not be redacted safely''"

fun AdapterError_is_cancelled :: "AdapterError \<Rightarrow> bool" where
  "AdapterError_is_cancelled (AdapterCancelled _ _) = True"
| "AdapterError_is_cancelled _ = False"

section \<open>Redaction of requests\<close>

text \<open>
  Identifier, class, expression and replacement of the built-in patterns; a tilde stands for a backslash.
\<close>

definition regex_text :: "string \<Rightarrow> string" where
  "regex_text s = map (\<lambda>c. if c = CHR ''~'' then CHR 0x5C else c) s"

definition request_patterns :: "(string \<times> string \<times> string \<times> string) list" where
  "request_patterns =
     [(''cred-01'', ''credential'', regex_text ''(?i)(password|passwd|pass)~s*[:=]~s*~S+'', ''[REDACTED:credential]''),
      (''cred-02'', ''key'', regex_text ''sk-[A-Za-z0-9_-]{8,}'', ''[REDACTED:key]''),
      (''cred-03'', ''key'', regex_text ''(?i)(api[_-]?key|access[_-]?token)~s*[:=]~s*~S+'', ''[REDACTED:key]''),
      (''cred-04'', ''secret'', regex_text ''(?i)(secret|routing[_-]?secret)~s*[:=]~s*~S+'', ''[REDACTED:secret]''),
      (''cred-05'', ''login'', regex_text ''(?i)~b(login|log in|sign in)~s+~S+(~s+~S+)?'', ''[REDACTED:login]''),
      (''cred-06'', ''login'', regex_text ''(?i)~b(quit|logout)~b'', ''[REDACTED:login]''),
      (''cred-07'', ''private-message'', regex_text ''(?im)^~s*(tell|whisper|gtell|ptell|mtell)~s+~S+~s+.*$'',
       ''[REDACTED:private-message]''),
      (''cred-08'', ''voice'', regex_text ''(?i)(voice~s*content~s*[:=]|voice~s*[:=]|~[voice:)[^~n]*'',
       ''[REDACTED:voice-content]'')]"

text \<open>A pattern that does not compile is left out.\<close>

definition RequestRedactor_new ::
    "(string \<Rightarrow> string + (string \<Rightarrow> string \<Rightarrow> string)) \<Rightarrow> RedactionEngine" where
  "RequestRedactor_new compile_regex =
     foldl (\<lambda>engine (i, class, re, rep).
       case RedactionPattern_new compile_regex i class re rep of
         Inr p \<Rightarrow> RedactionEngine_add_pattern p engine
       | Inl _ \<Rightarrow> engine) (RedactionEngine_new True) request_patterns"

definition redact_request :: "RedactionEngine \<Rightarrow> string \<Rightarrow> AdapterError + string" where
  "redact_request engine prompt =
     (if RedactionEngine_pattern_count engine = 0
      then Inl (RedactionError ''no redaction patterns configured'')
      else Inr (RedactionEngine_redact engine prompt))"

section \<open>Building and parsing\<close>

definition build_chat_payload ::
    "(string \<Rightarrow> string) \<Rightarrow> string \<Rightarrow> string option \<Rightarrow> string \<Rightarrow> nat \<Rightarrow> bool \<Rightarrow> string" where
  "build_chat_payload quote model system prompt max_tokens stream =
     (let q = [CHR 0x22];
          field = (\<lambda>k. q @ k @ q @ '':'');
          message = (\<lambda>role content.
            ''{'' @ field ''role'' @ q @ role @ q @ '','' @ field ''content'' @ quote content @ ''}'');
          messages = (case system of None \<Rightarrow> [] | Some sys \<Rightarrow> [message ''system'' sys]) @ [message ''user'' prompt] in
      ''{'' @ field ''model'' @ quote model @ '','' @ field ''messages'' @ ''['' @ str_join '','' messages @ ''],''
      @ field ''stream'' @ (if stream then ''true'' else ''false'') @ '',''
      @ field ''options'' @ ''{'' @ field ''num_predict'' @ show_nat max_tokens @ ''}}'')"

text \<open>\<open>Value::get\<close> with a key, \<open>as_str\<close>, \<open>as_u64\<close>.\<close>

fun v_get :: "string \<Rightarrow> json \<Rightarrow> json option" where
  "v_get k (JObject obj) = map_of obj k"
| "v_get k _ = None"

fun v_str :: "json \<Rightarrow> string option" where
  "v_str (JString s) = Some s"
| "v_str _ = None"

fun v_u64 :: "json \<Rightarrow> nat option" where
  "v_u64 (JInt n) = (if 0 \<le> n \<and> n < 2 ^ 64 then Some (nat n) else None)"
| "v_u64 _ = None"

definition message_content :: "json \<Rightarrow> string option" where
  "message_content v = Option.bind (Option.bind (v_get ''message'' v) (v_get ''content'')) v_str"

definition parse_chat_response :: "(string \<Rightarrow> string + json) \<Rightarrow> string \<Rightarrow> AdapterError + string \<times> nat \<times> nat" where
  "parse_chat_response from_str body =
     (case from_str body of
        Inl e \<Rightarrow> Inl (CorruptError e)
      | Inr v \<Rightarrow>
          (case message_content v of
             None \<Rightarrow> Inl (CorruptError ''missing message.content'')
           | Some t \<Rightarrow>
               Inr (t,
                 (case Option.bind (v_get ''prompt_eval_count'' v) v_u64 of Some n \<Rightarrow> n | None \<Rightarrow> 0),
                 (case Option.bind (v_get ''eval_count'' v) v_u64 of Some n \<Rightarrow> n | None \<Rightarrow> length t))))"

definition parse_stream_line :: "(string \<Rightarrow> string + json) \<Rightarrow> string \<Rightarrow> StreamChunk option" where
  "parse_stream_line from_str raw =
     (let line = trim raw in
      if line = [] then None
      else (case from_str line of
              Inl _ \<Rightarrow> None
            | Inr v \<Rightarrow> Some
                \<lparr>sk_request_id = [],
                 sk_delta = (case message_content v of Some t \<Rightarrow> t | None \<Rightarrow> []),
                 sk_done = (case v_get ''done'' v of Some (JBool b) \<Rightarrow> b | _ \<Rightarrow> False)\<rparr>))"

definition parse_health :: "(string \<Rightarrow> string + json) \<Rightarrow> string \<Rightarrow> AdapterError + bool option" where
  "parse_health from_str body =
     (case from_str body of
        Inl e \<Rightarrow> Inl (CorruptError e)
      | Inr v \<Rightarrow> Inr (case v_get ''models'' v of
                    Some m \<Rightarrow> Some (case m of JArray xs \<Rightarrow> xs \<noteq> [] | _ \<Rightarrow> False)
                  | None \<Rightarrow> None))"

section \<open>The local adapter\<close>

text \<open>What the exchange over the socket comes to.\<close>

datatype IoOutcome =
  IoConnectFailed string | IoSetupFailed string | IoTimedOut | IoFailed string | IoReceived string

text \<open>The regular expressions, JSON, the exchange (address and request) and the address.\<close>

record ProviderEnv =
  pe_redactor :: RedactionEngine
  pe_quote :: "string \<Rightarrow> string"
  pe_from_str :: "string \<Rightarrow> string + json"
  pe_exchange :: "string \<Rightarrow> string \<Rightarrow> IoOutcome"

record OllamaAdapter =
  oa_capabilities :: ProviderCapabilities
  oa_host :: string
  oa_port :: u16
  oa_timeout_ms :: u64
  oa_cancel_flag :: bool
  oa_usage_log :: "AdapterUsage list"

definition OllamaAdapter_new :: "string \<Rightarrow> u16 \<Rightarrow> string \<Rightarrow> nat \<Rightarrow> nat \<Rightarrow> OllamaAdapter" where
  "OllamaAdapter_new host port model window out =
     \<lparr>oa_capabilities = ProviderCapabilities_local ''ollama'' ''ollama'' model window out, oa_host = host,
      oa_port = port, oa_timeout_ms = 30000, oa_cancel_flag = False, oa_usage_log = []\<rparr>"

definition with_timeout :: "u64 \<Rightarrow> OllamaAdapter \<Rightarrow> OllamaAdapter" where
  "with_timeout ms a = a\<lparr>oa_timeout_ms := ms\<rparr>"

definition mark_certified :: "OllamaAdapter \<Rightarrow> OllamaAdapter" where
  "mark_certified a = a\<lparr>oa_capabilities := (oa_capabilities a)\<lparr>pk_certified := True\<rparr>\<rparr>"

abbreviation CRLF :: string where "CRLF \<equiv> [CHR 0x0D, CHR 0x0A]"

text \<open>\<open>str::lines\<close>: a line ends at a line feed, and a carriage return before that is not part of it.\<close>

definition strip_cr :: "string \<Rightarrow> string" where
  "strip_cr l = (if l \<noteq> [] \<and> last l = CHR 0x0D then butlast l else l)"

definition str_lines :: "string \<Rightarrow> string list" where
  "str_lines s =
     (let ws = split_on (CHR 0x0A) s in
      map strip_cr (butlast ws) @ (if last ws = [] then [] else [last ws]))"

definition http_text :: "OllamaAdapter \<Rightarrow> string \<Rightarrow> string option \<Rightarrow> string" where
  "http_text a path body =
     (let content = (case body of None \<Rightarrow> [] | Some b \<Rightarrow> b) in
      (if body = None then ''GET'' else ''POST'') @ '' '' @ path @ '' HTTP/1.1'' @ CRLF
      @ ''Host: '' @ oa_host a @ '':'' @ show_nat (unat (oa_port a)) @ CRLF
      @ ''Content-Type: application/json'' @ CRLF
      @ ''Content-Length: '' @ show_nat (length content) @ CRLF
      @ ''Connection: close'' @ CRLF @ CRLF @ content)"

definition http_request :: "ProviderEnv \<Rightarrow> OllamaAdapter \<Rightarrow> string \<Rightarrow> string option \<Rightarrow> AdapterError + string" where
  "http_request env a path body =
     (case pe_exchange env (oa_host a @ '':'' @ show_nat (unat (oa_port a))) (http_text a path body) of
        IoConnectFailed e \<Rightarrow> Inl (AdapterUnavailable e)
      | IoSetupFailed e \<Rightarrow> Inl (ProtocolError e)
      | IoTimedOut \<Rightarrow> Inl (AdapterTimeout (pk_provider_id (oa_capabilities a)) (oa_timeout_ms a))
      | IoFailed e \<Rightarrow> Inl (AdapterUnavailable e)
      | IoReceived resp \<Rightarrow>
          let status = (case str_lines resp of [] \<Rightarrow> [] | l # _ \<Rightarrow> l) in
          if \<not> str_contains status '' 200 '' then Inl (ProtocolError (''http status: '' @ trim status))
          else (case find_text resp (CRLF @ CRLF) of
                  None \<Rightarrow> Inl (ProtocolError ''missing header separator'')
                | Some i \<Rightarrow> Inr (drop (i + 4) resp)))"

definition OllamaAdapter_health :: "ProviderEnv \<Rightarrow> u64 \<Rightarrow> OllamaAdapter \<Rightarrow> AdapterError + HealthStatus" where
  "OllamaAdapter_health env latency a =
     (case http_request env a ''/api/tags'' None of
        Inl e \<Rightarrow> Inl e
      | Inr body \<Rightarrow>
          let healthy = (case parse_health (pe_from_str env) body of Inr (Some b) \<Rightarrow> b | _ \<Rightarrow> False) in
          Inr \<lparr>hs_provider_id = pk_provider_id (oa_capabilities a), hs_healthy = healthy, hs_latency_ms = latency,
               hs_detail = (if healthy then ''ok'' else ''no models'')\<rparr>)"

definition cancelled_error :: "CompletionRequest \<Rightarrow> OllamaAdapter \<Rightarrow> AdapterError" where
  "cancelled_error r a = AdapterCancelled (pk_provider_id (oa_capabilities a)) (cr_request_id r)"

text \<open>The part that \<open>complete\<close> and \<open>stream\<close> share: the cancel flag, redaction, the request.\<close>

definition send_chat :: "ProviderEnv \<Rightarrow> bool \<Rightarrow> CompletionRequest \<Rightarrow> OllamaAdapter \<Rightarrow> AdapterError + string" where
  "send_chat env streaming r a =
     (if oa_cancel_flag a then Inl (cancelled_error r a)
      else (case redact_request (pe_redactor env) (cr_prompt r) of
              Inl e \<Rightarrow> Inl e
            | Inr safe \<Rightarrow> http_request env a ''/api/chat''
                (Some (build_chat_payload (pe_quote env) (pk_model (oa_capabilities a)) (cr_system r) safe
                   (cr_max_tokens r) streaming))))"

definition adapter_usage :: "CompletionRequest \<Rightarrow> nat \<Rightarrow> nat \<Rightarrow> u64 \<Rightarrow> OllamaAdapter \<Rightarrow> AdapterUsage" where
  "adapter_usage r prompt_tokens completion_tokens latency a =
     \<lparr>au_provider_id = pk_provider_id (oa_capabilities a), au_model = pk_model (oa_capabilities a),
      au_feature = cr_feature r, au_prompt_tokens = prompt_tokens, au_completion_tokens = completion_tokens,
      au_latency_ms = latency, au_request_id = cr_request_id r\<rparr>"

definition OllamaAdapter_complete ::
    "ProviderEnv \<Rightarrow> u64 \<Rightarrow> CompletionRequest \<Rightarrow> OllamaAdapter \<Rightarrow> (AdapterError + CompletionResponse) \<times> OllamaAdapter" where
  "OllamaAdapter_complete env latency r a =
     (case send_chat env False r a of
        Inl e \<Rightarrow> (Inl e, a)
      | Inr body \<Rightarrow>
          (case parse_chat_response (pe_from_str env) body of
             Inl e \<Rightarrow> (Inl e, a)
           | Inr (t, pt, ct) \<Rightarrow>
               let u = adapter_usage r pt ct latency a in
               (Inr \<lparr>rs_text = t, rs_usage = u, rs_streamed = False, rs_cancelled = False\<rparr>,
                a\<lparr>oa_usage_log := oa_usage_log a @ [u]\<rparr>)))"

text \<open>
  The loop over the lines: the chunks given to the sink and the text, or the chunks given before the
  cancellation. \<open>cancel_at\<close> is the number of lines after which another thread cancels.
\<close>

fun stream_loop ::
    "(string \<Rightarrow> string + json) \<Rightarrow> string \<Rightarrow> nat option \<Rightarrow> nat \<Rightarrow> string list \<Rightarrow> string \<Rightarrow> StreamChunk list
     \<Rightarrow> StreamChunk list \<times> string option" where
  "stream_loop from_str rid cancel_at i [] t chunks = (chunks, Some t)"
| "stream_loop from_str rid cancel_at i (l # ls) t chunks =
     (if (case cancel_at of None \<Rightarrow> False | Some k \<Rightarrow> k \<le> i) then (chunks, None)
      else (case parse_stream_line from_str l of
              None \<Rightarrow> stream_loop from_str rid cancel_at (Suc i) ls t chunks
            | Some c \<Rightarrow>
                stream_loop from_str rid cancel_at (Suc i) ls (if sk_delta c \<noteq> [] then t @ sk_delta c else t)
                  (chunks @ [\<lparr>sk_request_id = rid, sk_delta = sk_delta c, sk_done = sk_done c\<rparr>])))"

definition OllamaAdapter_stream ::
    "ProviderEnv \<Rightarrow> u64 \<Rightarrow> nat option \<Rightarrow> CompletionRequest \<Rightarrow> OllamaAdapter
     \<Rightarrow> StreamChunk list \<times> (AdapterError + CompletionResponse) \<times> OllamaAdapter" where
  "OllamaAdapter_stream env latency cancel_at r a =
     (case send_chat env True r a of
        Inl e \<Rightarrow> ([], Inl e, a)
      | Inr body \<Rightarrow>
          let a1 = a\<lparr>oa_cancel_flag := (cancel_at \<noteq> None)\<rparr> in
          (case stream_loop (pe_from_str env) (cr_request_id r) cancel_at 0 (str_lines body) [] [] of
             (chunks, None) \<Rightarrow> (chunks, Inl (cancelled_error r a), a1)
           | (chunks, Some t) \<Rightarrow>
               let u = adapter_usage r 0 (length t) latency a in
               (chunks, Inr \<lparr>rs_text = t, rs_usage = u, rs_streamed = True, rs_cancelled = False\<rparr>,
                a1\<lparr>oa_usage_log := oa_usage_log a @ [u]\<rparr>)))"

definition OllamaAdapter_cancel :: "OllamaAdapter \<Rightarrow> OllamaAdapter" where
  "OllamaAdapter_cancel a = a\<lparr>oa_cancel_flag := True\<rparr>"

section \<open>The disabled adapter\<close>

record DisabledRemoteAdapter =
  da_capabilities :: ProviderCapabilities

definition DisabledRemoteAdapter_new :: "string \<Rightarrow> string \<Rightarrow> string \<Rightarrow> DisabledRemoteAdapter" where
  "DisabledRemoteAdapter_new provider_id model endpoint =
     \<lparr>da_capabilities = (ProviderCapabilities_local provider_id ''remote'' model 0 0)
        \<lparr>pk_kind := RemoteProvider, pk_locality := ''remote'', pk_certified := False, pk_remote_egress := True,
         pk_context_window := 0, pk_max_output := 0\<rparr>\<rparr>"

definition Disabled_deny :: AdapterError where
  "Disabled_deny = PolicyError ''remote adapter disabled until certified''"

definition Disabled_complete ::
    "CompletionRequest \<Rightarrow> DisabledRemoteAdapter \<Rightarrow> (AdapterError + CompletionResponse) \<times> DisabledRemoteAdapter" where
  "Disabled_complete r d = (Inl Disabled_deny, d)"

definition Disabled_stream ::
    "CompletionRequest \<Rightarrow> DisabledRemoteAdapter \<Rightarrow> StreamChunk list \<times> (AdapterError + CompletionResponse) \<times> DisabledRemoteAdapter" where
  "Disabled_stream r d = ([], Inl Disabled_deny, d)"

section \<open>The interface of adapters\<close>

text \<open>A sequence of calls on one adapter: the results and the final state.\<close>

fun calls :: "('r \<Rightarrow> 's \<Rightarrow> 'x \<times> 's) \<Rightarrow> 'r list \<Rightarrow> 's \<Rightarrow> 'x list \<times> 's" where
  "calls f [] s = ([], s)"
| "calls f (r # rs) s = (case f r s of (x, s1) \<Rightarrow> (case calls f rs s1 of (xs, s2) \<Rightarrow> (x # xs, s2)))"

fun usages :: "(AdapterError + CompletionResponse) list \<Rightarrow> AdapterUsage list" where
  "usages [] = []"
| "usages (Inl e # xs) = usages xs"
| "usages (Inr resp # xs) = rs_usage resp # usages xs"

text \<open>
  What a client relies on in the trait \<open>ProviderAdapter\<close>: the log has the usage of every answer and nothing else,
  and an adapter that was cancelled refuses and stays cancelled.
\<close>

locale provider_adapter =
  fixes call :: "'r \<Rightarrow> 's \<Rightarrow> (AdapterError + CompletionResponse) \<times> 's"
    and usage :: "'s \<Rightarrow> AdapterUsage list"
    and halted :: "'s \<Rightarrow> bool"
  assumes logged: "usage (snd (call r s)) = usage s @ usages [fst (call r s)]"
    and refused: "halted s \<Longrightarrow> isl (fst (call r s)) \<and> halted (snd (call r s))"
begin

lemma usage_log: "usage (snd (calls call rs s)) = usage s @ usages (fst (calls call rs s))"
proof (induction rs arbitrary: s)
  case (Cons r rs)
  show ?case using Cons logged [of r s] by (cases "fst (call r s)") (simp_all add: split_beta)
qed simp

lemma halted_refuses: "halted s \<Longrightarrow> list_all isl (fst (calls call rs s)) \<and> halted (snd (calls call rs s))"
  by (induction rs arbitrary: s) (auto simp: split_beta refused)

end

text \<open>The calls of the local adapter: \<open>complete\<close>, and \<open>stream\<close> without its chunks.\<close>

datatype adapter_call = CompleteCall u64 CompletionRequest | StreamCall u64 "nat option" CompletionRequest

fun ollama_call :: "ProviderEnv \<Rightarrow> adapter_call \<Rightarrow> OllamaAdapter \<Rightarrow> (AdapterError + CompletionResponse) \<times> OllamaAdapter" where
  "ollama_call env (CompleteCall t r) a = OllamaAdapter_complete env t r a"
| "ollama_call env (StreamCall t k r) a = snd (OllamaAdapter_stream env t k r a)"

fun disabled_call :: "adapter_call \<Rightarrow> DisabledRemoteAdapter \<Rightarrow> (AdapterError + CompletionResponse) \<times> DisabledRemoteAdapter" where
  "disabled_call (CompleteCall t r) d = Disabled_complete r d"
| "disabled_call (StreamCall t k r) d = snd (Disabled_stream r d)"

lemma complete_logged:
  "oa_usage_log (snd (OllamaAdapter_complete env t r a)) = oa_usage_log a @ usages [fst (OllamaAdapter_complete env t r a)]"
proof (cases "send_chat env False r a")
  case (Inr body)
  show ?thesis
  proof (cases "parse_chat_response (pe_from_str env) body")
    case Inl
    then show ?thesis using Inr by (simp add: OllamaAdapter_complete_def)
  next
    case parsed: (Inr x)
    obtain u pt ct where "x = (u, pt, ct)" by (cases x)
    then show ?thesis using Inr parsed by (simp add: OllamaAdapter_complete_def Let_def)
  qed
qed (simp add: OllamaAdapter_complete_def)

lemma stream_logged:
  "oa_usage_log (snd (snd (OllamaAdapter_stream env t k r a)))
    = oa_usage_log a @ usages [fst (snd (OllamaAdapter_stream env t k r a))]"
proof (cases "send_chat env True r a")
  case (Inr body)
  obtain cs u where "stream_loop (pe_from_str env) (cr_request_id r) k 0 (str_lines body) [] [] = (cs, u)"
    by (cases "stream_loop (pe_from_str env) (cr_request_id r) k 0 (str_lines body) [] []")
  with Inr show ?thesis by (cases u) (simp_all add: OllamaAdapter_stream_def Let_def)
qed (simp add: OllamaAdapter_stream_def)

interpretation ollama: provider_adapter "ollama_call env" oa_usage_log oa_cancel_flag for env
proof
  fix c a
  show "oa_usage_log (snd (ollama_call env c a)) = oa_usage_log a @ usages [fst (ollama_call env c a)]"
    by (cases c) (simp_all only: ollama_call.simps complete_logged stream_logged)
  show "oa_cancel_flag a \<Longrightarrow> isl (fst (ollama_call env c a)) \<and> oa_cancel_flag (snd (ollama_call env c a))"
    by (cases c) (simp_all add: OllamaAdapter_complete_def OllamaAdapter_stream_def send_chat_def)
qed

interpretation disabled: provider_adapter disabled_call "\<lambda>d. []" "\<lambda>d. True"
proof
  fix c d
  show "[] = [] @ usages [fst (disabled_call c d)]"
    by (cases c) (simp_all add: Disabled_complete_def Disabled_stream_def)
  show "isl (fst (disabled_call c d)) \<and> True"
    by (cases c) (simp_all add: Disabled_complete_def Disabled_stream_def)
qed

section \<open>Facts\<close>

lemma stream_loop_text:
  "stream_loop from_str rid k i ls t chunks = (cs, Some u) \<Longrightarrow> t = concat (map sk_delta chunks) \<Longrightarrow>
    u = concat (map sk_delta cs)"
  by (induction from_str rid k i ls t chunks rule: stream_loop.induct) (auto split: if_splits option.splits)

lemma stream_loop_ids:
  "list_all (\<lambda>c. sk_request_id c = rid) chunks \<Longrightarrow>
    list_all (\<lambda>c. sk_request_id c = rid) (fst (stream_loop from_str rid k i ls t chunks))"
  by (induction from_str rid k i ls t chunks rule: stream_loop.induct) (auto split: if_splits option.splits)

text \<open>The redactor has a pattern as soon as one of the built-in ones compiles.\<close>

lemma redactor_patterns:
  "RedactionEngine_pattern_count (RequestRedactor_new cre)
    = length (filter (\<lambda>(i, class, re, rep). \<not> isl (cre re)) request_patterns)"
proof -
  have "RedactionEngine_pattern_count
      (foldl (\<lambda>engine (i, class, re, rep). case RedactionPattern_new cre i class re rep of
         Inr p \<Rightarrow> RedactionEngine_add_pattern p engine | Inl _ \<Rightarrow> engine) e ps)
      = RedactionEngine_pattern_count e + length (filter (\<lambda>(i, class, re, rep). \<not> isl (cre re)) ps)" for e ps
  proof (induction ps arbitrary: e)
    case (Cons q ps)
    obtain i cl re rp where q: "q = (i, cl, re, rp)" by (cases q)
    show ?case
      using Cons by (cases "cre re")
        (simp_all add: q RedactionEngine_pattern_count_def RedactionEngine_add_pattern_def RedactionPattern_new_def)
  qed simp
  then show ?thesis
    by (simp add: RequestRedactor_new_def RedactionEngine_pattern_count_def RedactionEngine_new_def)
qed

lemma prompt_unused:
  "adapter_usage (r\<lparr>cr_prompt := p\<rparr>) = adapter_usage r" "cancelled_error (r\<lparr>cr_prompt := p\<rparr>) = cancelled_error r"
  "cr_request_id (r\<lparr>cr_prompt := p\<rparr>) = cr_request_id r"
  by (simp_all add: fun_eq_iff adapter_usage_def cancelled_error_def)

lemma send_chat_prompt:
  "redact_request (pe_redactor env) p = redact_request (pe_redactor env) q \<Longrightarrow>
    send_chat env b (r\<lparr>cr_prompt := p\<rparr>) a = send_chat env b (r\<lparr>cr_prompt := q\<rparr>) a"
  by (cases "redact_request (pe_redactor env) q") (simp_all add: send_chat_def prompt_unused)

section \<open>Properties\<close>

text \<open>
  C14: Prompts leave redacted. Whatever the adapter, the peer and the regular expressions, two prompts that redaction
  makes equal give the same requests, answers, chunks and state.
\<close>

theorem prompts_leave_redacted:
  "(if redact_request (pe_redactor env) p = redact_request (pe_redactor env) q
    then OllamaAdapter_complete env t (r\<lparr>cr_prompt := p\<rparr>) a = OllamaAdapter_complete env t (r\<lparr>cr_prompt := q\<rparr>) a
      \<and> OllamaAdapter_stream env t k (r\<lparr>cr_prompt := p\<rparr>) a = OllamaAdapter_stream env t k (r\<lparr>cr_prompt := q\<rparr>) a
    else True)"
proof (cases "redact_request (pe_redactor env) p = redact_request (pe_redactor env) q")
  case True
  show ?thesis
    unfolding OllamaAdapter_complete_def OllamaAdapter_stream_def send_chat_prompt [OF True] prompt_unused by simp
qed simp

text \<open>The system text of a request is part of the payload as it is.\<close>

theorem system_text_leaves: "sublist (quote sys) (build_chat_payload quote model (Some sys) prompt n streaming)"
proof -
  let ?q = "[CHR 0x22]"
  let ?f = "\<lambda>k. ?q @ k @ ?q @ '':''"
  let ?before = "''{'' @ ?f ''model'' @ quote model @ '','' @ ?f ''messages'' @ ''[{'' @ ?f ''role'' @ ?q @ ''system'' @ ?q
    @ '','' @ ?f ''content''"
  let ?after = "''},{'' @ ?f ''role'' @ ?q @ ''user'' @ ?q @ '','' @ ?f ''content'' @ quote prompt @ ''}],''
    @ ?f ''stream'' @ (if streaming then ''true'' else ''false'') @ '','' @ ?f ''options'' @ ''{'' @ ?f ''num_predict''
    @ show_nat n @ ''}}''"
  have "build_chat_payload quote model (Some sys) prompt n streaming = ?before @ quote sys @ ?after"
    by (simp add: build_chat_payload_def Let_def)
  then show ?thesis unfolding sublist_def by blast
qed

text \<open>
  Usage is accounted for, and a cancellation is final. After any calls the log of the local adapter has grown by
  the usage of each answer, in order. After a cancellation every call is refused as cancelled, for ever,
  and nothing is logged.
\<close>

theorem adapter_accounts_and_cancels:
  "oa_usage_log (snd (calls (ollama_call env) cs a)) = oa_usage_log a @ usages (fst (calls (ollama_call env) cs a))
   \<and> list_all (\<lambda>x. case x of Inl e \<Rightarrow> AdapterError_is_cancelled e | Inr _ \<Rightarrow> False)
       (fst (calls (ollama_call env) cs (OllamaAdapter_cancel a)))
   \<and> snd (calls (ollama_call env) cs (OllamaAdapter_cancel a)) = OllamaAdapter_cancel a"
proof (intro conjI)
  show "oa_usage_log (snd (calls (ollama_call env) cs a)) = oa_usage_log a @ usages (fst (calls (ollama_call env) cs a))"
    by (rule ollama.usage_log)
  have one: "\<exists>e. AdapterError_is_cancelled e \<and> ollama_call env c (OllamaAdapter_cancel a) = (Inl e, OllamaAdapter_cancel a)" for c
    by (cases c) (simp_all add: OllamaAdapter_complete_def OllamaAdapter_stream_def send_chat_def cancelled_error_def
        OllamaAdapter_cancel_def)
  have "list_all (\<lambda>x. case x of Inl e \<Rightarrow> AdapterError_is_cancelled e | Inr _ \<Rightarrow> False)
       (fst (calls (ollama_call env) cs (OllamaAdapter_cancel a)))
     \<and> snd (calls (ollama_call env) cs (OllamaAdapter_cancel a)) = OllamaAdapter_cancel a"
  proof (induction cs)
    case (Cons c cs)
    obtain e where "AdapterError_is_cancelled e" "ollama_call env c (OllamaAdapter_cancel a) = (Inl e, OllamaAdapter_cancel a)"
      using one by blast
    then show ?case using Cons by (simp add: split_beta)
  qed simp
  then show "list_all (\<lambda>x. case x of Inl e \<Rightarrow> AdapterError_is_cancelled e | Inr _ \<Rightarrow> False)
       (fst (calls (ollama_call env) cs (OllamaAdapter_cancel a)))"
    and "snd (calls (ollama_call env) cs (OllamaAdapter_cancel a)) = OllamaAdapter_cancel a" by simp_all
qed

text \<open>
  A streamed answer is what the sink was given: its text is the deltas of the chunks in order, each of which has
  the identifier of the request.
\<close>

theorem stream_is_its_chunks:
  "(case OllamaAdapter_stream env t k r a of
      (chunks, result, a1) \<Rightarrow>
        list_all (\<lambda>c. sk_request_id c = cr_request_id r) chunks
        \<and> (case result of Inl e \<Rightarrow> True | Inr resp \<Rightarrow> rs_text resp = concat (map sk_delta chunks) \<and> rs_streamed resp))"
proof (cases "send_chat env True r a")
  case (Inl e)
  then show ?thesis by (simp add: OllamaAdapter_stream_def)
next
  case (Inr body)
  let ?l = "stream_loop (pe_from_str env) (cr_request_id r) k 0 (str_lines body) [] []"
  have "list_all (\<lambda>c. sk_request_id c = cr_request_id r) (fst ?l)" by (rule stream_loop_ids) simp
  moreover have "?l = (cs, Some u) \<Longrightarrow> u = concat (map sk_delta cs)" for cs u
    by (rule stream_loop_text [where chunks = "[]"]) simp_all
  ultimately show ?thesis
    using Inr by (cases ?l; cases "snd ?l") (auto simp: OllamaAdapter_stream_def Let_def)
qed

text \<open>The disabled adapter denies every call and says that it is remote and not certified.\<close>

theorem disabled_adapter_denies:
  "list_all (\<lambda>x. x = Inl (PolicyError ''remote adapter disabled until certified''))
     (fst (calls disabled_call cs (DisabledRemoteAdapter_new i m endpoint)))
   \<and> pk_certified (da_capabilities (DisabledRemoteAdapter_new i m endpoint)) = False
   \<and> pk_kind (da_capabilities (DisabledRemoteAdapter_new i m endpoint)) = RemoteProvider"
proof -
  have "disabled_call c d = (Inl Disabled_deny, d)" for c d
    by (cases c) (simp_all add: Disabled_complete_def Disabled_stream_def)
  then have "list_all (\<lambda>x. x = Inl Disabled_deny) (fst (calls disabled_call cs d))" for d
    by (induction cs) (simp_all add: split_beta)
  then show ?thesis by (simp add: Disabled_deny_def DisabledRemoteAdapter_new_def)
qed

end
