(* ===== verification/Glob.thy ===== *)
theory Glob
  imports Prelude
begin

text \<open>
  The ignore patterns of the source index, \<open>glob_match\<close> and \<open>simple_glob\<close> of
  \<open>wirecore/crates/wire-help/src/lib.rs\<close>: a loop over two positions that remembers the last star and goes
  back to it on a mismatch. The specification says what a pattern means; the loop is proved to end, and
  to decide it for the paths without a star of their own.
\<close>

definition STAR :: char where "STAR = CHR ''*''"

definition ANY :: char where "ANY = CHR ''?''"

section \<open>The code\<close>

text \<open>
  The loop: \<open>None\<close> is the return of \<open>false\<close>, \<open>Some\<close> the position in the pattern when the text is used up.
\<close>

partial_function (option) glob_loop ::
    "string \<Rightarrow> string \<Rightarrow> nat \<Rightarrow> nat \<Rightarrow> nat option \<Rightarrow> nat \<Rightarrow> nat option option" where
  "glob_loop p t i j star mark =
     (if j < length t then
        if i < length p \<and> (p ! i = ANY \<or> p ! i = t ! j) then glob_loop p t (i + 1) (j + 1) star mark
        else if i < length p \<and> p ! i = STAR then glob_loop p t (i + 1) j (Some i) j
        else (case star of
                Some sp \<Rightarrow> glob_loop p t (sp + 1) (mark + 1) star (mark + 1)
              | None \<Rightarrow> Some None)
      else Some (Some i))"

definition simple_glob :: "string \<Rightarrow> string \<Rightarrow> bool option" where
  "simple_glob pattern txt =
     map_option (\<lambda>r. case r of None \<Rightarrow> False | Some i \<Rightarrow> dropWhile (\<lambda>c. c = STAR) (drop i pattern) = [])
       (glob_loop pattern txt 0 0 None 0)"

definition glob_match :: "string \<Rightarrow> string \<Rightarrow> bool option" where
  "glob_match pattern path =
     (if STAR \<in> set pattern \<or> ANY \<in> set pattern then simple_glob pattern path
      else Some (str_contains path pattern))"

section \<open>What a pattern means\<close>

fun piece :: "char \<Rightarrow> string \<Rightarrow> bool" where
  "piece a w = (if a = STAR then True else if a = ANY then length w = 1 else w = [a])"

definition glob_spec :: "string \<Rightarrow> string \<Rightarrow> bool" where
  "glob_spec p t \<longleftrightarrow> (\<exists>ws. concat ws = t \<and> list_all2 piece p ws)"

lemma glob_spec_Nil [simp]: "glob_spec [] t \<longleftrightarrow> t = []"
  by (auto simp: glob_spec_def)

lemma glob_spec_Cons: "glob_spec (a # p) t \<longleftrightarrow> (\<exists>u v. t = u @ v \<and> piece a u \<and> glob_spec p v)"
proof
  assume "glob_spec (a # p) t"
  then obtain w ws where "concat (w # ws) = t" "piece a w" "list_all2 piece p ws"
    unfolding glob_spec_def list_all2_Cons1 by blast
  then show "\<exists>u v. t = u @ v \<and> piece a u \<and> glob_spec p v" unfolding glob_spec_def by (metis concat.simps(2))
next
  assume "\<exists>u v. t = u @ v \<and> piece a u \<and> glob_spec p v"
  then obtain u ws where "t = u @ concat ws" "piece a u" "list_all2 piece p ws" unfolding glob_spec_def by blast
  then show "glob_spec (a # p) t" unfolding glob_spec_def by (intro exI [of _ "u # ws"]) simp
qed

lemma glob_spec_star: "glob_spec (STAR # p) t \<longleftrightarrow> (\<exists>u v. t = u @ v \<and> glob_spec p v)"
  by (simp add: glob_spec_Cons)

lemma glob_spec_char:
  "a \<noteq> STAR \<Longrightarrow> glob_spec (a # p) t \<longleftrightarrow> (case t of [] \<Rightarrow> False | c # cs \<Rightarrow> (a = ANY \<or> a = c) \<and> glob_spec p cs)"
proof (cases t)
  case (Cons c cs)
  assume "a \<noteq> STAR"
  then have "piece a u \<longleftrightarrow> (\<exists>d. u = [d] \<and> (a = ANY \<or> a = d))" for u
    by (auto simp: length_Suc_conv)
  moreover have "c # cs = [c] @ cs" by simp
  ultimately have "(\<exists>u v. c # cs = u @ v \<and> piece a u \<and> glob_spec p v) \<longleftrightarrow> (a = ANY \<or> a = c) \<and> glob_spec p cs"
    by (metis append_Cons append_Nil list.inject)
  then show ?thesis unfolding Cons glob_spec_Cons by simp
qed (auto simp: glob_spec_Cons)

lemma star_suffix: "glob_spec (STAR # p) v \<Longrightarrow> glob_spec (STAR # p) (u @ v)"
  unfolding glob_spec_star by (metis append_assoc)

lemma star_tail: "glob_spec (STAR # p) (c # t) \<longleftrightarrow> glob_spec p (c # t) \<or> glob_spec (STAR # p) t"
  unfolding glob_spec_star by (metis Cons_eq_append_conv append_Nil)

lemma glob_spec_end: "glob_spec p [] \<longleftrightarrow> dropWhile (\<lambda>c. c = STAR) p = []"
proof (induction p)
  case (Cons a p)
  then show ?case by (cases "a = STAR") (auto simp: glob_spec_star glob_spec_char)
qed simp

text \<open>A part of a pattern without stars matches texts of its own length, character by character.\<close>

abbreviation fits :: "string \<Rightarrow> string \<Rightarrow> bool" where
  "fits \<equiv> list_all2 (\<lambda>a c. a \<noteq> STAR \<and> (a = ANY \<or> a = c))"

lemma fits_spec: "fits s m \<Longrightarrow> glob_spec (s @ p) (m @ t) \<longleftrightarrow> glob_spec p t"
  by (induction rule: list_all2_induct) (auto simp: glob_spec_char)

lemma plain_spec: "STAR \<notin> set s \<Longrightarrow> glob_spec (s @ p) t \<Longrightarrow> \<exists>m r. t = m @ r \<and> length m = length s \<and> glob_spec p r"
proof (induction s arbitrary: t)
  case (Cons a s)
  then obtain c cs where t: "t = c # cs" "glob_spec (s @ p) cs" by (auto simp: glob_spec_char split: list.splits)
  from Cons.IH [OF _ this(2)] Cons.prems(1) obtain m r where "cs = m @ r" "length m = length s" "glob_spec p r" by auto
  then show ?case using t(1) by (intro exI [of _ "c # m"] exI [of _ r]) simp
qed simp

lemma fits_plain: "fits s m \<Longrightarrow> STAR \<notin> set s"
  by (induction rule: list_all2_induct) auto

text \<open>
  Going back only to the last star is enough: where a part without stars fits, the first place it
  fits serves as well as a later one.
\<close>

lemma last_star:
  assumes "fits s m"
  shows "glob_spec (STAR # s @ STAR # p) (m @ t) \<longleftrightarrow> glob_spec (STAR # p) t"
proof
  assume "glob_spec (STAR # s @ STAR # p) (m @ t)"
  then obtain u v where uv: "m @ t = u @ v" "glob_spec (s @ STAR # p) v" by (auto simp: glob_spec_star)
  then obtain m' r where r: "v = m' @ r" "length m' = length s" "glob_spec (STAR # p) r"
    using plain_spec [OF fits_plain [OF assms]] by blast
  have "length m \<le> length (u @ m')" using r(2) list_all2_lengthD [OF assms] by simp
  then obtain w where "t = w @ r" using uv(1) r(1)
    by (metis append_assoc append_eq_append_conv_if append_eq_conv_conj)
  then show "glob_spec (STAR # p) t" using star_suffix [OF r(3)] by simp
next
  assume "glob_spec (STAR # p) t"
  then have "glob_spec (s @ STAR # p) (m @ t)" by (simp add: fits_spec [OF assms])
  then show "glob_spec (STAR # s @ STAR # p) (m @ t)" by (metis append_Nil glob_spec_star)
qed

lemma star_mismatch:
  assumes "fits s m" and "\<not> glob_spec p (c # t)"
  shows "glob_spec (STAR # s @ p) (m @ c # t) \<longleftrightarrow> glob_spec (STAR # s @ p) (tl (m @ c # t))"
proof -
  have "\<not> glob_spec (s @ p) (m @ c # t)" using assms by (simp add: fits_spec)
  then show ?thesis by (cases m) (simp_all add: star_tail)
qed

lemma star_end:
  assumes "fits s m"
  shows "glob_spec (STAR # s @ p) m \<longleftrightarrow> glob_spec p []"
proof
  assume "glob_spec (STAR # s @ p) m"
  then obtain u v where uv: "m = u @ v" "glob_spec (s @ p) v" by (auto simp: glob_spec_star)
  then obtain m' r where r: "v = m' @ r" "length m' = length s" "glob_spec p r"
    using plain_spec [OF fits_plain [OF assms]] by blast
  then show "glob_spec p []" using uv(1) list_all2_lengthD [OF assms] by simp
next
  assume "glob_spec p []"
  then have "glob_spec (s @ p) (m @ [])" by (simp only: fits_spec [OF assms])
  then show "glob_spec (STAR # s @ p) m" by (metis append_Nil append_Nil2 glob_spec_star)
qed

section \<open>The loop decides it\<close>

definition glob_bounds :: "string \<Rightarrow> string \<Rightarrow> nat \<Rightarrow> nat \<Rightarrow> nat option \<Rightarrow> nat \<Rightarrow> bool" where
  "glob_bounds p t i j star mark \<longleftrightarrow>
     i \<le> length p \<and> j \<le> length t \<and> (case star of None \<Rightarrow> True | Some sp \<Rightarrow> sp < i \<and> mark \<le> j)"

text \<open>What has been read since the last star fits, and the question is still the one from that star on.\<close>

definition glob_track :: "string \<Rightarrow> string \<Rightarrow> nat \<Rightarrow> nat \<Rightarrow> nat option \<Rightarrow> nat \<Rightarrow> bool" where
  "glob_track p t i j star mark \<longleftrightarrow>
     (case star of
        None \<Rightarrow> glob_spec p t = glob_spec (drop i p) (drop j t)
      | Some sp \<Rightarrow> (\<exists>s m. fits s m \<and> drop sp p = STAR # s @ drop i p \<and> drop mark t = m @ drop j t)
          \<and> glob_spec p t = glob_spec (drop sp p) (drop mark t))"

definition glob_answer :: "string \<Rightarrow> nat option \<Rightarrow> bool" where
  "glob_answer p r = (case r of None \<Rightarrow> False | Some i \<Rightarrow> dropWhile (\<lambda>c. c = STAR) (drop i p) = [])"

lemma track_match:
  assumes "glob_track p t i j star mark" and "i < length p" "j < length t" and "p ! i = ANY \<or> p ! i = t ! j"
    and "STAR \<notin> set t"
  shows "glob_track p t (i + 1) (j + 1) star mark"
proof -
  have p: "drop i p = p ! i # drop (i + 1) p" and t: "drop j t = t ! j # drop (j + 1) t"
    using assms(2,3) by (simp_all add: Cons_nth_drop_Suc)
  have "t ! j \<noteq> STAR" using assms(3,5) by (metis nth_mem)
  then have ns: "p ! i \<noteq> STAR" using assms(4) by (auto simp: ANY_def STAR_def)
  show ?thesis
  proof (cases star)
    case None
    then show ?thesis using assms(1,4) ns by (simp add: glob_track_def p t glob_spec_char)
  next
    case (Some sp)
    then obtain s m where sm: "fits s m" "drop sp p = STAR # s @ drop i p" "drop mark t = m @ drop j t"
      using assms(1) by (auto simp: glob_track_def)
    have "fits (s @ [p ! i]) (m @ [t ! j])" using sm(1) ns assms(4) by (simp add: list_all2_appendI)
    moreover have "drop sp p = STAR # (s @ [p ! i]) @ drop (i + 1) p" using sm(2) p by simp
    moreover have "drop mark t = (m @ [t ! j]) @ drop (j + 1) t" using sm(3) t by simp
    ultimately show ?thesis using assms(1) Some unfolding glob_track_def by auto
  qed
qed

lemma track_star:
  assumes "glob_track p t i j star mark" and "i < length p" and "p ! i = STAR"
  shows "glob_track p t (i + 1) j (Some i) j"
proof -
  have p: "drop i p = STAR # drop (i + 1) p" using assms(2,3) Cons_nth_drop_Suc [of i p] by simp
  have "glob_spec p t = glob_spec (drop i p) (drop j t)"
  proof (cases star)
    case None
    then show ?thesis using assms(1) by (simp add: glob_track_def)
  next
    case (Some sp)
    then obtain s m where "fits s m" "drop sp p = STAR # s @ drop i p" "drop mark t = m @ drop j t"
      using assms(1) by (auto simp: glob_track_def)
    then show ?thesis using assms(1) Some last_star by (simp add: glob_track_def p)
  qed
  then show ?thesis unfolding glob_track_def by (auto simp: p intro!: exI [of _ "[]"])
qed

text \<open>A position where the pattern neither matches the next character nor has a star.\<close>

lemma stuck_spec:
  assumes "j < length t" and "\<not> (i < length p \<and> (p ! i = ANY \<or> p ! i = t ! j))" and "\<not> (i < length p \<and> p ! i = STAR)"
  shows "\<not> glob_spec (drop i p) (t ! j # drop (j + 1) t)"
proof (cases "i < length p")
  case True
  then have "drop i p = p ! i # drop (i + 1) p" by (simp add: Cons_nth_drop_Suc)
  then show ?thesis using True assms by (auto simp: glob_spec_char)
qed simp

lemma track_back:
  assumes "glob_track p t i j (Some sp) mark" and j: "j < length t" "mark \<le> j"
    and stuck: "\<not> glob_spec (drop i p) (t ! j # drop (j + 1) t)"
  shows "glob_track p t (sp + 1) (mark + 1) (Some sp) (mark + 1)"
proof -
  obtain s m where sm: "fits s m" "drop sp p = STAR # s @ drop i p" "drop mark t = m @ drop j t"
    and g: "glob_spec p t = glob_spec (drop sp p) (drop mark t)"
    using assms(1) by (auto simp: glob_track_def)
  have t: "drop j t = t ! j # drop (j + 1) t" using j by (simp add: Cons_nth_drop_Suc)
  have "glob_spec (drop sp p) (drop mark t) = glob_spec (drop sp p) (tl (drop mark t))"
    unfolding sm(2,3) t by (rule star_mismatch [OF sm(1) stuck])
  moreover have "tl (drop mark t) = drop (mark + 1) t" by (simp add: drop_Suc tl_drop)
  moreover have "drop (sp + 1) p = s @ drop i p" using sm(2) by (metis Suc_eq_plus1 drop_Suc list.sel(3) tl_drop)
  ultimately show ?thesis using g sm(2) unfolding glob_track_def by (auto intro!: exI [of _ "[]"])
qed

lemma track_end:
  assumes "glob_track p t i (length t) star mark"
  shows "glob_answer p (Some i) = glob_spec p t"
proof (cases star)
  case None
  then show ?thesis using assms by (simp add: glob_track_def glob_answer_def glob_spec_end)
next
  case (Some sp)
  then show ?thesis using assms star_end by (auto simp: glob_track_def glob_answer_def glob_spec_end)
qed

lemma glob_loop_decides:
  "glob_bounds p t i j star mark \<Longrightarrow>
    \<exists>r. glob_loop p t i j star mark = Some r
      \<and> (STAR \<notin> set t \<longrightarrow> glob_track p t i j star mark \<longrightarrow> glob_answer p r = glob_spec p t)"
proof (induction "(star, mark, i, j)" arbitrary: i j star mark
    rule: wf_induct_rule [OF wf_measures [of "[\<lambda>(star, mark, i, j). case star of None \<Rightarrow> length p + 1 | Some sp \<Rightarrow> length p - sp,
      \<lambda>(star, mark, i, j). length t - mark, \<lambda>(star, mark, i, j). length p - i]"]])
  case less: (1 i j star mark)
  have b: "i \<le> length p" "j \<le> length t" using less.prems by (auto simp: glob_bounds_def)
  consider (stop) "j = length t"
    | (match) "j < length t" "i < length p" "p ! i = ANY \<or> p ! i = t ! j"
    | (star) "j < length t" "\<not> (i < length p \<and> (p ! i = ANY \<or> p ! i = t ! j))" "i < length p" "p ! i = STAR"
    | (stuck) "j < length t" "\<not> (i < length p \<and> (p ! i = ANY \<or> p ! i = t ! j))" "\<not> (i < length p \<and> p ! i = STAR)"
    using b by force
  then show ?case
  proof cases
    case stop
    then show ?thesis using track_end by (subst glob_loop.simps) auto
  next
    case match
    then have eq: "glob_loop p t i j star mark = glob_loop p t (i + 1) (j + 1) star mark"
      by (subst glob_loop.simps) simp
    have "glob_bounds p t (i + 1) (j + 1) star mark"
      using less.prems match by (auto simp: glob_bounds_def split: option.splits)
    from less.hyps [OF _ this] match(2) show ?thesis
      using track_match [OF _ match(2,1,3)] unfolding eq by (auto simp: diff_less_mono2)
  next
    case star
    then have eq: "glob_loop p t i j star mark = glob_loop p t (i + 1) j (Some i) j"
      by (subst glob_loop.simps) auto
    have "glob_bounds p t (i + 1) j (Some i) j" using star by (simp add: glob_bounds_def)
    moreover have "length p - i < (case star of None \<Rightarrow> length p + 1 | Some sp \<Rightarrow> length p - sp)"
      using less.prems star(3) by (auto simp: glob_bounds_def split: option.splits)
    ultimately show ?thesis
      using less.hyps [of "Some i" j "i + 1" j] track_star [OF _ star(3,4)] unfolding eq by auto
  next
    case stuck
    note no = stuck_spec [OF stuck]
    show ?thesis
    proof (cases "star")
      case None
      then have eq: "glob_loop p t i j star mark = Some None" using stuck by (subst glob_loop.simps) auto
      have "drop j t = t ! j # drop (j + 1) t" using stuck(1) by (simp add: Cons_nth_drop_Suc)
      then show ?thesis using no None unfolding eq by (simp add: glob_track_def glob_answer_def)
    next
      case (Some sp)
      then have eq: "glob_loop p t i j star mark = glob_loop p t (sp + 1) (mark + 1) star (mark + 1)"
        using stuck by (subst glob_loop.simps) auto
      have m: "sp < i" "mark \<le> j" using less.prems Some by (simp_all add: glob_bounds_def)
      then have "glob_bounds p t (sp + 1) (mark + 1) star (mark + 1)"
        using Some b stuck(1) by (simp add: glob_bounds_def)
      moreover have "length t - (mark + 1) < length t - mark" using m(2) stuck(1) by linarith
      ultimately show ?thesis
        using less.hyps [of star "mark + 1" "sp + 1" "mark + 1"] Some track_back [OF _ stuck(1) m(2) no]
        unfolding eq by auto
    qed
  qed
qed

lemma simple_glob_decides:
  "\<exists>b. simple_glob p t = Some b \<and> (STAR \<notin> set t \<longrightarrow> b = glob_spec p t)"
proof -
  have "glob_track p t 0 0 None 0" by (simp add: glob_track_def)
  then obtain r where "glob_loop p t 0 0 None 0 = Some r" "STAR \<notin> set t \<Longrightarrow> glob_answer p r = glob_spec p t"
    using glob_loop_decides [of p t 0 0 None 0] by (auto simp: glob_bounds_def)
  then show ?thesis by (auto simp: simple_glob_def glob_answer_def)
qed

lemma glob_match_returns: "glob_match p t \<noteq> None"
  using simple_glob_decides [of p t] by (auto simp: glob_match_def)

section \<open>Properties\<close>

text \<open>
  C30: Ignore patterns mean what they say. Matching always returns; and for a path without a star of its own it
  answers whether the path is a sequence of pieces, any text for a star, any character for a question mark and
  each other character for itself. A pattern with neither is looked for anywhere in the path.
\<close>

theorem ignore_patterns_decide:
  "(case glob_match pattern path of
      None \<Rightarrow> False
    | Some b \<Rightarrow>
        if STAR \<in> set path then True
        else b = (if STAR \<in> set pattern \<or> ANY \<in> set pattern then glob_spec pattern path else sublist pattern path))"
  using simple_glob_decides [of pattern path] by (auto simp: glob_match_def str_contains_iff)

text \<open>
  A star in a path is taken for the star of the pattern: the built-in pattern of log files misses every log
  file whose name starts with a star, unless a full stop follows.
\<close>

theorem star_in_path_missed:
  "(if c = CHR ''.'' then True else glob_match ''*.log'' (STAR # c # w @ ''.log'') = Some False)
   \<and> glob_spec ''*.log'' (STAR # c # w @ ''.log'')"
proof -
  have "glob_spec ''.log'' ''.log''" by (simp add: glob_spec_char STAR_def)
  then have "glob_spec (STAR # ''.log'') ((STAR # c # w) @ ''.log'')" unfolding glob_spec_star by blast
  then have spec: "glob_spec ''*.log'' (STAR # c # w @ ''.log'')" by (simp add: STAR_def)
  have "glob_match ''*.log'' (STAR # c # w @ ''.log'') = Some False" if "c \<noteq> CHR ''.''"
    using that unfolding glob_match_def simple_glob_def
    by (subst glob_loop.simps, simp add: STAR_def ANY_def) (subst glob_loop.simps, simp add: STAR_def ANY_def)
  then show ?thesis using spec by simp
qed

end
