(* ===== verification/HelpMask.thy ===== *)
theory HelpMask
  imports Mask
begin

text \<open>
  Redaction in the help engine, \<open>redact_secrets\<close> and \<open>mask_all\<close> of
  \<open>wirecore/crates/wire-help/src/lib.rs\<close>. It serves two ends: the text that is handed to an assistant is
  redacted, and a file that redaction changes is kept out of the source index. The facts say which
  assignments it finds, and which it does not.
\<close>

definition help_markers :: "string list" where
  "help_markers = [''api_key'', ''apikey'', ''api-key'', ''secret'', ''password'', ''passwd'', ''token'',
     ''authorization'', ''BEGIN PRIVATE KEY'']"

definition is_sep :: "char \<Rightarrow> bool" where
  "is_sep c \<longleftrightarrow> c = CHR ''='' \<or> c = CHR '':'' \<or> c = CHR 0x22 \<or> c = CHR '' ''"

definition in_value :: "char \<Rightarrow> bool" where
  "in_value c \<longleftrightarrow> \<not> (is_ws c \<or> c = CHR '','' \<or> c = CHR ''&'' \<or> c = CHR 0x22)"

text \<open>The position of the first separator after the key, or 0.\<close>

definition key_sep :: "string \<Rightarrow> nat" where
  "key_sep after = (if list_ex is_sep after then length (takeWhile (\<lambda>c. \<not> is_sep c) after) else 0)"

text \<open>
  The loop over the rest of the text. The value begins at the separator itself, and nothing is masked
  when the separator ends a value. The markers are not empty.
\<close>

function mask_all :: "string \<Rightarrow> string \<Rightarrow> string" where
  "mask_all pat s =
     (if pat = [] then s
      else case find_text (to_lower s) (to_lower pat) of
        None \<Rightarrow> s
      | Some idx \<Rightarrow>
          let key_end = idx + length pat + key_sep (drop (idx + length pat) s);
              value_rest = drop key_end s in
          take key_end s @ (if takeWhile in_value value_rest = [] then [] else REDACTED)
            @ mask_all pat (dropWhile in_value value_rest))"
  by pat_completeness auto
termination
proof (relation "measure (\<lambda>(pat, s). length s)", simp, clarsimp)
  fix pat s :: string and idx
  assume pat: "pat \<noteq> []" and f: "find_text (to_lower s) (to_lower pat) = Some idx"
  let ?r = "drop (idx + length pat + key_sep (drop (idx + length pat) s)) s"
  have "idx + length pat \<le> length s" using find_text_bound [OF f] by (simp add: length_to_lower)
  moreover have "length (dropWhile in_value ?r) \<le> length ?r" by (rule length_dropWhile_le)
  moreover have "0 < length pat" using pat by simp
  ultimately show "length (dropWhile in_value ?r) < length s" unfolding length_drop by linarith
qed

declare mask_all.simps [simp del]

definition redact_secrets :: "string \<Rightarrow> string" where
  "redact_secrets input = foldl (\<lambda>out pat. mask_all pat out) input help_markers"

section \<open>Facts\<close>

lemma mask_all_None: "\<not> str_contains (to_lower s) (to_lower pat) \<Longrightarrow> mask_all pat s = s"
  by (subst mask_all.simps) (simp add: find_text_None [symmetric])

text \<open>
  One turn of the loop: a part without change, the value, and the rest, which begins with a character that
  ends values.
\<close>

lemma mask_all_turn:
  assumes f: "find_text (to_lower s) (to_lower pat) = Some idx" and pat: "pat \<noteq> []"
  obtains a u v r where "s = a @ u @ v @ r" "length a = idx + length pat" "u = take (key_sep (u @ v @ r)) (u @ v @ r)"
    "list_all in_value v" "r = [] \<or> \<not> in_value (hd r)" "length r < length s"
    "mask_all pat s = a @ u @ (if v = [] then [] else REDACTED) @ mask_all pat r"
proof -
  let ?after = "drop (idx + length pat) s"
  let ?rest = "drop (key_sep ?after) ?after"
  have b: "idx + length pat \<le> length s" using find_text_bound [OF f] by (simp add: length_to_lower)
  let ?v = "takeWhile in_value ?rest" and ?r = "dropWhile in_value ?rest"
  have split: "take (key_sep ?after) ?after @ ?v @ ?r = ?after"
    by (simp only: takeWhile_dropWhile_id append_take_drop_id)
  show thesis
  proof (rule that [of "take (idx + length pat) s" "take (key_sep ?after) ?after" "takeWhile in_value ?rest"
        "dropWhile in_value ?rest"])
    show "mask_all pat s = take (idx + length pat) s @ take (key_sep ?after) ?after
        @ (if takeWhile in_value ?rest = [] then [] else REDACTED) @ mask_all pat (dropWhile in_value ?rest)"
      using f pat by (subst mask_all.simps) (simp add: Let_def take_add add.commute add.left_commute)
    show "length (dropWhile in_value ?rest) < length s"
      using length_dropWhile_le [of in_value ?rest] b pat by (cases pat) auto
    show "list_all in_value (takeWhile in_value ?rest)" by (auto simp: list_all_iff dest: set_takeWhileD)
    show "dropWhile in_value ?rest = [] \<or> \<not> in_value (hd (dropWhile in_value ?rest))" using hd_dropWhile by blast
    show "s = take (idx + length pat) s @ take (key_sep ?after) ?after @ ?v @ ?r"
      unfolding split by (simp only: append_take_drop_id)
    show "take (key_sep ?after) ?after
        = take (key_sep (take (key_sep ?after) ?after @ ?v @ ?r)) (take (key_sep ?after) ?after @ ?v @ ?r)"
      unfolding split by (rule refl)
  qed (use b in simp)
qed

text \<open>Where the first separator is, and what lies before it.\<close>

lemma key_sep_cases:
  assumes "u = take (key_sep (u @ w)) (u @ w)"
  shows "(w \<noteq> [] \<and> is_sep (hd w) \<and> list_all (\<lambda>c. \<not> is_sep c) u) \<or> (u = [] \<and> list_all (\<lambda>c. \<not> is_sep c) w)"
proof (cases "list_ex is_sep (u @ w)")
  case True
  let ?t = "takeWhile (\<lambda>c. \<not> is_sep c) (u @ w)"
  let ?d = "dropWhile (\<lambda>c. \<not> is_sep c) (u @ w)"
  have u: "u = ?t" using assms True unfolding key_sep_def by (simp only: if_True takeWhile_eq_take [symmetric])
  have "?t @ ?d = u @ w" by (rule takeWhile_dropWhile_id)
  then have w: "?d = w" unfolding u [symmetric] by (rule same_append_eq [THEN iffD1])
  have ne: "?d \<noteq> []" using True unfolding dropWhile_eq_Nil_conv list_ex_iff by blast
  have "is_sep (hd ?d)" using hd_dropWhile [OF ne] by simp
  moreover have "list_all (\<lambda>c. \<not> is_sep c) ?t" by (auto simp: list_all_iff dest: set_takeWhileD)
  ultimately show ?thesis using ne unfolding w u [symmetric] by blast
next
  case False
  then have "u = []" using assms by (simp add: key_sep_def)
  then show ?thesis using False by (simp add: list_ex_iff list_all_iff)
qed

section \<open>Assignments\<close>

definition is_assign :: "char \<Rightarrow> bool" where
  "is_assign c \<longleftrightarrow> c = CHR ''='' \<or> c = CHR '':''"

text \<open>A key is assigned in a text that has it, in any case, with an equals sign or a colon right after it.\<close>

definition assigned :: "string \<Rightarrow> string \<Rightarrow> bool" where
  "assigned k t \<longleftrightarrow> (\<exists>x y d z. t = x @ y @ d # z \<and> to_lower y = to_lower k \<and> is_assign d)"

definition one_word :: "string \<Rightarrow> bool" where
  "one_word k \<longleftrightarrow> k \<noteq> [] \<and> list_all (\<lambda>c. in_value c \<and> \<not> is_sep c) (to_lower k)"

abbreviation assigns :: "string \<Rightarrow> nat" where
  "assigns t \<equiv> length (filter is_assign t)"

lemma assign_facts: "is_assign c \<Longrightarrow> is_sep c \<and> in_value c"
  by (auto simp: is_assign_def is_sep_def in_value_def is_ws_def)

lemma assigns_REDACTED: "filter is_assign REDACTED = []"
  by (simp add: REDACTED_def is_assign_def)

lemma lower_value_char: "in_value (lower_char c) = in_value c \<and> is_sep (lower_char c) = is_sep c"
proof (cases "65 \<le> (of_char c :: nat) \<and> (of_char c :: nat) \<le> 90")
  case True
  then have "(of_char (lower_char c) :: nat) = of_char c + 32" by (simp add: lower_char_def)
  then have "97 \<le> (of_char (lower_char c) :: nat)" using True by simp
  then have "in_value (lower_char c) \<and> \<not> is_sep (lower_char c)" by (auto simp: in_value_def is_sep_def is_ws_def)
  moreover have "in_value c \<and> \<not> is_sep c" using True by (auto simp: in_value_def is_sep_def is_ws_def)
  ultimately show ?thesis by simp
next
  case False
  then have "lower_char c = c" by (simp only: lower_char_def if_False)
  then show ?thesis by simp
qed

lemma one_word_chars: "one_word k \<Longrightarrow> to_lower y = to_lower k \<Longrightarrow> y \<noteq> [] \<and> (\<forall>c \<in> set y. in_value c \<and> \<not> is_sep c)"
proof -
  assume k: "one_word k" and y: "to_lower y = to_lower k"
  have "list_all (\<lambda>c. in_value c \<and> \<not> is_sep c) (to_lower y)" using k y by (simp add: one_word_def)
  then have "\<forall>c \<in> set y. in_value c \<and> \<not> is_sep c" by (simp add: to_lower_def list_all_iff lower_value_char)
  moreover have "y \<noteq> []" using k y by (auto simp: one_word_def to_lower_def)
  ultimately show ?thesis by simp
qed

lemma assigned_contains: "assigned k t \<Longrightarrow> str_contains (to_lower t) (to_lower k)"
  unfolding assigned_def str_contains_iff by (auto simp: to_lower_append)

lemma assigned_append: "assigned k p \<Longrightarrow> assigned k (p @ r)" "assigned k r \<Longrightarrow> assigned k (p @ r)"
  unfolding assigned_def by (metis append.assoc append_Cons)+

text \<open>An assignment does not reach across a character that ends values.\<close>

lemma assigned_split:
  assumes k: "one_word k" and r: "r = [] \<or> \<not> in_value (hd r)" and "assigned k (p @ r)"
  shows "assigned k p \<or> assigned k r"
proof -
  obtain x y d z where e: "p @ r = (x @ y @ [d]) @ z" "to_lower y = to_lower k" "is_assign d"
    using assms(3) by (auto simp: assigned_def)
  have v: "\<forall>c \<in> set (y @ [d]). in_value c" using one_word_chars [OF k e(2)] assign_facts [OF e(3)] by auto
  consider u where "p = (x @ y @ [d]) @ u" | u where "p @ u = x @ y @ [d]" "r = u @ z"
    using e(1) unfolding append_eq_append_conv2 by metis
  then show ?thesis
  proof cases
    case 1
    then have "p = x @ y @ d # u" by simp
    then show ?thesis using e(2,3) unfolding assigned_def by blast
  next
    case 2
    show ?thesis
    proof (cases "u = []")
      case True
      then have "p = x @ y @ d # []" using 2 by simp
      then show ?thesis using e(2,3) unfolding assigned_def by blast
    next
      case False
      then have nv: "\<not> in_value (hd u)" using r 2(2) by auto
      obtain w where "u = w @ y @ [d]"
      proof -
        consider w where "u = w @ y @ [d]" | w where "y @ [d] = w @ u"
          using 2(1) append_eq_append_conv2 [of p u x "y @ [d]"] by metis
        then show thesis
        proof cases
          case (2 w)
          then have "hd u \<in> set (y @ [d])" using False by simp
          then show thesis using v nv by blast
        qed (rule that)
      qed
      then have "r = w @ y @ d # z" using 2(2) by simp
      then show ?thesis using e(2,3) unfolding assigned_def by blast
    qed
  qed
qed

lemma find_text_least: "find_text s k = Some q \<Longrightarrow> prefix k (drop p s) \<Longrightarrow> q \<le> p"
proof (induction s arbitrary: p q)
  case (Cons c cs)
  then show ?case by (cases p) (auto split: if_splits)
qed simp

lemma assigns_drop: "assigns (mask_all pat s) \<le> assigns s"
proof (induction "length s" arbitrary: s rule: less_induct)
  case less
  show ?case
  proof (cases "pat = [] \<or> find_text (to_lower s) (to_lower pat) = None")
    case True
    then have "mask_all pat s = s" by (subst mask_all.simps) (auto split: option.splits)
    then show ?thesis by simp
  next
    case False
    then obtain idx where f: "find_text (to_lower s) (to_lower pat) = Some idx" and "pat \<noteq> []" by auto
    from mask_all_turn [OF this] obtain a u v r where t: "s = a @ u @ v @ r" "length r < length s"
        "mask_all pat s = a @ u @ (if v = [] then [] else REDACTED) @ mask_all pat r" by metis
    show ?thesis using less.hyps [OF t(2)] unfolding t(3) by (simp add: t(1) assigns_REDACTED)
  qed
qed

text \<open>The pass for a marker masks the assignments to it.\<close>

lemma assigned_masked:
  assumes k: "one_word pat"
  shows "assigned pat s \<Longrightarrow> assigns (mask_all pat s) < assigns s"
proof (induction "length s" arbitrary: s rule: less_induct)
  case less
  have ne: "pat \<noteq> []" using k by (simp add: one_word_def)
  obtain idx where f: "find_text (to_lower s) (to_lower pat) = Some idx"
    using assigned_contains [OF less.prems] find_text_None [of "to_lower s" "to_lower pat"]
    by (cases "find_text (to_lower s) (to_lower pat)") auto
  from mask_all_turn [OF f ne] obtain a u v r where t: "s = a @ u @ v @ r" "length a = idx + length pat"
      "u = take (key_sep (u @ v @ r)) (u @ v @ r)" "r = [] \<or> \<not> in_value (hd r)" "length r < length s"
      "mask_all pat s = a @ u @ (if v = [] then [] else REDACTED) @ mask_all pat r" by metis
  have le: "assigns (mask_all pat r) \<le> assigns r" by (rule assigns_drop)
  have eq: "assigns s = assigns a + assigns u + assigns v + assigns r"
      "assigns (mask_all pat s) = assigns a + assigns u + assigns (mask_all pat r)"
    unfolding t(6) by (simp_all add: t(1) assigns_REDACTED)
  have "assigned pat (a @ u @ v) \<or> assigned pat r"
    using assigned_split [OF k t(4), of "a @ u @ v"] less.prems t(1) by simp
  then show ?case
  proof
    assume "assigned pat r"
    then show ?thesis using less.hyps [OF t(5)] eq by simp
  next
    assume "assigned pat (a @ u @ v)"
    then obtain x y d z where e: "a @ u @ v = x @ y @ d # z" "to_lower y = to_lower pat" "is_assign d"
      by (auto simp: assigned_def)
    have "s = x @ y @ (d # z) @ r" using e(1) t(1) by simp
    then have "prefix (to_lower pat) (drop (length x) (to_lower s))"
      using e(2) by (simp add: to_lower_append length_to_lower)
    then have "idx \<le> length x" by (rule find_text_least [OF f])
    moreover have "length y = length pat" using e(2) by (metis length_to_lower)
    ultimately have "length a \<le> length (x @ y)" using t(2) by simp
    then obtain w where "u @ v = w @ d # z" using e(1)
      by (metis append.assoc append_eq_append_conv_if append_eq_conv_conj)
    then have d: "d \<in> set u \<or> d \<in> set v" by (metis Un_iff in_set_conv_decomp set_append)
    have "d \<notin> set u" using key_sep_cases [OF t(3)] assign_facts [OF e(3)] by (auto simp: list_all_iff)
    then have "d \<in> set (filter is_assign v)" using d e(3) by simp
    then have "0 < assigns v" by (metis length_pos_if_in_set)
    then show ?thesis using eq le by linarith
  qed
qed

text \<open>A pass that masks no assignment leaves the others where they are.\<close>

lemma assigned_kept:
  assumes m: "one_word m"
  shows "assigns (mask_all pat s) = assigns s \<Longrightarrow> assigned m s \<Longrightarrow> assigned m (mask_all pat s)"
proof (induction "length s" arbitrary: s rule: less_induct)
  case less
  show ?case
  proof (cases "pat = [] \<or> find_text (to_lower s) (to_lower pat) = None")
    case True
    then have "mask_all pat s = s" by (subst mask_all.simps) (auto split: option.splits)
    then show ?thesis using less.prems by simp
  next
    case False
    then obtain idx where f: "find_text (to_lower s) (to_lower pat) = Some idx" and "pat \<noteq> []" by auto
    from mask_all_turn [OF this] obtain a u v r where t: "s = a @ u @ v @ r"
        "u = take (key_sep (u @ v @ r)) (u @ v @ r)" "list_all in_value v" "r = [] \<or> \<not> in_value (hd r)"
        "length r < length s" "mask_all pat s = a @ u @ (if v = [] then [] else REDACTED) @ mask_all pat r" by metis
    have le: "assigns (mask_all pat r) \<le> assigns r" by (rule assigns_drop)
    have "assigns s = assigns a + assigns u + assigns v + assigns r"
        "assigns (mask_all pat s) = assigns a + assigns u + assigns (mask_all pat r)"
      unfolding t(6) by (simp_all add: t(1) assigns_REDACTED)
    then have same: "assigns v = 0" "assigns (mask_all pat r) = assigns r" using less.prems(1) le by linarith+
    from key_sep_cases [OF t(2)] show ?thesis
    proof
      assume sep: "v @ r \<noteq> [] \<and> is_sep (hd (v @ r)) \<and> list_all (\<lambda>c. \<not> is_sep c) u"
      have "v = []"
      proof (rule ccontr)
        assume v: "v \<noteq> []"
        then have "is_assign (hd v)"
          using sep t(3) hd_in_set [OF v] by (auto simp: is_sep_def is_assign_def in_value_def is_ws_def list_all_iff)
        then have "hd v \<in> set (filter is_assign v)" using v by simp
        then show False using same(1) by (metis length_pos_if_in_set less_numeral_extra(3))
      qed
      then have "assigned m (a @ u) \<or> assigned m r"
        using assigned_split [OF m t(4), of "a @ u"] less.prems(2) t(1) by simp
      then have "assigned m (a @ u) \<or> assigned m (mask_all pat r)" using less.hyps [OF t(5) same(2)] by blast
      then have "assigned m ((a @ u) @ mask_all pat r)" using assigned_append by blast
      then show ?thesis unfolding t(6) using \<open>v = []\<close> by simp
    next
      assume none: "u = [] \<and> list_all (\<lambda>c. \<not> is_sep c) (v @ r)"
      obtain x y d z where e: "a @ v @ r = (x @ y @ [d]) @ z" "to_lower y = to_lower m" "is_assign d"
        using less.prems(2) t(1) none by (auto simp: assigned_def)
      consider w where "a = (x @ y @ [d]) @ w" | w where "a @ w = x @ y @ [d]" "v @ r = w @ z"
        using iffD1 [OF append_eq_append_conv2 e(1)] by blast
      then have "(\<exists>w. a = x @ y @ d # w) \<or> d \<in> set (v @ r)"
      proof cases
        case (2 w)
        show ?thesis
        proof (cases "w = []")
          case True
          then show ?thesis using 2(1) by auto
        next
          case False
          then have "last w = last (a @ w)" by simp
          then have "last w = d" unfolding 2(1) by simp
          then have "d \<in> set w" using last_in_set [OF False] by simp
          then show ?thesis unfolding 2(2) by simp
        qed
      qed auto
      then show ?thesis
      proof
        assume "\<exists>w. a = x @ y @ d # w"
        then have "assigned m a" using e(2,3) unfolding assigned_def by blast
        then show ?thesis unfolding t(6) by (rule assigned_append)
      next
        assume "d \<in> set (v @ r)"
        then show ?thesis using none assign_facts [OF e(3)] by (auto simp: list_all_iff)
      qed
    qed
  qed
qed

lemma passes_assigned:
  "list_all (\<lambda>k. k \<noteq> []) ks \<Longrightarrow> m \<in> set ks \<Longrightarrow> one_word m \<Longrightarrow> assigned m s \<Longrightarrow>
    assigns (foldl (\<lambda>out pat. mask_all pat out) s ks) < assigns s"
proof (induction ks arbitrary: s)
  case (Cons k ks)
  have le: "assigns (foldl (\<lambda>out pat. mask_all pat out) t ks) \<le> assigns t" for t
  proof (induction ks arbitrary: t)
    case (Cons k ks)
    then show ?case using assigns_drop [of k t] le_trans by (metis foldl_Cons)
  qed simp
  show ?case
  proof (cases "assigns (mask_all k s) < assigns s")
    case True
    then show ?thesis using le [of "mask_all k s"] by simp
  next
    case False
    then have same: "assigns (mask_all k s) = assigns s" using assigns_drop [of k s] by simp
    then have "m \<noteq> k" using assigned_masked [OF Cons.prems(3,4)] by auto
    then show ?thesis
      using Cons.IH [of "mask_all k s"] Cons.prems assigned_kept [OF Cons.prems(3) same] same by simp
  qed
qed simp

text \<open>
  What is left after redaction when it finds nothing to change: no marker that is one word is assigned.
\<close>

lemma unchanged_unassigned:
  assumes "redact_secrets t = t" and "m \<in> set help_markers" and "one_word m"
  shows "\<not> assigned m t"
proof
  assume "assigned m t"
  moreover have "list_all (\<lambda>k. k \<noteq> []) help_markers" by (simp add: help_markers_def)
  ultimately have "assigns (redact_secrets t) < assigns t"
    using passes_assigned [of help_markers m t] assms(2,3) by (simp add: redact_secrets_def)
  then show False using assms(1) by simp
qed

section \<open>What redaction does not find\<close>

definition is_digit :: "char \<Rightarrow> bool" where
  "is_digit c \<longleftrightarrow> char_digit c \<noteq> None"

lemma digit_facts: "is_digit c \<Longrightarrow> lower_char c = c \<and> in_value c \<and> \<not> is_sep c"
  by (auto simp: is_digit_def char_digit_def lower_char_def in_value_def is_sep_def is_ws_def split: if_splits)

lemma lower_digits: "list_all is_digit w \<Longrightarrow> to_lower w = w"
  unfolding to_lower_def list_all_iff by (rule map_idI) (simp add: digit_facts)

lemma contains_before_digits:
  assumes w: "list_all is_digit w" and k: "k \<noteq> []" "\<not> is_digit (last k)"
  shows "str_contains (a @ w) k = str_contains a k"
proof -
  have "ys = []" if "k = xs @ ys" "prefix ys w" for xs ys
  proof (rule ccontr)
    assume "ys \<noteq> []"
    then have "last k = last ys" "last ys \<in> set w"
      using that last_in_set by (auto simp: prefix_def)
    then show False using k(2) w by (auto simp: list_all_iff)
  qed
  moreover have "\<not> sublist k w" using w k by (auto simp: sublist_def list_all_iff)
  ultimately show ?thesis
    unfolding str_contains_iff sublist_append by (auto simp: suffix_imp_sublist) fastforce+
qed

lemma pass_misses:
  assumes "list_all is_digit w" and "pat \<noteq> []" and "is_digit (last (to_lower pat)) = False"
    and "str_contains (to_lower a) (to_lower pat) = False"
  shows "mask_all pat (a @ w) = a @ w"
  using assms contains_before_digits [of w "to_lower pat" "to_lower a"]
  by (intro mask_all_None) (simp add: to_lower_append lower_digits, simp add: to_lower_def)

lemma pass_empty_value:
  assumes "find_text (to_lower a @ to_lower s) (to_lower pat) = Some idx" "idx + length pat = length a"
    and "pat \<noteq> []" "s \<noteq> []" "hd s = CHR '' '' \<or> hd s = CHR 0x22"
  shows "mask_all pat (a @ s) = a @ mask_all pat s"
  using assms
  by (subst mask_all.simps)
    (cases s; auto simp: to_lower_append Let_def key_sep_def is_sep_def in_value_def is_ws_def)

text \<open>
  A secret made of digits, after a space, in quotes, and after a colon and a space.
\<close>

lemma spaced_secret_kept:
  assumes w: "list_all is_digit w"
  shows "redact_secrets (''password = '' @ w) = ''password = '' @ w"
    and "redact_secrets ([CHR 0x22] @ ''password'' @ [CHR 0x22] @ '': '' @ CHR 0x22 # w) = [CHR 0x22] @ ''password'' @ [CHR 0x22] @ '': '' @ CHR 0x22 # w"
    and "redact_secrets (''password: '' @ w) = ''password[REDACTED] '' @ w"
proof -
  have miss: "list_all (\<lambda>k. k \<noteq> [] \<and> is_digit (last (to_lower k)) = False \<and> str_contains (to_lower a) (to_lower k) = False) ks \<Longrightarrow>
      foldl (\<lambda>out pat. mask_all pat out) (a @ w) ks = a @ w" for a ks
    using pass_misses [OF w] by (induction ks) auto
  let ?ks = "take 4 help_markers" and ?ls = "drop 5 help_markers"
  have parts: "redact_secrets t = foldl (\<lambda>out pat. mask_all pat out)
      (mask_all ''password'' (foldl (\<lambda>out pat. mask_all pat out) t ?ks)) ?ls" for t
    by (simp add: redact_secrets_def help_markers_def)
  have red: "redact_secrets (a @ w) = b @ w"
    if "list_all (\<lambda>k. k \<noteq> [] \<and> is_digit (last (to_lower k)) = False \<and> str_contains (to_lower a) (to_lower k) = False) ?ks"
      "mask_all ''password'' (a @ w) = b @ w"
      "list_all (\<lambda>k. k \<noteq> [] \<and> is_digit (last (to_lower k)) = False \<and> str_contains (to_lower b) (to_lower k) = False) ?ls"
    for a b
    unfolding parts miss [OF that(1)] that(2) by (rule miss [OF that(3)])
  have "mask_all ''password'' (''password'' @ '' = '' @ w) = ''password'' @ mask_all ''password'' ('' = '' @ w)"
    by (rule pass_empty_value [where idx = 0]) (simp_all add: to_lower_def lower_char_def)
  moreover have "mask_all ''password'' ('' = '' @ w) = '' = '' @ w"
    by (rule pass_misses [OF w]) code_simp+
  ultimately have 1: "mask_all ''password'' (''password = '' @ w) = ''password = '' @ w" by simp
  show "redact_secrets (''password = '' @ w) = ''password = '' @ w"
    by (rule red [OF _ 1]) code_simp+
  have "mask_all ''password'' (([CHR 0x22] @ ''password'') @ [CHR 0x22] @ '': '' @ CHR 0x22 # w)
      = ([CHR 0x22] @ ''password'') @ mask_all ''password'' ([CHR 0x22] @ '': '' @ CHR 0x22 # w)"
    by (rule pass_empty_value [where idx = 1]) (simp_all add: to_lower_def lower_char_def)
  moreover have "mask_all ''password'' (([CHR 0x22] @ '': '' @ [CHR 0x22]) @ w) = ([CHR 0x22] @ '': '' @ [CHR 0x22]) @ w"
    by (rule pass_misses [OF w]) code_simp+
  ultimately have 2: "mask_all ''password'' (([CHR 0x22] @ ''password'' @ [CHR 0x22] @ '': '' @ [CHR 0x22]) @ w)
      = ([CHR 0x22] @ ''password'' @ [CHR 0x22] @ '': '' @ [CHR 0x22]) @ w" by simp
  have "redact_secrets (([CHR 0x22] @ ''password'' @ [CHR 0x22] @ '': '' @ [CHR 0x22]) @ w)
      = ([CHR 0x22] @ ''password'' @ [CHR 0x22] @ '': '' @ [CHR 0x22]) @ w"
    by (rule red [OF _ 2]) code_simp+
  then show "redact_secrets ([CHR 0x22] @ ''password'' @ [CHR 0x22] @ '': '' @ CHR 0x22 # w)
      = [CHR 0x22] @ ''password'' @ [CHR 0x22] @ '': '' @ CHR 0x22 # w" by simp
  have "find_text (to_lower (''password'' @ '': '' @ w)) (to_lower ''password'') = Some 0"
    by (simp add: to_lower_def lower_char_def)
  then have "mask_all ''password'' (''password'' @ '': '' @ w) = ''password'' @ REDACTED @ mask_all ''password'' ('' '' @ w)"
    by (subst mask_all.simps) (simp add: Let_def key_sep_def is_sep_def in_value_def is_ws_def)
  moreover have "mask_all ''password'' ('' '' @ w) = '' '' @ w"
    by (rule pass_misses [OF w]) code_simp+
  ultimately have 3: "mask_all ''password'' (''password: '' @ w) = ''password[REDACTED] '' @ w"
    by (simp add: REDACTED_def)
  show "redact_secrets (''password: '' @ w) = ''password[REDACTED] '' @ w"
    by (rule red [OF _ 3]) code_simp+
qed

end
