(* ===== verification/Help.thy ===== *)
theory Help
  imports Glob HelpMask
begin

text \<open>
  Contextual help, the setup coach and the source index,
  \<open>wirecore/crates/wire-help/src/lib.rs\<close>: the \<open>HelpEngine\<close> with its index of accepted sources, field
  help, context for an assistant, coach steps, capability probes, index of local files and audit.
  Ignore patterns are in \<open>Glob\<close>, redaction in \<open>HelpMask\<close>.
\<close>

definition HELP_SCHEMA_VERSION :: u32 where "HELP_SCHEMA_VERSION = 1"

definition MAX_INDEX_ENTRIES :: nat where "MAX_INDEX_ENTRIES = 4096"

definition MAX_FIELD_HELP :: nat where "MAX_FIELD_HELP = 2048"

definition MAX_ASK_CONTEXT_FIELDS :: nat where "MAX_ASK_CONTEXT_FIELDS = 32"

definition MAX_COACH_STEPS :: nat where "MAX_COACH_STEPS = 256"

definition MAX_SOURCE_INDEX_ENTRIES :: nat where "MAX_SOURCE_INDEX_ENTRIES = 65536"

definition MAX_HELP_AUDIT :: nat where "MAX_HELP_AUDIT = 1024"

definition MAX_INPUT_BYTES :: nat where "MAX_INPUT_BYTES = 2 ^ 20"

datatype HelpMode = LocalOnly | RemoteRedacted | HelpDisabled

datatype HelpDenial =
    EmergencyStop | UnavailableDependency | Timeout | Cancelled | MalformedInput | DuplicateRequest | DeniedPolicy
  | QueueFull | OversizedInput | ProtectedAsset | UnlicensedAsset | NotConfigured | Disabled | ProfileMuted
  | NotLocalSource | SecretDetected | StaleSource | UnavailableSource

datatype SourceKind = Docs | UiSchema | CommandCatalog | ConfigSchema | Adr | SourceRef

definition SourceKind_all :: "SourceKind list" where
  "SourceKind_all = [Docs, UiSchema, CommandCatalog, ConfigSchema, Adr, SourceRef]"

fun SourceKind_name :: "SourceKind \<Rightarrow> string" where
  "SourceKind_name Docs = ''docs''"
| "SourceKind_name UiSchema = ''ui-schema''"
| "SourceKind_name CommandCatalog = ''command-catalog''"
| "SourceKind_name ConfigSchema = ''config-schema''"
| "SourceKind_name Adr = ''adr''"
| "SourceKind_name SourceRef = ''source-ref''"

record IndexEntry =
  ix_id :: string
  ix_title :: string
  ix_kind :: SourceKind
  ix_content_hash :: string
  ix_body :: string
  ix_source_version :: string

record FieldHelp =
  fh_field_id :: string
  fh_label :: string
  fh_safe_default :: string
  fh_validation_hint :: string
  fh_privacy_note :: string
  fh_doc_link :: string

record AskContext =
  ak_field_id :: string
  ak_sanitized_ui_state :: string
  ak_validation_error :: string
  ak_approved_docs :: "string list"
  ak_command_catalog_refs :: "string list"
  ak_adr_refs :: "string list"
  ak_source_refs :: "string list"

record CoachStep =
  co_id :: string
  co_title :: string
  co_explanation :: string
  co_proposal :: string
  co_safe_default :: string

record CapabilityProbe =
  pb_name :: string
  pb_observed :: bool
  pb_evidence :: "string list"
  pb_confirmed :: bool

record SourceIndexState =
  si_enabled :: bool
  si_local_only :: bool
  si_idle_only :: bool
  si_indexed_entries :: nat
  si_secret_entries_skipped :: u64
  si_ignored_entries_skipped :: u64
  si_resumable :: bool
  si_removed :: bool

record HelpEngine =
  hp_index :: "(string \<times> IndexEntry) list"
  hp_field_help :: "(string \<times> FieldHelp) list"
  hp_coach_steps :: "(string \<times> CoachStep) list"
  hp_probes :: "(string \<times> CapabilityProbe) list"
  hp_mode :: HelpMode
  hp_app_version :: string
  hp_source_index_enabled :: bool
  hp_source_index_entries :: "(string \<times> string) list"
  hp_source_index_secret_skipped :: u64
  hp_source_index_ignored_skipped :: u64
  hp_source_index_removed :: bool
  hp_ignore_patterns :: "string list"
  hp_audit :: "string list"

definition HelpEngine_new :: "string \<Rightarrow> HelpEngine" where
  "HelpEngine_new app_version =
     \<lparr>hp_index = [], hp_field_help = [], hp_coach_steps = [], hp_probes = [], hp_mode = LocalOnly,
      hp_app_version = app_version, hp_source_index_enabled = False, hp_source_index_entries = [],
      hp_source_index_secret_skipped = 0, hp_source_index_ignored_skipped = 0, hp_source_index_removed = False,
      hp_ignore_patterns = [''.git/'', ''target/'', ''node_modules/'', ''.env'', ''*.log''], hp_audit = []\<rparr>"

definition HelpEngine_default :: HelpEngine where "HelpEngine_default = HelpEngine_new ''0.1.0''"

definition push_audit :: "string \<Rightarrow> HelpEngine \<Rightarrow> HelpEngine" where
  "push_audit entry e =
     e\<lparr>hp_audit := (if MAX_HELP_AUDIT \<le> length (hp_audit e) then tl (hp_audit e) else hp_audit e) @ [entry]\<rparr>"

text \<open>FNV-1a of the bytes, as sixteen hexadecimal digits.\<close>

definition stable_hash :: "string \<Rightarrow> string" where
  "stable_hash input = hex16 (foldl (\<lambda>h b. xor h (of_char b) * 0x100000001b3) 0xcbf29ce484222325 input)"

section \<open>The index of accepted sources\<close>

definition source_key :: "SourceKind \<Rightarrow> string \<Rightarrow> string" where
  "source_key kind i = SourceKind_name kind @ '':'' @ i"

definition add_source ::
    "SourceKind \<Rightarrow> string \<Rightarrow> string \<Rightarrow> string \<Rightarrow> HelpEngine \<Rightarrow> (HelpDenial + unit) \<times> HelpEngine" where
  "add_source kind i body source_version e =
     (if MAX_INDEX_ENTRIES \<le> length (hp_index e) then (Inl QueueFull, e)
      else if i = [] \<or> body = [] then (Inl MalformedInput, e)
      else if MAX_INPUT_BYTES < length body then (Inl OversizedInput, e)
      else
        let key = source_key kind i in
        if map_of (hp_index e) key \<noteq> None then (Inl DuplicateRequest, e)
        else
          let content_hash = stable_hash (SourceKind_name kind @ [CHR 0x1F] @ i @ [CHR 0x1F] @ body @ [CHR 0x1F] @ source_version);
              entry = \<lparr>ix_id = i, ix_title = i, ix_kind = kind, ix_content_hash = content_hash, ix_body = body,
                ix_source_version = source_version\<rparr> in
          (Inr (), push_audit ''index-source-added'' (e\<lparr>hp_index := bt_insert key entry (hp_index e)\<rparr>)))"

definition index_state_hash :: "HelpEngine \<Rightarrow> string" where
  "index_state_hash e =
     (let parts = sort (map (\<lambda>x. ix_content_hash x @ [CHR 0x1F] @ ix_source_version x) (map snd (hp_index e))) in
      stable_hash (str_join [CHR 0x1E] (parts @ [hp_app_version e])))"

definition index_len :: "HelpEngine \<Rightarrow> nat" where
  "index_len e = length (hp_index e)"

definition index_entries :: "HelpEngine \<Rightarrow> IndexEntry list" where
  "index_entries e = map snd (hp_index e)"

fun answer_kinds ::
    "SourceKind list \<Rightarrow> string \<Rightarrow> (string \<times> string) list \<Rightarrow> HelpEngine \<Rightarrow> HelpDenial + IndexEntry" where
  "answer_kinds [] name versions e = Inl NotConfigured"
| "answer_kinds (kind # kinds) name versions e =
     (case map_of (hp_index e) (source_key kind name) of
        None \<Rightarrow> answer_kinds kinds name versions e
      | Some x \<Rightarrow>
          (case map_of versions (SourceKind_name (ix_kind x)) of
             Some v \<Rightarrow> if v \<noteq> ix_source_version x then Inl StaleSource else Inr x
           | None \<Rightarrow> Inl UnavailableSource))"

definition HelpEngine_answer ::
    "string \<Rightarrow> (string \<times> string) list \<Rightarrow> HelpEngine \<Rightarrow> HelpDenial + IndexEntry" where
  "HelpEngine_answer name versions e =
     (if hp_mode e = HelpDisabled then Inl Disabled else answer_kinds SourceKind_all name versions e)"

text \<open>The versions that the index itself has: of two entries of a kind, the later one counts.\<close>

definition own_versions :: "HelpEngine \<Rightarrow> (string \<times> string) list" where
  "own_versions e =
     foldl (\<lambda>m x. bt_insert (SourceKind_name (ix_kind x)) (ix_source_version x) m) [] (map snd (hp_index e))"

definition cli_help :: "string \<Rightarrow> HelpEngine \<Rightarrow> HelpDenial + string" where
  "cli_help name e =
     (case HelpEngine_answer name (own_versions e) e of
        Inl d \<Rightarrow> Inl d
      | Inr x \<Rightarrow> Inr (''['' @ SourceKind_name (ix_kind x) @ ''] '' @ ix_title x @ [CHR 0x0A] @ ix_body x @ [CHR 0x0A]
          @ ''(source version '' @ ix_source_version x @ '')''))"

definition ui_help :: "string \<Rightarrow> HelpEngine \<Rightarrow> HelpDenial + string" where
  "ui_help name e = cli_help name e"

section \<open>Field help and the context for an assistant\<close>

definition add_field_help :: "FieldHelp \<Rightarrow> HelpEngine \<Rightarrow> (HelpDenial + unit) \<times> HelpEngine" where
  "add_field_help help e =
     (if MAX_FIELD_HELP \<le> length (hp_field_help e) then (Inl QueueFull, e)
      else if fh_field_id help = [] \<or> fh_doc_link help = [] then (Inl MalformedInput, e)
      else if map_of (hp_field_help e) (fh_field_id help) \<noteq> None then (Inl DuplicateRequest, e)
      else (Inr (), push_audit ''field-help-added''
              (e\<lparr>hp_field_help := bt_insert (fh_field_id help) help (hp_field_help e)\<rparr>)))"

definition HelpEngine_field_help :: "string \<Rightarrow> HelpEngine \<Rightarrow> FieldHelp option" where
  "HelpEngine_field_help i e = map_of (hp_field_help e) i"

definition known_refs :: "SourceKind \<Rightarrow> string list \<Rightarrow> HelpEngine \<Rightarrow> string list" where
  "known_refs kind refs e = filter (\<lambda>r. map_of (hp_index e) (source_key kind r) \<noteq> None) refs"

definition build_ask_context ::
    "string \<Rightarrow> string \<Rightarrow> string \<Rightarrow> string list \<Rightarrow> string list \<Rightarrow> string list \<Rightarrow> string list \<Rightarrow> HelpEngine
      \<Rightarrow> (HelpDenial + AskContext) \<times> HelpEngine" where
  "build_ask_context field_id raw_ui_state validation_error approved_docs command_refs adr_refs source_refs e =
     (if hp_mode e = HelpDisabled then (Inl Disabled, e)
      else if field_id = [] then (Inl MalformedInput, e)
      else if MAX_INPUT_BYTES < length raw_ui_state then (Inl OversizedInput, e)
      else if MAX_ASK_CONTEXT_FIELDS < length approved_docs + length command_refs + length adr_refs + length source_refs
      then (Inl OversizedInput, e)
      else
        let sanitized = redact_secrets raw_ui_state;
            docs = known_refs Docs approved_docs e;
            commands = known_refs CommandCatalog command_refs e;
            adrs = known_refs Adr adr_refs e;
            sources = known_refs SourceRef source_refs e in
        if docs = [] \<and> commands = [] \<and> adrs = [] \<and> sources = [] then (Inl UnavailableDependency, e)
        else
          (Inr \<lparr>ak_field_id = field_id, ak_sanitized_ui_state = sanitized, ak_validation_error = validation_error,
             ak_approved_docs = docs, ak_command_catalog_refs = commands, ak_adr_refs = adrs, ak_source_refs = sources\<rparr>,
           push_audit ''ask-context-built'' e))"

definition HelpEngine_set_mode :: "HelpMode \<Rightarrow> HelpEngine \<Rightarrow> HelpEngine" where
  "HelpEngine_set_mode mode e = push_audit ''mode-set'' (e\<lparr>hp_mode := mode\<rparr>)"

section \<open>The setup coach\<close>

definition add_coach_step :: "CoachStep \<Rightarrow> HelpEngine \<Rightarrow> (HelpDenial + unit) \<times> HelpEngine" where
  "add_coach_step step e =
     (if MAX_COACH_STEPS \<le> length (hp_coach_steps e) then (Inl QueueFull, e)
      else if co_id step = [] \<or> co_explanation step = [] then (Inl MalformedInput, e)
      else if map_of (hp_coach_steps e) (co_id step) \<noteq> None then (Inl DuplicateRequest, e)
      else (Inr (), push_audit ''coach-step-added''
              (e\<lparr>hp_coach_steps := bt_insert (co_id step) step (hp_coach_steps e)\<rparr>)))"

definition HelpEngine_propose :: "string \<Rightarrow> HelpEngine \<Rightarrow> HelpDenial + CoachStep" where
  "HelpEngine_propose i e =
     (if hp_mode e = HelpDisabled then Inl Disabled
      else (case map_of (hp_coach_steps e) i of None \<Rightarrow> Inl NotConfigured | Some s \<Rightarrow> Inr s))"

definition HelpEngine_apply_step :: "string \<Rightarrow> HelpEngine \<Rightarrow> HelpDenial + unit" where
  "HelpEngine_apply_step i e = Inl DeniedPolicy"

definition coach_steps_len :: "HelpEngine \<Rightarrow> nat" where
  "coach_steps_len e = length (hp_coach_steps e)"

section \<open>Capabilities of a world\<close>

definition observe_capability ::
    "string \<Rightarrow> bool \<Rightarrow> string list \<Rightarrow> HelpEngine \<Rightarrow> (HelpDenial + unit) \<times> HelpEngine" where
  "observe_capability name observed evidence e =
     (if name = [] then (Inl MalformedInput, e)
      else if evidence = [] then (Inl DeniedPolicy, e)
      else
        let p = \<lparr>pb_name = name, pb_observed = observed, pb_evidence = evidence, pb_confirmed = False\<rparr> in
        (Inr (), push_audit ''capability-observed'' (e\<lparr>hp_probes := bt_insert name p (hp_probes e)\<rparr>)))"

definition confirm_capability :: "string \<Rightarrow> HelpEngine \<Rightarrow> bool \<times> HelpEngine" where
  "confirm_capability name e =
     (case map_of (hp_probes e) name of
        Some p \<Rightarrow> (True, push_audit ''capability-confirmed''
                    (e\<lparr>hp_probes := AList.update name (p\<lparr>pb_confirmed := True\<rparr>) (hp_probes e)\<rparr>))
      | None \<Rightarrow> (False, e))"

definition HelpEngine_capability :: "string \<Rightarrow> HelpEngine \<Rightarrow> CapabilityProbe option" where
  "HelpEngine_capability name e = map_of (hp_probes e) name"

definition confirmed_capabilities :: "HelpEngine \<Rightarrow> string set" where
  "confirmed_capabilities e = set (map fst (filter (\<lambda>(n, p). pb_confirmed p \<and> pb_observed p) (hp_probes e)))"

section \<open>The index of local files\<close>

definition enable_source_index :: "bool \<Rightarrow> bool \<Rightarrow> HelpEngine \<Rightarrow> HelpEngine" where
  "enable_source_index local_only idle_only e =
     push_audit ''source-index-enabled'' (e\<lparr>hp_source_index_enabled := True, hp_source_index_removed := False\<rparr>)"

definition source_index_state :: "HelpEngine \<Rightarrow> SourceIndexState" where
  "source_index_state e =
     \<lparr>si_enabled = hp_source_index_enabled e, si_local_only = True, si_idle_only = True,
      si_indexed_entries = length (hp_source_index_entries e),
      si_secret_entries_skipped = hp_source_index_secret_skipped e,
      si_ignored_entries_skipped = hp_source_index_ignored_skipped e, si_resumable = True,
      si_removed = hp_source_index_removed e\<rparr>"

definition add_ignore_pattern :: "string \<Rightarrow> HelpEngine \<Rightarrow> HelpEngine" where
  "add_ignore_pattern pattern e = e\<lparr>hp_ignore_patterns := hp_ignore_patterns e @ [pattern]\<rparr>"

text \<open>Whether some pattern matches; matching always returns (\<open>ignore_patterns_decide\<close>).\<close>

definition is_ignored :: "string \<Rightarrow> HelpEngine \<Rightarrow> bool" where
  "is_ignored path e = list_ex (\<lambda>p. glob_match p path = Some True) (hp_ignore_patterns e)"

definition index_local_file :: "string \<Rightarrow> string \<Rightarrow> HelpEngine \<Rightarrow> (HelpDenial + unit) \<times> HelpEngine" where
  "index_local_file path content e =
     (if \<not> hp_source_index_enabled e then (Inl Disabled, e)
      else if MAX_INPUT_BYTES < length content then (Inl OversizedInput, e)
      else if is_ignored path e
      then (Inl DeniedPolicy, e\<lparr>hp_source_index_ignored_skipped := hp_source_index_ignored_skipped e + 1\<rparr>)
      else
        let redacted = redact_secrets content in
        if redacted \<noteq> content
        then (Inl SecretDetected, e\<lparr>hp_source_index_secret_skipped := hp_source_index_secret_skipped e + 1\<rparr>)
        else if MAX_SOURCE_INDEX_ENTRIES \<le> length (hp_source_index_entries e) then (Inl QueueFull, e)
        else (Inr (), push_audit ''source-file-indexed''
                (e\<lparr>hp_source_index_entries := bt_insert path (stable_hash redacted) (hp_source_index_entries e)\<rparr>)))"

definition resume_from :: "(string \<times> string) list \<Rightarrow> HelpEngine \<Rightarrow> HelpEngine" where
  "resume_from checkpoint e =
     push_audit ''source-index-resumed''
       (e\<lparr>hp_source_index_entries :=
          foldl (\<lambda>m (k, v). if map_of m k = None then bt_insert k v m else m) (hp_source_index_entries e) checkpoint\<rparr>)"

definition source_index_len :: "HelpEngine \<Rightarrow> nat" where
  "source_index_len e = length (hp_source_index_entries e)"

definition remove_source_index :: "HelpEngine \<Rightarrow> HelpEngine" where
  "remove_source_index e =
     push_audit ''source-index-removed''
       (e\<lparr>hp_source_index_entries := [], hp_source_index_enabled := False, hp_source_index_removed := True\<rparr>)"

section \<open>The engine as a machine\<close>

datatype help_op =
    AddSource SourceKind string string string
  | AddFieldHelp FieldHelp
  | BuildAsk string string string "string list" "string list" "string list" "string list"
  | SetMode HelpMode
  | AddCoachStep CoachStep
  | Observe string bool "string list"
  | Confirm string
  | EnableIndex bool bool
  | AddIgnore string
  | IndexFile string string
  | Resume "(string \<times> string) list"
  | RemoveIndex

fun help_step :: "help_op \<Rightarrow> HelpEngine \<Rightarrow> HelpEngine" where
  "help_step (AddSource k i b v) e = snd (add_source k i b v e)"
| "help_step (AddFieldHelp h) e = snd (add_field_help h e)"
| "help_step (BuildAsk f u v ds cs as ss) e = snd (build_ask_context f u v ds cs as ss e)"
| "help_step (SetMode m) e = HelpEngine_set_mode m e"
| "help_step (AddCoachStep c) e = snd (add_coach_step c e)"
| "help_step (Observe n ob ev) e = snd (observe_capability n ob ev e)"
| "help_step (Confirm n) e = snd (confirm_capability n e)"
| "help_step (EnableIndex l i) e = enable_source_index l i e"
| "help_step (AddIgnore p) e = add_ignore_pattern p e"
| "help_step (IndexFile p c) e = snd (index_local_file p c e)"
| "help_step (Resume cp) e = resume_from cp e"
| "help_step RemoveIndex e = remove_source_index e"

definition entry_ok :: "string \<times> IndexEntry \<Rightarrow> bool" where
  "entry_ok kx \<longleftrightarrow> (case kx of (k, x) \<Rightarrow>
     k = source_key (ix_kind x) (ix_id x) \<and> ix_id x \<noteq> [] \<and> ix_body x \<noteq> [] \<and> length (ix_body x) \<le> MAX_INPUT_BYTES
     \<and> ix_content_hash x = stable_hash (SourceKind_name (ix_kind x) @ [CHR 0x1F] @ ix_id x @ [CHR 0x1F] @ ix_body x
         @ [CHR 0x1F] @ ix_source_version x))"

definition probe_ok :: "string \<times> CapabilityProbe \<Rightarrow> bool" where
  "probe_ok np \<longleftrightarrow> (case np of (n, p) \<Rightarrow> pb_name p = n \<and> n \<noteq> [] \<and> pb_evidence p \<noteq> [])"

definition help_inv :: "HelpEngine \<Rightarrow> bool" where
  "help_inv e \<longleftrightarrow>
     bt_sorted (hp_index e) \<and> length (hp_index e) \<le> MAX_INDEX_ENTRIES \<and> list_all entry_ok (hp_index e)
     \<and> bt_sorted (hp_field_help e) \<and> length (hp_field_help e) \<le> MAX_FIELD_HELP
     \<and> bt_sorted (hp_coach_steps e) \<and> length (hp_coach_steps e) \<le> MAX_COACH_STEPS
     \<and> bt_sorted (hp_probes e) \<and> list_all probe_ok (hp_probes e) \<and> length (hp_audit e) \<le> MAX_HELP_AUDIT"

lemma help_audit_same [simp]:
  "hp_index (push_audit a e) = hp_index e" "hp_probes (push_audit a e) = hp_probes e"
  "hp_source_index_entries (push_audit a e) = hp_source_index_entries e"
  "hp_app_version (push_audit a e) = hp_app_version e" "hp_source_index_enabled (push_audit a e) = hp_source_index_enabled e"
  "hp_ignore_patterns (push_audit a e) = hp_ignore_patterns e" "hp_field_help (push_audit a e) = hp_field_help e"
  "hp_coach_steps (push_audit a e) = hp_coach_steps e"
  by (simp_all add: push_audit_def)

lemma help_audit_length [simp]:
  "length (hp_audit e) \<le> MAX_HELP_AUDIT \<Longrightarrow> length (hp_audit (push_audit a e)) \<le> MAX_HELP_AUDIT"
  by (auto simp: push_audit_def MAX_HELP_AUDIT_def)

lemma help_audit_inv: "help_inv e \<Longrightarrow> help_inv (push_audit entry e)"
  by (simp add: help_inv_def)

lemma add_source_inv: "help_inv e \<Longrightarrow> help_inv (snd (add_source k i b v e))"
  unfolding add_source_def Let_def
  by (auto simp: help_inv_def bt_sorted_insert length_bt_insert list_all_bt_insert entry_ok_def)

lemma add_field_help_inv: "help_inv e \<Longrightarrow> help_inv (snd (add_field_help h e))"
  unfolding add_field_help_def
  by (auto simp: help_inv_def bt_sorted_insert length_bt_insert)

lemma add_coach_step_inv: "help_inv e \<Longrightarrow> help_inv (snd (add_coach_step c e))"
  unfolding add_coach_step_def
  by (auto simp: help_inv_def bt_sorted_insert length_bt_insert)

lemma observe_capability_inv: "help_inv e \<Longrightarrow> help_inv (snd (observe_capability n ob ev e))"
  unfolding observe_capability_def Let_def
  by (auto simp: help_inv_def bt_sorted_insert list_all_bt_insert probe_ok_def)

lemma confirm_capability_inv: "help_inv e \<Longrightarrow> help_inv (snd (confirm_capability n e))"
proof (cases "map_of (hp_probes e) n")
  case (Some p)
  assume inv: "help_inv e"
  then have "probe_ok (n, p)" using map_of_SomeD [OF Some] by (simp add: help_inv_def list_all_iff)
  then have "help_inv (e\<lparr>hp_probes := AList.update n (p\<lparr>pb_confirmed := True\<rparr>) (hp_probes e)\<rparr>)"
    using inv Some by (simp add: help_inv_def bt_sorted_update list_all_update probe_ok_def)
  then show ?thesis using Some by (simp add: confirm_capability_def help_audit_inv)
qed (simp add: confirm_capability_def)

lemma other_ops_inv:
  "help_inv e \<Longrightarrow> help_inv (snd (build_ask_context f u w ds cs as ss e))"
  "help_inv e \<Longrightarrow> help_inv (HelpEngine_set_mode m e)"
  "help_inv e \<Longrightarrow> help_inv (enable_source_index l i e)"
  "help_inv e \<Longrightarrow> help_inv (add_ignore_pattern p e)"
  "help_inv e \<Longrightarrow> help_inv (snd (index_local_file p c e))"
  "help_inv e \<Longrightarrow> help_inv (resume_from cp e)"
  "help_inv e \<Longrightarrow> help_inv (remove_source_index e)"
  unfolding build_ask_context_def HelpEngine_set_mode_def enable_source_index_def add_ignore_pattern_def
    index_local_file_def resume_from_def remove_source_index_def Let_def
  by (auto simp: help_inv_def)

interpretation help_engine: machine_invariant help_step help_inv
proof
  fix e and x :: help_op
  assume "help_inv e"
  then show "help_inv (help_step x e)"
    by (cases x) (simp_all add: add_source_inv add_field_help_inv add_coach_step_inv observe_capability_inv
        confirm_capability_inv other_ops_inv)
qed

lemma new_inv: "help_inv (HelpEngine_new v)"
  by (simp add: help_inv_def HelpEngine_new_def)

section \<open>Capabilities\<close>

text \<open>What a history says of one capability: the last observation with evidence, and whether it was confirmed since.\<close>

fun probe_step :: "string \<Rightarrow> help_op \<Rightarrow> (bool \<times> bool) option \<Rightarrow> (bool \<times> bool) option" where
  "probe_step n (Observe m ob ev) p = (if m = n \<and> n \<noteq> [] \<and> ev \<noteq> [] then Some (ob, False) else p)"
| "probe_step n (Confirm m) p = (if m = n then map_option (\<lambda>(ob, c). (ob, True)) p else p)"
| "probe_step n _ p = p"

definition probe_view :: "string \<Rightarrow> HelpEngine \<Rightarrow> (bool \<times> bool) option" where
  "probe_view n e = map_option (\<lambda>p. (pb_observed p, pb_confirmed p)) (HelpEngine_capability n e)"

lemma probes_kept:
  "hp_probes (snd (add_source k i b v e)) = hp_probes e" "hp_probes (snd (add_field_help h e)) = hp_probes e"
  "hp_probes (snd (build_ask_context f u w ds cs as ss e)) = hp_probes e" "hp_probes (HelpEngine_set_mode m e) = hp_probes e"
  "hp_probes (snd (add_coach_step c e)) = hp_probes e" "hp_probes (enable_source_index l j e) = hp_probes e"
  "hp_probes (add_ignore_pattern p e) = hp_probes e" "hp_probes (snd (index_local_file q t e)) = hp_probes e"
  "hp_probes (resume_from cp e) = hp_probes e" "hp_probes (remove_source_index e) = hp_probes e"
  by (simp_all add: add_source_def add_field_help_def build_ask_context_def HelpEngine_set_mode_def add_coach_step_def
      enable_source_index_def add_ignore_pattern_def index_local_file_def resume_from_def remove_source_index_def Let_def)

interpretation probes: simulation help_step "probe_step n" id "\<lambda>e p. probe_view n e = p" "\<lambda>_. True" for n
proof
  fix e and p :: "(bool \<times> bool) option" and x :: help_op
  assume v: "probe_view n e = p"
  show "probe_view n (help_step x e) = probe_step n (id x) p"
    unfolding v [symmetric] probe_view_def HelpEngine_capability_def
    by (cases x) (auto simp: probes_kept observe_capability_def confirm_capability_def Let_def split: option.split)
qed

lemma confirmed_iff:
  "help_inv e \<Longrightarrow> n \<in> confirmed_capabilities e \<longleftrightarrow> probe_view n e = Some (True, True)"
proof -
  assume "help_inv e"
  then have "distinct (map fst (hp_probes e))" by (simp add: help_inv_def strict_sorted_iff)
  then show ?thesis
    unfolding confirmed_capabilities_def probe_view_def HelpEngine_capability_def
    by (force simp: image_iff dest: map_of_SomeD)
qed

section \<open>Facts on the index\<close>

lemma source_key_inject: "source_key k i = source_key k' i' \<longleftrightarrow> k = k' \<and> i = i'"
  by (cases k; cases k') (auto simp: source_key_def)

definition source_entry :: "SourceKind \<times> string \<times> string \<times> string \<Rightarrow> string \<times> IndexEntry" where
  "source_entry x = (case x of (k, i, b, v) \<Rightarrow>
     (source_key k i, \<lparr>ix_id = i, ix_title = i, ix_kind = k,
        ix_content_hash = stable_hash (SourceKind_name k @ [CHR 0x1F] @ i @ [CHR 0x1F] @ b @ [CHR 0x1F] @ v),
        ix_body = b, ix_source_version = v\<rparr>))"

definition source_ok :: "SourceKind \<times> string \<times> string \<times> string \<Rightarrow> bool" where
  "source_ok x = (case x of (k, i, b, v) \<Rightarrow> i \<noteq> [] \<and> b \<noteq> [] \<and> length b \<le> MAX_INPUT_BYTES)"

definition accept_sources :: "(SourceKind \<times> string \<times> string \<times> string) list \<Rightarrow> HelpEngine \<Rightarrow> HelpEngine" where
  "accept_sources = run (\<lambda>(k, i, b, v). help_step (AddSource k i b v))"

lemma accept_one:
  assumes "source_ok x" and "length (hp_index e) < MAX_INDEX_ENTRIES" and "map_of (hp_index e) (fst (source_entry x)) = None"
  shows "hp_index (accept_sources [x] e) = bt_insert (fst (source_entry x)) (snd (source_entry x)) (hp_index e)
    \<and> hp_app_version (accept_sources [x] e) = hp_app_version e"
  using assms by (cases x) (simp add: accept_sources_def add_source_def source_ok_def source_entry_def Let_def)

lemma accept_index:
  "bt_sorted (hp_index e) \<Longrightarrow> list_all source_ok xs \<Longrightarrow> length (hp_index e) + length xs \<le> MAX_INDEX_ENTRIES \<Longrightarrow>
    distinct (map (fst \<circ> source_entry) xs) \<Longrightarrow> \<forall>x \<in> set xs. map_of (hp_index e) (fst (source_entry x)) = None \<Longrightarrow>
    bt_sorted (hp_index (accept_sources xs e))
    \<and> length (hp_index (accept_sources xs e)) = length (hp_index e) + length xs
    \<and> hp_app_version (accept_sources xs e) = hp_app_version e
    \<and> map_of (hp_index (accept_sources xs e)) = map_of (hp_index e) ++ map_of (map source_entry xs)"
proof (induction xs arbitrary: e)
  case Nil
  then show ?case by (simp add: accept_sources_def)
next
  case (Cons x xs)
  let ?e = "accept_sources [x] e"
  have one: "hp_index ?e = bt_insert (fst (source_entry x)) (snd (source_entry x)) (hp_index e)"
      "hp_app_version ?e = hp_app_version e"
    using accept_one [of x e] Cons.prems by simp_all
  have step: "accept_sources (x # xs) e = accept_sources xs ?e" by (simp add: accept_sources_def)
  have fresh: "fst (source_entry x) \<notin> fst ` set (map source_entry xs)" using Cons.prems(4) by (auto simp: image_iff)
  have m: "(map_of (hp_index e))(fst (source_entry x) \<mapsto> snd (source_entry x)) ++ map_of (map source_entry xs)
      = map_of (hp_index e) ++ map_of (map source_entry (x # xs))"
    using fresh by (simp add: map_add_upd_left dom_map_of_conv_image_fst)
  moreover have "\<forall>y \<in> set xs. map_of (hp_index ?e) (fst (source_entry y)) = None"
  proof
    fix y
    assume "y \<in> set xs"
    then have "fst (source_entry y) \<noteq> fst (source_entry x)" "map_of (hp_index e) (fst (source_entry y)) = None"
      using fresh Cons.prems(5) by (auto simp: image_iff)
    then show "map_of (hp_index ?e) (fst (source_entry y)) = None" by (simp add: one)
  qed
  moreover have "length (hp_index ?e) = Suc (length (hp_index e))" "bt_sorted (hp_index ?e)"
    using Cons.prems by (simp_all add: one length_bt_insert bt_sorted_insert)
  ultimately have "bt_sorted (hp_index (accept_sources xs ?e))
      \<and> length (hp_index (accept_sources xs ?e)) = length (hp_index ?e) + length xs
      \<and> hp_app_version (accept_sources xs ?e) = hp_app_version ?e
      \<and> map_of (hp_index (accept_sources xs ?e)) = map_of (hp_index ?e) ++ map_of (map source_entry xs)"
    using Cons.prems by (intro Cons.IH) simp_all
  moreover have "map_of (hp_index ?e) = (map_of (hp_index e))(fst (source_entry x) \<mapsto> snd (source_entry x))"
    unfolding one(1) by (rule map_of_bt_insert)
  ultimately have "map_of (hp_index (accept_sources xs ?e)) = map_of (hp_index e) ++ map_of (map source_entry (x # xs))"
      "bt_sorted (hp_index (accept_sources xs ?e))" "hp_app_version (accept_sources xs ?e) = hp_app_version e"
      "length (hp_index (accept_sources xs ?e)) = length (hp_index e) + length (x # xs)"
    using m one(2) \<open>length (hp_index ?e) = Suc (length (hp_index e))\<close> by (simp_all only: list.size add_Suc_right add_Suc add_0_right)
  then show ?case unfolding step by (intro conjI)
qed

section \<open>Properties\<close>

text \<open>
  The index is reproducible. The same accepted sources, added in any order, give the same entries and the same state
  hash.
\<close>

theorem index_reproducible:
  "(if mset xs = mset ys \<and> distinct (map (\<lambda>(k, i, b, s). (k, i)) xs) \<and> length xs \<le> MAX_INDEX_ENTRIES \<and> list_all source_ok xs
    then (let e = accept_sources xs (HelpEngine_new v); f = accept_sources ys (HelpEngine_new v) in
      index_entries e = index_entries f \<and> index_state_hash e = index_state_hash f \<and> index_len e = length xs)
    else True)"
proof (cases "mset xs = mset ys \<and> distinct (map (\<lambda>(k, i, b, s). (k, i)) xs) \<and> length xs \<le> MAX_INDEX_ENTRIES
    \<and> list_all source_ok xs")
  case True
  let ?e = "accept_sources xs (HelpEngine_new v)" and ?f = "accept_sources ys (HelpEngine_new v)"
  have same: "set xs = set ys" "length xs = length ys" using True by (metis mset_eq_setD mset_eq_length)+
  have new: "hp_index (HelpEngine_new v) = []" by (simp add: HelpEngine_new_def)
  have key: "fst (source_entry x) = (\<lambda>(k, i). source_key k i) ((\<lambda>(k, i, b, s). (k, i)) x)" for x
    by (cases x) (simp add: source_entry_def)
  have dist: "distinct (map (fst \<circ> source_entry) xs)"
  proof -
    have "inj (\<lambda>(k, i). source_key k i)" by (auto simp: inj_def source_key_inject)
    then have "distinct (map (\<lambda>(k, i). source_key k i) (map (\<lambda>(k, i, b, s). (k, i)) xs))"
      using True by (simp add: distinct_map comp_inj_on inj_on_subset [OF _ subset_UNIV])
    then show ?thesis by (simp add: comp_def key)
  qed
  then have dist': "distinct (map (fst \<circ> source_entry) ys)"
    using True by (metis mset_eq_imp_distinct_iff mset_map)
  have e: "bt_sorted (hp_index ?e)" "map_of (hp_index ?e) = map_of (map source_entry xs)"
      "length (hp_index ?e) = length xs" "hp_app_version ?e = hp_app_version (HelpEngine_new v)"
    using accept_index [of "HelpEngine_new v" xs] dist True by (simp_all add: new)
  have f: "bt_sorted (hp_index ?f)" "map_of (hp_index ?f) = map_of (map source_entry ys)"
      "hp_app_version ?f = hp_app_version (HelpEngine_new v)"
    using accept_index [of "HelpEngine_new v" ys] dist' True same by (simp_all add: new list_all_iff)
  have "map_of (map source_entry xs) = map_of (map source_entry ys)"
    using dist dist' same(1) by (subst map_of_inject_set) (simp_all add: comp_def)
  then have "hp_index ?e = hp_index ?f" using bt_sorted_unique e f by metis
  then show ?thesis using True e f by (simp add: Let_def index_entries_def index_state_hash_def index_len_def)
qed auto

text \<open>
  C29: Files in the source index are clean. A file is indexed only while indexing is enabled, when no ignore pattern
  matches its path, and when it assigns nothing, in any case and with an equals sign or a colon right after it,
  to one of the secret keys; a file that is refused leaves the index as it is.
\<close>

theorem indexed_files_clean:
  "(case index_local_file path content e of
      (Inl d, e') \<Rightarrow> hp_source_index_entries e' = hp_source_index_entries e
    | (Inr u, e') \<Rightarrow>
        hp_source_index_enabled e
        \<and> list_all (\<lambda>p. glob_match p path = Some False) (hp_ignore_patterns e)
        \<and> list_all (\<lambda>m. assigned m content = False) (butlast help_markers)
        \<and> hp_source_index_entries e' = bt_insert path (stable_hash content) (hp_source_index_entries e)
        \<and> length (hp_source_index_entries e) < MAX_SOURCE_INDEX_ENTRIES)"
proof -
  have "list_all one_word (butlast help_markers)" by code_simp
  then have clean: "list_all (\<lambda>m. assigned m content = False) (butlast help_markers)" if "redact_secrets content = content"
    using unchanged_unassigned [OF that] by (auto simp: list_all_iff dest: in_set_butlastD)
  have "list_all (\<lambda>p. glob_match p path = Some False) (hp_ignore_patterns e)" if "\<not> is_ignored path e"
    unfolding list_all_iff
  proof
    fix p
    assume "p \<in> set (hp_ignore_patterns e)"
    then have "glob_match p path \<noteq> Some True" using that by (auto simp: is_ignored_def list_ex_iff)
    then show "glob_match p path = Some False" using glob_match_returns [of p path] by auto
  qed
  then show ?thesis
    using clean by (auto simp: index_local_file_def Let_def)
qed

text \<open>
  Secrets in the usual notations are missed. A password after a space, or in the quotes of JSON, is not found, so
  such a file is indexed and such a text handed over as it is; after a colon and a space the colon is masked.
\<close>

theorem spaced_secrets_missed:
  "(if list_all is_digit w
    then redact_secrets (''password = '' @ w) = ''password = '' @ w
      \<and> redact_secrets ([CHR 0x22] @ ''password'' @ [CHR 0x22] @ '': '' @ CHR 0x22 # w) = [CHR 0x22] @ ''password'' @ [CHR 0x22] @ '': '' @ CHR 0x22 # w
      \<and> redact_secrets (''password: '' @ w) = ''password[REDACTED] '' @ w
      \<and> fst (index_local_file path (''password = '' @ w) e)
          = (if hp_source_index_enabled e = False then Inl Disabled
             else if MAX_INPUT_BYTES < length (''password = '' @ w) then Inl OversizedInput
             else if is_ignored path e then Inl DeniedPolicy
             else if MAX_SOURCE_INDEX_ENTRIES \<le> length (hp_source_index_entries e) then Inl QueueFull else Inr ())
    else True)"
  using spaced_secret_kept [of w] by (auto simp: index_local_file_def Let_def)

text \<open>
  Capabilities follow evidence. Whatever happens to the engine, a capability is what its last observation with
  evidence said, confirmed when a confirmation followed that; the confirmed ones are those observed to be there
  and confirmed since.
\<close>

theorem capabilities_follow_evidence:
  "(let e = run help_step ops (HelpEngine_new v) in
    map_option (\<lambda>p. (pb_observed p, pb_confirmed p)) (HelpEngine_capability n e) = run (probe_step n) ops None
    \<and> (n \<in> confirmed_capabilities e) = (run (probe_step n) ops None = Some (True, True))
    \<and> (case HelpEngine_capability n e of None \<Rightarrow> True | Some p \<Rightarrow> pb_evidence p \<noteq> []))"
proof -
  let ?e = "run help_step ops (HelpEngine_new v)"
  have inv: "help_inv ?e" by (rule help_engine.run_inv [OF new_inv])
  have "probe_view n (HelpEngine_new v) = None" by (simp add: probe_view_def HelpEngine_capability_def HelpEngine_new_def)
  from probes.sim_run [OF this, of ops] have v: "probe_view n ?e = run (probe_step n) ops None" by (simp add: list_all_iff)
  have "list_all probe_ok (hp_probes ?e)" using inv by (simp add: help_inv_def)
  then show ?thesis
    using v confirmed_iff [OF inv, of n]
    by (auto simp: Let_def probe_view_def HelpEngine_capability_def list_all_iff probe_ok_def split: option.split dest!: map_of_SomeD)
qed

text \<open>
  The context handed to an assistant is scoped: at most 32 references, each asked for and in the index under its
  kind, at least one of them, and the state of the user interface redacted. The text of the validation error
  is handed over as it is.
\<close>

theorem ask_context_scoped:
  "(case build_ask_context field ui err ds cs as ss e of
      (Inl d, e') \<Rightarrow> e' = e \<and> d \<in> {Disabled, MalformedInput, OversizedInput, UnavailableDependency}
    | (Inr c, e') \<Rightarrow>
        ak_sanitized_ui_state c = redact_secrets ui \<and> ak_validation_error c = err
        \<and> list_all (\<lambda>(kind, asked, given). set given = {r \<in> set asked. source_key kind r \<in> set (map fst (hp_index e))})
            [(Docs, ds, ak_approved_docs c), (CommandCatalog, cs, ak_command_catalog_refs c), (Adr, as, ak_adr_refs c),
             (SourceRef, ss, ak_source_refs c)]
        \<and> (let n = length (ak_approved_docs c @ ak_command_catalog_refs c @ ak_adr_refs c @ ak_source_refs c) in
            0 < n \<and> n \<le> MAX_ASK_CONTEXT_FIELDS))"
proof -
  have sub: "length (known_refs k rs e) \<le> length rs" for k rs by (simp add: known_refs_def)
  have known: "set (known_refs k rs e) = {r \<in> set rs. source_key k r \<in> set (map fst (hp_index e))}" for k rs
    by (auto simp: known_refs_def map_of_eq_None_iff)
  show ?thesis
    using sub [of Docs ds] sub [of CommandCatalog cs] sub [of Adr as] sub [of SourceRef ss]
    unfolding build_ask_context_def Let_def
    by (auto simp: known simp del: length_0_conv) 
qed

text \<open>
  Command line help calls current entries stale: with two documents of different versions in the index, the
  help on the first is refused, although nothing but the index itself was asked for the current version.
\<close>

theorem cli_help_refuses_own_entry:
  "(if source_ok (Docs, ''a'', body, ''1'')
    then cli_help ''a'' (accept_sources [(Docs, ''a'', body, ''1''), (Docs, ''b'', body, ''2'')] (HelpEngine_new v)) = Inl StaleSource
    else True)"
proof (cases "source_ok (Docs, ''a'', body, ''1'')")
  case True
  let ?e = "accept_sources [(Docs, ''a'', body, ''1''), (Docs, ''b'', body, ''2'')] (HelpEngine_new v)"
  have idx: "hp_index ?e = [source_entry (Docs, ''a'', body, ''1''), source_entry (Docs, ''b'', body, ''2'')]"
    using True by (simp add: accept_sources_def add_source_def source_ok_def source_entry_def source_key_def Let_def
        HelpEngine_new_def MAX_INDEX_ENTRIES_def push_audit_def)
  have mode: "hp_mode ?e = LocalOnly"
    using True by (simp add: accept_sources_def add_source_def source_ok_def Let_def HelpEngine_new_def push_audit_def)
  show ?thesis
    using True by (simp add: cli_help_def HelpEngine_answer_def mode SourceKind_all_def idx source_entry_def own_versions_def)
qed simp

end
