(* ===== verification/Voice.thy ===== *)
theory Voice
  imports Prelude
begin

text \<open>
  The voice companion, \<open>wirecore/crates/wire-voice/src/lib.rs\<close>: its states, the microphone, the bounded queue
  of speech jobs, styles, macros and the proposals they make, remote speech policy, subtitles, audit.
\<close>

definition VOICE_SCHEMA_VERSION :: u32 where "VOICE_SCHEMA_VERSION = 1"

definition MAX_SPEECH_QUEUE :: nat where "MAX_SPEECH_QUEUE = 64"

definition MAX_TRANSCRIPT_RETENTION :: nat where "MAX_TRANSCRIPT_RETENTION = 512"

definition MAX_MACRO_LENGTH :: nat where "MAX_MACRO_LENGTH = 1024"

definition MAX_SUBTITLE_LENGTH :: nat where "MAX_SUBTITLE_LENGTH = 256"

definition MAX_STYLES :: nat where "MAX_STYLES = 128"

definition MAX_WAKE_PHRASE_LENGTH :: nat where "MAX_WAKE_PHRASE_LENGTH = 64"

definition MAX_VOICE_AUDIT :: nat where "MAX_VOICE_AUDIT = 1024"

datatype VoiceDenial =
    EmergencyStop | UnavailableDependency | Timeout | Cancelled | MalformedInput | DuplicateRequest | DeniedPolicy
  | QueueFull | OversizedInput | MicrophoneDenied | ConsentRequired | LocalOnlyLockdown | ProtectedVoice | NotConfigured

datatype MicState = Off | Listening | Speaking | BargeIn | MicError | MicDisabled

fun MicState_label :: "MicState \<Rightarrow> string" where
  "MicState_label Off = ''off''"
| "MicState_label Listening = ''listening''"
| "MicState_label Speaking = ''speaking''"
| "MicState_label BargeIn = ''barge-in''"
| "MicState_label MicError = ''error''"
| "MicState_label MicDisabled = ''disabled''"

datatype ActivationMode = PushToTalk | HoldToTalk

record WakePhraseConfig =
  wk_phrase :: string
  wk_consented :: bool
  wk_provider_is_local :: bool

record SpeechJob =
  sj_id :: string
  sj_kind :: string
  sj_text :: string
  sj_provider :: string
  sj_critical :: bool
  sj_remote_approved :: bool
  sj_cancelled :: bool
  sj_at_ms :: u64

record VoiceMacro =
  vm_id :: string
  vm_name :: string
  vm_phrase :: string
  vm_command :: string
  vm_risk_tier :: string
  vm_confirmation_required :: bool

record VoiceProposal =
  vp_source :: string
  vp_original :: string
  vp_normalized_command :: string
  vp_risk_tier :: string
  vp_confirmation_required :: bool
  vp_approved :: bool

definition VoiceMacro_validate :: "VoiceMacro \<Rightarrow> VoiceDenial + unit" where
  "VoiceMacro_validate m =
     (if vm_id m = [] \<or> vm_name m = [] \<or> vm_phrase m = [] then Inl MalformedInput
      else if vm_command m = [] \<or> MAX_MACRO_LENGTH < length (vm_command m) then Inl MalformedInput
      else if vm_risk_tier m \<notin> {''low'', ''medium'', ''high'', ''critical''} then Inl DeniedPolicy
      else if vm_confirmation_required m \<and> vm_risk_tier m = ''manual'' then Inl DeniedPolicy
      else Inr ())"

definition VoiceMacro_propose :: "VoiceMacro \<Rightarrow> VoiceDenial + VoiceProposal" where
  "VoiceMacro_propose m =
     (case VoiceMacro_validate m of
        Inl d \<Rightarrow> Inl d
      | Inr _ \<Rightarrow> Inr \<lparr>vp_source = ''voice'', vp_original = vm_phrase m, vp_normalized_command = vm_command m,
          vp_risk_tier = vm_risk_tier m, vp_confirmation_required = vm_confirmation_required m, vp_approved = False\<rparr>)"

record SpokenSummary =
  ss_kind :: string
  ss_text :: string
  ss_source :: string
  ss_private :: bool

record SubtitleLine =
  sl_text :: string
  sl_private :: bool
  sl_at_ms :: u64

record VoiceStyle =
  vy_id :: string
  vy_label :: string
  vy_kind :: string
  vy_license :: string
  vy_authorized :: bool
  vy_protected :: bool

definition VoiceStyle_validate :: "VoiceStyle \<Rightarrow> VoiceDenial + unit" where
  "VoiceStyle_validate s =
     (if vy_id s = [] \<or> vy_label s = [] then Inl MalformedInput
      else if vy_protected s \<and> \<not> vy_authorized s then Inl ProtectedVoice
      else Inr ())"

record VoiceConsent =
  vc_receipt_id :: string
  vc_feature :: string
  vc_provider :: string
  vc_data_class :: string
  vc_profile :: string
  vc_version :: u32
  vc_revoked :: bool

record RemoteSpeechPolicy =
  rp_provider_configured :: bool
  rp_privacy_policy_accepted :: bool
  rp_redaction_enabled :: bool
  rp_consent_receipts :: "VoiceConsent list"
  rp_local_only :: bool

definition allow_remote :: "string \<Rightarrow> string \<Rightarrow> RemoteSpeechPolicy \<Rightarrow> VoiceDenial + unit" where
  "allow_remote profile data_class p =
     (if rp_local_only p then Inl LocalOnlyLockdown
      else if \<not> rp_provider_configured p then Inl NotConfigured
      else if \<not> rp_privacy_policy_accepted p then Inl ConsentRequired
      else if \<not> rp_redaction_enabled p then Inl ConsentRequired
      else if \<not> list_ex (\<lambda>c. vc_feature c = ''voice'' \<and> vc_provider c = profile \<and> vc_data_class c = data_class
              \<and> \<not> vc_revoked c) (rp_consent_receipts p)
      then Inl ConsentRequired
      else Inr ())"

datatype VoiceState = Loading | Ready | VoiceDisabled | Denied | Degraded | Canceled | Unavailable | VoiceError

fun VoiceState_label :: "VoiceState \<Rightarrow> string" where
  "VoiceState_label Loading = ''loading''"
| "VoiceState_label Ready = ''ready''"
| "VoiceState_label VoiceDisabled = ''disabled''"
| "VoiceState_label Denied = ''denied''"
| "VoiceState_label Degraded = ''degraded''"
| "VoiceState_label Canceled = ''canceled''"
| "VoiceState_label Unavailable = ''unavailable''"
| "VoiceState_label VoiceError = ''error''"

record VoiceCompanion =
  vo_state :: VoiceState
  vo_mic :: MicState
  vo_activation :: ActivationMode
  vo_wake_phrase :: "WakePhraseConfig option"
  vo_queue :: "SpeechJob list"
  vo_subtitles :: "SubtitleLine list"
  vo_retention :: nat
  vo_private_suppressed :: bool
  vo_remote :: RemoteSpeechPolicy
  vo_styles :: "(string \<times> VoiceStyle) list"
  vo_macros :: "(string \<times> VoiceMacro) list"
  vo_emergency_stop :: bool
  vo_load_shed :: bool
  vo_combat_suppress :: bool
  vo_audit :: "string list"
  vo_next_job_id :: nat

definition VoiceCompanion_new :: VoiceCompanion where
  "VoiceCompanion_new =
     \<lparr>vo_state = Loading, vo_mic = Off, vo_activation = PushToTalk, vo_wake_phrase = None, vo_queue = [],
      vo_subtitles = [], vo_retention = 64, vo_private_suppressed = True,
      vo_remote = \<lparr>rp_provider_configured = False, rp_privacy_policy_accepted = False, rp_redaction_enabled = True,
        rp_consent_receipts = [], rp_local_only = True\<rparr>,
      vo_styles = [], vo_macros = [], vo_emergency_stop = False, vo_load_shed = False, vo_combat_suppress = False,
      vo_audit = [], vo_next_job_id = 1\<rparr>"

definition audit_push :: "string \<Rightarrow> VoiceCompanion \<Rightarrow> VoiceCompanion" where
  "audit_push entry v =
     (let a = vo_audit v @ [entry] in v\<lparr>vo_audit := (if MAX_VOICE_AUDIT < length a then tl a else a)\<rparr>)"

definition set_ready :: "VoiceCompanion \<Rightarrow> VoiceCompanion" where
  "set_ready v = audit_push ''state ready'' (v\<lparr>vo_state := Ready\<rparr>)"

definition set_disabled :: "VoiceCompanion \<Rightarrow> VoiceCompanion" where
  "set_disabled v = audit_push ''state disabled'' (v\<lparr>vo_state := VoiceDisabled, vo_mic := MicDisabled, vo_queue := []\<rparr>)"

definition degrade_to_text :: "VoiceCompanion \<Rightarrow> VoiceCompanion" where
  "degrade_to_text v = audit_push ''degrade to text'' (v\<lparr>vo_state := Degraded, vo_mic := MicError, vo_queue := []\<rparr>)"

definition emergency_stop :: "VoiceCompanion \<Rightarrow> VoiceCompanion" where
  "emergency_stop v =
     audit_push ''emergency stop''
       (v\<lparr>vo_state := Canceled, vo_mic := Off, vo_queue := map (\<lambda>j. j\<lparr>sj_cancelled := True\<rparr>) (vo_queue v),
          vo_emergency_stop := True\<rparr>)"

definition set_wake_phrase ::
    "string \<Rightarrow> bool \<Rightarrow> bool \<Rightarrow> VoiceCompanion \<Rightarrow> (VoiceDenial + unit) \<times> VoiceCompanion" where
  "set_wake_phrase phrase consented provider_is_local v =
     (if phrase = [] \<or> MAX_WAKE_PHRASE_LENGTH < length phrase then (Inl MalformedInput, v)
      else if \<not> consented then (Inl ConsentRequired, v)
      else if rp_local_only (vo_remote v) \<and> \<not> provider_is_local then (Inl LocalOnlyLockdown, v)
      else (Inr (), audit_push ''wake phrase configured''
              (v\<lparr>vo_wake_phrase := Some \<lparr>wk_phrase = phrase, wk_consented = consented,
                 wk_provider_is_local = provider_is_local\<rparr>\<rparr>)))"

definition begin_listen :: "VoiceCompanion \<Rightarrow> (VoiceDenial + unit) \<times> VoiceCompanion" where
  "begin_listen v =
     (if vo_emergency_stop v then (Inl EmergencyStop, v)
      else if vo_state v \<noteq> Ready \<and> vo_state v \<noteq> Degraded then (Inl DeniedPolicy, v)
      else (Inr (), audit_push ''mic listening'' (v\<lparr>vo_mic := Listening\<rparr>)))"

definition end_listen :: "VoiceCompanion \<Rightarrow> VoiceCompanion" where
  "end_listen v = (if vo_mic v = Listening then audit_push ''mic off'' (v\<lparr>vo_mic := Off\<rparr>) else v)"

definition enqueue_speech ::
    "string \<Rightarrow> string \<Rightarrow> string \<Rightarrow> bool \<Rightarrow> u64 \<Rightarrow> VoiceCompanion \<Rightarrow> (VoiceDenial + string) \<times> VoiceCompanion" where
  "enqueue_speech kind txt provider critical at_ms v =
     (if vo_emergency_stop v then (Inl EmergencyStop, v)
      else if vo_state v = VoiceDisabled \<or> vo_state v = Canceled \<or> vo_state v = Unavailable then (Inl DeniedPolicy, v)
      else if txt = [] \<or> MAX_SUBTITLE_LENGTH * 4 < length txt then (Inl MalformedInput, v)
      else
        let i = ''voice-'' @ show_nat (vo_next_job_id v);
            v1 = v\<lparr>vo_next_job_id := vo_next_job_id v + 1\<rparr>;
            job = \<lparr>sj_id = i, sj_kind = kind, sj_text = txt, sj_provider = provider, sj_critical = critical,
              sj_remote_approved = False, sj_cancelled = False, sj_at_ms = at_ms\<rparr> in
        if MAX_SPEECH_QUEUE \<le> length (vo_queue v) then
          (if critical then (Inl QueueFull, v1)
           else (Inl QueueFull, audit_push (''shed speech job '' @ i) (v1\<lparr>vo_load_shed := True\<rparr>)))
        else (Inr i, audit_push (''enqueue speech '' @ i) (v1\<lparr>vo_queue := vo_queue v @ [job]\<rparr>)))"

definition cancel_job :: "string \<Rightarrow> VoiceCompanion \<Rightarrow> (VoiceDenial + unit) \<times> VoiceCompanion" where
  "cancel_job i v =
     (let v1 = v\<lparr>vo_queue := map (\<lambda>j. if sj_id j = i then j\<lparr>sj_cancelled := True\<rparr> else j) (vo_queue v)\<rparr> in
      if \<not> list_ex (\<lambda>j. sj_id j = i) (vo_queue v) then (Inl MalformedInput, v1)
      else (Inr (), audit_push (''cancel job '' @ i) v1))"

definition barge_in :: "VoiceCompanion \<Rightarrow> VoiceCompanion" where
  "barge_in v =
     audit_push ''barge in''
       (v\<lparr>vo_mic := BargeIn,
          vo_queue := map (\<lambda>j. if sj_critical j then j else j\<lparr>sj_cancelled := True\<rparr>) (vo_queue v)\<rparr>)"

definition set_combat_suppress :: "bool \<Rightarrow> VoiceCompanion \<Rightarrow> VoiceCompanion" where
  "set_combat_suppress suppress v =
     (if suppress then
        audit_push ''combat suppress narration''
          (v\<lparr>vo_queue := map (\<lambda>j. if sj_kind j = ''summary'' \<and> \<not> sj_critical j then j\<lparr>sj_cancelled := True\<rparr> else j) (vo_queue v),
             vo_combat_suppress := suppress\<rparr>)
      else v\<lparr>vo_combat_suppress := suppress\<rparr>)"

definition add_style :: "VoiceStyle \<Rightarrow> VoiceCompanion \<Rightarrow> (VoiceDenial + unit) \<times> VoiceCompanion" where
  "add_style s v =
     (case VoiceStyle_validate s of
        Inl d \<Rightarrow> (Inl d, v)
      | Inr _ \<Rightarrow>
          if MAX_STYLES \<le> length (vo_styles v) then (Inl QueueFull, v)
          else if map_of (vo_styles v) (vy_id s) \<noteq> None then (Inl DuplicateRequest, v)
          else (Inr (), audit_push ''style registered'' (v\<lparr>vo_styles := bt_insert (vy_id s) s (vo_styles v)\<rparr>)))"

definition add_macro :: "VoiceMacro \<Rightarrow> VoiceCompanion \<Rightarrow> (VoiceDenial + unit) \<times> VoiceCompanion" where
  "add_macro m v =
     (case VoiceMacro_validate m of
        Inl d \<Rightarrow> (Inl d, v)
      | Inr _ \<Rightarrow>
          if map_of (vo_macros v) (vm_id m) \<noteq> None then (Inl DuplicateRequest, v)
          else (Inr (), audit_push ''macro registered'' (v\<lparr>vo_macros := bt_insert (vm_id m) m (vo_macros v)\<rparr>)))"

definition recognize :: "string \<Rightarrow> VoiceCompanion \<Rightarrow> VoiceDenial + VoiceProposal" where
  "recognize phrase v =
     (if vo_emergency_stop v then Inl EmergencyStop
      else if vo_state v = VoiceDisabled \<or> vo_state v = Denied then Inl DeniedPolicy
      else (case find (\<lambda>m. vm_phrase m = phrase) (map snd (vo_macros v)) of
              Some m \<Rightarrow> VoiceMacro_propose m
            | None \<Rightarrow> Inl MalformedInput))"

definition approve_proposal ::
    "VoiceProposal \<Rightarrow> VoiceCompanion \<Rightarrow> (VoiceDenial + unit) \<times> VoiceProposal \<times> VoiceCompanion" where
  "approve_proposal p v =
     (if vp_source p \<noteq> ''voice'' then (Inl DeniedPolicy, p, v)
      else if vp_confirmation_required p \<and> vp_risk_tier p = ''critical'' \<and> vo_emergency_stop v
      then (Inl EmergencyStop, p, v)
      else (Inr (), p\<lparr>vp_approved := True\<rparr>, audit_push ''proposal approved'' v))"

definition set_remote_policy :: "RemoteSpeechPolicy \<Rightarrow> VoiceCompanion \<Rightarrow> VoiceCompanion" where
  "set_remote_policy policy v = audit_push ''remote policy updated'' (v\<lparr>vo_remote := policy\<rparr>)"

text \<open>The loop over the queue: the first job with the identifier.\<close>

fun approve_first :: "string \<Rightarrow> SpeechJob list \<Rightarrow> SpeechJob list option" where
  "approve_first i [] = None"
| "approve_first i (j # js) =
     (if sj_id j = i then Some (j\<lparr>sj_remote_approved := True\<rparr> # js) else map_option ((#) j) (approve_first i js))"

definition submit_remote :: "string \<Rightarrow> string \<Rightarrow> VoiceCompanion \<Rightarrow> (VoiceDenial + unit) \<times> VoiceCompanion" where
  "submit_remote job_id profile v =
     (case allow_remote profile ''voice-transcript'' (vo_remote v) of
        Inl d \<Rightarrow> (Inl d, v)
      | Inr _ \<Rightarrow>
          (case approve_first job_id (vo_queue v) of
             None \<Rightarrow> (Inl MalformedInput, v)
           | Some q \<Rightarrow> (Inr (), audit_push (''remote speech approved '' @ job_id) (v\<lparr>vo_queue := q\<rparr>))))"

text \<open>\<open>while len > n { pop_front }\<close>.\<close>

definition keep_last :: "nat \<Rightarrow> 'a list \<Rightarrow> 'a list" where
  "keep_last n xs = drop (length xs - n) xs"

definition add_subtitle :: "string \<Rightarrow> bool \<Rightarrow> u64 \<Rightarrow> VoiceCompanion \<Rightarrow> (VoiceDenial + unit) \<times> VoiceCompanion" where
  "add_subtitle txt is_private at_ms v =
     (if txt = [] \<or> MAX_SUBTITLE_LENGTH < length txt then (Inl MalformedInput, v)
      else (Inr (), v\<lparr>vo_subtitles := keep_last (vo_retention v)
              (vo_subtitles v @ [\<lparr>sl_text = txt, sl_private = is_private, sl_at_ms = at_ms\<rparr>])\<rparr>))"

definition set_transcript_retention :: "nat \<Rightarrow> VoiceCompanion \<Rightarrow> (VoiceDenial + unit) \<times> VoiceCompanion" where
  "set_transcript_retention n v =
     (if n = 0 \<or> MAX_TRANSCRIPT_RETENTION < n then (Inl MalformedInput, v)
      else (Inr (), v\<lparr>vo_subtitles := keep_last n (vo_subtitles v), vo_retention := n\<rparr>))"

definition set_transcript_private_suppressed :: "bool \<Rightarrow> VoiceCompanion \<Rightarrow> VoiceCompanion" where
  "set_transcript_private_suppressed suppress v = v\<lparr>vo_private_suppressed := suppress\<rparr>"

definition visible_subtitles :: "VoiceCompanion \<Rightarrow> SubtitleLine list" where
  "visible_subtitles v = filter (\<lambda>s. \<not> vo_private_suppressed v \<or> \<not> sl_private s) (vo_subtitles v)"

definition summarize :: "string \<Rightarrow> string \<Rightarrow> SpokenSummary" where
  "summarize kind txt = \<lparr>ss_kind = kind, ss_text = txt, ss_source = ''voice:'' @ kind, ss_private = False\<rparr>"

record VoiceSnapshot =
  vs_state :: string
  vs_mic :: string
  vs_activation :: string
  vs_wake_phrase_enabled :: bool
  vs_queue_len :: nat
  vs_load_shed :: bool
  vs_combat_suppress :: bool
  vs_remote_configured :: bool
  vs_local_only :: bool
  vs_style_count :: nat
  vs_macro_count :: nat

definition VoiceCompanion_snapshot :: "VoiceCompanion \<Rightarrow> VoiceSnapshot" where
  "VoiceCompanion_snapshot v =
     \<lparr>vs_state = VoiceState_label (vo_state v), vs_mic = MicState_label (vo_mic v),
      vs_activation = (case vo_activation v of PushToTalk \<Rightarrow> ''push-to-talk'' | HoldToTalk \<Rightarrow> ''hold-to-talk''),
      vs_wake_phrase_enabled = (vo_wake_phrase v \<noteq> None), vs_queue_len = length (vo_queue v),
      vs_load_shed = vo_load_shed v, vs_combat_suppress = vo_combat_suppress v,
      vs_remote_configured = rp_provider_configured (vo_remote v), vs_local_only = rp_local_only (vo_remote v),
      vs_style_count = length (vo_styles v), vs_macro_count = length (vo_macros v)\<rparr>"

section \<open>The companion as a machine\<close>

datatype voice_op =
    SetReady | SetDisabled | Degrade | Stop
  | SetWake string bool bool
  | BeginListen | EndListen
  | Enqueue string string string bool u64
  | CancelJob string
  | Barge
  | Combat bool
  | AddStyle VoiceStyle
  | AddMacro VoiceMacro
  | Approve VoiceProposal
  | SetRemote RemoteSpeechPolicy
  | SubmitRemote string string
  | AddSubtitle string bool u64
  | SetRetention nat
  | SetSuppressed bool

fun voice_step :: "voice_op \<Rightarrow> VoiceCompanion \<Rightarrow> VoiceCompanion" where
  "voice_step SetReady v = set_ready v"
| "voice_step SetDisabled v = set_disabled v"
| "voice_step Degrade v = degrade_to_text v"
| "voice_step Stop v = emergency_stop v"
| "voice_step (SetWake ph c l) v = snd (set_wake_phrase ph c l v)"
| "voice_step BeginListen v = snd (begin_listen v)"
| "voice_step EndListen v = end_listen v"
| "voice_step (Enqueue k t p c a) v = snd (enqueue_speech k t p c a v)"
| "voice_step (CancelJob i) v = snd (cancel_job i v)"
| "voice_step Barge v = barge_in v"
| "voice_step (Combat b) v = set_combat_suppress b v"
| "voice_step (AddStyle s) v = snd (add_style s v)"
| "voice_step (AddMacro m) v = snd (add_macro m v)"
| "voice_step (Approve p) v = snd (snd (approve_proposal p v))"
| "voice_step (SetRemote p) v = set_remote_policy p v"
| "voice_step (SubmitRemote i p) v = snd (submit_remote i p v)"
| "voice_step (AddSubtitle t b a) v = snd (add_subtitle t b a v)"
| "voice_step (SetRetention n) v = snd (set_transcript_retention n v)"
| "voice_step (SetSuppressed b) v = set_transcript_private_suppressed b v"

lemmas voice_defs = set_ready_def set_disabled_def degrade_to_text_def emergency_stop_def set_wake_phrase_def
  begin_listen_def end_listen_def enqueue_speech_def cancel_job_def barge_in_def set_combat_suppress_def add_style_def
  add_macro_def approve_proposal_def set_remote_policy_def submit_remote_def add_subtitle_def
  set_transcript_retention_def set_transcript_private_suppressed_def Let_def

lemma audit_push_same [simp]:
  "vo_state (audit_push a v) = vo_state v" "vo_mic (audit_push a v) = vo_mic v" "vo_queue (audit_push a v) = vo_queue v"
  "vo_subtitles (audit_push a v) = vo_subtitles v" "vo_retention (audit_push a v) = vo_retention v"
  "vo_private_suppressed (audit_push a v) = vo_private_suppressed v" "vo_remote (audit_push a v) = vo_remote v"
  "vo_styles (audit_push a v) = vo_styles v" "vo_macros (audit_push a v) = vo_macros v"
  "vo_emergency_stop (audit_push a v) = vo_emergency_stop v" "vo_next_job_id (audit_push a v) = vo_next_job_id v"
  by (simp_all add: audit_push_def Let_def)

lemma audit_push_length [simp]:
  "length (vo_audit v) \<le> MAX_VOICE_AUDIT \<Longrightarrow> length (vo_audit (audit_push a v)) \<le> MAX_VOICE_AUDIT"
  by (auto simp: audit_push_def Let_def)

definition job_id :: "nat \<Rightarrow> string" where
  "job_id n = ''voice-'' @ show_nat n"

lemma job_id_inject: "job_id m = job_id n \<longleftrightarrow> m = n"
  by (simp add: job_id_def show_nat_inject)

text \<open>Jobs have identifiers of their own, all below the next one.\<close>

definition queue_ok :: "VoiceCompanion \<Rightarrow> bool" where
  "queue_ok v \<longleftrightarrow>
     length (vo_queue v) \<le> MAX_SPEECH_QUEUE \<and> distinct (map sj_id (vo_queue v))
     \<and> set (map sj_id (vo_queue v)) \<subseteq> job_id ` {..<vo_next_job_id v}"

definition voice_inv :: "VoiceCompanion \<Rightarrow> bool" where
  "voice_inv v \<longleftrightarrow>
     queue_ok v \<and> bt_sorted (vo_macros v)
     \<and> list_all (\<lambda>(k, m). k = vm_id m \<and> VoiceMacro_validate m = Inr ()) (vo_macros v)
     \<and> bt_sorted (vo_styles v) \<and> length (vo_styles v) \<le> MAX_STYLES
     \<and> list_all (\<lambda>(k, s). k = vy_id s \<and> VoiceStyle_validate s = Inr ()) (vo_styles v)
     \<and> length (vo_subtitles v) \<le> vo_retention v \<and> 0 < vo_retention v \<and> vo_retention v \<le> MAX_TRANSCRIPT_RETENTION
     \<and> length (vo_audit v) \<le> MAX_VOICE_AUDIT"

lemma queue_ok_ids: "map sj_id (vo_queue w) = map sj_id (vo_queue v) \<Longrightarrow> vo_next_job_id w = vo_next_job_id v \<Longrightarrow>
    queue_ok v \<Longrightarrow> queue_ok w"
  by (metis queue_ok_def length_map)

lemma ids_kept:
  "map sj_id (map (\<lambda>j. j\<lparr>sj_cancelled := True\<rparr>) q) = map sj_id q"
  "map sj_id (map (\<lambda>j. if p j then j\<lparr>sj_cancelled := True\<rparr> else j) q) = map sj_id q"
  "map sj_id (map (\<lambda>j. if p j then j else j\<lparr>sj_cancelled := True\<rparr>) q) = map sj_id q"
  "approve_first i q = Some r \<Longrightarrow> map sj_id r = map sj_id q"
  by (induction q arbitrary: r) (auto split: if_splits)

lemma queue_ok_enqueue:
  assumes "queue_ok v"
  shows "queue_ok (snd (enqueue_speech k t p c a v))"
proof -
  have fresh: "job_id (vo_next_job_id v) \<notin> set (map sj_id (vo_queue v))"
    using assms by (auto simp: queue_ok_def job_id_inject)
  have "{..<vo_next_job_id v} \<subseteq> {..<Suc (vo_next_job_id v)}" by auto
  then have grow: "job_id ` {..<vo_next_job_id v} \<subseteq> job_id ` {..<Suc (vo_next_job_id v)}" by (rule image_mono)
  show ?thesis
    using assms fresh grow
    unfolding enqueue_speech_def Let_def queue_ok_def job_id_def [symmetric]
    by (auto simp: not_le)
qed

interpretation voice: machine_invariant voice_step voice_inv
proof
  fix v and x :: voice_op
  assume inv: "voice_inv v"
  have q: "queue_ok (voice_step x v)"
  proof (cases "\<exists>k t p c a. x = Enqueue k t p c a")
    case True
    then show ?thesis using queue_ok_enqueue inv by (auto simp: voice_inv_def)
  next
    case False
    then have "vo_queue (voice_step x v) = [] \<or> map sj_id (vo_queue (voice_step x v)) = map sj_id (vo_queue v)"
      by (cases x) (auto simp: voice_defs ids_kept split: sum.split option.split simp del: map_map)
    moreover have "vo_next_job_id (voice_step x v) = vo_next_job_id v"
      using False by (cases x) (auto simp: voice_defs split: sum.split option.split)
    moreover have "queue_ok v" using inv by (simp add: voice_inv_def)
    ultimately show ?thesis
      using queue_ok_ids [of "voice_step x v" v] by (elim disjE) (simp_all add: queue_ok_def)
  qed
  have macros: "bt_sorted (vo_macros (voice_step x v))
      \<and> list_all (\<lambda>(k, m). k = vm_id m \<and> VoiceMacro_validate m = Inr ()) (vo_macros (voice_step x v))"
    using inv unfolding voice_inv_def
    by (cases x) (auto simp: voice_defs bt_sorted_insert list_all_bt_insert split: sum.split option.split)
  have styles: "bt_sorted (vo_styles (voice_step x v)) \<and> length (vo_styles (voice_step x v)) \<le> MAX_STYLES
      \<and> list_all (\<lambda>(k, s). k = vy_id s \<and> VoiceStyle_validate s = Inr ()) (vo_styles (voice_step x v))"
    using inv unfolding voice_inv_def
    by (cases x) (auto simp: voice_defs bt_sorted_insert length_bt_insert list_all_bt_insert split: sum.split option.split)
  have subs: "length (vo_subtitles (voice_step x v)) \<le> vo_retention (voice_step x v)
      \<and> 0 < vo_retention (voice_step x v) \<and> vo_retention (voice_step x v) \<le> MAX_TRANSCRIPT_RETENTION
      \<and> length (vo_audit (voice_step x v)) \<le> MAX_VOICE_AUDIT"
    using inv unfolding voice_inv_def
    by (cases x) (auto simp: voice_defs keep_last_def split: sum.split option.split)
  show "voice_inv (voice_step x v)" using q macros styles subs by (simp add: voice_inv_def)
qed

lemma voice_new: "voice_inv VoiceCompanion_new"
  by (simp add: voice_inv_def queue_ok_def VoiceCompanion_new_def MAX_TRANSCRIPT_RETENTION_def)

text \<open>After the stop: nothing listens and every job is cancelled.\<close>

definition voice_stopped :: "VoiceCompanion \<Rightarrow> bool" where
  "voice_stopped v \<longleftrightarrow>
     vo_emergency_stop v \<and> vo_mic v \<noteq> Listening \<and> list_all sj_cancelled (vo_queue v)"

lemma cancelled_approve: "approve_first i q = Some r \<Longrightarrow> list_all sj_cancelled q \<Longrightarrow> list_all sj_cancelled r"
  by (induction q arbitrary: r) (auto split: if_splits)

interpretation stop: machine_invariant voice_step voice_stopped
proof
  fix v and x :: voice_op
  assume "voice_stopped v"
  then show "voice_stopped (voice_step x v)"
    unfolding voice_stopped_def
    by (cases x) (auto simp: voice_defs list_all_iff dest: cancelled_approve split: sum.split option.split)
qed

text \<open>What remote speech needs: the policy that some operation set.\<close>

definition permits :: "RemoteSpeechPolicy \<Rightarrow> bool" where
  "permits p \<longleftrightarrow> \<not> rp_local_only p \<and> rp_provider_configured p \<and> rp_privacy_policy_accepted p \<and> rp_redaction_enabled p
     \<and> list_ex (\<lambda>c. vc_feature c = ''voice'' \<and> vc_data_class c = ''voice-transcript'' \<and> \<not> vc_revoked c) (rp_consent_receipts p)"

lemma allow_remote_permits: "allow_remote profile ''voice-transcript'' p = Inr u \<Longrightarrow> permits p"
  by (auto simp: allow_remote_def permits_def list_ex_iff split: if_splits)

lemma remote_step:
  assumes "list_all (\<lambda>j. \<not> sj_remote_approved j) (vo_queue v) \<and> \<not> permits (vo_remote v)"
    and "case x of SetRemote p \<Rightarrow> \<not> permits p | _ \<Rightarrow> True"
  shows "list_all (\<lambda>j. \<not> sj_remote_approved j) (vo_queue (voice_step x v)) \<and> \<not> permits (vo_remote (voice_step x v))"
  using assms
  by (cases x) (auto simp: voice_defs list_all_iff dest: allow_remote_permits split: sum.splits option.splits)

lemma remote_run:
  "list_all (\<lambda>j. \<not> sj_remote_approved j) (vo_queue v) \<and> \<not> permits (vo_remote v) \<Longrightarrow>
    list_all (\<lambda>x. case x of SetRemote p \<Rightarrow> \<not> permits p | _ \<Rightarrow> True) xs \<Longrightarrow>
    list_all (\<lambda>j. \<not> sj_remote_approved j) (vo_queue (run voice_step xs v))"
proof (induction xs arbitrary: v)
  case (Cons x xs)
  then show ?case using remote_step [of v x] by simp
qed simp

lemma queue_grows:
  "x \<noteq> SetDisabled \<Longrightarrow> x \<noteq> Degrade \<Longrightarrow> length (vo_queue v) \<le> length (vo_queue (voice_step x v))"
  by (cases x) (auto simp: voice_defs split: sum.split option.split dest!: ids_kept(4) [THEN arg_cong [where f = length]])

lemma queue_grows_run:
  "list_all (\<lambda>x. x \<noteq> SetDisabled \<and> x \<noteq> Degrade) xs \<Longrightarrow> length (vo_queue v) \<le> length (vo_queue (run voice_step xs v))"
proof (induction xs arbitrary: v)
  case (Cons x xs)
  then have "length (vo_queue v) \<le> length (vo_queue (voice_step x v))" using queue_grows by simp
  also have "\<dots> \<le> length (vo_queue (run voice_step xs (voice_step x v)))" using Cons by simp
  finally show ?case by simp
qed simp

section \<open>Properties\<close>

text \<open>
  The emergency stop is final. After it, whatever is done, the microphone does not listen, every job in the queue
  is cancelled, listening and new speech are refused and no phrase is recognised.
\<close>

theorem voice_stop_final:
  "(let v' = run voice_step ops (emergency_stop v) in
    vo_mic v' \<noteq> Listening \<and> list_all sj_cancelled (vo_queue v')
    \<and> fst (begin_listen v') = Inl EmergencyStop \<and> fst (enqueue_speech k t p c a v') = Inl EmergencyStop
    \<and> recognize phrase v' = Inl EmergencyStop)"
proof -
  have "voice_stopped (emergency_stop v)" by (simp add: voice_stopped_def emergency_stop_def list_all_iff)
  from stop.run_inv [OF this, of ops] show ?thesis
    by (simp add: Let_def voice_stopped_def begin_listen_def enqueue_speech_def recognize_def)
qed

text \<open>
  C37: Remote speech needs consent. As long as no policy was set that is not local-only, has a provider, the
  accepted privacy policy, redaction and a voice receipt that is not revoked, no job is approved for a
  remote provider.
\<close>

theorem remote_needs_consent:
  "(if list_all (\<lambda>x. case x of SetRemote p \<Rightarrow> \<not> permits p | _ \<Rightarrow> True) ops
    then list_all (\<lambda>j. sj_remote_approved j = False) (vo_queue (run voice_step ops VoiceCompanion_new))
    else True)"
proof -
  have "list_all (\<lambda>j. \<not> sj_remote_approved j) (vo_queue VoiceCompanion_new) \<and> \<not> permits (vo_remote VoiceCompanion_new)"
    by (simp add: VoiceCompanion_new_def permits_def)
  from remote_run [OF this, of ops] show ?thesis by simp
qed

text \<open>
  The companion is bounded: after any operations at most 64 jobs with distinct identifiers, 128 styles, 512
  subtitle lines and 1024 audit entries; every macro and style that is kept is valid.
\<close>

theorem voice_companion_bounded:
  "(let v = run voice_step ops VoiceCompanion_new in
    length (vo_queue v) \<le> 64 \<and> distinct (map sj_id (vo_queue v)) \<and> length (vo_styles v) \<le> 128
    \<and> length (vo_subtitles v) \<le> 512 \<and> length (vo_audit v) \<le> 1024
    \<and> list_all (\<lambda>m. VoiceMacro_validate m = Inr ()) (map snd (vo_macros v))
    \<and> list_all (\<lambda>s. if vy_protected s then vy_authorized s else True) (map snd (vo_styles v)))"
proof -
  have "voice_inv (run voice_step ops VoiceCompanion_new)" by (rule voice.run_inv [OF voice_new])
  then show ?thesis
    unfolding Let_def voice_inv_def queue_ok_def MAX_SPEECH_QUEUE_def MAX_STYLES_def MAX_TRANSCRIPT_RETENTION_def
      MAX_VOICE_AUDIT_def
    by (auto simp: list_all_iff VoiceStyle_validate_def split: if_splits)
qed

text \<open>
  What a spoken phrase gives: with the companion in service, exactly the phrases of registered macros give a
  proposal, which has the command and risk tier of one such macro, a tier that is not manual, and is
  never approved.
\<close>

theorem recognized_phrases:
  "(let v = run voice_step ops VoiceCompanion_new in
    case recognize phrase v of
      Inl d \<Rightarrow> (if vo_emergency_stop v \<or> vo_state v = VoiceDisabled \<or> vo_state v = Denied then True
        else list_all (\<lambda>m. vm_phrase m \<noteq> phrase) (map snd (vo_macros v)))
    | Inr p \<Rightarrow> vp_approved p = False \<and> vp_risk_tier p \<in> {''low'', ''medium'', ''high'', ''critical''}
        \<and> (\<exists>m \<in> set (map snd (vo_macros v)). vm_phrase m = phrase \<and> vm_command m = vp_normalized_command p
            \<and> vm_risk_tier m = vp_risk_tier p \<and> vm_confirmation_required m = vp_confirmation_required p))"
proof -
  let ?v = "run voice_step ops VoiceCompanion_new"
  let ?ms = "map snd (vo_macros ?v)"
  have inv: "voice_inv ?v" by (rule voice.run_inv [OF voice_new])
  have valid: "VoiceMacro_validate m = Inr ()" if m: "m \<in> set ?ms" for m
  proof -
    obtain k where "(k, m) \<in> set (vo_macros ?v)" using m by auto
    then show ?thesis using inv by (auto simp: voice_inv_def list_all_iff)
  qed
  show ?thesis
  proof (cases "find (\<lambda>m. vm_phrase m = phrase) ?ms")
    case None
    then have "list_all (\<lambda>m. vm_phrase m \<noteq> phrase) ?ms" unfolding find_None_iff list_all_iff by blast
    then show ?thesis using None by (simp add: Let_def recognize_def)
  next
    case (Some m)
    then have m: "m \<in> set ?ms" "vm_phrase m = phrase" by (auto simp: find_Some_iff)
    have tier: "vm_risk_tier m \<in> {''low'', ''medium'', ''high'', ''critical''}"
      using valid [OF m(1)] by (auto simp: VoiceMacro_validate_def split: if_splits)
    show ?thesis
      using Some m tier valid [OF m(1)]
      by (cases "vo_emergency_stop ?v \<or> vo_state ?v = VoiceDisabled \<or> vo_state ?v = Denied")
        (auto simp: Let_def recognize_def VoiceMacro_propose_def)
  qed
qed

text \<open>
  The queue never drains: no operation takes a job from it except those that switch the companion off, so once 64
  jobs were accepted every further one is refused.
\<close>

theorem queue_never_drains:
  "(if list_all (\<lambda>x. x \<noteq> SetDisabled \<and> x \<noteq> Degrade) ops \<and> MAX_SPEECH_QUEUE \<le> length (vo_queue v)
    then isl (fst (enqueue_speech k t p c a (run voice_step ops v))) else True)"
  using queue_grows_run [of ops v] by (auto simp: enqueue_speech_def Let_def)

text \<open>
  Remote approval survives the stop: a job of the queue, which the stop has just cancelled, is approved for
  the remote provider when the policy permits it.
\<close>

theorem stopped_job_approved:
  "(if allow_remote profile ''voice-transcript'' (vo_remote v) = Inr () \<and> list_ex (\<lambda>j. sj_id j = i) (vo_queue v)
    then fst (submit_remote i profile (emergency_stop v)) = Inr () else True)"
proof -
  have "list_ex (\<lambda>j. sj_id j = i) q \<Longrightarrow> approve_first i (map (\<lambda>j. j\<lparr>sj_cancelled := True\<rparr>) q) \<noteq> None" for q
    by (induction q) auto
  from this [of "vo_queue v"] show ?thesis by (auto simp: submit_remote_def emergency_stop_def split: option.split)
qed

text \<open>The end of a listen leaves a microphone that was interrupted by a barge-in as it is.\<close>

theorem barge_in_keeps_microphone: "vo_mic (end_listen (barge_in v)) = BargeIn"
  by (simp add: end_listen_def barge_in_def)

end
