(* ===== verification/Soundscape.thy ===== *)
theory Soundscape
  imports Prelude
begin

text \<open>
  The soundscape engine, \<open>wirecore/crates/wire-soundscape/src/lib.rs\<close>: assets behind a licence gate, controls per
  profile, bindings of kinds to assets, the play queue with load shedding and coalescing, transitions,
  emergency stop, failure and audit.
\<close>

definition SOUNDSCAPE_SCHEMA_VERSION :: u32 where "SOUNDSCAPE_SCHEMA_VERSION = 1"

definition MAX_AUDIO_QUEUE :: nat where "MAX_AUDIO_QUEUE = 64"

definition MAX_BINDINGS :: nat where "MAX_BINDINGS = 256"

definition MAX_PROFILES :: nat where "MAX_PROFILES = 32"

definition MAX_ASSET_PACKS :: nat where "MAX_ASSET_PACKS = 256"

definition MAX_TRANSITION_MS :: u64 where "MAX_TRANSITION_MS = 5000"

definition MAX_SOUND_AUDIT :: nat where "MAX_SOUND_AUDIT = 1024"

datatype SoundscapeKind = Room | Area | Combat | Boss | Weather | Death | Victory | Ambience | UserAuthored

definition SoundscapeKind_all :: "SoundscapeKind list" where
  "SoundscapeKind_all = [Room, Area, Combat, Boss, Weather, Death, Victory, Ambience, UserAuthored]"

text \<open>The derived order is the order of declaration.\<close>

fun kind_pos :: "SoundscapeKind \<Rightarrow> nat" where
  "kind_pos Room = 0"
| "kind_pos Area = 1"
| "kind_pos Combat = 2"
| "kind_pos Boss = 3"
| "kind_pos Weather = 4"
| "kind_pos Death = 5"
| "kind_pos Victory = 6"
| "kind_pos Ambience = 7"
| "kind_pos UserAuthored = 8"

lemma kind_pos_inject: "kind_pos a = kind_pos b \<longleftrightarrow> a = b"
  by (cases a; cases b) simp_all

instantiation SoundscapeKind :: linorder
begin

definition less_eq_SoundscapeKind :: "SoundscapeKind \<Rightarrow> SoundscapeKind \<Rightarrow> bool" where
  "less_eq_SoundscapeKind a b \<longleftrightarrow> kind_pos a \<le> kind_pos b"

definition less_SoundscapeKind :: "SoundscapeKind \<Rightarrow> SoundscapeKind \<Rightarrow> bool" where
  "less_SoundscapeKind a b \<longleftrightarrow> kind_pos a < kind_pos b"

instance
  by standard (auto simp: less_eq_SoundscapeKind_def less_SoundscapeKind_def kind_pos_inject)

end

datatype SoundscapeDenial =
    EmergencyStop | UnavailableDependency | Timeout | Cancelled | MalformedInput | DuplicateRequest | DeniedPolicy
  | QueueFull | OversizedInput | ProtectedAsset | UnlicensedAsset | NotConfigured | Disabled | ProfileMuted | NotLocalSource

datatype SoundscapeMode = ModeDisabled | Muted | Manual | Auto

record ProfileControls =
  pc_volume :: u8
  pc_disabled :: bool

definition ProfileControls_default :: ProfileControls where
  "ProfileControls_default = \<lparr>pc_volume = 70, pc_disabled = False\<rparr>"

record AssetPackEntry =
  at_id :: string
  at_license :: string
  at_provenance :: string
  at_sha256 :: string
  at_signature :: "string option"
  at_user_local :: bool
  at_permissions :: "string list"

record Binding =
  bn_kind :: SoundscapeKind
  bn_asset_id :: string
  bn_volume :: u8
  bn_enabled :: bool
  bn_user_author :: "string option"

record Transition =
  tr_from :: "SoundscapeKind option"
  tr_to :: SoundscapeKind
  tr_total_ms :: u64
  tr_remaining_ms :: u64

record PlayJob =
  pj_kind :: SoundscapeKind
  pj_asset_id :: string
  pj_critical :: bool

record SoundscapeEngine =
  so_bindings :: "(SoundscapeKind \<times> Binding) list"
  so_assets :: "(string \<times> AssetPackEntry) list"
  so_controls :: "(string \<times> ProfileControls) list"
  so_current :: "SoundscapeKind option"
  so_queue :: "PlayJob list"
  so_transition :: "Transition option"
  so_mode :: SoundscapeMode
  so_emergency_stop :: bool
  so_failed :: bool
  so_dropped :: nat
  so_coalesced :: nat
  so_audit :: "string list"

definition SoundscapeEngine_new :: SoundscapeEngine where
  "SoundscapeEngine_new =
     \<lparr>so_bindings = [], so_assets = [], so_controls = bt_insert ''default'' ProfileControls_default [], so_current = None,
      so_queue = [], so_transition = None, so_mode = Auto, so_emergency_stop = False, so_failed = False,
      so_dropped = 0, so_coalesced = 0, so_audit = []\<rparr>"

definition push_audit :: "string \<Rightarrow> SoundscapeEngine \<Rightarrow> SoundscapeEngine" where
  "push_audit entry e =
     e\<lparr>so_audit := (if MAX_SOUND_AUDIT \<le> length (so_audit e) then tl (so_audit e) else so_audit e) @ [entry]\<rparr>"

definition is_protected :: "string \<Rightarrow> bool" where
  "is_protected provenance =
     (let p = to_lower provenance in
      str_contains p ''nintendo'' \<or> str_contains p ''zelda'' \<or> str_contains p ''mario'' \<or> str_contains p ''third-party'')"

definition is_licensed :: "string \<Rightarrow> bool" where
  "is_licensed license =
     (let l = to_lower license in l = ''cc0-1.0'' \<or> l = ''cc0'' \<or> l = ''public-domain'' \<or> l = ''mit'')"

definition register_asset :: "AssetPackEntry \<Rightarrow> SoundscapeEngine \<Rightarrow> (SoundscapeDenial + unit) \<times> SoundscapeEngine" where
  "register_asset entry e =
     (if MAX_ASSET_PACKS \<le> length (so_assets e) then (Inl QueueFull, e)
      else if at_id entry = [] \<or> length (at_sha256 entry) \<noteq> 64 then (Inl MalformedInput, e)
      else if is_protected (at_provenance entry) then (Inl ProtectedAsset, e)
      else if \<not> is_licensed (at_license entry) then (Inl UnlicensedAsset, e)
      else if \<not> at_user_local entry \<and> at_signature entry = None then (Inl NotLocalSource, e)
      else if map_of (so_assets e) (at_id entry) \<noteq> None then (Inl DuplicateRequest, e)
      else (Inr (), push_audit ''asset-registered'' (e\<lparr>so_assets := bt_insert (at_id entry) entry (so_assets e)\<rparr>)))"

definition set_profile_controls ::
    "string \<Rightarrow> u8 \<Rightarrow> bool \<Rightarrow> SoundscapeEngine \<Rightarrow> (SoundscapeDenial + unit) \<times> SoundscapeEngine" where
  "set_profile_controls profile volume disabled e =
     (if profile = [] then (Inl MalformedInput, e)
      else if map_of (so_controls e) profile = None \<and> MAX_PROFILES \<le> length (so_controls e) then (Inl QueueFull, e)
      else (Inr (), push_audit ''profile-controls-set''
              (e\<lparr>so_controls := bt_insert profile \<lparr>pc_volume = min volume 100, pc_disabled = disabled\<rparr> (so_controls e)\<rparr>)))"

definition profile_controls :: "string \<Rightarrow> SoundscapeEngine \<Rightarrow> ProfileControls" where
  "profile_controls profile e =
     (case map_of (so_controls e) profile of Some c \<Rightarrow> c | None \<Rightarrow> ProfileControls_default)"

definition register_binding ::
    "SoundscapeKind \<Rightarrow> string \<Rightarrow> string option \<Rightarrow> SoundscapeEngine \<Rightarrow> (SoundscapeDenial + unit) \<times> SoundscapeEngine" where
  "register_binding kind asset_id user_author e =
     (if MAX_BINDINGS \<le> length (so_bindings e) then (Inl QueueFull, e)
      else if map_of (so_assets e) asset_id = None then (Inl UnavailableDependency, e)
      else if map_of (so_bindings e) kind \<noteq> None then (Inl DuplicateRequest, e)
      else if kind = UserAuthored \<and> user_author = None then (Inl DeniedPolicy, e)
      else
        let b = \<lparr>bn_kind = kind, bn_asset_id = asset_id, bn_volume = 70, bn_enabled = True, bn_user_author = user_author\<rparr> in
        (Inr (), push_audit ''binding-registered'' (e\<lparr>so_bindings := bt_insert kind b (so_bindings e)\<rparr>)))"

definition set_binding_volume :: "SoundscapeKind \<Rightarrow> u8 \<Rightarrow> SoundscapeEngine \<Rightarrow> bool \<times> SoundscapeEngine" where
  "set_binding_volume kind volume e =
     (case map_of (so_bindings e) kind of
        Some b \<Rightarrow> (True, e\<lparr>so_bindings := AList.update kind (b\<lparr>bn_volume := min volume 100\<rparr>) (so_bindings e)\<rparr>)
      | None \<Rightarrow> (False, e))"

definition set_binding_enabled :: "SoundscapeKind \<Rightarrow> bool \<Rightarrow> SoundscapeEngine \<Rightarrow> bool \<times> SoundscapeEngine" where
  "set_binding_enabled kind enabled e =
     (case map_of (so_bindings e) kind of
        Some b \<Rightarrow> (True, e\<lparr>so_bindings := AList.update kind (b\<lparr>bn_enabled := enabled\<rparr>) (so_bindings e)\<rparr>)
      | None \<Rightarrow> (False, e))"

definition remove_binding :: "SoundscapeKind \<Rightarrow> SoundscapeEngine \<Rightarrow> bool \<times> SoundscapeEngine" where
  "remove_binding kind e =
     (if map_of (so_bindings e) kind \<noteq> None
      then (True, push_audit ''binding-removed'' (e\<lparr>so_bindings := AList.delete kind (so_bindings e)\<rparr>))
      else (False, e))"

definition set_mode :: "SoundscapeMode \<Rightarrow> SoundscapeEngine \<Rightarrow> SoundscapeEngine" where
  "set_mode mode e = push_audit ''mode-set'' (e\<lparr>so_mode := mode\<rparr>)"

definition degrade_to_text :: "SoundscapeEngine \<Rightarrow> SoundscapeMode \<times> SoundscapeEngine" where
  "degrade_to_text e =
     (ModeDisabled, push_audit ''degraded-to-text''
        (e\<lparr>so_current := None, so_queue := [], so_transition := None, so_mode := ModeDisabled\<rparr>))"

section \<open>Playback\<close>

definition request_play ::
    "string \<Rightarrow> SoundscapeKind \<Rightarrow> string \<Rightarrow> bool \<Rightarrow> SoundscapeEngine \<Rightarrow> (SoundscapeDenial + unit) \<times> SoundscapeEngine" where
  "request_play profile kind asset_id critical e =
     (if so_emergency_stop e then (Inl EmergencyStop, e)
      else if so_failed e then (Inl UnavailableDependency, e)
      else if so_mode e = ModeDisabled then (Inl Disabled, e)
      else
        let ctl = profile_controls profile e in
        if pc_disabled ctl then (Inl Disabled, e)
        else if pc_volume ctl = 0 \<or> so_mode e = Muted then (Inl ProfileMuted, e)
        else (case map_of (so_bindings e) kind of
                None \<Rightarrow> (Inl NotConfigured, e)
              | Some b \<Rightarrow>
                  if \<not> bn_enabled b then (Inl Disabled, e)
                  else if bn_volume b = 0 then (Inl ProfileMuted, e)
                  else if map_of (so_assets e) asset_id = None then (Inl UnavailableDependency, e)
                  else if so_current e = Some kind \<and> so_transition e = None then (Inl DuplicateRequest, e)
                  else if MAX_AUDIO_QUEUE \<le> length (so_queue e) \<and> \<not> critical
                  then (Inl QueueFull, push_audit ''load-shed-drop'' (e\<lparr>so_dropped := so_dropped e + 1\<rparr>))
                  else if MAX_AUDIO_QUEUE + 16 \<le> length (so_queue e) then (Inl QueueFull, e)
                  else (Inr (), push_audit ''play-queued''
                          (e\<lparr>so_queue := so_queue e @ [\<lparr>pj_kind = kind, pj_asset_id = asset_id, pj_critical = critical\<rparr>]\<rparr>))))"

text \<open>The loop that coalesces: \<open>seen\<close> has the position in \<open>keep\<close> of the job of each kind.\<close>

fun coalesce_loop ::
    "PlayJob list \<Rightarrow> (SoundscapeKind \<times> nat) list \<Rightarrow> PlayJob list \<Rightarrow> nat \<Rightarrow> PlayJob list \<times> nat" where
  "coalesce_loop [] seen keep n = (keep, n)"
| "coalesce_loop (job # jobs) seen keep n =
     (case map_of seen (pj_kind job) of
        Some idx \<Rightarrow> coalesce_loop jobs seen (keep[idx := job]) (n + 1)
      | None \<Rightarrow> coalesce_loop jobs (bt_insert (pj_kind job) (length keep) seen) (keep @ [job]) n)"

definition advance_transition :: "u64 \<Rightarrow> SoundscapeEngine \<Rightarrow> SoundscapeEngine" where
  "advance_transition ms e =
     (case so_transition e of
        None \<Rightarrow> e
      | Some t \<Rightarrow>
          if tr_remaining_ms t \<le> ms
          then push_audit ''transition-complete'' (e\<lparr>so_current := Some (tr_to t), so_transition := None\<rparr>)
          else e\<lparr>so_transition := Some (t\<lparr>tr_remaining_ms := tr_remaining_ms t - ms\<rparr>)\<rparr>)"

definition coalesce_queue :: "SoundscapeEngine \<Rightarrow> SoundscapeEngine" where
  "coalesce_queue e =
     (let (keep, n) = coalesce_loop (so_queue e) [] [] 0; e1 = e\<lparr>so_queue := keep\<rparr> in
      if 0 < n then push_audit ''coalesced'' (e1\<lparr>so_coalesced := so_coalesced e + n\<rparr>) else e1)"

definition promote :: "SoundscapeEngine \<Rightarrow> SoundscapeEngine" where
  "promote e =
     (if so_transition e = None \<and> so_current e = None then
        (case so_queue e of
           [] \<Rightarrow> e
         | job # jobs \<Rightarrow> push_audit ''play-started'' (e\<lparr>so_current := Some (pj_kind job), so_queue := jobs\<rparr>))
      else e)"

definition tick :: "u64 \<Rightarrow> SoundscapeEngine \<Rightarrow> SoundscapeEngine" where
  "tick ms e = promote (coalesce_queue (advance_transition ms e))"

definition start_transition ::
    "SoundscapeKind \<Rightarrow> u64 \<Rightarrow> SoundscapeEngine \<Rightarrow> (SoundscapeDenial + Transition) \<times> SoundscapeEngine" where
  "start_transition to duration_ms e =
     (if so_emergency_stop e then (Inl EmergencyStop, e)
      else if so_failed e then (Inl UnavailableDependency, e)
      else if so_mode e = ModeDisabled then (Inl Disabled, e)
      else if duration_ms = 0 \<or> MAX_TRANSITION_MS < duration_ms then (Inl MalformedInput, e)
      else if map_of (so_bindings e) to = None then (Inl NotConfigured, e)
      else
        let t = \<lparr>tr_from = so_current e, tr_to = to, tr_total_ms = duration_ms, tr_remaining_ms = duration_ms\<rparr> in
        (Inr t, push_audit ''transition-started'' (e\<lparr>so_transition := Some t\<rparr>)))"

definition cancel_transition :: "SoundscapeEngine \<Rightarrow> bool \<times> SoundscapeEngine" where
  "cancel_transition e =
     (if so_transition e \<noteq> None then (True, push_audit ''transition-cancelled'' (e\<lparr>so_transition := None\<rparr>)) else (False, e))"

definition emergency_stop :: "SoundscapeEngine \<Rightarrow> SoundscapeEngine" where
  "emergency_stop e =
     push_audit ''emergency-stop'' (e\<lparr>so_current := None, so_queue := [], so_transition := None, so_emergency_stop := True\<rparr>)"

definition reset :: "SoundscapeEngine \<Rightarrow> SoundscapeEngine" where
  "reset e = push_audit ''reset'' (e\<lparr>so_emergency_stop := False, so_failed := False\<rparr>)"

definition fail_audio :: "SoundscapeEngine \<Rightarrow> SoundscapeEngine" where
  "fail_audio e =
     push_audit ''audio-failed'' (e\<lparr>so_current := None, so_queue := [], so_transition := None, so_failed := True\<rparr>)"

record SoundscapeMetrics =
  sm_queue_len :: nat
  sm_current :: "SoundscapeKind option"
  sm_transition_active :: bool
  sm_dropped :: nat
  sm_coalesced :: nat
  sm_failed :: bool
  sm_stopped :: bool

definition SoundscapeEngine_metrics :: "SoundscapeEngine \<Rightarrow> SoundscapeMetrics" where
  "SoundscapeEngine_metrics e =
     \<lparr>sm_queue_len = length (so_queue e), sm_current = so_current e, sm_transition_active = (so_transition e \<noteq> None),
      sm_dropped = so_dropped e, sm_coalesced = so_coalesced e, sm_failed = so_failed e, sm_stopped = so_emergency_stop e\<rparr>"

section \<open>Coalescing\<close>

text \<open>The kinds in the order of their first jobs, and the last job of each.\<close>

definition kind_order :: "PlayJob list \<Rightarrow> SoundscapeKind list" where
  "kind_order q = rev (remdups (rev (map pj_kind q)))"

definition latest_jobs :: "PlayJob list \<Rightarrow> PlayJob list" where
  "latest_jobs q = map (\<lambda>k. last (filter (\<lambda>j. pj_kind j = k) q)) (kind_order q)"

lemma kind_order_snoc:
  "kind_order (q @ [j]) = (if pj_kind j \<in> set (kind_order q) then kind_order q else kind_order q @ [pj_kind j])"
  by (simp add: kind_order_def)

lemma distinct_kind_order: "distinct (kind_order q)"
  by (simp add: kind_order_def)

lemma latest_jobs_new:
  "pj_kind j \<notin> set (kind_order q) \<Longrightarrow> latest_jobs (q @ [j]) = latest_jobs q @ [j]"
  by (auto simp: latest_jobs_def kind_order_snoc)

lemma latest_jobs_old:
  assumes "i < length (kind_order q)" and "kind_order q ! i = pj_kind j"
  shows "latest_jobs (q @ [j]) = (latest_jobs q)[i := j]"
proof (rule nth_equalityI)
  have mem: "pj_kind j \<in> set (kind_order q)" using assms nth_mem by metis
  then show "length (latest_jobs (q @ [j])) = length ((latest_jobs q)[i := j])"
    by (simp add: latest_jobs_def kind_order_snoc)
  fix l
  assume "l < length (latest_jobs (q @ [j]))"
  then have l: "l < length (kind_order q)" using mem by (simp add: latest_jobs_def kind_order_snoc)
  show "latest_jobs (q @ [j]) ! l = (latest_jobs q)[i := j] ! l"
  proof (cases "l = i")
    case True
    then show ?thesis using l assms mem by (simp add: latest_jobs_def kind_order_snoc)
  next
    case False
    then have "kind_order q ! l \<noteq> pj_kind j" using l assms distinct_kind_order nth_eq_iff_index_eq by metis
    then show ?thesis using l False mem by (auto simp: latest_jobs_def kind_order_snoc)
  qed
qed

definition seen_ok :: "(SoundscapeKind \<times> nat) list \<Rightarrow> PlayJob list \<Rightarrow> bool" where
  "seen_ok seen q \<longleftrightarrow> (\<forall>k i. map_of seen k = Some i \<longleftrightarrow> i < length (kind_order q) \<and> kind_order q ! i = k)"

lemma seen_ok_None: "seen_ok seen q \<Longrightarrow> map_of seen k = None \<longleftrightarrow> k \<notin> set (kind_order q)"
  unfolding seen_ok_def by (metis in_set_conv_nth not_None_eq)

lemma seen_ok_insert:
  assumes ok: "seen_ok seen q" and new: "map_of seen (pj_kind j) = None"
  shows "seen_ok (bt_insert (pj_kind j) (length (latest_jobs q)) seen) (q @ [j])"
proof -
  let ?o = "kind_order q"
  have nk: "pj_kind j \<notin> set ?o" using seen_ok_None [OF ok] new by simp
  then have o: "kind_order (q @ [j]) = ?o @ [pj_kind j]" by (simp add: kind_order_snoc)
  have len: "length (latest_jobs q) = length ?o" by (simp add: latest_jobs_def)
  have at: "map_of seen k = Some i \<longleftrightarrow> i < length ?o \<and> ?o ! i = k" for k i using ok by (simp add: seen_ok_def)
  show ?thesis
    unfolding seen_ok_def o len
  proof (intro allI)
    fix k i
    show "map_of (bt_insert (pj_kind j) (length ?o) seen) k = Some i
        \<longleftrightarrow> i < length (?o @ [pj_kind j]) \<and> (?o @ [pj_kind j]) ! i = k"
    proof (cases "k = pj_kind j")
      case True
      have "?o ! i \<noteq> pj_kind j" if "i < length ?o" using nk that by (metis nth_mem)
      then show ?thesis using True by (auto simp: nth_append less_Suc_eq)
    next
      case False
      then show ?thesis using at [of k i] by (auto simp: nth_append less_Suc_eq)
    qed
  qed
qed

lemma coalesce_loop_latest:
  "seen_ok seen p \<Longrightarrow> fst (coalesce_loop q seen (latest_jobs p) n) = latest_jobs (p @ q)
    \<and> snd (coalesce_loop q seen (latest_jobs p) n) + length (kind_order (p @ q)) = n + length (kind_order p) + length q"
proof (induction q arbitrary: seen p n)
  case (Cons j q)
  show ?case
  proof (cases "map_of seen (pj_kind j)")
    case None
    then have nk: "pj_kind j \<notin> set (kind_order p)" using seen_ok_None [OF Cons.prems] by simp
    from Cons.IH [OF seen_ok_insert [OF Cons.prems None], of n] show ?thesis
      using None nk by (simp add: latest_jobs_new kind_order_snoc)
  next
    case (Some i)
    then have i: "i < length (kind_order p)" "kind_order p ! i = pj_kind j" using Cons.prems by (auto simp: seen_ok_def)
    then have "pj_kind j \<in> set (kind_order p)" using nth_mem by metis
    then have o: "kind_order (p @ [j]) = kind_order p" by (simp add: kind_order_snoc)
    then have "seen_ok seen (p @ [j])" using Cons.prems by (simp add: seen_ok_def)
    from Cons.IH [OF this, of "n + 1"] show ?thesis using Some o by (simp add: latest_jobs_old [OF i])
  qed
qed simp

lemma coalesce_latest:
  "coalesce_loop q [] [] 0 = (latest_jobs q, length q - length (kind_order q))"
proof -
  have "seen_ok [] []" by (simp add: seen_ok_def kind_order_def)
  moreover have "latest_jobs [] = []" "kind_order [] = []" by (simp_all add: latest_jobs_def kind_order_def)
  moreover have "length (kind_order q) \<le> length q"
    using length_remdups_leq [of "rev (map pj_kind q)"] by (simp add: kind_order_def)
  ultimately show ?thesis
    using coalesce_loop_latest [of "[]" "[]" q 0] by (simp add: prod_eq_iff) linarith
qed

section \<open>The engine as a machine\<close>

datatype sound_op =
    RegisterAsset AssetPackEntry
  | SetControls string u8 bool
  | RegisterBinding SoundscapeKind string "string option"
  | SetVolume SoundscapeKind u8
  | SetEnabled SoundscapeKind bool
  | RemoveBinding SoundscapeKind
  | SetMode SoundscapeMode
  | DegradeToText
  | RequestPlay string SoundscapeKind string bool
  | Tick u64
  | StartTransition SoundscapeKind u64
  | CancelTransition
  | Stop | Reset | FailAudio

fun sound_step :: "sound_op \<Rightarrow> SoundscapeEngine \<Rightarrow> SoundscapeEngine" where
  "sound_step (RegisterAsset a) e = snd (register_asset a e)"
| "sound_step (SetControls p v d) e = snd (set_profile_controls p v d e)"
| "sound_step (RegisterBinding k a u) e = snd (register_binding k a u e)"
| "sound_step (SetVolume k v) e = snd (set_binding_volume k v e)"
| "sound_step (SetEnabled k b) e = snd (set_binding_enabled k b e)"
| "sound_step (RemoveBinding k) e = snd (remove_binding k e)"
| "sound_step (SetMode m) e = set_mode m e"
| "sound_step DegradeToText e = snd (degrade_to_text e)"
| "sound_step (RequestPlay p k a c) e = snd (request_play p k a c e)"
| "sound_step (Tick ms) e = tick ms e"
| "sound_step (StartTransition k d) e = snd (start_transition k d e)"
| "sound_step CancelTransition e = snd (cancel_transition e)"
| "sound_step Stop e = emergency_stop e"
| "sound_step Reset e = reset e"
| "sound_step FailAudio e = fail_audio e"

lemmas sound_defs = register_asset_def set_profile_controls_def register_binding_def set_binding_volume_def
  set_binding_enabled_def remove_binding_def set_mode_def degrade_to_text_def request_play_def start_transition_def
  cancel_transition_def emergency_stop_def reset_def fail_audio_def Let_def

lemma sound_audit_same [simp]:
  "so_bindings (push_audit a e) = so_bindings e" "so_assets (push_audit a e) = so_assets e"
  "so_controls (push_audit a e) = so_controls e" "so_current (push_audit a e) = so_current e"
  "so_queue (push_audit a e) = so_queue e" "so_transition (push_audit a e) = so_transition e"
  "so_mode (push_audit a e) = so_mode e" "so_emergency_stop (push_audit a e) = so_emergency_stop e"
  "so_failed (push_audit a e) = so_failed e"
  by (simp_all add: push_audit_def)

lemma sound_audit_length [simp]:
  "length (so_audit e) \<le> MAX_SOUND_AUDIT \<Longrightarrow> length (so_audit (push_audit a e)) \<le> MAX_SOUND_AUDIT"
  by (auto simp: push_audit_def MAX_SOUND_AUDIT_def)

text \<open>The three parts of a tick, by what they change.\<close>

lemma tick_same:
  "so_bindings (tick ms e) = so_bindings e" "so_assets (tick ms e) = so_assets e" "so_controls (tick ms e) = so_controls e"
  "so_mode (tick ms e) = so_mode e" "so_emergency_stop (tick ms e) = so_emergency_stop e"
  "so_failed (tick ms e) = so_failed e"
  by (simp_all add: tick_def promote_def coalesce_queue_def advance_transition_def Let_def split_beta split: option.split list.split)

lemma tick_queue:
  "so_queue (tick ms e) = (if so_transition (tick ms e) = None \<and> so_current e = None \<and> so_transition e = None
     then tl (latest_jobs (so_queue e)) else latest_jobs (so_queue e))"
  by (cases "latest_jobs (so_queue e)")
    (auto simp: tick_def promote_def coalesce_queue_def advance_transition_def Let_def coalesce_latest split: option.split)

lemma tick_transition:
  "so_transition (tick ms e) = (case so_transition e of
     None \<Rightarrow> None
   | Some t \<Rightarrow> if tr_remaining_ms t \<le> ms then None else Some (t\<lparr>tr_remaining_ms := tr_remaining_ms t - ms\<rparr>))"
  by (auto simp: tick_def promote_def coalesce_queue_def advance_transition_def Let_def split_beta split: option.split list.split)

lemma tick_current:
  "so_current (tick ms e) = (case so_transition e of
     None \<Rightarrow> (case so_current e of
       Some k \<Rightarrow> Some k
     | None \<Rightarrow> (case latest_jobs (so_queue e) of [] \<Rightarrow> None | j # js \<Rightarrow> Some (pj_kind j)))
   | Some t \<Rightarrow> if tr_remaining_ms t \<le> ms then Some (tr_to t) else so_current e)"
  by (auto simp: tick_def promote_def coalesce_queue_def advance_transition_def Let_def coalesce_latest
      split: option.split list.split)

lemma tick_audit: "length (so_audit e) \<le> MAX_SOUND_AUDIT \<Longrightarrow> length (so_audit (tick ms e)) \<le> MAX_SOUND_AUDIT"
  by (auto simp: tick_def promote_def coalesce_queue_def advance_transition_def Let_def split_beta split: option.split list.split)

lemma latest_jobs_facts:
  "length (latest_jobs q) \<le> length q" "set (latest_jobs q) \<subseteq> set q"
proof -
  show "length (latest_jobs q) \<le> length q"
    using length_remdups_leq [of "rev (map pj_kind q)"] by (simp add: latest_jobs_def kind_order_def)
  show "set (latest_jobs q) \<subseteq> set q"
  proof
    fix j
    assume "j \<in> set (latest_jobs q)"
    then obtain k where k: "k \<in> pj_kind ` set q" "j = last (filter (\<lambda>j. pj_kind j = k) q)"
      by (auto simp: latest_jobs_def kind_order_def)
    then have "filter (\<lambda>j. pj_kind j = k) q \<noteq> []" by (auto simp: filter_empty_conv)
    then show "j \<in> set q" using last_in_set k(2) by fastforce
  qed
qed

definition asset_ok :: "AssetPackEntry \<Rightarrow> bool" where
  "asset_ok a \<longleftrightarrow> at_id a \<noteq> [] \<and> length (at_sha256 a) = 64 \<and> \<not> is_protected (at_provenance a) \<and> is_licensed (at_license a)
     \<and> (at_user_local a \<or> at_signature a \<noteq> None)"

definition binding_ok :: "(string \<times> AssetPackEntry) list \<Rightarrow> SoundscapeKind \<times> Binding \<Rightarrow> bool" where
  "binding_ok assets kb \<longleftrightarrow> (case kb of (k, b) \<Rightarrow>
     bn_kind b = k \<and> map_of assets (bn_asset_id b) \<noteq> None \<and> bn_volume b \<le> 100
     \<and> (k = UserAuthored \<longrightarrow> bn_user_author b \<noteq> None))"

definition transition_ok :: "Transition option \<Rightarrow> bool" where
  "transition_ok t \<longleftrightarrow> (case t of None \<Rightarrow> True
     | Some t \<Rightarrow> 0 < tr_remaining_ms t \<and> tr_remaining_ms t \<le> tr_total_ms t \<and> tr_total_ms t \<le> MAX_TRANSITION_MS)"

definition sound_inv :: "SoundscapeEngine \<Rightarrow> bool" where
  "sound_inv e \<longleftrightarrow>
     bt_sorted (so_bindings e) \<and> list_all (binding_ok (so_assets e)) (so_bindings e)
     \<and> bt_sorted (so_assets e) \<and> length (so_assets e) \<le> MAX_ASSET_PACKS \<and> list_all (\<lambda>(k, a). k = at_id a \<and> asset_ok a) (so_assets e)
     \<and> bt_sorted (so_controls e) \<and> length (so_controls e) \<le> MAX_PROFILES \<and> list_all (\<lambda>(k, c). pc_volume c \<le> 100) (so_controls e)
     \<and> length (so_queue e) \<le> MAX_AUDIO_QUEUE + 16
     \<and> list_all (\<lambda>j. map_of (so_assets e) (pj_asset_id j) \<noteq> None) (so_queue e)
     \<and> transition_ok (so_transition e) \<and> length (so_audit e) \<le> MAX_SOUND_AUDIT"

lemma binding_ok_grow: "list_all (binding_ok m) bs \<Longrightarrow> list_all (binding_ok (bt_insert k a m)) bs"
  by (auto simp: list_all_iff binding_ok_def)

lemma bt_sorted_delete: "bt_sorted m \<Longrightarrow> bt_sorted (AList.delete k m)"
  unfolding sorted_wrt_map AList.delete_eq by (rule sorted_wrt_filter)

lemma list_all_delete: "list_all P m \<Longrightarrow> list_all P (AList.delete k m)"
  by (auto simp: list_all_iff set_delete_alist)

lemma binding_of: "sound_inv e \<Longrightarrow> map_of (so_bindings e) k = Some b \<Longrightarrow> binding_ok (so_assets e) (k, b)"
  by (auto simp: sound_inv_def list_all_iff dest!: map_of_SomeD)

lemma asset_op_inv: "sound_inv e \<Longrightarrow> sound_inv (snd (register_asset a e))"
  by (auto simp: sound_inv_def sound_defs bt_sorted_insert length_bt_insert list_all_bt_insert binding_ok_grow asset_ok_def
      list_all_iff [of _ "so_queue e"])

lemma controls_op_inv: "sound_inv e \<Longrightarrow> sound_inv (snd (set_profile_controls p v d e))"
  by (auto simp: sound_inv_def sound_defs bt_sorted_insert length_bt_insert list_all_bt_insert)

lemma binding_op_inv:
  "sound_inv e \<Longrightarrow> sound_inv (snd (register_binding k a u e))"
  "sound_inv e \<Longrightarrow> sound_inv (snd (set_binding_volume k v e))"
  "sound_inv e \<Longrightarrow> sound_inv (snd (set_binding_enabled k b e))"
  "sound_inv e \<Longrightarrow> sound_inv (snd (remove_binding k e))"
proof -
  assume inv: "sound_inv e"
  show "sound_inv (snd (register_binding k a u e))"
    using inv by (auto simp: sound_inv_def sound_defs bt_sorted_insert list_all_bt_insert binding_ok_def)
  show "sound_inv (snd (set_binding_volume k v e))"
    using inv binding_of [OF inv, of k]
    by (auto simp: sound_inv_def sound_defs bt_sorted_update list_all_update binding_ok_def split: option.split)
  show "sound_inv (snd (set_binding_enabled k b e))"
    using inv binding_of [OF inv, of k]
    by (auto simp: sound_inv_def sound_defs bt_sorted_update list_all_update binding_ok_def split: option.split)
  show "sound_inv (snd (remove_binding k e))"
    using inv by (auto simp: sound_inv_def sound_defs bt_sorted_delete list_all_delete)
qed

lemma play_op_inv: "sound_inv e \<Longrightarrow> sound_inv (snd (request_play p k a c e))"
  by (auto simp: sound_inv_def request_play_def Let_def split: option.split)

lemma transition_step_ok:
  "transition_ok t \<Longrightarrow> transition_ok (case t of None \<Rightarrow> None
     | Some t \<Rightarrow> if tr_remaining_ms t \<le> ms then None else Some (t\<lparr>tr_remaining_ms := tr_remaining_ms t - ms\<rparr>))"
proof (cases t)
  case (Some tr)
  assume "transition_ok t"
  then have r: "tr_remaining_ms tr \<le> tr_total_ms tr" "tr_total_ms tr \<le> MAX_TRANSITION_MS"
    using Some by (simp_all add: transition_ok_def)
  have "0 < tr_remaining_ms tr - ms \<and> tr_remaining_ms tr - ms \<le> tr_remaining_ms tr" if "\<not> tr_remaining_ms tr \<le> ms"
    using that by (simp add: word_less_nat_alt word_le_nat_alt unat_sub)
  then show ?thesis using Some r by (auto simp: transition_ok_def intro: order_trans)
qed (simp add: transition_ok_def)

lemma tick_inv: "sound_inv e \<Longrightarrow> sound_inv (tick ms e)"
proof -
  assume inv: "sound_inv e"
  have len: "length (so_queue (tick ms e)) \<le> length (so_queue e)" "set (so_queue (tick ms e)) \<subseteq> set (so_queue e)"
    using latest_jobs_facts [of "so_queue e"] unfolding tick_queue by (cases "latest_jobs (so_queue e)"; auto)+
  then have "length (so_queue (tick ms e)) \<le> MAX_AUDIO_QUEUE + 16"
      "list_all (\<lambda>j. map_of (so_assets e) (pj_asset_id j) \<noteq> None) (so_queue (tick ms e))"
    using inv by (auto simp: sound_inv_def list_all_iff)
  then show ?thesis
    using inv transition_step_ok [of "so_transition e" ms] tick_audit [of e ms]
    unfolding sound_inv_def tick_same tick_transition by simp
qed

lemma other_op_inv:
  "sound_inv e \<Longrightarrow> sound_inv (set_mode m e)" "sound_inv e \<Longrightarrow> sound_inv (snd (degrade_to_text e))"
  "sound_inv e \<Longrightarrow> sound_inv (snd (start_transition k d e))" "sound_inv e \<Longrightarrow> sound_inv (snd (cancel_transition e))"
  "sound_inv e \<Longrightarrow> sound_inv (emergency_stop e)" "sound_inv e \<Longrightarrow> sound_inv (reset e)" "sound_inv e \<Longrightarrow> sound_inv (fail_audio e)"
  by (auto simp: sound_inv_def sound_defs transition_ok_def word_gt_0)

interpretation sound: machine_invariant sound_step sound_inv
proof
  fix e and x :: sound_op
  assume "sound_inv e"
  then show "sound_inv (sound_step x e)"
    by (cases x) (simp_all add: asset_op_inv controls_op_inv binding_op_inv play_op_inv tick_inv other_op_inv)
qed

lemma sound_new: "sound_inv SoundscapeEngine_new"
  by (simp add: sound_inv_def SoundscapeEngine_new_def ProfileControls_default_def transition_ok_def MAX_PROFILES_def)

text \<open>After the stop, and before a reset, nothing is played, queued or in transition.\<close>

definition sound_silent :: "SoundscapeEngine \<Rightarrow> bool" where
  "sound_silent e \<longleftrightarrow> so_emergency_stop e \<and> so_current e = None \<and> so_queue e = [] \<and> so_transition e = None"

lemma silent_tick: "sound_silent e \<Longrightarrow> sound_silent (tick ms e)"
  by (simp add: sound_silent_def tick_same tick_current tick_queue tick_transition latest_jobs_def kind_order_def)

lemma silent_step: "sound_silent e \<Longrightarrow> x \<noteq> Reset \<Longrightarrow> sound_silent (sound_step x e)"
  by (cases x) (auto simp: sound_defs silent_tick, auto simp: sound_silent_def sound_defs split: option.split)

lemma silent_run: "sound_silent e \<Longrightarrow> Reset \<notin> set xs \<Longrightarrow> sound_silent (run sound_step xs e)"
  by (induction xs arbitrary: e) (auto simp: silent_step)

definition interrupts :: "sound_op \<Rightarrow> bool" where
  "interrupts x \<longleftrightarrow> x = DegradeToText \<or> x = Stop \<or> x = FailAudio \<or> (\<exists>k d. x = StartTransition k d)"

lemma playing_step:
  "so_current e = Some k \<Longrightarrow> so_transition e = None \<Longrightarrow> \<not> interrupts x \<Longrightarrow>
    so_current (sound_step x e) = Some k \<and> so_transition (sound_step x e) = None"
  by (cases x) (auto simp: interrupts_def sound_defs tick_current tick_transition split: option.split)

lemma playing_run:
  "so_current e = Some k \<Longrightarrow> so_transition e = None \<Longrightarrow> list_all (\<lambda>x. \<not> interrupts x) xs \<Longrightarrow>
    so_current (run sound_step xs e) = Some k \<and> so_transition (run sound_step xs e) = None"
  by (induction xs arbitrary: e) (auto simp: playing_step)

lemma ticks_after:
  "so_transition e = None \<Longrightarrow> so_current e = Some k \<Longrightarrow>
    so_transition (run tick mss e) = None \<and> so_current (run tick mss e) = Some k"
  by (induction mss arbitrary: e) (auto simp: tick_transition tick_current)

text \<open>Ticks while a transition is in flight.\<close>

lemma ticks_in_transition:
  "(case so_transition e of
      None \<Rightarrow> True
    | Some t \<Rightarrow>
        (let passed = sum_list (map unat mss); e' = run tick mss e in
         if passed < unat (tr_remaining_ms t)
         then so_transition e' = Some (t\<lparr>tr_remaining_ms := tr_remaining_ms t - of_nat passed\<rparr>) \<and> so_current e' = so_current e
         else (mss = [] \<or> so_transition e' = None \<and> so_current e' = Some (tr_to t))))"
proof (induction mss arbitrary: e)
  case Nil
  show ?case by (auto split: option.split)
next
  case (Cons ms mss)
  show ?case
  proof (cases "so_transition e")
    case (Some t)
    let ?r = "tr_remaining_ms t" and ?p = "sum_list (map unat mss)"
    show ?thesis
    proof (cases "?r \<le> ms")
      case True
      then have "unat ?r \<le> unat ms" by (simp add: word_le_nat_alt)
      moreover have "so_transition (tick ms e) = None" "so_current (tick ms e) = Some (tr_to t)"
        using Some True by (simp_all add: tick_transition tick_current)
      ultimately show ?thesis using Some ticks_after [of "tick ms e" "tr_to t" mss] by (simp add: Let_def)
    next
      case False
      then have lt: "unat ms < unat ?r" and le: "ms \<le> ?r" by (simp_all add: word_le_nat_alt)
      have t': "so_transition (tick ms e) = Some (t\<lparr>tr_remaining_ms := ?r - ms\<rparr>)" "so_current (tick ms e) = so_current e"
        using Some False by (simp_all add: tick_transition tick_current)
      have sub: "unat (?r - ms) = unat ?r - unat ms" using le by (simp add: unat_sub)
      have "(?p < unat (?r - ms)) = (unat ms + ?p < unat ?r)" unfolding sub using lt by linarith
      moreover have "?r - ms - of_nat ?p = ?r - of_nat (unat ms + ?p)" by simp
      moreover have "mss \<noteq> []" if "unat (?r - ms) \<le> ?p" using that sub lt by (cases mss) auto
      ultimately show ?thesis
        using Cons.IH [of "tick ms e"] Some t' by (auto simp: Let_def not_less)
    qed
  qed simp
qed

section \<open>Properties\<close>

text \<open>
  What can sound is vetted. After any operations every binding and every job in the queue names a registered
  asset; every registered asset has an accepted licence, no protected provenance, a hash and a signature or a
  local source; volumes are at most 100 and the queue has at most 80 jobs.
\<close>

theorem sounds_are_vetted:
  "(let e = run sound_step ops SoundscapeEngine_new in
    list_all (\<lambda>b. map_of (so_assets e) (bn_asset_id b) \<noteq> None \<and> bn_volume b \<le> 100) (map snd (so_bindings e))
    \<and> list_all (\<lambda>j. map_of (so_assets e) (pj_asset_id j) \<noteq> None) (so_queue e)
    \<and> list_all (\<lambda>a. is_licensed (at_license a) \<and> is_protected (at_provenance a) = False \<and> length (at_sha256 a) = 64
          \<and> (if at_user_local a then True else at_signature a \<noteq> None)) (map snd (so_assets e))
    \<and> pc_volume (profile_controls p e) \<le> 100 \<and> length (so_queue e) \<le> 80)"
proof -
  let ?e = "run sound_step ops SoundscapeEngine_new"
  have inv: "sound_inv ?e" by (rule sound.run_inv [OF sound_new])
  have "pc_volume (profile_controls p ?e) \<le> 100"
  proof (cases "map_of (so_controls ?e) p")
    case None
    then show ?thesis by (simp add: profile_controls_def ProfileControls_default_def)
  next
    case (Some c)
    then show ?thesis using inv map_of_SomeD [OF Some] by (auto simp: profile_controls_def sound_inv_def list_all_iff)
  qed
  then show ?thesis
    using inv by (auto simp: Let_def sound_inv_def list_all_iff binding_ok_def asset_ok_def MAX_AUDIO_QUEUE_def)
qed

text \<open>
  Coalescing keeps the latest: of the jobs in the queue, a tick keeps for each kind its last job, in the order in
  which the kinds first appear, and counts the others.
\<close>

theorem coalescing_keeps_latest:
  "coalesce_loop q [] [] 0
    = (map (\<lambda>k. last (filter (\<lambda>j. pj_kind j = k) q)) (rev (remdups (rev (map pj_kind q)))),
       length q - length (remdups (map pj_kind q)))"
  by (simp add: coalesce_latest latest_jobs_def kind_order_def length_remdups_card_conv)

text \<open>
  C38: A transition takes its time and then ends with its target. A transition that is refused changes nothing. One that is
  started has the sound that plays as its origin, its target and a duration between one and the longest allowed; over
  any ticks after that it is in flight, with the rest of its time, and the sound is the one before, as long as the ticks
  add up to less than the duration; from then on there is no transition and its target plays, also when the last tick
  overran it. (The comment on \<open>tick\<close> and the header of the crate say that an overrun drops to silence or keeps the
  current loop, which the code does not do.)
\<close>

theorem transition_takes_its_time:
  "(case start_transition to duration e of
      (Inl err, e0) \<Rightarrow> e0 = e
    | (Inr t, e0) \<Rightarrow>
        (let passed = sum_list (map unat mss); e' = run tick mss e0 in
         t = \<lparr>tr_from = so_current e, tr_to = to, tr_total_ms = duration, tr_remaining_ms = duration\<rparr>
         \<and> 0 < duration \<and> duration \<le> MAX_TRANSITION_MS
         \<and> (if passed < unat duration
            then so_transition e' = Some (t\<lparr>tr_remaining_ms := duration - of_nat passed\<rparr>) \<and> so_current e' = so_current e
            else so_transition e' = None \<and> so_current e' = Some to)))"
proof (cases "start_transition to duration e")
  case (Pair r e0)
  show ?thesis
  proof (cases r)
    case (Inl err)
    then show ?thesis using Pair by (auto simp: start_transition_def Let_def split: if_splits)
  next
    case (Inr t)
    then have t: "t = \<lparr>tr_from = so_current e, tr_to = to, tr_total_ms = duration, tr_remaining_ms = duration\<rparr>"
        "so_transition e0 = Some t" "so_current e0 = so_current e" "0 < duration" "duration \<le> MAX_TRANSITION_MS"
      using Pair by (auto simp: start_transition_def Let_def word_gt_0 split: if_splits)
    have "mss \<noteq> []" if "unat duration \<le> sum_list (map unat mss)"
      using that t(4) by (cases mss) (auto simp: word_less_nat_alt)
    then show ?thesis using ticks_in_transition [where e = e0 and mss = mss] t Pair Inr by (auto simp: Let_def not_less)
  qed
qed

text \<open>
  The emergency stop silences. Until a reset, whatever is done after it, nothing plays, is queued or in
  transition, and requests are refused.
\<close>

theorem soundscape_stop_silences:
  "(if Reset \<in> set ops then True
    else (let e' = run sound_step ops (emergency_stop e) in
      so_current e' = None \<and> so_queue e' = [] \<and> so_transition e' = None
      \<and> fst (request_play p k a c e') = Inl EmergencyStop \<and> fst (start_transition k d e') = Inl EmergencyStop))"
proof -
  have "sound_silent (emergency_stop e)" by (simp add: sound_silent_def emergency_stop_def)
  from silent_run [OF this, of ops] show ?thesis
    by (simp add: Let_def sound_silent_def request_play_def start_transition_def)
qed

text \<open>
  While something plays the queue waits for ever: without a transition, a stop, a failure or the switch to text, the
  sound that plays stays, whatever is requested and however much time passes.
\<close>

theorem playing_blocks_queue:
  "(if so_current e = Some k \<and> so_transition e = None \<and> list_all (\<lambda>x. interrupts x = False) ops
    then so_current (run sound_step ops e) = Some k else True)"
  using playing_run [of e k ops] by simp

text \<open>A queued sound starts although the engine was switched to disabled or muted.\<close>

theorem disabled_engine_plays:
  "(if so_transition e = None \<and> so_current e = None \<and> so_queue e = [j]
    then so_current (tick ms (set_mode mode e)) = Some (pj_kind j) else True)"
  by (simp add: tick_current set_mode_def latest_jobs_def kind_order_def)

end
