(* ===== verification/Storage.thy ===== *)
theory Storage
  imports Prelude
begin

text \<open>
  Local storage, \<open>wirecore/crates/wire-storage/src/lib.rs\<close>: the bounded queue of writes, migrations, transcripts,
  search, export and deletion over SQLite. The SQLite library is a parameter: the record below has one field per
  call that matters, over a state of the database connection of any type; the text form of JSON is one too.
\<close>

definition STORAGE_SCHEMA_VERSION :: int where "STORAGE_SCHEMA_VERSION = 1"

definition MAX_QUEUE_DEPTH :: nat where "MAX_QUEUE_DEPTH = 4096"

text \<open>
  The calls. A statement is its text and its bindings; \<open>sq_step\<close> is its step number \<open>k\<close>, from 0, with the result
  code and, when the code is \<open>SQLITE_ROW\<close>, the row whose columns the two column functions read. A text column
  is \<open>None\<close> when the pointer is null.
\<close>

datatype SqlBind = BindText string | BindInt u64

record ('s, 'r) Sqlite =
  sq_open :: "string \<Rightarrow> int \<times> 's option"
  sq_exec :: "string \<Rightarrow> 's \<Rightarrow> int \<times> 's"
  sq_errmsg :: "'s \<Rightarrow> string option"
  sq_prepare :: "string \<Rightarrow> 's \<Rightarrow> int \<times> 's"
  sq_step :: "string \<Rightarrow> SqlBind list \<Rightarrow> nat \<Rightarrow> 's \<Rightarrow> int \<times> 'r \<times> 's"
  sq_column_int64 :: "'r \<Rightarrow> nat \<Rightarrow> u64"
  sq_column_text :: "'r \<Rightarrow> nat \<Rightarrow> string option"
  sq_changes :: "'s \<Rightarrow> 32 word"
  sq_last_insert_rowid :: "'s \<Rightarrow> u64"

definition SQLITE_ROW :: int where "SQLITE_ROW = 100"

definition SQLITE_DONE :: int where "SQLITE_DONE = 101"

definition SQLITE_OK :: int where "SQLITE_OK = 0"

definition col_text :: "('s, 'r) Sqlite \<Rightarrow> 'r \<Rightarrow> nat \<Rightarrow> string" where
  "col_text db row i = (case sq_column_text db row i of None \<Rightarrow> [] | Some t \<Rightarrow> t)"

datatype StorageError =
    OpenError string
  | Exec string
  | Migration string
  | QueueFull
  | Corrupt string
  | NotFound string
  | Invalid string

record TranscriptLine =
  tl_seq :: u64
  tl_profile :: string
  tl_direction :: string
  tl_text :: string
  tl_time :: u64

record SearchHit =
  sh_rowid :: u64
  sh_profile :: string
  sh_direction :: string
  sh_text :: string
  sh_snippet :: string

record WriteOp =
  wo_profile :: string
  wo_direction :: string
  wo_text :: string
  wo_time :: u64

record WriteQueue =
  wq_ops :: "WriteOp list"
  wq_max :: nat

definition WriteQueue_new :: "nat \<Rightarrow> WriteQueue" where
  "WriteQueue_new m = \<lparr>wq_ops = [], wq_max = m\<rparr>"

definition enqueue :: "WriteOp \<Rightarrow> WriteQueue \<Rightarrow> (StorageError + unit) \<times> WriteQueue" where
  "enqueue op q =
     (if wq_max q \<le> length (wq_ops q) then (Inl QueueFull, q) else (Inr (), q\<lparr>wq_ops := wq_ops q @ [op]\<rparr>))"

definition WriteQueue_len :: "WriteQueue \<Rightarrow> nat" where
  "WriteQueue_len q = length (wq_ops q)"

definition WriteQueue_is_empty :: "WriteQueue \<Rightarrow> bool" where
  "WriteQueue_is_empty q \<longleftrightarrow> wq_ops q = []"

text \<open>\<open>CString::new\<close> fails on a text with an interior NUL, and its default is the empty text.\<close>

definition cstr :: "string \<Rightarrow> string" where
  "cstr s = (if CHR 0x00 \<in> set s then [] else s)"

definition err_str :: "('s, 'r) Sqlite \<Rightarrow> 's option \<Rightarrow> string" where
  "err_str db h = (case h of None \<Rightarrow> ''null db'' | Some s \<Rightarrow> (case sq_errmsg db s of None \<Rightarrow> ''unknown'' | Some m \<Rightarrow> m))"

definition show_c_int :: "int \<Rightarrow> string" where
  "show_c_int i = (if i < 0 then CHR ''-'' # show_nat (nat (- i)) else show_nat (nat i))"

definition exec_batch :: "('s, 'r) Sqlite \<Rightarrow> string \<Rightarrow> 's \<Rightarrow> (StorageError + unit) \<times> 's" where
  "exec_batch db sql s =
     (let (rc, s1) = sq_exec db (cstr sql) s in
      if rc \<noteq> SQLITE_OK then (Inl (Exec (err_str db (Some s1))), s1) else (Inr (), s1))"

definition query_row :: "('s, 'r) Sqlite \<Rightarrow> ('r \<Rightarrow> 'a) \<Rightarrow> string \<Rightarrow> 's \<Rightarrow> (StorageError + 'a) \<times> 's" where
  "query_row db read sql s =
     (let (rc, s1) = sq_prepare db (cstr sql) s in
      if rc \<noteq> SQLITE_OK then (Inl (Exec (err_str db (Some s1))), s1)
      else let (rc, row, s2) = sq_step db (cstr sql) [] 0 s1 in
        if rc \<noteq> SQLITE_ROW then (Inl (Exec ''step failed''), s2) else (Inr (read row), s2))"

definition query_int :: "('s, 'r) Sqlite \<Rightarrow> string \<Rightarrow> 's \<Rightarrow> (StorageError + u64) \<times> 's" where
  "query_int db sql s = query_row db (\<lambda>row. sq_column_int64 db row 0) sql s"

definition query_text :: "('s, 'r) Sqlite \<Rightarrow> string \<Rightarrow> 's \<Rightarrow> (StorageError + string) \<times> 's" where
  "query_text db sql s = query_row db (\<lambda>row. col_text db row 0) sql s"

definition Storage_open :: "('s, 'r) Sqlite \<Rightarrow> string option \<Rightarrow> StorageError + 's" where
  "Storage_open db path =
     (let (rc, h) = sq_open db (cstr (case path of None \<Rightarrow> [] | Some p \<Rightarrow> p)) in
      if rc \<noteq> SQLITE_OK
      then Inl (OpenError (case h of None \<Rightarrow> ''open failed rc='' @ show_c_int rc | Some s \<Rightarrow> err_str db h))
      else (case h of
          None \<Rightarrow> Inl (Corrupt (err_str db None))
        | Some s \<Rightarrow>
            (case query_int db ''PRAGMA schema_version;'' s of
               (Inl e, s1) \<Rightarrow> Inl (Corrupt (err_str db (Some s1)))
             | (Inr n, s1) \<Rightarrow>
                 (case exec_batch db ''PRAGMA journal_mode=WAL; PRAGMA synchronous=NORMAL;'' s1 of
                    (Inl e, s2) \<Rightarrow> Inl e
                  | (Inr u, s2) \<Rightarrow> Inr s2))))"

section \<open>Migrations\<close>

definition nl :: string where "nl = [CHR 0x0A]"

definition CREATE_VERSIONS :: string where
  "CREATE_VERSIONS =
     ''CREATE TABLE IF NOT EXISTS wire_schema_version ('' @ nl @
     ''                version INTEGER PRIMARY KEY,'' @ nl @
     ''                applied_at INTEGER NOT NULL'' @ nl @
     ''            );''"

definition VERSION_QUERY :: string where
  "VERSION_QUERY = ''SELECT COALESCE(MAX(version),0) FROM wire_schema_version;''"

definition version_row :: "int \<Rightarrow> string" where
  "version_row v =
     ''INSERT INTO wire_schema_version(version, applied_at) VALUES('' @ show_c_int v @ '', strftime('%s','now'));''"

text \<open>\<open>parse::<i32>\<close>: an optional sign, then digits, and a value that fits.\<close>

definition parse_i32 :: "string \<Rightarrow> int option" where
  "parse_i32 s =
     (let (neg, d) = (case s of c # cs \<Rightarrow> if c = CHR ''-'' then (True, cs) else if c = CHR ''+'' then (False, cs)
                       else (False, s) | [] \<Rightarrow> (False, s)) in
      if d = [] then None
      else
        (case digits_value 0 d of
           None \<Rightarrow> None
         | Some n \<Rightarrow>
             let i = (if neg then - int n else int n) in
             if - (2 ^ 31) \<le> i \<and> i < 2 ^ 31 then Some i else None))"

definition current_version :: "('s, 'r) Sqlite \<Rightarrow> 's \<Rightarrow> (StorageError + int) \<times> 's" where
  "current_version db s =
     (case query_int db VERSION_QUERY s of
        (Inr v, s1) \<Rightarrow> (Inr (sint (ucast v :: 32 word)), s1)
      | (Inl _, s1) \<Rightarrow> (Inr 0, s1))"

fun migrate_loop ::
    "('s, 'r) Sqlite \<Rightarrow> int \<Rightarrow> (string \<times> string) list \<Rightarrow> 's \<Rightarrow> (StorageError + unit) \<times> 's" where
  "migrate_loop db current [] s = (Inr (), s)"
| "migrate_loop db current ((version, sql) # ms) s =
     (case parse_i32 version of
        None \<Rightarrow> (Inl (Invalid (''bad migration version '' @ version)), s)
      | Some v \<Rightarrow>
          if v \<le> current then migrate_loop db current ms s
          else (case exec_batch db sql s of
              (Inl e, s1) \<Rightarrow> (Inl e, s1)
            | (Inr _, s1) \<Rightarrow>
                (case exec_batch db (version_row v) s1 of
                   (Inl e, s2) \<Rightarrow> (Inl e, s2)
                 | (Inr _, s2) \<Rightarrow> migrate_loop db current ms s2)))"

definition migrate :: "('s, 'r) Sqlite \<Rightarrow> (string \<times> string) list \<Rightarrow> 's \<Rightarrow> (StorageError + unit) \<times> 's" where
  "migrate db migrations s =
     (case exec_batch db CREATE_VERSIONS s of
        (Inl e, s1) \<Rightarrow> (Inl e, s1)
      | (Inr _, s1) \<Rightarrow>
          (case current_version db s1 of
             (Inl e, s2) \<Rightarrow> (Inl e, s2)
           | (Inr current, s2) \<Rightarrow> migrate_loop db current migrations s2))"

definition SCHEMA :: string where
  "SCHEMA =
     ''CREATE TABLE IF NOT EXISTS transcripts ('' @ nl @
     ''                seq INTEGER PRIMARY KEY AUTOINCREMENT,'' @ nl @
     ''                profile TEXT NOT NULL,'' @ nl @
     ''                direction TEXT NOT NULL CHECK(direction IN ('in','out','note')),'' @ nl @
     ''                text TEXT NOT NULL,'' @ nl @
     ''                time INTEGER NOT NULL'' @ nl @
     ''            );'' @ nl @
     ''            CREATE VIRTUAL TABLE IF NOT EXISTS transcripts_fts USING fts5('' @ nl @
     ''                profile, direction, text, content='transcripts', content_rowid='seq'' @ [CHR 0x27] @ nl @
     ''            );'' @ nl @
     ''            CREATE TRIGGER IF NOT EXISTS transcripts_ai AFTER INSERT ON transcripts BEGIN'' @ nl @
     ''                INSERT INTO transcripts_fts(rowid, profile, direction, text)'' @ nl @
     ''                VALUES (new.seq, new.profile, new.direction, new.text);'' @ nl @
     ''            END;'' @ nl @
     ''            CREATE TRIGGER IF NOT EXISTS transcripts_ad AFTER DELETE ON transcripts BEGIN'' @ nl @
     ''                INSERT INTO transcripts_fts(transcripts_fts, rowid, profile, direction, text)'' @ nl @
     ''                VALUES ('delete', old.seq, old.profile, old.direction, old.text);'' @ nl @
     ''            END;'' @ nl @
     ''            CREATE TRIGGER IF NOT EXISTS transcripts_au AFTER UPDATE ON transcripts BEGIN'' @ nl @
     ''                INSERT INTO transcripts_fts(transcripts_fts, rowid, profile, direction, text)'' @ nl @
     ''                VALUES ('delete', old.seq, old.profile, old.direction, old.text);'' @ nl @
     ''                INSERT INTO transcripts_fts(rowid, profile, direction, text)'' @ nl @
     ''                VALUES (new.seq, new.profile, new.direction, new.text);'' @ nl @
     ''            END;''"

definition init_schema :: "('s, 'r) Sqlite \<Rightarrow> 's \<Rightarrow> (StorageError + unit) \<times> 's" where
  "init_schema db s = migrate db [(''1'', SCHEMA)] s"

section \<open>Transcripts\<close>

definition INSERT_SQL :: string where
  "INSERT_SQL = ''INSERT INTO transcripts(profile, direction, text, time) VALUES(?,?,?,?);''"

definition append_transcript ::
    "('s, 'r) Sqlite \<Rightarrow> string \<Rightarrow> string \<Rightarrow> string \<Rightarrow> u64 \<Rightarrow> 's \<Rightarrow> (StorageError + u64) \<times> 's" where
  "append_transcript db profile direction txt time s =
     (let (rc, s1) = sq_prepare db (cstr INSERT_SQL) s in
      if rc \<noteq> SQLITE_OK then (Inl (Exec (err_str db (Some s1))), s1)
      else
        let (rc, row, s2) = sq_step db (cstr INSERT_SQL)
              [BindText (cstr profile), BindText (cstr direction), BindText (cstr txt), BindInt time] 0 s1 in
        if rc \<noteq> 101 then (Inl (Exec (''append failed rc='' @ show_c_int rc @ '': '' @ err_str db (Some s2))), s2)
        else (Inr (sq_last_insert_rowid db s2), s2))"

text \<open>The loop over the rows of a statement, from its step \<open>k\<close>: the rows read, or the code that ended it.\<close>

partial_function (option) read_rows ::
    "('s, 'r) Sqlite \<Rightarrow> string \<Rightarrow> SqlBind list \<Rightarrow> ('r \<Rightarrow> 'a) \<Rightarrow> nat \<Rightarrow> 'a list \<Rightarrow> 's \<Rightarrow> ((int + 'a list) \<times> 's) option" where
  "read_rows db sql binds read k acc s =
     (let (rc, row, s1) = sq_step db sql binds k s in
      if rc = 101 then Some (Inr acc, s1)
      else if rc \<noteq> 100 then Some (Inl rc, s1)
      else read_rows db sql binds read (k + 1) (acc @ [read row]) s1)"

definition SEARCH_SQL :: string where
  "SEARCH_SQL =
     ''SELECT rowid, profile, direction, text, snippet(transcripts_fts, 2, '[', ']', '...', 24)'' @ nl @
     ''             FROM transcripts_fts WHERE transcripts_fts MATCH ?1 ORDER BY rank LIMIT ?2;''"

definition search_hit :: "('s, 'r) Sqlite \<Rightarrow> 'r \<Rightarrow> SearchHit" where
  "search_hit db row = \<lparr>sh_rowid = sq_column_int64 db row 0, sh_profile = col_text db row 1, sh_direction = col_text db row 2,
     sh_text = col_text db row 3, sh_snippet = col_text db row 4\<rparr>"

definition search ::
    "('s, 'r) Sqlite \<Rightarrow> string \<Rightarrow> u64 \<Rightarrow> 's \<Rightarrow> ((StorageError + SearchHit list) \<times> 's) option" where
  "search db query limit s =
     (let (rc, s1) = sq_prepare db (cstr SEARCH_SQL) s in
      if rc \<noteq> SQLITE_OK then Some (Inl (Exec (err_str db (Some s1))), s1)
      else (case read_rows db (cstr SEARCH_SQL) [BindText (cstr query), BindInt limit] (search_hit db) 0 [] s1 of
          None \<Rightarrow> None
        | Some (Inl rc, s2) \<Rightarrow> Some (Inl (Exec (''search step rc='' @ show_c_int rc @ '': '' @ err_str db (Some s2))), s2)
        | Some (Inr hits, s2) \<Rightarrow> Some (Inr hits, s2)))"

definition EXPORT_SQL :: string where
  "EXPORT_SQL = ''SELECT seq, profile, direction, text, time FROM transcripts ORDER BY seq;''"

definition transcript_line :: "('s, 'r) Sqlite \<Rightarrow> 'r \<Rightarrow> TranscriptLine" where
  "transcript_line db row = \<lparr>tl_seq = sq_column_int64 db row 0, tl_profile = col_text db row 1,
     tl_direction = col_text db row 2, tl_text = col_text db row 3, tl_time = sq_column_int64 db row 4\<rparr>"

text \<open>\<open>to_string_pretty\<close> is a parameter, which may fail with a message.\<close>

definition export_json ::
    "('s, 'r) Sqlite \<Rightarrow> (TranscriptLine list \<Rightarrow> string + string) \<Rightarrow> 's \<Rightarrow> ((StorageError + string) \<times> 's) option" where
  "export_json db to_text s =
     (let (rc, s1) = sq_prepare db (cstr EXPORT_SQL) s in
      if rc \<noteq> SQLITE_OK then Some (Inl (Exec (err_str db (Some s1))), s1)
      else (case read_rows db (cstr EXPORT_SQL) [] (transcript_line db) 0 [] s1 of
          None \<Rightarrow> None
        | Some (Inl rc, s2) \<Rightarrow> Some (Inl (Exec ''export step failed''), s2)
        | Some (Inr lines, s2) \<Rightarrow>
            Some (case to_text lines of Inl e \<Rightarrow> Inl (Invalid e) | Inr t \<Rightarrow> Inr t, s2)))"

definition DELETE_SQL :: string where
  "DELETE_SQL = ''DELETE FROM transcripts WHERE profile = ?1;''"

definition delete_profile :: "('s, 'r) Sqlite \<Rightarrow> string \<Rightarrow> 's \<Rightarrow> (StorageError + u64) \<times> 's" where
  "delete_profile db profile s =
     (let (rc, s1) = sq_prepare db (cstr DELETE_SQL) s in
      if rc \<noteq> SQLITE_OK then (Inl (Exec (err_str db (Some s1))), s1)
      else
        let (rc, row, s2) = sq_step db (cstr DELETE_SQL) [BindText (cstr profile)] 0 s1 in
        if rc \<noteq> 101 then (Inl (Exec ''delete failed''), s2) else (Inr (scast (sq_changes db s2)), s2))"

definition integrity_check :: "('s, 'r) Sqlite \<Rightarrow> 's \<Rightarrow> (StorageError + string) \<times> 's" where
  "integrity_check db s = query_text db ''PRAGMA integrity_check;'' s"

definition count_rows :: "('s, 'r) Sqlite \<Rightarrow> string \<Rightarrow> 's \<Rightarrow> (StorageError + u64) \<times> 's" where
  "count_rows db table s = query_int db (''SELECT COUNT(*) FROM '' @ table @ '';'') s"

text \<open>The queue is written operation by operation; the loop ends at the first error.\<close>

fun drain_loop :: "('s, 'r) Sqlite \<Rightarrow> WriteOp list \<Rightarrow> nat \<Rightarrow> 's \<Rightarrow> (StorageError + nat) \<times> WriteOp list \<times> 's" where
  "drain_loop db [] n s = (Inr n, [], s)"
| "drain_loop db (op # ops) n s =
     (case append_transcript db (wo_profile op) (wo_direction op) (wo_text op) (wo_time op) s of
        (Inl e, s1) \<Rightarrow> (Inl e, ops, s1)
      | (Inr _, s1) \<Rightarrow> drain_loop db ops (n + 1) s1)"

definition drain_into :: "('s, 'r) Sqlite \<Rightarrow> WriteQueue \<Rightarrow> 's \<Rightarrow> (StorageError + nat) \<times> WriteQueue \<times> 's" where
  "drain_into db q s = (let (r, ops, s1) = drain_loop db (wq_ops q) 0 s in (r, q\<lparr>wq_ops := ops\<rparr>, s1))"

section \<open>Lemmas on migrations\<close>

text \<open>The statements of the migrations above a version, and their execution up to the first error.\<close>

definition pending_statements :: "int \<Rightarrow> (string \<times> string) list \<Rightarrow> string list" where
  "pending_statements current ms =
     concat (map (\<lambda>(v, sql). [sql, version_row (the (parse_i32 v))]) (filter (\<lambda>(v, sql). current < the (parse_i32 v)) ms))"

fun exec_all :: "('s, 'r) Sqlite \<Rightarrow> string list \<Rightarrow> 's \<Rightarrow> (StorageError + unit) \<times> 's" where
  "exec_all db [] s = (Inr (), s)"
| "exec_all db (sql # sqls) s =
     (case exec_batch db sql s of (Inl e, s1) \<Rightarrow> (Inl e, s1) | (Inr _, s1) \<Rightarrow> exec_all db sqls s1)"

lemma migrate_loop_pending:
  "list_all (\<lambda>(v, sql). parse_i32 v \<noteq> None) ms \<Longrightarrow>
    migrate_loop db current ms s = exec_all db (pending_statements current ms) s"
  by (induction db current ms s rule: migrate_loop.induct)
    (auto simp: pending_statements_def split: sum.split prod.split option.split)

text \<open>The version that is read back, and the documented behaviour of SQLite on its table.\<close>

definition recorded :: "('s, 'r) Sqlite \<Rightarrow> 's \<Rightarrow> int" where
  "recorded db s = (case fst (current_version db s) of Inl e \<Rightarrow> 0 | Inr v \<Rightarrow> v)"

definition version_laws :: "('s, 'r) Sqlite \<Rightarrow> (string \<times> string) list \<Rightarrow> bool" where
  "version_laws db ms \<longleftrightarrow> (\<forall>s.
     recorded db (snd (current_version db s)) = recorded db s
     \<and> recorded db (snd (sq_exec db CREATE_VERSIONS s)) = recorded db s
     \<and> (\<forall>(version, sql) \<in> set ms.
          recorded db s \<le> recorded db (snd (sq_exec db (cstr sql) s))
          \<and> (case parse_i32 version of
               None \<Rightarrow> True
             | Some v \<Rightarrow> (case sq_exec db (version_row v) s of (rc, s1) \<Rightarrow>
                 recorded db s \<le> recorded db s1 \<and> (rc = SQLITE_OK \<longrightarrow> v \<le> recorded db s1)))))"

lemma cstr_statements [simp]:
  "cstr CREATE_VERSIONS = CREATE_VERSIONS" "cstr VERSION_QUERY = VERSION_QUERY" "cstr INSERT_SQL = INSERT_SQL"
  "cstr EXPORT_SQL = EXPORT_SQL" "cstr DELETE_SQL = DELETE_SQL" "cstr SEARCH_SQL = SEARCH_SQL"
  by code_simp+

lemma digits_value_digits: "digits_value acc t = Some n \<Longrightarrow> c \<in> set t \<Longrightarrow> char_digit c \<noteq> None"
  by (induction acc t rule: digits_value.induct) (auto split: option.splits)

lemma show_nat_no_nul: "CHR 0x00 \<notin> set (show_nat n)"
proof
  assume "CHR 0x00 \<in> set (show_nat n)"
  then have "char_digit (CHR 0x00) \<noteq> None" by (rule digits_value_digits [OF digits_value_show_nat])
  then show False by (simp add: char_digit_def)
qed

lemma cstr_version_row [simp]: "cstr (version_row v) = version_row v"
  using show_nat_no_nul [of "nat v"] show_nat_no_nul [of "nat (- v)"]
  by (simp add: cstr_def version_row_def show_c_int_def)

lemma exec_batch_facts:
  "exec_batch db sql s = (Inr u, s1) \<Longrightarrow> sq_exec db (cstr sql) s = (SQLITE_OK, s1)"
  by (auto simp: exec_batch_def Let_def split: prod.splits if_splits)

lemma version_laws_step:
  assumes "version_laws db ms" "(version, sql) \<in> set ms" "parse_i32 version = Some v"
  shows "recorded db s \<le> recorded db (snd (sq_exec db (cstr sql) s))"
    and "sq_exec db (version_row v) s = (rc, s1) \<Longrightarrow> recorded db s \<le> recorded db s1 \<and> (rc = SQLITE_OK \<longrightarrow> v \<le> recorded db s1)"
  using assms unfolding version_laws_def by (drule_tac x = s in spec; fastforce)+

lemma migrate_loop_records:
  "version_laws db ms0 \<Longrightarrow> set ms \<subseteq> set ms0 \<Longrightarrow> migrate_loop db c ms s = (Inr u, s1) \<Longrightarrow> c \<le> recorded db s \<Longrightarrow>
    recorded db s \<le> recorded db s1
    \<and> list_all (\<lambda>(v, sql). case parse_i32 v of None \<Rightarrow> False | Some i \<Rightarrow> i \<le> recorded db s1) ms"
proof (induction db c ms s arbitrary: s1 rule: migrate_loop.induct)
  case (2 db current version sql ms s)
  then obtain v where v: "parse_i32 version = Some v" by (auto split: option.splits)
  have sub: "set ms \<subseteq> set ms0" and here: "(version, sql) \<in> set ms0" using 2 by auto
  show ?case
  proof (cases "v \<le> current")
    case True
    then have "migrate_loop db current ms s = (Inr u, s1)" using 2 v by simp
    then show ?thesis using 2 sub True v by force
  next
    case False
    then obtain sa sb where steps: "exec_batch db sql s = (Inr (), sa)" "exec_batch db (version_row v) sa = (Inr (), sb)"
        "migrate_loop db current ms sb = (Inr u, s1)"
      using 2 v by (auto split: prod.splits sum.splits)
    have "recorded db s \<le> recorded db sa" "recorded db sa \<le> recorded db sb" "v \<le> recorded db sb"
      using version_laws_step(1) [OF "2.prems"(1) here v, of s] version_laws_step(2) [OF "2.prems"(1) here v, of sa]
        exec_batch_facts [OF steps(1)] exec_batch_facts [OF steps(2)] by simp_all
    moreover have "recorded db sb \<le> recorded db s1
        \<and> list_all (\<lambda>(v, sql). case parse_i32 v of None \<Rightarrow> False | Some i \<Rightarrow> i \<le> recorded db s1) ms"
      using 2 sub False v steps calculation by simp
    ultimately show ?thesis using v by auto
  qed
qed simp

lemma migrate_loop_skips:
  "list_all (\<lambda>(v, sql). case parse_i32 v of None \<Rightarrow> False | Some i \<Rightarrow> i \<le> c) ms \<Longrightarrow> migrate_loop db c ms s = (Inr (), s)"
  by (induction ms) (auto split: option.splits)

section \<open>Lemmas on transcripts\<close>

text \<open>
  The documented behaviour of SQLite on the statements for transcripts, with \<open>rows\<close> the table in the order of its
  key: an insertion that is done adds one row with the identifier reported, one that is not adds none; the steps of
  the query give the rows in order; a deletion removes the rows of the profile. Any step may fail.
\<close>

definition transcript_laws :: "('s, 'r) Sqlite \<Rightarrow> ('s \<Rightarrow> TranscriptLine list) \<Rightarrow> bool" where
  "transcript_laws db rows \<longleftrightarrow> (\<forall>s.
     (\<forall>sql \<in> {INSERT_SQL, EXPORT_SQL, DELETE_SQL}. rows (snd (sq_prepare db sql s)) = rows s)
     \<and> (\<forall>p d t tm. case sq_step db INSERT_SQL [BindText p, BindText d, BindText t, BindInt tm] 0 s of (rc, row, s1) \<Rightarrow>
          rows s1 = (if rc = 101 then rows s @ [\<lparr>tl_seq = sq_last_insert_rowid db s1, tl_profile = p, tl_direction = d,
            tl_text = t, tl_time = tm\<rparr>] else rows s))
     \<and> (\<forall>k. case sq_step db EXPORT_SQL [] k s of (rc, row, s1) \<Rightarrow> rows s1 = rows s
          \<and> (rc = 100 \<longrightarrow> k < length (rows s)
              \<and> sq_column_int64 db row 0 = tl_seq (rows s ! k) \<and> sq_column_text db row 1 = Some (tl_profile (rows s ! k))
              \<and> sq_column_text db row 2 = Some (tl_direction (rows s ! k)) \<and> sq_column_text db row 3 = Some (tl_text (rows s ! k))
              \<and> sq_column_int64 db row 4 = tl_time (rows s ! k))
          \<and> (rc = 101 \<longrightarrow> length (rows s) \<le> k))
     \<and> (\<forall>p. case sq_step db DELETE_SQL [BindText p] 0 s of (rc, row, s1) \<Rightarrow>
          rows s1 = (if rc = 101 then filter (\<lambda>l. tl_profile l \<noteq> p) (rows s) else rows s)))"

lemma law_prepare:
  "transcript_laws db rows \<Longrightarrow> sql \<in> {INSERT_SQL, EXPORT_SQL, DELETE_SQL} \<Longrightarrow> sq_prepare db sql s = (rc, s1) \<Longrightarrow> rows s1 = rows s"
  unfolding transcript_laws_def by (drule_tac x = s in spec) force

lemma law_insert:
  assumes "transcript_laws db rows" "sq_step db INSERT_SQL [BindText p, BindText d, BindText t, BindInt tm] 0 s = (rc, row, s1)"
  shows "rows s1 = (if rc = 101 then rows s @ [\<lparr>tl_seq = sq_last_insert_rowid db s1, tl_profile = p, tl_direction = d,
      tl_text = t, tl_time = tm\<rparr>] else rows s)"
proof -
  have "\<forall>p d t tm. case sq_step db INSERT_SQL [BindText p, BindText d, BindText t, BindInt tm] 0 s of (rc, row, s1) \<Rightarrow>
      rows s1 = (if rc = 101 then rows s @ [\<lparr>tl_seq = sq_last_insert_rowid db s1, tl_profile = p, tl_direction = d,
        tl_text = t, tl_time = tm\<rparr>] else rows s)"
    using assms(1) unfolding transcript_laws_def by (elim allE [where x = s] conjE) assumption
  from this [rule_format, of p d t tm] show ?thesis using assms(2) by simp
qed

lemma law_export:
  assumes "transcript_laws db rows" "sq_step db EXPORT_SQL [] k s = (rc, row, s1)"
  shows "rows s1 = rows s" and "rc = 101 \<Longrightarrow> length (rows s) \<le> k"
    and "rc = 100 \<Longrightarrow> k < length (rows s) \<and> transcript_line db row = rows s ! k"
proof -
  have law: "rows s1 = rows s
      \<and> (rc = 100 \<longrightarrow> k < length (rows s)
          \<and> sq_column_int64 db row 0 = tl_seq (rows s ! k) \<and> sq_column_text db row 1 = Some (tl_profile (rows s ! k))
          \<and> sq_column_text db row 2 = Some (tl_direction (rows s ! k)) \<and> sq_column_text db row 3 = Some (tl_text (rows s ! k))
          \<and> sq_column_int64 db row 4 = tl_time (rows s ! k))
      \<and> (rc = 101 \<longrightarrow> length (rows s) \<le> k)"
    using assms unfolding transcript_laws_def by (elim allE [where x = s] conjE allE [where x = k]) simp
  show "rows s1 = rows s" using law by blast
  show "rc = 101 \<Longrightarrow> length (rows s) \<le> k" using law by blast
  show "rc = 100 \<Longrightarrow> k < length (rows s) \<and> transcript_line db row = rows s ! k"
    using law by (simp add: transcript_line_def col_text_def)
qed

lemma law_delete:
  "transcript_laws db rows \<Longrightarrow> sq_step db DELETE_SQL [BindText p] 0 s = (rc, row, s1) \<Longrightarrow>
    rows s1 = (if rc = 101 then filter (\<lambda>l. tl_profile l \<noteq> p) (rows s) else rows s)"
  unfolding transcript_laws_def by (elim allE [where x = s] conjE allE [where x = p]) simp

text \<open>
  What a write asks for, what a line of the table holds, and what the insertion binds for a write: a text with a NUL
  in it is bound as the empty text.
\<close>

definition write_view :: "WriteOp \<Rightarrow> string \<times> string \<times> string \<times> u64" where
  "write_view op = (wo_profile op, wo_direction op, wo_text op, wo_time op)"

definition without_nul :: "WriteOp \<Rightarrow> bool" where
  "without_nul op \<longleftrightarrow> list_all (\<lambda>s. CHR 0x00 \<notin> set s) [wo_profile op, wo_direction op, wo_text op]"

definition stored_view :: "WriteOp \<Rightarrow> string \<times> string \<times> string \<times> u64" where
  "stored_view op = (cstr (wo_profile op), cstr (wo_direction op), cstr (wo_text op), wo_time op)"

definition line_view :: "TranscriptLine \<Rightarrow> string \<times> string \<times> string \<times> u64" where
  "line_view l = (tl_profile l, tl_direction l, tl_text l, tl_time l)"

lemma stored_as_written: "list_all without_nul ws \<Longrightarrow> map stored_view ws = map write_view ws"
  by (induction ws) (simp_all add: without_nul_def stored_view_def write_view_def cstr_def)

definition append_op :: "('s, 'r) Sqlite \<Rightarrow> WriteOp \<Rightarrow> 's \<Rightarrow> (StorageError + u64) \<times> 's" where
  "append_op db op s = append_transcript db (wo_profile op) (wo_direction op) (wo_text op) (wo_time op) s"

lemma append_op_rows:
  assumes "transcript_laws db rows" "append_op db op s = (r, s1)"
  shows "case r of Inl e \<Rightarrow> rows s1 = rows s
    | Inr n \<Rightarrow> (\<exists>l. rows s1 = rows s @ [l] \<and> line_view l = stored_view op \<and> tl_seq l = n)"
proof -
  obtain rc sa where prep: "sq_prepare db INSERT_SQL s = (rc, sa)" by fastforce
  have sa: "rows sa = rows s" by (rule law_prepare [OF assms(1) _ prep]) simp
  obtain rc' row sb where ins: "sq_step db INSERT_SQL [BindText (cstr (wo_profile op)), BindText (cstr (wo_direction op)),
      BindText (cstr (wo_text op)), BindInt (wo_time op)] 0 sa = (rc', row, sb)" using prod_cases3 by blast
  show ?thesis
    using assms(2) sa law_insert [OF assms(1) ins] prep ins
    by (auto simp: append_op_def append_transcript_def Let_def line_view_def stored_view_def split: if_splits)
qed

text \<open>The database after the first \<open>k\<close> writes, each made whatever the one before answered, and the answer to write \<open>k\<close>.\<close>

definition after_writes :: "('s, 'r) Sqlite \<Rightarrow> WriteOp list \<Rightarrow> nat \<Rightarrow> 's \<Rightarrow> 's" where
  "after_writes db ops k s = run (\<lambda>op s. snd (append_op db op s)) (take k ops) s"

definition write_answer :: "('s, 'r) Sqlite \<Rightarrow> WriteOp list \<Rightarrow> 's \<Rightarrow> nat \<Rightarrow> StorageError + u64" where
  "write_answer db ops s k = fst (append_op db (ops ! k) (after_writes db ops k s))"

lemma after_writes_0 [simp]: "after_writes db ops 0 s = s"
  by (simp add: after_writes_def)

lemma after_writes_Suc [simp]: "after_writes db (op # ops) (Suc k) s = after_writes db ops k (snd (append_op db op s))"
  by (simp add: after_writes_def)

lemma write_answer_0 [simp]: "write_answer db (op # ops) s 0 = fst (append_op db op s)"
  by (simp add: write_answer_def)

lemma write_answer_Suc [simp]: "write_answer db (op # ops) s (Suc k) = write_answer db ops (snd (append_op db op s)) k"
  by (simp add: write_answer_def)

lemma upt_0_Suc: "[0..<Suc n] = 0 # map Suc [0..<n]"
  by (simp add: map_Suc_upt upt_conv_Cons del: upt_Suc)

lemma drain_loop_spec:
  "drain_loop db ops n s = (r, rest, s1) \<Longrightarrow>
    (case r of
       Inr m \<Rightarrow> m = n + length ops \<and> rest = [] \<and> s1 = after_writes db ops (length ops) s
         \<and> list_all (\<lambda>k. \<not> isl (write_answer db ops s k)) [0..<length ops]
     | Inl e \<Rightarrow> (\<exists>k < length ops. write_answer db ops s k = Inl e \<and> rest = drop (Suc k) ops
         \<and> s1 = after_writes db ops (Suc k) s \<and> list_all (\<lambda>i. \<not> isl (write_answer db ops s i)) [0..<k]))"
proof (induction db ops n s rule: drain_loop.induct)
  case (2 db op ops n s)
  obtain a sa where app: "append_op db op s = (a, sa)" by fastforce
  show ?case
  proof (cases a)
    case (Inl e)
    then have "r = Inl e \<and> rest = ops \<and> s1 = sa" using 2 app by (simp add: append_op_def)
    then show ?thesis using app Inl by (auto intro!: exI [of _ 0])
  next
    case (Inr m)
    then have "drain_loop db ops (n + 1) sa = (r, rest, s1)" using 2 app by (simp add: append_op_def)
    then have later: "case r of
        Inr m \<Rightarrow> m = n + 1 + length ops \<and> rest = [] \<and> s1 = after_writes db ops (length ops) sa
          \<and> list_all (\<lambda>k. \<not> isl (write_answer db ops sa k)) [0..<length ops]
      | Inl e \<Rightarrow> (\<exists>k < length ops. write_answer db ops sa k = Inl e \<and> rest = drop (Suc k) ops
          \<and> s1 = after_writes db ops (Suc k) sa \<and> list_all (\<lambda>i. \<not> isl (write_answer db ops sa i)) [0..<k])"
      using 2 app Inr by (simp add: append_op_def)
    show ?thesis
    proof (cases r)
      case (Inl e)
      then obtain k where "k < length ops" "write_answer db ops sa k = Inl e" "rest = drop (Suc k) ops"
          "s1 = after_writes db ops (Suc k) sa" "list_all (\<lambda>i. \<not> isl (write_answer db ops sa i)) [0..<k]"
        using later by auto
      then show ?thesis using Inl app Inr
        by (auto simp del: upt_Suc simp: upt_0_Suc list.pred_map comp_def intro!: exI [of _ "Suc k"])
    next
      case (Inr i)
      then show ?thesis using later app \<open>a = Inr m\<close>
        by (simp del: upt_Suc add: upt_0_Suc list.pred_map comp_def)
    qed
  qed
qed (auto split: sum.split)

lemma drain_loop_rows:
  "transcript_laws db rows \<Longrightarrow> drain_loop db ops n s = (r, rest, s1) \<Longrightarrow>
    \<exists>ls ws. rows s1 = rows s @ ls \<and> map line_view ls = map stored_view ws
      \<and> (case r of Inr m \<Rightarrow> ws = ops \<and> rest = [] \<and> m = n + length ops | Inl e \<Rightarrow> (\<exists>op. ops = ws @ op # rest))"
proof (induction db ops n s rule: drain_loop.induct)
  case (2 db op ops n s)
  obtain a sa where app: "append_op db op s = (a, sa)" by fastforce
  show ?case
  proof (cases a)
    case (Inl e)
    then have "r = Inl e \<and> rest = ops \<and> s1 = sa" using 2 app by (simp add: append_op_def)
    then show ?thesis using append_op_rows [OF "2.prems"(1) app] Inl by (auto intro!: exI [of _ "[]"])
  next
    case (Inr m)
    then have "drain_loop db ops (n + 1) sa = (r, rest, s1)" using 2 app by (simp add: append_op_def)
    then obtain ls ws where later: "rows s1 = rows sa @ ls" "map line_view ls = map stored_view ws"
        "case r of Inr m \<Rightarrow> ws = ops \<and> rest = [] \<and> m = n + 1 + length ops | Inl e \<Rightarrow> (\<exists>op. ops = ws @ op # rest)"
      using 2 app Inr by (auto simp: append_op_def)
    obtain l where "rows sa = rows s @ [l]" "line_view l = stored_view op"
      using append_op_rows [OF "2.prems"(1) app] Inr by auto
    then show ?thesis
      using later by (intro exI [of _ "l # ls"] exI [of _ "op # ws"]) (auto split: sum.splits)
  qed
qed (auto intro!: exI [of _ "[]"])

text \<open>The loop over the rows returns, because a row is given only for a step below their number.\<close>

lemma export_rows:
  "transcript_laws db rows \<Longrightarrow> k \<le> length (rows s) \<Longrightarrow>
    \<exists>r s1. read_rows db EXPORT_SQL [] (transcript_line db) k (take k (rows s)) s = Some (r, s1) \<and> rows s1 = rows s
      \<and> (case r of Inl rc \<Rightarrow> True | Inr ls \<Rightarrow> ls = rows s)"
proof (induction "length (rows s) - k" arbitrary: k s rule: less_induct)
  case less
  obtain rc row sa where step: "sq_step db EXPORT_SQL [] k s = (rc, row, sa)" using prod_cases3 by blast
  note law = law_export [OF less.prems(1) step]
  show ?case
  proof (cases "rc = 100")
    case True
    then have k: "k < length (rows s)" "transcript_line db row = rows s ! k" using law by auto
    have "\<exists>r s1. read_rows db EXPORT_SQL [] (transcript_line db) (Suc k) (take (Suc k) (rows s)) sa = Some (r, s1)
        \<and> rows s1 = rows s \<and> (case r of Inl rc \<Rightarrow> True | Inr ls \<Rightarrow> ls = rows s)"
      using less.hyps [of sa "Suc k"] less.prems k unfolding law(1) by simp
    then show ?thesis
      using k law(1) by (subst read_rows.simps) (simp add: step True take_Suc_conv_app_nth)
  next
    case False
    then show ?thesis using less.prems law by (subst read_rows.simps) (auto simp: step)
  qed
qed

section \<open>The queue as a machine\<close>

datatype write_cmd = Enqueue WriteOp | Drain

fun write_step :: "('s, 'r) Sqlite \<Rightarrow> write_cmd \<Rightarrow> WriteQueue \<times> 's \<Rightarrow> WriteQueue \<times> 's" where
  "write_step db (Enqueue op) (q, s) = (snd (enqueue op q), s)"
| "write_step db Drain (q, s) = snd (drain_into db q s)"

definition write_inv :: "nat \<Rightarrow> WriteQueue \<times> 's \<Rightarrow> bool" where
  "write_inv m w \<longleftrightarrow> wq_max (fst w) = m \<and> length (wq_ops (fst w)) \<le> m"

lemma drain_shortens: "length (fst (snd (drain_loop db ops n s))) \<le> length ops"
  by (induction db ops n s rule: drain_loop.induct) (auto split: sum.split prod.split)

interpretation writes: machine_invariant "write_step db" "write_inv m" for db :: "('s, 'r) Sqlite" and m
proof
  fix w :: "WriteQueue \<times> 's" and x :: write_cmd
  assume inv: "write_inv m w"
  obtain q s where w: "w = (q, s)" by fastforce
  show "write_inv m (write_step db x w)"
    using inv order_trans [OF drain_shortens [of db "wq_ops q" 0 s]]
    by (cases x) (auto simp: w write_inv_def enqueue_def drain_into_def Let_def split_beta)
qed

section \<open>A database in memory\<close>

text \<open>A small database that behaves as documented on the statements above, for the witnesses.\<close>

record MemDb =
  md_migrated :: bool
  md_rows :: "TranscriptLine list"

definition NO_ROW :: TranscriptLine where
  "NO_ROW = \<lparr>tl_seq = 0, tl_profile = [], tl_direction = [], tl_text = [], tl_time = 0\<rparr>"

definition md_last :: "MemDb \<Rightarrow> u64" where
  "md_last s = (if md_rows s = [] then 0 else tl_seq (last (md_rows s)))"

fun md_insert :: "SqlBind list \<Rightarrow> MemDb \<Rightarrow> int \<times> TranscriptLine \<times> MemDb" where
  "md_insert [BindText p, BindText d, BindText t, BindInt tm] s =
     (if d \<in> {''in'', ''out'', ''note''}
      then (101, NO_ROW, s\<lparr>md_rows := md_rows s @ [\<lparr>tl_seq = md_last s + 1, tl_profile = p, tl_direction = d, tl_text = t,
        tl_time = tm\<rparr>]\<rparr>)
      else (19, NO_ROW, s))"
| "md_insert binds s = (21, NO_ROW, s)"

fun md_delete :: "SqlBind list \<Rightarrow> MemDb \<Rightarrow> int \<times> TranscriptLine \<times> MemDb" where
  "md_delete [BindText p] s = (101, NO_ROW, s\<lparr>md_rows := filter (\<lambda>l. tl_profile l \<noteq> p) (md_rows s)\<rparr>)"
| "md_delete binds s = (21, NO_ROW, s)"

definition mem_sqlite :: "(MemDb, TranscriptLine) Sqlite" where
  "mem_sqlite = \<lparr>sq_open = (\<lambda>p. (0, Some \<lparr>md_migrated = False, md_rows = []\<rparr>)),
     sq_exec = (\<lambda>sql s. (0, if sql = version_row 1 then s\<lparr>md_migrated := True\<rparr> else s)),
     sq_errmsg = (\<lambda>s. None),
     sq_prepare = (\<lambda>sql s. (0, s)),
     sq_step = (\<lambda>sql binds k s.
       if sql = VERSION_QUERY then (100, NO_ROW\<lparr>tl_seq := if md_migrated s then 1 else 0\<rparr>, s)
       else if sql = INSERT_SQL then md_insert binds s
       else if sql = DELETE_SQL then md_delete binds s
       else if sql = EXPORT_SQL \<and> k < length (md_rows s) then (100, md_rows s ! k, s)
       else (101, NO_ROW, s)),
     sq_column_int64 = (\<lambda>row i. if i = 0 then tl_seq row else tl_time row),
     sq_column_text = (\<lambda>row i. Some (if i = 1 then tl_profile row else if i = 2 then tl_direction row else tl_text row)),
     sq_changes = (\<lambda>s. 0),
     sq_last_insert_rowid = md_last\<rparr>"

lemma statements_differ:
  "INSERT_SQL \<noteq> VERSION_QUERY" "DELETE_SQL \<noteq> VERSION_QUERY" "EXPORT_SQL \<noteq> VERSION_QUERY" "DELETE_SQL \<noteq> INSERT_SQL"
  "EXPORT_SQL \<noteq> INSERT_SQL" "EXPORT_SQL \<noteq> DELETE_SQL" "CREATE_VERSIONS \<noteq> version_row 1" "cstr SCHEMA \<noteq> version_row 1"
  by code_simp+

lemma mem_transcripts: "transcript_laws mem_sqlite md_rows"
  unfolding transcript_laws_def
  by (auto simp: mem_sqlite_def statements_differ md_last_def)

lemma mem_recorded: "recorded mem_sqlite s = (if md_migrated s then 1 else 0)"
  by (simp add: recorded_def current_version_def query_int_def query_row_def mem_sqlite_def SQLITE_OK_def SQLITE_ROW_def NO_ROW_def)

lemma mem_versions: "version_laws mem_sqlite [(''1'', SCHEMA)]"
proof -
  have one: "parse_i32 ''1'' = Some 1" by code_simp
  have read: "snd (current_version mem_sqlite s) = s" for s
    by (simp add: current_version_def query_int_def query_row_def mem_sqlite_def SQLITE_OK_def SQLITE_ROW_def)
  have exec: "sq_exec mem_sqlite sql s = (0, if sql = version_row 1 then s\<lparr>md_migrated := True\<rparr> else s)" for sql s
    by (simp add: mem_sqlite_def)
  show ?thesis
    by (simp add: version_laws_def mem_recorded read exec one statements_differ)
qed

section \<open>Properties\<close>

text \<open>
  C26: What is queued is what is exported. If SQLite behaves as documented, then after the queue is drained the export
  returns, and when it succeeds it is the text of the lines that were there followed by one line per write, in the
  order of the queue, with the time of the write and its profile, direction and text, each of which is exported empty
  when it has a NUL in it: if none of the writes has a NUL, the lines have exactly what the writes have. The queue is
  empty. When the drain stopped at an error, the lines are those of the writes before it, and the write that failed is
  in neither.
\<close>

theorem drained_writes_exported:
  assumes "transcript_laws db rows"
  shows "(let (r, q', s1) = drain_into db q s in
    case export_json db to_text s1 of
      None \<Rightarrow> False
    | Some (Inl e, s2) \<Rightarrow> True
    | Some (Inr text, s2) \<Rightarrow>
        \<exists>ls ws. to_text (rows s @ ls) = Inr text \<and> map line_view ls = map stored_view ws
          \<and> (if list_all without_nul ws then map line_view ls = map write_view ws else True)
          \<and> (case r of Inr n \<Rightarrow> ws = wq_ops q \<and> n = length ws \<and> wq_ops q' = []
             | Inl e \<Rightarrow> \<exists>op. wq_ops q = ws @ op # wq_ops q'))"
proof -
  obtain r rest s1 where drain: "drain_loop db (wq_ops q) 0 s = (r, rest, s1)" using prod_cases3 by blast
  obtain rc s2 where prep: "sq_prepare db EXPORT_SQL s1 = (rc, s2)" by fastforce
  have same: "rows s2 = rows s1" by (rule law_prepare [OF assms _ prep]) simp
  obtain rr s3 where read: "read_rows db EXPORT_SQL [] (transcript_line db) 0 [] s2 = Some (rr, s3)"
      "case rr of Inl rc \<Rightarrow> True | Inr ls \<Rightarrow> ls = rows s2"
    using export_rows [OF assms, of 0 s2] by auto
  obtain ls ws where rows: "rows s1 = rows s @ ls" "map line_view ls = map stored_view ws"
      and r: "case r of Inr m \<Rightarrow> ws = wq_ops q \<and> rest = [] \<and> m = 0 + length (wq_ops q) | Inl e \<Rightarrow> (\<exists>op. wq_ops q = ws @ op # rest)"
    using drain_loop_rows [OF assms drain] by blast
  have view: "map line_view ls = map stored_view ws
      \<and> (if list_all without_nul ws then map line_view ls = map write_view ws else True)"
    using rows stored_as_written by (simp del: map_eq_conv)
  show ?thesis
    using same read rows(1) r view
    by (auto simp: drain_into_def drain export_json_def prep Let_def simp del: map_eq_conv split: sum.splits
      intro!: exI [of _ ls] exI [of _ ws])
qed

theorem drained_writes_exported_witness:
  "(let (r, q', s1) = drain_into mem_sqlite (snd (enqueue \<lparr>wo_profile = ''p'', wo_direction = ''in'', wo_text = ''hi'', wo_time = 7\<rparr>
        (WriteQueue_new 4))) \<lparr>md_migrated = True, md_rows = []\<rparr> in
    case export_json mem_sqlite (\<lambda>ls. Inr (concat (map tl_text ls))) s1 of
      None \<Rightarrow> False
    | Some (Inl e, s2) \<Rightarrow> True
    | Some (Inr text, s2) \<Rightarrow>
        \<exists>ls ws. (\<lambda>ls. Inr (concat (map tl_text ls)) :: string + string) (md_rows \<lparr>md_migrated = True, md_rows = []\<rparr> @ ls) = Inr text
          \<and> map line_view ls = map stored_view ws
          \<and> (if list_all without_nul ws then map line_view ls = map write_view ws else True)
          \<and> (case r of Inr n \<Rightarrow> ws = wq_ops (snd (enqueue \<lparr>wo_profile = ''p'', wo_direction = ''in'', wo_text = ''hi'', wo_time = 7\<rparr>
                (WriteQueue_new 4))) \<and> n = length ws \<and> wq_ops q' = []
             | Inl e \<Rightarrow> \<exists>op. wq_ops (snd (enqueue \<lparr>wo_profile = ''p'', wo_direction = ''in'', wo_text = ''hi'', wo_time = 7\<rparr>
                (WriteQueue_new 4))) = ws @ op # wq_ops q'))"
  by (rule drained_writes_exported [OF mem_transcripts])

text \<open>
  C27: A refused write leaves the queue all the same. Draining writes the operations in order, up to the first that the database refuses.
  When it refuses none, the number of the operations is answered, the queue is empty and the database is the one after
  all of them. When it refuses one, the error of the first refused is answered; nothing after it is tried; the
  operations after it stay in the queue in their order, and the refused one is not in the queue any more, so that no
  later draining tries it again. The bound of the queue is as it was. This is so whatever the database does.
\<close>

theorem refused_write_is_lost:
  "(let ops = wq_ops q; answer = write_answer db ops s in
    case drain_into db q s of
      (Inr n, q', s1) \<Rightarrow> list_all (\<lambda>k. \<not> isl (answer k)) [0..<length ops] \<and> n = length ops
        \<and> q' = q\<lparr>wq_ops := []\<rparr> \<and> s1 = after_writes db ops (length ops) s
    | (Inl e, q', s1) \<Rightarrow> \<exists>k < length ops. answer k = Inl e \<and> list_all (\<lambda>i. \<not> isl (answer i)) [0..<k]
        \<and> q' = q\<lparr>wq_ops := drop (Suc k) ops\<rparr> \<and> s1 = after_writes db ops (Suc k) s)"
proof -
  obtain r rest s1 where drain: "drain_loop db (wq_ops q) 0 s = (r, rest, s1)" using prod_cases3 by blast
  show ?thesis using drain_loop_spec [OF drain] by (auto simp: drain_into_def drain Let_def split: sum.splits)
qed

text \<open>
  Migrations run what is pending, in the given order. With versions that are numbers, \<open>migrate\<close> creates the version
  table, reads the version once and executes, up to the first error, the script and the version row of every
  migration above it.
\<close>

theorem migrations_run_pending:
  "(if list_all (\<lambda>(v, sql). parse_i32 v \<noteq> None) ms
    then migrate db ms s = (case exec_batch db CREATE_VERSIONS s of
        (Inl e, s1) \<Rightarrow> (Inl e, s1)
      | (Inr _, s1) \<Rightarrow> exec_all db (pending_statements (recorded db s1) ms) (snd (current_version db s1)))
    else True)"
  by (auto simp: migrate_def migrate_loop_pending recorded_def current_version_def split: sum.split prod.split)

text \<open>
  Migrations are idempotent. If the version table behaves as documented, then after a migration that succeeded the
  same migrations execute none of their scripts again: only the statement that creates the table is repeated.
\<close>

theorem migrate_idempotent:
  assumes "version_laws db ms" and "fst (migrate db ms s) = Inr ()"
  shows "(let s1 = snd (migrate db ms s) in
    migrate db ms s1 = (case exec_batch db CREATE_VERSIONS s1 of
        (Inl e, s2) \<Rightarrow> (Inl e, s2)
      | (Inr _, s2) \<Rightarrow> (Inr (), snd (current_version db s2))))"
proof -
  have kept: "recorded db (snd (current_version db t)) = recorded db t"
      "recorded db (snd (sq_exec db CREATE_VERSIONS t)) = recorded db t" for t
    using assms(1) unfolding version_laws_def by blast+
  have version: "current_version db t = (Inr (recorded db t), snd (current_version db t))" for t
    by (auto simp: recorded_def current_version_def split: prod.split sum.split)
  obtain sa where sa: "exec_batch db CREATE_VERSIONS s = (Inr (), sa)"
    using assms(2) by (auto simp: migrate_def split: prod.splits sum.splits)
  obtain s1 where run1: "migrate db ms s = (Inr (), s1)" using assms(2) by (cases "migrate db ms s") auto
  obtain sc where sc: "current_version db sa = (Inr (recorded db sa), sc)" using version [of sa] by blast
  have "migrate_loop db (recorded db sa) ms sc = (Inr (), s1)"
    using run1 by (simp add: migrate_def sa sc)
  then have small: "list_all (\<lambda>(v, sql). case parse_i32 v of None \<Rightarrow> False | Some i \<Rightarrow> i \<le> recorded db s1) ms"
    using migrate_loop_records [OF assms(1) subset_refl] kept(1) [of sa] by (simp add: sc)
  have "migrate db ms s1 = (case exec_batch db CREATE_VERSIONS s1 of
      (Inl e, s2) \<Rightarrow> (Inl e, s2)
    | (Inr _, s2) \<Rightarrow> (Inr (), snd (current_version db s2)))"
  proof (cases "exec_batch db CREATE_VERSIONS s1")
    case (Pair a s2)
    show ?thesis
    proof (cases a)
      case (Inr u)
      obtain sd where "current_version db s2 = (Inr (recorded db s2), sd)" using version [of s2] by blast
      moreover have "recorded db s2 = recorded db s1"
        using exec_batch_facts [of db CREATE_VERSIONS s1 u s2] kept(2) [of s1] Pair Inr by simp
      ultimately show ?thesis using small by (simp add: migrate_def Pair Inr migrate_loop_skips)
    qed (simp add: migrate_def Pair)
  qed
  then show ?thesis by (simp add: run1)
qed

theorem migrate_idempotent_witness:
  "(let s1 = snd (migrate mem_sqlite [(''1'', SCHEMA)] \<lparr>md_migrated = False, md_rows = []\<rparr>) in
    migrate mem_sqlite [(''1'', SCHEMA)] s1 = (case exec_batch mem_sqlite CREATE_VERSIONS s1 of
        (Inl e, s2) \<Rightarrow> (Inl e, s2)
      | (Inr _, s2) \<Rightarrow> (Inr (), snd (current_version mem_sqlite s2))))"
proof (rule migrate_idempotent [OF mem_versions])
  have one: "parse_i32 ''1'' = Some 1" by code_simp
  have exec: "exec_batch mem_sqlite sql s = (Inr (), snd (sq_exec mem_sqlite (cstr sql) s))" for sql s
    by (simp add: exec_batch_def mem_sqlite_def SQLITE_OK_def)
  have current: "current_version mem_sqlite s = (Inr (if md_migrated s then 1 else 0), s)" for s
    by (simp add: current_version_def query_int_def query_row_def mem_sqlite_def SQLITE_OK_def SQLITE_ROW_def NO_ROW_def)
  have "sq_exec mem_sqlite CREATE_VERSIONS s = (0, s)" for s
    by (simp add: mem_sqlite_def statements_differ)
  then show "fst (migrate mem_sqlite [(''1'', SCHEMA)] \<lparr>md_migrated = False, md_rows = []\<rparr>) = Inr ()"
    by (simp add: migrate_def exec current one)
qed

text \<open>
  The queue of writes keeps its bound, over any enqueueing and draining, and refuses a write exactly when it is full.
\<close>

theorem write_queue_bounded:
  "(let (q, s1) = run (write_step db) cmds (WriteQueue_new m, s) in
    length (wq_ops q) \<le> m \<and> (fst (enqueue op q) = Inr ()) = (length (wq_ops q) < m))"
proof -
  have "write_inv m (run (write_step db) cmds (WriteQueue_new m, s))"
    by (rule writes.run_inv) (simp add: write_inv_def WriteQueue_new_def)
  then show ?thesis by (auto simp: write_inv_def enqueue_def Let_def split: prod.split)
qed

text \<open>
  A NUL empties a text. A text with a NUL anywhere is stored as the empty text; deleting a profile whose name has one
  deletes that of the empty name; and a path that has one, or is no text, opens what SQLite opens for the empty path.
\<close>

theorem nul_empties_text:
  "append_transcript db p d (a @ CHR 0x00 # b) t s = append_transcript db p d [] t s
   \<and> delete_profile db (a @ CHR 0x00 # b) s = delete_profile db [] s
   \<and> Storage_open db (Some (a @ CHR 0x00 # b)) = Storage_open db (Some []) \<and> Storage_open db None = Storage_open db (Some [])"
proof -
  have nul: "cstr (a @ CHR 0x00 # b) = cstr []" by (simp add: cstr_def)
  show ?thesis unfolding append_transcript_def delete_profile_def Storage_open_def option.case nul by (intro conjI refl)
qed

text \<open>
  Deletion removes a profile and nothing else. If SQLite behaves as documented and the deletion is reported as done,
  the lines left are those of the other profiles, in their order; and else the table is as it was.
\<close>

theorem deletion_is_scoped:
  assumes "transcript_laws db rows" and "CHR 0x00 \<notin> set p"
  shows "(case delete_profile db p s of
      (Inr n, s1) \<Rightarrow> rows s1 = filter (\<lambda>l. tl_profile l \<noteq> p) (rows s)
    | (Inl e, s1) \<Rightarrow> rows s1 = rows s)"
proof -
  obtain rc sa where prep: "sq_prepare db DELETE_SQL s = (rc, sa)" by fastforce
  have sa: "rows sa = rows s" by (rule law_prepare [OF assms(1) _ prep]) simp
  obtain rc' row sb where del: "sq_step db DELETE_SQL [BindText p] 0 sa = (rc', row, sb)" using prod_cases3 by blast
  have "cstr p = p" using assms(2) by (simp add: cstr_def)
  then show ?thesis
    using law_delete [OF assms(1) del] prep del sa by (simp add: delete_profile_def Let_def)
qed

theorem deletion_is_scoped_witness:
  "(case delete_profile mem_sqlite ''p'' \<lparr>md_migrated = True, md_rows = [NO_ROW]\<rparr> of
      (Inr n, s1) \<Rightarrow> md_rows s1 = filter (\<lambda>l. tl_profile l \<noteq> ''p'') (md_rows \<lparr>md_migrated = True, md_rows = [NO_ROW]\<rparr>)
    | (Inl e, s1) \<Rightarrow> md_rows s1 = md_rows \<lparr>md_migrated = True, md_rows = [NO_ROW]\<rparr>)"
  by (rule deletion_is_scoped [OF mem_transcripts]) simp

end
