(* ===== verification/Renderer.thy ===== *)
theory Renderer
  imports Prelude
begin

text \<open>
  The retro renderer, \<open>wirecore/crates/wire-renderer/src/lib.rs\<close>: modes, the bounded queue of visual emits with
  its dropping and coalescing, frames with a time budget, asset packs, style capsules, exits, provenance, audit.
\<close>

definition RENDERER_SCHEMA_VERSION :: u32 where "RENDERER_SCHEMA_VERSION = 1"

definition MAX_EMIT_QUEUE :: nat where "MAX_EMIT_QUEUE = 128"

definition FRAME_BUDGET_US :: u64 where "FRAME_BUDGET_US = 5000"

definition MAX_PROVENANCE :: nat where "MAX_PROVENANCE = 1024"

definition MAX_RENDER_PACKS :: nat where "MAX_RENDER_PACKS = 256"

definition MAX_RENDER_AUDIT :: nat where "MAX_RENDER_AUDIT = 1024"

datatype RendererDenial =
    EmergencyStop | UnavailableDependency | Timeout | Cancelled | MalformedInput | DuplicateRequest
  | DeniedPolicy | QueueFull | OversizedInput | ProtectedAsset | UnlicensedAsset | NotConfigured

datatype RendererMode = Disabled | Static | LowPower | NoAnimation | Animated | TextOnly

fun RendererMode_label :: "RendererMode \<Rightarrow> string" where
  "RendererMode_label Disabled = ''disabled''"
| "RendererMode_label Static = ''static''"
| "RendererMode_label LowPower = ''low-power''"
| "RendererMode_label NoAnimation = ''no-animation''"
| "RendererMode_label Animated = ''animated''"
| "RendererMode_label TextOnly = ''text-only''"

datatype EmitKind =
    Npc | Mob | Animal | Player | PvpVisible | Item | Spell | Combat | Movement | Door | Weather | Ambience | RoomEvent

fun EmitKind_label :: "EmitKind \<Rightarrow> string" where
  "EmitKind_label Npc = ''npc''"
| "EmitKind_label Mob = ''mob''"
| "EmitKind_label Animal = ''animal''"
| "EmitKind_label Player = ''player''"
| "EmitKind_label PvpVisible = ''pvp-visible''"
| "EmitKind_label Item = ''item''"
| "EmitKind_label Spell = ''spell''"
| "EmitKind_label Combat = ''combat''"
| "EmitKind_label Movement = ''movement''"
| "EmitKind_label Door = ''door''"
| "EmitKind_label Weather = ''weather''"
| "EmitKind_label Ambience = ''ambience''"
| "EmitKind_label RoomEvent = ''room-event''"

record VisualEmit =
  ve_id :: string
  ve_kind :: EmitKind
  ve_label :: string
  ve_confidence :: u8
  ve_inferred :: bool
  ve_critical :: bool
  ve_provenance :: string
  ve_at_ms :: u64

definition VisualEmit_is_valid :: "VisualEmit \<Rightarrow> bool" where
  "VisualEmit_is_valid e \<longleftrightarrow> ve_id e \<noteq> [] \<and> ve_label e \<noteq> [] \<and> ve_confidence e \<le> 100 \<and> ve_provenance e \<noteq> []"

record RendererEmitCandidate =
  cd_candidate_id :: string
  cd_kind :: EmitKind
  cd_label :: string
  cd_confidence :: u8
  cd_inferred :: bool
  cd_evidence :: "string list"
  cd_suggested_by :: string

record StyleCapsule =
  yc_id :: string
  yc_room_ids :: "string list"
  yc_palette :: "string list"
  yc_provenance :: string

record ClickableExit =
  ce_id :: string
  ce_direction :: string
  ce_target_room :: "string option"
  ce_visible :: bool

record ExitProposal =
  ep_source :: string
  ep_direction :: string
  ep_target_room :: "string option"
  ep_approved :: bool

definition ClickableExit_propose :: "ClickableExit \<Rightarrow> RendererDenial + ExitProposal" where
  "ClickableExit_propose x =
     (if \<not> ce_visible x then Inl DeniedPolicy
      else if ce_direction x = [] then Inl MalformedInput
      else Inr \<lparr>ep_source = ''renderer'', ep_direction = ce_direction x, ep_target_room = ce_target_room x, ep_approved = False\<rparr>)"

record AssetManifestEntry =
  am_id :: string
  am_pack :: string
  am_license :: string
  am_provenance :: string
  am_sha256 :: string
  am_signature :: "string option"
  am_user_local :: bool
  am_permissions :: "string list"

definition AssetManifestEntry_validate :: "AssetManifestEntry \<Rightarrow> RendererDenial + unit" where
  "AssetManifestEntry_validate a =
     (if am_id a = [] \<or> am_pack a = [] \<or> am_license a = [] then Inl MalformedInput
      else if length (am_sha256 a) \<noteq> 64 then Inl MalformedInput
      else if am_license a = ''unlicensed'' \<or> am_license a = [] then Inl UnlicensedAsset
      else if prefix ''protected:'' (am_provenance a) then Inl ProtectedAsset
      else if am_signature a = None \<and> \<not> am_user_local a then Inl DeniedPolicy
      else Inr ())"

record RetroRenderer =
  rr_mode :: RendererMode
  rr_queue :: "VisualEmit list"
  rr_drops :: nat
  rr_coalesces :: nat
  rr_frozen :: bool
  rr_emergency_stop :: bool
  rr_combat :: bool
  rr_packs :: "(string \<times> AssetManifestEntry) list"
  rr_capsules :: "(string \<times> StyleCapsule) list"
  rr_exits :: "(string \<times> ClickableExit) list"
  rr_provenance :: "string list"
  rr_audit :: "string list"
  rr_next_emit_id :: nat

definition RetroRenderer_new :: RetroRenderer where
  "RetroRenderer_new = \<lparr>rr_mode = Static, rr_queue = [], rr_drops = 0, rr_coalesces = 0, rr_frozen = False,
     rr_emergency_stop = False, rr_combat = False, rr_packs = [], rr_capsules = [], rr_exits = [], rr_provenance = [],
     rr_audit = [], rr_next_emit_id = 1\<rparr>"

definition audit_push :: "string \<Rightarrow> RetroRenderer \<Rightarrow> RetroRenderer" where
  "audit_push entry r =
     (let a = rr_audit r @ [entry] in r\<lparr>rr_audit := if MAX_RENDER_AUDIT < length a then tl a else a\<rparr>)"

definition set_mode :: "RendererMode \<Rightarrow> RetroRenderer \<Rightarrow> RetroRenderer" where
  "set_mode m r =
     (let r1 = (case m of
          Disabled \<Rightarrow> r\<lparr>rr_queue := [], rr_frozen := False\<rparr>
        | TextOnly \<Rightarrow> r\<lparr>rr_queue := [], rr_frozen := False\<rparr>
        | Static \<Rightarrow> r\<lparr>rr_frozen := True\<rparr>
        | LowPower \<Rightarrow> r\<lparr>rr_frozen := True\<rparr>
        | NoAnimation \<Rightarrow> r\<lparr>rr_frozen := True\<rparr>
        | Animated \<Rightarrow> r\<lparr>rr_frozen := False\<rparr>)
      in audit_push (''mode '' @ RendererMode_label m) (r1\<lparr>rr_mode := m\<rparr>))"

definition emergency_stop :: "RetroRenderer \<Rightarrow> RetroRenderer" where
  "emergency_stop r = audit_push ''emergency stop'' (r\<lparr>rr_emergency_stop := True, rr_queue := []\<rparr>)"

definition set_combat :: "bool \<Rightarrow> RetroRenderer \<Rightarrow> RetroRenderer" where
  "set_combat c r =
     (let r1 = r\<lparr>rr_combat := c\<rparr> in
      if c then
        let q = filter ve_critical (rr_queue r1) in
        audit_push ''combat: noncritical emits dropped''
          (r1\<lparr>rr_queue := q, rr_drops := rr_drops r1 + (length (rr_queue r1) - length q)\<rparr>)
      else r1)"

definition add_asset_pack :: "AssetManifestEntry \<Rightarrow> RetroRenderer \<Rightarrow> (RendererDenial + unit) \<times> RetroRenderer" where
  "add_asset_pack a r =
     (case AssetManifestEntry_validate a of
        Inl d \<Rightarrow> (Inl d, r)
      | Inr _ \<Rightarrow>
          if MAX_RENDER_PACKS \<le> length (rr_packs r) then (Inl QueueFull, r)
          else if map_of (rr_packs r) (am_id a) \<noteq> None then (Inl DuplicateRequest, r)
          else (Inr (), audit_push ''asset pack registered'' (r\<lparr>rr_packs := bt_insert (am_id a) a (rr_packs r)\<rparr>)))"

definition asset_pack :: "string \<Rightarrow> RetroRenderer \<Rightarrow> AssetManifestEntry option" where
  "asset_pack i r = map_of (rr_packs r) i"

definition add_style_capsule :: "StyleCapsule \<Rightarrow> RetroRenderer \<Rightarrow> (RendererDenial + unit) \<times> RetroRenderer" where
  "add_style_capsule c r =
     (if yc_id c = [] \<or> yc_provenance c = [] then (Inl MalformedInput, r)
      else if map_of (rr_capsules r) (yc_id c) \<noteq> None then (Inl DuplicateRequest, r)
      else (Inr (), audit_push ''style capsule registered'' (r\<lparr>rr_capsules := bt_insert (yc_id c) c (rr_capsules r)\<rparr>)))"

definition add_exit :: "ClickableExit \<Rightarrow> RetroRenderer \<Rightarrow> (RendererDenial + unit) \<times> RetroRenderer" where
  "add_exit x r =
     (if ce_direction x = [] then (Inl MalformedInput, r)
      else if map_of (rr_exits r) (ce_id x) \<noteq> None then (Inl DuplicateRequest, r)
      else (Inr (), audit_push ''exit registered'' (r\<lparr>rr_exits := bt_insert (ce_id x) x (rr_exits r)\<rparr>)))"

definition exits :: "RetroRenderer \<Rightarrow> ClickableExit list" where
  "exits r = map snd (rr_exits r)"

text \<open>The identifier an emit gets, and the change of the first emit a new one coalesces with.\<close>

definition emit_id :: "nat \<Rightarrow> string" where
  "emit_id n = ''emit-'' @ show_nat n"

definition is_critical :: "EmitKind \<Rightarrow> bool" where
  "is_critical k \<longleftrightarrow> k = Combat \<or> k = PvpVisible"

fun coalesce_emit :: "VisualEmit \<Rightarrow> VisualEmit list \<Rightarrow> VisualEmit list option" where
  "coalesce_emit emit [] = None"
| "coalesce_emit emit (e # q) =
     (if ve_kind e = ve_kind emit \<and> \<not> ve_critical e
      then Some (e\<lparr>ve_label := ve_label emit, ve_at_ms := ve_at_ms emit\<rparr> # q)
      else map_option ((#) e) (coalesce_emit emit q))"

definition apply_candidate ::
    "RendererEmitCandidate \<Rightarrow> u64 \<Rightarrow> RetroRenderer \<Rightarrow> (RendererDenial + string) \<times> RetroRenderer" where
  "apply_candidate c at_ms r =
     (if rr_emergency_stop r then (Inl EmergencyStop, r)
      else if rr_mode r = Disabled \<or> rr_mode r = TextOnly then (Inl DeniedPolicy, r)
      else if cd_candidate_id c = [] \<or> cd_label c = [] then (Inl MalformedInput, r)
      else if 100 < cd_confidence c then (Inl MalformedInput, r)
      else
        let i = emit_id (rr_next_emit_id r);
            r1 = r\<lparr>rr_next_emit_id := rr_next_emit_id r + 1\<rparr>;
            emit = \<lparr>ve_id = i, ve_kind = cd_kind c, ve_label = cd_label c, ve_confidence = cd_confidence c,
              ve_inferred = cd_inferred c, ve_critical = is_critical (cd_kind c), ve_provenance = ''candidate'', ve_at_ms = at_ms\<rparr> in
        if MAX_EMIT_QUEUE \<le> length (rr_queue r1) then
          if ve_critical emit then (Inl QueueFull, r1)
          else (case coalesce_emit emit (rr_queue r1) of
              Some q \<Rightarrow> (Inr i, audit_push (''coalesce emit '' @ i) (r1\<lparr>rr_queue := q, rr_coalesces := rr_coalesces r1 + 1\<rparr>))
            | None \<Rightarrow> (Inl QueueFull, audit_push (''drop emit '' @ i) (r1\<lparr>rr_drops := rr_drops r1 + 1\<rparr>)))
        else if rr_combat r1 \<and> \<not> ve_critical emit
        then (Inl DeniedPolicy, audit_push (''combat drop emit '' @ i) (r1\<lparr>rr_drops := rr_drops r1 + 1\<rparr>))
        else (Inr i, audit_push (''enqueue emit '' @ i) (r1\<lparr>rr_queue := rr_queue r1 @ [emit]\<rparr>)))"

fun render_loop :: "u64 \<Rightarrow> VisualEmit list \<Rightarrow> u64 \<Rightarrow> nat \<Rightarrow> nat \<times> VisualEmit list" where
  "render_loop budget_us q spent rendered =
     (if spent + 100 \<le> budget_us then
        (case q of
           [] \<Rightarrow> (rendered, [])
         | emit # rest \<Rightarrow> render_loop budget_us rest (spent + 100) (rendered + 1))
      else (rendered, q))"

definition render_frame :: "u64 \<Rightarrow> RetroRenderer \<Rightarrow> nat \<times> RetroRenderer" where
  "render_frame budget_us r =
     (if rr_frozen r \<or> rr_emergency_stop r then (0, r)
      else
        let (rendered, q) = render_loop budget_us (rr_queue r) 0 0; r1 = r\<lparr>rr_queue := q\<rparr> in
        (rendered, if q \<noteq> [] then r1\<lparr>rr_drops := rr_drops r1 + length q, rr_queue := []\<rparr> else r1))"

definition track_provenance :: "string \<Rightarrow> RetroRenderer \<Rightarrow> RetroRenderer" where
  "track_provenance origin r =
     (let p = rr_provenance r @ [origin] in
      audit_push (''provenance '' @ origin) (r\<lparr>rr_provenance := if MAX_PROVENANCE < length p then tl p else p\<rparr>))"

definition degrade_to_text :: "RetroRenderer \<Rightarrow> RetroRenderer" where
  "degrade_to_text r = audit_push ''renderer crash: text-only fallback'' (r\<lparr>rr_mode := TextOnly, rr_queue := []\<rparr>)"

record RendererSnapshot =
  rv_mode :: string
  rv_queue_len :: nat
  rv_drops :: nat
  rv_coalesces :: nat
  rv_frozen :: bool
  rv_combat :: bool
  rv_pack_count :: nat
  rv_capsule_count :: nat
  rv_exit_count :: nat

definition RetroRenderer_snapshot :: "RetroRenderer \<Rightarrow> RendererSnapshot" where
  "RetroRenderer_snapshot r = \<lparr>rv_mode = RendererMode_label (rr_mode r), rv_queue_len = length (rr_queue r),
     rv_drops = rr_drops r, rv_coalesces = rr_coalesces r, rv_frozen = rr_frozen r, rv_combat = rr_combat r,
     rv_pack_count = length (rr_packs r), rv_capsule_count = length (rr_capsules r), rv_exit_count = length (rr_exits r)\<rparr>"

section \<open>The renderer as a machine\<close>

datatype render_op =
    SetMode RendererMode
  | Stop
  | SetCombat bool
  | AddPack AssetManifestEntry
  | AddCapsule StyleCapsule
  | AddExit ClickableExit
  | Apply RendererEmitCandidate u64
  | Frame u64
  | Track string
  | Degrade

fun render_step :: "render_op \<Rightarrow> RetroRenderer \<Rightarrow> RetroRenderer" where
  "render_step (SetMode m) r = set_mode m r"
| "render_step Stop r = emergency_stop r"
| "render_step (SetCombat c) r = set_combat c r"
| "render_step (AddPack a) r = snd (add_asset_pack a r)"
| "render_step (AddCapsule c) r = snd (add_style_capsule c r)"
| "render_step (AddExit x) r = snd (add_exit x r)"
| "render_step (Apply c t) r = snd (apply_candidate c t r)"
| "render_step (Frame b) r = snd (render_frame b r)"
| "render_step (Track p) r = track_provenance p r"
| "render_step Degrade r = degrade_to_text r"

lemmas render_defs = set_mode_def emergency_stop_def set_combat_def add_asset_pack_def add_style_capsule_def add_exit_def
  track_provenance_def degrade_to_text_def Let_def

lemma render_audit_same [simp]:
  "rr_mode (audit_push a r) = rr_mode r" "rr_queue (audit_push a r) = rr_queue r" "rr_drops (audit_push a r) = rr_drops r"
  "rr_coalesces (audit_push a r) = rr_coalesces r" "rr_frozen (audit_push a r) = rr_frozen r"
  "rr_emergency_stop (audit_push a r) = rr_emergency_stop r" "rr_combat (audit_push a r) = rr_combat r"
  "rr_packs (audit_push a r) = rr_packs r" "rr_capsules (audit_push a r) = rr_capsules r" "rr_exits (audit_push a r) = rr_exits r"
  "rr_provenance (audit_push a r) = rr_provenance r" "rr_next_emit_id (audit_push a r) = rr_next_emit_id r"
  by (simp_all add: audit_push_def Let_def)

lemma render_audit_length [simp]:
  "length (rr_audit r) \<le> MAX_RENDER_AUDIT \<Longrightarrow> length (rr_audit (audit_push a r)) \<le> MAX_RENDER_AUDIT"
  by (auto simp: audit_push_def MAX_RENDER_AUDIT_def Let_def)

lemma emit_id_inject: "emit_id m = emit_id n \<longleftrightarrow> m = n"
  by (simp add: emit_id_def show_nat_inject)

text \<open>Coalescing changes the label and the time of one emit of the queue, and fails when none is of the kind.\<close>

lemma coalesce_emit_keeps:
  "coalesce_emit e q = Some q' \<Longrightarrow>
    length q' = length q \<and> map ve_id q' = map ve_id q \<and> map ve_critical q' = map ve_critical q"
  by (induction q arbitrary: q') (auto split: if_splits)

definition emit_ok :: "VisualEmit \<Rightarrow> bool" where
  "emit_ok e \<longleftrightarrow> VisualEmit_is_valid e \<and> ve_provenance e = ''candidate'' \<and> ve_critical e = is_critical (ve_kind e)"

lemma coalesce_emit_ok:
  "coalesce_emit e q = Some q' \<Longrightarrow> ve_label e \<noteq> [] \<Longrightarrow> list_all emit_ok q \<Longrightarrow> list_all emit_ok q'"
  by (induction q arbitrary: q') (auto simp: emit_ok_def VisualEmit_is_valid_def split: if_splits)

lemma coalesce_emit_None: "coalesce_emit e q = None \<longleftrightarrow> (\<forall>x \<in> set q. ve_kind x = ve_kind e \<longrightarrow> ve_critical x)"
  by (induction q) auto

text \<open>A frame renders the oldest emits, as many as fit its budget.\<close>

lemma render_loop_prefix:
  "unat spent + 100 * length q + 100 < 2 ^ 64 \<Longrightarrow>
    render_loop budget q spent n
      = (n + min (length q) ((unat budget - unat spent) div 100), drop ((unat budget - unat spent) div 100) q)"
proof (induction q arbitrary: spent n)
  case Nil
  then show ?case by simp
next
  case (Cons e q)
  have more: "unat (spent + 100) = unat spent + 100"
    using Cons.prems by (subst unat_add_lem [THEN iffD1]) (simp_all)
  show ?case
  proof (cases "spent + 100 \<le> budget")
    case True
    then have "unat spent + 100 \<le> unat budget" using more by (simp add: word_le_nat_alt)
    then have "(unat budget - unat spent) div 100 = Suc ((unat budget - unat (spent + 100)) div 100)"
      unfolding more by (metis Nat.le_diff_conv2 add.commute add_leD1 diff_diff_left le_div_geq zero_less_numeral)
    then show ?thesis using True Cons.IH [of "spent + 100" "n + 1"] Cons.prems more by simp
  next
    case False
    then have "(unat budget - unat spent) div 100 = 0" using more by (simp add: word_le_nat_alt)
    then show ?thesis using False by simp
  qed
qed

text \<open>
  The invariant: emits have identifiers of their own below the next one and are valid; in combat all are critical;
  without a visual mode, or after the stop, there are none; packs are valid and few.
\<close>

definition emits_inv :: "RetroRenderer \<Rightarrow> bool" where
  "emits_inv r \<longleftrightarrow>
     length (rr_queue r) \<le> MAX_EMIT_QUEUE \<and> list_all emit_ok (rr_queue r)
     \<and> distinct (map ve_id (rr_queue r)) \<and> set (map ve_id (rr_queue r)) \<subseteq> emit_id ` {..<rr_next_emit_id r}
     \<and> (rr_combat r \<longrightarrow> list_all ve_critical (rr_queue r))
     \<and> (rr_emergency_stop r \<or> rr_mode r = Disabled \<or> rr_mode r = TextOnly \<longrightarrow> rr_queue r = [])"

definition packs_inv :: "RetroRenderer \<Rightarrow> bool" where
  "packs_inv r \<longleftrightarrow>
     bt_sorted (rr_packs r) \<and> length (rr_packs r) \<le> MAX_RENDER_PACKS
     \<and> list_all (\<lambda>(k, a). k = am_id a \<and> AssetManifestEntry_validate a = Inr ()) (rr_packs r)
     \<and> length (rr_provenance r) \<le> MAX_PROVENANCE \<and> length (rr_audit r) \<le> MAX_RENDER_AUDIT"

definition render_inv :: "RetroRenderer \<Rightarrow> bool" where
  "render_inv r \<longleftrightarrow> emits_inv r \<and> packs_inv r"

lemma ids_grow: "X \<subseteq> emit_id ` {..<n} \<Longrightarrow> X \<subseteq> emit_id ` {..<Suc n}"
  by (meson dual_order.trans image_mono lessThan_subset_iff Suc_n_not_le_n nat_le_linear)

lemma fresh_id: "emits_inv r \<Longrightarrow> emit_id (rr_next_emit_id r) \<notin> set (map ve_id (rr_queue r))"
  by (auto simp: emits_inv_def emit_id_inject)

lemma list_all_as_set: "list_all p q \<longleftrightarrow> False \<notin> set (map p q)"
  by (auto simp: list_all_iff)

text \<open>A candidate that passes the checks, and what it becomes.\<close>

definition open_gate :: "RendererEmitCandidate \<Rightarrow> RetroRenderer \<Rightarrow> bool" where
  "open_gate c r \<longleftrightarrow> \<not> rr_emergency_stop r \<and> rr_mode r \<noteq> Disabled \<and> rr_mode r \<noteq> TextOnly \<and> cd_candidate_id c \<noteq> []
     \<and> cd_label c \<noteq> [] \<and> cd_confidence c \<le> 100"

definition emit_of :: "RendererEmitCandidate \<Rightarrow> u64 \<Rightarrow> RetroRenderer \<Rightarrow> VisualEmit" where
  "emit_of c t r = \<lparr>ve_id = emit_id (rr_next_emit_id r), ve_kind = cd_kind c, ve_label = cd_label c,
     ve_confidence = cd_confidence c, ve_inferred = cd_inferred c, ve_critical = is_critical (cd_kind c),
     ve_provenance = ''candidate'', ve_at_ms = t\<rparr>"

lemma apply_closed: "\<not> open_gate c r \<Longrightarrow> snd (apply_candidate c t r) = r \<and> isl (fst (apply_candidate c t r))"
  by (auto simp: open_gate_def apply_candidate_def)

lemma apply_open:
  "open_gate c r \<Longrightarrow> rr_next_emit_id (snd (apply_candidate c t r)) = Suc (rr_next_emit_id r)
    \<and> rr_mode (snd (apply_candidate c t r)) = rr_mode r \<and> rr_combat (snd (apply_candidate c t r)) = rr_combat r
    \<and> rr_emergency_stop (snd (apply_candidate c t r)) = rr_emergency_stop r"
  by (auto simp: open_gate_def apply_candidate_def Let_def split: option.split)

lemma apply_queue:
  assumes "open_gate c r"
  shows "rr_queue (snd (apply_candidate c t r)) =
    (if MAX_EMIT_QUEUE \<le> length (rr_queue r) then
       if is_critical (cd_kind c) then rr_queue r
       else (case coalesce_emit (emit_of c t r) (rr_queue r) of None \<Rightarrow> rr_queue r | Some q \<Rightarrow> q)
     else if rr_combat r \<and> \<not> is_critical (cd_kind c) then rr_queue r
     else rr_queue r @ [emit_of c t r])"
  using assms by (auto simp: open_gate_def apply_candidate_def emit_of_def Let_def split: option.split)

lemma emit_of_ok: "open_gate c r \<Longrightarrow> emit_ok (emit_of c t r)"
  by (simp add: emit_ok_def emit_of_def open_gate_def VisualEmit_is_valid_def emit_id_def)

lemma apply_emits_inv:
  assumes inv: "emits_inv r"
  shows "emits_inv (snd (apply_candidate c t r))"
proof (cases "open_gate c r")
  case False
  then show ?thesis using inv by (simp add: apply_closed)
next
  case True
  let ?s = "snd (apply_candidate c t r)"
  note kept = apply_open [OF True, of t]
  have "rr_queue ?s = rr_queue r \<or> coalesce_emit (emit_of c t r) (rr_queue r) = Some (rr_queue ?s)
      \<or> rr_queue ?s = rr_queue r @ [emit_of c t r] \<and> length (rr_queue r) < MAX_EMIT_QUEUE
          \<and> (rr_combat r \<longrightarrow> ve_critical (emit_of c t r))"
    unfolding apply_queue [OF True] by (auto simp: emit_of_def split: option.split)
  then show ?thesis
  proof (elim disjE conjE)
    assume "rr_queue ?s = rr_queue r"
    then show ?thesis using inv kept True by (auto simp: emits_inv_def open_gate_def lessThan_Suc)
  next
    assume co: "coalesce_emit (emit_of c t r) (rr_queue r) = Some (rr_queue ?s)"
    have "list_all emit_ok (rr_queue ?s)"
      using coalesce_emit_ok [OF co] inv True by (simp add: emits_inv_def open_gate_def emit_of_def)
    moreover have "list_all ve_critical (rr_queue ?s) = list_all ve_critical (rr_queue r)"
      using coalesce_emit_keeps [OF co] by (simp add: list_all_as_set)
    ultimately show ?thesis
      using coalesce_emit_keeps [OF co] inv kept True ids_grow [of "set (map ve_id (rr_queue r))"]
      by (simp add: emits_inv_def open_gate_def)
  next
    assume "rr_queue ?s = rr_queue r @ [emit_of c t r]" "length (rr_queue r) < MAX_EMIT_QUEUE"
      "rr_combat r \<longrightarrow> ve_critical (emit_of c t r)"
    then show ?thesis
      using inv kept True fresh_id [OF inv] emit_of_ok [OF True, of t] ids_grow [of "set (map ve_id (rr_queue r))"]
      by (auto simp: emits_inv_def open_gate_def emit_of_def)
  qed
qed

lemma frame_queue:
  "rr_queue (snd (render_frame b r)) = (if rr_frozen r \<or> rr_emergency_stop r then rr_queue r else [])"
  by (auto simp: render_frame_def Let_def split: prod.split)

lemma frame_same:
  "rr_mode (snd (render_frame b r)) = rr_mode r" "rr_combat (snd (render_frame b r)) = rr_combat r"
  "rr_emergency_stop (snd (render_frame b r)) = rr_emergency_stop r" "rr_packs (snd (render_frame b r)) = rr_packs r"
  "rr_next_emit_id (snd (render_frame b r)) = rr_next_emit_id r" "rr_coalesces (snd (render_frame b r)) = rr_coalesces r"
  "rr_provenance (snd (render_frame b r)) = rr_provenance r" "rr_audit (snd (render_frame b r)) = rr_audit r"
  by (simp_all add: render_frame_def Let_def split_beta)

lemma step_emits_inv: "emits_inv r \<Longrightarrow> emits_inv (render_step x r)"
proof (cases x)
  case (SetCombat c)
  assume "emits_inv r"
  then show ?thesis
    using SetCombat by (auto simp: emits_inv_def set_combat_def Let_def list_all_iff distinct_map_filter
        intro: order_trans [OF length_filter_le])
next
  case (Apply c t)
  assume "emits_inv r"
  then show ?thesis using Apply by (simp add: apply_emits_inv)
next
  case (Frame b)
  assume "emits_inv r"
  then show ?thesis using Frame by (simp add: emits_inv_def frame_queue frame_same)
qed (auto simp: emits_inv_def render_defs split: RendererMode.split sum.split)

lemma step_packs_inv: "packs_inv r \<Longrightarrow> packs_inv (render_step x r)"
  by (cases x) (auto simp: packs_inv_def render_defs frame_same apply_candidate_def MAX_PROVENANCE_def
      bt_sorted_insert length_bt_insert list_all_bt_insert split: RendererMode.split sum.split option.split)

interpretation renderer: machine_invariant render_step render_inv
  by unfold_locales (simp add: render_inv_def step_emits_inv step_packs_inv)

lemma render_new: "render_inv RetroRenderer_new"
  by (simp add: render_inv_def emits_inv_def packs_inv_def RetroRenderer_new_def)

section \<open>Where the emits go\<close>

text \<open>
  An emit that was given an identifier is rendered, dropped or coalesced, which the counters record, or lost
  without a count: a change of mode, the stop and the fallback clear the queue, and a critical emit that finds
  the queue full is refused. \<open>tally\<close> adds a number of every step of a run.
\<close>

definition shown :: "render_op \<Rightarrow> RetroRenderer \<Rightarrow> nat" where
  "shown x r = (case x of Frame b \<Rightarrow> fst (render_frame b r) | _ \<Rightarrow> 0)"

definition uncounted :: "render_op \<Rightarrow> RetroRenderer \<Rightarrow> nat" where
  "uncounted x r = (case x of
       SetMode m \<Rightarrow> if m = Disabled \<or> m = TextOnly then length (rr_queue r) else 0
     | Stop \<Rightarrow> length (rr_queue r)
     | Degrade \<Rightarrow> length (rr_queue r)
     | Apply c t \<Rightarrow> if fst (apply_candidate c t r) = Inl QueueFull \<and> is_critical (cd_kind c) then 1 else 0
     | _ \<Rightarrow> 0)"

fun tally :: "(render_op \<Rightarrow> RetroRenderer \<Rightarrow> nat) \<Rightarrow> render_op list \<Rightarrow> RetroRenderer \<Rightarrow> nat" where
  "tally f [] r = 0"
| "tally f (x # xs) r = f x r + tally f xs (render_step x r)"

definition counted :: "RetroRenderer \<Rightarrow> nat" where
  "counted r = length (rr_queue r) + rr_drops r + rr_coalesces r"

lemma frame_counts:
  assumes "emits_inv r"
  shows "fst (render_frame b r)
      = (if rr_frozen r \<or> rr_emergency_stop r then 0 else min (length (rr_queue r)) (unat b div 100))"
    and "rr_drops (snd (render_frame b r)) + fst (render_frame b r) + length (rr_queue (snd (render_frame b r)))
      = rr_drops r + length (rr_queue r)"
proof -
  have "unat (0 :: u64) + 100 * length (rr_queue r) + 100 < 2 ^ 64"
    using assms by (simp add: emits_inv_def MAX_EMIT_QUEUE_def)
  note prefix = render_loop_prefix [OF this, of b 0]
  show "fst (render_frame b r)
      = (if rr_frozen r \<or> rr_emergency_stop r then 0 else min (length (rr_queue r)) (unat b div 100))"
    by (simp add: render_frame_def prefix Let_def del: render_loop.simps)
  show "rr_drops (snd (render_frame b r)) + fst (render_frame b r) + length (rr_queue (snd (render_frame b r)))
      = rr_drops r + length (rr_queue r)"
    by (auto simp: render_frame_def prefix Let_def simp del: render_loop.simps)
qed

lemma apply_counts:
  "counted (snd (apply_candidate c t r)) + uncounted (Apply c t) r + rr_next_emit_id r
    = counted r + rr_next_emit_id (snd (apply_candidate c t r))"
proof (cases "open_gate c r")
  case False
  then have "fst (apply_candidate c t r) \<noteq> Inl QueueFull" by (auto simp: open_gate_def apply_candidate_def)
  then show ?thesis using False by (simp add: apply_closed uncounted_def)
next
  case True
  then show ?thesis
    using coalesce_emit_keeps
    by (auto simp: counted_def uncounted_def apply_candidate_def open_gate_def Let_def split: option.split)
qed

lemma step_counts:
  assumes "emits_inv r"
  shows "counted (render_step x r) + shown x r + uncounted x r + rr_next_emit_id r = counted r + rr_next_emit_id (render_step x r)"
proof (cases x)
  case (Apply c t)
  then show ?thesis using apply_counts [of c t r] by (simp add: shown_def)
next
  case (Frame b)
  then show ?thesis using frame_counts(2) [OF assms, of b] by (simp add: shown_def uncounted_def counted_def frame_same)
next
  case (SetCombat c)
  then show ?thesis
    using length_filter_le [of ve_critical "rr_queue r"]
    by (auto simp: shown_def uncounted_def counted_def set_combat_def Let_def simp del: length_filter_le)
qed (auto simp: shown_def uncounted_def counted_def render_defs split: RendererMode.split sum.split)

lemma run_counts:
  "emits_inv r \<Longrightarrow>
    counted (run render_step xs r) + tally shown xs r + tally uncounted xs r + rr_next_emit_id r
      = counted r + rr_next_emit_id (run render_step xs r)"
proof (induction xs arbitrary: r)
  case (Cons x xs)
  then show ?case using step_counts [of r x] Cons.IH [OF step_emits_inv [OF Cons.prems], of x] by simp
qed simp

lemma render_stopped_step: "rr_emergency_stop r \<Longrightarrow> rr_emergency_stop (render_step x r)"
  by (cases x) (auto simp: render_defs frame_same apply_candidate_def split: RendererMode.split sum.split)

lemma render_stopped_run: "rr_emergency_stop r \<Longrightarrow> rr_emergency_stop (run render_step xs r)"
  by (induction xs arbitrary: r) (auto simp: render_stopped_step)

section \<open>Properties\<close>

text \<open>
  C28: No emit disappears without being accounted for. After any operations, the emits that were given an identifier are
  those in the queue, those rendered by the frames, those the counters of drops and coalesces record, and those lost
  without a count: cleared with the queue, or critical and refused by a full queue.
\<close>

theorem emits_accounted:
  "(let r = run render_step ops RetroRenderer_new in
    rr_next_emit_id r = Suc (length (rr_queue r) + rr_drops r + rr_coalesces r
      + tally shown ops RetroRenderer_new + tally uncounted ops RetroRenderer_new))"
  using run_counts [of RetroRenderer_new ops] render_new
  by (simp add: render_inv_def counted_def Let_def, simp add: RetroRenderer_new_def)

text \<open>
  A frame keeps its budget. After any operations a frame renders nothing when the renderer is frozen or stopped, and
  else one emit per hundred microseconds of its budget as long as there are any; what does not fit is dropped and
  counted, and the queue is empty.
\<close>

theorem frame_keeps_budget:
  "(let r = run render_step ops RetroRenderer_new; (n, r') = render_frame budget r in
    if rr_frozen r \<or> rr_emergency_stop r then n = 0 \<and> r' = r
    else n = min (length (rr_queue r)) (unat budget div 100) \<and> 100 * n \<le> unat budget
      \<and> rr_queue r' = [] \<and> rr_drops r' = rr_drops r + (length (rr_queue r) - n))"
proof -
  let ?r = "run render_step ops RetroRenderer_new"
  have "emits_inv ?r" using renderer.run_inv [OF render_new] by (simp add: render_inv_def)
  note counts = frame_counts [OF this, of budget]
  have "100 * min (length (rr_queue ?r)) (unat budget div 100) \<le> unat budget"
    by (metis min.cobounded2 mult.commute div_times_less_eq_dividend mult_le_mono2 order_trans)
  then show ?thesis
    using counts by (auto simp: Let_def split_beta frame_queue) (auto simp: render_frame_def)
qed

text \<open>
  The renderer stays within its bounds. After any operations the queue has at most 128 emits, all valid, with
  identifiers of their own; in combat all of them are critical; without a visual mode or after the stop there are
  none; and every pack was validated, at most 256 of them.
\<close>

theorem renderer_bounded:
  "(let r = run render_step ops RetroRenderer_new in
    length (rr_queue r) \<le> 128 \<and> list_all VisualEmit_is_valid (rr_queue r) \<and> distinct (map ve_id (rr_queue r))
    \<and> (if rr_combat r then list_all ve_critical (rr_queue r) else True)
    \<and> (if rr_emergency_stop r \<or> rr_mode r \<in> {Disabled, TextOnly} then rr_queue r = [] else True)
    \<and> list_all (\<lambda>a. AssetManifestEntry_validate a = Inr ()) (map snd (rr_packs r)) \<and> length (rr_packs r) \<le> 256)"
proof -
  have "render_inv (run render_step ops RetroRenderer_new)" by (rule renderer.run_inv [OF render_new])
  then show ?thesis
    unfolding render_inv_def emits_inv_def packs_inv_def MAX_EMIT_QUEUE_def MAX_RENDER_PACKS_def Let_def
    by (auto simp: list_all_iff emit_ok_def)
qed

text \<open>
  The stop is final. After it, whatever follows, every candidate is refused and no frame renders anything.
\<close>

theorem renderer_stop_final:
  "(let r = run render_step ops (emergency_stop r0) in
    apply_candidate c t r = (Inl EmergencyStop, r) \<and> render_frame b r = (0, r))"
proof -
  have "rr_emergency_stop (run render_step ops (emergency_stop r0))"
    by (rule render_stopped_run) (simp add: emergency_stop_def)
  then show ?thesis by (simp add: apply_candidate_def render_frame_def)
qed

text \<open>
  A full queue refuses what matters most: with 128 emits in the queue, also when none of them is critical, a critical
  candidate is refused as queue-full, and neither a drop nor an audit entry records it.
\<close>

theorem critical_emit_refused:
  "(if open_gate c r \<and> length (rr_queue r) = 128 \<and> is_critical (cd_kind c)
    then apply_candidate c t r = (Inl QueueFull, r\<lparr>rr_next_emit_id := rr_next_emit_id r + 1\<rparr>) else True)"
  by (simp add: open_gate_def apply_candidate_def MAX_EMIT_QUEUE_def)

text \<open>
  Coalescing answers with an identifier that no emit has: the emit it changed keeps the old one.
\<close>

theorem coalesced_id_unknown:
  "(let r = run render_step ops RetroRenderer_new; (answer, r') = apply_candidate c t r in
    if length (rr_queue r) = 128 then (case answer of Inr i \<Rightarrow> i \<notin> set (map ve_id (rr_queue r')) | Inl d \<Rightarrow> True) else True)"
proof -
  let ?r = "run render_step ops RetroRenderer_new"
  have inv: "emits_inv ?r" using renderer.run_inv [OF render_new] by (simp add: render_inv_def)
  have ids: "set (map ve_id q) = set (map ve_id (rr_queue ?r))"
    if "coalesce_emit e (rr_queue ?r) = Some q" for e q
    using coalesce_emit_keeps [OF that] by metis
  show ?thesis
    using fresh_id [OF inv] ids
    by (auto simp: Let_def apply_candidate_def MAX_EMIT_QUEUE_def split: option.split simp del: set_map)
qed

text \<open>
  A new renderer is static and not frozen: it renders its first emit, which it does not do when it is set to static.
\<close>

theorem static_start_renders:
  "(let r = snd (apply_candidate c t RetroRenderer_new); s = snd (apply_candidate c t (set_mode Static RetroRenderer_new)) in
    rr_mode r = Static \<and> rr_mode s = Static
    \<and> (if open_gate c RetroRenderer_new then fst (render_frame 100 r) = 1 \<and> fst (render_frame 100 s) = 0 else True))"
  by (simp add: apply_candidate_def open_gate_def RetroRenderer_new_def set_mode_def audit_push_def render_frame_def
      MAX_EMIT_QUEUE_def Let_def not_le)

end
