(* ===== verification/Protocol.thy ===== *)
theory Protocol
  imports Prelude
begin

text \<open>
  Telnet negotiation, \<open>src/wiremudder/protocol/protocol_boundary.cpp\<close> and its header: the parser of option
  negotiation in a byte stream and the detection of capabilities from its events. Bytes are words of 8 bits, indices
  and the bound on subnegotiations are naturals.
\<close>

definition IAC :: u8 where "IAC = 0xFF"
definition DONT :: u8 where "DONT = 0xFE"
definition DO :: u8 where "DO = 0xFD"
definition WONT :: u8 where "WONT = 0xFC"
definition WILL :: u8 where "WILL = 0xFB"
definition SB :: u8 where "SB = 0xFA"
definition SE :: u8 where "SE = 0xF0"

lemmas telnet_cmds = IAC_def DONT_def DO_def WONT_def WILL_def SB_def SE_def

definition MSSP :: u8 where "MSSP = 70"
definition MXP :: u8 where "MXP = 91"
definition MSP :: u8 where "MSP = 90"
definition GMCP :: u8 where "GMCP = 201"
definition MSDP :: u8 where "MSDP = 69"
definition ATCP :: u8 where "ATCP = 200"

lemmas telnet_opts = MSSP_def MXP_def MSP_def GMCP_def MSDP_def ATCP_def

record NegotiationEvent =
  ne_verb :: u8
  ne_option :: u8
  ne_subdata :: "u8 list"
  ne_position :: nat

record Capability =
  ca_protocol :: string
  ca_negotiated :: bool
  ca_status :: string
  ca_note :: string

definition optionName :: "u8 \<Rightarrow> string" where
  "optionName n =
     (if n = 0 then ''BINARY'' else if n = 1 then ''ECHO'' else if n = 3 then ''SGA'' else if n = 31 then ''NAWS''
      else if n = 24 then ''TERMINAL-TYPE'' else if n = 42 then ''CHARSET'' else if n = MSSP then ''MSSP''
      else if n = MXP then ''MXP'' else if n = MSP then ''MSP'' else if n = GMCP then ''GMCP'' else if n = MSDP then ''MSDP''
      else if n = ATCP then ''ATCP'' else ''OPT-'' @ show_nat (unat n))"

text \<open>
  The loop over the payload of a subnegotiation, from index \<open>j\<close>: the payload, and the index after it, which is
  \<open>None\<close> when the data ended first.
\<close>

function sub_loop :: "u8 list \<Rightarrow> nat \<Rightarrow> nat \<Rightarrow> u8 list \<Rightarrow> u8 list \<times> nat option" where
  "sub_loop data maxSb j sub =
     (if j + 1 < length data then
        if data ! j = IAC \<and> data ! (j + 1) = SE then (sub, Some (j + 2))
        else if data ! j = IAC \<and> data ! (j + 1) = IAC then sub_loop data maxSb (j + 2) (sub @ [IAC])
        else
          let sub1 = sub @ [data ! j] in
          if maxSb < length sub1 then (take maxSb sub1, Some (j + 1)) else sub_loop data maxSb (j + 1) sub1
      else (sub, None))"
  by pat_completeness auto
termination by (relation "measure (\<lambda>(data, m, j, sub). length data - j)") auto

declare sub_loop.simps [simp del]

lemma sub_loop_forward: "sub_loop data m j sub = (s, Some k) \<Longrightarrow> j < k \<and> k \<le> length data"
proof (induction data m j sub rule: sub_loop.induct)
  case (1 data m j sub)
  then show ?case
    by (subst (asm) (3) sub_loop.simps) (auto simp: Let_def split: if_splits)
qed

function parse_loop :: "u8 list \<Rightarrow> nat \<Rightarrow> nat \<Rightarrow> NegotiationEvent list" where
  "parse_loop data maxSb i =
     (if i + 2 < length data then
        if data ! i \<noteq> IAC then parse_loop data maxSb (i + 1)
        else
          let verb = data ! (i + 1) in
          if verb = IAC then parse_loop data maxSb (i + 1)
          else if verb = SB then
            let (sub, next_i) = sub_loop data maxSb (i + 3) [] in
            \<lparr>ne_verb = SB, ne_option = data ! (i + 2), ne_subdata = sub, ne_position = i\<rparr>
              # parse_loop data maxSb (case next_i of None \<Rightarrow> length data | Some k \<Rightarrow> k)
          else if verb = DO \<or> verb = DONT \<or> verb = WILL \<or> verb = WONT then
            \<lparr>ne_verb = verb, ne_option = data ! (i + 2), ne_subdata = [], ne_position = i\<rparr> # parse_loop data maxSb (i + 3)
          else parse_loop data maxSb (i + 1)
      else [])"
  by pat_completeness auto
termination
  by (relation "measure (\<lambda>(data, m, i). length data - i)")
    (auto split: option.split dest!: sub_loop_forward [OF sym])

declare parse_loop.simps [simp del]

definition parseIac :: "u8 list \<Rightarrow> nat \<Rightarrow> NegotiationEvent list" where
  "parseIac data maxSb = parse_loop data maxSb 0"

text \<open>The options in the order in which the hash table gives its keys, which is not specified, are an argument.\<close>

definition protocolByOption :: "(u8 \<times> string) list" where
  "protocolByOption = [(GMCP, ''GMCP''), (MSDP, ''MSDP''), (MXP, ''MXP''), (MSP, ''MSP''), (ATCP, ''ATCP''), (MSSP, ''MSSP'')]"

definition lastVerb :: "u8 \<Rightarrow> NegotiationEvent list \<Rightarrow> u8" where
  "lastVerb option events = foldl (\<lambda>v e. if ne_option e \<noteq> option then v else ne_verb e) 0 events"

definition capability :: "u8 \<Rightarrow> NegotiationEvent list \<Rightarrow> Capability" where
  "capability option events =
     (let v = lastVerb option events;
          negotiated = (v = WILL \<or> v = DO);
          declined = (v = WONT \<or> v = DONT);
          protocol = (case map_of protocolByOption option of None \<Rightarrow> [] | Some p \<Rightarrow> p) in
      if negotiated then \<lparr>ca_protocol = protocol, ca_negotiated = True, ca_status = ''negotiated'',
        ca_note = ''observed WILL/DO for option '' @ optionName option\<rparr>
      else if declined then \<lparr>ca_protocol = protocol, ca_negotiated = False, ca_status = ''declined'',
        ca_note = ''observed WONT/DONT for option '' @ optionName option\<rparr>
      else \<lparr>ca_protocol = protocol, ca_negotiated = False, ca_status = ''absent'',
        ca_note = ''no negotiation observed for option '' @ optionName option\<rparr>)"

definition detectCapabilities :: "u8 list \<Rightarrow> NegotiationEvent list \<Rightarrow> Capability list" where
  "detectCapabilities options events =
     map (\<lambda>option. capability option events) options
     @ map (\<lambda>p. \<lparr>ca_protocol = p, ca_negotiated = False, ca_status = ''research'',
         ca_note = ''no inherited option byte; research decision documented''\<rparr>) [''MCP'', ''PUEBLO'', ''SIMUTRONICS-GSL'']"

section \<open>Streams as they are sent\<close>

text \<open>
  What a peer sends: bytes of text, the text byte 255, which is a doubled \<open>IAC\<close>, commands without an option,
  negotiations, and subnegotiations, whose payload has every \<open>IAC\<close> doubled.
\<close>

datatype stream_item = Plain u8 | Doubled | Other u8 | Negotiate u8 u8 | Subneg u8 "u8 list"

definition escape :: "u8 list \<Rightarrow> u8 list" where
  "escape ds = concat (map (\<lambda>b. if b = IAC then [IAC, IAC] else [b]) ds)"

fun encode_item :: "stream_item \<Rightarrow> u8 list" where
  "encode_item (Plain b) = [b]"
| "encode_item Doubled = [IAC, IAC]"
| "encode_item (Other v) = [IAC, v]"
| "encode_item (Negotiate v o1) = [IAC, v, o1]"
| "encode_item (Subneg o1 ds) = [IAC, SB, o1] @ escape ds @ [IAC, SE]"

definition encode_stream :: "stream_item list \<Rightarrow> u8 list" where
  "encode_stream items = concat (map encode_item items)"

fun item_ok :: "nat \<Rightarrow> stream_item \<Rightarrow> bool" where
  "item_ok m (Plain b) = (b \<noteq> IAC)"
| "item_ok m Doubled = True"
| "item_ok m (Other v) = (v \<notin> {IAC, SB, DO, DONT, WILL, WONT})"
| "item_ok m (Negotiate v o1) = (v \<in> {DO, DONT, WILL, WONT})"
| "item_ok m (Subneg o1 ds) = (length ds \<le> m)"

text \<open>The events of a stream that begins at position \<open>p\<close>.\<close>

fun stream_events :: "nat \<Rightarrow> stream_item list \<Rightarrow> NegotiationEvent list" where
  "stream_events p [] = []"
| "stream_events p (Plain b # items) = stream_events (p + 1) items"
| "stream_events p (Doubled # items) = stream_events (p + 2) items"
| "stream_events p (Other v # items) = stream_events (p + 2) items"
| "stream_events p (Negotiate v o1 # items) =
     \<lparr>ne_verb = v, ne_option = o1, ne_subdata = [], ne_position = p\<rparr> # stream_events (p + 3) items"
| "stream_events p (Subneg o1 ds # items) =
     \<lparr>ne_verb = SB, ne_option = o1, ne_subdata = ds, ne_position = p\<rparr> # stream_events (p + 5 + length (escape ds)) items"

text \<open>
  Where the parser reads what was sent: a doubled \<open>IAC\<close> is not directly followed by a byte of text that is a verb and
  by something after it, because the parser takes the second \<open>IAC\<close> for the start of a command.
\<close>

fun misread :: "stream_item \<Rightarrow> stream_item list \<Rightarrow> bool" where
  "misread Doubled (Plain b # items) = (b \<in> {SB, DO, DONT, WILL, WONT} \<and> items \<noteq> [])"
| "misread x items = False"

fun read_as_sent :: "stream_item list \<Rightarrow> bool" where
  "read_as_sent [] = True"
| "read_as_sent (x # items) = (\<not> misread x items \<and> read_as_sent items)"

lemma encode_simps [simp]:
  "encode_stream [] = []" "encode_stream (x # items) = encode_item x @ encode_stream items"
  "escape [] = []" "escape (b # ds) = (if b = IAC then [IAC, IAC] else [b]) @ escape ds"
  by (simp_all add: encode_stream_def escape_def)

lemma sub_loop_reads:
  "length sub + length ds \<le> m \<Longrightarrow>
    sub_loop (pre @ escape ds @ IAC # SE # rest) m (length pre) sub
      = (sub @ ds, Some (length pre + length (escape ds) + 2))"
proof (induction ds arbitrary: pre sub)
  case Nil
  then show ?case by (subst sub_loop.simps) (simp add: nth_append)
next
  case (Cons b ds)
  have se: "SE \<noteq> IAC" by (simp add: telnet_cmds)
  show ?case
  proof (cases "b = IAC")
    case True
    then show ?thesis
      using Cons.prems Cons.IH [of "sub @ [IAC]" "pre @ [IAC, IAC]"] se
      by (subst sub_loop.simps) (simp add: nth_append)
  next
    case False
    then show ?thesis
      using Cons.prems Cons.IH [of "sub @ [b]" "pre @ [b]"]
      by (subst sub_loop.simps) (simp add: nth_append Let_def)
  qed
qed

lemma parse_loop_short: "length data \<le> i + 2 \<Longrightarrow> parse_loop data m i = []"
  by (subst parse_loop.simps) simp

lemma parse_loop_skip:
  "data ! i = IAC \<longrightarrow> data ! (i + 1) \<notin> {SB, DO, DONT, WILL, WONT} \<Longrightarrow> parse_loop data m i = parse_loop data m (i + 1)"
  by (cases "i + 2 < length data") (subst parse_loop.simps, simp add: Let_def, simp add: parse_loop_short)

lemma parse_loop_verb:
  "i + 2 < length data \<Longrightarrow> data ! i = IAC \<Longrightarrow> data ! (i + 1) \<in> {DO, DONT, WILL, WONT} \<Longrightarrow>
    parse_loop data m i
      = \<lparr>ne_verb = data ! (i + 1), ne_option = data ! (i + 2), ne_subdata = [], ne_position = i\<rparr> # parse_loop data m (i + 3)"
  by (subst parse_loop.simps) (auto simp: Let_def telnet_cmds)

lemma parse_loop_sub:
  "i + 2 < length data \<Longrightarrow> data ! i = IAC \<Longrightarrow> data ! (i + 1) = SB \<Longrightarrow> sub_loop data m (i + 3) [] = (sub, nxt) \<Longrightarrow>
    parse_loop data m i
      = \<lparr>ne_verb = SB, ne_option = data ! (i + 2), ne_subdata = sub, ne_position = i\<rparr>
        # parse_loop data m (case nxt of None \<Rightarrow> length data | Some k \<Rightarrow> k)"
  by (subst parse_loop.simps) (simp add: Let_def telnet_cmds)

lemma encode_nonempty: "encode_item x \<noteq> []" "encode_stream items = [] \<longleftrightarrow> items = []"
proof -
  show "encode_item x \<noteq> []" for x by (cases x) simp_all
  then show "encode_stream items = [] \<longleftrightarrow> items = []" by (cases items) simp_all
qed

text \<open>The parser reads the items one after the other, up to the first that it misreads.\<close>

fun item_events :: "nat \<Rightarrow> stream_item \<Rightarrow> NegotiationEvent list" where
  "item_events p (Negotiate v o1) = [\<lparr>ne_verb = v, ne_option = o1, ne_subdata = [], ne_position = p\<rparr>]"
| "item_events p (Subneg o1 ds) = [\<lparr>ne_verb = SB, ne_option = o1, ne_subdata = ds, ne_position = p\<rparr>]"
| "item_events p x = []"

lemma stream_events_Cons:
  "stream_events p (x # items) = item_events p x @ stream_events (p + length (encode_item x)) items"
  by (cases x) (simp_all add: eval_nat_numeral add.commute add.left_commute)

lemma stream_events_later: "list_all (\<lambda>e. p \<le> ne_position e) (stream_events p items)"
  by (induction p items rule: stream_events.induct) (auto simp: list_all_iff)

lemma doubled_next:
  "list_all (item_ok m) items \<Longrightarrow> \<not> misread Doubled items \<Longrightarrow> encode_stream items = b # c # r \<Longrightarrow>
    b \<notin> {SB, DO, DONT, WILL, WONT}"
proof (cases items)
  case (Cons x xs)
  assume "list_all (item_ok m) items" "\<not> misread Doubled items" "encode_stream items = b # c # r"
  then show ?thesis using Cons encode_nonempty(2) [of xs] by (cases x) (auto simp: telnet_cmds)
qed simp

lemma parse_item:
  assumes "item_ok m x" and "list_all (item_ok m) items" and "\<not> misread x items"
  shows "parse_loop (pre @ encode_item x @ encode_stream items) m (length pre)
    = item_events (length pre) x
      @ parse_loop (pre @ encode_item x @ encode_stream items) m (length pre + length (encode_item x))"
    (is "?lhs = ?rhs")
proof (cases x)
  case (Plain b)
  then show ?thesis using assms by (simp add: parse_loop_skip nth_append)
next
  case Doubled
  let ?data = "pre @ IAC # IAC # encode_stream items"
  have iac: "IAC \<notin> {SB, DO, DONT, WILL, WONT}" by (simp add: telnet_cmds)
  have one: "parse_loop ?data m (length pre) = parse_loop ?data m (length pre + 1)"
    using iac by (intro parse_loop_skip) (simp add: nth_append)
  have two: "parse_loop ?data m (length pre + 1) = parse_loop ?data m (length pre + 2)"
  proof (cases "length (encode_stream items) \<le> 1")
    case True
    then show ?thesis by (simp add: parse_loop_short)
  next
    case False
    then obtain b c r where "encode_stream items = b # c # r"
      by (cases "encode_stream items"; cases "tl (encode_stream items)") auto
    then show ?thesis
      using doubled_next [of m items b c r] assms Doubled parse_loop_skip [of ?data "length pre + 1" m] by (simp add: nth_append)
  qed
  show ?thesis using one two Doubled by simp
next
  case (Other v)
  let ?data = "pre @ IAC # v # encode_stream items"
  have "v \<notin> {SB, DO, DONT, WILL, WONT}" "v \<noteq> IAC" using assms Other by simp_all
  then have "parse_loop ?data m (length pre) = parse_loop ?data m (length pre + 1)"
      "parse_loop ?data m (length pre + 1) = parse_loop ?data m (length pre + 1 + 1)"
    by (intro parse_loop_skip; simp add: nth_append)+
  then show ?thesis using Other by simp
next
  case (Negotiate v o1)
  then show ?thesis using assms by (simp add: parse_loop_verb nth_append eval_nat_numeral)
next
  case (Subneg o1 ds)
  have "sub_loop (pre @ IAC # SB # o1 # escape ds @ IAC # SE # encode_stream items) m (length pre + 3) []
      = (ds, Some (length pre + 3 + length (escape ds) + 2))"
    using sub_loop_reads [of "[]" ds m "pre @ [IAC, SB, o1]" "encode_stream items"] assms Subneg by (simp add: eval_nat_numeral)
  then show ?thesis
    using Subneg by (simp add: parse_loop_sub nth_append eval_nat_numeral)
qed

lemma parse_misread:
  assumes "misread x items"
  shows "\<exists>e es. parse_loop (pre @ encode_item x @ encode_stream items) m (length pre) = e # es \<and> ne_position e = length pre + 1"
proof -
  obtain b y ys where x: "x = Doubled" "items = Plain b # y # ys" "b \<in> {SB, DO, DONT, WILL, WONT}"
    using assms by (cases "(x, items)" rule: misread.cases) (auto simp: neq_Nil_conv)
  obtain c r where c: "encode_stream (y # ys) = c # r" using encode_nonempty by (metis list.exhaust list.distinct(1))
  let ?data = "pre @ [IAC, IAC, b, c] @ r" and ?i = "length pre + 1"
  have "IAC \<notin> {SB, DO, DONT, WILL, WONT}" by (simp add: telnet_cmds)
  then have one: "parse_loop ?data m (length pre) = parse_loop ?data m ?i"
    by (intro parse_loop_skip) (simp add: nth_append)
  obtain sub nxt where sub: "sub_loop ?data m (?i + 3) [] = (sub, nxt)" by fastforce
  have at: "?i + 2 < length ?data" "?data ! ?i = IAC" "?data ! (?i + 1) = b" by (simp_all add: nth_append)
  have "\<exists>e es. parse_loop ?data m ?i = e # es \<and> ne_position e = ?i"
    using parse_loop_sub [OF at(1,2) _ sub] parse_loop_verb [OF at(1,2)] at(3) x(3) by (cases "b = SB") auto
  then show ?thesis using one x c by simp
qed

lemma parse_loop_stream:
  "list_all (item_ok m) items \<Longrightarrow>
    (parse_loop (pre @ encode_stream items) m (length pre) = stream_events (length pre) items) = read_as_sent items"
proof (induction items arbitrary: pre)
  case Nil
  then show ?case by (simp add: parse_loop_short)
next
  case (Cons x items)
  show ?case
  proof (cases "misread x items")
    case True
    then obtain e es where "parse_loop (pre @ encode_item x @ encode_stream items) m (length pre) = e # es"
        "ne_position e = length pre + 1" using parse_misread by blast
    moreover have "x = Doubled" using True by (cases "(x, items)" rule: misread.cases) auto
    moreover have "e \<notin> set (stream_events (length pre + 2) items)" if "ne_position e = length pre + 1"
      using stream_events_later [of "length pre + 2" items] that by (auto simp: list_all_iff)
    ultimately have "parse_loop (pre @ encode_item x @ encode_stream items) m (length pre) \<noteq> stream_events (length pre + 2) items"
      by (metis list.set_intros(1))
    then show ?thesis using True \<open>x = Doubled\<close> by simp
  next
    case False
    have "parse_loop ((pre @ encode_item x) @ encode_stream items) m (length (pre @ encode_item x))
        = stream_events (length (pre @ encode_item x)) items \<longleftrightarrow> read_as_sent items"
      using Cons by (intro Cons.IH) simp
    then show ?thesis
      using False Cons.prems parse_item [of m x items pre] by (simp add: stream_events_Cons)
  qed
qed

section \<open>Events of any data\<close>

definition byte_slice :: "nat \<Rightarrow> nat \<Rightarrow> 'a list \<Rightarrow> 'a list" where
  "byte_slice a b xs = take (b - a) (drop a xs)"

fun unescape :: "u8 list \<Rightarrow> u8 list" where
  "unescape (b # c # bs) = (if b = IAC \<and> c = IAC then IAC # unescape bs else b # unescape (c # bs))"
| "unescape bs = bs"

lemma byte_slice_Cons: "a < b \<Longrightarrow> b \<le> length xs \<Longrightarrow> byte_slice a b xs = xs ! a # byte_slice (a + 1) b xs"
  by (simp add: byte_slice_def Cons_nth_drop_Suc [symmetric] take_Cons' Suc_diff_Suc)

lemma byte_slice_empty [simp]: "byte_slice a a xs = []"
  by (simp add: byte_slice_def)

lemma unescape_pair:
  "j + 2 \<le> k \<Longrightarrow> k \<le> length data \<Longrightarrow> data ! j = IAC \<Longrightarrow> data ! (j + 1) = IAC \<Longrightarrow>
    unescape (byte_slice j k data) = IAC # unescape (byte_slice (j + 2) k data)"
  by (simp add: byte_slice_Cons)

lemma unescape_single:
  assumes "j < k" "k \<le> length data" "\<not> (data ! j = IAC \<and> data ! (j + 1) = IAC)"
  shows "unescape (byte_slice j k data) = data ! j # unescape (byte_slice (j + 1) k data)"
  using assms by (cases "j + 1 < k") (auto simp: byte_slice_Cons [of j] byte_slice_Cons [of "Suc j"] dest: less_antisym)

text \<open>
  What a payload that is read from index \<open>j\<close> is, by where the reading stops: at a closing pair, above the bound, or
  with the data, of which the last byte may be left.
\<close>

definition payload_read :: "u8 list \<Rightarrow> nat \<Rightarrow> nat \<Rightarrow> u8 list \<Rightarrow> nat \<Rightarrow> bool" where
  "payload_read data m j sub k \<longleftrightarrow>
     (if k < j + 2 then False else data ! (k - 2) = IAC \<and> data ! (k - 1) = SE \<and> sub = unescape (byte_slice j (k - 2) data))
     \<or> m < length (unescape (byte_slice j k data)) \<and> sub = take m (unescape (byte_slice j k data))
     \<or> k = length data \<and> list_ex (\<lambda>l. j \<le> l \<and> sub = unescape (byte_slice j l data)) [length data - 1, length data]"

lemma sub_loop_payload:
  "sub_loop data m j sub = (s, r) \<Longrightarrow> j \<le> length data \<Longrightarrow>
    (case r of
       None \<Rightarrow> (\<exists>l \<in> {length data - 1, length data}. j \<le> l \<and> s = sub @ unescape (byte_slice j l data))
     | Some k \<Rightarrow> j < k \<and> k \<le> length data
         \<and> (j + 2 \<le> k \<and> data ! (k - 2) = IAC \<and> data ! (k - 1) = SE \<and> s = sub @ unescape (byte_slice j (k - 2) data)
            \<or> m < length (sub @ unescape (byte_slice j k data)) \<and> s = take m (sub @ unescape (byte_slice j k data))))"
proof (induction data m j sub arbitrary: s r rule: sub_loop.induct)
  case (1 data m j sub)
  have "IAC \<noteq> SE" by (simp add: telnet_cmds)
  then consider "length data \<le> j + 1" | "j + 1 < length data" "data ! j = IAC" "data ! (j + 1) = SE"
    | "j + 1 < length data" "data ! j = IAC" "data ! (j + 1) = IAC" "IAC \<noteq> SE"
    | "j + 1 < length data" "\<not> (data ! j = IAC \<and> data ! (j + 1) \<in> {SE, IAC})" "m < length (sub @ [data ! j])"
    | "j + 1 < length data" "\<not> (data ! j = IAC \<and> data ! (j + 1) \<in> {SE, IAC})" "length (sub @ [data ! j]) \<le> m"
    using le_less_linear [of "length data" "j + 1"] le_less_linear [of "length (sub @ [data ! j])" m] by blast
  then show ?case
  proof cases
    case 1
    then have "sub_loop data m j sub = (sub, None)" by (subst sub_loop.simps) simp
    moreover have "j = length data - 1 \<or> j = length data" using 1 "1.prems" by linarith
    ultimately show ?thesis using "1.prems" by auto
  next
    case 2
    then show ?thesis using "1.prems" by (subst (asm) sub_loop.simps) auto
  next
    case 3
    then have "sub_loop data m (j + 2) (sub @ [IAC]) = (s, r)" using "1.prems" by (subst (asm) sub_loop.simps) simp
    from "1.IH"(1) [OF _ _ _ this] show ?thesis
      using 3 unescape_pair [of j _ data] by (auto split: option.splits)
  next
    case 4
    then show ?thesis using "1.prems" unescape_single [of j "j + 1" data]
      by (subst (asm) sub_loop.simps) (auto simp: Let_def)
  next
    case 5
    then have "sub_loop data m (j + 1) (sub @ [data ! j]) = (s, r)"
      using "1.prems" by (subst (asm) sub_loop.simps) (auto simp: Let_def)
    from "1.IH"(2) [OF _ _ _ _ _ this] show ?thesis
      using 5 unescape_single [of j _ data] by (auto split: option.splits)
  qed
qed

text \<open>An event that is read off the data from its position up to index \<open>k\<close>, and events that are, one after the other.\<close>

definition event_read :: "u8 list \<Rightarrow> nat \<Rightarrow> NegotiationEvent \<Rightarrow> nat \<Rightarrow> bool" where
  "event_read data m e k \<longleftrightarrow>
     ne_position e + 3 \<le> k \<and> k \<le> length data
     \<and> byte_slice (ne_position e) (ne_position e + 3) data = [IAC, ne_verb e, ne_option e]
     \<and> (if ne_verb e = SB then payload_read data m (ne_position e + 3) (ne_subdata e) k
        else ne_verb e \<in> {DO, DONT, WILL, WONT} \<and> ne_subdata e = [] \<and> k = ne_position e + 3)"

definition reads_from :: "u8 list \<Rightarrow> nat \<Rightarrow> nat \<Rightarrow> NegotiationEvent list \<Rightarrow> nat list \<Rightarrow> bool" where
  "reads_from data m i es ends \<longleftrightarrow> list_all2 (event_read data m) es ends
     \<and> sorted_wrt (\<lambda>(p, k) (p', k'). k \<le> p') (zip (map ne_position es) ends) \<and> list_all (\<lambda>e. i \<le> ne_position e) es"

lemma reads_from_Cons:
  assumes "event_read data m e k" "i \<le> ne_position e" "reads_from data m k es ends"
  shows "reads_from data m i (e # es) (k # ends)"
proof -
  have "i \<le> k" using assms by (simp add: event_read_def)
  then show ?thesis using assms by (fastforce simp: reads_from_def list_all_iff dest: set_zip_leftD)
qed

lemma reads_from_earlier: "reads_from data m (i + 1) es ends \<Longrightarrow> reads_from data m i es ends"
  by (auto simp: reads_from_def list_all_iff)

lemma reads_from_count: "reads_from data m i es ends \<Longrightarrow> i \<le> length data \<Longrightarrow> i + 3 * length es \<le> length data"
proof (induction es arbitrary: i ends)
  case (Cons e es)
  then obtain k ks where ends: "ends = k # ks" by (cases ends) (auto simp: reads_from_def)
  have "list_all (\<lambda>e. k \<le> ne_position e) es"
  proof -
    have "list_all (\<lambda>p. k \<le> p) (map fst (zip (map ne_position es) ks))" "length es = length ks"
      using Cons.prems(1) unfolding ends by (auto simp: reads_from_def list_all_iff list_all2_lengthD)
    then show ?thesis by (simp add: list.pred_map comp_def)
  qed
  then have "k + 3 * length es \<le> length data"
    using Cons.prems by (intro Cons.IH [of k ks]) (auto simp: ends reads_from_def event_read_def)
  then show ?case using Cons.prems by (auto simp: ends reads_from_def event_read_def)
qed simp

lemma byte_slice_3: "i + 2 < length xs \<Longrightarrow> byte_slice i (i + 3) xs = [xs ! i, xs ! (i + 1), xs ! (i + 2)]"
  by (simp add: byte_slice_Cons eval_nat_numeral)

lemma parse_loop_events: "\<exists>ends. reads_from data m i (parse_loop data m i) ends"
proof (induction "length data - i" arbitrary: i rule: less_induct)
  case less
  let ?v = "data ! (i + 1)"
  consider "length data \<le> i + 2" | "i + 2 < length data" "data ! i = IAC \<longrightarrow> ?v \<notin> {SB, DO, DONT, WILL, WONT}"
    | "i + 2 < length data" "data ! i = IAC" "?v = SB" | "i + 2 < length data" "data ! i = IAC" "?v \<in> {DO, DONT, WILL, WONT}"
    by fastforce
  then show ?case
  proof cases
    case 1
    then show ?thesis by (auto simp: parse_loop_short reads_from_def)
  next
    case 2
    then have "\<exists>ends. reads_from data m (i + 1) (parse_loop data m (i + 1)) ends" by (intro less) simp
    then show ?thesis using reads_from_earlier unfolding parse_loop_skip [OF 2(2)] by blast
  next
    case 3
    obtain sub nxt where sub: "sub_loop data m (i + 3) [] = (sub, nxt)" by fastforce
    define k where "k = (case nxt of None \<Rightarrow> length data | Some k \<Rightarrow> k)"
    have far: "i + 3 \<le> k" "k \<le> length data" and pay: "payload_read data m (i + 3) sub k"
      using sub_loop_payload [OF sub] 3 by (auto simp: k_def payload_read_def split: option.splits)
    have "\<exists>ends. reads_from data m k (parse_loop data m k) ends" using far 3 by (intro less) simp
    then obtain ends where "reads_from data m k (parse_loop data m k) ends" ..
    from reads_from_Cons [OF _ _ this, of _ i] show ?thesis
      using far pay 3 unfolding parse_loop_sub [OF 3 sub] k_def [symmetric]
      by (intro exI [of _ "k # ends"]) (simp add: event_read_def byte_slice_3)
  next
    case 4
    have "\<exists>ends. reads_from data m (i + 3) (parse_loop data m (i + 3)) ends" using 4 by (intro less) simp
    then obtain ends where "reads_from data m (i + 3) (parse_loop data m (i + 3)) ends" ..
    from reads_from_Cons [OF _ _ this, of _ i] show ?thesis
      using 4 unfolding parse_loop_verb [OF 4]
      by (intro exI [of _ "(i + 3) # ends"]) (auto simp: event_read_def byte_slice_3 telnet_cmds)
  qed
qed

text \<open>The last event of an option decides.\<close>

lemma lastVerb_last:
  "lastVerb option events =
    (case rev (filter (\<lambda>e. ne_option e = option) events) of [] \<Rightarrow> 0 | e # es \<Rightarrow> ne_verb e)"
  by (induction events rule: rev_induct) (auto simp: lastVerb_def)

text \<open>A payload of doubled bytes only.\<close>

lemma sub_loop_doubled:
  "sub_loop (pre @ concat (replicate n [IAC, IAC]) @ [IAC, SE]) m (length pre) sub
    = (sub @ replicate n IAC, Some (length pre + 2 * n + 2))"
proof (induction n arbitrary: pre sub)
  case 0
  then show ?case by (subst sub_loop.simps) (simp add: nth_append)
next
  case (Suc n)
  have "SE \<noteq> IAC" by (simp add: telnet_cmds)
  then show ?case
    using Suc.IH [of "pre @ [IAC, IAC]" "sub @ [IAC]"]
    by (subst sub_loop.simps) (simp add: nth_append replicate_append_same)
qed

section \<open>Properties\<close>

text \<open>
  C32: Negotiation reads back, but for one place. Take a stream as a peer sends it: text, in which the byte 255 is doubled,
  commands, negotiations, and subnegotiations with doubled escapes and payloads within the bound. The parser returns
  exactly its negotiations and subnegotiations, in order, with their options, payloads and positions, if and only if no
  doubled byte 255 of text is directly followed by another byte of text that is one of the verbs and is not the last of
  the stream (escaped_byte_negotiates shows what the parser makes of such a place).
\<close>

theorem negotiation_reads_back:
  "(if list_all (item_ok maxSb) items
    then (parseIac (encode_stream items) maxSb = stream_events 0 items) = read_as_sent items else True)"
  using parse_loop_stream [of maxSb items "[]"] by (simp add: parseIac_def)

text \<open>
  C33: Any bytes are parsed, and each event is read off a part of the data of its own. Whatever the data, the part of
  an event begins at its position with the escape, its verb and its option. A negotiation is these three bytes and has
  no payload; the payload of a subnegotiation is the bytes that follow, each doubled escape made one, up to the closing
  pair that ends its part, or cut to the bound where there are more, or up to the end of the data, the last byte
  included or not. The parts follow one another without overlap, so that there are at most a third as many events as
  bytes. An event is what the bytes at its place say, and need not be one that the peer sent.
\<close>

theorem events_are_in_the_data:
  "(let events = parseIac data maxSb in
    (\<exists>ends. list_all2 (event_read data maxSb) events ends
      \<and> sorted_wrt (\<lambda>(p, k) (p', k'). k \<le> p') (zip (map ne_position events) ends))
    \<and> 3 * length events \<le> length data)"
proof -
  obtain ends where "reads_from data maxSb 0 (parseIac data maxSb) ends"
    using parse_loop_events [of data maxSb 0] unfolding parseIac_def by blast
  with reads_from_count [OF this] show ?thesis unfolding Let_def reads_from_def by auto
qed

text \<open>
  An escaped byte opens a negotiation. A doubled \<open>IAC\<close> stands for one byte of text; the parser goes on at the second
  one, so that the text bytes 255, 251 and an option are read as an offer of that option.
\<close>

theorem escaped_byte_negotiates:
  "(if v = WILL \<or> v = DO then parseIac [IAC, IAC, v, option] maxSb
      = [\<lparr>ne_verb = v, ne_option = option, ne_subdata = [], ne_position = 1\<rparr>] else True)"
  by (auto simp: parseIac_def parse_loop.simps telnet_cmds Let_def)

text \<open>
  Doubled bytes pass the bound. A payload of doubled escapes only is kept whole, however long it is.
\<close>

theorem doubled_payload_unbounded:
  "parseIac ([IAC, SB, option] @ concat (replicate n [IAC, IAC]) @ [IAC, SE]) maxSb
    = [\<lparr>ne_verb = SB, ne_option = option, ne_subdata = replicate n IAC, ne_position = 0\<rparr>]"
proof -
  have "length (concat (replicate n [IAC, IAC])) = 2 * n" by (induction n) auto
  moreover have "SB \<noteq> IAC" by (simp add: telnet_cmds)
  ultimately show ?thesis
    using sub_loop_doubled [of "[IAC, SB, option]" n maxSb "[]"]
    unfolding parseIac_def by (subst parse_loop.simps) (simp add: Let_def parse_loop_short eval_nat_numeral)
qed

text \<open>
  The last word counts. A capability is negotiated exactly when the last event of its option is an offer or a request,
  declined when it is a refusal, and else absent.
\<close>

theorem capability_is_last_word:
  "(let c = capability option events; es = filter (\<lambda>e. ne_option e = option) events in
    ca_negotiated c = (es \<noteq> [] \<and> ne_verb (last es) \<in> {WILL, DO})
    \<and> (ca_status c = ''negotiated'') = ca_negotiated c
    \<and> (ca_status c = ''declined'') = (es \<noteq> [] \<and> ne_verb (last es) \<in> {WONT, DONT}))"
proof -
  have "rev es = e # fs \<Longrightarrow> es \<noteq> [] \<and> last es = e" for es :: "NegotiationEvent list" and e fs
    by (metis last_rev list.sel(1) rev_is_Nil_conv rev_rev_ident list.distinct(1))
  then show ?thesis
    by (cases "rev (filter (\<lambda>e. ne_option e = option) events)")
      (auto simp: capability_def lastVerb_last Let_def telnet_cmds)
qed

text \<open>
  Using a protocol unlists it. A peer that offers GMCP and then sends a message of it is reported not to have it.
\<close>

theorem message_unlists_protocol:
  "(if length ds \<le> maxSb then
      map (\<lambda>o1. ca_status (capability o1 (parseIac (encode_stream [Negotiate WILL GMCP, Subneg GMCP ds]) maxSb))) [GMCP] = [''absent'']
    else True)"
  using parse_loop_stream [of maxSb "[Negotiate WILL GMCP, Subneg GMCP ds]" "[]"]
  by (auto simp: parseIac_def capability_def lastVerb_def telnet_cmds Let_def)

end
