(* ===== verification/Editor.thy ===== *)
theory Editor
  imports Prelude "HOL-Library.Product_Lexorder"
begin

text \<open>
  Spell checking and completion, \<open>src/wiremudder/ui/editor_boundary.cpp\<close> and its header: the edit distance by its
  table, suggestions, automatic correction and candidates of a prefix. A hash set is the list of its members in the
  order of iteration, which the library does not specify; insertion puts a new member at the end.
\<close>

definition set_insert :: "'a \<Rightarrow> 'a list \<Rightarrow> 'a list" where
  "set_insert x xs = (if x \<in> set xs then xs else xs @ [x])"

record SpellcheckCore =
  sp_dict :: "string list"
  sp_corrections :: "(string \<times> string) list"

definition SpellcheckCore_new :: SpellcheckCore where
  "SpellcheckCore_new = \<lparr>sp_dict =
     [''look'', ''north'', ''south'', ''east'', ''west'', ''open'', ''close'', ''say'', ''tell'', ''shout'', ''get'',
      ''drop'', ''inventory'', ''score'', ''help'', ''quit'', ''attack'', ''cast'', ''buy'', ''sell'', ''wear'', ''remove''],
     sp_corrections = []\<rparr>"

definition isKnown :: "string \<Rightarrow> SpellcheckCore \<Rightarrow> bool" where
  "isKnown word c \<longleftrightarrow> to_lower word \<in> set (sp_dict c)"

text \<open>The table of the edit distance: its first column and row, then cell by cell.\<close>

definition lev_init :: "nat \<Rightarrow> nat \<Rightarrow> nat list list" where
  "lev_init m n =
     (let d0 = replicate (m + 1) (replicate (n + 1) 0);
          d1 = foldl (\<lambda>d i. d[i := (d ! i)[0 := i]]) d0 [0..<m + 1]
      in foldl (\<lambda>d j. d[0 := (d ! 0)[j := j]]) d1 [0..<n + 1])"

definition lev_cell :: "string \<Rightarrow> string \<Rightarrow> nat \<Rightarrow> nat list list \<Rightarrow> nat \<Rightarrow> nat list list" where
  "lev_cell a b i d j =
     (let cost = (if a ! (i - 1) = b ! (j - 1) then 0 else 1) in
      d[i := (d ! i)[j := Min {d ! (i - 1) ! j + 1, d ! i ! (j - 1) + 1, d ! (i - 1) ! (j - 1) + cost}]])"

definition lev_row :: "string \<Rightarrow> string \<Rightarrow> nat list list \<Rightarrow> nat \<Rightarrow> nat list list" where
  "lev_row a b d i = foldl (lev_cell a b i) d [1..<length b + 1]"

definition levenshtein :: "string \<Rightarrow> string \<Rightarrow> nat" where
  "levenshtein a b = foldl (lev_row a b) (lev_init (length a) (length b)) [1..<length a + 1] ! length a ! length b"

text \<open>The loop that takes elements until there are \<open>m\<close>, which it tests after it took one.\<close>

fun collect_until :: "int \<Rightarrow> 'a list \<Rightarrow> 'a list \<Rightarrow> 'a list" where
  "collect_until m [] out = out"
| "collect_until m (x # xs) out =
     (let out1 = out @ [x] in if m \<le> int (length out1) then out1 else collect_until m xs out1)"

definition suggest :: "string \<Rightarrow> int \<Rightarrow> int \<Rightarrow> SpellcheckCore \<Rightarrow> string list" where
  "suggest word maxDistance maxSuggestions c =
     (let lower = to_lower word;
          scored = filter (\<lambda>s. int (fst s) \<le> maxDistance) (map (\<lambda>w. (levenshtein lower w, w)) (sp_dict c))
      in collect_until maxSuggestions (map snd (sort scored)) [])"

definition autocorrect :: "string \<Rightarrow> int \<Rightarrow> SpellcheckCore \<Rightarrow> string" where
  "autocorrect word maxDistance c =
     (let lower = to_lower word in
      case find (\<lambda>p. fst p = lower) (sp_corrections c) of
        Some p \<Rightarrow> snd p
      | None \<Rightarrow> (case suggest lower maxDistance 1 c of [] \<Rightarrow> word | s # ss \<Rightarrow> s))"

definition addWord :: "string \<Rightarrow> SpellcheckCore \<Rightarrow> SpellcheckCore" where
  "addWord word c = c\<lparr>sp_dict := set_insert (to_lower word) (sp_dict c)\<rparr>"

definition addCorrection :: "string \<Rightarrow> string \<Rightarrow> SpellcheckCore \<Rightarrow> SpellcheckCore" where
  "addCorrection wrong right c = c\<lparr>sp_corrections := sp_corrections c @ [(to_lower wrong, right)]\<rparr>"

definition dictionarySize :: "SpellcheckCore \<Rightarrow> nat" where
  "dictionarySize c = length (sp_dict c)"

record CompletionCore =
  co_items :: "string list"

definition CompletionCore_add :: "string \<Rightarrow> CompletionCore \<Rightarrow> CompletionCore" where
  "CompletionCore_add item c = c\<lparr>co_items := set_insert item (co_items c)\<rparr>"

text \<open>Items that differ in the case of letters only compare as equal; their order is not specified.\<close>

fun candidate_loop :: "string \<Rightarrow> int \<Rightarrow> string list \<Rightarrow> string list \<Rightarrow> string list" where
  "candidate_loop p m [] out = out"
| "candidate_loop p m (item # items) out =
     (let out1 = (if prefix (to_lower p) (to_lower item) then out @ [item] else out) in
      if m \<le> int (length out1) then out1 else candidate_loop p m items out1)"

definition candidates :: "string \<Rightarrow> int \<Rightarrow> CompletionCore \<Rightarrow> string list" where
  "candidates p maxCandidates c = sort_key to_lower (candidate_loop p maxCandidates (co_items c) [])"

section \<open>The table holds distances of prefixes\<close>

text \<open>The recurrence, on the first \<open>i\<close> and \<open>j\<close> characters.\<close>

fun prefix_dist :: "string \<Rightarrow> string \<Rightarrow> nat \<Rightarrow> nat \<Rightarrow> nat" where
  "prefix_dist a b 0 j = j"
| "prefix_dist a b (Suc i) 0 = Suc i"
| "prefix_dist a b (Suc i) (Suc j) =
     min (min (prefix_dist a b i (Suc j) + 1) (prefix_dist a b (Suc i) j + 1))
       (prefix_dist a b i j + (if a ! i = b ! j then 0 else 1))"

text \<open>
  The table has its dimensions, its first row and column, and the distances of all cells before row \<open>i\<close>
  column \<open>j\<close>.
\<close>

definition lev_inv :: "string \<Rightarrow> string \<Rightarrow> nat \<Rightarrow> nat \<Rightarrow> nat list list \<Rightarrow> bool" where
  "lev_inv a b i j d \<longleftrightarrow>
     length d = length a + 1 \<and> (\<forall>k \<le> length a. length (d ! k) = length b + 1)
     \<and> (\<forall>k \<le> length a. d ! k ! 0 = k)
     \<and> (\<forall>k l. k \<le> length a \<longrightarrow> l \<le> length b \<longrightarrow> k < i \<or> k = i \<and> l < j \<longrightarrow> d ! k ! l = prefix_dist a b k l)"

lemma prefix_dist_0: "prefix_dist a b k 0 = k"
  by (cases k) simp_all

lemma lev_column:
  "k \<le> m + 1 \<Longrightarrow>
    (let d = foldl (\<lambda>d i. d[i := (d ! i)[0 := i]]) (replicate (m + 1) (replicate (n + 1) 0)) [0..<k] in
      length d = m + 1 \<and> (\<forall>i \<le> m. d ! i = (if i < k then i else 0) # replicate n 0))"
proof (induction k)
  case 0
  show ?case by (simp add: Let_def del: replicate_Suc) simp
qed (auto simp: Let_def nth_list_update)

lemma lev_first_row:
  "k \<le> n + 1 \<Longrightarrow> d \<noteq> [] \<Longrightarrow> d ! 0 = replicate (n + 1) 0 \<Longrightarrow>
    (let e = foldl (\<lambda>d j. d[0 := (d ! 0)[j := j]]) d [0..<k] in
      length e = length d \<and> (\<forall>i. 0 < i \<longrightarrow> e ! i = d ! i) \<and> e ! 0 = [0..<k] @ replicate (n + 1 - k) 0)"
proof (induction k)
  case (Suc k)
  then have r: "replicate (Suc n - k) (0 :: nat) = 0 # replicate (n - k) 0" by (simp add: Suc_diff_le)
  show ?case using Suc by (auto simp: Let_def r list_update_append)
qed (simp add: Let_def)

lemma lev_init_inv: "lev_inv a b 1 0 (lev_init (length a) (length b))"
proof -
  let ?m = "length a" and ?n = "length b"
  define d1 where "d1 = foldl (\<lambda>d i. d[i := (d ! i)[0 := i]]) (replicate (?m + 1) (replicate (?n + 1) 0)) [0..<?m + 1]"
  have d1: "length d1 = ?m + 1" "i \<le> ?m \<Longrightarrow> d1 ! i = i # replicate ?n 0" for i
    using lev_column [of "?m + 1" ?m ?n] by (auto simp: d1_def Let_def simp del: upt_Suc)
  define e where "e = foldl (\<lambda>d j. d[0 := (d ! 0)[j := j]]) d1 [0..<?n + 1]"
  have "d1 \<noteq> []" "d1 ! 0 = replicate (?n + 1) 0" using d1(1) d1(2) [of 0] by auto
  then have e: "length e = ?m + 1" "0 < i \<Longrightarrow> e ! i = d1 ! i" "e ! 0 = [0..<?n + 1]" for i
    using lev_first_row [of "?n + 1" ?n d1] d1(1) by (auto simp: e_def Let_def simp del: upt_Suc replicate_Suc)
  have row: "e ! k = (if k = 0 then [0..<?n + 1] else k # replicate ?n 0)" if "k \<le> ?m" for k
    using e d1(2) that by simp
  have "lev_init ?m ?n = e" by (simp add: lev_init_def e_def d1_def Let_def)
  then show ?thesis using e(1) row by (simp add: lev_inv_def nth_append del: upt_Suc)
qed

lemma entry_update:
  "i < length d \<Longrightarrow> j < length (d ! i) \<Longrightarrow> d[i := (d ! i)[j := v]] ! k ! l = (if k = i \<and> l = j then v else d ! k ! l)"
  "i < length d \<Longrightarrow> length (d[i := (d ! i)[j := v]] ! k) = length (d ! k)"
  by (cases "k = i"; simp)+

lemma lev_cell_inv:
  assumes inv: "lev_inv a b i j d" and i: "0 < i" "i \<le> length a" and j: "0 < j" "j \<le> length b"
  shows "lev_inv a b i (Suc j) (lev_cell a b i d j)"
proof -
  obtain i' j' where ij: "i = Suc i'" "j = Suc j'" using i j by (metis gr0_conv_Suc)
  have cells: "d ! i' ! j = prefix_dist a b i' j" "d ! i ! j' = prefix_dist a b i j'" "d ! i' ! j' = prefix_dist a b i' j'"
    using inv i j unfolding ij lev_inv_def by simp_all
  have "Min {x, y, z} = min (min x y) z" for x y z :: nat by (simp add: min.assoc)
  then have new: "lev_cell a b i d j = d[i := (d ! i)[j := prefix_dist a b i j]]"
    using cells by (simp add: lev_cell_def ij Let_def)
  have dims: "i < length d" "j < length (d ! i)" using inv i j by (simp_all add: lev_inv_def)
  have main: "d ! k ! l = prefix_dist a b k l" if "k \<le> length a" "l \<le> length b" "k < i \<or> k = i \<and> l < j" for k l
    using inv that unfolding lev_inv_def by blast
  have "(if k = i \<and> l = j then prefix_dist a b i j else d ! k ! l) = prefix_dist a b k l"
    if "k \<le> length a" "l \<le> length b" "k < i \<or> k = i \<and> l < Suc j" for k l
    using main [of k l] that by auto
  then show ?thesis
    using inv j unfolding new lev_inv_def entry_update(1) [OF dims] entry_update(2) [OF dims(1)] by auto
qed

lemma lev_row_inv:
  assumes "lev_inv a b i 1 d" "0 < i" "i \<le> length a" "k \<le> length b"
  shows "lev_inv a b i (Suc k) (foldl (lev_cell a b i) d [1..<Suc k])"
  using assms
proof (induction k)
  case (Suc k)
  then show ?case using lev_cell_inv [of a b i "Suc k"] by simp
qed simp

lemma lev_inv_next_row: "lev_inv a b i (Suc (length b)) d \<Longrightarrow> lev_inv a b (Suc i) 1 d"
proof -
  assume inv: "lev_inv a b i (Suc (length b)) d"
  have "d ! k ! l = prefix_dist a b k l" if "k \<le> length a" "l \<le> length b" "k < Suc i \<or> k = Suc i \<and> l < 1" for k l
  proof (cases "k = Suc i")
    case True
    then show ?thesis using that inv prefix_dist_0 [of a b k] by (simp add: lev_inv_def)
  next
    case False
    then have "k < i \<or> k = i \<and> l < Suc (length b)" using that by auto
    then show ?thesis using that(1,2) inv unfolding lev_inv_def by blast
  qed
  then show ?thesis using inv by (simp add: lev_inv_def)
qed

lemma lev_row_last: "lev_row a b d i = foldl (lev_cell a b i) d [1..<Suc (length b)]"
  by (simp add: lev_row_def del: upt_Suc)

lemma lev_table_inv:
  "k \<le> length a \<Longrightarrow> lev_inv a b (Suc k) 1 (foldl (lev_row a b) (lev_init (length a) (length b)) [1..<Suc k])"
proof (induction k)
  case 0
  show ?case using lev_init_inv [of a b] by (auto simp: lev_inv_def prefix_dist_0 le_Suc_eq)
next
  case (Suc k)
  let ?d = "foldl (lev_row a b) (lev_init (length a) (length b)) [1..<Suc k]"
  have "lev_inv a b (Suc k) (Suc (length b)) (lev_row a b ?d (Suc k))"
    using lev_row_inv [of a b "Suc k" ?d "length b"] Suc unfolding lev_row_last by (simp del: upt_Suc)
  moreover have "[1..<Suc (Suc k)] = [1..<Suc k] @ [Suc k]" by simp
  ultimately show ?case using lev_inv_next_row by (simp del: upt_Suc)
qed

lemma levenshtein_prefix: "levenshtein a b = prefix_dist a b (length a) (length b)"
  using lev_table_inv [of "length a" a b] by (simp add: levenshtein_def lev_inv_def)

section \<open>Distances are numbers of edits\<close>

text \<open>
  The specification: one edit inserts, deletes or replaces a character anywhere. Between it and the recurrence stand
  alignments of two texts, with their cost.
\<close>

inductive edit :: "string \<Rightarrow> string \<Rightarrow> bool" where
  insert_char: "edit (u @ v) (u @ [y] @ v)"
| delete_char: "edit (u @ [x] @ v) (u @ v)"
| replace_char: "edit (u @ [x] @ v) (u @ [y] @ v)"

inductive aligned :: "string \<Rightarrow> string \<Rightarrow> nat \<Rightarrow> bool" where
  aligned_Nil: "aligned [] [] 0"
| aligned_both: "aligned a b n \<Longrightarrow> aligned (x # a) (y # b) (n + (if x = y then 0 else 1))"
| aligned_left: "aligned a b n \<Longrightarrow> aligned (x # a) b (n + 1)"
| aligned_right: "aligned a b n \<Longrightarrow> aligned a (y # b) (n + 1)"

lemma aligned_append: "aligned a b n \<Longrightarrow> aligned c d m \<Longrightarrow> aligned (a @ c) (b @ d) (n + m)"
proof (induction a b n rule: aligned.induct)
  case (aligned_both a b n x y)
  then show ?case using aligned.aligned_both [of "a @ c" "b @ d" "n + m" x y] by (simp add: ac_simps)
next
  case (aligned_left a b n x)
  then show ?case using aligned.aligned_left [of "a @ c" "b @ d" "n + m" x] by simp
next
  case (aligned_right a b n y)
  then show ?case using aligned.aligned_right [of "a @ c" "b @ d" "n + m" y] by simp
qed simp

lemma aligned_one: "aligned [x] [y] (if x = y then 0 else 1)" "aligned [x] [] 1" "aligned [] [y] 1"
  using aligned_both [OF aligned_Nil, of x y] aligned_left [OF aligned_Nil, of x] aligned_right [OF aligned_Nil, of y]
  by simp_all

lemma aligned_refl: "aligned a a 0"
proof (induction a)
  case (Cons x a)
  then show ?case using aligned_both [of a a 0 x x] by simp
qed (rule aligned_Nil)

lemma aligned_delete_all: "aligned a [] (length a)"
proof (induction a)
  case (Cons x a)
  then show ?case using aligned_left [of a "[]" "length a" x] by simp
qed (simp add: aligned_Nil)

lemma aligned_insert_all: "aligned [] b (length b)"
proof (induction b)
  case (Cons y b)
  then show ?case using aligned_right [of "[]" b "length b" y] by simp
qed (simp add: aligned_Nil)

lemma aligned_length: "aligned a b n \<Longrightarrow> length a \<le> length b + n \<and> length b \<le> length a + n"
  by (induction a b n rule: aligned.induct) auto

text \<open>An alignment splits where its right text does, and its left text where it ends.\<close>

lemma splitI:
  "a = a1 @ a2 \<Longrightarrow> aligned a1 u n1 \<Longrightarrow> aligned a2 w n2 \<Longrightarrow> n = n1 + n2 \<Longrightarrow>
    \<exists>a1 a2 n1 n2. a = a1 @ a2 \<and> aligned a1 u n1 \<and> aligned a2 w n2 \<and> n = n1 + n2"
  by blast

lemma aligned_split:
  "aligned a (u @ w) n \<Longrightarrow> \<exists>a1 a2 n1 n2. a = a1 @ a2 \<and> aligned a1 u n1 \<and> aligned a2 w n2 \<and> n = n1 + n2"
proof (induction a "u @ w" n arbitrary: u rule: aligned.induct)
  case aligned_Nil
  then show ?case using aligned.aligned_Nil by fastforce
next
  case (aligned_both a b n x y)
  show ?case
  proof (cases u)
    case Nil
    then have "aligned (x # a) w (n + (if x = y then 0 else 1))"
      using aligned.aligned_both aligned_both.hyps by fastforce
    then show ?thesis
      using Nil aligned.aligned_Nil
      by (intro splitI [of _ "[]" "x # a" _ 0 _ "n + (if x = y then 0 else 1)"]) simp_all
  next
    case (Cons z u')
    then have "b = u' @ w" "z = y" using aligned_both.hyps(3) by auto
    then obtain a1 a2 n1 n2 where "a = a1 @ a2" "aligned a1 u' n1" "aligned a2 w n2" "n = n1 + n2"
      using aligned_both.hyps(2) by blast
    then show ?thesis
      using Cons \<open>z = y\<close> aligned.aligned_both [of a1 u' n1 x y]
      by (intro splitI [of _ "x # a1" a2 _ "n1 + (if x = y then 0 else 1)" _ n2]) simp_all
  qed
next
  case (aligned_left a n x)
  then obtain a1 a2 n1 n2 where "a = a1 @ a2" "aligned a1 u n1" "aligned a2 w n2" "n = n1 + n2" by blast
  then show ?case
    using aligned.aligned_left [of a1 u n1 x] by (intro splitI [of _ "x # a1" a2 _ "n1 + 1" _ n2]) simp_all
next
  case (aligned_right a b n y)
  show ?case
  proof (cases u)
    case Nil
    then have "aligned a w (n + 1)" using aligned.aligned_right aligned_right.hyps by fastforce
    then show ?thesis using Nil aligned.aligned_Nil by (intro splitI [of _ "[]" a _ 0 _ "n + 1"]) simp_all
  next
    case (Cons z u')
    then have "b = u' @ w" "z = y" using aligned_right.hyps(3) by auto
    then obtain a1 a2 n1 n2 where "a = a1 @ a2" "aligned a1 u' n1" "aligned a2 w n2" "n = n1 + n2"
      using aligned_right.hyps(2) by blast
    then show ?thesis
      using Cons \<open>z = y\<close> aligned.aligned_right [of a1 u' n1 y]
      by (intro splitI [of _ a1 a2 _ "n1 + 1" _ n2]) simp_all
  qed
qed

lemma aligned_char:
  assumes "aligned a [x] n"
  shows "\<exists>m \<le> n + 1. aligned a [] m" and "\<exists>m \<le> n + 1. aligned a [y] m"
proof -
  show "\<exists>m \<le> n + 1. aligned a [] m" using aligned_delete_all [of a] aligned_length [OF assms] by auto
  show "\<exists>m \<le> n + 1. aligned a [y] m"
  proof (cases a)
    case Nil
    then show ?thesis using aligned_one(3) [of y] by auto
  next
    case (Cons z r)
    then have "aligned a [y] (length r + (if z = y then 0 else 1))"
      using aligned_both [OF aligned_delete_all [of r], of z y] by simp
    moreover have "length r \<le> n" using aligned_length [OF assms] Cons by simp
    ultimately show ?thesis by (intro exI [of _ "length r + (if z = y then 0 else 1)"]) auto
  qed
qed

lemma aligned_edit: "edit b c \<Longrightarrow> aligned a b n \<Longrightarrow> \<exists>m \<le> n + 1. aligned a c m"
proof (induction rule: edit.induct)
  case (insert_char u v y)
  then obtain a1 a2 n1 n2 where s: "a = a1 @ a2" "aligned a1 u n1" "aligned a2 v n2" "n = n1 + n2"
    using aligned_split by blast
  have "aligned (a1 @ [] @ a2) (u @ [y] @ v) (n1 + (1 + n2))"
    by (rule aligned_append [OF s(2) aligned_append [OF aligned_one(3) s(3)]])
  then show ?case using s by auto
next
  case (delete_char u x v)
  then obtain a1 a2 n1 n2 where s: "a = a1 @ a2" "aligned a1 u n1" "aligned a2 ([x] @ v) n2" "n = n1 + n2"
    using aligned_split by blast
  then obtain a3 a4 n3 n4 where t: "a2 = a3 @ a4" "aligned a3 [x] n3" "aligned a4 v n4" "n2 = n3 + n4"
    using aligned_split by blast
  obtain m where m: "m \<le> n3 + 1" "aligned a3 [] m" using aligned_char(1) [OF t(2)] by blast
  have "aligned (a1 @ a3 @ a4) (u @ [] @ v) (n1 + (m + n4))"
    by (rule aligned_append [OF s(2) aligned_append [OF m(2) t(3)]])
  then show ?case using s t m by (intro exI [of _ "n1 + (m + n4)"]) auto
next
  case (replace_char u x v y)
  then obtain a1 a2 n1 n2 where s: "a = a1 @ a2" "aligned a1 u n1" "aligned a2 ([x] @ v) n2" "n = n1 + n2"
    using aligned_split by blast
  then obtain a3 a4 n3 n4 where t: "a2 = a3 @ a4" "aligned a3 [x] n3" "aligned a4 v n4" "n2 = n3 + n4"
    using aligned_split by blast
  obtain m where m: "m \<le> n3 + 1" "aligned a3 [y] m" using aligned_char(2) [OF t(2)] by blast
  have "aligned (a1 @ a3 @ a4) (u @ [y] @ v) (n1 + (m + n4))"
    by (rule aligned_append [OF s(2) aligned_append [OF m(2) t(3)]])
  then show ?case using s t m by (intro exI [of _ "n1 + (m + n4)"]) auto
qed

lemma edits_aligned: "(edit ^^ n) a b \<Longrightarrow> \<exists>m \<le> n. aligned a b m"
proof (induction n arbitrary: b)
  case 0
  then show ?case using aligned_refl by auto
next
  case (Suc n)
  then obtain c where "(edit ^^ n) a c" "edit c b" by auto
  then obtain m where m: "m \<le> n" "aligned a c m" using Suc.IH by blast
  obtain k where "k \<le> m + 1" "aligned a b k" using aligned_edit [OF \<open>edit c b\<close> m(2)] by blast
  then show ?case using m(1) by (intro exI [of _ k]) simp
qed

text \<open>An alignment of cost \<open>n\<close> is \<open>n\<close> edits.\<close>

lemma edit_Cons: "edit a b \<Longrightarrow> edit (x # a) (x # b)"
  by (induction rule: edit.induct) (metis append_Cons edit.intros)+

lemma edits_Cons: "(edit ^^ n) a b \<Longrightarrow> (edit ^^ n) (x # a) (x # b)"
  by (induction n arbitrary: b) (auto intro: edit_Cons)

lemma aligned_edits: "aligned a b n \<Longrightarrow> (edit ^^ n) a b"
proof (induction a b n rule: aligned.induct)
  case (aligned_both a b n x y)
  have "edit (x # b) (y # b)" using replace_char [of "[]" x b y] by simp
  then show ?case using edits_Cons [OF aligned_both.IH, of x] by auto
next
  case (aligned_left a b n x)
  have "edit (x # b) b" using delete_char [of "[]" x b] by simp
  then show ?case using edits_Cons [OF aligned_left.IH, of x] by auto
next
  case (aligned_right a b n y)
  have "edit b (y # b)" using insert_char [of "[]" b y] by simp
  then show ?case using aligned_right.IH by auto
qed simp

text \<open>The recurrence is the least cost of an alignment of the prefixes.\<close>

lemma aligned_rev: "aligned a b n \<Longrightarrow> aligned (rev a) (rev b) n"
proof (induction a b n rule: aligned.induct)
  case (aligned_both a b n x y)
  then show ?case using aligned_append [OF aligned_both.IH aligned_one(1) [of x y]] by simp
next
  case (aligned_left a b n x)
  then show ?case using aligned_append [OF aligned_left.IH aligned_one(2) [of x]] by simp
next
  case (aligned_right a b n y)
  then show ?case using aligned_append [OF aligned_right.IH aligned_one(3) [of y]] by simp
qed (simp add: aligned_Nil)

lemma aligned_Cons_cases:
  "aligned (x # a) (y # b) n \<Longrightarrow>
    (\<exists>m. aligned a b m \<and> n = m + (if x = y then 0 else 1)) \<or> (\<exists>m. aligned a (y # b) m \<and> n = m + 1)
    \<or> (\<exists>m. aligned (x # a) b m \<and> n = m + 1)"
  by (erule aligned.cases) auto

lemma aligned_snoc_cases:
  "aligned (a @ [x]) (b @ [y]) n \<Longrightarrow>
    (\<exists>m. aligned a b m \<and> n = m + (if x = y then 0 else 1)) \<or> (\<exists>m. aligned a (b @ [y]) m \<and> n = m + 1)
    \<or> (\<exists>m. aligned (a @ [x]) b m \<and> n = m + 1)"
  using aligned_Cons_cases [of x "rev a" y "rev b" n] aligned_rev [of "a @ [x]" "b @ [y]" n]
    aligned_rev [of "rev a" "rev b"] aligned_rev [of "rev a" "y # rev b"] aligned_rev [of "x # rev a" "rev b"]
  by fastforce

lemma prefix_dist_aligned:
  "i \<le> length a \<Longrightarrow> j \<le> length b \<Longrightarrow> aligned (take i a) (take j b) (prefix_dist a b i j)"
proof (induction a b i j rule: prefix_dist.induct)
  case (1 a b j)
  then show ?case using aligned_insert_all [of "take j b"] by simp
next
  case (2 a b i)
  then show ?case using aligned_delete_all [of "take (Suc i) a"] by simp
next
  case (3 a b i j)
  have a: "take (Suc i) a = take i a @ [a ! i]" and b: "take (Suc j) b = take j b @ [b ! j]"
    using 3 by (simp_all add: take_Suc_conv_app_nth)
  have "aligned (take (Suc i) a) (take (Suc j) b) (prefix_dist a b i (Suc j) + 1)"
    using aligned_append [OF "3.IH"(1) aligned_one(2) [of "a ! i"]] 3 by (simp add: a)
  moreover have "aligned (take (Suc i) a) (take (Suc j) b) (prefix_dist a b (Suc i) j + 1)"
    using aligned_append [OF "3.IH"(2) aligned_one(3) [of "b ! j"]] 3 by (simp add: b)
  moreover have "aligned (take (Suc i) a) (take (Suc j) b) (prefix_dist a b i j + (if a ! i = b ! j then 0 else 1))"
    using aligned_append [OF "3.IH"(3) aligned_one(1) [of "a ! i" "b ! j"]] 3 by (simp add: a b)
  ultimately show ?case by (simp add: min_def)
qed

lemma prefix_dist_least:
  "i \<le> length a \<Longrightarrow> j \<le> length b \<Longrightarrow> aligned (take i a) (take j b) n \<Longrightarrow> prefix_dist a b i j \<le> n"
proof (induction a b i j arbitrary: n rule: prefix_dist.induct)
  case (1 a b j)
  then show ?case using aligned_length by fastforce
next
  case (2 a b i)
  then show ?case using aligned_length by fastforce
next
  case (3 a b i j)
  have a: "take (Suc i) a = take i a @ [a ! i]" and b: "take (Suc j) b = take j b @ [b ! j]"
    using 3 by (simp_all add: take_Suc_conv_app_nth)
  have "aligned (take i a @ [a ! i]) (take j b @ [b ! j]) n" using "3.prems"(3) by (simp add: a b)
  then consider m where "aligned (take i a) (take j b) m" "n = m + (if a ! i = b ! j then 0 else 1)"
    | m where "aligned (take i a) (take (Suc j) b) m" "n = m + 1"
    | m where "aligned (take (Suc i) a) (take j b) m" "n = m + 1"
    using aligned_snoc_cases unfolding a b by blast
  then show ?case
  proof cases
    case (1 m)
    then show ?thesis using "3.IH"(3) [of m] "3.prems" by auto
  next
    case (2 m)
    then show ?thesis using "3.IH"(1) [of m] "3.prems" by simp
  next
    case (3 m)
    then show ?thesis using "3.IH"(2) [of m] "3.prems" by simp
  qed
qed

lemma levenshtein_aligned: "aligned a b (levenshtein a b)" "aligned a b n \<Longrightarrow> levenshtein a b \<le> n"
  using prefix_dist_aligned [of "length a" a "length b" b] prefix_dist_least [of "length a" a "length b" b]
  by (simp_all add: levenshtein_prefix)

lemma levenshtein_0: "levenshtein a b = 0 \<longleftrightarrow> a = b"
proof
  have "aligned a b n \<Longrightarrow> n = 0 \<Longrightarrow> a = b" for n
    by (induction a b n rule: aligned.induct) (auto split: if_splits)
  then show "levenshtein a b = 0 \<Longrightarrow> a = b" using levenshtein_aligned(1) [of a b] by simp
  show "a = b \<Longrightarrow> levenshtein a b = 0" using levenshtein_aligned(2) [OF aligned_refl, of a] by simp
qed

section \<open>Suggestions\<close>

lemma collect_until_take: "int (length out) < m \<or> m \<le> 0 \<and> out = [] \<Longrightarrow>
    collect_until m xs out = out @ take (max 1 (nat m) - length out) xs"
proof (induction m xs out rule: collect_until.induct)
  case (2 m x xs out)
  show ?case
  proof (cases "m \<le> int (length out) + 1")
    case True
    then have "max 1 (nat m) - length out = 1" using "2.prems" by auto
    then show ?thesis using True by simp
  next
    case False
    then have "max 1 (nat m) - length out = Suc (max 1 (nat m) - Suc (length out))" using "2.prems" by auto
    then show ?thesis using False 2 by simp
  qed
qed simp

definition scored_words :: "string \<Rightarrow> int \<Rightarrow> string list \<Rightarrow> (nat \<times> string) list" where
  "scored_words l k ws = map (\<lambda>w. (levenshtein l w, w)) (filter (\<lambda>w. int (levenshtein l w) \<le> k) ws)"

lemma suggest_sorted:
  "suggest word k m c = map snd (take (max 1 (nat m)) (sort (scored_words (to_lower word) k (sp_dict c))))"
proof -
  have "filter (\<lambda>s. int (fst s) \<le> k) (map (\<lambda>w. (levenshtein l w, w)) ws) = scored_words l k ws" for l ws
    by (simp add: scored_words_def filter_map o_def)
  then show ?thesis
    using collect_until_take [of "[] :: string list" m] by (cases "m \<le> 0") (simp_all add: suggest_def Let_def take_map)
qed

lemma sort_mset: "mset xs = mset ys \<Longrightarrow> sort xs = sort (ys :: 'a::linorder list)"
  by (metis mset_sort properties_for_sort sorted_sort)

lemma scored_mset: "mset xs = mset ys \<Longrightarrow> mset (scored_words l k xs) = mset (scored_words l k ys)"
  by (simp add: scored_words_def)

lemma lower_char_twice: "lower_char (lower_char c) = lower_char c"
  by (simp add: lower_char_def)

text \<open>The candidates the loop finds, before they are sorted.\<close>

definition completes :: "string \<Rightarrow> string \<Rightarrow> bool" where
  "completes p item \<longleftrightarrow> prefix (to_lower p) (to_lower item)"

lemma candidate_loop_take:
  "int (length out) < m \<Longrightarrow> candidate_loop p m items out = out @ take (nat m - length out) (filter (completes p) items)"
proof (induction p m items out rule: candidate_loop.induct)
  case (2 p m item items out)
  show ?case
  proof (cases "completes p item")
    case False
    then show ?thesis using 2 by (simp add: completes_def)
  next
    case True
    show ?thesis
    proof (cases "m \<le> int (length out) + 1")
      case True
      then have "nat m - length out = 1" using "2.prems" by auto
      then show ?thesis using True \<open>completes p item\<close> by (simp add: completes_def)
    next
      case False
      then have "nat m - length out = Suc (nat m - Suc (length out))" using "2.prems" by auto
      then show ?thesis using False 2 \<open>completes p item\<close> by (simp add: completes_def)
    qed
  qed
qed simp

section \<open>Properties\<close>

text \<open>
  C31: The table computes the edit distance: \<open>levenshtein\<close> is the least number of single insertions, deletions and
  replacements of a character that lead from one text to the other.
\<close>

theorem levenshtein_counts_edits: "levenshtein a b = (LEAST n. (edit ^^ n) a b)"
proof (rule Least_equality [symmetric])
  show "(edit ^^ levenshtein a b) a b" by (rule aligned_edits [OF levenshtein_aligned(1)])
  show "levenshtein a b \<le> n" if "(edit ^^ n) a b" for n
    using edits_aligned [OF that] levenshtein_aligned(2) le_trans by blast
qed

text \<open>
  Suggestions are the nearest words. They are the words of the dictionary within the distance, ordered by distance
  and then alphabetically, the first of them up to the number asked for but at least one; in which order the
  dictionary is iterated does not matter.
\<close>

theorem suggestions_are_nearest:
  "(let ws = suggest word k m c; near = scored_words (to_lower word) k (sp_dict c) in
    map (\<lambda>w. (levenshtein (to_lower word) w, w)) ws = take (max 1 (nat m)) (sort near)
    \<and> (if mset (sp_dict c) = mset (sp_dict d) then suggest word k m d = ws else True))"
proof -
  let ?s = "sort (scored_words (to_lower word) k (sp_dict c))"
  have "map (\<lambda>w. (levenshtein (to_lower word) w, w)) (map snd (take n ?s)) = take n ?s" for n
  proof -
    have "(levenshtein (to_lower word) (snd p), snd p) = p" if "p \<in> set ?s" for p
      using that by (auto simp: scored_words_def)
    then have "map (\<lambda>p. (levenshtein (to_lower word) (snd p), snd p)) (take n ?s) = take n ?s"
      by (intro map_idI) (meson in_set_takeD)
    then show ?thesis by (simp add: o_def)
  qed
  moreover have "suggest word k m d = suggest word k m c" if "mset (sp_dict c) = mset (sp_dict d)"
    using sort_mset [OF scored_mset [OF that]] unfolding suggest_sorted by simp
  ultimately show ?thesis unfolding Let_def suggest_sorted by simp
qed

text \<open>
  A known word is kept. With no correction entered for it, a word of the dictionary is corrected to itself, in lower
  case, at any distance allowed.
\<close>

theorem known_word_is_kept:
  "(if isKnown word c \<and> 0 \<le> k \<and> find (\<lambda>p. fst p = to_lower word) (sp_corrections c) = None
    then autocorrect word k c = to_lower word else True)"
proof (cases "isKnown word c \<and> 0 \<le> k \<and> find (\<lambda>p. fst p = to_lower word) (sp_corrections c) = None")
  case True
  let ?l = "to_lower word"
  let ?near = "scored_words ?l k (sp_dict c)"
  have "levenshtein ?l ?l = 0" by (simp add: levenshtein_0)
  then have mem: "(0, ?l) \<in> set (sort ?near)" using True by (force simp: scored_words_def isKnown_def)
  then obtain p ps where s: "sort ?near = p # ps" by (cases "sort ?near") auto
  then have "p \<le> (0, ?l)" using mem sorted_sort [of ?near] by auto
  moreover have "p \<in> set ?near" using s by (metis list.set_intros(1) set_sort)
  ultimately have "p = (0, ?l)" by (auto simp: scored_words_def levenshtein_0)
  moreover have "to_lower ?l = ?l" by (simp add: to_lower_def lower_char_twice)
  ultimately show ?thesis using True s by (simp add: autocorrect_def suggest_sorted Let_def)
next
  case False
  then show ?thesis by (simp only: if_False)
qed

text \<open>
  Completion is sound and, below its bound, complete. With a positive bound the candidates are the items that begin
  with the prefix, up to the case of letters, in order, and only when there are more of them than the bound are some
  left out.
\<close>

theorem candidates_complete:
  "(if 0 < m then (let cs = candidates p m c; all = filter (completes p) (co_items c) in
      list_all (completes p) cs \<and> set cs \<subseteq> set (co_items c) \<and> sorted (map to_lower cs)
      \<and> (if int (length all) \<le> m then mset cs = mset all else int (length cs) = m))
    else True)"
  using candidate_loop_take [of "[]" m p "co_items c"]
  by (auto simp: candidates_def Let_def list_all_iff dest: in_set_takeD)

text \<open>
  Which candidates are left out depends on the iteration of a hash set: with the bound one and two items, the answer is
  the item that comes first in it, not the first in order.
\<close>

theorem completion_depends_on_hash:
  "candidates ''n'' 1 \<lparr>co_items = [''north'', ''ne'']\<rparr> = [''north''] \<and> candidates ''n'' 1 \<lparr>co_items = [''ne'', ''north'']\<rparr> = [''ne'']"
  by code_simp

end
