(* ===== verification/Terminal.thy ===== *)
theory Terminal
  imports Prelude
begin

text \<open>
  The terminal, \<open>src/wiremudder/ui/terminal_boundary.cpp\<close> and its header: the pane of raw lines, the command history
  with its cursor, and the pane that captures matching lines. A bound is the \<open>int\<close> the constructor is given; line
  numbers stay far below its range.
\<close>

record TerminalLine =
  te_seq :: int
  te_raw :: string
  te_at_ms :: int

record TerminalPaneQt =
  tp_lines :: "TerminalLine list"
  tp_max_lines :: int
  tp_next_seq :: int
  tp_overflow_dropped :: bool

definition TerminalPaneQt_new :: "int \<Rightarrow> TerminalPaneQt" where
  "TerminalPaneQt_new m = \<lparr>tp_lines = [], tp_max_lines = m, tp_next_seq = 1, tp_overflow_dropped = False\<rparr>"

definition appendRaw :: "string \<Rightarrow> TerminalPaneQt \<Rightarrow> TerminalPaneQt" where
  "appendRaw raw p =
     (let line = \<lparr>te_seq = tp_next_seq p, te_raw = raw, te_at_ms = 0\<rparr>;
          p1 = p\<lparr>tp_next_seq := tp_next_seq p + 1, tp_lines := tp_lines p @ [line]\<rparr> in
      if tp_max_lines p1 < int (length (tp_lines p1))
      then p1\<lparr>tp_lines := tl (tp_lines p1), tp_overflow_dropped := True\<rparr> else p1)"

definition TerminalPaneQt_clear :: "TerminalPaneQt \<Rightarrow> TerminalPaneQt" where
  "TerminalPaneQt_clear p = p\<lparr>tp_lines := [], tp_next_seq := 1, tp_overflow_dropped := False\<rparr>"

definition lineCount :: "TerminalPaneQt \<Rightarrow> nat" where
  "lineCount p = length (tp_lines p)"

definition lastLine :: "TerminalPaneQt \<Rightarrow> string" where
  "lastLine p = (if tp_lines p = [] then [] else te_raw (last (tp_lines p)))"

definition TerminalPaneQt_snapshot :: "TerminalPaneQt \<Rightarrow> string list" where
  "TerminalPaneQt_snapshot p = map te_raw (tp_lines p)"

text \<open>The index is -1 at the position of a new command.\<close>

record CommandHistoryQt =
  ch_entries :: "string list"
  ch_max_entries :: int
  ch_index :: int
  ch_current :: string

definition CommandHistoryQt_new :: "int \<Rightarrow> CommandHistoryQt" where
  "CommandHistoryQt_new m = \<lparr>ch_entries = [], ch_max_entries = m, ch_index = - 1, ch_current = []\<rparr>"

definition CommandHistoryQt_add :: "string \<Rightarrow> CommandHistoryQt \<Rightarrow> CommandHistoryQt" where
  "CommandHistoryQt_add command h =
     (if command = [] then h
      else if ch_entries h \<noteq> [] \<and> last (ch_entries h) = command then h
      else
        let es = ch_entries h @ [command] in
        h\<lparr>ch_entries := if ch_max_entries h < int (length es) then tl es else es, ch_index := - 1, ch_current := []\<rparr>)"

definition history_up :: "CommandHistoryQt \<Rightarrow> string \<times> CommandHistoryQt" where
  "history_up h =
     (if ch_entries h = [] then ([], h)
      else
        let h1 = (if ch_index h < 0 then h\<lparr>ch_current := [], ch_index := int (length (ch_entries h)) - 1\<rparr>
                  else if 0 < ch_index h then h\<lparr>ch_index := ch_index h - 1\<rparr> else h);
            h2 = h1\<lparr>ch_current := ch_entries h1 ! nat (ch_index h1)\<rparr> in
        (ch_current h2, h2))"

definition history_down :: "CommandHistoryQt \<Rightarrow> string \<times> CommandHistoryQt" where
  "history_down h =
     (if ch_entries h = [] \<or> ch_index h < 0 then ([], h)
      else
        let h1 = (if ch_index h < int (length (ch_entries h)) - 1
                  then h\<lparr>ch_index := ch_index h + 1, ch_current := ch_entries h ! nat (ch_index h + 1)\<rparr>
                  else h\<lparr>ch_index := - 1, ch_current := []\<rparr>) in
        (ch_current h1, h1))"

definition CommandHistoryQt_toJson :: "CommandHistoryQt \<Rightarrow> json list" where
  "CommandHistoryQt_toJson h = map JString (ch_entries h)"

text \<open>The loop that shortens the entries takes the first away while there are too many.\<close>

fun shorten :: "int \<Rightarrow> string list \<Rightarrow> string list" where
  "shorten m [] = []"
| "shorten m (e # es) = (if m < int (length (e # es)) then shorten m es else e # es)"

definition json_texts :: "json list \<Rightarrow> string list" where
  "json_texts arr = map j_string (filter (\<lambda>v. case v of JString s \<Rightarrow> True | _ \<Rightarrow> False) arr)"

definition CommandHistoryQt_fromJson :: "json list \<Rightarrow> CommandHistoryQt \<Rightarrow> CommandHistoryQt" where
  "CommandHistoryQt_fromJson arr h =
     h\<lparr>ch_entries := shorten (ch_max_entries h) (json_texts arr), ch_index := - 1, ch_current := []\<rparr>"

record CaptureFilter =
  cf_id :: string
  cf_match :: string
  cf_case_sensitive :: bool

record CapturePaneQt =
  cp_filter :: CaptureFilter
  cp_captured :: "string list"
  cp_max_captured :: int

definition CapturePaneQt_new :: "int \<Rightarrow> CapturePaneQt" where
  "CapturePaneQt_new m =
     \<lparr>cp_filter = \<lparr>cf_id = [], cf_match = [], cf_case_sensitive = False\<rparr>, cp_captured = [], cp_max_captured = m\<rparr>"

definition setFilter :: "CaptureFilter \<Rightarrow> CapturePaneQt \<Rightarrow> CapturePaneQt" where
  "setFilter f p = p\<lparr>cp_filter := f, cp_captured := []\<rparr>"

definition ingest :: "string \<Rightarrow> CapturePaneQt \<Rightarrow> CapturePaneQt" where
  "ingest raw p =
     (if cf_match (cp_filter p) = [] then p
      else
        let hay = (if cf_case_sensitive (cp_filter p) then raw else to_lower raw);
            needle = (if cf_case_sensitive (cp_filter p) then cf_match (cp_filter p) else to_lower (cf_match (cp_filter p))) in
        if str_contains hay needle then
          let c = cp_captured p @ [raw] in p\<lparr>cp_captured := if cp_max_captured p < int (length c) then tl c else c\<rparr>
        else p)"

section \<open>Bounded lists\<close>

text \<open>The last \<open>n\<close> elements: what appending one and taking the first away beyond the bound keeps.\<close>

definition latest :: "int \<Rightarrow> 'a list \<Rightarrow> 'a list" where
  "latest m xs = drop (length xs - nat m) xs"

lemma latest_push:
  "(let ys = latest m xs @ [x] in if m < int (length ys) then tl ys else ys) = latest m (xs @ [x])"
proof (cases "int (length xs) < m")
  case True
  then show ?thesis by (simp add: latest_def Let_def)
next
  case False
  define k where "k = length xs - nat m"
  show ?thesis
  proof (cases "0 < m")
    case True
    then have k: "Suc k \<le> length xs" "Suc (length xs) - nat m = Suc k" "length xs - k = nat m" using False by (auto simp: k_def)
    then have "drop k xs \<noteq> []" by simp
    moreover have "tl (drop k xs) = drop (Suc k) xs" by (simp add: drop_Suc tl_drop)
    ultimately show ?thesis using True k by (simp add: latest_def Let_def k_def [symmetric])
  qed (simp add: latest_def Let_def)
qed

lemma latest_bounds: "length (latest m xs) = min (length xs) (nat m)" "map f (latest m xs) = latest m (map f xs)"
  by (simp_all add: latest_def drop_map)

lemma shorten_latest: "shorten m es = latest m es"
proof (induction es)
  case (Cons e es)
  then show ?case by (auto simp: latest_def Suc_diff_le)
qed (simp add: latest_def)

section \<open>The cursor of the history\<close>

text \<open>The distance of the cursor from the position of a new command, and the state it stands for.\<close>

definition cursor :: "CommandHistoryQt \<Rightarrow> nat" where
  "cursor h = (if ch_index h < 0 then 0 else nat (int (length (ch_entries h)) - ch_index h))"

definition at_cursor :: "string list \<Rightarrow> nat \<Rightarrow> string" where
  "at_cursor es k = (if k = 0 then [] else es ! (length es - k))"

definition history_inv :: "CommandHistoryQt \<Rightarrow> bool" where
  "history_inv h \<longleftrightarrow>
     - 1 \<le> ch_index h \<and> ch_index h < int (length (ch_entries h)) \<and> ch_current h = at_cursor (ch_entries h) (cursor h)
     \<and> int (length (ch_entries h)) \<le> max 0 (ch_max_entries h)"

lemma history_up_cursor:
  assumes "history_inv h"
  shows "history_inv (snd (history_up h)) \<and> ch_entries (snd (history_up h)) = ch_entries h
    \<and> cursor (snd (history_up h)) = min (cursor h + 1) (length (ch_entries h)) \<and> fst (history_up h) = ch_current (snd (history_up h))"
proof (cases "ch_entries h = []")
  case True
  then show ?thesis using assms by (auto simp: history_up_def history_inv_def cursor_def at_cursor_def)
next
  case False
  define n where "n = length (ch_entries h)"
  have n: "0 < n" using False by (simp add: n_def)
  consider "ch_index h = - 1" | "ch_index h = 0" | k where "ch_index h = int k" "0 < k" "k < n"
  proof -
    have "ch_index h = - 1 \<or> ch_index h = 0 \<or> 0 < ch_index h" "ch_index h < int n"
      using assms by (auto simp: history_inv_def n_def)
    then show ?thesis using that(1,2) that(3) [of "nat (ch_index h)"] by (auto simp: nat_less_iff)
  qed
  then show ?thesis
  proof cases
    case 1
    have "nat (int (length (ch_entries h)) - 1) = length (ch_entries h) - Suc 0"
      "min (Suc 0) (length (ch_entries h)) = Suc 0" using n by (auto simp: n_def min_def Suc_le_eq)
    with 1 show ?thesis
      using assms False n
      by (auto simp: history_up_def history_inv_def cursor_def at_cursor_def Let_def n_def nat_diff_distrib of_nat_diff)
  next
    case 2
    then show ?thesis
      using assms False n by (auto simp: history_up_def history_inv_def cursor_def at_cursor_def Let_def n_def)
  next
    case (3 k)
    then have "nat (int n - (int k - 1)) = Suc (nat (int n - int k))" "nat (int n - int k) \<le> n"
      "n - Suc (nat (int n - int k)) = k - 1" "nat (int k - 1) = k - 1" "Suc (nat (int n - int k)) \<le> n" by linarith+
    then show ?thesis
      using assms False n 3 by (auto simp: history_up_def history_inv_def cursor_def at_cursor_def Let_def n_def)
  qed
qed

lemma history_down_cursor:
  assumes "history_inv h"
  shows "history_inv (snd (history_down h)) \<and> ch_entries (snd (history_down h)) = ch_entries h
    \<and> cursor (snd (history_down h)) = cursor h - 1 \<and> fst (history_down h) = ch_current (snd (history_down h))"
proof (cases "ch_entries h = [] \<or> ch_index h < 0")
  case True
  then show ?thesis using assms by (auto simp: history_down_def history_inv_def cursor_def at_cursor_def)
next
  case False
  define n where "n = length (ch_entries h)"
  obtain k where k: "ch_index h = int k" "k < n"
    using assms False unfolding history_inv_def n_def by (metis nonneg_int_cases not_less of_nat_less_iff)
  show ?thesis
  proof (cases "Suc k < n")
    case True
    then have "nat (int n - (int k + 1)) = nat (int n - int k) - 1" "n - (nat (int n - int k) - 1) = Suc k"
      "nat (int k + 1) = Suc k" "0 < nat (int n - int k) - 1" by linarith+
    then show ?thesis
      using assms False k True by (auto simp: history_down_def history_inv_def cursor_def at_cursor_def Let_def n_def)
  next
    case last: False
    then have "nat (int n - int k) = 1" using k by linarith
    then show ?thesis
      using assms False k last by (auto simp: history_down_def history_inv_def cursor_def at_cursor_def Let_def n_def)
  qed
qed

lemma history_add_cases:
  "CommandHistoryQt_add c h = h
   \<or> c \<noteq> [] \<and> (ch_entries h = [] \<or> last (ch_entries h) \<noteq> c) \<and> CommandHistoryQt_add c h
      = h\<lparr>ch_entries := latest (ch_max_entries h) (ch_entries h @ [c]), ch_index := - 1, ch_current := []\<rparr>"
  if "int (length (ch_entries h)) \<le> max 0 (ch_max_entries h)"
proof -
  have "latest (ch_max_entries h) (ch_entries h) = ch_entries h" using that by (simp add: latest_def)
  then show ?thesis
    using latest_push [of "ch_max_entries h" "ch_entries h" c] by (auto simp: CommandHistoryQt_add_def Let_def)
qed

datatype history_op = AddCommand string | GoUp | GoDown | LoadJson "json list"

fun history_step :: "history_op \<Rightarrow> CommandHistoryQt \<Rightarrow> CommandHistoryQt" where
  "history_step (AddCommand c) h = CommandHistoryQt_add c h"
| "history_step GoUp h = snd (history_up h)"
| "history_step GoDown h = snd (history_down h)"
| "history_step (LoadJson arr) h = CommandHistoryQt_fromJson arr h"

lemma fresh_history_inv:
  "history_inv (h\<lparr>ch_entries := latest (ch_max_entries h) es, ch_index := - 1, ch_current := []\<rparr>)"
  by (simp add: history_inv_def cursor_def at_cursor_def latest_bounds)

lemma history_max: "ch_max_entries (history_step x h) = ch_max_entries h"
  by (cases x) (auto simp: CommandHistoryQt_add_def history_up_def history_down_def CommandHistoryQt_fromJson_def Let_def)

interpretation history: machine_invariant history_step history_inv
proof
  fix h and x :: history_op
  assume inv: "history_inv h"
  show "history_inv (history_step x h)"
  proof (cases x)
    case (AddCommand c)
    have "int (length (ch_entries h)) \<le> max 0 (ch_max_entries h)" using inv by (simp add: history_inv_def)
    then show ?thesis using history_add_cases [of h c] fresh_history_inv inv AddCommand by auto
  next
    case (LoadJson arr)
    then show ?thesis using fresh_history_inv by (simp add: CommandHistoryQt_fromJson_def shorten_latest)
  qed (use inv history_up_cursor history_down_cursor in simp_all)
qed

lemma history_new: "history_inv (CommandHistoryQt_new m)"
  by (simp add: history_inv_def CommandHistoryQt_new_def cursor_def at_cursor_def)

text \<open>Without a file, no command stands twice in a row.\<close>

lemma add_distinct_adj:
  "distinct_adj (ch_entries h) \<Longrightarrow> distinct_adj (ch_entries (CommandHistoryQt_add c h))"
proof -
  assume d: "distinct_adj (ch_entries h)"
  have "distinct_adj (ch_entries h @ [c])" if "ch_entries h = [] \<or> last (ch_entries h) \<noteq> c"
    using d that by (auto simp: distinct_adj_append_iff)
  moreover have "distinct_adj (tl xs)" if "distinct_adj xs" for xs :: "string list"
    using that by (cases xs) (auto simp: distinct_adj_Cons)
  ultimately show ?thesis using d by (auto simp: CommandHistoryQt_add_def Let_def)
qed

section \<open>The panes as runs\<close>

datatype pane_op = Append string | Clear

fun pane_step :: "pane_op \<Rightarrow> TerminalPaneQt \<Rightarrow> TerminalPaneQt" where
  "pane_step (Append raw) p = appendRaw raw p"
| "pane_step Clear p = TerminalPaneQt_clear p"

text \<open>What was appended since the last clear.\<close>

fun received :: "pane_op list \<Rightarrow> string list \<Rightarrow> string list" where
  "received [] acc = acc"
| "received (Append raw # ops) acc = received ops (acc @ [raw])"
| "received (Clear # ops) acc = received ops []"

definition pane_rel :: "string list \<Rightarrow> TerminalPaneQt \<Rightarrow> bool" where
  "pane_rel rs p \<longleftrightarrow>
     map te_raw (tp_lines p) = latest (tp_max_lines p) rs
     \<and> map te_seq (tp_lines p) = latest (tp_max_lines p) (map int [1..<Suc (length rs)])
     \<and> tp_next_seq p = int (length rs) + 1 \<and> tp_overflow_dropped p = (max 0 (tp_max_lines p) < int (length rs))"

lemma pane_rel_append:
  assumes "pane_rel rs p"
  shows "pane_rel (rs @ [raw]) (appendRaw raw p)"
proof -
  let ?m = "tp_max_lines p"
  have raws: "map te_raw (tp_lines p) = latest ?m rs" and seqs: "map te_seq (tp_lines p) = latest ?m (map int [1..<Suc (length rs)])"
    and flags: "tp_next_seq p = int (length rs) + 1" "tp_overflow_dropped p = (max 0 ?m < int (length rs))"
    using assms by (simp_all add: pane_rel_def)
  have len: "length (tp_lines p) = min (length rs) (nat ?m)" using raws latest_bounds(1) [of ?m rs] by (metis length_map)
  define l where "l = \<lparr>te_seq = tp_next_seq p, te_raw = raw, te_at_ms = 0\<rparr>"
  have lines: "tp_lines (appendRaw raw p)
      = (let ys = tp_lines p @ [l] in if ?m < int (length ys) then tl ys else ys)"
    by (simp add: appendRaw_def Let_def l_def)
  have push: "map f (tp_lines (appendRaw raw p)) = latest ?m (xs @ [f l])" if "map f (tp_lines p) = latest ?m xs" for f :: "TerminalLine \<Rightarrow> 'a" and xs
    using latest_push [of ?m xs "f l"] that [symmetric] unfolding lines by (auto simp: Let_def map_tl)
  have "map te_raw (tp_lines (appendRaw raw p)) = latest ?m (rs @ [raw])" using push [OF raws] by (simp add: l_def)
  moreover have "map te_seq (tp_lines (appendRaw raw p)) = latest ?m (map int [1..<Suc (length (rs @ [raw]))])"
    using push [OF seqs] flags by (simp add: l_def add.commute)
  moreover have "tp_overflow_dropped (appendRaw raw p) = (max 0 ?m < int (length (rs @ [raw])))"
    using len flags by (auto simp: appendRaw_def Let_def)
  ultimately show ?thesis
    using flags by (simp add: pane_rel_def) (simp add: appendRaw_def Let_def)
qed

lemma pane_rel_clear: "pane_rel [] (TerminalPaneQt_clear p)"
  by (simp add: pane_rel_def TerminalPaneQt_clear_def latest_def)

lemma pane_max: "tp_max_lines (pane_step x p) = tp_max_lines p"
  by (cases x) (simp_all add: appendRaw_def TerminalPaneQt_clear_def Let_def)

lemma pane_rel_run:
  "pane_rel acc p \<Longrightarrow> pane_rel (received ops acc) (run pane_step ops p) \<and> tp_max_lines (run pane_step ops p) = tp_max_lines p"
proof (induction ops acc arbitrary: p rule: received.induct)
  case (2 raw ops acc)
  then show ?case using pane_rel_append [OF "2.prems"] pane_max [of "Append raw" p] by simp
next
  case (3 ops acc)
  then show ?case using pane_rel_clear [of p] pane_max [of Clear p] by simp
qed simp

text \<open>A line is captured when the filter has a text and the line contains it.\<close>

definition captures :: "CaptureFilter \<Rightarrow> string \<Rightarrow> bool" where
  "captures f raw \<longleftrightarrow> cf_match f \<noteq> []
     \<and> (if cf_case_sensitive f then str_contains raw (cf_match f) else str_contains (to_lower raw) (to_lower (cf_match f)))"

lemma ingest_push:
  "cp_captured p = latest (cp_max_captured p) xs \<Longrightarrow>
    cp_captured (ingest raw p) = latest (cp_max_captured p) (xs @ (if captures (cp_filter p) raw then [raw] else []))"
  using latest_push [of "cp_max_captured p" xs raw] by (auto simp: ingest_def captures_def Let_def)

lemma ingest_same: "cp_filter (ingest raw p) = cp_filter p" "cp_max_captured (ingest raw p) = cp_max_captured p"
  by (simp_all add: ingest_def Let_def)

lemma ingest_run:
  "cp_captured p = latest (cp_max_captured p) xs \<Longrightarrow>
    cp_captured (run ingest raws p) = latest (cp_max_captured p) (xs @ filter (captures (cp_filter p)) raws)"
proof (induction raws arbitrary: p xs)
  case (Cons raw raws)
  have "cp_captured (ingest raw p)
      = latest (cp_max_captured (ingest raw p)) (xs @ (if captures (cp_filter p) raw then [raw] else []))"
    using ingest_push [OF Cons.prems] by (simp add: ingest_same)
  from Cons.IH [OF this] show ?case by (simp add: ingest_same)
qed simp

lemma history_ups:
  "history_inv h \<Longrightarrow> (let g = ((\<lambda>h. snd (history_up h)) ^^ n) h in
    history_inv g \<and> ch_entries g = ch_entries h \<and> cursor g = min (cursor h + n) (length (ch_entries h)))"
proof (induction n)
  case 0
  then have "cursor h \<le> length (ch_entries h)" by (auto simp: history_inv_def cursor_def)
  then show ?case using 0 by simp
next
  case (Suc n)
  then show ?case using history_up_cursor [of "((\<lambda>h. snd (history_up h)) ^^ n) h"] by (simp add: Let_def)
qed

lemma history_current: "history_inv h \<Longrightarrow> ch_current h = at_cursor (ch_entries h) (cursor h)"
  by (simp add: history_inv_def)

lemma history_answers:
  assumes "history_inv h"
  shows "fst (history_up h) = at_cursor (ch_entries h) (min (cursor h + 1) (length (ch_entries h)))"
    and "fst (history_down h) = at_cursor (ch_entries h) (cursor h - 1)"
    and "cursor h = 0 \<Longrightarrow> 0 < n \<Longrightarrow> n \<le> length (ch_entries h) \<Longrightarrow>
      ch_current (((\<lambda>h. snd (history_up h)) ^^ n) h) = ch_entries h ! (length (ch_entries h) - n)"
proof -
  show "fst (history_up h) = at_cursor (ch_entries h) (min (cursor h + 1) (length (ch_entries h)))"
    using history_up_cursor [OF assms] history_current [of "snd (history_up h)"] by simp
  show "fst (history_down h) = at_cursor (ch_entries h) (cursor h - 1)"
    using history_down_cursor [OF assms] history_current [of "snd (history_down h)"] by simp
  show "ch_current (((\<lambda>h. snd (history_up h)) ^^ n) h) = ch_entries h ! (length (ch_entries h) - n)"
    if "cursor h = 0" "0 < n" "n \<le> length (ch_entries h)"
    using history_ups [OF assms, of n] history_current [of "((\<lambda>h. snd (history_up h)) ^^ n) h"] that
    by (simp add: Let_def at_cursor_def)
qed

section \<open>Properties\<close>

text \<open>
  C34: The terminal shows what was received, and the latest of it. After any appending and clearing, the pane holds the
  last lines since the last clear, as many as its bound allows, unmodified and in order, numbered as they came; the
  last line is the last one received; and the flag of dropped lines tells whether there were more than the bound.
\<close>

theorem terminal_keeps_latest:
  "(let p = run pane_step ops (TerminalPaneQt_new m); rs = received ops [] in
    TerminalPaneQt_snapshot p = latest m rs
    \<and> map te_seq (tp_lines p) = latest m (map int [1..<Suc (length rs)])
    \<and> lastLine p = (if rs = [] \<or> m \<le> 0 then [] else last rs)
    \<and> tp_overflow_dropped p = (max 0 m < int (length rs)))"
proof -
  let ?p = "run pane_step ops (TerminalPaneQt_new m)" and ?rs = "received ops []"
  have "pane_rel [] (TerminalPaneQt_new m)" by (simp add: pane_rel_def TerminalPaneQt_new_def latest_def)
  then have rel: "pane_rel ?rs ?p" and "tp_max_lines ?p = m"
    using pane_rel_run [of "[]" "TerminalPaneQt_new m" ops] by (simp_all add: TerminalPaneQt_new_def)
  then have raws: "map te_raw (tp_lines ?p) = latest m ?rs" by (simp add: pane_rel_def)
  have "lastLine ?p = (if map te_raw (tp_lines ?p) = [] then [] else last (map te_raw (tp_lines ?p)))"
    by (simp add: lastLine_def last_map)
  also have "\<dots> = (if ?rs = [] \<or> m \<le> 0 then [] else last ?rs)"
    unfolding raws by (cases ?rs) (auto simp: latest_def last_drop)
  finally show ?thesis
    using rel \<open>tp_max_lines ?p = m\<close> by (simp add: Let_def pane_rel_def TerminalPaneQt_snapshot_def)
qed

text \<open>
  C35: Up and down move a cursor over the history. In any history, up answers the command one further back, and stays at
  the oldest; down answers the next one, and at the end the empty text of a new command; so that from a new command
  the \<open>n\<close>-th step up answers the \<open>n\<close>-th last command. The bound is kept.
\<close>

theorem history_is_cursor:
  "(let h = run history_step ops (CommandHistoryQt_new m); es = ch_entries h; k = cursor h in
    fst (history_up h) = at_cursor es (min (k + 1) (length es)) \<and> cursor (snd (history_up h)) = min (k + 1) (length es)
    \<and> fst (history_down h) = at_cursor es (k - 1) \<and> cursor (snd (history_down h)) = k - 1
    \<and> (if k = 0 \<and> 0 < n \<and> n \<le> length es
        then ch_current (((\<lambda>h. snd (history_up h)) ^^ n) h) = es ! (length es - n) else True)
    \<and> int (length es) \<le> max 0 m)"
proof -
  let ?h = "run history_step ops (CommandHistoryQt_new m)"
  have inv: "history_inv ?h" by (rule history.run_inv [OF history_new])
  have "ch_max_entries (run history_step xs h) = ch_max_entries h" for xs h
    by (induction xs arbitrary: h) (simp_all add: history_max)
  then have "ch_max_entries ?h = m" by (simp add: CommandHistoryQt_new_def)
  then have "int (length (ch_entries ?h)) \<le> max 0 m" using inv by (simp add: history_inv_def)
  then show ?thesis
    using history_up_cursor [OF inv] history_down_cursor [OF inv] history_answers(1,2) [OF inv] history_answers(3) [OF inv, of n]
    unfolding Let_def by simp
qed

text \<open>
  Commands that are entered are not repeated. In a history that was not loaded from a file, no command is empty and
  none stands twice in a row.
\<close>

theorem history_not_repeated:
  "(if list_all (\<lambda>x. case x of LoadJson arr \<Rightarrow> False | _ \<Rightarrow> True) ops
    then (let es = ch_entries (run history_step ops (CommandHistoryQt_new m)) in distinct_adj es \<and> [] \<notin> set es) else True)"
proof -
  have step: "distinct_adj (ch_entries (history_step x h)) \<and> [] \<notin> set (ch_entries (history_step x h))"
    if "distinct_adj (ch_entries h) \<and> [] \<notin> set (ch_entries h)" "case x of LoadJson arr \<Rightarrow> False | _ \<Rightarrow> True" for x h
  proof (cases x)
    case (AddCommand c)
    have "[] \<in> set (tl (ch_entries h @ [c])) \<Longrightarrow> [] \<in> set (ch_entries h) \<or> c = []"
      by (cases "ch_entries h") auto
    then show ?thesis
      using that AddCommand add_distinct_adj [of h c] by (auto simp: CommandHistoryQt_add_def Let_def)
  qed (use that in \<open>auto simp: history_up_def history_down_def Let_def\<close>)
  have "distinct_adj (ch_entries (run history_step xs h)) \<and> [] \<notin> set (ch_entries (run history_step xs h))"
    if "list_all (\<lambda>x. case x of LoadJson arr \<Rightarrow> False | _ \<Rightarrow> True) xs" "distinct_adj (ch_entries h) \<and> [] \<notin> set (ch_entries h)" for xs h
    using that by (induction xs arbitrary: h) (simp_all add: step)
  from this [of ops "CommandHistoryQt_new m"] show ?thesis by (simp add: CommandHistoryQt_new_def Let_def)
qed

text \<open>
  A repeated command leaves the cursor where it was: entering the last command again while browsing does not bring the
  cursor back, so that the next step up starts from the place browsed to.
\<close>

theorem repeated_command_keeps_cursor:
  "(if ch_entries h \<noteq> [] then CommandHistoryQt_add (last (ch_entries h)) h = h else True)"
  by (simp add: CommandHistoryQt_add_def)

text \<open>
  The history reads back. What \<open>toJson\<close> writes is read by \<open>fromJson\<close> as the same commands, the latest of them when the
  reader keeps fewer, with the cursor at a new command.
\<close>

theorem history_json_trip:
  "(let g' = CommandHistoryQt_fromJson (CommandHistoryQt_toJson h) g in
    ch_entries g' = latest (ch_max_entries g) (ch_entries h) \<and> cursor g' = 0
    \<and> (if int (length (ch_entries h)) \<le> ch_max_entries g then ch_entries g' = ch_entries h else True))"
proof -
  have "json_texts (map JString es) = es" for es by (induction es) (simp_all add: json_texts_def)
  then show ?thesis
    by (auto simp: CommandHistoryQt_fromJson_def CommandHistoryQt_toJson_def shorten_latest Let_def cursor_def latest_def)
qed

text \<open>
  The capture pane is a filter. After a filter was set, it holds the last of the lines ingested since that contain its
  text, up to the case of letters unless the filter is sensitive to it; with an empty text it holds none.
\<close>

theorem capture_is_filter:
  "cp_captured (run ingest raws (setFilter f p)) = latest (cp_max_captured p) (filter (captures f) raws)"
  using ingest_run [of "setFilter f p" "[]" raws] by (simp add: setFilter_def latest_def)

end
