(* ===== verification/UpdaterQt.thy ===== *)
theory UpdaterQt
  imports Updater
begin

text \<open>
  The Qt updater, \<open>src/wiremudder/updater/updater_boundary.cpp\<close> and its header, and its agreement with the core. The
  conversion \<open>QString::toULongLong\<close> is a parameter, which is \<open>None\<close> when it reports no success; a set is the list of
  its members in the order of iteration; the static counter of failures is a state of its own.
\<close>

definition channelName :: "Channel \<Rightarrow> string" where
  "channelName c = (case c of Development \<Rightarrow> ''development'' | Canary \<Rightarrow> ''canary'' | Beta \<Rightarrow> ''beta'' | Stable \<Rightarrow> ''stable'')"

definition laneName :: "UpdateLane \<Rightarrow> string" where
  "laneName l = (case l of CoreApp \<Rightarrow> ''core_app'' | ProviderAdapter \<Rightarrow> ''provider_adapter'' | ContextRules \<Rightarrow> ''context_rules''
     | CommandPack \<Rightarrow> ''command_pack'' | PluginPack \<Rightarrow> ''plugin_pack'' | RendererPack \<Rightarrow> ''renderer_pack''
     | AudioPack \<Rightarrow> ''audio_pack'' | LocalModelAsset \<Rightarrow> ''local_model_asset'' | HelpIndex \<Rightarrow> ''help_index'')"

record RolloutQt =
  rq_fraction :: rat
  rq_kill_switch :: bool

record SignedManifestQt =
  mq_schema_version :: int
  mq_lane :: UpdateLane
  mq_channel :: Channel
  mq_version :: string
  mq_artifact_sha256 :: string
  mq_artifact_size :: int
  mq_signature :: string
  mq_compat :: Compatibility
  mq_required_permissions :: "string list"
  mq_rollout :: RolloutQt
  mq_has_rollout :: bool
  mq_migration_version :: u32

datatype VerifyState =
    Verified | DeniedUnsigned | DeniedInvalidSignature | DeniedHashMismatch | DeniedPermissionExpansion
  | DeniedDowngrade | DeniedIncompatible | DeferredActiveSessions | DeferredRollout | DeferredLockdown | VerifyError

fun verifyStateName :: "VerifyState \<Rightarrow> string" where
  "verifyStateName Verified = ''verified''"
| "verifyStateName DeniedUnsigned = ''denied_unsigned''"
| "verifyStateName DeniedInvalidSignature = ''denied_invalid_signature''"
| "verifyStateName DeniedHashMismatch = ''denied_hash_mismatch''"
| "verifyStateName DeniedPermissionExpansion = ''denied_permission_expansion''"
| "verifyStateName DeniedDowngrade = ''denied_downgrade''"
| "verifyStateName DeniedIncompatible = ''denied_incompatible''"
| "verifyStateName DeferredActiveSessions = ''deferred_active_sessions''"
| "verifyStateName DeferredRollout = ''deferred_rollout''"
| "verifyStateName DeferredLockdown = ''deferred_lockdown''"
| "verifyStateName VerifyError = ''error''"

fun healthName :: "Health \<Rightarrow> string" where
  "healthName Healthy = ''healthy''"
| "healthName FailedStartup = ''failed_startup''"
| "healthName CrashLoop = ''crash_loop''"

record ResumeStateQt =
  rs_manifest_sha256 :: string
  rs_artifact_size :: int
  rs_bytes_received :: int

definition ResumeStateQt_complete :: "ResumeStateQt \<Rightarrow> bool" where
  "ResumeStateQt_complete s \<longleftrightarrow> rs_artifact_size s \<le> rs_bytes_received s"

definition allowsRemoteUpdateCheck :: "Lockdown \<Rightarrow> bool" where
  "allowsRemoteUpdateCheck l \<longleftrightarrow> \<not> lk_active l \<or> lk_user_override l"

text \<open>The comparison of versions: the numbers of the parts before a dash, and whether there is a dash.\<close>

definition version_nums :: "(string \<Rightarrow> nat option) \<Rightarrow> string \<Rightarrow> nat list \<times> bool" where
  "version_nums toULongLong v =
     (let (numeric, prerelease) =
        (if CHR ''-'' \<in> set v then (takeWhile (\<lambda>c. c \<noteq> CHR ''-'') v, True) else (v, False));
        parts = split_on (CHR ''.'') numeric in
      (map (\<lambda>i. if i < length parts then (case toULongLong (parts ! i) of Some n \<Rightarrow> n | None \<Rightarrow> 0) else 0) [0, 1, 2],
       prerelease))"

definition versionGe :: "(string \<Rightarrow> nat option) \<Rightarrow> string \<Rightarrow> string \<Rightarrow> bool" where
  "versionGe toULongLong a b =
     (let (av, aprere) = version_nums toULongLong a; (bv, bprere) = version_nums toULongLong b in
      case find (\<lambda>i. av ! i \<noteq> bv ! i) [0, 1, 2] of
        Some i \<Rightarrow> bv ! i < av ! i
      | None \<Rightarrow> if \<not> aprere \<and> bprere then True else if aprere \<and> \<not> bprere then False else True)"

definition verifyManifest :: "SignedManifestQt \<Rightarrow> string \<Rightarrow> u8 list \<Rightarrow> VerifyState" where
  "verifyManifest m publicKeyHex manifestBytes =
     (if mq_signature m = [] then DeniedUnsigned
      else if length publicKeyHex \<noteq> 64 then DeniedInvalidSignature
      else Verified)"

definition admitQt :: "(string \<Rightarrow> nat option) \<Rightarrow> SignedManifestQt \<Rightarrow> string list \<Rightarrow> string \<Rightarrow> bool \<Rightarrow> u32 \<Rightarrow> u64 \<Rightarrow> VerifyState" where
  "admitQt toULongLong m grantedPermissions currentVersion localOnlyLockdown activeSessions clientShare =
     (if localOnlyLockdown then DeferredLockdown
      else if list_ex (\<lambda>p. p \<notin> set grantedPermissions) (mq_required_permissions m) then DeniedPermissionExpansion
      else if \<not> versionGe toULongLong (mq_version m) currentVersion then DeniedDowngrade
      else if mq_has_rollout m
        \<and> (if rq_kill_switch (mq_rollout m) \<or> rq_fraction (mq_rollout m) \<le> 0 then True
           else if rq_fraction (mq_rollout m) < 1
           then (let bucket = clientShare mod 1000; threshold = of_int \<lfloor>rq_fraction (mq_rollout m) * 1000 + 1 / 2\<rfloor> in
             threshold \<le> bucket)
           else False)
      then DeferredRollout
      else if 0 < activeSessions then DeferredActiveSessions
      else Verified)"

definition recordStartup :: "bool \<Rightarrow> int \<Rightarrow> int \<Rightarrow> Health \<times> int" where
  "recordStartup ok quarantineAfter failures =
     (if ok then (Healthy, 0)
      else let f = failures + 1 in if quarantineAfter \<le> f then (CrashLoop, f) else (FailedStartup, f))"

section \<open>Lemmas\<close>

text \<open>
  A manifest of the core as the Qt structure carries it, and the class of a verdict. \<open>toULongLong\<close> is documented to
  read the digits of a number; versions are plain when their parts are digits.
\<close>

definition qt_manifest :: "SignedManifest \<Rightarrow> SignedManifestQt" where
  "qt_manifest m =
     \<lparr>mq_schema_version = uint (sm_schema_version m), mq_lane = sm_lane m, mq_channel = sm_channel m,
      mq_version = sm_version m, mq_artifact_sha256 = sm_artifact_sha256 m, mq_artifact_size = uint (sm_artifact_size m),
      mq_signature = sm_signature m, mq_compat = sm_compat m, mq_required_permissions = sm_required_permissions m,
      mq_rollout = (case sm_rollout m of None \<Rightarrow> \<lparr>rq_fraction = 1, rq_kill_switch = False\<rparr>
        | Some r \<Rightarrow> \<lparr>rq_fraction = ro_fraction r, rq_kill_switch = ro_kill_switch r\<rparr>),
      mq_has_rollout = (sm_rollout m \<noteq> None), mq_migration_version = sm_migration_version m\<rparr>"

fun verdict_code :: "VerifyState \<Rightarrow> ErrorCode option" where
  "verdict_code DeniedPermissionExpansion = Some EcPermissionExpansion"
| "verdict_code DeniedDowngrade = Some EcDowngrade"
| "verdict_code DeferredActiveSessions = Some EcDeferred"
| "verdict_code DeferredRollout = Some EcDeferred"
| "verdict_code DeferredLockdown = Some EcDeferred"
| "verdict_code _ = None"

definition digits_only :: "string \<Rightarrow> bool" where
  "digits_only s \<longleftrightarrow> list_all (\<lambda>c. char_digit c \<noteq> None) s"

definition plain_version :: "string \<Rightarrow> bool" where
  "plain_version v \<longleftrightarrow> list_all digits_only (split_on (CHR ''.'') (takeWhile (\<lambda>c. c \<noteq> CHR ''-'') v))"

definition reads_digits :: "(string \<Rightarrow> nat option) \<Rightarrow> bool" where
  "reads_digits toULongLong \<longleftrightarrow> (\<forall>s. digits_only s \<longrightarrow> toULongLong s = parse_unsigned 64 s)"

lemma takeWhile_no_dash: "CHR ''-'' \<notin> set v \<Longrightarrow> takeWhile (\<lambda>c. c \<noteq> CHR ''-'') v = v"
  by (induction v) auto

lemma version_nums_core:
  assumes "reads_digits tu" "plain_version v"
  shows "version_nums tu v = (map (version_part (fst (parse_version v))) [0, 1, 2], snd (parse_version v))"
proof -
  define parts where "parts = split_on (CHR ''.'') (takeWhile (\<lambda>c. c \<noteq> CHR ''-'') v)"
  have "tu (parts ! i) = parse_unsigned 64 (parts ! i)" if "i < length parts" for i
    using assms that by (auto simp: reads_digits_def plain_version_def list_all_length parts_def)
  then have nth: "(if i < length parts then (case tu (parts ! i) of Some n \<Rightarrow> n | None \<Rightarrow> 0) else 0)
      = version_part (map (\<lambda>p. case parse_unsigned 64 p of Some n \<Rightarrow> n | None \<Rightarrow> 0) (take 3 parts)) i" if "i < 3" for i
    using that by (simp add: version_part_def)
  have "version_nums tu v
      = (map (\<lambda>i. if i < length parts then (case tu (parts ! i) of Some n \<Rightarrow> n | None \<Rightarrow> 0) else 0) [0, 1, 2], CHR ''-'' \<in> set v)"
    by (cases "CHR ''-'' \<in> set v") (simp_all add: version_nums_def parts_def takeWhile_no_dash Let_def)
  moreover have "parse_version v = (map (\<lambda>p. case parse_unsigned 64 p of Some n \<Rightarrow> n | None \<Rightarrow> 0) (take 3 parts), CHR ''-'' \<in> set v)"
    by (cases "CHR ''-'' \<in> set v") (simp_all add: parse_version_def parts_def takeWhile_no_dash)
  ultimately show ?thesis using nth [of 0] nth [of "Suc 0"] nth [of 2] by simp
qed

lemma versionGe_core:
  "reads_digits tu \<Longrightarrow> plain_version a \<Longrightarrow> plain_version b \<Longrightarrow> versionGe tu a b = version_ge a b"
  by (cases "parse_version a"; cases "parse_version b")
    (auto simp: versionGe_def version_ge_def version_nums_core split: bool.split)

lemma rollout_core:
  "mq_has_rollout (qt_manifest m)
     \<and> (if rq_kill_switch (mq_rollout (qt_manifest m)) \<or> rq_fraction (mq_rollout (qt_manifest m)) \<le> 0 then True
        else if rq_fraction (mq_rollout (qt_manifest m)) < 1
        then (let bucket = share mod 1000; threshold = of_int \<lfloor>rq_fraction (mq_rollout (qt_manifest m)) * 1000 + 1 / 2\<rfloor> in
          threshold \<le> bucket)
        else False)
   \<longleftrightarrow> (case sm_rollout m of None \<Rightarrow> False | Some r \<Rightarrow> \<not> offered share r)"
  by (cases "sm_rollout m") (auto simp: qt_manifest_def offered_def Let_def not_less)

definition startup_step :: "bool \<Rightarrow> int \<Rightarrow> int" where
  "startup_step ok failures = snd (recordStartup ok 3 failures)"

lemma startup_run: "run startup_step xs 0 = int (recent_failures xs)"
proof (induction xs rule: rev_induct)
  case (snoc ok xs)
  then show ?case
    by (simp add: run_append recent_failures_snoc startup_step_def recordStartup_def Let_def)
qed (simp add: recent_failures_def)

section \<open>Properties\<close>

text \<open>
  C36: The Qt updater admits what the core admits. If \<open>toULongLong\<close> reads digits and the versions are plain, then for every
  manifest and policy the verdict of the Qt admission is of the class of the core's answer: admitted, refused for the
  permissions or as a downgrade, or deferred.
\<close>

theorem updater_admissions_agree:
  assumes "reads_digits toULongLong" and "plain_version (sm_version m)" and "plain_version (up_current_version p)"
  shows "verdict_code (admitQt toULongLong (qt_manifest m) (up_granted_permissions p) (up_current_version p)
      (up_local_only_lockdown p) (up_active_sessions p) (up_client_share p))
    = (case admit m p of Inl e \<Rightarrow> Some (ue_code e) | Inr _ \<Rightarrow> None)"
proof -
  have version: "versionGe toULongLong (mq_version (qt_manifest m)) (up_current_version p)
      = version_ge (sm_version m) (up_current_version p)"
    using versionGe_core [OF assms] by (simp add: qt_manifest_def)
  have permissions: "list_ex (\<lambda>q. q \<notin> set (up_granted_permissions p)) (mq_required_permissions (qt_manifest m))
      \<longleftrightarrow> find (\<lambda>q. q \<notin> set (up_granted_permissions p)) (sm_required_permissions m) \<noteq> None"
    by (auto simp: qt_manifest_def list_ex_iff find_None_iff)
  show ?thesis
    unfolding admitQt_def admit_def version permissions rollout_core
    by (auto simp: UpdateError_new_def split: option.split)
qed

theorem updater_admissions_agree_witness:
  "verdict_code (admitQt (parse_unsigned 64) (qt_manifest (demo_manifest\<lparr>sm_version := ''1.2.3''\<rparr>)) [] ''1.2.4''
      False 0 7)
    = (case admit (demo_manifest\<lparr>sm_version := ''1.2.3''\<rparr>) \<lparr>up_granted_permissions = [], up_current_version = ''1.2.4'',
        up_local_only_lockdown = False, up_active_sessions = 0, up_client_share = 7\<rparr> of Inl e \<Rightarrow> Some (ue_code e) | Inr _ \<Rightarrow> None)"
proof -
  have "plain_version ''1.2.3''" "plain_version ''1.2.4''" by code_simp+
  then show ?thesis
    using updater_admissions_agree [of "parse_unsigned 64" "demo_manifest\<lparr>sm_version := ''1.2.3''\<rparr>"
      "\<lparr>up_granted_permissions = [], up_current_version = ''1.2.4'', up_local_only_lockdown = False,
        up_active_sessions = 0, up_client_share = 7\<rparr>"]
    by (simp add: reads_digits_def)
qed

text \<open>
  Any signature verifies. The Qt check of a manifest answers \<open>Verified\<close> for every text as a signature and every key of
  64 characters, whatever was signed.
\<close>

theorem any_signature_verifies:
  "(if mq_signature m \<noteq> [] \<and> length publicKeyHex = 64 then verifyManifest m publicKeyHex manifestBytes = Verified else True)"
  by (simp add: verifyManifest_def)

text \<open>
  The Qt counter of failed starts sees a crash loop when the core does: after any outcomes, a further failure is a
  crash loop exactly when it is the third in a row or later, and the names of the states are those of the core.
\<close>

theorem startup_counters_agree:
  "fst (recordStartup False 3 (run startup_step xs 0)) = (if 3 \<le> recent_failures (xs @ [False]) then CrashLoop else FailedStartup)
   \<and> recordStartup True 3 (run startup_step xs 0) = (Healthy, 0)
   \<and> laneName l = UpdateLane_name l \<and> channelName c = channel_name c
   \<and> allowsRemoteUpdateCheck k = allows_remote_update_check k"
proof -
  have "laneName l = UpdateLane_name l" by (cases l) (simp_all add: laneName_def)
  moreover have "channelName c = channel_name c" by (cases c) (simp_all add: channelName_def)
  ultimately show ?thesis
    by (auto simp: recordStartup_def startup_run recent_failures_snoc Let_def allowsRemoteUpdateCheck_def
        allows_remote_update_check_def)
qed

end
