(* ===== verification/Workspace.thy ===== *)
theory Workspace
  imports Complex_Main Prelude
begin

text \<open>
  The workspace, \<open>src/wiremudder/ui/workspace_boundary.cpp\<close> and its header: gauges, theme, and the layout of docks
  with its JSON form. A JSON value has numbers here, exact rationals, which the gauges need; an object is an
  association list, and reading a value of another type, or a missing one, gives the default of the call.
\<close>

datatype qjson =
    QNull | QBool bool | QDouble rat | QText string | QArray "qjson list" | QObject "(string \<times> qjson) list"

definition q_value :: "string \<Rightarrow> (string \<times> qjson) list \<Rightarrow> qjson" where
  "q_value k obj = (case map_of obj k of None \<Rightarrow> QNull | Some v \<Rightarrow> v)"

definition q_string :: "string \<Rightarrow> qjson \<Rightarrow> string" where
  "q_string d v = (case v of QText s \<Rightarrow> s | _ \<Rightarrow> d)"

definition q_bool :: "bool \<Rightarrow> qjson \<Rightarrow> bool" where
  "q_bool d v = (case v of QBool b \<Rightarrow> b | _ \<Rightarrow> d)"

definition q_double :: "qjson \<Rightarrow> rat" where
  "q_double v = (case v of QDouble x \<Rightarrow> x | _ \<Rightarrow> 0)"

definition q_array :: "qjson \<Rightarrow> qjson list" where
  "q_array v = (case v of QArray xs \<Rightarrow> xs | _ \<Rightarrow> [])"

definition q_object :: "qjson \<Rightarrow> (string \<times> qjson) list" where
  "q_object v = (case v of QObject o1 \<Rightarrow> o1 | _ \<Rightarrow> [])"

text \<open>Gauges and docks are kept in vectors, in which a value replaces the first one with its identifier.\<close>

fun put_first :: "('a \<Rightarrow> 'k) \<Rightarrow> 'a \<Rightarrow> 'a list \<Rightarrow> 'a list" where
  "put_first key x [] = [x]"
| "put_first key x (y # ys) = (if key y = key x then x # ys else y # put_first key x ys)"

section \<open>Gauges\<close>

record StatusGauge =
  sg_id :: string
  sg_label :: string
  sg_value :: string
  sg_min :: rat
  sg_max :: rat

record StatusGaugeQt =
  gq_gauges :: "StatusGauge list"

definition StatusGaugeQt_set :: "StatusGauge \<Rightarrow> StatusGaugeQt \<Rightarrow> StatusGaugeQt" where
  "StatusGaugeQt_set g q = q\<lparr>gq_gauges := put_first sg_id g (gq_gauges q)\<rparr>"

definition StatusGaugeQt_has :: "string \<Rightarrow> StatusGaugeQt \<Rightarrow> bool" where
  "StatusGaugeQt_has i q = list_ex (\<lambda>g. sg_id g = i) (gq_gauges q)"

definition StatusGaugeQt_value :: "string \<Rightarrow> StatusGaugeQt \<Rightarrow> string" where
  "StatusGaugeQt_value i q = (case find (\<lambda>g. sg_id g = i) (gq_gauges q) of Some g \<Rightarrow> sg_value g | None \<Rightarrow> [])"

definition StatusGaugeQt_ids :: "StatusGaugeQt \<Rightarrow> string list" where
  "StatusGaugeQt_ids q = map sg_id (gq_gauges q)"

definition gauge_to_json :: "StatusGauge \<Rightarrow> qjson" where
  "gauge_to_json g = QObject [(''id'', QText (sg_id g)), (''label'', QText (sg_label g)), (''value'', QText (sg_value g)),
     (''min'', QDouble (sg_min g)), (''max'', QDouble (sg_max g))]"

definition StatusGaugeQt_toJson :: "StatusGaugeQt \<Rightarrow> qjson list" where
  "StatusGaugeQt_toJson q = map gauge_to_json (gq_gauges q)"

text \<open>An element that is no object, or has no identifier, is skipped.\<close>

definition gauge_of_json :: "qjson \<Rightarrow> StatusGauge option" where
  "gauge_of_json v =
     (case v of
        QObject o1 \<Rightarrow>
          let i = q_string [] (q_value ''id'' o1) in
          if i = [] then None
          else Some \<lparr>sg_id = i, sg_label = q_string [] (q_value ''label'' o1), sg_value = q_string [] (q_value ''value'' o1),
            sg_min = q_double (q_value ''min'' o1), sg_max = q_double (q_value ''max'' o1)\<rparr>
      | _ \<Rightarrow> None)"

definition StatusGaugeQt_fromJson :: "qjson list \<Rightarrow> StatusGaugeQt \<Rightarrow> StatusGaugeQt" where
  "StatusGaugeQt_fromJson arr q = q\<lparr>gq_gauges := List.map_filter gauge_of_json arr\<rparr>"

section \<open>The theme\<close>

record ThemeQt =
  tq_name :: string
  tq_fg :: string
  tq_bg :: string
  tq_high_contrast :: bool
  tq_ansi :: "string list"

definition ThemeQt_new :: "string \<Rightarrow> ThemeQt" where
  "ThemeQt_new name = \<lparr>tq_name = name, tq_fg = ''#d0d0d0'', tq_bg = ''#1e1e1e'', tq_high_contrast = False, tq_ansi =
     [''#000000'', ''#cd0000'', ''#00cd00'', ''#cdcd00'', ''#0000ee'', ''#cd00cd'', ''#00cdcd'', ''#e5e5e5'',
      ''#7f7f7f'', ''#ff0000'', ''#00ff00'', ''#ffff00'', ''#5c5cff'', ''#ff00ff'', ''#00ffff'', ''#ffffff'']\<rparr>"

definition ThemeQt_setName :: "string \<Rightarrow> ThemeQt \<Rightarrow> ThemeQt" where
  "ThemeQt_setName name t = t\<lparr>tq_name := name\<rparr>"

definition ThemeQt_setColors :: "string \<Rightarrow> string \<Rightarrow> ThemeQt \<Rightarrow> ThemeQt" where
  "ThemeQt_setColors fg bg t = t\<lparr>tq_fg := fg, tq_bg := bg\<rparr>"

definition ThemeQt_setHighContrast :: "bool \<Rightarrow> ThemeQt \<Rightarrow> ThemeQt" where
  "ThemeQt_setHighContrast v t = t\<lparr>tq_high_contrast := v\<rparr>"

section \<open>The layout\<close>

record DockPaneSpec =
  dk_id :: string
  dk_title :: string
  dk_visible :: bool
  dk_position :: string

record WorkspaceLayoutQt =
  wl_name :: string
  wl_docks :: "DockPaneSpec list"
  wl_gauges :: StatusGaugeQt
  wl_theme :: ThemeQt

definition WorkspaceLayoutQt_new :: "string \<Rightarrow> WorkspaceLayoutQt" where
  "WorkspaceLayoutQt_new name =
     \<lparr>wl_name = name, wl_docks = [], wl_gauges = \<lparr>gq_gauges = []\<rparr>, wl_theme = ThemeQt_new ''default''\<rparr>"

definition addDock :: "DockPaneSpec \<Rightarrow> WorkspaceLayoutQt \<Rightarrow> WorkspaceLayoutQt" where
  "addDock d l = l\<lparr>wl_docks := put_first dk_id d (wl_docks l)\<rparr>"

definition removeDock :: "string \<Rightarrow> WorkspaceLayoutQt \<Rightarrow> WorkspaceLayoutQt" where
  "removeDock i l =
     (case remove_first (\<lambda>d. dk_id d = i) (wl_docks l) of Some ds \<Rightarrow> l\<lparr>wl_docks := ds\<rparr> | None \<Rightarrow> l)"

definition hasDock :: "string \<Rightarrow> WorkspaceLayoutQt \<Rightarrow> bool" where
  "hasDock i l = list_ex (\<lambda>d. dk_id d = i) (wl_docks l)"

definition dock_to_json :: "DockPaneSpec \<Rightarrow> qjson" where
  "dock_to_json d = QObject [(''id'', QText (dk_id d)), (''title'', QText (dk_title d)), (''visible'', QBool (dk_visible d)),
     (''position'', QText (dk_position d))]"

definition dock_of_json :: "qjson \<Rightarrow> DockPaneSpec option" where
  "dock_of_json v =
     (case v of
        QObject o1 \<Rightarrow>
          let i = q_string [] (q_value ''id'' o1) in
          if i = [] then None
          else Some \<lparr>dk_id = i, dk_title = q_string [] (q_value ''title'' o1), dk_visible = q_bool True (q_value ''visible'' o1),
            dk_position = q_string ''right'' (q_value ''position'' o1)\<rparr>
      | _ \<Rightarrow> None)"

definition WorkspaceLayoutQt_toJson :: "WorkspaceLayoutQt \<Rightarrow> (string \<times> qjson) list" where
  "WorkspaceLayoutQt_toJson l =
     [(''name'', QText (wl_name l)), (''docks'', QArray (map dock_to_json (wl_docks l))),
      (''gauges'', QArray (StatusGaugeQt_toJson (wl_gauges l))),
      (''theme'', QObject [(''name'', QText (tq_name (wl_theme l))), (''fg'', QText (tq_fg (wl_theme l))),
         (''bg'', QText (tq_bg (wl_theme l))), (''highContrast'', QBool (tq_high_contrast (wl_theme l)))])]"

definition WorkspaceLayoutQt_fromJson :: "(string \<times> qjson) list \<Rightarrow> WorkspaceLayoutQt \<Rightarrow> bool \<times> WorkspaceLayoutQt" where
  "WorkspaceLayoutQt_fromJson obj l =
     (let l1 = l\<lparr>wl_name := q_string [] (q_value ''name'' obj)\<rparr> in
      if wl_name l1 = [] then (False, l1)
      else
        let theme = q_object (q_value ''theme'' obj) in
        (True, l1\<lparr>wl_docks := List.map_filter dock_of_json (q_array (q_value ''docks'' obj)),
           wl_gauges := StatusGaugeQt_fromJson (q_array (q_value ''gauges'' obj)) (wl_gauges l1),
           wl_theme := ThemeQt_setHighContrast (q_bool False (q_value ''highContrast'' theme))
             (ThemeQt_setColors (q_string ''#d0d0d0'' (q_value ''fg'' theme)) (q_string ''#1e1e1e'' (q_value ''bg'' theme))
               (ThemeQt_setName (q_string ''default'' (q_value ''name'' theme)) (wl_theme l1)))\<rparr>))"

section \<open>Layouts as the operations make them\<close>

datatype layout_op =
    AddDock DockPaneSpec | RemoveDock string | SetGauge StatusGauge | SetTheme string | SetColors string string
  | SetHighContrast bool | LoadGauges "qjson list" | LoadLayout "(string \<times> qjson) list"

fun layout_step :: "layout_op \<Rightarrow> WorkspaceLayoutQt \<Rightarrow> WorkspaceLayoutQt" where
  "layout_step (AddDock d) l = addDock d l"
| "layout_step (RemoveDock i) l = removeDock i l"
| "layout_step (SetGauge g) l = l\<lparr>wl_gauges := StatusGaugeQt_set g (wl_gauges l)\<rparr>"
| "layout_step (SetTheme n) l = l\<lparr>wl_theme := ThemeQt_setName n (wl_theme l)\<rparr>"
| "layout_step (SetColors fg bg) l = l\<lparr>wl_theme := ThemeQt_setColors fg bg (wl_theme l)\<rparr>"
| "layout_step (SetHighContrast b) l = l\<lparr>wl_theme := ThemeQt_setHighContrast b (wl_theme l)\<rparr>"
| "layout_step (LoadGauges arr) l = l\<lparr>wl_gauges := StatusGaugeQt_fromJson arr (wl_gauges l)\<rparr>"
| "layout_step (LoadLayout obj) l = snd (WorkspaceLayoutQt_fromJson obj l)"

definition ansi_kept :: "WorkspaceLayoutQt \<Rightarrow> bool" where
  "ansi_kept l \<longleftrightarrow> tq_ansi (wl_theme l) = tq_ansi (ThemeQt_new [])"

lemmas theme_setters = ThemeQt_setName_def ThemeQt_setColors_def ThemeQt_setHighContrast_def

interpretation ansi: machine_invariant layout_step ansi_kept
proof
  fix s x
  assume "ansi_kept s"
  then show "ansi_kept (layout_step x s)"
    by (cases x) (simp_all add: ansi_kept_def theme_setters addDock_def removeDock_def WorkspaceLayoutQt_fromJson_def
        Let_def split: option.split)
qed

lemma ansi_new: "ansi_kept (WorkspaceLayoutQt_new n)"
  by (simp add: ansi_kept_def WorkspaceLayoutQt_new_def ThemeQt_new_def)

lemma q_value_Cons: "q_value k ((k', v) # obj) = (if k' = k then v else q_value k obj)"
  by (simp add: q_value_def)

definition gauge_named :: "StatusGauge \<Rightarrow> bool" where
  "gauge_named g \<longleftrightarrow> sg_id g \<noteq> []"

definition dock_named :: "DockPaneSpec \<Rightarrow> bool" where
  "dock_named d \<longleftrightarrow> dk_id d \<noteq> []"

lemma gauge_json: "gauge_of_json (gauge_to_json g) = (if gauge_named g then Some g else None)"
  by (simp add: gauge_of_json_def gauge_to_json_def gauge_named_def q_value_Cons q_string_def q_double_def Let_def)

lemma dock_json: "dock_of_json (dock_to_json d) = (if dock_named d then Some d else None)"
  by (simp add: dock_of_json_def dock_to_json_def dock_named_def q_value_Cons q_string_def q_bool_def Let_def)

lemma map_filter_back: "(\<And>x. f (g x) = (if P x then Some x else None)) \<Longrightarrow> List.map_filter f (map g xs) = filter P xs"
  by (induction xs) (simp_all add: List.map_filter_simps)

lemma gauges_json:
  "StatusGaugeQt_fromJson (StatusGaugeQt_toJson q) r = q\<lparr>gq_gauges := filter gauge_named (gq_gauges q)\<rparr>"
  unfolding StatusGaugeQt_fromJson_def StatusGaugeQt_toJson_def by (simp add: map_filter_back [of gauge_of_json gauge_to_json gauge_named] gauge_json)

lemma layout_loads:
  assumes "wl_name l \<noteq> []" and "ansi_kept l" and "ansi_kept m"
  shows "WorkspaceLayoutQt_fromJson (WorkspaceLayoutQt_toJson l) m
    = (True, l\<lparr>wl_docks := filter dock_named (wl_docks l),
        wl_gauges := (wl_gauges l)\<lparr>gq_gauges := filter gauge_named (gq_gauges (wl_gauges l))\<rparr>\<rparr>)"
  using assms map_filter_back [of dock_of_json dock_to_json dock_named "wl_docks l", OF dock_json] gauges_json [of "wl_gauges l" "wl_gauges m"]
  by (simp add: WorkspaceLayoutQt_fromJson_def WorkspaceLayoutQt_toJson_def q_value_Cons q_string_def q_bool_def q_array_def
      q_object_def theme_setters ansi_kept_def Let_def)

lemma filter_same: "(filter P xs = xs) = list_all P xs"
  by (auto simp: list_all_iff filter_id_conv)

lemma all_named:
  "(l\<lparr>wl_docks := filter dock_named (wl_docks l),
      wl_gauges := (wl_gauges l)\<lparr>gq_gauges := filter gauge_named (gq_gauges (wl_gauges l))\<rparr>\<rparr> = l)
    = (list_all dock_named (wl_docks l) \<and> list_all gauge_named (gq_gauges (wl_gauges l)))"
  by (cases l, cases "wl_gauges l") (simp add: filter_same)

lemma nameless_load:
  "wl_name l = [] \<Longrightarrow> WorkspaceLayoutQt_fromJson (WorkspaceLayoutQt_toJson l) m = (False, m\<lparr>wl_name := []\<rparr>)"
  by (simp add: WorkspaceLayoutQt_fromJson_def WorkspaceLayoutQt_toJson_def q_value_Cons q_string_def Let_def)

text \<open>The docks as a map from identifiers, kept in the order of insertion.\<close>

datatype dock_op = Put DockPaneSpec | Drop string

fun dock_step :: "dock_op \<Rightarrow> WorkspaceLayoutQt \<Rightarrow> WorkspaceLayoutQt" where
  "dock_step (Put d) l = addDock d l"
| "dock_step (Drop i) l = removeDock i l"

fun dock_map_step :: "dock_op \<Rightarrow> (string, DockPaneSpec) hash_map \<Rightarrow> (string, DockPaneSpec) hash_map" where
  "dock_map_step (Put d) m = AList.update (dk_id d) d m"
| "dock_map_step (Drop i) m = AList.delete i m"

definition docks_rel :: "WorkspaceLayoutQt \<Rightarrow> (string, DockPaneSpec) hash_map \<Rightarrow> bool" where
  "docks_rel l m \<longleftrightarrow> m = keyed dk_id id (wl_docks l) \<and> distinct (map dk_id (wl_docks l))"

lemma put_first_keyed: "keyed key id (put_first key x xs) = AList.update (key x) x (keyed key id xs)"
  by (induction xs) auto

lemma put_first_keys: "set (map key (put_first key x xs)) = insert (key x) (set (map key xs))"
  by (induction xs) auto

lemma put_first_distinct: "distinct (map key xs) \<Longrightarrow> distinct (map key (put_first key x xs))"
proof (induction xs)
  case (Cons y ys)
  then show ?case using put_first_keys [of key x ys] by auto
qed simp

interpretation docks: simulation dock_step dock_map_step "\<lambda>x. x" docks_rel "\<lambda>x. True"
proof
  fix c a x
  assume r: "docks_rel c a"
  show "docks_rel (dock_step x c) (dock_map_step x a)"
  proof (cases x)
    case (Put d)
    then show ?thesis using r by (simp add: docks_rel_def addDock_def put_first_keyed put_first_distinct)
  next
    case (Drop i)
    show ?thesis
    proof (cases "remove_first (\<lambda>d. dk_id d = i) (wl_docks c)")
      case None
      then have "AList.delete i a = a" using r
        by (auto simp: docks_rel_def remove_first_None keyed_def image_image intro!: delete_idem)
      then show ?thesis using Drop None r by (simp add: removeDock_def)
    next
      case (Some ds)
      then show ?thesis using Drop r remove_first_Some [of dk_id i "wl_docks c" ds id]
        by (simp add: docks_rel_def removeDock_def)
    qed
  qed
qed

section \<open>Properties\<close>

text \<open>
  C16: A saved workspace loads back. Take a layout made by any operations on a new one, loads of any JSON into it or
  into its gauges among them, and load its JSON form into any other such layout. If the layout has a name, the load
  succeeds and gives the layout again, theme, docks and gauges in their order, without the docks and gauges that have
  no identifier: it is the same layout exactly when each has one. If it has no name, the load fails, and the layout
  that was loaded into has lost its name and nothing else.
\<close>

theorem workspace_json_trip:
  "(let l = run layout_step xs (WorkspaceLayoutQt_new n);
        m = run layout_step ys (WorkspaceLayoutQt_new k);
        (ok, r) = WorkspaceLayoutQt_fromJson (WorkspaceLayoutQt_toJson l) m in
    if wl_name l = [] then ok = False \<and> r = m\<lparr>wl_name := []\<rparr>
    else ok = True
      \<and> r = l\<lparr>wl_docks := filter dock_named (wl_docks l),
            wl_gauges := (wl_gauges l)\<lparr>gq_gauges := filter gauge_named (gq_gauges (wl_gauges l))\<rparr>\<rparr>
      \<and> (r = l) = (list_all dock_named (wl_docks l) \<and> list_all gauge_named (gq_gauges (wl_gauges l))))"
proof -
  let ?l = "run layout_step xs (WorkspaceLayoutQt_new n)" and ?m = "run layout_step ys (WorkspaceLayoutQt_new k)"
  have "ansi_kept ?l" "ansi_kept ?m" by (rule ansi.run_inv [OF ansi_new])+
  then show ?thesis
    using layout_loads [of ?l ?m] nameless_load [of ?l ?m]
    by (cases "wl_name ?l = []") (simp_all only: Let_def all_named prod.case if_True if_False simp_thms)
qed

text \<open>
  Docks are a map. After any additions and removals the docks of a new layout are the entries of a map from
  identifiers after the same insertions and deletions, in the order of insertion, and a dock is present exactly when the
  map has its identifier.
\<close>

theorem docks_are_map:
  "(let l = run dock_step xs (WorkspaceLayoutQt_new n); m = run dock_map_step xs [] in
    map (\<lambda>d. (dk_id d, d)) (wl_docks l) = m \<and> hasDock i l = (map_of m i \<noteq> None))"
proof -
  let ?l = "run dock_step xs (WorkspaceLayoutQt_new n)"
  have "docks_rel (WorkspaceLayoutQt_new n) []" by (simp add: docks_rel_def WorkspaceLayoutQt_new_def)
  from docks.sim_run [OF this, of xs] have m: "run dock_map_step xs [] = keyed dk_id id (wl_docks ?l)"
    by (simp add: docks_rel_def list.map_ident list_all_iff)
  show ?thesis
    unfolding Let_def m by (auto simp: keyed_def hasDock_def list_ex_iff map_of_eq_None_iff image_iff)
qed

text \<open>
  Loading a file that names a dock twice breaks this: both are kept, and removing the dock leaves the other, so it is
  still there.
\<close>

theorem loaded_dock_survives_removal:
  "(let d = QObject [(''id'', QText ''map'')];
        l = snd (WorkspaceLayoutQt_fromJson [(''name'', QText ''play''), (''docks'', QArray [d, d])] (WorkspaceLayoutQt_new ''play'')) in
    length (wl_docks l) = 2 \<and> hasDock ''map'' (removeDock ''map'' l))"
  by code_simp

text \<open>
  A failed load is not without effect. Loading an object without a name reports failure and has cleared the name of the
  layout; what is then saved cannot be loaded again.
\<close>

theorem failed_load_clears_name:
  "(let (ok, l1) = WorkspaceLayoutQt_fromJson [] l in
    \<not> ok \<and> l1 = l\<lparr>wl_name := []\<rparr> \<and> fst (WorkspaceLayoutQt_fromJson (WorkspaceLayoutQt_toJson l1) m) = False)"
  by (simp add: WorkspaceLayoutQt_fromJson_def WorkspaceLayoutQt_toJson_def q_value_def q_string_def)

text \<open>
  A gauge without bounds has the range from 0 to 100 when it is made and from 0 to 0 when it is loaded.
\<close>

theorem loaded_gauge_range:
  "map_option (\<lambda>g. (sg_min g, sg_max g)) (gauge_of_json (QObject [(''id'', QText ''hp'')])) = Some (0, 0)"
  by code_simp

end
