(* ===== verification/Panes.thy ===== *)
theory Panes
  imports Complex_Main Terminal
begin

text \<open>
  What the panes of the user interface share, and three of them: the copilot pane (\<open>ui/copilot/copilot_boundary\<close>), the
  accessibility pane (\<open>accessibility/accessibility_boundary\<close>) and the import pane (\<open>ui/import/import_boundary\<close>). Each
  header declares the same eight states with the same labels; they are one type here.
\<close>

datatype PaneState = PsLoading | PsReady | PsDisabled | PsDenied | PsDegraded | PsCanceled | PsUnavailable | PsError

fun stateLabel :: "PaneState \<Rightarrow> string" where
  "stateLabel PsLoading = ''loading''"
| "stateLabel PsReady = ''ready''"
| "stateLabel PsDisabled = ''disabled''"
| "stateLabel PsDenied = ''denied''"
| "stateLabel PsDegraded = ''degraded''"
| "stateLabel PsCanceled = ''canceled''"
| "stateLabel PsUnavailable = ''unavailable''"
| "stateLabel PsError = ''error''"

text \<open>A pane that enters another state than these two clears what it shows.\<close>

definition shows_content :: "PaneState \<Rightarrow> bool" where
  "shows_content s \<longleftrightarrow> \<not> (s \<noteq> PsLoading \<and> s \<noteq> PsReady)"

text \<open>
  The interface of a pane: \<open>kept\<close> is the part that clearing leaves. What a pane holds after it was closed depends on
  that part only, whatever it was given before.
\<close>

locale pane =
  fixes set_state :: "PaneState \<Rightarrow> 'p \<Rightarrow> 'p"
    and state_of :: "'p \<Rightarrow> PaneState"
    and kept :: "'p \<Rightarrow> 'k"
  assumes state_set: "state_of (set_state s p) = s"
    and kept_set: "kept (set_state s p) = kept p"
    and closed_same: "\<not> shows_content s \<Longrightarrow> kept p = kept q \<Longrightarrow> set_state s p = set_state s q"
begin

lemma closed_twice: "\<not> shows_content s \<Longrightarrow> set_state s (set_state t p) = set_state s p"
  by (rule closed_same) (simp_all add: kept_set)

lemma closed_as_fresh: "(if shows_content s \<or> kept p \<noteq> kept q then True else set_state s p = set_state s q)"
  by (auto intro: closed_same)

end

section \<open>The copilot pane\<close>

record WhyCitationQt =
  wq_kind :: string
  wq_text :: string

record WhyExplanationQt =
  wy_evidence :: "WhyCitationQt list"
  wy_uncertainty :: string
  wy_rejected_alternatives :: "string list"
  wy_degraded :: bool

record CopilotDisclosureQt =
  cd_provider_id :: string
  cd_route_id :: string
  cd_privacy_mode :: string
  cd_redaction_patterns :: int
  cd_context_bytes :: int
  cd_prompt_tokens :: int
  cd_completion_tokens :: int
  cd_estimated_cost_usd_micros :: u64
  cd_latency_ms :: u64
  cd_degraded :: bool

record ActionProposalQt =
  aq_proposal_id :: string
  aq_command :: string
  aq_risk_tier :: int
  aq_requires_confirmation :: bool
  aq_reason :: string

record CopilotSuggestionQt =
  su_text :: string
  su_citations :: "WhyCitationQt list"
  su_confidence :: rat
  su_uncertainty :: string
  su_why :: WhyExplanationQt
  su_disclosure :: CopilotDisclosureQt
  su_action_proposal :: ActionProposalQt

definition CopilotSuggestionQt_new :: CopilotSuggestionQt where
  "CopilotSuggestionQt_new =
     \<lparr>su_text = [], su_citations = [], su_confidence = 0, su_uncertainty = [],
      su_why = \<lparr>wy_evidence = [], wy_uncertainty = [], wy_rejected_alternatives = [], wy_degraded = False\<rparr>,
      su_disclosure = \<lparr>cd_provider_id = [], cd_route_id = [], cd_privacy_mode = [], cd_redaction_patterns = 0,
        cd_context_bytes = 0, cd_prompt_tokens = 0, cd_completion_tokens = 0, cd_estimated_cost_usd_micros = 0,
        cd_latency_ms = 0, cd_degraded = False\<rparr>,
      su_action_proposal = \<lparr>aq_proposal_id = [], aq_command = [], aq_risk_tier = 1, aq_requires_confirmation = True,
        aq_reason = []\<rparr>\<rparr>"

record CopilotPaneQt =
  pc_state :: PaneState
  pc_suggestion :: CopilotSuggestionQt
  pc_history :: "CopilotSuggestionQt list"
  pc_max_history :: int
  pc_canceled :: bool
  pc_last_message :: string

definition CopilotPaneQt_new :: CopilotPaneQt where
  "CopilotPaneQt_new = \<lparr>pc_state = PsUnavailable, pc_suggestion = CopilotSuggestionQt_new, pc_history = [],
     pc_max_history = 50, pc_canceled = False, pc_last_message = []\<rparr>"

definition CopilotPaneQt_clear :: "CopilotPaneQt \<Rightarrow> CopilotPaneQt" where
  "CopilotPaneQt_clear p = p\<lparr>pc_suggestion := CopilotSuggestionQt_new\<rparr>"

definition CopilotPaneQt_setState :: "PaneState \<Rightarrow> CopilotPaneQt \<Rightarrow> CopilotPaneQt" where
  "CopilotPaneQt_setState s p =
     (let p1 = p\<lparr>pc_state := s\<rparr> in if shows_content s then p1 else CopilotPaneQt_clear p1)"

definition setSuggestion :: "CopilotSuggestionQt \<Rightarrow> CopilotPaneQt \<Rightarrow> CopilotPaneQt" where
  "setSuggestion s p =
     (let h = pc_history p @ [s] in
      p\<lparr>pc_suggestion := s, pc_state := PsReady, pc_history := if pc_max_history p < int (length h) then tl h else h\<rparr>)"

definition hasSuggestion :: "CopilotPaneQt \<Rightarrow> bool" where
  "hasSuggestion p \<longleftrightarrow> su_text (pc_suggestion p) \<noteq> []"

definition requestCancel :: "CopilotPaneQt \<Rightarrow> CopilotPaneQt" where
  "requestCancel p = CopilotPaneQt_clear (p\<lparr>pc_canceled := True, pc_state := PsCanceled\<rparr>)"

definition setMaxHistory :: "int \<Rightarrow> CopilotPaneQt \<Rightarrow> CopilotPaneQt" where
  "setMaxHistory n p = p\<lparr>pc_max_history := n\<rparr>"

definition CopilotPaneQt_setLastMessage :: "string \<Rightarrow> CopilotPaneQt \<Rightarrow> CopilotPaneQt" where
  "CopilotPaneQt_setLastMessage m p = p\<lparr>pc_last_message := m\<rparr>"

lemmas copilot_pane_defs = CopilotPaneQt_setState_def CopilotPaneQt_clear_def setSuggestion_def requestCancel_def
  setMaxHistory_def CopilotPaneQt_setLastMessage_def

datatype copilot_pane_op =
    PcState PaneState | PcSuggest CopilotSuggestionQt | PcClear | PcCancel | PcMaxHistory int | PcMessage string

fun copilot_pane_step :: "copilot_pane_op \<Rightarrow> CopilotPaneQt \<Rightarrow> CopilotPaneQt" where
  "copilot_pane_step (PcState s) p = CopilotPaneQt_setState s p"
| "copilot_pane_step (PcSuggest s) p = setSuggestion s p"
| "copilot_pane_step PcClear p = CopilotPaneQt_clear p"
| "copilot_pane_step PcCancel p = requestCancel p"
| "copilot_pane_step (PcMaxHistory n) p = setMaxHistory n p"
| "copilot_pane_step (PcMessage m) p = CopilotPaneQt_setLastMessage m p"

interpretation copilot_pane: pane CopilotPaneQt_setState pc_state
  "\<lambda>p. (pc_history p, pc_max_history p, pc_canceled p, pc_last_message p)"
proof
  fix s and p q :: CopilotPaneQt
  assume "\<not> shows_content s" and "(pc_history p, pc_max_history p, pc_canceled p, pc_last_message p)
    = (pc_history q, pc_max_history q, pc_canceled q, pc_last_message q)"
  then show "CopilotPaneQt_setState s p = CopilotPaneQt_setState s q"
    by (cases p; cases q) (simp add: copilot_pane_defs Let_def)
qed (simp_all add: copilot_pane_defs Let_def)

definition advice_shown :: "CopilotPaneQt \<Rightarrow> bool" where
  "advice_shown p \<longleftrightarrow> shows_content (pc_state p) \<or> pc_suggestion p = CopilotSuggestionQt_new"

interpretation advice: machine_invariant copilot_pane_step advice_shown
proof
  fix p x
  assume "advice_shown p"
  then show "advice_shown (copilot_pane_step x p)"
    by (cases x) (auto simp: advice_shown_def copilot_pane_defs shows_content_def Let_def)
qed

text \<open>The suggestions that a sequence of operations shows.\<close>

definition suggested :: "copilot_pane_op list \<Rightarrow> CopilotSuggestionQt list" where
  "suggested ops = List.map_filter (\<lambda>x. case x of PcSuggest s \<Rightarrow> Some s | _ \<Rightarrow> None) ops"

definition keeps_bound :: "copilot_pane_op \<Rightarrow> bool" where
  "keeps_bound x = (case x of PcMaxHistory n \<Rightarrow> False | _ \<Rightarrow> True)"

lemma suggested_simps:
  "suggested [] = []" "suggested (x # xs) = (case x of PcSuggest s \<Rightarrow> [s] | _ \<Rightarrow> []) @ suggested xs"
  by (simp_all add: suggested_def List.map_filter_simps split: copilot_pane_op.split)

lemma copilot_history_run:
  "list_all keeps_bound ops \<Longrightarrow> pc_history p = latest (pc_max_history p) ss \<Longrightarrow>
    pc_history (run copilot_pane_step ops p) = latest (pc_max_history p) (ss @ suggested ops)
    \<and> pc_max_history (run copilot_pane_step ops p) = pc_max_history p"
proof (induction ops arbitrary: p ss)
  case (Cons x xs)
  let ?s = "case x of PcSuggest s \<Rightarrow> [s] | _ \<Rightarrow> []"
  have "pc_history (copilot_pane_step x p) = latest (pc_max_history p) (ss @ ?s) \<and> pc_max_history (copilot_pane_step x p) = pc_max_history p"
    using Cons.prems latest_push [of "pc_max_history p" ss]
    by (cases x) (auto simp: copilot_pane_defs keeps_bound_def Let_def)
  then show ?case
    using Cons.IH [of "copilot_pane_step x p" "ss @ ?s"] Cons.prems(1) by (simp add: suggested_simps)
qed (simp add: suggested_simps)

section \<open>The accessibility pane\<close>

record AccessibilityProfile =
  ac_valid :: bool
  ac_keyboard_operable :: bool
  ac_visible_focus :: bool
  ac_screen_reader_labels :: bool
  ac_non_color_state :: bool
  ac_large_text_resilient :: bool
  ac_reduced_motion :: bool
  ac_no_animation :: bool
  ac_subtitles_available :: bool
  ac_raw_text_mode :: bool
  ac_raw_text_authoritative :: bool

definition AccessibilityProfile_new :: AccessibilityProfile where
  "AccessibilityProfile_new = \<lparr>ac_valid = False, ac_keyboard_operable = False, ac_visible_focus = False,
     ac_screen_reader_labels = False, ac_non_color_state = False, ac_large_text_resilient = False,
     ac_reduced_motion = False, ac_no_animation = False, ac_subtitles_available = False,
     ac_raw_text_mode = True, ac_raw_text_authoritative = True\<rparr>"

record TranslationCatalog =
  tc_valid :: bool
  tc_name :: string
  tc_resource :: string
  tc_suffix :: string
  tc_locales :: "string list"
  tc_translator_context :: bool

definition TranslationCatalog_new :: TranslationCatalog where
  "TranslationCatalog_new = \<lparr>tc_valid = False, tc_name = [], tc_resource = [], tc_suffix = [], tc_locales = [],
     tc_translator_context = True\<rparr>"

record AccessibilityPaneModel =
  am_profile :: AccessibilityProfile
  am_catalog :: TranslationCatalog
  am_state :: PaneState

definition AccessibilityPaneModel_new :: AccessibilityPaneModel where
  "AccessibilityPaneModel_new =
     \<lparr>am_profile = AccessibilityProfile_new, am_catalog = TranslationCatalog_new, am_state = PsLoading\<rparr>"

definition AccessibilityPaneModel_reset :: "AccessibilityPaneModel \<Rightarrow> AccessibilityPaneModel" where
  "AccessibilityPaneModel_reset p =
     p\<lparr>am_profile := AccessibilityProfile_new, am_catalog := TranslationCatalog_new, am_state := PsLoading\<rparr>"

definition catalogDisplay :: "AccessibilityPaneModel \<Rightarrow> string" where
  "catalogDisplay p =
     (let c = am_catalog p in
      if \<not> tc_valid c then ''no-translation-catalog''
      else tc_name c @ ''@'' @ tc_resource c @ '':'' @ tc_suffix c @ ''['' @ str_join '','' (tc_locales c) @ '']'')"

datatype accessibility_op = AmProfile AccessibilityProfile | AmCatalog TranslationCatalog | AmState PaneState | AmReset

fun accessibility_step :: "accessibility_op \<Rightarrow> AccessibilityPaneModel \<Rightarrow> AccessibilityPaneModel" where
  "accessibility_step (AmProfile x) p = p\<lparr>am_profile := x\<rparr>"
| "accessibility_step (AmCatalog x) p = p\<lparr>am_catalog := x\<rparr>"
| "accessibility_step (AmState x) p = p\<lparr>am_state := x\<rparr>"
| "accessibility_step AmReset p = AccessibilityPaneModel_reset p"

section \<open>The import pane\<close>

record ImportSummary =
  im_valid :: bool
  im_source_format :: string
  im_source_hash :: string
  im_imported_count :: int
  im_warning_count :: int
  im_unsupported_count :: int
  im_conflict_count :: int
  im_automation_disabled :: bool
  im_backup_path :: string
  im_rollback_path :: string
  im_diagnostics_path :: string

definition ImportSummary_new :: ImportSummary where
  "ImportSummary_new = \<lparr>im_valid = False, im_source_format = [], im_source_hash = [], im_imported_count = 0,
     im_warning_count = 0, im_unsupported_count = 0, im_conflict_count = 0, im_automation_disabled = True,
     im_backup_path = [], im_rollback_path = [], im_diagnostics_path = []\<rparr>"

record ImportPaneModel =
  pm_summary :: ImportSummary
  pm_state :: PaneState
  pm_review_requested :: bool

definition ImportPaneModel_new :: ImportPaneModel where
  "ImportPaneModel_new = \<lparr>pm_summary = ImportSummary_new, pm_state = PsLoading, pm_review_requested = False\<rparr>"

definition ImportPaneModel_reset :: "ImportPaneModel \<Rightarrow> ImportPaneModel" where
  "ImportPaneModel_reset p = p\<lparr>pm_summary := ImportSummary_new, pm_state := PsLoading, pm_review_requested := False\<rparr>"

datatype import_pane_op = PmSummary ImportSummary | PmState PaneState | PmReview | PmReset

fun import_pane_step :: "import_pane_op \<Rightarrow> ImportPaneModel \<Rightarrow> ImportPaneModel" where
  "import_pane_step (PmSummary x) p = p\<lparr>pm_summary := x\<rparr>"
| "import_pane_step (PmState x) p = p\<lparr>pm_state := x\<rparr>"
| "import_pane_step PmReview p = p\<lparr>pm_review_requested := True\<rparr>"
| "import_pane_step PmReset p = ImportPaneModel_reset p"

section \<open>Properties\<close>

text \<open>
  Advice is shown only while there may be some. After any operations on a new copilot pane, a pane in another state
  than loading or ready holds no suggestion.
\<close>

theorem advice_only_when_open:
  "(let p = run copilot_pane_step ops CopilotPaneQt_new in
    if shows_content (pc_state p) then True else \<not> hasSuggestion p \<and> pc_suggestion p = CopilotSuggestionQt_new)"
proof -
  have "advice_shown CopilotPaneQt_new" by (simp add: advice_shown_def CopilotPaneQt_new_def)
  from advice.run_inv [OF this, of ops] show ?thesis
    by (auto simp: Let_def advice_shown_def hasSuggestion_def CopilotSuggestionQt_new_def)
qed

text \<open>
  The history of the pane is the latest suggestions. When the bound is not changed, any operations leave the last 50
  suggestions that were shown, in order, those cancelled or cleared since included.
\<close>

theorem copilot_history_latest:
  "(if list_all keeps_bound ops then pc_history (run copilot_pane_step ops CopilotPaneQt_new) = latest 50 (suggested ops) else True)"
  using copilot_history_run [of ops CopilotPaneQt_new "[]"] by (simp add: CopilotPaneQt_new_def latest_def)

text \<open>
  A cancelled request stays cancelled. Nothing resets the flag: after a cancel, the next suggestion is ready to be shown
  and the pane still reports that it was cancelled.
\<close>

theorem cancel_flag_sticks:
  "(let p = run copilot_pane_step ops (requestCancel q) in pc_canceled p)
    \<and> pc_state (setSuggestion s (requestCancel q)) = PsReady"
proof -
  have "pc_canceled (run copilot_pane_step ops p)" if "pc_canceled p" for p
    using that
  proof (induction ops arbitrary: p)
    case (Cons x xs)
    have "pc_canceled (copilot_pane_step x p)" using Cons.prems by (cases x) (simp_all add: copilot_pane_defs Let_def)
    then show ?case using Cons.IH by simp
  qed simp
  moreover have "pc_canceled (requestCancel q)" by (simp add: copilot_pane_defs)
  ultimately show ?thesis by (simp add: copilot_pane_defs Let_def)
qed

text \<open>
  A smaller bound does not shorten the history. With three suggestions held, the bound one and a further suggestion
  leave three.
\<close>

theorem smaller_bound_keeps_history:
  "length (pc_history (run copilot_pane_step
     (replicate 3 (PcSuggest CopilotSuggestionQt_new) @ [PcMaxHistory 1, PcSuggest CopilotSuggestionQt_new]) CopilotPaneQt_new)) = 3"
  by (simp add: eval_nat_numeral copilot_pane_defs CopilotPaneQt_new_def Let_def)

text \<open>
  Two of the panes hold their content in every state: setting another state changes nothing else, and only resetting
  clears them.
\<close>

theorem model_panes_keep_content:
  "am_profile (accessibility_step (AmState s) a) = am_profile a \<and> catalogDisplay (accessibility_step (AmState s) a) = catalogDisplay a
    \<and> pm_summary (import_pane_step (PmState s) m) = pm_summary m
    \<and> accessibility_step AmReset a = AccessibilityPaneModel_new \<and> import_pane_step PmReset m = ImportPaneModel_new"
  by (simp add: catalogDisplay_def AccessibilityPaneModel_reset_def AccessibilityPaneModel_new_def ImportPaneModel_reset_def
      ImportPaneModel_new_def)

end
