(* ===== verification/PaneViews.thy ===== *)
theory PaneViews
  imports Panes
begin

text \<open>
  The passive panes of the user interface: soundscape, voice, help, diagnostics, renderer, power tools, assistance, soul
  and autopilot (\<open>ui/*/*_boundary\<close>), and the adapter of headless sessions (\<open>headless/headless_adapter_boundary\<close>). Each
  holds what is set, records what the user asks for, and clears itself when its state closes. A setter is one
  operation of the pane; the constant answers of a pane (it is passive, it cannot send) are not repeated here.
\<close>

section \<open>Soundscape pane\<close>

text \<open>The mode of the studio.\<close>

datatype SoundscapeModeQt = ModeDisabled | ModeMuted | ModeManual | ModeAuto

fun SoundscapePaneQt_modeLabel :: "SoundscapeModeQt \<Rightarrow> string" where
  "SoundscapePaneQt_modeLabel ModeDisabled = ''disabled''"
| "SoundscapePaneQt_modeLabel ModeMuted = ''muted''"
| "SoundscapePaneQt_modeLabel ModeManual = ''manual''"
| "SoundscapePaneQt_modeLabel ModeAuto = ''auto''"

record SoundscapeBindingQt =
  sb_kind :: string
  sb_asset_id :: string
  sb_volume :: int
  sb_enabled :: bool
  sb_user_author :: string

record SoundscapeProfileQt =
  sf_profile :: string
  sf_volume :: int
  sf_disabled :: bool

record SoundscapeAssetQt =
  sa_id :: string
  sa_license :: string
  sa_provenance :: string
  sa_sha256 :: string
  sa_user_local :: bool

record SoundscapePaneQt =
  ss_state :: PaneState
  ss_mode :: SoundscapeModeQt
  ss_bindings :: "SoundscapeBindingQt list"
  ss_profiles :: "SoundscapeProfileQt list"
  ss_assets :: "SoundscapeAssetQt list"
  ss_volume_requested :: string
  ss_volume_value :: int
  ss_enabled_requested :: string
  ss_enabled_value :: bool
  ss_transition_requested :: string
  ss_transition_ms :: int
  ss_cancel_requested :: bool
  ss_current :: string
  ss_queue_len :: int
  ss_load_shed :: int
  ss_coalesced :: int
  ss_transition_active :: bool
  ss_transition_remaining_ms :: int
  ss_failed :: bool
  ss_last_message :: string

definition SoundscapePaneQt_new :: SoundscapePaneQt where
  "SoundscapePaneQt_new = \<lparr>ss_state = PsUnavailable, ss_mode = ModeAuto, ss_bindings = [], ss_profiles = [], ss_assets = [],
     ss_volume_requested = [], ss_volume_value = 0, ss_enabled_requested = [], ss_enabled_value = False,
     ss_transition_requested = [], ss_transition_ms = 0, ss_cancel_requested = False, ss_current = [],
     ss_queue_len = 0, ss_load_shed = 0, ss_coalesced = 0, ss_transition_active = False,
     ss_transition_remaining_ms = 0, ss_failed = False, ss_last_message = []\<rparr>"

definition SoundscapePaneQt_clear :: "SoundscapePaneQt \<Rightarrow> SoundscapePaneQt" where
  "SoundscapePaneQt_clear p = p\<lparr>ss_bindings := [], ss_profiles := [], ss_assets := [], ss_volume_requested := [],
     ss_volume_value := 0, ss_enabled_requested := [], ss_enabled_value := False,
     ss_transition_requested := [], ss_transition_ms := 0, ss_cancel_requested := False,
     ss_current := [], ss_queue_len := 0, ss_load_shed := 0, ss_coalesced := 0,
     ss_transition_active := False, ss_transition_remaining_ms := 0, ss_failed := False\<rparr>"

definition SoundscapePaneQt_setState :: "PaneState \<Rightarrow> SoundscapePaneQt \<Rightarrow> SoundscapePaneQt" where
  "SoundscapePaneQt_setState s p = (let p1 = p\<lparr>ss_state := s\<rparr> in if shows_content s then p1 else SoundscapePaneQt_clear p1)"

datatype soundscape_op =
    SsState PaneState | SsBindings "SoundscapeBindingQt list" | SsRequestVolume string int
  | SsRequestEnabled string bool | SsProfiles "SoundscapeProfileQt list" | SsMode SoundscapeModeQt
  | SsCurrent string | SsQueueLen int | SsLoadShed int | SsCoalesced int | SsActive bool | SsRemaining int
  | SsRequestTransition string int | SsRequestCancel | SsAssets "SoundscapeAssetQt list" | SsFailed bool
  | SsMessage string | SsClear

fun soundscape_step :: "soundscape_op \<Rightarrow> SoundscapePaneQt \<Rightarrow> SoundscapePaneQt" where
  "soundscape_step (SsState x) p = SoundscapePaneQt_setState x p"
| "soundscape_step (SsBindings x) p = p\<lparr>ss_bindings := x\<rparr>"
| "soundscape_step (SsRequestVolume x0 x1) p = p\<lparr>ss_volume_requested := x0, ss_volume_value := x1\<rparr>"
| "soundscape_step (SsRequestEnabled x0 x1) p = p\<lparr>ss_enabled_requested := x0, ss_enabled_value := x1\<rparr>"
| "soundscape_step (SsProfiles x) p = p\<lparr>ss_profiles := x\<rparr>"
| "soundscape_step (SsMode x) p = p\<lparr>ss_mode := x\<rparr>"
| "soundscape_step (SsCurrent x) p = p\<lparr>ss_current := x\<rparr>"
| "soundscape_step (SsQueueLen x) p = p\<lparr>ss_queue_len := x\<rparr>"
| "soundscape_step (SsLoadShed x) p = p\<lparr>ss_load_shed := x\<rparr>"
| "soundscape_step (SsCoalesced x) p = p\<lparr>ss_coalesced := x\<rparr>"
| "soundscape_step (SsActive x) p = p\<lparr>ss_transition_active := x\<rparr>"
| "soundscape_step (SsRemaining x) p = p\<lparr>ss_transition_remaining_ms := x\<rparr>"
| "soundscape_step (SsRequestTransition x0 x1) p = p\<lparr>ss_transition_requested := x0, ss_transition_ms := x1\<rparr>"
| "soundscape_step SsRequestCancel p = p\<lparr>ss_cancel_requested := True\<rparr>"
| "soundscape_step (SsAssets x) p = p\<lparr>ss_assets := x\<rparr>"
| "soundscape_step (SsFailed x) p = p\<lparr>ss_failed := x\<rparr>"
| "soundscape_step (SsMessage x) p = p\<lparr>ss_last_message := x\<rparr>"
| "soundscape_step SsClear p = SoundscapePaneQt_clear p"

section \<open>Voice pane\<close>

datatype VoiceMicState = MicOff | MicListening | MicSpeaking | MicBargeIn | MicError | MicDisabled

fun VoicePaneQt_micLabel :: "VoiceMicState \<Rightarrow> string" where
  "VoicePaneQt_micLabel MicOff = ''off''"
| "VoicePaneQt_micLabel MicListening = ''listening''"
| "VoicePaneQt_micLabel MicSpeaking = ''speaking''"
| "VoicePaneQt_micLabel MicBargeIn = ''barge-in''"
| "VoicePaneQt_micLabel MicError = ''error''"
| "VoicePaneQt_micLabel MicDisabled = ''disabled''"

record VoiceMacroQt =
  vm_id :: string
  vm_name :: string
  vm_phrase :: string
  vm_command :: string
  vm_risk_tier :: string
  vm_confirmation_required :: bool
  vm_approved :: bool

record VoiceStyleQt =
  vs_id :: string
  vs_label :: string
  vs_kind :: string
  vs_license :: string
  vs_authorized :: bool
  vs_protected_identity :: bool

record SubtitleLineQt =
  sl_text :: string
  sl_private_line :: bool
  sl_at_ms :: u64

record VoicePaneQt =
  vp_state :: PaneState
  vp_mic :: VoiceMicState
  vp_activation :: string
  vp_wake_phrase_enabled :: bool
  vp_queue_len :: int
  vp_load_shed :: bool
  vp_macros :: "VoiceMacroQt list"
  vp_styles :: "VoiceStyleQt list"
  vp_subtitles :: "SubtitleLineQt list"
  vp_approve_requested :: string
  vp_last_message :: string

definition VoicePaneQt_new :: VoicePaneQt where
  "VoicePaneQt_new = \<lparr>vp_state = PsUnavailable, vp_mic = MicOff, vp_activation = ''push-to-talk'',
     vp_wake_phrase_enabled = False, vp_queue_len = 0, vp_load_shed = False, vp_macros = [],
     vp_styles = [], vp_subtitles = [], vp_approve_requested = [], vp_last_message = []\<rparr>"

definition VoicePaneQt_clear :: "VoicePaneQt \<Rightarrow> VoicePaneQt" where
  "VoicePaneQt_clear p = p\<lparr>vp_queue_len := 0, vp_load_shed := False, vp_macros := [], vp_styles := [], vp_subtitles := [],
     vp_approve_requested := []\<rparr>"

definition VoicePaneQt_setState :: "PaneState \<Rightarrow> VoicePaneQt \<Rightarrow> VoicePaneQt" where
  "VoicePaneQt_setState s p = (let p1 = p\<lparr>vp_state := s\<rparr> in if shows_content s then p1 else VoicePaneQt_clear p1)"

datatype voice_pane_op =
    VpState PaneState | VpMic VoiceMicState | VpActivation string | VpWakePhrase bool | VpQueueLen int
  | VpLoadShed bool | VpMacros "VoiceMacroQt list" | VpRequestApprove string | VpStyles "VoiceStyleQt list"
  | VpSubtitles "SubtitleLineQt list" | VpMessage string | VpClear

fun voice_pane_step :: "voice_pane_op \<Rightarrow> VoicePaneQt \<Rightarrow> VoicePaneQt" where
  "voice_pane_step (VpState x) p = VoicePaneQt_setState x p"
| "voice_pane_step (VpMic x) p = p\<lparr>vp_mic := x\<rparr>"
| "voice_pane_step (VpActivation x) p = p\<lparr>vp_activation := x\<rparr>"
| "voice_pane_step (VpWakePhrase x) p = p\<lparr>vp_wake_phrase_enabled := x\<rparr>"
| "voice_pane_step (VpQueueLen x) p = p\<lparr>vp_queue_len := x\<rparr>"
| "voice_pane_step (VpLoadShed x) p = p\<lparr>vp_load_shed := x\<rparr>"
| "voice_pane_step (VpMacros x) p = p\<lparr>vp_macros := x\<rparr>"
| "voice_pane_step (VpRequestApprove x) p = p\<lparr>vp_approve_requested := x\<rparr>"
| "voice_pane_step (VpStyles x) p = p\<lparr>vp_styles := x\<rparr>"
| "voice_pane_step (VpSubtitles x) p = p\<lparr>vp_subtitles := x\<rparr>"
| "voice_pane_step (VpMessage x) p = p\<lparr>vp_last_message := x\<rparr>"
| "voice_pane_step VpClear p = VoicePaneQt_clear p"

section \<open>Help pane\<close>

datatype HelpModeQt = LocalOnly | RemoteRedacted | HelpDisabled

fun HelpPaneQt_modeLabel :: "HelpModeQt \<Rightarrow> string" where
  "HelpPaneQt_modeLabel LocalOnly = ''local-only''"
| "HelpPaneQt_modeLabel RemoteRedacted = ''remote-redacted''"
| "HelpPaneQt_modeLabel HelpDisabled = ''disabled''"

record HelpBubbleQt =
  hb_field_id :: string
  hb_label :: string
  hb_safe_default :: string
  hb_validation_hint :: string
  hb_privacy_note :: string
  hb_doc_link :: string

record CoachStepQt =
  cs_id :: string
  cs_title :: string
  cs_explanation :: string
  cs_proposal :: string
  cs_can_apply :: bool

record CapabilityProbeQt =
  pq_name :: string
  pq_observed :: bool
  pq_evidence :: "string list"
  pq_confirmed :: bool

record SourceIndexQt =
  si_enabled :: bool
  si_local_only :: bool
  si_idle_only :: bool
  si_indexed_entries :: int
  si_secret_skipped :: int
  si_ignored_skipped :: int
  si_removed :: bool

definition SourceIndexQt_new :: SourceIndexQt where
  "SourceIndexQt_new = \<lparr>si_enabled = False, si_local_only = True, si_idle_only = True, si_indexed_entries = 0,
     si_secret_skipped = 0, si_ignored_skipped = 0, si_removed = False\<rparr>"

record HelpPaneQt =
  hp_state :: PaneState
  hp_mode :: HelpModeQt
  hp_bubbles :: "HelpBubbleQt list"
  hp_coach_steps :: "CoachStepQt list"
  hp_capabilities :: "CapabilityProbeQt list"
  hp_source_index :: SourceIndexQt
  hp_open_bubble_requested :: string
  hp_propose_step_requested :: string
  hp_ask_field_id :: string
  hp_ask_sanitized_state :: string
  hp_ask_validation_error :: string
  hp_ask_approved_refs :: "string list"
  hp_last_message :: string

definition HelpPaneQt_new :: HelpPaneQt where
  "HelpPaneQt_new = \<lparr>hp_state = PsUnavailable, hp_mode = LocalOnly, hp_bubbles = [], hp_coach_steps = [],
     hp_capabilities = [], hp_source_index = SourceIndexQt_new, hp_open_bubble_requested = [],
     hp_propose_step_requested = [], hp_ask_field_id = [], hp_ask_sanitized_state = [],
     hp_ask_validation_error = [], hp_ask_approved_refs = [], hp_last_message = []\<rparr>"

definition HelpPaneQt_clear :: "HelpPaneQt \<Rightarrow> HelpPaneQt" where
  "HelpPaneQt_clear p = p\<lparr>hp_bubbles := [], hp_coach_steps := [], hp_capabilities := [],
     hp_source_index := SourceIndexQt_new, hp_open_bubble_requested := [],
     hp_propose_step_requested := [], hp_ask_field_id := [], hp_ask_sanitized_state := [],
     hp_ask_validation_error := [], hp_ask_approved_refs := []\<rparr>"

definition HelpPaneQt_setState :: "PaneState \<Rightarrow> HelpPaneQt \<Rightarrow> HelpPaneQt" where
  "HelpPaneQt_setState s p = (let p1 = p\<lparr>hp_state := s\<rparr> in if shows_content s then p1 else HelpPaneQt_clear p1)"

datatype help_pane_op =
    HpState PaneState | HpBubbles "HelpBubbleQt list" | HpRequestOpen string | HpCoachSteps "CoachStepQt list"
  | HpRequestPropose string | HpMode HelpModeQt | HpAskContext string string string "string list"
  | HpCapabilities "CapabilityProbeQt list" | HpSourceIndex SourceIndexQt | HpMessage string | HpClear

fun help_pane_step :: "help_pane_op \<Rightarrow> HelpPaneQt \<Rightarrow> HelpPaneQt" where
  "help_pane_step (HpState x) p = HelpPaneQt_setState x p"
| "help_pane_step (HpBubbles x) p = p\<lparr>hp_bubbles := x\<rparr>"
| "help_pane_step (HpRequestOpen x) p = p\<lparr>hp_open_bubble_requested := x\<rparr>"
| "help_pane_step (HpCoachSteps x) p = p\<lparr>hp_coach_steps := x\<rparr>"
| "help_pane_step (HpRequestPropose x) p = p\<lparr>hp_propose_step_requested := x\<rparr>"
| "help_pane_step (HpMode x) p = p\<lparr>hp_mode := x\<rparr>"
| "help_pane_step (HpAskContext x0 x1 x2 x3) p = p\<lparr>hp_ask_field_id := x0, hp_ask_sanitized_state := x1, hp_ask_validation_error := x2, hp_ask_approved_refs := x3\<rparr>"
| "help_pane_step (HpCapabilities x) p = p\<lparr>hp_capabilities := x\<rparr>"
| "help_pane_step (HpSourceIndex x) p = p\<lparr>hp_source_index := x\<rparr>"
| "help_pane_step (HpMessage x) p = p\<lparr>hp_last_message := x\<rparr>"
| "help_pane_step HpClear p = HelpPaneQt_clear p"

section \<open>Diagnostics pane\<close>

record TelemetryEventQt =
  eq_event_id :: string
  eq_subsystem :: string
  eq_severity :: string
  eq_fingerprint :: string
  eq_correlation_id :: string
  eq_classification :: string
  eq_redacted :: bool

record ReplaySummaryQt =
  rm_session_id :: string
  rm_app :: string
  rm_git_sha :: string
  rm_event_count :: int
  rm_content_hash :: string

record DiagnosticBundleQt =
  bq_bundle_id :: string
  bq_content_sha256 :: string
  bq_event_count :: int
  bq_bytes :: int
  bq_preview :: string
  bq_approved_for_submission :: bool

definition ReplaySummaryQt_new :: ReplaySummaryQt where
  "ReplaySummaryQt_new = \<lparr>rm_session_id = [], rm_app = [], rm_git_sha = [], rm_event_count = 0, rm_content_hash = []\<rparr>"

definition DiagnosticBundleQt_new :: DiagnosticBundleQt where
  "DiagnosticBundleQt_new = \<lparr>bq_bundle_id = [], bq_content_sha256 = [], bq_event_count = 0, bq_bytes = 0, bq_preview = [],
     bq_approved_for_submission = False\<rparr>"

record DiagnosticsPaneQt =
  dg_state :: PaneState
  dg_capture_enabled :: bool
  dg_capture_requested :: bool
  dg_ring_events :: int
  dg_ring_capacity :: int
  dg_dropped :: u64
  dg_coalesced :: u64
  dg_critical :: int
  dg_error :: int
  dg_warn :: int
  dg_info :: int
  dg_debug :: int
  dg_events :: "TelemetryEventQt list"
  dg_replay :: ReplaySummaryQt
  dg_bundle :: DiagnosticBundleQt
  dg_bundle_approval_requested :: bool
  dg_fixture_ready :: bool
  dg_fixture_requested :: bool
  dg_fixture_approved_voice :: bool
  dg_last_message :: string

definition DiagnosticsPaneQt_new :: DiagnosticsPaneQt where
  "DiagnosticsPaneQt_new = \<lparr>dg_state = PsUnavailable, dg_capture_enabled = False, dg_capture_requested = False,
     dg_ring_events = 0, dg_ring_capacity = 0, dg_dropped = 0, dg_coalesced = 0, dg_critical = 0,
     dg_error = 0, dg_warn = 0, dg_info = 0, dg_debug = 0, dg_events = [],
     dg_replay = ReplaySummaryQt_new, dg_bundle = DiagnosticBundleQt_new,
     dg_bundle_approval_requested = False, dg_fixture_ready = False, dg_fixture_requested = False,
     dg_fixture_approved_voice = False, dg_last_message = []\<rparr>"

definition DiagnosticsPaneQt_clear :: "DiagnosticsPaneQt \<Rightarrow> DiagnosticsPaneQt" where
  "DiagnosticsPaneQt_clear p = p\<lparr>dg_capture_enabled := False, dg_capture_requested := False, dg_ring_events := 0,
     dg_ring_capacity := 0, dg_dropped := 0, dg_coalesced := 0, dg_critical := 0, dg_error := 0,
     dg_warn := 0, dg_info := 0, dg_debug := 0, dg_events := [], dg_replay := ReplaySummaryQt_new,
     dg_bundle := DiagnosticBundleQt_new, dg_bundle_approval_requested := False,
     dg_fixture_ready := False, dg_fixture_requested := False, dg_fixture_approved_voice := False\<rparr>"

definition DiagnosticsPaneQt_setState :: "PaneState \<Rightarrow> DiagnosticsPaneQt \<Rightarrow> DiagnosticsPaneQt" where
  "DiagnosticsPaneQt_setState s p = (let p1 = p\<lparr>dg_state := s\<rparr> in if shows_content s then p1 else DiagnosticsPaneQt_clear p1)"

datatype diagnostics_op =
    DgState PaneState | DgCapture bool | DgRequestCapture bool | DgRing int int | DgDropped u64
  | DgCoalesced u64 | DgSeverities int int int int int | DgEvents "TelemetryEventQt list"
  | DgReplay ReplaySummaryQt | DgBundle DiagnosticBundleQt | DgRequestApprove | DgFixtureReady bool
  | DgRequestFixture bool | DgMessage string | DgClear

fun diagnostics_step :: "diagnostics_op \<Rightarrow> DiagnosticsPaneQt \<Rightarrow> DiagnosticsPaneQt" where
  "diagnostics_step (DgState x) p = DiagnosticsPaneQt_setState x p"
| "diagnostics_step (DgCapture x) p = p\<lparr>dg_capture_enabled := x\<rparr>"
| "diagnostics_step (DgRequestCapture x) p = p\<lparr>dg_capture_requested := x\<rparr>"
| "diagnostics_step (DgRing x0 x1) p = p\<lparr>dg_ring_events := x0, dg_ring_capacity := x1\<rparr>"
| "diagnostics_step (DgDropped x) p = p\<lparr>dg_dropped := x\<rparr>"
| "diagnostics_step (DgCoalesced x) p = p\<lparr>dg_coalesced := x\<rparr>"
| "diagnostics_step (DgSeverities x0 x1 x2 x3 x4) p = p\<lparr>dg_critical := x0, dg_error := x1, dg_warn := x2, dg_info := x3, dg_debug := x4\<rparr>"
| "diagnostics_step (DgEvents x) p = p\<lparr>dg_events := x\<rparr>"
| "diagnostics_step (DgReplay x) p = p\<lparr>dg_replay := x\<rparr>"
| "diagnostics_step (DgBundle x) p = p\<lparr>dg_bundle := x\<rparr>"
| "diagnostics_step DgRequestApprove p = p\<lparr>dg_bundle_approval_requested := True\<rparr>"
| "diagnostics_step (DgFixtureReady x) p = p\<lparr>dg_fixture_ready := x\<rparr>"
| "diagnostics_step (DgRequestFixture x) p = p\<lparr>dg_fixture_requested := True, dg_fixture_approved_voice := x\<rparr>"
| "diagnostics_step (DgMessage x) p = p\<lparr>dg_last_message := x\<rparr>"
| "diagnostics_step DgClear p = DiagnosticsPaneQt_clear p"

section \<open>Renderer pane\<close>

record RendererEmitQt =
  re_id :: string
  re_kind :: string
  re_label :: string
  re_confidence :: int
  re_inferred :: bool
  re_critical :: bool
  re_provenance :: string

record AssetPackQt =
  ap_id :: string
  ap_pack :: string
  ap_license :: string
  ap_provenance :: string
  ap_sha256 :: string
  ap_signed_or_local :: bool
  ap_permissions :: "string list"

record StyleCapsuleQt =
  sq_id :: string
  sq_room_ids :: "string list"
  sq_palette :: "string list"
  sq_provenance :: string

record ClickableExitQt =
  ce_id :: string
  ce_direction :: string
  ce_target_room :: string
  ce_visible :: bool

record RendererPaneQt =
  rp_state :: PaneState
  rp_mode :: string
  rp_queue_len :: int
  rp_drops :: u64
  rp_coalesces :: u64
  rp_frozen :: bool
  rp_emits :: "RendererEmitQt list"
  rp_packs :: "AssetPackQt list"
  rp_capsules :: "StyleCapsuleQt list"
  rp_exits :: "ClickableExitQt list"
  rp_exit_requested :: string
  rp_last_message :: string

definition RendererPaneQt_new :: RendererPaneQt where
  "RendererPaneQt_new = \<lparr>rp_state = PsUnavailable, rp_mode = ''static'', rp_queue_len = 0, rp_drops = 0, rp_coalesces = 0,
     rp_frozen = False, rp_emits = [], rp_packs = [], rp_capsules = [], rp_exits = [],
     rp_exit_requested = [], rp_last_message = []\<rparr>"

definition RendererPaneQt_clear :: "RendererPaneQt \<Rightarrow> RendererPaneQt" where
  "RendererPaneQt_clear p = p\<lparr>rp_queue_len := 0, rp_drops := 0, rp_coalesces := 0, rp_frozen := False, rp_emits := [],
     rp_packs := [], rp_capsules := [], rp_exits := [], rp_exit_requested := []\<rparr>"

definition RendererPaneQt_setState :: "PaneState \<Rightarrow> RendererPaneQt \<Rightarrow> RendererPaneQt" where
  "RendererPaneQt_setState s p = (let p1 = p\<lparr>rp_state := s\<rparr> in if shows_content s then p1 else RendererPaneQt_clear p1)"

datatype renderer_pane_op =
    RpState PaneState | RpMode string | RpQueueLen int | RpDrops u64 | RpCoalesces u64 | RpFrozen bool
  | RpEmits "RendererEmitQt list" | RpPacks "AssetPackQt list" | RpCapsules "StyleCapsuleQt list"
  | RpExits "ClickableExitQt list" | RpRequestExit string | RpMessage string | RpClear

fun renderer_pane_step :: "renderer_pane_op \<Rightarrow> RendererPaneQt \<Rightarrow> RendererPaneQt" where
  "renderer_pane_step (RpState x) p = RendererPaneQt_setState x p"
| "renderer_pane_step (RpMode x) p = p\<lparr>rp_mode := x\<rparr>"
| "renderer_pane_step (RpQueueLen x) p = p\<lparr>rp_queue_len := x\<rparr>"
| "renderer_pane_step (RpDrops x) p = p\<lparr>rp_drops := x\<rparr>"
| "renderer_pane_step (RpCoalesces x) p = p\<lparr>rp_coalesces := x\<rparr>"
| "renderer_pane_step (RpFrozen x) p = p\<lparr>rp_frozen := x\<rparr>"
| "renderer_pane_step (RpEmits x) p = p\<lparr>rp_emits := x\<rparr>"
| "renderer_pane_step (RpPacks x) p = p\<lparr>rp_packs := x\<rparr>"
| "renderer_pane_step (RpCapsules x) p = p\<lparr>rp_capsules := x\<rparr>"
| "renderer_pane_step (RpExits x) p = p\<lparr>rp_exits := x\<rparr>"
| "renderer_pane_step (RpRequestExit x) p = p\<lparr>rp_exit_requested := x\<rparr>"
| "renderer_pane_step (RpMessage x) p = p\<lparr>rp_last_message := x\<rparr>"
| "renderer_pane_step RpClear p = RendererPaneQt_clear p"

section \<open>Power tools pane\<close>

record AutomationDraftQt =
  ad_id :: string
  ad_kind :: string
  ad_name :: string
  ad_body :: string
  ad_approved :: bool
  ad_preview_only :: bool

record ReplayFixtureQt =
  rf_id :: string
  rf_name :: string
  rf_steps :: int
  rf_matched :: int
  rf_last_finished :: bool
  rf_last_denied :: string

record AiDiagnosisQt =
  dq_id :: string
  dq_evidence :: "string list"
  dq_hypothesis :: string
  dq_reproduction :: string
  dq_patch_plan :: string
  dq_tests :: "string list"
  dq_risk :: string
  dq_rollback :: string
  dq_self_certified :: bool
  dq_gate_editable :: bool

record InspectedVariableQt =
  iv_name :: string
  iv_scope :: string
  iv_value :: string

record DebugEventQt =
  de_seq :: u64
  de_at_ms :: u64
  de_source :: string
  de_line :: string
  de_redacted :: bool

record BudgetSampleQt =
  bs_run_id :: string
  bs_kind :: string
  bs_name :: string
  bs_elapsed_ms :: u64
  bs_budget_ms :: u64
  bs_over_budget :: bool

record PowerToolsPaneQt =
  pt_state :: PaneState
  pt_drafts :: "AutomationDraftQt list"
  pt_fixtures :: "ReplayFixtureQt list"
  pt_diagnoses :: "AiDiagnosisQt list"
  pt_variables :: "InspectedVariableQt list"
  pt_timeline :: "DebugEventQt list"
  pt_samples :: "BudgetSampleQt list"
  pt_approve_draft_requested :: string
  pt_last_message :: string

definition PowerToolsPaneQt_new :: PowerToolsPaneQt where
  "PowerToolsPaneQt_new = \<lparr>pt_state = PsUnavailable, pt_drafts = [], pt_fixtures = [], pt_diagnoses = [], pt_variables = [],
     pt_timeline = [], pt_samples = [], pt_approve_draft_requested = [], pt_last_message = []\<rparr>"

definition PowerToolsPaneQt_clear :: "PowerToolsPaneQt \<Rightarrow> PowerToolsPaneQt" where
  "PowerToolsPaneQt_clear p = p\<lparr>pt_drafts := [], pt_fixtures := [], pt_diagnoses := [], pt_variables := [], pt_timeline := [],
     pt_samples := [], pt_approve_draft_requested := []\<rparr>"

definition PowerToolsPaneQt_setState :: "PaneState \<Rightarrow> PowerToolsPaneQt \<Rightarrow> PowerToolsPaneQt" where
  "PowerToolsPaneQt_setState s p = (let p1 = p\<lparr>pt_state := s\<rparr> in if shows_content s then p1 else PowerToolsPaneQt_clear p1)"

datatype power_tools_op =
    PtState PaneState | PtDrafts "AutomationDraftQt list" | PtRequestApprove string
  | PtFixtures "ReplayFixtureQt list" | PtDiagnoses "AiDiagnosisQt list"
  | PtVariables "InspectedVariableQt list" | PtTimeline "DebugEventQt list" | PtSamples "BudgetSampleQt list"
  | PtMessage string | PtClear

fun power_tools_step :: "power_tools_op \<Rightarrow> PowerToolsPaneQt \<Rightarrow> PowerToolsPaneQt" where
  "power_tools_step (PtState x) p = PowerToolsPaneQt_setState x p"
| "power_tools_step (PtDrafts x) p = p\<lparr>pt_drafts := x\<rparr>"
| "power_tools_step (PtRequestApprove x) p = p\<lparr>pt_approve_draft_requested := x\<rparr>"
| "power_tools_step (PtFixtures x) p = p\<lparr>pt_fixtures := x\<rparr>"
| "power_tools_step (PtDiagnoses x) p = p\<lparr>pt_diagnoses := x\<rparr>"
| "power_tools_step (PtVariables x) p = p\<lparr>pt_variables := x\<rparr>"
| "power_tools_step (PtTimeline x) p = p\<lparr>pt_timeline := x\<rparr>"
| "power_tools_step (PtSamples x) p = p\<lparr>pt_samples := x\<rparr>"
| "power_tools_step (PtMessage x) p = p\<lparr>pt_last_message := x\<rparr>"
| "power_tools_step PtClear p = PowerToolsPaneQt_clear p"

section \<open>Assistance pane\<close>

text \<open>Here the message is cleared with the rest.\<close>

record QuestClueQt =
  qc_text :: string
  qc_cited_from :: string

record QuestEntryQt =
  qe_quest_id :: string
  qe_title :: string
  qe_state :: string
  qe_uncertainty :: string
  qe_clues :: "QuestClueQt list"

record TacticalSnapshotQt =
  tq_room :: string
  tq_health_pct :: int
  tq_energy_pct :: int
  tq_threat_level :: string
  tq_nearby_entities :: "string list"
  tq_at_ms :: u64

record NarratorSummaryQt =
  ns_text :: string
  ns_source :: string
  ns_cites :: "string list"
  ns_redacted :: bool
  ns_at_ms :: u64

definition TacticalSnapshotQt_new :: TacticalSnapshotQt where
  "TacticalSnapshotQt_new = \<lparr>tq_room = [], tq_health_pct = 0, tq_energy_pct = 0, tq_threat_level = [],
     tq_nearby_entities = [], tq_at_ms = 0\<rparr>"

record AssistancePaneQt =
  as_state :: PaneState
  as_quests :: "QuestEntryQt list"
  as_has_tactical :: bool
  as_tactical :: TacticalSnapshotQt
  as_summaries :: "NarratorSummaryQt list"
  as_last_message :: string

definition AssistancePaneQt_new :: AssistancePaneQt where
  "AssistancePaneQt_new = \<lparr>as_state = PsUnavailable, as_quests = [], as_has_tactical = False,
     as_tactical = TacticalSnapshotQt_new, as_summaries = [], as_last_message = []\<rparr>"

definition AssistancePaneQt_clear :: "AssistancePaneQt \<Rightarrow> AssistancePaneQt" where
  "AssistancePaneQt_clear p = p\<lparr>as_quests := [], as_has_tactical := False, as_tactical := TacticalSnapshotQt_new,
     as_summaries := [], as_last_message := []\<rparr>"

definition AssistancePaneQt_setState :: "PaneState \<Rightarrow> AssistancePaneQt \<Rightarrow> AssistancePaneQt" where
  "AssistancePaneQt_setState s p = (let p1 = p\<lparr>as_state := s\<rparr> in if shows_content s then p1 else AssistancePaneQt_clear p1)"

datatype assistance_op =
    AsState PaneState | AsQuests "QuestEntryQt list" | AsTactical TacticalSnapshotQt | AsClearTactical
  | AsSummaries "NarratorSummaryQt list" | AsMessage string | AsClear

fun assistance_step :: "assistance_op \<Rightarrow> AssistancePaneQt \<Rightarrow> AssistancePaneQt" where
  "assistance_step (AsState x) p = AssistancePaneQt_setState x p"
| "assistance_step (AsQuests x) p = p\<lparr>as_quests := x\<rparr>"
| "assistance_step (AsTactical x) p = p\<lparr>as_tactical := x, as_has_tactical := True\<rparr>"
| "assistance_step AsClearTactical p = p\<lparr>as_has_tactical := False, as_tactical := TacticalSnapshotQt_new\<rparr>"
| "assistance_step (AsSummaries x) p = p\<lparr>as_summaries := x\<rparr>"
| "assistance_step (AsMessage x) p = p\<lparr>as_last_message := x\<rparr>"
| "assistance_step AsClear p = AssistancePaneQt_clear p"

section \<open>Soul pane\<close>

record SkillRowQt =
  sr_id :: string
  sr_name :: string
  sr_version :: string
  sr_source :: string
  sr_permissions :: "string list"
  sr_evaluation_status :: string
  sr_profile_scope :: string
  sr_enabled :: bool

record MemoryPermissionQt =
  mp_role :: string
  mp_memory_class :: string
  mp_access :: string

record CouncilRowQt =
  cr_council_id :: string
  cr_task :: string
  cr_final_synthesis :: string
  cr_disagreements :: "string list"
  cr_budget_usd_micros :: u64
  cr_permitted :: bool

record SoulPaneQt =
  so_state :: PaneState
  so_soul_name :: string
  so_compiled_prompt :: string
  so_policy_precedence :: "string list"
  so_skills :: "SkillRowQt list"
  so_permissions :: "MemoryPermissionQt list"
  so_council :: "CouncilRowQt list"
  so_last_message :: string

definition SoulPaneQt_new :: SoulPaneQt where
  "SoulPaneQt_new = \<lparr>so_state = PsUnavailable, so_soul_name = [], so_compiled_prompt = [], so_policy_precedence = [],
     so_skills = [], so_permissions = [], so_council = [], so_last_message = []\<rparr>"

definition SoulPaneQt_clear :: "SoulPaneQt \<Rightarrow> SoulPaneQt" where
  "SoulPaneQt_clear p = p\<lparr>so_soul_name := [], so_compiled_prompt := [], so_policy_precedence := [], so_skills := [],
     so_permissions := [], so_council := []\<rparr>"

definition SoulPaneQt_setState :: "PaneState \<Rightarrow> SoulPaneQt \<Rightarrow> SoulPaneQt" where
  "SoulPaneQt_setState s p = (let p1 = p\<lparr>so_state := s\<rparr> in if shows_content s then p1 else SoulPaneQt_clear p1)"

datatype soul_pane_op =
    SoState PaneState | SoSoulName string | SoPrompt string | SoPrecedence "string list"
  | SoSkills "SkillRowQt list" | SoPermissions "MemoryPermissionQt list" | SoCouncil "CouncilRowQt list"
  | SoMessage string | SoClear

fun soul_pane_step :: "soul_pane_op \<Rightarrow> SoulPaneQt \<Rightarrow> SoulPaneQt" where
  "soul_pane_step (SoState x) p = SoulPaneQt_setState x p"
| "soul_pane_step (SoSoulName x) p = p\<lparr>so_soul_name := x\<rparr>"
| "soul_pane_step (SoPrompt x) p = p\<lparr>so_compiled_prompt := x\<rparr>"
| "soul_pane_step (SoPrecedence x) p = p\<lparr>so_policy_precedence := x\<rparr>"
| "soul_pane_step (SoSkills x) p = p\<lparr>so_skills := x\<rparr>"
| "soul_pane_step (SoPermissions x) p = p\<lparr>so_permissions := x\<rparr>"
| "soul_pane_step (SoCouncil x) p = p\<lparr>so_council := x\<rparr>"
| "soul_pane_step (SoMessage x) p = p\<lparr>so_last_message := x\<rparr>"
| "soul_pane_step SoClear p = SoulPaneQt_clear p"

section \<open>Autopilot pane\<close>

record PendingActionQt =
  pa_proposal_id :: string
  pa_command :: string
  pa_requires_confirmation :: bool
  pa_status :: string
  pa_risk_tier :: string

record AutopilotPaneQt =
  au_state :: PaneState
  au_mode :: string
  au_profile :: string
  au_stale_reason :: string
  au_last_action_at_ms :: u64
  au_pending :: "PendingActionQt list"
  au_allowlist :: "string list"
  au_confirm_requested :: string
  au_cancel_requested :: string
  au_emergency_stop_requested :: bool
  au_last_message :: string

definition AutopilotPaneQt_new :: AutopilotPaneQt where
  "AutopilotPaneQt_new = \<lparr>au_state = PsUnavailable, au_mode = [], au_profile = [], au_stale_reason = [],
     au_last_action_at_ms = 0, au_pending = [], au_allowlist = [], au_confirm_requested = [],
     au_cancel_requested = [], au_emergency_stop_requested = False, au_last_message = []\<rparr>"

definition AutopilotPaneQt_clear :: "AutopilotPaneQt \<Rightarrow> AutopilotPaneQt" where
  "AutopilotPaneQt_clear p = p\<lparr>au_mode := [], au_profile := [], au_stale_reason := [], au_last_action_at_ms := 0,
     au_pending := [], au_allowlist := [], au_confirm_requested := [], au_cancel_requested := [],
     au_emergency_stop_requested := False\<rparr>"

definition AutopilotPaneQt_setState :: "PaneState \<Rightarrow> AutopilotPaneQt \<Rightarrow> AutopilotPaneQt" where
  "AutopilotPaneQt_setState s p = (let p1 = p\<lparr>au_state := s\<rparr> in if shows_content s then p1 else AutopilotPaneQt_clear p1)"

datatype autopilot_pane_op =
    AuState PaneState | AuMode string | AuProfile string | AuStaleReason string | AuLastAction u64
  | AuPending "PendingActionQt list" | AuAllowlist "string list" | AuRequestConfirm string
  | AuRequestCancel string | AuRequestStop | AuMessage string | AuClear

fun autopilot_pane_step :: "autopilot_pane_op \<Rightarrow> AutopilotPaneQt \<Rightarrow> AutopilotPaneQt" where
  "autopilot_pane_step (AuState x) p = AutopilotPaneQt_setState x p"
| "autopilot_pane_step (AuMode x) p = p\<lparr>au_mode := x\<rparr>"
| "autopilot_pane_step (AuProfile x) p = p\<lparr>au_profile := x\<rparr>"
| "autopilot_pane_step (AuStaleReason x) p = p\<lparr>au_stale_reason := x\<rparr>"
| "autopilot_pane_step (AuLastAction x) p = p\<lparr>au_last_action_at_ms := x\<rparr>"
| "autopilot_pane_step (AuPending x) p = p\<lparr>au_pending := x\<rparr>"
| "autopilot_pane_step (AuAllowlist x) p = p\<lparr>au_allowlist := x\<rparr>"
| "autopilot_pane_step (AuRequestConfirm x) p = p\<lparr>au_confirm_requested := x\<rparr>"
| "autopilot_pane_step (AuRequestCancel x) p = p\<lparr>au_cancel_requested := x\<rparr>"
| "autopilot_pane_step AuRequestStop p = p\<lparr>au_emergency_stop_requested := True\<rparr>"
| "autopilot_pane_step (AuMessage x) p = p\<lparr>au_last_message := x\<rparr>"
| "autopilot_pane_step AuClear p = AutopilotPaneQt_clear p"

section \<open>Headless adapter\<close>

record HeadlessSessionQt =
  hs_session_id :: string
  hs_state :: string
  hs_room :: string
  hs_last_command :: string
  hs_ai_state :: string
  hs_autopilot_state :: string
  hs_risk_queue_len :: int
  hs_route_label :: string
  hs_token_spend :: u64
  hs_health :: string
  hs_queue_len :: int

record HeadlessAdapterQt =
  ha_state :: PaneState
  ha_sessions :: "HeadlessSessionQt list"
  ha_last_message :: string

definition HeadlessAdapterQt_new :: HeadlessAdapterQt where
  "HeadlessAdapterQt_new = \<lparr>ha_state = PsUnavailable, ha_sessions = [], ha_last_message = []\<rparr>"

definition HeadlessAdapterQt_clear :: "HeadlessAdapterQt \<Rightarrow> HeadlessAdapterQt" where
  "HeadlessAdapterQt_clear p = p\<lparr>ha_sessions := []\<rparr>"

definition HeadlessAdapterQt_setState :: "PaneState \<Rightarrow> HeadlessAdapterQt \<Rightarrow> HeadlessAdapterQt" where
  "HeadlessAdapterQt_setState s p = (let p1 = p\<lparr>ha_state := s\<rparr> in if shows_content s then p1 else HeadlessAdapterQt_clear p1)"

datatype headless_adapter_op =
    HaState PaneState | HaSessions "HeadlessSessionQt list" | HaMessage string | HaClear

fun headless_adapter_step :: "headless_adapter_op \<Rightarrow> HeadlessAdapterQt \<Rightarrow> HeadlessAdapterQt" where
  "headless_adapter_step (HaState x) p = HeadlessAdapterQt_setState x p"
| "headless_adapter_step (HaSessions x) p = p\<lparr>ha_sessions := x\<rparr>"
| "headless_adapter_step (HaMessage x) p = p\<lparr>ha_last_message := x\<rparr>"
| "headless_adapter_step HaClear p = HeadlessAdapterQt_clear p"

section \<open>Every pane forgets what it showed\<close>

interpretation soundscape_pane: pane SoundscapePaneQt_setState ss_state "\<lambda>p. (ss_mode p, ss_last_message p)"
proof
  fix s and p q :: SoundscapePaneQt
  assume "\<not> shows_content s" and "(ss_mode p, ss_last_message p) = (ss_mode q, ss_last_message q)"
  then show "SoundscapePaneQt_setState s p = SoundscapePaneQt_setState s q"
    by (cases p; cases q) (simp add: SoundscapePaneQt_setState_def SoundscapePaneQt_clear_def Let_def)
qed (simp_all add: SoundscapePaneQt_setState_def SoundscapePaneQt_clear_def Let_def)

interpretation voice_pane: pane VoicePaneQt_setState vp_state "\<lambda>p. (vp_mic p, vp_activation p, vp_wake_phrase_enabled p, vp_last_message p)"
proof
  fix s and p q :: VoicePaneQt
  assume "\<not> shows_content s" and "(vp_mic p, vp_activation p, vp_wake_phrase_enabled p, vp_last_message p) = (vp_mic q, vp_activation q, vp_wake_phrase_enabled q, vp_last_message q)"
  then show "VoicePaneQt_setState s p = VoicePaneQt_setState s q"
    by (cases p; cases q) (simp add: VoicePaneQt_setState_def VoicePaneQt_clear_def Let_def)
qed (simp_all add: VoicePaneQt_setState_def VoicePaneQt_clear_def Let_def)

interpretation help_pane: pane HelpPaneQt_setState hp_state "\<lambda>p. (hp_mode p, hp_last_message p)"
proof
  fix s and p q :: HelpPaneQt
  assume "\<not> shows_content s" and "(hp_mode p, hp_last_message p) = (hp_mode q, hp_last_message q)"
  then show "HelpPaneQt_setState s p = HelpPaneQt_setState s q"
    by (cases p; cases q) (simp add: HelpPaneQt_setState_def HelpPaneQt_clear_def Let_def)
qed (simp_all add: HelpPaneQt_setState_def HelpPaneQt_clear_def Let_def)

interpretation diagnostics_pane: pane DiagnosticsPaneQt_setState dg_state "\<lambda>p. dg_last_message p"
proof
  fix s and p q :: DiagnosticsPaneQt
  assume "\<not> shows_content s" and "dg_last_message p = dg_last_message q"
  then show "DiagnosticsPaneQt_setState s p = DiagnosticsPaneQt_setState s q"
    by (cases p; cases q) (simp add: DiagnosticsPaneQt_setState_def DiagnosticsPaneQt_clear_def Let_def)
qed (simp_all add: DiagnosticsPaneQt_setState_def DiagnosticsPaneQt_clear_def Let_def)

interpretation renderer_pane: pane RendererPaneQt_setState rp_state "\<lambda>p. (rp_mode p, rp_last_message p)"
proof
  fix s and p q :: RendererPaneQt
  assume "\<not> shows_content s" and "(rp_mode p, rp_last_message p) = (rp_mode q, rp_last_message q)"
  then show "RendererPaneQt_setState s p = RendererPaneQt_setState s q"
    by (cases p; cases q) (simp add: RendererPaneQt_setState_def RendererPaneQt_clear_def Let_def)
qed (simp_all add: RendererPaneQt_setState_def RendererPaneQt_clear_def Let_def)

interpretation power_tools_pane: pane PowerToolsPaneQt_setState pt_state "\<lambda>p. pt_last_message p"
proof
  fix s and p q :: PowerToolsPaneQt
  assume "\<not> shows_content s" and "pt_last_message p = pt_last_message q"
  then show "PowerToolsPaneQt_setState s p = PowerToolsPaneQt_setState s q"
    by (cases p; cases q) (simp add: PowerToolsPaneQt_setState_def PowerToolsPaneQt_clear_def Let_def)
qed (simp_all add: PowerToolsPaneQt_setState_def PowerToolsPaneQt_clear_def Let_def)

interpretation assistance_pane: pane AssistancePaneQt_setState as_state "\<lambda>p. ()"
proof
  fix s and p q :: AssistancePaneQt
  assume "\<not> shows_content s" and "() = ()"
  then show "AssistancePaneQt_setState s p = AssistancePaneQt_setState s q"
    by (cases p; cases q) (simp add: AssistancePaneQt_setState_def AssistancePaneQt_clear_def Let_def)
qed (simp_all add: AssistancePaneQt_setState_def AssistancePaneQt_clear_def Let_def)

interpretation soul_pane: pane SoulPaneQt_setState so_state "\<lambda>p. so_last_message p"
proof
  fix s and p q :: SoulPaneQt
  assume "\<not> shows_content s" and "so_last_message p = so_last_message q"
  then show "SoulPaneQt_setState s p = SoulPaneQt_setState s q"
    by (cases p; cases q) (simp add: SoulPaneQt_setState_def SoulPaneQt_clear_def Let_def)
qed (simp_all add: SoulPaneQt_setState_def SoulPaneQt_clear_def Let_def)

interpretation autopilot_pane: pane AutopilotPaneQt_setState au_state "\<lambda>p. au_last_message p"
proof
  fix s and p q :: AutopilotPaneQt
  assume "\<not> shows_content s" and "au_last_message p = au_last_message q"
  then show "AutopilotPaneQt_setState s p = AutopilotPaneQt_setState s q"
    by (cases p; cases q) (simp add: AutopilotPaneQt_setState_def AutopilotPaneQt_clear_def Let_def)
qed (simp_all add: AutopilotPaneQt_setState_def AutopilotPaneQt_clear_def Let_def)

interpretation headless_adapter: pane HeadlessAdapterQt_setState ha_state "\<lambda>p. ha_last_message p"
proof
  fix s and p q :: HeadlessAdapterQt
  assume "\<not> shows_content s" and "ha_last_message p = ha_last_message q"
  then show "HeadlessAdapterQt_setState s p = HeadlessAdapterQt_setState s q"
    by (cases p; cases q) (simp add: HeadlessAdapterQt_setState_def HeadlessAdapterQt_clear_def Let_def)
qed (simp_all add: HeadlessAdapterQt_setState_def HeadlessAdapterQt_clear_def Let_def)

section \<open>Properties\<close>

text \<open>
  A closed pane shows nothing of what it was given. Two panes of the same kind that agree on what closing keeps (mode,
  microphone and last message) are equal after both are closed, whatever was shown and requested before.
\<close>

theorem closed_panes_forget:
  "(if shows_content s then True else
     (if ss_mode p = ss_mode q \<and> ss_last_message p = ss_last_message q
      then SoundscapePaneQt_setState s p = SoundscapePaneQt_setState s q else True)
   \<and> (if vp_mic v = vp_mic w \<and> vp_activation v = vp_activation w \<and> vp_wake_phrase_enabled v = vp_wake_phrase_enabled w
        \<and> vp_last_message v = vp_last_message w then VoicePaneQt_setState s v = VoicePaneQt_setState s w else True)
   \<and> (if hp_mode h = hp_mode k \<and> hp_last_message h = hp_last_message k then HelpPaneQt_setState s h = HelpPaneQt_setState s k else True)
   \<and> (if dg_last_message d = dg_last_message e then DiagnosticsPaneQt_setState s d = DiagnosticsPaneQt_setState s e else True)
   \<and> (if rp_mode r = rp_mode t \<and> rp_last_message r = rp_last_message t
      then RendererPaneQt_setState s r = RendererPaneQt_setState s t else True)
   \<and> (if pt_last_message x = pt_last_message y then PowerToolsPaneQt_setState s x = PowerToolsPaneQt_setState s y else True)
   \<and> AssistancePaneQt_setState s a = AssistancePaneQt_setState s b
   \<and> (if so_last_message m = so_last_message n then SoulPaneQt_setState s m = SoulPaneQt_setState s n else True)
   \<and> (if au_last_message f = au_last_message g then AutopilotPaneQt_setState s f = AutopilotPaneQt_setState s g else True)
   \<and> (if ha_last_message i = ha_last_message j then HeadlessAdapterQt_setState s i = HeadlessAdapterQt_setState s j else True))"
proof (cases "shows_content s")
  case False
  show ?thesis
    using soundscape_pane.closed_same [OF False, of p q] voice_pane.closed_same [OF False, of v w]
      help_pane.closed_same [OF False, of h k] diagnostics_pane.closed_same [OF False, of d e]
      renderer_pane.closed_same [OF False, of r t] power_tools_pane.closed_same [OF False, of x y]
      assistance_pane.closed_same [OF False, of a b] soul_pane.closed_same [OF False, of m n]
      autopilot_pane.closed_same [OF False, of f g] headless_adapter.closed_same [OF False, of i j]
    unfolding if_not_P [OF False] by (intro conjI) (auto split: if_splits)
qed simp

text \<open>
  A request for the emergency stop can be lost. The autopilot pane records it for the engine to act on; when the state
  turns to an error or is denied before, the record is cleared with everything else.
\<close>

theorem stop_request_lost:
  "au_emergency_stop_requested (autopilot_pane_step AuRequestStop p)
    \<and> list_all (\<lambda>s. \<not> au_emergency_stop_requested (run autopilot_pane_step [AuRequestStop, AuState s] p))
      [PsDisabled, PsDenied, PsDegraded, PsCanceled, PsUnavailable, PsError]"
  by (simp add: AutopilotPaneQt_setState_def AutopilotPaneQt_clear_def shows_content_def Let_def)

text \<open>
  A request to switch capture off cannot be told from no request: on a new pane it changes nothing.
\<close>

theorem disable_request_invisible: "diagnostics_step (DgRequestCapture False) DiagnosticsPaneQt_new = DiagnosticsPaneQt_new"
  by (simp add: DiagnosticsPaneQt_new_def)

text \<open>
  The message survives closing in every pane but that of the assistance, which clears it with its content.
\<close>

theorem message_after_closing:
  "as_last_message (run assistance_step [AsMessage x, AsState PsError] a) = []
    \<and> ss_last_message (run soundscape_step [SsMessage x, SsState PsError] b) = x
    \<and> so_last_message (run soul_pane_step [SoMessage x, SoState PsError] c) = x"
  by (simp add: AssistancePaneQt_setState_def AssistancePaneQt_clear_def SoundscapePaneQt_setState_def
      SoundscapePaneQt_clear_def SoulPaneQt_setState_def SoulPaneQt_clear_def shows_content_def Let_def)

end
