(* ===== verification/Spec2Isabelle.thy ===== *)
theory Spec2Isabelle
  imports Policy Actions GatewayQt Routing RoutingQt Profiles ProfilesQt WorldStore WorldRoute MapperAgree
    MapperJson Autopilot Privacy FirewallQt AiRouter Soul Quest Agents Headless Danger
    BugFlow BugRouter BugIntake Updater Secrets VaultQt Calendar Replay Telemetry Context Copilot
    WorldBrain TimeMachine WorldBible Narrator Import Packages TokenBudget Debugger BridgeLink Providers
    Help Voice Soundscape Storage Renderer Protocol Editor Terminal UpdaterQt
    Workspace PaneViews
begin

text \<open>
  A verification library for Wiremudder, a MUD client with assistants built on Mudlet. The program's
  own logic lives in two places: the core crates \<open>wirecore/crates/*/src/lib.rs\<close> (Rust), and the
  Qt boundaries \<open>src/wiremudder/*\<close> (C++), which mirror several crates. Around them is the Mudlet
  client. The repository also runs review rules, \<open>dangerfile.js\<close>, on its own pull requests. Files
  with the extension ts are Qt Linguist catalogues, that is translated text, and hold no program.

  The parts and how they interact. A suggestion, from the user, a script or an assistant, becomes a
  proposal of the action gateway, which asks the command policy and the pacing before it sends. The
  autopilot drives that gateway from its own queue. Connections are chosen by the routing store,
  settings by the profile store. The world graph answers route queries. The privacy core decides
  what may leave the machine and the AI router which provider answers. The session scheduler feeds
  commands of several sessions to a handler. The client reaches the core through a bridge: a
  supervisor starts a sidecar process, greets it over a socket and posts frames, which the sidecar
  queues and answers. Lines of the game become typed events and a capsule of
  the state for the assistants; secrets stay in a vault; telemetry and replays are redacted and kept
  on the machine; reports of defects pass a staged workflow, and updates a signature check.

  The theories, each with the source it models.
  \<^item> \<open>Prelude\<close>: text, decimal numbers, \<open>HashMap\<close> and \<open>BTreeMap\<close> as association lists, JSON values,
    and the interfaces: \<open>machine_invariant\<close>, \<open>append_only\<close>, \<open>bounded_waiting\<close>, \<open>simulation\<close>.
  \<^item> \<open>Policy\<close> (wire-policy): risk tiers, the command database, argument checks, pacing. The rate
    limit of pacing and what evaluation confirms.
  \<^item> \<open>Actions\<close> (wire-actions): proposals, the gate, the visible queue, the emergency stop, the audit.
    When a command is sent, what is audited, the silence after the stop.
  \<^item> \<open>GatewayQt\<close> (\<open>command-safety/action_gateway\<close>): the Qt gateway, a simulation of \<open>Actions\<close>.
  \<^item> \<open>Routing\<close> (wire-routing) and \<open>RoutingQt\<close> (\<open>routing/route_profile_store\<close>, \<open>routing/router\<close>): route
    profiles, selection, decision, egress checks; the Qt store simulates the core and its file form
    reads back.
  \<^item> \<open>Profiles\<close> (wire-profiles) and \<open>ProfilesQt\<close> (\<open>profiles/character_profile_store\<close>): profiles with
    sensitive defaults that automation cannot change.
  \<^item> \<open>WorldGraph\<close>, \<open>WorldStore\<close>, \<open>WorldRoute\<close> (wire-world-graph): the graph, its bounds, and the
    correctness of the route search, which is Dijkstra with a lazy heap.
  \<^item> \<open>MapperQt\<close>, \<open>MapperAgree\<close>, \<open>MapperJson\<close> (\<open>mapper/mapper_boundary\<close>): the Qt graph with its scanning
    search, its agreement with the core operation by operation and route by route, its JSON form.
  \<^item> \<open>Autopilot\<close> (wire-autopilot): the engine over \<open>Actions\<close>.
  \<^item> \<open>Privacy\<close> (wire-privacy) and \<open>FirewallQt\<close> (\<open>privacy/privacy_firewall\<close>): egress, overrides, consent
    receipts, redaction; the Qt firewall simulates the core.
  \<^item> \<open>AiRouter\<close> (wire-ai-router): the routing decision and certification.
  \<^item> \<open>Soul\<close> (wire-soul), \<open>Quest\<close> (wire-quest), \<open>Agents\<close> (wire-agents): persona validation, the quest
    log, memory permissions, skills and the council.
  \<^item> \<open>Headless\<close> (wire-headless): sessions and their scheduler, with fairness, conservation of
    commands and the finality of its stop.
  \<^item> \<open>Danger\<close> (\<open>dangerfile.js\<close>): the regular expressions and checks of the review rules.
  \<^item> \<open>BugFlow\<close>, \<open>BugRouter\<close>, \<open>BugIntake\<close> (wire-bug-automation): the staged workflow of a defect and
    its retries, the rings of the priority router, redaction and fingerprint of reports. What a
    finished workflow has passed, the bound on its steps, which report is served.
  \<^item> \<open>Updater\<close> (wire-updater): manifests, their signature and that of artifacts, admission, resumed
    downloads, crash loops. Only published manifests are accepted, versions never go back.
  \<^item> \<open>Secrets\<close> (wire-secrets) and \<open>VaultQt\<close> (\<open>privacy/secret_vault\<close>): the vault over any backend, the
    in-memory backend, redaction of stored secrets; the Qt vault simulates the core.
  \<^item> \<open>Scan\<close>: the redaction scan that telemetry and replays share, with the proof that it ends and
    leaves no marker when the markers do not overlap the replacement.
  \<^item> \<open>Calendar\<close>, \<open>Replay\<close> (wire-replay): the date arithmetic of time stamps against the Gregorian
    calendar; replays, bundles, sanitized fixtures.
  \<^item> \<open>Telemetry\<close> (wire-telemetry): events, redacted details, the ring buffer, the journal with the
    outcomes of its writes (done, not opened, failed after a part of a line) and the recovery from it after a crash.
  \<^item> \<open>Mask\<close>: the interface of redaction in passes, one per marker, and what the passes leave.
  \<^item> \<open>Context\<close> (wire-context): the grammar of lines, the capsule and its bounds, redaction.
  \<^item> \<open>Copilot\<close> (wire-copilot): the engine over \<open>Context\<close> and \<open>AiRouter\<close>, its redaction, confidence,
    explanations and persona checks. The properties of the whole path from the lines of the game to
    a suggestion are at the end of this theory.
  \<^item> \<open>Numbered\<close>, \<open>WorldBrain\<close> (wire-world-brain), \<open>TimeMachine\<close> (wire-time-machine): numbered records in
    key order; the world memory, a map from attributes to values that keeps its history; snapshots
    that are restored only after their approval.
  \<^item> \<open>WorldBible\<close> (wire-world-bible), \<open>Tactical\<close> (wire-tactical): bounded stores of regions and of
    tactical snapshots.
  \<^item> \<open>Narrator\<close> (wire-narrator): texts on quests and on the tactical display; its redaction ends and
    leaves no marker.

  \<^item> \<open>Contracts\<close> (wire-contracts), \<open>Runtime\<close> (wirecore-runtime), \<open>Bridge\<close>
    (\<open>bridge/wirecore_bridge\<close>): the frames of the bridge and their wire form; the sidecar with its
    bounded queue; the supervisor over events of process, socket and timers. \<open>BridgeLink\<close> runs the
    two against each other, from the start of the process to the answers.
  \<^item> \<open>Import\<close> (wire-import): sanitized paths, limits, the scan of Mudlet files, plans whose items are
    disabled.
  \<^item> \<open>Packages\<close> (wire-packages, \<open>packages/package_boundary\<close>): permissions denied by default, quarantine,
    content hashes, in the core and its Qt mirror.
  \<^item> \<open>TokenBudget\<close> (wire-token-budget): caps, the choice between local and remote models, the dashboard,
    the validation of answers.
  \<^item> \<open>Debugger\<close> (wire-debugger): drafts of automation and their approval, replays, the inspector, diagnoses
    from approved evidence, the report of slow scripts.
  \<^item> \<open>Providers\<close> (wire-provider-adapters): the local adapter with its redacted prompts, streams, accounting and
    cancellation, and the disabled remote adapter.
  \<^item> \<open>Glob\<close>, \<open>HelpMask\<close>, \<open>Help\<close> (wire-help): the matching of ignore patterns, which returns and decides
    the language of the pattern for paths without a star; the masking of secrets; the help index,
    whose content and hash do not depend on the order of its sources, the scoped context of a
    question, the capabilities, which follow the evidence, and the opt-in index of local files.
  \<^item> \<open>Voice\<close> (wire-voice): microphone, speech queue, macros, styles, subtitles and the consent for
    remote speech. Bounds, the finality of the stop, approval only under a permitting policy.
  \<^item> \<open>Soundscape\<close> (wire-soundscape): asset packs, bindings, the play queue and its coalescing, timed
    transitions. What plays is vetted, the latest sound of a kind is kept, a transition completes
    when its time is over.
  \<^item> \<open>Storage\<close> (wire-storage): the write queue, migrations, transcripts, search, export and deletion over
    SQLite. Queued writes are exported in order, empty where they hold a NUL; a refused one is lost;
    migrations are idempotent.
  \<^item> \<open>Renderer\<close> (wire-renderer): modes, the queue of visual emits, frames with a budget, packs. Where every
    emit goes, what a frame renders, the bounds of the queue.
  \<^item> \<open>Protocol\<close> (\<open>protocol/protocol_boundary\<close>): the parser of Telnet negotiation, which reads back exactly
    the streams without a verb byte after a doubled escape in text and reads each event off a part of the data of its
    own, and the capabilities seen.
  \<^item> \<open>Editor\<close> (\<open>ui/editor_boundary\<close>): the edit distance, which is the least number of edits, suggestions,
    automatic correction, completion.
  \<^item> \<open>Terminal\<close> (\<open>ui/terminal_boundary\<close>): the pane of raw lines, which keeps the latest ones, the command
    history, a cursor over its entries, and the capture pane.
  \<^item> \<open>UpdaterQt\<close> (\<open>updater/updater_boundary\<close>): the Qt updater, whose admissions agree with \<open>Updater\<close>.
  \<^item> \<open>Workspace\<close> (\<open>ui/workspace_boundary\<close>): gauges, theme and docks, which are a map, and the layout, which
    loads back from its JSON form but for what has no identifier.
  \<^item> \<open>Panes\<close>, \<open>PaneViews\<close> (\<open>ui/*/*_boundary\<close>, \<open>accessibility\<close>, \<open>headless\<close>): the panes of the user interface, which
    hold what is shown and requested; what a closed pane holds does not depend on what it was given.

  The interfaces. A component whose operations keep an invariant is a machine over a datatype of its
  operations and an interpretation of \<open>machine_invariant\<close>; a log that only grows is an \<open>append_only\<close>;
  a Qt mirror is a \<open>simulation\<close> of its crate; the scheduler is a \<open>bounded_waiting\<close>; the vault uses a
  \<open>secret_backend\<close>, whose laws are those of a map; two redactions are a \<open>masking\<close>; the two
  adapters are a \<open>provider_adapter\<close>, and the panes of the user interface are a \<open>pane\<close>. The laws are
  discharged on the model's own definitions, and the properties of whole runs come from the facts
  the interpretations give.

  Conventions. A structure is a record whose fields carry a prefix of their own; an operation that
  changes state takes the state last and returns it, after its result. \<open>Result\<close> is a sum whose left
  side is the error. Text is ASCII. Integers of a width are words and wrap around as a release build
  does; \<open>usize\<close> counts that stay far below the width are naturals. A finite \<open>f64\<close> is its exact
  rational; rounding, infinities and NaN are not modelled. The clock is an argument of the operation
  that reads it. A closure the code calls is an argument, or the value it is called with.

  Bounds and fuel. The loops of the models end by structural recursion or by a measure. The route
  search is total, by the number of rooms not yet visited and the length of its queue, and the walk
  back along its labels is a partial function that is proved to return. So is the redaction scan,
  which returns for the built-in markers and for names that do not overlap the replacement, and
  does not for an empty marker. The argument of the serving
  loop is the number of sessions left to visit, as in the code.

  Parameters. Code outside the repository is an argument of the definitions that use it: serde and
  the text form of JSON, the calls of SQLite, regular expressions of the privacy patterns, \<open>QString::toInt\<close>, SHA-256,
  Ed25519, the keychain, the sockets, files and probes, the review service. Where a property needs
  their documented behaviour, it names it as a hypothesis, and its witness instantiates it.

  Not modelled. The Mudlet client itself, its Lua library and third-party code; widgets, sound,
  drawing and network input and output; catalogues, build files and documents; the zeroing
  of secrets in memory.
\<close>

section \<open>Properties that span components\<close>

text \<open>
  C19: Private messages stay out of the assistant, in every form the grammar takes for one. Lines fed as they are: from the
  lines of the game, through the capsule, the question to the router and the answer of a provider to the suggestion,
  nothing depends on private messages, and with those lines taken out the question and the outcome are the same. Lines
  fed with the collapsing of repeated ones, which compares and counts private messages as well: nothing depends on what
  they say, and with other words in them, different ones staying different, the question and the outcome are the same.
\<close>

theorem assistant_blind_to_private_messages:
  "(let plain = (\<lambda>ls. ds_capsule (run (\<lambda>l d. snd (feed_line l d)) ls Distiller_new));
        collapsed = (\<lambda>ls. ds_capsule (run (\<lambda>l d. snd (feed_line_collapsed l d)) ls Distiller_new));
        ask = (\<lambda>capsule. CopilotEngine_routing_inputs capsule request e);
        outcome = (\<lambda>capsule. CopilotEngine_suggest bytes_of capsule (AiRouter_route routes (ask capsule)) completion e);
        public = filter (\<lambda>l. \<not> private_line l) lines in
    ask (plain lines) = ask (plain public) \<and> outcome (plain lines) = outcome (plain public)
    \<and> (if rewords_private f
       then ask (collapsed lines) = ask (collapsed (map f lines)) \<and> outcome (collapsed lines) = outcome (collapsed (map f lines))
       else True))"
  using reworded_lines [of f Distiller_new Distiller_new lines]
  by (simp add: Let_def private_lines_fed Distiller_new_def)

text \<open>
  The copilot asks local models. It asks in the mode that prefers local routes, so that with remote
  routes declared as the router declares them, for the mode of approved remote calls, the route
  selected for any capsule, request and configuration is a local one of the table.
\<close>

theorem copilot_stays_local:
  assumes "list_all (\<lambda>r. is_remote r = False \<or> rc_min_privacy_mode r = Some RemoteApproved) routes"
  shows "case AiRouter_route routes (CopilotEngine_routing_inputs c request e) of
      RouteSelected i p reason degraded \<Rightarrow>
        \<exists>r \<in> set routes. rc_route_id r = i \<and> rc_provider_id r = p \<and> is_remote r = False
    | _ \<Rightarrow> True"
proof -
  let ?inp = "CopilotEngine_routing_inputs c request e"
  have mode: "ri_privacy_mode ?inp = LocalPreferred"
    by (simp add: CopilotEngine_routing_inputs_def RoutingInputs_new_def Let_def)
  have blocked: "remote_block LocalPreferred r \<noteq> None" if "r \<in> set routes" "is_remote r" for r
    using assms that by (auto simp: list_all_iff remote_block_def privacy_allows_def)
  have "r \<in> set routes \<and> \<not> is_remote r" if "r \<in> set (AiRouter.candidates routes ?inp)" for r
    using candidate_facts [OF that] blocked unfolding mode list_all_iff by (meson option.distinct)
  then show ?thesis
    by (auto split: RoutingDecision.split dest!: route_selected_candidate)
qed

theorem copilot_stays_local_witness:
  "case AiRouter_route [RouteConfig_remote ''r'' ''cloud'' ''m'' 8192 0 9, RouteConfig_local ''l'' ''ollama'' ''m'' 8192 0 9]
      (CopilotEngine_routing_inputs ContextCapsule_empty ''hint''
        (CopilotEngine_new (CopilotConfig_new ''copilot'' ''main'' 2 100 0 512))) of
      RouteSelected i p reason degraded \<Rightarrow>
        \<exists>r \<in> set [RouteConfig_remote ''r'' ''cloud'' ''m'' 8192 0 9, RouteConfig_local ''l'' ''ollama'' ''m'' 8192 0 9].
          rc_route_id r = i \<and> rc_provider_id r = p \<and> is_remote r = False
    | _ \<Rightarrow> True"
  by (rule copilot_stays_local) (simp add: RouteConfig_remote_def RouteConfig_local_def is_remote_def)

end
